(* ===== verification/Prelude.thy ===== *)
theory Prelude
  imports Complex_Main "HOL-Library.Sublist" "HOL-Library.AList" "HOL-Library.Product_Lexorder"
begin

text \<open>
  Shared vocabulary of the development: the JavaScript primitives the modelled code uses
  (array reads, nullish defaults, \<open>Math.round\<close>, ASCII case folding, substring tests,
  stable \<open>Array.prototype.sort\<close>, callbacks with effects passed to \<open>filter\<close>) and the
  generic lemmas about them.

  Numbers are exact rationals: the code's arithmetic on times, scores and percentages is
  modelled without IEEE rounding, NaN and infinities. Strings are lists of 8-bit
  characters and case folding is the ASCII one.
\<close>

named_theorems js_simps \<open>unfolding rules for the JavaScript primitives\<close>

type_synonym num = rat
type_synonym millis = rat

section \<open>Values\<close>

text \<open>The operator \<open>x ?? d\<close>.\<close>

definition nullish :: "'a option \<Rightarrow> 'a \<Rightarrow> 'a" where
  "nullish x d = (case x of None \<Rightarrow> d | Some v \<Rightarrow> v)"

lemma nullish_None [simp]: "nullish None d = d"
  and nullish_Some [simp]: "nullish (Some v) d = v"
  by (simp_all add: nullish_def)

text \<open>Truthiness of an optional string and of an optional number.\<close>

definition truthy_str :: "string option \<Rightarrow> bool" where
  "truthy_str x = (case x of None \<Rightarrow> False | Some s \<Rightarrow> s \<noteq> [])"

definition truthy_num :: "num option \<Rightarrow> bool" where
  "truthy_num x = (case x of None \<Rightarrow> False | Some n \<Rightarrow> n \<noteq> 0)"

lemma truthy_str_simps [simp]:
  "truthy_str None = False" "truthy_str (Some s) = (s \<noteq> [])"
  by (simp_all add: truthy_str_def)

lemma truthy_num_simps [simp]:
  "truthy_num None = False" "truthy_num (Some n) = (n \<noteq> 0)"
  by (simp_all add: truthy_num_def)

text \<open>An array read \<open>xs[i]\<close>: \<open>undefined\<close> outside the array.\<close>

definition nth_opt :: "'a list \<Rightarrow> int \<Rightarrow> 'a option" where
  "nth_opt xs i = (if 0 \<le> i \<and> nat i < length xs then Some (xs ! nat i) else None)"

lemma nth_opt_Some_iff:
  "nth_opt xs i = Some x \<longleftrightarrow> 0 \<le> i \<and> nat i < length xs \<and> xs ! nat i = x"
  by (auto simp: nth_opt_def)

lemma nth_opt_None_iff: "nth_opt xs i = None \<longleftrightarrow> i < 0 \<or> int (length xs) \<le> i"
  by (auto simp: nth_opt_def)

lemma nth_opt_in_set: "nth_opt xs i = Some x \<Longrightarrow> x \<in> set xs"
  by (auto simp: nth_opt_Some_iff)

lemma nth_opt_of_nat [simp]: "n < length xs \<Longrightarrow> nth_opt xs (int n) = Some (xs ! n)"
  by (simp add: nth_opt_def)

text \<open>\<open>Math.round\<close> rounds halves up.\<close>

definition js_round :: "num \<Rightarrow> int" where
  "js_round x = \<lfloor>x + 1 / 2\<rfloor>"

lemma js_round_bounds: "x - 1 / 2 < of_int (js_round x) \<and> of_int (js_round x) \<le> x + 1 / 2"
proof -
  have "of_int \<lfloor>x + 1 / 2\<rfloor> \<le> x + 1 / 2" by (rule of_int_floor_le)
  moreover have "x + 1 / 2 < of_int \<lfloor>x + 1 / 2\<rfloor> + 1" by linarith
  ultimately show ?thesis by (simp add: js_round_def)
qed

lemma js_round_mono: "x \<le> y \<Longrightarrow> js_round x \<le> js_round y"
  by (simp add: js_round_def floor_mono)

lemma js_round_of_int [simp]: "js_round (of_int k) = k"
  by (simp add: js_round_def floor_eq_iff)

section \<open>Strings\<close>

definition lower_char :: "char \<Rightarrow> char" where
  "lower_char c = (let n = (of_char c :: nat) in if 65 \<le> n \<and> n \<le> 90 then char_of (n + 32) else c)"

definition upper_char :: "char \<Rightarrow> char" where
  "upper_char c = (let n = (of_char c :: nat) in if 97 \<le> n \<and> n \<le> 122 then char_of (n - 32) else c)"

text \<open>Bitwise code equations, so that evaluation in the kernel stays cheap.\<close>

lemma lower_char_code [code]:
  "lower_char (Char b0 b1 b2 b3 b4 b5 b6 b7) =
     (if \<not> b7 \<and> b6 \<and> \<not> b5 \<and> (b0 \<or> b1 \<or> b2 \<or> b3 \<or> b4) \<and> \<not> (b4 \<and> b3 \<and> (b2 \<or> b1 \<and> b0))
      then Char b0 b1 b2 b3 b4 True b6 b7 else Char b0 b1 b2 b3 b4 b5 b6 b7)"
  by (cases b0; cases b1; cases b2; cases b3; cases b4; cases b5; cases b6; cases b7;
      simp add: lower_char_def char_of_def bit_iff_odd)

lemma upper_char_code [code]:
  "upper_char (Char b0 b1 b2 b3 b4 b5 b6 b7) =
     (if \<not> b7 \<and> b6 \<and> b5 \<and> (b0 \<or> b1 \<or> b2 \<or> b3 \<or> b4) \<and> \<not> (b4 \<and> b3 \<and> (b2 \<or> b1 \<and> b0))
      then Char b0 b1 b2 b3 b4 False b6 b7 else Char b0 b1 b2 b3 b4 b5 b6 b7)"
  by (cases b0; cases b1; cases b2; cases b3; cases b4; cases b5; cases b6; cases b7;
      simp add: upper_char_def char_of_def bit_iff_odd)

definition to_lower :: "string \<Rightarrow> string" where
  "to_lower s = map lower_char s"

definition to_upper :: "string \<Rightarrow> string" where
  "to_upper s = map upper_char s"

lemma length_to_lower [simp]: "length (to_lower s) = length s"
  by (simp add: to_lower_def)

lemma to_lower_append: "to_lower (s @ t) = to_lower s @ to_lower t"
  by (simp add: to_lower_def)

lemma to_lower_Nil [simp]: "to_lower [] = []"
  by (simp add: to_lower_def)

lemma lower_char_idem: "lower_char (lower_char c) = lower_char c"
  by (simp add: lower_char_def Let_def)

lemma to_lower_idem [simp]: "to_lower (to_lower s) = to_lower s"
  by (simp add: to_lower_def lower_char_idem)

text \<open>\<open>s.startsWith(p)\<close>, \<open>s.endsWith(p)\<close> and \<open>s.includes(p)\<close>.\<close>

definition starts_with :: "string \<Rightarrow> string \<Rightarrow> bool" where
  "starts_with s p = (take (length p) s = p)"

definition ends_with :: "string \<Rightarrow> string \<Rightarrow> bool" where
  "ends_with s p = (length p \<le> length s \<and> drop (length s - length p) s = p)"

fun str_includes :: "string \<Rightarrow> string \<Rightarrow> bool" where
  "str_includes [] p = (p = [])"
| "str_includes (c # s) p = (starts_with (c # s) p \<or> str_includes s p)"

lemma starts_with_code [code]:
  "starts_with s [] = True"
  "starts_with [] (c # p) = False"
  "starts_with (d # s) (c # p) = (d = c \<and> starts_with s p)"
  by (simp_all add: starts_with_def)

lemma ends_with_code [code]: "ends_with s p = starts_with (rev s) (rev p)"
proof -
  have "take (length p) (rev s) = rev p \<longleftrightarrow> length p \<le> length s \<and> drop (length s - length p) s = p"
    by (metis length_rev length_take min.absorb_iff2 min.cobounded1 rev_rev_ident take_rev)
  then show ?thesis by (simp add: ends_with_def starts_with_def)
qed

lemma starts_with_prefix: "starts_with s p = prefix p s"
  by (auto simp: starts_with_def prefix_def) (metis append_take_drop_id)

lemma ends_with_suffix: "ends_with s p = suffix p s"
  by (auto simp: ends_with_def suffix_def) (metis append_take_drop_id)

lemma str_includes_sublist: "str_includes s p = sublist p s"
  by (induction s) (auto simp: starts_with_prefix sublist_Cons_right)

lemma starts_with_append [simp]: "starts_with (p @ s) p"
  by (simp add: starts_with_def)

text \<open>\<open>s.trim()\<close>: the white space of JavaScript among 8-bit characters.\<close>

definition js_space :: "char \<Rightarrow> bool" where
  "js_space c = (c \<in> {CHR 0x09, CHR 0x0A, CHR 0x0B, CHR 0x0C, CHR 0x0D, CHR 0x20, CHR 0xA0})"

definition js_trim :: "string \<Rightarrow> string" where
  "js_trim s = rev (dropWhile js_space (rev (dropWhile js_space s)))"

lemma dropWhile_id: "xs = [] \<or> \<not> P (hd xs) \<Longrightarrow> dropWhile P xs = xs"
  by (cases xs) auto

lemma hd_rev_dropWhile_rev: "ys \<noteq> [] \<Longrightarrow> \<not> P (hd ys) \<Longrightarrow> rev (dropWhile P (rev ys)) \<noteq> [] \<and> hd (rev (dropWhile P (rev ys))) = hd ys"
proof -
  assume ys: "ys \<noteq> []" "\<not> P (hd ys)"
  then obtain y zs where yz: "ys = y # zs" "\<not> P y" by (cases ys) auto
  have "dropWhile P (rev zs @ [y]) = dropWhile P (rev zs) @ [y]"
    using yz(2) by (induction "rev zs" arbitrary: zs) (auto simp: dropWhile_append)
  then show "rev (dropWhile P (rev ys)) \<noteq> [] \<and> hd (rev (dropWhile P (rev ys))) = hd ys"
    by (simp add: yz(1))
qed

lemma js_trim_idem [simp]: "js_trim (js_trim s) = js_trim s"
proof (cases "dropWhile js_space s = []")
  case True
  show ?thesis unfolding js_trim_def True by simp
next
  case False
  let ?y = "dropWhile js_space s"
  let ?t = "rev (dropWhile js_space (rev ?y))"
  have h: "\<not> js_space (hd ?y)" using False by (rule hd_dropWhile)
  have t: "?t \<noteq> []" "hd ?t = hd ?y" using hd_rev_dropWhile_rev [where P = js_space, OF False h] by blast+
  have 1: "dropWhile js_space ?t = ?t" by (rule dropWhile_id) (use t h in simp)
  have "rev ?t = [] \<or> \<not> js_space (hd (rev ?t))"
    using t(1) hd_dropWhile [of js_space "rev ?y"] by auto
  then have 2: "dropWhile js_space (rev ?t) = rev ?t" by (rule dropWhile_id)
  show ?thesis unfolding js_trim_def 1 2 by simp
qed

section \<open>Lists\<close>

lemma map_filter_append: "List.map_filter f (xs @ ys) = List.map_filter f xs @ List.map_filter f ys"
  by (simp add: List.map_filter_def)

lemma set_map_filter_conv: "set (List.map_filter f xs) = {y. \<exists>x \<in> set xs. f x = Some y}"
  by (force simp: List.map_filter_def)

lemma find_Some_member: "find P xs = Some x \<Longrightarrow> x \<in> set xs \<and> P x"
  by (induction xs) (auto split: if_splits)

section \<open>Callbacks with effects\<close>

text \<open>
  \<open>xs.filter(f)\<close> and \<open>xs.map(f)\<close> for a callback that also updates the state, called on
  the elements from first to last.
\<close>

fun filter_st :: "('a \<Rightarrow> 's \<Rightarrow> bool \<times> 's) \<Rightarrow> 'a list \<Rightarrow> 's \<Rightarrow> 'a list \<times> 's" where
  "filter_st f [] s = ([], s)"
| "filter_st f (x # xs) s =
     (let (keep, s1) = f x s; (ys, s2) = filter_st f xs s1
      in (if keep then x # ys else ys, s2))"

fun map_st :: "('a \<Rightarrow> 's \<Rightarrow> 'b \<times> 's) \<Rightarrow> 'a list \<Rightarrow> 's \<Rightarrow> 'b list \<times> 's" where
  "map_st f [] s = ([], s)"
| "map_st f (x # xs) s =
     (let (y, s1) = f x s; (ys, s2) = map_st f xs s1 in (y # ys, s2))"

text \<open>
  When every call keeps a relation \<open>R\<close> between the first state and the current one, and
  the value of the callback is determined by the first state along \<open>R\<close>, the stateful
  filter computes the plain one.
\<close>

lemma filter_st_pure:
  assumes "\<And>x s'. x \<in> set xs \<Longrightarrow> R s s' \<Longrightarrow> fst (f x s') = P x \<and> R s (snd (f x s'))"
    and "R s s0"
  shows "fst (filter_st f xs s0) = filter P xs \<and> R s (snd (filter_st f xs s0))"
  using assms
proof (induction xs arbitrary: s0)
  case Nil
  then show ?case by simp
next
  case (Cons x xs)
  obtain k s1 where f: "f x s0 = (k, s1)" by fastforce
  with Cons.prems have "k = P x" "R s s1" by fastforce+
  with Cons.IH [of s1] Cons.prems(1) f show ?case
    by (auto simp: split_beta)
qed

lemma map_st_pure:
  assumes "\<And>x s'. x \<in> set xs \<Longrightarrow> R s s' \<Longrightarrow> fst (f x s') = g x \<and> R s (snd (f x s'))"
    and "R s s0"
  shows "fst (map_st f xs s0) = map g xs \<and> R s (snd (map_st f xs s0))"
  using assms
proof (induction xs arbitrary: s0)
  case Nil
  then show ?case by simp
next
  case (Cons x xs)
  obtain y s1 where f: "f x s0 = (y, s1)" by fastforce
  with Cons.prems have "y = g x" "R s s1" by fastforce+
  with Cons.IH [of s1] Cons.prems(1) f show ?case
    by (auto simp: split_beta)
qed

lemma map_st_all:
  assumes "\<And>x s'. x \<in> set xs \<Longrightarrow> R s' \<Longrightarrow> Q x (fst (f x s')) \<and> R (snd (f x s'))"
    and "R s0"
  shows "(\<forall>y \<in> set (fst (map_st f xs s0)). \<exists>x \<in> set xs. Q x y) \<and> R (snd (map_st f xs s0))"
  using assms
proof (induction xs arbitrary: s0)
  case Nil
  then show ?case by simp
next
  case (Cons x xs)
  have "Q x (fst (f x s0))" "R (snd (f x s0))" using Cons.prems by simp_all
  with Cons.IH [of "snd (f x s0)"] Cons.prems(1) show ?case by (simp add: split_beta)
qed

section \<open>Sorting and extrema\<close>

text \<open>
  \<open>xs.sort((a, b) => key(a) - key(b))\<close> is stable, as \<^const>\<open>sort_key\<close> is; a descending
  comparator negates the key.
\<close>

lemma sort_key_hd_min:
  "sort_key f xs = y # ys \<Longrightarrow> x \<in> set xs \<Longrightarrow> f y \<le> f x"
proof -
  assume eq: "sort_key f xs = y # ys" and x: "x \<in> set xs"
  have "sorted (map f (y # ys))" using sorted_sort_key [of f xs] eq by simp
  moreover have "x \<in> set (y # ys)" using x set_sort [of f xs] eq by simp
  ultimately show "f y \<le> f x" by (auto simp: image_iff)
qed

lemma sort_key_Cons_in: "sort_key f xs = y # ys \<Longrightarrow> y \<in> set xs"
  by (metis list.set_intros(1) set_sort)

lemma sort_key_Nil_iff [simp]: "sort_key f xs = [] \<longleftrightarrow> xs = []"
  by (metis length_0_conv length_sort)

text \<open>\<open>Math.min(...xs)\<close> of a non-empty array.\<close>

fun min_list_of :: "num list \<Rightarrow> num" where
  "min_list_of [] = 0"
| "min_list_of [x] = x"
| "min_list_of (x # y # ys) = min x (min_list_of (y # ys))"

lemma min_list_of_in: "xs \<noteq> [] \<Longrightarrow> min_list_of xs \<in> set xs"
  by (induction xs rule: min_list_of.induct) (auto simp: min_def)

lemma min_list_of_le: "x \<in> set xs \<Longrightarrow> min_list_of xs \<le> x"
  by (induction xs rule: min_list_of.induct) (auto simp: min_def)

end
