(* ===== verification/Js_Map.thy ===== *)
theory Js_Map
  imports Prelude
begin

text \<open>
  JavaScript's \<open>Map\<close> (and string-keyed object): an association list in insertion order.
  \<open>get\<close> is \<^const>\<open>map_of\<close>, \<open>set\<close> is \<^const>\<open>AList.update\<close> (an existing key keeps its
  place, a new one goes last) and \<open>delete\<close> is \<^const>\<open>AList.delete\<close>. The interface
  \<open>insertion_map\<close> states what clients rely on; the bounded insertion the code repeats in
  several caches is proved once on top of it.
\<close>

type_synonym ('k, 'v) jsmap = "('k \<times> 'v) list"

definition jm_wf :: "('k, 'v) jsmap \<Rightarrow> bool" where
  "jm_wf m = distinct (map fst m)"

definition jm_has :: "('k, 'v) jsmap \<Rightarrow> 'k \<Rightarrow> bool" where
  "jm_has m k = (map_of m k \<noteq> None)"

lemma jm_wf_Nil [simp]: "jm_wf []"
  by (simp add: jm_wf_def)

lemma jm_wf_update [simp]: "jm_wf m \<Longrightarrow> jm_wf (AList.update k v m)"
  by (simp add: jm_wf_def distinct_update)

lemma jm_wf_delete [simp]: "jm_wf m \<Longrightarrow> jm_wf (AList.delete k m)"
  by (simp add: jm_wf_def distinct_delete)

lemma jm_wf_filter [simp]: "jm_wf m \<Longrightarrow> jm_wf (filter P m)"
  by (simp add: jm_wf_def distinct_map_filter)

lemma jm_has_iff: "jm_has m k \<longleftrightarrow> k \<in> fst ` set m"
  by (simp add: jm_has_def map_of_eq_None_iff)

lemma set_update_subset: "set (AList.update k v m) \<subseteq> insert (k, v) (set m)"
  by (induction m) auto

lemma set_delete_subset: "set (AList.delete k m) \<subseteq> set m"
  by (auto simp: AList.delete_eq)

lemma length_update: "length (AList.update k v m) = (if jm_has m k then length m else Suc (length m))"
  by (induction m) (auto simp: jm_has_def)

lemma length_delete_le: "length (AList.delete k m) \<le> length m"
  by (simp add: AList.delete_eq)

lemma length_delete_lt: "k \<in> fst ` set m \<Longrightarrow> length (AList.delete k m) < length m"
  by (auto simp: AList.delete_eq intro!: length_filter_less)

lemma map_of_filter_keys:
  assumes "jm_wf m"
  shows "map_of (filter P m) k =
     (case map_of m k of None \<Rightarrow> None | Some v \<Rightarrow> if P (k, v) then Some v else None)"
  using assms
proof (induction m)
  case Nil
  then show ?case by simp
next
  case (Cons p m)
  obtain k1 v1 where p: "p = (k1, v1)" by fastforce
  have fresh: "map_of m k1 = None" and wf: "jm_wf m"
    using Cons.prems by (auto simp: p jm_wf_def map_of_eq_None_iff)
  show ?case
    using Cons.IH [OF wf] fresh by (auto simp: p split: option.splits)
qed

section \<open>The interface\<close>

locale insertion_map =
  fixes get :: "'m \<Rightarrow> 'k \<Rightarrow> 'v option"
    and put :: "'k \<Rightarrow> 'v \<Rightarrow> 'm \<Rightarrow> 'm"
    and del :: "'k \<Rightarrow> 'm \<Rightarrow> 'm"
    and size_of :: "'m \<Rightarrow> nat"
    and oldest :: "'m \<Rightarrow> 'k option"
  assumes get_put: "get (put k v m) k' = (if k' = k then Some v else get m k')"
    and get_del: "get (del k m) k' = (if k' = k then None else get m k')"
    and size_put: "size_of (put k v m) = (if get m k = None then Suc (size_of m) else size_of m)"
    and size_del: "get m k \<noteq> None \<Longrightarrow> size_of (del k m) < size_of m"
    and size_del_le: "size_of (del k m) \<le> size_of m"
    and oldest_get: "oldest m = Some k \<Longrightarrow> get m k \<noteq> None"
    and oldest_None: "oldest m = None \<Longrightarrow> size_of m = 0"
begin

text \<open>Evict the oldest entry of a full map that lacks the key, then insert.\<close>

definition evict_put :: "nat \<Rightarrow> 'k \<Rightarrow> 'v \<Rightarrow> 'm \<Rightarrow> 'm" where
  "evict_put cap k v m =
     (let m' = (if get m k \<noteq> None \<or> size_of m < cap then m
                else case oldest m of None \<Rightarrow> m | Some k0 \<Rightarrow> del k0 m)
      in put k v m')"

lemma evict_put_get: "get (evict_put cap k v m) k = Some v"
  by (simp add: evict_put_def get_put)

lemma evict_put_bound:
  assumes "0 < cap" "size_of m \<le> cap"
  shows "size_of (evict_put cap k v m) \<le> cap"
proof (cases "get m k \<noteq> None \<or> size_of m < cap")
  case True
  then show ?thesis using assms by (auto simp: evict_put_def size_put)
next
  case False
  then obtain k0 where k0: "oldest m = Some k0"
    using assms oldest_None [of m] by (cases "oldest m") auto
  then have "size_of (del k0 m) < size_of m" by (intro size_del oldest_get)
  moreover have "get (del k0 m) k = None" using False by (simp add: get_del)
  ultimately show ?thesis using False assms k0 by (simp add: evict_put_def size_put)
qed

text \<open>At most one other key, the oldest one, loses its entry.\<close>

lemma evict_put_frame:
  "k' \<noteq> k \<Longrightarrow> oldest m \<noteq> Some k' \<Longrightarrow> get (evict_put cap k v m) k' = get m k'"
  by (auto simp: evict_put_def Let_def get_put get_del split: option.splits)

lemma evict_put_frame_room:
  "k' \<noteq> k \<Longrightarrow> get m k \<noteq> None \<or> size_of m < cap \<Longrightarrow> get (evict_put cap k v m) k' = get m k'"
  by (auto simp: evict_put_def get_put)

end

definition jm_oldest :: "('k, 'v) jsmap \<Rightarrow> 'k option" where
  "jm_oldest m = (case m of [] \<Rightarrow> None | p # _ \<Rightarrow> Some (fst p))"

interpretation jm: insertion_map map_of AList.update AList.delete length jm_oldest
proof unfold_locales
  fix m :: "('a, 'b) jsmap" and k k' v
  show "map_of (AList.update k v m) k' = (if k' = k then Some v else map_of m k')"
    by (simp add: update_conv)
  show "map_of (AList.delete k m) k' = (if k' = k then None else map_of m k')"
    by (simp add: delete_conv)
  show "length (AList.update k v m) = (if map_of m k = None then Suc (length m) else length m)"
    by (simp add: length_update jm_has_def)
  show "map_of m k \<noteq> None \<Longrightarrow> length (AList.delete k m) < length m"
    by (rule length_delete_lt) (simp add: map_of_eq_None_iff)
  show "length (AList.delete k m) \<le> length m" by (rule length_delete_le)
  show "jm_oldest m = Some k \<Longrightarrow> map_of m k \<noteq> None"
    by (auto simp: jm_oldest_def map_of_eq_None_iff split: list.splits)
  show "jm_oldest m = None \<Longrightarrow> length m = 0"
    by (simp add: jm_oldest_def split: list.splits)
qed

end
