(* ===== verification/Rotation.thy ===== *)
theory Rotation
  imports Js_Map
begin

text \<open>
  \<^verbatim>\<open>packages/core/src/rotation.ts\<close>: classification of rate-limit replies, backoff
  delays, the health-score tracker, jitter, LRU ordering, the hybrid choice of an account,
  the token-bucket tracker and the process-wide tracker singletons.

  A tracker is a record of its \<open>Map\<close> and its configuration; the clock is read once per
  call and passed as \<open>now\<close>. Both trackers are keyed by account index and rekeyed by
  \<open>reindexMap\<close> when accounts move; the locale \<open>index_tracker\<close> states that contract.
\<close>

section \<open>Rate-limit replies and backoff\<close>

datatype RateLimitReason =
  QUOTA_EXHAUSTED | RATE_LIMIT_EXCEEDED | MODEL_CAPACITY_EXHAUSTED | SERVER_ERROR | UNKNOWN

definition QUOTA_EXHAUSTED_BACKOFFS :: "millis list" where
  "QUOTA_EXHAUSTED_BACKOFFS = [60000, 300000, 1800000, 7200000]"

definition RATE_LIMIT_EXCEEDED_BACKOFF :: millis where "RATE_LIMIT_EXCEEDED_BACKOFF = 30000"
definition CAPACITY_BASE_BACKOFF :: millis where "CAPACITY_BASE_BACKOFF = 45000"
definition CAPACITY_JITTER_MAX :: millis where "CAPACITY_JITTER_MAX = 30000"
definition SERVER_ERROR_BACKOFF :: millis where "SERVER_ERROR_BACKOFF = 20000"
definition UNKNOWN_BACKOFF :: millis where "UNKNOWN_BACKOFF = 60000"
definition MIN_BACKOFF_MS :: millis where "MIN_BACKOFF_MS = 2000"

lemmas backoff_constants = QUOTA_EXHAUSTED_BACKOFFS_def RATE_LIMIT_EXCEEDED_BACKOFF_def
  CAPACITY_BASE_BACKOFF_def CAPACITY_JITTER_MAX_def SERVER_ERROR_BACKOFF_def
  UNKNOWN_BACKOFF_def MIN_BACKOFF_MS_def

definition reason_of_code :: "string option \<Rightarrow> RateLimitReason option" where
  "reason_of_code reason =
     (case reason of None \<Rightarrow> None
      | Some r \<Rightarrow>
          (let n = to_upper r in
           if n = ''QUOTA_EXHAUSTED'' then Some QUOTA_EXHAUSTED
           else if n = ''RATE_LIMIT_EXCEEDED'' then Some RATE_LIMIT_EXCEEDED
           else if n = ''MODEL_CAPACITY_EXHAUSTED'' then Some MODEL_CAPACITY_EXHAUSTED
           else None))"

definition reason_of_message :: "string option \<Rightarrow> RateLimitReason" where
  "reason_of_message message =
     (case message of None \<Rightarrow> UNKNOWN
      | Some m \<Rightarrow>
          (let n = to_lower m in
           if str_includes n ''capacity'' \<or> str_includes n ''overloaded''
              \<or> str_includes n ''resource exhausted'' then MODEL_CAPACITY_EXHAUSTED
           else if str_includes n ''per minute'' \<or> str_includes n ''rate limit''
              \<or> str_includes n ''too many requests'' \<or> str_includes n ''presque''
             then RATE_LIMIT_EXCEEDED
           else if str_includes n ''exhausted'' \<or> str_includes n ''quota'' then QUOTA_EXHAUSTED
           else UNKNOWN))"

definition parseRateLimitReason ::
  "string option \<Rightarrow> string option \<Rightarrow> int option \<Rightarrow> RateLimitReason" where
  "parseRateLimitReason reason message status =
     (if status = Some 529 \<or> status = Some 503 then MODEL_CAPACITY_EXHAUSTED
      else if status = Some 500 then SERVER_ERROR
      else case reason_of_code reason of Some r \<Rightarrow> r | None \<Rightarrow> reason_of_message message)"

definition calculateBackoffMs ::
  "RateLimitReason \<Rightarrow> int \<Rightarrow> millis option \<Rightarrow> num \<Rightarrow> millis" where
  "calculateBackoffMs reason consecutiveFailures retryAfterMs random =
     (if truthy_num retryAfterMs \<and> 0 < the retryAfterMs
      then max (the retryAfterMs) MIN_BACKOFF_MS
      else case reason of
        QUOTA_EXHAUSTED \<Rightarrow>
          nullish (nth_opt QUOTA_EXHAUSTED_BACKOFFS
                     (min consecutiveFailures (int (length QUOTA_EXHAUSTED_BACKOFFS) - 1)))
            UNKNOWN_BACKOFF
      | RATE_LIMIT_EXCEEDED \<Rightarrow> RATE_LIMIT_EXCEEDED_BACKOFF
      | MODEL_CAPACITY_EXHAUSTED \<Rightarrow>
          CAPACITY_BASE_BACKOFF + random * CAPACITY_JITTER_MAX - CAPACITY_JITTER_MAX / 2
      | SERVER_ERROR \<Rightarrow> SERVER_ERROR_BACKOFF
      | UNKNOWN \<Rightarrow> UNKNOWN_BACKOFF)"

datatype ttl_config = TtlAuto | TtlMinutes num

definition computeSoftQuotaCacheTtlMs :: "ttl_config \<Rightarrow> num \<Rightarrow> millis" where
  "computeSoftQuotaCacheTtlMs cfg refreshIntervalMinutes =
     (case cfg of TtlAuto \<Rightarrow> max (2 * refreshIntervalMinutes) 10 | TtlMinutes n \<Rightarrow> n) * 60 * 1000"

lemma parse_status_first:
  "status = Some 529 \<or> status = Some 503 \<Longrightarrow>
     parseRateLimitReason reason message status = MODEL_CAPACITY_EXHAUSTED"
  by (simp add: parseRateLimitReason_def)

lemma backoff_retry_after:
  "0 < r \<Longrightarrow> calculateBackoffMs reason n (Some r) random = max r MIN_BACKOFF_MS"
  by (simp add: calculateBackoffMs_def)

lemma quota_backoff_schedule:
  "calculateBackoffMs QUOTA_EXHAUSTED n None random =
     (if n < 0 then 60000 else if n = 0 then 60000 else if n = 1 then 300000
      else if n = 2 then 1800000 else 7200000)"
proof -
  consider "n < 0" | "n = 0" | "n = 1" | "n = 2" | "3 \<le> n" by linarith
  then show ?thesis
    by cases (simp_all add: calculateBackoffMs_def backoff_constants nth_opt_def min_def)
qed

lemma quota_backoff_mono:
  "0 \<le> n \<Longrightarrow> n \<le> k \<Longrightarrow>
     calculateBackoffMs QUOTA_EXHAUSTED n None a \<le> calculateBackoffMs QUOTA_EXHAUSTED k None b"
  by (simp add: quota_backoff_schedule)

lemma backoff_range:
  assumes "0 \<le> random" "random < 1"
  shows "MIN_BACKOFF_MS \<le> calculateBackoffMs reason n r random"
    and "\<not> (truthy_num r \<and> 0 < the r) \<Longrightarrow> 20000 \<le> calculateBackoffMs reason n r random"
    and "\<not> (truthy_num r \<and> 0 < the r) \<Longrightarrow> calculateBackoffMs reason n r random \<le> 7200000"
proof -
  have q: "calculateBackoffMs QUOTA_EXHAUSTED n r random = calculateBackoffMs QUOTA_EXHAUSTED n None random"
    if "\<not> (truthy_num r \<and> 0 < the r)"
    unfolding calculateBackoffMs_def using that by (simp only: if_False truthy_num_simps simp_thms)
  show lo: "\<not> (truthy_num r \<and> 0 < the r) \<Longrightarrow> 20000 \<le> calculateBackoffMs reason n r random"
  proof (cases reason)
    case QUOTA_EXHAUSTED
    assume "\<not> (truthy_num r \<and> 0 < the r)"
    then show ?thesis using q QUOTA_EXHAUSTED by (simp add: quota_backoff_schedule)
  qed (use assms in \<open>auto simp: calculateBackoffMs_def backoff_constants\<close>)
  show "\<not> (truthy_num r \<and> 0 < the r) \<Longrightarrow> calculateBackoffMs reason n r random \<le> 7200000"
  proof (cases reason)
    case QUOTA_EXHAUSTED
    assume "\<not> (truthy_num r \<and> 0 < the r)"
    then show ?thesis using q QUOTA_EXHAUSTED by (simp add: quota_backoff_schedule)
  qed (use assms in \<open>auto simp: calculateBackoffMs_def backoff_constants\<close>)
  show "MIN_BACKOFF_MS \<le> calculateBackoffMs reason n r random"
    using lo by (cases "truthy_num r \<and> 0 < the r") (simp_all add: calculateBackoffMs_def MIN_BACKOFF_MS_def)
qed

section \<open>Trackers keyed by account index\<close>

text \<open>\<open>reindexMap\<close>: collect the moved entries in order, clear the map, insert them again.\<close>

definition moved_entries :: "(int, 'v) jsmap \<Rightarrow> (int \<Rightarrow> int option) \<Rightarrow> (int \<times> 'v) list" where
  "moved_entries m mapping =
     List.map_filter (\<lambda>(i, v). map_option (\<lambda>j. (j, v)) (mapping i)) m"

definition reindexMap :: "(int, 'v) jsmap \<Rightarrow> (int \<Rightarrow> int option) \<Rightarrow> (int, 'v) jsmap" where
  "reindexMap m mapping = foldl (\<lambda>acc (j, v). AList.update j v acc) [] (moved_entries m mapping)"

lemma foldl_update_notin:
  "j \<notin> fst ` set xs \<Longrightarrow> map_of (foldl (\<lambda>acc (j, v). AList.update j v acc) a xs) j = map_of a j"
  by (induction xs arbitrary: a) (auto simp: update_conv)

lemma foldl_update_distinct:
  "distinct (map fst xs) \<Longrightarrow> (j, v) \<in> set xs \<Longrightarrow>
     map_of (foldl (\<lambda>acc (j, v). AList.update j v acc) a xs) j = Some v"
proof (induction xs arbitrary: a)
  case Nil
  then show ?case by simp
next
  case (Cons p xs)
  show ?case
  proof (cases "p = (j, v)")
    case True
    then have "j \<notin> fst ` set xs" using Cons.prems(1) by auto
    then show ?thesis using True by (simp add: foldl_update_notin update_conv)
  next
    case False
    then show ?thesis using Cons by (cases p) auto
  qed
qed

lemma foldl_update_wf:
  "jm_wf a \<Longrightarrow> jm_wf (foldl (\<lambda>acc (j, v). AList.update j v acc) a xs)"
  by (induction xs arbitrary: a) auto

lemma set_moved_entries:
  "set (moved_entries m mapping) = {(j, v). \<exists>i. (i, v) \<in> set m \<and> mapping i = Some j}"
  by (force simp: moved_entries_def set_map_filter_conv)

lemma distinct_moved_entries:
  assumes "jm_wf m" "inj_on mapping (dom mapping)"
  shows "distinct (map fst (moved_entries m mapping))"
  using assms(1)
proof (induction m)
  case Nil
  then show ?case by (simp add: moved_entries_def)
next
  case (Cons p m)
  obtain i v where p: "p = (i, v)" by fastforce
  have wf: "jm_wf m" "i \<notin> fst ` set m" using Cons.prems by (auto simp: p jm_wf_def)
  show ?case
  proof (cases "mapping i")
    case None
    then show ?thesis using Cons.IH [OF wf(1)] by (simp add: p moved_entries_def)
  next
    case (Some j)
    have "j \<notin> fst ` set (moved_entries m mapping)"
    proof
      assume "j \<in> fst ` set (moved_entries m mapping)"
      then obtain i' v' where "(i', v') \<in> set m" "mapping i' = Some j"
        by (auto simp: set_moved_entries)
      with Some wf(2) assms(2) show False by (force simp: inj_on_def dom_def)
    qed
    then show ?thesis using Some Cons.IH [OF wf(1)] by (simp add: p moved_entries_def)
  qed
qed

lemma reindexMap_wf [simp]: "jm_wf (reindexMap m mapping)"
  by (simp add: reindexMap_def foldl_update_wf)

lemma reindexMap_moved:
  assumes "jm_wf m" "inj_on mapping (dom mapping)" "mapping i = Some j"
  shows "map_of (reindexMap m mapping) j = map_of m i"
proof (cases "map_of m i")
  case None
  have "j \<notin> fst ` set (moved_entries m mapping)"
  proof
    assume "j \<in> fst ` set (moved_entries m mapping)"
    then obtain i' v' where *: "(i', v') \<in> set m" "mapping i' = Some j"
      by (auto simp: set_moved_entries)
    then have "i' = i" using assms(2,3) by (metis domI inj_onD)
    with * None show False by (force simp: map_of_eq_None_iff)
  qed
  then show ?thesis using None by (simp add: reindexMap_def foldl_update_notin)
next
  case (Some v)
  then have "(j, v) \<in> set (moved_entries m mapping)"
    using assms(3) map_of_SomeD by (fastforce simp: set_moved_entries)
  then show ?thesis using Some assms
    by (simp add: reindexMap_def foldl_update_distinct distinct_moved_entries)
qed

lemma reindexMap_dropped:
  assumes "\<forall>i. mapping i \<noteq> Some j"
  shows "map_of (reindexMap m mapping) j = None"
proof -
  have "j \<notin> fst ` set (moved_entries m mapping)" using assms by (auto simp: set_moved_entries)
  then show ?thesis by (simp add: reindexMap_def foldl_update_notin)
qed

text \<open>The contract of a tracker keyed by index, as the selector relies on it.\<close>

locale index_tracker =
  fixes entry :: "'t \<Rightarrow> int \<Rightarrow> 'v option"
    and reindex :: "'t \<Rightarrow> (int \<Rightarrow> int option) \<Rightarrow> 't"
    and ok :: "'t \<Rightarrow> bool"
  assumes entry_moved: "ok t \<Longrightarrow> inj_on f (dom f) \<Longrightarrow> f i = Some j \<Longrightarrow> entry (reindex t f) j = entry t i"
    and entry_dropped: "\<forall>i. f i \<noteq> Some j \<Longrightarrow> entry (reindex t f) j = None"
    and ok_reindex: "ok t \<Longrightarrow> ok (reindex t f)"
begin

lemma reindex_compose:
  assumes "ok t" "inj_on f (dom f)" "inj_on g (dom g)"
    and "f i = Some j" "g j = Some k"
  shows "entry (reindex (reindex t f) g) k = entry t i"
  using assms by (simp add: entry_moved ok_reindex)

lemma reindex_id: "ok t \<Longrightarrow> entry (reindex t Some) i = entry t i"
  by (rule entry_moved) (auto simp: inj_on_def)

lemma no_inheritance:
  assumes "\<forall>i. f i \<noteq> Some j" "ok t" "inj_on g (dom g)" "g j = Some k"
  shows "entry (reindex (reindex t f) g) k = None"
  using assms by (simp add: entry_moved ok_reindex entry_dropped)

end

section \<open>Health scores\<close>

record HealthScoreConfig =
  hc_initial :: num
  hc_successReward :: num
  hc_rateLimitPenalty :: num
  hc_failurePenalty :: num
  hc_recoveryRatePerHour :: num
  hc_minUsable :: num
  hc_maxScore :: num

definition DEFAULT_HEALTH_SCORE_CONFIG :: HealthScoreConfig where
  "DEFAULT_HEALTH_SCORE_CONFIG =
     \<lparr>hc_initial = 70, hc_successReward = 1, hc_rateLimitPenalty = -10, hc_failurePenalty = -20,
      hc_recoveryRatePerHour = 2, hc_minUsable = 50, hc_maxScore = 100\<rparr>"

record HealthScoreState =
  hs_score :: num
  hs_lastUpdated :: millis
  hs_lastSuccess :: millis
  hs_consecutiveFailures :: nat

record HealthScoreTracker =
  ht_scores :: "(int, HealthScoreState) jsmap"
  ht_config :: HealthScoreConfig

definition new_health_tracker :: "HealthScoreConfig \<Rightarrow> HealthScoreTracker" where
  "new_health_tracker cfg = \<lparr>ht_scores = [], ht_config = cfg\<rparr>"

definition getScore :: "HealthScoreTracker \<Rightarrow> millis \<Rightarrow> int \<Rightarrow> num" where
  "getScore t now i =
     (case map_of (ht_scores t) i of
        None \<Rightarrow> hc_initial (ht_config t)
      | Some st \<Rightarrow>
          (let hoursSinceUpdate = (now - hs_lastUpdated st) / (1000 * 60 * 60);
               recoveredPoints = of_int \<lfloor>hoursSinceUpdate * hc_recoveryRatePerHour (ht_config t)\<rfloor>
           in min (hc_maxScore (ht_config t)) (hs_score st + recoveredPoints)))"

definition ht_set :: "HealthScoreTracker \<Rightarrow> int \<Rightarrow> HealthScoreState \<Rightarrow> HealthScoreTracker" where
  "ht_set t i st = t\<lparr>ht_scores := AList.update i st (ht_scores t)\<rparr>"

definition getConsecutiveFailures :: "HealthScoreTracker \<Rightarrow> int \<Rightarrow> nat" where
  "getConsecutiveFailures t i =
     nullish (map_option hs_consecutiveFailures (map_of (ht_scores t) i)) 0"

definition lastSuccess_of :: "HealthScoreTracker \<Rightarrow> int \<Rightarrow> millis" where
  "lastSuccess_of t i = nullish (map_option hs_lastSuccess (map_of (ht_scores t) i)) 0"

definition recordSuccess :: "HealthScoreTracker \<Rightarrow> millis \<Rightarrow> int \<Rightarrow> HealthScoreTracker" where
  "recordSuccess t now i = ht_set t i
     \<lparr>hs_score = min (hc_maxScore (ht_config t)) (getScore t now i + hc_successReward (ht_config t)),
      hs_lastUpdated = now, hs_lastSuccess = now, hs_consecutiveFailures = 0\<rparr>"

definition recordRateLimit :: "HealthScoreTracker \<Rightarrow> millis \<Rightarrow> int \<Rightarrow> HealthScoreTracker" where
  "recordRateLimit t now i = ht_set t i
     \<lparr>hs_score = max 0 (getScore t now i + hc_rateLimitPenalty (ht_config t)),
      hs_lastUpdated = now, hs_lastSuccess = lastSuccess_of t i,
      hs_consecutiveFailures = getConsecutiveFailures t i + 1\<rparr>"

definition recordFailure :: "HealthScoreTracker \<Rightarrow> millis \<Rightarrow> int \<Rightarrow> HealthScoreTracker" where
  "recordFailure t now i = ht_set t i
     \<lparr>hs_score = max 0 (getScore t now i + hc_failurePenalty (ht_config t)),
      hs_lastUpdated = now, hs_lastSuccess = lastSuccess_of t i,
      hs_consecutiveFailures = getConsecutiveFailures t i + 1\<rparr>"

definition isUsable :: "HealthScoreTracker \<Rightarrow> millis \<Rightarrow> int \<Rightarrow> bool" where
  "isUsable t now i = (hc_minUsable (ht_config t) \<le> getScore t now i)"

definition ht_reset :: "HealthScoreTracker \<Rightarrow> int \<Rightarrow> HealthScoreTracker" where
  "ht_reset t i = t\<lparr>ht_scores := AList.delete i (ht_scores t)\<rparr>"

definition ht_reindex :: "HealthScoreTracker \<Rightarrow> (int \<Rightarrow> int option) \<Rightarrow> HealthScoreTracker" where
  "ht_reindex t mapping = t\<lparr>ht_scores := reindexMap (ht_scores t) mapping\<rparr>"

definition getSnapshot :: "HealthScoreTracker \<Rightarrow> millis \<Rightarrow> (int, num \<times> nat) jsmap" where
  "getSnapshot t now =
     map (\<lambda>(i, _). (i, getScore t now i, getConsecutiveFailures t i)) (ht_scores t)"

definition ht_wf :: "HealthScoreTracker \<Rightarrow> bool" where
  "ht_wf t = jm_wf (ht_scores t)"

interpretation health: index_tracker "\<lambda>t. map_of (ht_scores t)" ht_reindex ht_wf
  by unfold_locales (simp_all add: ht_reindex_def ht_wf_def reindexMap_moved reindexMap_dropped)

lemma ht_config_simps [simp]:
  "ht_config (recordSuccess t now i) = ht_config t"
  "ht_config (recordRateLimit t now i) = ht_config t"
  "ht_config (recordFailure t now i) = ht_config t"
  "ht_config (ht_reset t i) = ht_config t"
  "ht_config (ht_reindex t f) = ht_config t"
  "ht_config (ht_set t i st) = ht_config t"
  by (simp_all add: recordSuccess_def recordRateLimit_def recordFailure_def ht_reset_def
      ht_reindex_def ht_set_def)

lemma getScore_reindex:
  assumes "ht_wf t" "inj_on f (dom f)" "f i = Some j"
  shows "getScore (ht_reindex t f) now j = getScore t now i"
  using health.entry_moved [OF assms] by (simp add: getScore_def split: option.split)

text \<open>
  A configuration is sane when rewards and penalties have their signs and the initial
  score lies in the range; the default one is.
\<close>

definition sane_health :: "HealthScoreConfig \<Rightarrow> bool" where
  "sane_health c = (0 \<le> hc_initial c \<and> hc_initial c \<le> hc_maxScore c \<and> 0 \<le> hc_successReward c
     \<and> hc_rateLimitPenalty c \<le> 0 \<and> hc_failurePenalty c \<le> 0 \<and> 0 \<le> hc_recoveryRatePerHour c)"

lemma sane_default: "sane_health DEFAULT_HEALTH_SCORE_CONFIG"
  by (simp add: sane_health_def DEFAULT_HEALTH_SCORE_CONFIG_def)

datatype health_event = HSuccess int | HRateLimit int | HFailure int | HReset int

fun health_step :: "millis \<Rightarrow> health_event \<Rightarrow> HealthScoreTracker \<Rightarrow> HealthScoreTracker" where
  "health_step now (HSuccess i) t = recordSuccess t now i"
| "health_step now (HRateLimit i) t = recordRateLimit t now i"
| "health_step now (HFailure i) t = recordFailure t now i"
| "health_step now (HReset i) t = ht_reset t i"

text \<open>The trackers reachable from a new one by operations at non-decreasing clock readings.\<close>

inductive health_reach :: "HealthScoreConfig \<Rightarrow> HealthScoreTracker \<Rightarrow> millis \<Rightarrow> bool" for c where
  health_new: "health_reach c (new_health_tracker c) now"
| health_op: "health_reach c t now \<Longrightarrow> now \<le> now' \<Longrightarrow> health_reach c (health_step now' e t) now'"

definition health_inv :: "HealthScoreTracker \<Rightarrow> millis \<Rightarrow> bool" where
  "health_inv t now = (jm_wf (ht_scores t) \<and> sane_health (ht_config t) \<and>
     (\<forall>(i, st) \<in> set (ht_scores t). 0 \<le> hs_score st \<and> hs_score st \<le> hc_maxScore (ht_config t)
        \<and> hs_lastUpdated st \<le> now))"

lemma health_inv_later: "health_inv t now \<Longrightarrow> now \<le> now' \<Longrightarrow> health_inv t now'"
  by (fastforce simp: health_inv_def)

lemma getScore_range:
  assumes inv: "health_inv t now"
  shows "0 \<le> getScore t now i" "getScore t now i \<le> hc_maxScore (ht_config t)"
proof -
  let ?c = "ht_config t"
  have sane: "sane_health ?c" using inv by (simp add: health_inv_def)
  show "getScore t now i \<le> hc_maxScore ?c"
    using sane by (auto simp: getScore_def sane_health_def Let_def split: option.splits)
  show "0 \<le> getScore t now i"
  proof (cases "map_of (ht_scores t) i")
    case None
    then show ?thesis using sane by (simp add: getScore_def sane_health_def)
  next
    case (Some st)
    then have st: "0 \<le> hs_score st" "hs_lastUpdated st \<le> now"
      using inv map_of_SomeD [OF Some] by (auto simp: health_inv_def)
    have "0 \<le> (now - hs_lastUpdated st) / (1000 * 60 * 60) * hc_recoveryRatePerHour ?c"
      using st sane by (simp add: sane_health_def)
    then have "(0::rat) \<le> of_int \<lfloor>(now - hs_lastUpdated st) / (1000 * 60 * 60) * hc_recoveryRatePerHour ?c\<rfloor>"
      by (metis of_int_0_le_iff zero_le_floor)
    moreover have "0 \<le> hc_maxScore ?c" using sane by (simp add: sane_health_def)
    ultimately show ?thesis using Some st by (simp add: getScore_def Let_def)
  qed
qed

lemma health_inv_set:
  assumes "health_inv t now" "0 \<le> hs_score st" "hs_score st \<le> hc_maxScore (ht_config t)"
    "hs_lastUpdated st \<le> now"
  shows "health_inv (ht_set t i st) now"
proof -
  show ?thesis using assms set_update_subset [of i st "ht_scores t"]
    by (auto simp: health_inv_def ht_set_def)
qed

lemma health_step_inv:
  assumes "health_inv t now"
  shows "health_inv (health_step now e t) now"
proof (cases e)
  case (HSuccess i)
  have "0 \<le> hc_successReward (ht_config t)" "0 \<le> hc_maxScore (ht_config t)"
    using assms by (simp_all add: health_inv_def sane_health_def)
  then show ?thesis using HSuccess getScore_range [OF assms, of i]
    by (simp add: recordSuccess_def health_inv_set assms)
next
  case (HRateLimit i)
  have "hc_rateLimitPenalty (ht_config t) \<le> 0" "0 \<le> hc_maxScore (ht_config t)"
    using assms by (simp_all add: health_inv_def sane_health_def)
  then show ?thesis using HRateLimit getScore_range [OF assms, of i]
    by (simp add: recordRateLimit_def health_inv_set assms)
next
  case (HFailure i)
  have "hc_failurePenalty (ht_config t) \<le> 0" "0 \<le> hc_maxScore (ht_config t)"
    using assms by (simp_all add: health_inv_def sane_health_def)
  then show ?thesis using HFailure getScore_range [OF assms, of i]
    by (simp add: recordFailure_def health_inv_set assms)
next
  case (HReset i)
  then show ?thesis using assms
    by (auto simp: ht_reset_def health_inv_def AList.delete_eq)
qed

lemma health_reach_inv:
  "health_reach c t now \<Longrightarrow> sane_health c \<Longrightarrow> health_inv t now \<and> ht_config t = c"
proof (induction rule: health_reach.induct)
  case (health_new now)
  then show ?case by (simp add: health_inv_def new_health_tracker_def)
next
  case (health_op t now now' e)
  have "ht_config (health_step now' e t) = ht_config t" by (cases e) simp_all
  with health_op show ?case by (auto intro: health_inv_later health_step_inv)
qed

section \<open>Jitter\<close>

definition addJitter :: "millis \<Rightarrow> num \<Rightarrow> num \<Rightarrow> int" where
  "addJitter baseMs jitterFactor random =
     (let jitterRange = baseMs * jitterFactor;
          jitter = (random * 2 - 1) * jitterRange
      in max 0 (js_round (baseMs + jitter)))"

definition randomDelay :: "millis \<Rightarrow> millis \<Rightarrow> num \<Rightarrow> int" where
  "randomDelay minMs maxMs random = js_round (minMs + random * (maxMs - minMs))"

lemma scaled_unit_bounds:
  fixes r w :: rat
  assumes "0 \<le> r" "r < 1" "0 \<le> w"
  shows "- w \<le> (r * 2 - 1) * w" "(r * 2 - 1) * w \<le> w"
proof -
  have "0 \<le> r * w" using assms by simp
  moreover have "r * w \<le> 1 * w" using assms by (intro mult_right_mono) simp_all
  ultimately show "- w \<le> (r * 2 - 1) * w" "(r * 2 - 1) * w \<le> w"
    by (simp_all add: algebra_simps)
qed

lemma addJitter_bounds:
  assumes "0 \<le> random" "random < 1" "0 \<le> baseMs" "0 \<le> f" "f \<le> 1"
  shows "js_round (baseMs * (1 - f)) \<le> addJitter baseMs f random"
    and "addJitter baseMs f random \<le> js_round (baseMs * (1 + f))"
proof -
  have w: "0 \<le> baseMs * f" using assms by simp
  note b = scaled_unit_bounds [OF assms(1,2) w]
  have lo: "js_round (baseMs * (1 - f)) \<le> js_round (baseMs + (random * 2 - 1) * (baseMs * f))"
    by (rule js_round_mono) (use b in \<open>simp add: algebra_simps\<close>)
  have hi: "js_round (baseMs + (random * 2 - 1) * (baseMs * f)) \<le> js_round (baseMs * (1 + f))"
    by (rule js_round_mono) (use b in \<open>simp add: algebra_simps\<close>)
  have "js_round 0 \<le> js_round (baseMs * (1 + f))"
    by (rule js_round_mono) (use assms in simp)
  then have "0 \<le> js_round (baseMs * (1 + f))" using js_round_of_int [of 0] by simp
  with lo hi show "js_round (baseMs * (1 - f)) \<le> addJitter baseMs f random"
    "addJitter baseMs f random \<le> js_round (baseMs * (1 + f))"
    by (simp_all add: addJitter_def Let_def)
qed

lemma randomDelay_bounds:
  assumes "0 \<le> random" "random < 1" "(lo::int) \<le> hi"
  shows "lo \<le> randomDelay (of_int lo) (of_int hi) random"
    and "randomDelay (of_int lo) (of_int hi) random \<le> hi"
proof -
  let ?d = "of_int hi - of_int lo :: rat"
  have d: "0 \<le> ?d" using assms(3) by simp
  have "0 \<le> random * ?d" using assms d by simp
  moreover have "random * ?d \<le> 1 * ?d" using assms d by (intro mult_right_mono) simp_all
  ultimately have "js_round (of_int lo) \<le> js_round (of_int lo + random * ?d)"
    "js_round (of_int lo + random * ?d) \<le> js_round (of_int hi)"
    by (simp_all only: js_round_mono le_add_same_cancel1 le_diff_eq add.commute mult_1)
  then show "lo \<le> randomDelay (of_int lo) (of_int hi) random"
    "randomDelay (of_int lo) (of_int hi) random \<le> hi"
    by (simp_all add: randomDelay_def)
qed

section \<open>LRU ordering\<close>

record AccountWithMetrics =
  am_index :: int
  am_lastUsed :: millis
  am_healthScore :: num
  am_isRateLimited :: bool
  am_isCoolingDown :: bool

definition lru_usable :: "num \<Rightarrow> AccountWithMetrics \<Rightarrow> bool" where
  "lru_usable minHealthScore acc =
     (\<not> am_isRateLimited acc \<and> \<not> am_isCoolingDown acc \<and> minHealthScore \<le> am_healthScore acc)"

text \<open>The comparator orders by \<open>lastUsed\<close>, then by descending health.\<close>

definition sortByLruWithHealth :: "AccountWithMetrics list \<Rightarrow> num \<Rightarrow> AccountWithMetrics list" where
  "sortByLruWithHealth accounts minHealthScore =
     sort_key (\<lambda>acc. (am_lastUsed acc, - am_healthScore acc)) (filter (lru_usable minHealthScore) accounts)"

lemma sortByLru_members:
  "set (sortByLruWithHealth accounts h) = {acc \<in> set accounts. lru_usable h acc}"
  by (simp add: sortByLruWithHealth_def)

lemma sortByLru_order:
  assumes "i < j" "j < length (sortByLruWithHealth accounts h)"
  shows "am_lastUsed (sortByLruWithHealth accounts h ! i) < am_lastUsed (sortByLruWithHealth accounts h ! j)
    \<or> (am_lastUsed (sortByLruWithHealth accounts h ! i) = am_lastUsed (sortByLruWithHealth accounts h ! j)
        \<and> am_healthScore (sortByLruWithHealth accounts h ! j) \<le> am_healthScore (sortByLruWithHealth accounts h ! i))"
proof -
  let ?key = "\<lambda>acc :: AccountWithMetrics. (am_lastUsed acc, - am_healthScore acc)"
  let ?xs = "sortByLruWithHealth accounts h"
  have "sorted (map ?key ?xs)" by (simp add: sortByLruWithHealth_def)
  then have "?key (?xs ! i) \<le> ?key (?xs ! j)"
    using assms sorted_nth_mono [of "map ?key ?xs" i j] by simp
  then show ?thesis by (auto simp: less_eq_prod_simp)
qed

section \<open>Token buckets\<close>

record TokenBucketConfig =
  tc_maxTokens :: num
  tc_regenerationRatePerMinute :: num
  tc_initialTokens :: num

definition DEFAULT_TOKEN_BUCKET_CONFIG :: TokenBucketConfig where
  "DEFAULT_TOKEN_BUCKET_CONFIG =
     \<lparr>tc_maxTokens = 50, tc_regenerationRatePerMinute = 6, tc_initialTokens = 50\<rparr>"

record TokenBucketState =
  tb_tokens :: num
  tb_lastUpdated :: millis

record TokenBucketTracker =
  tt_buckets :: "(int, TokenBucketState) jsmap"
  tt_config :: TokenBucketConfig

definition new_token_tracker :: "TokenBucketConfig \<Rightarrow> TokenBucketTracker" where
  "new_token_tracker cfg = \<lparr>tt_buckets = [], tt_config = cfg\<rparr>"

definition getTokens :: "TokenBucketTracker \<Rightarrow> millis \<Rightarrow> int \<Rightarrow> num" where
  "getTokens t now i =
     (case map_of (tt_buckets t) i of
        None \<Rightarrow> tc_initialTokens (tt_config t)
      | Some st \<Rightarrow>
          (let minutesSinceUpdate = (now - tb_lastUpdated st) / (1000 * 60);
               recoveredTokens = minutesSinceUpdate * tc_regenerationRatePerMinute (tt_config t)
           in min (tc_maxTokens (tt_config t)) (tb_tokens st + recoveredTokens)))"

definition hasTokens :: "TokenBucketTracker \<Rightarrow> millis \<Rightarrow> int \<Rightarrow> num \<Rightarrow> bool" where
  "hasTokens t now i cost = (cost \<le> getTokens t now i)"

definition tt_set :: "TokenBucketTracker \<Rightarrow> int \<Rightarrow> TokenBucketState \<Rightarrow> TokenBucketTracker" where
  "tt_set t i st = t\<lparr>tt_buckets := AList.update i st (tt_buckets t)\<rparr>"

definition consume :: "TokenBucketTracker \<Rightarrow> millis \<Rightarrow> int \<Rightarrow> num \<Rightarrow> bool \<times> TokenBucketTracker" where
  "consume t now i cost =
     (let current = getTokens t now i in
      if current < cost then (False, t)
      else (True, tt_set t i \<lparr>tb_tokens = current - cost, tb_lastUpdated = now\<rparr>))"

definition refund :: "TokenBucketTracker \<Rightarrow> millis \<Rightarrow> int \<Rightarrow> num \<Rightarrow> TokenBucketTracker" where
  "refund t now i amount =
     tt_set t i \<lparr>tb_tokens = min (tc_maxTokens (tt_config t)) (getTokens t now i + amount),
                tb_lastUpdated = now\<rparr>"

definition getMaxTokens :: "TokenBucketTracker \<Rightarrow> num" where
  "getMaxTokens t = tc_maxTokens (tt_config t)"

definition tt_reindex :: "TokenBucketTracker \<Rightarrow> (int \<Rightarrow> int option) \<Rightarrow> TokenBucketTracker" where
  "tt_reindex t mapping = t\<lparr>tt_buckets := reindexMap (tt_buckets t) mapping\<rparr>"

definition tt_wf :: "TokenBucketTracker \<Rightarrow> bool" where
  "tt_wf t = jm_wf (tt_buckets t)"

interpretation tokens: index_tracker "\<lambda>t. map_of (tt_buckets t)" tt_reindex tt_wf
  by unfold_locales (simp_all add: tt_reindex_def tt_wf_def reindexMap_moved reindexMap_dropped)

lemma getTokens_reindex:
  assumes "tt_wf t" "inj_on f (dom f)" "f i = Some j"
  shows "getTokens (tt_reindex t f) now j = getTokens t now i"
proof -
  have "tt_config (tt_reindex t f) = tt_config t" by (simp add: tt_reindex_def)
  then show ?thesis using tokens.entry_moved [OF assms] by (simp add: getTokens_def split: option.split)
qed

lemma getTokens_set:
  "getTokens (tt_set t i st) now j =
     (if j = i then min (tc_maxTokens (tt_config t))
        (tb_tokens st + (now - tb_lastUpdated st) / (1000 * 60) * tc_regenerationRatePerMinute (tt_config t))
      else getTokens t now j)"
  by (simp add: getTokens_def tt_set_def update_conv Let_def split: option.split)

definition sane_tokens :: "TokenBucketConfig \<Rightarrow> bool" where
  "sane_tokens c = (0 \<le> tc_initialTokens c \<and> tc_initialTokens c \<le> tc_maxTokens c
     \<and> 0 \<le> tc_regenerationRatePerMinute c)"

definition tokens_inv :: "TokenBucketTracker \<Rightarrow> millis \<Rightarrow> bool" where
  "tokens_inv t now = (jm_wf (tt_buckets t) \<and> sane_tokens (tt_config t) \<and>
     (\<forall>(i, st) \<in> set (tt_buckets t). 0 \<le> tb_tokens st \<and> tb_tokens st \<le> tc_maxTokens (tt_config t)
        \<and> tb_lastUpdated st \<le> now))"

lemma tokens_inv_new: "sane_tokens c \<Longrightarrow> tokens_inv (new_token_tracker c) now"
  by (simp add: tokens_inv_def new_token_tracker_def)

lemma tokens_inv_later: "tokens_inv t now \<Longrightarrow> now \<le> now' \<Longrightarrow> tokens_inv t now'"
  by (fastforce simp: tokens_inv_def)

lemma getTokens_range:
  assumes inv: "tokens_inv t now"
  shows "0 \<le> getTokens t now i" "getTokens t now i \<le> tc_maxTokens (tt_config t)"
proof -
  let ?c = "tt_config t"
  have sane: "sane_tokens ?c" using inv by (simp add: tokens_inv_def)
  show "getTokens t now i \<le> tc_maxTokens ?c"
    using sane by (auto simp: getTokens_def sane_tokens_def Let_def split: option.splits)
  show "0 \<le> getTokens t now i"
  proof (cases "map_of (tt_buckets t) i")
    case None
    then show ?thesis using sane by (simp add: getTokens_def sane_tokens_def)
  next
    case (Some st)
    then have "0 \<le> tb_tokens st" "tb_lastUpdated st \<le> now"
      using inv map_of_SomeD [OF Some] by (auto simp: tokens_inv_def)
    then show ?thesis using Some sane by (auto simp: getTokens_def sane_tokens_def Let_def)
  qed
qed

lemma tokens_inv_set:
  assumes "tokens_inv t now" "0 \<le> tb_tokens st" "tb_tokens st \<le> tc_maxTokens (tt_config t)"
    "tb_lastUpdated st \<le> now"
  shows "tokens_inv (tt_set t i st) now"
  using assms set_update_subset [of i st "tt_buckets t"]
  by (auto simp: tokens_inv_def tt_set_def)

lemma consume_inv:
  assumes "tokens_inv t now" "0 \<le> cost"
  shows "tokens_inv (snd (consume t now i cost)) now"
proof (cases "getTokens t now i < cost")
  case True
  then show ?thesis using assms by (simp add: consume_def)
next
  case False
  then show ?thesis using assms getTokens_range [OF assms(1), of i]
    by (simp add: consume_def tokens_inv_set)
qed

lemma refund_inv:
  assumes "tokens_inv t now" "0 \<le> amount"
  shows "tokens_inv (refund t now i amount) now"
proof -
  have "0 \<le> tc_maxTokens (tt_config t)" using assms by (auto simp: tokens_inv_def sane_tokens_def)
  then show ?thesis using assms getTokens_range [OF assms(1), of i]
    by (simp add: refund_def tokens_inv_set)
qed

lemma consume_effect:
  assumes "tokens_inv t now"
  shows "fst (consume t now i cost) \<longleftrightarrow> cost \<le> getTokens t now i"
    and "fst (consume t now i cost) \<Longrightarrow> 0 \<le> cost \<Longrightarrow>
           getTokens (snd (consume t now i cost)) now i = getTokens t now i - cost"
    and "j \<noteq> i \<Longrightarrow> getTokens (snd (consume t now i cost)) now j = getTokens t now j"
  using getTokens_range [OF assms, of i]
  by (auto simp: consume_def Let_def getTokens_set split: if_splits)

section \<open>Hybrid choice\<close>

definition STICKINESS_BONUS :: num where "STICKINESS_BONUS = 150"
definition SWITCH_THRESHOLD :: num where "SWITCH_THRESHOLD = 100"

definition calculateHybridScore :: "AccountWithMetrics \<Rightarrow> num \<Rightarrow> num \<Rightarrow> millis \<Rightarrow> num" where
  "calculateHybridScore account tokens maxTokens now =
     (let healthComponent = am_healthScore account * 2;
          tokenComponent = (tokens / maxTokens) * 100 * 5;
          secondsSinceUsed = (now - am_lastUsed account) / 1000;
          freshnessComponent = min secondsSinceUsed 3600 * (1 / 10)
      in max 0 (healthComponent + tokenComponent + freshnessComponent))"

record scored_account =
  sc_index :: int
  sc_baseScore :: num
  sc_score :: num
  sc_isCurrent :: bool

definition hybrid_candidate :: "TokenBucketTracker \<Rightarrow> num \<Rightarrow> millis \<Rightarrow> AccountWithMetrics \<Rightarrow> bool" where
  "hybrid_candidate tr minHealthScore now acc =
     (lru_usable minHealthScore acc \<and> hasTokens tr now (am_index acc) 1)"

definition score_account ::
  "TokenBucketTracker \<Rightarrow> int option \<Rightarrow> millis \<Rightarrow> AccountWithMetrics \<Rightarrow> scored_account" where
  "score_account tr current now acc =
     (let baseScore = calculateHybridScore acc (getTokens tr now (am_index acc)) (getMaxTokens tr) now;
          isCurrent = (Some (am_index acc) = current);
          stickinessBonus = (if isCurrent then STICKINESS_BONUS else 0)
      in \<lparr>sc_index = am_index acc, sc_baseScore = baseScore, sc_score = baseScore + stickinessBonus,
          sc_isCurrent = isCurrent\<rparr>)"

definition selectHybridAccount ::
  "AccountWithMetrics list \<Rightarrow> TokenBucketTracker \<Rightarrow> int option \<Rightarrow> num \<Rightarrow> millis \<Rightarrow> int option" where
  "selectHybridAccount accounts tr current minHealthScore now =
     (let candidates = filter (hybrid_candidate tr minHealthScore now) accounts;
          scored = sort_key (\<lambda>x. - sc_score x) (map (score_account tr current now) candidates)
      in case scored of
           [] \<Rightarrow> None
         | best # _ \<Rightarrow>
             (case find sc_isCurrent scored of
                Some cur \<Rightarrow>
                  (if \<not> sc_isCurrent best \<and> sc_baseScore best - sc_baseScore cur < SWITCH_THRESHOLD
                   then Some (sc_index cur) else Some (sc_index best))
              | None \<Rightarrow> Some (sc_index best)))"

text \<open>The reference: the first candidate of maximal score, the bonus included.\<close>

definition best_scored ::
  "AccountWithMetrics list \<Rightarrow> TokenBucketTracker \<Rightarrow> int option \<Rightarrow> num \<Rightarrow> millis \<Rightarrow> scored_account option" where
  "best_scored accounts tr current minHealthScore now =
     (case sort_key (\<lambda>x. - sc_score x)
             (map (score_account tr current now) (filter (hybrid_candidate tr minHealthScore now) accounts))
      of [] \<Rightarrow> None | best # _ \<Rightarrow> Some best)"

lemma best_scored_in:
  "best_scored accounts tr cur h now = Some b \<Longrightarrow>
     \<exists>acc \<in> set accounts. hybrid_candidate tr h now acc \<and> b = score_account tr cur now acc"
  by (auto simp: best_scored_def split: list.splits dest!: sort_key_Cons_in)

lemma best_scored_max:
  assumes "best_scored accounts tr cur h now = Some b" "acc \<in> set accounts" "hybrid_candidate tr h now acc"
  shows "sc_score (score_account tr cur now acc) \<le> sc_score b"
  using assms by (auto simp: best_scored_def split: list.splits dest!: sort_key_hd_min)

lemma best_scored_None_iff:
  "best_scored accounts tr cur h now = None \<longleftrightarrow> (\<forall>acc \<in> set accounts. \<not> hybrid_candidate tr h now acc)"
proof (cases "sort_key (\<lambda>x. - sc_score x)
    (map (score_account tr cur now) (filter (hybrid_candidate tr h now) accounts))")
  case Nil
  then show ?thesis by (simp add: best_scored_def filter_empty_conv)
next
  case (Cons b rest)
  have "b \<in> set (map (score_account tr cur now) (filter (hybrid_candidate tr h now) accounts))"
    using Cons by (rule sort_key_Cons_in)
  then show ?thesis using Cons by (auto simp: best_scored_def)
qed

lemma score_account_base:
  "sc_score (score_account tr cur now acc) = sc_baseScore (score_account tr cur now acc)
     + (if sc_isCurrent (score_account tr cur now acc) then STICKINESS_BONUS else 0)"
  by (simp add: score_account_def Let_def)

lemma score_account_index [simp]: "sc_index (score_account tr cur now acc) = am_index acc"
  by (simp add: score_account_def Let_def)

text \<open>
  A best candidate that is not the current account beats the current one by the bonus, more
  than the threshold asks for, so the threshold test never decides.
\<close>

lemma selectHybrid_best:
  "selectHybridAccount accounts tr cur h now = map_option sc_index (best_scored accounts tr cur h now)"
proof -
  let ?cands = "map (score_account tr cur now) (filter (hybrid_candidate tr h now) accounts)"
  let ?scored = "sort_key (\<lambda>x. - sc_score x) ?cands"
  show ?thesis
  proof (cases ?scored)
    case Nil
    then show ?thesis by (simp add: selectHybridAccount_def best_scored_def)
  next
    case (Cons best rest)
    show ?thesis
    proof (cases "find sc_isCurrent ?scored")
      case None
      then show ?thesis using Cons by (simp add: selectHybridAccount_def best_scored_def Let_def)
    next
      case (Some c)
      have c: "c \<in> set ?cands" "sc_isCurrent c"
        using find_Some_member [OF Some] by (simp_all only: set_sort)
      have b: "best \<in> set ?cands" using Cons by (rule sort_key_Cons_in)
      have le: "sc_score c \<le> sc_score best" using sort_key_hd_min [OF Cons c(1)] by simp
      have "sc_score c = sc_baseScore c + STICKINESS_BONUS"
        using c by (auto simp: score_account_base)
      moreover have "sc_score best = sc_baseScore best" if "\<not> sc_isCurrent best"
        using b that by (auto simp: score_account_base)
      ultimately have "STICKINESS_BONUS \<le> sc_baseScore best - sc_baseScore c" if "\<not> sc_isCurrent best"
        using le that by simp
      then have no: "(\<not> sc_isCurrent best \<and> sc_baseScore best - sc_baseScore c < SWITCH_THRESHOLD) = False"
        by (auto simp: STICKINESS_BONUS_def SWITCH_THRESHOLD_def)
      have Some': "find sc_isCurrent (best # rest) = Some c" using Some Cons by simp
      show ?thesis
        unfolding selectHybridAccount_def best_scored_def Let_def Cons list.case Some' option.case no
        by simp
    qed
  qed
qed

lemma selectHybrid_sound:
  assumes "selectHybridAccount accounts tr cur h now = Some i"
  shows "\<exists>acc \<in> set accounts. am_index acc = i \<and> hybrid_candidate tr h now acc"
  using assms best_scored_in by (fastforce simp: selectHybrid_best)

lemma selectHybrid_None_iff:
  "selectHybridAccount accounts tr cur h now = None \<longleftrightarrow> (\<forall>acc \<in> set accounts. \<not> hybrid_candidate tr h now acc)"
  by (simp add: selectHybrid_best best_scored_None_iff)

section \<open>Process-wide trackers\<close>

record tracker_singletons =
  globalTokenTracker :: "TokenBucketTracker option"
  globalHealthTracker :: "HealthScoreTracker option"

definition getTokenTracker :: "tracker_singletons \<Rightarrow> TokenBucketTracker \<times> tracker_singletons" where
  "getTokenTracker g =
     (case globalTokenTracker g of
        Some t \<Rightarrow> (t, g)
      | None \<Rightarrow> (let t = new_token_tracker DEFAULT_TOKEN_BUCKET_CONFIG
                 in (t, g\<lparr>globalTokenTracker := Some t\<rparr>)))"

definition initTokenTracker ::
  "TokenBucketConfig \<Rightarrow> tracker_singletons \<Rightarrow> TokenBucketTracker \<times> tracker_singletons" where
  "initTokenTracker cfg g =
     (let t = new_token_tracker cfg in (t, g\<lparr>globalTokenTracker := Some t\<rparr>))"

definition getHealthTracker :: "tracker_singletons \<Rightarrow> HealthScoreTracker \<times> tracker_singletons" where
  "getHealthTracker g =
     (case globalHealthTracker g of
        Some t \<Rightarrow> (t, g)
      | None \<Rightarrow> (let t = new_health_tracker DEFAULT_HEALTH_SCORE_CONFIG
                 in (t, g\<lparr>globalHealthTracker := Some t\<rparr>)))"

definition initHealthTracker ::
  "HealthScoreConfig \<Rightarrow> tracker_singletons \<Rightarrow> HealthScoreTracker \<times> tracker_singletons" where
  "initHealthTracker cfg g =
     (let t = new_health_tracker cfg in (t, g\<lparr>globalHealthTracker := Some t\<rparr>))"

lemma getTokenTracker_stable:
  "getTokenTracker (snd (getTokenTracker g)) = (fst (getTokenTracker g), snd (getTokenTracker g))"
  by (simp add: getTokenTracker_def Let_def split: option.split)

lemma getHealthTracker_stable:
  "getHealthTracker (snd (getHealthTracker g)) = (fst (getHealthTracker g), snd (getHealthTracker g))"
  by (simp add: getHealthTracker_def Let_def split: option.split)

end
