(* ===== verification/Model_Registry.thy ===== *)
theory Model_Registry
  imports Js_Map
begin

text \<open>
  \<^verbatim>\<open>packages/core/src/model-registry.ts\<close>: the native model table, the public model
  definitions, resolver aliases, tiered routes, the quota group of a model and the
  recognisers of Argon and retired models. Object literals are association lists and are
  read through their own properties only; anchored regular expressions are written as the
  finite sets of strings they match after the prefixes and suffixes they strip.
\<close>

section \<open>Anchored string rewriting\<close>

definition strip_prefix :: "string \<Rightarrow> string \<Rightarrow> string" where
  "strip_prefix p s = (if starts_with s p then drop (length p) s else s)"

definition strip_suffix :: "string \<Rightarrow> string \<Rightarrow> string" where
  "strip_suffix p s = (if ends_with s p then take (length s - length p) s else s)"

lemma strip_prefix_append [simp]: "strip_prefix p (p @ s) = s"
  by (simp add: strip_prefix_def)

lemma strip_suffix_append [simp]: "strip_suffix p (s @ p) = s"
  by (simp add: strip_suffix_def ends_with_def)

section \<open>Native models\<close>

record AgyNativeModelDefinition =
  nm_displayName :: string
  nm_maxTokens :: "int option"
  nm_maxOutputTokens :: "int option"
  nm_model :: string
  nm_thinkingBudget :: "int option"
  nm_thinkingLevel :: "int option"
  nm_supportsThinking :: "bool option"
  nm_supportsAdaptiveThinking :: "bool option"
  nm_vertexModelId :: "string option"

definition AGY_NATIVE_MODEL_DEFINITIONS :: "(string, AgyNativeModelDefinition) jsmap" where
  "AGY_NATIVE_MODEL_DEFINITIONS =
     [(''gemini-4-argon-low'', \<lparr>nm_displayName = ''Gemini 4 Argon (Low)'', nm_maxTokens = Some 1048576, nm_maxOutputTokens = Some 65536,
        nm_model = ''MODEL_PLACEHOLDER_M419'', nm_thinkingBudget = Some (-1), nm_thinkingLevel = Some 1,
        nm_supportsThinking = Some True, nm_supportsAdaptiveThinking = None, nm_vertexModelId = None\<rparr>),
      (''gemini-4-argon-medium'', \<lparr>nm_displayName = ''Gemini 4 Argon (Medium)'', nm_maxTokens = Some 1048576, nm_maxOutputTokens = Some 65536,
        nm_model = ''MODEL_PLACEHOLDER_M418'', nm_thinkingBudget = Some (-1), nm_thinkingLevel = Some 2,
        nm_supportsThinking = Some True, nm_supportsAdaptiveThinking = None, nm_vertexModelId = None\<rparr>),
      (''gemini-4-argon-high'', \<lparr>nm_displayName = ''Gemini 4 Argon (High)'', nm_maxTokens = Some 1048576, nm_maxOutputTokens = Some 65536,
        nm_model = ''MODEL_PLACEHOLDER_M417'', nm_thinkingBudget = Some (-1), nm_thinkingLevel = Some 3,
        nm_supportsThinking = Some True, nm_supportsAdaptiveThinking = None, nm_vertexModelId = None\<rparr>),
      (''gemini-3.8-flash-high'', \<lparr>nm_displayName = ''Gemini 3.8 Flash (High)'', nm_maxTokens = Some 1048576, nm_maxOutputTokens = Some 65536,
        nm_model = ''MODEL_PLACEHOLDER_M318'', nm_thinkingBudget = Some (-1), nm_thinkingLevel = None,
        nm_supportsThinking = Some True, nm_supportsAdaptiveThinking = None, nm_vertexModelId = None\<rparr>),
      (''gemini-3.8-flash-medium'', \<lparr>nm_displayName = ''Gemini 3.8 Flash (Medium)'', nm_maxTokens = Some 1048576, nm_maxOutputTokens = Some 65536,
        nm_model = ''MODEL_PLACEHOLDER_M319'', nm_thinkingBudget = Some 4000, nm_thinkingLevel = None,
        nm_supportsThinking = Some True, nm_supportsAdaptiveThinking = None, nm_vertexModelId = None\<rparr>),
      (''gemini-3.8-flash-low'', \<lparr>nm_displayName = ''Gemini 3.8 Flash (Low)'', nm_maxTokens = Some 1048576, nm_maxOutputTokens = Some 65536,
        nm_model = ''MODEL_PLACEHOLDER_M320'', nm_thinkingBudget = Some 1000, nm_thinkingLevel = None,
        nm_supportsThinking = Some True, nm_supportsAdaptiveThinking = None, nm_vertexModelId = None\<rparr>),
      (''claude-opus-5-5-low'', \<lparr>nm_displayName = ''Claude Opus 5.5 (Low)'', nm_maxTokens = Some 1000000, nm_maxOutputTokens = Some 128000,
        nm_model = ''MODEL_PLACEHOLDER_M400'', nm_thinkingBudget = None, nm_thinkingLevel = Some 1,
        nm_supportsThinking = Some True, nm_supportsAdaptiveThinking = Some True, nm_vertexModelId = Some ''claude-opus-5-5@default''\<rparr>),
      (''claude-opus-5-5-medium'', \<lparr>nm_displayName = ''Claude Opus 5.5 (Medium)'', nm_maxTokens = Some 1000000, nm_maxOutputTokens = Some 128000,
        nm_model = ''MODEL_PLACEHOLDER_M401'', nm_thinkingBudget = None, nm_thinkingLevel = Some 2,
        nm_supportsThinking = Some True, nm_supportsAdaptiveThinking = Some True, nm_vertexModelId = Some ''claude-opus-5-5@default''\<rparr>),
      (''claude-opus-5-5-high'', \<lparr>nm_displayName = ''Claude Opus 5.5 (High)'', nm_maxTokens = Some 1000000, nm_maxOutputTokens = Some 128000,
        nm_model = ''MODEL_PLACEHOLDER_M402'', nm_thinkingBudget = None, nm_thinkingLevel = Some 3,
        nm_supportsThinking = Some True, nm_supportsAdaptiveThinking = Some True, nm_vertexModelId = Some ''claude-opus-5-5@default''\<rparr>),
      (''claude-sonnet-5-5-low'', \<lparr>nm_displayName = ''Claude Sonnet 5.5 (Low)'', nm_maxTokens = Some 1000000, nm_maxOutputTokens = Some 128000,
        nm_model = ''MODEL_PLACEHOLDER_M403'', nm_thinkingBudget = None, nm_thinkingLevel = Some 1,
        nm_supportsThinking = Some True, nm_supportsAdaptiveThinking = Some True, nm_vertexModelId = Some ''claude-sonnet-5-5@default''\<rparr>),
      (''claude-sonnet-5-5-medium'', \<lparr>nm_displayName = ''Claude Sonnet 5.5 (Medium)'', nm_maxTokens = Some 1000000, nm_maxOutputTokens = Some 128000,
        nm_model = ''MODEL_PLACEHOLDER_M404'', nm_thinkingBudget = None, nm_thinkingLevel = Some 2,
        nm_supportsThinking = Some True, nm_supportsAdaptiveThinking = Some True, nm_vertexModelId = Some ''claude-sonnet-5-5@default''\<rparr>),
      (''claude-sonnet-5-5-high'', \<lparr>nm_displayName = ''Claude Sonnet 5.5 (High)'', nm_maxTokens = Some 1000000, nm_maxOutputTokens = Some 128000,
        nm_model = ''MODEL_PLACEHOLDER_M405'', nm_thinkingBudget = None, nm_thinkingLevel = Some 3,
        nm_supportsThinking = Some True, nm_supportsAdaptiveThinking = Some True, nm_vertexModelId = Some ''claude-sonnet-5-5@default''\<rparr>),
      (''gpt-oss-120b-medium'', \<lparr>nm_displayName = ''GPT-OSS 120B (Medium)'', nm_maxTokens = Some 131072, nm_maxOutputTokens = Some 32768,
        nm_model = ''MODEL_OPENAI_GPT_OSS_120B_MEDIUM'', nm_thinkingBudget = Some 8192, nm_thinkingLevel = None,
        nm_supportsThinking = Some True, nm_supportsAdaptiveThinking = None, nm_vertexModelId = Some ''openai/gpt-oss-120b-maas''\<rparr>),
      (''gemini-3.1-flash-image'', \<lparr>nm_displayName = ''Gemini 3.1 Flash Image'', nm_maxTokens = None, nm_maxOutputTokens = None,
        nm_model = ''MODEL_PLACEHOLDER_M21'', nm_thinkingBudget = None, nm_thinkingLevel = None,
        nm_supportsThinking = None, nm_supportsAdaptiveThinking = None, nm_vertexModelId = None\<rparr>)]"

definition getAgyNativeModel :: "string \<Rightarrow> AgyNativeModelDefinition option" where
  "getAgyNativeModel model = map_of AGY_NATIVE_MODEL_DEFINITIONS (to_lower model)"

section \<open>Retired models\<close>

definition retired_claude_names :: "string list" where
  "retired_claude_names =
     [''claude-'' @ a @ ''-4-6'' @ b @ c .
        a \<leftarrow> [''opus'', ''sonnet''], b \<leftarrow> [[], ''-thinking''],
        c \<leftarrow> [[], ''-minimal'', ''-low'', ''-medium'', ''-high'']]"

definition retired_gemini_names :: "string list" where
  "retired_gemini_names =
     [''gemini-3.1-pro'' @ c . c \<leftarrow> [[], ''-low'', ''-high'']]
     @ [''gemini-3.5-flash'' @ c . c \<leftarrow> [[], ''-low'', ''-medium'', ''-high'', ''-extra-low'']]
     @ [''gemini-3.'' @ v @ ''-flash'' @ c .
          v \<leftarrow> [''6'', ''7''], c \<leftarrow> [[], ''-low'', ''-medium'', ''-high'', ''-tiered'']]
     @ [''gemini-3-flash-agent'', ''gemini-pro-agent'']"

text \<open>The three \<open>replace\<close> calls, in order, on the lower-cased name.\<close>

definition strip_gemini_before_claude :: "string \<Rightarrow> string" where
  "strip_gemini_before_claude s =
     (if starts_with s ''gemini-claude-'' then drop (length ''gemini-'') s else s)"

definition strip_preview :: "string \<Rightarrow> string" where
  "strip_preview s =
     (if ends_with s ''-preview-customtools'' then strip_suffix ''-preview-customtools'' s
      else strip_suffix ''-preview'' s)"

definition retired_route :: "string \<Rightarrow> string" where
  "retired_route model =
     strip_preview (strip_gemini_before_claude (strip_prefix ''antigravity-'' (to_lower model)))"

definition isRetiredAgyModel :: "string \<Rightarrow> bool" where
  "isRetiredAgyModel model =
     (let route = retired_route model in
      (route \<in> set retired_claude_names \<or> route \<in> set retired_gemini_names)
      \<and> getAgyNativeModel route = None)"

section \<open>Public model definitions\<close>

datatype ModelModality = Text | Image | Pdf

type_synonym ModelModalities = "ModelModality list \<times> ModelModality list"

record OpencodeModelDefinition =
  om_id :: string
  om_name :: string
  om_release_date :: string
  om_attachment :: bool
  om_reasoning :: bool
  om_temperature :: bool
  om_tool_call :: bool
  om_context :: int
  om_output :: int
  om_modalities :: ModelModalities
  om_cost :: "num \<times> num"
  om_options :: "(string, string) jsmap"
  om_variants :: "(string, string) jsmap option"

definition DEFAULT_MODALITIES :: ModelModalities where
  "DEFAULT_MODALITIES = ([Text, Image, Pdf], [Text])"

definition defineModel ::
  "string \<Rightarrow> string \<Rightarrow> bool \<Rightarrow> int \<Rightarrow> int \<Rightarrow> ModelModalities \<Rightarrow> (string, string) jsmap option
   \<Rightarrow> OpencodeModelDefinition" where
  "defineModel mid name reasoning context output modalities variants =
     \<lparr>om_id = mid, om_name = name, om_release_date = [],
      om_attachment = list_ex (\<lambda>m. m \<noteq> Text) (fst modalities),
      om_reasoning = reasoning, om_temperature = True, om_tool_call = True,
      om_context = context, om_output = output, om_modalities = modalities,
      om_cost = (0, 0), om_options = [], om_variants = variants\<rparr>"

definition ALL_MODEL_DEFINITIONS :: "(string, OpencodeModelDefinition) jsmap" where
  "ALL_MODEL_DEFINITIONS =
     [(''antigravity-gemini-4-argon'', defineModel ''antigravity-gemini-4-argon'' ''Gemini 4 Argon (Antigravity)'' True 1048576 65536 DEFAULT_MODALITIES (Some [(''low'', ''low''), (''medium'', ''medium''), (''high'', ''high'')])),
      (''antigravity-gemini-3.1-flash-image'', defineModel ''antigravity-gemini-3.1-flash-image'' ''Gemini 3.1 Flash Image (Antigravity)'' False 66000 33000 ([Text, Image], [Text, Image]) (None)),
      (''antigravity-gemini-3.8-flash'', defineModel ''antigravity-gemini-3.8-flash'' ''Gemini 3.8 Flash (Antigravity)'' True 1048576 65536 DEFAULT_MODALITIES (Some [(''low'', ''low''), (''medium'', ''medium''), (''high'', ''high'')])),
      (''antigravity-claude-sonnet-5-5'', defineModel ''antigravity-claude-sonnet-5-5'' ''Claude Sonnet 5.5 (Antigravity)'' True 1000000 128000 DEFAULT_MODALITIES (Some [(''low'', ''low''), (''medium'', ''medium''), (''high'', ''high'')])),
      (''antigravity-claude-opus-5-5'', defineModel ''antigravity-claude-opus-5-5'' ''Claude Opus 5.5 (Antigravity)'' True 1000000 128000 DEFAULT_MODALITIES (Some [(''low'', ''low''), (''medium'', ''medium''), (''high'', ''high'')])),
      (''antigravity-gpt-oss-120b-medium'', defineModel ''antigravity-gpt-oss-120b-medium'' ''GPT-OSS 120B Medium (Antigravity)'' True 131072 32768 DEFAULT_MODALITIES (None))]"

definition ANTIGRAVITY_OPENCODE_MODEL_IDS :: "string list" where
  "ANTIGRAVITY_OPENCODE_MODEL_IDS =
     [''antigravity-gemini-4-argon'',
      ''antigravity-gemini-3.8-flash'',
      ''antigravity-gemini-3.1-flash-image'',
      ''antigravity-claude-sonnet-5-5'',
      ''antigravity-claude-opus-5-5'',
      ''antigravity-gpt-oss-120b-medium'']"

definition pickModelDefinitions :: "string list \<Rightarrow> (string \<times> OpencodeModelDefinition option) list" where
  "pickModelDefinitions ids = map (\<lambda>i. (i, map_of ALL_MODEL_DEFINITIONS i)) ids"

definition getPublicModelDefinitions :: "(string \<times> OpencodeModelDefinition option) list" where
  "getPublicModelDefinitions = pickModelDefinitions ANTIGRAVITY_OPENCODE_MODEL_IDS"

section \<open>Aliases and tiered routes\<close>

definition RESOLVER_ALIASES :: "(string, string) jsmap" where
  "RESOLVER_ALIASES =
     [(''gemini-4-argon-low'', ''gemini-4-argon''),
      (''gemini-4-argon-medium'', ''gemini-4-argon''),
      (''gemini-4-argon-high'', ''gemini-4-argon''),
      (''gemini-3.1-pro-low'', ''gemini-3.1-pro''),
      (''gemini-3.1-pro-high'', ''gemini-3.1-pro''),
      (''gemini-3-flash-low'', ''gemini-3-flash''),
      (''gemini-3-flash-medium'', ''gemini-3-flash''),
      (''gemini-3-flash-high'', ''gemini-3-flash''),
      (''gemini-3.5-flash-medium'', ''gemini-3.5-flash''),
      (''gemini-3.5-flash-high'', ''gemini-3.5-flash''),
      (''gemini-3.6-flash-low'', ''gemini-3.6-flash''),
      (''gemini-3.6-flash-medium'', ''gemini-3.6-flash''),
      (''gemini-3.6-flash-high'', ''gemini-3.6-flash''),
      (''gemini-3.7-flash-low'', ''gemini-3.7-flash''),
      (''gemini-3.7-flash-medium'', ''gemini-3.7-flash''),
      (''gemini-3.7-flash-high'', ''gemini-3.7-flash''),
      (''gemini-3.8-flash-low'', ''gemini-3.8-flash''),
      (''gemini-3.8-flash-medium'', ''gemini-3.8-flash''),
      (''gemini-3.8-flash-high'', ''gemini-3.8-flash''),
      (''gemini-claude-opus-4-6-thinking-low'', ''claude-opus-4-6-thinking''),
      (''gemini-claude-opus-4-6-thinking-medium'', ''claude-opus-4-6-thinking''),
      (''gemini-claude-opus-4-6-thinking-high'', ''claude-opus-4-6-thinking''),
      (''gemini-claude-sonnet-4-6-thinking-low'', ''claude-sonnet-4-6''),
      (''gemini-claude-sonnet-4-6-thinking-medium'', ''claude-sonnet-4-6''),
      (''gemini-claude-sonnet-4-6-thinking-high'', ''claude-sonnet-4-6''),
      (''gemini-claude-sonnet-4-6'', ''claude-sonnet-4-6''),
      (''claude-sonnet-4-6-thinking'', ''claude-sonnet-4-6''),
      (''claude-sonnet-4-6-thinking-low'', ''claude-sonnet-4-6''),
      (''claude-sonnet-4-6-thinking-medium'', ''claude-sonnet-4-6''),
      (''claude-sonnet-4-6-thinking-high'', ''claude-sonnet-4-6''),
      (''gpt-oss-120b'', ''gpt-oss-120b-medium'')]"

text \<open>
  The declared tiers are low, medium and high, but the suffix expression that produces a
  tier also matches \<open>-minimal\<close>; a table lookup at that tier finds nothing.
\<close>

datatype ThinkingTier = Minimal | Low | Medium | High

fun tier_name :: "ThinkingTier \<Rightarrow> string" where
  "tier_name Minimal = ''minimal''"
| "tier_name Low = ''low''"
| "tier_name Medium = ''medium''"
| "tier_name High = ''high''"

record TieredRoute =
  tr_defaultModel :: string
  tr_low :: string
  tr_medium :: string
  tr_high :: string

fun byTier :: "TieredRoute \<Rightarrow> ThinkingTier \<Rightarrow> string option" where
  "byTier r Minimal = None"
| "byTier r Low = Some (tr_low r)"
| "byTier r Medium = Some (tr_medium r)"
| "byTier r High = Some (tr_high r)"

definition GEMINI_35_FLASH_ROUTES :: TieredRoute where
  "GEMINI_35_FLASH_ROUTES = \<lparr>tr_defaultModel = ''gemini-3-flash-agent'',
     tr_low = ''gemini-3.5-flash-extra-low'', tr_medium = ''gemini-3.5-flash-low'',
     tr_high = ''gemini-3-flash-agent''\<rparr>"

definition GEMINI_36_FLASH_ROUTES :: TieredRoute where
  "GEMINI_36_FLASH_ROUTES = \<lparr>tr_defaultModel = ''gemini-3.6-flash-medium'',
     tr_low = ''gemini-3.6-flash-low'', tr_medium = ''gemini-3.6-flash-medium'',
     tr_high = ''gemini-3.6-flash-high''\<rparr>"

definition GEMINI_37_FLASH_ROUTES :: TieredRoute where
  "GEMINI_37_FLASH_ROUTES = \<lparr>tr_defaultModel = ''gemini-3.7-flash-medium'',
     tr_low = ''gemini-3.7-flash-low'', tr_medium = ''gemini-3.7-flash-medium'',
     tr_high = ''gemini-3.7-flash-high''\<rparr>"

definition GEMINI_38_FLASH_ROUTES :: TieredRoute where
  "GEMINI_38_FLASH_ROUTES = \<lparr>tr_defaultModel = ''gemini-3.8-flash-medium'',
     tr_low = ''gemini-3.8-flash-low'', tr_medium = ''gemini-3.8-flash-medium'',
     tr_high = ''gemini-3.8-flash-high''\<rparr>"

definition GEMINI_ARGON_ROUTES :: TieredRoute where
  "GEMINI_ARGON_ROUTES = \<lparr>tr_defaultModel = ''gemini-4-argon-medium'',
     tr_low = ''gemini-4-argon-low'', tr_medium = ''gemini-4-argon-medium'',
     tr_high = ''gemini-4-argon-high''\<rparr>"

definition getTieredAntigravityModel :: "TieredRoute \<Rightarrow> ThinkingTier option \<Rightarrow> string" where
  "getTieredAntigravityModel routes tier =
     (case tier of
        Some t \<Rightarrow> nullish (byTier routes t) (tr_defaultModel routes)
      | None \<Rightarrow> tr_defaultModel routes)"

definition getGemini35FlashAntigravityModel :: "ThinkingTier option \<Rightarrow> string" where
  "getGemini35FlashAntigravityModel tier =
     (case tier of
        None \<Rightarrow> tr_defaultModel GEMINI_35_FLASH_ROUTES
      | Some t \<Rightarrow> nullish (byTier GEMINI_35_FLASH_ROUTES t) (tr_defaultModel GEMINI_35_FLASH_ROUTES))"

definition getGemini36FlashAntigravityModel :: "ThinkingTier option \<Rightarrow> string" where
  "getGemini36FlashAntigravityModel tier = getTieredAntigravityModel GEMINI_36_FLASH_ROUTES tier"

definition getGemini37FlashAntigravityModel :: "ThinkingTier option \<Rightarrow> string" where
  "getGemini37FlashAntigravityModel tier = getTieredAntigravityModel GEMINI_37_FLASH_ROUTES tier"

definition getGemini38FlashAntigravityModel :: "ThinkingTier option \<Rightarrow> string" where
  "getGemini38FlashAntigravityModel tier = getTieredAntigravityModel GEMINI_38_FLASH_ROUTES tier"

definition getGeminiArgonAntigravityModel :: "ThinkingTier option \<Rightarrow> string" where
  "getGeminiArgonAntigravityModel tier = getTieredAntigravityModel GEMINI_ARGON_ROUTES tier"

section \<open>Quota groups\<close>

datatype QuotaGroup = GGemini | GNonGemini | GArgon

definition QUOTA_GROUP_BY_MODEL_ID :: "(string, QuotaGroup) jsmap" where
  "QUOTA_GROUP_BY_MODEL_ID =
     [(''claude-opus-4-6-thinking'', GNonGemini),
      (''claude-opus-4-6'', GNonGemini),
      (''claude-sonnet-4-6-thinking'', GNonGemini),
      (''claude-sonnet-4-6'', GNonGemini),
      (''gemini-pro-agent'', GGemini),
      (''gemini-3.1-pro'', GGemini),
      (''gemini-3.1-pro-low'', GGemini),
      (''gemini-3.1-pro-high'', GGemini),
      (''gemini-3-flash'', GGemini),
      (''gemini-3.6-flash-low'', GGemini),
      (''gemini-3.6-flash-medium'', GGemini),
      (''gemini-3.6-flash-high'', GGemini),
      (''gemini-3.6-flash-tiered'', GGemini),
      (''gemini-3.7-flash-low'', GGemini),
      (''gemini-3.7-flash-medium'', GGemini),
      (''gemini-3.7-flash-high'', GGemini),
      (''gemini-3.7-flash-tiered'', GGemini),
      (''gemini-3.8-flash-low'', GGemini),
      (''gemini-3.8-flash-medium'', GGemini),
      (''gemini-3.8-flash-high'', GGemini),
      (''gemini-3.8-flash-tiered'', GGemini),
      (''gemini-3.1-flash-image'', GGemini),
      (''gpt-oss-120b'', GNonGemini),
      (''gpt-oss-120b-medium'', GNonGemini)]"

definition argon_names :: "string list" where
  "argon_names =
     [''gemini-4-argon'' @ c . c \<leftarrow> [[], ''-low'', ''-medium'', ''-high'']]"

definition isGeminiArgonModel :: "string \<Rightarrow> bool" where
  "isGeminiArgonModel model =
     (let m = to_lower model in
      m \<in> set argon_names \<or> m \<in> set (map (\<lambda>n. ''antigravity-'' @ n) argon_names))"

definition mentions_non_gemini :: "string \<Rightarrow> bool" where
  "mentions_non_gemini s = (str_includes s ''claude'' \<or> str_includes s ''gpt-oss'')"

definition getQuotaGroupForModel :: "string \<Rightarrow> bool \<Rightarrow> QuotaGroup option" where
  "getQuotaGroupForModel modelId hasArgonPool =
     (let normalized = to_lower modelId in
      if isGeminiArgonModel normalized then (if hasArgonPool then Some GArgon else None)
      else case map_of QUOTA_GROUP_BY_MODEL_ID normalized of
             Some g \<Rightarrow> Some g
           | None \<Rightarrow>
               (if mentions_non_gemini normalized then Some GNonGemini
                else if starts_with normalized ''gemini'' \<or> starts_with normalized ''tab_''
                then Some GGemini else None))"

lemma isGeminiArgonModel_lower [simp]: "isGeminiArgonModel (to_lower m) = isGeminiArgonModel m"
  by (simp add: isGeminiArgonModel_def)

lemma getQuotaGroup_lower: "getQuotaGroupForModel (to_lower m) b = getQuotaGroupForModel m b"
  by (simp add: getQuotaGroupForModel_def)

lemma argon_group_iff: "getQuotaGroupForModel m b = Some GArgon \<longleftrightarrow> isGeminiArgonModel m \<and> b"
proof -
  have "g \<noteq> GArgon" if "map_of QUOTA_GROUP_BY_MODEL_ID k = Some g" for k g
    using map_of_SomeD [OF that] by (auto simp: QUOTA_GROUP_BY_MODEL_ID_def)
  then show ?thesis
    by (auto simp: getQuotaGroupForModel_def Let_def split: option.splits)
qed

lemma argon_elsewhere: "getQuotaGroupForModel m False = Some g \<Longrightarrow> \<not> isGeminiArgonModel m"
  by (auto simp: getQuotaGroupForModel_def Let_def split: if_splits)

text \<open>The table never contradicts the substring rule that follows it.\<close>

definition substring_group :: "string \<Rightarrow> QuotaGroup option" where
  "substring_group normalized =
     (if mentions_non_gemini normalized then Some GNonGemini
      else if starts_with normalized ''gemini'' \<or> starts_with normalized ''tab_'' then Some GGemini
      else None)"

lemma quota_table_agrees:
  "list_all (\<lambda>(k, g). substring_group k = Some g) QUOTA_GROUP_BY_MODEL_ID"
  by code_simp

lemma quota_group_by_substring:
  "\<not> isGeminiArgonModel m \<Longrightarrow> getQuotaGroupForModel m b = substring_group (to_lower m)"
proof -
  assume "\<not> isGeminiArgonModel m"
  moreover have "substring_group (to_lower m) = Some g" if "map_of QUOTA_GROUP_BY_MODEL_ID (to_lower m) = Some g" for g
    using quota_table_agrees map_of_SomeD [OF that] by (auto simp: list_all_iff)
  ultimately show ?thesis
    by (cases "map_of QUOTA_GROUP_BY_MODEL_ID (to_lower m)")
      (simp_all add: getQuotaGroupForModel_def Let_def, simp add: substring_group_def)
qed

end
