(* ===== verification/Fingerprint.thy ===== *)
theory Fingerprint
  imports Prelude
begin

text \<open>
  \<^verbatim>\<open>packages/core/src/fingerprint.ts\<close>: the identity the client sends, its stored form per
  account, and the process-wide session fingerprint. \<open>process.platform\<close> and
  \<open>process.arch\<close> are the record \<open>host\<close>; the random UUID and token are arguments.
\<close>

record host =
  h_platform :: string
  h_arch :: string

record ClientMetadata =
  cm_ideType :: string
  cm_platform :: string
  cm_pluginType :: string

record Fingerprint =
  fp_deviceId :: string
  fp_sessionToken :: string
  fp_userAgent :: string
  fp_apiClient :: string
  fp_clientMetadata :: ClientMetadata
  fp_createdAt :: millis

datatype fp_reason = FpInitial | FpRegenerated | FpRestored

record FingerprintVersion =
  fv_fingerprint :: Fingerprint
  fv_timestamp :: millis
  fv_reason :: fp_reason

definition MAX_FINGERPRINT_HISTORY :: nat where "MAX_FINGERPRINT_HISTORY = 5"
definition AGY_CLI_VERSION :: string where "AGY_CLI_VERSION = ''1.3.5''"
definition AGY_CLI_CHANGE_LIST :: string where "AGY_CLI_CHANGE_LIST = ''998863838''"
definition ANTIGRAVITY_API_CLIENT :: string where "ANTIGRAVITY_API_CLIENT = ''antigravity-cli''"

definition normalizeHarnessPlatform :: "string \<Rightarrow> string" where
  "normalizeHarnessPlatform platform =
     (if platform = ''win32'' then ''windows'' else if platform \<noteq> [] then platform else ''unknown'')"

definition normalizeHarnessArch :: "string \<Rightarrow> string" where
  "normalizeHarnessArch arch =
     (if arch = ''x64'' then ''amd64'' else if arch = ''ia32'' then ''386''
      else if arch \<noteq> [] then arch else ''unknown'')"

definition buildAntigravityHarnessPlatformArch :: "host \<Rightarrow> string" where
  "buildAntigravityHarnessPlatformArch h =
     normalizeHarnessPlatform (h_platform h) @ ''/'' @ normalizeHarnessArch (h_arch h)"

definition buildAntigravityHarnessUserAgent :: "string \<Rightarrow> host \<Rightarrow> string \<Rightarrow> string" where
  "buildAntigravityHarnessUserAgent version h authMethod =
     (let changeList = (if version = AGY_CLI_VERSION then ''; cl='' @ AGY_CLI_CHANGE_LIST else [])
      in ''antigravity/cli/'' @ version @ '' (aidev_client; os_type='' @ normalizeHarnessPlatform (h_platform h)
         @ ''; arch='' @ normalizeHarnessArch (h_arch h) @ changeList @ ''; auth_method='' @ authMethod @ '')'')"

definition buildAntigravityHarnessLoadCodeAssistUserAgent :: "string \<Rightarrow> host \<Rightarrow> string" where
  "buildAntigravityHarnessLoadCodeAssistUserAgent version h = buildAntigravityHarnessUserAgent version h ''consumer''"

definition harness_user_agent :: "host \<Rightarrow> string" where
  "harness_user_agent h = buildAntigravityHarnessUserAgent AGY_CLI_VERSION h ''consumer''"

definition platformToMetadataPlatform :: "string \<Rightarrow> string" where
  "platformToMetadataPlatform platform = (if platform = ''win32'' then ''WINDOWS'' else ''MACOS'')"

definition buildAntigravityHarnessBootstrapHeaders :: "host \<Rightarrow> string \<Rightarrow> (string \<times> string) list" where
  "buildAntigravityHarnessBootstrapHeaders h accessToken =
     [(''User-Agent'', buildAntigravityHarnessLoadCodeAssistUserAgent AGY_CLI_VERSION h),
      (''Authorization'', ''Bearer '' @ accessToken),
      (''Content-Type'', ''application/json''), (''Accept-Encoding'', ''gzip'')]"

definition generateFingerprint :: "host \<Rightarrow> string \<Rightarrow> string \<Rightarrow> millis \<Rightarrow> Fingerprint" where
  "generateFingerprint h uuid token now =
     \<lparr>fp_deviceId = uuid, fp_sessionToken = token, fp_userAgent = harness_user_agent h,
      fp_apiClient = ANTIGRAVITY_API_CLIENT,
      fp_clientMetadata = \<lparr>cm_ideType = ''ANTIGRAVITY'', cm_platform = platformToMetadataPlatform (h_platform h),
                           cm_pluginType = ''GEMINI''\<rparr>,
      fp_createdAt = now\<rparr>"

definition updateFingerprintVersion :: "host \<Rightarrow> Fingerprint \<Rightarrow> bool \<times> Fingerprint" where
  "updateFingerprintVersion h fp =
     (let userAgent = harness_user_agent h in
      if fp_userAgent fp = userAgent then (False, fp) else (True, fp\<lparr>fp_userAgent := userAgent\<rparr>))"

definition buildFingerprintHeaders :: "host \<Rightarrow> Fingerprint option \<Rightarrow> (string \<times> string) list" where
  "buildFingerprintHeaders h fp = (if fp = None then [] else [(''User-Agent'', harness_user_agent h)])"

text \<open>The module variable \<open>sessionFingerprint\<close>; \<open>fresh\<close> is what a generation would return.\<close>

definition getSessionFingerprint :: "Fingerprint \<Rightarrow> Fingerprint option \<Rightarrow> Fingerprint \<times> Fingerprint option" where
  "getSessionFingerprint fresh st = (case st of None \<Rightarrow> (fresh, Some fresh) | Some fp \<Rightarrow> (fp, st))"

definition regenerateSessionFingerprint :: "Fingerprint \<Rightarrow> Fingerprint option \<Rightarrow> Fingerprint \<times> Fingerprint option" where
  "regenerateSessionFingerprint fresh st = (fresh, Some fresh)"

definition clearSessionFingerprint :: "Fingerprint option \<Rightarrow> Fingerprint option" where
  "clearSessionFingerprint st = None"

section \<open>What the identity shows\<close>

text \<open>An updated fingerprint is up to date, and a second update changes nothing.\<close>

lemma update_once:
  "updateFingerprintVersion h (snd (updateFingerprintVersion h fp)) = (False, snd (updateFingerprintVersion h fp))"
  by (simp add: updateFingerprintVersion_def Let_def)

lemma update_keeps:
  "fp_deviceId (snd (updateFingerprintVersion h fp)) = fp_deviceId fp"
  "fp_sessionToken (snd (updateFingerprintVersion h fp)) = fp_sessionToken fp"
  "fp_createdAt (snd (updateFingerprintVersion h fp)) = fp_createdAt fp"
  by (simp_all add: updateFingerprintVersion_def Let_def)

text \<open>A generated fingerprint never needs an update, and what is sent does not depend on it.\<close>

lemma generated_up_to_date: "updateFingerprintVersion h (generateFingerprint h u t n) = (False, generateFingerprint h u t n)"
  by (simp add: updateFingerprintVersion_def generateFingerprint_def)

lemma session_fingerprint_stable:
  "fst (getSessionFingerprint b (snd (getSessionFingerprint a st))) = fst (getSessionFingerprint a st)"
  by (simp add: getSessionFingerprint_def split: option.split)

end
