(* ===== verification/Text.thy ===== *)
theory Text
  imports Prelude
begin

text \<open>
  Text the code builds and takes apart: decimal numbers in template strings, \<open>split\<close> on one
  character, digit runs replaced in a toast key, the order of strings, and
  \<open>JSON.stringify\<close> of strings and small arrays.
\<close>

section \<open>Decimal numbers\<close>

definition digit_char :: "nat \<Rightarrow> char" where
  "digit_char d = char_of (48 + d)"

definition digit_val :: "char \<Rightarrow> nat" where
  "digit_val c = of_char c - 48"

definition is_digit :: "char \<Rightarrow> bool" where
  "is_digit c = (48 \<le> (of_char c :: nat) \<and> (of_char c :: nat) \<le> 57)"

fun show_nat :: "nat \<Rightarrow> string" where
  "show_nat n = (if n < 10 then [digit_char n] else show_nat (n div 10) @ [digit_char (n mod 10)])"

declare show_nat.simps [simp del]

definition show_int :: "int \<Rightarrow> string" where
  "show_int i = (if i < 0 then CHR ''-'' # show_nat (nat (- i)) else show_nat (nat i))"

definition read_nat :: "string \<Rightarrow> nat" where
  "read_nat s = foldl (\<lambda>a c. a * 10 + digit_val c) 0 s"

lemma digit_char_simps [simp]:
  "d < 10 \<Longrightarrow> is_digit (digit_char d)" "d < 10 \<Longrightarrow> digit_val (digit_char d) = d"
  by (simp_all add: is_digit_def digit_char_def digit_val_def)

lemma show_nat_digits: "list_all is_digit (show_nat n)"
proof (induction n rule: show_nat.induct)
  case (1 n)
  then show ?case by (subst show_nat.simps) simp
qed

lemma show_nat_nonempty [simp]: "show_nat n \<noteq> []"
  by (subst show_nat.simps) simp

lemma read_show_nat [simp]: "read_nat (show_nat n) = n"
proof (induction n rule: show_nat.induct)
  case (1 n)
  then show ?case by (subst show_nat.simps) (auto simp: read_nat_def)
qed

lemma show_nat_inj [simp]: "show_nat m = show_nat n \<longleftrightarrow> m = n"
  by (metis read_show_nat)

lemma show_nat_no_minus: "show_nat n \<noteq> CHR ''-'' # s"
proof
  assume "show_nat n = CHR ''-'' # s"
  then have "is_digit (CHR ''-'')" using show_nat_digits [of n] by simp
  then show False by (simp add: is_digit_def)
qed

lemma show_int_inj [simp]: "show_int i = show_int j \<longleftrightarrow> i = j"
proof -
  have "CHR ''-'' # s \<noteq> show_nat n" for s n using show_nat_no_minus by metis
  then show ?thesis by (auto simp: show_int_def show_nat_no_minus split: if_splits)
qed

lemma show_int_chars: "c \<in> set (show_int i) \<Longrightarrow> is_digit c \<or> c = CHR ''-''"
  using show_nat_digits by (auto simp: show_int_def list_all_iff split: if_splits)

text \<open>A separator that no part contains splits a string in one way.\<close>

lemma append_sep_inj:
  "c \<notin> set xs \<Longrightarrow> c \<notin> set ys \<Longrightarrow> xs @ c # s = ys @ c # t \<longleftrightarrow> xs = ys \<and> s = t"
proof (induction xs arbitrary: ys)
  case Nil
  then show ?case by (cases ys) auto
next
  case (Cons x xs)
  then show ?case by (cases ys) auto
qed

section \<open>Splitting\<close>

fun split_on :: "char \<Rightarrow> string \<Rightarrow> string list" where
  "split_on c [] = [[]]"
| "split_on c (x # xs) =
     (if x = c then [] # split_on c xs
      else case split_on c xs of [] \<Rightarrow> [[x]] | y # ys \<Rightarrow> (x # y) # ys)"

lemma split_on_nonempty [simp]: "split_on c s \<noteq> []"
  by (induction s) (auto split: list.split)

lemma split_on_none: "c \<notin> set s \<Longrightarrow> split_on c s = [s]"
  by (induction s) auto

lemma split_on_sep: "c \<notin> set s \<Longrightarrow> split_on c (s @ c # t) = s # split_on c t"
  by (induction s) auto

lemma split_on_parts: "p \<in> set (split_on c s) \<Longrightarrow> c \<notin> set p"
proof (induction s arbitrary: p)
  case Nil
  then show ?case by simp
next
  case (Cons x s)
  then show ?case by (cases "split_on c s") (auto split: if_splits)
qed

section \<open>Runs of digits\<close>

text \<open>\<open>s.replace(/\<close>digits\<open>/g, 'X')\<close>: each maximal run of digits becomes one \<open>X\<close>.\<close>

fun mask_digits :: "bool \<Rightarrow> string \<Rightarrow> string" where
  "mask_digits inRun [] = []"
| "mask_digits inRun (c # s) =
     (if is_digit c then (if inRun then mask_digits True s else CHR ''X'' # mask_digits True s)
      else c # mask_digits False s)"

lemma mask_digits_none: "c \<in> set (mask_digits b s) \<Longrightarrow> \<not> is_digit c"
proof (induction s arbitrary: b)
  case Nil
  then show ?case by simp
next
  case (Cons x s)
  have "\<not> is_digit (CHR ''X'')" by (simp add: is_digit_def)
  then show ?case using Cons by (auto split: if_splits)
qed

section \<open>Order of strings\<close>

fun str_less :: "string \<Rightarrow> string \<Rightarrow> bool" where
  "str_less [] [] = False"
| "str_less [] (_ # _) = True"
| "str_less (_ # _) [] = False"
| "str_less (x # xs) (y # ys) =
     ((of_char x :: nat) < of_char y \<or> x = y \<and> str_less xs ys)"

lemma str_less_irrefl [simp]: "\<not> str_less s s"
  by (induction s) auto

lemma str_less_total: "s = t \<or> str_less s t \<or> str_less t s"
proof (induction s t rule: str_less.induct)
  case (4 x xs y ys)
  then show ?case using of_char_eq_iff [where 'a = nat, of x y] by (auto simp: neq_iff)
qed auto

lemma str_less_trans: "str_less s t \<Longrightarrow> str_less t u \<Longrightarrow> str_less s u"
proof (induction s t arbitrary: u rule: str_less.induct)
  case (2 y ys)
  then show ?case by (cases u) auto
next
  case (4 x xs y ys)
  then show ?case by (cases u) auto
qed auto

section \<open>JSON text\<close>

definition hex_char :: "nat \<Rightarrow> char" where
  "hex_char d = (if d < 10 then char_of (48 + d) else char_of (87 + d))"

definition json_escape :: "char \<Rightarrow> string" where
  "json_escape c =
     (if c = CHR 0x22 then [CHR 0x5C, CHR 0x22]
      else if c = CHR 0x5C then [CHR 0x5C, CHR 0x5C]
      else if c = CHR 0x08 then [CHR 0x5C, CHR ''b'']
      else if c = CHR 0x0C then [CHR 0x5C, CHR ''f'']
      else if c = CHR 0x0A then [CHR 0x5C, CHR ''n'']
      else if c = CHR 0x0D then [CHR 0x5C, CHR ''r'']
      else if c = CHR 0x09 then [CHR 0x5C, CHR ''t'']
      else if (of_char c :: nat) < 32
      then [CHR 0x5C, CHR ''u'', CHR ''0'', CHR ''0'', hex_char (of_char c div 16), hex_char (of_char c mod 16)]
      else [c])"

definition json_string :: "string \<Rightarrow> string" where
  "json_string s = [CHR 0x22] @ concat (map json_escape s) @ [CHR 0x22]"

text \<open>Reading one escaped character back.\<close>

definition hex_val :: "char \<Rightarrow> nat" where
  "hex_val c = (if of_char c < (58 :: nat) then of_char c - 48 else of_char c - 87)"

fun json_unescape :: "string \<Rightarrow> (char \<times> string) option" where
  "json_unescape (b # e # rest) =
     (if b \<noteq> CHR 0x5C then Some (b, e # rest)
      else if e = CHR ''b'' then Some (CHR 0x08, rest)
      else if e = CHR ''f'' then Some (CHR 0x0C, rest)
      else if e = CHR ''n'' then Some (CHR 0x0A, rest)
      else if e = CHR ''r'' then Some (CHR 0x0D, rest)
      else if e = CHR ''t'' then Some (CHR 0x09, rest)
      else if e = CHR ''u'' then
        (case rest of
           _ # _ # h # l # rest' \<Rightarrow> Some (char_of (hex_val h * 16 + hex_val l), rest')
         | _ \<Rightarrow> None)
      else Some (e, rest))"
| "json_unescape _ = None"

lemma json_unescape_escape: "x \<noteq> [] \<Longrightarrow> json_unescape (json_escape c @ x) = Some (c, x)"
proof -
  assume "x \<noteq> []"
  then obtain y ys where x: "x = y # ys" by (cases x) auto
  have ctrl: "char_of (hex_val (hex_char (of_char c div 16)) * 16 + hex_val (hex_char (of_char c mod 16))) = c"
    if "(of_char c :: nat) < 32"
  proof -
    have v: "hex_val (hex_char d) = d" if "d < 16" for d
      using that by (simp add: hex_val_def hex_char_def)
    have "(of_char c :: nat) div 16 < 16" "(of_char c :: nat) mod 16 < 16" using that by simp_all
    then show ?thesis by (simp add: v mult.commute [of _ 16])
  qed
  show ?thesis
    using ctrl by (simp add: json_escape_def x)
qed

lemma json_escape_no_quote: "hd (json_escape c) \<noteq> CHR 0x22" "json_escape c \<noteq> []"
  by (simp_all add: json_escape_def)

lemma json_escape_not_end: "json_escape c @ x \<noteq> CHR 0x22 # y"
  using json_escape_no_quote [of c] by (cases "json_escape c") auto

lemma json_body_inj:
  "concat (map json_escape s) @ CHR 0x22 # x = concat (map json_escape t) @ CHR 0x22 # y \<Longrightarrow> s = t \<and> x = y"
proof (induction s arbitrary: t)
  case Nil
  then show ?case using json_escape_not_end by (cases t) (simp_all, metis)
next
  case (Cons c s)
  show ?case
  proof (cases t)
    case Nil
    then show ?thesis using Cons.prems json_escape_not_end [of c] by simp
  next
    case (Cons d t')
    let ?a = "concat (map json_escape s) @ CHR 0x22 # x"
    let ?b = "concat (map json_escape t') @ CHR 0x22 # y"
    have "json_unescape (json_escape c @ ?a) = json_unescape (json_escape d @ ?b)"
      using Cons.prems Cons by simp
    then have "c = d" "?a = ?b" by (simp_all add: json_unescape_escape)
    then show ?thesis using Cons.IH [of t'] Cons by simp
  qed
qed

lemma json_string_inj: "json_string s @ x = json_string t @ y \<Longrightarrow> s = t \<and> x = y"
  by (rule json_body_inj) (simp add: json_string_def)

end
