(* ===== verification/Quota_Types.thy ===== *)
theory Quota_Types
  imports Text Js_Map
begin

text \<open>
  \<^verbatim>\<open>packages/core/src/quota-types.ts\<close>: quota summaries and the migration of the group keys
  that older versions stored. A stored reading is a map from group keys to summaries.
\<close>

datatype QuotaWindow = Weekly | FiveHours

record QuotaWindowEntry =
  qw_window :: QuotaWindow
  qw_remainingFraction :: num
  qw_resetTime :: string

record QuotaGroupSummary =
  qs_remainingFraction :: "num option"
  qs_resetTime :: "string option"
  qs_modelCount :: nat
  qs_windows :: "QuotaWindowEntry list option"

type_synonym raw_quota = "(string, QuotaGroupSummary) jsmap"

definition LEGACY_KEYS :: "string list" where
  "LEGACY_KEYS = [''gemini-pro'', ''gemini-flash'', ''claude'', ''gpt-oss'']"

definition earlierResetTime :: "string option \<Rightarrow> string option \<Rightarrow> string option" where
  "earlierResetTime a b =
     (if \<not> truthy_str a then b else if \<not> truthy_str b then a
      else if str_less (the a) (the b) then a else b)"

definition minFraction :: "QuotaGroupSummary option \<Rightarrow> QuotaGroupSummary option \<Rightarrow> QuotaGroupSummary option" where
  "minFraction a b =
     (case a of None \<Rightarrow> b
      | Some a' \<Rightarrow>
          (case b of None \<Rightarrow> Some a'
           | Some b' \<Rightarrow>
               (let fa = nullish (qs_remainingFraction a') 1; fb = nullish (qs_remainingFraction b') 1;
                    winner = (if fa \<le> fb then a' else b'); loser = (if fa \<le> fb then b' else a')
                in Some (winner\<lparr>qs_resetTime := earlierResetTime (qs_resetTime winner) (qs_resetTime loser)\<rparr>))))"

definition opt_entry :: "string \<Rightarrow> QuotaGroupSummary option \<Rightarrow> raw_quota" where
  "opt_entry k v = (case v of None \<Rightarrow> [] | Some x \<Rightarrow> [(k, x)])"

definition normalizeLegacyCachedQuota :: "raw_quota option \<Rightarrow> raw_quota option" where
  "normalizeLegacyCachedQuota raw =
     (case raw of
        None \<Rightarrow> None
      | Some m \<Rightarrow>
          if \<not> list_ex (jm_has m) LEGACY_KEYS then Some m
          else
            let gemini = minFraction (map_of m ''gemini'')
                           (minFraction (map_of m ''gemini-pro'') (map_of m ''gemini-flash''));
                nonGemini = minFraction (map_of m ''non-gemini'')
                           (minFraction (map_of m ''claude'') (map_of m ''gpt-oss''))
            in Some (opt_entry ''gemini'' gemini @ opt_entry ''non-gemini'' nonGemini
                     @ opt_entry ''gemini-argon'' (map_of m ''gemini-argon'')))"

section \<open>What the migration keeps\<close>

definition fraction_of :: "QuotaGroupSummary \<Rightarrow> num" where
  "fraction_of q = nullish (qs_remainingFraction q) 1"

text \<open>The least fraction of the summaries that are there.\<close>

definition min_opt :: "num option \<Rightarrow> num option \<Rightarrow> num option" where
  "min_opt x y = (case x of None \<Rightarrow> y | Some a \<Rightarrow> (case y of None \<Rightarrow> Some a | Some b \<Rightarrow> Some (min a b)))"

definition least_fraction :: "QuotaGroupSummary option list \<Rightarrow> num option" where
  "least_fraction qs = foldr (\<lambda>q. min_opt (map_option fraction_of q)) qs None"

lemma map_of_opt_entry [simp]:
  "map_of (opt_entry k v) k' = (if k' = k then v else None)"
  by (simp add: opt_entry_def split: option.split)

lemma normalize_map_of:
  assumes "normalizeLegacyCachedQuota (Some m) = Some m'" "list_ex (jm_has m) LEGACY_KEYS"
  shows "map_of m' k =
     (if k = ''gemini'' then minFraction (map_of m ''gemini'') (minFraction (map_of m ''gemini-pro'') (map_of m ''gemini-flash''))
      else if k = ''non-gemini'' then minFraction (map_of m ''non-gemini'') (minFraction (map_of m ''claude'') (map_of m ''gpt-oss''))
      else if k = ''gemini-argon'' then map_of m ''gemini-argon'' else None)"
  using assms by (auto simp: normalizeLegacyCachedQuota_def Let_def map_add_def split: option.splits)

lemma normalize_no_legacy:
  assumes "normalizeLegacyCachedQuota (Some m) = Some m'"
  shows "\<not> list_ex (jm_has m') LEGACY_KEYS"
proof (cases "list_ex (jm_has m) LEGACY_KEYS")
  case True
  then show ?thesis using normalize_map_of [OF assms True]
    by (simp add: LEGACY_KEYS_def jm_has_def)
next
  case False
  then show ?thesis using assms by (simp add: normalizeLegacyCachedQuota_def)
qed

lemma minFraction_fraction:
  "map_option fraction_of (minFraction a b) = min_opt (map_option fraction_of a) (map_option fraction_of b)"
  by (cases a; cases b) (auto simp: minFraction_def min_opt_def fraction_of_def Let_def min_def)

lemma minFraction3:
  "map_option fraction_of (minFraction a (minFraction b c)) = least_fraction [a, b, c]"
  by (simp add: minFraction_fraction least_fraction_def) (simp add: min_opt_def split: option.split)

end
