(* ===== verification/Selector_State.thy ===== *)
theory Selector_State
  imports Rotation Model_Registry Fingerprint Quota_Types
begin

text \<open>
  \<^verbatim>\<open>packages/core/src/account-selector.ts\<close>, the state: rows held by reference (a heap of
  row records and the pool's array of addresses, so that a row that left the pool is told
  from the row now at its index), the sessions, the cursors, the sink and the checks on one
  row (rate limits, cooldown, soft quota) with their side effects.

  The clock is read once per public call and passed as \<open>now\<close>. Optional sink methods are
  the predicate \<open>s_sink\<close>, and what they are called with is the log \<open>s_events\<close>.
  \<open>Date.parse\<close> is the argument \<open>dateParse\<close>; the ISO day of a time, which the code only
  compares for equality, is the number of days since the epoch.
\<close>

section \<open>Rows\<close>

datatype family = Claude | Gemini

fun family_name :: "family \<Rightarrow> string" where
  "family_name Claude = ''claude''"
| "family_name Gemini = ''gemini''"

definition FAMILIES :: "family list" where "FAMILIES = [Claude, Gemini]"

datatype LastSwitchReason = SwitchRateLimit | SwitchInitial | SwitchRotation
datatype CooldownReason = AuthFailure | NetworkError | ProjectError | ValidationRequired
datatype AccountSelectionStrategy = Sticky | RoundRobin | Hybrid

type_synonym cached_quota = "QuotaGroup \<Rightarrow> QuotaGroupSummary option"

record daily_counts =
  dc_day :: int
  dc_claude :: nat
  dc_gemini :: nat

record SelectableAccount =
  r_index :: int
  r_enabled :: bool
  r_lastUsed :: millis
  r_rateLimitResetTimes :: "(string, millis) jsmap"
  r_lastSwitchReason :: "LastSwitchReason option"
  r_coolingDownUntil :: "millis option"
  r_cooldownReason :: "CooldownReason option"
  r_touchedForQuota :: "(string, millis) jsmap"
  r_consecutiveFailures :: "nat option"
  r_lastFailureTime :: "millis option"
  r_cachedQuota :: "cached_quota option"
  r_cachedQuotaUpdatedAt :: "millis option"
  r_dailyRequestCounts :: "daily_counts option"
  r_email :: "string option"
  r_fingerprint :: "Fingerprint option"
  r_fingerprintHistory :: "FingerprintVersion list option"
  r_verificationRequired :: "bool option"
  r_verificationRequiredAt :: "millis option"
  r_verificationRequiredReason :: "string option"
  r_verificationUrl :: "string option"
  r_accountIneligible :: "bool option"
  r_accountIneligibleAt :: "millis option"
  r_accountIneligibleReason :: "string option"
  r_eligibilityStateUpdatedAt :: "millis option"

type_synonym row = SelectableAccount
type_synonym addr = nat

section \<open>Sessions, sink and selector\<close>

record AccountSessionIdentity =
  si_id :: string
  si_parentId :: "string option"

record AccountSessionState =
  ss_parentId :: "string option"
  ss_current :: "family \<Rightarrow> int"
  ss_cursor :: "family \<Rightarrow> nat"
  ss_offsetApplied :: "family \<Rightarrow> bool"
  ss_used :: "int set"
  ss_lastAccessedAt :: millis

datatype AccessVerdict =
  VerificationRequiredVerdict millis "string option" "string option"
| IneligibleVerdict millis "string option"
| ClearedVerdict millis bool

datatype sel_event =
  EvRateLimit addr string "millis option"
| EvCooldown addr "(millis \<times> CooldownReason) option"
| EvSwitched addr LastSwitchReason
| EvLastUsed addr millis
| EvSelection family "addr option"
| EvUsage addr family millis
| EvEnabled addr bool
| EvAccessVerdict addr AccessVerdict
| EvFingerprint addr
| EvRequestSave
| EvStale addr string
| EvDiagnostic string

datatype sink_method =
  RateLimitM | CooldownM | SwitchedM | LastUsedM | SelectionM | UsageM | EnabledM
| AccessVerdictM | FingerprintM | RequestSaveM | StaleM | DiagnosticM

record session_counts =
  sn_claude :: nat
  sn_gemini :: nat

record AccountSelector =
  s_heap :: "addr \<Rightarrow> row"
  s_accounts :: "addr list"
  s_cursor :: "family \<Rightarrow> nat"
  s_current :: "family \<Rightarrow> int"
  s_offsetApplied :: "family \<Rightarrow> bool"
  s_lastToastAccountIndex :: int
  s_lastToastTime :: millis
  s_sessionStartTime :: millis
  s_sessionRequestCounts :: "(int, session_counts) jsmap"
  s_sessionUsedAccounts :: "int set"
  s_requestSessionStates :: "(string, AccountSessionState) jsmap"
  s_health :: HealthScoreTracker
  s_healthOwned :: bool
  s_tokens :: TokenBucketTracker
  s_tokensOwned :: bool
  s_pid :: nat
  s_sink :: "sink_method \<Rightarrow> bool"
  s_events :: "sel_event list"

text \<open>The constructor, with the pool still empty.\<close>

definition new_selector ::
  "(sink_method \<Rightarrow> bool) \<Rightarrow> HealthScoreTracker option \<Rightarrow> TokenBucketTracker option \<Rightarrow> nat \<Rightarrow> millis
   \<Rightarrow> (addr \<Rightarrow> row) \<Rightarrow> AccountSelector" where
  "new_selector sink sharedHealth sharedTokens pid now heap =
     \<lparr>s_heap = heap, s_accounts = [], s_cursor = (\<lambda>_. 0), s_current = (\<lambda>_. -1),
      s_offsetApplied = (\<lambda>_. False), s_lastToastAccountIndex = -1, s_lastToastTime = 0,
      s_sessionStartTime = now, s_sessionRequestCounts = [], s_sessionUsedAccounts = {},
      s_requestSessionStates = [],
      s_health = nullish sharedHealth (new_health_tracker DEFAULT_HEALTH_SCORE_CONFIG),
      s_healthOwned = (sharedHealth = None),
      s_tokens = nullish sharedTokens (new_token_tracker DEFAULT_TOKEN_BUCKET_CONFIG),
      s_tokensOwned = (sharedTokens = None),
      s_pid = pid, s_sink = sink, s_events = []\<rparr>"

abbreviation row_at :: "AccountSelector \<Rightarrow> addr \<Rightarrow> row" where
  "row_at s a \<equiv> s_heap s a"

definition upd_row :: "addr \<Rightarrow> (row \<Rightarrow> row) \<Rightarrow> AccountSelector \<Rightarrow> AccountSelector" where
  "upd_row a f s = s\<lparr>s_heap := (s_heap s)(a := f (s_heap s a))\<rparr>"

definition emit :: "sink_method \<Rightarrow> sel_event \<Rightarrow> AccountSelector \<Rightarrow> AccountSelector" where
  "emit m e s = (if s_sink s m then s\<lparr>s_events := s_events s @ [e]\<rparr> else s)"

text \<open>\<open>isLoaded\<close>: membership by identity, with the report of an ignored transition.\<close>

definition isLoaded :: "addr \<Rightarrow> string \<Rightarrow> AccountSelector \<Rightarrow> bool \<times> AccountSelector" where
  "isLoaded a label s =
     (if a \<in> set (s_accounts s) then (True, s)
      else (False, if s_sink s StaleM then emit StaleM (EvStale a label) s
                   else emit DiagnosticM (EvDiagnostic label) s))"

text \<open>\<open>report !== undefined && this.isLoaded(row, label)\<close> guarding a report.\<close>

definition report_loaded :: "sink_method \<Rightarrow> sel_event \<Rightarrow> addr \<Rightarrow> AccountSelector \<Rightarrow> AccountSelector" where
  "report_loaded m e a s =
     (if s_sink s m
      then (let (ok, s1) = isLoaded a ''state change'' s in if ok then emit m e s1 else s1)
      else s)"

section \<open>Checks on one row\<close>

definition getQuotaKey :: "family \<Rightarrow> string option \<Rightarrow> string" where
  "getQuotaKey fam model =
     (if truthy_str model then family_name fam @ '':'' @ the model else family_name fam)"

definition isRateLimitedForQuotaKey :: "row \<Rightarrow> string \<Rightarrow> millis \<Rightarrow> bool" where
  "isRateLimitedForQuotaKey r key now =
     (case map_of (r_rateLimitResetTimes r) key of None \<Rightarrow> False | Some resetTime \<Rightarrow> now < resetTime)"

text \<open>\<open>/^(claude|gemini)(:|$)/\<close>.\<close>

definition family_key :: "string \<Rightarrow> bool" where
  "family_key key = (key = ''claude'' \<or> key = ''gemini''
     \<or> starts_with key ''claude:'' \<or> starts_with key ''gemini:'')"

definition clear_expired :: "millis \<Rightarrow> row \<Rightarrow> row" where
  "clear_expired now r = r\<lparr>r_rateLimitResetTimes :=
     filter (\<lambda>(key, resetTime). \<not> (family_key key \<and> resetTime \<le> now)) (r_rateLimitResetTimes r)\<rparr>"

definition clearExpiredRateLimits :: "addr \<Rightarrow> millis \<Rightarrow> AccountSelector \<Rightarrow> AccountSelector" where
  "clearExpiredRateLimits a now s = upd_row a (clear_expired now) s"

definition row_limited :: "family \<Rightarrow> string option \<Rightarrow> millis \<Rightarrow> row \<Rightarrow> bool" where
  "row_limited fam model now r =
     ((model \<noteq> None \<and> isRateLimitedForQuotaKey r (getQuotaKey fam model) now)
      \<or> isRateLimitedForQuotaKey r (family_name fam) now)"

definition isRateLimitedForFamily ::
  "addr \<Rightarrow> family \<Rightarrow> millis \<Rightarrow> string option \<Rightarrow> AccountSelector \<Rightarrow> bool \<times> AccountSelector" where
  "isRateLimitedForFamily a fam now model s =
     (let s1 = clearExpiredRateLimits a now s in (row_limited fam model now (row_at s1 a), s1))"

definition resolveQuotaGroup :: "family \<Rightarrow> string option \<Rightarrow> cached_quota option \<Rightarrow> QuotaGroup" where
  "resolveQuotaGroup fam model cachedQuota =
     (let fallback = (if fam = Claude then GNonGemini else GGemini) in
      if truthy_str model then
        (case getQuotaGroupForModel (the model)
                (case cachedQuota of None \<Rightarrow> False | Some q \<Rightarrow> q GArgon \<noteq> None) of
           Some g \<Rightarrow> g
         | None \<Rightarrow>
             (let lower = to_lower (the model) in
              if str_includes lower ''claude'' \<or> str_includes lower ''gpt-oss'' then GNonGemini
              else if str_includes lower ''gemini'' then GGemini
              else fallback))
      else fallback)"

definition reportsArgon :: "row \<Rightarrow> bool" where
  "reportsArgon r = (r_cachedQuotaUpdatedAt r \<noteq> None \<and>
     (case r_cachedQuota r of None \<Rightarrow> False | Some q \<Rightarrow> q GArgon \<noteq> None))"

definition preferArgonAccounts :: "AccountSelector \<Rightarrow> addr list \<Rightarrow> string option \<Rightarrow> addr list" where
  "preferArgonAccounts s accounts model =
     (if \<not> truthy_str model \<or> getQuotaGroupForModel (the model) True \<noteq> Some GArgon then accounts
      else let reporting = filter (\<lambda>a. reportsArgon (row_at s a)) accounts
           in if reporting \<noteq> [] then reporting else accounts)"

definition isOverSoftQuotaThreshold ::
  "row \<Rightarrow> family \<Rightarrow> num \<Rightarrow> millis \<Rightarrow> millis \<Rightarrow> string option \<Rightarrow> bool" where
  "isOverSoftQuotaThreshold r fam thresholdPercent cacheTtlMs now model =
     (if 100 \<le> thresholdPercent then False
      else case r_cachedQuota r of
        None \<Rightarrow> False
      | Some q \<Rightarrow>
          (case r_cachedQuotaUpdatedAt r of
             None \<Rightarrow> False
           | Some updatedAt \<Rightarrow>
               (if cacheTtlMs < now - updatedAt then False
                else case q (resolveQuotaGroup fam model (Some q)) of
                  None \<Rightarrow> False
                | Some groupData \<Rightarrow>
                    (case qs_remainingFraction groupData of
                       None \<Rightarrow> False
                     | Some f \<Rightarrow> thresholdPercent \<le> (1 - max 0 (min 1 f)) * 100))))"

definition row_cooling :: "millis \<Rightarrow> row \<Rightarrow> bool" where
  "row_cooling now r = (case r_coolingDownUntil r of None \<Rightarrow> False | Some until \<Rightarrow> now < until)"

definition clearAccountCooldown :: "addr \<Rightarrow> AccountSelector \<Rightarrow> AccountSelector" where
  "clearAccountCooldown a s =
     (let hadCooldown = (r_coolingDownUntil (row_at s a) \<noteq> None \<or> r_cooldownReason (row_at s a) \<noteq> None);
          s1 = upd_row a (\<lambda>r. r\<lparr>r_coolingDownUntil := None, r_cooldownReason := None\<rparr>) s
      in if hadCooldown then report_loaded CooldownM (EvCooldown a None) a s1 else s1)"

definition isAccountCoolingDown :: "addr \<Rightarrow> millis \<Rightarrow> AccountSelector \<Rightarrow> bool \<times> AccountSelector" where
  "isAccountCoolingDown a now s =
     (case r_coolingDownUntil (row_at s a) of
        None \<Rightarrow> (False, s)
      | Some until \<Rightarrow> if until \<le> now then (False, clearAccountCooldown a s) else (True, s))"

section \<open>What the checks leave unchanged\<close>

text \<open>
  The checks drop expired rate limits and expired cooldowns as they go. \<open>settle\<close> is the row
  with both dropped; every check reads the same from a row and from its settled form.
\<close>

definition settle :: "millis \<Rightarrow> row \<Rightarrow> row" where
  "settle now r =
     (let r1 = clear_expired now r in
      if r_coolingDownUntil r \<noteq> None \<and> \<not> row_cooling now r
      then r1\<lparr>r_coolingDownUntil := None, r_cooldownReason := None\<rparr> else r1)"

lemma clear_expired_fields [simp]:
  "r_index (clear_expired now r) = r_index r"
  "r_enabled (clear_expired now r) = r_enabled r"
  "r_lastUsed (clear_expired now r) = r_lastUsed r"
  "r_coolingDownUntil (clear_expired now r) = r_coolingDownUntil r"
  "r_cooldownReason (clear_expired now r) = r_cooldownReason r"
  "r_cachedQuota (clear_expired now r) = r_cachedQuota r"
  "r_cachedQuotaUpdatedAt (clear_expired now r) = r_cachedQuotaUpdatedAt r"
  "r_verificationRequired (clear_expired now r) = r_verificationRequired r"
  "r_accountIneligible (clear_expired now r) = r_accountIneligible r"
  by (simp_all add: clear_expired_def)

lemma clear_expired_idem [simp]: "clear_expired now (clear_expired now r) = clear_expired now r"
  by (simp add: clear_expired_def)

text \<open>A row is well formed when its rate-limit object has each key once.\<close>

definition row_wf :: "row \<Rightarrow> bool" where
  "row_wf r = jm_wf (r_rateLimitResetTimes r)"

lemma limited_key_clear [simp]:
  "row_wf r \<Longrightarrow> isRateLimitedForQuotaKey (clear_expired now r) key now = isRateLimitedForQuotaKey r key now"
  by (auto simp: isRateLimitedForQuotaKey_def clear_expired_def row_wf_def map_of_filter_keys
      split: option.split)

lemma row_limited_clear [simp]:
  "row_wf r \<Longrightarrow> row_limited fam model now (clear_expired now r) = row_limited fam model now r"
  by (simp add: row_limited_def)

lemma row_wf_clear [simp]: "row_wf r \<Longrightarrow> row_wf (clear_expired now r)"
  by (simp add: row_wf_def clear_expired_def)

lemma row_cooling_clear [simp]: "row_cooling now (clear_expired now r) = row_cooling now r"
  by (simp add: row_cooling_def)

lemma isOver_clear [simp]:
  "isOverSoftQuotaThreshold (clear_expired now' r) fam thr ttl now model
     = isOverSoftQuotaThreshold r fam thr ttl now model"
  by (simp add: isOverSoftQuotaThreshold_def cong: option.case_cong)

lemma isOver_cooldown [simp]:
  "isOverSoftQuotaThreshold (r\<lparr>r_coolingDownUntil := u, r_cooldownReason := c\<rparr>) fam thr ttl now model
     = isOverSoftQuotaThreshold r fam thr ttl now model"
  by (simp add: isOverSoftQuotaThreshold_def cong: option.case_cong)

lemma row_limited_cooldown [simp]:
  "row_limited fam model now (r\<lparr>r_coolingDownUntil := u, r_cooldownReason := c\<rparr>) = row_limited fam model now r"
  by (simp add: row_limited_def isRateLimitedForQuotaKey_def)

lemma row_wf_cooldown [simp]:
  "row_wf (r\<lparr>r_coolingDownUntil := u, r_cooldownReason := c\<rparr>) = row_wf r"
  by (simp add: row_wf_def)

lemma clear_expired_cooldown [simp]:
  "clear_expired now (r\<lparr>r_coolingDownUntil := u, r_cooldownReason := c\<rparr>)
     = (clear_expired now r)\<lparr>r_coolingDownUntil := u, r_cooldownReason := c\<rparr>"
  by (simp add: clear_expired_def)

lemma settle_clear [simp]: "settle now (clear_expired now r) = settle now r"
  by (simp add: settle_def Let_def)

lemma settle_cooldown:
  "r_coolingDownUntil r \<noteq> None \<Longrightarrow> \<not> row_cooling now r \<Longrightarrow>
     settle now (r\<lparr>r_coolingDownUntil := None, r_cooldownReason := None\<rparr>) = settle now r"
  by (simp add: settle_def Let_def)

lemma settle_idem [simp]: "settle now (settle now r) = settle now r"
  by (simp add: settle_def Let_def row_cooling_def)

lemma settle_fields [simp]:
  "r_index (settle now r) = r_index r"
  "r_enabled (settle now r) = r_enabled r"
  "r_lastUsed (settle now r) = r_lastUsed r"
  "r_cachedQuota (settle now r) = r_cachedQuota r"
  "r_cachedQuotaUpdatedAt (settle now r) = r_cachedQuotaUpdatedAt r"
  "r_verificationRequired (settle now r) = r_verificationRequired r"
  "r_accountIneligible (settle now r) = r_accountIneligible r"
  "isOverSoftQuotaThreshold (settle now r) fam thr ttl now' model = isOverSoftQuotaThreshold r fam thr ttl now' model"
  "row_cooling now (settle now r) = row_cooling now r"
  by (simp_all add: settle_def Let_def row_cooling_def)

lemma row_limited_settle [simp]:
  "row_wf r \<Longrightarrow> row_limited fam model now (settle now r) = row_limited fam model now r"
  by (simp add: settle_def Let_def)

lemma reportsArgon_settle [simp]: "reportsArgon (settle now r) = reportsArgon r"
  by (simp add: reportsArgon_def)

text \<open>
  Two selectors are in the relation \<open>calm now\<close> when they differ only in expired entries of
  rows and in the event log.
\<close>

definition calm :: "millis \<Rightarrow> AccountSelector \<Rightarrow> AccountSelector \<Rightarrow> bool" where
  "calm now s s' \<longleftrightarrow>
     (\<forall>a. settle now (s_heap s' a) = settle now (s_heap s a))
     \<and> (\<forall>a. row_wf (s_heap s a) \<longrightarrow> row_wf (s_heap s' a))
     \<and> s'\<lparr>s_heap := s_heap s, s_events := s_events s\<rparr> = s"

lemma calm_refl [simp]: "calm now s s"
  by (simp add: calm_def)

lemma calm_trans: "calm now s t \<Longrightarrow> calm now t u \<Longrightarrow> calm now s u"
  unfolding calm_def by (cases s; cases t; cases u; simp)

lemma calm_fields:
  assumes "calm now s s'"
  shows "s_accounts s' = s_accounts s" "s_cursor s' = s_cursor s" "s_current s' = s_current s"
    "s_offsetApplied s' = s_offsetApplied s" "s_sessionUsedAccounts s' = s_sessionUsedAccounts s"
    "s_requestSessionStates s' = s_requestSessionStates s" "s_health s' = s_health s"
    "s_tokens s' = s_tokens s" "s_pid s' = s_pid s" "s_sink s' = s_sink s"
    "s_sessionRequestCounts s' = s_sessionRequestCounts s"
    "s_lastToastAccountIndex s' = s_lastToastAccountIndex s"
  using assms unfolding calm_def by (cases s; cases s'; simp)+

lemma calm_row:
  assumes "calm now s s'"
  shows "r_index (row_at s' a) = r_index (row_at s a)" "r_enabled (row_at s' a) = r_enabled (row_at s a)"
    "r_lastUsed (row_at s' a) = r_lastUsed (row_at s a)"
    "r_verificationRequired (row_at s' a) = r_verificationRequired (row_at s a)"
    "r_accountIneligible (row_at s' a) = r_accountIneligible (row_at s a)"
    "isOverSoftQuotaThreshold (row_at s' a) fam thr ttl now' model
       = isOverSoftQuotaThreshold (row_at s a) fam thr ttl now' model"
    "row_cooling now (row_at s' a) = row_cooling now (row_at s a)"
    "reportsArgon (row_at s' a) = reportsArgon (row_at s a)"
    "r_cachedQuota (row_at s' a) = r_cachedQuota (row_at s a)"
  using assms unfolding calm_def by (metis settle_fields reportsArgon_settle)+

lemma calm_limited:
  assumes "calm now s s'" "row_wf (row_at s a)"
  shows "row_limited fam model now (row_at s' a) = row_limited fam model now (row_at s a)"
proof -
  have "row_wf (row_at s' a)" "settle now (row_at s' a) = settle now (row_at s a)"
    using assms by (simp_all add: calm_def)
  then show ?thesis using assms(2) by (metis row_limited_settle)
qed

lemma calm_wf: "calm now s s' \<Longrightarrow> row_wf (row_at s a) \<Longrightarrow> row_wf (row_at s' a)"
  by (simp add: calm_def)

lemma calm_upd:
  assumes "settle now (f (row_at s a)) = settle now (row_at s a)"
    "row_wf (row_at s a) \<Longrightarrow> row_wf (f (row_at s a))"
  shows "calm now s (upd_row a f s)"
  using assms by (simp add: calm_def upd_row_def)

lemma calm_emit: "calm now s (emit m e s)"
  by (simp add: calm_def emit_def)

lemma calm_isLoaded: "calm now s (snd (isLoaded a l s))"
  by (simp add: isLoaded_def calm_emit)

lemma calm_report: "calm now s (report_loaded m e a s)"
  by (auto simp: report_loaded_def split_beta intro: calm_isLoaded calm_trans [OF calm_isLoaded calm_emit])

lemma calm_clearExpired: "calm now s (clearExpiredRateLimits a now s)"
  unfolding clearExpiredRateLimits_def by (rule calm_upd) simp_all

lemma calm_isAccountCoolingDown: "calm now s (snd (isAccountCoolingDown a now s))"
proof (cases "r_coolingDownUntil (row_at s a) \<noteq> None \<and> \<not> row_cooling now (row_at s a)")
  case True
  let ?s1 = "upd_row a (\<lambda>r. r\<lparr>r_coolingDownUntil := None, r_cooldownReason := None\<rparr>) s"
  have "calm now s ?s1" using True by (intro calm_upd) (simp_all add: settle_cooldown)
  then show ?thesis using True calm_trans [OF _ calm_report]
    by (auto simp: isAccountCoolingDown_def clearAccountCooldown_def Let_def row_cooling_def)
next
  case False
  then show ?thesis by (auto simp: isAccountCoolingDown_def row_cooling_def split: option.splits)
qed

lemma fst_isAccountCoolingDown: "fst (isAccountCoolingDown a now s) = row_cooling now (row_at s a)"
  by (auto simp: isAccountCoolingDown_def row_cooling_def split: option.splits)

lemma isRateLimitedForFamily_calm:
  "row_wf (row_at s a) \<Longrightarrow>
     fst (isRateLimitedForFamily a fam now model s) = row_limited fam model now (row_at s a)"
  "calm now s (snd (isRateLimitedForFamily a fam now model s))"
  by (simp_all add: isRateLimitedForFamily_def Let_def calm_clearExpired)
    (simp add: clearExpiredRateLimits_def upd_row_def)

end
