(* ===== verification/Selector_Sessions.thy ===== *)
theory Selector_Sessions
  imports Selector_State
begin

text \<open>
  \<^verbatim>\<open>packages/core/src/account-selector.ts\<close>, sessions: the bounded store of per-session pins,
  the pool-wide and per-session active index and cursor, used accounts, toasts, and the
  choice of a row outside the parent session's row.
\<close>

section \<open>The session store\<close>

definition ACCOUNT_SESSION_STATE_TTL_MS :: millis where
  "ACCOUNT_SESSION_STATE_TTL_MS = 24 * 60 * 60 * 1000"

definition MAX_ACCOUNT_SESSION_STATES :: nat where
  "MAX_ACCOUNT_SESSION_STATES = 256"

type_synonym session_store = "(string, AccountSessionState) jsmap"

text \<open>The scan for the least recently accessed session; the first of equals wins.\<close>

definition older :: "string \<Rightarrow> (string \<times> millis) option \<Rightarrow> string \<times> AccountSessionState \<Rightarrow> (string \<times> millis) option" where
  "older preservedId acc p =
     (if fst p \<noteq> preservedId \<and> (case acc of None \<Rightarrow> True | Some (_, oldest) \<Rightarrow> ss_lastAccessedAt (snd p) < oldest)
      then Some (fst p, ss_lastAccessedAt (snd p)) else acc)"

definition oldest_session :: "string \<Rightarrow> session_store \<Rightarrow> string option" where
  "oldest_session preservedId m = map_option fst (foldl (older preservedId) None m)"

definition drop_expired_sessions :: "millis \<Rightarrow> string \<Rightarrow> session_store \<Rightarrow> session_store" where
  "drop_expired_sessions now preservedId m =
     filter (\<lambda>(i, st). \<not> (i \<noteq> preservedId \<and> ss_lastAccessedAt st < now - ACCOUNT_SESSION_STATE_TTL_MS)) m"

definition pruneRequestSessionStates :: "millis \<Rightarrow> string \<Rightarrow> session_store \<Rightarrow> session_store" where
  "pruneRequestSessionStates now preservedId m =
     (let m1 = drop_expired_sessions now preservedId m in
      if length m1 < MAX_ACCOUNT_SESSION_STATES \<or> jm_has m1 preservedId then m1
      else case oldest_session preservedId m1 of
             None \<Rightarrow> m1
           | Some oldestId \<Rightarrow> if oldestId \<noteq> [] then AList.delete oldestId m1 else m1)"

definition put_session :: "string \<Rightarrow> AccountSessionState \<Rightarrow> AccountSelector \<Rightarrow> AccountSelector" where
  "put_session i st s = s\<lparr>s_requestSessionStates := AList.update i st (s_requestSessionStates s)\<rparr>"

definition getRequestSessionState ::
  "AccountSessionIdentity \<Rightarrow> millis \<Rightarrow> AccountSelector \<Rightarrow> AccountSessionState \<times> AccountSelector" where
  "getRequestSessionState identity now s =
     (let m = pruneRequestSessionStates now (si_id identity) (s_requestSessionStates s);
          s1 = s\<lparr>s_requestSessionStates := m\<rparr>
      in case map_of m (si_id identity) of
           Some existing \<Rightarrow>
             (let st = existing\<lparr>ss_lastAccessedAt := now,
                         ss_parentId := (if truthy_str (si_parentId identity) then si_parentId identity
                                         else ss_parentId existing)\<rparr>
              in (st, put_session (si_id identity) st s1))
         | None \<Rightarrow>
             (let st = \<lparr>ss_parentId = si_parentId identity, ss_current = (\<lambda>_. -1),
                        ss_cursor = s_cursor s, ss_offsetApplied = (\<lambda>_. False), ss_used = {},
                        ss_lastAccessedAt = now\<rparr>
              in (st, put_session (si_id identity) st s1)))"

definition deleteSessionState :: "string \<Rightarrow> AccountSelector \<Rightarrow> AccountSelector" where
  "deleteSessionState sessionId s =
     s\<lparr>s_requestSessionStates := AList.delete sessionId (s_requestSessionStates s)\<rparr>"

section \<open>Active index, cursor and used accounts\<close>

definition getActiveIndex ::
  "family \<Rightarrow> AccountSessionIdentity option \<Rightarrow> millis \<Rightarrow> AccountSelector \<Rightarrow> int \<times> AccountSelector" where
  "getActiveIndex fam identity now s =
     (case identity of
        None \<Rightarrow> (s_current s fam, s)
      | Some i \<Rightarrow> (let (st, s1) = getRequestSessionState i now s in (ss_current st fam, s1)))"

definition setGlobalActiveIndex :: "family \<Rightarrow> int \<Rightarrow> AccountSelector \<Rightarrow> AccountSelector" where
  "setGlobalActiveIndex fam index s =
     (if s_current s fam = index then s
      else emit SelectionM (EvSelection fam (nth_opt (s_accounts s) index))
             (s\<lparr>s_current := (s_current s)(fam := index)\<rparr>))"

definition setActiveIndex ::
  "family \<Rightarrow> int \<Rightarrow> AccountSessionIdentity option \<Rightarrow> millis \<Rightarrow> AccountSelector \<Rightarrow> AccountSelector" where
  "setActiveIndex fam index identity now s =
     (case identity of
        None \<Rightarrow> setGlobalActiveIndex fam index s
      | Some i \<Rightarrow>
          (let (st, s1) = getRequestSessionState i now s;
               s2 = put_session (si_id i) (st\<lparr>ss_current := (ss_current st)(fam := index)\<rparr>) s1
           in if \<not> truthy_str (ss_parentId st) then setGlobalActiveIndex fam index s2 else s2))"

definition getCursor ::
  "family \<Rightarrow> AccountSessionIdentity option \<Rightarrow> millis \<Rightarrow> AccountSelector \<Rightarrow> nat \<times> AccountSelector" where
  "getCursor fam identity now s =
     (case identity of
        None \<Rightarrow> (s_cursor s fam, s)
      | Some i \<Rightarrow> (let (st, s1) = getRequestSessionState i now s in (ss_cursor st fam, s1)))"

definition advanceCursor ::
  "family \<Rightarrow> AccountSessionIdentity option \<Rightarrow> millis \<Rightarrow> AccountSelector \<Rightarrow> AccountSelector" where
  "advanceCursor fam identity now s =
     (let s1 = s\<lparr>s_cursor := (s_cursor s)(fam := s_cursor s fam + 1)\<rparr> in
      case identity of
        None \<Rightarrow> s1
      | Some i \<Rightarrow>
          (let (st, s2) = getRequestSessionState i now s1
           in put_session (si_id i) (st\<lparr>ss_cursor := (ss_cursor st)(fam := ss_cursor st fam + 1)\<rparr>) s2))"

definition getUsedAccounts ::
  "AccountSessionIdentity option \<Rightarrow> millis \<Rightarrow> AccountSelector \<Rightarrow> int set \<times> AccountSelector" where
  "getUsedAccounts identity now s =
     (case identity of
        None \<Rightarrow> (s_sessionUsedAccounts s, s)
      | Some i \<Rightarrow> (let (st, s1) = getRequestSessionState i now s in (ss_used st, s1)))"

definition recordSessionUsage ::
  "int \<Rightarrow> AccountSessionIdentity option \<Rightarrow> millis \<Rightarrow> AccountSelector \<Rightarrow> AccountSelector" where
  "recordSessionUsage accountIndex identity now s =
     (case identity of
        None \<Rightarrow> s\<lparr>s_sessionUsedAccounts := insert accountIndex (s_sessionUsedAccounts s)\<rparr>
      | Some i \<Rightarrow>
          (let (st, s1) = getRequestSessionState i now s
           in put_session (si_id i) (st\<lparr>ss_used := insert accountIndex (ss_used st)\<rparr>) s1))"

definition wasUsedInSession ::
  "int \<Rightarrow> AccountSessionIdentity option \<Rightarrow> millis \<Rightarrow> AccountSelector \<Rightarrow> bool \<times> AccountSelector" where
  "wasUsedInSession accountIndex identity now s =
     (let (used, s1) = getUsedAccounts identity now s in (accountIndex \<in> used, s1))"

definition preferAccountOutsideParent ::
  "addr list \<Rightarrow> family \<Rightarrow> AccountSessionIdentity option \<Rightarrow> millis \<Rightarrow> AccountSelector
   \<Rightarrow> addr list \<times> AccountSelector" where
  "preferAccountOutsideParent accounts fam identity now s =
     (case identity of
        None \<Rightarrow> (accounts, s)
      | Some i \<Rightarrow>
          (let (st, s1) = getRequestSessionState i now s in
           if \<not> truthy_str (ss_parentId st) then (accounts, s1)
           else
             let parentIndex =
                   (case map_of (s_requestSessionStates s1) (the (ss_parentId st)) of
                      None \<Rightarrow> -1 | Some ps \<Rightarrow> ss_current ps fam);
                 isolated = filter (\<lambda>a. r_index (row_at s1 a) \<noteq> parentIndex) accounts
             in (if parentIndex < 0 then accounts
                 else if isolated \<noteq> [] then isolated else accounts, s1)))"

definition eligible_flags :: "row \<Rightarrow> bool" where
  "eligible_flags r =
     (r_enabled r \<and> r_accountIneligible r \<noteq> Some True \<and> r_verificationRequired r \<noteq> Some True)"

definition getCurrentAccountForFamily ::
  "family \<Rightarrow> AccountSessionIdentity option \<Rightarrow> millis \<Rightarrow> AccountSelector \<Rightarrow> addr option \<times> AccountSelector" where
  "getCurrentAccountForFamily fam identity now s =
     (let (currentIndex, s1) = getActiveIndex fam identity now s in
      case nth_opt (s_accounts s1) currentIndex of
        None \<Rightarrow> (None, s1)
      | Some a \<Rightarrow> (if eligible_flags (row_at s1 a) then Some a else None, s1))"

definition getActiveIndexByFamily ::
  "AccountSessionIdentity option \<Rightarrow> millis \<Rightarrow> AccountSelector \<Rightarrow> (family \<Rightarrow> int) \<times> AccountSelector" where
  "getActiveIndexByFamily identity now s =
     (let (c, s1) = getActiveIndex Claude identity now s;
          (g, s2) = getActiveIndex Gemini identity now s1
      in ((\<lambda>f. case f of Claude \<Rightarrow> c | Gemini \<Rightarrow> g), s2))"

definition markSwitched ::
  "addr \<Rightarrow> LastSwitchReason \<Rightarrow> family \<Rightarrow> AccountSessionIdentity option \<Rightarrow> millis
   \<Rightarrow> AccountSelector \<Rightarrow> AccountSelector" where
  "markSwitched a reason fam identity now s =
     (let s1 = upd_row a (\<lambda>r. r\<lparr>r_lastSwitchReason := Some reason\<rparr>) s;
          (loaded, s2) = isLoaded a ''switch'' s1
      in if \<not> loaded then s2
         else setActiveIndex fam (r_index (row_at s2 a)) identity now
                (emit SwitchedM (EvSwitched a reason) s2))"

definition shouldShowAccountToast :: "int \<Rightarrow> millis \<Rightarrow> millis \<Rightarrow> AccountSelector \<Rightarrow> bool" where
  "shouldShowAccountToast accountIndex debounceMs now s =
     (if accountIndex \<noteq> s_lastToastAccountIndex s then True
      else debounceMs \<le> now - s_lastToastTime s)"

definition markToastShown :: "int \<Rightarrow> millis \<Rightarrow> AccountSelector \<Rightarrow> AccountSelector" where
  "markToastShown accountIndex now s =
     s\<lparr>s_lastToastAccountIndex := accountIndex, s_lastToastTime := now\<rparr>"

section \<open>The store stays bounded\<close>

lemma foldl_older_member:
  "foldl (older k) acc m = Some (i, t) \<Longrightarrow>
     acc = Some (i, t) \<or> (i \<noteq> k \<and> (\<exists>st. (i, st) \<in> set m \<and> ss_lastAccessedAt st = t))"
  by (induction m arbitrary: acc) (fastforce simp: older_def split: if_splits)+

lemma foldl_older_Some: "acc \<noteq> None \<Longrightarrow> foldl (older k) acc m \<noteq> None"
  by (induction m arbitrary: acc) (auto simp: older_def)

lemma foldl_older_exists: "i \<in> fst ` set m \<Longrightarrow> i \<noteq> k \<Longrightarrow> foldl (older k) acc m \<noteq> None"
proof (induction m arbitrary: acc)
  case Nil
  then show ?case by simp
next
  case (Cons p m)
  show ?case
  proof (cases "i \<in> fst ` set m")
    case True
    then show ?thesis using Cons.IH Cons.prems by simp
  next
    case False
    then have "older k acc p \<noteq> None" using Cons.prems by (auto simp: older_def split: option.splits)
    then show ?thesis using foldl_older_Some by simp
  qed
qed

lemma oldest_session_in: "oldest_session k m = Some i \<Longrightarrow> i \<in> fst ` set m \<and> i \<noteq> k"
  using foldl_older_member [of k None m] by (force simp: oldest_session_def)

lemma oldest_session_exists: "m \<noteq> [] \<Longrightarrow> \<not> jm_has m k \<Longrightarrow> oldest_session k m \<noteq> None"
  using foldl_older_exists [of "fst (hd m)" m k None]
  by (cases m) (auto simp: oldest_session_def jm_has_iff simp del: foldl.simps)

definition sessions_ok :: "session_store \<Rightarrow> bool" where
  "sessions_ok m = (jm_wf m \<and> [] \<notin> fst ` set m \<and> length m \<le> MAX_ACCOUNT_SESSION_STATES)"

lemma prune_wf: "jm_wf m \<Longrightarrow> jm_wf (pruneRequestSessionStates now k m)"
  by (auto simp: pruneRequestSessionStates_def drop_expired_sessions_def Let_def split: option.split)

lemma prune_subset: "set (pruneRequestSessionStates now k m) \<subseteq> set m"
  by (auto simp: pruneRequestSessionStates_def drop_expired_sessions_def Let_def AList.delete_eq
      split: option.splits if_splits)

lemma prune_keys: "fst ` set (pruneRequestSessionStates now k m) \<subseteq> fst ` set m"
  using prune_subset by (rule image_mono)

lemma prune_keeps:
  assumes "jm_wf m"
  shows "map_of (pruneRequestSessionStates now k m) k = map_of m k"
proof -
  have d: "map_of (drop_expired_sessions now k m) k = map_of m k"
    unfolding drop_expired_sessions_def using assms
    by (subst map_of_filter_keys) (auto split: option.split)
  show ?thesis
  proof (cases "oldest_session k (drop_expired_sessions now k m)")
    case None
    then show ?thesis using d by (simp add: pruneRequestSessionStates_def Let_def)
  next
    case (Some i)
    then have "k \<noteq> i" using oldest_session_in by blast
    then show ?thesis using Some d by (simp add: pruneRequestSessionStates_def Let_def delete_conv)
  qed
qed

lemma prune_room:
  assumes "[] \<notin> fst ` set m" "length m \<le> MAX_ACCOUNT_SESSION_STATES"
  shows "jm_has (pruneRequestSessionStates now k m) k
    \<or> length (pruneRequestSessionStates now k m) < MAX_ACCOUNT_SESSION_STATES"
proof -
  let ?m1 = "drop_expired_sessions now k m"
  have len: "length ?m1 \<le> MAX_ACCOUNT_SESSION_STATES" and keys: "[] \<notin> fst ` set ?m1"
    using assms by (auto simp: drop_expired_sessions_def intro: le_trans [OF length_filter_le])
  show ?thesis
  proof (cases "length ?m1 < MAX_ACCOUNT_SESSION_STATES \<or> jm_has ?m1 k")
    case True
    then show ?thesis by (auto simp: pruneRequestSessionStates_def Let_def)
  next
    case False
    then have "?m1 \<noteq> []" by (auto simp: MAX_ACCOUNT_SESSION_STATES_def)
    with False obtain i where i: "oldest_session k ?m1 = Some i"
      using oldest_session_exists by blast
    then have "i \<in> fst ` set ?m1" using oldest_session_in by blast
    moreover from this keys have "i \<noteq> []" by blast
    moreover have "length (AList.delete i ?m1) < length ?m1"
      using \<open>i \<in> fst ` set ?m1\<close> by (rule length_delete_lt)
    ultimately show ?thesis using False i len by (simp add: pruneRequestSessionStates_def Let_def)
  qed
qed

lemma put_session_fields [simp]:
  "s_heap (put_session i st s) = s_heap s" "s_accounts (put_session i st s) = s_accounts s"
  "s_current (put_session i st s) = s_current s" "s_cursor (put_session i st s) = s_cursor s"
  "s_offsetApplied (put_session i st s) = s_offsetApplied s" "s_pid (put_session i st s) = s_pid s"
  "s_sink (put_session i st s) = s_sink s" "s_events (put_session i st s) = s_events s"
  "s_health (put_session i st s) = s_health s" "s_tokens (put_session i st s) = s_tokens s"
  "s_sessionUsedAccounts (put_session i st s) = s_sessionUsedAccounts s"
  "s_requestSessionStates (put_session i st s) = AList.update i st (s_requestSessionStates s)"
  by (simp_all add: put_session_def)

lemma getRequestSessionState_fields [simp]:
  "s_heap (snd (getRequestSessionState i now s)) = s_heap s"
  "s_accounts (snd (getRequestSessionState i now s)) = s_accounts s"
  "s_current (snd (getRequestSessionState i now s)) = s_current s"
  "s_cursor (snd (getRequestSessionState i now s)) = s_cursor s"
  "s_offsetApplied (snd (getRequestSessionState i now s)) = s_offsetApplied s"
  "s_pid (snd (getRequestSessionState i now s)) = s_pid s"
  "s_sink (snd (getRequestSessionState i now s)) = s_sink s"
  "s_events (snd (getRequestSessionState i now s)) = s_events s"
  "s_health (snd (getRequestSessionState i now s)) = s_health s"
  "s_tokens (snd (getRequestSessionState i now s)) = s_tokens s"
  "s_sessionUsedAccounts (snd (getRequestSessionState i now s)) = s_sessionUsedAccounts s"
  by (simp_all add: getRequestSessionState_def Let_def split: option.split)

lemma getRequestSessionState_sessions:
  "s_requestSessionStates (snd (getRequestSessionState i now s)) =
     AList.update (si_id i) (fst (getRequestSessionState i now s))
       (pruneRequestSessionStates now (si_id i) (s_requestSessionStates s))"
  by (simp add: getRequestSessionState_def Let_def split: option.split)

lemma getRequestSessionState_ok:
  assumes "sessions_ok (s_requestSessionStates s)" "si_id i \<noteq> []"
  shows "sessions_ok (s_requestSessionStates (snd (getRequestSessionState i now s)))"
proof -
  let ?m = "s_requestSessionStates s"
  let ?p = "pruneRequestSessionStates now (si_id i) ?m"
  have m: "jm_wf ?m" "[] \<notin> fst ` set ?m" "length ?m \<le> MAX_ACCOUNT_SESSION_STATES"
    using assms(1) by (simp_all add: sessions_ok_def)
  have p: "jm_wf ?p" "[] \<notin> fst ` set ?p"
    using m prune_keys [of now "si_id i" ?m] by (auto intro: prune_wf)
  have "length ?p \<le> length ?m"
    by (auto simp: pruneRequestSessionStates_def drop_expired_sessions_def Let_def split: option.split
        intro: le_trans [OF length_delete_le] le_trans [OF length_filter_le])
  then have "length (AList.update (si_id i) (fst (getRequestSessionState i now s)) ?p)
      \<le> MAX_ACCOUNT_SESSION_STATES"
    using prune_room [OF m(2,3), of now "si_id i"] m(3) by (auto simp: length_update)
  moreover have "[] \<notin> fst ` set (AList.update (si_id i) (fst (getRequestSessionState i now s)) ?p)"
    using p(2) assms(2) by (auto simp: dom_update)
  ultimately show ?thesis using p(1) by (simp add: sessions_ok_def getRequestSessionState_sessions)
qed

lemma getRequestSessionState_created:
  assumes "jm_wf (s_requestSessionStates s)" "map_of (s_requestSessionStates s) (si_id i) = None"
  shows "fst (getRequestSessionState i now s) =
     \<lparr>ss_parentId = si_parentId i, ss_current = (\<lambda>_. -1), ss_cursor = s_cursor s,
      ss_offsetApplied = (\<lambda>_. False), ss_used = {}, ss_lastAccessedAt = now\<rparr>"
  using assms by (simp add: getRequestSessionState_def Let_def prune_keeps)

lemma getRequestSessionState_existing:
  assumes "jm_wf (s_requestSessionStates s)" "map_of (s_requestSessionStates s) (si_id i) = Some st"
  shows "fst (getRequestSessionState i now s) = st\<lparr>ss_lastAccessedAt := now,
     ss_parentId := (if truthy_str (si_parentId i) then si_parentId i else ss_parentId st)\<rparr>"
  using assms by (simp add: getRequestSessionState_def Let_def prune_keeps)

end
