(* ===== verification/Selector_Select.thy ===== *)
theory Selector_Select
  imports Selector_Sessions
begin

text \<open>
  \<^verbatim>\<open>packages/core/src/account-selector.ts\<close>, selection: \<open>getNextForFamily\<close> (round robin),
  \<open>getCurrentOrNextForFamily\<close> (session pin, round robin, hybrid, sticky fallback) and
  \<open>proactivelyRotateForFamily\<close>. The long method is split at its blank-line sections, in
  order. The lemmas relate every path to one predicate, \<open>available\<close>.
\<close>

section \<open>Marks made while selecting\<close>

definition touchLastUsed :: "addr \<Rightarrow> millis \<Rightarrow> AccountSelector \<Rightarrow> AccountSelector" where
  "touchLastUsed a now s =
     report_loaded LastUsedM (EvLastUsed a now) a (upd_row a (\<lambda>r. r\<lparr>r_lastUsed := now\<rparr>) s)"

definition markTouchedForQuota :: "addr \<Rightarrow> string \<Rightarrow> millis \<Rightarrow> AccountSelector \<Rightarrow> AccountSelector" where
  "markTouchedForQuota a quotaKey now s =
     upd_row a (\<lambda>r. r\<lparr>r_touchedForQuota := AList.update quotaKey now (r_touchedForQuota r)\<rparr>) s"

definition getEligibleAccounts :: "int set \<Rightarrow> AccountSelector \<Rightarrow> addr list" where
  "getEligibleAccounts excludeIndexes s =
     filter (\<lambda>a. eligible_flags (row_at s a) \<and> r_index (row_at s a) \<notin> excludeIndexes) (s_accounts s)"

definition getEffectiveSoftQuotaThreshold :: "num \<Rightarrow> int set \<Rightarrow> AccountSelector \<Rightarrow> num" where
  "getEffectiveSoftQuotaThreshold thresholdPercent excludeIndexes s =
     (if 1 < length (getEligibleAccounts excludeIndexes s) then thresholdPercent else 100)"

section \<open>Round robin\<close>

text \<open>The filter callback of \<open>getNextForFamily\<close>, with its short circuits.\<close>

definition check_next ::
  "family \<Rightarrow> string option \<Rightarrow> num \<Rightarrow> millis \<Rightarrow> int set \<Rightarrow> millis \<Rightarrow> addr \<Rightarrow> AccountSelector
   \<Rightarrow> bool \<times> AccountSelector" where
  "check_next fam model thr ttl excl now a s =
     (let s1 = clearExpiredRateLimits a now s in
      if \<not> eligible_flags (row_at s1 a) \<or> r_index (row_at s1 a) \<in> excl then (False, s1)
      else
        let (limited, s2) = isRateLimitedForFamily a fam now model s1 in
        if limited \<or> isOverSoftQuotaThreshold (row_at s2 a) fam thr ttl now model then (False, s2)
        else let (cooling, s3) = isAccountCoolingDown a now s2 in (\<not> cooling, s3))"

definition getNextForFamily ::
  "family \<Rightarrow> string option \<Rightarrow> num \<Rightarrow> millis \<Rightarrow> AccountSessionIdentity option \<Rightarrow> int set \<Rightarrow> millis
   \<Rightarrow> AccountSelector \<Rightarrow> addr option \<times> AccountSelector" where
  "getNextForFamily fam model thr ttl identity excl now s =
     (let effective = getEffectiveSoftQuotaThreshold thr excl s;
          (allAvailable, s1) = filter_st (check_next fam model effective ttl excl now) (s_accounts s) s;
          (avail, s2) = preferAccountOutsideParent (preferArgonAccounts s1 allAvailable model) fam identity now s1
      in if avail = [] then (None, s2)
         else
           let (usedAccounts, s3) = getUsedAccounts identity now s2;
               sessionUsed = filter (\<lambda>a. r_index (row_at s3 a) \<in> usedAccounts) avail;
               candidates = (if sessionUsed \<noteq> [] then sessionUsed else avail);
               (cursor, s4) = getCursor fam identity now s3
           in (Some (candidates ! (cursor mod length candidates)), advanceCursor fam identity now s4))"

section \<open>Current or next\<close>

record selection_query =
  sq_family :: family
  sq_model :: "string option"
  sq_strategy :: AccountSelectionStrategy
  sq_pidOffsetEnabled :: bool
  sq_threshold :: num
  sq_ttl :: millis
  sq_identity :: "AccountSessionIdentity option"
  sq_exclude :: "int set"

definition query_key :: "selection_query \<Rightarrow> string" where
  "query_key q = getQuotaKey (sq_family q) (sq_model q)"

text \<open>The session pin: \<open>Some\<close> row when the pinned row is available.\<close>

definition select_pinned ::
  "selection_query \<Rightarrow> num \<Rightarrow> millis \<Rightarrow> AccountSelector \<Rightarrow> addr option \<times> AccountSelector" where
  "select_pinned q effective now s =
     (case sq_identity q of
        None \<Rightarrow> (None, s)
      | Some _ \<Rightarrow>
          (let (pinned, s1) = getCurrentAccountForFamily (sq_family q) (sq_identity q) now s in
           case pinned of
             None \<Rightarrow> (None, s1)
           | Some a \<Rightarrow>
               let s2 = clearExpiredRateLimits a now s1 in
               if r_index (row_at s2 a) \<in> sq_exclude q then (None, s2)
               else
                 let (limited, s3) = isRateLimitedForFamily a (sq_family q) now (sq_model q) s2 in
                 if limited \<or> isOverSoftQuotaThreshold (row_at s3 a) (sq_family q) effective (sq_ttl q) now (sq_model q)
                 then (None, s3)
                 else
                   let (cooling, s4) = isAccountCoolingDown a now s3 in
                   if cooling then (None, s4)
                   else (Some a, markTouchedForQuota a (query_key q) now s4)))"

text \<open>The calls both fallbacks make: next row, touched and made active.\<close>

definition select_next ::
  "selection_query \<Rightarrow> num \<Rightarrow> millis \<Rightarrow> AccountSelector \<Rightarrow> addr option \<times> AccountSelector" where
  "select_next q effective now s =
     (let (next, s1) = getNextForFamily (sq_family q) (sq_model q) effective (sq_ttl q)
                         (sq_identity q) (sq_exclude q) now s in
      case next of
        None \<Rightarrow> (None, s1)
      | Some a \<Rightarrow>
          (let s2 = markTouchedForQuota a (query_key q) now s1
           in (Some a, setActiveIndex (sq_family q) (r_index (row_at s2 a)) (sq_identity q) now s2)))"

text \<open>The metrics of one row for the hybrid choice.\<close>

definition hybrid_metrics ::
  "selection_query \<Rightarrow> num \<Rightarrow> millis \<Rightarrow> addr \<Rightarrow> AccountSelector \<Rightarrow> AccountWithMetrics \<times> AccountSelector" where
  "hybrid_metrics q effective now a s =
     (let s1 = clearExpiredRateLimits a now s;
          r = row_at s1 a;
          (limited, s2) = isRateLimitedForFamily a (sq_family q) now (sq_model q) s1;
          isLimited = (limited \<or>
            isOverSoftQuotaThreshold (row_at s2 a) (sq_family q) effective (sq_ttl q) now (sq_model q));
          (cooling, s3) = isAccountCoolingDown a now s2
      in (\<lparr>am_index = r_index r, am_lastUsed = r_lastUsed r,
           am_healthScore = getScore (s_health s1) now (r_index r),
           am_isRateLimited = isLimited, am_isCoolingDown = cooling\<rparr>, s3))"

definition select_hybrid ::
  "selection_query \<Rightarrow> num \<Rightarrow> millis \<Rightarrow> AccountSelector \<Rightarrow> addr option \<times> AccountSelector" where
  "select_hybrid q effective now s =
     (let (eligibleAccounts, s1) =
            preferAccountOutsideParent (getEligibleAccounts (sq_exclude q) s) (sq_family q) (sq_identity q) now s;
          (metrics, s2) = map_st (hybrid_metrics q effective now) eligibleAccounts s1;
          (currentIndex, s3) = getActiveIndex (sq_family q) (sq_identity q) now s2;
          preferred = preferArgonAccounts s3 eligibleAccounts (sq_model q);
          preferredIndexes = set (map (\<lambda>a. r_index (row_at s3 a)) preferred);
          select = (\<lambda>candidates. selectHybridAccount candidates (s_tokens s3) (Some currentIndex) 50 now);
          selectedIndex =
            (case select (filter (\<lambda>m. am_index m \<in> preferredIndexes) metrics) of
               Some i \<Rightarrow> Some i
             | None \<Rightarrow> select metrics)
      in case selectedIndex of
           None \<Rightarrow> (None, s3)
         | Some i \<Rightarrow>
             (case nth_opt (s_accounts s3) i of
                None \<Rightarrow> (None, s3)
              | Some a \<Rightarrow>
                  (let s4 = touchLastUsed a now s3;
                       s5 = markTouchedForQuota a (query_key q) now s4
                   in (Some a, setActiveIndex (sq_family q) (r_index (row_at s5 a)) (sq_identity q) now s5))))"

text \<open>The process-id offset, applied once per family to the session or to the pool.\<close>

definition offset_flags ::
  "AccountSessionIdentity option \<Rightarrow> millis \<Rightarrow> AccountSelector \<Rightarrow> (family \<Rightarrow> bool) \<times> AccountSelector" where
  "offset_flags identity now s =
     (case identity of
        None \<Rightarrow> (s_offsetApplied s, s)
      | Some i \<Rightarrow> (let (st, s1) = getRequestSessionState i now s in (ss_offsetApplied st, s1)))"

definition set_offset_applied ::
  "family \<Rightarrow> AccountSessionIdentity option \<Rightarrow> AccountSelector \<Rightarrow> AccountSelector" where
  "set_offset_applied fam identity s =
     (case identity of
        None \<Rightarrow> s\<lparr>s_offsetApplied := (s_offsetApplied s)(fam := True)\<rparr>
      | Some i \<Rightarrow>
          (case map_of (s_requestSessionStates s) (si_id i) of
             None \<Rightarrow> s
           | Some st \<Rightarrow>
               put_session (si_id i) (st\<lparr>ss_offsetApplied := (ss_offsetApplied st)(fam := True)\<rparr>) s))"

definition apply_pid_offset :: "selection_query \<Rightarrow> millis \<Rightarrow> AccountSelector \<Rightarrow> AccountSelector" where
  "apply_pid_offset q now s =
     (let (offsetApplied, s1) = offset_flags (sq_identity q) now s;
          n = int (length (s_accounts s1))
      in if sq_pidOffsetEnabled q \<and> \<not> offsetApplied (sq_family q) \<and> 1 < n then
           let pidOffset = int (s_pid s1) mod n;
               (activeIndex, s2) = getActiveIndex (sq_family q) (sq_identity q) now s1;
               (baseIndex, s3) =
                 (if 0 \<le> activeIndex then (activeIndex, s2)
                  else let (c, s') = getCursor (sq_family q) (sq_identity q) now s2 in (int c, s'));
               newIndex = (baseIndex + pidOffset) mod n;
               s4 = emit DiagnosticM (EvDiagnostic ''Applying PID account offset'') s3;
               s5 = setActiveIndex (sq_family q) newIndex (sq_identity q) now s4
           in set_offset_applied (sq_family q) (sq_identity q) s5
         else s1)"

text \<open>The filter callback of the sticky fallback: the cooldown is read before the soft quota.\<close>

definition check_sticky ::
  "family \<Rightarrow> string option \<Rightarrow> num \<Rightarrow> millis \<Rightarrow> int set \<Rightarrow> millis \<Rightarrow> addr \<Rightarrow> AccountSelector
   \<Rightarrow> bool \<times> AccountSelector" where
  "check_sticky fam model thr ttl excl now a s =
     (if \<not> eligible_flags (row_at s a) \<or> r_index (row_at s a) \<in> excl then (False, s)
      else
        let (limited, s1) = isRateLimitedForFamily a fam now model s in
        if limited then (False, s1)
        else
          let (cooling, s2) = isAccountCoolingDown a now s1 in
          if cooling then (False, s2)
          else (\<not> isOverSoftQuotaThreshold (row_at s2 a) fam thr ttl now model, s2))"

definition select_sticky ::
  "selection_query \<Rightarrow> num \<Rightarrow> millis \<Rightarrow> AccountSelector \<Rightarrow> addr option \<times> AccountSelector" where
  "select_sticky q effective now s =
     (let s1 = apply_pid_offset q now s;
          (current, s2) = getCurrentAccountForFamily (sq_family q) (sq_identity q) now s1;
          (usable, s3) = filter_st (check_sticky (sq_family q) (sq_model q) effective (sq_ttl q) (sq_exclude q) now)
                           (s_accounts s2) s2;
          preferred = preferArgonAccounts s3 usable (sq_model q)
      in case current of
           None \<Rightarrow> select_next q effective now s3
         | Some a \<Rightarrow>
             (if a \<in> set preferred then
                let s4 = clearExpiredRateLimits a now s3;
                    (isLimited, s5) = isRateLimitedForFamily a (sq_family q) now (sq_model q) s4;
                    isOver = isOverSoftQuotaThreshold (row_at s5 a) (sq_family q) effective (sq_ttl q) now (sq_model q)
                in if \<not> isLimited \<and> \<not> isOver then
                     let (cooling, s6) = isAccountCoolingDown a now s5 in
                     if \<not> cooling then (Some a, markTouchedForQuota a (query_key q) now s6)
                     else select_next q effective now s6
                   else select_next q effective now s5
              else select_next q effective now s3))"

definition getCurrentOrNextForFamily ::
  "selection_query \<Rightarrow> millis \<Rightarrow> AccountSelector \<Rightarrow> addr option \<times> AccountSelector" where
  "getCurrentOrNextForFamily q now s =
     (let effective = getEffectiveSoftQuotaThreshold (sq_threshold q) (sq_exclude q) s;
          (pinned, s1) = select_pinned q effective now s
      in case pinned of
           Some a \<Rightarrow> (Some a, s1)
         | None \<Rightarrow>
             (case sq_strategy q of
                RoundRobin \<Rightarrow> select_next q effective now s1
              | Hybrid \<Rightarrow>
                  (let (chosen, s2) = select_hybrid q effective now s1 in
                   case chosen of Some a \<Rightarrow> (Some a, s2) | None \<Rightarrow> select_sticky q effective now s2)
              | Sticky \<Rightarrow> select_sticky q effective now s1))"

section \<open>Proactive rotation\<close>

definition shouldProactivelyRotate ::
  "family \<Rightarrow> string option \<Rightarrow> num \<Rightarrow> millis \<Rightarrow> AccountSessionIdentity option \<Rightarrow> millis
   \<Rightarrow> AccountSelector \<Rightarrow> bool \<times> AccountSelector" where
  "shouldProactivelyRotate fam model thresholdPercent cacheTtlMs identity now s =
     (if thresholdPercent \<le> 0 then (False, s)
      else
        let (current, s1) = getCurrentAccountForFamily fam identity now s in
        (case current of
           None \<Rightarrow> False
         | Some a \<Rightarrow>
             (case (r_cachedQuota (row_at s1 a), r_cachedQuotaUpdatedAt (row_at s1 a)) of
                (Some q, Some updatedAt) \<Rightarrow>
                  (if cacheTtlMs < now - updatedAt then False
                   else case q (resolveQuotaGroup fam model (Some q)) of
                     None \<Rightarrow> False
                   | Some g \<Rightarrow>
                       (case qs_remainingFraction g of
                          None \<Rightarrow> False
                        | Some f \<Rightarrow> max 0 (min 100 (f * 100)) < thresholdPercent))
              | _ \<Rightarrow> False), s1))"

definition check_rotate ::
  "family \<Rightarrow> string option \<Rightarrow> num \<Rightarrow> millis \<Rightarrow> int \<Rightarrow> millis \<Rightarrow> addr \<Rightarrow> AccountSelector
   \<Rightarrow> bool \<times> AccountSelector" where
  "check_rotate fam model thr ttl currentIndex now a s =
     (if \<not> eligible_flags (row_at s a) \<or> r_index (row_at s a) = currentIndex then (False, s)
      else
        let s1 = clearExpiredRateLimits a now s;
            (limited, s2) = isRateLimitedForFamily a fam now model s1
        in if limited \<or> isOverSoftQuotaThreshold (row_at s2 a) fam thr ttl now model then (False, s2)
           else let (cooling, s3) = isAccountCoolingDown a now s2 in (\<not> cooling, s3))"

definition remaining_for :: "family \<Rightarrow> string option \<Rightarrow> row \<Rightarrow> num" where
  "remaining_for fam model r =
     (case r_cachedQuota r of
        None \<Rightarrow> 0
      | Some q \<Rightarrow>
          (case q (resolveQuotaGroup fam model (Some q)) of
             None \<Rightarrow> 0 | Some g \<Rightarrow> nullish (qs_remainingFraction g) 0))"

definition proactivelyRotateForFamily ::
  "family \<Rightarrow> string option \<Rightarrow> num \<Rightarrow> millis \<Rightarrow> AccountSessionIdentity option \<Rightarrow> millis
   \<Rightarrow> AccountSelector \<Rightarrow> addr option \<times> AccountSelector" where
  "proactivelyRotateForFamily fam model thr ttl identity now s =
     (let (currentIndex, s1) = getActiveIndex fam identity now s;
          (open_rows, s2) = filter_st (check_rotate fam model thr ttl currentIndex now) (s_accounts s1) s1;
          (candidates, s3) = preferAccountOutsideParent open_rows fam identity now s2
      in if candidates = [] then (None, s3)
         else
           let (usedAccounts, s4) = getUsedAccounts identity now s3;
               warm = filter (\<lambda>a. r_index (row_at s4 a) \<in> usedAccounts) candidates;
               pool = sort_key (\<lambda>a. - remaining_for fam model (row_at s4 a))
                        (if warm \<noteq> [] then warm else candidates)
           in case pool of
                [] \<Rightarrow> (None, s4)
              | a # _ \<Rightarrow>
                  (let s5 = markTouchedForQuota a (getQuotaKey fam model) now s4
                   in (Some a, setActiveIndex fam (r_index (row_at s5 a)) identity now s5)))"

end
