(* ===== verification/Selector_Available.thy ===== *)
theory Selector_Available
  imports Selector_Select
begin

text \<open>
  What selection guarantees. \<open>available\<close> is the plain predicate on a row (enabled, not
  blocked, not excluded, not rate limited, not over the soft quota, not cooling down); the
  stateful filters of the code compute it, and every selection path returns an available
  row and fails only when there is none.
\<close>

section \<open>Pools and their rows\<close>

definition pool_wf :: "AccountSelector \<Rightarrow> bool" where
  "pool_wf s \<longleftrightarrow> distinct (s_accounts s)
     \<and> (\<forall>k < length (s_accounts s). r_index (row_at s (s_accounts s ! k)) = int k)
     \<and> (\<forall>a. row_wf (row_at s a))"

definition available ::
  "AccountSelector \<Rightarrow> family \<Rightarrow> string option \<Rightarrow> num \<Rightarrow> millis \<Rightarrow> int set \<Rightarrow> millis \<Rightarrow> addr \<Rightarrow> bool" where
  "available s fam model thr ttl excl now a =
     (let r = row_at s a in
      eligible_flags r \<and> r_index r \<notin> excl \<and> \<not> row_limited fam model now r
      \<and> \<not> isOverSoftQuotaThreshold r fam thr ttl now model \<and> \<not> row_cooling now r)"

text \<open>Same rows up to expired entries; sessions, cursors and events may differ.\<close>

definition same_rows :: "millis \<Rightarrow> AccountSelector \<Rightarrow> AccountSelector \<Rightarrow> bool" where
  "same_rows now s s' \<longleftrightarrow> s_accounts s' = s_accounts s
     \<and> (\<forall>a. settle now (s_heap s' a) = settle now (s_heap s a))
     \<and> (\<forall>a. row_wf (s_heap s a) \<longrightarrow> row_wf (s_heap s' a))"

lemma settle_cong:
  assumes "settle now r' = settle now r"
  shows "r_index r' = r_index r" "eligible_flags r' = eligible_flags r"
    "isOverSoftQuotaThreshold r' fam thr ttl now' model = isOverSoftQuotaThreshold r fam thr ttl now' model"
    "row_cooling now r' = row_cooling now r" "reportsArgon r' = reportsArgon r"
proof -
  have e: "eligible_flags (settle now x) = eligible_flags x" for x by (simp add: eligible_flags_def)
  note f = arg_cong [OF assms]
  show "r_index r' = r_index r" using f [of r_index] by simp
  show "eligible_flags r' = eligible_flags r" using f [of eligible_flags] by (simp add: e)
  show "isOverSoftQuotaThreshold r' fam thr ttl now' model = isOverSoftQuotaThreshold r fam thr ttl now' model"
    using f [of "\<lambda>r. isOverSoftQuotaThreshold r fam thr ttl now' model"] by simp
  show "row_cooling now r' = row_cooling now r" using f [of "row_cooling now"] by simp
  show "reportsArgon r' = reportsArgon r" using f [of reportsArgon] by simp
qed

lemma same_rows_refl [simp]: "same_rows now s s"
  by (simp add: same_rows_def)

lemma same_rows_trans: "same_rows now s t \<Longrightarrow> same_rows now t u \<Longrightarrow> same_rows now s u"
  by (simp add: same_rows_def)

lemma calm_same_rows: "calm now s s' \<Longrightarrow> same_rows now s s'"
  by (simp only: same_rows_def calm_fields(1)) (simp add: calm_def)

lemma same_heap_rows: "s_heap s' = s_heap s \<Longrightarrow> s_accounts s' = s_accounts s \<Longrightarrow> same_rows now s s'"
  by (simp add: same_rows_def)

lemma same_rows_row:
  assumes "same_rows now s s'"
  shows "r_index (row_at s' a) = r_index (row_at s a)"
    "eligible_flags (row_at s' a) = eligible_flags (row_at s a)"
    "isOverSoftQuotaThreshold (row_at s' a) fam thr ttl now' model
       = isOverSoftQuotaThreshold (row_at s a) fam thr ttl now' model"
    "row_cooling now (row_at s' a) = row_cooling now (row_at s a)"
    "reportsArgon (row_at s' a) = reportsArgon (row_at s a)"
proof -
  have eq: "settle now (row_at s' a) = settle now (row_at s a)" using assms by (simp add: same_rows_def)
  show "r_index (row_at s' a) = r_index (row_at s a)"
    "eligible_flags (row_at s' a) = eligible_flags (row_at s a)"
    "isOverSoftQuotaThreshold (row_at s' a) fam thr ttl now' model
       = isOverSoftQuotaThreshold (row_at s a) fam thr ttl now' model"
    "row_cooling now (row_at s' a) = row_cooling now (row_at s a)"
    "reportsArgon (row_at s' a) = reportsArgon (row_at s a)"
    using settle_cong [OF eq] by simp_all
qed

lemma same_rows_limited:
  assumes "same_rows now s s'" "row_wf (row_at s a)"
  shows "row_limited fam model now (row_at s' a) = row_limited fam model now (row_at s a)"
proof -
  have "settle now (row_at s' a) = settle now (row_at s a)" "row_wf (row_at s' a)"
    using assms by (simp_all add: same_rows_def)
  then show ?thesis
    using row_limited_settle [OF assms(2), of fam model now]
      row_limited_settle [of "row_at s' a" fam model now] by simp
qed

lemma same_rows_pool_wf:
  assumes "same_rows now s s'" "pool_wf s"
  shows "pool_wf s'"
proof -
  have "s_accounts s' = s_accounts s" "\<And>a. row_wf (row_at s a) \<Longrightarrow> row_wf (row_at s' a)"
    using assms(1) by (simp_all add: same_rows_def)
  then show ?thesis using assms(2) by (simp add: pool_wf_def same_rows_row(1) [OF assms(1)])
qed

lemma pool_wf_row: "pool_wf s \<Longrightarrow> row_wf (row_at s a)"
  by (simp add: pool_wf_def)

lemma available_same_rows:
  "same_rows now s s' \<Longrightarrow> row_wf (row_at s a) \<Longrightarrow>
     available s' fam model thr ttl excl now a = available s fam model thr ttl excl now a"
  by (simp add: available_def Let_def same_rows_row same_rows_limited)

lemma pool_wf_nth:
  assumes "pool_wf s" "a \<in> set (s_accounts s)" "r_index (row_at s a) = i"
  shows "nth_opt (s_accounts s) i = Some a"
proof -
  obtain k where "k < length (s_accounts s)" "s_accounts s ! k = a"
    using assms(2) by (auto simp: in_set_conv_nth)
  then show ?thesis using assms by (auto simp: pool_wf_def)
qed

section \<open>Frames of the session operations\<close>

named_theorems rows_frames \<open>operations that leave the rows as they are, up to expired entries\<close>

lemma same_rows_getActiveIndex [rows_frames]: "same_rows now' s (snd (getActiveIndex fam i now s))"
  by (auto simp: getActiveIndex_def split_beta Let_def intro!: same_heap_rows split: option.split)

lemma emit_heap [simp]:
  "s_heap (emit m e s) = s_heap s" "s_accounts (emit m e s) = s_accounts s"
  by (simp_all add: emit_def)

lemma setGlobal_heap [simp]:
  "s_heap (setGlobalActiveIndex fam k s) = s_heap s"
  "s_accounts (setGlobalActiveIndex fam k s) = s_accounts s"
  by (simp_all add: setGlobalActiveIndex_def)

lemma setActiveIndex_heap [simp]:
  "s_heap (setActiveIndex fam k i now s) = s_heap s"
  "s_accounts (setActiveIndex fam k i now s) = s_accounts s"
  by (simp_all add: setActiveIndex_def split_beta Let_def split: option.split)

lemma same_rows_setActiveIndex [rows_frames]: "same_rows now' s (setActiveIndex fam k i now s)"
  by (auto intro!: same_heap_rows)

lemma same_rows_getCursor [rows_frames]: "same_rows now' s (snd (getCursor fam i now s))"
  by (auto simp: getCursor_def split_beta Let_def intro!: same_heap_rows split: option.split)

lemma same_rows_advanceCursor [rows_frames]: "same_rows now' s (advanceCursor fam i now s)"
  by (auto simp: advanceCursor_def split_beta Let_def intro!: same_heap_rows split: option.split)

lemma same_rows_getUsedAccounts [rows_frames]: "same_rows now' s (snd (getUsedAccounts i now s))"
  by (auto simp: getUsedAccounts_def split_beta Let_def intro!: same_heap_rows split: option.split)

lemma same_rows_prefer [rows_frames]:
  "same_rows now' s (snd (preferAccountOutsideParent xs fam i now s))"
  by (auto simp: preferAccountOutsideParent_def split_beta Let_def intro!: same_heap_rows split: option.split)

lemma same_rows_current [rows_frames]:
  "same_rows now' s (snd (getCurrentAccountForFamily fam i now s))"
  using same_rows_getActiveIndex [of now' s fam i now]
  by (auto simp: getCurrentAccountForFamily_def split_beta Let_def split: option.split)

lemma same_rows_offset [rows_frames]: "same_rows now' s (apply_pid_offset q now s)"
proof -
  have f: "s_heap (snd (offset_flags i n t)) = s_heap t" "s_accounts (snd (offset_flags i n t)) = s_accounts t"
    for i n t by (simp_all add: offset_flags_def split_beta Let_def split: option.split)
  have o: "s_heap (set_offset_applied f i t) = s_heap t" "s_accounts (set_offset_applied f i t) = s_accounts t"
    for f i t by (simp_all add: set_offset_applied_def split: option.split)
  have a: "s_heap (snd (getActiveIndex f i n t)) = s_heap t" "s_accounts (snd (getActiveIndex f i n t)) = s_accounts t"
    for f i n t by (simp_all add: getActiveIndex_def split_beta Let_def split: option.split)
  have c: "s_heap (snd (getCursor f i n t)) = s_heap t" "s_accounts (snd (getCursor f i n t)) = s_accounts t"
    for f i n t by (simp_all add: getCursor_def split_beta Let_def split: option.split)
  show ?thesis by (rule same_heap_rows) (simp_all add: apply_pid_offset_def split_beta Let_def f o a c)
qed

lemma prefer_subset:
  "set (fst (preferAccountOutsideParent xs fam i now s)) \<subseteq> set xs"
  "fst (preferAccountOutsideParent xs fam i now s) = [] \<longleftrightarrow> xs = []"
  by (auto simp: preferAccountOutsideParent_def split_beta Let_def split: option.splits)

lemma preferArgon_subset:
  "set (preferArgonAccounts s xs model) \<subseteq> set xs"
  "preferArgonAccounts s xs model = [] \<longleftrightarrow> xs = []"
  by (auto simp: preferArgonAccounts_def Let_def)

section \<open>The stateful checks compute availability\<close>

lemma calm_isRateLimited: "calm now s (snd (isRateLimitedForFamily a fam now model s))"
  by (rule isRateLimitedForFamily_calm)

lemmas check_calm = calm_clearExpired calm_isRateLimited calm_isAccountCoolingDown
  calm_trans [OF calm_clearExpired calm_isRateLimited]
  calm_trans [OF calm_isRateLimited calm_isAccountCoolingDown]
  calm_trans [OF calm_clearExpired calm_trans [OF calm_isRateLimited calm_isAccountCoolingDown]]

lemma check_next_calm: "calm now s (snd (check_next fam model thr ttl excl now a s))"
  by (simp add: check_next_def Let_def split_beta check_calm)

lemma check_next_available:
  assumes "row_wf (row_at s a)"
  shows "fst (check_next fam model thr ttl excl now a s) = available s fam model thr ttl excl now a"
proof -
  let ?s1 = "clearExpiredRateLimits a now s"
  let ?s2 = "snd (isRateLimitedForFamily a fam now model ?s1)"
  have c1: "calm now s ?s1" by (rule calm_clearExpired)
  have c2: "calm now s ?s2" by (rule calm_trans [OF c1 calm_isRateLimited])
  have wf: "row_wf (row_at ?s1 a)" using calm_wf [OF c1 assms] .
  have l: "fst (isRateLimitedForFamily a fam now model ?s1) = row_limited fam model now (row_at s a)"
    using isRateLimitedForFamily_calm(1) [OF wf] calm_limited [OF c1 assms] by simp
  show ?thesis
    by (auto simp: check_next_def Let_def split_beta l available_def fst_isAccountCoolingDown
        eligible_flags_def calm_row [OF c1] calm_row [OF c2])
qed

lemma check_sticky_calm: "calm now s (snd (check_sticky fam model thr ttl excl now a s))"
  by (simp add: check_sticky_def Let_def split_beta check_calm)

lemma check_sticky_available:
  assumes "row_wf (row_at s a)"
  shows "fst (check_sticky fam model thr ttl excl now a s) = available s fam model thr ttl excl now a"
proof -
  let ?s1 = "snd (isRateLimitedForFamily a fam now model s)"
  let ?s2 = "snd (isAccountCoolingDown a now ?s1)"
  have c1: "calm now s ?s1" by (rule calm_isRateLimited)
  have c2: "calm now s ?s2" by (rule calm_trans [OF c1 calm_isAccountCoolingDown])
  show ?thesis
    by (auto simp: check_sticky_def Let_def split_beta isRateLimitedForFamily_calm(1) [OF assms]
        available_def fst_isAccountCoolingDown calm_row [OF c1] calm_row [OF c2])
qed

lemma filter_next:
  assumes "pool_wf s"
  shows "fst (filter_st (check_next fam model thr ttl excl now) xs s)
           = filter (available s fam model thr ttl excl now) xs
         \<and> same_rows now s (snd (filter_st (check_next fam model thr ttl excl now) xs s))"
proof (rule filter_st_pure [where R = "same_rows now"])
  fix a s' assume r: "same_rows now s s'"
  have wf: "row_wf (row_at s' a)" using same_rows_pool_wf [OF r assms] by (rule pool_wf_row)
  have "fst (check_next fam model thr ttl excl now a s') = available s fam model thr ttl excl now a"
    using check_next_available [OF wf] available_same_rows [OF r pool_wf_row [OF assms]] by simp
  moreover have "same_rows now s (snd (check_next fam model thr ttl excl now a s'))"
    by (rule same_rows_trans [OF r calm_same_rows [OF check_next_calm]])
  ultimately show "fst (check_next fam model thr ttl excl now a s') = available s fam model thr ttl excl now a
      \<and> same_rows now s (snd (check_next fam model thr ttl excl now a s'))" ..
qed simp

lemma filter_sticky:
  assumes "pool_wf s"
  shows "fst (filter_st (check_sticky fam model thr ttl excl now) xs s)
           = filter (available s fam model thr ttl excl now) xs
         \<and> same_rows now s (snd (filter_st (check_sticky fam model thr ttl excl now) xs s))"
proof (rule filter_st_pure [where R = "same_rows now"])
  fix a s' assume r: "same_rows now s s'"
  have wf: "row_wf (row_at s' a)" using same_rows_pool_wf [OF r assms] by (rule pool_wf_row)
  have "fst (check_sticky fam model thr ttl excl now a s') = available s fam model thr ttl excl now a"
    using check_sticky_available [OF wf] available_same_rows [OF r pool_wf_row [OF assms]] by simp
  moreover have "same_rows now s (snd (check_sticky fam model thr ttl excl now a s'))"
    by (rule same_rows_trans [OF r calm_same_rows [OF check_sticky_calm]])
  ultimately show "fst (check_sticky fam model thr ttl excl now a s') = available s fam model thr ttl excl now a
      \<and> same_rows now s (snd (check_sticky fam model thr ttl excl now a s'))" ..
qed simp

section \<open>The effective threshold\<close>

lemma getEligible_same_rows:
  assumes "same_rows now s s'"
  shows "getEligibleAccounts excl s' = getEligibleAccounts excl s"
proof -
  have "s_accounts s' = s_accounts s" using assms by (simp add: same_rows_def)
  then show ?thesis by (simp add: getEligibleAccounts_def same_rows_row(1,2) [OF assms])
qed

lemma effective_same_rows:
  "same_rows now s s' \<Longrightarrow> getEffectiveSoftQuotaThreshold thr excl s' = getEffectiveSoftQuotaThreshold thr excl s"
  by (simp add: getEffectiveSoftQuotaThreshold_def getEligible_same_rows)

lemma effective_idem:
  "getEffectiveSoftQuotaThreshold (getEffectiveSoftQuotaThreshold thr excl s) excl s
     = getEffectiveSoftQuotaThreshold thr excl s"
  by (simp add: getEffectiveSoftQuotaThreshold_def)

lemma sole_account_never_over:
  assumes "length (getEligibleAccounts excl s) \<le> 1"
  shows "\<not> isOverSoftQuotaThreshold r fam (getEffectiveSoftQuotaThreshold thr excl s) ttl now model"
  using assms by (simp add: getEffectiveSoftQuotaThreshold_def isOverSoftQuotaThreshold_def)

section \<open>Every path returns an available row\<close>

text \<open>
  The contract of one selection path over a pool: with the availability predicate \<open>A\<close> of the
  state it starts from, it returns a row of the pool that satisfies \<open>A\<close>.
\<close>

definition sound_choice :: "(addr \<Rightarrow> bool) \<Rightarrow> AccountSelector \<Rightarrow> addr option \<Rightarrow> bool" where
  "sound_choice A s r \<longleftrightarrow> (\<forall>a. r = Some a \<longrightarrow> a \<in> set (s_accounts s) \<and> A a)"

definition complete_choice :: "(addr \<Rightarrow> bool) \<Rightarrow> AccountSelector \<Rightarrow> addr option \<Rightarrow> bool" where
  "complete_choice A s r \<longleftrightarrow> (r = None \<longrightarrow> (\<forall>a \<in> set (s_accounts s). \<not> A a))"

lemma sound_choice_None [simp]: "sound_choice A s None"
  by (simp add: sound_choice_def)

lemma complete_choice_Some [simp]: "complete_choice A s (Some a)"
  by (simp add: complete_choice_def)

lemma sound_choice_if:
  "(\<not> c \<Longrightarrow> a \<in> set (s_accounts s) \<and> A a) \<Longrightarrow>
     sound_choice A s (fst (if c then (None, x) else (Some a, y)))"
  by (simp add: sound_choice_def)

lemma choice_same_rows:
  assumes "same_rows now s s'" "pool_wf s"
  shows "sound_choice (available s' fam model thr ttl excl now) s' r
           = sound_choice (available s fam model thr ttl excl now) s r"
    "complete_choice (available s' fam model thr ttl excl now) s' r
           = complete_choice (available s fam model thr ttl excl now) s r"
proof -
  have "s_accounts s' = s_accounts s" using assms(1) by (simp add: same_rows_def)
  moreover have "available s' fam model thr ttl excl now a = available s fam model thr ttl excl now a" for a
    using available_same_rows [OF assms(1) pool_wf_row [OF assms(2)]] .
  ultimately show "sound_choice (available s' fam model thr ttl excl now) s' r
      = sound_choice (available s fam model thr ttl excl now) s r"
    "complete_choice (available s' fam model thr ttl excl now) s' r
      = complete_choice (available s fam model thr ttl excl now) s r"
    by (simp_all add: sound_choice_def complete_choice_def)
qed

lemma getNext_choice:
  fixes thr ttl excl s
  defines "eff \<equiv> getEffectiveSoftQuotaThreshold thr excl s"
  assumes wf: "pool_wf s"
  shows "sound_choice (available s fam model eff ttl excl now) s
           (fst (getNextForFamily fam model thr ttl identity excl now s))"
    and "complete_choice (available s fam model eff ttl excl now) s
           (fst (getNextForFamily fam model thr ttl identity excl now s))"
    and "same_rows now s (snd (getNextForFamily fam model thr ttl identity excl now s))"
proof -
  let ?A = "available s fam model eff ttl excl now"
  let ?f = "filter_st (check_next fam model eff ttl excl now) (s_accounts s) s"
  let ?pa = "preferArgonAccounts (snd ?f) (fst ?f) model"
  let ?pp = "preferAccountOutsideParent ?pa fam identity now (snd ?f)"
  let ?av = "fst ?pp"
  let ?u = "getUsedAccounts identity now (snd ?pp)"
  let ?used = "filter (\<lambda>a. r_index (row_at (snd ?u) a) \<in> fst ?u) ?av"
  let ?cand = "if ?used \<noteq> [] then ?used else ?av"
  let ?c = "getCursor fam identity now (snd ?u)"
  have f: "fst ?f = filter ?A (s_accounts s)" "same_rows now s (snd ?f)"
    using filter_next [OF wf] by blast+
  have sub: "set ?av \<subseteq> set (filter ?A (s_accounts s))"
    using prefer_subset(1) preferArgon_subset(1) f(1) by fastforce
  have nil: "?av = [] \<longleftrightarrow> filter ?A (s_accounts s) = []"
    by (simp add: prefer_subset(2) preferArgon_subset(2) f(1))
  have eq: "getNextForFamily fam model thr ttl identity excl now s =
     (if ?av = [] then (None, snd ?pp)
      else (Some (?cand ! (fst ?c mod length ?cand)), advanceCursor fam identity now (snd ?c)))"
    unfolding getNextForFamily_def eff_def Let_def split_beta by simp
  have in_cand: "?cand ! (fst ?c mod length ?cand) \<in> set ?av" if "?av \<noteq> []"
  proof -
    have "?cand \<noteq> []" using that by simp
    then have "?cand ! (fst ?c mod length ?cand) \<in> set ?cand" by (intro nth_mem) simp
    also have "set ?cand \<subseteq> set ?av" by auto
    finally show ?thesis .
  qed
  have ok: "?cand ! (fst ?c mod length ?cand) \<in> set (s_accounts s)
      \<and> ?A (?cand ! (fst ?c mod length ?cand))" if "?av \<noteq> []"
    using subsetD [OF sub in_cand [OF that]] by (simp only: set_filter mem_Collect_eq)
  show "sound_choice ?A s (fst (getNextForFamily fam model thr ttl identity excl now s))"
    unfolding eq by (rule sound_choice_if) (rule ok)
  show "complete_choice ?A s (fst (getNextForFamily fam model thr ttl identity excl now s))"
    unfolding eq using nil by (simp add: complete_choice_def filter_empty_conv)
  have t: "same_rows now s (snd ?pp)" by (rule same_rows_trans [OF f(2) same_rows_prefer])
  have "same_rows now s (advanceCursor fam identity now (snd ?c))"
    by (rule same_rows_trans [OF same_rows_trans [OF same_rows_trans [OF t same_rows_getUsedAccounts]
          same_rows_getCursor] same_rows_advanceCursor])
  with t show "same_rows now s (snd (getNextForFamily fam model thr ttl identity excl now s))"
    unfolding eq by simp
qed

lemma select_next_fst: "fst (select_next q eff now s) =
     fst (getNextForFamily (sq_family q) (sq_model q) eff (sq_ttl q) (sq_identity q) (sq_exclude q) now s)"
  by (simp add: select_next_def split_beta Let_def split: option.split)

text \<open>The availability a query asks for, under the effective threshold.\<close>

definition usable :: "selection_query \<Rightarrow> millis \<Rightarrow> AccountSelector \<Rightarrow> addr \<Rightarrow> bool" where
  "usable q now s a =
     available s (sq_family q) (sq_model q)
       (getEffectiveSoftQuotaThreshold (sq_threshold q) (sq_exclude q) s)
       (sq_ttl q) (sq_exclude q) now a"

lemma usable_same_rows:
  assumes "same_rows now s s'" "pool_wf s"
  shows "usable q now s' = usable q now s" "s_accounts s' = s_accounts s"
proof -
  show "usable q now s' = usable q now s"
    by (rule ext) (simp add: usable_def effective_same_rows [OF assms(1)]
        available_same_rows [OF assms(1) pool_wf_row [OF assms(2)]])
  show "s_accounts s' = s_accounts s" using assms(1) by (simp add: same_rows_def)
qed

lemma select_next_choice:
  assumes "same_rows now s t" "pool_wf s"
    "eff = getEffectiveSoftQuotaThreshold (sq_threshold q) (sq_exclude q) s"
  shows "sound_choice (usable q now s) s (fst (select_next q eff now t))"
    and "complete_choice (usable q now s) s (fst (select_next q eff now t))"
proof -
  have wf: "pool_wf t" using same_rows_pool_wf assms(1,2) .
  have eff: "getEffectiveSoftQuotaThreshold eff (sq_exclude q) t = eff"
    unfolding effective_same_rows [OF assms(1)] assms(3) by (rule effective_idem)
  note g = getNext_choice [OF wf, where fam = "sq_family q" and model = "sq_model q" and thr = eff
      and excl = "sq_exclude q" and ttl = "sq_ttl q" and now = now and identity = "sq_identity q",
      unfolded eff]
  have u: "usable q now s = available s (sq_family q) (sq_model q) eff (sq_ttl q) (sq_exclude q) now"
    by (rule ext) (simp add: usable_def assms(3))
  show "sound_choice (usable q now s) s (fst (select_next q eff now t))"
    "complete_choice (usable q now s) s (fst (select_next q eff now t))"
    using g(1,2) unfolding select_next_fst u choice_same_rows [OF assms(1,2)] by simp_all
qed

lemma current_in_pool:
  "fst (getCurrentAccountForFamily fam i now s) = Some a \<Longrightarrow>
     a \<in> set (s_accounts s) \<and> eligible_flags (row_at s a)"
proof -
  assume c: "fst (getCurrentAccountForFamily fam i now s) = Some a"
  have "s_heap (snd (getActiveIndex fam i now s)) = s_heap s" "s_accounts (snd (getActiveIndex fam i now s)) = s_accounts s"
    by (simp_all add: getActiveIndex_def split_beta Let_def split: option.split)
  then show ?thesis using c
    by (auto simp: getCurrentAccountForFamily_def split_beta Let_def dest: nth_opt_in_set
        split: option.splits if_splits)
qed

lemma select_pinned_choice:
  assumes wf: "pool_wf s" and eff: "eff = getEffectiveSoftQuotaThreshold (sq_threshold q) (sq_exclude q) s"
  shows "sound_choice (usable q now s) s (fst (select_pinned q eff now s))"
    and "fst (select_pinned q eff now s) = None \<Longrightarrow> same_rows now s (snd (select_pinned q eff now s))"
proof -
  let ?cur = "getCurrentAccountForFamily (sq_family q) (sq_identity q) now s"
  let ?s1 = "snd ?cur"
  have r1: "same_rows now s ?s1" by (rule same_rows_current)
  have wf1: "pool_wf ?s1" using same_rows_pool_wf [OF r1 wf] .
  have both: "sound_choice (usable q now s) s (fst (select_pinned q eff now s))
     \<and> (fst (select_pinned q eff now s) = None \<longrightarrow> same_rows now s (snd (select_pinned q eff now s)))"
  proof (cases "sq_identity q = None \<or> fst ?cur = None")
    case True
    then show ?thesis using r1
      by (auto simp: select_pinned_def split_beta Let_def split: option.split)
  next
    case False
    then obtain i a where i: "sq_identity q = Some i" and a: "fst ?cur = Some a" by auto
    let ?s2 = "clearExpiredRateLimits a now ?s1"
    let ?l = "isRateLimitedForFamily a (sq_family q) now (sq_model q) ?s2"
    let ?c = "isAccountCoolingDown a now (snd ?l)"
    have c2: "same_rows now s ?s2"
      by (rule same_rows_trans [OF r1 calm_same_rows [OF calm_clearExpired]])
    have c3: "same_rows now s (snd ?l)"
      by (rule same_rows_trans [OF c2 calm_same_rows [OF calm_isRateLimited]])
    have c4: "same_rows now s (snd ?c)"
      by (rule same_rows_trans [OF c3 calm_same_rows [OF calm_isAccountCoolingDown]])
    have w2: "row_wf (row_at ?s2 a)" using same_rows_pool_wf [OF c2 wf] by (rule pool_wf_row)
    have l: "fst ?l = row_limited (sq_family q) (sq_model q) now (row_at s a)"
      using isRateLimitedForFamily_calm(1) [OF w2] same_rows_limited [OF c2 pool_wf_row [OF wf]] by simp
    have pin: "select_pinned q eff now s =
      (if r_index (row_at ?s2 a) \<in> sq_exclude q then (None, ?s2)
       else if fst ?l \<or> isOverSoftQuotaThreshold (row_at (snd ?l) a) (sq_family q) eff (sq_ttl q) now (sq_model q)
       then (None, snd ?l)
       else if fst ?c then (None, snd ?c)
       else (Some a, markTouchedForQuota a (query_key q) now (snd ?c)))"
      unfolding select_pinned_def i option.case split_beta Let_def a [unfolded i] by simp
    have "a \<in> set (s_accounts s) \<and> eligible_flags (row_at s a)" by (rule current_in_pool [OF a])
    moreover have "usable q now s = available s (sq_family q) (sq_model q) eff (sq_ttl q) (sq_exclude q) now"
      by (rule ext) (simp add: usable_def eff)
    ultimately show ?thesis using c2 c3 c4
      by (simp add: pin sound_choice_def available_def Let_def l fst_isAccountCoolingDown
          same_rows_row [OF c2] same_rows_row [OF c3])
  qed
  then show "sound_choice (usable q now s) s (fst (select_pinned q eff now s))"
    "fst (select_pinned q eff now s) = None \<Longrightarrow> same_rows now s (snd (select_pinned q eff now s))"
    by blast+
qed

section \<open>The sticky fallback\<close>

lemma filter_sticky_at:
  assumes "same_rows now s t" "pool_wf s"
    "eff = getEffectiveSoftQuotaThreshold (sq_threshold q) (sq_exclude q) s"
  shows "fst (filter_st (check_sticky (sq_family q) (sq_model q) eff (sq_ttl q) (sq_exclude q) now) (s_accounts t) t)
           = filter (usable q now s) (s_accounts s)
       \<and> same_rows now s (snd (filter_st (check_sticky (sq_family q) (sq_model q) eff (sq_ttl q) (sq_exclude q) now)
           (s_accounts t) t))"
proof -
  have wf: "pool_wf t" using same_rows_pool_wf assms(1,2) .
  have "available t (sq_family q) (sq_model q) eff (sq_ttl q) (sq_exclude q) now = usable q now s"
    by (rule ext) (simp add: usable_def assms(3) available_same_rows [OF assms(1) pool_wf_row [OF assms(2)]])
  moreover have "s_accounts t = s_accounts s" using assms(1) by (simp add: same_rows_def)
  ultimately show ?thesis
    using filter_sticky [OF wf, of "sq_family q" "sq_model q" eff "sq_ttl q" "sq_exclude q" now "s_accounts t"]
      same_rows_trans [OF assms(1)] by auto
qed

lemma select_sticky_cases:
  assumes "same_rows now s t" "pool_wf s"
    "eff = getEffectiveSoftQuotaThreshold (sq_threshold q) (sq_exclude q) s"
  shows "(\<exists>a. fst (select_sticky q eff now t) = Some a \<and> a \<in> set (s_accounts s) \<and> usable q now s a)
       \<or> (\<exists>u. same_rows now s u \<and> select_sticky q eff now t = select_next q eff now u)"
proof -
  let ?t1 = "apply_pid_offset q now t"
  let ?cur = "getCurrentAccountForFamily (sq_family q) (sq_identity q) now ?t1"
  let ?f = "filter_st (check_sticky (sq_family q) (sq_model q) eff (sq_ttl q) (sq_exclude q) now)
              (s_accounts (snd ?cur)) (snd ?cur)"
  let ?pref = "preferArgonAccounts (snd ?f) (fst ?f) (sq_model q)"
  have r2: "same_rows now s (snd ?cur)"
    by (rule same_rows_trans [OF same_rows_trans [OF assms(1) same_rows_offset] same_rows_current])
  note f = filter_sticky_at [OF r2 assms(2,3)]
  have pref: "set ?pref \<subseteq> {a \<in> set (s_accounts s). usable q now s a}"
    using preferArgon_subset(1) f by fastforce
  show ?thesis
  proof (cases "\<exists>a. fst ?cur = Some a \<and> a \<in> set ?pref")
    case False
    then have "select_sticky q eff now t = select_next q eff now (snd ?f)"
      by (auto simp: select_sticky_def Let_def split_beta split: option.split)
    then show ?thesis using f by blast
  next
    case True
    then obtain a where a: "fst ?cur = Some a" "a \<in> set ?pref" by blast
    let ?s4 = "clearExpiredRateLimits a now (snd ?f)"
    let ?s5 = "snd (isRateLimitedForFamily a (sq_family q) now (sq_model q) ?s4)"
    let ?s6 = "snd (isAccountCoolingDown a now ?s5)"
    have c5: "same_rows now s ?s5"
      using f same_rows_trans calm_same_rows [OF check_calm(4)] by blast
    have c6: "same_rows now s ?s6"
      by (rule same_rows_trans [OF c5 calm_same_rows [OF calm_isAccountCoolingDown]])
    have "fst (select_sticky q eff now t) = Some a \<or> select_sticky q eff now t = select_next q eff now ?s5
        \<or> select_sticky q eff now t = select_next q eff now ?s6"
      unfolding select_sticky_def Let_def split_beta a(1) option.case using a(2) by simp
    then show ?thesis using c5 c6 a(2) pref by blast
  qed
qed

lemma select_sticky_choice:
  assumes "same_rows now s t" "pool_wf s"
    "eff = getEffectiveSoftQuotaThreshold (sq_threshold q) (sq_exclude q) s"
  shows "sound_choice (usable q now s) s (fst (select_sticky q eff now t))"
    and "complete_choice (usable q now s) s (fst (select_sticky q eff now t))"
  using select_sticky_cases [OF assms] select_next_choice [OF _ assms(2,3)]
  by (auto simp: sound_choice_def)

section \<open>The hybrid path\<close>

definition metric_ok :: "selection_query \<Rightarrow> millis \<Rightarrow> AccountSelector \<Rightarrow> addr \<Rightarrow> AccountWithMetrics \<Rightarrow> bool" where
  "metric_ok q now s a m \<longleftrightarrow> am_index m = r_index (row_at s a)
     \<and> am_isRateLimited m = (row_limited (sq_family q) (sq_model q) now (row_at s a)
         \<or> isOverSoftQuotaThreshold (row_at s a) (sq_family q)
              (getEffectiveSoftQuotaThreshold (sq_threshold q) (sq_exclude q) s) (sq_ttl q) now (sq_model q))
     \<and> am_isCoolingDown m = row_cooling now (row_at s a)"

lemma hybrid_metrics_ok:
  assumes "same_rows now s t" "pool_wf s"
    "eff = getEffectiveSoftQuotaThreshold (sq_threshold q) (sq_exclude q) s"
  shows "metric_ok q now s a (fst (hybrid_metrics q eff now a t))"
    and "same_rows now s (snd (hybrid_metrics q eff now a t))"
proof -
  let ?t1 = "clearExpiredRateLimits a now t"
  let ?t2 = "snd (isRateLimitedForFamily a (sq_family q) now (sq_model q) ?t1)"
  have c1: "same_rows now s ?t1" by (rule same_rows_trans [OF assms(1) calm_same_rows [OF calm_clearExpired]])
  have c2: "same_rows now s ?t2" by (rule same_rows_trans [OF c1 calm_same_rows [OF calm_isRateLimited]])
  have c3: "same_rows now s (snd (isAccountCoolingDown a now ?t2))"
    by (rule same_rows_trans [OF c2 calm_same_rows [OF calm_isAccountCoolingDown]])
  have l: "fst (isRateLimitedForFamily a (sq_family q) now (sq_model q) ?t1)
      = row_limited (sq_family q) (sq_model q) now (row_at s a)"
    using isRateLimitedForFamily_calm(1) [OF pool_wf_row [OF same_rows_pool_wf [OF c1 assms(2)]]]
      same_rows_limited [OF c1 pool_wf_row [OF assms(2)]] by simp
  show "metric_ok q now s a (fst (hybrid_metrics q eff now a t))"
    by (simp add: hybrid_metrics_def Let_def split_beta metric_ok_def l fst_isAccountCoolingDown
        same_rows_row [OF c1] same_rows_row [OF c2] assms(3))
  show "same_rows now s (snd (hybrid_metrics q eff now a t))"
    using c3 by (simp add: hybrid_metrics_def Let_def split_beta)
qed

lemma select_hybrid_choice:
  assumes r: "same_rows now s t" and wf: "pool_wf s"
    and eff: "eff = getEffectiveSoftQuotaThreshold (sq_threshold q) (sq_exclude q) s"
  shows "sound_choice (usable q now s) s (fst (select_hybrid q eff now t))"
    and "fst (select_hybrid q eff now t) = None \<Longrightarrow> same_rows now s (snd (select_hybrid q eff now t))"
proof -
  let ?p = "preferAccountOutsideParent (getEligibleAccounts (sq_exclude q) t) (sq_family q) (sq_identity q) now t"
  let ?m = "map_st (hybrid_metrics q eff now) (fst ?p) (snd ?p)"
  let ?g = "getActiveIndex (sq_family q) (sq_identity q) now (snd ?m)"
  let ?s3 = "snd ?g"
  let ?idx = "set (map (\<lambda>a. r_index (row_at ?s3 a)) (preferArgonAccounts ?s3 (fst ?p) (sq_model q)))"
  let ?sel = "\<lambda>c. selectHybridAccount c (s_tokens ?s3) (Some (fst ?g)) 50 now"
  let ?i = "case ?sel (filter (\<lambda>m. am_index m \<in> ?idx) (fst ?m)) of Some i \<Rightarrow> Some i | None \<Rightarrow> ?sel (fst ?m)"
  have rp: "same_rows now s (snd ?p)" by (rule same_rows_trans [OF r same_rows_prefer])
  have m: "(\<forall>y \<in> set (fst ?m). \<exists>a \<in> set (fst ?p). metric_ok q now s a y) \<and> same_rows now s (snd ?m)"
    by (rule map_st_all) (use rp hybrid_metrics_ok [OF _ wf eff] in auto)
  have r3: "same_rows now s ?s3" using m same_rows_trans [OF _ same_rows_getActiveIndex] by blast
  have el: "set (fst ?p) \<subseteq> set (getEligibleAccounts (sq_exclude q) s)"
    using prefer_subset(1) by (simp add: getEligible_same_rows [OF r])
  have nth: "nth_opt (s_accounts ?s3) i = Some a \<Longrightarrow> a \<in> set (s_accounts s) \<and> usable q now s a"
    if i: "?i = Some i" for i a
  proof -
    assume n: "nth_opt (s_accounts ?s3) i = Some a"
    have "\<exists>y \<in> set (fst ?m). am_index y = i \<and> hybrid_candidate (s_tokens ?s3) 50 now y"
      using i selectHybrid_sound by (fastforce split: option.splits)
    then obtain y b where y: "am_index y = i" "lru_usable 50 y" "b \<in> set (fst ?p)" "metric_ok q now s b y"
      using m by (auto simp: hybrid_candidate_def)
    then have b: "b \<in> set (s_accounts s)" "eligible_flags (row_at s b)" "r_index (row_at s b) \<notin> sq_exclude q"
      "r_index (row_at s b) = i"
      using el by (auto simp: getEligibleAccounts_def metric_ok_def)
    have "nth_opt (s_accounts s) i = Some b" using pool_wf_nth [OF wf b(1,4)] .
    then have "b = a" using n r3 by (simp add: same_rows_def)
    moreover have "usable q now s b"
      using y b by (simp add: usable_def available_def Let_def metric_ok_def lru_usable_def)
    ultimately show ?thesis using b(1) by simp
  qed
  have eq: "select_hybrid q eff now t =
     (case ?i of None \<Rightarrow> (None, ?s3)
      | Some i \<Rightarrow>
          (case nth_opt (s_accounts ?s3) i of None \<Rightarrow> (None, ?s3)
           | Some a \<Rightarrow>
               (Some a, setActiveIndex (sq_family q)
                  (r_index (row_at (markTouchedForQuota a (query_key q) now (touchLastUsed a now ?s3)) a))
                  (sq_identity q) now (markTouchedForQuota a (query_key q) now (touchLastUsed a now ?s3)))))"
    unfolding select_hybrid_def Let_def split_beta by (rule refl)
  show "sound_choice (usable q now s) s (fst (select_hybrid q eff now t))"
    unfolding eq using nth by (auto simp: sound_choice_def split: option.splits)
  show "fst (select_hybrid q eff now t) = None \<Longrightarrow> same_rows now s (snd (select_hybrid q eff now t))"
    unfolding eq using r3 by (auto split: option.splits)
qed

section \<open>The whole selection\<close>

lemma getCurrentOrNext_choice:
  assumes wf: "pool_wf s"
  shows "sound_choice (usable q now s) s (fst (getCurrentOrNextForFamily q now s))"
    and "complete_choice (usable q now s) s (fst (getCurrentOrNextForFamily q now s))"
proof -
  let ?eff = "getEffectiveSoftQuotaThreshold (sq_threshold q) (sq_exclude q) s"
  let ?p = "select_pinned q ?eff now s"
  let ?h = "select_hybrid q ?eff now (snd ?p)"
  note p = select_pinned_choice [OF wf refl, of q now]
  have "sound_choice (usable q now s) s (fst (getCurrentOrNextForFamily q now s))
     \<and> complete_choice (usable q now s) s (fst (getCurrentOrNextForFamily q now s))"
  proof (cases "fst ?p")
    case (Some a)
    then show ?thesis using p(1) by (simp add: getCurrentOrNextForFamily_def Let_def split_beta)
  next
    case None
    note r = p(2) [OF None]
    have eq: "getCurrentOrNextForFamily q now s =
       (case sq_strategy q of
          RoundRobin \<Rightarrow> select_next q ?eff now (snd ?p)
        | Hybrid \<Rightarrow> (case fst ?h of Some a \<Rightarrow> (Some a, snd ?h) | None \<Rightarrow> select_sticky q ?eff now (snd ?h))
        | Sticky \<Rightarrow> select_sticky q ?eff now (snd ?p))"
      unfolding getCurrentOrNextForFamily_def Let_def split_beta None option.case by (rule refl)
    note h = select_hybrid_choice [OF r wf refl, of q]
    show ?thesis
    proof (cases "sq_strategy q")
      case Sticky
      then show ?thesis using select_sticky_choice [OF r wf refl, of q] by (simp add: eq)
    next
      case RoundRobin
      then show ?thesis using select_next_choice [OF r wf refl, of q] by (simp add: eq)
    next
      case Hybrid
      then show ?thesis using h select_sticky_choice [OF h(2) wf refl, of q]
        by (cases "fst ?h") (simp_all add: eq)
    qed
  qed
  then show "sound_choice (usable q now s) s (fst (getCurrentOrNextForFamily q now s))"
    "complete_choice (usable q now s) s (fst (getCurrentOrNextForFamily q now s))" by blast+
qed

end
