(* ===== verification/Selector_Members.thy ===== *)
theory Selector_Members
  imports Selector_Available
begin

text \<open>
  \<^verbatim>\<open>packages/core/src/account-selector.ts\<close>, membership: the initial load, the refresh of a
  kept row, and the reconciliation behind \<open>replaceAccounts\<close> and \<open>removeAccount\<close>, which
  matches rows by key and moves every index-keyed piece of state with the rows. A row keeps
  its address, so what an index stands for is the row at it; the lemmas state that every
  pin stands for the same row afterwards or for none.
\<close>

section \<open>Refreshing a kept row\<close>

definition merge_rates :: "(string, millis) jsmap \<Rightarrow> (string, millis) jsmap \<Rightarrow> (string, millis) jsmap" where
  "merge_rates fresh prior =
     foldl (\<lambda>rates (key, value).
              case map_of rates key of
                None \<Rightarrow> AList.update key value rates
              | Some stored \<Rightarrow> if stored < value then AList.update key value rates else rates)
       fresh prior"

definition refreshSelectableRow :: "row \<Rightarrow> row \<Rightarrow> row" where
  "refreshSelectableRow prior fresh =
     fresh\<lparr>r_index := r_index prior, r_touchedForQuota := r_touchedForQuota prior,
           r_consecutiveFailures := r_consecutiveFailures prior,
           r_lastFailureTime := r_lastFailureTime prior,
           r_lastUsed := max (r_lastUsed prior) (r_lastUsed fresh),
           r_rateLimitResetTimes := merge_rates (r_rateLimitResetTimes fresh) (r_rateLimitResetTimes prior)\<rparr>"

lemma merge_rates_wf: "jm_wf fresh \<Longrightarrow> jm_wf (merge_rates fresh prior)"
  unfolding merge_rates_def
  by (induction prior arbitrary: fresh) (auto split: option.split)

lemma merge_rates_lookup:
  "jm_wf prior \<Longrightarrow> map_of (merge_rates fresh prior) k =
     (case (map_of fresh k, map_of prior k) of
        (None, p) \<Rightarrow> p
      | (Some f, None) \<Rightarrow> Some f
      | (Some f, Some p) \<Rightarrow> Some (max f p))"
proof (induction prior arbitrary: fresh)
  case Nil
  then show ?case by (simp add: merge_rates_def split: option.split)
next
  case (Cons x prior)
  obtain k1 v1 where x: "x = (k1, v1)" by fastforce
  have wf: "jm_wf prior" "map_of prior k1 = None"
    using Cons.prems by (auto simp: x jm_wf_def map_of_eq_None_iff)
  let ?f1 = "case map_of fresh k1 of
       None \<Rightarrow> AList.update k1 v1 fresh
     | Some stored \<Rightarrow> if stored < v1 then AList.update k1 v1 fresh else fresh"
  have step: "merge_rates fresh (x # prior) = merge_rates ?f1 prior"
    by (simp add: merge_rates_def x)
  have f1: "map_of ?f1 k = (if k = k1 then Some (case map_of fresh k1 of None \<Rightarrow> v1 | Some f \<Rightarrow> max f v1)
      else map_of fresh k)"
    by (auto simp: update_conv max_def split: option.split)
  show ?case
    unfolding step Cons.IH [OF wf(1)] f1 using wf(2)
    by (auto simp: x split: option.split)
qed

lemma refresh_never_shortens:
  assumes "row_wf prior" "isRateLimitedForQuotaKey prior key now"
  shows "isRateLimitedForQuotaKey (refreshSelectableRow prior fresh) key now"
  using assms
  by (auto simp: isRateLimitedForQuotaKey_def refreshSelectableRow_def row_wf_def merge_rates_lookup
      split: option.splits)

section \<open>Reconciliation\<close>

text \<open>\<open>fallback\<close> gives the pool-wide selection of a family whose selected row left.\<close>

type_synonym 'k match_state =
  "('k \<Rightarrow> addr option) \<times> addr list \<times> (int, int) jsmap \<times> addr list \<times> AccountSelector"

definition previous_by_key :: "(addr \<Rightarrow> row \<Rightarrow> 'k option) \<Rightarrow> AccountSelector \<Rightarrow> 'k \<Rightarrow> addr option" where
  "previous_by_key keyOf s =
     foldl (\<lambda>m a. case keyOf a (row_at s a) of None \<Rightarrow> m | Some k \<Rightarrow> m(k \<mapsto> a)) Map.empty (s_accounts s)"

fun match_rows ::
  "(addr \<Rightarrow> row \<Rightarrow> 'k option) \<Rightarrow> (row \<Rightarrow> row \<Rightarrow> row) \<Rightarrow> addr list \<Rightarrow> 'k match_state \<Rightarrow> 'k match_state" where
  "match_rows keyOf refresh [] st = st"
| "match_rows keyOf refresh (fresh # next) (previous, accounts, moved, added, s) =
     (let key = keyOf fresh (row_at s fresh);
          prior = (case key of None \<Rightarrow> None | Some k \<Rightarrow> previous k);
          position = int (length accounts)
      in match_rows keyOf refresh next
           (case prior of
              None \<Rightarrow>
                (previous, accounts @ [fresh], moved, added @ [fresh],
                 upd_row fresh (\<lambda>r. r\<lparr>r_index := position\<rparr>) s)
            | Some p \<Rightarrow>
                (previous(the key := None), accounts @ [p],
                 AList.update (r_index (row_at s p)) position moved, added,
                 upd_row p (\<lambda>r. r\<lparr>r_index := position\<rparr>)
                   (if p \<noteq> fresh then upd_row p (\<lambda>r. refresh r (row_at s fresh)) s else s))))"

definition remap :: "(int, int) jsmap \<Rightarrow> int \<Rightarrow> int" where
  "remap moved index = nullish (map_of moved index) (-1)"

definition remapSet :: "(int, int) jsmap \<Rightarrow> int set \<Rightarrow> int set" where
  "remapSet moved indexes = Set.filter (\<lambda>i. 0 \<le> i) (remap moved ` indexes)"

definition remap_session :: "(int, int) jsmap \<Rightarrow> AccountSessionState \<Rightarrow> AccountSessionState" where
  "remap_session moved st =
     st\<lparr>ss_current := (\<lambda>f. remap moved (ss_current st f)), ss_used := remapSet moved (ss_used st)\<rparr>"

definition map_sessions :: "(AccountSessionState \<Rightarrow> AccountSessionState) \<Rightarrow> session_store \<Rightarrow> session_store" where
  "map_sessions f m = map (\<lambda>(i, st). (i, f st)) m"

definition reconcile ::
  "addr list \<Rightarrow> (addr \<Rightarrow> row \<Rightarrow> 'k option) \<Rightarrow> (row \<Rightarrow> row \<Rightarrow> row) \<Rightarrow> (family \<Rightarrow> int \<Rightarrow> addr list \<Rightarrow> int)
   \<Rightarrow> AccountSelector \<Rightarrow> (addr list \<times> addr list) \<times> AccountSelector" where
  "reconcile next keyOf refresh fallback s =
     (let (_, accounts, moved, added, s1) =
            match_rows keyOf refresh next (previous_by_key keyOf s, [], [], [], s);
          removed = filter (\<lambda>a. a \<notin> set accounts) (s_accounts s);
          current = (\<lambda>fam.
            let former = s_current s1 fam; index = remap moved former
            in if 0 \<le> index \<or> accounts = [] then index else fallback fam former accounts)
      in ((added, removed),
          s1\<lparr>s_accounts := accounts, s_current := current,
             s_requestSessionStates := map_sessions (remap_session moved) (s_requestSessionStates s1),
             s_sessionUsedAccounts := remapSet moved (s_sessionUsedAccounts s1),
             s_sessionRequestCounts := reindexMap (s_sessionRequestCounts s1) (map_of moved),
             s_lastToastAccountIndex := remap moved (s_lastToastAccountIndex s1),
             s_health := (if s_healthOwned s1 then ht_reindex (s_health s1) (map_of moved) else s_health s1),
             s_tokens := (if s_tokensOwned s1 then tt_reindex (s_tokens s1) (map_of moved) else s_tokens s1)\<rparr>))"

definition resetAccounts :: "addr list \<Rightarrow> (family \<Rightarrow> nat option) \<Rightarrow> AccountSelector \<Rightarrow> AccountSelector" where
  "resetAccounts accounts selection s =
     s\<lparr>s_accounts := accounts,
       s_current := (\<lambda>f. nullish (map_option int (selection f)) (s_current s f)),
       s_cursor := (\<lambda>f. nullish (selection f) (s_cursor s f))\<rparr>"

definition replaceAccounts ::
  "addr list \<Rightarrow> (addr \<Rightarrow> row \<Rightarrow> 'k option) \<Rightarrow> (row \<Rightarrow> row \<Rightarrow> row) option
   \<Rightarrow> (family \<Rightarrow> addr list \<Rightarrow> int) option \<Rightarrow> AccountSelector \<Rightarrow> (addr list \<times> addr list) \<times> AccountSelector" where
  "replaceAccounts next keyOf refresh selectionFallback s =
     reconcile next keyOf (nullish refresh refreshSelectableRow)
       (\<lambda>fam _ accounts. case selectionFallback of None \<Rightarrow> -1 | Some f \<Rightarrow> f fam accounts) s"

definition shift_cursor :: "nat \<Rightarrow> nat \<Rightarrow> nat \<Rightarrow> nat" where
  "shift_cursor removedIndex n cursor = (if removedIndex < cursor then cursor - 1 else cursor) mod n"

fun index_of :: "addr list \<Rightarrow> addr \<Rightarrow> nat option" where
  "index_of [] a = None"
| "index_of (x # xs) a = (if x = a then Some 0 else map_option Suc (index_of xs a))"

definition removeAccount :: "addr \<Rightarrow> AccountSelector \<Rightarrow> bool \<times> AccountSelector" where
  "removeAccount a s =
     (case index_of (s_accounts s) a of
        None \<Rightarrow> (False, s)
      | Some removedIndex \<Rightarrow>
          (let next = filter (\<lambda>b. b \<noteq> a) (s_accounts s);
               s1 = snd (reconcile next (\<lambda>b _. Some b) (\<lambda>prior _. prior)
                      (\<lambda>_ former accounts. if former < int (length accounts) then former else -1) s)
           in (True,
               if next = [] then s1\<lparr>s_cursor := (\<lambda>_. 0), s_requestSessionStates := []\<rparr>
               else s1\<lparr>s_cursor := (\<lambda>f. shift_cursor removedIndex (length next) (s_cursor s1 f)),
                       s_requestSessionStates :=
                         map_sessions (\<lambda>st. st\<lparr>ss_cursor := (\<lambda>f.
                             shift_cursor removedIndex (length next) (ss_cursor st f))\<rparr>)
                           (s_requestSessionStates s1)\<rparr>)))"

section \<open>What the matching establishes\<close>

text \<open>
  \<open>moves A B moved\<close>: the index table takes the position of a row in \<open>A\<close> to its position in
  \<open>B\<close>, and nothing else.
\<close>

definition moves :: "addr list \<Rightarrow> addr list \<Rightarrow> (int, int) jsmap \<Rightarrow> bool" where
  "moves A B moved \<longleftrightarrow>
     (\<forall>i j. map_of moved i = Some j \<longleftrightarrow> (\<exists>a. nth_opt A i = Some a \<and> nth_opt B j = Some a))"

lemma nth_opt_snoc:
  "nth_opt (xs @ [x]) j = (if j = int (length xs) then Some x else nth_opt xs j)"
  by (auto simp: nth_opt_def nth_append)

lemma nth_opt_distinct:
  "distinct xs \<Longrightarrow> nth_opt xs i = Some a \<Longrightarrow> nth_opt xs j = Some a \<Longrightarrow> i = j"
  by (auto simp: nth_opt_Some_iff nth_eq_iff_index_eq)

lemma nth_opt_ex: "a \<in> set xs \<Longrightarrow> \<exists>i. nth_opt xs i = Some a"
  by (metis in_set_conv_nth nth_opt_of_nat)

lemma moves_inj: "moves A B moved \<Longrightarrow> distinct A \<Longrightarrow> inj_on (map_of moved) (dom (map_of moved))"
  unfolding moves_def inj_on_def by (metis domD nth_opt_distinct option.inject)

lemma moves_remap:
  assumes mv: "moves A B moved" and "distinct A" "distinct B"
  shows "nth_opt B (remap moved i) =
     (case nth_opt A i of None \<Rightarrow> None | Some a \<Rightarrow> if a \<in> set B then Some a else None)"
proof (cases "map_of moved i")
  case None
  have "a \<notin> set B" if a: "nth_opt A i = Some a" for a
  proof
    assume "a \<in> set B"
    then obtain j where "nth_opt B j = Some a" using nth_opt_ex by metis
    with a have "map_of moved i = Some j" using mv unfolding moves_def by blast
    with None show False by simp
  qed
  then show ?thesis using None by (simp add: remap_def nth_opt_def split: option.split)
next
  case (Some j)
  then obtain a where "nth_opt A i = Some a" "nth_opt B j = Some a"
    using mv unfolding moves_def by blast
  then show ?thesis using Some by (simp add: remap_def nth_opt_in_set)
qed

text \<open>The interface of a row refresh: it may change anything but keeps the row well formed.\<close>

locale row_refresh =
  fixes refresh :: "row \<Rightarrow> row \<Rightarrow> row"
  assumes refresh_wf: "row_wf prior \<Longrightarrow> row_wf fresh \<Longrightarrow> row_wf (refresh prior fresh)"
begin

text \<open>
  The invariant of the matching loop over the rows still to come: \<open>A\<close> is the pool before,
  \<open>B\<close> the pool built so far. No row still to come is in \<open>B\<close>; a row of the old pool is its
  own match, and no row is matched to a different row still to come.
\<close>

definition loop_inv ::
  "(addr \<Rightarrow> row \<Rightarrow> 'k option) \<Rightarrow> addr list \<Rightarrow> addr list \<Rightarrow> ('k \<Rightarrow> addr option) \<Rightarrow> addr list
   \<Rightarrow> (int, int) jsmap \<Rightarrow> AccountSelector \<Rightarrow> bool" where
  "loop_inv keyOf A next previous B moved s \<longleftrightarrow>
     distinct A \<and> distinct B \<and> distinct next \<and> set next \<inter> set B = {}
     \<and> (\<forall>j a. nth_opt B j = Some a \<longrightarrow> r_index (row_at s a) = j)
     \<and> (\<forall>j a. nth_opt A j = Some a \<longrightarrow> a \<notin> set B \<longrightarrow> r_index (row_at s a) = j)
     \<and> (\<forall>k p. previous k = Some p \<longrightarrow> p \<in> set A \<and> p \<notin> set B)
     \<and> (\<forall>k1 k2 p. previous k1 = Some p \<longrightarrow> previous k2 = Some p \<longrightarrow> k1 = k2)
     \<and> moves A B moved
     \<and> (\<forall>f \<in> set next. f \<in> set A \<longrightarrow> Option.bind (keyOf f (row_at s f)) previous = Some f)
     \<and> (\<forall>f \<in> set next. \<forall>p. Option.bind (keyOf f (row_at s f)) previous = Some p \<longrightarrow> p = f \<or> p \<notin> set next)
     \<and> (\<forall>a. row_wf (row_at s a))"

lemma loop_invD:
  assumes "loop_inv keyOf A next previous B moved s"
  shows "distinct A" "distinct B" "distinct next" "set next \<inter> set B = {}"
    and "nth_opt B j = Some a \<Longrightarrow> r_index (row_at s a) = j"
    and "nth_opt A j = Some a \<Longrightarrow> a \<notin> set B \<Longrightarrow> r_index (row_at s a) = j"
    and "previous k = Some p \<Longrightarrow> p \<in> set A"
    and "previous k = Some p \<Longrightarrow> p \<notin> set B"
    and "previous k1 = Some p \<Longrightarrow> previous k2 = Some p \<Longrightarrow> k1 = k2"
    and "moves A B moved"
    and "f \<in> set next \<Longrightarrow> f \<in> set A \<Longrightarrow> Option.bind (keyOf f (row_at s f)) previous = Some f"
    and "f \<in> set next \<Longrightarrow> Option.bind (keyOf f (row_at s f)) previous = Some p \<Longrightarrow> p \<noteq> f \<Longrightarrow> p \<notin> set next"
    and "row_wf (row_at s a)"
  using assms unfolding loop_inv_def by blast+

lemma loop_inv_new:
  assumes inv: "loop_inv keyOf A (f # next) previous B moved s"
    and none: "Option.bind (keyOf f (row_at s f)) previous = None"
  shows "loop_inv keyOf A next previous (B @ [f]) moved
           (upd_row f (\<lambda>r. r\<lparr>r_index := int (length B)\<rparr>) s)"
    (is "loop_inv _ _ _ _ _ _ ?s'")
proof -
  note I = loop_invD [OF inv]
  have f: "f \<notin> set B" "f \<notin> set next" using I(3,4) by auto
  have fA: "f \<notin> set A" using I(11) [of f] none by auto
  have row: "row_at ?s' a = row_at s a" if "a \<noteq> f" for a using that by (simp add: upd_row_def)
  have idx: "r_index (row_at ?s' f) = int (length B)" by (simp add: upd_row_def)
  have wf: "row_wf (row_at ?s' a)" for a using I(13) by (simp add: upd_row_def row_wf_def)
  have B: "nth_opt B (int (length B)) = None" by (simp add: nth_opt_def)
  have mv: "moves A (B @ [f]) moved"
  proof -
    have "nth_opt A i \<noteq> Some f" for i using fA nth_opt_in_set by metis
    then show ?thesis using I(10) B by (auto simp: moves_def nth_opt_snoc)
  qed
  have posB: "r_index (row_at ?s' a) = j" if "nth_opt (B @ [f]) j = Some a" for j a
  proof (cases "j = int (length B)")
    case True
    then show ?thesis using that idx by (simp add: nth_opt_snoc)
  next
    case False
    then have a: "nth_opt B j = Some a" using that by (simp add: nth_opt_snoc)
    then have "a \<noteq> f" using f(1) nth_opt_in_set by metis
    then show ?thesis using I(5) [OF a] row by simp
  qed
  have posA: "r_index (row_at ?s' a) = j" if "nth_opt A j = Some a" "a \<notin> set (B @ [f])" for j a
    using that I(6) [OF that(1)] row by simp
  have prev: "p \<in> set A \<and> p \<notin> set (B @ [f])" if "previous k = Some p" for k p
    using I(7) [OF that] I(8) [OF that] fA by auto
  have key: "Option.bind (keyOf g (row_at ?s' g)) previous = Option.bind (keyOf g (row_at s g)) previous"
    if "g \<in> set next" for g using that f(2) row by metis
  have own: "Option.bind (keyOf g (row_at ?s' g)) previous = Some g" if "g \<in> set next" "g \<in> set A" for g
    using that I(11) [of g] key by simp
  have foreign: "q = g \<or> q \<notin> set next"
    if "g \<in> set next" "Option.bind (keyOf g (row_at ?s' g)) previous = Some q" for g q
    using that I(12) [of g q] by (auto simp: key)
  have prev2: "k1 = k2" if "previous k1 = Some q" "previous k2 = Some q" for k1 k2 q
    using I(9) that by metis
  show ?thesis
    unfolding loop_inv_def
  proof (intro conjI)
    show "distinct (B @ [f])" "distinct next" "set next \<inter> set (B @ [f]) = {}" "distinct A"
      using I(1,2,3,4) f by auto
  qed (use posB posA prev prev2 mv own foreign wf in blast)+
qed

lemma loop_inv_kept:
  assumes inv: "loop_inv keyOf A (f # next) previous B moved s"
    and k: "keyOf f (row_at s f) = Some k" and p: "previous k = Some p"
  shows "loop_inv keyOf A next (previous(k := None)) (B @ [p])
           (AList.update (r_index (row_at s p)) (int (length B)) moved)
           (upd_row p (\<lambda>r. r\<lparr>r_index := int (length B)\<rparr>)
             (if p \<noteq> f then upd_row p (\<lambda>r. refresh r (row_at s f)) s else s))"
    (is "loop_inv _ _ _ ?prev _ ?moved ?s'")
proof -
  note I = loop_invD [OF inv]
  have pA: "p \<in> set A" "p \<notin> set B" using I(7,8) p by auto
  have pn: "p \<notin> set next" using I(12) [of f p] I(3) k p by (cases "p = f") auto
  have row: "row_at ?s' a = row_at s a" if "a \<noteq> p" for a using that by (simp add: upd_row_def)
  have idx: "r_index (row_at ?s' p) = int (length B)" by (simp add: upd_row_def)
  have wf: "row_wf (row_at ?s' a)" for a
    using I(13) refresh_wf [OF I(13) I(13)] by (simp add: upd_row_def row_wf_def)
  obtain m where m: "nth_opt A m = Some p" using pA(1) nth_opt_ex by metis
  then have old: "r_index (row_at s p) = m" using I(6) pA(2) by simp
  have B: "nth_opt B (int (length B)) = None" by (simp add: nth_opt_def)
  have BP: "nth_opt B j \<noteq> Some p" for j using pA(2) nth_opt_in_set by metis
  have AP: "nth_opt A i = Some p \<longleftrightarrow> i = m" for i using m nth_opt_distinct [OF I(1)] by metis
  have mv: "moves A (B @ [p]) ?moved"
    unfolding moves_def old
  proof (intro allI)
    fix i j
    show "(map_of (AList.update m (int (length B)) moved) i = Some j)
        = (\<exists>a. nth_opt A i = Some a \<and> nth_opt (B @ [p]) j = Some a)"
    proof (cases "i = m")
      case True
      then show ?thesis using m B BP by (auto simp: update_conv nth_opt_snoc)
    next
      case False
      then have "nth_opt A i \<noteq> Some p" using AP by simp
      then show ?thesis using False I(10) B by (auto simp: moves_def update_conv nth_opt_snoc)
    qed
  qed
  have posB: "r_index (row_at ?s' a) = j" if "nth_opt (B @ [p]) j = Some a" for j a
  proof (cases "j = int (length B)")
    case True
    then show ?thesis using that idx by (simp add: nth_opt_snoc)
  next
    case False
    then have a: "nth_opt B j = Some a" using that by (simp add: nth_opt_snoc)
    then have "a \<noteq> p" using BP by metis
    then show ?thesis using I(5) [OF a] row by simp
  qed
  have posA: "r_index (row_at ?s' a) = j" if "nth_opt A j = Some a" "a \<notin> set (B @ [p])" for j a
  proof -
    have a: "a \<noteq> p" "a \<notin> set B" using that(2) by auto
    show ?thesis unfolding row [OF a(1)] by (rule I(6) [OF that(1) a(2)])
  qed
  have prev: "q \<in> set A \<and> q \<notin> set (B @ [p])" if "?prev k' = Some q" for k' q
  proof -
    have k': "k' \<noteq> k" "previous k' = Some q" using that by (cases "k' = k"; simp)+
    have "q \<noteq> p" using I(9) [OF k'(2), of k] k' p by metis
    then show ?thesis using I(7) [OF k'(2)] I(8) [OF k'(2)] by simp
  qed
  have prev2: "k1 = k2" if "?prev k1 = Some q" "?prev k2 = Some q" for k1 k2 q
  proof -
    have "previous k1 = Some q" "previous k2 = Some q"
      using that by (cases "k1 = k"; cases "k2 = k"; simp)+
    then show ?thesis by (rule I(9))
  qed
  have key: "Option.bind (keyOf g (row_at ?s' g)) ?prev = Some q
      \<longleftrightarrow> Option.bind (keyOf g (row_at s g)) previous = Some q \<and> keyOf g (row_at s g) \<noteq> Some k"
    if "g \<in> set next" for g q
  proof -
    have "g \<noteq> p" using that pn by auto
    then show ?thesis by (auto simp: row bind_eq_Some_conv split: if_splits)
  qed
  have own: "Option.bind (keyOf g (row_at ?s' g)) ?prev = Some g" if "g \<in> set next" "g \<in> set A" for g
  proof -
    have *: "Option.bind (keyOf g (row_at s g)) previous = Some g" using I(11) that by simp
    moreover from * have "keyOf g (row_at s g) \<noteq> Some k" using p pn that(1) by auto
    ultimately show ?thesis using key that(1) by simp
  qed
  have foreign: "q = g \<or> q \<notin> set next"
    if "g \<in> set next" "Option.bind (keyOf g (row_at ?s' g)) ?prev = Some q" for g q
    using that I(12) [of g q] by (auto simp: key)
  show ?thesis
    unfolding loop_inv_def
  proof (intro conjI)
    show "distinct (B @ [p])" "distinct next" "set next \<inter> set (B @ [p]) = {}" "distinct A"
      using I(1,2,3,4) pA pn by auto
  qed (use posB posA prev prev2 mv own foreign wf in blast)+
qed

lemma match_rows_inv:
  assumes "loop_inv keyOf A next previous B moved s"
    and "match_rows keyOf refresh next (previous, B, moved, added, s) = (previous', B', moved', added', s')"
  shows "loop_inv keyOf A [] previous' B' moved' s'"
  using assms
proof (induction "next" arbitrary: previous B moved added s)
  case Nil
  then show ?case by simp
next
  case (Cons f "next")
  show ?case
  proof (cases "Option.bind (keyOf f (row_at s f)) previous")
    case None
    then have "(case keyOf f (row_at s f) of None \<Rightarrow> None | Some k \<Rightarrow> previous k) = None"
      by (auto split: option.split)
    then show ?thesis
      using Cons.IH [OF loop_inv_new [OF Cons.prems(1) None]] Cons.prems(2)
      by (simp add: Let_def)
  next
    case (Some p)
    then obtain k where k: "keyOf f (row_at s f) = Some k" "previous k = Some p"
      by (auto simp: bind_eq_Some_conv)
    show ?thesis
      using Cons.IH [OF loop_inv_kept [OF Cons.prems(1) k]] Cons.prems(2) k
      by (simp add: Let_def fun_upd_def)
  qed
qed

end

end
