(* ===== verification/Selector_View.thy ===== *)
theory Selector_View
  imports Selector_Members
begin

text \<open>
  The abstract specification of a membership change. The code keys sessions, marks, counts
  and trackers by row index and moves them when indexes move; the abstract view keys all of
  them by the row itself, and there a membership change only forgets the rows that left.
  \<open>reconcile\<close> refines that: its view is the restricted view of the state before.
\<close>

section \<open>The view\<close>

record session_view =
  sv_parent :: "string option"
  sv_current :: "family \<Rightarrow> addr option"
  sv_used :: "addr set"

record pool_view =
  v_sessions :: "string \<Rightarrow> session_view option"
  v_used :: "addr set"
  v_toast :: "addr option"
  v_counts :: "addr \<Rightarrow> session_counts option"
  v_health :: "addr \<Rightarrow> HealthScoreState option"
  v_tokens :: "addr \<Rightarrow> TokenBucketState option"

definition rows_of :: "addr list \<Rightarrow> int set \<Rightarrow> addr set" where
  "rows_of A used = {a. \<exists>i \<in> used. nth_opt A i = Some a}"

definition view_session :: "addr list \<Rightarrow> AccountSessionState \<Rightarrow> session_view" where
  "view_session A st =
     \<lparr>sv_parent = ss_parentId st, sv_current = (\<lambda>f. nth_opt A (ss_current st f)),
      sv_used = rows_of A (ss_used st)\<rparr>"

definition row_pos :: "addr list \<Rightarrow> addr \<Rightarrow> int option" where
  "row_pos A a = map_option int (index_of A a)"

definition entry_at :: "addr list \<Rightarrow> (int \<Rightarrow> 'v option) \<Rightarrow> addr \<Rightarrow> 'v option" where
  "entry_at A entry a = Option.bind (row_pos A a) entry"

definition pool_view_of :: "AccountSelector \<Rightarrow> pool_view" where
  "pool_view_of s =
     (let A = s_accounts s in
      \<lparr>v_sessions = (\<lambda>i. map_option (view_session A) (map_of (s_requestSessionStates s) i)),
       v_used = rows_of A (s_sessionUsedAccounts s),
       v_toast = nth_opt A (s_lastToastAccountIndex s),
       v_counts = entry_at A (map_of (s_sessionRequestCounts s)),
       v_health = (if s_healthOwned s then entry_at A (map_of (ht_scores (s_health s))) else (\<lambda>_. None)),
       v_tokens = (if s_tokensOwned s then entry_at A (map_of (tt_buckets (s_tokens s))) else (\<lambda>_. None))\<rparr>)"

definition keep :: "addr set \<Rightarrow> addr option \<Rightarrow> addr option" where
  "keep K x = (case x of None \<Rightarrow> None | Some a \<Rightarrow> if a \<in> K then Some a else None)"

definition keep_session :: "addr set \<Rightarrow> session_view \<Rightarrow> session_view" where
  "keep_session K v = v\<lparr>sv_current := (\<lambda>f. keep K (sv_current v f)), sv_used := sv_used v \<inter> K\<rparr>"

definition keep_rows :: "addr set \<Rightarrow> pool_view \<Rightarrow> pool_view" where
  "keep_rows K v =
     \<lparr>v_sessions = (\<lambda>i. map_option (keep_session K) (v_sessions v i)),
      v_used = v_used v \<inter> K, v_toast = keep K (v_toast v),
      v_counts = v_counts v |` K, v_health = v_health v |` K, v_tokens = v_tokens v |` K\<rparr>"

text \<open>The maps of a selector have each key once.\<close>

definition selector_wf :: "AccountSelector \<Rightarrow> bool" where
  "selector_wf s \<longleftrightarrow> pool_wf s \<and> jm_wf (s_requestSessionStates s) \<and> jm_wf (s_sessionRequestCounts s)
     \<and> ht_wf (s_health s) \<and> tt_wf (s_tokens s)"

section \<open>Positions and moves\<close>

lemma index_of_Some: "index_of xs a = Some n \<Longrightarrow> n < length xs \<and> xs ! n = a"
  by (induction xs arbitrary: n) (auto split: if_splits)

lemma index_of_None [simp]: "index_of xs a = None \<longleftrightarrow> a \<notin> set xs"
  by (induction xs) auto

lemma row_pos_None [simp]: "row_pos A a = None \<longleftrightarrow> a \<notin> set A"
  by (simp add: row_pos_def)

lemma index_of_nth_opt:
  assumes "distinct xs"
  shows "row_pos xs a = Some i \<longleftrightarrow> nth_opt xs i = Some a"
proof (cases "index_of xs a")
  case None
  then have "nth_opt xs i \<noteq> Some a" using nth_opt_in_set [of xs i a] by auto
  then show ?thesis unfolding row_pos_def None by simp
next
  case (Some n)
  then have "nth_opt xs (int n) = Some a" using index_of_Some [OF Some] by simp
  then show ?thesis using Some nth_opt_distinct [OF assms] by (auto simp: row_pos_def)
qed

lemma moves_index:
  assumes "moves A B moved" "distinct A" "distinct B" "a \<in> set A" "a \<in> set B"
  obtains i j where "row_pos A a = Some i" "row_pos B a = Some j"
    "map_of moved i = Some j"
proof -
  obtain i j where "nth_opt A i = Some a" "nth_opt B j = Some a" using assms(4,5) nth_opt_ex by metis
  moreover from this have "map_of moved i = Some j" using assms(1) unfolding moves_def by blast
  ultimately show ?thesis using that assms(2,3) by (simp add: index_of_nth_opt)
qed

lemma moves_dropped:
  assumes "moves A B moved" "distinct B" "a \<notin> set A" "row_pos B a = Some j"
  shows "map_of moved i \<noteq> Some j"
proof
  assume "map_of moved i = Some j"
  then obtain b where b: "nth_opt A i = Some b" "nth_opt B j = Some b"
    using assms(1) unfolding moves_def by blast
  moreover have "nth_opt B j = Some a" using assms(2,4) by (simp add: index_of_nth_opt)
  ultimately show False using assms(3) nth_opt_in_set by fastforce
qed

lemma rows_of_remapSet:
  assumes "moves A B moved" "distinct A" "distinct B"
  shows "rows_of B (remapSet moved used) = rows_of A used \<inter> set B"
proof -
  have "nth_opt B (remap moved i) = keep (set B) (nth_opt A i)" for i
    using moves_remap [OF assms] by (simp add: keep_def)
  then have "nth_opt B (remap moved i) = Some a \<longleftrightarrow> nth_opt A i = Some a \<and> a \<in> set B" for i a
    by (auto simp: keep_def split: option.splits if_splits)
  note iff = this
  have pos: "0 \<le> remap moved i" if "nth_opt B (remap moved i) = Some a" for i a
    using that by (simp add: nth_opt_Some_iff)
  have "rows_of B (remapSet moved used) = {a. \<exists>i \<in> used. nth_opt B (remap moved i) = Some a}"
    unfolding rows_of_def remapSet_def using pos by fastforce
  then show ?thesis unfolding rows_of_def iff by blast
qed

text \<open>A reindexed tracker, read by row, is the tracker restricted to the rows that stayed.\<close>

lemma entry_at_reindexed:
  assumes mv: "moves A B moved" "distinct A" "distinct B"
    and hit: "\<And>i j. map_of moved i = Some j \<Longrightarrow> entry' j = entry i"
    and miss: "\<And>j. \<forall>i. map_of moved i \<noteq> Some j \<Longrightarrow> entry' j = None"
  shows "entry_at B entry' = entry_at A entry |` set B"
proof
  fix a
  consider "a \<notin> set B" | "a \<in> set B" "a \<notin> set A" | "a \<in> set B" "a \<in> set A" by blast
  then show "entry_at B entry' a = (entry_at A entry |` set B) a"
  proof cases
    case 1
    then show ?thesis by (simp add: entry_at_def row_pos_None [THEN iffD2])
  next
    case 2
    then obtain j where j: "row_pos B a = Some j" using row_pos_None by fastforce
    have "entry' j = None" by (rule miss) (use moves_dropped [OF mv(1,3) 2(2) j] in blast)
    then show ?thesis using 2 j by (simp add: entry_at_def row_pos_None [THEN iffD2])
  next
    case 3
    obtain i j where "row_pos A a = Some i" "row_pos B a = Some j"
      "map_of moved i = Some j" using moves_index [OF mv 3(2,1)] .
    then show ?thesis using 3(1) hit by (simp add: entry_at_def)
  qed
qed

lemma entry_at_reindexMap:
  assumes "moves A B moved" "distinct A" "distinct B" "jm_wf m"
  shows "entry_at B (map_of (reindexMap m (map_of moved))) = entry_at A (map_of m) |` set B"
  using reindexMap_moved [OF assms(4) moves_inj [OF assms(1,2)]] reindexMap_dropped
  by (intro entry_at_reindexed [OF assms(1-3)]) auto

lemma map_of_map_sessions: "map_of (map_sessions f m) k = map_option f (map_of m k)"
  by (induction m) (auto simp: map_sessions_def)

lemma map_sessions_keys [simp]: "map fst (map_sessions f m) = map fst m"
  by (induction m) (auto simp: map_sessions_def)

lemma map_sessions_jm_wf [simp]: "jm_wf (map_sessions f m) = jm_wf m"
  by (simp add: jm_wf_def)

lemma view_session_remap:
  assumes "moves A B moved" "distinct A" "distinct B"
  shows "view_session B (remap_session moved st) = keep_session (set B) (view_session A st)"
  using moves_remap [OF assms] rows_of_remapSet [OF assms]
  by (simp add: view_session_def remap_session_def keep_session_def keep_def)

section \<open>The matching loop\<close>

lemma previous_by_key_step:
  "previous_by_key keyOf s k = Some p \<Longrightarrow> p \<in> set (s_accounts s) \<and> keyOf p (row_at s p) = Some k"
proof -
  have "foldl (\<lambda>m a. case keyOf a (row_at s a) of None \<Rightarrow> m | Some k \<Rightarrow> m(k \<mapsto> a)) m0 xs k = Some p
      \<Longrightarrow> m0 k = Some p \<or> p \<in> set xs \<and> keyOf p (row_at s p) = Some k" for m0 xs
    by (induction xs arbitrary: m0) (fastforce split: option.splits if_splits)+
  then show "previous_by_key keyOf s k = Some p \<Longrightarrow> p \<in> set (s_accounts s) \<and> keyOf p (row_at s p) = Some k"
    by (fastforce simp: previous_by_key_def)
qed

lemma previous_by_key_own:
  assumes "a \<in> set (s_accounts s)" "keyOf a (row_at s a) = Some k"
    and "\<And>b. b \<in> set (s_accounts s) \<Longrightarrow> keyOf b (row_at s b) = Some k \<Longrightarrow> b = a"
  shows "previous_by_key keyOf s k = Some a"
proof -
  have "foldl (\<lambda>m a. case keyOf a (row_at s a) of None \<Rightarrow> m | Some k \<Rightarrow> m(k \<mapsto> a)) m0 xs k = Some a"
    if "set xs \<subseteq> set (s_accounts s)" "a \<in> set xs \<or> m0 k = Some a" for m0 xs
    using that
  proof (induction xs arbitrary: m0)
    case Nil
    then show ?case by simp
  next
    case (Cons x xs)
    have "(case keyOf x (row_at s x) of None \<Rightarrow> m0 | Some k \<Rightarrow> m0(k \<mapsto> x)) k = Some a"
      if "x = a \<or> m0 k = Some a"
    proof (cases "x = a")
      case True
      then show ?thesis using assms(2) by simp
    next
      case False
      then have "keyOf x (row_at s x) \<noteq> Some k" using assms(3) [of x] Cons.prems(1) by auto
      then show ?thesis using that False by (auto split: option.split)
    qed
    then have "a \<in> set xs \<or> (case keyOf x (row_at s x) of None \<Rightarrow> m0 | Some k \<Rightarrow> m0(k \<mapsto> x)) k = Some a"
      using Cons.prems(2) by auto
    moreover have "set xs \<subseteq> set (s_accounts s)" using Cons.prems(1) by simp
    ultimately show ?case
      using Cons.IH [of "case keyOf x (row_at s x) of None \<Rightarrow> m0 | Some k \<Rightarrow> m0(k \<mapsto> x)"]
      by simp
  qed
  from this [of "s_accounts s" Map.empty] assms(1) show ?thesis by (simp add: previous_by_key_def)
qed

text \<open>
  What the callers pass: fresh rows, none of them in the pool (a load), or rows of the pool
  matched by themselves (a removal).
\<close>

definition next_ok :: "(addr \<Rightarrow> row \<Rightarrow> 'k option) \<Rightarrow> addr list \<Rightarrow> AccountSelector \<Rightarrow> bool" where
  "next_ok keyOf next s \<longleftrightarrow> distinct next
     \<and> (\<forall>f \<in> set next. f \<in> set (s_accounts s) \<longrightarrow> Option.bind (keyOf f (row_at s f)) (previous_by_key keyOf s) = Some f)
     \<and> (\<forall>f \<in> set next. \<forall>p. Option.bind (keyOf f (row_at s f)) (previous_by_key keyOf s) = Some p \<longrightarrow> p = f \<or> p \<notin> set next)"

lemma next_ok_load:
  assumes "distinct next" "set next \<inter> set (s_accounts s) = {}"
  shows "next_ok keyOf next s"
proof -
  have "p \<notin> set next" if "Option.bind (keyOf f (row_at s f)) (previous_by_key keyOf s) = Some p" for f p
    using that previous_by_key_step assms(2) by (fastforce simp: bind_eq_Some_conv)
  then show ?thesis using assms by (auto simp: next_ok_def)
qed

lemma next_ok_removal:
  assumes "distinct (s_accounts s)"
  shows "next_ok (\<lambda>b _. Some b) (filter (\<lambda>b. b \<noteq> a) (s_accounts s)) s"
proof -
  have "previous_by_key (\<lambda>b _. Some b) s f = Some f" if "f \<in> set (s_accounts s)" for f
    using that by (intro previous_by_key_own) auto
  then show ?thesis using assms by (auto simp: next_ok_def)
qed

lemma match_rows_frame:
  assumes "match_rows keyOf refresh next (previous, B, moved, added, s) = (previous', B', moved', added', s')"
  shows "s'\<lparr>s_heap := s_heap s\<rparr> = s"
  using assms
proof (induction "next" arbitrary: previous B moved added s)
  case Nil
  then show ?case by simp
next
  case (Cons f "next")
  obtain pr B1 m1 a1 h where
    *: "match_rows keyOf refresh next (pr, B1, m1, a1, s\<lparr>s_heap := h\<rparr>) = (previous', B', moved', added', s')"
    using Cons.prems
    by (cases "case keyOf f (row_at s f) of None \<Rightarrow> None | Some k \<Rightarrow> previous k")
      (auto simp: Let_def upd_row_def split: if_splits)
  have "s'\<lparr>s_heap := h\<rparr> = s\<lparr>s_heap := h\<rparr>" using Cons.IH [OF *] by simp
  then have "s'\<lparr>s_heap := h\<rparr>\<lparr>s_heap := s_heap s\<rparr> = s\<lparr>s_heap := h\<rparr>\<lparr>s_heap := s_heap s\<rparr>" by simp
  then show ?case by simp
qed

context row_refresh
begin

lemma loop_inv_start:
  assumes wf: "pool_wf s" and ok: "next_ok keyOf next s"
  shows "loop_inv keyOf (s_accounts s) next (previous_by_key keyOf s) [] [] s"
proof -
  have inj: "k1 = k2" if "previous_by_key keyOf s k1 = Some p" "previous_by_key keyOf s k2 = Some p" for k1 k2 p
    using previous_by_key_step [OF that(1)] previous_by_key_step [OF that(2)] by simp
  have idx: "r_index (row_at s a) = j" if "nth_opt (s_accounts s) j = Some a" for j a
    using that wf by (auto simp: pool_wf_def nth_opt_Some_iff)
  have none: "nth_opt [] j = (None :: addr option)" for j by (simp add: nth_opt_def)
  show ?thesis
    unfolding loop_inv_def
  proof (intro conjI)
    show "distinct (s_accounts s)" using wf by (simp add: pool_wf_def)
    show "moves (s_accounts s) [] []" by (simp add: moves_def none)
    show "\<forall>a. row_wf (row_at s a)" using wf by (simp add: pool_wf_def)
    show "\<forall>j a. nth_opt [] j = Some a \<longrightarrow> r_index (row_at s a) = j" by (simp add: none)
    show "\<forall>j a. nth_opt (s_accounts s) j = Some a \<longrightarrow> a \<notin> set [] \<longrightarrow> r_index (row_at s a) = j"
      using idx by blast
    show "\<forall>k1 k2 p. previous_by_key keyOf s k1 = Some p \<longrightarrow> previous_by_key keyOf s k2 = Some p \<longrightarrow> k1 = k2"
      using inj by blast
    show "\<forall>k p. previous_by_key keyOf s k = Some p \<longrightarrow> p \<in> set (s_accounts s) \<and> p \<notin> set []"
      using previous_by_key_step [of keyOf s] by auto
  qed (use ok in \<open>unfold next_ok_def, simp\<close>)+
qed

lemma match_rows_added:
  assumes "loop_inv keyOf A next previous B moved s" "added = filter (\<lambda>a. a \<notin> set A) B"
    and "match_rows keyOf refresh next (previous, B, moved, added, s) = (previous', B', moved', added', s')"
  shows "added' = filter (\<lambda>a. a \<notin> set A) B'"
  using assms
proof (induction "next" arbitrary: previous B moved added s)
  case Nil
  then show ?case by auto
next
  case (Cons f "next")
  note I = loop_invD [OF Cons.prems(1)]
  show ?case
  proof (cases "Option.bind (keyOf f (row_at s f)) previous")
    case None
    then have "(case keyOf f (row_at s f) of None \<Rightarrow> None | Some k \<Rightarrow> previous k) = None"
      by (auto split: option.split)
    moreover have "f \<notin> set A" using I(11) [of f] None by auto
    ultimately show ?thesis
      using Cons.IH [OF loop_inv_new [OF Cons.prems(1) None], of "added @ [f]"] Cons.prems(2,3)
      by (simp add: Let_def)
  next
    case (Some p)
    then obtain k where k: "keyOf f (row_at s f) = Some k" "previous k = Some p"
      by (auto simp: bind_eq_Some_conv)
    have "p \<in> set A" using I(7) [OF k(2)] .
    then show ?thesis
      using Cons.IH [OF loop_inv_kept [OF Cons.prems(1) k], of added] Cons.prems(2,3) k
      by (simp add: Let_def fun_upd_def)
  qed
qed

text \<open>The refinement, for every refresh that keeps rows well formed.\<close>

lemma reconcile_refines:
  fixes s :: AccountSelector and keyOf :: "addr \<Rightarrow> row \<Rightarrow> 'k option"
    and "next" :: "addr list" and fallback :: "family \<Rightarrow> int \<Rightarrow> addr list \<Rightarrow> int"
  assumes wf: "selector_wf s" and ok: "next_ok keyOf next s"
  defines "res \<equiv> reconcile next keyOf refresh fallback s"
  defines "s' \<equiv> snd res"
  defines "B \<equiv> s_accounts s'"
  shows "selector_wf s'"
    and "pool_view_of s' = keep_rows (set B) (pool_view_of s)"
    and "nth_opt B (s_current s' f) =
           (case keep (set B) (nth_opt (s_accounts s) (s_current s f)) of
              Some a \<Rightarrow> Some a
            | None \<Rightarrow> if B = [] then None else nth_opt B (fallback f (s_current s f) B))"
    and "fst res = (filter (\<lambda>a. a \<notin> set (s_accounts s)) B, filter (\<lambda>a. a \<notin> set B) (s_accounts s))"
proof -
  let ?A = "s_accounts s"
  obtain pr B0 moved added s1 where m:
    "match_rows keyOf refresh next (previous_by_key keyOf s, [], [], [], s) = (pr, B0, moved, added, s1)"
    by (metis prod_cases5)
  have pw: "pool_wf s" using wf by (simp add: selector_wf_def)
  note inv0 = loop_inv_start [OF pw ok]
  note I = loop_invD [OF match_rows_inv [OF inv0 m]]
  note mv = I(10) I(1) I(2)
  have fr: "s1\<lparr>s_heap := s_heap s\<rparr> = s" by (rule match_rows_frame [OF m])
  have frs: "s_accounts s1 = ?A" "s_current s1 = s_current s" "s_requestSessionStates s1 = s_requestSessionStates s"
    "s_sessionUsedAccounts s1 = s_sessionUsedAccounts s" "s_sessionRequestCounts s1 = s_sessionRequestCounts s"
    "s_lastToastAccountIndex s1 = s_lastToastAccountIndex s" "s_health s1 = s_health s" "s_tokens s1 = s_tokens s"
    "s_healthOwned s1 = s_healthOwned s" "s_tokensOwned s1 = s_tokensOwned s"
    by (subst fr [symmetric], simp)+
  have B: "B = B0" by (simp add: B_def s'_def res_def reconcile_def m)
  note s' = s'_def [unfolded res_def reconcile_def m Let_def split_conv frs snd_conv]
  have ms: "jm_wf (s_requestSessionStates s)" "jm_wf (s_sessionRequestCounts s)" "ht_wf (s_health s)" "tt_wf (s_tokens s)"
    using wf by (simp_all add: selector_wf_def)
  have heap: "s_heap s' = s_heap s1" by (simp add: s')
  have "pool_wf s'"
    unfolding pool_wf_def B_def [symmetric] B heap using I(2) I(13) I(5) by simp
  then show "selector_wf s'"
    using ms by (simp add: selector_wf_def s' frs health.ok_reindex tokens.ok_reindex)
  have remap: "nth_opt B0 (remap moved i) = keep (set B0) (nth_opt ?A i)" for i
    using moves_remap [OF mv] by (simp add: keep_def)
  have h: "entry_at B0 (map_of (ht_scores (ht_reindex (s_health s) (map_of moved))))
      = entry_at ?A (map_of (ht_scores (s_health s))) |` set B0"
    using ms(3) health.entry_moved [OF _ moves_inj [OF mv(1,2)]] health.entry_dropped
    by (intro entry_at_reindexed [OF mv]) auto
  have t: "entry_at B0 (map_of (tt_buckets (tt_reindex (s_tokens s) (map_of moved))))
      = entry_at ?A (map_of (tt_buckets (s_tokens s))) |` set B0"
    using ms(4) tokens.entry_moved [OF _ moves_inj [OF mv(1,2)]] tokens.entry_dropped
    by (intro entry_at_reindexed [OF mv]) auto
  show "pool_view_of s' = keep_rows (set B) (pool_view_of s)"
    unfolding B pool_view_of_def keep_rows_def Let_def
    by (simp add: s' frs remap h t rows_of_remapSet [OF mv] entry_at_reindexMap [OF mv ms(2)]
        map_of_map_sessions view_session_remap [OF mv] option.map_comp comp_def restrict_map_def)
  show "nth_opt B (s_current s' f) =
           (case keep (set B) (nth_opt ?A (s_current s f)) of
              Some a \<Rightarrow> Some a
            | None \<Rightarrow> if B = [] then None else nth_opt B (fallback f (s_current s f) B))"
  proof (cases "map_of moved (s_current s f)")
    case None
    then have "keep (set B0) (nth_opt ?A (s_current s f)) = None"
      using remap [of "s_current s f"] by (simp add: remap_def nth_opt_def)
    then show ?thesis using None unfolding B by (simp add: s' remap_def nth_opt_def)
  next
    case (Some j)
    then obtain a where a: "nth_opt ?A (s_current s f) = Some a" "nth_opt B0 j = Some a"
      using I(10) unfolding moves_def by blast
    moreover have "0 \<le> j" "a \<in> set B0" using a(2) nth_opt_in_set by (auto simp: nth_opt_Some_iff)
    ultimately show ?thesis using Some unfolding B by (simp add: s' remap_def keep_def)
  qed
  show "fst res = (filter (\<lambda>a. a \<notin> set ?A) B, filter (\<lambda>a. a \<notin> set B) ?A)"
    using match_rows_added [OF inv0 _ m] unfolding B by (simp add: res_def reconcile_def m)
qed

end

section \<open>The two membership changes\<close>

lemma refreshSelectableRow_wf: "row_wf fresh \<Longrightarrow> row_wf (refreshSelectableRow prior fresh)"
  by (simp add: row_wf_def refreshSelectableRow_def merge_rates_wf)

interpretation row_copy: row_refresh refreshSelectableRow
  by unfold_locales (simp add: refreshSelectableRow_wf)

interpretation row_same: row_refresh "\<lambda>prior _. prior"
  by unfold_locales simp

lemma pool_view_simps:
  "pool_view_of (s\<lparr>s_cursor := c\<rparr>) = pool_view_of s"
  by (simp add: pool_view_of_def Let_def)

lemma pool_view_map_sessions:
  assumes "\<And>st. view_session (s_accounts s) (g st) = view_session (s_accounts s) st"
  shows "pool_view_of (s\<lparr>s_requestSessionStates := map_sessions g (s_requestSessionStates s)\<rparr>) = pool_view_of s"
  using assms by (simp add: pool_view_of_def Let_def map_of_map_sessions option.map_comp comp_def)

lemma set_nonneg_shift: "0 < n \<Longrightarrow> shift_cursor k n c < n"
  by (simp add: shift_cursor_def)

text \<open>A removal matches every remaining row by itself: the pool becomes the rows passed in.\<close>

lemma match_rows_self:
  assumes "\<forall>a \<in> set next. previous a = Some a" "distinct next"
  shows "fst (snd (match_rows (\<lambda>b _. Some b) refresh next (previous, B, moved, added, s))) = B @ next"
  using assms
proof (induction "next" arbitrary: previous B moved added s)
  case Nil
  then show ?case by simp
next
  case (Cons f "next")
  have "\<forall>a \<in> set next. (previous(f := None)) a = Some a" using Cons.prems by auto
  from Cons.IH [OF this] Cons.prems show ?case by (simp add: Let_def fun_upd_def)
qed

lemma reconcile_removal:
  assumes "distinct (s_accounts s)" and B: "B = filter (\<lambda>b. b \<noteq> a) (s_accounts s)"
  shows "s_accounts (snd (reconcile B (\<lambda>b _. Some b) refresh fallback s)) = B"
proof -
  have "previous_by_key (\<lambda>b _. Some b) s f = Some f" if "f \<in> set (s_accounts s)" for f
    using that by (intro previous_by_key_own) auto
  then have "fst (snd (match_rows (\<lambda>b _. Some b) refresh B (previous_by_key (\<lambda>b _. Some b) s, [], [], [], s))) = B"
    using match_rows_self [of B "previous_by_key (\<lambda>b _. Some b) s" refresh "[]" "[]" "[]" s] assms
    by simp
  then show ?thesis by (simp add: reconcile_def split_beta Let_def)
qed

lemma filter_neq_nth:
  assumes "distinct xs" "nth_opt xs i = Some a"
  shows "nth_opt (filter (\<lambda>b. b \<noteq> a) xs) i = nth_opt xs (i + 1)"
proof -
  have i: "0 \<le> i" "nat i < length xs" "xs ! nat i = a" using assms(2) by (auto simp: nth_opt_Some_iff)
  have xs: "xs = take (nat i) xs @ a # drop (Suc (nat i)) xs" using i by (metis id_take_nth_drop)
  have "distinct (take (nat i) xs @ a # drop (Suc (nat i)) xs)" using assms(1) xs by simp
  then have "a \<notin> set (take (nat i) xs)" "a \<notin> set (drop (Suc (nat i)) xs)" by auto
  then have "filter (\<lambda>b. b \<noteq> a) (take (nat i) xs) = take (nat i) xs"
    "filter (\<lambda>b. b \<noteq> a) (drop (Suc (nat i)) xs) = drop (Suc (nat i)) xs"
    by (auto simp: filter_id_conv)
  then have f: "filter (\<lambda>b. b \<noteq> a) xs = take (nat i) xs @ drop (Suc (nat i)) xs"
    by (subst xs) simp
  have n: "nat (i + 1) = Suc (nat i)" using i(1) by simp
  show ?thesis
    using i by (auto simp: nth_opt_def f n nth_append)
qed

definition remove_fallback :: "family \<Rightarrow> int \<Rightarrow> addr list \<Rightarrow> int" where
  "remove_fallback fam former accounts = (if former < int (length accounts) then former else -1)"

lemma remove_fallback_row:
  assumes "distinct A" and B: "B = filter (\<lambda>b. b \<noteq> a) A" and "a \<in> set A"
  shows "(case keep (set B) (nth_opt A i) of
             Some b \<Rightarrow> Some b
           | None \<Rightarrow> if B = [] then None else nth_opt B (remove_fallback f i B))
       = (if nth_opt A i = Some a then nth_opt A (i + 1) else nth_opt A i)"
proof (cases "nth_opt A i")
  case None
  have "length B \<le> length A" by (simp add: B)
  then have "nth_opt B (remove_fallback f i B) = None"
    using None by (auto simp: remove_fallback_def nth_opt_None_iff)
  then show ?thesis using None by (simp add: keep_def)
next
  case (Some b)
  show ?thesis
  proof (cases "b = a")
    case True
    have e: "nth_opt B i = nth_opt A (i + 1)"
      unfolding B using filter_neq_nth [OF assms(1)] Some True by simp
    have k: "keep (set B) (Some a) = None" by (simp add: keep_def B)
    have "nth_opt B (remove_fallback f i B) = nth_opt B i"
      by (auto simp: remove_fallback_def nth_opt_None_iff [THEN iffD2])
    then have "(if B = [] then None else nth_opt B (remove_fallback f i B)) = nth_opt A (i + 1)"
      using e by (cases "B = []") (simp_all add: nth_opt_def [of "[]"])
    then show ?thesis using True Some k by simp
  next
    case False
    then have "b \<in> set B" using Some nth_opt_in_set by (fastforce simp: B)
    then show ?thesis using False Some by (simp add: keep_def)
  qed
qed

lemma selector_wf_cursor [simp]: "selector_wf (s\<lparr>s_cursor := c\<rparr>) = selector_wf s"
  by (simp add: selector_wf_def pool_wf_def)

lemma selector_wf_sessions:
  "selector_wf s \<Longrightarrow> jm_wf m \<Longrightarrow> selector_wf (s\<lparr>s_requestSessionStates := m\<rparr>)"
  by (simp add: selector_wf_def pool_wf_def)

lemma removeAccount_absent: "a \<notin> set (s_accounts s) \<Longrightarrow> removeAccount a s = (False, s)"
  by (simp add: removeAccount_def index_of_None [THEN iffD2])

text \<open>The reconciled state inside \<open>removeAccount\<close>, and what it adds to it.\<close>

definition removal_core :: "addr \<Rightarrow> AccountSelector \<Rightarrow> AccountSelector" where
  "removal_core a s = snd (reconcile (filter (\<lambda>b. b \<noteq> a) (s_accounts s)) (\<lambda>b _. Some b)
     (\<lambda>prior _. prior) remove_fallback s)"

lemma removeAccount_present:
  assumes "index_of (s_accounts s) a = Some k"
  shows "removeAccount a s = (True,
     let next = filter (\<lambda>b. b \<noteq> a) (s_accounts s); s1 = removal_core a s in
     if next = [] then s1\<lparr>s_cursor := (\<lambda>_. 0), s_requestSessionStates := []\<rparr>
     else s1\<lparr>s_cursor := (\<lambda>f. shift_cursor k (length next) (s_cursor s1 f)),
             s_requestSessionStates :=
               map_sessions (\<lambda>st. st\<lparr>ss_cursor := (\<lambda>f. shift_cursor k (length next) (ss_cursor st f))\<rparr>)
                 (s_requestSessionStates s1)\<rparr>)"
proof -
  have "remove_fallback = (\<lambda>_ former accounts. if former < int (length accounts) then former else -1)"
    by (intro ext) (simp add: remove_fallback_def)
  then show ?thesis by (simp add: removeAccount_def assms removal_core_def Let_def)
qed

lemma removal_core_facts:
  assumes wf: "selector_wf s" and a: "a \<in> set (s_accounts s)"
  defines "B \<equiv> filter (\<lambda>b. b \<noteq> a) (s_accounts s)"
  shows "s_accounts (removal_core a s) = B" "selector_wf (removal_core a s)"
    "pool_view_of (removal_core a s) = keep_rows (set B) (pool_view_of s)"
    "nth_opt B (s_current (removal_core a s) f) =
       (if nth_opt (s_accounts s) (s_current s f) = Some a then nth_opt (s_accounts s) (s_current s f + 1)
        else nth_opt (s_accounts s) (s_current s f))"
proof -
  have d: "distinct (s_accounts s)" using wf by (simp add: selector_wf_def pool_wf_def)
  note r = row_same.reconcile_refines [OF wf next_ok_removal [OF d, of a],
      where fallback = remove_fallback, folded removal_core_def]
  show acc: "s_accounts (removal_core a s) = B"
    unfolding removal_core_def B_def using reconcile_removal [OF d] by simp
  show "selector_wf (removal_core a s)" using r(1) .
  show "pool_view_of (removal_core a s) = keep_rows (set B) (pool_view_of s)"
    using r(2) by (simp add: acc)
  show "nth_opt B (s_current (removal_core a s) f) =
       (if nth_opt (s_accounts s) (s_current s f) = Some a then nth_opt (s_accounts s) (s_current s f + 1)
        else nth_opt (s_accounts s) (s_current s f))"
    using r(3) [of f] unfolding acc remove_fallback_row [OF d B_def [THEN meta_eq_to_obj_eq] a] .
qed

lemma removeAccount_facts:
  assumes wf: "selector_wf s" and a: "a \<in> set (s_accounts s)"
  defines "B \<equiv> filter (\<lambda>b. b \<noteq> a) (s_accounts s)"
  defines "s' \<equiv> snd (removeAccount a s)"
  shows "fst (removeAccount a s)" "s_accounts s' = B" "selector_wf s'"
    "pool_view_of s' = (if B = [] then (keep_rows {} (pool_view_of s))\<lparr>v_sessions := (\<lambda>_. None)\<rparr>
                        else keep_rows (set B) (pool_view_of s))"
    "nth_opt B (s_current s' f) =
       (if nth_opt (s_accounts s) (s_current s f) = Some a then nth_opt (s_accounts s) (s_current s f + 1)
        else nth_opt (s_accounts s) (s_current s f))"
    "B \<noteq> [] \<Longrightarrow> s_cursor s' f < length B"
proof -
  obtain k where k: "index_of (s_accounts s) a = Some k" using a index_of_None by fastforce
  note R = removal_core_facts [OF wf a, folded B_def]
  note P = removeAccount_present [OF k, folded B_def, unfolded Let_def]
  show "fst (removeAccount a s)" by (simp add: P)
  show "s_accounts s' = B" using R(1) by (simp add: s'_def P)
  show "s_cursor s' f < length B" if "B \<noteq> []" using that by (simp add: s'_def P set_nonneg_shift)
  have ms: "jm_wf (s_requestSessionStates (removal_core a s))" using R(2) by (simp add: selector_wf_def)
  show "selector_wf s'" using R(2) ms by (simp add: s'_def P selector_wf_def pool_wf_def)
  show "nth_opt B (s_current s' f) =
       (if nth_opt (s_accounts s) (s_current s f) = Some a then nth_opt (s_accounts s) (s_current s f + 1)
        else nth_opt (s_accounts s) (s_current s f))"
  proof -
    have c: "s_current s' = s_current (removal_core a s)" by (simp add: s'_def P)
    show ?thesis unfolding c by (rule R(4))
  qed
  show "pool_view_of s' = (if B = [] then (keep_rows {} (pool_view_of s))\<lparr>v_sessions := (\<lambda>_. None)\<rparr>
                        else keep_rows (set B) (pool_view_of s))"
  proof (cases "B = []")
    case True
    have "pool_view_of s' = (pool_view_of (removal_core a s))\<lparr>v_sessions := (\<lambda>_. None)\<rparr>"
      using True by (simp add: s'_def P pool_view_of_def Let_def)
    then show ?thesis using True R(3) by simp
  next
    case False
    have "pool_view_of s' = pool_view_of (removal_core a s)"
      using False by (simp add: s'_def P pool_view_of_def Let_def map_of_map_sessions option.map_comp
          comp_def view_session_def [abs_def])
    then show ?thesis using False R(3) by simp
  qed
qed

section \<open>A load\<close>

text \<open>
  Fresh rows with distinct keys: each position holds the row of the old pool with the same
  key, refreshed, or the fresh row itself.
\<close>

definition matched :: "(addr \<Rightarrow> row \<Rightarrow> 'k option) \<Rightarrow> AccountSelector \<Rightarrow> addr \<Rightarrow> addr" where
  "matched keyOf s f = nullish (Option.bind (keyOf f (row_at s f)) (previous_by_key keyOf s)) f"

definition distinct_keys :: "(addr \<Rightarrow> row \<Rightarrow> 'k option) \<Rightarrow> AccountSelector \<Rightarrow> addr list \<Rightarrow> bool" where
  "distinct_keys keyOf s xs \<longleftrightarrow>
     (\<forall>a \<in> set xs. \<forall>b \<in> set xs. keyOf a (row_at s a) \<noteq> None \<longrightarrow> keyOf a (row_at s a) = keyOf b (row_at s b) \<longrightarrow> a = b)"

lemma match_rows_load:
  assumes "distinct next" "distinct_keys keyOf s0 next"
    and "\<And>f. f \<in> set next \<Longrightarrow> row_at s f = row_at s0 f"
    and "\<And>f. f \<in> set next \<Longrightarrow> Option.bind (keyOf f (row_at s0 f)) previous
                            = Option.bind (keyOf f (row_at s0 f)) (previous_by_key keyOf s0)"
    and "\<And>f. f \<in> set next \<Longrightarrow> matched keyOf s0 f = f \<or> matched keyOf s0 f \<notin> set next"
  shows "fst (snd (match_rows keyOf refresh next (previous, B, moved, added, s)))
     = B @ map (matched keyOf s0) next"
  using assms
proof (induction "next" arbitrary: previous B moved added s)
  case Nil
  then show ?case by simp
next
  case (Cons f "next")
  have f: "row_at s f = row_at s0 f" "f \<notin> set next" using Cons.prems(1,3) by auto
  have d: "distinct next" "distinct_keys keyOf s0 next"
    using Cons.prems(1,2) by (auto simp: distinct_keys_def)
  have other: "matched keyOf s0 g = g \<or> matched keyOf s0 g \<notin> set next" if "g \<in> set next" for g
    using Cons.prems(5) [of g] that by auto
  show ?case
  proof (cases "Option.bind (keyOf f (row_at s0 f)) (previous_by_key keyOf s0)")
    case None
    then have n: "(case keyOf f (row_at s f) of None \<Rightarrow> None | Some k \<Rightarrow> previous k) = None"
      using Cons.prems(4) [of f] f(1) by (auto split: option.split)
    have m: "matched keyOf s0 f = f" using None by (simp add: matched_def)
    let ?s1 = "upd_row f (\<lambda>r. r\<lparr>r_index := int (length B)\<rparr>) s"
    have rows: "row_at ?s1 g = row_at s0 g" if "g \<in> set next" for g
      using that f(2) Cons.prems(3) [of g] by (auto simp: upd_row_def)
    have prev: "Option.bind (keyOf g (row_at s0 g)) previous
        = Option.bind (keyOf g (row_at s0 g)) (previous_by_key keyOf s0)" if "g \<in> set next" for g
      using Cons.prems(4) [of g] that by simp
    show ?thesis
      using Cons.IH [OF d rows prev other, of "B @ [f]" moved "added @ [f]"] n m
      by (simp add: Let_def)
  next
    case (Some p)
    then obtain k where k: "keyOf f (row_at s0 f) = Some k" "previous_by_key keyOf s0 k = Some p"
      by (auto simp: bind_eq_Some_conv)
    then have p: "previous k = Some p" using Cons.prems(4) [of f] by simp
    have m: "matched keyOf s0 f = p" using Some by (simp add: matched_def)
    have pn: "p \<notin> set next" using Cons.prems(5) [of f] f(2) m by auto
    let ?s1 = "upd_row p (\<lambda>r. r\<lparr>r_index := int (length B)\<rparr>)
             (if p \<noteq> f then upd_row p (\<lambda>r. refresh r (row_at s f)) s else s)"
    have rows: "row_at ?s1 g = row_at s0 g" if "g \<in> set next" for g
      using that pn Cons.prems(3) [of g] by (auto simp: upd_row_def)
    have prev: "Option.bind (keyOf g (row_at s0 g)) (previous(k := None))
        = Option.bind (keyOf g (row_at s0 g)) (previous_by_key keyOf s0)" if g: "g \<in> set next" for g
    proof -
      have "g \<noteq> f" using g f(2) by auto
      then have "keyOf g (row_at s0 g) \<noteq> Some k" using Cons.prems(2) k(1) g by (fastforce simp: distinct_keys_def)
      then have "Option.bind (keyOf g (row_at s0 g)) (previous(k := None)) = Option.bind (keyOf g (row_at s0 g)) previous"
        by (cases "keyOf g (row_at s0 g)") auto
      then show ?thesis using Cons.prems(4) [of g] g by simp
    qed
    show ?thesis
      using Cons.IH [OF d rows prev other, of "B @ [p]" _ added] k p m f(1)
      by (simp add: Let_def fun_upd_def)
  qed
qed

lemma reconcile_load_rows:
  assumes "distinct next" "distinct_keys keyOf s next" "set next \<inter> set (s_accounts s) = {}"
  shows "s_accounts (snd (reconcile next keyOf refresh fallback s)) = map (matched keyOf s) next"
proof -
  have own: "matched keyOf s f = f \<or> matched keyOf s f \<notin> set next" if "f \<in> set next" for f
    using previous_by_key_step [of keyOf s] assms(3)
    by (cases "keyOf f (row_at s f)"; cases "previous_by_key keyOf s (the (keyOf f (row_at s f)))")
      (auto simp: matched_def)
  show ?thesis
    using match_rows_load [OF assms(1,2) refl refl own, of refresh "[]" "[]" "[]"]
    by (simp add: reconcile_def split_beta Let_def)
qed

end
