(* ===== verification/Selector_Marks.thy ===== *)
theory Selector_Marks
  imports Selector_Available
begin

text \<open>
  \<^verbatim>\<open>packages/core/src/account-selector.ts\<close>, the transitions and reports outside selection:
  rate limits and backoff, cooldowns, enabling and access verdicts, fingerprints, usage
  counts, and the waiting times. The random identity a fingerprint gets is the argument
  \<open>fresh\<close>; a day is a number of days since the epoch.
\<close>

section \<open>Rate limits\<close>

definition setRateLimit :: "addr \<Rightarrow> string \<Rightarrow> millis \<Rightarrow> AccountSelector \<Rightarrow> AccountSelector" where
  "setRateLimit a key resetAt s =
     report_loaded RateLimitM (EvRateLimit a key (Some resetAt)) a
       (upd_row a (\<lambda>r. r\<lparr>r_rateLimitResetTimes := AList.update key resetAt (r_rateLimitResetTimes r)\<rparr>) s)"

definition clearRateLimit :: "addr \<Rightarrow> string \<Rightarrow> AccountSelector \<Rightarrow> AccountSelector" where
  "clearRateLimit a key s =
     report_loaded RateLimitM (EvRateLimit a key None) a
       (upd_row a (\<lambda>r. r\<lparr>r_rateLimitResetTimes := AList.delete key (r_rateLimitResetTimes r)\<rparr>) s)"

definition markRateLimited ::
  "addr \<Rightarrow> millis \<Rightarrow> family \<Rightarrow> string option \<Rightarrow> millis \<Rightarrow> AccountSelector \<Rightarrow> AccountSelector" where
  "markRateLimited a retryAfterMs fam model now s =
     setRateLimit a (getQuotaKey fam model) (now + retryAfterMs) s"

definition markAccountUsed :: "int \<Rightarrow> millis \<Rightarrow> AccountSelector \<Rightarrow> AccountSelector" where
  "markAccountUsed accountIndex now s =
     (case find (\<lambda>a. r_index (row_at s a) = accountIndex) (s_accounts s) of
        None \<Rightarrow> s
      | Some a \<Rightarrow> touchLastUsed a now s)"

definition count_failure :: "millis \<Rightarrow> millis \<Rightarrow> row \<Rightarrow> row" where
  "count_failure failureTtlMs now r =
     (let stale = (case r_lastFailureTime r of None \<Rightarrow> False | Some t \<Rightarrow> failureTtlMs < now - t);
          prior = (if stale then Some 0 else r_consecutiveFailures r)
      in r\<lparr>r_consecutiveFailures := Some (nullish prior 0 + 1), r_lastFailureTime := Some now\<rparr>)"

definition markRateLimitedWithReason ::
  "addr \<Rightarrow> family \<Rightarrow> string option \<Rightarrow> RateLimitReason \<Rightarrow> millis option \<Rightarrow> millis \<Rightarrow> num \<Rightarrow> millis
   \<Rightarrow> AccountSelector \<Rightarrow> millis \<times> AccountSelector" where
  "markRateLimitedWithReason a fam model reason retryAfterMs failureTtlMs random now s =
     (let s1 = upd_row a (count_failure failureTtlMs now) s;
          failures = nullish (r_consecutiveFailures (row_at s1 a)) 0;
          backoffMs = calculateBackoffMs reason (int failures - 1) retryAfterMs random
      in (backoffMs, setRateLimit a (getQuotaKey fam model) (now + backoffMs) s1))"

definition markRequestSuccess :: "addr \<Rightarrow> AccountSelector \<Rightarrow> AccountSelector" where
  "markRequestSuccess a s =
     (case r_consecutiveFailures (row_at s a) of
        Some (Suc _) \<Rightarrow> upd_row a (\<lambda>r. r\<lparr>r_consecutiveFailures := Some 0\<rparr>) s
      | _ \<Rightarrow> s)"

definition clearAllRateLimitsForFamily :: "family \<Rightarrow> string option \<Rightarrow> AccountSelector \<Rightarrow> AccountSelector" where
  "clearAllRateLimitsForFamily fam model s =
     fold (\<lambda>a s. upd_row a (\<lambda>r. r\<lparr>r_consecutiveFailures := Some 0\<rparr>)
                   (clearRateLimit a (getQuotaKey fam model) s))
       (s_accounts s) s"

section \<open>Cooldown and freshness\<close>

definition markAccountCoolingDown ::
  "addr \<Rightarrow> millis \<Rightarrow> CooldownReason \<Rightarrow> millis \<Rightarrow> AccountSelector \<Rightarrow> AccountSelector" where
  "markAccountCoolingDown a cooldownMs reason now s =
     report_loaded CooldownM (EvCooldown a (Some (now + cooldownMs, reason))) a
       (upd_row a (\<lambda>r. r\<lparr>r_coolingDownUntil := Some (now + cooldownMs), r_cooldownReason := Some reason\<rparr>) s)"

definition getAccountCooldownReason :: "addr \<Rightarrow> millis \<Rightarrow> AccountSelector \<Rightarrow> CooldownReason option \<times> AccountSelector" where
  "getAccountCooldownReason a now s =
     (let (cooling, s1) = isAccountCoolingDown a now s
      in (if cooling then r_cooldownReason (row_at s1 a) else None, s1))"

definition isFreshForQuota :: "row \<Rightarrow> string \<Rightarrow> bool" where
  "isFreshForQuota r quotaKey =
     (let touchedAt = map_of (r_touchedForQuota r) quotaKey in
      if \<not> truthy_num touchedAt then True
      else let resetTime = map_of (r_rateLimitResetTimes r) quotaKey
           in truthy_num resetTime \<and> the touchedAt < the resetTime)"

definition check_fresh ::
  "string \<Rightarrow> family \<Rightarrow> string option \<Rightarrow> millis \<Rightarrow> addr \<Rightarrow> AccountSelector \<Rightarrow> bool \<times> AccountSelector" where
  "check_fresh quotaKey fam model now a s =
     (let s1 = clearExpiredRateLimits a now s in
      if \<not> eligible_flags (row_at s1 a) \<or> \<not> isFreshForQuota (row_at s1 a) quotaKey then (False, s1)
      else
        let (limited, s2) = isRateLimitedForFamily a fam now model s1 in
        if limited then (False, s2)
        else let (cooling, s3) = isAccountCoolingDown a now s2 in (\<not> cooling, s3))"

definition getFreshAccountsForQuota ::
  "string \<Rightarrow> family \<Rightarrow> string option \<Rightarrow> millis \<Rightarrow> AccountSelector \<Rightarrow> addr list \<times> AccountSelector" where
  "getFreshAccountsForQuota quotaKey fam model now s =
     filter_st (check_fresh quotaKey fam model now) (s_accounts s) s"

section \<open>Enabling and access verdicts\<close>

definition move_selection_off :: "int \<Rightarrow> family \<Rightarrow> AccountSelector \<Rightarrow> AccountSelector" where
  "move_selection_off accountIndex fam s =
     (if s_current s fam = accountIndex
      then let next = find (\<lambda>(i, a). int i \<noteq> accountIndex \<and> r_enabled (row_at s a))
                        (enumerate 0 (s_accounts s))
           in setGlobalActiveIndex fam (nullish (map_option (\<lambda>(_, a). r_index (row_at s a)) next) (-1)) s
      else s)"

definition applyEnabled :: "int \<Rightarrow> bool \<Rightarrow> AccountSelector \<Rightarrow> AccountSelector" where
  "applyEnabled accountIndex enabled s =
     (case nth_opt (s_accounts s) accountIndex of
        None \<Rightarrow> s
      | Some a \<Rightarrow>
          (let s1 = upd_row a (\<lambda>r. r\<lparr>r_enabled := enabled\<rparr>) s
           in if enabled then s1
              else move_selection_off accountIndex Gemini (move_selection_off accountIndex Claude s1)))"

definition setAccountEnabled :: "int \<Rightarrow> bool \<Rightarrow> AccountSelector \<Rightarrow> bool \<times> AccountSelector" where
  "setAccountEnabled accountIndex enabled s =
     (case nth_opt (s_accounts s) accountIndex of
        None \<Rightarrow> (False, s)
      | Some a \<Rightarrow>
          if enabled \<and> r_accountIneligible (row_at s a) = Some True then (False, s)
          else (True, emit RequestSaveM EvRequestSave
                  (emit EnabledM (EvEnabled a enabled) (applyEnabled accountIndex enabled s))))"

definition setEnabledInMemory :: "addr \<Rightarrow> bool \<Rightarrow> AccountSelector \<Rightarrow> AccountSelector" where
  "setEnabledInMemory a enabled s =
     (if a \<in> set (s_accounts s) then applyEnabled (r_index (row_at s a)) enabled s
      else upd_row a (\<lambda>r. r\<lparr>r_enabled := enabled\<rparr>) s)"

text \<open>\<open>x?.trim() || undefined\<close>.\<close>

definition trimmed :: "string option \<Rightarrow> string option" where
  "trimmed x = (let t = map_option js_trim x in if truthy_str t then t else None)"

definition block_verification :: "string option \<Rightarrow> string option \<Rightarrow> millis \<Rightarrow> row \<Rightarrow> row" where
  "block_verification reason verifyUrl timestamp r =
     (let r1 = r\<lparr>r_verificationRequired := Some True, r_verificationRequiredAt := Some timestamp,
                 r_verificationRequiredReason := trimmed reason\<rparr>;
          r2 = (if r_accountIneligible r1 = Some True \<or> r_accountIneligibleAt r1 \<noteq> None
                   \<or> r_accountIneligibleReason r1 \<noteq> None
                then r1\<lparr>r_accountIneligible := Some False, r_accountIneligibleAt := None,
                        r_accountIneligibleReason := None, r_eligibilityStateUpdatedAt := Some timestamp\<rparr>
                else r1)
      in if trimmed verifyUrl \<noteq> None then r2\<lparr>r_verificationUrl := trimmed verifyUrl\<rparr> else r2)"

definition disable_if_enabled :: "int \<Rightarrow> addr \<Rightarrow> AccountSelector \<Rightarrow> AccountSelector" where
  "disable_if_enabled accountIndex a s =
     (if r_enabled (row_at s a) then applyEnabled accountIndex False s else s)"

definition markAccountVerificationRequired ::
  "int \<Rightarrow> string option \<Rightarrow> string option \<Rightarrow> millis \<Rightarrow> AccountSelector \<Rightarrow> bool \<times> AccountSelector" where
  "markAccountVerificationRequired accountIndex reason verifyUrl timestamp s =
     (case nth_opt (s_accounts s) accountIndex of
        None \<Rightarrow> (False, s)
      | Some a \<Rightarrow>
          (let s1 = disable_if_enabled accountIndex a (upd_row a (block_verification reason verifyUrl timestamp) s)
           in (True, emit RequestSaveM EvRequestSave
                 (emit AccessVerdictM (EvAccessVerdict a
                    (VerificationRequiredVerdict timestamp (r_verificationRequiredReason (row_at s1 a)) (trimmed verifyUrl))) s1))))"

definition block_ineligible :: "string option \<Rightarrow> millis \<Rightarrow> row \<Rightarrow> row" where
  "block_ineligible reason timestamp r =
     r\<lparr>r_accountIneligible := Some True, r_accountIneligibleAt := Some timestamp,
       r_accountIneligibleReason := Some (nullish (trimmed reason) ''Google marked this account as ineligible.''),
       r_eligibilityStateUpdatedAt := Some timestamp, r_verificationRequired := Some False,
       r_verificationRequiredAt := None, r_verificationRequiredReason := None, r_verificationUrl := None\<rparr>"

definition markAccountIneligible ::
  "int \<Rightarrow> string option \<Rightarrow> millis \<Rightarrow> AccountSelector \<Rightarrow> bool \<times> AccountSelector" where
  "markAccountIneligible accountIndex reason timestamp s =
     (case nth_opt (s_accounts s) accountIndex of
        None \<Rightarrow> (False, s)
      | Some a \<Rightarrow>
          (let s1 = disable_if_enabled accountIndex a (upd_row a (block_ineligible reason timestamp) s)
           in (True, emit RequestSaveM EvRequestSave
                 (emit AccessVerdictM (EvAccessVerdict a
                    (IneligibleVerdict timestamp (r_accountIneligibleReason (row_at s1 a)))) s1))))"

definition has_block_metadata :: "row \<Rightarrow> bool" where
  "has_block_metadata r =
     (r_verificationRequired r = Some True \<or> r_accountIneligible r = Some True
      \<or> r_verificationRequiredAt r \<noteq> None \<or> r_verificationRequiredReason r \<noteq> None
      \<or> r_verificationUrl r \<noteq> None \<or> r_accountIneligibleAt r \<noteq> None
      \<or> r_accountIneligibleReason r \<noteq> None \<or> r_eligibilityStateUpdatedAt r \<noteq> None)"

definition clear_blocks :: "millis \<Rightarrow> row \<Rightarrow> row" where
  "clear_blocks observedAt r =
     r\<lparr>r_verificationRequired := Some False, r_verificationRequiredAt := None,
       r_verificationRequiredReason := None, r_verificationUrl := None, r_accountIneligible := Some False,
       r_accountIneligibleAt := None, r_accountIneligibleReason := None,
       r_eligibilityStateUpdatedAt :=
         (if r_accountIneligible r = Some True \<or> r_eligibilityStateUpdatedAt r \<noteq> None
          then Some observedAt else r_eligibilityStateUpdatedAt r)\<rparr>"

definition clearAccountAccessBlocks ::
  "int \<Rightarrow> bool \<Rightarrow> millis \<Rightarrow> AccountSelector \<Rightarrow> bool \<times> AccountSelector" where
  "clearAccountAccessBlocks accountIndex enableAccount observedAt s =
     (case nth_opt (s_accounts s) accountIndex of
        None \<Rightarrow> (False, s)
      | Some a \<Rightarrow>
          (let r = row_at s a;
               blocked = (r_verificationRequired r = Some True \<or> r_accountIneligible r = Some True);
               s1 = upd_row a (clear_blocks observedAt) s;
               reenable = (enableAccount \<and> blocked \<and> \<not> r_enabled (row_at s1 a));
               s2 = (if reenable then applyEnabled accountIndex True s1 else s1)
           in (True, if reenable \<or> has_block_metadata r
                     then emit RequestSaveM EvRequestSave
                            (emit AccessVerdictM (EvAccessVerdict a (ClearedVerdict observedAt enableAccount)) s2)
                     else s2)))"

section \<open>Waiting times\<close>

definition wait_candidates :: "int set option \<Rightarrow> AccountSelector \<Rightarrow> addr list" where
  "wait_candidates eligibleIndexes s =
     filter (\<lambda>a. eligible_flags (row_at s a)
       \<and> (case eligibleIndexes of None \<Rightarrow> True | Some e \<Rightarrow> r_index (row_at s a) \<in> e)) (s_accounts s)"

definition row_wait :: "family \<Rightarrow> string option \<Rightarrow> bool \<Rightarrow> millis \<Rightarrow> row \<Rightarrow> millis" where
  "row_wait fam model includeCooldown now r =
     (let modelReset = (if truthy_str model then map_of (r_rateLimitResetTimes r) (getQuotaKey fam model) else None);
          cooldownWait = (case r_coolingDownUntil r of
             Some until \<Rightarrow> if includeCooldown \<and> now < until then until - now else 0 | None \<Rightarrow> 0)
      in max (max (max 0 (nullish (map_of (r_rateLimitResetTimes r) (family_name fam)) now - now))
               (nullish modelReset now - now)) cooldownWait)"

definition getMinWaitTimeForFamily ::
  "family \<Rightarrow> string option \<Rightarrow> int set option \<Rightarrow> bool \<Rightarrow> millis \<Rightarrow> AccountSelector \<Rightarrow> millis \<times> AccountSelector" where
  "getMinWaitTimeForFamily fam model eligibleIndexes includeCooldown now s =
     (let (waits, s1) = map_st (\<lambda>a s. let s1 = clearExpiredRateLimits a now s
                                     in (row_wait fam model includeCooldown now (row_at s1 a), s1))
                          (wait_candidates eligibleIndexes s) s
      in (if waits \<noteq> [] then min_list_of waits else 0, s1))"

definition shouldTryOptimisticReset :: "family \<Rightarrow> string option \<Rightarrow> millis \<Rightarrow> AccountSelector \<Rightarrow> bool \<times> AccountSelector" where
  "shouldTryOptimisticReset fam model now s =
     (let (minWaitMs, s1) = getMinWaitTimeForFamily fam model None False now s
      in (0 < minWaitMs \<and> minWaitMs \<le> 2000, s1))"

definition isAccountOverSoftQuota ::
  "addr \<Rightarrow> family \<Rightarrow> num \<Rightarrow> millis \<Rightarrow> string option \<Rightarrow> int set \<Rightarrow> millis \<Rightarrow> AccountSelector \<Rightarrow> bool" where
  "isAccountOverSoftQuota a fam thresholdPercent cacheTtlMs model excludeIndexes now s =
     isOverSoftQuotaThreshold (row_at s a) fam
       (getEffectiveSoftQuotaThreshold thresholdPercent excludeIndexes s) cacheTtlMs now model"

text \<open>
  The reset time of the group a model maps to on a row: \<open>Some\<close> when it is there and parses.
  \<open>dateParse\<close> is \<open>Date.parse\<close>, \<open>None\<close> where that is \<open>NaN\<close>.
\<close>

definition soft_reset :: "(string \<Rightarrow> millis option) \<Rightarrow> family \<Rightarrow> string option \<Rightarrow> row \<Rightarrow> millis option" where
  "soft_reset dateParse fam model r =
     (case r_cachedQuota r of
        None \<Rightarrow> None
      | Some q \<Rightarrow>
          (case q (resolveQuotaGroup fam model (Some q)) of
             None \<Rightarrow> None
           | Some groupData \<Rightarrow>
               if truthy_str (qs_resetTime groupData) then dateParse (the (qs_resetTime groupData)) else None))"

fun selectable_waits ::
  "(string \<Rightarrow> millis option) \<Rightarrow> family \<Rightarrow> num \<Rightarrow> millis \<Rightarrow> string option \<Rightarrow> bool \<Rightarrow> millis \<Rightarrow> addr list
   \<Rightarrow> AccountSelector \<Rightarrow> millis list \<times> AccountSelector" where
  "selectable_waits dateParse fam thr ttl model applySoftQuota now [] s = ([], s)"
| "selectable_waits dateParse fam thr ttl model applySoftQuota now (a # as) s =
     (let (hardCooldownWait, s1) =
            getMinWaitTimeForFamily fam model (Some {r_index (row_at s a)}) True now s;
          known =
            (if applySoftQuota \<and> isOverSoftQuotaThreshold (row_at s1 a) fam thr ttl now model
             then if \<not> truthy_str model \<and> fam \<noteq> Claude then []
                  else case soft_reset dateParse fam model (row_at s1 a) of
                    None \<Rightarrow> []
                  | Some t \<Rightarrow> if t \<le> now then [] else [max hardCooldownWait (t - now)]
             else [hardCooldownWait]);
          (rest, s2) = selectable_waits dateParse fam thr ttl model applySoftQuota now as s1
      in (known @ rest, s2))"

definition getMinSelectableWaitTimeForFamily ::
  "(string \<Rightarrow> millis option) \<Rightarrow> family \<Rightarrow> num \<Rightarrow> millis \<Rightarrow> string option \<Rightarrow> int set option \<Rightarrow> millis
   \<Rightarrow> AccountSelector \<Rightarrow> millis option \<times> AccountSelector" where
  "getMinSelectableWaitTimeForFamily dateParse fam thr ttl model eligibleIndexes now s =
     (let eligible = wait_candidates eligibleIndexes s in
      if eligible = [] then (None, s)
      else
        let applySoftQuota = (1 < length eligible \<and> thr < 100);
            (knownWaits, s1) = selectable_waits dateParse fam thr ttl model applySoftQuota now eligible s
        in (if knownWaits = [] then None else Some (min_list_of knownWaits), s1))"

fun oldest_age :: "millis \<Rightarrow> millis option \<Rightarrow> row list \<Rightarrow> millis option" where
  "oldest_age now oldest [] = oldest"
| "oldest_age now oldest (r # rs) =
     (if \<not> r_enabled r then oldest_age now oldest rs
      else case r_cachedQuotaUpdatedAt r of
        None \<Rightarrow> None
      | Some t \<Rightarrow> oldest_age now (if (case oldest of None \<Rightarrow> True | Some m \<Rightarrow> m < now - t)
                                   then Some (now - t) else oldest) rs)"

definition getOldestQuotaCacheAge :: "millis \<Rightarrow> AccountSelector \<Rightarrow> millis option" where
  "getOldestQuotaCacheAge now s = oldest_age now None (map (row_at s) (s_accounts s))"

definition areAllAccountsOverSoftQuota ::
  "family \<Rightarrow> num \<Rightarrow> millis \<Rightarrow> string option \<Rightarrow> int set option \<Rightarrow> millis \<Rightarrow> AccountSelector \<Rightarrow> bool" where
  "areAllAccountsOverSoftQuota fam thr ttl model eligibleIndexes now s =
     (if 100 \<le> thr then False
      else let eligible = wait_candidates eligibleIndexes s in
        if length eligible \<le> 1 then False
        else list_all (\<lambda>a. isOverSoftQuotaThreshold (row_at s a) fam thr ttl now model) eligible)"

definition getMinWaitTimeForSoftQuota ::
  "(string \<Rightarrow> millis option) \<Rightarrow> family \<Rightarrow> num \<Rightarrow> millis \<Rightarrow> string option \<Rightarrow> int set option \<Rightarrow> millis
   \<Rightarrow> AccountSelector \<Rightarrow> millis option" where
  "getMinWaitTimeForSoftQuota dateParse fam thr ttl model eligibleIndexes now s =
     (if 100 \<le> thr then Some 0
      else let eligible = wait_candidates eligibleIndexes s in
        if eligible = [] then None
        else if length eligible = 1 then Some 0
        else if filter (\<lambda>a. \<not> isOverSoftQuotaThreshold (row_at s a) fam thr ttl now model) eligible \<noteq> []
        then Some 0
        else if \<not> truthy_str model \<and> fam \<noteq> Claude then None
        else
          let waitTimes = List.map_filter (\<lambda>a. map_option (\<lambda>t. max 0 (t - now))
                            (soft_reset dateParse fam model (row_at s a))) eligible
          in if waitTimes = [] then None
             else if min_list_of waitTimes = 0 then None else Some (min_list_of waitTimes))"

section \<open>Fingerprints\<close>

definition push_history :: "fp_reason \<Rightarrow> millis \<Rightarrow> row \<Rightarrow> row" where
  "push_history reason now r =
     (case r_fingerprint r of
        None \<Rightarrow> r
      | Some fp \<Rightarrow>
          (let history = \<lparr>fv_fingerprint = fp, fv_timestamp = now, fv_reason = reason\<rparr>
                           # nullish (r_fingerprintHistory r) []
           in r\<lparr>r_fingerprintHistory := Some
                 (if MAX_FINGERPRINT_HISTORY < length history then take MAX_FINGERPRINT_HISTORY history
                  else history)\<rparr>))"

definition regenerateAccountFingerprint ::
  "int \<Rightarrow> Fingerprint \<Rightarrow> millis \<Rightarrow> AccountSelector \<Rightarrow> Fingerprint option \<times> AccountSelector" where
  "regenerateAccountFingerprint accountIndex fresh now s =
     (case nth_opt (s_accounts s) accountIndex of
        None \<Rightarrow> (None, s)
      | Some a \<Rightarrow>
          (Some fresh, emit RequestSaveM EvRequestSave (emit FingerprintM (EvFingerprint a)
             (upd_row a (\<lambda>r. (push_history FpRegenerated now r)\<lparr>r_fingerprint := Some fresh\<rparr>) s))))"

definition restoreAccountFingerprint ::
  "int \<Rightarrow> int \<Rightarrow> millis \<Rightarrow> AccountSelector \<Rightarrow> Fingerprint option \<times> AccountSelector" where
  "restoreAccountFingerprint accountIndex historyIndex now s =
     (case nth_opt (s_accounts s) accountIndex of
        None \<Rightarrow> (None, s)
      | Some a \<Rightarrow>
          (case Option.bind (r_fingerprintHistory (row_at s a)) (\<lambda>history. nth_opt history historyIndex) of
             None \<Rightarrow> (None, s)
           | Some version \<Rightarrow>
               (let restored = (fv_fingerprint version)\<lparr>fp_createdAt := now\<rparr>
                in (Some restored, emit RequestSaveM EvRequestSave (emit FingerprintM (EvFingerprint a)
                      (upd_row a (\<lambda>r. (push_history FpRestored now r)\<lparr>r_fingerprint := Some restored\<rparr>) s))))))"

definition getAccountFingerprintHistory :: "int \<Rightarrow> AccountSelector \<Rightarrow> FingerprintVersion list" where
  "getAccountFingerprintHistory accountIndex s =
     (case nth_opt (s_accounts s) accountIndex of
        None \<Rightarrow> []
      | Some a \<Rightarrow> nullish (r_fingerprintHistory (row_at s a)) [])"

section \<open>Usage\<close>

definition day_of :: "millis \<Rightarrow> int" where
  "day_of now = \<lfloor>now / 86400000\<rfloor>"

definition dc_get :: "family \<Rightarrow> daily_counts \<Rightarrow> nat" where
  "dc_get fam c = (case fam of Claude \<Rightarrow> dc_claude c | Gemini \<Rightarrow> dc_gemini c)"

definition dc_incr :: "family \<Rightarrow> daily_counts \<Rightarrow> daily_counts" where
  "dc_incr fam c = (case fam of Claude \<Rightarrow> c\<lparr>dc_claude := dc_claude c + 1\<rparr>
                              | Gemini \<Rightarrow> c\<lparr>dc_gemini := dc_gemini c + 1\<rparr>)"

definition sn_incr :: "family \<Rightarrow> session_counts \<Rightarrow> session_counts" where
  "sn_incr fam c = (case fam of Claude \<Rightarrow> c\<lparr>sn_claude := sn_claude c + 1\<rparr>
                              | Gemini \<Rightarrow> c\<lparr>sn_gemini := sn_gemini c + 1\<rparr>)"

definition today_counts :: "int \<Rightarrow> row \<Rightarrow> daily_counts option" where
  "today_counts today r =
     (case r_dailyRequestCounts r of
        None \<Rightarrow> None | Some c \<Rightarrow> if dc_day c = today then Some c else None)"

definition recordSessionRequest :: "int \<Rightarrow> family \<Rightarrow> AccountSelector \<Rightarrow> AccountSelector" where
  "recordSessionRequest accountIndex fam s =
     (let current = nullish (map_of (s_sessionRequestCounts s) accountIndex) \<lparr>sn_claude = 0, sn_gemini = 0\<rparr>
      in s\<lparr>s_sessionRequestCounts := AList.update accountIndex (sn_incr fam current) (s_sessionRequestCounts s)\<rparr>)"

definition count_request :: "family \<Rightarrow> millis \<Rightarrow> row \<Rightarrow> row" where
  "count_request fam now r =
     r\<lparr>r_dailyRequestCounts := Some (dc_incr fam (nullish (today_counts (day_of now) r)
          \<lparr>dc_day = day_of now, dc_claude = 0, dc_gemini = 0\<rparr>)),
       r_lastUsed := now\<rparr>"

definition recordRequest :: "int \<Rightarrow> family \<Rightarrow> millis \<Rightarrow> AccountSelector \<Rightarrow> AccountSelector" where
  "recordRequest accountIndex fam now s =
     (case nth_opt (s_accounts s) accountIndex of
        None \<Rightarrow> s
      | Some a \<Rightarrow> recordSessionRequest accountIndex fam
                    (emit UsageM (EvUsage a fam now) (upd_row a (count_request fam now) s)))"

definition getDailyRequestCounts :: "int \<Rightarrow> millis \<Rightarrow> AccountSelector \<Rightarrow> daily_counts option" where
  "getDailyRequestCounts accountIndex now s =
     Option.bind (nth_opt (s_accounts s) accountIndex) (\<lambda>a. today_counts (day_of now) (row_at s a))"

definition row_count :: "family \<Rightarrow> millis \<Rightarrow> row \<Rightarrow> nat" where
  "row_count fam now r = (case today_counts (day_of now) r of None \<Rightarrow> 0 | Some c \<Rightarrow> dc_get fam c)"

definition getTotalDailyRequests :: "family \<Rightarrow> millis \<Rightarrow> AccountSelector \<Rightarrow> nat" where
  "getTotalDailyRequests fam now s = sum_list (map (\<lambda>a. row_count fam now (row_at s a)) (s_accounts s))"

record daily_summary =
  du_index :: int
  du_email :: "string option"
  du_count :: nat

definition getDailyRequestSummary :: "family \<Rightarrow> millis \<Rightarrow> AccountSelector \<Rightarrow> daily_summary list" where
  "getDailyRequestSummary fam now s =
     sort_key (\<lambda>e. - int (du_count e))
       (map (\<lambda>a. \<lparr>du_index = r_index (row_at s a), du_email = r_email (row_at s a),
                   du_count = row_count fam now (row_at s a)\<rparr>)
         (filter (\<lambda>a. 0 < row_count fam now (row_at s a)) (s_accounts s)))"

record account_usage =
  us_index :: int
  us_email :: "string option"
  us_claude :: nat
  us_gemini :: nat

record session_summary =
  sy_durationMinutes :: int
  sy_totalClaude :: nat
  sy_totalGemini :: nat
  sy_requestsPerHour :: int
  sy_accountsUsed :: nat
  sy_perAccount :: "account_usage list"

definition getSessionSummary :: "millis \<Rightarrow> AccountSelector \<Rightarrow> session_summary" where
  "getSessionSummary now s =
     (let durationMs = now - s_sessionStartTime s;
          durationHours = durationMs / 3600000;
          totalClaude = sum_list (map (sn_claude \<circ> snd) (s_sessionRequestCounts s));
          totalGemini = sum_list (map (sn_gemini \<circ> snd) (s_sessionRequestCounts s));
          perAccount = map (\<lambda>(i, c). \<lparr>us_index = i,
                us_email = Option.bind (nth_opt (s_accounts s) i) (\<lambda>a. r_email (row_at s a)),
                us_claude = sn_claude c, us_gemini = sn_gemini c\<rparr>)
              (filter (\<lambda>(i, c). 0 < sn_claude c \<or> 0 < sn_gemini c) (s_sessionRequestCounts s));
          totalRequests = totalClaude + totalGemini
      in \<lparr>sy_durationMinutes = js_round (durationMs / 60000), sy_totalClaude = totalClaude,
          sy_totalGemini = totalGemini,
          sy_requestsPerHour = (if 0 < durationHours then js_round (of_nat totalRequests / durationHours) else 0),
          sy_accountsUsed = length perAccount,
          sy_perAccount = sort_key (\<lambda>u. - int (us_claude u + us_gemini u)) perAccount\<rparr>)"

definition getAccountCount :: "AccountSelector \<Rightarrow> nat" where
  "getAccountCount s = length (filter (\<lambda>a. r_enabled (row_at s a)) (s_accounts s))"

end
