(* ===== verification/Selector_Waits.thy ===== *)
theory Selector_Waits
  imports Selector_Marks
begin

text \<open>
  What the transitions of \<open>Selector_Marks\<close> guarantee: the frame of each, the exact meaning of
  the waiting times with respect to the checks of selection, and the effect of limits and
  verdicts on what selection may return.
\<close>

section \<open>Frames\<close>

lemma report_frame:
  "s_heap (report_loaded m e a s) = s_heap s" "s_accounts (report_loaded m e a s) = s_accounts s"
  "s_current (report_loaded m e a s) = s_current s" "s_cursor (report_loaded m e a s) = s_cursor s"
  "s_requestSessionStates (report_loaded m e a s) = s_requestSessionStates s"
  "s_sessionUsedAccounts (report_loaded m e a s) = s_sessionUsedAccounts s"
  "s_sessionRequestCounts (report_loaded m e a s) = s_sessionRequestCounts s"
  "s_health (report_loaded m e a s) = s_health s" "s_tokens (report_loaded m e a s) = s_tokens s"
  by (simp_all add: report_loaded_def isLoaded_def emit_def Let_def split_beta)

lemmas report_simps [simp] = report_frame

lemma upd_row_simps [simp]:
  "s_accounts (upd_row a f s) = s_accounts s" "s_current (upd_row a f s) = s_current s"
  "s_cursor (upd_row a f s) = s_cursor s" "s_requestSessionStates (upd_row a f s) = s_requestSessionStates s"
  "s_sessionUsedAccounts (upd_row a f s) = s_sessionUsedAccounts s"
  "s_sessionRequestCounts (upd_row a f s) = s_sessionRequestCounts s"
  "s_health (upd_row a f s) = s_health s" "s_tokens (upd_row a f s) = s_tokens s"
  "row_at (upd_row a f s) b = (if b = a then f (row_at s a) else row_at s b)"
  by (simp_all add: upd_row_def)

lemma emit_simps [simp]:
  "s_current (emit m e s) = s_current s" "s_cursor (emit m e s) = s_cursor s"
  "s_requestSessionStates (emit m e s) = s_requestSessionStates s"
  "s_sessionUsedAccounts (emit m e s) = s_sessionUsedAccounts s"
  "s_sessionRequestCounts (emit m e s) = s_sessionRequestCounts s"
  "s_health (emit m e s) = s_health s" "s_tokens (emit m e s) = s_tokens s"
  by (simp_all add: emit_def)

text \<open>Same pool: the array, every row's index and every row's well-formedness.\<close>

definition pool_kept :: "AccountSelector \<Rightarrow> AccountSelector \<Rightarrow> bool" where
  "pool_kept s s' \<longleftrightarrow> s_accounts s' = s_accounts s
     \<and> (\<forall>a. r_index (row_at s' a) = r_index (row_at s a) \<and> (row_wf (row_at s a) \<longrightarrow> row_wf (row_at s' a)))"

named_theorems kept_rules \<open>operations that keep the pool\<close>

lemma pool_kept_wf: "pool_kept s s' \<Longrightarrow> pool_wf s \<Longrightarrow> pool_wf s'"
  by (simp add: pool_kept_def pool_wf_def)

lemma pool_kept_refl [simp, kept_rules]: "pool_kept s s"
  by (simp add: pool_kept_def)

lemma pool_kept_trans: "pool_kept s t \<Longrightarrow> pool_kept t u \<Longrightarrow> pool_kept s u"
  by (simp add: pool_kept_def)

lemma same_rows_kept: "same_rows now s s' \<Longrightarrow> pool_kept s s'"
  by (simp add: pool_kept_def same_rows_row(1)) (simp add: same_rows_def)

lemma pool_kept_upd:
  assumes "\<And>r. r_index (f r) = r_index r" "\<And>r. row_wf r \<Longrightarrow> row_wf (f r)"
  shows "pool_kept s (upd_row a f s)"
  using assms by (simp add: pool_kept_def)

lemma pool_kept_heap: "s_heap s' = s_heap s \<Longrightarrow> s_accounts s' = s_accounts s \<Longrightarrow> pool_kept s s'"
  by (simp add: pool_kept_def)

lemma pool_kept_report: "pool_kept s t \<Longrightarrow> pool_kept s (report_loaded m e a t)"
  by (simp add: pool_kept_def)

lemma pool_kept_emit: "pool_kept s t \<Longrightarrow> pool_kept s (emit m e t)"
  by (simp add: pool_kept_def)

section \<open>Rate limits\<close>

lemma setRateLimit_row:
  "row_at (setRateLimit a key t s) b =
     (if b = a then (row_at s a)\<lparr>r_rateLimitResetTimes := AList.update key t (r_rateLimitResetTimes (row_at s a))\<rparr>
      else row_at s b)"
  by (simp add: setRateLimit_def)

lemma setRateLimit_kept [kept_rules]: "pool_kept s (setRateLimit a key t s)"
  unfolding setRateLimit_def by (intro pool_kept_report pool_kept_upd) (simp_all add: row_wf_def)

lemma clearRateLimit_kept [kept_rules]: "pool_kept s (clearRateLimit a key s)"
  unfolding clearRateLimit_def by (intro pool_kept_report pool_kept_upd) (simp_all add: row_wf_def)

lemma quota_key_limits:
  assumes "isRateLimitedForQuotaKey r (getQuotaKey fam model) now"
  shows "row_limited fam model now r"
  using assms by (cases model) (auto simp: row_limited_def getQuotaKey_def)

definition failure_streak :: "millis \<Rightarrow> millis \<Rightarrow> row \<Rightarrow> nat" where
  "failure_streak failureTtlMs now r =
     (case r_lastFailureTime r of
        None \<Rightarrow> nullish (r_consecutiveFailures r) 0
      | Some t \<Rightarrow> if failureTtlMs < now - t then 0 else nullish (r_consecutiveFailures r) 0)"

lemma count_failure_streak:
  "r_consecutiveFailures (count_failure ttl now r) = Some (failure_streak ttl now r + 1)"
  by (simp add: count_failure_def failure_streak_def Let_def split: option.split)

lemma count_failure_fields [simp]:
  "r_index (count_failure ttl now r) = r_index r"
  "r_rateLimitResetTimes (count_failure ttl now r) = r_rateLimitResetTimes r"
  "r_lastFailureTime (count_failure ttl now r) = Some now"
  by (simp_all add: count_failure_def Let_def)

lemma markRateLimited_kept [kept_rules]: "pool_kept s (markRateLimited a t fam model now s)"
  by (simp add: markRateLimited_def setRateLimit_kept)

lemma markWithReason_kept [kept_rules]:
  "pool_kept s (snd (markRateLimitedWithReason a fam model reason ra ttl random now s))"
  unfolding markRateLimitedWithReason_def Let_def snd_conv
  by (rule pool_kept_trans [OF pool_kept_upd setRateLimit_kept]) (simp_all add: row_wf_def)

lemma markWithReason_backoff:
  "fst (markRateLimitedWithReason a fam model reason ra ttl random now s) =
     calculateBackoffMs reason (int (failure_streak ttl now (row_at s a))) ra random"
  by (simp add: markRateLimitedWithReason_def Let_def count_failure_streak)

lemma markWithReason_row:
  defines "b \<equiv> \<lambda>a fam model reason ra ttl random now s.
      fst (markRateLimitedWithReason a fam model reason ra ttl random now s)"
  shows "row_at (snd (markRateLimitedWithReason a fam model reason ra ttl random now s)) c =
     (if c = a then (count_failure ttl now (row_at s a))\<lparr>r_rateLimitResetTimes :=
        AList.update (getQuotaKey fam model) (now + b a fam model reason ra ttl random now s)
          (r_rateLimitResetTimes (row_at s a))\<rparr>
      else row_at s c)"
  by (simp add: b_def markRateLimitedWithReason_def Let_def setRateLimit_row)

lemma markWithReason_limited:
  assumes "t < now + fst (markRateLimitedWithReason a fam model reason ra ttl random now s)"
  shows "row_limited fam model t
           (row_at (snd (markRateLimitedWithReason a fam model reason ra ttl random now s)) a)"
  by (rule quota_key_limits)
    (use assms in \<open>simp add: markWithReason_row isRateLimitedForQuotaKey_def update_conv\<close>)

section \<open>Waiting times\<close>

text \<open>\<open>blocked_at\<close>: what the hard checks of selection say of a row at a time.\<close>

definition blocked_at :: "family \<Rightarrow> string option \<Rightarrow> bool \<Rightarrow> row \<Rightarrow> millis \<Rightarrow> bool" where
  "blocked_at fam model cooldown r t = (row_limited fam model t r \<or> cooldown \<and> row_cooling t r)"

lemma row_wait_nonneg: "0 \<le> row_wait fam model cd now r"
  by (simp add: row_wait_def Let_def)

lemma reset_wait:
  fixes now t :: millis
  assumes "now \<le> t"
  shows "t < now + (nullish x now - now) \<longleftrightarrow> (case x of None \<Rightarrow> False | Some v \<Rightarrow> t < v)"
  using assms by (cases x) auto

lemma less_add_max:
  fixes t n x y :: num
  shows "t < n + max x y \<longleftrightarrow> t < n + x \<or> t < n + y"
  by (auto simp: max_def)

lemma row_wait_exact:
  assumes "now \<le> t"
  shows "blocked_at fam model cd r t \<longleftrightarrow> t < now + row_wait fam model cd now r"
proof -
  have c: "t < now + (case r_coolingDownUntil r of
             Some until \<Rightarrow> if cd \<and> now < until then until - now else 0 | None \<Rightarrow> 0)
      \<longleftrightarrow> cd \<and> row_cooling t r"
    using assms by (auto simp: row_cooling_def split: option.split)
  have m: "row_limited fam model t r \<longleftrightarrow>
     isRateLimitedForQuotaKey r (family_name fam) t
     \<or> truthy_str model \<and> isRateLimitedForQuotaKey r (getQuotaKey fam model) t"
    by (cases model) (auto simp: row_limited_def getQuotaKey_def)
  have n: "\<not> t < now + 0" using assms by simp
  show ?thesis
    unfolding blocked_at_def m row_wait_def Let_def less_add_max reset_wait [OF assms] c
    using n by (auto simp: isRateLimitedForQuotaKey_def split: option.split)
qed

lemma row_wait_clear:
  assumes "row_wf r"
  shows "row_wait fam model cd now (clear_expired now r) = row_wait fam model cd now r"
proof -
  have *: "map_of (r_rateLimitResetTimes (clear_expired now r)) k =
     (case map_of (r_rateLimitResetTimes r) k of
        None \<Rightarrow> None | Some v \<Rightarrow> if \<not> (family_key k \<and> v \<le> now) then Some v else None)" for k
    using assms by (auto simp: clear_expired_def row_wf_def map_of_filter_keys split: option.split)
  show ?thesis by (auto simp: row_wait_def Let_def * max_def nullish_def split: option.split)
qed

lemma row_wait_calm:
  assumes "calm now s s'" "row_wf (row_at s a)"
  shows "row_wait fam model cd now (clear_expired now (row_at s' a)) = row_wait fam model cd now (row_at s a)"
proof -
  have wf: "row_wf (row_at s' a)" using calm_wf assms by blast
  have cd: "row_cooling now (row_at s' a) = row_cooling now (row_at s a)" using calm_row(7) assms(1) .
  have eq: "settle now (row_at s' a) = settle now (row_at s a)" using assms(1) by (simp add: calm_def)
  have settled: "row_wait fam model cd now (settle now r) = row_wait fam model cd now r" if "row_wf r" for r
  proof (cases "r_coolingDownUntil r \<noteq> None \<and> \<not> row_cooling now r")
    case True
    then have "row_wait fam model cd now (settle now r) = row_wait fam model cd now (clear_expired now r)"
      by (auto simp: settle_def Let_def row_wait_def row_cooling_def split: option.splits)
    then show ?thesis using row_wait_clear [OF that] by simp
  next
    case False
    then have "settle now r = clear_expired now r" unfolding settle_def Let_def by (rule if_not_P)
    then show ?thesis using row_wait_clear [OF that] by simp
  qed
  show ?thesis
    using row_wait_clear [OF wf] settled [OF wf] settled [OF assms(2)] eq by simp
qed

lemma getMinWait_value:
  assumes wf: "pool_wf s"
  shows "fst (getMinWaitTimeForFamily fam model e cd now s) =
     (let waits = map (\<lambda>a. row_wait fam model cd now (row_at s a)) (wait_candidates e s)
      in if waits \<noteq> [] then min_list_of waits else 0)"
    and "calm now s (snd (getMinWaitTimeForFamily fam model e cd now s))"
proof -
  let ?f = "\<lambda>a s. let s1 = clearExpiredRateLimits a now s
                  in (row_wait fam model cd now (row_at s1 a), s1)"
  have "fst (map_st ?f (wait_candidates e s) s)
      = map (\<lambda>a. row_wait fam model cd now (row_at s a)) (wait_candidates e s)
    \<and> calm now s (snd (map_st ?f (wait_candidates e s) s))"
  proof (rule map_st_pure [where R = "calm now"])
    fix a s' assume c: "calm now s s'"
    have "row_at (clearExpiredRateLimits a now s') a = clear_expired now (row_at s' a)"
      by (simp add: clearExpiredRateLimits_def)
    then have "fst (?f a s') = row_wait fam model cd now (row_at s a)"
      using row_wait_calm [OF c pool_wf_row [OF wf]] by (simp add: Let_def)
    moreover have "calm now s (snd (?f a s'))"
      using calm_trans [OF c calm_clearExpired] by (simp add: Let_def)
    ultimately show "fst (?f a s') = row_wait fam model cd now (row_at s a) \<and> calm now s (snd (?f a s'))" ..
  qed simp
  then show "fst (getMinWaitTimeForFamily fam model e cd now s) =
     (let waits = map (\<lambda>a. row_wait fam model cd now (row_at s a)) (wait_candidates e s)
      in if waits \<noteq> [] then min_list_of waits else 0)"
    "calm now s (snd (getMinWaitTimeForFamily fam model e cd now s))"
    by (simp_all add: getMinWaitTimeForFamily_def Let_def split_beta)
qed

text \<open>The waiting time is exact: until it has passed every candidate is blocked, then one is not.\<close>

lemma getMinWait_exact:
  fixes s fam model e cd now
  assumes wf: "pool_wf s" and t: "now \<le> t"
  defines "w \<equiv> fst (getMinWaitTimeForFamily fam model e cd now s)"
  shows "t < now + w \<Longrightarrow> a \<in> set (wait_candidates e s) \<Longrightarrow> blocked_at fam model cd (row_at s a) t"
    and "wait_candidates e s \<noteq> [] \<Longrightarrow> now + w \<le> t \<Longrightarrow>
           \<exists>a \<in> set (wait_candidates e s). \<not> blocked_at fam model cd (row_at s a) t"
    and "0 \<le> w"
proof -
  let ?ws = "map (\<lambda>a. row_wait fam model cd now (row_at s a)) (wait_candidates e s)"
  have w: "w = (if ?ws \<noteq> [] then min_list_of ?ws else 0)"
    unfolding w_def getMinWait_value(1) [OF wf] by (simp add: Let_def)
  show "0 \<le> w"
    using min_list_of_in [of ?ws] row_wait_nonneg by (auto simp: w)
  show "blocked_at fam model cd (row_at s a) t" if "t < now + w" "a \<in> set (wait_candidates e s)"
  proof -
    have "row_wait fam model cd now (row_at s a) \<in> set ?ws" using that(2) by simp
    then have "w \<le> row_wait fam model cd now (row_at s a)" using min_list_of_le by (auto simp: w)
    then show ?thesis using that(1) by (simp add: row_wait_exact [OF t])
  qed
  show "\<exists>a \<in> set (wait_candidates e s). \<not> blocked_at fam model cd (row_at s a) t"
    if ne: "wait_candidates e s \<noteq> []" and le: "now + w \<le> t"
  proof -
    have "w \<in> set ?ws" using min_list_of_in [of ?ws] ne by (simp add: w)
    then obtain a where "a \<in> set (wait_candidates e s)" "w = row_wait fam model cd now (row_at s a)" by auto
    then show ?thesis using le by (force simp: row_wait_exact [OF t])
  qed
qed

text \<open>
  With soft quotas out of the way (a threshold of 100), the reported time including cooldowns
  is when selection starts to succeed.
\<close>

lemma usable_hard:
  assumes "100 \<le> sq_threshold q" "sq_exclude q = {}"
  shows "usable q t s a \<longleftrightarrow> eligible_flags (row_at s a) \<and> \<not> blocked_at (sq_family q) (sq_model q) True (row_at s a) t"
  using assms by (auto simp: usable_def available_def Let_def blocked_at_def isOverSoftQuotaThreshold_def
      getEffectiveSoftQuotaThreshold_def)

lemma wait_until_selectable:
  assumes wf: "pool_wf s" and q: "100 \<le> sq_threshold q" "sq_exclude q = {}" and t: "now \<le> t"
    and ne: "wait_candidates None s \<noteq> []"
  shows "fst (getCurrentOrNextForFamily q t s) \<noteq> None \<longleftrightarrow>
           now + fst (getMinWaitTimeForFamily (sq_family q) (sq_model q) None True now s) \<le> t"
proof -
  let ?w = "fst (getMinWaitTimeForFamily (sq_family q) (sq_model q) None True now s)"
  note W = getMinWait_exact [OF wf t, where fam = "sq_family q" and model = "sq_model q" and e = None and cd = True]
  note C = getCurrentOrNext_choice [OF wf, of q t]
  have cand: "a \<in> set (wait_candidates None s) \<longleftrightarrow> a \<in> set (s_accounts s) \<and> eligible_flags (row_at s a)" for a
    by (auto simp: wait_candidates_def)
  show ?thesis
  proof
    assume "fst (getCurrentOrNextForFamily q t s) \<noteq> None"
    then obtain a where "a \<in> set (s_accounts s)" "usable q t s a"
      using C(1) by (auto simp: sound_choice_def)
    then have "a \<in> set (wait_candidates None s)" "\<not> blocked_at (sq_family q) (sq_model q) True (row_at s a) t"
      by (simp_all add: usable_hard [OF q] cand)
    then show "now + ?w \<le> t" using W(1) by (meson not_less)
  next
    assume "now + ?w \<le> t"
    then obtain a where "a \<in> set (wait_candidates None s)" "\<not> blocked_at (sq_family q) (sq_model q) True (row_at s a) t"
      using W(2) ne by blast
    then have "a \<in> set (s_accounts s)" "usable q t s a" by (simp_all add: usable_hard [OF q] cand)
    then show "fst (getCurrentOrNextForFamily q t s) \<noteq> None"
      using C(2) by (auto simp: complete_choice_def)
  qed
qed

section \<open>Soft quotas\<close>

lemma all_over_blocks_selection:
  assumes "pool_wf s" "areAllAccountsOverSoftQuota (sq_family q) (sq_threshold q) (sq_ttl q) (sq_model q) None now s"
    and "sq_exclude q = {}"
  shows "fst (getCurrentOrNextForFamily q now s) = None"
proof (rule ccontr)
  assume "fst (getCurrentOrNextForFamily q now s) \<noteq> None"
  then obtain a where a: "a \<in> set (s_accounts s)" "usable q now s a"
    using getCurrentOrNext_choice(1) [OF assms(1), of q now] by (auto simp: sound_choice_def)
  have w: "wait_candidates None s = getEligibleAccounts {} s"
    by (simp add: wait_candidates_def getEligibleAccounts_def)
  have "1 < length (getEligibleAccounts {} s)"
    and over: "list_all (\<lambda>a. isOverSoftQuotaThreshold (row_at s a) (sq_family q) (sq_threshold q) (sq_ttl q) now (sq_model q))
       (getEligibleAccounts {} s)"
    using assms(2) by (auto simp: areAllAccountsOverSoftQuota_def Let_def w split: if_splits)
  then have e: "getEffectiveSoftQuotaThreshold (sq_threshold q) (sq_exclude q) s = sq_threshold q"
    using assms(3) by (simp add: getEffectiveSoftQuotaThreshold_def)
  have "a \<in> set (getEligibleAccounts {} s)"
    using a by (simp add: getEligibleAccounts_def usable_def available_def Let_def)
  then show False using over a(2) by (simp add: usable_def available_def Let_def e list_all_iff)
qed

lemma softQuota_wait_zero_iff:
  assumes "thr < 100"
  shows "getMinWaitTimeForSoftQuota dp fam thr ttl model e now s = Some 0 \<longleftrightarrow>
     wait_candidates e s \<noteq> [] \<and> \<not> areAllAccountsOverSoftQuota fam thr ttl model e now s"
proof -
  let ?c = "wait_candidates e s"
  consider "?c = []" | "length ?c = 1" | "1 < length ?c" by (cases ?c rule: list.exhaust; cases "tl ?c") auto
  then show ?thesis
  proof cases
    case 3
    then have "?c \<noteq> []" "length ?c \<noteq> 1" "\<not> length ?c \<le> 1" by auto
    then show ?thesis using assms
      by (auto simp: getMinWaitTimeForSoftQuota_def areAllAccountsOverSoftQuota_def Let_def
          filter_empty_conv list_all_iff)
  qed (use assms in \<open>auto simp: getMinWaitTimeForSoftQuota_def areAllAccountsOverSoftQuota_def Let_def\<close>)
qed

lemma softQuota_wait_value:
  assumes "getMinWaitTimeForSoftQuota dp fam thr ttl model e now s = Some w" "w \<noteq> 0"
  shows "0 < w" "areAllAccountsOverSoftQuota fam thr ttl model e now s"
    "\<exists>a \<in> set (wait_candidates e s). soft_reset dp fam model (row_at s a) = Some (now + w)"
    "\<And>a t. a \<in> set (wait_candidates e s) \<Longrightarrow> soft_reset dp fam model (row_at s a) = Some t \<Longrightarrow> now + w \<le> t"
proof -
  let ?c = "wait_candidates e s"
  let ?ws = "List.map_filter (\<lambda>a. map_option (\<lambda>t. max 0 (t - now)) (soft_reset dp fam model (row_at s a))) ?c"
  have *: "\<not> 100 \<le> thr" "?c \<noteq> []" "length ?c \<noteq> 1" "\<forall>a \<in> set ?c. isOverSoftQuotaThreshold (row_at s a) fam thr ttl now model"
    "?ws \<noteq> []" "w = min_list_of ?ws" "min_list_of ?ws \<noteq> 0"
    using assms by (auto simp: getMinWaitTimeForSoftQuota_def Let_def filter_empty_conv split: if_splits)
  have ws: "set ?ws = {max 0 (t - now) |a t. a \<in> set ?c \<and> soft_reset dp fam model (row_at s a) = Some t}"
    by (auto simp: set_map_filter_conv)
  have "w \<in> set ?ws" using min_list_of_in [OF *(5)] *(6) by simp
  then obtain a t where a: "a \<in> set ?c" "soft_reset dp fam model (row_at s a) = Some t" "w = max 0 (t - now)"
    unfolding ws by blast
  show "0 < w" using a(3) assms(2) by (auto simp: max_def split: if_splits)
  then have "now + w = t" using a(3) by (auto simp: max_def split: if_splits)
  then show "\<exists>a \<in> set ?c. soft_reset dp fam model (row_at s a) = Some (now + w)"
    using a(1,2) by auto
  have "1 < length ?c" using *(2,3) by (cases ?c; cases "tl ?c") auto
  then show "areAllAccountsOverSoftQuota fam thr ttl model e now s"
    using *(1,4) by (simp add: areAllAccountsOverSoftQuota_def Let_def list_all_iff)
  show "now + w \<le> t" if "a \<in> set ?c" "soft_reset dp fam model (row_at s a) = Some t" for a t
  proof -
    have "max 0 (t - now) \<in> set ?ws" unfolding ws using that by blast
    then have "w \<le> max 0 (t - now)" using min_list_of_le *(6) by simp
    then show ?thesis using \<open>0 < w\<close> by (auto simp: max_def split: if_splits)
  qed
qed

end
