(* ===== verification/Selector_Machine.thy ===== *)
theory Selector_Machine
  imports Selector_View Selector_Waits
begin

text \<open>
  The selector as a state machine: one step per public operation that changes state, with
  the arguments the callers may pass, and the invariants of every reachable selector. The
  operations other than membership changes are shown to keep the pool array and the row
  indexes (\<open>keeps\<close>); membership changes are covered by \<open>Selector_View\<close>.
\<close>

section \<open>Operations that keep the pool\<close>

definition keeps :: "AccountSelector \<Rightarrow> AccountSelector \<Rightarrow> bool" where
  "keeps s s' \<longleftrightarrow> pool_kept s s'
     \<and> (sessions_ok (s_requestSessionStates s) \<longrightarrow> sessions_ok (s_requestSessionStates s'))
     \<and> (jm_wf (s_sessionRequestCounts s) \<longrightarrow> jm_wf (s_sessionRequestCounts s'))
     \<and> s_health s' = s_health s \<and> s_tokens s' = s_tokens s"

named_theorems keeps_intros \<open>chaining rules: keeps s t implies keeps s (op t)\<close>

lemma keeps_refl [keeps_intros]: "keeps s s"
  by (simp add: keeps_def)

lemma keeps_trans: "keeps s t \<Longrightarrow> keeps t u \<Longrightarrow> keeps s u"
  unfolding keeps_def using pool_kept_trans by simp blast

text \<open>The sessions' identities the callers pass have a non-empty id.\<close>

definition id_ok :: "AccountSessionIdentity option \<Rightarrow> bool" where
  "id_ok identity = (case identity of None \<Rightarrow> True | Some i \<Rightarrow> si_id i \<noteq> [])"

lemma calm_keeps: "calm now s s' \<Longrightarrow> keeps s s'"
  unfolding keeps_def
  using calm_fields(6,7,8,11) [of now s s'] same_rows_kept [OF calm_same_rows [of now s s']] by simp

lemma calm_chain: "keeps s t \<Longrightarrow> calm now t u \<Longrightarrow> keeps s u"
  by (rule keeps_trans [OF _ calm_keeps])

lemma calm_filter_st:
  assumes "\<And>a s. calm now s (snd (f a s))"
  shows "calm now s (snd (filter_st f xs s))"
proof (induction xs arbitrary: s)
  case Nil
  then show ?case by simp
next
  case (Cons x xs)
  then show ?case using calm_trans [OF assms Cons.IH] by (simp add: split_beta)
qed

lemma calm_map_st:
  assumes "\<And>a s. calm now s (snd (f a s))"
  shows "calm now s (snd (map_st f xs s))"
proof (induction xs arbitrary: s)
  case Nil
  then show ?case by simp
next
  case (Cons x xs)
  then show ?case using calm_trans [OF assms Cons.IH] by (simp add: split_beta)
qed

lemma keeps_upd [keeps_intros]:
  assumes "keeps s t" "\<And>r. r_index (f r) = r_index r" "\<And>r. row_wf r \<Longrightarrow> row_wf (f r)"
  shows "keeps s (upd_row a f t)"
  by (rule keeps_trans [OF assms(1)]) (simp add: keeps_def pool_kept_upd assms(2,3))

lemma keeps_report [keeps_intros]: "keeps s t \<Longrightarrow> keeps s (report_loaded m e a t)"
  by (simp add: keeps_def pool_kept_report)

lemma keeps_emit [keeps_intros]: "keeps s t \<Longrightarrow> keeps s (emit m e t)"
  by (simp add: keeps_def pool_kept_emit)

lemma keeps_isLoaded [keeps_intros]: "keeps s t \<Longrightarrow> keeps s (snd (isLoaded a l t))"
  by (rule calm_chain [OF _ calm_isLoaded [where now = 0]])

lemma keeps_clearExpired [keeps_intros]: "keeps s t \<Longrightarrow> keeps s (clearExpiredRateLimits a now t)"
  by (rule calm_chain [OF _ calm_clearExpired])

lemma keeps_isRateLimited [keeps_intros]: "keeps s t \<Longrightarrow> keeps s (snd (isRateLimitedForFamily a fam now model t))"
  by (rule calm_chain [OF _ calm_isRateLimited])

lemma keeps_isCooling [keeps_intros]: "keeps s t \<Longrightarrow> keeps s (snd (isAccountCoolingDown a now t))"
  by (rule calm_chain [OF _ calm_isAccountCoolingDown])

lemma keeps_clearCooldown [keeps_intros]: "keeps s t \<Longrightarrow> keeps s (clearAccountCooldown a t)"
  unfolding clearAccountCooldown_def Let_def
  by (auto intro!: keeps_intros simp: row_wf_def)

section \<open>Sessions\<close>

lemma keeps_getSession [keeps_intros]:
  assumes "keeps s t" "si_id i \<noteq> []"
  shows "keeps s (snd (getRequestSessionState i now t))"
proof (rule keeps_trans [OF assms(1)])
  have "s_sessionRequestCounts (snd (getRequestSessionState i now t)) = s_sessionRequestCounts t"
    by (simp add: getRequestSessionState_def put_session_def Let_def split: option.split)
  then show "keeps t (snd (getRequestSessionState i now t))"
    using getRequestSessionState_ok [OF _ assms(2), of t now]
    by (simp add: keeps_def pool_kept_heap)
qed

text \<open>Writing back a session that is in the store.\<close>

lemma keeps_put_session:
  assumes "keeps s t" "jm_has (s_requestSessionStates t) i"
  shows "keeps s (put_session i st t)"
proof (rule keeps_trans [OF assms(1)])
  have "i \<in> fst ` set (s_requestSessionStates t)" using assms(2) by (simp add: jm_has_iff)
  moreover have "s_sessionRequestCounts (put_session i st t) = s_sessionRequestCounts t"
    by (simp add: put_session_def)
  ultimately show "keeps t (put_session i st t)"
    using assms(2)
    by (auto simp: keeps_def pool_kept_heap sessions_ok_def length_update dom_update)
qed

lemma session_present: "jm_has (s_requestSessionStates (snd (getRequestSessionState i now s))) (si_id i)"
  by (simp add: getRequestSessionState_sessions jm_has_def update_conv)

lemma keeps_global [keeps_intros]: "keeps s t \<Longrightarrow> keeps s (setGlobalActiveIndex fam k t)"
proof (erule keeps_trans)
  have "setGlobalActiveIndex fam k t = t \<or>
    (\<exists>e. setGlobalActiveIndex fam k t = emit SelectionM e (t\<lparr>s_current := (s_current t)(fam := k)\<rparr>))"
    by (auto simp: setGlobalActiveIndex_def)
  then show "keeps t (setGlobalActiveIndex fam k t)"
    by (auto simp: keeps_def pool_kept_def emit_def)
qed

lemma keeps_getActive [keeps_intros]:
  "keeps s t \<Longrightarrow> id_ok identity \<Longrightarrow> keeps s (snd (getActiveIndex fam identity now t))"
  by (auto simp: getActiveIndex_def id_ok_def split_beta Let_def intro: keeps_intros split: option.splits)

lemma keeps_setActive [keeps_intros]:
  assumes "keeps s t" "id_ok identity"
  shows "keeps s (setActiveIndex fam k identity now t)"
proof (cases identity)
  case None
  then show ?thesis using assms by (simp add: setActiveIndex_def keeps_global)
next
  case (Some i)
  have "keeps s (put_session (si_id i) st (snd (getRequestSessionState i now t)))" for st
    using assms Some by (intro keeps_put_session session_present keeps_getSession) (simp_all add: id_ok_def)
  then show ?thesis using Some by (simp add: setActiveIndex_def split_beta Let_def keeps_global)
qed

lemma keeps_getCursor [keeps_intros]:
  "keeps s t \<Longrightarrow> id_ok identity \<Longrightarrow> keeps s (snd (getCursor fam identity now t))"
  by (auto simp: getCursor_def id_ok_def split_beta Let_def intro: keeps_intros split: option.splits)

lemma keeps_cursor_update [keeps_intros]: "keeps s t \<Longrightarrow> keeps s (t\<lparr>s_cursor := c\<rparr>)"
  by (erule keeps_trans) (simp add: keeps_def pool_kept_def)

lemma keeps_advance [keeps_intros]:
  assumes "keeps s t" "id_ok identity"
  shows "keeps s (advanceCursor fam identity now t)"
  using assms
  by (auto simp: advanceCursor_def id_ok_def split_beta Let_def
      intro!: keeps_put_session session_present keeps_getSession keeps_cursor_update split: option.splits)

lemma keeps_getUsed [keeps_intros]:
  "keeps s t \<Longrightarrow> id_ok identity \<Longrightarrow> keeps s (snd (getUsedAccounts identity now t))"
  by (auto simp: getUsedAccounts_def id_ok_def split_beta Let_def intro: keeps_intros split: option.splits)

lemma keeps_recordUsage [keeps_intros]:
  assumes "keeps s t" "id_ok identity"
  shows "keeps s (recordSessionUsage k identity now t)"
proof (cases identity)
  case None
  have "keeps t (t\<lparr>s_sessionUsedAccounts := u\<rparr>)" for u by (simp add: keeps_def pool_kept_def)
  then show ?thesis using None keeps_trans [OF assms(1)] by (simp add: recordSessionUsage_def)
next
  case (Some i)
  then show ?thesis using assms
    by (auto simp: recordSessionUsage_def id_ok_def split_beta Let_def
        intro!: keeps_put_session session_present keeps_getSession)
qed

lemma keeps_prefer [keeps_intros]:
  "keeps s t \<Longrightarrow> id_ok identity \<Longrightarrow> keeps s (snd (preferAccountOutsideParent xs fam identity now t))"
  by (auto simp: preferAccountOutsideParent_def id_ok_def split_beta Let_def intro: keeps_intros split: option.splits)

lemma keeps_current [keeps_intros]:
  "keeps s t \<Longrightarrow> id_ok identity \<Longrightarrow> keeps s (snd (getCurrentAccountForFamily fam identity now t))"
  using keeps_getActive [of s t identity fam now]
  by (auto simp: getCurrentAccountForFamily_def split_beta Let_def split: option.splits)

lemma keeps_markSwitched [keeps_intros]:
  "keeps s t \<Longrightarrow> id_ok identity \<Longrightarrow> keeps s (markSwitched a reason fam identity now t)"
  unfolding markSwitched_def Let_def split_beta
  by (auto intro!: keeps_intros simp: row_wf_def)

lemma keeps_toast [keeps_intros]: "keeps s t \<Longrightarrow> keeps s (markToastShown k now t)"
  by (erule keeps_trans) (simp add: markToastShown_def keeps_def pool_kept_def)

lemma keeps_deleteSession [keeps_intros]:
  assumes "keeps s t"
  shows "keeps s (deleteSessionState i t)"
proof (rule keeps_trans [OF assms])
  show "keeps t (deleteSessionState i t)"
    using set_delete_subset [of i "s_requestSessionStates t"] length_delete_le [of i "s_requestSessionStates t"]
    by (auto simp: deleteSessionState_def keeps_def pool_kept_def sessions_ok_def)
qed

section \<open>Selection\<close>

lemma keeps_touch [keeps_intros]: "keeps s t \<Longrightarrow> keeps s (touchLastUsed a now t)"
  unfolding touchLastUsed_def by (auto intro!: keeps_intros simp: row_wf_def)

lemma keeps_markTouched [keeps_intros]: "keeps s t \<Longrightarrow> keeps s (markTouchedForQuota a k now t)"
  unfolding markTouchedForQuota_def by (auto intro!: keeps_upd simp: row_wf_def)

lemma keeps_filter_next [keeps_intros]:
  "keeps s t \<Longrightarrow> keeps s (snd (filter_st (check_next fam model thr ttl excl now) xs t))"
  by (erule calm_chain) (rule calm_filter_st [OF check_next_calm])

lemma keeps_filter_sticky [keeps_intros]:
  "keeps s t \<Longrightarrow> keeps s (snd (filter_st (check_sticky fam model thr ttl excl now) xs t))"
  by (erule calm_chain) (rule calm_filter_st [OF check_sticky_calm])

lemma keeps_getNext [keeps_intros]:
  "keeps s t \<Longrightarrow> id_ok identity \<Longrightarrow> keeps s (snd (getNextForFamily fam model thr ttl identity excl now t))"
  unfolding getNextForFamily_def Let_def split_beta
  by (auto intro!: keeps_intros)

lemma keeps_select_next [keeps_intros]:
  "keeps s t \<Longrightarrow> id_ok (sq_identity q) \<Longrightarrow> keeps s (snd (select_next q eff now t))"
  unfolding select_next_def Let_def split_beta
  by (auto intro!: keeps_intros split: option.split)

lemma keeps_select_pinned [keeps_intros]:
  assumes "keeps s t" "id_ok (sq_identity q)"
  shows "keeps s (snd (select_pinned q eff now t))"
proof -
  have c: "keeps s (snd (getCurrentAccountForFamily (sq_family q) (sq_identity q) now t))"
    using assms by (intro keeps_intros)
  then show ?thesis
    unfolding select_pinned_def Let_def split_beta using assms(1)
    by (auto split: option.split intro!: keeps_markTouched keeps_isCooling keeps_isRateLimited keeps_clearExpired)
qed

lemma calm_hybrid_metrics: "calm now s (snd (hybrid_metrics q eff now a s))"
  unfolding hybrid_metrics_def Let_def split_beta snd_conv
  by (rule calm_trans [OF calm_trans [OF calm_clearExpired calm_isRateLimited] calm_isAccountCoolingDown])

lemma keeps_select_hybrid [keeps_intros]:
  assumes "keeps s t" "id_ok (sq_identity q)"
  shows "keeps s (snd (select_hybrid q eff now t))"
proof -
  have m: "keeps s (snd (map_st (hybrid_metrics q eff now) xs u))" if "keeps s u" for xs u
    using calm_chain [OF that calm_map_st [OF calm_hybrid_metrics]] .
  show ?thesis
    unfolding select_hybrid_def Let_def split_beta using assms
    by (auto split: option.split intro!: keeps_setActive keeps_markTouched keeps_touch keeps_getActive m keeps_prefer)
qed

lemma keeps_set_offset: "keeps s t \<Longrightarrow> keeps s (set_offset_applied fam identity t)"
proof (cases identity)
  case None
  assume "keeps s t"
  moreover have "keeps t (t\<lparr>s_offsetApplied := c\<rparr>)" for c by (simp add: keeps_def pool_kept_def)
  ultimately show ?thesis using None by (simp add: set_offset_applied_def) (rule keeps_trans)
next
  case (Some i)
  assume "keeps s t"
  then show ?thesis using Some
    by (auto simp: set_offset_applied_def jm_has_def intro!: keeps_put_session split: option.split)
qed

lemma keeps_pid_offset:
  assumes "keeps s t" "id_ok (sq_identity q)"
  shows "keeps s (apply_pid_offset q now t)"
proof -
  have f: "keeps s (snd (offset_flags (sq_identity q) now u))" if "keeps s u" for u
    using that assms(2) by (auto simp: offset_flags_def id_ok_def split_beta Let_def intro: keeps_intros split: option.split)
  show ?thesis
    unfolding apply_pid_offset_def Let_def split_beta using assms
    by (auto intro!: keeps_set_offset keeps_setActive keeps_emit keeps_getCursor keeps_getActive f)
qed

lemma keeps_select_sticky [keeps_intros]:
  assumes "keeps s t" "id_ok (sq_identity q)"
  shows "keeps s (snd (select_sticky q eff now t))"
proof -
  let ?c = "getCurrentAccountForFamily (sq_family q) (sq_identity q) now (apply_pid_offset q now t)"
  have "keeps s (snd ?c)" using assms by (intro keeps_current keeps_pid_offset)
  then have "keeps s (snd (filter_st (check_sticky (sq_family q) (sq_model q) eff (sq_ttl q) (sq_exclude q) now)
      (s_accounts (snd ?c)) (snd ?c)))"
    by (rule keeps_filter_sticky)
  then show ?thesis
    unfolding select_sticky_def Let_def split_beta using assms(2)
    by (auto split: option.split intro!: keeps_select_next keeps_markTouched keeps_isCooling keeps_isRateLimited
        keeps_clearExpired)
qed

lemma keeps_select [keeps_intros]:
  assumes "keeps s t" "id_ok (sq_identity q)"
  shows "keeps s (snd (getCurrentOrNextForFamily q now t))"
  unfolding getCurrentOrNextForFamily_def Let_def split_beta using assms
  by (auto split: option.split AccountSelectionStrategy.split
      intro!: keeps_select_sticky keeps_select_hybrid keeps_select_next keeps_select_pinned)

lemma calm_check_rotate: "calm now s (snd (check_rotate fam model thr ttl i now a s))"
  unfolding check_rotate_def Let_def split_beta
  by (auto intro: check_calm calm_trans [OF calm_clearExpired calm_isRateLimited]
      calm_trans [OF calm_trans [OF calm_clearExpired calm_isRateLimited] calm_isAccountCoolingDown])

lemma keeps_rotate [keeps_intros]:
  assumes "keeps s t" "id_ok identity"
  shows "keeps s (snd (proactivelyRotateForFamily fam model thr ttl identity now t))"
proof -
  have f: "keeps s (snd (filter_st (check_rotate fam model thr ttl i now) xs u))" if "keeps s u" for i xs u
    using calm_chain [OF that calm_filter_st [OF calm_check_rotate]] .
  show ?thesis
    unfolding proactivelyRotateForFamily_def Let_def split_beta using assms
    by (auto split: list.split intro!: keeps_setActive keeps_markTouched keeps_getUsed keeps_prefer keeps_getActive f)
qed

section \<open>Marks\<close>

lemma keeps_setRateLimit [keeps_intros]: "keeps s t \<Longrightarrow> keeps s (setRateLimit a k r t)"
  unfolding setRateLimit_def by (auto intro!: keeps_report keeps_upd simp: row_wf_def)

lemma keeps_clearRateLimit [keeps_intros]: "keeps s t \<Longrightarrow> keeps s (clearRateLimit a k t)"
  unfolding clearRateLimit_def by (auto intro!: keeps_report keeps_upd simp: row_wf_def)

lemma keeps_markUsed [keeps_intros]: "keeps s t \<Longrightarrow> keeps s (markAccountUsed i now t)"
  unfolding markAccountUsed_def by (auto intro: keeps_touch split: option.split)

lemma keeps_withReason [keeps_intros]:
  "keeps s t \<Longrightarrow> keeps s (snd (markRateLimitedWithReason a fam model reason ra ttl random now t))"
  unfolding markRateLimitedWithReason_def Let_def snd_conv
  by (auto intro!: keeps_setRateLimit keeps_upd simp: row_wf_def)

lemma keeps_success [keeps_intros]: "keeps s t \<Longrightarrow> keeps s (markRequestSuccess a t)"
  unfolding markRequestSuccess_def by (auto intro!: keeps_upd simp: row_wf_def split: option.split nat.split)

lemma keeps_clearAll [keeps_intros]: "keeps s t \<Longrightarrow> keeps s (clearAllRateLimitsForFamily fam model t)"
proof -
  have "keeps s u \<Longrightarrow> keeps s (fold (\<lambda>a s. upd_row a (\<lambda>r. r\<lparr>r_consecutiveFailures := Some 0\<rparr>)
                   (clearRateLimit a (getQuotaKey fam model) s)) xs u)" for xs u
  proof (induction xs arbitrary: u)
    case Nil
    then show ?case by simp
  next
    case (Cons x xs)
    have "keeps s (upd_row x (\<lambda>r. r\<lparr>r_consecutiveFailures := Some 0\<rparr>) (clearRateLimit x (getQuotaKey fam model) u))"
      using Cons.prems by (auto intro!: keeps_upd keeps_clearRateLimit simp: row_wf_def)
    from Cons.IH [OF this] show ?case by simp
  qed
  then show "keeps s t \<Longrightarrow> keeps s (clearAllRateLimitsForFamily fam model t)"
    by (simp add: clearAllRateLimitsForFamily_def)
qed

lemma keeps_cooling [keeps_intros]: "keeps s t \<Longrightarrow> keeps s (markAccountCoolingDown a c reason now t)"
  unfolding markAccountCoolingDown_def by (auto intro!: keeps_report keeps_upd simp: row_wf_def)

lemma keeps_move_off [keeps_intros]: "keeps s t \<Longrightarrow> keeps s (move_selection_off i fam t)"
  unfolding move_selection_off_def Let_def by (auto intro: keeps_global)

lemma keeps_applyEnabled [keeps_intros]: "keeps s t \<Longrightarrow> keeps s (applyEnabled i e t)"
  unfolding applyEnabled_def Let_def
  by (auto intro!: keeps_move_off keeps_upd simp: row_wf_def split: option.split)

lemma keeps_setEnabled [keeps_intros]: "keeps s t \<Longrightarrow> keeps s (snd (setAccountEnabled i e t))"
  unfolding setAccountEnabled_def by (auto intro!: keeps_emit keeps_applyEnabled split: option.split)

lemma keeps_enabledInMemory [keeps_intros]: "keeps s t \<Longrightarrow> keeps s (setEnabledInMemory a e t)"
  unfolding setEnabledInMemory_def by (auto intro!: keeps_applyEnabled keeps_upd simp: row_wf_def)

lemma keeps_disable: "keeps s t \<Longrightarrow> keeps s (disable_if_enabled i a t)"
  unfolding disable_if_enabled_def by (auto intro: keeps_applyEnabled)

lemma block_fields [simp]:
  "r_index (block_verification reason url t r) = r_index r"
  "row_wf (block_verification reason url t r) = row_wf r"
  "r_index (block_ineligible reason t r) = r_index r" "row_wf (block_ineligible reason t r) = row_wf r"
  "r_index (clear_blocks t r) = r_index r" "row_wf (clear_blocks t r) = row_wf r"
  "r_enabled (block_verification reason url t r) = r_enabled r"
  "r_enabled (block_ineligible reason t r) = r_enabled r" "r_enabled (clear_blocks t r) = r_enabled r"
  by (simp_all add: block_verification_def block_ineligible_def clear_blocks_def row_wf_def Let_def)

lemma keeps_markVerification [keeps_intros]:
  "keeps s t \<Longrightarrow> keeps s (snd (markAccountVerificationRequired i reason url now t))"
  unfolding markAccountVerificationRequired_def Let_def
  by (auto intro!: keeps_emit keeps_disable keeps_upd split: option.split)

lemma keeps_markIneligible [keeps_intros]:
  "keeps s t \<Longrightarrow> keeps s (snd (markAccountIneligible i reason now t))"
  unfolding markAccountIneligible_def Let_def
  by (auto intro!: keeps_emit keeps_disable keeps_upd split: option.split)

lemma keeps_clearBlocks [keeps_intros]:
  "keeps s t \<Longrightarrow> keeps s (snd (clearAccountAccessBlocks i e now t))"
  unfolding clearAccountAccessBlocks_def Let_def
  by (auto intro!: keeps_emit keeps_applyEnabled keeps_upd split: option.split)

lemma push_history_fields [simp]:
  "r_index (push_history reason now r) = r_index r"
  "r_rateLimitResetTimes (push_history reason now r) = r_rateLimitResetTimes r"
  by (simp_all add: push_history_def Let_def split: option.split)

lemma keeps_regenerate [keeps_intros]: "keeps s t \<Longrightarrow> keeps s (snd (regenerateAccountFingerprint i fresh now t))"
  unfolding regenerateAccountFingerprint_def
  by (auto intro!: keeps_emit keeps_upd simp: row_wf_def split: option.split)

lemma keeps_restore [keeps_intros]: "keeps s t \<Longrightarrow> keeps s (snd (restoreAccountFingerprint i h now t))"
  unfolding restoreAccountFingerprint_def Let_def
  by (auto intro!: keeps_emit keeps_upd simp: row_wf_def split: option.split)

lemma keeps_sessionRequest [keeps_intros]: "keeps s t \<Longrightarrow> keeps s (recordSessionRequest i fam t)"
  by (erule keeps_trans) (simp add: recordSessionRequest_def Let_def keeps_def pool_kept_def)

lemma keeps_recordRequest [keeps_intros]: "keeps s t \<Longrightarrow> keeps s (recordRequest i fam now t)"
  unfolding recordRequest_def
  by (auto intro!: keeps_sessionRequest keeps_emit keeps_upd simp: count_request_def row_wf_def split: option.split)

section \<open>The machine\<close>

text \<open>
  One step per public operation of the class that changes state (the reading operations only
  drop expired entries, as the checks in these do). \<open>now\<close>, \<open>random\<close>, the backoff reason and
  the fresh fingerprints are whatever the environment gives.
\<close>

inductive sel_step :: "AccountSelector \<Rightarrow> AccountSelector \<Rightarrow> bool" where
  select: "id_ok (sq_identity q) \<Longrightarrow> sel_step s (snd (getCurrentOrNextForFamily q now s))"
| next_row: "id_ok identity \<Longrightarrow> sel_step s (snd (getNextForFamily fam model thr ttl identity excl now s))"
| rotate: "id_ok identity \<Longrightarrow> sel_step s (snd (proactivelyRotateForFamily fam model thr ttl identity now s))"
| switched: "id_ok identity \<Longrightarrow> sel_step s (markSwitched a reason fam identity now s)"
| usage: "id_ok identity \<Longrightarrow> sel_step s (recordSessionUsage i identity now s)"
| end_session: "sel_step s (deleteSessionState i s)"
| toast: "sel_step s (markToastShown i now s)"
| limited: "sel_step s (markRateLimited a ra fam model now s)"
| limited_reason: "sel_step s (snd (markRateLimitedWithReason a fam model reason ra2 ttl random now s))"
| success: "sel_step s (markRequestSuccess a s)"
| used: "sel_step s (markAccountUsed i now s)"
| clear_limits: "sel_step s (clearAllRateLimitsForFamily fam model s)"
| cool: "sel_step s (markAccountCoolingDown a c creason now s)"
| uncool: "sel_step s (clearAccountCooldown a s)"
| touched: "sel_step s (markTouchedForQuota a k now s)"
| enabled: "sel_step s (snd (setAccountEnabled i e s))"
| enabled_memory: "sel_step s (setEnabledInMemory a e s)"
| verification: "sel_step s (snd (markAccountVerificationRequired i why url now s))"
| ineligible: "sel_step s (snd (markAccountIneligible i why now s))"
| clear_blocks: "sel_step s (snd (clearAccountAccessBlocks i e now s))"
| regenerate: "sel_step s (snd (regenerateAccountFingerprint i fresh now s))"
| restore: "sel_step s (snd (restoreAccountFingerprint i h now s))"
| request: "sel_step s (recordRequest i fam now s)"
| replace: "distinct next \<Longrightarrow> set next \<inter> set (s_accounts s) = {} \<Longrightarrow>
    sel_step s (snd (replaceAccounts next (keyOf :: addr \<Rightarrow> row \<Rightarrow> string option) None fallback s))"
| remove: "sel_step s (snd (removeAccount a s))"

text \<open>A fresh selector after its initial load.\<close>

definition loaded :: "AccountSelector \<Rightarrow> bool" where
  "loaded s \<longleftrightarrow> pool_wf s \<and> s_requestSessionStates s = [] \<and> s_sessionRequestCounts s = []
     \<and> ht_wf (s_health s) \<and> tt_wf (s_tokens s)"

inductive sel_reach :: "AccountSelector \<Rightarrow> bool" where
  start: "loaded s \<Longrightarrow> sel_reach s"
| step: "sel_reach s \<Longrightarrow> sel_step s s' \<Longrightarrow> sel_reach s'"

definition selector_inv :: "AccountSelector \<Rightarrow> bool" where
  "selector_inv s \<longleftrightarrow> selector_wf s \<and> sessions_ok (s_requestSessionStates s)"

lemma keeps_inv: "keeps s s' \<Longrightarrow> selector_inv s \<Longrightarrow> selector_inv s'"
  using pool_kept_wf by (auto simp: keeps_def selector_inv_def selector_wf_def sessions_ok_def)

lemma sessions_ok_map [simp]: "sessions_ok (map_sessions f m) = sessions_ok m"
proof -
  have "fst ` set (map_sessions f m) = fst ` set m" by (metis list.set_map map_sessions_keys)
  moreover have "length (map_sessions f m) = length m" by (simp add: map_sessions_def)
  ultimately show ?thesis by (simp add: sessions_ok_def)
qed

lemma reconcile_sessions_ok:
  "sessions_ok (s_requestSessionStates (snd (reconcile next keyOf refresh fallback s)))
     = sessions_ok (s_requestSessionStates s)"
proof -
  obtain pr B moved added s1 where m:
    "match_rows keyOf refresh next (previous_by_key keyOf s, [], [], [], s) = (pr, B, moved, added, s1)"
    by (metis prod_cases5)
  have "s_requestSessionStates s1 = s_requestSessionStates s"
    by (subst match_rows_frame [OF m, symmetric]) simp
  then show ?thesis by (simp add: reconcile_def m Let_def)
qed

lemma replace_inv:
  assumes "selector_inv s" "distinct next" "set next \<inter> set (s_accounts s) = {}"
  shows "selector_inv (snd (replaceAccounts next keyOf None fallback s))"
  using assms row_copy.reconcile_refines(1) [OF _ next_ok_load [OF assms(2,3)], of keyOf]
  by (simp add: selector_inv_def replaceAccounts_def reconcile_sessions_ok)

lemma remove_inv:
  assumes "selector_inv s"
  shows "selector_inv (snd (removeAccount a s))"
proof (cases "a \<in> set (s_accounts s)")
  case False
  then show ?thesis using assms by (simp add: removeAccount_absent)
next
  case True
  then obtain k where k: "index_of (s_accounts s) a = Some k" using index_of_None by fastforce
  have "sessions_ok (s_requestSessionStates (removal_core a s))"
    using assms by (simp add: removal_core_def reconcile_sessions_ok selector_inv_def)
  then have "sessions_ok (s_requestSessionStates (snd (removeAccount a s)))"
    by (simp add: removeAccount_present [OF k] Let_def) (simp add: sessions_ok_def)
  then show ?thesis using assms removeAccount_facts(3) [OF _ True] by (simp add: selector_inv_def)
qed

lemma sel_step_inv:
  assumes "sel_step s s'" "selector_inv s"
  shows "selector_inv s'"
  using assms
proof (induction rule: sel_step.induct)
  case (replace "next" s keyOf fallback)
  then show ?case using replace_inv by blast
next
  case (remove s a)
  then show ?case using remove_inv by blast
qed (auto elim!: keeps_inv [rotated] intro!: keeps_intros simp: row_wf_def markRateLimited_def)

lemma sel_reach_inv: "sel_reach s \<Longrightarrow> selector_inv s"
proof (induction rule: sel_reach.induct)
  case (start s)
  then show ?case by (simp add: loaded_def selector_inv_def selector_wf_def sessions_ok_def)
next
  case (step s s')
  then show ?case using sel_step_inv by blast
qed

end
