(* ===== verification/Selector_Verdicts.thy ===== *)
theory Selector_Verdicts
  imports Selector_Machine
begin

text \<open>
  What the transitions on a row mean for selection: a disabled or blocked row is no longer
  selected and never returned, a cleared one is back, a transition about a row that left
  changes nothing of the pool; and the bookkeeping of fingerprints and request counts.
\<close>

section \<open>Disabling\<close>

lemma find_enumerate:
  "find (\<lambda>(j, a). P j a) (enumerate n xs) = Some (k, b) \<Longrightarrow> n \<le> k \<and> k < n + length xs \<and> xs ! (k - n) = b \<and> P k b"
proof -
  assume "find (\<lambda>(j, a). P j a) (enumerate n xs) = Some (k, b)"
  then have "(k, b) \<in> set (enumerate n xs)" "P k b" using find_Some_member by fastforce+
  then show "n \<le> k \<and> k < n + length xs \<and> xs ! (k - n) = b \<and> P k b"
    by (simp add: in_set_enumerate_eq)
qed

lemma setGlobal_current [simp]:
  "s_current (setGlobalActiveIndex fam k s) = (s_current s)(fam := k)"
  by (auto simp: setGlobalActiveIndex_def)

lemma move_selection_off_current:
  assumes wf: "pool_wf s" and i: "0 \<le> i"
  shows "s_current (move_selection_off i fam s) fam \<noteq> i"
    and "fam' \<noteq> fam \<Longrightarrow> s_current (move_selection_off i fam s) fam' = s_current s fam'"
proof -
  let ?n = "find (\<lambda>(j, a). int j \<noteq> i \<and> r_enabled (row_at s a)) (enumerate 0 (s_accounts s))"
  have "nullish (map_option (\<lambda>(_, a). r_index (row_at s a)) ?n) (-1) \<noteq> i"
  proof (cases ?n)
    case None
    then show ?thesis using i by simp
  next
    case (Some p)
    obtain k b where p: "p = (k, b)" by fastforce
    from find_enumerate [where P = "\<lambda>j a. int j \<noteq> i \<and> r_enabled (row_at s a)", OF Some [unfolded p]]
    have "k < length (s_accounts s)" "s_accounts s ! k = b" "int k \<noteq> i" by auto
    moreover from this have "r_index (row_at s b) = int k" using wf by (auto simp: pool_wf_def)
    ultimately show ?thesis unfolding Some p by simp
  qed
  then show "s_current (move_selection_off i fam s) fam \<noteq> i"
    by (simp add: move_selection_off_def Let_def)
  show "fam' \<noteq> fam \<Longrightarrow> s_current (move_selection_off i fam s) fam' = s_current s fam'"
    by (simp add: move_selection_off_def Let_def)
qed

lemma move_off_rows [simp]:
  "s_heap (move_selection_off i fam s) = s_heap s" "s_accounts (move_selection_off i fam s) = s_accounts s"
  by (simp_all add: move_selection_off_def Let_def)

lemma applyEnabled_row:
  assumes "nth_opt (s_accounts s) i = Some a"
  shows "row_at (applyEnabled i e s) b =
     (if b = a then (row_at s a)\<lparr>r_enabled := e\<rparr> else row_at s b)"
    and "s_accounts (applyEnabled i e s) = s_accounts s"
  using assms by (simp_all add: applyEnabled_def Let_def)

lemma applyEnabled_off:
  assumes wf: "pool_wf s" and a: "nth_opt (s_accounts s) i = Some a"
  shows "s_current (applyEnabled i False s) fam \<noteq> i"
proof -
  let ?s1 = "upd_row a (\<lambda>r. r\<lparr>r_enabled := False\<rparr>) s"
  have i: "0 \<le> i" using a by (simp add: nth_opt_Some_iff)
  have wf1: "pool_wf ?s1" using pool_kept_wf [OF pool_kept_upd wf] by (simp add: row_wf_def)
  then have wf2: "pool_wf (move_selection_off i Claude ?s1)" by (simp add: pool_wf_def)
  have "s_current (move_selection_off i Gemini (move_selection_off i Claude ?s1)) fam \<noteq> i"
    using move_selection_off_current(1) [OF wf1 i, of Claude] move_selection_off_current(1) [OF wf2 i, of Gemini]
      move_selection_off_current(2) [OF wf2 i, of Claude Gemini]
    by (cases fam) simp_all
  then show ?thesis using a by (simp add: applyEnabled_def Let_def)
qed

section \<open>Blocked rows\<close>

lemma emit_row [simp]: "row_at (emit m e s) a = row_at s a"
  by simp

text \<open>A row that fails the eligibility flags is never returned.\<close>

lemma ineligible_never_selected:
  assumes "pool_wf s" "\<not> eligible_flags (row_at s a)"
  shows "fst (getCurrentOrNextForFamily q now s) \<noteq> Some a"
  using getCurrentOrNext_choice(1) [OF assms(1), of q now] assms(2)
  by (auto simp: sound_choice_def usable_def available_def Let_def)

lemma disable_if_enabled_row:
  assumes "nth_opt (s_accounts s) i = Some a"
  shows "row_at (disable_if_enabled i a s) b =
     (if b = a then (row_at s a)\<lparr>r_enabled := False\<rparr> else row_at s b)"
  using assms by (auto simp: disable_if_enabled_def applyEnabled_row)

lemma markIneligible_effect:
  fixes s i a reason now
  assumes wf: "pool_wf s" and a: "nth_opt (s_accounts s) i = Some a"
  defines "s' \<equiv> snd (markAccountIneligible i reason now s)"
  shows "fst (markAccountIneligible i reason now s)"
    and "row_at s' b = (if b = a then (block_ineligible reason now (row_at s a))\<lparr>r_enabled := False\<rparr> else row_at s b)"
    and "r_enabled (row_at s a) \<Longrightarrow> s_current s' fam \<noteq> i"
proof -
  let ?s1 = "upd_row a (block_ineligible reason now) s"
  have wf1: "pool_wf ?s1" using pool_kept_wf [OF pool_kept_upd wf] by simp
  have a1: "nth_opt (s_accounts ?s1) i = Some a" using a by simp
  show "fst (markAccountIneligible i reason now s)" using a by (simp add: markAccountIneligible_def Let_def)
  show "row_at s' b = (if b = a then (block_ineligible reason now (row_at s a))\<lparr>r_enabled := False\<rparr> else row_at s b)"
    using a disable_if_enabled_row [OF a1] by (simp add: s'_def markAccountIneligible_def Let_def)
  show "s_current s' fam \<noteq> i" if "r_enabled (row_at s a)"
    using a that applyEnabled_off [OF wf1 a1]
    by (simp add: s'_def markAccountIneligible_def Let_def disable_if_enabled_def)
qed

lemma markVerification_effect:
  fixes s i a reason url now
  assumes wf: "pool_wf s" and a: "nth_opt (s_accounts s) i = Some a"
  defines "s' \<equiv> snd (markAccountVerificationRequired i reason url now s)"
  shows "fst (markAccountVerificationRequired i reason url now s)"
    and "row_at s' b = (if b = a then (block_verification reason url now (row_at s a))\<lparr>r_enabled := False\<rparr> else row_at s b)"
    and "r_enabled (row_at s a) \<Longrightarrow> s_current s' fam \<noteq> i"
proof -
  let ?s1 = "upd_row a (block_verification reason url now) s"
  have wf1: "pool_wf ?s1" using pool_kept_wf [OF pool_kept_upd wf] by simp
  have a1: "nth_opt (s_accounts ?s1) i = Some a" using a by simp
  show "fst (markAccountVerificationRequired i reason url now s)"
    using a by (simp add: markAccountVerificationRequired_def Let_def)
  show "row_at s' b = (if b = a then (block_verification reason url now (row_at s a))\<lparr>r_enabled := False\<rparr> else row_at s b)"
    using a disable_if_enabled_row [OF a1] by (simp add: s'_def markAccountVerificationRequired_def Let_def)
  show "s_current s' fam \<noteq> i" if "r_enabled (row_at s a)"
    using a that applyEnabled_off [OF wf1 a1]
    by (simp add: s'_def markAccountVerificationRequired_def Let_def disable_if_enabled_def)
qed

definition verdicts_exclusive :: "row \<Rightarrow> bool" where
  "verdicts_exclusive r = (\<not> (r_verificationRequired r = Some True \<and> r_accountIneligible r = Some True))"

lemma verdicts_exclusive_marks:
  "verdicts_exclusive (block_ineligible reason now r)" "verdicts_exclusive (block_verification reason url now r)"
  "verdicts_exclusive (clear_blocks now r)"
  by (auto simp: verdicts_exclusive_def block_ineligible_def block_verification_def clear_blocks_def Let_def)

lemma clearBlocks_effect:
  fixes s i a enable now
  assumes a: "nth_opt (s_accounts s) i = Some a"
  defines "s' \<equiv> snd (clearAccountAccessBlocks i enable now s)"
  defines "blocked \<equiv> r_verificationRequired (row_at s a) = Some True \<or> r_accountIneligible (row_at s a) = Some True"
  shows "row_at s' b = (if b = a then (clear_blocks now (row_at s a))\<lparr>r_enabled := r_enabled (row_at s a) \<or> enable \<and> blocked\<rparr>
                        else row_at s b)"
proof -
  have a1: "nth_opt (s_accounts (upd_row a (clear_blocks now) s)) i = Some a" using a by simp
  have e: "(clear_blocks now (row_at s a))\<lparr>r_enabled := r_enabled (row_at s a)\<rparr> = clear_blocks now (row_at s a)"
    by (simp add: clear_blocks_def)
  show ?thesis
    using a applyEnabled_row(1) [OF a1, of True] e
    by (auto simp: s'_def clearAccountAccessBlocks_def Let_def blocked_def)
qed

section \<open>Rows that left\<close>

text \<open>Only the row itself and the log of reports differ.\<close>

definition only_row :: "addr \<Rightarrow> AccountSelector \<Rightarrow> AccountSelector \<Rightarrow> bool" where
  "only_row a s s' \<longleftrightarrow> (\<forall>b. b \<noteq> a \<longrightarrow> row_at s' b = row_at s b)
     \<and> s'\<lparr>s_heap := s_heap s, s_events := s_events s\<rparr> = s"

definition stale_report :: "addr \<Rightarrow> sel_event \<Rightarrow> bool" where
  "stale_report a e = (case e of EvStale b _ \<Rightarrow> b = a | EvDiagnostic _ \<Rightarrow> True | _ \<Rightarrow> False)"

definition ignored :: "addr \<Rightarrow> AccountSelector \<Rightarrow> AccountSelector \<Rightarrow> bool" where
  "ignored a s s' \<longleftrightarrow> only_row a s s'
     \<and> (\<exists>es. s_events s' = s_events s @ es \<and> list_all (stale_report a) es)"

lemma ignored_upd: "ignored a s (upd_row a f s)"
  by (simp add: ignored_def only_row_def) (simp add: upd_row_def)

lemma ignored_refl: "ignored a s s"
  by (simp add: ignored_def only_row_def)

lemma ignored_isLoaded:
  assumes "a \<notin> set (s_accounts t)" "ignored a s t"
  shows "fst (isLoaded a l t) = False" "ignored a s (snd (isLoaded a l t))"
proof -
  show "fst (isLoaded a l t) = False" using assms(1) by (simp add: isLoaded_def)
  obtain es where es: "s_events t = s_events s @ es" "list_all (stale_report a) es"
    using assms(2) by (auto simp: ignored_def)
  have e: "s_events (snd (isLoaded a l t)) = s_events t
      \<or> (\<exists>e. s_events (snd (isLoaded a l t)) = s_events t @ [e] \<and> stale_report a e)"
    using assms(1) by (auto simp: isLoaded_def emit_def stale_report_def)
  have o: "snd (isLoaded a l t) = t\<lparr>s_events := s_events (snd (isLoaded a l t))\<rparr>"
    by (simp add: isLoaded_def emit_def)
  have "only_row a s (snd (isLoaded a l t))"
    using assms(2) by (subst o) (simp add: ignored_def only_row_def)
  moreover have "\<exists>es'. s_events (snd (isLoaded a l t)) = s_events s @ es' \<and> list_all (stale_report a) es'"
    using e
  proof
    assume "s_events (snd (isLoaded a l t)) = s_events t"
    with es show ?thesis by auto
  next
    assume "\<exists>e. s_events (snd (isLoaded a l t)) = s_events t @ [e] \<and> stale_report a e"
    then obtain e where "s_events (snd (isLoaded a l t)) = s_events t @ [e]" "stale_report a e" by blast
    with es show ?thesis by (intro exI [of _ "es @ [e]"]) simp
  qed
  ultimately show "ignored a s (snd (isLoaded a l t))" by (simp add: ignored_def)
qed

lemma ignored_report:
  "a \<notin> set (s_accounts t) \<Longrightarrow> ignored a s t \<Longrightarrow> ignored a s (report_loaded m e a t)"
  using ignored_isLoaded [of a t s "''state change''"] by (simp add: report_loaded_def Let_def split_beta)

lemma ignored_transitions:
  assumes "a \<notin> set (s_accounts s)"
  shows "ignored a s (markRateLimited a ra fam model now s)"
    and "ignored a s (snd (markRateLimitedWithReason a fam model reason ra2 ttl random now s))"
    and "ignored a s (markAccountCoolingDown a c creason now s)"
    and "ignored a s (clearAccountCooldown a s)"
    and "ignored a s (touchLastUsed a now s)"
    and "ignored a s (markSwitched a sreason fam identity now s)"
    and "ignored a s (setEnabledInMemory a e s)"
    and "removeAccount a s = (False, s)"
proof -
  have u2: "upd_row a f (upd_row a g s) = upd_row a (f \<circ> g) s" for f g by (simp add: upd_row_def)
  show "ignored a s (markRateLimited a ra fam model now s)"
    using assms by (auto simp: markRateLimited_def setRateLimit_def intro!: ignored_report ignored_upd)
  show "ignored a s (snd (markRateLimitedWithReason a fam model reason ra2 ttl random now s))"
    using assms unfolding markRateLimitedWithReason_def Let_def snd_conv setRateLimit_def u2
    by (intro ignored_report ignored_upd) simp
  show "ignored a s (markAccountCoolingDown a c creason now s)"
    using assms by (auto simp: markAccountCoolingDown_def intro!: ignored_report ignored_upd)
  show "ignored a s (clearAccountCooldown a s)"
    using assms by (auto simp: clearAccountCooldown_def Let_def intro!: ignored_report ignored_upd)
  show "ignored a s (touchLastUsed a now s)"
    using assms by (auto simp: touchLastUsed_def intro!: ignored_report ignored_upd)
  show "ignored a s (markSwitched a sreason fam identity now s)"
    using ignored_isLoaded [OF _ ignored_upd, of a _ s] assms by (simp add: markSwitched_def Let_def split_beta)
  show "ignored a s (setEnabledInMemory a e s)"
    using assms by (simp add: setEnabledInMemory_def ignored_upd)
  show "removeAccount a s = (False, s)" by (rule removeAccount_absent [OF assms])
qed

section \<open>Fingerprint history\<close>

definition history_of :: "row \<Rightarrow> FingerprintVersion list" where
  "history_of r = nullish (r_fingerprintHistory r) []"

lemma push_history_of:
  "history_of (push_history reason now r) =
     (case r_fingerprint r of
        None \<Rightarrow> history_of r
      | Some fp \<Rightarrow> take MAX_FINGERPRINT_HISTORY
          (\<lparr>fv_fingerprint = fp, fv_timestamp = now, fv_reason = reason\<rparr> # history_of r))"
  by (simp add: push_history_def history_of_def Let_def split: option.split)

lemma push_history_bound:
  "length (history_of r) \<le> MAX_FINGERPRINT_HISTORY \<Longrightarrow>
     length (history_of (push_history reason now r)) \<le> MAX_FINGERPRINT_HISTORY"
  by (auto simp: push_history_of split: option.split)

lemma regenerate_effect:
  assumes "nth_opt (s_accounts s) i = Some a"
  shows "fst (regenerateAccountFingerprint i fresh now s) = Some fresh"
    and "r_fingerprint (row_at (snd (regenerateAccountFingerprint i fresh now s)) a) = Some fresh"
    and "history_of (row_at (snd (regenerateAccountFingerprint i fresh now s)) a)
           = history_of (push_history FpRegenerated now (row_at s a))"
  using assms by (simp_all add: regenerateAccountFingerprint_def history_of_def)

lemma restore_effect:
  fixes s i a k v now
  assumes a: "nth_opt (s_accounts s) i = Some a" and h: "nth_opt (history_of (row_at s a)) k = Some v"
  defines "s' \<equiv> snd (restoreAccountFingerprint i k now s)"
  shows "r_fingerprint (row_at s' a) = Some ((fv_fingerprint v)\<lparr>fp_createdAt := now\<rparr>)"
    and "history_of (row_at s' a) = history_of (push_history FpRestored now (row_at s a))"
proof -
  have "Option.bind (r_fingerprintHistory (row_at s a)) (\<lambda>history. nth_opt history k) = Some v"
    using h by (cases "r_fingerprintHistory (row_at s a)") (simp_all add: history_of_def nth_opt_def)
  then show "r_fingerprint (row_at s' a) = Some ((fv_fingerprint v)\<lparr>fp_createdAt := now\<rparr>)"
    "history_of (row_at s' a) = history_of (push_history FpRestored now (row_at s a))"
    using a by (simp_all add: s'_def restoreAccountFingerprint_def Let_def history_of_def)
qed

section \<open>Request counts\<close>

lemma count_request_count:
  "row_count fam' now (count_request fam now r) = row_count fam' now r + (if fam' = fam then 1 else 0)"
  by (cases fam; cases fam')
    (auto simp: count_request_def row_count_def today_counts_def dc_incr_def dc_get_def split: option.splits)

lemma sum_list_update_one:
  fixes f g :: "'a \<Rightarrow> nat"
  assumes "distinct xs" "x \<in> set xs" "f x = g x + k" "\<And>y. y \<noteq> x \<Longrightarrow> f y = g y"
  shows "sum_list (map f xs) = sum_list (map g xs) + k"
  using assms(1,2)
proof (induction xs)
  case Nil
  then show ?case by simp
next
  case (Cons z xs)
  show ?case
  proof (cases "z = x")
    case True
    have "f y = g y" if "y \<in> set xs" for y using assms(4) [of y] that True Cons.prems(1) by auto
    then have "map f xs = map g xs" by simp
    then have "sum_list (map f xs) = sum_list (map g xs)" by (rule arg_cong)
    then show ?thesis using True assms(3) by simp
  next
    case False
    then show ?thesis using Cons assms(4) by auto
  qed
qed

lemma recordRequest_counts:
  assumes wf: "pool_wf s" and a: "nth_opt (s_accounts s) i = Some a"
  shows "getTotalDailyRequests fam' now (recordRequest i fam now s)
           = getTotalDailyRequests fam' now s + (if fam' = fam then 1 else 0)"
    and "map_of (s_sessionRequestCounts (recordRequest i fam now s)) j =
           (if j = i then Some (sn_incr fam (nullish (map_of (s_sessionRequestCounts s) i) \<lparr>sn_claude = 0, sn_gemini = 0\<rparr>))
            else map_of (s_sessionRequestCounts s) j)"
proof -
  let ?s' = "recordRequest i fam now s"
  have acc: "s_accounts ?s' = s_accounts s" and heap: "s_heap ?s' = s_heap (upd_row a (count_request fam now) s)"
    using a by (simp_all add: recordRequest_def recordSessionRequest_def Let_def)
  have d: "distinct (s_accounts s)" using wf by (simp add: pool_wf_def)
  show "getTotalDailyRequests fam' now ?s' = getTotalDailyRequests fam' now s + (if fam' = fam then 1 else 0)"
    unfolding getTotalDailyRequests_def acc heap
    by (rule sum_list_update_one [OF d nth_opt_in_set [OF a]]) (simp_all add: count_request_count)
  show "map_of (s_sessionRequestCounts ?s') j =
           (if j = i then Some (sn_incr fam (nullish (map_of (s_sessionRequestCounts s) i) \<lparr>sn_claude = 0, sn_gemini = 0\<rparr>))
            else map_of (s_sessionRequestCounts s) j)"
    using a by (simp add: recordRequest_def recordSessionRequest_def Let_def update_conv)
qed

lemma summary_sorted: "sorted (rev (map du_count (getDailyRequestSummary fam now s)))"
proof -
  have "sorted (map (\<lambda>e. - int (du_count e)) (getDailyRequestSummary fam now s))"
    by (simp add: getDailyRequestSummary_def)
  then have "sorted_wrt (\<lambda>x y. du_count y \<le> du_count x) (getDailyRequestSummary fam now s)"
    by (simp add: sorted_wrt_map)
  then show ?thesis by (simp add: sorted_wrt_rev sorted_wrt_map rev_map)
qed

end
