(* ===== verification/Examples.thy ===== *)
theory Examples
  imports Selector_Verdicts
begin

text \<open>
  Concrete pools the witnesses of the properties are evaluated on: three rows with no
  limits, a pool of one row, a pool whose rows all report an exhausted quota, and a pool
  with a row that left it.
\<close>

definition plain_row :: "int \<Rightarrow> row" where
  "plain_row i =
     \<lparr>r_index = i, r_enabled = True, r_lastUsed = 0, r_rateLimitResetTimes = [],
      r_lastSwitchReason = None, r_coolingDownUntil = None, r_cooldownReason = None,
      r_touchedForQuota = [], r_consecutiveFailures = None, r_lastFailureTime = None,
      r_cachedQuota = None, r_cachedQuotaUpdatedAt = None, r_dailyRequestCounts = None,
      r_email = None, r_fingerprint = None, r_fingerprintHistory = None,
      r_verificationRequired = None, r_verificationRequiredAt = None,
      r_verificationRequiredReason = None, r_verificationUrl = None,
      r_accountIneligible = None, r_accountIneligibleAt = None, r_accountIneligibleReason = None,
      r_eligibilityStateUpdatedAt = None\<rparr>"

definition pool_of :: "nat \<Rightarrow> (row \<Rightarrow> row) \<Rightarrow> AccountSelector" where
  "pool_of n f = resetAccounts [0..<n] (\<lambda>_. Some 0)
     (new_selector (\<lambda>_. True) None None 7 0 (\<lambda>a. f (plain_row (int a))))"

text \<open>An exhausted quota that resets at the time \<open>t0\<close>.\<close>

definition spent_row :: "row \<Rightarrow> row" where
  "spent_row r = r\<lparr>r_cachedQuota := Some (\<lambda>_. Some \<lparr>qs_remainingFraction = Some 0,
       qs_resetTime = Some ''t0'', qs_modelCount = 1, qs_windows = None\<rparr>),
     r_cachedQuotaUpdatedAt := Some 0\<rparr>"

definition plain_query :: "AccountSelectionStrategy \<Rightarrow> num \<Rightarrow> selection_query" where
  "plain_query strategy thr =
     \<lparr>sq_family = Gemini, sq_model = None, sq_strategy = strategy, sq_pidOffsetEnabled = False,
      sq_threshold = thr, sq_ttl = 600000, sq_identity = None, sq_exclude = {}\<rparr>"

definition plain_fingerprint :: Fingerprint where
  "plain_fingerprint = generateFingerprint \<lparr>h_platform = ''linux'', h_arch = ''x64''\<rparr> ''u'' ''t'' 0"

lemma plain_row_simps [simp]:
  "r_index (plain_row i) = i" "r_enabled (plain_row i)" "r_rateLimitResetTimes (plain_row i) = []"
  "r_coolingDownUntil (plain_row i) = None" "r_cachedQuota (plain_row i) = None"
  "r_fingerprint (plain_row i) = None" "r_fingerprintHistory (plain_row i) = None"
  "r_verificationRequired (plain_row i) = None" "r_accountIneligible (plain_row i) = None"
  by (simp_all add: plain_row_def)

lemma pool_of_simps [simp]:
  "s_accounts (pool_of n f) = [0..<n]" "s_heap (pool_of n f) a = f (plain_row (int a))"
  "s_requestSessionStates (pool_of n f) = []" "s_sessionRequestCounts (pool_of n f) = []"
  by (simp_all add: pool_of_def resetAccounts_def new_selector_def)

lemma example_current [simp]: "s_current (pool_of n f) fam = 0"
  by (simp add: pool_of_def resetAccounts_def)

lemma pool_of_loaded:
  assumes "\<And>i. r_index (f (plain_row i)) = i" "\<And>i. row_wf (f (plain_row i))"
  shows "loaded (pool_of n f)"
  using assms
  by (simp add: loaded_def pool_wf_def)
    (simp add: pool_of_def resetAccounts_def new_selector_def ht_wf_def tt_wf_def new_health_tracker_def new_token_tracker_def)

lemma plain_row_wf [simp]: "row_wf (plain_row i)" "row_wf (spent_row (plain_row i))"
  by (simp_all add: row_wf_def spent_row_def)

lemma spent_row_index [simp]: "r_index (spent_row r) = r_index r"
  by (simp add: spent_row_def)

lemma example_pools:
  "sel_reach (pool_of n id)" "sel_reach (pool_of n spent_row)"
  by (rule sel_reach.start, rule pool_of_loaded; simp)+

lemma sel_reach_pool: "sel_reach s \<Longrightarrow> pool_wf s"
  using sel_reach_inv by (auto simp: selector_inv_def selector_wf_def)

lemma example_wf:
  "selector_wf (pool_of n id)" "pool_wf (pool_of n id)" "pool_wf (pool_of n spent_row)"
  using example_pools [THEN sel_reach_inv] by (auto simp: selector_inv_def selector_wf_def)

lemma example_usable: "usable (plain_query strategy thr) now (pool_of n id) a"
  by (simp add: usable_def available_def Let_def plain_query_def eligible_flags_def row_limited_def
      isRateLimitedForQuotaKey_def isOverSoftQuotaThreshold_def row_cooling_def)

end
