(* ===== verification/Killswitch.thy ===== *)
theory Killswitch
  imports Selector_State Text
begin

text \<open>
  \<^verbatim>\<open>packages/opencode/src/plugin/killswitch.ts\<close>: which accounts the operator's quota floor
  excludes. The key of a refresh token (a truncated SHA-256 from \<^verbatim>\<open>node:crypto\<close>) is the
  argument \<open>keyOf\<close>; the clock is \<open>now\<close>.
\<close>

record KillswitchSettings =
  ks_enabled :: bool
  ks_minimum_remaining_percent :: num
  ks_accounts :: "(string, num) jsmap"

record KillswitchAccountSnapshot =
  ka_index :: int
  ka_refreshToken :: "string option"
  ka_cachedQuota :: "cached_quota option"
  ka_cachedQuotaUpdatedAt :: "millis option"

datatype killswitch_reason = KOk | KDisabled | KQuotaMissingOrStale | KBelowThreshold

record KillswitchDecision =
  kd_allowed :: bool
  kd_reason :: killswitch_reason
  kd_thresholdPercent :: num
  kd_remainingPercent :: "num option"

record KillswitchEvaluateOptions =
  ko_now :: millis
  ko_cacheTtlMs :: "millis option"
  ko_model :: "string option"

definition DEFAULT_CACHE_TTL_MS :: millis where "DEFAULT_CACHE_TTL_MS = 5 * 60 * 1000"

definition QUOTA_GROUP_BY_FAMILY :: "family \<Rightarrow> QuotaGroup list" where
  "QUOTA_GROUP_BY_FAMILY fam = (case fam of Claude \<Rightarrow> [GNonGemini] | Gemini \<Rightarrow> [GGemini, GNonGemini])"

text \<open>The anchored expression of the Argon selectors, read from left to right.\<close>

definition argon_selector :: "string \<Rightarrow> bool" where
  "argon_selector lower =
     (let rest = (if starts_with lower ''antigravity-'' then drop 12 lower else lower)
      in starts_with rest ''gemini-4-argon''
         \<and> drop 14 rest \<in> {[], ''-low'', ''-medium'', ''-high''})"

definition quotaGroupForModel :: "family \<Rightarrow> string option \<Rightarrow> cached_quota option \<Rightarrow> QuotaGroup option" where
  "quotaGroupForModel fam model quota =
     (if \<not> truthy_str model then None
      else
        let lower = to_lower (the model) in
        case fam of
          Claude \<Rightarrow> Some GNonGemini
        | Gemini \<Rightarrow>
            (if argon_selector lower
             then (if (case quota of None \<Rightarrow> False | Some q \<Rightarrow> q GArgon \<noteq> None) then Some GArgon else Some GGemini)
             else if str_includes lower ''claude'' \<or> str_includes lower ''gpt-oss'' then Some GNonGemini
             else if str_includes lower ''gemini'' \<or> starts_with lower ''tab_'' then Some GGemini
             else None))"

definition clampPercent :: "num \<Rightarrow> num" where
  "clampPercent value = (if value < 0 then 0 else if 100 < value then 100 else value)"

definition remainingPercentForGroup :: "cached_quota \<Rightarrow> QuotaGroup \<Rightarrow> num option" where
  "remainingPercentForGroup quota grp =
     (case quota grp of
        None \<Rightarrow> None
      | Some entry \<Rightarrow> map_option (\<lambda>f. clampPercent (f * 100)) (qs_remainingFraction entry))"

definition freshestRemainingPercent :: "cached_quota \<Rightarrow> family \<Rightarrow> num option" where
  "freshestRemainingPercent quota fam =
     foldl (\<lambda>best grp.
        case remainingPercentForGroup quota grp of
          None \<Rightarrow> best
        | Some pct \<Rightarrow> (case best of None \<Rightarrow> Some pct | Some b \<Rightarrow> if b < pct then Some pct else Some b))
       None (QUOTA_GROUP_BY_FAMILY fam)"

definition account_key :: "(string \<Rightarrow> string) \<Rightarrow> KillswitchAccountSnapshot \<Rightarrow> string" where
  "account_key keyOf account =
     (if truthy_str (ka_refreshToken account) then keyOf (the (ka_refreshToken account))
      else ''idx-'' @ show_int (ka_index account))"

definition account_threshold :: "(string \<Rightarrow> string) \<Rightarrow> KillswitchSettings \<Rightarrow> KillswitchAccountSnapshot \<Rightarrow> num" where
  "account_threshold keyOf settings account =
     nullish (map_of (ks_accounts settings) (account_key keyOf account)) (ks_minimum_remaining_percent settings)"

definition fresh_quota :: "KillswitchEvaluateOptions \<Rightarrow> KillswitchAccountSnapshot \<Rightarrow> cached_quota option" where
  "fresh_quota options account =
     (case ka_cachedQuotaUpdatedAt account of
        None \<Rightarrow> None
      | Some t \<Rightarrow>
          if ko_now options - t \<le> nullish (ko_cacheTtlMs options) DEFAULT_CACHE_TTL_MS
          then ka_cachedQuota account else None)"

definition evaluateKillswitchForAccount ::
  "(string \<Rightarrow> string) \<Rightarrow> KillswitchAccountSnapshot \<Rightarrow> family \<Rightarrow> KillswitchSettings
   \<Rightarrow> KillswitchEvaluateOptions \<Rightarrow> KillswitchDecision" where
  "evaluateKillswitchForAccount keyOf account fam settings options =
     (if \<not> ks_enabled settings
      then \<lparr>kd_allowed = True, kd_reason = KDisabled, kd_thresholdPercent = 0, kd_remainingPercent = None\<rparr>
      else
        let thresholdPercent = account_threshold keyOf settings account;
            unknown = \<lparr>kd_allowed = True, kd_reason = KQuotaMissingOrStale,
                       kd_thresholdPercent = thresholdPercent, kd_remainingPercent = None\<rparr>
        in case fresh_quota options account of
             None \<Rightarrow> unknown
           | Some quota \<Rightarrow>
               (let remainingPercent =
                      (case quotaGroupForModel fam (ko_model options) (Some quota) of
                         Some grp \<Rightarrow> remainingPercentForGroup quota grp
                       | None \<Rightarrow> freshestRemainingPercent quota fam)
                in case remainingPercent of
                     None \<Rightarrow> unknown
                   | Some p \<Rightarrow>
                       \<lparr>kd_allowed = (thresholdPercent \<le> p),
                        kd_reason = (if thresholdPercent \<le> p then KOk else KBelowThreshold),
                        kd_thresholdPercent = thresholdPercent, kd_remainingPercent = Some p\<rparr>))"

record killswitch_summary =
  km_accountKey :: string
  km_remainingPercent :: "num option"
  km_thresholdPercent :: num

definition summarizeKillswitchOutcomes ::
  "(string \<Rightarrow> string) \<Rightarrow> KillswitchAccountSnapshot list \<Rightarrow> family \<Rightarrow> KillswitchSettings
   \<Rightarrow> KillswitchEvaluateOptions \<Rightarrow> killswitch_summary list" where
  "summarizeKillswitchOutcomes keyOf accounts fam settings options =
     map (\<lambda>account.
        let decision = evaluateKillswitchForAccount keyOf account fam settings options
        in \<lparr>km_accountKey = account_key keyOf account,
            km_remainingPercent = kd_remainingPercent decision,
            km_thresholdPercent = kd_thresholdPercent decision\<rparr>) accounts"

record AntigravityKillswitchError =
  ke_family :: family
  ke_model :: string
  ke_thresholdPercent :: num
  ke_summaries :: "killswitch_summary list"

text \<open>\<open>Some\<close> error is what the function throws.\<close>

definition throwIfAllKilled ::
  "(string \<Rightarrow> string) \<Rightarrow> family \<Rightarrow> string \<Rightarrow> KillswitchAccountSnapshot list \<Rightarrow> KillswitchSettings
   \<Rightarrow> KillswitchEvaluateOptions \<Rightarrow> AntigravityKillswitchError option" where
  "throwIfAllKilled keyOf fam model accounts settings options =
     (if \<not> ks_enabled settings then None
      else
        let summaries = summarizeKillswitchOutcomes keyOf accounts fam settings options;
            allKilled = list_all (\<lambda>account.
              kd_reason (evaluateKillswitchForAccount keyOf account fam settings options) = KBelowThreshold) accounts
        in if \<not> allKilled then None
           else Some \<lparr>ke_family = fam, ke_model = model,
                      ke_thresholdPercent = ks_minimum_remaining_percent settings, ke_summaries = summaries\<rparr>)"

section \<open>Facts\<close>

lemma clampPercent_range: "0 \<le> clampPercent v" "clampPercent v \<le> 100"
  by (simp_all add: clampPercent_def)

text \<open>The inline Argon test and the one of the model registry recognise the same names.\<close>

lemma argon_selector_registry: "argon_selector (to_lower m) = isGeminiArgonModel m"
proof -
  let ?g = "''gemini-4-argon''"
  have split: "starts_with r p \<and> drop (length p) r = x \<longleftrightarrow> r = p @ x" for p r x :: string
    unfolding starts_with_def by (metis append_eq_conv_conj append_take_drop_id)
  have len: "length ?g = 14" by simp
  have base: "starts_with r ?g \<and> drop 14 r \<in> {[], ''-low'', ''-medium'', ''-high''} \<longleftrightarrow> r \<in> set argon_names" for r
  proof -
    have "starts_with r ?g \<and> drop 14 r \<in> {[], ''-low'', ''-medium'', ''-high''}
        \<longleftrightarrow> (\<exists>x \<in> {[], ''-low'', ''-medium'', ''-high''}. r = ?g @ x)"
      using split [of r ?g, unfolded len] by blast
    also have "\<dots> \<longleftrightarrow> r \<in> set argon_names" by (auto simp: argon_names_def)
    finally show ?thesis .
  qed
  let ?a = "''antigravity-''"
  let ?m = "to_lower m"
  show ?thesis
  proof (cases "starts_with ?m ?a")
    case True
    then obtain r where m: "to_lower m = ?a @ r"
      using split [of ?m ?a "drop (length ?a) ?m"] by blast
    have d: "drop 12 (?a @ r) = r" by simp
    have "?a @ r \<notin> set argon_names" by (simp add: argon_names_def)
    moreover have "?a @ r \<in> set (map (\<lambda>n. ?a @ n) argon_names) \<longleftrightarrow> r \<in> set argon_names"
      unfolding set_map by (rule inj_image_mem_iff) (simp only: inj_def append_same_eq same_append_eq, blast)
    ultimately show ?thesis
      unfolding argon_selector_def isGeminiArgonModel_def Let_def m
      using base [of r] starts_with_append [of ?a r] d by (simp only: if_True simp_thms)
  next
    case False
    have "?m \<notin> (\<lambda>n. ?a @ n) ` set argon_names"
    proof
      assume "?m \<in> (\<lambda>n. ?a @ n) ` set argon_names"
      then obtain n where "?m = ?a @ n" by blast
      with False show False using starts_with_append [of ?a n] by simp
    qed
    then show ?thesis
      unfolding argon_selector_def isGeminiArgonModel_def Let_def set_map
      using False base [of ?m] by (simp only: if_False simp_thms)
  qed
qed

text \<open>Where the killswitch names a group for a Gemini-family model, it is the selector's group.\<close>

lemma argon_name_is_gemini:
  assumes "isGeminiArgonModel m"
  shows "str_includes (to_lower m) ''gemini''" "\<not> mentions_non_gemini (to_lower m)"
proof -
  have "list_all (\<lambda>n. str_includes n ''gemini'' \<and> \<not> mentions_non_gemini n)
     (argon_names @ map (\<lambda>n. ''antigravity-'' @ n) argon_names)"
    by code_simp
  then show "str_includes (to_lower m) ''gemini''" "\<not> mentions_non_gemini (to_lower m)"
    using assms by (auto simp: isGeminiArgonModel_def Let_def list_all_iff)
qed

lemma prefix_includes: "starts_with s p \<Longrightarrow> str_includes s p"
  by (simp add: str_includes_sublist starts_with_prefix)

lemma killswitch_group_agrees:
  assumes "quotaGroupForModel Gemini (Some m) (Some q) = Some g"
  shows "resolveQuotaGroup Gemini (Some m) (Some q) = g"
proof (cases "isGeminiArgonModel m")
  case True
  then show ?thesis
    using assms argon_name_is_gemini [OF True]
    by (auto simp: quotaGroupForModel_def resolveQuotaGroup_def argon_selector_registry Let_def
        getQuotaGroupForModel_def mentions_non_gemini_def split: if_splits)
next
  case False
  have g: "getQuotaGroupForModel m b = substring_group (to_lower m)" for b
    by (rule quota_group_by_substring [OF False])
  show ?thesis
    using assms False prefix_includes [of "to_lower m" "''gemini''"]
    by (auto simp: quotaGroupForModel_def resolveQuotaGroup_def argon_selector_registry Let_def g
        substring_group_def mentions_non_gemini_def split: if_splits)
qed

text \<open>An exclusion needs the switch on, a fresh reading and a value below the floor.\<close>

lemma excluded_iff:
  "kd_allowed (evaluateKillswitchForAccount keyOf a fam st opts) = False \<longleftrightarrow>
     ks_enabled st \<and>
     (\<exists>q p. fresh_quota opts a = Some q
       \<and> (case quotaGroupForModel fam (ko_model opts) (Some q) of
            Some g \<Rightarrow> remainingPercentForGroup q g | None \<Rightarrow> freshestRemainingPercent q fam) = Some p
       \<and> p < account_threshold keyOf st a)"
  by (auto simp: evaluateKillswitchForAccount_def Let_def not_le split: option.splits)

lemma reason_below_iff:
  "kd_reason (evaluateKillswitchForAccount keyOf a fam st opts) = KBelowThreshold \<longleftrightarrow>
     \<not> kd_allowed (evaluateKillswitchForAccount keyOf a fam st opts)"
  by (auto simp: evaluateKillswitchForAccount_def Let_def split: option.split)

lemma throw_iff:
  "throwIfAllKilled keyOf fam model accounts st opts \<noteq> None \<longleftrightarrow>
     ks_enabled st \<and> list_all (\<lambda>a. \<not> kd_allowed (evaluateKillswitchForAccount keyOf a fam st opts)) accounts"
  by (simp add: throwIfAllKilled_def Let_def reason_below_iff)

lemma freshest_is_max:
  assumes "freshestRemainingPercent q fam = Some p"
  shows "\<exists>g \<in> set (QUOTA_GROUP_BY_FAMILY fam). remainingPercentForGroup q g = Some p"
    and "g \<in> set (QUOTA_GROUP_BY_FAMILY fam) \<Longrightarrow> remainingPercentForGroup q g = Some p' \<Longrightarrow> p' \<le> p"
  using assms
  by (cases fam; auto simp: freshestRemainingPercent_def QUOTA_GROUP_BY_FAMILY_def split: option.splits if_splits)+

end
