(* ===== verification/Retry_State.thy ===== *)
theory Retry_State
  imports Js_Map Text
begin

text \<open>
  \<^verbatim>\<open>packages/opencode/src/plugin/fetch/retry-state.ts\<close> and \<^verbatim>\<open>warmup.ts\<close>: the bookkeeping one
  fetch interceptor keeps. The closures' variables are the fields of a record; the clock is
  the argument \<open>now\<close>. \<open>retry_step\<close> is one call of a mutating method.
\<close>

section \<open>Retry state\<close>

definition MAX_CONSECUTIVE_FAILURES :: nat where "MAX_CONSECUTIVE_FAILURES = 5"
definition FAILURE_COOLDOWN_MS :: millis where "FAILURE_COOLDOWN_MS = 30000"
definition FAILURE_STATE_RESET_MS :: millis where "FAILURE_STATE_RESET_MS = 120000"
definition RATE_LIMIT_DEDUP_WINDOW_MS :: millis where "RATE_LIMIT_DEDUP_WINDOW_MS = 2000"
definition RATE_LIMIT_STATE_RESET_MS :: millis where "RATE_LIMIT_STATE_RESET_MS = 120000"
definition RATE_LIMIT_TOAST_COOLDOWN_MS :: millis where "RATE_LIMIT_TOAST_COOLDOWN_MS = 5000"
definition MAX_MAP_ENTRIES :: nat where "MAX_MAP_ENTRIES = 100"

lemmas retry_constants = MAX_CONSECUTIVE_FAILURES_def FAILURE_COOLDOWN_MS_def FAILURE_STATE_RESET_MS_def
  RATE_LIMIT_DEDUP_WINDOW_MS_def RATE_LIMIT_STATE_RESET_MS_def RATE_LIMIT_TOAST_COOLDOWN_MS_def

record AccountFailureResult =
  af_failures :: nat
  af_shouldCooldown :: bool
  af_cooldownMs :: millis

record RateLimitState =
  rl_consecutive429 :: nat
  rl_lastAt :: millis
  rl_quotaKey :: string

record RateLimitBackoffResult =
  rb_attempt :: nat
  rb_delayMs :: millis
  rb_isDuplicate :: bool

record AccountFailure =
  fs_consecutiveFailures :: nat
  fs_lastFailureAt :: millis

record RetryState =
  rs_rateLimit :: "(string, RateLimitState) jsmap"
  rs_failures :: "(int, AccountFailure) jsmap"
  rs_toasts :: "(string, millis) jsmap"
  rs_empty :: "(string, nat) jsmap"
  rs_softQuotaToast :: bool
  rs_rateLimitToast :: bool
  rs_disposed :: bool

definition createRetryState :: RetryState where
  "createRetryState = \<lparr>rs_rateLimit = [], rs_failures = [], rs_toasts = [], rs_empty = [],
     rs_softQuotaToast = False, rs_rateLimitToast = False, rs_disposed = False\<rparr>"

definition DISPOSED_BACKOFF :: RateLimitBackoffResult where
  "DISPOSED_BACKOFF = \<lparr>rb_attempt = 1, rb_delayMs = 1000, rb_isDuplicate = False\<rparr>"

definition DISPOSED_FAILURE :: AccountFailureResult where
  "DISPOSED_FAILURE = \<lparr>af_failures = 0, af_shouldCooldown = False, af_cooldownMs = 0\<rparr>"

definition evictOldestIfFull :: "'k \<Rightarrow> ('k, 'v) jsmap \<Rightarrow> ('k, 'v) jsmap" where
  "evictOldestIfFull key m =
     (if jm_has m key \<or> length m < MAX_MAP_ENTRIES then m
      else case jm_oldest m of None \<Rightarrow> m | Some oldest \<Rightarrow> AList.delete oldest m)"

definition cleanupToastCooldowns :: "millis \<Rightarrow> (string, millis) jsmap \<Rightarrow> (string, millis) jsmap" where
  "cleanupToastCooldowns now m =
     (if length m \<le> MAX_MAP_ENTRIES then m
      else filter (\<lambda>(key, time). \<not> RATE_LIMIT_TOAST_COOLDOWN_MS * 2 < now - time) m)"

definition state_key :: "int \<Rightarrow> string \<Rightarrow> string" where
  "state_key accountIndex quotaKey = show_int accountIndex @ '':'' @ quotaKey"

definition backoff_delay :: "millis option \<Rightarrow> millis \<Rightarrow> nat \<Rightarrow> millis" where
  "backoff_delay serverRetryAfterMs maxBackoffMs attempt =
     (let baseDelay = nullish serverRetryAfterMs 1000;
          backoffDelay = min (baseDelay * 2 ^ (attempt - 1)) maxBackoffMs
      in max baseDelay backoffDelay)"

definition getRateLimitBackoff ::
  "int \<Rightarrow> string \<Rightarrow> millis option \<Rightarrow> millis \<Rightarrow> millis \<Rightarrow> RetryState \<Rightarrow> RateLimitBackoffResult \<times> RetryState" where
  "getRateLimitBackoff accountIndex quotaKey serverRetryAfterMs maxBackoffMs now s =
     (if rs_disposed s then (DISPOSED_BACKOFF, s)
      else
        let stateKey = state_key accountIndex quotaKey;
            previous = map_of (rs_rateLimit s) stateKey;
            recent = (\<lambda>w. case previous of None \<Rightarrow> False | Some p \<Rightarrow> now - rl_lastAt p < w)
        in if recent RATE_LIMIT_DEDUP_WINDOW_MS
           then (\<lparr>rb_attempt = rl_consecutive429 (the previous),
                  rb_delayMs = backoff_delay serverRetryAfterMs maxBackoffMs (rl_consecutive429 (the previous)),
                  rb_isDuplicate = True\<rparr>, s)
           else
             let attempt = (if recent RATE_LIMIT_STATE_RESET_MS then rl_consecutive429 (the previous) + 1 else 1);
                 entry = \<lparr>rl_consecutive429 = attempt, rl_lastAt = now, rl_quotaKey = quotaKey\<rparr>
             in (\<lparr>rb_attempt = attempt, rb_delayMs = backoff_delay serverRetryAfterMs maxBackoffMs attempt,
                  rb_isDuplicate = False\<rparr>,
                 s\<lparr>rs_rateLimit := AList.update stateKey entry (evictOldestIfFull stateKey (rs_rateLimit s))\<rparr>))"

definition resetRateLimitState :: "int \<Rightarrow> string \<Rightarrow> RetryState \<Rightarrow> RetryState" where
  "resetRateLimitState accountIndex quotaKey s =
     (if rs_disposed s then s
      else s\<lparr>rs_rateLimit := AList.delete (state_key accountIndex quotaKey) (rs_rateLimit s)\<rparr>)"

definition resetAllRateLimitStateForAccount :: "int \<Rightarrow> RetryState \<Rightarrow> RetryState" where
  "resetAllRateLimitStateForAccount accountIndex s =
     (if rs_disposed s then s
      else s\<lparr>rs_rateLimit := filter (\<lambda>(key, _). \<not> starts_with key (show_int accountIndex @ '':'')) (rs_rateLimit s)\<rparr>)"

definition trackAccountFailure :: "int \<Rightarrow> millis \<Rightarrow> RetryState \<Rightarrow> AccountFailureResult \<times> RetryState" where
  "trackAccountFailure accountIndex now s =
     (if rs_disposed s then (DISPOSED_FAILURE, s)
      else
        let failures = (case map_of (rs_failures s) accountIndex of
              None \<Rightarrow> 1
            | Some p \<Rightarrow> if now - fs_lastFailureAt p < FAILURE_STATE_RESET_MS then fs_consecutiveFailures p + 1 else 1);
            shouldCooldown = (MAX_CONSECUTIVE_FAILURES \<le> failures)
        in (\<lparr>af_failures = failures, af_shouldCooldown = shouldCooldown,
             af_cooldownMs = (if shouldCooldown then FAILURE_COOLDOWN_MS else 0)\<rparr>,
            s\<lparr>rs_failures := AList.update accountIndex
                 \<lparr>fs_consecutiveFailures = failures, fs_lastFailureAt = now\<rparr>
                 (evictOldestIfFull accountIndex (rs_failures s))\<rparr>))"

definition resetAccountFailureState :: "int \<Rightarrow> RetryState \<Rightarrow> RetryState" where
  "resetAccountFailureState accountIndex s =
     (if rs_disposed s then s else s\<lparr>rs_failures := AList.delete accountIndex (rs_failures s)\<rparr>)"

definition shouldShowRateLimitToast :: "string \<Rightarrow> millis \<Rightarrow> RetryState \<Rightarrow> bool \<times> RetryState" where
  "shouldShowRateLimitToast message now s =
     (if rs_disposed s then (False, s)
      else
        let toasts = cleanupToastCooldowns now (rs_toasts s);
            toastKey = mask_digits False message;
            lastShown = nullish (map_of toasts toastKey) 0
        in if now - lastShown < RATE_LIMIT_TOAST_COOLDOWN_MS then (False, s\<lparr>rs_toasts := toasts\<rparr>)
           else (True, s\<lparr>rs_toasts := AList.update toastKey now (evictOldestIfFull toastKey toasts)\<rparr>))"

definition markSoftQuotaToastShown :: "RetryState \<Rightarrow> RetryState" where
  "markSoftQuotaToastShown s = (if rs_disposed s then s else s\<lparr>rs_softQuotaToast := True\<rparr>)"

definition markRateLimitToastShown :: "RetryState \<Rightarrow> RetryState" where
  "markRateLimitToastShown s = (if rs_disposed s then s else s\<lparr>rs_rateLimitToast := True\<rparr>)"

definition softQuotaToastShown :: "RetryState \<Rightarrow> bool" where
  "softQuotaToastShown s = (\<not> rs_disposed s \<and> rs_softQuotaToast s)"

definition rateLimitToastShown :: "RetryState \<Rightarrow> bool" where
  "rateLimitToastShown s = (\<not> rs_disposed s \<and> rs_rateLimitToast s)"

definition resetAllAccountsBlockedToasts :: "RetryState \<Rightarrow> RetryState" where
  "resetAllAccountsBlockedToasts s =
     (if rs_disposed s then s else s\<lparr>rs_softQuotaToast := False, rs_rateLimitToast := False\<rparr>)"

definition recordEmptyResponseAttempt :: "string \<Rightarrow> RetryState \<Rightarrow> nat \<times> RetryState" where
  "recordEmptyResponseAttempt key s =
     (if rs_disposed s then (0, s)
      else let next = nullish (map_of (rs_empty s) key) 0 + 1
           in (next, s\<lparr>rs_empty := AList.update key next (evictOldestIfFull key (rs_empty s))\<rparr>))"

definition clearEmptyResponseAttempts :: "RetryState \<Rightarrow> RetryState" where
  "clearEmptyResponseAttempts s = (if rs_disposed s then s else s\<lparr>rs_empty := []\<rparr>)"

definition rs_clear :: "RetryState \<Rightarrow> RetryState" where
  "rs_clear s = (if rs_disposed s then s else createRetryState)"

definition rs_dispose :: "RetryState \<Rightarrow> RetryState" where
  "rs_dispose s = (if rs_disposed s then s else createRetryState\<lparr>rs_disposed := True\<rparr>)"

record RetryStateSizes =
  sz_rateLimitState :: nat
  sz_accountFailure :: nat
  sz_rateLimitToast :: nat
  sz_emptyResponse :: nat

definition rs_sizes :: "RetryState \<Rightarrow> RetryStateSizes" where
  "rs_sizes s = \<lparr>sz_rateLimitState = length (rs_rateLimit s), sz_accountFailure = length (rs_failures s),
                 sz_rateLimitToast = length (rs_toasts s), sz_emptyResponse = length (rs_empty s)\<rparr>"

inductive retry_step :: "RetryState \<Rightarrow> RetryState \<Rightarrow> bool" where
  backoff: "retry_step s (snd (getRateLimitBackoff i k ra mx now s))"
| reset_one: "retry_step s (resetRateLimitState i k s)"
| reset_account: "retry_step s (resetAllRateLimitStateForAccount i s)"
| failure: "retry_step s (snd (trackAccountFailure i now s))"
| reset_failure: "retry_step s (resetAccountFailureState i s)"
| show_toast: "retry_step s (snd (shouldShowRateLimitToast msg now s))"
| soft_toast: "retry_step s (markSoftQuotaToastShown s)"
| limit_toast: "retry_step s (markRateLimitToastShown s)"
| reset_toasts: "retry_step s (resetAllAccountsBlockedToasts s)"
| empty_response: "retry_step s (snd (recordEmptyResponseAttempt k s))"
| clear_empty: "retry_step s (clearEmptyResponseAttempts s)"
| clear: "retry_step s (rs_clear s)"
| dispose: "retry_step s (rs_dispose s)"

lemmas retry_ops = getRateLimitBackoff_def resetRateLimitState_def resetAllRateLimitStateForAccount_def
  trackAccountFailure_def resetAccountFailureState_def shouldShowRateLimitToast_def markSoftQuotaToastShown_def
  markRateLimitToastShown_def resetAllAccountsBlockedToasts_def recordEmptyResponseAttempt_def
  clearEmptyResponseAttempts_def rs_clear_def rs_dispose_def

section \<open>Bounds and life cycle\<close>

lemma evict_then_set:
  "AList.update k v (evictOldestIfFull k m) = jm.evict_put MAX_MAP_ENTRIES k v m"
  by (simp add: evictOldestIfFull_def jm.evict_put_def jm_has_def Let_def split: option.split)

lemma evict_set_bound: "length m \<le> MAX_MAP_ENTRIES \<Longrightarrow> length (AList.update k v (evictOldestIfFull k m)) \<le> MAX_MAP_ENTRIES"
  unfolding evict_then_set by (rule jm.evict_put_bound) (simp_all add: MAX_MAP_ENTRIES_def)

lemma length_filter_trans: "length xs \<le> n \<Longrightarrow> length (filter P xs) \<le> n"
  by (rule le_trans [OF length_filter_le])

lemma length_delete_trans: "length xs \<le> n \<Longrightarrow> length (AList.delete k xs) \<le> n"
  by (rule le_trans [OF length_delete_le])

definition retry_bounded :: "RetryState \<Rightarrow> bool" where
  "retry_bounded s =
     (length (rs_rateLimit s) \<le> MAX_MAP_ENTRIES \<and> length (rs_failures s) \<le> MAX_MAP_ENTRIES
      \<and> length (rs_toasts s) \<le> MAX_MAP_ENTRIES \<and> length (rs_empty s) \<le> MAX_MAP_ENTRIES)"

lemma toast_cleanup_bound: "length m \<le> MAX_MAP_ENTRIES \<Longrightarrow> cleanupToastCooldowns now m = m"
  by (simp add: cleanupToastCooldowns_def)

lemmas bound_rules = evict_set_bound length_filter_trans length_delete_trans

lemma backoff_bounded: "retry_bounded s \<Longrightarrow> retry_bounded (snd (getRateLimitBackoff i k ra mx now s))"
  unfolding getRateLimitBackoff_def Let_def by (auto simp: retry_bounded_def intro!: evict_set_bound)

lemma failure_bounded: "retry_bounded s \<Longrightarrow> retry_bounded (snd (trackAccountFailure i now s))"
  unfolding trackAccountFailure_def Let_def by (auto simp: retry_bounded_def intro!: evict_set_bound)

lemma toast_bounded: "retry_bounded s \<Longrightarrow> retry_bounded (snd (shouldShowRateLimitToast msg now s))"
  unfolding shouldShowRateLimitToast_def Let_def
  by (auto simp: retry_bounded_def toast_cleanup_bound intro!: evict_set_bound)

lemma empty_bounded: "retry_bounded s \<Longrightarrow> retry_bounded (snd (recordEmptyResponseAttempt k s))"
  unfolding recordEmptyResponseAttempt_def Let_def by (auto simp: retry_bounded_def intro!: evict_set_bound)

lemma retry_step_bounded: "retry_step s s' \<Longrightarrow> retry_bounded s \<Longrightarrow> retry_bounded s'"
proof (induction rule: retry_step.induct)
  case (reset_one s i k)
  then show ?case by (simp add: resetRateLimitState_def retry_bounded_def length_delete_trans)
next
  case (reset_account s i)
  then show ?case by (simp add: resetAllRateLimitStateForAccount_def retry_bounded_def length_filter_trans)
next
  case (reset_failure s i)
  then show ?case by (simp add: resetAccountFailureState_def retry_bounded_def length_delete_trans)
qed (simp_all add: backoff_bounded failure_bounded toast_bounded empty_bounded,
  simp_all add: retry_ops retry_bounded_def createRetryState_def)

lemma retry_disposed_final: "retry_step s s' \<Longrightarrow> rs_disposed s \<Longrightarrow> s' = s"
  by (induction rule: retry_step.induct) (simp_all add: retry_ops)

lemma dispose_clean: "rs_disposed (rs_dispose s)"
  by (simp add: rs_dispose_def)

section \<open>Backoff\<close>

lemma power2_ge1: "(1 :: num) \<le> 2 ^ n"
  by simp

lemma backoff_delay_range:
  assumes "0 \<le> b" "b = nullish ra 1000"
  shows "b \<le> backoff_delay ra mx n" "backoff_delay ra mx n \<le> max b mx"
  using assms by (auto simp: backoff_delay_def Let_def)

lemma backoff_delay_mono:
  assumes "0 \<le> nullish ra 1000" "m \<le> n"
  shows "backoff_delay ra mx m \<le> backoff_delay ra mx n"
proof -
  have "(2 :: num) ^ (m - 1) \<le> 2 ^ (n - 1)" using assms(2) by (simp add: power_increasing)
  then have "nullish ra 1000 * 2 ^ (m - 1) \<le> nullish ra 1000 * 2 ^ (n - 1)"
    using assms(1) by (rule mult_left_mono)
  then show ?thesis unfolding backoff_delay_def Let_def by (auto simp: min_def max_def)
qed

lemma state_key_inj: "state_key i k = state_key j l \<longleftrightarrow> i = j \<and> k = l"
proof -
  have "CHR '':'' \<notin> set (show_int i)" for i
    using show_int_chars [of "CHR '':''" i] by (auto simp: is_digit_def)
  then show ?thesis by (simp add: state_key_def append_sep_inj)
qed

lemma state_key_prefix: "starts_with (state_key j l) (show_int i @ '':'') \<longleftrightarrow> j = i"
proof -
  have n: "CHR '':'' \<notin> set (show_int i)" for i
    using show_int_chars [of "CHR '':''" i] by (auto simp: is_digit_def)
  have "(\<exists>x. show_int j @ CHR '':'' # l = (show_int i @ [CHR '':'']) @ x) \<longleftrightarrow> j = i"
    using append_sep_inj [OF n [of j] n [of i], of l] by auto
  then show ?thesis by (simp add: starts_with_prefix prefix_def state_key_def)
qed

text \<open>A reset forgets every quota key of its account and of no other.\<close>

lemma map_of_filter_starts:
  "jm_wf m \<Longrightarrow> map_of (filter (\<lambda>(key, _). \<not> starts_with key p) m) k = (if starts_with k p then None else map_of m k)"
  by (subst map_of_filter_keys) (auto split: option.split)

lemma reset_account_exact:
  assumes "jm_wf (rs_rateLimit s)" "\<not> rs_disposed s"
  shows "map_of (rs_rateLimit (resetAllRateLimitStateForAccount i s)) (state_key j k) =
     (if j = i then None else map_of (rs_rateLimit s) (state_key j k))"
  using assms by (simp add: resetAllRateLimitStateForAccount_def map_of_filter_starts state_key_prefix)

lemma backoff_attempts:
  assumes "\<not> rs_disposed s" "map_of (rs_rateLimit s) (state_key i k) = Some p"
  shows "rb_attempt (fst (getRateLimitBackoff i k ra mx now s)) =
     (if now - rl_lastAt p < 2000 then rl_consecutive429 p
      else if now - rl_lastAt p < 120000 then rl_consecutive429 p + 1 else 1)"
    and "rb_isDuplicate (fst (getRateLimitBackoff i k ra mx now s)) \<longleftrightarrow> now - rl_lastAt p < 2000"
  using assms by (auto simp: getRateLimitBackoff_def Let_def retry_constants)

lemma failure_cooldown:
  assumes "\<not> rs_disposed s"
  shows "af_shouldCooldown (fst (trackAccountFailure i now s)) \<longleftrightarrow>
     (\<exists>p. map_of (rs_failures s) i = Some p \<and> now - fs_lastFailureAt p < 120000 \<and> 4 \<le> fs_consecutiveFailures p)"
  using assms by (auto simp: trackAccountFailure_def Let_def retry_constants split: option.split)

section \<open>Warmup state\<close>

definition MAX_WARMUP_SESSIONS :: nat where "MAX_WARMUP_SESSIONS = 1000"
definition MAX_WARMUP_RETRIES :: nat where "MAX_WARMUP_RETRIES = 2"

record WarmupState =
  ws_attempted :: "string list"
  ws_succeeded :: "string list"
  ws_disposed :: bool

definition createWarmupState :: WarmupState where
  "createWarmupState = \<lparr>ws_attempted = [], ws_succeeded = [], ws_disposed = False\<rparr>"

text \<open>A JavaScript \<open>Set\<close> in insertion order.\<close>

definition set_add :: "string \<Rightarrow> string list \<Rightarrow> string list" where
  "set_add x xs = (if x \<in> set xs then xs else xs @ [x])"

definition set_del :: "string \<Rightarrow> string list \<Rightarrow> string list" where
  "set_del x xs = filter (\<lambda>y. y \<noteq> x) xs"

definition getAttemptCount :: "string \<Rightarrow> WarmupState \<Rightarrow> nat" where
  "getAttemptCount sessionId s = (if sessionId \<in> set (ws_attempted s) then 1 else 0)"

text \<open>\<open>if (first)\<close> skips a first element that is the empty string.\<close>

definition evict_first :: "WarmupState \<Rightarrow> WarmupState" where
  "evict_first s =
     (case ws_attempted s of
        [] \<Rightarrow> s
      | x # _ \<Rightarrow> if x \<noteq> []
                then s\<lparr>ws_attempted := set_del x (ws_attempted s), ws_succeeded := set_del x (ws_succeeded s)\<rparr>
                else s)"

definition trackAttempt :: "string \<Rightarrow> WarmupState \<Rightarrow> bool \<times> WarmupState" where
  "trackAttempt sessionId s =
     (if ws_disposed s then (False, s)
      else if sessionId \<in> set (ws_succeeded s) then (False, s)
      else
        let s1 = (if MAX_WARMUP_SESSIONS \<le> length (ws_attempted s) then evict_first s else s)
        in if MAX_WARMUP_RETRIES \<le> getAttemptCount sessionId s1 then (False, s1)
           else (True, s1\<lparr>ws_attempted := set_add sessionId (ws_attempted s1)\<rparr>))"

definition markSuccess :: "string \<Rightarrow> WarmupState \<Rightarrow> WarmupState" where
  "markSuccess sessionId s =
     (if ws_disposed s then s
      else
        let s1 = s\<lparr>ws_succeeded := set_add sessionId (ws_succeeded s)\<rparr>
        in if MAX_WARMUP_SESSIONS \<le> length (ws_succeeded s1)
           then case ws_succeeded s1 of
                  [] \<Rightarrow> s1
                | x # _ \<Rightarrow> if x \<noteq> [] then s1\<lparr>ws_succeeded := set_del x (ws_succeeded s1)\<rparr> else s1
           else s1)"

definition clearWarmupAttempt :: "string \<Rightarrow> WarmupState \<Rightarrow> WarmupState" where
  "clearWarmupAttempt sessionId s =
     (if ws_disposed s then s else s\<lparr>ws_attempted := set_del sessionId (ws_attempted s)\<rparr>)"

definition ws_clear :: "WarmupState \<Rightarrow> WarmupState" where
  "ws_clear s = s\<lparr>ws_attempted := [], ws_succeeded := []\<rparr>"

definition ws_dispose :: "WarmupState \<Rightarrow> WarmupState" where
  "ws_dispose s = (if ws_disposed s then s else (ws_clear s)\<lparr>ws_disposed := True\<rparr>)"

text \<open>The retry budget is never what refuses an attempt: a session counts at most one.\<close>

lemma attempt_count_le: "getAttemptCount i s \<le> 1"
  by (simp add: getAttemptCount_def)

lemma trackAttempt_iff:
  "fst (trackAttempt i s) \<longleftrightarrow> \<not> ws_disposed s \<and> i \<notin> set (ws_succeeded s)"
  by (simp add: trackAttempt_def Let_def getAttemptCount_def MAX_WARMUP_RETRIES_def)

lemma set_del_length: "x \<in> set xs \<Longrightarrow> length (set_del x xs) < length xs"
  unfolding set_del_def by (rule length_filter_less) auto

definition warmup_bounded :: "WarmupState \<Rightarrow> bool" where
  "warmup_bounded s =
     (length (ws_attempted s) \<le> MAX_WARMUP_SESSIONS \<and> length (ws_succeeded s) \<le> MAX_WARMUP_SESSIONS
      \<and> [] \<notin> set (ws_attempted s) \<and> [] \<notin> set (ws_succeeded s))"

lemma set_add_length: "length (set_add x xs) \<le> length xs + 1"
  by (simp add: set_add_def)

lemma trackAttempt_bounded:
  assumes b: "warmup_bounded s" and i: "i \<noteq> []"
  shows "warmup_bounded (snd (trackAttempt i s))"
proof -
  let ?s1 = "if MAX_WARMUP_SESSIONS \<le> length (ws_attempted s) then evict_first s else s"
  have b1: "warmup_bounded ?s1" "length (ws_attempted ?s1) < MAX_WARMUP_SESSIONS"
  proof -
    obtain x xs where "MAX_WARMUP_SESSIONS \<le> length (ws_attempted s) \<Longrightarrow> ws_attempted s = x # xs"
      by (cases "ws_attempted s") (auto simp: MAX_WARMUP_SESSIONS_def)
    then have *: "warmup_bounded (evict_first s)" "length (ws_attempted (evict_first s)) < length (ws_attempted s)"
      if "MAX_WARMUP_SESSIONS \<le> length (ws_attempted s)"
      using that b set_del_length [of x "ws_attempted s"]
      by (auto simp: warmup_bounded_def evict_first_def set_del_def intro: length_filter_trans)
    show "warmup_bounded ?s1" "length (ws_attempted ?s1) < MAX_WARMUP_SESSIONS"
      using * b by (auto simp: warmup_bounded_def)
  qed
  then show ?thesis
    using b i set_add_length [of i "ws_attempted ?s1"]
    by (auto simp: trackAttempt_def Let_def warmup_bounded_def set_add_def)
qed

lemma markSuccess_bounded:
  assumes b: "warmup_bounded s" and i: "i \<noteq> []" and room: "length (ws_succeeded s) < MAX_WARMUP_SESSIONS"
  shows "warmup_bounded (markSuccess i s)" "length (ws_succeeded (markSuccess i s)) < MAX_WARMUP_SESSIONS"
proof -
  let ?l = "set_add i (ws_succeeded s)"
  have l: "length ?l \<le> MAX_WARMUP_SESSIONS" "[] \<notin> set ?l" "?l \<noteq> []"
    using b i room by (auto simp: warmup_bounded_def set_add_def)
  obtain x xs where x: "?l = x # xs" using l(3) by (cases ?l) auto
  have "length (set_del x ?l) < length ?l" by (rule set_del_length) (simp add: x)
  moreover have "[] \<notin> set (set_del x ?l)" using l(2) by (simp add: set_del_def)
  moreover have "x \<noteq> []" using l(2) x by auto
  ultimately show "warmup_bounded (markSuccess i s)" "length (ws_succeeded (markSuccess i s)) < MAX_WARMUP_SESSIONS"
    using l b room by (auto simp: markSuccess_def Let_def x warmup_bounded_def)
qed

end
