(* ===== verification/Json.thy ===== *)
theory Json
  imports Js_Map
begin

text \<open>
  JSON values as the payload transforms see them: an object is its list of own properties
  in insertion order. Values are trees; two references to one object are two equal trees.
\<close>

datatype json =
  JNull
| JBool bool
| JNum num
| JStr string
| JArr "json list"
| JObj "(string \<times> json) list"

type_synonym js_object = "(string, json) jsmap"

definition isPlainObject :: "json \<Rightarrow> bool" where
  "isPlainObject v = (case v of JObj _ \<Rightarrow> True | _ \<Rightarrow> False)"

text \<open>A property that holds an array, or an object.\<close>

definition get_arr :: "js_object \<Rightarrow> string \<Rightarrow> json list option" where
  "get_arr ob k = (case map_of ob k of Some (JArr xs) \<Rightarrow> Some xs | _ \<Rightarrow> None)"

definition get_obj :: "js_object \<Rightarrow> string \<Rightarrow> js_object option" where
  "get_obj ob k = (case map_of ob k of Some (JObj p) \<Rightarrow> Some p | _ \<Rightarrow> None)"

definition get_str :: "js_object \<Rightarrow> string \<Rightarrow> string option" where
  "get_str ob k = (case map_of ob k of Some (JStr s) \<Rightarrow> Some s | _ \<Rightarrow> None)"

lemma get_arr_Some: "get_arr ob k = Some xs \<longleftrightarrow> map_of ob k = Some (JArr xs)"
  by (auto simp: get_arr_def split: option.splits json.splits)

lemma get_obj_Some: "get_obj ob k = Some p \<longleftrightarrow> map_of ob k = Some (JObj p)"
  by (auto simp: get_obj_def split: option.splits json.splits)

lemma get_arr_update [simp]: "get_arr (AList.update k (JArr xs) ob) k' = (if k' = k then Some xs else get_arr ob k')"
  by (simp add: get_arr_def update_conv)

lemma get_arr_update_other: "k' \<noteq> k \<Longrightarrow> get_arr (AList.update k v ob) k' = get_arr ob k'"
  by (simp add: get_arr_def update_conv)

lemma get_obj_update_other: "k' \<noteq> k \<Longrightarrow> get_obj (AList.update k v ob) k' = get_obj ob k'"
  by (simp add: get_obj_def update_conv)

lemma get_obj_update [simp]: "get_obj (AList.update k (JObj p) ob) k = Some p"
  by (simp add: get_obj_def update_conv)

lemma update_same: "map_of ob k = Some v \<Longrightarrow> AList.update k v ob = ob"
  by (induction ob) auto

lemma size_map_of: "map_of ob k = Some v \<Longrightarrow> size v < size_list (size_prod (\<lambda>_. 0) size) ob"
  by (induction ob) (auto split: if_splits)

lemma size_get_arr:
  assumes "get_arr ob k = Some xs" "x \<in> set xs"
  shows "size x < size (JObj ob)"
proof -
  have "size (JArr xs) < size_list (size_prod (\<lambda>_. 0) size) ob"
    using assms(1) by (intro size_map_of) (simp add: get_arr_Some)
  moreover have "size x \<le> size_list size xs" using assms(2) by (simp add: size_list_estimation')
  ultimately show ?thesis by simp
qed

end
