(* ===== verification/Cross_Model.thy ===== *)
theory Cross_Model
  imports Json
begin

text \<open>
  \<^verbatim>\<open>packages/core/src/transform/cross-model-sanitizer.ts\<close>: removing one model family's thinking
  signatures from a payload that goes to the other. Each function returns the new value and
  the number of fields it removed. The code copies the objects it changes down to a part and
  then deletes inside the part's \<open>metadata\<close>, which it shares with the input; over trees the
  returned payload is the same. The locale \<open>stripper\<close> is the contract of a pass: a second run
  finds nothing.
\<close>

datatype model_family = FClaude | FGemini | FUnknown

definition isClaudeModel :: "string \<Rightarrow> bool" where
  "isClaudeModel model = str_includes (to_lower model) ''claude''"

definition isGeminiModel :: "string \<Rightarrow> bool" where
  "isGeminiModel model = (str_includes (to_lower model) ''gemini'' \<and> \<not> str_includes (to_lower model) ''claude'')"

definition getModelFamily :: "string \<Rightarrow> model_family" where
  "getModelFamily model =
     (if isClaudeModel model then FClaude else if isGeminiModel model then FGemini else FUnknown)"

definition GEMINI_SIGNATURE_FIELDS :: "string list" where
  "GEMINI_SIGNATURE_FIELDS = [''thoughtSignature'', ''thinkingMetadata'']"

definition CLAUDE_SIGNATURE_FIELDS :: "string list" where
  "CLAUDE_SIGNATURE_FIELDS = [''signature'']"

text \<open>\<open>if (field in obj) { delete obj[field]; stripped++ }\<close> for each field.\<close>

definition drop_field :: "string \<Rightarrow> js_object \<times> nat \<Rightarrow> js_object \<times> nat" where
  "drop_field field st =
     (if jm_has (fst st) field then (AList.delete field (fst st), snd st + 1) else st)"

definition drop_part_fields :: "js_object \<Rightarrow> js_object \<times> nat" where
  "drop_part_fields part = fold drop_field [''thoughtSignature'', ''thinkingMetadata''] (part, 0)"

definition stripGeminiThinkingMetadata :: "bool \<Rightarrow> js_object \<Rightarrow> js_object \<times> nat" where
  "stripGeminiThinkingMetadata preserveNonSignature part =
     (let (part1, stripped1) = drop_part_fields part in
      case get_obj part1 ''metadata'' of
        None \<Rightarrow> (part1, stripped1)
      | Some metadata \<Rightarrow>
          (case get_obj metadata ''google'' of
             None \<Rightarrow> (part1, stripped1)
           | Some google \<Rightarrow>
               (let (google1, stripped2) = fold drop_field GEMINI_SIGNATURE_FIELDS (google, stripped1);
                    metadata1 = (if \<not> preserveNonSignature \<or> google1 = []
                                 then AList.delete ''google'' metadata
                                 else AList.update ''google'' (JObj google1) metadata)
                in (if metadata1 = [] then AList.delete ''metadata'' part1
                    else AList.update ''metadata'' (JObj metadata1) part1, stripped2))))"

definition stripClaudeThinkingFields :: "js_object \<Rightarrow> js_object \<times> nat" where
  "stripClaudeThinkingFields part =
     (let (part1, stripped1) =
            (if get_str part ''type'' \<in> {Some ''thinking'', Some ''redacted_thinking''}
             then fold drop_field CLAUDE_SIGNATURE_FIELDS (part, 0) else (part, 0))
      in case get_str part1 ''signature'' of
           Some sig \<Rightarrow> if 50 \<le> length sig then (AList.delete ''signature'' part1, stripped1 + 1)
                       else (part1, stripped1)
         | None \<Rightarrow> (part1, stripped1))"

definition sanitizePart :: "model_family \<Rightarrow> bool \<Rightarrow> json \<Rightarrow> json \<times> nat" where
  "sanitizePart targetFamily preserveNonSignature part =
     (case part of
        JObj ob \<Rightarrow>
          (let (ob1, stripped) =
                 (case targetFamily of
                    FClaude \<Rightarrow> stripGeminiThinkingMetadata preserveNonSignature ob
                  | FGemini \<Rightarrow> stripClaudeThinkingFields ob
                  | FUnknown \<Rightarrow> (ob, 0))
           in (JObj ob1, stripped))
      | _ \<Rightarrow> (part, 0))"

text \<open>\<open>xs.map(f)\<close> with the removed fields summed.\<close>

definition map_sum :: "(json \<Rightarrow> json \<times> nat) \<Rightarrow> json list \<Rightarrow> json list \<times> nat" where
  "map_sum f xs = (map (\<lambda>x. fst (f x)) xs, sum_list (map (\<lambda>x. snd (f x)) xs))"

definition sanitizeParts :: "model_family \<Rightarrow> bool \<Rightarrow> json list \<Rightarrow> json list \<times> nat" where
  "sanitizeParts targetFamily preserveNonSignature parts =
     map_sum (sanitizePart targetFamily preserveNonSignature) parts"

text \<open>Replace an array property by its sanitized form; any other property is left alone.\<close>

definition at_array :: "(json list \<Rightarrow> json list \<times> nat) \<Rightarrow> string \<Rightarrow> js_object \<Rightarrow> js_object \<times> nat" where
  "at_array f key ob =
     (case get_arr ob key of
        None \<Rightarrow> (ob, 0)
      | Some xs \<Rightarrow> (let (ys, n) = f xs in (AList.update key (JArr ys) ob, n)))"

definition sanitize_holder :: "model_family \<Rightarrow> bool \<Rightarrow> string \<Rightarrow> json \<Rightarrow> json \<times> nat" where
  "sanitize_holder targetFamily preserveNonSignature key v =
     (case v of
        JObj ob \<Rightarrow> (let (ob1, n) = at_array (sanitizeParts targetFamily preserveNonSignature) key ob in (JObj ob1, n))
      | _ \<Rightarrow> (v, 0))"

definition sanitizeContents :: "model_family \<Rightarrow> bool \<Rightarrow> json list \<Rightarrow> json list \<times> nat" where
  "sanitizeContents targetFamily preserveNonSignature contents =
     map_sum (sanitize_holder targetFamily preserveNonSignature ''parts'') contents"

definition sanitizeMessages :: "model_family \<Rightarrow> bool \<Rightarrow> json list \<Rightarrow> json list \<times> nat" where
  "sanitizeMessages targetFamily preserveNonSignature messages =
     map_sum (sanitize_holder targetFamily preserveNonSignature ''content'') messages"

definition sanitize_extra_body :: "model_family \<Rightarrow> bool \<Rightarrow> js_object \<Rightarrow> js_object \<times> nat" where
  "sanitize_extra_body targetFamily preserveNonSignature ob =
     (case get_obj ob ''extra_body'' of
        None \<Rightarrow> (ob, 0)
      | Some extraBody \<Rightarrow>
          (let (extraBody1, n) = at_array (sanitizeMessages targetFamily preserveNonSignature) ''messages'' extraBody
           in (AList.update ''extra_body'' (JObj extraBody1) ob, n)))"

text \<open>The three steps before \<open>requests\<close>.\<close>

definition sanitize_top :: "model_family \<Rightarrow> bool \<Rightarrow> js_object \<Rightarrow> js_object \<times> nat" where
  "sanitize_top targetFamily preserveNonSignature ob =
     (let (ob1, n1) = at_array (sanitizeContents targetFamily preserveNonSignature) ''contents'' ob;
          (ob2, n2) = at_array (sanitizeMessages targetFamily preserveNonSignature) ''messages'' ob1;
          (ob3, n3) = sanitize_extra_body targetFamily preserveNonSignature ob2
      in (ob3, n1 + n2 + n3))"

text \<open>The steps before do not touch \<open>requests\<close>, so it is read from the object itself.\<close>

function deepSanitizeCrossModelMetadata :: "model_family \<Rightarrow> bool \<Rightarrow> json \<Rightarrow> json \<times> nat" where
  "deepSanitizeCrossModelMetadata targetFamily preserveNonSignature (JObj ob) =
     (let (ob1, n1) = sanitize_top targetFamily preserveNonSignature ob in
      case get_arr ob ''requests'' of
        None \<Rightarrow> (JObj ob1, n1)
      | Some requests \<Rightarrow>
          (let results = map (deepSanitizeCrossModelMetadata targetFamily preserveNonSignature) requests
           in (JObj (AList.update ''requests'' (JArr (map fst results)) ob1), n1 + sum_list (map snd results))))"
| "deepSanitizeCrossModelMetadata targetFamily preserveNonSignature JNull = (JNull, 0)"
| "deepSanitizeCrossModelMetadata targetFamily preserveNonSignature (JBool b) = (JBool b, 0)"
| "deepSanitizeCrossModelMetadata targetFamily preserveNonSignature (JNum x) = (JNum x, 0)"
| "deepSanitizeCrossModelMetadata targetFamily preserveNonSignature (JStr s) = (JStr s, 0)"
| "deepSanitizeCrossModelMetadata targetFamily preserveNonSignature (JArr xs) = (JArr xs, 0)"
  by pat_completeness auto
termination
  by (relation "measure (\<lambda>(_, _, v). size v)") (auto dest: size_get_arr)

record SanitizationResult =
  sr_payload :: json
  sr_modified :: bool
  sr_signaturesStripped :: nat

definition sanitizeCrossModelPayload :: "json \<Rightarrow> string \<Rightarrow> bool option \<Rightarrow> SanitizationResult" where
  "sanitizeCrossModelPayload payload targetModel preserveNonSignatureMetadata =
     (let targetFamily = getModelFamily targetModel in
      if targetFamily = FUnknown then \<lparr>sr_payload = payload, sr_modified = False, sr_signaturesStripped = 0\<rparr>
      else
        let (ob, stripped) =
              deepSanitizeCrossModelMetadata targetFamily (nullish preserveNonSignatureMetadata True) payload
        in \<lparr>sr_payload = ob, sr_modified = (0 < stripped), sr_signaturesStripped = stripped\<rparr>)"

text \<open>The in-place variant: the payload afterwards and the returned count.\<close>

definition sanitizeCrossModelPayloadInPlace :: "js_object \<Rightarrow> string \<Rightarrow> bool option \<Rightarrow> js_object \<times> nat" where
  "sanitizeCrossModelPayloadInPlace payload targetModel preserveNonSignatureMetadata =
     (let targetFamily = getModelFamily targetModel in
      if targetFamily = FUnknown then (payload, 0)
      else
        let preserve = nullish preserveNonSignatureMetadata True;
            partsInPlace = sanitizeParts targetFamily preserve;
            holdersInPlace = (\<lambda>key. map_sum (\<lambda>v. case v of
                JObj ob \<Rightarrow> (let (ob1, n) = at_array partsInPlace key ob in (JObj ob1, n)) | _ \<Rightarrow> (v, 0)));
            (p1, n1) = at_array (holdersInPlace ''parts'') ''contents'' payload;
            (p2, n2) = at_array (holdersInPlace ''content'') ''messages'' p1;
            (p3, n3) = (case get_obj p2 ''extra_body'' of
                None \<Rightarrow> (p2, 0)
              | Some extraBody \<Rightarrow>
                  (let (e1, n) = at_array (holdersInPlace ''content'') ''messages'' extraBody
                   in (AList.update ''extra_body'' (JObj e1) p2, n)))
        in (p3, n1 + n2 + n3))"

section \<open>A second pass finds nothing\<close>

locale stripper =
  fixes f :: "json \<Rightarrow> json \<times> nat"
  assumes again: "f (fst (f x)) = (fst (f x), 0)"
begin

lemma map_sum_again: "map_sum f (fst (map_sum f xs)) = (fst (map_sum f xs), 0)"
  by (simp add: map_sum_def comp_def again)

lemma at_array_again: "at_array (map_sum f) k (fst (at_array (map_sum f) k ob)) = (fst (at_array (map_sum f) k ob), 0)"
proof (cases "get_arr ob k")
  case None
  then show ?thesis by (simp add: at_array_def)
next
  case (Some xs)
  let ?ys = "fst (map_sum f xs)"
  have e: "at_array (map_sum f) k ob = (AList.update k (JArr ?ys) ob, snd (map_sum f xs))"
    using Some by (simp add: at_array_def split_beta)
  have "AList.update k (JArr ?ys) (AList.update k (JArr ?ys) ob) = AList.update k (JArr ?ys) ob"
    by (rule update_same) (simp add: update_conv)
  then show ?thesis by (simp add: e) (simp add: at_array_def map_sum_again)
qed

end

lemma drop_field_fst: "fst (drop_field k st) = AList.delete k (fst st)"
proof -
  have "AList.delete k m = m" if "\<not> jm_has m k" for m :: js_object
    using that by (simp add: jm_has_iff delete_id)
  then show ?thesis by (simp add: drop_field_def)
qed

lemma fold_drop_fst: "map_of (fst (fold drop_field ks st)) k = (if k \<in> set ks then None else map_of (fst st) k)"
  by (induction ks arbitrary: st) (auto simp: drop_field_fst delete_conv)

lemma fold_drop_none: "\<forall>k \<in> set ks. \<not> jm_has ob k \<Longrightarrow> fold drop_field ks (ob, n) = (ob, n)"
  by (induction ks) (auto simp: drop_field_def)

lemma map_of_delete: "map_of (AList.delete k m) k' = (if k' = k then None else map_of m k')"
  by (simp add: delete_conv)

lemma strip_gemini_again:
  "stripGeminiThinkingMetadata pr (fst (stripGeminiThinkingMetadata pr part))
     = (fst (stripGeminiThinkingMetadata pr part), 0)"
proof -
  let ?F = GEMINI_SIGNATURE_FIELDS
  have F: "drop_part_fields q = fold drop_field ?F (q, 0)" for q
    by (simp add: drop_part_fields_def GEMINI_SIGNATURE_FIELDS_def)
  let ?p1 = "fst (drop_part_fields part)"
  let ?n1 = "snd (drop_part_fields part)"
  have clean: "\<forall>k \<in> set ?F. \<not> jm_has q k" if "\<forall>k \<in> set ?F. map_of q k = map_of ?p1 k" for q
    using that by (simp add: jm_has_def F fold_drop_fst)
  have id: "drop_part_fields q = (q, 0)" if "\<forall>k \<in> set ?F. map_of q k = map_of ?p1 k" for q
    unfolding F by (rule fold_drop_none [OF clean [OF that]])
  show ?thesis
  proof (cases "get_obj ?p1 ''metadata''")
    case None
    have "stripGeminiThinkingMetadata pr part = (?p1, ?n1)"
      unfolding stripGeminiThinkingMetadata_def Let_def split_beta None option.case by simp
    moreover have "stripGeminiThinkingMetadata pr ?p1 = (?p1, 0)"
      unfolding stripGeminiThinkingMetadata_def Let_def split_beta using id [of ?p1] None by simp
    ultimately show ?thesis by simp
  next
    case (Some metadata)
    show ?thesis
    proof (cases "get_obj metadata ''google''")
      case None
      have "stripGeminiThinkingMetadata pr part = (?p1, ?n1)"
        unfolding stripGeminiThinkingMetadata_def Let_def split_beta Some option.case None by simp
      moreover have "stripGeminiThinkingMetadata pr ?p1 = (?p1, 0)"
        unfolding stripGeminiThinkingMetadata_def Let_def split_beta using id [of ?p1] Some None by simp
      ultimately show ?thesis by simp
    next
      case G: (Some google)
      let ?g1 = "fst (fold drop_field GEMINI_SIGNATURE_FIELDS (google, ?n1))"
      let ?m1 = "if \<not> pr \<or> ?g1 = [] then AList.delete ''google'' metadata
                 else AList.update ''google'' (JObj ?g1) metadata"
      let ?r = "if ?m1 = [] then AList.delete ''metadata'' ?p1 else AList.update ''metadata'' (JObj ?m1) ?p1"
      have e: "fst (stripGeminiThinkingMetadata pr part) = ?r"
        unfolding stripGeminiThinkingMetadata_def Let_def split_beta Some option.case G fst_conv by (rule refl)
      have "\<forall>k \<in> set ?F. map_of ?r k = map_of ?p1 k"
        by (simp add: GEMINI_SIGNATURE_FIELDS_def update_conv map_of_delete)
      note r = id [OF this]
      have gclean: "\<forall>k \<in> set GEMINI_SIGNATURE_FIELDS. \<not> jm_has ?g1 k"
        by (simp add: jm_has_def fold_drop_fst)
      have "stripGeminiThinkingMetadata pr ?r = (?r, 0)"
      proof (cases "?m1 = []")
        case True
        then have "get_obj ?r ''metadata'' = None" by (simp add: get_obj_def map_of_delete)
        then show ?thesis unfolding stripGeminiThinkingMetadata_def Let_def split_beta using r by simp
      next
        case False
        then have m: "get_obj ?r ''metadata'' = Some ?m1" by simp
        show ?thesis
        proof (cases "\<not> pr \<or> ?g1 = []")
          case True
          then have "get_obj ?m1 ''google'' = None" by (simp add: get_obj_def map_of_delete)
          then show ?thesis unfolding stripGeminiThinkingMetadata_def Let_def split_beta using r m by simp
        next
          case keep: False
          then have g: "get_obj ?m1 ''google'' = Some ?g1" by simp
          have u: "AList.update ''google'' (JObj ?g1) ?m1 = ?m1"
            by (rule update_same) (use g in \<open>simp add: get_obj_Some\<close>)
          have v: "AList.update ''metadata'' (JObj ?m1) ?r = ?r"
            by (rule update_same) (use m in \<open>simp add: get_obj_Some\<close>)
          have f: "fold drop_field GEMINI_SIGNATURE_FIELDS (?g1, 0) = (?g1, 0)"
            by (rule fold_drop_none [OF gclean])
          show ?thesis
            unfolding stripGeminiThinkingMetadata_def Let_def split_beta r fst_conv snd_conv m option.case g f
            using keep u v False by (simp only: if_False simp_thms)
        qed
      qed
      then show ?thesis unfolding e .
    qed
  qed
qed

lemma strip_claude_again:
  "stripClaudeThinkingFields (fst (stripClaudeThinkingFields part)) = (fst (stripClaudeThinkingFields part), 0)"
proof -
  have s: "get_str (AList.delete ''signature'' p) k = (if k = ''signature'' then None else get_str p k)" for p k
    by (simp add: get_str_def map_of_delete)
  have h: "\<not> jm_has (AList.delete ''signature'' p) ''signature''" for p :: js_object
    by (simp add: jm_has_def map_of_delete)
  show ?thesis
    by (auto simp: stripClaudeThinkingFields_def CLAUDE_SIGNATURE_FIELDS_def drop_field_def Let_def s h
        split: option.split)
qed

lemma sanitizePart_again: "sanitizePart fam pr (fst (sanitizePart fam pr v)) = (fst (sanitizePart fam pr v), 0)"
  using strip_gemini_again strip_claude_again
  by (cases v; cases fam) (simp_all add: sanitizePart_def split_beta)

interpretation part: stripper "sanitizePart fam pr" for fam pr
  by unfold_locales (rule sanitizePart_again)

lemma sanitizeParts_eq: "sanitizeParts fam pr = map_sum (sanitizePart fam pr)"
  by (intro ext) (simp add: sanitizeParts_def)

lemma sanitize_holder_again:
  "sanitize_holder fam pr k (fst (sanitize_holder fam pr k v)) = (fst (sanitize_holder fam pr k v), 0)"
  by (cases v) (simp_all add: sanitize_holder_def split_beta sanitizeParts_eq part.at_array_again)

interpretation holder: stripper "sanitize_holder fam pr k" for fam pr k
  by unfold_locales (rule sanitize_holder_again)

lemma sanitizeContents_eq: "sanitizeContents fam pr = map_sum (sanitize_holder fam pr ''parts'')"
  and sanitizeMessages_eq: "sanitizeMessages fam pr = map_sum (sanitize_holder fam pr ''content'')"
  by (intro ext; simp add: sanitizeContents_def sanitizeMessages_def)+

section \<open>The whole payload\<close>

definition array_fixed :: "(json list \<Rightarrow> json list \<times> nat) \<Rightarrow> string \<Rightarrow> js_object \<Rightarrow> bool" where
  "array_fixed f k ob = (case get_arr ob k of None \<Rightarrow> True | Some xs \<Rightarrow> f xs = (xs, 0))"

lemma at_array_fix:
  assumes "array_fixed f k ob"
  shows "at_array f k ob = (ob, 0)"
proof (cases "get_arr ob k")
  case None
  then show ?thesis by (simp add: at_array_def)
next
  case (Some xs)
  then have "AList.update k (JArr xs) ob = ob" by (intro update_same) (simp add: get_arr_Some)
  then show ?thesis using assms Some by (simp add: array_fixed_def at_array_def)
qed

lemma at_array_other: "k' \<noteq> k \<Longrightarrow> map_of (fst (at_array f k ob)) k' = map_of ob k'"
  by (simp add: at_array_def split_beta update_conv split: option.split)

lemma at_array_same: "get_arr (fst (at_array f k ob)) k = map_option (\<lambda>xs. fst (f xs)) (get_arr ob k)"
  by (cases "get_arr ob k") (simp_all add: at_array_def split_beta)

lemma get_cong: "map_of a k = map_of b k \<Longrightarrow> get_arr a k = get_arr b k" "map_of a k = map_of b k \<Longrightarrow> get_obj a k = get_obj b k"
  by (simp_all add: get_arr_def get_obj_def)

lemma at_array_fixed:
  assumes "\<And>xs. f (fst (f xs)) = (fst (f xs), 0)"
  shows "array_fixed f k (fst (at_array f k ob))"
  using assms by (auto simp: array_fixed_def at_array_same split: option.split)

lemma holders_again:
  "sanitizeContents fam pr (fst (sanitizeContents fam pr xs)) = (fst (sanitizeContents fam pr xs), 0)"
  "sanitizeMessages fam pr (fst (sanitizeMessages fam pr xs)) = (fst (sanitizeMessages fam pr xs), 0)"
  by (simp_all add: sanitizeContents_eq sanitizeMessages_eq holder.map_sum_again)

definition top_fixed :: "model_family \<Rightarrow> bool \<Rightarrow> js_object \<Rightarrow> bool" where
  "top_fixed fam pr ob \<longleftrightarrow> array_fixed (sanitizeContents fam pr) ''contents'' ob
     \<and> array_fixed (sanitizeMessages fam pr) ''messages'' ob
     \<and> (case get_obj ob ''extra_body'' of None \<Rightarrow> True
        | Some e \<Rightarrow> array_fixed (sanitizeMessages fam pr) ''messages'' e)"

lemma top_fixed_id:
  assumes "top_fixed fam pr ob"
  shows "sanitize_top fam pr ob = (ob, 0)"
proof (cases "get_obj ob ''extra_body''")
  case None
  then show ?thesis using assms
    by (simp add: top_fixed_def sanitize_top_def sanitize_extra_body_def at_array_fix)
next
  case (Some e)
  then have "AList.update ''extra_body'' (JObj e) ob = ob" by (intro update_same) (simp add: get_obj_Some)
  then show ?thesis using assms Some
    by (simp add: top_fixed_def sanitize_top_def sanitize_extra_body_def at_array_fix)
qed

lemma top_fixed_cong:
  assumes "map_of a ''contents'' = map_of b ''contents''" "map_of a ''messages'' = map_of b ''messages''"
    "map_of a ''extra_body'' = map_of b ''extra_body''"
  shows "top_fixed fam pr a = top_fixed fam pr b"
  using get_cong [OF assms(1)] get_cong [OF assms(2)] get_cong [OF assms(3)]
  by (simp add: top_fixed_def array_fixed_def)

lemma extra_body_other:
  "k \<noteq> ''extra_body'' \<Longrightarrow> map_of (fst (sanitize_extra_body fam pr ob)) k = map_of ob k"
  by (simp add: sanitize_extra_body_def split_beta update_conv split: option.split)

lemma sanitize_top_other:
  "k \<notin> {''contents'', ''messages'', ''extra_body''} \<Longrightarrow> map_of (fst (sanitize_top fam pr ob)) k = map_of ob k"
  by (simp add: sanitize_top_def split_beta Let_def extra_body_other at_array_other)

lemma sanitize_top_fixed: "top_fixed fam pr (fst (sanitize_top fam pr ob))"
proof -
  let ?o1 = "fst (at_array (sanitizeContents fam pr) ''contents'' ob)"
  let ?o2 = "fst (at_array (sanitizeMessages fam pr) ''messages'' ?o1)"
  let ?o3 = "fst (sanitize_extra_body fam pr ?o2)"
  have o3: "fst (sanitize_top fam pr ob) = ?o3" by (simp add: sanitize_top_def split_beta Let_def)
  have c: "array_fixed (sanitizeContents fam pr) ''contents'' ?o3"
  proof -
    have "map_of ?o3 ''contents'' = map_of ?o1 ''contents''" by (simp add: extra_body_other at_array_other)
    then have "get_arr ?o3 ''contents'' = get_arr ?o1 ''contents''" by (rule get_cong)
    then show ?thesis
      using at_array_fixed [where f = "sanitizeContents fam pr", OF holders_again(1)] by (simp add: array_fixed_def)
  qed
  have m: "array_fixed (sanitizeMessages fam pr) ''messages'' ?o3"
  proof -
    have "map_of ?o3 ''messages'' = map_of ?o2 ''messages''" by (simp add: extra_body_other)
    then have "get_arr ?o3 ''messages'' = get_arr ?o2 ''messages''" by (rule get_cong)
    then show ?thesis
      using at_array_fixed [where f = "sanitizeMessages fam pr", OF holders_again(2)] by (simp add: array_fixed_def)
  qed
  have e: "case get_obj ?o3 ''extra_body'' of None \<Rightarrow> True | Some e \<Rightarrow> array_fixed (sanitizeMessages fam pr) ''messages'' e"
  proof (cases "get_obj ?o2 ''extra_body''")
    case None
    then show ?thesis by (simp add: sanitize_extra_body_def)
  next
    case (Some x)
    then show ?thesis
      using at_array_fixed [where f = "sanitizeMessages fam pr", OF holders_again(2)]
      by (simp add: sanitize_extra_body_def split_beta)
  qed
  show ?thesis unfolding o3 top_fixed_def using c m e by simp
qed

lemma deep_again:
  "deepSanitizeCrossModelMetadata fam pr (fst (deepSanitizeCrossModelMetadata fam pr v))
     = (fst (deepSanitizeCrossModelMetadata fam pr v), 0)"
proof (induction fam pr v rule: deepSanitizeCrossModelMetadata.induct)
  case (1 fam pr ob)
  let ?d = "deepSanitizeCrossModelMetadata fam pr"
  let ?o1 = "fst (sanitize_top fam pr ob)"
  have req: "get_arr ?o1 ''requests'' = get_arr ob ''requests''"
    by (rule get_cong) (simp add: sanitize_top_other)
  show ?case
  proof (cases "get_arr ob ''requests''")
    case None
    then have e: "?d (JObj ob) = (JObj ?o1, snd (sanitize_top fam pr ob))" by (simp add: split_beta)
    show ?thesis unfolding e fst_conv using None req by (simp add: top_fixed_id [OF sanitize_top_fixed])
  next
    case (Some rs)
    let ?rs = "map (\<lambda>r. fst (?d r)) rs"
    let ?o2 = "AList.update ''requests'' (JArr ?rs) ?o1"
    have e: "fst (?d (JObj ob)) = JObj ?o2" using Some by (simp add: split_beta Let_def comp_def)
    have "top_fixed fam pr ?o2"
      using sanitize_top_fixed [of fam pr ob] top_fixed_cong [of ?o2 ?o1] by (simp add: update_conv)
    then have t: "sanitize_top fam pr ?o2 = (?o2, 0)" by (rule top_fixed_id)
    have ih: "?d (fst (?d r)) = (fst (?d r), 0)" if "r \<in> set rs" for r
      using 1 [OF refl prod.collapse Some that] .
    have u: "AList.update ''requests'' (JArr ?rs) ?o2 = ?o2" by (rule update_same) (simp add: update_conv)
    have m: "map fst (map ?d ?rs) = ?rs" "sum_list (map snd (map ?d ?rs)) = 0"
      using ih by (simp_all add: comp_def)
    have g: "get_arr ?o2 ''requests'' = Some ?rs" by simp
    have "?d (JObj ?o2) = (JObj ?o2, 0)"
      unfolding deepSanitizeCrossModelMetadata.simps t g Let_def split_conv option.case m u by simp
    then show ?thesis unfolding e .
  qed
qed simp_all

lemma inPlace_eq:
  "sanitizeCrossModelPayloadInPlace p model pr =
     (if getModelFamily model = FUnknown then (p, 0)
      else sanitize_top (getModelFamily model) (nullish pr True) p)"
proof -
  have h: "(\<lambda>v. case v of JObj ob \<Rightarrow> (let (ob1, n) = at_array (sanitizeParts fam b) k ob in (JObj ob1, n)) | _ \<Rightarrow> (v, 0))
      = sanitize_holder fam b k" for fam b k
    by (intro ext) (simp add: sanitize_holder_def)
  show ?thesis
    by (simp add: sanitizeCrossModelPayloadInPlace_def h sanitize_top_def sanitize_extra_body_def
        sanitizeContents_eq sanitizeMessages_eq split_beta Let_def cong: option.case_cong)
qed

lemma inPlace_copy_agree:
  assumes "get_arr p ''requests'' = None"
  shows "sanitizeCrossModelPayload (JObj p) model pr =
     \<lparr>sr_payload = JObj (fst (sanitizeCrossModelPayloadInPlace p model pr)),
      sr_modified = (0 < snd (sanitizeCrossModelPayloadInPlace p model pr)),
      sr_signaturesStripped = snd (sanitizeCrossModelPayloadInPlace p model pr)\<rparr>"
  using assms by (simp add: inPlace_eq sanitizeCrossModelPayload_def split_beta Let_def)

end
