(* ===== verification/Credentials.thy ===== *)
theory Credentials
  imports Text
begin

text \<open>
  \<^verbatim>\<open>packages/core/src/account-identity.ts\<close> (how one credential of one row is named, and when
  an outcome may still be applied to a row) and \<^verbatim>\<open>packages/core/src/auth.ts\<close> (the packed
  refresh string and token expiry). The epoch of a credential is a natural number.
\<close>

section \<open>Row references\<close>

record RowRef =
  rr_id :: string
  rr_credentialEpoch :: nat
  rr_identity :: "string option"

record RowAttributionSource =
  ra_id :: string
  ra_credentialEpoch :: "nat option"
  ra_identity :: "string option"

record CredentialFence =
  cf_credentialEpoch :: nat
  cf_identity :: "string option"

definition rowRefOf :: "RowAttributionSource \<Rightarrow> RowRef" where
  "rowRefOf row = \<lparr>rr_id = ra_id row, rr_credentialEpoch = nullish (ra_credentialEpoch row) 1,
                   rr_identity = ra_identity row\<rparr>"

definition sameRowRef :: "RowRef \<Rightarrow> RowRef \<Rightarrow> bool" where
  "sameRowRef a b =
     (rr_id a = rr_id b \<and> rr_credentialEpoch a = rr_credentialEpoch b \<and> rr_identity a = rr_identity b)"

definition rowHoldsRef :: "RowAttributionSource \<Rightarrow> RowRef \<Rightarrow> bool" where
  "rowHoldsRef row ref = sameRowRef (rowRefOf row) ref"

definition credentialFenceOf :: "RowRef \<Rightarrow> CredentialFence" where
  "credentialFenceOf ref = \<lparr>cf_credentialEpoch = rr_credentialEpoch ref, cf_identity = rr_identity ref\<rparr>"

definition rowRefKey :: "RowRef \<Rightarrow> string" where
  "rowRefKey ref =
     ''['' @ json_string (rr_id ref) @ '','' @ show_nat (rr_credentialEpoch ref)
       @ (case rr_identity ref of None \<Rightarrow> [] | Some i \<Rightarrow> '','' @ json_string i) @ '']''"

definition refMismatchReason :: "RowAttributionSource option \<Rightarrow> RowRef \<Rightarrow> string option" where
  "refMismatchReason row ref =
     (case row of
        None \<Rightarrow> Some (''row '' @ rr_id ref @ '' is no longer in the pool'')
      | Some r \<Rightarrow>
          (let current = rowRefOf r in
           if rr_credentialEpoch current \<noteq> rr_credentialEpoch ref
           then Some (''row '' @ rr_id ref @ '' now holds credential epoch ''
                  @ show_nat (rr_credentialEpoch current) @ '', not '' @ show_nat (rr_credentialEpoch ref))
           else if rr_identity current \<noteq> rr_identity ref
           then Some (''row '' @ rr_id ref @ '' now records a different account identity'')
           else None))"

lemma sameRowRef_eq: "sameRowRef a b \<longleftrightarrow> a = b"
  by (cases a; cases b) (auto simp: sameRowRef_def)

text \<open>\<open>ends\<close> marks where the epoch's digits stop.\<close>

lemma digits_end:
  assumes "list_all is_digit m" "list_all is_digit n" "\<not> is_digit a" "\<not> is_digit b"
  shows "m @ a # x = n @ b # y \<longleftrightarrow> m = n \<and> a = b \<and> x = y"
  using assms
proof (induction m arbitrary: n)
  case Nil
  then show ?case by (cases n) auto
next
  case (Cons c m)
  then show ?case by (cases n) auto
qed

lemma rowRefKey_inj: "rowRefKey a = rowRefKey b \<longleftrightarrow> a = b"
proof
  assume eq: "rowRefKey a = rowRefKey b"
  let ?t = "\<lambda>r. (case rr_identity r of None \<Rightarrow> [] | Some i \<Rightarrow> '','' @ json_string i) @ '']''"
  have 1: "json_string (rr_id a) @ '','' @ show_nat (rr_credentialEpoch a) @ ?t a
      = json_string (rr_id b) @ '','' @ show_nat (rr_credentialEpoch b) @ ?t b"
    using eq by (simp add: rowRefKey_def)
  from json_string_inj [OF 1] have id: "rr_id a = rr_id b"
    and 2: "show_nat (rr_credentialEpoch a) @ ?t a = show_nat (rr_credentialEpoch b) @ ?t b"
    by simp_all
  obtain ca xa where ta: "?t a = ca # xa" "\<not> is_digit ca"
    by (cases "rr_identity a") (auto simp: is_digit_def)
  obtain cb xb where tb: "?t b = cb # xb" "\<not> is_digit cb"
    by (cases "rr_identity b") (auto simp: is_digit_def)
  have e: "rr_credentialEpoch a = rr_credentialEpoch b" and t: "?t a = ?t b"
    using 2 digits_end [OF show_nat_digits show_nat_digits ta(2) tb(2)] by (simp_all add: ta(1) tb(1))
  have i: "rr_identity a = rr_identity b"
  proof (cases "rr_identity a")
    case None
    then show ?thesis using t by (cases "rr_identity b") simp_all
  next
    case a: (Some x)
    show ?thesis
    proof (cases "rr_identity b")
      case None
      then show ?thesis using t a by simp
    next
      case (Some y)
      with a t have "json_string x @ '']'' = json_string y @ '']''" by simp
      from json_string_inj [OF this] show ?thesis by (simp add: a Some)
    qed
  qed
  show "a = b" by (rule RowRef.equality) (simp_all add: id e i)
qed simp

section \<open>Packed refresh strings\<close>

record RefreshParts =
  rp_refreshToken :: string
  rp_projectId :: "string option"
  rp_managedProjectId :: "string option"

definition or_undefined :: "string \<Rightarrow> string option" where
  "or_undefined s = (if s = [] then None else Some s)"

definition part_at :: "string list \<Rightarrow> int \<Rightarrow> string" where
  "part_at parts i = nullish (nth_opt parts i) []"

definition parseRefreshParts :: "string \<Rightarrow> RefreshParts" where
  "parseRefreshParts refresh =
     (let parts = split_on (CHR ''|'') refresh in
      \<lparr>rp_refreshToken = part_at parts 0, rp_projectId = or_undefined (part_at parts 1),
       rp_managedProjectId = or_undefined (part_at parts 2)\<rparr>)"

definition formatRefreshParts :: "RefreshParts \<Rightarrow> string" where
  "formatRefreshParts parts =
     (let projectSegment = nullish (rp_projectId parts) [];
          base = rp_refreshToken parts @ ''|'' @ projectSegment
      in if truthy_str (rp_managedProjectId parts) then base @ ''|'' @ the (rp_managedProjectId parts) else base)"

text \<open>Parts are well formed when no part holds the separator and no optional part is empty.\<close>

definition parts_ok :: "RefreshParts \<Rightarrow> bool" where
  "parts_ok p =
     (CHR ''|'' \<notin> set (rp_refreshToken p)
      \<and> (case rp_projectId p of None \<Rightarrow> True | Some x \<Rightarrow> x \<noteq> [] \<and> CHR ''|'' \<notin> set x)
      \<and> (case rp_managedProjectId p of None \<Rightarrow> True | Some x \<Rightarrow> x \<noteq> [] \<and> CHR ''|'' \<notin> set x))"

lemma part_at_simps [simp]:
  "part_at (x # xs) 0 = x" "part_at [x] 1 = []" "part_at [x, y] 1 = y" "part_at [x, y] 2 = []"
  "part_at [x, y, z] 1 = y" "part_at [x, y, z] 2 = z" "part_at [x] 2 = []"
  by (simp_all add: part_at_def nth_opt_def)

lemma parse_format:
  assumes "parts_ok p"
  shows "parseRefreshParts (formatRefreshParts p) = p"
proof -
  obtain t pr m where p: "p = \<lparr>rp_refreshToken = t, rp_projectId = pr, rp_managedProjectId = m\<rparr>"
    by (cases p)
  have t: "CHR ''|'' \<notin> set t" using assms by (simp add: parts_ok_def p)
  have seg: "CHR ''|'' \<notin> set (nullish pr [])" "or_undefined (nullish pr []) = pr"
    using assms by (auto simp: parts_ok_def p or_undefined_def split: option.splits)
  show ?thesis
  proof (cases m)
    case None
    then show ?thesis
      using seg by (cases pr) (auto simp: p formatRefreshParts_def parseRefreshParts_def split_on_sep [OF t]
          split_on_none or_undefined_def split: if_splits)
  next
    case (Some x)
    then have "x \<noteq> []" "CHR ''|'' \<notin> set x" using assms by (simp_all add: parts_ok_def p)
    then show ?thesis
      using seg Some by (cases pr) (auto simp: p formatRefreshParts_def parseRefreshParts_def split_on_sep [OF t]
          split_on_sep split_on_none or_undefined_def split: if_splits)
  qed
qed

lemma parse_ok: "parts_ok (parseRefreshParts s)"
proof -
  have "CHR ''|'' \<notin> set (part_at (split_on (CHR ''|'') s) i)" for i
    using split_on_parts [of _ "CHR ''|''" s] nth_opt_in_set
    by (cases "nth_opt (split_on (CHR ''|'') s) i") (fastforce simp: part_at_def)+
  then show ?thesis by (simp add: parts_ok_def parseRefreshParts_def Let_def or_undefined_def)
qed

section \<open>Token expiry\<close>

definition ACCESS_TOKEN_EXPIRY_BUFFER_MS :: millis where
  "ACCESS_TOKEN_EXPIRY_BUFFER_MS = 60 * 1000"

record OAuthAuthDetails =
  oa_refresh :: string
  oa_access :: "string option"
  oa_expires :: "millis option"

definition accessTokenExpired :: "OAuthAuthDetails \<Rightarrow> millis \<Rightarrow> bool" where
  "accessTokenExpired auth now =
     (if \<not> truthy_str (oa_access auth) \<or> oa_expires auth = None then True
      else the (oa_expires auth) \<le> now + ACCESS_TOKEN_EXPIRY_BUFFER_MS)"

text \<open>The server's \<open>expires_in\<close>: not a number, \<open>NaN\<close>, or a number.\<close>

datatype expires_in = NotANumberType | IsNaN | Seconds num

definition calculateTokenExpiry :: "millis \<Rightarrow> expires_in \<Rightarrow> millis" where
  "calculateTokenExpiry requestTimeMs expiresInSeconds =
     (let seconds = (case expiresInSeconds of NotANumberType \<Rightarrow> Seconds 3600 | e \<Rightarrow> e) in
      case seconds of
        Seconds n \<Rightarrow> if n \<le> 0 then requestTimeMs else requestTimeMs + n * 1000
      | _ \<Rightarrow> requestTimeMs)"

lemma token_life:
  assumes "truthy_str (oa_access auth)" "oa_expires auth = Some (calculateTokenExpiry t e)"
  shows "accessTokenExpired auth now \<longleftrightarrow>
     (case e of NotANumberType \<Rightarrow> t + 3540000 | IsNaN \<Rightarrow> t - 60000
              | Seconds n \<Rightarrow> t + max 0 n * 1000 - 60000) \<le> now"
  using assms
  by (auto simp: accessTokenExpired_def calculateTokenExpiry_def ACCESS_TOKEN_EXPIRY_BUFFER_MS_def max_def
      split: expires_in.split)

end
