(* ===== verification/Model_Resolver.thy ===== *)
theory Model_Resolver
  imports Model_Registry
begin

text \<open>
  \<^verbatim>\<open>packages/core/src/transform/model-resolver.ts\<close>: the mapping from a requested model
  name, its tier suffix and the host's variant options to the wire model and its thinking
  configuration. Regular expressions are written out as prefix, suffix and substring tests
  on the (lower-cased, for the \<open>i\<close> flag) name.
\<close>

section \<open>Recognisers\<close>

definition starts_with_i :: "string \<Rightarrow> string \<Rightarrow> bool" where
  "starts_with_i s p = starts_with (to_lower s) p"

definition QUOTA_PREFIX :: string where
  "QUOTA_PREFIX = ''antigravity-''"

definition has_quota_prefix :: "string \<Rightarrow> bool" where
  "has_quota_prefix s = starts_with_i s QUOTA_PREFIX"

definition drop_quota_prefix :: "string \<Rightarrow> string" where
  "drop_quota_prefix s = (if has_quota_prefix s then drop (length QUOTA_PREFIX) s else s)"

text \<open>\<open>/-(minimal|low|medium|high)$/\<close>: its match and its removal.\<close>

definition tier_suffix :: "string \<Rightarrow> ThinkingTier option" where
  "tier_suffix s =
     (if ends_with s ''-minimal'' then Some Minimal
      else if ends_with s ''-low'' then Some Low
      else if ends_with s ''-medium'' then Some Medium
      else if ends_with s ''-high'' then Some High
      else None)"

definition drop_tier :: "string \<Rightarrow> string" where
  "drop_tier s = (case tier_suffix s of None \<Rightarrow> s | Some t \<Rightarrow> strip_suffix (CHR ''-'' # tier_name t) s)"

definition is_digit_char :: "char \<Rightarrow> bool" where
  "is_digit_char c = (let n = (of_char c :: nat) in 48 \<le> n \<and> n \<le> 57)"

lemma is_digit_char_code [code]:
  "is_digit_char (Char b0 b1 b2 b3 b4 b5 b6 b7) = (\<not> b7 \<and> \<not> b6 \<and> b5 \<and> b4 \<and> \<not> (b3 \<and> (b2 \<or> b1)))"
  by (cases b0; cases b1; cases b2; cases b3; cases b4; cases b5; cases b6; cases b7;
      simp add: is_digit_char_def)

text \<open>\<open>/^gemini-3(?:\.\d+)?-pro/i\<close> and its flash twin, by the text after the version.\<close>

definition gemini3_named :: "string \<Rightarrow> string \<Rightarrow> bool" where
  "gemini3_named tail s =
     (starts_with_i s ''gemini-3'' \<and>
      (let r = drop (length ''gemini-3'') (to_lower s) in
       starts_with r tail \<or>
       (case r of
          [] \<Rightarrow> False
        | c # ds \<Rightarrow> c = CHR ''.'' \<and> dropWhile is_digit_char ds \<noteq> ds
                    \<and> starts_with (dropWhile is_digit_char ds) tail)))"

definition isGemini3ProModel :: "string \<Rightarrow> bool" where
  "isGemini3ProModel m = gemini3_named ''-pro'' m"

definition isGemini3FlashModel :: "string \<Rightarrow> bool" where
  "isGemini3FlashModel m = gemini3_named ''-flash'' m"

definition isGemini35FlashModel :: "string \<Rightarrow> bool" where
  "isGemini35FlashModel m = starts_with_i m ''gemini-3.5-flash''"

definition is_image_name :: "string \<Rightarrow> bool" where
  "is_image_name m = (str_includes (to_lower m) ''image'' \<or> str_includes (to_lower m) ''imagen'')"

definition supportsThinkingTiers :: "string \<Rightarrow> bool" where
  "supportsThinkingTiers model =
     (let lower = to_lower model in
      isGeminiArgonModel lower \<or> str_includes lower ''gemini-3'' \<or> str_includes lower ''gemini-2.5''
      \<or> (str_includes lower ''claude'' \<and>
         (str_includes lower ''thinking'' \<or> starts_with lower ''claude-opus-5-5''
          \<or> starts_with lower ''claude-sonnet-5-5'')))"

definition extractThinkingTierFromModel :: "string \<Rightarrow> ThinkingTier option" where
  "extractThinkingTierFromModel model =
     (if \<not> supportsThinkingTiers model then None else tier_suffix model)"

datatype budget_family = BClaude | BGemini25Pro | BGemini25Flash | BDefault

text \<open>\<open>budgets[tier]\<close>: the table has no entry for the undeclared tier \<open>minimal\<close>.\<close>

fun THINKING_TIER_BUDGETS :: "budget_family \<Rightarrow> ThinkingTier \<Rightarrow> int option" where
  "THINKING_TIER_BUDGETS f Minimal = None"
| "THINKING_TIER_BUDGETS BClaude Low = Some 8192"
| "THINKING_TIER_BUDGETS BClaude Medium = Some 16384"
| "THINKING_TIER_BUDGETS BClaude High = Some 32768"
| "THINKING_TIER_BUDGETS BGemini25Pro Low = Some 8192"
| "THINKING_TIER_BUDGETS BGemini25Pro Medium = Some 16384"
| "THINKING_TIER_BUDGETS BGemini25Pro High = Some 32768"
| "THINKING_TIER_BUDGETS BGemini25Flash Low = Some 6144"
| "THINKING_TIER_BUDGETS BGemini25Flash Medium = Some 12288"
| "THINKING_TIER_BUDGETS BGemini25Flash High = Some 24576"
| "THINKING_TIER_BUDGETS BDefault Low = Some 4096"
| "THINKING_TIER_BUDGETS BDefault Medium = Some 8192"
| "THINKING_TIER_BUDGETS BDefault High = Some 16384"

definition getBudgetFamily :: "string \<Rightarrow> budget_family" where
  "getBudgetFamily model =
     (if str_includes model ''claude'' then BClaude
      else if str_includes model ''gemini-2.5-pro'' then BGemini25Pro
      else if str_includes model ''gemini-2.5-flash'' then BGemini25Flash
      else BDefault)"

definition isThinkingCapableModel :: "string \<Rightarrow> bool" where
  "isThinkingCapableModel model =
     (let lower = to_lower model in
      str_includes lower ''thinking'' \<or> str_includes lower ''gemini-3'' \<or> str_includes lower ''gemini-2.5'')"

definition getAgyGeminiFlashThinkingBudget :: "ThinkingTier option \<Rightarrow> int \<Rightarrow> int" where
  "getAgyGeminiFlashThinkingBudget tier highBudget =
     (if tier = Some Low then 1000 else if tier = Some High then highBudget else 4000)"

definition getAgyGemini31ProModel :: "ThinkingTier option \<Rightarrow> string" where
  "getAgyGemini31ProModel tier = (if tier = Some High then ''gemini-3.1-pro-high'' else ''gemini-3.1-pro-low'')"

definition getAgyGemini31ProThinkingBudget :: "ThinkingTier option \<Rightarrow> int" where
  "getAgyGemini31ProThinkingBudget tier = (if tier = Some High then 10001 else 1001)"

section \<open>Resolution\<close>

datatype search_mode = SearchAuto | SearchOff

record GoogleSearchConfig =
  gs_mode :: "search_mode option"
  gs_threshold :: "num option"

record ResolvedModel =
  rm_actualModel :: string
  rm_thinkingLevel :: "string option"
  rm_thinkingBudget :: "int option"
  rm_tier :: "ThinkingTier option"
  rm_isThinkingModel :: bool
  rm_isImageModel :: bool
  rm_fromVariant :: bool
  rm_googleSearch :: "GoogleSearchConfig option"

definition resolved :: "string \<Rightarrow> bool \<Rightarrow> ResolvedModel" where
  "resolved actual thinking =
     \<lparr>rm_actualModel = actual, rm_thinkingLevel = None, rm_thinkingBudget = None, rm_tier = None,
      rm_isThinkingModel = thinking, rm_isImageModel = False, rm_fromVariant = False,
      rm_googleSearch = None\<rparr>"

text \<open>\<open>MODEL_ALIASES[a] || MODEL_ALIASES[b] || b\<close>.\<close>

definition alias_of :: "string \<Rightarrow> string \<Rightarrow> string" where
  "alias_of a b =
     (case map_of RESOLVER_ALIASES a of
        Some x \<Rightarrow> x
      | None \<Rightarrow> (case map_of RESOLVER_ALIASES b of Some x \<Rightarrow> x | None \<Rightarrow> b))"

text \<open>The tiered Flash routes, one branch per version of the source.\<close>

definition resolve_flash :: "string \<Rightarrow> ThinkingTier option \<Rightarrow> ResolvedModel option" where
  "resolve_flash baseName tier =
     (let t = Some (nullish tier Medium);
          r = (\<lambda>actual. (resolved actual True)
                 \<lparr>rm_thinkingBudget := Some (getAgyGeminiFlashThinkingBudget tier (-1)), rm_tier := t\<rparr>)
      in if starts_with_i baseName ''gemini-3.5-flash'' then Some (r (getGemini35FlashAntigravityModel t))
         else if starts_with_i baseName ''gemini-3.6-flash'' then Some (r (getGemini36FlashAntigravityModel t))
         else if starts_with_i baseName ''gemini-3.7-flash'' then Some (r (getGemini37FlashAntigravityModel t))
         else if starts_with_i baseName ''gemini-3.8-flash'' then Some (r (getGemini38FlashAntigravityModel t))
         else None)"

text \<open>The part of the resolution after the routed families: aliases and default thinking.\<close>

definition resolve_generic :: "bool \<Rightarrow> string \<Rightarrow> string \<Rightarrow> ThinkingTier option \<Rightarrow> ResolvedModel" where
  "resolve_generic isAntigravity modelWithoutQuota baseName tier =
     (let lowerQ = to_lower modelWithoutQuota;
          isGemini3 = starts_with lowerQ ''gemini-3'';
          skipAlias = isAntigravity \<and> isGemini3;
          isGemini3Pro = isGemini3ProModel modelWithoutQuota;
          isGemini3Flash = isGemini3FlashModel modelWithoutQuota;
          isImageModel = is_image_name modelWithoutQuota;
          antigravityModel =
            (if skipAlias \<and> (isGemini3Pro \<or> isGemini3Flash) \<and> tier = None \<and> \<not> isImageModel
             then modelWithoutQuota @ ''-'' @ (if isGemini3Pro then ''low'' else ''medium'')
             else modelWithoutQuota);
          resolvedModel =
            (if skipAlias then antigravityModel else alias_of modelWithoutQuota baseName);
          lower = to_lower resolvedModel;
          isThinking = isThinkingCapableModel resolvedModel;
          isEffectiveGemini3 = str_includes lower ''gemini-3'';
          isClaudeThinking =
            (str_includes lower ''claude'' \<and> str_includes lower ''thinking'')
            \<or> (str_includes lowerQ ''claude'' \<and> str_includes lowerQ ''thinking'')
            \<or> lowerQ = ''gemini-claude-sonnet-4-6''
      in if isImageModel then (resolved resolvedModel False)\<lparr>rm_isImageModel := True\<rparr>
         else case tier of
           None \<Rightarrow>
             (if isEffectiveGemini3
              then (resolved resolvedModel True)
                     \<lparr>rm_thinkingLevel :=
                        Some (if starts_with_i baseName ''gemini-3.5-flash'' then ''medium'' else ''low'')\<rparr>
              else if isClaudeThinking
              then (resolved resolvedModel True)\<lparr>rm_thinkingBudget := Some 1024\<rparr>
              else resolved resolvedModel isThinking)
         | Some t \<Rightarrow>
             (if isEffectiveGemini3
              then (resolved resolvedModel True)\<lparr>rm_thinkingLevel := Some (tier_name t), rm_tier := Some t\<rparr>
              else if isClaudeThinking
              then (resolved resolvedModel True)\<lparr>rm_thinkingBudget := Some 1024, rm_tier := Some t\<rparr>
              else (resolved resolvedModel isThinking)
                     \<lparr>rm_thinkingBudget := THINKING_TIER_BUDGETS (getBudgetFamily resolvedModel) t,
                      rm_tier := Some t\<rparr>))"

definition resolveModelWithTier :: "string \<Rightarrow> ResolvedModel" where
  "resolveModelWithTier requestedModel =
     (let isAntigravity = has_quota_prefix requestedModel;
          modelWithoutQuota = drop_quota_prefix requestedModel;
          tier = extractThinkingTierFromModel modelWithoutQuota;
          baseName = (if tier \<noteq> None then drop_tier modelWithoutQuota else modelWithoutQuota);
          isImageModel = is_image_name modelWithoutQuota;
          lowerQ = to_lower modelWithoutQuota;
          groupedGemini35Tier = (isAntigravity \<and>
            lowerQ \<in> {''gemini-3.5-flash-low'', ''gemini-3.5-flash-medium'', ''gemini-3.5-flash-high''})
      in if isGeminiArgonModel modelWithoutQuota then
           (resolved (getGeminiArgonAntigravityModel tier) True)
             \<lparr>rm_thinkingLevel := Some (tier_name (nullish tier Medium)), rm_tier := Some (nullish tier Medium)\<rparr>
         else case (if groupedGemini35Tier then None else getAgyNativeModel modelWithoutQuota) of
           Some native \<Rightarrow>
             (resolved modelWithoutQuota (nullish (nm_supportsThinking native) False))
               \<lparr>rm_thinkingBudget :=
                  (if nm_supportsAdaptiveThinking native = Some True then Some 0
                   else nm_thinkingBudget native),
                rm_isImageModel := isImageModel, rm_tier := tier\<rparr>
         | None \<Rightarrow>
             (if lowerQ = ''claude-opus-5-5'' \<or> lowerQ = ''claude-sonnet-5-5'' then
                (resolved (modelWithoutQuota @ ''-low'') True)
                  \<lparr>rm_thinkingBudget := Some 0, rm_tier := Some Low\<rparr>
              else if starts_with_i baseName ''gemini-3.1-pro'' then
                (resolved (getAgyGemini31ProModel tier) True)
                  \<lparr>rm_thinkingBudget := Some (getAgyGemini31ProThinkingBudget tier), rm_tier := tier\<rparr>
              else case resolve_flash baseName tier of
                Some r \<Rightarrow> r
              | None \<Rightarrow>
                  (if to_lower baseName = ''gpt-oss-120b'' \<or> to_lower baseName = ''gpt-oss-120b-medium'' then
                     (resolved ''gpt-oss-120b-medium'' True)\<lparr>rm_thinkingBudget := Some 8192\<rparr>
                   else resolve_generic isAntigravity modelWithoutQuota baseName tier)))"

datatype model_family = MClaude | MGeminiFlash | MGeminiPro

definition transformModelFamily :: "string \<Rightarrow> model_family" where
  "transformModelFamily model =
     (let lower = to_lower model in
      if str_includes lower ''claude'' then MClaude
      else if str_includes lower ''flash'' then MGeminiFlash
      else MGeminiPro)"

definition budgetToGemini3Level :: "int \<Rightarrow> ThinkingTier" where
  "budgetToGemini3Level budget = (if budget \<le> 8192 then Low else if budget \<le> 16384 then Medium else High)"

text \<open>The suffix removals of \<open>resolveAntigravityModel\<close>, case-insensitive.\<close>

definition strip_suffix_i :: "string \<Rightarrow> string \<Rightarrow> string" where
  "strip_suffix_i p s = (if ends_with (to_lower s) p then take (length s - length p) s else s)"

definition resolveAntigravityModel :: "string \<Rightarrow> ResolvedModel" where
  "resolveAntigravityModel requestedModel =
     (if \<not> str_includes (to_lower requestedModel) ''gemini-3'' then resolveModelWithTier requestedModel
      else
        let stripped = drop_quota_prefix
              (strip_suffix_i ''-preview'' (strip_suffix_i ''-preview-customtools'' requestedModel));
            isGemini3Pro = isGemini3ProModel stripped;
            isGemini3Flash = isGemini3FlashModel stripped;
            hasTierSuffix = (tier_suffix (to_lower stripped) \<noteq> None);
            isGemini35Flash = isGemini35FlashModel (drop_tier stripped);
            transformed =
              (if (isGemini3Pro \<or> isGemini3Flash) \<and> \<not> isGemini35Flash \<and> \<not> hasTierSuffix
                  \<and> \<not> is_image_name stripped
               then stripped @ ''-'' @ (if isGemini3Pro then ''low'' else ''medium'')
               else stripped)
        in resolveModelWithTier (QUOTA_PREFIX @ transformed))"

record VariantConfig =
  vc_thinkingBudget :: "int option"
  vc_thinkingLevel :: "ThinkingTier option"
  vc_googleSearch :: "GoogleSearchConfig option"

text \<open>\<open>name.replace(/-(low|medium|high)$/, '')\<close>: this expression lacks \<open>minimal\<close>.\<close>

definition drop_level :: "string \<Rightarrow> string" where
  "drop_level s =
     (if ends_with s ''-low'' then strip_suffix ''-low'' s
      else if ends_with s ''-medium'' then strip_suffix ''-medium'' s
      else strip_suffix ''-high'' s)"

definition resolve_gemini3_budget :: "string \<Rightarrow> ResolvedModel \<Rightarrow> int \<Rightarrow> ResolvedModel" where
  "resolve_gemini3_budget requestedModel base budget =
     (let level = budgetToGemini3Level budget;
          requestedBase = drop_tier (drop_quota_prefix requestedModel);
          isGemini35FlashAlias = (isGemini35FlashModel requestedBase
            \<or> rm_actualModel base = ''gemini-3-flash-agent'' \<or> rm_actualModel base = ''gemini-3.5-flash-low'');
          isAntigravityGemini3WithTier =
            (isGemini3ProModel (rm_actualModel base) \<or> isGemini3FlashModel (rm_actualModel base));
          actualModel =
            (if isGemini35FlashAlias then getGemini35FlashAntigravityModel (Some level)
             else if isAntigravityGemini3WithTier
             then drop_level (rm_actualModel base) @ ''-'' @ tier_name level
             else rm_actualModel base)
      in base\<lparr>rm_actualModel := actualModel, rm_thinkingLevel := Some (tier_name level),
              rm_thinkingBudget := None, rm_fromVariant := True\<rparr>)"

definition resolveModelWithVariant :: "string \<Rightarrow> VariantConfig option \<Rightarrow> ResolvedModel" where
  "resolveModelWithVariant requestedModel variantConfig =
     (let base = resolveModelWithTier requestedModel in
      case variantConfig of
        None \<Rightarrow> base
      | Some vc \<Rightarrow>
          if isGeminiArgonModel (rm_actualModel base)
             \<or> (case getAgyNativeModel (rm_actualModel base) of
                   None \<Rightarrow> False | Some n \<Rightarrow> nm_supportsAdaptiveThinking n = Some True)
          then (case vc_thinkingLevel vc of
                  None \<Rightarrow> base
                | Some level \<Rightarrow>
                    (resolveModelWithTier (drop_tier (rm_actualModel base) @ ''-'' @ tier_name level))
                      \<lparr>rm_googleSearch := vc_googleSearch vc, rm_fromVariant := True\<rparr>)
          else
            let base' = (if vc_googleSearch vc \<noteq> None
                         then base\<lparr>rm_googleSearch := vc_googleSearch vc, rm_fromVariant := True\<rparr>
                         else base)
            in case vc_thinkingBudget vc of
                 None \<Rightarrow> base'
               | Some budget \<Rightarrow>
                   (if budget = 0 then base'
                    else if str_includes (to_lower (rm_actualModel base')) ''gemini-3''
                    then resolve_gemini3_budget requestedModel base' budget
                    else base'\<lparr>rm_thinkingBudget := Some budget, rm_fromVariant := True\<rparr>))"

section \<open>Facts\<close>

lemma native_names_resolve_to_themselves:
  "list_all (\<lambda>(n, _). rm_actualModel (resolveModelWithTier n) = n) AGY_NATIVE_MODEL_DEFINITIONS"
  by code_simp

lemma native_names_not_retired:
  "list_all (\<lambda>(n, _). \<not> isRetiredAgyModel n) AGY_NATIVE_MODEL_DEFINITIONS"
  by code_simp

lemma tier_budgets_ordered:
  "\<exists>a b c. THINKING_TIER_BUDGETS f Low = Some a \<and> THINKING_TIER_BUDGETS f Medium = Some b
     \<and> THINKING_TIER_BUDGETS f High = Some c \<and> 0 < a \<and> a < b \<and> b < c"
  by (cases f) simp_all

end
