(* ===== verification/Json_Access.thy ===== *)
theory Json_Access
  imports Json Text
begin

text \<open>
  Reading JSON values the way loosely typed code does: optional chaining, truthiness and
  \<open>x.parts || []\<close> with the \<open>TypeError\<close> of calling an array method on something else
  (\<open>None\<close> of the outer option). Property names of the models are never those of
  \<open>Object.prototype\<close>, \<open>String.prototype\<close> or \<open>Array.prototype\<close>.
\<close>

text \<open>\<open>v?.k\<close> for an own property; \<open>undefined\<close> on every value without properties.\<close>

definition fld :: "json \<Rightarrow> string \<Rightarrow> json option" where
  "fld v k = (case v of JObj ob \<Rightarrow> map_of ob k | _ \<Rightarrow> None)"

lemma fld_simps [simp]:
  "fld (JObj ob) k = map_of ob k" "fld JNull k = None" "fld (JBool b) k = None"
  "fld (JNum n) k = None" "fld (JStr s) k = None" "fld (JArr xs) k = None"
  by (simp_all add: fld_def)

definition truthy :: "json \<Rightarrow> bool" where
  "truthy v = (case v of JNull \<Rightarrow> False | JBool b \<Rightarrow> b | JNum n \<Rightarrow> n \<noteq> 0 | JStr s \<Rightarrow> s \<noteq> [] | _ \<Rightarrow> True)"

definition truthy_fld :: "json \<Rightarrow> string \<Rightarrow> bool" where
  "truthy_fld v k = (case fld v k of None \<Rightarrow> False | Some x \<Rightarrow> truthy x)"

text \<open>\<open>(v.k || [])\<close> used as an array: \<open>None\<close> when a truthy value is not one.\<close>

definition array_or_empty :: "json \<Rightarrow> string \<Rightarrow> json list option" where
  "array_or_empty v k =
     (case fld v k of
        None \<Rightarrow> Some []
      | Some (JArr xs) \<Rightarrow> Some xs
      | Some x \<Rightarrow> if truthy x then None else Some [])"

definition is_str :: "json option \<Rightarrow> string \<Rightarrow> bool" where
  "is_str v s = (v = Some (JStr s))"

definition arr_fld :: "json \<Rightarrow> string \<Rightarrow> json list option" where
  "arr_fld v k = (case fld v k of Some (JArr xs) \<Rightarrow> Some xs | _ \<Rightarrow> None)"

lemma arr_fld_array_or_empty: "arr_fld v k = Some xs \<Longrightarrow> array_or_empty v k = Some xs"
  by (auto simp: arr_fld_def array_or_empty_def split: option.splits json.splits)

text \<open>\<open>{ ...o, k: v }\<close> on an object; spreads of other values are not used by the models.\<close>

definition with_fld :: "json \<Rightarrow> string \<Rightarrow> json \<Rightarrow> json" where
  "with_fld v k x = (case v of JObj ob \<Rightarrow> JObj (AList.update k x ob) | _ \<Rightarrow> JObj [(k, x)])"

lemma fld_with_fld [simp]:
  "fld (with_fld (JObj ob) k x) k' = (if k' = k then Some x else map_of ob k')"
  by (simp add: with_fld_def update_conv)

text \<open>\<open>{ ...a, ...b }\<close>.\<close>

definition spread :: "('k, 'v) jsmap \<Rightarrow> ('k, 'v) jsmap \<Rightarrow> ('k, 'v) jsmap" where
  "spread a b = foldl (\<lambda>r (k, v). AList.update k v r) a b"

lemma map_of_spread: "map_of (spread a b) k = (case map_of (rev b) k of Some v \<Rightarrow> Some v | None \<Rightarrow> map_of a k)"
  unfolding spread_def
  by (induction b arbitrary: a rule: rev_induct) (auto simp: update_conv split: option.split)

lemma spread_wf: "jm_wf a \<Longrightarrow> jm_wf (spread a b)"
  unfolding spread_def by (induction b arbitrary: a) auto

lemma map_of_rev: "jm_wf m \<Longrightarrow> map_of (rev m) = map_of m"
  by (rule map_of_inject_set [THEN iffD2]) (auto simp: jm_wf_def rev_map [symmetric])

lemma spread_other: "k \<notin> fst ` set b \<Longrightarrow> map_of (spread a b) k = map_of a k"
  by (simp add: map_of_spread map_of_eq_None_iff [THEN iffD2] split: option.split)

lemma spread_in: "jm_wf b \<Longrightarrow> map_of b k = Some v \<Longrightarrow> map_of (spread a b) k = Some v"
  by (simp add: map_of_spread map_of_rev)

end
