(* ===== verification/Account_Storage.thy ===== *)
theory Account_Storage
  imports Json_Access "HOL-Library.Sublist"
begin

text \<open>
  \<^verbatim>\<open>packages/core/src/account-storage.ts\<close>: the stored account pool. Accounts are JavaScript
  objects (own properties in order, a value may be \<open>undefined\<close>), because the merge spreads
  them. What \<open>readFile\<close> and \<open>JSON.parse\<close> give is a \<open>file_text\<close>; the lock, the ownership check
  and the write are answers of the environment. Fields other than the validated ones are
  taken to have their declared types where the code computes with them.
\<close>

section \<open>Objects with undefined values\<close>

type_synonym js_rec = "(string, json option) jsmap"

definition get_fld :: "js_rec \<Rightarrow> string \<Rightarrow> json option" where
  "get_fld r k = (case map_of r k of Some (Some v) \<Rightarrow> Some v | _ \<Rightarrow> None)"

definition rec_of :: "js_object \<Rightarrow> js_rec" where
  "rec_of ob = map (\<lambda>(k, v). (k, Some v)) ob"

text \<open>\<open>JSON.stringify\<close> leaves properties out whose value is \<open>undefined\<close>.\<close>

definition json_of :: "js_rec \<Rightarrow> js_object" where
  "json_of r = List.map_filter (\<lambda>(k, v). map_option (\<lambda>x. (k, x)) v) r"

text \<open>\<open>x || 0\<close>, \<open>x ?? 0\<close> on a number field and \<open>a.k ?? b.k\<close>.\<close>

definition num_fld :: "js_rec \<Rightarrow> string \<Rightarrow> num" where
  "num_fld r k = (case get_fld r k of Some (JNum n) \<Rightarrow> n | _ \<Rightarrow> 0)"

definition first_fld :: "js_rec \<Rightarrow> js_rec \<Rightarrow> string \<Rightarrow> json option" where
  "first_fld a b k = (case get_fld a k of None \<Rightarrow> get_fld b k | Some JNull \<Rightarrow> get_fld b k | Some v \<Rightarrow> Some v)"

definition obj_fld :: "js_rec \<Rightarrow> string \<Rightarrow> js_object" where
  "obj_fld r k = (case get_fld r k of Some (JObj ob) \<Rightarrow> ob | _ \<Rightarrow> [])"

definition truthy_opt :: "json option \<Rightarrow> bool" where
  "truthy_opt v = (case v of None \<Rightarrow> False | Some x \<Rightarrow> truthy x)"

section \<open>Deduplication\<close>

text \<open>The key of the email map: objects are compared by identity, other values by value.\<close>

datatype email_key = ByValue json | ByIdentity nat

definition email_key_of :: "nat \<Rightarrow> js_rec \<Rightarrow> email_key option" where
  "email_key_of i acc =
     (case get_fld acc ''email'' of
        None \<Rightarrow> None
      | Some v \<Rightarrow>
          if \<not> truthy v then None
          else Some (case v of JArr _ \<Rightarrow> ByIdentity i | JObj _ \<Rightarrow> ByIdentity i | _ \<Rightarrow> ByValue v))"

definition is_newer :: "js_rec \<Rightarrow> js_rec \<Rightarrow> bool" where
  "is_newer acc old =
     (num_fld old ''lastUsed'' < num_fld acc ''lastUsed''
      \<or> num_fld acc ''lastUsed'' = num_fld old ''lastUsed''
        \<and> num_fld old ''addedAt'' < num_fld acc ''addedAt'')"

definition dedup_step ::
  "js_rec list \<Rightarrow> (email_key, nat) jsmap \<times> nat set \<Rightarrow> nat \<Rightarrow> (email_key, nat) jsmap \<times> nat set" where
  "dedup_step accounts st i =
     (let (newest, keep) = st; acc = accounts ! i in
      case email_key_of i acc of
        None \<Rightarrow> (newest, insert i keep)
      | Some key \<Rightarrow>
          (case map_of newest key of
             None \<Rightarrow> (AList.update key i newest, keep)
           | Some existingIndex \<Rightarrow>
               if is_newer acc (accounts ! existingIndex) then (AList.update key i newest, keep)
               else (newest, keep)))"

definition kept_indices :: "js_rec list \<Rightarrow> nat set" where
  "kept_indices accounts =
     (let (newest, keep) = foldl (dedup_step accounts) ([], {}) [0..<length accounts]
      in keep \<union> snd ` set newest)"

definition deduplicateAccountsByEmail :: "js_rec list \<Rightarrow> js_rec list" where
  "deduplicateAccountsByEmail accounts =
     map ((!) accounts) (filter (\<lambda>i. i \<in> kept_indices accounts) [0..<length accounts])"

section \<open>Migrations\<close>

text \<open>\<open>t && t > now\<close> on a stored time.\<close>

definition future_time :: "json option \<Rightarrow> millis \<Rightarrow> bool" where
  "future_time v now = (case v of Some (JNum t) \<Rightarrow> t \<noteq> 0 \<and> now < t | _ \<Rightarrow> False)"

definition kept_fields :: "(string \<Rightarrow> json option) \<Rightarrow> js_object \<Rightarrow> js_rec" where
  "kept_fields get rates =
     map (\<lambda>k. (k, get k)) [''email'', ''refreshToken'', ''projectId'', ''managedProjectId'', ''addedAt'',
       ''lastUsed'', ''lastSwitchReason'']
     @ [(''rateLimitResetTimes'', if rates = [] then None else Some (JObj rates))]"

definition migrateV1ToV2 :: "millis \<Rightarrow> (string \<Rightarrow> json option) \<Rightarrow> js_rec" where
  "migrateV1ToV2 now get =
     kept_fields get
       (if truthy_opt (get ''isRateLimited'') \<and> future_time (get ''rateLimitResetTime'') now
        then [(''claude'', the (get ''rateLimitResetTime'')), (''gemini'', the (get ''rateLimitResetTime''))]
        else [])"

definition migrateV2ToV3 :: "millis \<Rightarrow> (string \<Rightarrow> json option) \<Rightarrow> js_rec" where
  "migrateV2ToV3 now get =
     (let rate = (\<lambda>k. Option.bind (get ''rateLimitResetTimes'') (\<lambda>r. fld r k)) in
      kept_fields get
        ((if future_time (rate ''claude'') now then [(''claude'', the (rate ''claude''))] else [])
         @ (if future_time (rate ''gemini'') now then [(''gemini-antigravity'', the (rate ''gemini''))] else [])))"

definition migrateV3ToV4 :: "js_rec \<Rightarrow> js_rec" where
  "migrateV3ToV4 acc = spread acc [(''fingerprint'', None), (''fingerprintHistory'', None)]"

text \<open>
  One stored entry of each version as an entry of version 4: the outer \<open>None\<close> is the
  \<open>TypeError\<close> of reading a property of \<open>null\<close>, the inner one a value that is no object.
\<close>

definition entry_v1 :: "millis \<Rightarrow> json \<Rightarrow> js_rec option option" where
  "entry_v1 now v =
     (if v = JNull then None
      else Some (Some (migrateV3ToV4 (migrateV2ToV3 now (get_fld (migrateV1ToV2 now (fld v)))))))"

definition entry_v2 :: "millis \<Rightarrow> json \<Rightarrow> js_rec option option" where
  "entry_v2 now v = (if v = JNull then None else Some (Some (migrateV3ToV4 (migrateV2ToV3 now (fld v)))))"

definition entry_v3 :: "json \<Rightarrow> js_rec option option" where
  "entry_v3 v = Some (Some (migrateV3ToV4 (case v of JObj ob \<Rightarrow> rec_of ob | _ \<Rightarrow> [])))"

definition entry_v4 :: "json \<Rightarrow> js_rec option option" where
  "entry_v4 v = Some (case v of JObj ob \<Rightarrow> Some (rec_of ob) | _ \<Rightarrow> None)"

section \<open>Merging\<close>

record AccountStorageV4 =
  st_accounts :: "js_rec list"
  st_activeIndex :: num
  st_activeIndexByFamily :: "json option"

definition token_of :: "js_rec \<Rightarrow> string option" where
  "token_of acc = (case get_fld acc ''refreshToken'' of Some (JStr s) \<Rightarrow> if s = [] then None else Some s | _ \<Rightarrow> None)"

definition merge_account :: "js_rec \<Rightarrow> js_rec \<Rightarrow> js_rec" where
  "merge_account existingAcc acc =
     (let eligibilitySource =
            (if num_fld existingAcc ''eligibilityStateUpdatedAt'' \<le> num_fld acc ''eligibilityStateUpdatedAt''
             then acc else existingAcc);
          merged = spread (spread existingAcc acc)
            [(''projectId'', first_fld acc existingAcc ''projectId''),
             (''managedProjectId'', first_fld acc existingAcc ''managedProjectId''),
             (''rateLimitResetTimes'', Some (JObj (spread (obj_fld existingAcc ''rateLimitResetTimes'')
                                                      (obj_fld acc ''rateLimitResetTimes'')))),
             (''lastUsed'', Some (JNum (max (num_fld existingAcc ''lastUsed'') (num_fld acc ''lastUsed'')))),
             (''accountIneligible'', get_fld eligibilitySource ''accountIneligible''),
             (''accountIneligibleAt'', get_fld eligibilitySource ''accountIneligibleAt''),
             (''accountIneligibleReason'', get_fld eligibilitySource ''accountIneligibleReason''),
             (''eligibilityStateUpdatedAt'', get_fld eligibilitySource ''eligibilityStateUpdatedAt'')]
      in if truthy_opt (get_fld merged ''accountIneligible'')
         then AList.update ''enabled'' (Some (JBool False)) merged else merged)"

definition put_existing :: "(string, js_rec) jsmap \<Rightarrow> js_rec \<Rightarrow> (string, js_rec) jsmap" where
  "put_existing m acc = (case token_of acc of None \<Rightarrow> m | Some t \<Rightarrow> AList.update t acc m)"

definition put_incoming :: "(string, js_rec) jsmap \<Rightarrow> js_rec \<Rightarrow> (string, js_rec) jsmap" where
  "put_incoming m acc =
     (case token_of acc of
        None \<Rightarrow> m
      | Some t \<Rightarrow> AList.update t (case map_of m t of None \<Rightarrow> acc | Some e \<Rightarrow> merge_account e acc) m)"

definition mergeAccountStorage :: "AccountStorageV4 \<Rightarrow> AccountStorageV4 \<Rightarrow> AccountStorageV4" where
  "mergeAccountStorage existing incoming =
     (let accountMap = foldl put_incoming (foldl put_existing [] (st_accounts existing)) (st_accounts incoming)
      in \<lparr>st_accounts = map snd accountMap, st_activeIndex = st_activeIndex incoming,
          st_activeIndexByFamily = st_activeIndexByFamily incoming\<rparr>)"

section \<open>Reading\<close>

text \<open>What reading and parsing the file gives; \<open>to_str\<close> is JavaScript's \<open>String\<close> of a value.\<close>

datatype file_text = FileMissing | FileError "string option" string | FileMalformed string | FileParsed json

datatype AccountStorageUnreadableReason = MalformedJson | InvalidShape | UnsupportedVersion | IoError

datatype StorageReadOutcome =
  ReadMissing
| ReadOk AccountStorageV4
| ReadUnreadable AccountStorageUnreadableReason string

definition finite_number :: "json option \<Rightarrow> bool" where
  "finite_number v = (case v of Some (JNum _) \<Rightarrow> True | _ \<Rightarrow> False)"

definition validateV4AccountRecord :: "js_rec option \<Rightarrow> nat \<Rightarrow> string option" where
  "validateV4AccountRecord entry index =
     (let place = ''accounts['' @ show_nat index @ '']'' in
      case entry of
        None \<Rightarrow> Some (place @ '' is not an object'')
      | Some acc \<Rightarrow>
          if token_of acc = None
          then Some (place @ ''.refreshToken is missing or not a non-empty string'')
          else if \<not> finite_number (get_fld acc ''addedAt'')
          then Some (place @ ''.addedAt is missing or not a finite number'')
          else if \<not> finite_number (get_fld acc ''lastUsed'')
          then Some (place @ ''.lastUsed is missing or not a finite number'')
          else None)"

fun first_invalid :: "nat \<Rightarrow> js_rec option list \<Rightarrow> string option" where
  "first_invalid i [] = None"
| "first_invalid i (e # rest) =
     (case validateV4AccountRecord e i of Some d \<Rightarrow> Some d | None \<Rightarrow> first_invalid (i + 1) rest)"

fun all_or_error :: "('a \<Rightarrow> 'b option) \<Rightarrow> 'a list \<Rightarrow> 'b list option" where
  "all_or_error f [] = Some []"
| "all_or_error f (x # xs) =
     (case f x of None \<Rightarrow> None | Some y \<Rightarrow> map_option (\<lambda>ys. y # ys) (all_or_error f xs))"

definition clamp_index :: "json option \<Rightarrow> nat \<Rightarrow> num" where
  "clamp_index activeIndex n =
     (let i = (case activeIndex of Some (JNum k) \<Rightarrow> k | _ \<Rightarrow> 0)
      in if 0 < n then max (min i (of_nat n - 1)) 0 else 0)"

text \<open>The entries and \<open>activeIndexByFamily\<close> after the migrations of the stored version.\<close>

definition migrate_stored :: "millis \<Rightarrow> json \<Rightarrow> json list \<Rightarrow> (js_rec option list \<times> json option) option option" where
  "migrate_stored now parsed entries =
     (let version = fld parsed ''version''; byFamily = fld parsed ''activeIndexByFamily'';
          run = (\<lambda>f b. map_option (\<lambda>es. Some (es, b)) (all_or_error f entries))
      in if version = Some (JNum 1) then run (entry_v1 now) None
         else if version = Some (JNum 2) then run (entry_v2 now) None
         else if version = Some (JNum 3) then run entry_v3 byFamily
         else if version = Some (JNum 4) then run entry_v4 byFamily
         else Some None)"

text \<open>The outer \<open>None\<close> is a \<open>TypeError\<close> thrown by a migration.\<close>

definition readAndNormalizeV4 ::
  "(json option \<Rightarrow> string) \<Rightarrow> millis \<Rightarrow> file_text \<Rightarrow> StorageReadOutcome option" where
  "readAndNormalizeV4 to_str now file =
     (case file of
        FileMissing \<Rightarrow> Some ReadMissing
      | FileError code message \<Rightarrow> Some (ReadUnreadable IoError (nullish code ''UNKNOWN'' @ '': '' @ message))
      | FileMalformed message \<Rightarrow> Some (ReadUnreadable MalformedJson message)
      | FileParsed parsed \<Rightarrow>
          if \<not> isPlainObject parsed
          then Some (ReadUnreadable InvalidShape ''top-level value is not an object'')
          else case arr_fld parsed ''accounts'' of
            None \<Rightarrow> Some (ReadUnreadable InvalidShape ''`accounts` is missing or not an array'')
          | Some entries \<Rightarrow>
              (case migrate_stored now parsed entries of
                 None \<Rightarrow> None
               | Some None \<Rightarrow>
                   Some (ReadUnreadable UnsupportedVersion (''unsupported version: '' @ to_str (fld parsed ''version'')))
               | Some (Some (records, byFamily)) \<Rightarrow>
                   (case first_invalid 0 records of
                      Some detail \<Rightarrow> Some (ReadUnreadable InvalidShape detail)
                    | None \<Rightarrow>
                        (let accounts = deduplicateAccountsByEmail (map the records) in
                         Some (ReadOk \<lparr>st_accounts = accounts,
                           st_activeIndex = clamp_index (fld parsed ''activeIndex'') (length accounts),
                           st_activeIndexByFamily = byFamily\<rparr>)))))"

section \<open>Writing under the lock\<close>

datatype lock_answer = LockBusy | LockFailed string | LockHeld

datatype storage_error =
  LockContention nat
| LockError string
| NotWritable string
| StorageUnreadable AccountStorageUnreadableReason string "string option"
| MigrationTypeError
| MutatorError string
| NotOwned string
| WriteError string

text \<open>
  The environment of one call: the answers of the lock, of the check for a migrated pool, of
  the ownership check and of the write (\<open>None\<close> is success), and the backup it can make.
\<close>

record storage_env =
  se_lock :: "nat \<Rightarrow> lock_answer"
  se_writable :: "string option"
  se_owned :: "string option"
  se_write :: "string option"
  se_backup :: "string option"
  se_to_str :: "json option \<Rightarrow> string"
  se_now :: millis

record storage_world =
  w_file :: file_text
  w_sleeps :: "millis list"
  w_backups :: "(string \<times> file_text) list"

definition RETRY_DELAYS_MS :: "millis list" where
  "RETRY_DELAYS_MS = [100, 200, 400, 800, 1000]"

text \<open>The attempts left are the delays not slept yet.\<close>

fun acquire :: "(nat \<Rightarrow> lock_answer) \<Rightarrow> nat \<Rightarrow> millis list \<Rightarrow> millis list \<Rightarrow> (storage_error + unit) \<times> millis list" where
  "acquire lock attempt slept delays =
     (case lock attempt of
        LockHeld \<Rightarrow> (Inr (), slept)
      | LockFailed e \<Rightarrow> (Inl (LockError e), slept)
      | LockBusy \<Rightarrow>
          (case delays of
             [] \<Rightarrow> (Inl (LockContention (length RETRY_DELAYS_MS + 1)), slept)
           | d # rest \<Rightarrow> acquire lock (attempt + 1) (slept @ [d]) rest))"

declare acquire.simps [simp del]

definition acquireWithRetry :: "storage_env \<Rightarrow> storage_world \<Rightarrow> (storage_error + unit) \<times> storage_world" where
  "acquireWithRetry env w =
     (let (r, slept) = acquire (se_lock env) 0 [] RETRY_DELAYS_MS
      in (r, w\<lparr>w_sleeps := w_sleeps w @ slept\<rparr>))"

definition backupCorruptFile :: "storage_env \<Rightarrow> storage_world \<Rightarrow> storage_world" where
  "backupCorruptFile env w =
     (case se_backup env of None \<Rightarrow> w | Some p \<Rightarrow> w\<lparr>w_backups := w_backups w @ [(p, w_file w)]\<rparr>)"

definition storage_json :: "AccountStorageV4 \<Rightarrow> json" where
  "storage_json s =
     JObj ([(''version'', JNum 4), (''accounts'', JArr (map (\<lambda>a. JObj (json_of a)) (st_accounts s))),
            (''activeIndex'', JNum (st_activeIndex s))]
           @ (case st_activeIndexByFamily s of None \<Rightarrow> [] | Some v \<Rightarrow> [(''activeIndexByFamily'', v)]))"

definition empty_pool :: AccountStorageV4 where
  "empty_pool = \<lparr>st_accounts = [], st_activeIndex = 0, st_activeIndexByFamily = None\<rparr>"

text \<open>The mutator may throw, keep the pool (\<open>undefined\<close>) or give the next one.\<close>

definition mutateAccountStorage ::
  "storage_env \<Rightarrow> (AccountStorageV4 \<Rightarrow> string + AccountStorageV4 option) \<Rightarrow> storage_world
   \<Rightarrow> (storage_error + AccountStorageV4) \<times> storage_world" where
  "mutateAccountStorage env mutate w0 =
     (let (got, w) = acquireWithRetry env w0 in
      case got of
        Inl e \<Rightarrow> (Inl e, w)
      | Inr _ \<Rightarrow>
          (case se_writable env of
             Some e \<Rightarrow> (Inl (NotWritable e), w)
           | None \<Rightarrow>
               (case readAndNormalizeV4 (se_to_str env) (se_now env) (w_file w) of
                  None \<Rightarrow> (Inl MigrationTypeError, w)
                | Some (ReadUnreadable reason detail) \<Rightarrow>
                    (Inl (StorageUnreadable reason detail (se_backup env)), backupCorruptFile env w)
                | Some outcome \<Rightarrow>
                    (let existing = (case outcome of ReadOk s \<Rightarrow> s | _ \<Rightarrow> empty_pool) in
                     case mutate existing of
                       Inl e \<Rightarrow> (Inl (MutatorError e), w)
                     | Inr next \<Rightarrow>
                         (let final = nullish next existing in
                          case se_owned env of
                            Some e \<Rightarrow> (Inl (NotOwned e), w)
                          | None \<Rightarrow>
                              (case se_write env of
                                 Some e \<Rightarrow> (Inl (WriteError e), w)
                               | None \<Rightarrow> (Inr final, w\<lparr>w_file := FileParsed (storage_json final)\<rparr>)))))))"

definition saveAccountStorage ::
  "storage_env \<Rightarrow> AccountStorageV4 \<Rightarrow> storage_world \<Rightarrow> (storage_error + AccountStorageV4) \<times> storage_world" where
  "saveAccountStorage env incoming =
     mutateAccountStorage env (\<lambda>current. Inr (Some (mergeAccountStorage current incoming)))"

definition saveAccountStorageReplace ::
  "storage_env \<Rightarrow> AccountStorageV4 \<Rightarrow> storage_world \<Rightarrow> (storage_error + AccountStorageV4) \<times> storage_world" where
  "saveAccountStorageReplace env incoming = mutateAccountStorage env (\<lambda>_. Inr (Some incoming))"

text \<open>The version on disk, when it is a number.\<close>

definition readVersionOnly :: "file_text \<Rightarrow> num option" where
  "readVersionOnly file =
     (case file of
        FileParsed parsed \<Rightarrow> (case fld parsed ''version'' of Some (JNum n) \<Rightarrow> Some n | _ \<Rightarrow> None)
      | _ \<Rightarrow> None)"

definition loadAccountStorage ::
  "storage_env \<Rightarrow> storage_world \<Rightarrow> (storage_error + AccountStorageV4 option) \<times> storage_world" where
  "loadAccountStorage env w =
     (case se_writable env of
        Some e \<Rightarrow> (Inl (NotWritable e), w)
      | None \<Rightarrow>
          (case readAndNormalizeV4 (se_to_str env) (se_now env) (w_file w) of
             None \<Rightarrow> (Inl MigrationTypeError, w)
           | Some ReadMissing \<Rightarrow> (Inr None, w)
           | Some (ReadUnreadable reason detail) \<Rightarrow>
               (Inl (StorageUnreadable reason detail (se_backup env)), backupCorruptFile env w)
           | Some (ReadOk s) \<Rightarrow>
               (case readVersionOnly (w_file w) of
                  None \<Rightarrow> (Inr (Some s), w)
                | Some v \<Rightarrow>
                    if v = 4 then (Inr (Some s), w) else (Inr (Some s), snd (saveAccountStorage env s w)))))"

text \<open>\<open>unlink\<close>: a missing file is a success.\<close>

definition clearAccountStorage :: "storage_env \<Rightarrow> storage_world \<Rightarrow> (storage_error + unit) \<times> storage_world" where
  "clearAccountStorage env w0 =
     (let (got, w) = acquireWithRetry env w0 in
      case got of
        Inl e \<Rightarrow> (Inl e, w)
      | Inr _ \<Rightarrow>
          (case se_writable env of
             Some e \<Rightarrow> (Inl (NotWritable e), w)
           | None \<Rightarrow>
               (case se_owned env of
                  Some e \<Rightarrow> (Inl (NotOwned e), w)
                | None \<Rightarrow>
                    (if w_file w = FileMissing then (Inr (), w)
                     else case se_write env of
                       Some e \<Rightarrow> (Inl (WriteError e), w)
                     | None \<Rightarrow> (Inr (), w\<lparr>w_file := FileMissing\<rparr>)))))"

section \<open>Facts about objects\<close>

lemma map_of_rec_of: "map_of (rec_of ob) k = map_option Some (map_of ob k)"
  by (induction ob) (auto simp: rec_of_def)

lemma map_of_json_of: "jm_wf r \<Longrightarrow> map_of (json_of r) k = get_fld r k"
proof (induction r)
  case Nil
  then show ?case by (simp add: json_of_def get_fld_def)
next
  case (Cons p r)
  obtain k1 v1 where p: "p = (k1, v1)" by fastforce
  have "jm_wf r" "map_of r k1 = None" using Cons.prems by (auto simp: p jm_wf_def map_of_eq_None_iff)
  moreover have "json_of (p # r) = (case v1 of None \<Rightarrow> [] | Some x \<Rightarrow> [(k1, x)]) @ json_of r"
    by (simp add: json_of_def p split: option.split)
  ultimately show ?case using Cons.IH by (auto simp: p get_fld_def split: option.split)
qed

lemma get_fld_rec_of: "get_fld (rec_of ob) k = map_of ob k"
  by (simp add: get_fld_def map_of_rec_of split: option.split)

definition clean :: "js_rec \<Rightarrow> js_rec" where
  "clean r = rec_of (json_of r)"

lemma get_fld_clean [simp]: "jm_wf r \<Longrightarrow> get_fld (clean r) = get_fld r"
  by (rule ext) (simp add: clean_def get_fld_rec_of map_of_json_of)

section \<open>What deduplication keeps\<close>

lemma newer_trans: "is_newer a b \<Longrightarrow> \<not> is_newer c b \<Longrightarrow> \<not> is_newer c a"
  by (auto simp: is_newer_def)

lemma newer_irrefl [simp]: "\<not> is_newer a a"
  by (simp add: is_newer_def)

definition dedup_inv :: "js_rec list \<Rightarrow> nat \<Rightarrow> (email_key, nat) jsmap \<times> nat set \<Rightarrow> bool" where
  "dedup_inv A n st \<longleftrightarrow>
     (let (newest, keep) = st; key = (\<lambda>i. email_key_of i (A ! i)) in
      keep = {i. i < n \<and> key i = None}
      \<and> (\<forall>i < n. \<forall>k. key i = Some k \<longrightarrow> map_of newest k \<noteq> None)
      \<and> (\<forall>k j. map_of newest k = Some j \<longrightarrow> j < n \<and> key j = Some k
            \<and> (\<forall>i < n. key i = Some k \<longrightarrow> \<not> is_newer (A ! i) (A ! j)))
      \<and> jm_wf newest)"

lemma dedup_inv_step:
  assumes "dedup_inv A n st"
  shows "dedup_inv A (Suc n) (dedup_step A st n)"
proof -
  obtain newest keep where st: "st = (newest, keep)" by fastforce
  show ?thesis
  proof (cases "email_key_of n (A ! n)")
    case None
    then show ?thesis using assms
      by (auto simp: st dedup_inv_def dedup_step_def Let_def less_Suc_eq)
  next
    case (Some k)
    show ?thesis
    proof (cases "map_of newest k")
      case None
      then show ?thesis using assms Some
        by (auto simp: st dedup_inv_def dedup_step_def Let_def less_Suc_eq update_conv)
    next
      case old: (Some j)
      show ?thesis
      proof (cases "is_newer (A ! n) (A ! j)")
        case True
        then show ?thesis using assms Some old newer_trans [OF True]
          by (auto simp: st dedup_inv_def dedup_step_def Let_def less_Suc_eq update_conv split: if_splits)
      next
        case False
        then show ?thesis using assms Some old
          by (auto simp: st dedup_inv_def dedup_step_def Let_def less_Suc_eq)
      qed
    qed
  qed
qed

lemma dedup_inv_all: "dedup_inv A n (foldl (dedup_step A) ([], {}) [0..<n])"
  by (induction n) (simp_all add: dedup_inv_step, simp add: dedup_inv_def)

lemma kept_facts:
  fixes A :: "js_rec list"
  defines "key \<equiv> \<lambda>i. email_key_of i (A ! i)"
  shows kept_below: "i \<in> kept_indices A \<Longrightarrow> i < length A"
    and kept_unique: "i \<in> kept_indices A \<Longrightarrow> j \<in> kept_indices A \<Longrightarrow> key i = Some k \<Longrightarrow> key j = Some k \<Longrightarrow> i = j"
    and kept_plain: "i < length A \<Longrightarrow> key i = None \<Longrightarrow> i \<in> kept_indices A"
    and kept_best: "i < length A \<Longrightarrow> key i = Some k \<Longrightarrow>
           \<exists>j \<in> kept_indices A. key j = Some k \<and> \<not> is_newer (A ! i) (A ! j)"
proof -
  obtain newest keep where f: "foldl (dedup_step A) ([], {}) [0..<length A] = (newest, keep)" by fastforce
  have inv: "dedup_inv A (length A) (newest, keep)" using dedup_inv_all [of A "length A"] by (simp add: f)
  have K: "kept_indices A = keep \<union> {j. \<exists>k. map_of newest k = Some j}"
    using inv by (force simp: kept_indices_def f dedup_inv_def jm_wf_def image_iff map_of_eq_Some_iff)
  note I = inv [unfolded dedup_inv_def Let_def split_beta fst_conv snd_conv, folded key_def]
  show "i \<in> kept_indices A \<Longrightarrow> i < length A" using I by (auto simp: K key_def)
  show "i \<in> kept_indices A \<Longrightarrow> j \<in> kept_indices A \<Longrightarrow> key i = Some k \<Longrightarrow> key j = Some k \<Longrightarrow> i = j"
    using I by (auto simp: K key_def)
  show "i < length A \<Longrightarrow> key i = None \<Longrightarrow> i \<in> kept_indices A" using I by (auto simp: K key_def)
  show "i < length A \<Longrightarrow> key i = Some k \<Longrightarrow>
      \<exists>j \<in> kept_indices A. key j = Some k \<and> \<not> is_newer (A ! i) (A ! j)"
    using I by (auto simp: K key_def) blast
qed

lemma all_kept:
  assumes "\<And>i j k. i < length A \<Longrightarrow> j < length A \<Longrightarrow> email_key_of i (A ! i) = Some k \<Longrightarrow>
      email_key_of j (A ! j) = Some k \<Longrightarrow> i = j"
  shows "deduplicateAccountsByEmail A = A"
proof -
  have "i \<in> kept_indices A" if "i < length A" for i
  proof (cases "email_key_of i (A ! i)")
    case None
    then show ?thesis using that by (rule kept_plain [rotated])
  next
    case (Some k)
    from kept_best [OF that this] obtain j
      where "j \<in> kept_indices A" "email_key_of j (A ! j) = Some k" by blast
    then show ?thesis using assms [OF that kept_below Some] by blast
  qed
  then have "filter (\<lambda>i. i \<in> kept_indices A) [0..<length A] = [0..<length A]" by simp
  then show ?thesis by (simp add: deduplicateAccountsByEmail_def map_nth)
qed

section \<open>The accounts deduplication leaves\<close>

definition email_of :: "js_rec \<Rightarrow> string option" where
  "email_of acc = (case get_fld acc ''email'' of Some (JStr s) \<Rightarrow> if s = [] then None else Some s | _ \<Rightarrow> None)"

lemma email_key_string: "email_key_of i acc = Some (ByValue (JStr e)) \<longleftrightarrow> email_of acc = Some e"
  by (auto simp: email_key_of_def email_of_def truthy_def split: option.splits json.splits)

lemma email_key_value: "email_key_of i acc = Some (ByValue v) \<longleftrightarrow> email_key_of j acc = Some (ByValue v)"
  by (auto simp: email_key_of_def split: option.splits json.splits if_splits)

lemma email_key_identity: "email_key_of i acc = Some (ByIdentity j) \<Longrightarrow> i = j"
  by (auto simp: email_key_of_def split: option.splits json.splits if_splits)

definition kept_list :: "js_rec list \<Rightarrow> nat list" where
  "kept_list A = filter (\<lambda>i. i \<in> kept_indices A) [0..<length A]"

lemma dedup_kept_list: "deduplicateAccountsByEmail A = map ((!) A) (kept_list A)"
  by (simp add: deduplicateAccountsByEmail_def kept_list_def)

lemma kept_list_facts [simp]: "distinct (kept_list A)" "set (kept_list A) = kept_indices A"
  using kept_below by (auto simp: kept_list_def)

lemma dedup_keys_unique:
  assumes "i < length (deduplicateAccountsByEmail A)" "j < length (deduplicateAccountsByEmail A)"
    and "email_key_of i (deduplicateAccountsByEmail A ! i) = Some k"
    and "email_key_of j (deduplicateAccountsByEmail A ! j) = Some k"
  shows "i = j"
proof (cases k)
  case (ByIdentity n)
  then show ?thesis using assms email_key_identity by metis
next
  case (ByValue v)
  define a b where "a = kept_list A ! i" and "b = kept_list A ! j"
  have kept: "a \<in> kept_indices A" "b \<in> kept_indices A"
    using assms by (auto simp: a_def b_def dedup_kept_list simp flip: kept_list_facts(2))
  have "email_key_of a (A ! a) = Some k" "email_key_of b (A ! b) = Some k"
    using assms email_key_value [of i _ v a] email_key_value [of j _ v b]
    by (auto simp: a_def b_def dedup_kept_list ByValue)
  then have "a = b" by (rule kept_unique [OF kept])
  then show ?thesis using assms by (simp add: a_def b_def dedup_kept_list nth_eq_iff_index_eq)
qed

lemma dedup_idem: "deduplicateAccountsByEmail (deduplicateAccountsByEmail A) = deduplicateAccountsByEmail A"
  by (rule all_kept) (rule dedup_keys_unique)

lemma dedup_members: "set (deduplicateAccountsByEmail A) \<subseteq> set A"
  using kept_below by (auto simp: dedup_kept_list)

lemma dedup_subseq: "subseq (deduplicateAccountsByEmail A) A"
proof -
  have "subseq (map ((!) A) (kept_list A)) (map ((!) A) [0..<length A])"
    unfolding kept_list_def by (rule subseq_map) simp
  then show ?thesis by (simp add: dedup_kept_list map_nth)
qed

lemma dedup_email_unique:
  assumes "i < length (deduplicateAccountsByEmail A)" "j < length (deduplicateAccountsByEmail A)"
    and "email_of (deduplicateAccountsByEmail A ! i) = Some e" "email_of (deduplicateAccountsByEmail A ! j) = Some e"
  shows "i = j"
  using assms(3,4)
  by (intro dedup_keys_unique [OF assms(1,2), of "ByValue (JStr e)"]) (simp_all add: email_key_string)

lemma not_newer_iff: "\<not> is_newer acc old \<longleftrightarrow>
    num_fld acc ''lastUsed'' < num_fld old ''lastUsed''
    \<or> num_fld acc ''lastUsed'' = num_fld old ''lastUsed'' \<and> num_fld acc ''addedAt'' \<le> num_fld old ''addedAt''"
  by (auto simp: is_newer_def)

lemma dedup_newest:
  assumes "acc \<in> set A" "email_of acc = Some e"
  obtains old where "old \<in> set (deduplicateAccountsByEmail A)" "email_of old = Some e" "\<not> is_newer acc old"
proof -
  obtain i where i: "i < length A" "A ! i = acc" using assms(1) by (auto simp: in_set_conv_nth)
  have "email_key_of i (A ! i) = Some (ByValue (JStr e))" using assms(2) i by (simp add: email_key_string)
  from kept_best [OF i(1) this] obtain j where "j \<in> kept_indices A"
    "email_key_of j (A ! j) = Some (ByValue (JStr e))" "\<not> is_newer (A ! i) (A ! j)" by blast
  then show ?thesis using i by (intro that [of "A ! j"]) (auto simp: dedup_kept_list email_key_string)
qed

lemma dedup_keeps_unnamed:
  assumes "acc \<in> set A" "get_fld acc ''email'' = None"
  shows "acc \<in> set (deduplicateAccountsByEmail A)"
proof -
  obtain i where i: "i < length A" "A ! i = acc" using assms(1) by (auto simp: in_set_conv_nth)
  then have "email_key_of i (A ! i) = None" using assms(2) by (simp add: email_key_of_def)
  from kept_plain [OF i(1) this] show ?thesis using i by (auto simp: dedup_kept_list)
qed

end
