(* ===== verification/Storage_Facts.thy ===== *)
theory Storage_Facts
  imports Account_Storage
begin

text \<open>
  What the stored pool keeps: the merge of two pools account by account, the round trip of a
  pool through the file, and the fail-closed mutation under the lock.
\<close>

section \<open>Merging\<close>

text \<open>The last account of a list with a refresh token.\<close>

definition account_with :: "string \<Rightarrow> js_rec list \<Rightarrow> js_rec option" where
  "account_with t accs = find (\<lambda>a. token_of a = Some t) (rev accs)"

lemma account_with_simps [simp]:
  "account_with t [] = None"
  "account_with t (accs @ [a]) = (if token_of a = Some t then Some a else account_with t accs)"
  by (simp_all add: account_with_def)

lemma account_with_token: "account_with t accs = Some a \<Longrightarrow> token_of a = Some t \<and> a \<in> set accs"
  by (induction accs rule: rev_induct) (auto split: if_splits)

lemma account_with_None: "account_with t accs = None \<longleftrightarrow> Some t \<notin> token_of ` set accs"
  by (induction accs rule: rev_induct) (auto simp: image_iff eq_commute)

lemma existing_lookup: "map_of (foldl put_existing [] E) t = account_with t E"
  by (induction E rule: rev_induct) (auto simp: put_existing_def update_conv split: option.split)

definition merged_with :: "js_rec option \<Rightarrow> js_rec option \<Rightarrow> js_rec option" where
  "merged_with old new =
     (case (old, new) of
        (Some e, Some a) \<Rightarrow> Some (merge_account e a)
      | (None, Some a) \<Rightarrow> Some a
      | (_, None) \<Rightarrow> old)"

lemma map_filter_one: "List.map_filter f [x] = (case f x of None \<Rightarrow> [] | Some y \<Rightarrow> [y])"
  by (simp add: List.map_filter_simps split: option.split)

lemma in_map_filter: "t \<in> set (List.map_filter f xs) \<longleftrightarrow> Some t \<in> f ` set xs"
  by (induction xs) (auto simp: List.map_filter_simps image_iff split: option.splits)

lemma incoming_lookup:
  assumes "distinct (List.map_filter token_of I)"
  shows "map_of (foldl put_incoming m I) t = merged_with (map_of m t) (account_with t I)"
  using assms
proof (induction I rule: rev_induct)
  case Nil
  then show ?case by (simp add: merged_with_def split: option.split)
next
  case (snoc a I)
  have fresh: "account_with t I = None" if "token_of a = Some t"
    using snoc.prems that
    by (simp add: account_with_None map_filter_append map_filter_one) (simp add: in_map_filter)
  have "distinct (List.map_filter token_of I)"
    using snoc.prems by (simp add: map_filter_append)
  then show ?case using snoc.IH fresh
    by (auto simp: put_incoming_def update_conv merged_with_def split: option.split)
qed

lemma put_existing_wf: "jm_wf m \<Longrightarrow> jm_wf (foldl put_existing m E)"
  by (induction E arbitrary: m) (auto simp: put_existing_def split: option.split)

lemma put_incoming_wf: "jm_wf m \<Longrightarrow> jm_wf (foldl put_incoming m I)"
  by (induction I arbitrary: m) (auto simp: put_incoming_def split: option.split)

text \<open>The properties the merge computes itself, and those it takes from the later account.\<close>

definition computed_fields :: "string list" where
  "computed_fields = [''projectId'', ''managedProjectId'', ''rateLimitResetTimes'', ''lastUsed'',
     ''accountIneligible'', ''accountIneligibleAt'', ''accountIneligibleReason'', ''eligibilityStateUpdatedAt'']"

definition later_of :: "js_rec \<Rightarrow> js_rec \<Rightarrow> js_rec" where
  "later_of e a =
     (if num_fld e ''eligibilityStateUpdatedAt'' \<le> num_fld a ''eligibilityStateUpdatedAt'' then a else e)"

definition computed :: "js_rec \<Rightarrow> js_rec \<Rightarrow> js_rec" where
  "computed e a =
     [(''projectId'', first_fld a e ''projectId''),
      (''managedProjectId'', first_fld a e ''managedProjectId''),
      (''rateLimitResetTimes'', Some (JObj (spread (obj_fld e ''rateLimitResetTimes'')
                                               (obj_fld a ''rateLimitResetTimes'')))),
      (''lastUsed'', Some (JNum (max (num_fld e ''lastUsed'') (num_fld a ''lastUsed'')))),
      (''accountIneligible'', get_fld (later_of e a) ''accountIneligible''),
      (''accountIneligibleAt'', get_fld (later_of e a) ''accountIneligibleAt''),
      (''accountIneligibleReason'', get_fld (later_of e a) ''accountIneligibleReason''),
      (''eligibilityStateUpdatedAt'', get_fld (later_of e a) ''eligibilityStateUpdatedAt'')]"

lemma computed_keys: "map fst (computed e a) = computed_fields"
  by (simp add: computed_def computed_fields_def)

lemma computed_wf [simp]: "jm_wf (computed e a)"
  by (simp add: jm_wf_def computed_keys computed_fields_def)

lemma merge_account_eq:
  "merge_account e a =
     (let merged = spread (spread e a) (computed e a) in
      if truthy_opt (get_fld merged ''accountIneligible'')
      then AList.update ''enabled'' (Some (JBool False)) merged else merged)"
  by (simp add: merge_account_def computed_def later_of_def Let_def)

lemma get_fld_update: "get_fld (AList.update k v r) k' = (if k' = k then v else get_fld r k')"
  by (simp add: get_fld_def update_conv split: option.split)

lemma get_fld_spread_computed:
  assumes "(k, v) \<in> set (computed e a)"
  shows "get_fld (spread x (computed e a)) k = v"
proof -
  have "map_of (computed e a) k = Some v"
    using assms computed_wf [of e a] by (simp add: jm_wf_def map_of_eq_Some_iff)
  then have "map_of (spread x (computed e a)) k = Some v" by (rule spread_in [OF computed_wf])
  then show ?thesis by (simp add: get_fld_def split: option.split)
qed

lemma merged_ineligible:
  "truthy_opt (get_fld (spread x (computed e a)) ''accountIneligible'')
   \<longleftrightarrow> truthy_opt (get_fld (later_of e a) ''accountIneligible'')"
  by (subst get_fld_spread_computed [where v = "get_fld (later_of e a) ''accountIneligible''"])
    (simp_all add: computed_def)

lemma merged_computed:
  assumes "(k, v) \<in> set (computed e a)"
  shows "get_fld (merge_account e a) k = v"
proof -
  have "k \<noteq> ''enabled''" using assms by (auto simp: computed_def)
  then show ?thesis using get_fld_spread_computed [OF assms]
    by (simp add: merge_account_eq Let_def get_fld_update)
qed

lemma merged_enabled:
  assumes "truthy_opt (get_fld (later_of e a) ''accountIneligible'')"
  shows "get_fld (merge_account e a) ''enabled'' = Some (JBool False)"
  using assms by (simp add: merge_account_eq Let_def merged_ineligible get_fld_update)

lemma merged_other:
  assumes "jm_wf a" "k \<notin> set computed_fields" "k \<noteq> ''enabled''"
  shows "map_of (merge_account e a) k = (case map_of a k of Some v \<Rightarrow> Some v | None \<Rightarrow> map_of e k)"
proof -
  have "k \<notin> fst ` set (computed e a)" using assms(2) by (simp flip: computed_keys [of e a])
  then show ?thesis using assms
    by (simp add: merge_account_eq Let_def update_conv spread_other map_of_spread [of e a] map_of_rev)
qed

lemma merged_token:
  assumes "jm_wf a" "token_of a = Some t"
  shows "token_of (merge_account e a) = Some t"
proof -
  have "map_of (merge_account e a) ''refreshToken'' = map_of a ''refreshToken''"
    using assms(2) by (subst merged_other [OF assms(1)])
      (auto simp: computed_fields_def token_of_def get_fld_def split: option.splits)
  then show ?thesis using assms(2) by (simp add: token_of_def get_fld_def)
qed

definition keyed :: "(string, js_rec) jsmap \<Rightarrow> bool" where
  "keyed m \<longleftrightarrow> jm_wf m \<and> (\<forall>(t, a) \<in> set m. token_of a = Some t)"

lemma keyed_update: "keyed m \<Longrightarrow> token_of a = Some t \<Longrightarrow> keyed (AList.update t a m)"
  using set_update_subset [of t a m] by (auto simp: keyed_def)

lemma keyed_existing: "keyed m \<Longrightarrow> keyed (foldl put_existing m E)"
  by (induction E arbitrary: m) (auto simp: put_existing_def keyed_update split: option.split)

lemma keyed_incoming: "keyed m \<Longrightarrow> \<forall>a \<in> set I. jm_wf a \<Longrightarrow> keyed (foldl put_incoming m I)"
  by (induction I arbitrary: m)
    (auto simp: put_incoming_def intro!: keyed_update merged_token split: option.split)

lemma keyed_tokens: "keyed m \<Longrightarrow> map (token_of \<circ> snd) m = map (Some \<circ> fst) m"
  by (auto simp: keyed_def)

lemma keyed_account_with: "keyed m \<Longrightarrow> account_with t (map snd m) = map_of m t"
proof (induction m rule: rev_induct)
  case Nil
  then show ?case by simp
next
  case (snoc p m)
  obtain t1 b where p: "p = (t1, b)" by fastforce
  have "keyed m" "map_of m t1 = None" "token_of b = Some t1"
    using snoc.prems by (auto simp: keyed_def jm_wf_def p map_of_eq_None_iff)
  then show ?case using snoc.IH by (auto simp: p map_add_def split: option.split)
qed

lemma merge_lookup:
  assumes "\<forall>a \<in> set (st_accounts incoming). jm_wf a"
    and "distinct (List.map_filter token_of (st_accounts incoming))"
  shows "account_with t (st_accounts (mergeAccountStorage existing incoming))
     = merged_with (account_with t (st_accounts existing)) (account_with t (st_accounts incoming))"
proof -
  have "keyed (foldl put_existing [] (st_accounts existing))"
    by (rule keyed_existing) (simp add: keyed_def)
  from keyed_incoming [OF this assms(1)] show ?thesis
    by (simp add: mergeAccountStorage_def Let_def keyed_account_with incoming_lookup [OF assms(2)]
        existing_lookup)
qed

lemma merge_tokens:
  assumes "\<forall>a \<in> set (st_accounts incoming). jm_wf a"
  shows "distinct (map token_of (st_accounts (mergeAccountStorage existing incoming)))"
    and "None \<notin> token_of ` set (st_accounts (mergeAccountStorage existing incoming))"
proof -
  let ?m = "foldl put_incoming (foldl put_existing [] (st_accounts existing)) (st_accounts incoming)"
  have "keyed (foldl put_existing [] (st_accounts existing))"
    by (rule keyed_existing) (simp add: keyed_def)
  then have K: "keyed ?m" by (rule keyed_incoming [OF _ assms])
  have "distinct (map (token_of \<circ> snd) ?m)" unfolding keyed_tokens [OF K]
    using K by (simp add: keyed_def jm_wf_def distinct_map comp_inj_on)
  then show "distinct (map token_of (st_accounts (mergeAccountStorage existing incoming)))"
    by (simp add: mergeAccountStorage_def Let_def)
  show "None \<notin> token_of ` set (st_accounts (mergeAccountStorage existing incoming))"
    using K by (auto simp: mergeAccountStorage_def Let_def keyed_def)
qed

section \<open>The round trip through the file\<close>

definition valid_account :: "js_rec \<Rightarrow> bool" where
  "valid_account a \<longleftrightarrow> token_of a \<noteq> None \<and> finite_number (get_fld a ''addedAt'') \<and> finite_number (get_fld a ''lastUsed'')"

lemma validate_iff: "validateV4AccountRecord e i = None \<longleftrightarrow> (\<exists>a. e = Some a \<and> valid_account a)"
  by (auto simp: validateV4AccountRecord_def valid_account_def Let_def split: option.splits)

lemma first_invalid_iff: "first_invalid i es = None \<longleftrightarrow> (\<forall>e \<in> set es. \<exists>a. e = Some a \<and> valid_account a)"
proof (induction es arbitrary: i)
  case (Cons e es)
  then show ?case using validate_iff [of e i] by (cases "validateV4AccountRecord e i") auto
qed simp

lemma all_or_error_map: "(\<And>x. x \<in> set xs \<Longrightarrow> f x = Some (g x)) \<Longrightarrow> all_or_error f xs = Some (map g xs)"
  by (induction xs) auto

lemma clean_same:
  assumes "jm_wf a"
  shows "valid_account (clean a) = valid_account a" "email_key_of i (clean a) = email_key_of i a"
    "is_newer (clean a) b = is_newer a b" "token_of (clean a) = token_of a"
  using assms
  by (simp_all add: valid_account_def token_of_def email_key_of_def is_newer_def num_fld_def)

lemma json_of_clean: "json_of (clean a) = json_of a"
  by (induction a) (auto simp: json_of_def clean_def rec_of_def List.map_filter_simps split: option.split)

lemma clean_idem [simp]: "clean (clean a) = clean a"
  by (simp add: clean_def json_of_clean [unfolded clean_def])

lemma clamp_again:
  "clamp_index (Some (JNum (clamp_index v n))) n = clamp_index v n"
  by (auto simp: clamp_index_def Let_def)

lemma clamp_range: "0 \<le> clamp_index v n" "0 < n \<Longrightarrow> clamp_index v n \<le> of_nat n - 1"
  by (auto simp: clamp_index_def Let_def)

lemma read_ok_facts:
  assumes "readAndNormalizeV4 to_str now file = Some (ReadOk s)"
  obtains records where "\<forall>a \<in> set records. valid_account a"
    "st_accounts s = deduplicateAccountsByEmail records"
    "\<exists>v. st_activeIndex s = clamp_index v (length (st_accounts s))"
proof -
  obtain parsed es rs fam where *: "file = FileParsed parsed" "arr_fld parsed ''accounts'' = Some es"
      "migrate_stored now parsed es = Some (Some (rs, fam))" "first_invalid 0 rs = None"
      "s = \<lparr>st_accounts = deduplicateAccountsByEmail (map the rs),
             st_activeIndex = clamp_index (fld parsed ''activeIndex'') (length (deduplicateAccountsByEmail (map the rs))),
             st_activeIndexByFamily = fam\<rparr>"
    using assms
    by (auto simp: readAndNormalizeV4_def Let_def split: file_text.splits if_splits option.splits prod.splits)
  show ?thesis
    using *(4) by (intro that [of "map the rs"]) (auto simp: *(5) first_invalid_iff)
qed

lemma dedup_cleaned:
  assumes "\<forall>a \<in> set A. jm_wf a"
  shows "deduplicateAccountsByEmail (map clean (deduplicateAccountsByEmail A)) = map clean (deduplicateAccountsByEmail A)"
proof (rule all_kept)
  let ?D = "deduplicateAccountsByEmail A"
  fix i j k
  assume *: "i < length (map clean ?D)" "j < length (map clean ?D)"
    "email_key_of i (map clean ?D ! i) = Some k" "email_key_of j (map clean ?D ! j) = Some k"
  have "jm_wf (?D ! i)" "jm_wf (?D ! j)" using * assms dedup_members [of A] nth_mem by (simp_all, blast+)
  then show "i = j" using * dedup_keys_unique [of i A j k] by (simp add: clean_same)
qed

lemma stored_read_back:
  assumes "\<forall>a \<in> set (st_accounts s). valid_account a \<and> jm_wf a"
    and "deduplicateAccountsByEmail (map clean (st_accounts s)) = map clean (st_accounts s)"
    and "\<exists>v. st_activeIndex s = clamp_index v (length (st_accounts s))"
  shows "readAndNormalizeV4 to_str now (FileParsed (storage_json s))
    = Some (ReadOk (s\<lparr>st_accounts := map clean (st_accounts s)\<rparr>))"
proof -
  let ?es = "map (\<lambda>a. JObj (json_of a)) (st_accounts s)"
  have entries: "all_or_error entry_v4 ?es = Some (map (\<lambda>a. Some (clean a)) (st_accounts s))"
    using all_or_error_map [of ?es entry_v4 "\<lambda>v. case v of JObj ob \<Rightarrow> Some (rec_of ob) | _ \<Rightarrow> None"]
    by (simp add: entry_v4_def clean_def comp_def)
  have valid: "first_invalid 0 (map (\<lambda>a. Some (clean a)) (st_accounts s)) = None"
    using assms(1) by (simp add: first_invalid_iff clean_same)
  have fields: "fld (storage_json s) ''version'' = Some (JNum 4)" "arr_fld (storage_json s) ''accounts'' = Some ?es"
      "fld (storage_json s) ''activeIndex'' = Some (JNum (st_activeIndex s))"
      "fld (storage_json s) ''activeIndexByFamily'' = st_activeIndexByFamily s" "isPlainObject (storage_json s)"
    by (simp_all add: storage_json_def arr_fld_def isPlainObject_def split: option.split)
  have "migrate_stored now (storage_json s) ?es
      = Some (Some (map (\<lambda>a. Some (clean a)) (st_accounts s), st_activeIndexByFamily s))"
    by (simp add: migrate_stored_def fields entries)
  then show ?thesis using assms(2,3) clamp_again
    by (auto simp: readAndNormalizeV4_def fields valid comp_def)
qed

section \<open>The lock\<close>

lemma acquire_spec:
  "acquire lock i slept ds = (r, slept') \<Longrightarrow>
   \<exists>n \<le> length ds. slept' = slept @ take n ds \<and> (\<forall>j < n. lock (i + j) = LockBusy)
     \<and> r = (case lock (i + n) of LockHeld \<Rightarrow> Inr () | LockFailed e \<Rightarrow> Inl (LockError e)
                              | LockBusy \<Rightarrow> Inl (LockContention (length RETRY_DELAYS_MS + 1)))
     \<and> (lock (i + n) = LockBusy \<longrightarrow> n = length ds)"
proof (induction ds arbitrary: i slept)
  case Nil
  then show ?case by (subst (asm) acquire.simps) (auto split: lock_answer.splits)
next
  case (Cons d ds)
  show ?case
  proof (cases "lock i = LockBusy")
    case False
    then show ?thesis using Cons.prems
      by (subst (asm) acquire.simps) (intro exI [of _ 0], auto split: lock_answer.splits)
  next
    case True
    then have "acquire lock (i + 1) (slept @ [d]) ds = (r, slept')"
      using Cons.prems by (subst (asm) acquire.simps) simp
    from Cons.IH [OF this] obtain n where "n \<le> length ds" "slept' = (slept @ [d]) @ take n ds"
      "\<forall>j < n. lock (i + 1 + j) = LockBusy" and rest:
      "r = (case lock (i + 1 + n) of LockHeld \<Rightarrow> Inr () | LockFailed e \<Rightarrow> Inl (LockError e)
             | LockBusy \<Rightarrow> Inl (LockContention (length RETRY_DELAYS_MS + 1)))"
      "lock (i + 1 + n) = LockBusy \<longrightarrow> n = length ds" by blast
    then show ?thesis using True
      by (intro exI [of _ "Suc n"]) (auto simp: less_Suc_eq_0_disj)
  qed
qed

lemma acquire_file: "w_file (snd (acquireWithRetry env w)) = w_file w"
  by (simp add: acquireWithRetry_def split: prod.split)

section \<open>Mutation under the lock\<close>

lemma mutate_file:
  assumes "mutateAccountStorage env f w = (r, w')"
  shows "case r of Inl _ \<Rightarrow> w_file w' = w_file w | Inr s \<Rightarrow> w_file w' = FileParsed (storage_json s)"
  using assms acquire_file [of env w]
  by (auto simp: mutateAccountStorage_def Let_def backupCorruptFile_def
      split: prod.splits sum.splits option.splits StorageReadOutcome.splits)

lemma mutate_success:
  assumes "mutateAccountStorage env f w = (Inr s, w')"
  obtains old upd where
    "readAndNormalizeV4 (se_to_str env) (se_now env) (w_file w) \<in> {Some ReadMissing, Some (ReadOk old)}"
    "readAndNormalizeV4 (se_to_str env) (se_now env) (w_file w) = Some ReadMissing \<Longrightarrow> old = empty_pool"
    "f old = Inr upd" "s = nullish upd old"
    "fst (acquireWithRetry env w) = Inr ()" "se_writable env = None" "se_owned env = None" "se_write env = None"
proof -
  show ?thesis
    using assms acquire_file [of env w]
    by (cases "readAndNormalizeV4 (se_to_str env) (se_now env) (w_file w)")
      (auto simp: mutateAccountStorage_def Let_def
        split: prod.splits sum.splits option.splits StorageReadOutcome.splits
        intro: that [of empty_pool] that)
qed

end
