(* ===== verification/Storage_Properties.thy ===== *)
theory Storage_Properties
  imports Storage_Facts
begin

text \<open>
  The properties of the stored pool: deduplication, merge, the fail-closed mutation, the lock
  schedule and the round trip through the file, with the small pools their witnesses use.
\<close>

definition mail_account :: "string \<Rightarrow> string \<Rightarrow> num \<Rightarrow> js_rec" where
  "mail_account token email t =
     [(''refreshToken'', Some (JStr token)), (''email'', Some (JStr email)),
      (''addedAt'', Some (JNum 0)), (''lastUsed'', Some (JNum t))]"

definition one_pool :: "js_rec \<Rightarrow> AccountStorageV4" where
  "one_pool a = \<lparr>st_accounts = [a], st_activeIndex = 0, st_activeIndexByFamily = None\<rparr>"

definition quiet_env :: "(nat \<Rightarrow> lock_answer) \<Rightarrow> storage_env" where
  "quiet_env lock = \<lparr>se_lock = lock, se_writable = None, se_owned = None, se_write = None,
     se_backup = None, se_to_str = (\<lambda>_. []), se_now = 0\<rparr>"

definition stored :: "file_text \<Rightarrow> storage_world" where
  "stored file = \<lparr>w_file = file, w_sleeps = [], w_backups = []\<rparr>"

lemma mail_account_facts [simp]:
  "jm_wf (mail_account t e n)" "get_fld (mail_account t e n) ''lastUsed'' = Some (JNum n)"
  "email_of (mail_account t e n) = (if e = [] then None else Some e)"
  "token_of (mail_account t e n) = (if t = [] then None else Some t)"
  "valid_account (mail_account t e n) \<longleftrightarrow> t \<noteq> []"
  by (simp_all add: mail_account_def jm_wf_def get_fld_def email_of_def token_of_def valid_account_def finite_number_def)

lemma quiet_env_simps [simp]:
  "se_lock (quiet_env l) = l" "se_writable (quiet_env l) = None" "se_owned (quiet_env l) = None"
  "se_write (quiet_env l) = None" "se_backup (quiet_env l) = None"
  by (simp_all add: quiet_env_def)

lemma stored_simps [simp]: "w_file (stored f) = f" "w_sleeps (stored f) = []" "w_backups (stored f) = []"
  by (simp_all add: stored_def)


text \<open>
  Deduplicating the stored accounts by email keeps a subsequence of them: at most one account
  per email, for every account with an email one with the same email that is at least as
  recent (by last use, then by creation), and every account without an email; deduplicating
  again changes nothing.
\<close>

lemma deduplication_exact:
  assumes "kept = deduplicateAccountsByEmail accounts"
  shows "subseq kept accounts \<and> deduplicateAccountsByEmail kept = kept
    \<and> (\<forall>i < length kept. \<forall>j < length kept. \<forall>e. email_of (kept ! i) = Some e \<and> email_of (kept ! j) = Some e \<longrightarrow> i = j)
    \<and> (\<forall>acc \<in> set accounts.
          (case email_of acc of
             Some e \<Rightarrow> \<exists>old \<in> set kept. email_of old = Some e
               \<and> (num_fld acc ''lastUsed'' < num_fld old ''lastUsed''
                   \<or> num_fld acc ''lastUsed'' = num_fld old ''lastUsed'' \<and> num_fld acc ''addedAt'' \<le> num_fld old ''addedAt'')
           | None \<Rightarrow> get_fld acc ''email'' = None \<longrightarrow> acc \<in> set kept))"
  unfolding assms not_newer_iff [symmetric]
  by (auto simp: dedup_subseq dedup_idem dedup_keeps_unnamed split: option.split
      intro: dedup_email_unique elim: dedup_newest)

theorem deduplication_exact_witness:
  "length (deduplicateAccountsByEmail [mail_account ''t'' ''e'' 1, mail_account ''u'' ''e'' 2]) \<le> 1"
proof -
  let ?k = "deduplicateAccountsByEmail [mail_account ''t'' ''e'' 1, mail_account ''u'' ''e'' 2]"
  have k: "email_of (?k ! i) = Some ''e''" if "i < length ?k" for i
    using nth_mem [OF that] dedup_members [of "[mail_account ''t'' ''e'' 1, mail_account ''u'' ''e'' 2]"] by auto
  show ?thesis using deduplication_exact [OF refl, of "[mail_account ''t'' ''e'' 1, mail_account ''u'' ''e'' 2]"] k
    by (cases ?k rule: list.exhaust; cases "tl ?k") fastforce+
qed



text \<open>
  C8. A mutation of the stored pool fails closed: when it gives an error the file is as it was,
  and when it succeeds the file holds exactly the result, computed from what was read; a file
  that cannot be read (malformed, of an unknown version, with an invalid account) is never
  overwritten.
\<close>

theorem mutation_fail_closed:
  assumes "mutateAccountStorage env f w = (r, w')"
  shows "case r of
      Inl _ \<Rightarrow> w_file w' = w_file w
    | Inr s \<Rightarrow> w_file w' = FileParsed (storage_json s)
        \<and> (case readAndNormalizeV4 (se_to_str env) (se_now env) (w_file w) of
             Some ReadMissing \<Rightarrow> (\<exists>upd. f empty_pool = Inr upd \<and> s = nullish upd empty_pool)
           | Some (ReadOk old) \<Rightarrow> (\<exists>upd. f old = Inr upd \<and> s = nullish upd old)
           | _ \<Rightarrow> False)"
  using mutate_file [OF assms] mutate_success [of env f w _ w'] assms
  by (cases r) (fastforce split: option.splits StorageReadOutcome.splits)+

theorem mutation_fail_closed_witness:
  "w_file (snd (mutateAccountStorage (quiet_env (\<lambda>_. LockHeld)) (\<lambda>_. Inr None) (stored (FileMalformed ''x''))))
     = FileMalformed ''x''"
proof -
  have "fst (mutateAccountStorage (quiet_env (\<lambda>_. LockHeld)) (\<lambda>_. Inr None) (stored (FileMalformed ''x'')))
      = Inl (StorageUnreadable MalformedJson ''x'' None)"
    by (simp add: mutateAccountStorage_def acquireWithRetry_def acquire.simps readAndNormalizeV4_def)
  then show ?thesis
    using mutation_fail_closed [OF surjective_pairing, of "quiet_env (\<lambda>_. LockHeld)" "\<lambda>_. Inr None"
        "stored (FileMalformed ''x'')"] by simp
qed

text \<open>
  The lock of the stored pool is tried at most six times, with the delays of the schedule
  between the attempts: the first attempt that is not busy decides, and contention is reported
  exactly when all six were busy.
\<close>

lemma lock_schedule:
  assumes "acquireWithRetry env w = (r, w')"
  shows "\<exists>n \<le> 5. w_sleeps w' = w_sleeps w @ take n [100, 200, 400, 800, 1000]
    \<and> list_all (\<lambda>j. se_lock env j = LockBusy) [0..<n]
    \<and> r = (case se_lock env n of LockHeld \<Rightarrow> Inr () | LockFailed e \<Rightarrow> Inl (LockError e)
             | LockBusy \<Rightarrow> Inl (LockContention 6))
    \<and> (n = 5 \<or> se_lock env n \<noteq> LockBusy)"
proof -
  obtain r' sl where a: "acquire (se_lock env) 0 [] RETRY_DELAYS_MS = (r', sl)" by fastforce
  then have "r = r'" "w' = w\<lparr>w_sleeps := w_sleeps w @ sl\<rparr>"
    using assms by (simp_all add: acquireWithRetry_def)
  moreover obtain n where "n \<le> length RETRY_DELAYS_MS" "sl = take n RETRY_DELAYS_MS"
    "\<forall>j < n. se_lock env j = LockBusy"
    "r' = (case se_lock env n of LockHeld \<Rightarrow> Inr () | LockFailed e \<Rightarrow> Inl (LockError e)
             | LockBusy \<Rightarrow> Inl (LockContention (length RETRY_DELAYS_MS + 1)))"
    "se_lock env n = LockBusy \<longrightarrow> n = length RETRY_DELAYS_MS"
    using acquire_spec [OF a] by auto
  ultimately show ?thesis
    by (intro exI [of _ n]) (auto simp: RETRY_DELAYS_MS_def list_all_iff split: lock_answer.split)
qed

theorem lock_schedule_witness:
  "fst (acquireWithRetry (quiet_env (\<lambda>i. if i < 2 then LockBusy else LockHeld)) (stored FileMissing)) = Inr ()"
proof -
  obtain n :: nat where n: "n \<le> 5" "list_all (\<lambda>j. (if j < 2 then LockBusy else LockHeld) = LockBusy) [0..<n]"
    "fst (acquireWithRetry (quiet_env (\<lambda>i. if i < 2 then LockBusy else LockHeld)) (stored FileMissing))
      = (case if n < 2 then LockBusy else LockHeld of LockHeld \<Rightarrow> Inr () | LockFailed e \<Rightarrow> Inl (LockError e)
             | LockBusy \<Rightarrow> Inl (LockContention 6))"
    "n = 5 \<or> \<not> n < 2"
    using lock_schedule [OF surjective_pairing,
        of "quiet_env (\<lambda>i. if i < 2 then LockBusy else LockHeld)" "stored FileMissing"]
    by (auto split: if_splits)
  then show ?thesis by auto
qed

text \<open>
  C9. What a read of the pool accepts is valid (every account with a token and its times, the
  index in range), and writing it and reading it again gives the same pool, up to properties
  whose value is \<open>undefined\<close>.
\<close>

theorem stored_pool_round_trip:
  assumes "readAndNormalizeV4 to_str now file = Some (ReadOk s)" "\<forall>a \<in> set (st_accounts s). jm_wf a"
  shows "list_all valid_account (st_accounts s)
    \<and> 0 \<le> st_activeIndex s \<and> (st_accounts s = [] \<or> st_activeIndex s \<le> of_nat (length (st_accounts s)) - 1)
    \<and> readAndNormalizeV4 to_str' now' (FileParsed (storage_json s))
        = Some (ReadOk (s\<lparr>st_accounts := map clean (st_accounts s)\<rparr>))
    \<and> list_all (\<lambda>a. get_fld (clean a) = get_fld a) (st_accounts s)"
proof -
  obtain records v where r: "\<forall>a \<in> set records. valid_account a" "st_accounts s = deduplicateAccountsByEmail records"
    "st_activeIndex s = clamp_index v (length (st_accounts s))" by (rule read_ok_facts [OF assms(1)]) blast
  have valid: "\<forall>a \<in> set (st_accounts s). valid_account a" using r(1,2) dedup_members by auto
  have "deduplicateAccountsByEmail (map clean (st_accounts s)) = map clean (st_accounts s)"
    using dedup_cleaned [OF assms(2)] r(2) by (simp add: dedup_idem)
  then have "readAndNormalizeV4 to_str' now' (FileParsed (storage_json s))
      = Some (ReadOk (s\<lparr>st_accounts := map clean (st_accounts s)\<rparr>))"
    using valid assms(2) r(3) by (intro stored_read_back) auto
  then show ?thesis using valid assms(2) r(3) clamp_range [where v = v and n = "length (st_accounts s)"]
    by (auto simp: list_all_iff)
qed

theorem stored_pool_round_trip_witness:
  "readAndNormalizeV4 (\<lambda>_. []) 5 (FileParsed (storage_json (one_pool (mail_account ''t'' ''e'' 3))))
     = Some (ReadOk (one_pool (mail_account ''t'' ''e'' 3)))"
proof -
  have c: "clean (mail_account ''t'' ''e'' 3) = mail_account ''t'' ''e'' 3"
    by (simp add: clean_def mail_account_def rec_of_def json_of_def List.map_filter_simps)
  let ?s = "one_pool (mail_account ''t'' ''e'' 3)"
  have d: "deduplicateAccountsByEmail [mail_account ''t'' ''e'' 3] = [mail_account ''t'' ''e'' 3]"
    by (rule all_kept) simp
  have "readAndNormalizeV4 (\<lambda>_. []) 0 (FileParsed (storage_json ?s)) = Some (ReadOk ?s)"
    using stored_read_back [of ?s] exI [of "\<lambda>v. 0 = clamp_index v 1" None]
    by (simp add: one_pool_def c d clamp_index_def)
  from stored_pool_round_trip [OF this, where to_str' = "\<lambda>_. []" and now' = 5] show ?thesis
    by (simp add: one_pool_def c)
qed

end
