(* ===== verification/Thinking_Recovery.thy ===== *)
theory Thinking_Recovery
  imports Json_Access
begin

text \<open>
  \<^verbatim>\<open>packages/opencode/src/plugin/thinking-recovery.ts\<close>: the analysis of a conversation and the
  closing of a tool loop whose thinking blocks are lost. Messages are arbitrary JSON values;
  a \<open>TypeError\<close> (\<open>parts\<close> that is truthy but no array) is \<open>None\<close>.
\<close>

section \<open>Parts and messages\<close>

definition thinking_type :: "json \<Rightarrow> bool" where
  "thinking_type v = (is_str (fld v ''type'') ''thinking'' \<or> is_str (fld v ''type'') ''redacted_thinking'')"

definition isThinkingPart :: "json \<Rightarrow> bool" where
  "isThinkingPart part = (fld part ''thought'' = Some (JBool True) \<or> thinking_type part)"

definition isFunctionResponsePart :: "json \<Rightarrow> bool" where
  "isFunctionResponsePart part = (fld part ''functionResponse'' \<noteq> None)"

definition isFunctionCallPart :: "json \<Rightarrow> bool" where
  "isFunctionCallPart part = (fld part ''functionCall'' \<noteq> None)"

definition isToolResultMessage :: "json \<Rightarrow> bool option" where
  "isToolResultMessage msg =
     (if \<not> is_str (fld msg ''role'') ''user'' then Some False
      else map_option (list_ex isFunctionResponsePart) (array_or_empty msg ''parts''))"

definition messageHasThinking :: "json \<Rightarrow> bool" where
  "messageHasThinking msg =
     (case arr_fld msg ''parts'' of
        Some parts \<Rightarrow> list_ex isThinkingPart parts
      | None \<Rightarrow> (case arr_fld msg ''content'' of
          Some blocks \<Rightarrow> list_ex thinking_type blocks
        | None \<Rightarrow> False))"

definition messageHasToolCalls :: "json \<Rightarrow> bool" where
  "messageHasToolCalls msg =
     (case arr_fld msg ''parts'' of
        Some parts \<Rightarrow> list_ex isFunctionCallPart parts
      | None \<Rightarrow> (case arr_fld msg ''content'' of
          Some blocks \<Rightarrow> list_ex (\<lambda>b. is_str (fld b ''type'') ''tool_use'') blocks
        | None \<Rightarrow> False))"

definition is_model :: "json \<Rightarrow> bool" where
  "is_model msg = (is_str (fld msg ''role'') ''model'' \<or> is_str (fld msg ''role'') ''assistant'')"

section \<open>Analysis\<close>

record ConversationState =
  cs_inToolLoop :: bool
  cs_turnStartIdx :: int
  cs_turnHasThinking :: bool
  cs_lastModelIdx :: int
  cs_lastModelHasThinking :: bool
  cs_lastModelHasToolCalls :: bool

definition empty_state :: ConversationState where
  "empty_state = \<lparr>cs_inToolLoop = False, cs_turnStartIdx = -1, cs_turnHasThinking = False,
     cs_lastModelIdx = -1, cs_lastModelHasThinking = False, cs_lastModelHasToolCalls = False\<rparr>"

text \<open>The first pass: the index of the last user message that is no tool result.\<close>

fun last_real_user :: "int \<Rightarrow> int \<Rightarrow> json list \<Rightarrow> int option" where
  "last_real_user i found [] = Some found"
| "last_real_user i found (msg # rest) =
     (if is_str (fld msg ''role'') ''user''
      then (case isToolResultMessage msg of
              None \<Rightarrow> None
            | Some t \<Rightarrow> last_real_user (i + 1) (if t then found else i) rest)
      else last_real_user (i + 1) found rest)"

text \<open>The second pass.\<close>

fun scan_turns :: "int \<Rightarrow> int \<Rightarrow> json list \<Rightarrow> ConversationState \<Rightarrow> ConversationState" where
  "scan_turns lastReal i [] st = st"
| "scan_turns lastReal i (msg # rest) st =
     scan_turns lastReal (i + 1) rest
       (if is_model msg
        then (let st1 = (if lastReal < i \<and> cs_turnStartIdx st = -1
                         then st\<lparr>cs_turnStartIdx := i, cs_turnHasThinking := messageHasThinking msg\<rparr> else st)
              in st1\<lparr>cs_lastModelIdx := i, cs_lastModelHasToolCalls := messageHasToolCalls msg,
                     cs_lastModelHasThinking := messageHasThinking msg\<rparr>)
        else st)"

definition analyzeConversationState :: "json list \<Rightarrow> ConversationState option" where
  "analyzeConversationState contents =
     (if contents = [] then Some empty_state
      else case last_real_user 0 (-1) contents of
             None \<Rightarrow> None
           | Some lastReal \<Rightarrow>
               (let st = scan_turns lastReal 0 contents empty_state; lastMsg = last contents in
                if is_str (fld lastMsg ''role'') ''user''
                then map_option (\<lambda>t. if t then st\<lparr>cs_inToolLoop := True\<rparr> else st) (isToolResultMessage lastMsg)
                else Some st))"

section \<open>Recovery\<close>

text \<open>The text part that takes the place of a thinking block.\<close>

definition sentinel_of :: "json \<Rightarrow> json" where
  "sentinel_of part =
     JObj ((''text'', JStr ''.'')
           # (case fld part ''cache_control'' of None \<Rightarrow> [] | Some c \<Rightarrow> [(''cache_control'', c)]))"

definition strip_message :: "json \<Rightarrow> json" where
  "strip_message content =
     (case arr_fld content ''parts'' of
        Some parts \<Rightarrow> with_fld content ''parts''
          (JArr (map (\<lambda>p. if isThinkingPart p then sentinel_of p else p) parts))
      | None \<Rightarrow> (case arr_fld content ''content'' of
          Some blocks \<Rightarrow> with_fld content ''content''
            (JArr (map (\<lambda>b. if thinking_type b then sentinel_of b else b) blocks))
        | None \<Rightarrow> content))"

definition stripAllThinkingBlocks :: "json list \<Rightarrow> json list" where
  "stripAllThinkingBlocks contents = map strip_message contents"

text \<open>The loop from the end, over the reversed conversation.\<close>

fun count_results :: "json list \<Rightarrow> nat option" where
  "count_results [] = Some 0"
| "count_results (msg # rest) =
     (if is_str (fld msg ''role'') ''user''
      then (case array_or_empty msg ''parts'' of
              None \<Rightarrow> None
            | Some parts \<Rightarrow>
                (let n = length (filter isFunctionResponsePart parts) in
                 if n = 0 then Some 0 else map_option (\<lambda>k. n + k) (count_results rest)))
      else if is_model msg then Some 0
      else count_results rest)"

definition countTrailingToolResults :: "json list \<Rightarrow> nat option" where
  "countTrailingToolResults contents = count_results (rev contents)"

definition text_message :: "string \<Rightarrow> string \<Rightarrow> json" where
  "text_message role body =
     JObj [(''role'', JStr role), (''parts'', JArr [JObj [(''text'', JStr body)]])]"

definition closeToolLoopForThinking :: "json list \<Rightarrow> json list option" where
  "closeToolLoopForThinking contents =
     (let stripped = stripAllThinkingBlocks contents in
      map_option (\<lambda>n.
        stripped @ [text_message ''model''
            (if n = 0 then ''[Processing previous context.]''
             else if n = 1 then ''[Tool execution completed.]''
             else ''['' @ show_nat n @ '' tool executions completed.]''),
          text_message ''user'' ''[Continue]''])
        (countTrailingToolResults stripped))"

definition needsThinkingRecovery :: "ConversationState \<Rightarrow> bool" where
  "needsThinkingRecovery st = (cs_inToolLoop st \<and> \<not> cs_turnHasThinking st)"

section \<open>Compacted turns\<close>

definition has_call :: "json \<Rightarrow> bool" where
  "has_call p = truthy_fld p ''functionCall''"

text \<open>Non-thinking text with something in it, among the parts before the first call.\<close>

definition plain_text :: "json \<Rightarrow> bool" where
  "plain_text p =
     (case fld p ''text'' of
        Some (JStr s) \<Rightarrow> js_trim s \<noteq> [] \<and> \<not> truthy_fld p ''thought''
      | _ \<Rightarrow> False)"

definition looksLikeCompactedThinkingTurn :: "json \<Rightarrow> bool option" where
  "looksLikeCompactedThinkingTurn msg =
     (case msg of
        JObj _ \<Rightarrow>
          map_option (\<lambda>parts.
            parts \<noteq> [] \<and> list_ex has_call parts \<and> \<not> list_ex isThinkingPart parts
            \<and> \<not> list_ex plain_text (takeWhile (\<lambda>p. \<not> has_call p) parts))
            (array_or_empty msg ''parts'')
      | _ \<Rightarrow> Some False)"

fun any_compacted :: "json list \<Rightarrow> bool option" where
  "any_compacted [] = Some False"
| "any_compacted (msg # rest) =
     (if is_str (fld msg ''role'') ''model''
      then (case looksLikeCompactedThinkingTurn msg of
              None \<Rightarrow> None
            | Some True \<Rightarrow> Some True
            | Some False \<Rightarrow> any_compacted rest)
      else any_compacted rest)"

definition hasPossibleCompactedThinking :: "json list \<Rightarrow> int \<Rightarrow> bool option" where
  "hasPossibleCompactedThinking contents turnStartIdx =
     (if turnStartIdx < 0 then Some False else any_compacted (drop (nat turnStartIdx) contents))"

section \<open>What the analysis computes\<close>

text \<open>
  The reference: the conversation splits after its last real user message (one that is no
  tool result); the current turn starts at the first model message of the rest.
\<close>

definition well_typed :: "json list \<Rightarrow> bool" where
  "well_typed contents = list_all (\<lambda>m. isToolResultMessage m \<noteq> None) contents"

definition is_real_user :: "json \<Rightarrow> bool" where
  "is_real_user m = (is_str (fld m ''role'') ''user'' \<and> isToolResultMessage m = Some False)"

definition is_tool_result :: "json \<Rightarrow> bool" where
  "is_tool_result m = (isToolResultMessage m = Some True)"

definition current_turn :: "json list \<Rightarrow> json list" where
  "current_turn contents = rev (takeWhile (\<lambda>m. \<not> is_real_user m) (rev contents))"

fun first_index :: "('a \<Rightarrow> bool) \<Rightarrow> 'a list \<Rightarrow> nat option" where
  "first_index P [] = None"
| "first_index P (x # xs) = (if P x then Some 0 else map_option Suc (first_index P xs))"

lemma first_index_nth: "first_index P xs = Some k \<Longrightarrow> k < length xs \<and> P (xs ! k) \<and> (\<forall>j < k. \<not> P (xs ! j))"
  by (induction xs arbitrary: k) (auto simp: less_Suc_eq_0_disj split: if_splits)

lemma last_real_user_app:
  "last_real_user i l (xs @ ys) = Option.bind (last_real_user i l xs) (\<lambda>f. last_real_user (i + int (length xs)) f ys)"
  by (induction xs arbitrary: i l) (auto simp: add.assoc split: option.split)

lemma last_real_user_none:
  "last_real_user i l xs = None \<longleftrightarrow> \<not> well_typed xs"
  by (induction xs arbitrary: i l) (auto simp: well_typed_def isToolResultMessage_def split: option.split)

lemma last_real_user_turn:
  "well_typed xs \<Longrightarrow> list_all (\<lambda>m. \<not> is_real_user m) xs \<Longrightarrow> last_real_user i l xs = Some l"
  by (induction xs arbitrary: i) (auto simp: well_typed_def is_real_user_def isToolResultMessage_def split: option.split)

lemma current_turn_split:
  obtains pre where "contents = pre @ current_turn contents" "pre = [] \<or> is_real_user (last pre)"
    "list_all (\<lambda>m. \<not> is_real_user m) (current_turn contents)"
proof
  let ?pre = "rev (dropWhile (\<lambda>m. \<not> is_real_user m) (rev contents))"
  show "contents = ?pre @ current_turn contents"
    unfolding current_turn_def rev_append [symmetric] takeWhile_dropWhile_id by simp
  show "?pre = [] \<or> is_real_user (last ?pre)"
    using hd_dropWhile [of "\<lambda>m. \<not> is_real_user m" "rev contents"] by (auto simp: last_rev)
  show "list_all (\<lambda>m. \<not> is_real_user m) (current_turn contents)"
    by (auto simp: current_turn_def list_all_iff dest: set_takeWhileD)
qed

lemma last_real_user_value:
  assumes "well_typed contents"
  shows "last_real_user 0 (-1) contents = Some (int (length contents) - int (length (current_turn contents)) - 1)"
proof -
  obtain pre where pre: "contents = pre @ current_turn contents" "pre = [] \<or> is_real_user (last pre)"
    "list_all (\<lambda>m. \<not> is_real_user m) (current_turn contents)" by (rule current_turn_split)
  have wt: "well_typed pre" "well_typed (current_turn contents)"
    using assms by (subst (asm) pre(1), simp add: well_typed_def)+
  have len: "int (length contents) - int (length (current_turn contents)) = int (length pre)"
    by (subst (1) pre(1)) simp
  have "last_real_user 0 (-1) pre = Some (int (length pre) - 1)"
  proof (cases pre rule: rev_cases)
    case Nil
    then show ?thesis by simp
  next
    case (snoc xs m)
    then have m: "is_real_user m" using pre(2) by simp
    have "last_real_user 0 (-1) xs \<noteq> None" using wt(1) by (simp add: last_real_user_none snoc well_typed_def)
    then show ?thesis using m by (auto simp: snoc last_real_user_app is_real_user_def)
  qed
  then show ?thesis
    unfolding len by (subst pre(1)) (simp add: last_real_user_app last_real_user_turn [OF wt(2) pre(3)])
qed

lemma scan_app: "scan_turns l i (xs @ ys) st = scan_turns l (i + int (length xs)) ys (scan_turns l i xs st)"
  by (induction xs arbitrary: i st) (simp_all add: add.assoc)

lemma scan_before: "i + int (length xs) \<le> l + 1 \<Longrightarrow> cs_turnStartIdx (scan_turns l i xs st) = cs_turnStartIdx st
    \<and> cs_turnHasThinking (scan_turns l i xs st) = cs_turnHasThinking st
    \<and> cs_inToolLoop (scan_turns l i xs st) = cs_inToolLoop st"
  by (induction xs arbitrary: i st) (auto simp: Let_def)

lemma scan_started: "cs_turnStartIdx st \<noteq> -1 \<Longrightarrow> cs_turnStartIdx (scan_turns l i xs st) = cs_turnStartIdx st
    \<and> cs_turnHasThinking (scan_turns l i xs st) = cs_turnHasThinking st
    \<and> cs_inToolLoop (scan_turns l i xs st) = cs_inToolLoop st"
  by (induction xs arbitrary: i st) (auto simp: Let_def)

lemma scan_turn:
  assumes "l < i" "0 \<le> i" "cs_turnStartIdx st = -1"
  shows "cs_turnStartIdx (scan_turns l i xs st) =
      (case first_index is_model xs of None \<Rightarrow> -1 | Some k \<Rightarrow> i + int k)"
    and "cs_turnHasThinking (scan_turns l i xs st) =
      (case first_index is_model xs of None \<Rightarrow> cs_turnHasThinking st | Some k \<Rightarrow> messageHasThinking (xs ! k))"
    and "cs_inToolLoop (scan_turns l i xs st) = cs_inToolLoop st"
  using assms
proof (induction xs arbitrary: i st)
  case Nil
  { case 1 then show ?case by simp next case 2 then show ?case by simp next case 3 then show ?case by simp }
next
  case (Cons m xs)
  { case 1 then show ?case using Cons.IH(1) [of "i + 1" st]
      by (auto simp: Let_def scan_started split: option.split)
  next case 2 then show ?case using Cons.IH(2) [of "i + 1" st]
      by (auto simp: Let_def scan_started split: option.split)
  next case 3 then show ?case using Cons.IH(3) [of "i + 1" st]
      by (auto simp: Let_def scan_started) }
qed

lemma analyze_value:
  assumes "well_typed contents"
  defines "turn \<equiv> current_turn contents"
  obtains st where "analyzeConversationState contents = Some st"
    "cs_inToolLoop st \<longleftrightarrow> contents \<noteq> [] \<and> is_tool_result (last contents)"
    "cs_turnStartIdx st = (case first_index is_model turn of None \<Rightarrow> -1
       | Some k \<Rightarrow> int (length contents) - int (length turn) + int k)"
    "cs_turnHasThinking st = (case first_index is_model turn of None \<Rightarrow> False
       | Some k \<Rightarrow> messageHasThinking (turn ! k))"
proof (cases "contents = []")
  case True
  then show ?thesis using that [of empty_state]
    by (simp add: analyzeConversationState_def empty_state_def turn_def current_turn_def)
next
  case False
  obtain pre where pre: "contents = pre @ turn" unfolding turn_def by (rule current_turn_split)
  let ?l = "int (length contents) - int (length turn) - 1"
  have len: "length contents = length pre + length turn" by (subst (1) pre) simp
  then have l: "?l = int (length pre) - 1" by simp
  let ?st = "scan_turns ?l 0 contents empty_state"
  have st: "?st = scan_turns ?l (int (length pre)) turn (scan_turns ?l 0 pre empty_state)"
    by (subst (2) pre) (simp add: scan_app)
  have b: "cs_turnStartIdx (scan_turns ?l 0 pre empty_state) = -1"
    "cs_turnHasThinking (scan_turns ?l 0 pre empty_state) = False"
    "cs_inToolLoop (scan_turns ?l 0 pre empty_state) = False"
    using scan_before [of 0 pre ?l empty_state] by (simp_all add: l empty_state_def)
  have s: "cs_turnStartIdx ?st = (case first_index is_model turn of None \<Rightarrow> -1
       | Some k \<Rightarrow> int (length contents) - int (length turn) + int k)"
    "cs_turnHasThinking ?st = (case first_index is_model turn of None \<Rightarrow> False | Some k \<Rightarrow> messageHasThinking (turn ! k))"
    "cs_inToolLoop ?st = False"
    using scan_turn [of ?l "int (length pre)" "scan_turns ?l 0 pre empty_state" turn] b
    unfolding st by (simp_all add: l len split: option.split)
  have t: "isToolResultMessage (last contents) \<noteq> None"
    using assms(1) False by (simp add: well_typed_def list_all_iff)
  note v = last_real_user_value [OF assms(1), folded turn_def]
  show ?thesis
  proof (cases "is_tool_result (last contents)")
    case True
    then have "analyzeConversationState contents = Some (?st\<lparr>cs_inToolLoop := True\<rparr>)"
      using False by (auto simp: analyzeConversationState_def v is_tool_result_def isToolResultMessage_def split: if_splits)
    then show ?thesis by (rule that) (use True False s in simp_all)
  next
    case no: False
    have "isToolResultMessage (last contents) = Some False"
      using t no by (cases "isToolResultMessage (last contents)") (auto simp: is_tool_result_def)
    then have "analyzeConversationState contents = Some ?st"
      using False by (simp add: analyzeConversationState_def v Let_def)
    then show ?thesis by (rule that) (use no False s in simp_all)
  qed
qed

lemma analyze_error: "analyzeConversationState contents = None \<longleftrightarrow> \<not> well_typed contents"
proof (cases "well_typed contents")
  case True
  then show ?thesis using analyze_value [of contents] by (metis option.distinct(1))
next
  case False
  then show ?thesis
    by (auto simp: analyzeConversationState_def last_real_user_none [THEN iffD2]) (simp add: well_typed_def)
qed

section \<open>What recovery achieves\<close>

lemma sentinel_plain [simp]:
  "\<not> isThinkingPart (sentinel_of p)" "\<not> thinking_type (sentinel_of p)" "\<not> isFunctionResponsePart (sentinel_of p)"
  by (auto simp: isThinkingPart_def thinking_type_def isFunctionResponsePart_def is_str_def sentinel_of_def
      split: option.split)

lemma arr_fld_obj: "arr_fld v k = Some xs \<Longrightarrow> \<exists>ob. v = JObj ob \<and> map_of ob k = Some (JArr xs)"
  by (cases v) (auto simp: arr_fld_def split: option.splits json.splits)

lemma strip_fields:
  "k \<notin> {''parts'', ''content''} \<Longrightarrow> fld (strip_message m) k = fld m k"
  by (auto simp: strip_message_def dest: arr_fld_obj split: option.split)

lemma strip_no_thinking: "\<not> messageHasThinking (strip_message m)"
proof (cases "arr_fld m ''parts''")
  case (Some parts)
  then obtain ob where "m = JObj ob" using arr_fld_obj by blast
  then show ?thesis using Some
    by (auto simp: strip_message_def messageHasThinking_def arr_fld_def list_ex_iff)
next
  case None
  note parts = None
  show ?thesis
  proof (cases "arr_fld m ''content''")
    case None
    then show ?thesis using parts by (simp add: strip_message_def messageHasThinking_def)
  next
    case (Some blocks)
    then obtain ob where ob: "m = JObj ob" using arr_fld_obj by blast
    then have "arr_fld (strip_message m) ''parts'' = None"
      using parts Some by (simp add: strip_message_def arr_fld_def)
    then show ?thesis using parts Some ob
      by (auto simp: strip_message_def messageHasThinking_def arr_fld_def list_ex_iff)
  qed
qed

lemma strip_array:
  "array_or_empty (strip_message m) ''parts'' = None \<longleftrightarrow> array_or_empty m ''parts'' = None"
proof (cases "arr_fld m ''parts''")
  case (Some parts)
  then show ?thesis using arr_fld_obj [OF Some]
    by (auto simp: strip_message_def array_or_empty_def)
next
  case None
  then have "fld (strip_message m) ''parts'' = fld m ''parts''"
    by (auto simp: strip_message_def dest: arr_fld_obj split: option.split)
  then show ?thesis by (simp add: array_or_empty_def)
qed

lemma strip_tool_result: "isToolResultMessage (strip_message m) = None \<longleftrightarrow> isToolResultMessage m = None"
  by (simp add: isToolResultMessage_def strip_fields strip_array)

lemma strip_well_typed: "well_typed (stripAllThinkingBlocks contents) = well_typed contents"
  unfolding well_typed_def stripAllThinkingBlocks_def list_all_iff
  by (simp only: list.set_map ball_simps strip_tool_result)

lemma count_defined: "well_typed ms \<Longrightarrow> count_results ms \<noteq> None"
  by (induction ms) (auto simp: well_typed_def isToolResultMessage_def Let_def split: option.split if_splits)

lemma text_message_facts [simp]:
  "fld (text_message role body) ''role'' = Some (JStr role)"
  "isToolResultMessage (text_message role body) = Some False"
  "\<not> messageHasThinking (text_message role body)"
  by (simp_all add: text_message_def isToolResultMessage_def array_or_empty_def isFunctionResponsePart_def
      messageHasThinking_def arr_fld_def isThinkingPart_def thinking_type_def is_str_def)

lemma recovered_conversation:
  assumes "well_typed contents"
  obtains r where "closeToolLoopForThinking contents = Some r"
    "take (length contents) r = stripAllThinkingBlocks contents" "length r = length contents + 2"
    "well_typed r" "list_all (\<lambda>m. \<not> messageHasThinking m) r" "is_real_user (last r)"
proof -
  let ?s = "stripAllThinkingBlocks contents"
  have wt: "well_typed ?s" using assms by (simp add: strip_well_typed)
  then have "countTrailingToolResults ?s \<noteq> None"
    unfolding countTrailingToolResults_def by (intro count_defined) (simp add: well_typed_def)
  then obtain n where n: "countTrailingToolResults ?s = Some n" by blast
  have "list_all (\<lambda>m. \<not> messageHasThinking m) ?s"
    by (simp add: stripAllThinkingBlocks_def list_all_iff strip_no_thinking)
  moreover obtain body where "closeToolLoopForThinking contents
      = Some (?s @ [text_message ''model'' body, text_message ''user'' ''[Continue]''])"
    by (simp add: closeToolLoopForThinking_def Let_def n)
  moreover have "length ?s = length contents" by (simp add: stripAllThinkingBlocks_def)
  ultimately show ?thesis using wt
    by (intro that [of "?s @ [text_message ''model'' body, text_message ''user'' ''[Continue]'']"])
      (auto simp: well_typed_def is_real_user_def is_str_def)
qed

lemma recovery_settles:
  assumes "closeToolLoopForThinking contents = Some r" "well_typed contents" "analyzeConversationState r = Some st"
  shows "\<not> needsThinkingRecovery st \<and> cs_turnStartIdx st = -1"
proof -
  obtain r' where r': "closeToolLoopForThinking contents = Some r'" "well_typed r'" "is_real_user (last r')"
    "length r' = length contents + 2" by (rule recovered_conversation [OF assms(2)])
  then have r: "r' = r" using assms(1) by simp
  obtain xs l where l: "r = xs @ [l]" using r'(4) r by (cases r rule: rev_cases) auto
  then have turn: "current_turn r = []" using r'(3) r by (simp add: current_turn_def)
  obtain st' where "analyzeConversationState r = Some st'" "cs_turnStartIdx st' = -1"
    "cs_inToolLoop st' \<longleftrightarrow> r \<noteq> [] \<and> is_tool_result (last r)"
    using analyze_value [OF r'(2) [unfolded r]] turn by (metis first_index.simps(1) option.simps(4))
  then show ?thesis using assms(3) r'(3) r
    by (auto simp: needsThinkingRecovery_def is_real_user_def is_tool_result_def)
qed

end
