(* ===== verification/Recovery_Properties.thy ===== *)
theory Recovery_Properties
  imports Thinking_Recovery
begin

text \<open>
  The properties of the recovery of a conversation whose thinking blocks are lost: what the
  analysis computes, and what closing the tool loop achieves.
\<close>

lemma strip_untouched:
  assumes "\<not> messageHasThinking m"
  shows "strip_message m = m"
proof (cases "arr_fld m ''parts''")
  case (Some parts)
  then obtain ob where ob: "m = JObj ob" "map_of ob ''parts'' = Some (JArr parts)" using arr_fld_obj by blast
  have "map (\<lambda>p. if isThinkingPart p then sentinel_of p else p) parts = parts"
    using assms Some by (intro map_idI) (auto simp: messageHasThinking_def list_ex_iff)
  then show ?thesis using Some ob by (simp add: strip_message_def with_fld_def update_same)
next
  case None
  note parts = None
  show ?thesis
  proof (cases "arr_fld m ''content''")
    case None
    then show ?thesis using parts by (simp add: strip_message_def)
  next
    case (Some blocks)
    then obtain ob where ob: "m = JObj ob" "map_of ob ''content'' = Some (JArr blocks)" using arr_fld_obj by blast
    have "map (\<lambda>b. if thinking_type b then sentinel_of b else b) blocks = blocks"
      using assms parts Some by (intro map_idI) (auto simp: messageHasThinking_def list_ex_iff)
    then show ?thesis using parts Some ob by (simp add: strip_message_def with_fld_def update_same)
  qed
qed

text \<open>
  The analysis of a conversation agrees with the reference reading of it: the current turn
  starts at the first model message after the last user message that is no tool result, has
  thinking when that message does, and the conversation is in a tool loop when it ends with a
  tool result. It fails exactly when the \<open>parts\<close> of a user message are no array.
\<close>

lemma conversation_analysis:
  "case analyzeConversationState contents of
     None \<Rightarrow> \<not> well_typed contents
   | Some st \<Rightarrow> well_typed contents
       \<and> (cs_inToolLoop st \<longleftrightarrow> contents \<noteq> [] \<and> is_tool_result (last contents))
       \<and> cs_turnStartIdx st = (case first_index is_model (current_turn contents) of None \<Rightarrow> -1
            | Some k \<Rightarrow> int (length contents) - int (length (current_turn contents)) + int k)
       \<and> cs_turnHasThinking st = (case first_index is_model (current_turn contents) of None \<Rightarrow> False
            | Some k \<Rightarrow> messageHasThinking (current_turn contents ! k))"
proof (cases "well_typed contents")
  case True
  then show ?thesis by (rule analyze_value) (simp add: True)
next
  case False
  then show ?thesis by (simp add: analyze_error [THEN iffD2])
qed

text \<open>
  C40. Closing a tool loop never fails on a well-typed conversation: it appends a model and a
  user message, leaves every message without thinking as it is and no thinking in any, and
  the result needs no further recovery.
\<close>

theorem recovery_closes_loop:
  assumes "well_typed contents"
  shows "case closeToolLoopForThinking contents of
      None \<Rightarrow> False
    | Some r \<Rightarrow> length r = length contents + 2 \<and> list_all (\<lambda>m. \<not> messageHasThinking m) r
        \<and> (\<forall>i < length contents. messageHasThinking (contents ! i) \<or> r ! i = contents ! i)
        \<and> (case analyzeConversationState r of None \<Rightarrow> False | Some st \<Rightarrow> \<not> needsThinkingRecovery st)"
proof -
  obtain r where r: "closeToolLoopForThinking contents = Some r"
    "take (length contents) r = stripAllThinkingBlocks contents" "length r = length contents + 2"
    "well_typed r" "list_all (\<lambda>m. \<not> messageHasThinking m) r" by (rule recovered_conversation [OF assms])
  have "r ! i = strip_message (contents ! i)" if "i < length contents" for i
    using that r(2) by (metis nth_map nth_take stripAllThinkingBlocks_def)
  then have "\<forall>i < length contents. messageHasThinking (contents ! i) \<or> r ! i = contents ! i"
    using strip_untouched by metis
  moreover obtain st where st: "analyzeConversationState r = Some st"
    using analyze_error [of r] r(4) by (cases "analyzeConversationState r") auto
  ultimately show ?thesis using r recovery_settles [OF r(1) assms st] by simp
qed

theorem recovery_closes_loop_witness:
  "length (the (closeToolLoopForThinking [text_message ''user'' ''a'', text_message ''model'' ''b''])) = 4"
proof -
  have "well_typed [text_message ''user'' ''a'', text_message ''model'' ''b'']" by (simp add: well_typed_def del: not_None_eq)
  from recovery_closes_loop [OF this] show ?thesis
    by (cases "closeToolLoopForThinking [text_message ''user'' ''a'', text_message ''model'' ''b'']") simp_all
qed

end
