(* ===== verification/Json_Text.thy ===== *)
theory Json_Text
  imports Json_Access
begin

text \<open>
  JSON values as text: \<open>JSON.stringify\<close>, \<open>String\<close> of a value, template strings, \<open>join\<close> and the
  order of a \<open>Set\<close>. How a number prints is the argument \<open>nt\<close> (\<open>Number.prototype.toString\<close>,
  the shortest decimal that reads back as the same double).
\<close>

definition js_join :: "string \<Rightarrow> string list \<Rightarrow> string" where
  "js_join sep xs = (case xs of [] \<Rightarrow> [] | x # rest \<Rightarrow> x @ concat (map (\<lambda>y. sep @ y) rest))"

text \<open>\<open>[...new Set(xs)]\<close>: each value once, where it came first.\<close>

definition js_unique :: "'a list \<Rightarrow> 'a list" where
  "js_unique xs = rev (remdups (rev xs))"

lemma js_unique_facts [simp]: "set (js_unique xs) = set xs" "distinct (js_unique xs)"
  by (simp_all add: js_unique_def)

lemma js_unique_Nil [simp]: "js_unique xs = [] \<longleftrightarrow> xs = []" "js_unique [] = []"
  by (simp_all add: js_unique_def)

fun json_text :: "(num \<Rightarrow> string) \<Rightarrow> json \<Rightarrow> string" where
  "json_text nt JNull = ''null''"
| "json_text nt (JBool b) = (if b then ''true'' else ''false'')"
| "json_text nt (JNum n) = nt n"
| "json_text nt (JStr s) = json_string s"
| "json_text nt (JArr xs) = ''['' @ js_join '','' (map (json_text nt) xs) @ '']''"
| "json_text nt (JObj ob) =
     ''{'' @ js_join '','' (map (\<lambda>kv. json_string (fst kv) @ '':'' @ json_text nt (snd kv)) ob) @ ''}''"

text \<open>\<open>String(v)\<close>; inside an array \<open>null\<close> prints as nothing.\<close>

fun js_string :: "(num \<Rightarrow> string) \<Rightarrow> json \<Rightarrow> string" where
  "js_string nt JNull = ''null''"
| "js_string nt (JBool b) = (if b then ''true'' else ''false'')"
| "js_string nt (JNum n) = nt n"
| "js_string nt (JStr s) = s"
| "js_string nt (JArr xs) = js_join '','' (map (\<lambda>x. if x = JNull then [] else js_string nt x) xs)"
| "js_string nt (JObj ob) = ''[object Object]''"

definition js_string_opt :: "(num \<Rightarrow> string) \<Rightarrow> json option \<Rightarrow> string" where
  "js_string_opt nt v = (case v of None \<Rightarrow> ''undefined'' | Some x \<Rightarrow> js_string nt x)"

text \<open>A string, a number or a boolean.\<close>

definition is_scalar :: "json \<Rightarrow> bool" where
  "is_scalar v = (case v of JStr _ \<Rightarrow> True | JNum _ \<Rightarrow> True | JBool _ \<Rightarrow> True | _ \<Rightarrow> False)"

definition is_string :: "json \<Rightarrow> bool" where
  "is_string v = (case v of JStr _ \<Rightarrow> True | _ \<Rightarrow> False)"

definition str_of :: "json \<Rightarrow> string" where
  "str_of v = (case v of JStr s \<Rightarrow> s | _ \<Rightarrow> [])"

lemma is_string_iff: "is_string v \<longleftrightarrow> (\<exists>s. v = JStr s)"
  by (cases v) (simp_all add: is_string_def)

end
