(* ===== verification/Gemini_Schema.thy ===== *)
theory Gemini_Schema
  imports Json_Text
begin

text \<open>
  \<^verbatim>\<open>packages/core/src/transform/gemini.ts\<close>, the conversion of a JSON Schema to the fields
  Gemini's schema accepts: nullable type arrays, \<open>allOf\<close> intersections, \<open>const\<close> and \<open>oneOf\<close>, the
  bounds of integers, and the flattening of unions for Claude's validated mode. The hints the
  code pushes into a shared array are the second component of the results.
\<close>

definition ALLOWED_SCHEMA_FIELDS :: "string list" where
  "ALLOWED_SCHEMA_FIELDS = [''type'', ''properties'', ''items'', ''required'', ''description'', ''format'',
     ''pattern'', ''title'', ''nullable'', ''propertyOrdering'', ''example'', ''default'', ''enum'', ''anyOf'',
     ''minimum'', ''maximum'', ''minLength'', ''maxLength'', ''minItems'', ''maxItems'', ''minProperties'',
     ''maxProperties'']"

definition NUMERIC_SCHEMA_CONSTRAINTS :: "string list" where
  "NUMERIC_SCHEMA_CONSTRAINTS = [''minLength'', ''maxLength'', ''minItems'', ''maxItems'', ''minProperties'',
     ''maxProperties'', ''minimum'', ''maximum'', ''exclusiveMinimum'', ''exclusiveMaximum'', ''multipleOf'']"

definition CLAUDE_VALIDATED_HINT_FIELDS :: "string list" where
  "CLAUDE_VALIDATED_HINT_FIELDS =
     [''minLength'', ''maxLength'', ''minItems'', ''maxItems'', ''pattern'', ''format'', ''default'']"

definition ALLOWED_JSON_SCHEMA_TYPES :: "string list" where
  "ALLOWED_JSON_SCHEMA_TYPES = [''string'', ''number'', ''integer'', ''boolean'', ''array'', ''object'', ''null'']"

record GeminiSchemaOptions =
  moveNumericConstraintsToDescription :: bool
  claudeValidated :: bool

definition isSchemaObject :: "json \<Rightarrow> bool" where
  "isSchemaObject v = (case v of JObj _ \<Rightarrow> True | _ \<Rightarrow> False)"

section \<open>Types and equality\<close>

definition schema_type_name :: "json \<Rightarrow> bool" where
  "schema_type_name t = (case t of JStr s \<Rightarrow> to_lower s \<in> set ALLOWED_JSON_SCHEMA_TYPES | _ \<Rightarrow> False)"

definition normalizeNullableTypeArray :: "js_object \<Rightarrow> js_object" where
  "normalizeNullableTypeArray schema =
     (case get_arr schema ''type'' of
        None \<Rightarrow> schema
      | Some ts \<Rightarrow>
          if ts = [] \<or> \<not> list_all schema_type_name ts then schema
          else (let types = js_unique (map (\<lambda>t. to_lower (str_of t)) ts);
                    nonNull = filter (\<lambda>t. t \<noteq> ''null'') types in
                if 1 < length nonNull then schema
                else (let typed = AList.update ''type'' (JStr (case nonNull of [] \<Rightarrow> ''null'' | t # _ \<Rightarrow> t)) schema in
                      if length nonNull = 1 \<and> ''null'' \<in> set types
                      then AList.update ''nullable'' (JBool True) typed else typed)))"

lemma size_member: "(k, v) \<in> set ob \<Longrightarrow> size v < size (JObj ob)"
  by (induction ob) auto

lemma size_element: "x \<in> set xs \<Longrightarrow> size x < size (JArr xs)"
  by (induction xs) auto

text \<open>Structural equality; the order of an object's properties does not matter.\<close>

function (sequential) sameSchemaValue :: "json \<Rightarrow> json \<Rightarrow> bool" where
  "sameSchemaValue (JArr xs) (JArr ys) =
     (length xs = length ys \<and> list_all (\<lambda>(x, y). sameSchemaValue x y) (zip xs ys))"
| "sameSchemaValue (JObj a) (JObj b) =
     (length a = length b
      \<and> list_all (\<lambda>(k, x). case map_of b k of None \<Rightarrow> False | Some y \<Rightarrow> sameSchemaValue x y) a)"
| "sameSchemaValue left right = (left = right)"
  by pat_completeness auto
termination
  by (relation "measure (\<lambda>(left, _). size left)")
    (auto dest!: set_zip_leftD dest: size_element size_member)

section \<open>Intersections\<close>

record allof_state =
  am_metadata :: js_object
  am_properties :: js_object
  am_required :: "string list"
  am_descriptions :: "string list"
  am_unambiguous :: bool
  am_nullable :: bool

definition branch_properties :: "js_object \<Rightarrow> js_object" where
  "branch_properties branch = (case map_of branch ''properties'' of Some (JObj ps) \<Rightarrow> ps | _ \<Rightarrow> [])"

text \<open>A branch of another type, or with \<open>properties\<close> that are no object, ends the loop.\<close>

definition branch_blocked :: "(num \<Rightarrow> string) \<Rightarrow> js_object \<Rightarrow> bool" where
  "branch_blocked nt branch =
     ((case map_of branch ''type'' of None \<Rightarrow> False | Some t \<Rightarrow> to_upper (js_string nt t) \<noteq> ''OBJECT'')
      \<or> (case map_of branch ''properties'' of None \<Rightarrow> False | Some p \<Rightarrow> \<not> isSchemaObject p))"

definition add_metadata :: "js_object \<Rightarrow> js_object \<Rightarrow> js_object" where
  "add_metadata branch metadata =
     foldl (\<lambda>m (k, v).
       if k \<notin> set [''properties'', ''required'', ''description'', ''nullable''] \<and> \<not> jm_has m k
       then AList.update k v m else m) metadata branch"

definition add_property :: "js_object \<times> bool \<Rightarrow> string \<times> json \<Rightarrow> js_object \<times> bool" where
  "add_property st entry =
     (let (properties, unambiguous) = st; (k, v) = entry in
      (AList.update k v properties,
       unambiguous \<and> (case map_of properties k of None \<Rightarrow> True | Some old \<Rightarrow> sameSchemaValue old v)))"

definition add_required :: "js_object \<Rightarrow> string list \<Rightarrow> string list" where
  "add_required branch req =
     (case get_arr branch ''required'' of
        None \<Rightarrow> req
      | Some names \<Rightarrow> js_unique (req @ map str_of (filter is_string names)))"

definition allof_step :: "bool \<Rightarrow> js_object \<Rightarrow> allof_state \<Rightarrow> allof_state" where
  "allof_step contributing branch st =
     (let (properties, unambiguous) =
        foldl add_property (am_properties st, am_unambiguous st) (branch_properties branch)
      in \<lparr>am_metadata = add_metadata branch (am_metadata st),
          am_properties = properties,
          am_required = add_required branch (am_required st),
          am_descriptions = (case get_str branch ''description'' of
             None \<Rightarrow> am_descriptions st | Some d \<Rightarrow> am_descriptions st @ [d]),
          am_unambiguous = unambiguous,
          am_nullable = (am_nullable st
             \<and> \<not> (contributing \<and> map_of branch ''nullable'' \<noteq> Some (JBool True)))\<rparr>)"

fun allof_loop :: "(num \<Rightarrow> string) \<Rightarrow> (bool \<times> json) list \<Rightarrow> allof_state \<Rightarrow> allof_state" where
  "allof_loop nt [] st = st"
| "allof_loop nt ((contributing, raw) # rest) st =
     (case raw of
        JObj ob \<Rightarrow>
          (let branch = normalizeNullableTypeArray ob in
           if branch_blocked nt branch then st\<lparr>am_unambiguous := False\<rparr>
           else allof_loop nt rest (allof_step contributing branch st))
      | _ \<Rightarrow> st\<lparr>am_unambiguous := False\<rparr>)"

definition base_contributes :: "js_object \<Rightarrow> bool" where
  "base_contributes base = (jm_has base ''type'' \<or> jm_has base ''nullable'' \<or> jm_has base ''properties'')"

text \<open>The intersection of an unambiguous \<open>allOf\<close>; the keys after \<open>type\<close> are new ones.\<close>

definition allof_object :: "allof_state \<Rightarrow> js_object" where
  "allof_object st =
     AList.update ''properties'' (JObj (am_properties st)) (AList.update ''type'' (JStr ''object'') (am_metadata st))
     @ (if am_nullable st then [(''nullable'', JBool True)] else [])
     @ (if am_required st = [] then [] else [(''required'', JArr (map JStr (am_required st)))])
     @ (if am_descriptions st = [] then []
        else [(''description'', JStr (js_join '' '' (am_descriptions st)))])"

definition mergeSchemaAllOf :: "(num \<Rightarrow> string) \<Rightarrow> js_object \<Rightarrow> js_object \<times> string list" where
  "mergeSchemaAllOf nt schema =
     (case get_arr schema ''allOf'' of
        None \<Rightarrow> (schema, [])
      | Some allOf \<Rightarrow>
          (let base = AList.delete ''allOf'' schema;
               st = allof_loop nt ((base_contributes base, JObj base) # map (\<lambda>b. (True, b)) allOf)
                      \<lparr>am_metadata = [], am_properties = [], am_required = [], am_descriptions = [],
                       am_unambiguous = (allOf \<noteq> []), am_nullable = True\<rparr>
           in if am_unambiguous st then (allof_object st, [])
              else (let first = (case allOf of JObj ob # _ \<Rightarrow> ob | _ \<Rightarrow> []); merged = spread base first in
                    (if truthy_fld (JObj base) ''description''
                     then AList.update ''description'' (the (map_of base ''description'')) merged else merged,
                     [''allOf: using the first branch; other intersection constraints omitted.'']))))"

section \<open>One entry of a schema\<close>

definition skipped_by_type :: "string option \<Rightarrow> string \<Rightarrow> bool" where
  "skipped_by_type schemaType key =
     (case schemaType of
        None \<Rightarrow> False
      | Some t \<Rightarrow> (key = ''items'' \<and> t \<noteq> ''ARRAY'')
                  \<or> (t \<noteq> ''OBJECT'' \<and> key \<in> set [''properties'', ''required'', ''propertyOrdering'']))"

text \<open>The hint a scalar constraint leaves in the description.\<close>

definition scalar_hint :: "(num \<Rightarrow> string) \<Rightarrow> string \<Rightarrow> json \<Rightarrow> string list" where
  "scalar_hint nt key v = (if is_scalar v then [key @ '': '' @ js_string nt v] else [])"

definition MAX_SAFE_INTEGER :: int where
  "MAX_SAFE_INTEGER = 2 ^ 53 - 1"

text \<open>The inclusive bound an exclusive one of an integer becomes, with the inclusive bound it tightens.\<close>

definition tightened_bound ::
  "(num \<Rightarrow> string) \<Rightarrow> GeminiSchemaOptions \<Rightarrow> js_object \<Rightarrow> string \<Rightarrow> json \<Rightarrow> (string \<times> num) option" where
  "tightened_bound nt opts input key v =
     (case v of
        JNum n \<Rightarrow>
          if key \<in> set [''exclusiveMinimum'', ''exclusiveMaximum''] \<and> \<not> moveNumericConstraintsToDescription opts
             \<and> to_upper (js_string_opt nt (map_of input ''type'')) = ''INTEGER''
          then (let lower = (key = ''exclusiveMinimum'');
                    bound = (if lower then \<lfloor>n\<rfloor> + 1 else \<lceil>n\<rceil> - 1);
                    inclusiveKey = (if lower then ''minimum'' else ''maximum'')
                in if \<bar>bound\<bar> \<le> MAX_SAFE_INTEGER
                   then Some (inclusiveKey,
                     case map_of input inclusiveKey of
                       Some (JNum e) \<Rightarrow> (if lower then max e (of_int bound) else min e (of_int bound))
                     | _ \<Rightarrow> of_int bound)
                   else None)
          else None
      | _ \<Rightarrow> None)"

definition property_names :: "js_object \<Rightarrow> string list" where
  "property_names input =
     (case map_of input ''properties'' of
        Some (JObj ps) \<Rightarrow> map fst ps
      | Some (JArr xs) \<Rightarrow> map show_nat [0..<length xs]
      | _ \<Rightarrow> [])"

text \<open>An allowed field whose value needs no conversion of subschemas.\<close>

definition kept_entry ::
  "(num \<Rightarrow> string) \<Rightarrow> js_object \<Rightarrow> string \<Rightarrow> json \<Rightarrow> js_object \<times> string list \<Rightarrow> js_object \<times> string list" where
  "kept_entry nt input key v st =
     (let (result, hints) = st; put = (\<lambda>x. (AList.update key x result, hints)) in
      case v of
        JStr s \<Rightarrow> if key = ''type'' then put (JStr (to_upper s)) else put v
      | JArr xs \<Rightarrow>
          if key = ''enum''
          then (if list_all is_string xs
                then (if get_str input ''const'' = None then put v else (result, hints))
                else (result, hints @ [''Allowed values: '' @ js_join '', '' (map (json_text nt) xs) @ ''.'']))
          else if key = ''required'' \<and> property_names input \<noteq> []
          then (let valid = filter (\<lambda>x. is_string x \<and> str_of x \<in> set (property_names input)) xs in
                if valid = [] then (result, hints) else put (JArr valid))
          else put v
      | JNum n \<Rightarrow>
          (case map_of result key of
             Some (JNum old) \<Rightarrow>
               if key = ''minimum'' then put (JNum (max old n))
               else if key = ''maximum'' then put (JNum (min old n)) else put v
           | _ \<Rightarrow> put v)
      | _ \<Rightarrow> put v)"

text \<open>The subschemas of an entry, converted in place by \<open>f\<close>.\<close>

definition on_subschemas :: "(json \<Rightarrow> json) \<Rightarrow> string \<Rightarrow> json \<Rightarrow> json" where
  "on_subschemas f key v =
     (if key = ''properties''
      then (case v of
              JObj ps \<Rightarrow> JObj (map (\<lambda>(n, p). (n, f p)) ps)
            | JArr xs \<Rightarrow> JObj (zip (map show_nat [0..<length xs]) (map f xs))
            | _ \<Rightarrow> v)
      else if key = ''items'' then f v
      else if key \<in> set [''anyOf'', ''oneOf'']
      then (case v of JArr xs \<Rightarrow> JArr (map f xs) | _ \<Rightarrow> v)
      else v)"

definition has_subschemas :: "string \<Rightarrow> json \<Rightarrow> bool" where
  "has_subschemas key v =
     (case v of
        JObj _ \<Rightarrow> key \<in> set [''properties'', ''items'']
      | JArr _ \<Rightarrow> key \<in> set [''properties'', ''items'', ''anyOf'']
      | JNull \<Rightarrow> key = ''items''
      | _ \<Rightarrow> False)"

text \<open>One step of the loop over the entries; \<open>sub\<close> is the value with its subschemas converted.\<close>

definition schema_entry ::
  "(num \<Rightarrow> string) \<Rightarrow> GeminiSchemaOptions \<Rightarrow> js_object \<Rightarrow> js_object \<times> string list
   \<Rightarrow> string \<times> json \<times> json \<Rightarrow> js_object \<times> string list" where
  "schema_entry nt opts input st entry =
     (let (result, hints) = st; (key, v, sub) = entry;
          schemaType = map_option to_upper (get_str input ''type'');
          hints1 = (if claudeValidated opts \<and> key = ''additionalProperties'' \<and> v = JBool False
                    then hints @ [''No extra properties allowed''] else hints)
      in if skipped_by_type schemaType key then (result, hints)
         else if claudeValidated opts \<and> key = ''title'' then (result, hints)
         else if claudeValidated opts \<and> key \<in> set CLAUDE_VALIDATED_HINT_FIELDS
         then (result, hints1 @ scalar_hint nt key v)
         else if key = ''const''
         then (case v of
                 JStr s \<Rightarrow> (AList.update ''enum'' (JArr [v]) result, hints1)
               | _ \<Rightarrow> (result, hints1 @ [''Must be '' @ json_text nt v @ ''.'']))
         else (case tightened_bound nt opts input key v of
           Some (inclusiveKey, bound) \<Rightarrow> (AList.update inclusiveKey (JNum bound) result, hints1)
         | None \<Rightarrow>
             if key \<in> set NUMERIC_SCHEMA_CONSTRAINTS
                \<and> (moveNumericConstraintsToDescription opts
                   \<or> key \<in> set [''exclusiveMinimum'', ''exclusiveMaximum'', ''multipleOf''])
             then (result, hints1 @ scalar_hint nt key v)
             else if key = ''oneOf'' \<and> get_arr [(key, v)] key \<noteq> None
             then (if get_arr input ''anyOf'' = None then (AList.update ''anyOf'' sub result, hints1)
                   else (result, hints1 @ [''oneOf: additional union constraints omitted.'']))
             else if key \<notin> set ALLOWED_SCHEMA_FIELDS then (result, hints1)
             else if has_subschemas key v then (AList.update key sub result, hints1)
             else kept_entry nt input key v (result, hints1)))"

section \<open>Unions in Claude's validated mode\<close>

definition string_constants :: "json \<Rightarrow> bool" where
  "string_constants branch =
     (case arr_fld branch ''enum'' of
        None \<Rightarrow> False
      | Some vs \<Rightarrow> vs \<noteq> [] \<and> list_all is_string vs
          \<and> (fld branch ''type'' = None \<or> is_str (fld branch ''type'') ''STRING'')
          \<and> \<not> truthy_fld branch ''properties'' \<and> \<not> truthy_fld branch ''items'')"

definition union_type_name :: "(num \<Rightarrow> string) \<Rightarrow> json \<Rightarrow> string" where
  "union_type_name nt branch =
     (if truthy_fld branch ''properties'' then ''object''
      else if truthy_fld branch ''items'' then ''array''
      else to_lower (case fld branch ''type'' of None \<Rightarrow> ''null'' | Some JNull \<Rightarrow> ''null'' | Some t \<Rightarrow> js_string nt t))"

definition union_score :: "(num \<Rightarrow> string) \<Rightarrow> json \<Rightarrow> nat" where
  "union_score nt branch =
     (let t = union_type_name nt branch in
      if t = ''object'' then 3 else if t = ''array'' then 2 else if t = ''null'' then 0 else 1)"

definition select_branch :: "(num \<Rightarrow> string) \<Rightarrow> json list \<Rightarrow> json" where
  "select_branch nt branches =
     foldl (\<lambda>selected b. if union_score nt selected < union_score nt b then b else selected)
       (hd branches) (tl branches)"

definition flattenClaudeUnion :: "(num \<Rightarrow> string) \<Rightarrow> js_object \<Rightarrow> js_object \<times> string list" where
  "flattenClaudeUnion nt schema =
     (case get_arr schema ''anyOf'' of
        None \<Rightarrow> (schema, [])
      | Some anyOf \<Rightarrow>
          if anyOf = [] then (schema, [])
          else
            (let base = AList.delete ''anyOf'' schema; branches = filter isSchemaObject anyOf in
             if branches = [] then (base, [])
             else if length branches = length anyOf \<and> list_all string_constants branches
             then (AList.update ''enum''
                     (JArr (js_unique (concat (map (\<lambda>b. the (arr_fld b ''enum'')) branches))))
                     (AList.update ''type'' (JStr ''STRING'') base), [])
             else
               (let selected = select_branch nt branches;
                    result = spread base (case selected of JObj ob \<Rightarrow> ob | _ \<Rightarrow> []);
                    described =
                      (case get_str base ''description'' of
                         None \<Rightarrow> result
                       | Some d \<Rightarrow>
                           if d = [] then result
                           else AList.update ''description''
                             (case fld selected ''description'' of
                                Some (JStr e) \<Rightarrow> JStr (if e \<noteq> [] \<and> e \<noteq> d then d @ '' ('' @ e @ '')'' else d)
                              | _ \<Rightarrow> JStr d) result)
                in (described,
                    if 1 < length branches
                    then [''Accepts: '' @ js_join '' | '' (js_unique (map (union_type_name nt) branches))]
                    else []))))"

text \<open>After the loop of the validated mode, \<open>required\<close> names only what the flattened schema has.\<close>

definition prune_required :: "js_object \<Rightarrow> js_object" where
  "prune_required result =
     (case (get_obj result ''properties'', get_arr result ''required'') of
        (Some ps, Some names) \<Rightarrow>
          (let kept = filter (\<lambda>x. is_string x \<and> jm_has ps (str_of x)) names in
           if kept = [] then AList.delete ''required'' result
           else AList.update ''required'' (JArr kept) result)
      | _ \<Rightarrow> result)"

definition add_hints :: "string list \<Rightarrow> js_object \<Rightarrow> js_object" where
  "add_hints hints result =
     (if hints = [] then result
      else (let hint = js_join '', '' hints in
            AList.update ''description''
              (case get_str result ''description'' of
                 None \<Rightarrow> JStr hint
               | Some d \<Rightarrow> JStr (if d = [] then hint else d @ '' ('' @ hint @ '')'')) result))"

definition add_items :: "js_object \<Rightarrow> js_object" where
  "add_items result =
     (if get_str result ''type'' = Some ''ARRAY'' \<and> \<not> truthy_fld (JObj result) ''items''
      then AList.update ''items'' (JObj [(''type'', JStr ''STRING'')]) result else result)"

definition finish_schema ::
  "(num \<Rightarrow> string) \<Rightarrow> GeminiSchemaOptions \<Rightarrow> js_object \<times> string list \<Rightarrow> js_object" where
  "finish_schema nt opts st =
     (let (result, hints) = st;
          (flat, more) = (if claudeValidated opts
                          then (let (r, h) = flattenClaudeUnion nt result in (prune_required r, h))
                          else (result, []))
      in add_items (add_hints (hints @ more) flat))"

section \<open>The conversion\<close>

text \<open>The input of one level: the intersection is merged, a nullable type is made plain.\<close>

definition schema_input :: "(num \<Rightarrow> string) \<Rightarrow> js_object \<Rightarrow> js_object \<times> string list" where
  "schema_input nt schema =
     (let (merged, hints) = mergeSchemaAllOf nt schema in (normalizeNullableTypeArray merged, hints))"

text \<open>The values a level hands to the conversion are smaller than the schema.\<close>

definition subschemas :: "string \<Rightarrow> json \<Rightarrow> json list" where
  "subschemas key v =
     (if key = ''properties'' then (case v of JObj ps \<Rightarrow> map snd ps | JArr xs \<Rightarrow> xs | _ \<Rightarrow> [])
      else if key = ''items'' then [v]
      else if key \<in> set [''anyOf'', ''oneOf''] then (case v of JArr xs \<Rightarrow> xs | _ \<Rightarrow> [])
      else [])"

lemma subschemas_simps:
  "subschemas ''properties'' (JObj ps) = map snd ps" "subschemas ''properties'' (JArr xs) = xs"
  "subschemas ''items'' v = [v]" "subschemas ''anyOf'' (JArr xs) = xs" "subschemas ''oneOf'' (JArr xs) = xs"
  by (simp_all add: subschemas_def)

lemma subschemas_none:
  "k \<noteq> ''items'' \<Longrightarrow> k \<noteq> ''properties'' \<Longrightarrow> subschemas k (JObj ps) = []"
  "k \<noteq> ''items'' \<Longrightarrow> k \<notin> {''properties'', ''anyOf'', ''oneOf''} \<Longrightarrow> subschemas k v = []"
  "k \<noteq> ''items'' \<Longrightarrow> \<not> (\<exists>ps. v = JObj ps) \<Longrightarrow> \<not> (\<exists>xs. v = JArr xs) \<Longrightarrow> subschemas k v = []"
  by (simp_all add: subschemas_def split: json.split)

lemma subschemas_cases:
  assumes "x \<in> set (subschemas k v)"
  obtains ps n where "k = ''properties''" "v = JObj ps" "(n, x) \<in> set ps"
  | xs where "k \<in> {''properties'', ''anyOf'', ''oneOf''}" "v = JArr xs" "x \<in> set xs"
  | "k = ''items''" "x = v"
proof (cases "k = ''items''")
  case True
  then have "x = v" using assms by (simp add: subschemas_simps)
  then show ?thesis using True that(3) by blast
next
  case False
  show ?thesis
  proof (cases v)
    case (JObj ps)
    then have k: "k = ''properties''" using False assms by (cases "k = ''properties''") (simp_all add: subschemas_none)
    then have "x \<in> snd ` set ps" using assms JObj by (simp add: subschemas_simps)
    then show ?thesis using JObj k that(1) by fastforce
  next
    case (JArr xs)
    then have k: "k \<in> {''properties'', ''anyOf'', ''oneOf''}"
      using False assms by (cases "k \<in> {''properties'', ''anyOf'', ''oneOf''}") (simp_all add: subschemas_none)
    then have "x \<in> set xs" using assms JArr by (elim insertE emptyE) (simp_all add: subschemas_simps)
    then show ?thesis using JArr k that(2) by blast
  qed (use False assms in \<open>simp_all add: subschemas_none\<close>)
qed

lemma on_subschemas_cong [fundef_cong]:
  assumes "key = key'" "v = v'" "\<And>x. x \<in> set (subschemas key' v') \<Longrightarrow> f x = g x"
  shows "on_subschemas f key v = on_subschemas g key' v'"
proof -
  have "map (\<lambda>(n, p). (n, f p)) ps = map (\<lambda>(n, p). (n, g p)) ps" if "v' = JObj ps" "key' = ''properties''" for ps
    using assms(3) that by (intro map_cong refl) (force simp: subschemas_simps)
  moreover have "map f xs = map g xs" if "v' = JArr xs" "key' \<in> {''properties'', ''anyOf'', ''oneOf''}" for xs
    using assms(3) that(2) unfolding that(1)
    by (intro map_cong refl, elim insertE emptyE) (simp_all add: subschemas_simps)
  moreover have "f v' = g v'" if "key' = ''items''" using assms(3) that by (simp add: subschemas_simps)
  ultimately show ?thesis unfolding assms(1,2) on_subschemas_def
    by (simp del: map_eq_conv split: json.split)
qed

text \<open>What holds of every subschema of an object's entries.\<close>

definition subs_ok :: "(json \<Rightarrow> bool) \<Rightarrow> js_object \<Rightarrow> bool" where
  "subs_ok P ob \<longleftrightarrow> (\<forall>kv \<in> set ob. \<forall>x \<in> set (subschemas (fst kv) (snd kv)). P x)"

lemma subs_ok_Nil [simp]: "subs_ok P []"
  by (simp add: subs_ok_def)

lemma subs_ok_append [simp]: "subs_ok P (a @ b) \<longleftrightarrow> subs_ok P a \<and> subs_ok P b"
  by (auto simp: subs_ok_def)

lemma subs_ok_Cons [simp]: "subs_ok P ((k, v) # a) \<longleftrightarrow> (\<forall>x \<in> set (subschemas k v). P x) \<and> subs_ok P a"
  by (auto simp: subs_ok_def)

lemma subs_ok_update: "subs_ok P m \<Longrightarrow> \<forall>x \<in> set (subschemas k v). P x \<Longrightarrow> subs_ok P (AList.update k v m)"
  using set_update_subset [of k v m] by (fastforce simp: subs_ok_def)

lemma subs_ok_delete: "subs_ok P m \<Longrightarrow> subs_ok P (AList.delete k m)"
  using set_delete_subset [of k m] by (fastforce simp: subs_ok_def)

lemma subs_ok_spread: "subs_ok P a \<Longrightarrow> subs_ok P b \<Longrightarrow> subs_ok P (spread a b)"
  unfolding spread_def by (induction b arbitrary: a) (auto simp: subs_ok_update)

lemma size_subschema: "x \<in> set (subschemas k v) \<Longrightarrow> size x \<le> size v"
  by (erule subschemas_cases) (use size_member size_element less_imp_le in \<open>metis order_refl\<close>)+

lemma subschemas_plain [simp]: "subschemas ''type'' v = []" "subschemas ''nullable'' v = []"
  "subschemas ''required'' v = []" "subschemas ''description'' v = []" "subschemas ''enum'' v = []"
  by (simp_all add: subschemas_def)

lemma subs_ok_normalize: "subs_ok P ob \<Longrightarrow> subs_ok P (normalizeNullableTypeArray ob)"
  by (auto simp: normalizeNullableTypeArray_def Let_def subs_ok_update split: option.split)

definition values_of :: "js_object \<Rightarrow> json set" where
  "values_of ob = snd ` set ob"

lemma values_of_Nil [simp]: "values_of [] = {}"
  by (simp add: values_of_def)

lemma values_of_update: "values_of (AList.update k v m) \<subseteq> insert v (values_of m)"
  using set_update_subset [of k v m] by (force simp: values_of_def)

lemma branch_properties_ok:
  assumes "subs_ok P ob" "v \<in> values_of (branch_properties ob)"
  shows "P v"
proof -
  obtain ps where ps: "map_of ob ''properties'' = Some (JObj ps)" "v \<in> snd ` set ps"
    using assms(2) by (auto simp: values_of_def branch_properties_def eq_commute split: option.splits json.splits)
  then have "v \<in> set (subschemas ''properties'' (JObj ps))" by (simp add: subschemas_simps)
  then show ?thesis using assms(1) map_of_SomeD [OF ps(1)] by (force simp: subs_ok_def)
qed

lemma metadata_ok: "subs_ok P branch \<Longrightarrow> subs_ok P m \<Longrightarrow> subs_ok P (add_metadata branch m)"
  unfolding add_metadata_def
  by (induction branch arbitrary: m) (auto simp: subs_ok_update)

lemma add_property_values:
  "values_of (fst (foldl add_property st qs)) \<subseteq> values_of (fst st) \<union> values_of qs"
proof (induction qs arbitrary: st)
  case Nil
  then show ?case by simp
next
  case (Cons q qs)
  have "values_of (fst (add_property st q)) \<subseteq> insert (snd q) (values_of (fst st))"
    using values_of_update [of "fst q" "snd q" "fst st"] by (simp add: add_property_def split_beta Let_def)
  moreover have "values_of (q # qs) = insert (snd q) (values_of qs)" by (simp add: values_of_def)
  ultimately show ?case using Cons [of "add_property st q"] by (simp, blast)
qed

definition state_ok :: "(json \<Rightarrow> bool) \<Rightarrow> allof_state \<Rightarrow> bool" where
  "state_ok P st \<longleftrightarrow> subs_ok P (am_metadata st) \<and> (\<forall>v \<in> values_of (am_properties st). P v)"

lemma step_ok:
  assumes "subs_ok P branch" "state_ok P st"
  shows "state_ok P (allof_step c branch st)"
proof -
  have "values_of (am_properties (allof_step c branch st))
      \<subseteq> values_of (am_properties st) \<union> values_of (branch_properties branch)"
    using add_property_values [of "(am_properties st, am_unambiguous st)" "branch_properties branch"]
    by (simp add: allof_step_def split_beta Let_def)
  moreover have "subs_ok P (am_metadata (allof_step c branch st))"
    using assms by (simp add: allof_step_def split_beta Let_def state_ok_def metadata_ok)
  ultimately show ?thesis using assms branch_properties_ok [OF assms(1)]
    unfolding state_ok_def by blast
qed

lemma loop_ok:
  "\<forall>b \<in> snd ` set bs. \<forall>ob. b = JObj ob \<longrightarrow> subs_ok P ob \<Longrightarrow> state_ok P st \<Longrightarrow> state_ok P (allof_loop nt bs st)"
proof (induction bs arbitrary: st)
  case (Cons p bs)
  obtain c b where p: "p = (c, b)" by fastforce
  have stop: "state_ok P (st\<lparr>am_unambiguous := False\<rparr>)" using Cons.prems(2) by (simp add: state_ok_def)
  show ?case
  proof (cases b)
    case (JObj ob)
    then have "state_ok P (allof_step c (normalizeNullableTypeArray ob) st)"
      using Cons.prems p by (intro step_ok subs_ok_normalize) auto
    from Cons.IH [OF _ this] Cons.prems(1) show ?thesis using stop p JObj by (simp add: Let_def)
  qed (use stop p in simp_all)
qed simp

lemma allof_object_ok: "state_ok P st \<Longrightarrow> subs_ok P (allof_object st)"
  by (auto simp: state_ok_def allof_object_def subschemas_simps values_of_def intro!: subs_ok_update)

lemma input_ok:
  assumes "subs_ok P ob" "\<And>allOf b. get_arr ob ''allOf'' = Some allOf \<Longrightarrow> JObj b \<in> set allOf \<Longrightarrow> subs_ok P b"
  shows "subs_ok P (fst (schema_input nt ob))"
proof -
  have "subs_ok P (fst (mergeSchemaAllOf nt ob))"
  proof (cases "get_arr ob ''allOf''")
    case None
    then show ?thesis by (simp add: mergeSchemaAllOf_def assms(1))
  next
    case (Some allOf)
    have base: "subs_ok P (AList.delete ''allOf'' ob)" by (intro subs_ok_delete assms)
    note branch = assms(2) [OF Some]
    let ?bs = "(base_contributes (AList.delete ''allOf'' ob), JObj (AList.delete ''allOf'' ob)) # map (\<lambda>b. (True, b)) allOf"
    have "state_ok P (allof_loop nt ?bs \<lparr>am_metadata = [], am_properties = [], am_required = [],
        am_descriptions = [], am_unambiguous = (allOf \<noteq> []), am_nullable = True\<rparr>)"
      using base branch by (intro loop_ok) (auto simp: state_ok_def)
    moreover have "subs_ok P (case allOf of JObj b # _ \<Rightarrow> b | _ \<Rightarrow> [])"
      using branch by (auto split: list.split json.split)
    ultimately show ?thesis using Some base
      by (auto simp: mergeSchemaAllOf_def Let_def intro!: allof_object_ok subs_ok_update subs_ok_spread)
  qed
  then show ?thesis by (simp add: schema_input_def split_beta Let_def subs_ok_normalize)
qed

lemma small_object: "size (JObj ob) \<le> n \<Longrightarrow> subs_ok (\<lambda>x. size x < n) ob"
  using size_member size_subschema by (fastforce simp: subs_ok_def)

lemma small_input:
  assumes "(k, v) \<in> set (fst (schema_input nt ob))" "x \<in> set (subschemas k v)"
  shows "size x < size (JObj ob)"
proof -
  have "size (JObj b) \<le> size (JObj ob)" if "get_arr ob ''allOf'' = Some allOf" "JObj b \<in> set allOf" for allOf b
    using size_element [OF that(2)] that(1) size_member [of "''allOf''" "JArr allOf" ob]
    by (auto simp: get_arr_Some dest: map_of_SomeD)
  then have "subs_ok (\<lambda>x. size x < size (JObj ob)) (fst (schema_input nt ob))"
    by (intro input_ok small_object) auto
  then show ?thesis using assms by (force simp: subs_ok_def)
qed

function toGeminiSchema :: "(num \<Rightarrow> string) \<Rightarrow> GeminiSchemaOptions \<Rightarrow> json \<Rightarrow> json" where
  "toGeminiSchema nt opts schema =
     (case schema of
        JObj ob \<Rightarrow>
          JObj (finish_schema nt opts
            (foldl (schema_entry nt opts (fst (schema_input nt ob))) ([], snd (schema_input nt ob))
              (map (\<lambda>(k, v). (k, v, on_subschemas (toGeminiSchema nt opts) k v)) (fst (schema_input nt ob)))))
      | _ \<Rightarrow> schema)"
  by pat_completeness auto
termination
  by (relation "measure (\<lambda>(_, _, v). size v)") (auto dest: small_input)

declare toGeminiSchema.simps [simp del]

end
