(* ===== verification/Gemini_Tools.thy ===== *)
theory Gemini_Tools
  imports Gemini_Schema
begin

text \<open>
  \<^verbatim>\<open>packages/core/src/transform/gemini.ts\<close>, the tools and the thinking configuration of a Gemini
  request. A payload is an object of JSON values; the functions that mutate it return it. A
  tool, and its \<open>function\<close>, \<open>custom\<close> and declarations when present, are objects, as the code's
  casts say; \<open>None\<close> is the \<open>TypeError\<close> of \<open>push\<close> on \<open>tools\<close> that are no array. The messages
  written to the console are left out.
\<close>

section \<open>Model names and configuration\<close>

definition gemini_model :: "string \<Rightarrow> bool" where
  "gemini_model model = (str_includes (to_lower model) ''gemini'' \<and> \<not> str_includes (to_lower model) ''claude'')"

definition isGemini3Model :: "string \<Rightarrow> bool" where
  "isGemini3Model model = str_includes (to_lower model) ''gemini-3''"

definition isGemini25Model :: "string \<Rightarrow> bool" where
  "isGemini25Model model = str_includes (to_lower model) ''gemini-2.5''"

definition isImageGenerationModel :: "string \<Rightarrow> bool" where
  "isImageGenerationModel model =
     (str_includes (to_lower model) ''image'' \<or> str_includes (to_lower model) ''imagen'')"

definition buildGemini3ThinkingConfig :: "bool \<Rightarrow> string \<Rightarrow> js_object" where
  "buildGemini3ThinkingConfig includeThoughts thinkingLevel =
     [(''includeThoughts'', JBool includeThoughts), (''thinkingLevel'', JStr thinkingLevel)]"

definition buildGemini25ThinkingConfig :: "bool \<Rightarrow> num option \<Rightarrow> js_object" where
  "buildGemini25ThinkingConfig includeThoughts thinkingBudget =
     (''includeThoughts'', JBool includeThoughts)
     # (case thinkingBudget of
          None \<Rightarrow> []
        | Some b \<Rightarrow> if 0 < b then [(''thinkingBudget'', JNum b)] else [])"

definition VALID_ASPECT_RATIOS :: "string list" where
  "VALID_ASPECT_RATIOS =
     [''1:1'', ''2:3'', ''3:2'', ''3:4'', ''4:3'', ''4:5'', ''5:4'', ''9:16'', ''16:9'', ''21:9'']"

definition buildImageGenerationConfig :: "string option \<Rightarrow> js_object" where
  "buildImageGenerationConfig env =
     (let aspectRatio = (case env of None \<Rightarrow> ''1:1'' | Some s \<Rightarrow> if s = [] then ''1:1'' else s) in
      if aspectRatio \<in> set VALID_ASPECT_RATIOS then [(''aspectRatio'', JStr aspectRatio)]
      else [(''aspectRatio'', JStr ''1:1'')])"

section \<open>Normalizing the tools\<close>

definition obj_of :: "json \<Rightarrow> js_object" where
  "obj_of v = (case v of JObj ob \<Rightarrow> ob | _ \<Rightarrow> [])"

text \<open>\<open>x?.k\<close>, and the first truthy of a chain of \<open>||\<close>.\<close>

definition opt_fld :: "json option \<Rightarrow> string \<Rightarrow> json option" where
  "opt_fld v k = Option.bind v (\<lambda>x. fld x k)"

definition is_truthy :: "json option \<Rightarrow> bool" where
  "is_truthy v = (case v of None \<Rightarrow> False | Some x \<Rightarrow> truthy x)"

definition first_truthy :: "json option list \<Rightarrow> json option" where
  "first_truthy vs = (case filter is_truthy vs of [] \<Rightarrow> None | v # _ \<Rightarrow> v)"

definition empty_object_schema :: json where
  "empty_object_schema = JObj [(''type'', JStr ''OBJECT''), (''properties'', JObj [])]"

definition placeholder_schema :: json where
  "placeholder_schema =
     JObj [(''type'', JStr ''OBJECT''),
       (''properties'', JObj [(''_placeholder'',
          JObj [(''type'', JStr ''BOOLEAN''), (''description'', JStr ''Placeholder. Always pass true.'')])]),
       (''required'', JArr [JStr ''_placeholder''])]"

definition nullish_or :: "json option \<Rightarrow> json option \<Rightarrow> json option" where
  "nullish_or a b = (case a of None \<Rightarrow> b | Some JNull \<Rightarrow> b | _ \<Rightarrow> a)"

definition normalize_declaration :: "(num \<Rightarrow> string) \<Rightarrow> GeminiSchemaOptions \<Rightarrow> json \<Rightarrow> json" where
  "normalize_declaration nt opts declaration =
     (let normalized = obj_of declaration;
          rawSchema = the (nullish_or (map_of normalized ''parameters'')
            (nullish_or (map_of normalized ''parametersJsonSchema'') (Some empty_object_schema)))
      in JObj (AList.delete ''parametersJsonSchema''
           (AList.update ''parameters'' (toGeminiSchema nt opts rawSchema) normalized)))"

definition schema_candidates :: "js_object \<Rightarrow> json option list" where
  "schema_candidates t =
     (let fn = map_of t ''function''; custom = map_of t ''custom'' in
      [opt_fld fn ''input_schema'', opt_fld fn ''parameters'', opt_fld fn ''inputSchema'',
       opt_fld custom ''input_schema'', opt_fld custom ''parameters'',
       map_of t ''parameters'', map_of t ''input_schema'', map_of t ''inputSchema''])"

definition yes_no :: "bool \<Rightarrow> string" where
  "yes_no b = (if b then ''true'' else ''false'')"

definition set_schema :: "string \<Rightarrow> json \<Rightarrow> js_object \<Rightarrow> js_object" where
  "set_schema k schema t =
     (case map_of t k of
        None \<Rightarrow> t
      | Some v \<Rightarrow> if truthy v then AList.update k (JObj (AList.update ''input_schema'' schema (obj_of v))) t else t)"

definition tool_fallback_name :: "nat \<Rightarrow> json" where
  "tool_fallback_name i = JStr (''tool-'' @ show_nat i)"

text \<open>
  The \<open>custom\<close> wrapper made from a function or from the tool itself. A \<open>description\<close> that is
  \<open>undefined\<close> is left out; the wrapper is deleted again at the end.
\<close>

definition described :: "json \<Rightarrow> json option \<Rightarrow> json \<Rightarrow> json" where
  "described name description schema =
     JObj ((''name'', name)
       # (case description of None \<Rightarrow> [] | Some d \<Rightarrow> [(''description'', d)]) @ [(''input_schema'', schema)])"

definition add_custom :: "nat \<Rightarrow> json \<Rightarrow> js_object \<Rightarrow> js_object" where
  "add_custom i schema t =
     (let fn = map_of t ''function'';
          nameCandidate = the (first_truthy [map_of t ''name'', opt_fld fn ''name'',
            opt_fld (map_of t ''custom'') ''name'', Some (tool_fallback_name i)])
      in if is_truthy (map_of t ''custom'') then t
         else if is_truthy fn
         then AList.update ''custom''
                (described (the (first_truthy [opt_fld fn ''name'', Some nameCandidate])) (opt_fld fn ''description'') schema) t
         else (let t1 = AList.update ''custom'' (described nameCandidate (map_of t ''description'') schema) t in
               if is_truthy (map_of t ''parameters'') \<or> is_truthy (map_of t ''input_schema'')
                  \<or> is_truthy (map_of t ''inputSchema'')
               then t1 else AList.update ''parameters'' schema t1))"

definition normalize_gemini_tool ::
  "(num \<Rightarrow> string) \<Rightarrow> GeminiSchemaOptions \<Rightarrow> nat \<Rightarrow> json \<Rightarrow> json \<times> nat \<times> string list" where
  "normalize_gemini_tool nt opts i tool =
     (let t = obj_of tool in
      if truthy_fld tool ''googleSearch'' \<or> truthy_fld tool ''googleSearchRetrieval'' then (tool, 0, [])
      else case get_arr t ''functionDeclarations'' of
        Some declarations \<Rightarrow>
          (JObj (AList.update ''functionDeclarations'' (JArr (map (normalize_declaration nt opts) declarations)) t), 0, [])
      | None \<Rightarrow>
          (let (schema, missing) =
             (case first_truthy (schema_candidates t) of
                Some (JObj s) \<Rightarrow> (toGeminiSchema nt opts (JObj s), 0)
              | _ \<Rightarrow> (placeholder_schema, 1));
               t1 = add_custom i schema (set_schema ''custom'' schema (set_schema ''function'' schema t));
               (t2, missing2) =
                 (if is_truthy (map_of t1 ''custom'') \<and> \<not> is_truthy (opt_fld (map_of t1 ''custom'') ''input_schema'')
                  then (set_schema ''custom'' empty_object_schema t1, missing + 1) else (t1, missing));
               summary = ''idx='' @ show_nat i @ '', hasCustom='' @ yes_no (is_truthy (map_of t2 ''custom''))
                 @ '', customSchema='' @ yes_no (is_truthy (opt_fld (map_of t2 ''custom'') ''input_schema''))
                 @ '', hasFunction='' @ yes_no (is_truthy (map_of t2 ''function''))
                 @ '', functionSchema='' @ yes_no (is_truthy (opt_fld (map_of t2 ''function'') ''input_schema''))
           in (JObj (if is_truthy (map_of t2 ''custom'') then AList.delete ''custom'' t2 else t2),
               missing2, [summary])))"

definition normalizeGeminiTools ::
  "(num \<Rightarrow> string) \<Rightarrow> GeminiSchemaOptions \<Rightarrow> js_object \<Rightarrow> js_object \<times> nat \<times> string list" where
  "normalizeGeminiTools nt opts payload =
     (case get_arr payload ''tools'' of
        None \<Rightarrow> (payload, 0, [])
      | Some tools \<Rightarrow>
          (let results = map (\<lambda>(i, t). normalize_gemini_tool nt opts i t) (zip [0..<length tools] tools) in
           (AList.update ''tools'' (JArr (map fst results)) payload,
            sum_list (map (fst \<circ> snd) results), concat (map (snd \<circ> snd) results))))"

section \<open>Wrapping the tools as function declarations\<close>

definition isWebSearchTool :: "json \<Rightarrow> bool" where
  "isWebSearchTool tool =
     (truthy_fld tool ''googleSearch'' \<or> truthy_fld tool ''googleSearchRetrieval''
      \<or> is_str (fld tool ''type'') ''web_search_20250305''
      \<or> is_str (fld tool ''name'') ''web_search'' \<or> is_str (fld tool ''name'') ''google_search'')"

definition passes_through :: "json \<Rightarrow> bool" where
  "passes_through tool =
     (truthy_fld tool ''googleSearch'' \<or> truthy_fld tool ''googleSearchRetrieval'' \<or> truthy_fld tool ''codeExecution'')"

definition declared :: "(num \<Rightarrow> string) \<Rightarrow> json option \<Rightarrow> json option \<Rightarrow> json option \<Rightarrow> nat \<Rightarrow> json" where
  "declared nt name description parameters n =
     JObj [(''name'', JStr (js_string nt (case name of None \<Rightarrow> tool_fallback_name n | Some v \<Rightarrow> v))),
           (''description'', JStr (case description of None \<Rightarrow> [] | Some d \<Rightarrow> js_string nt d)),
           (''parameters'', case parameters of None \<Rightarrow> empty_object_schema | Some p \<Rightarrow> p)]"

definition wrap_declarations :: "(num \<Rightarrow> string) \<Rightarrow> json list \<Rightarrow> json list \<Rightarrow> json list" where
  "wrap_declarations nt ds acc =
     foldl (\<lambda>sofar d. sofar @ [declared nt (first_truthy [fld d ''name'']) (first_truthy [fld d ''description''])
       (first_truthy [fld d ''parameters'']) (length sofar)]) acc ds"

definition wrap_function :: "(num \<Rightarrow> string) \<Rightarrow> json \<Rightarrow> nat \<Rightarrow> json" where
  "wrap_function nt tool n =
     (let fn = fld tool ''function''; custom = fld tool ''custom'' in
      declared nt
        (first_truthy [fld tool ''name'', opt_fld fn ''name'', opt_fld custom ''name''])
        (first_truthy [fld tool ''description'', opt_fld fn ''description'', opt_fld custom ''description''])
        (first_truthy [opt_fld fn ''input_schema'', opt_fld fn ''parameters'', opt_fld fn ''inputSchema'',
           opt_fld custom ''input_schema'', opt_fld custom ''parameters'',
           fld tool ''parameters'', fld tool ''input_schema'', fld tool ''inputSchema'']) n)"

record wrap_state =
  wr_declarations :: "json list"
  wr_passthrough :: "json list"
  wr_web :: bool

definition wrap_step :: "(num \<Rightarrow> string) \<Rightarrow> wrap_state \<Rightarrow> json \<Rightarrow> wrap_state" where
  "wrap_step nt st tool =
     (if passes_through tool then st\<lparr>wr_passthrough := wr_passthrough st @ [tool]\<rparr>
      else if isWebSearchTool tool then st\<lparr>wr_web := True\<rparr>
      else if truthy_fld tool ''functionDeclarations''
      then (case arr_fld tool ''functionDeclarations'' of
              None \<Rightarrow> st
            | Some ds \<Rightarrow> st\<lparr>wr_declarations := wrap_declarations nt ds (wr_declarations st)\<rparr>)
      else st\<lparr>wr_declarations := wr_declarations st @ [wrap_function nt tool (length (wr_declarations st))]\<rparr>)"

definition web_search_tool :: json where
  "web_search_tool = JObj [(''googleSearch'', JObj [])]"

definition wrapToolsAsFunctionDeclarations ::
  "(num \<Rightarrow> string) \<Rightarrow> js_object \<Rightarrow> js_object \<times> nat \<times> nat" where
  "wrapToolsAsFunctionDeclarations nt payload =
     (case get_arr payload ''tools'' of
        None \<Rightarrow> (payload, 0, 0)
      | Some tools \<Rightarrow>
          if tools = [] then (payload, 0, 0)
          else
            (let st = foldl (wrap_step nt) \<lparr>wr_declarations = [], wr_passthrough = [], wr_web = False\<rparr> tools;
                 web = (if wr_web st \<and> wr_declarations st = [] then [web_search_tool] else []);
                 finalTools = (if wr_declarations st = [] then []
                               else [JObj [(''functionDeclarations'', JArr (wr_declarations st))]])
                   @ wr_passthrough st @ web
             in (AList.update ''tools'' (JArr finalTools) payload, length (wr_declarations st),
                 length (wr_passthrough st) + length web)))"

section \<open>The whole transform\<close>

record normalized_thinking =
  nt_includeThoughts :: "bool option"
  nt_thinkingBudget :: "num option"

record GeminiTransformOptions =
  go_model :: string
  go_tierThinkingBudget :: "num option"
  go_tierThinkingLevel :: "string option"
  go_normalizedThinking :: "normalized_thinking option"
  go_googleSearchAuto :: bool

definition thinking_config :: "GeminiTransformOptions \<Rightarrow> normalized_thinking \<Rightarrow> js_object" where
  "thinking_config cfg n =
     (let includeThoughts = nullish (nt_includeThoughts n) True in
      case go_tierThinkingLevel cfg of
        Some level \<Rightarrow>
          if level \<noteq> [] \<and> isGemini3Model (go_model cfg) then buildGemini3ThinkingConfig includeThoughts level
          else buildGemini25ThinkingConfig includeThoughts
            (case go_tierThinkingBudget cfg of None \<Rightarrow> nt_thinkingBudget n | b \<Rightarrow> b)
      | None \<Rightarrow> buildGemini25ThinkingConfig includeThoughts
            (case go_tierThinkingBudget cfg of None \<Rightarrow> nt_thinkingBudget n | b \<Rightarrow> b))"

definition apply_thinking :: "GeminiTransformOptions \<Rightarrow> js_object \<Rightarrow> js_object" where
  "apply_thinking cfg payload =
     (case go_normalizedThinking cfg of
        None \<Rightarrow> payload
      | Some n \<Rightarrow>
          (let generationConfig = (case map_of payload ''generationConfig'' of Some (JObj g) \<Rightarrow> g | _ \<Rightarrow> []) in
           AList.update ''generationConfig''
             (JObj (AList.update ''thinkingConfig'' (JObj (thinking_config cfg n)) generationConfig)) payload))"

definition add_google_search :: "bool \<Rightarrow> js_object \<Rightarrow> js_object option" where
  "add_google_search auto payload =
     (if \<not> auto then Some payload
      else case array_or_empty (JObj payload) ''tools'' of
        None \<Rightarrow> None
      | Some tools \<Rightarrow> Some (AList.update ''tools'' (JArr (tools @ [web_search_tool])) payload))"

record GeminiTransformResult =
  gr_payload :: js_object
  gr_toolDebugMissing :: nat
  gr_toolDebugSummaries :: "string list"
  gr_wrappedFunctionCount :: nat
  gr_passthroughToolCount :: nat

definition applyGeminiTransforms ::
  "(num \<Rightarrow> string) \<Rightarrow> GeminiTransformOptions \<Rightarrow> js_object \<Rightarrow> GeminiTransformResult option" where
  "applyGeminiTransforms nt cfg payload =
     map_option (\<lambda>searched.
       (let (normalized, missing, summaries) = normalizeGeminiTools nt
              \<lparr>moveNumericConstraintsToDescription = starts_with (to_lower (go_model cfg)) ''gpt-oss-'',
               claudeValidated = False\<rparr> searched;
            (wrapped, functions, passed) = wrapToolsAsFunctionDeclarations nt normalized
        in \<lparr>gr_payload = wrapped, gr_toolDebugMissing = missing, gr_toolDebugSummaries = summaries,
            gr_wrappedFunctionCount = functions, gr_passthroughToolCount = passed\<rparr>))
       (add_google_search (go_googleSearchAuto cfg) (apply_thinking cfg payload))"

end
