(* ===== verification/Schema_Facts.thy ===== *)
theory Schema_Facts
  imports Gemini_Schema
begin

text \<open>
  What the conversion guarantees of the schema it sends: every object of the result has only
  fields the service accepts, enums of strings, \<open>items\<close> in every array, and no required
  property that is not declared.
\<close>

section \<open>Distinct property names\<close>

fun wf_json :: "json \<Rightarrow> bool" where
  "wf_json (JArr xs) = list_all wf_json xs"
| "wf_json (JObj ob) = (distinct (map fst ob) \<and> list_all (\<lambda>kv. wf_json (snd kv)) ob)"
| "wf_json v = True"

lemma wf_object: "wf_json (JObj ob) \<Longrightarrow> jm_wf ob \<and> subs_ok wf_json ob"
proof
  assume w: "wf_json (JObj ob)"
  then show "jm_wf ob" by (simp add: jm_wf_def)
  have "wf_json x" if "kv \<in> set ob" "x \<in> set (subschemas (fst kv) (snd kv))" for kv x
  proof -
    have v: "wf_json (snd kv)" using w that(1) by (simp add: list_all_iff)
    show ?thesis using that(2)
      by (rule subschemas_cases) (use v in \<open>auto simp: list_all_iff\<close>)
  qed
  then show "subs_ok wf_json ob" by (simp add: subs_ok_def)
qed

lemma normalize_wf: "jm_wf ob \<Longrightarrow> jm_wf (normalizeNullableTypeArray ob)"
  by (simp add: normalizeNullableTypeArray_def Let_def split: option.split)

lemma add_metadata_wf: "jm_wf m \<Longrightarrow> jm_wf (add_metadata branch m)"
  unfolding add_metadata_def by (induction branch arbitrary: m) auto

definition merged_keys :: "string set" where
  "merged_keys = {''properties'', ''required'', ''description'', ''nullable''}"

lemma add_metadata_keys:
  assumes "fst ` set m \<inter> merged_keys = {}"
  shows "fst ` set (add_metadata branch m) \<inter> merged_keys = {}"
  using assms unfolding add_metadata_def
proof (induction branch arbitrary: m)
  case Nil
  then show ?case by simp
next
  case (Cons p branch)
  define m1 where "m1 = (if fst p \<notin> merged_keys \<and> \<not> jm_has m (fst p) then AList.update (fst p) (snd p) m else m)"
  have "fst ` set m1 \<inter> merged_keys = {}" using Cons.prems by (auto simp: m1_def dom_update)
  from Cons.IH [OF this] show ?case
    by (simp add: m1_def merged_keys_def split_beta)
qed

lemma loop_metadata:
  "jm_wf (am_metadata st) \<and> fst ` set (am_metadata st) \<inter> merged_keys = {} \<Longrightarrow>
   jm_wf (am_metadata (allof_loop nt bs st)) \<and> fst ` set (am_metadata (allof_loop nt bs st)) \<inter> merged_keys = {}"
proof (induction bs arbitrary: st)
  case (Cons p bs)
  have "jm_wf (am_metadata (allof_step c b st)) \<and> fst ` set (am_metadata (allof_step c b st)) \<inter> merged_keys = {}" for c b
    using Cons.prems by (simp add: allof_step_def split_beta Let_def add_metadata_wf add_metadata_keys)
  then show ?case using Cons by (cases p) (simp add: Let_def split: json.split)
qed simp

lemma allof_object_wf:
  assumes "jm_wf (am_metadata st)" "fst ` set (am_metadata st) \<inter> merged_keys = {}"
  shows "jm_wf (allof_object st)"
proof -
  let ?m = "AList.update ''properties'' (JObj (am_properties st)) (AList.update ''type'' (JStr ''object'') (am_metadata st))"
  have "''nullable'' \<notin> fst ` set ?m" "''required'' \<notin> fst ` set ?m" "''description'' \<notin> fst ` set ?m"
    using assms(2) by (auto simp: dom_update merged_keys_def)
  moreover have "jm_wf ?m" using assms(1) by simp
  ultimately show ?thesis by (simp add: allof_object_def jm_wf_def)
qed

lemma input_wf: "jm_wf ob \<Longrightarrow> jm_wf (fst (schema_input nt ob))"
proof -
  assume wf: "jm_wf ob"
  have "jm_wf (fst (mergeSchemaAllOf nt ob))"
  proof (cases "get_arr ob ''allOf''")
    case None
    then show ?thesis using wf by (simp add: mergeSchemaAllOf_def)
  next
    case (Some allOf)
    define st where "st = allof_loop nt
      ((base_contributes (AList.delete ''allOf'' ob), JObj (AList.delete ''allOf'' ob)) # map (\<lambda>b. (True, b)) allOf)
      \<lparr>am_metadata = [], am_properties = [], am_required = [], am_descriptions = [],
       am_unambiguous = (allOf \<noteq> []), am_nullable = True\<rparr>"
    have "jm_wf (am_metadata st) \<and> fst ` set (am_metadata st) \<inter> merged_keys = {}"
      unfolding st_def by (rule loop_metadata) simp
    then have "jm_wf (allof_object st)" by (simp add: allof_object_wf)
    then show ?thesis using wf Some
      by (auto simp: mergeSchemaAllOf_def Let_def spread_wf simp del: allof_loop.simps simp flip: st_def)
  qed
  then show ?thesis by (simp add: schema_input_def split_beta Let_def normalize_wf)
qed

lemma wf_input:
  assumes "wf_json (JObj ob)"
  shows "jm_wf (fst (schema_input nt ob))" "subs_ok wf_json (fst (schema_input nt ob))"
proof -
  note o = wf_object [OF assms]
  show "jm_wf (fst (schema_input nt ob))" using o by (simp add: input_wf)
  have "wf_json (JObj b)" if "get_arr ob ''allOf'' = Some allOf" "JObj b \<in> set allOf" for allOf b
  proof -
    have "(''allOf'', JArr allOf) \<in> set ob" using that(1) by (auto simp: get_arr_Some dest: map_of_SomeD)
    then have "wf_json (JArr allOf)" using assms by (auto simp: list_all_iff)
    then have "\<forall>x \<in> set allOf. wf_json x" by (simp add: list_all_iff)
    then show ?thesis using that(2) by blast
  qed
  then show "subs_ok wf_json (fst (schema_input nt ob))"
    using o wf_object by (intro input_ok) blast+
qed

section \<open>Schemas the service accepts\<close>

definition plain_field :: "GeminiSchemaOptions \<Rightarrow> string \<Rightarrow> json \<Rightarrow> bool" where
  "plain_field opts k v \<longleftrightarrow> k \<in> set ALLOWED_SCHEMA_FIELDS
     \<and> \<not> (moveNumericConstraintsToDescription opts \<and> k \<in> set NUMERIC_SCHEMA_CONSTRAINTS)
     \<and> \<not> (claudeValidated opts \<and> k \<in> insert ''title'' (set CLAUDE_VALIDATED_HINT_FIELDS))
     \<and> (k = ''enum'' \<longrightarrow> (\<forall>vs. v = JArr vs \<longrightarrow> list_all is_string vs))"

definition required_ok :: "js_object \<Rightarrow> bool" where
  "required_ok ob \<longleftrightarrow>
     (case (get_obj ob ''properties'', get_arr ob ''required'') of
        (Some ps, Some names) \<Rightarrow> ps = [] \<or> list_all (\<lambda>x. is_string x \<and> jm_has ps (str_of x)) names
      | _ \<Rightarrow> True)"

definition items_ok :: "js_object \<Rightarrow> bool" where
  "items_ok ob \<longleftrightarrow> (get_str ob ''type'' = Some ''ARRAY'' \<longrightarrow> truthy_fld (JObj ob) ''items'')"

definition union_ok :: "GeminiSchemaOptions \<Rightarrow> js_object \<Rightarrow> bool" where
  "union_ok opts ob \<longleftrightarrow> (claudeValidated opts \<longrightarrow> get_arr ob ''anyOf'' \<in> {None, Some []})"

inductive accepted :: "GeminiSchemaOptions \<Rightarrow> json \<Rightarrow> bool" for opts where
  no_object: "\<not> isSchemaObject v \<Longrightarrow> accepted opts v"
| an_object: "jm_wf ob \<Longrightarrow> \<forall>kv \<in> set ob. plain_field opts (fst kv) (snd kv) \<Longrightarrow>
    required_ok ob \<Longrightarrow> items_ok ob \<Longrightarrow> union_ok opts ob \<Longrightarrow>
    \<forall>kv \<in> set ob. \<forall>x \<in> set (subschemas (fst kv) (snd kv)). accepted opts x \<Longrightarrow> accepted opts (JObj ob)"

inductive_cases accepted_objectE: "accepted opts (JObj ob)"

lemma accepted_object:
  "accepted opts (JObj ob) \<longleftrightarrow> jm_wf ob \<and> (\<forall>kv \<in> set ob. plain_field opts (fst kv) (snd kv))
     \<and> required_ok ob \<and> items_ok ob \<and> union_ok opts ob \<and> subs_ok (accepted opts) ob"
  by (auto simp: subs_ok_def isSchemaObject_def elim: accepted_objectE intro: accepted.an_object)

text \<open>What each field of a level satisfies on its own, given the level's input.\<close>

definition field_ok :: "GeminiSchemaOptions \<Rightarrow> string \<Rightarrow> json \<Rightarrow> bool" where
  "field_ok opts k v \<longleftrightarrow> plain_field opts k v \<and> (\<forall>x \<in> set (subschemas k v). accepted opts x)"

definition fields_ok :: "GeminiSchemaOptions \<Rightarrow> js_object \<Rightarrow> bool" where
  "fields_ok opts ob \<longleftrightarrow> jm_wf ob \<and> (\<forall>kv \<in> set ob. field_ok opts (fst kv) (snd kv))"

lemma fields_ok_update: "fields_ok opts ob \<Longrightarrow> field_ok opts k v \<Longrightarrow> fields_ok opts (AList.update k v ob)"
  using set_update_subset [of k v ob] by (fastforce simp: fields_ok_def)

lemma fields_ok_delete: "fields_ok opts ob \<Longrightarrow> fields_ok opts (AList.delete k ob)"
  using set_delete_subset [of k ob] by (fastforce simp: fields_ok_def)

lemma fields_ok_spread:
  "fields_ok opts a \<Longrightarrow> fields_ok opts b \<Longrightarrow> fields_ok opts (spread a b)"
proof -
  assume a: "fields_ok opts a" and "fields_ok opts b"
  then have "\<forall>kv \<in> set b. field_ok opts (fst kv) (snd kv)" by (simp add: fields_ok_def)
  then show ?thesis using a unfolding spread_def
    by (induction b arbitrary: a) (simp_all add: fields_ok_update split_beta)
qed

lemma accepted_fields:
  "accepted opts (JObj ob) \<longleftrightarrow> fields_ok opts ob \<and> required_ok ob \<and> items_ok ob \<and> union_ok opts ob"
  by (auto simp: accepted_object fields_ok_def field_ok_def subs_ok_def)

section \<open>The loop over the entries\<close>

text \<open>A field of the result, also in its relation to the declared properties of the input.\<close>

definition entry_ok :: "GeminiSchemaOptions \<Rightarrow> js_object \<Rightarrow> string \<Rightarrow> json \<Rightarrow> bool" where
  "entry_ok opts input k v \<longleftrightarrow> field_ok opts k v
     \<and> (k = ''properties'' \<longrightarrow> (\<forall>ps. v = JObj ps \<longrightarrow> map fst ps = property_names input))
     \<and> (k = ''required'' \<longrightarrow> (\<forall>names. v = JArr names \<longrightarrow> property_names input = []
          \<or> list_all (\<lambda>x. is_string x \<and> str_of x \<in> set (property_names input)) names))"

definition entries_ok :: "GeminiSchemaOptions \<Rightarrow> js_object \<Rightarrow> js_object \<Rightarrow> bool" where
  "entries_ok opts input ob \<longleftrightarrow> jm_wf ob \<and> (\<forall>kv \<in> set ob. entry_ok opts input (fst kv) (snd kv))"

lemma entries_ok_update:
  "entries_ok opts input ob \<Longrightarrow> entry_ok opts input k v \<Longrightarrow> entries_ok opts input (AList.update k v ob)"
  using set_update_subset [of k v ob] by (fastforce simp: entries_ok_def)

lemma entry_ok_plain:
  assumes "plain_field opts k v" "k \<notin> {''properties'', ''required''}" "\<forall>x \<in> set (subschemas k v). accepted opts x"
  shows "entry_ok opts input k v"
  using assms by (auto simp: entry_ok_def field_ok_def)

lemma allowed_names:
  "k \<in> {''enum'', ''anyOf'', ''minimum'', ''maximum''} \<Longrightarrow> k \<in> set ALLOWED_SCHEMA_FIELDS"
  "k \<in> {''enum'', ''anyOf'', ''description'', ''type'', ''items'', ''required''} \<Longrightarrow> k \<notin> set NUMERIC_SCHEMA_CONSTRAINTS"
  "k \<in> {''enum'', ''anyOf'', ''minimum'', ''maximum'', ''description'', ''type'', ''items'', ''required''} \<Longrightarrow>
     k \<noteq> ''title'' \<and> k \<notin> set CLAUDE_VALIDATED_HINT_FIELDS"
  "k \<in> {''description'', ''type'', ''items'', ''required''} \<Longrightarrow> k \<in> set ALLOWED_SCHEMA_FIELDS"
  by (auto simp: ALLOWED_SCHEMA_FIELDS_def NUMERIC_SCHEMA_CONSTRAINTS_def CLAUDE_VALIDATED_HINT_FIELDS_def)

lemma subschemas_of_converted:
  assumes "\<And>x. x \<in> set (subschemas k v) \<Longrightarrow> P (f x)" "y \<in> set (subschemas k (on_subschemas f k v))"
  shows "P y"
  using assms(2)
proof (cases rule: subschemas_cases)
  case (1 ps n)
  show ?thesis
  proof (cases v)
    case (JObj qs)
    then show ?thesis using 1 assms(1) by (force simp: on_subschemas_def subschemas_simps)
  next
    case (JArr xs)
    then show ?thesis using 1 assms(1)
      by (force simp: on_subschemas_def subschemas_simps dest: set_zip_rightD)
  qed (use 1 in \<open>simp_all add: on_subschemas_def\<close>)
next
  case (2 xs)
  show ?thesis
  proof (cases v)
    case (JObj qs)
    then show ?thesis using 2 by (auto simp: on_subschemas_def)
  next
    case (JArr ys)
    then show ?thesis using 2 assms(1) by (auto simp: on_subschemas_def subschemas_simps split: if_split_asm)
  qed (use 2 in \<open>auto simp: on_subschemas_def\<close>)
next
  case 3
  then show ?thesis using assms(1) by (simp add: on_subschemas_def subschemas_simps)
qed

lemma entry_ok_raw:
  assumes "plain_field opts k v" "\<not> has_subschemas k v"
    and "k = ''required'' \<Longrightarrow> property_names input = [] \<or> \<not> (\<exists>names. v = JArr names)"
  shows "entry_ok opts input k v"
proof -
  have k: "k \<noteq> ''oneOf''" using assms(1) by (auto simp: plain_field_def ALLOWED_SCHEMA_FIELDS_def)
  have "accepted opts x" if "x \<in> set (subschemas k v)" for x
    using that
  proof (cases rule: subschemas_cases)
    case 3
    then show ?thesis using assms(2)
      by (intro accepted.no_object) (auto simp: has_subschemas_def isSchemaObject_def split: json.splits)
  qed (use assms(2) k in \<open>auto simp: has_subschemas_def\<close>)
  then show ?thesis using assms by (auto simp: entry_ok_def field_ok_def has_subschemas_def)
qed

lemma plain_field_any:
  "plain_field opts k v \<Longrightarrow> k \<noteq> ''enum'' \<or> \<not> (\<exists>vs. w = JArr vs) \<Longrightarrow> plain_field opts k w"
  by (auto simp: plain_field_def)

lemma kept_entry_ok:
  assumes result: "entries_ok opts input result"
    and plain: "plain_field opts k JNull" and raw: "\<not> has_subschemas k v"
  shows "entries_ok opts input (fst (kept_entry nt input k v (result, hints)))"
proof -
  have scalar: "entries_ok opts input (AList.update k w result)"
    if "\<not> (\<exists>xs. w = JArr xs)" "\<not> has_subschemas k w" for w
    using result that plain by (intro entries_ok_update entry_ok_raw) (auto intro: plain_field_any)
  show ?thesis
  proof (cases v)
    case (JArr xs)
    have k: "k \<notin> {''properties'', ''items'', ''anyOf''}" using raw JArr by (simp add: has_subschemas_def)
    have enum: "entries_ok opts input (AList.update k v result)" if "k = ''enum''" "list_all is_string xs"
      using result plain raw that JArr
      by (intro entries_ok_update entry_ok_raw) (auto simp: plain_field_def)
    have req: "entries_ok opts input (AList.update k (JArr ys) result)"
      if "k = ''required''" "list_all (\<lambda>x. is_string x \<and> str_of x \<in> set (property_names input)) ys" for ys
      using that plain by (intro entries_ok_update [OF result])
        (auto simp: entry_ok_def field_ok_def intro: plain_field_any)
    have other: "entries_ok opts input (AList.update k v result)"
      if "k \<noteq> ''enum''" "k \<noteq> ''required'' \<or> property_names input = []"
      using result plain raw that by (intro entries_ok_update entry_ok_raw) (auto intro: plain_field_any)
    show ?thesis using result JArr enum other req
      by (auto simp: kept_entry_def Let_def list_all_iff)
  next
    case (JStr s)
    then show ?thesis using scalar [of v] scalar [of "JStr (to_upper s)"] raw result
      by (auto simp: kept_entry_def has_subschemas_def)
  next
    case (JNum n)
    have "\<not> has_subschemas k (JNum m)" for m by (simp add: has_subschemas_def)
    then show ?thesis using scalar JNum
      by (auto simp: kept_entry_def Let_def split: option.split json.split)
  qed (use scalar [of v] raw in \<open>simp_all add: kept_entry_def\<close>)
qed

lemma schema_entry_ok:
  assumes result: "entries_ok opts input result" and v: "map_of input k = Some v"
    and sub: "\<And>x. x \<in> set (subschemas k v) \<Longrightarrow> accepted opts (f x)"
  shows "entries_ok opts input
     (fst (schema_entry nt opts input (result, hints) (k, v, on_subschemas f k v)))"
proof -
  let ?sub = "on_subschemas f k v"
  note converted = subschemas_of_converted [of k v "accepted opts" f, OF sub]
  have const: "entry_ok opts input ''enum'' (JArr [JStr s])" for s
    by (intro entry_ok_plain) (auto simp: plain_field_def is_string_def ALLOWED_SCHEMA_FIELDS_def
        NUMERIC_SCHEMA_CONSTRAINTS_def CLAUDE_VALIDATED_HINT_FIELDS_def)
  have bound: "entry_ok opts input kk (JNum b)" if "tightened_bound nt opts input k v = Some (kk, b)" for kk b
  proof -
    have "kk \<in> {''minimum'', ''maximum''}" "\<not> moveNumericConstraintsToDescription opts"
      using that by (auto simp: tightened_bound_def Let_def split: json.splits if_splits)
    then show ?thesis
      by (intro entry_ok_raw) (auto simp: plain_field_def allowed_names has_subschemas_def)
  qed
  have one: "entry_ok opts input ''anyOf'' ?sub" if "k = ''oneOf''" "v = JArr xs" for xs
  proof (rule entry_ok_plain)
    have "accepted opts y" if "y \<in> set (subschemas ''anyOf'' ?sub)" for y
      using that converted [of y] \<open>k = ''oneOf''\<close> \<open>v = JArr xs\<close>
      by (simp add: on_subschemas_def subschemas_simps)
    then show "\<forall>x \<in> set (subschemas ''anyOf'' ?sub). accepted opts x" by blast
  qed (auto simp: plain_field_def allowed_names)
  have deep: "entry_ok opts input k ?sub" if "has_subschemas k v"
  proof -
    have k: "k \<in> {''properties'', ''items'', ''anyOf''}"
      using that by (auto simp: has_subschemas_def split: json.splits)
    then have "plain_field opts k ?sub"
      by (auto simp: plain_field_def ALLOWED_SCHEMA_FIELDS_def NUMERIC_SCHEMA_CONSTRAINTS_def
          CLAUDE_VALIDATED_HINT_FIELDS_def)
    moreover have "map fst ps = property_names input" if "k = ''properties''" "?sub = JObj ps" for ps
      using that v by (auto simp: on_subschemas_def property_names_def comp_def split_beta split: json.splits)
    ultimately show ?thesis using converted k by (auto simp: entry_ok_def field_ok_def)
  qed
  have kept: "entries_ok opts input (fst (kept_entry nt input k v (result, h)))"
    if "\<not> has_subschemas k v" "plain_field opts k JNull" for h
    using kept_entry_ok [OF result that(2,1)] .
  let ?skip = "skipped_by_type (map_option to_upper (get_str input ''type'')) k \<or> claudeValidated opts \<and> k = ''title''
    \<or> claudeValidated opts \<and> k \<in> set CLAUDE_VALIDATED_HINT_FIELDS"
  let ?hint = "k \<in> set NUMERIC_SCHEMA_CONSTRAINTS \<and> (moveNumericConstraintsToDescription opts
    \<or> k \<in> set [''exclusiveMinimum'', ''exclusiveMaximum'', ''multipleOf''])"
  note step = schema_entry_def [of nt opts input "(result, hints)", unfolded Let_def prod.case]
  consider (skip) "?skip" | (const) "\<not> ?skip" "k = ''const''"
    | (bound) kk b where "\<not> ?skip" "k \<noteq> ''const''" "tightened_bound nt opts input k v = Some (kk, b)"
    | (hint) "\<not> ?skip" "k \<noteq> ''const''" "tightened_bound nt opts input k v = None" "?hint"
    | (one) xs where "\<not> ?skip" "tightened_bound nt opts input k v = None" "k = ''oneOf''" "v = JArr xs"
    | (drop) "\<not> ?skip" "k \<noteq> ''const''" "tightened_bound nt opts input k v = None" "\<not> ?hint"
        "\<not> (k = ''oneOf'' \<and> (\<exists>xs. v = JArr xs))" "k \<notin> set ALLOWED_SCHEMA_FIELDS"
    | (keep) "\<not> ?skip" "k \<noteq> ''const''" "tightened_bound nt opts input k v = None" "\<not> ?hint"
        "k \<in> set ALLOWED_SCHEMA_FIELDS"
    by (cases "tightened_bound nt opts input k v") (auto simp del: list.set)
  then show ?thesis
  proof cases
    case skip
    then show ?thesis using result by (auto simp: step simp del: list.set)
  next
    case const
    then show ?thesis using result \<open>\<And>s. entry_ok opts input ''enum'' (JArr [JStr s])\<close>
      by (cases v) (simp_all add: step entries_ok_update del: list.set)
  next
    case bound
    then show ?thesis using result \<open>\<And>kk b. tightened_bound nt opts input k v = Some (kk, b) \<Longrightarrow> entry_ok opts input kk (JNum b)\<close>
      by (simp add: step entries_ok_update del: list.set)
  next
    case hint
    then show ?thesis using result by (simp add: step del: list.set)
  next
    case (one xs)
    then show ?thesis using result \<open>\<And>xs. k = ''oneOf'' \<Longrightarrow> v = JArr xs \<Longrightarrow> entry_ok opts input ''anyOf'' ?sub\<close> [of xs]
      by (simp add: step entries_ok_update get_arr_def NUMERIC_SCHEMA_CONSTRAINTS_def)
  next
    case drop
    show ?thesis
    proof (cases "k = ''oneOf''")
      case True
      then have "get_arr [(''oneOf'', v)] ''oneOf'' = None" using drop(5) by (cases v) (simp_all add: get_arr_def)
      then show ?thesis using drop True result by (simp add: step del: list.set)
    next
      case False
      then show ?thesis using drop result by (simp add: step del: list.set)
    qed
  next
    case keep
    then have "plain_field opts k JNull" by (auto simp: plain_field_def simp del: list.set)
    moreover have "k \<noteq> ''oneOf''" using keep by (auto simp: ALLOWED_SCHEMA_FIELDS_def)
    ultimately show ?thesis using keep kept deep entries_ok_update [OF result] result
      by (auto simp: step simp del: list.set)
  qed
qed

lemma loop_entries_ok:
  assumes "jm_wf input" "\<And>k v x. (k, v) \<in> set input \<Longrightarrow> x \<in> set (subschemas k v) \<Longrightarrow> accepted opts (f x)"
  shows "entries_ok opts input
    (fst (foldl (schema_entry nt opts input) ([], hints) (map (\<lambda>(k, v). (k, v, on_subschemas f k v)) input)))"
proof -
  have "entries_ok opts input (fst (foldl (schema_entry nt opts input) st (map (\<lambda>(k, v). (k, v, on_subschemas f k v)) es)))"
    if "set es \<subseteq> set input" "entries_ok opts input (fst st)" for es st
    using that
  proof (induction es arbitrary: st)
    case (Cons e es)
    obtain k v where e: "e = (k, v)" by fastforce
    then have kv: "(k, v) \<in> set input" using Cons.prems(1) by simp
    then have "map_of input k = Some v" using assms(1) by (simp add: jm_wf_def)
    from schema_entry_ok [OF _ this, of opts "fst st" f nt "snd st"] Cons.prems(2) assms(2) [OF kv]
    have "entries_ok opts input (fst (schema_entry nt opts input st (k, v, on_subschemas f k v)))" by simp
    then show ?case using Cons.IH Cons.prems(1) e by simp
  qed simp
  moreover have "entries_ok opts input []" by (simp add: entries_ok_def)
  ultimately show ?thesis by simp
qed

section \<open>Flattened unions and the last steps\<close>

lemma entries_fields: "entries_ok opts input ob \<Longrightarrow> fields_ok opts ob"
  by (simp add: entries_ok_def fields_ok_def entry_ok_def)

lemma entries_required:
  assumes "entries_ok opts input ob"
  shows "required_ok ob"
proof (cases "get_obj ob ''properties''")
  case (Some ps)
  show ?thesis
  proof (cases "get_arr ob ''required''")
    case names: (Some names)
    have "(''properties'', JObj ps) \<in> set ob" "(''required'', JArr names) \<in> set ob"
      using Some names by (auto simp: get_obj_Some get_arr_Some dest: map_of_SomeD)
    then have "entry_ok opts input ''properties'' (JObj ps)" "entry_ok opts input ''required'' (JArr names)"
      using assms by (auto simp: entries_ok_def)
    then show ?thesis using Some names
      by (auto simp: required_ok_def entry_ok_def jm_has_iff list_all_iff simp flip: set_map)
  qed (simp add: required_ok_def Some)
qed (simp add: required_ok_def)

lemma prune_required_ok: "required_ok (prune_required ob)"
proof (cases "get_obj ob ''properties''")
  case (Some ps)
  then have "get_obj (AList.delete ''required'' ob) ''properties'' = Some ps"
    "get_obj (AList.update ''required'' v ob) ''properties'' = Some ps" for v
    by (simp_all add: get_obj_def delete_conv' update_conv)
  then show ?thesis using Some
    by (auto simp: prune_required_def required_ok_def Let_def list_all_iff get_arr_def delete_conv' update_conv
        split: option.splits json.splits)
qed (simp add: prune_required_def required_ok_def)

lemma prune_required_fields: "fields_ok opts ob \<Longrightarrow> fields_ok opts (prune_required ob)"
proof -
  assume f: "fields_ok opts ob"
  have "field_ok opts ''required'' (JArr xs)" for xs
    by (auto simp: field_ok_def plain_field_def ALLOWED_SCHEMA_FIELDS_def
        NUMERIC_SCHEMA_CONSTRAINTS_def CLAUDE_VALIDATED_HINT_FIELDS_def)
  then show ?thesis using f
    by (auto simp: prune_required_def Let_def fields_ok_delete fields_ok_update split: option.split)
qed

lemma prune_required_other: "k \<noteq> ''required'' \<Longrightarrow> map_of (prune_required ob) k = map_of ob k"
  by (auto simp: prune_required_def Let_def delete_conv' update_conv split: option.split)

lemma foldl_choose:
  assumes "\<And>s b. f s b \<in> {s, b}"
  shows "foldl f x xs \<in> insert x (set xs)"
proof (induction xs arbitrary: x)
  case (Cons y xs)
  have "foldl f (f x y) xs \<in> insert (f x y) (set xs)" by (rule Cons.IH)
  then show ?case using assms [of x y] by auto
qed simp

lemma select_branch_member:
  assumes "bs \<noteq> []"
  shows "select_branch nt bs \<in> set bs"
proof -
  have "select_branch nt bs \<in> insert (hd bs) (set (tl bs))"
    unfolding select_branch_def by (rule foldl_choose) simp
  then show ?thesis using assms by (cases bs) simp_all
qed

lemma flatten_ok:
  assumes "fields_ok opts ob"
  shows "fields_ok opts (fst (flattenClaudeUnion nt ob)) \<and> get_arr (fst (flattenClaudeUnion nt ob)) ''anyOf'' \<in> {None, Some []}
     \<or> \<not> claudeValidated opts"
proof (cases "claudeValidated opts")
  case claude: True
  show ?thesis
  proof (cases "get_arr ob ''anyOf'' \<in> {None, Some []}")
    case True
    then show ?thesis using assms by (auto simp: flattenClaudeUnion_def split: option.splits)
  next
    case False
    then obtain anyOf where anyOf: "get_arr ob ''anyOf'' = Some anyOf" "anyOf \<noteq> []" by auto
    define base where "base = AList.delete ''anyOf'' ob"
    define branches where "branches = filter isSchemaObject anyOf"
    have base: "fields_ok opts base" "map_of base ''anyOf'' = None"
      using assms by (simp_all add: base_def fields_ok_delete delete_conv')
    have "(''anyOf'', JArr anyOf) \<in> set ob" using anyOf by (auto simp: get_arr_Some dest: map_of_SomeD)
    then have branch: "accepted opts b" if "b \<in> set anyOf" for b
      using assms that by (force simp: fields_ok_def field_ok_def subschemas_simps)
    have new: "field_ok opts ''type'' x" "field_ok opts ''description'' x" for x
      by (auto simp: field_ok_def plain_field_def allowed_names)
    consider (none) "branches = []"
      | (enum) "branches \<noteq> []" "length branches = length anyOf \<and> list_all string_constants branches"
      | (select) "branches \<noteq> []" "\<not> (length branches = length anyOf \<and> list_all string_constants branches)"
      by blast
    then show ?thesis
    proof cases
      case none
      then show ?thesis using anyOf base
        by (simp add: flattenClaudeUnion_def get_arr_def flip: base_def branches_def)
    next
      case enum
      have "list_all is_string vs" if "arr_fld b ''enum'' = Some vs" "string_constants b" for b vs
        using that by (simp add: string_constants_def)
      then have "list_all is_string (js_unique (concat (map (\<lambda>b. the (arr_fld b ''enum'')) branches)))"
        using enum by (fastforce simp: list_all_iff string_constants_def split: option.splits)
      then have "field_ok opts ''enum'' (JArr (js_unique (concat (map (\<lambda>b. the (arr_fld b ''enum'')) branches))))"
        by (auto simp: field_ok_def plain_field_def allowed_names)
      then show ?thesis using anyOf base enum new
        by (simp add: flattenClaudeUnion_def get_arr_def update_conv fields_ok_update flip: base_def branches_def)
    next
      case select
      define s where "s = select_branch nt branches"
      have "s \<in> set branches" using select by (simp add: s_def select_branch_member)
      then obtain sob where s: "s = JObj sob" "JObj sob \<in> set anyOf"
        by (auto simp: branches_def isSchemaObject_def split: json.splits)
      then have sel: "fields_ok opts sob" "get_arr sob ''anyOf'' \<in> {None, Some []}"
        using branch [OF s(2)] claude by (auto simp: accepted_fields union_ok_def)
      have "jm_wf sob" using sel(1) by (simp add: fields_ok_def)
      then have "map_of (spread base sob) ''anyOf'' = map_of sob ''anyOf''"
        using base(2) by (simp add: map_of_spread map_of_rev split: option.split)
      then show ?thesis using anyOf base sel select new fields_ok_spread [OF base(1) sel(1)]
        by (auto simp: flattenClaudeUnion_def get_arr_def update_conv fields_ok_update Let_def s
            simp flip: base_def branches_def s_def split: option.split json.split)
    qed
  qed
qed simp

lemma required_ok_update: "k \<notin> {''properties'', ''required''} \<Longrightarrow> required_ok (AList.update k v ob) = required_ok ob"
proof -
  assume "k \<notin> {''properties'', ''required''}"
  then have "''properties'' \<noteq> k" "''required'' \<noteq> k" by auto
  then show ?thesis by (simp add: required_ok_def get_obj_update_other get_arr_update_other)
qed

lemma union_ok_update: "k \<noteq> ''anyOf'' \<Longrightarrow> union_ok opts (AList.update k v ob) = union_ok opts ob"
  by (simp add: union_ok_def get_arr_update_other)

lemma hints_ok:
  assumes "fields_ok opts ob" "required_ok ob" "union_ok opts ob"
  shows "fields_ok opts (add_hints hints ob) \<and> required_ok (add_hints hints ob) \<and> union_ok opts (add_hints hints ob)"
proof -
  have "field_ok opts ''description'' x" for x by (auto simp: field_ok_def plain_field_def allowed_names)
  then show ?thesis using assms
    by (simp add: add_hints_def Let_def fields_ok_update required_ok_update union_ok_update)
qed

lemma accepted_string: "accepted opts (JObj [(''type'', JStr ''STRING'')])"
  by (auto simp: accepted_object jm_wf_def plain_field_def allowed_names required_ok_def items_ok_def
      union_ok_def get_arr_def get_obj_def get_str_def)

lemma items_added_ok:
  assumes "fields_ok opts ob" "required_ok ob" "union_ok opts ob"
  shows "accepted opts (JObj (add_items ob))"
proof -
  have item: "field_ok opts ''items'' (JObj [(''type'', JStr ''STRING'')])"
    using accepted_string by (auto simp: field_ok_def plain_field_def allowed_names subschemas_simps)
  have "required_ok (add_items ob)" "union_ok opts (add_items ob)"
    using assms(2,3) by (simp_all add: add_items_def required_ok_update union_ok_update)
  moreover have "items_ok (add_items ob)"
    by (simp add: add_items_def items_ok_def truthy_fld_def truthy_def update_conv)
  ultimately show ?thesis using assms(1) item by (auto simp: accepted_fields add_items_def fields_ok_update)
qed

theorem toGeminiSchema_accepted:
  "wf_json schema \<Longrightarrow> accepted opts (toGeminiSchema nt opts schema)"
proof (induction nt opts schema rule: toGeminiSchema.induct)
  case (1 nt opts schema)
  show ?case
  proof (cases schema)
    case (JObj ob)
    let ?input = "fst (schema_input nt ob)"
    let ?f = "toGeminiSchema nt opts"
    define st where "st = foldl (schema_entry nt opts ?input) ([], snd (schema_input nt ob))
      (map (\<lambda>(k, v). (k, v, on_subschemas ?f k v)) ?input)"
    note wf = wf_input [OF 1(2) [unfolded JObj], of nt]
    have "accepted opts (?f x)" if "(k, v) \<in> set ?input" "x \<in> set (subschemas k v)" for k v x
      using 1(1) [OF JObj, of "(k, v)" k v x] that wf(2) by (force simp: subs_ok_def)
    then have entries: "entries_ok opts ?input (fst st)"
      unfolding st_def by (rule loop_entries_ok [OF wf(1)])
    define flat where "flat = (if claudeValidated opts then prune_required (fst (flattenClaudeUnion nt (fst st))) else fst st)"
    have f: "fields_ok opts flat" "required_ok flat" "union_ok opts flat"
      using entries_fields [OF entries] entries_required [OF entries] flatten_ok [OF entries_fields [OF entries], of nt]
      by (auto simp: flat_def prune_required_ok prune_required_fields union_ok_def get_arr_def prune_required_other)
    define hints where "hints = snd st @ (if claudeValidated opts then snd (flattenClaudeUnion nt (fst st)) else [])"
    have "finish_schema nt opts st = add_items (add_hints hints flat)"
      by (simp add: finish_schema_def flat_def hints_def Let_def split_beta)
    then show ?thesis using hints_ok [OF f, of hints] items_added_ok
      by (subst toGeminiSchema.simps) (simp add: JObj flip: st_def)
  qed (simp_all add: toGeminiSchema.simps accepted.no_object isSchemaObject_def)
qed

end
