(* ===== verification/Tools_Facts.thy ===== *)
theory Tools_Facts
  imports Gemini_Tools Schema_Facts "HOL-Library.Sublist"
begin

text \<open>
  What the Gemini transform does to the tools of a payload: the shape of the wrapped tools,
  wrapping again, and the schemas the declarations carry.
\<close>

section \<open>Wrapped tools\<close>

definition declared_ok :: "json \<Rightarrow> bool" where
  "declared_ok d \<longleftrightarrow> (\<exists>name description parameters.
     d = JObj [(''name'', JStr name), (''description'', JStr description), (''parameters'', parameters)]
     \<and> truthy parameters)"

definition declared_functions :: "json \<Rightarrow> nat" where
  "declared_functions tool =
     (if passes_through tool \<or> isWebSearchTool tool then 0
      else if truthy_fld tool ''functionDeclarations''
      then (case arr_fld tool ''functionDeclarations'' of None \<Rightarrow> 0 | Some ds \<Rightarrow> length ds)
      else 1)"

lemma first_truthy_Some: "first_truthy vs = Some x \<Longrightarrow> truthy x \<and> Some x \<in> set vs"
proof -
  assume f: "first_truthy vs = Some x"
  then obtain v rest where v: "filter is_truthy vs = v # rest" "v = Some x"
    by (auto simp: first_truthy_def split: list.splits)
  then have "v \<in> set (filter is_truthy vs)" by simp
  then show ?thesis using v(2) by (simp add: is_truthy_def)
qed

lemma first_truthy_Cons: "first_truthy (v # vs) = (if is_truthy v then v else first_truthy vs)"
  by (simp add: first_truthy_def)

lemma first_truthy_Nil [simp]: "first_truthy [] = None"
  by (simp add: first_truthy_def)

lemma empty_schema_truthy [simp]: "truthy empty_object_schema"
  by (simp add: empty_object_schema_def truthy_def)

lemma declared_is_ok: "declared_ok (declared nt name description (first_truthy ps) n)"
proof -
  have "truthy (case first_truthy ps of None \<Rightarrow> empty_object_schema | Some p \<Rightarrow> p)"
    using first_truthy_Some by (auto split: option.split)
  then show ?thesis by (auto simp: declared_ok_def declared_def)
qed

lemma wrap_function_ok: "declared_ok (wrap_function nt tool n)"
  by (simp add: wrap_function_def Let_def declared_is_ok)

lemma wrap_declarations_append:
  "list_all declared_ok acc \<Longrightarrow> list_all declared_ok (wrap_declarations nt ds acc)
     \<and> length (wrap_declarations nt ds acc) = length acc + length ds"
  unfolding wrap_declarations_def
  by (induction ds arbitrary: acc) (simp_all add: declared_is_ok)

definition wrap_ok :: "wrap_state \<Rightarrow> bool" where
  "wrap_ok st \<longleftrightarrow> list_all declared_ok (wr_declarations st) \<and> list_all passes_through (wr_passthrough st)"

lemma wrap_step_facts:
  assumes "wrap_ok st"
  shows "wrap_ok (wrap_step nt st tool)"
    and "length (wr_declarations (wrap_step nt st tool)) = length (wr_declarations st) + declared_functions tool"
    and "wr_passthrough (wrap_step nt st tool) = wr_passthrough st @ filter passes_through [tool]"
  using assms wrap_declarations_append [of "wr_declarations st" nt]
  by (auto simp: wrap_ok_def wrap_step_def declared_functions_def wrap_function_ok
      split: option.split)

lemma wrap_fold_facts:
  assumes "wrap_ok st"
  shows "wrap_ok (foldl (wrap_step nt) st tools)"
    and "length (wr_declarations (foldl (wrap_step nt) st tools))
      = length (wr_declarations st) + sum_list (map declared_functions tools)"
    and "wr_passthrough (foldl (wrap_step nt) st tools) = wr_passthrough st @ filter passes_through tools"
  using assms by (induction tools arbitrary: st) (simp_all add: wrap_step_facts)

lemma web_passes [simp]: "passes_through web_search_tool"
  by (simp add: web_search_tool_def passes_through_def truthy_fld_def truthy_def)

lemma wrap_shape:
  assumes "get_arr payload ''tools'' = Some tools"
  obtains ds ps where
    "get_arr (fst (wrapToolsAsFunctionDeclarations nt payload)) ''tools''
       = Some ((if ds = [] then [] else [JObj [(''functionDeclarations'', JArr ds)]]) @ ps)"
    "list_all declared_ok ds" "list_all passes_through ps"
    "snd (wrapToolsAsFunctionDeclarations nt payload) = (length ds, length ps)"
    "length ds = sum_list (map declared_functions tools)"
    "\<exists>web. ps = filter passes_through tools @ web \<and> set web \<subseteq> {web_search_tool}"
proof (cases "tools = []")
  case True
  then show ?thesis using assms that [of "[]" "[]"] by (simp add: wrapToolsAsFunctionDeclarations_def)
next
  case False
  define st where "st = foldl (wrap_step nt) \<lparr>wr_declarations = [], wr_passthrough = [], wr_web = False\<rparr> tools"
  define web where "web = (if wr_web st \<and> wr_declarations st = [] then [web_search_tool] else [])"
  have ok: "wrap_ok \<lparr>wr_declarations = [], wr_passthrough = [], wr_web = False\<rparr>" by (simp add: wrap_ok_def)
  note f = wrap_fold_facts [OF ok, of nt tools, folded st_def]
  have r: "wrapToolsAsFunctionDeclarations nt payload = (AList.update ''tools''
      (JArr ((if wr_declarations st = [] then [] else [JObj [(''functionDeclarations'', JArr (wr_declarations st))]])
        @ wr_passthrough st @ web)) payload, length (wr_declarations st), length (wr_passthrough st) + length web)"
    using assms False by (simp add: wrapToolsAsFunctionDeclarations_def Let_def flip: st_def web_def)
  have w: "set web \<subseteq> {web_search_tool}" by (auto simp: web_def)
  then have p: "list_all passes_through (wr_passthrough st @ web)"
    using f(1) by (auto simp: wrap_ok_def list_all_iff)
  have d: "list_all declared_ok (wr_declarations st)" using f(1) by (simp add: wrap_ok_def)
  show ?thesis by (rule that [OF _ d p]) (use r f w in auto)
qed

text \<open>Wrapping the wrapped tools again changes nothing, when every declared name is a proper one.\<close>

definition named :: "json \<Rightarrow> bool" where
  "named d \<longleftrightarrow> fld d ''name'' \<noteq> Some (JStr [])"

lemma declared_again:
  assumes "declared_ok d" "named d"
  shows "declared nt (first_truthy [fld d ''name'']) (first_truthy [fld d ''description''])
    (first_truthy [fld d ''parameters'']) n = d"
proof -
  obtain name description parameters where d: "d = JObj [(''name'', JStr name), (''description'', JStr description),
      (''parameters'', parameters)]" "truthy parameters"
    using assms(1) by (auto simp: declared_ok_def)
  then have "name \<noteq> []" using assms(2) by (auto simp: named_def)
  then show ?thesis using d by (auto simp: declared_def first_truthy_Cons is_truthy_def truthy_def)
qed

lemma wrap_declarations_again:
  "list_all declared_ok ds \<Longrightarrow> list_all named ds \<Longrightarrow> wrap_declarations nt ds acc = acc @ ds"
  unfolding wrap_declarations_def
  by (induction ds arbitrary: acc) (simp_all add: declared_again)

lemma wrap_passing:
  "list_all passes_through ps \<Longrightarrow>
   foldl (wrap_step nt) st ps = st\<lparr>wr_passthrough := wr_passthrough st @ ps\<rparr>"
  by (induction ps arbitrary: st) (simp_all add: wrap_step_def)

lemma wrap_wrapped:
  assumes "get_arr payload ''tools'' = Some ((if ds = [] then [] else [JObj [(''functionDeclarations'', JArr ds)]]) @ ps)"
    and "list_all declared_ok ds" "list_all named ds" "list_all passes_through ps"
  shows "wrapToolsAsFunctionDeclarations nt payload = (payload, length ds, length ps)"
proof -
  let ?tools = "(if ds = [] then [] else [JObj [(''functionDeclarations'', JArr ds)]]) @ ps"
  have "\<not> passes_through (JObj [(''functionDeclarations'', JArr ds)])"
    "\<not> isWebSearchTool (JObj [(''functionDeclarations'', JArr ds)])"
    "truthy_fld (JObj [(''functionDeclarations'', JArr ds)]) ''functionDeclarations''"
    "arr_fld (JObj [(''functionDeclarations'', JArr ds)]) ''functionDeclarations'' = Some ds"
    by (simp_all add: passes_through_def isWebSearchTool_def truthy_fld_def truthy_def is_str_def arr_fld_def)
  then have st: "foldl (wrap_step nt) \<lparr>wr_declarations = [], wr_passthrough = [], wr_web = False\<rparr> ?tools
      = \<lparr>wr_declarations = ds, wr_passthrough = ps, wr_web = False\<rparr>"
    using assms(2,3) by (simp add: wrap_step_def wrap_declarations_again wrap_passing [OF assms(4)])
  have same: "AList.update ''tools'' (JArr ?tools) payload = payload"
    using assms(1) by (intro update_same) (simp only: get_arr_Some)
  have "wrapToolsAsFunctionDeclarations nt payload =
      (if ?tools = [] then (payload, 0, 0) else (AList.update ''tools'' (JArr ?tools) payload, length ds, length ps))"
    unfolding wrapToolsAsFunctionDeclarations_def assms(1) option.case st Let_def by simp
  then show ?thesis using same by (auto split: if_split_asm)
qed

section \<open>The schemas of the declarations\<close>

lemma placeholder_accepted: "accepted opts placeholder_schema" "accepted opts empty_object_schema"
proof -
  have "accepted opts (JObj [(''type'', JStr ''BOOLEAN''), (''description'', JStr ''Placeholder. Always pass true.'')])"
    by (auto simp: accepted_object jm_wf_def plain_field_def allowed_names required_ok_def items_ok_def
        union_ok_def get_arr_def get_obj_def get_str_def)
  then show "accepted opts placeholder_schema" "accepted opts empty_object_schema"
    by (auto simp: placeholder_schema_def empty_object_schema_def accepted_object jm_wf_def plain_field_def
        required_ok_def items_ok_def union_ok_def get_arr_def get_obj_def get_str_def subschemas_simps
        ALLOWED_SCHEMA_FIELDS_def NUMERIC_SCHEMA_CONSTRAINTS_def CLAUDE_VALIDATED_HINT_FIELDS_def
        is_string_def str_of_def jm_has_def)
qed

lemma wf_fld: "wf_json v \<Longrightarrow> fld v k = Some x \<Longrightarrow> wf_json x"
  by (cases v) (auto simp: list_all_iff dest!: map_of_SomeD)

lemma wf_opt_fld: "(\<And>x. v = Some x \<Longrightarrow> wf_json x) \<Longrightarrow> opt_fld v k = Some y \<Longrightarrow> wf_json y"
  by (cases v) (auto simp: opt_fld_def wf_fld)

lemma candidates_wf:
  assumes "wf_json (JObj t)" "Some x \<in> set (schema_candidates t)"
  shows "wf_json x"
proof -
  have f: "wf_json y" if "map_of t k = Some y" for k y using wf_fld [OF assms(1), of k y] that by simp
  have "wf_json y" if "opt_fld (map_of t k) l = Some y" for k l y using wf_opt_fld [OF f that] .
  with f show ?thesis using assms(2) by (auto simp: schema_candidates_def Let_def dest: sym)
qed

definition tool_schema :: "(num \<Rightarrow> string) \<Rightarrow> GeminiSchemaOptions \<Rightarrow> js_object \<Rightarrow> json" where
  "tool_schema nt opts t =
     (case first_truthy (schema_candidates t) of
        Some (JObj s) \<Rightarrow> toGeminiSchema nt opts (JObj s)
      | _ \<Rightarrow> placeholder_schema)"

lemma tool_schema_ok:
  assumes "wf_json (JObj t)"
  shows "accepted opts (tool_schema nt opts t)" "truthy (tool_schema nt opts t)"
proof -
  have "truthy (toGeminiSchema nt opts (JObj s))" for s by (simp add: toGeminiSchema.simps truthy_def)
  moreover have "truthy placeholder_schema" by (simp add: placeholder_schema_def truthy_def)
  ultimately show "truthy (tool_schema nt opts t)"
    by (simp add: tool_schema_def split: option.split json.split)
  show "accepted opts (tool_schema nt opts t)"
    using placeholder_accepted toGeminiSchema_accepted [of "JObj s" for s] candidates_wf [OF assms] first_truthy_Some
    unfolding tool_schema_def by (fastforce split: option.split json.split)
qed

lemma set_schema_other: "k' \<noteq> k \<Longrightarrow> map_of (set_schema k s t) k' = map_of t k'"
  by (simp add: set_schema_def update_conv split: option.split)

lemma set_schema_own: "map_of t k = Some v \<Longrightarrow> truthy v \<Longrightarrow>
  map_of (set_schema k s t) k = Some (JObj (AList.update ''input_schema'' s (obj_of v)))"
  by (simp add: set_schema_def update_conv)

lemma add_custom_other: "k \<notin> {''custom'', ''parameters''} \<Longrightarrow> map_of (add_custom i s t) k = map_of t k"
  by (auto simp: add_custom_def Let_def update_conv)

text \<open>A function-style tool after normalization.\<close>

lemma normalized_tool:
  assumes "\<not> truthy_fld tool ''googleSearch''" "\<not> truthy_fld tool ''googleSearchRetrieval''"
    and "tool = JObj t" "get_arr t ''functionDeclarations'' = None"
  obtains r where "fst (normalize_gemini_tool nt opts i tool) = JObj r"
    "map_of r ''function'' = map_of (set_schema ''function'' (tool_schema nt opts t) t) ''function''"
    "\<And>k. k \<notin> {''function'', ''custom'', ''parameters''} \<Longrightarrow> map_of r k = map_of t k"
proof -
  define s where "s = tool_schema nt opts t"
  define t1 where "t1 = add_custom i s (set_schema ''custom'' s (set_schema ''function'' s t))"
  define t2 where "t2 = (if is_truthy (map_of t1 ''custom'') \<and> \<not> is_truthy (opt_fld (map_of t1 ''custom'') ''input_schema'')
    then set_schema ''custom'' empty_object_schema t1 else t1)"
  define r where "r = (if is_truthy (map_of t2 ''custom'') then AList.delete ''custom'' t2 else t2)"
  have n: "fst (normalize_gemini_tool nt opts i tool) = JObj r"
  proof -
    obtain schema missing where sm: "(case first_truthy (schema_candidates t) of
        Some (JObj s) \<Rightarrow> (toGeminiSchema nt opts (JObj s), 0)
      | _ \<Rightarrow> (placeholder_schema, 1 :: nat)) = (schema, missing)" by fastforce
    then have "schema = s" by (auto simp: s_def tool_schema_def split: option.splits json.splits)
    then show ?thesis using assms sm
      by (simp add: normalize_gemini_tool_def obj_of_def r_def t2_def t1_def split_beta Let_def)
  qed
  have f2: "map_of r k = map_of t1 k" if "k \<noteq> ''custom''" for k
    using that by (simp add: r_def t2_def delete_conv' set_schema_other)
  have "map_of t1 ''function'' = map_of (set_schema ''function'' s t) ''function''"
    by (simp add: t1_def add_custom_other set_schema_other)
  moreover have "map_of t1 k = map_of t k" if "k \<notin> {''function'', ''custom'', ''parameters''}" for k
    using that by (simp add: t1_def add_custom_other set_schema_other)
  ultimately show ?thesis using f2 by (intro that [OF n]) (auto simp: s_def)
qed

text \<open>A tool whose declarations, if any, will carry accepted schemas.\<close>

definition sends_accepted :: "GeminiSchemaOptions \<Rightarrow> json \<Rightarrow> bool" where
  "sends_accepted opts tool \<longleftrightarrow> passes_through tool \<or> isWebSearchTool tool
     \<or> (if truthy_fld tool ''functionDeclarations''
        then (\<forall>ds. arr_fld tool ''functionDeclarations'' = Some ds \<longrightarrow>
                list_all (\<lambda>d. \<forall>p. fld d ''parameters'' = Some p \<longrightarrow> accepted opts p) ds)
        else (\<exists>s. opt_fld (fld tool ''function'') ''input_schema'' = Some s \<and> truthy s \<and> accepted opts s))"

definition carries_accepted :: "GeminiSchemaOptions \<Rightarrow> json \<Rightarrow> bool" where
  "carries_accepted opts d \<longleftrightarrow> (\<exists>p. fld d ''parameters'' = Some p \<and> accepted opts p)"

lemma declared_carries:
  "(\<And>p. parameters = Some p \<Longrightarrow> accepted opts p) \<Longrightarrow> carries_accepted opts (declared nt name description parameters n)"
  using placeholder_accepted by (cases parameters) (simp_all add: carries_accepted_def declared_def)

lemma wrap_declarations_carry:
  assumes "list_all (\<lambda>d. \<forall>p. fld d ''parameters'' = Some p \<longrightarrow> accepted opts p) ds" "list_all (carries_accepted opts) acc"
  shows "list_all (carries_accepted opts) (wrap_declarations nt ds acc)"
  using assms unfolding wrap_declarations_def
proof (induction ds arbitrary: acc)
  case (Cons d ds)
  have "carries_accepted opts (declared nt (first_truthy [fld d ''name'']) (first_truthy [fld d ''description''])
      (first_truthy [fld d ''parameters'']) (length acc))"
    using Cons.prems(1) first_truthy_Some by (intro declared_carries) fastforce
  then show ?case using Cons by simp
qed simp

lemma wrap_step_carries:
  assumes "sends_accepted opts tool" "list_all (carries_accepted opts) (wr_declarations st)"
  shows "list_all (carries_accepted opts) (wr_declarations (wrap_step nt st tool))"
proof -
  have "carries_accepted opts (wrap_function nt tool n)"
    if "\<not> passes_through tool" "\<not> isWebSearchTool tool" "\<not> truthy_fld tool ''functionDeclarations''" for n
  proof -
    have "\<exists>s. opt_fld (fld tool ''function'') ''input_schema'' = Some s \<and> truthy s \<and> accepted opts s"
      using assms(1) that by (simp add: sends_accepted_def)
    then obtain s where "opt_fld (fld tool ''function'') ''input_schema'' = Some s" "truthy s" "accepted opts s"
      by blast
    moreover from this have "first_truthy (opt_fld (fld tool ''function'') ''input_schema'' # rest) = Some s" for rest
      by (simp add: first_truthy_Cons is_truthy_def)
    ultimately show ?thesis
      by (auto simp: wrap_function_def Let_def intro!: declared_carries)
  qed
  then show ?thesis using assms
    by (auto simp: wrap_step_def sends_accepted_def wrap_declarations_carry split: option.split)
qed

lemma wrap_fold_carries:
  "list_all (sends_accepted opts) tools \<Longrightarrow> list_all (carries_accepted opts) (wr_declarations st) \<Longrightarrow>
   list_all (carries_accepted opts) (wr_declarations (foldl (wrap_step nt) st tools))"
  by (induction tools arbitrary: st) (simp_all add: wrap_step_carries)

text \<open>The tools the transform converts: declarations, functions and what is passed on.\<close>

definition convertible :: "json \<Rightarrow> bool" where
  "convertible tool \<longleftrightarrow> isPlainObject tool \<and> wf_json tool
     \<and> (passes_through tool \<or> get_arr (obj_of tool) ''functionDeclarations'' \<noteq> None \<or> truthy_fld tool ''function'')"

lemma normalized_declaration:
  assumes "wf_json d" "fld (normalize_declaration nt opts d) ''parameters'' = Some p"
  shows "accepted opts p"
proof -
  have w: "wf_json x" if "map_of (obj_of d) k = Some x" for k x
    using wf_fld [OF assms(1)] that by (auto simp: obj_of_def split: json.splits)
  define raw where "raw = the (nullish_or (map_of (obj_of d) ''parameters'')
    (nullish_or (map_of (obj_of d) ''parametersJsonSchema'') (Some empty_object_schema)))"
  have "wf_json empty_object_schema" by (simp add: empty_object_schema_def)
  moreover have "nullish_or a b \<in> {a, b}" for a b by (auto simp: nullish_or_def split: option.split json.split)
  moreover have "nullish_or a (Some b) \<noteq> None" for a b by (auto simp: nullish_or_def split: option.split json.split)
  ultimately have "wf_json raw" using w unfolding raw_def
    by (metis insertE option.collapse option.sel singletonD)
  moreover have "p = toGeminiSchema nt opts raw"
    using assms(2) by (simp add: normalize_declaration_def Let_def raw_def delete_conv' update_conv)
  ultimately show ?thesis by (simp add: toGeminiSchema_accepted)
qed

lemma normalized_sends:
  assumes "convertible tool"
  shows "sends_accepted opts (fst (normalize_gemini_tool nt opts i tool))"
proof -
  obtain t where t: "tool = JObj t" using assms by (auto simp: convertible_def isPlainObject_def split: json.splits)
  consider (search) "truthy_fld tool ''googleSearch'' \<or> truthy_fld tool ''googleSearchRetrieval''"
    | (decls) ds where "\<not> truthy_fld tool ''googleSearch''" "\<not> truthy_fld tool ''googleSearchRetrieval''"
        "get_arr t ''functionDeclarations'' = Some ds"
    | (other) "\<not> truthy_fld tool ''googleSearch''" "\<not> truthy_fld tool ''googleSearchRetrieval''"
        "get_arr t ''functionDeclarations'' = None"
    by (cases "get_arr t ''functionDeclarations''") auto
  then show ?thesis
  proof cases
    case search
    then show ?thesis by (auto simp: normalize_gemini_tool_def sends_accepted_def passes_through_def)
  next
    case decls
    have "wf_json (JArr ds)" using wf_fld [of tool "''functionDeclarations''" "JArr ds"] assms decls t
      by (simp add: convertible_def get_arr_Some)
    then have "list_all (\<lambda>d. \<forall>p. fld d ''parameters'' = Some p \<longrightarrow> accepted opts p) (map (normalize_declaration nt opts) ds)"
      using normalized_declaration by (auto simp: list_all_iff)
    then show ?thesis using decls t
      by (simp add: normalize_gemini_tool_def obj_of_def sends_accepted_def arr_fld_def update_conv truthy_fld_def truthy_def)
  next
    case other
    obtain r where r: "fst (normalize_gemini_tool nt opts i tool) = JObj r"
      "map_of r ''function'' = map_of (set_schema ''function'' (tool_schema nt opts t) t) ''function''"
      "\<And>k. k \<notin> {''function'', ''custom'', ''parameters''} \<Longrightarrow> map_of r k = map_of t k"
      by (rule normalized_tool [OF other(1,2) t other(3), where nt = nt and opts = opts and i = i]) blast
    show ?thesis
    proof (cases "passes_through tool")
      case True
      then have "passes_through (JObj r)" using r(3) t by (simp add: passes_through_def truthy_fld_def)
      then show ?thesis by (simp add: r(1) sends_accepted_def)
    next
      case False
      then have "truthy_fld tool ''function''" using assms other t by (auto simp: convertible_def obj_of_def)
      then obtain v where v: "map_of t ''function'' = Some v" "truthy v"
        using t by (auto simp: truthy_fld_def split: option.splits)
      have "wf_json (JObj t)" using assms t by (simp add: convertible_def)
      from tool_schema_ok(1) [OF this, where opts = opts and nt = nt] tool_schema_ok(2) [OF this, where opts = opts and nt = nt] have s: "\<exists>s. opt_fld (map_of r ''function'') ''input_schema'' = Some s
          \<and> truthy s \<and> accepted opts s"
        by (simp add: r(2) set_schema_own [OF v] opt_fld_def update_conv)
      have "arr_fld (JObj r) ''functionDeclarations'' = None"
        using other(3) r(3) by (simp add: arr_fld_def get_arr_def)
      then show ?thesis using s by (simp add: r(1) sends_accepted_def)
    qed
  qed
qed

definition transform_options :: "GeminiTransformOptions \<Rightarrow> GeminiSchemaOptions" where
  "transform_options cfg =
     \<lparr>moveNumericConstraintsToDescription = starts_with (to_lower (go_model cfg)) ''gpt-oss-'', claudeValidated = False\<rparr>"

lemma wrapped_carry:
  assumes "get_arr payload ''tools'' = Some tools" "list_all (sends_accepted opts) tools"
    and "get_arr (fst (wrapToolsAsFunctionDeclarations nt payload)) ''tools'' = Some (JObj [(''functionDeclarations'', JArr ds)] # ps)"
    and "\<not> passes_through (JObj [(''functionDeclarations'', JArr ds)])"
  shows "list_all (carries_accepted opts) ds"
proof (cases "tools = []")
  case True
  then show ?thesis using assms by (simp add: wrapToolsAsFunctionDeclarations_def)
next
  case False
  define st where "st = foldl (wrap_step nt) \<lparr>wr_declarations = [], wr_passthrough = [], wr_web = False\<rparr> tools"
  define web where "web = (if wr_web st \<and> wr_declarations st = [] then [web_search_tool] else [])"
  have r: "get_arr (fst (wrapToolsAsFunctionDeclarations nt payload)) ''tools'' = Some
      ((if wr_declarations st = [] then [] else [JObj [(''functionDeclarations'', JArr (wr_declarations st))]])
        @ wr_passthrough st @ web)"
    using assms False by (simp add: wrapToolsAsFunctionDeclarations_def Let_def flip: st_def web_def)
  have c: "list_all (carries_accepted opts) (wr_declarations st)"
    unfolding st_def using assms(2) by (intro wrap_fold_carries) simp_all
  show ?thesis
  proof (cases "wr_declarations st = []")
    case True
    have "list_all passes_through (wr_passthrough st @ web)"
      using wrap_fold_facts(1) [of "\<lparr>wr_declarations = [], wr_passthrough = [], wr_web = False\<rparr>" nt tools]
      by (auto simp: wrap_ok_def web_def list_all_iff simp flip: st_def)
    moreover have "wr_passthrough st @ web = JObj [(''functionDeclarations'', JArr ds)] # ps"
      using r assms(3) True by simp
    ultimately have "list_all passes_through (JObj [(''functionDeclarations'', JArr ds)] # ps)" by (simp only:)
    then show ?thesis using assms(4) by simp
  next
    case False
    then show ?thesis using r assms(3) c by simp
  qed
qed

lemma search_convertible [simp]: "convertible web_search_tool"
  using web_passes by (simp add: convertible_def) (simp add: web_search_tool_def isPlainObject_def)

lemma transform_tools:
  assumes "applyGeminiTransforms nt cfg payload = Some r" "array_or_empty (JObj payload) ''tools'' = Some tools"
    and "list_all convertible tools" "get_arr (gr_payload r) ''tools'' = Some out"
  obtains normalized where "gr_payload r = fst (wrapToolsAsFunctionDeclarations nt normalized)"
    "gr_wrappedFunctionCount r = fst (snd (wrapToolsAsFunctionDeclarations nt normalized))"
    "\<exists>ts. get_arr normalized ''tools'' = Some ts \<and> list_all (sends_accepted (transform_options cfg)) ts"
proof -
  define thought where "thought = apply_thinking cfg payload"
  obtain searched where searched: "add_google_search (go_googleSearchAuto cfg) thought = Some searched"
    using assms(1) by (auto simp: applyGeminiTransforms_def thought_def)
  define normalized where "normalized = fst (normalizeGeminiTools nt (transform_options cfg) searched)"
  have r: "gr_payload r = fst (wrapToolsAsFunctionDeclarations nt normalized)"
    "gr_wrappedFunctionCount r = fst (snd (wrapToolsAsFunctionDeclarations nt normalized))"
    using assms(1) searched
    by (auto simp: applyGeminiTransforms_def normalized_def thought_def transform_options_def split_beta Let_def)
  have t: "map_of thought ''tools'' = map_of payload ''tools''"
    by (simp add: thought_def apply_thinking_def update_conv Let_def split: option.split)
  have "\<exists>ts. get_arr searched ''tools'' = Some ts \<and> list_all convertible ts"
  proof (cases "go_googleSearchAuto cfg")
    case True
    then show ?thesis using searched assms(2,3) t
      by (auto simp: add_google_search_def array_or_empty_def split: option.splits)
  next
    case False
    then have s: "searched = thought" using searched by (simp add: add_google_search_def)
    show ?thesis
    proof (cases "get_arr payload ''tools''")
      case None
      then have "get_arr normalized ''tools'' = None" using t s
        by (simp add: normalized_def normalizeGeminiTools_def get_arr_def)
      then show ?thesis using r assms(4) by (simp add: wrapToolsAsFunctionDeclarations_def)
    next
      case (Some ts)
      then have "tools = ts" using assms(2) by (simp add: array_or_empty_def get_arr_Some)
      then show ?thesis using Some s t assms(3) by (simp add: get_arr_def)
    qed
  qed
  then obtain ts where ts: "get_arr searched ''tools'' = Some ts" "list_all convertible ts" by blast
  have "get_arr normalized ''tools'' = Some (map (\<lambda>(i, x). fst (normalize_gemini_tool nt (transform_options cfg) i x))
      (zip [0..<length ts] ts))"
    using ts(1) by (simp add: normalized_def normalizeGeminiTools_def Let_def comp_def split_beta)
  moreover have "list_all (sends_accepted (transform_options cfg))
      (map (\<lambda>(i, x). fst (normalize_gemini_tool nt (transform_options cfg) i x)) (zip [0..<length ts] ts))"
    using ts(2) normalized_sends by (auto simp: list_all_iff dest: set_zip_rightD)
  ultimately show ?thesis using r by (intro that) auto
qed

end
