(* ===== verification/Gemini_Properties.thy ===== *)
theory Gemini_Properties
  imports Tools_Facts
begin


definition plain_transform :: GeminiTransformOptions where
  "plain_transform = \<lparr>go_model = ''gemini-3-pro'', go_tierThinkingBudget = None, go_tierThinkingLevel = None,
     go_normalizedThinking = None, go_googleSearchAuto = False\<rparr>"



text \<open>
  Wrapping the tools gives one \<open>functionDeclarations\<close> entry, first, with one declaration (a
  name, a description and a schema) for each declared function in order of the count, and
  after it exactly the tools that are passed through; the counts are those reported; and
  wrapping the result again changes nothing, when no name is empty.
\<close>

lemma tools_wrapped:
  assumes "get_arr payload ''tools'' = Some tools"
    and "(wrapped, functions, passed) = wrapToolsAsFunctionDeclarations nt payload"
  shows "\<exists>ds ps. get_arr wrapped ''tools''
        = Some ((if ds = [] then [] else [JObj [(''functionDeclarations'', JArr ds)]]) @ ps)
    \<and> list_all declared_ok ds \<and> list_all passes_through ps
    \<and> functions = length ds \<and> passed = length ps
    \<and> functions = sum_list (map declared_functions tools)
    \<and> prefix (filter passes_through tools) ps
    \<and> (\<not> list_all named ds \<or> wrapToolsAsFunctionDeclarations nt wrapped = (wrapped, functions, passed))"
proof -
  have w: "wrapped = fst (wrapToolsAsFunctionDeclarations nt payload)"
    "(functions, passed) = snd (wrapToolsAsFunctionDeclarations nt payload)"
    using assms(2) by (metis fst_conv, metis snd_conv)
  show ?thesis
  proof (rule wrap_shape [OF assms(1), of nt])
    fix ds ps
    assume s: "get_arr (fst (wrapToolsAsFunctionDeclarations nt payload)) ''tools''
         = Some ((if ds = [] then [] else [JObj [(''functionDeclarations'', JArr ds)]]) @ ps)"
      "list_all declared_ok ds" "list_all passes_through ps"
      "snd (wrapToolsAsFunctionDeclarations nt payload) = (length ds, length ps)"
      "length ds = sum_list (map declared_functions tools)"
      "\<exists>web. ps = filter passes_through tools @ web \<and> set web \<subseteq> {web_search_tool}"
    then have "list_all named ds \<Longrightarrow> wrapToolsAsFunctionDeclarations nt wrapped = (wrapped, functions, passed)"
      using w by (subst wrap_wrapped) auto
    then show ?thesis using s w by (intro exI [of _ ds] exI [of _ ps]) (auto simp: prefix_def)
  qed
qed

theorem tools_wrapped_witness:
  "fst (snd (wrapToolsAsFunctionDeclarations (\<lambda>_. ''1'')
     [(''tools'', JArr [JObj [(''name'', JStr ''f'')], JObj [(''codeExecution'', JObj [])]])])) = 1"
proof -
  let ?p = "[(''tools'', JArr [JObj [(''name'', JStr ''f'')], JObj [(''codeExecution'', JObj [])]])]"
  have "sum_list (map declared_functions [JObj [(''name'', JStr ''f'')], JObj [(''codeExecution'', JObj [])]]) = 1"
    by (simp add: declared_functions_def passes_through_def isWebSearchTool_def truthy_fld_def truthy_def is_str_def)
  then show ?thesis
    using tools_wrapped [of ?p "[JObj [(''name'', JStr ''f'')], JObj [(''codeExecution'', JObj [])]]"
        "fst (wrapToolsAsFunctionDeclarations (\<lambda>_. ''1'') ?p)" "fst (snd (wrapToolsAsFunctionDeclarations (\<lambda>_. ''1'') ?p))"
        "snd (snd (wrapToolsAsFunctionDeclarations (\<lambda>_. ''1'') ?p))" "\<lambda>_. ''1''"]
    by (auto simp: get_arr_def)
qed

text \<open>
  After the whole Gemini transform every function declaration carries a schema the service
  accepts, for payloads whose tools are declarations, functions or tools that are passed on.
\<close>

lemma declared_schemas_accepted:
  assumes "applyGeminiTransforms nt cfg payload = Some r" "array_or_empty (JObj payload) ''tools'' = Some tools"
    and "list_all convertible tools"
    and "get_arr (gr_payload r) ''tools'' = Some (JObj [(''functionDeclarations'', JArr ds)] # ps)"
  shows "list_all (carries_accepted (transform_options cfg)) ds"
proof (rule transform_tools [OF assms])
  fix normalized
  assume n: "gr_payload r = fst (wrapToolsAsFunctionDeclarations nt normalized)"
    "\<exists>ts. get_arr normalized ''tools'' = Some ts \<and> list_all (sends_accepted (transform_options cfg)) ts"
  then obtain ts where "get_arr normalized ''tools'' = Some ts" "list_all (sends_accepted (transform_options cfg)) ts"
    by blast
  then show ?thesis
    by (rule wrapped_carry)
      (use n assms(4) in \<open>auto simp: passes_through_def truthy_fld_def\<close>)
qed

theorem declared_schemas_accepted_witness:
  "\<exists>r ds. applyGeminiTransforms (\<lambda>_. ''1'') plain_transform
       [(''tools'', JArr [JObj [(''function'', JObj [(''name'', JStr ''f'')])]])] = Some r
     \<and> get_arr (gr_payload r) ''tools'' = Some [JObj [(''functionDeclarations'', JArr ds)]]
     \<and> list_all (carries_accepted (transform_options plain_transform)) ds"
proof -
  let ?p = "[(''tools'', JArr [JObj [(''function'', JObj [(''name'', JStr ''f'')])]])]"
  obtain r where r: "applyGeminiTransforms (\<lambda>_. ''1'') plain_transform ?p = Some r"
    by (simp add: applyGeminiTransforms_def plain_transform_def add_google_search_def)
  have "get_arr (gr_payload (the (applyGeminiTransforms (\<lambda>_. ''1'') plain_transform ?p))) ''tools''
      = Some [JObj [(''functionDeclarations'', JArr [declared (\<lambda>_. ''1'') (Some (JStr ''f'')) None (Some placeholder_schema) 0])]]"
    by code_simp
  then have out: "get_arr (gr_payload r) ''tools''
      = Some [JObj [(''functionDeclarations'', JArr [declared (\<lambda>_. ''1'') (Some (JStr ''f'')) None (Some placeholder_schema) 0])]]"
    by (simp add: r)
  have "list_all convertible [JObj [(''function'', JObj [(''name'', JStr ''f'')])]]"
    by (simp add: convertible_def isPlainObject_def truthy_fld_def truthy_def)
  from declared_schemas_accepted [OF r _ this out] show ?thesis using r out
    by (simp add: array_or_empty_def)
qed

text \<open>
  A tool declared only through \<open>custom\<close> loses its name and its schema in the whole transform:
  the normalization deletes the wrapper before the declarations are built from it.
\<close>

lemma custom_tool_lost:
  "map_option (\<lambda>r. get_arr (gr_payload r) ''tools'') (applyGeminiTransforms (\<lambda>_. ''1'') plain_transform
     [(''tools'', JArr [JObj [(''custom'', JObj [(''name'', JStr ''f''), (''input_schema'',
        JObj [(''type'', JStr ''object''), (''properties'', JObj [(''a'', JObj [(''type'', JStr ''string'')])])])])]])])
   = Some (Some [JObj [(''functionDeclarations'',
       JArr [JObj [(''name'', JStr ''tool-0''), (''description'', JStr ''''), (''parameters'', empty_object_schema)]])]])"
  by code_simp

end
