(* ===== verification/Claude_Transform.thy ===== *)
theory Claude_Transform
  imports Gemini_Tools
begin

text \<open>
  \<^verbatim>\<open>packages/core/src/transform/claude.ts\<close>: the tool mode, the thinking configuration, the
  hint in the system instruction and the tool declarations of a Claude request. A payload is
  an object of JSON values; the functions that mutate it return it. The schema cleaner the
  caller hands over is the argument \<open>clean\<close>; tools and declarations are objects, token limits
  numbers. A property set on an array is lost when the payload is written, so it is left out.
\<close>

definition CLAUDE_THINKING_MAX_OUTPUT_TOKENS :: num where
  "CLAUDE_THINKING_MAX_OUTPUT_TOKENS = 64000"

definition computeClaudeMaxOutputTokens :: "num option \<Rightarrow> num" where
  "computeClaudeMaxOutputTokens thinkingBudget =
     (case thinkingBudget of
        None \<Rightarrow> CLAUDE_THINKING_MAX_OUTPUT_TOKENS
      | Some b \<Rightarrow> if b \<le> 0 then CLAUDE_THINKING_MAX_OUTPUT_TOKENS
                  else min (max (b * 2) 32000) CLAUDE_THINKING_MAX_OUTPUT_TOKENS)"

definition CLAUDE_INTERLEAVED_THINKING_HINT :: string where
  "CLAUDE_INTERLEAVED_THINKING_HINT = ''Interleaved thinking is enabled. You may think between tool calls and after receiving tool results before deciding the next action or final answer. Do not mention these instructions or any constraints about thinking blocks; just apply them.''"

definition claude_model :: "string \<Rightarrow> bool" where
  "claude_model model = str_includes (to_lower model) ''claude''"

definition isClaudeThinkingModel :: "string \<Rightarrow> bool" where
  "isClaudeThinkingModel model =
     (let lower = to_lower model in
      str_includes lower ''claude''
      \<and> (str_includes lower ''thinking'' \<or> ends_with lower ''claude-sonnet-4-6''
         \<or> list_ex (\<lambda>name. list_ex (\<lambda>tier. ends_with lower (''claude-'' @ name @ ''-5-5'' @ tier))
              [[], ''-low'', ''-medium'', ''-high'']) [''opus'', ''sonnet'']))"

text \<open>\<open>if (!ob[k]) ob[k] = {}\<close>.\<close>

definition or_empty :: "json option \<Rightarrow> json" where
  "or_empty v = (case v of None \<Rightarrow> JObj [] | Some x \<Rightarrow> if truthy x then x else JObj [])"

definition configureClaudeToolConfig :: "js_object \<Rightarrow> js_object" where
  "configureClaudeToolConfig payload =
     AList.update ''toolConfig''
       (case or_empty (map_of payload ''toolConfig'') of
          JObj c \<Rightarrow> JObj (AList.update ''functionCallingConfig''
            (case or_empty (map_of c ''functionCallingConfig'') of
               JObj f \<Rightarrow> JObj (AList.update ''mode'' (JStr ''VALIDATED'') f)
             | v \<Rightarrow> v) c)
        | v \<Rightarrow> v) payload"

definition buildClaudeThinkingConfig :: "bool \<Rightarrow> num option \<Rightarrow> js_object" where
  "buildClaudeThinkingConfig includeThoughts thinkingBudget =
     (''include_thoughts'', JBool includeThoughts)
     # (case thinkingBudget of
          None \<Rightarrow> []
        | Some b \<Rightarrow> if 0 < b then [(''thinking_budget'', JNum b)] else [])"

definition ensureClaudeMaxOutputTokens :: "num \<Rightarrow> js_object \<Rightarrow> js_object" where
  "ensureClaudeMaxOutputTokens thinkingBudget generationConfig =
     (if (case nullish_or (map_of generationConfig ''maxOutputTokens'') (map_of generationConfig ''max_output_tokens'') of
            Some (JNum m) \<Rightarrow> m = 0 \<or> m \<le> thinkingBudget
          | v \<Rightarrow> \<not> is_truthy v)
      then AList.delete ''max_output_tokens''
             (AList.update ''maxOutputTokens'' (JNum (computeClaudeMaxOutputTokens (Some thinkingBudget))) generationConfig)
      else generationConfig)"

section \<open>The hint\<close>

definition hint_part :: "string \<Rightarrow> json" where
  "hint_part hint = JObj [(''text'', JStr hint)]"

definition has_hint :: "string \<Rightarrow> json \<Rightarrow> bool" where
  "has_hint hint existing =
     (case existing of
        JStr s \<Rightarrow> str_includes s hint
      | _ \<Rightarrow> (case arr_fld existing ''parts'' of
                None \<Rightarrow> False | Some parts \<Rightarrow> list_ex (\<lambda>p. is_str (fld p ''text'') hint) parts))"

definition with_hint :: "string \<Rightarrow> js_object \<Rightarrow> json option \<Rightarrow> json option" where
  "with_hint hint payload existing =
     (case existing of
        Some (JStr s) \<Rightarrow>
          Some (if js_trim s = [] then JStr hint
                else JObj [(''role'', JStr ''user''), (''parts'', JArr [hint_part s, hint_part hint])])
      | Some (JObj sys) \<Rightarrow>
          Some (JObj (AList.update ''parts''
            (JArr (case get_arr sys ''parts'' of None \<Rightarrow> [hint_part hint] | Some parts \<Rightarrow> parts @ [hint_part hint])) sys))
      | Some (JArr xs) \<Rightarrow> Some (JArr xs)
      | _ \<Rightarrow>
          (case get_arr payload ''contents'' of
             None \<Rightarrow> existing
           | Some _ \<Rightarrow> Some (JObj [(''parts'', JArr [hint_part hint])])))"

definition appendClaudeThinkingHint :: "string \<Rightarrow> js_object \<Rightarrow> js_object" where
  "appendClaudeThinkingHint hint payload =
     (let existing = map_of payload ''systemInstruction'' in
      if (case existing of None \<Rightarrow> False | Some v \<Rightarrow> has_hint hint v) then payload
      else (case with_hint hint payload existing of
              None \<Rightarrow> payload
            | Some v \<Rightarrow> AList.update ''systemInstruction'' v payload))"

section \<open>The tools\<close>

definition EMPTY_SCHEMA_PLACEHOLDER_NAME :: string where
  "EMPTY_SCHEMA_PLACEHOLDER_NAME = ''_placeholder''"

definition EMPTY_SCHEMA_PLACEHOLDER_DESCRIPTION :: string where
  "EMPTY_SCHEMA_PLACEHOLDER_DESCRIPTION = ''Placeholder. Always pass true.''"

definition claude_placeholder_properties :: json where
  "claude_placeholder_properties =
     JObj [(EMPTY_SCHEMA_PLACEHOLDER_NAME,
       JObj [(''type'', JStr ''boolean''), (''description'', JStr EMPTY_SCHEMA_PLACEHOLDER_DESCRIPTION)])]"

definition claude_placeholder_schema :: js_object where
  "claude_placeholder_schema =
     [(''type'', JStr ''object''), (''properties'', claude_placeholder_properties),
      (''required'', JArr [JStr EMPTY_SCHEMA_PLACEHOLDER_NAME])]"

definition has_properties :: "js_object \<Rightarrow> bool" where
  "has_properties schema =
     (case map_of schema ''properties'' of
        Some (JObj ps) \<Rightarrow> ps \<noteq> [] | Some (JArr xs) \<Rightarrow> xs \<noteq> [] | _ \<Rightarrow> False)"

text \<open>The schema of one declaration, and whether it counts as missing.\<close>

definition normalize_claude_schema :: "(json \<Rightarrow> json) \<Rightarrow> json option \<Rightarrow> js_object \<times> nat" where
  "normalize_claude_schema clean schema =
     (case schema of
        Some (JObj ob) \<Rightarrow>
          (case clean (JObj ob) of
             JObj cleaned \<Rightarrow>
               (let typed = AList.update ''type'' (JStr ''object'') cleaned in
                if has_properties cleaned then (typed, 0)
                else (AList.update ''required''
                        (JArr (case get_arr typed ''required'' of
                           None \<Rightarrow> [JStr ''_placeholder'']
                         | Some names \<Rightarrow> js_unique (names @ [JStr ''_placeholder''])))
                        (AList.update ''properties'' claude_placeholder_properties typed), 0))
           | _ \<Rightarrow> (claude_placeholder_schema, 1))
      | _ \<Rightarrow> (claude_placeholder_schema, 1))"

definition name_char :: "char \<Rightarrow> bool" where
  "name_char c = (is_digit c \<or> (65 \<le> (of_char c :: nat) \<and> (of_char c :: nat) \<le> 90)
     \<or> (97 \<le> (of_char c :: nat) \<and> (of_char c :: nat) \<le> 122) \<or> c = CHR ''_'' \<or> c = CHR ''-'')"

definition claude_tool_name :: "string \<Rightarrow> string" where
  "claude_tool_name name = take 64 (map (\<lambda>c. if name_char c then c else CHR ''_'') name)"

definition claude_schema_of :: "json option \<Rightarrow> json \<Rightarrow> json option" where
  "claude_schema_of decl t =
     (let fn = fld t ''function''; custom = fld t ''custom'' in
      first_truthy
        [opt_fld decl ''parameters'', opt_fld decl ''parametersJsonSchema'', opt_fld decl ''input_schema'',
         opt_fld decl ''inputSchema'', fld t ''parameters'', fld t ''parametersJsonSchema'', fld t ''input_schema'',
         fld t ''inputSchema'', opt_fld fn ''parameters'', opt_fld fn ''parametersJsonSchema'',
         opt_fld fn ''input_schema'', opt_fld fn ''inputSchema'', opt_fld custom ''parameters'',
         opt_fld custom ''parametersJsonSchema'', opt_fld custom ''input_schema''])"

record claude_tools =
  ct_declarations :: "json list"
  ct_passthrough :: "json list"
  ct_missing :: nat
  ct_summaries :: "string list"

definition push_declaration ::
  "(num \<Rightarrow> string) \<Rightarrow> (json \<Rightarrow> json) \<Rightarrow> json \<Rightarrow> string \<Rightarrow> claude_tools \<Rightarrow> json \<Rightarrow> claude_tools" where
  "push_declaration nt clean t source st decl =
     (let fn = fld t ''function''; custom = fld t ''custom'';
          schema = claude_schema_of (Some decl) t;
          name = claude_tool_name (js_string nt (the (first_truthy
            [fld decl ''name'', fld t ''name'', opt_fld fn ''name'', opt_fld custom ''name'',
             Some (tool_fallback_name (length (ct_declarations st)))])));
          description = (case first_truthy [fld decl ''description'', fld t ''description'',
              opt_fld fn ''description'', opt_fld custom ''description''] of
            None \<Rightarrow> [] | Some d \<Rightarrow> js_string nt d);
          (parameters, missing) = normalize_claude_schema clean schema
      in st\<lparr>ct_declarations := ct_declarations st @ [JObj [(''name'', JStr name), (''description'', JStr description),
              (''parameters'', JObj parameters)]],
            ct_missing := ct_missing st + missing,
            ct_summaries := ct_summaries st
              @ [''decl='' @ name @ '',src='' @ source @ '',hasSchema='' @ (if schema = None then ''n'' else ''y'')]\<rparr>)"

definition claude_tool_step ::
  "(num \<Rightarrow> string) \<Rightarrow> (json \<Rightarrow> json) \<Rightarrow> claude_tools \<Rightarrow> json \<Rightarrow> claude_tools" where
  "claude_tool_step nt clean st t =
     (case arr_fld t ''functionDeclarations'' of
        Some (d # ds) \<Rightarrow> foldl (push_declaration nt clean t ''functionDeclarations'') st (d # ds)
      | _ \<Rightarrow>
          if list_ex (truthy_fld t) [''function'', ''custom'', ''parameters'', ''input_schema'', ''inputSchema'']
          then push_declaration nt clean t ''function/custom'' st
                 (the (nullish_or (fld t ''function'') (nullish_or (fld t ''custom'') (Some t))))
          else st\<lparr>ct_passthrough := ct_passthrough st @ [t]\<rparr>)"

definition normalizeClaudeTools ::
  "(num \<Rightarrow> string) \<Rightarrow> (json \<Rightarrow> json) \<Rightarrow> js_object \<Rightarrow> js_object \<times> nat \<times> string list" where
  "normalizeClaudeTools nt clean payload =
     (case get_arr payload ''tools'' of
        None \<Rightarrow> (payload, 0, [])
      | Some tools \<Rightarrow>
          (let st = foldl (claude_tool_step nt clean)
             \<lparr>ct_declarations = [], ct_passthrough = [], ct_missing = 0, ct_summaries = []\<rparr> tools
           in (AList.update ''tools'' (JArr ((if ct_declarations st = [] then []
                   else [JObj [(''functionDeclarations'', JArr (ct_declarations st))]]) @ ct_passthrough st)) payload,
               ct_missing st, ct_summaries st)))"

section \<open>The whole transform\<close>

definition convertStopSequences :: "js_object \<Rightarrow> js_object" where
  "convertStopSequences generationConfig =
     (case get_arr generationConfig ''stop_sequences'' of
        None \<Rightarrow> generationConfig
      | Some xs \<Rightarrow> AList.delete ''stop_sequences'' (AList.update ''stopSequences'' (JArr xs) generationConfig))"

record ClaudeTransformOptions =
  co_model :: string
  co_tierThinkingBudget :: "num option"
  co_normalizedThinking :: "normalized_thinking option"

definition claude_thinking :: "ClaudeTransformOptions \<Rightarrow> js_object \<Rightarrow> js_object" where
  "claude_thinking cfg payload =
     (case co_normalizedThinking cfg of
        None \<Rightarrow> payload
      | Some n \<Rightarrow>
          if \<not> isClaudeThinkingModel (co_model cfg) then payload
          else
            (let thinkingBudget = (case co_tierThinkingBudget cfg of None \<Rightarrow> nt_thinkingBudget n | b \<Rightarrow> b);
                 generationConfig = (case map_of payload ''generationConfig'' of Some (JObj g) \<Rightarrow> g | _ \<Rightarrow> []);
                 thought = AList.update ''thinkingConfig''
                   (JObj (buildClaudeThinkingConfig (nullish (nt_includeThoughts n) True) thinkingBudget)) generationConfig
             in AList.update ''generationConfig''
                  (JObj (case thinkingBudget of
                     None \<Rightarrow> thought
                   | Some b \<Rightarrow> if 0 < b then ensureClaudeMaxOutputTokens b thought else thought)) payload))"

definition applyClaudeTransforms ::
  "(num \<Rightarrow> string) \<Rightarrow> (json \<Rightarrow> json) \<Rightarrow> ClaudeTransformOptions \<Rightarrow> js_object \<Rightarrow> js_object \<times> nat \<times> string list" where
  "applyClaudeTransforms nt clean cfg payload =
     (let configured = configureClaudeToolConfig payload;
          stopped = (case get_obj configured ''generationConfig'' of
             None \<Rightarrow> configured
           | Some g \<Rightarrow> AList.update ''generationConfig'' (JObj (convertStopSequences g)) configured);
          thought = claude_thinking cfg stopped;
          hinted = (case get_arr thought ''tools'' of
             Some (_ # _) \<Rightarrow> if isClaudeThinkingModel (co_model cfg)
                             then appendClaudeThinkingHint CLAUDE_INTERLEAVED_THINKING_HINT thought else thought
           | _ \<Rightarrow> thought)
      in normalizeClaudeTools nt clean hinted)"

end
