(* ===== verification/Claude_Properties.thy ===== *)
theory Claude_Properties
  imports Claude_Transform
begin

text \<open>
  The properties of the Claude transform: the declarations it sends, the output limit, the tool
  mode and the hint in the system instruction.
\<close>

section \<open>Declarations\<close>

definition claude_declaration :: "json \<Rightarrow> bool" where
  "claude_declaration d \<longleftrightarrow> (\<exists>name description ob.
     d = JObj [(''name'', JStr name), (''description'', JStr description), (''parameters'', JObj ob)]
     \<and> length name \<le> 64 \<and> list_all name_char name
     \<and> map_of ob ''type'' = Some (JStr ''object'') \<and> has_properties ob)"

lemma claude_tool_name_ok: "length (claude_tool_name n) \<le> 64 \<and> list_all name_char (claude_tool_name n)"
proof -
  define f where "f = (\<lambda>c. if name_char c then c else CHR ''_'')"
  have "name_char (f c)" for c by (simp add: f_def name_char_def)
  then have "\<forall>c \<in> set (map f n). name_char c" by simp
  then have "\<forall>c \<in> set (take 64 (map f n)). name_char c" using in_set_takeD by metis
  then show ?thesis unfolding claude_tool_name_def f_def [symmetric] by (simp add: list_all_iff)
qed

lemma claude_schema_ok:
  "map_of (fst (normalize_claude_schema clean s)) ''type'' = Some (JStr ''object'')
   \<and> has_properties (fst (normalize_claude_schema clean s))"
proof -
  have p: "map_of claude_placeholder_schema ''type'' = Some (JStr ''object'') \<and> has_properties claude_placeholder_schema"
    by (simp add: claude_placeholder_schema_def has_properties_def claude_placeholder_properties_def)
  have "has_properties (AList.update ''type'' v ob) = has_properties ob" for v ob
    by (simp add: has_properties_def update_conv)
  moreover have "has_properties (AList.update ''required'' v (AList.update ''properties'' claude_placeholder_properties ob))" for v ob
    by (simp add: has_properties_def update_conv claude_placeholder_properties_def)
  ultimately show ?thesis using p
    by (auto simp: normalize_claude_schema_def Let_def update_conv split: option.split json.split)
qed

lemma push_declaration_ok:
  "ct_passthrough (push_declaration nt clean t source st d) = ct_passthrough st
   \<and> (\<exists>e. ct_declarations (push_declaration nt clean t source st d) = ct_declarations st @ [e] \<and> claude_declaration e)"
  using claude_schema_ok [of clean "claude_schema_of (Some d) t"] claude_tool_name_ok
  by (auto simp: push_declaration_def Let_def split_beta claude_declaration_def)

lemma push_all_ok:
  "ct_passthrough (foldl (push_declaration nt clean t source) st ds) = ct_passthrough st
   \<and> (\<exists>es. ct_declarations (foldl (push_declaration nt clean t source) st ds) = ct_declarations st @ es
        \<and> list_all claude_declaration es \<and> length es = length ds)"
proof (induction ds arbitrary: st)
  case (Cons d ds)
  obtain e where e: "ct_declarations (push_declaration nt clean t source st d) = ct_declarations st @ [e]"
    "claude_declaration e" "ct_passthrough (push_declaration nt clean t source st d) = ct_passthrough st"
    using push_declaration_ok by blast
  obtain es where es: "ct_declarations (foldl (push_declaration nt clean t source) (push_declaration nt clean t source st d) ds)
      = ct_declarations (push_declaration nt clean t source st d) @ es" "list_all claude_declaration es" "length es = length ds"
    "ct_passthrough (foldl (push_declaration nt clean t source) (push_declaration nt clean t source st d) ds)
      = ct_passthrough (push_declaration nt clean t source st d)"
    using Cons [of "push_declaration nt clean t source st d"] by blast
  then show ?case using e by (intro conjI exI [of _ "e # es"]) simp_all
qed simp

text \<open>The number of declarations one tool gives; none when it is passed through.\<close>

definition claude_functions :: "json \<Rightarrow> nat" where
  "claude_functions t =
     (case arr_fld t ''functionDeclarations'' of
        Some (d # ds) \<Rightarrow> Suc (length ds)
      | _ \<Rightarrow> if list_ex (truthy_fld t) [''function'', ''custom'', ''parameters'', ''input_schema'', ''inputSchema'']
             then 1 else 0)"

lemma claude_step_ok:
  "\<exists>es. ct_declarations (claude_tool_step nt clean st t) = ct_declarations st @ es \<and> list_all claude_declaration es
     \<and> length es = claude_functions t
     \<and> ct_passthrough (claude_tool_step nt clean st t)
         = ct_passthrough st @ (if claude_functions t = 0 then [t] else [])"
proof -
  consider (decls) d ds where "arr_fld t ''functionDeclarations'' = Some (d # ds)"
    | (none) "\<forall>d ds. arr_fld t ''functionDeclarations'' \<noteq> Some (d # ds)" by blast
  then show ?thesis
  proof cases
    case decls
    then show ?thesis using push_all_ok [of nt clean t "''functionDeclarations''" st "d # ds"]
      by (simp add: claude_tool_step_def claude_functions_def)
  next
    case none
    let ?fc = "list_ex (truthy_fld t) [''function'', ''custom'', ''parameters'', ''input_schema'', ''inputSchema'']"
    let ?d = "the (nullish_or (fld t ''function'') (nullish_or (fld t ''custom'') (Some t)))"
    have "claude_tool_step nt clean st t = (if ?fc then push_declaration nt clean t ''function/custom'' st ?d
        else st\<lparr>ct_passthrough := ct_passthrough st @ [t]\<rparr>)"
      using none unfolding claude_tool_step_def by (auto split: option.split list.split)
    moreover have "claude_functions t = (if ?fc then 1 else 0)"
      using none unfolding claude_functions_def by (auto split: option.split list.split)
    ultimately show ?thesis
      using push_declaration_ok [of nt clean t "''function/custom''" st ?d] by (cases ?fc) auto
  qed
qed

lemma claude_fold_ok:
  "\<exists>es. ct_declarations (foldl (claude_tool_step nt clean) st ts) = ct_declarations st @ es
     \<and> list_all claude_declaration es \<and> length es = sum_list (map claude_functions ts)
     \<and> ct_passthrough (foldl (claude_tool_step nt clean) st ts)
         = ct_passthrough st @ filter (\<lambda>t. claude_functions t = 0) ts"
proof (induction ts arbitrary: st)
  case (Cons t ts)
  obtain es where es: "ct_declarations (claude_tool_step nt clean st t) = ct_declarations st @ es"
    "list_all claude_declaration es" "length es = claude_functions t"
    "ct_passthrough (claude_tool_step nt clean st t) = ct_passthrough st @ (if claude_functions t = 0 then [t] else [])"
    using claude_step_ok by blast
  obtain fs where fs: "ct_declarations (foldl (claude_tool_step nt clean) (claude_tool_step nt clean st t) ts)
      = ct_declarations (claude_tool_step nt clean st t) @ fs" "list_all claude_declaration fs"
    "length fs = sum_list (map claude_functions ts)"
    "ct_passthrough (foldl (claude_tool_step nt clean) (claude_tool_step nt clean st t) ts)
      = ct_passthrough (claude_tool_step nt clean st t) @ filter (\<lambda>t. claude_functions t = 0) ts"
    using Cons by blast
  show ?case using es fs by (intro exI [of _ "es @ fs"]) simp
qed simp

text \<open>
  C11. The tools of a Claude request become one \<open>functionDeclarations\<close> entry, whatever the
  schema cleaner returns: a declaration for each function in the input, with a name of at most
  64 permitted characters and an object schema that has at least one property, followed by
  exactly the tools that declare nothing.
\<close>

theorem claude_tools_declared:
  assumes "get_arr payload ''tools'' = Some tools"
    and "(result, missing, summaries) = normalizeClaudeTools nt clean payload"
  shows "\<exists>ds. get_arr result ''tools'' = Some ((if ds = [] then [] else [JObj [(''functionDeclarations'', JArr ds)]])
        @ filter (\<lambda>t. claude_functions t = 0) tools)
    \<and> list_all claude_declaration ds \<and> length ds = sum_list (map claude_functions tools)"
  using claude_fold_ok [of nt clean "\<lparr>ct_declarations = [], ct_passthrough = [], ct_missing = 0, ct_summaries = []\<rparr>" tools]
    assms by (auto simp: normalizeClaudeTools_def Let_def)

theorem claude_tools_declared_witness:
  "\<exists>d. get_arr (fst (normalizeClaudeTools (\<lambda>_. ''1'') id
       [(''tools'', JArr [JObj [(''name'', JStr ''a b''), (''parameters'', JObj [])]])])) ''tools''
     = Some [JObj [(''functionDeclarations'', JArr [d])]] \<and> claude_declaration d"
proof -
  let ?t = "JObj [(''name'', JStr ''a b''), (''parameters'', JObj [])]"
  have "claude_functions ?t = 1" by (simp add: claude_functions_def arr_fld_def truthy_fld_def truthy_def)
  then show ?thesis
    using claude_tools_declared [where payload = "[(''tools'', JArr [?t])]" and tools = "[?t]" and nt = "\<lambda>_. ''1''" and clean = id
        and result = "fst (normalizeClaudeTools (\<lambda>_. ''1'') id [(''tools'', JArr [?t])])"
        and missing = "fst (snd (normalizeClaudeTools (\<lambda>_. ''1'') id [(''tools'', JArr [?t])]))"
        and summaries = "snd (snd (normalizeClaudeTools (\<lambda>_. ''1'') id [(''tools'', JArr [?t])]))"]
    by (auto simp: get_arr_def length_Suc_conv)
qed

section \<open>Limits and the hint\<close>

text \<open>
  After \<open>ensureClaudeMaxOutputTokens\<close> the output limit is larger than a positive thinking
  budget below 64000 tokens, and at least 32000 unless the request asked for its own larger
  limit; a limit above the budget is left alone.
\<close>

lemma output_limit_above_budget:
  assumes "0 < budget" "budget < 64000"
    and "map_of g ''maxOutputTokens'' = Some (JNum m)"
    and "g' = ensureClaudeMaxOutputTokens budget g"
  shows "(if budget < m then g' = g
    else (\<exists>limit. map_of g' ''maxOutputTokens'' = Some (JNum limit) \<and> budget < limit \<and> 32000 \<le> limit \<and> limit \<le> 64000))"
  using assms
  by (auto simp: ensureClaudeMaxOutputTokens_def nullish_or_def delete_conv' update_conv
      computeClaudeMaxOutputTokens_def CLAUDE_THINKING_MAX_OUTPUT_TOKENS_def min_def max_def)

theorem output_limit_above_budget_witness:
  "\<exists>limit. map_of (ensureClaudeMaxOutputTokens 20000 [(''maxOutputTokens'', JNum 8000)]) ''maxOutputTokens'' = Some (JNum limit)
     \<and> 20000 < limit"
  using output_limit_above_budget [of 20000 "[(''maxOutputTokens'', JNum 8000)]" 8000] by auto

text \<open>A budget of 64000 tokens or more is not below the limit that is set for it.\<close>

lemma large_budget_limit:
  "map_of (ensureClaudeMaxOutputTokens 100000 []) ''maxOutputTokens'' = Some (JNum 64000)"
  by (simp add: ensureClaudeMaxOutputTokens_def nullish_or_def is_truthy_def delete_conv' update_conv
      computeClaudeMaxOutputTokens_def CLAUDE_THINKING_MAX_OUTPUT_TOKENS_def)

lemma has_hint_part: "has_hint hint (JObj [(''parts'', JArr [hint_part hint])])"
  by (simp add: has_hint_def arr_fld_def hint_part_def is_str_def)

lemma with_hint_settles:
  assumes "with_hint hint payload e = Some v"
  shows "has_hint hint v \<or> with_hint hint payload (Some v) = Some v"
proof -
  have default: "has_hint hint v \<or> Some v = e" if "(case get_arr payload ''contents'' of None \<Rightarrow> e
      | Some _ \<Rightarrow> Some (JObj [(''parts'', JArr [hint_part hint])])) = Some v"
    using that has_hint_part by (cases "get_arr payload ''contents''") auto
  show ?thesis
  proof (cases e)
    case None
    then show ?thesis using assms default by (auto simp: with_hint_def)
  next
    case (Some x)
    show ?thesis
    proof (cases x)
      case (JStr s)
      have "str_includes hint hint" by (simp add: str_includes_sublist)
      then show ?thesis using assms Some JStr
        by (auto simp: with_hint_def has_hint_def arr_fld_def hint_part_def is_str_def)
    next
      case (JObj sys)
      then have "v = JObj (AList.update ''parts''
          (JArr (case get_arr sys ''parts'' of None \<Rightarrow> [hint_part hint] | Some parts \<Rightarrow> parts @ [hint_part hint])) sys)"
        using assms Some by (simp add: with_hint_def)
      then show ?thesis
        by (cases "get_arr sys ''parts''") (simp_all add: has_hint_def arr_fld_def update_conv hint_part_def is_str_def)
    next
      case (JArr xs)
      then show ?thesis using assms Some by (auto simp: with_hint_def)
    qed (use assms Some default in \<open>auto simp: with_hint_def\<close>)
  qed
qed

text \<open>
  Appending the thinking hint is idempotent: once it is in the system instruction, appending
  it again leaves the payload as it is.
\<close>

lemma hint_idempotent:
  "appendClaudeThinkingHint hint (appendClaudeThinkingHint hint payload) = appendClaudeThinkingHint hint payload"
proof (cases "\<exists>v. map_of payload ''systemInstruction'' = Some v \<and> has_hint hint v")
  case True
  then show ?thesis by (auto simp: appendClaudeThinkingHint_def)
next
  case False
  then have e: "appendClaudeThinkingHint hint payload =
      (case with_hint hint payload (map_of payload ''systemInstruction'') of
         None \<Rightarrow> payload | Some v \<Rightarrow> AList.update ''systemInstruction'' v payload)"
    by (auto simp: appendClaudeThinkingHint_def Let_def split: option.split)
  show ?thesis
  proof (cases "with_hint hint payload (map_of payload ''systemInstruction'')")
    case None
    then show ?thesis using e by simp
  next
    case (Some v)
    have "has_hint hint v \<or> with_hint hint payload (Some v) = Some v" by (rule with_hint_settles [OF Some])
    moreover have "with_hint hint (AList.update ''systemInstruction'' v payload) w = with_hint hint payload w" for w
      unfolding with_hint_def by (simp only: get_arr_update_other [of "''contents''" "''systemInstruction''", simplified])
    ultimately show ?thesis unfolding e Some
      by (auto simp: appendClaudeThinkingHint_def update_conv Let_def)
  qed
qed

end
