(* ===== verification/File_Lock.thy ===== *)
theory File_Lock
  imports Prelude
begin

text \<open>
  \<^verbatim>\<open>core/src/file-lock.ts\<close>: the renewable fenced lock, as a machine whose steps are
  interleaved between contenders. Every call of \<open>acquireFencedFileLock\<close> is one contender, named
  by its \<open>ownerId\<close> (a fresh UUID). Its program counter holds the file operation it awaits next,
  with the arguments already computed; a step lets that operation take effect and runs the code
  up to the next \<open>await\<close>. So anything may happen at every \<open>await\<close> and nothing in between, as in
  the source; the \<open>onStep\<close> hooks are such boundaries. A small file is written in one step. A step
  may be told to fail: the operation then throws an error whose code is neither \<open>EEXIST\<close> nor
  \<open>ENOENT\<close>; those two arise from the state of the files.
\<close>

section \<open>Files and clock\<close>

type_synonym owner = string

record LockPayload =
  lp_ownerId :: owner
  lp_expiresAt :: millis

record MarkerPayload =
  mp_ownerId :: owner
  mp_pid :: num
  mp_createdAt :: millis

text \<open>
  A file by what its readers parse: \<open>None\<close> is a text that is not JSON or has not the fields.
\<close>

record lock_file =
  lf_payload :: "LockPayload option"
  lf_mtime :: millis

record lock_fs =
  f_clock :: millis
  f_alive :: "num \<Rightarrow> bool"
  f_lock :: "lock_file option"
  f_dir :: bool
  f_marker :: "MarkerPayload option option"
  f_temp :: "owner \<Rightarrow> lock_file option"

datatype errno = EEXIST | ENOENT | EOTHER

definition RENEW_MIN_INTERVAL_MS :: num where
  "RENEW_MIN_INTERVAL_MS = 1000"

definition MARKER_CLAIM_MAX_ATTEMPTS :: nat where
  "MARKER_CLAIM_MAX_ATTEMPTS = 8"

definition MARKER_TTL_MS :: millis where
  "MARKER_TTL_MS = 30000"

definition readLockPayload :: "bool \<Rightarrow> lock_fs \<Rightarrow> LockPayload option" where
  "readLockPayload fault f =
     (if fault then None else case f_lock f of None \<Rightarrow> None | Some file \<Rightarrow> lf_payload file)"

definition readMarkerPayload :: "bool \<Rightarrow> lock_fs \<Rightarrow> MarkerPayload option" where
  "readMarkerPayload fault f =
     (if fault then None else case f_marker f of None \<Rightarrow> None | Some m \<Rightarrow> m)"

definition isProcessAlive :: "lock_fs \<Rightarrow> num \<Rightarrow> bool" where
  "isProcessAlive f pid = (of_int \<lfloor>pid\<rfloor> = pid \<and> 0 < pid \<and> f_alive f pid)"

text \<open>
  An exclusive (\<open>wx\<close>) write of the lock file and of the marker, \<open>unlink\<close> of the lock, and the
  two removals of \<open>rmEvictingDir\<close>, whose errors are caught.
\<close>

definition create_lock :: "bool \<Rightarrow> LockPayload \<Rightarrow> lock_fs \<Rightarrow> errno option \<times> lock_fs" where
  "create_lock fault p f =
     (if fault then (Some EOTHER, f)
      else if f_lock f \<noteq> None then (Some EEXIST, f)
      else (None, f\<lparr>f_lock := Some \<lparr>lf_payload = Some p, lf_mtime = f_clock f\<rparr>\<rparr>))"

definition create_marker :: "bool \<Rightarrow> MarkerPayload \<Rightarrow> lock_fs \<Rightarrow> errno option \<times> lock_fs" where
  "create_marker fault m f =
     (if fault then (Some EOTHER, f)
      else if \<not> f_dir f then (Some ENOENT, f)
      else if f_marker f \<noteq> None then (Some EEXIST, f)
      else (None, f\<lparr>f_marker := Some (Some m)\<rparr>))"

definition unlink_lock :: "bool \<Rightarrow> lock_fs \<Rightarrow> errno option \<times> lock_fs" where
  "unlink_lock fault f =
     (if fault then (Some EOTHER, f)
      else if f_lock f = None then (Some ENOENT, f)
      else (None, f\<lparr>f_lock := None\<rparr>))"

definition rm_marker :: "bool \<Rightarrow> lock_fs \<Rightarrow> lock_fs" where
  "rm_marker fault f = (if fault then f else f\<lparr>f_marker := None\<rparr>)"

definition rm_evicting_dir :: "bool \<Rightarrow> lock_fs \<Rightarrow> lock_fs" where
  "rm_evicting_dir fault f = (if fault then f else f\<lparr>f_marker := None, f_dir := False\<rparr>)"

section \<open>Acquiring\<close>

text \<open>What follows a call of \<open>rmEvictingDir\<close>.\<close>

datatype after_rm = RetryAll | ReturnNull | ReturnLock | ClaimAgain nat

text \<open>
  The operation awaited. \<open>TryMkdir\<close> and \<open>TryWrite\<close> are \<open>tryAcquire\<close> with its payload; their
  flag tells the call after an eviction from the first one. The numbers count the attempts to
  claim the marker.
\<close>

datatype acquire_pc =
    TryMkdir bool millis
  | TryWrite bool millis
  | ReadLock
  | StatLock "LockPayload option"
  | MarkerMkdir nat
  | MarkerWrite nat millis
  | MarkerRead nat
  | MarkerSleep nat
  | CheckMarker
  | ConfirmStale
  | CheckMarkerAgain
  | UnlinkLock
  | RmMarker after_rm
  | RmMarkerDir after_rm
  | Granted
  | Refused
  | Threw errno

definition try_failed :: "bool \<Rightarrow> acquire_pc" where
  "try_failed reentry = (if reentry then RmMarker RetryAll else ReadLock)"

definition retry_all :: "millis \<Rightarrow> lock_fs \<Rightarrow> acquire_pc" where
  "retry_all ttl f = TryMkdir False (f_clock f + ttl)"

definition claim_attempt :: "nat \<Rightarrow> acquire_pc" where
  "claim_attempt n = (if n < MARKER_CLAIM_MAX_ATTEMPTS then MarkerMkdir n else Refused)"

definition marker_mine :: "bool \<Rightarrow> owner \<Rightarrow> lock_fs \<Rightarrow> bool" where
  "marker_mine fault me f = (case readMarkerPayload fault f of None \<Rightarrow> False | Some m \<Rightarrow> mp_ownerId m = me)"

text \<open>The decision after \<open>stat\<close>: live, malformed but young, or stale.\<close>

definition stale_decision :: "millis \<Rightarrow> LockPayload option \<Rightarrow> lock_file \<Rightarrow> lock_fs \<Rightarrow> acquire_pc" where
  "stale_decision ttl observed stats f =
     (case observed of
        Some p \<Rightarrow> if lp_expiresAt p > f_clock f then Refused else MarkerMkdir 0
      | None \<Rightarrow> if f_clock f - lf_mtime stats < ttl then Refused else MarkerMkdir 0)"

definition refreshed :: "bool \<Rightarrow> owner \<Rightarrow> lock_fs \<Rightarrow> bool" where
  "refreshed fault me f =
     (case readLockPayload fault f of
        None \<Rightarrow> False
      | Some p \<Rightarrow> lp_ownerId p \<noteq> me \<and> lp_expiresAt p > f_clock f)"

definition reclaimable :: "MarkerPayload option \<Rightarrow> lock_fs \<Rightarrow> bool" where
  "reclaimable existing f =
     (case existing of
        None \<Rightarrow> False
      | Some m \<Rightarrow> \<not> isProcessAlive f (mp_pid m) \<or> f_clock f - mp_createdAt m > MARKER_TTL_MS)"

text \<open>
  One step of \<open>acquireFencedFileLock\<close>: the next program counter, whether \<open>buildLock\<close> was
  called, and the files. \<open>Granted\<close>, \<open>Refused\<close> and \<open>Threw\<close> are its three ways to settle.
\<close>

fun acquire_act :: "owner \<Rightarrow> num \<Rightarrow> millis \<Rightarrow> bool \<Rightarrow> acquire_pc \<Rightarrow> lock_fs
    \<Rightarrow> acquire_pc \<times> bool \<times> lock_fs" where
  "acquire_act me pid ttl fault (TryMkdir re e) f =
     (if fault then Threw EOTHER else TryWrite re e, False, f)"
| "acquire_act me pid ttl fault (TryWrite re e) f =
     (case create_lock fault \<lparr>lp_ownerId = me, lp_expiresAt = e\<rparr> f of
        (None, f') \<Rightarrow> (if re then RmMarker ReturnLock else Granted, True, f')
      | (Some EEXIST, f') \<Rightarrow> (try_failed re, False, f')
      | (Some x, f') \<Rightarrow> (Threw x, False, f'))"
| "acquire_act me pid ttl fault ReadLock f = (StatLock (readLockPayload fault f), False, f)"
| "acquire_act me pid ttl fault (StatLock observed) f =
     (case (if fault then None else f_lock f) of
        None \<Rightarrow> (retry_all ttl f, False, f)
      | Some stats \<Rightarrow> (stale_decision ttl observed stats f, False, f))"
| "acquire_act me pid ttl fault (MarkerMkdir n) f =
     (if fault then (Threw EOTHER, False, f)
      else (MarkerWrite n (f_clock f), False, f\<lparr>f_dir := True\<rparr>))"
| "acquire_act me pid ttl fault (MarkerWrite n created) f =
     (case create_marker fault \<lparr>mp_ownerId = me, mp_pid = pid, mp_createdAt = created\<rparr> f of
        (None, f') \<Rightarrow> (CheckMarker, False, f')
      | (Some EEXIST, f') \<Rightarrow> (MarkerRead n, False, f')
      | (Some x, f') \<Rightarrow> (Threw x, False, f'))"
| "acquire_act me pid ttl fault (MarkerRead n) f =
     (if reclaimable (readMarkerPayload fault f) f then (RmMarker (ClaimAgain (Suc n)), False, f)
      else (MarkerSleep n, False, f))"
| "acquire_act me pid ttl fault (MarkerSleep n) f = (claim_attempt (Suc n), False, f)"
| "acquire_act me pid ttl fault CheckMarker f =
     (if marker_mine fault me f then ConfirmStale else retry_all ttl f, False, f)"
| "acquire_act me pid ttl fault ConfirmStale f =
     (if refreshed fault me f then RmMarker ReturnNull else CheckMarkerAgain, False, f)"
| "acquire_act me pid ttl fault CheckMarkerAgain f =
     (if marker_mine fault me f then UnlinkLock else retry_all ttl f, False, f)"
| "acquire_act me pid ttl fault UnlinkLock f =
     (case unlink_lock fault f of
        (Some EOTHER, f') \<Rightarrow> (RmMarker RetryAll, False, f')
      | (Some EEXIST, f') \<Rightarrow> (RmMarker RetryAll, False, f')
      | (_, f') \<Rightarrow> (TryMkdir True (f_clock f' + ttl), False, f'))"
| "acquire_act me pid ttl fault (RmMarker a) f = (RmMarkerDir a, False, rm_marker fault f)"
| "acquire_act me pid ttl fault (RmMarkerDir a) f =
     (case a of
        RetryAll \<Rightarrow> retry_all ttl f
      | ReturnNull \<Rightarrow> Refused
      | ReturnLock \<Rightarrow> Granted
      | ClaimAgain n \<Rightarrow> claim_attempt n, False, rm_evicting_dir fault f)"
| "acquire_act me pid ttl fault Granted f = (Granted, False, f)"
| "acquire_act me pid ttl fault Refused f = (Refused, False, f)"
| "acquire_act me pid ttl fault (Threw x) f = (Threw x, False, f)"

definition settled :: "acquire_pc \<Rightarrow> bool" where
  "settled pc = (case pc of Granted \<Rightarrow> True | Refused \<Rightarrow> True | Threw x \<Rightarrow> True | _ \<Rightarrow> False)"

section \<open>The lock object\<close>

datatype renew_pc =
    RenewIdle
  | RenewRead
  | RenewSeen "LockPayload option"
  | RenewTemp millis
  | RenewReread
  | RenewRename
  | RenewCommitted
  | RenewVerify
  | RenewDrop

datatype release_pc =
    NotReleased
  | AwaitRenew
  | ReleaseRead
  | ReleaseUnlink
  | ReleaseRm
  | ReleaseRmDir
  | Released
  | ReleaseThrew errno

record lock_object =
  lo_timer :: bool
  lo_released :: bool
  lo_lost :: bool
  lo_renew :: renew_pc
  lo_release :: release_pc

text \<open>\<open>buildLock\<close>: the timer is set unless \<open>renew\<close> is \<open>false\<close>.\<close>

definition buildLock :: "bool \<Rightarrow> lock_object" where
  "buildLock renew = \<lparr>lo_timer = renew, lo_released = False, lo_lost = False,
     lo_renew = RenewIdle, lo_release = NotReleased\<rparr>"

definition renewInterval :: "num option \<Rightarrow> millis \<Rightarrow> num" where
  "renewInterval renewIntervalMs ttl =
     nullish renewIntervalMs (max RENEW_MIN_INTERVAL_MS (of_int \<lfloor>ttl / 3\<rfloor>))"

definition markLost :: "lock_object \<Rightarrow> lock_object" where
  "markLost l = (if lo_lost l then l else l\<lparr>lo_lost := True, lo_timer := False\<rparr>)"

definition stopped :: "lock_object \<Rightarrow> bool" where
  "stopped l = (lo_released l \<or> lo_lost l)"

definition payload_mine :: "owner \<Rightarrow> LockPayload option \<Rightarrow> bool" where
  "payload_mine me p = (case p of None \<Rightarrow> False | Some q \<Rightarrow> lp_ownerId q = me)"

abbreviation at_renew :: "renew_pc \<Rightarrow> lock_object \<Rightarrow> lock_object" where
  "at_renew pc l \<equiv> l\<lparr>lo_renew := pc\<rparr>"

text \<open>The timer callback: one renewal at a time, none after \<open>release\<close>.\<close>

definition tick :: "lock_object \<Rightarrow> lock_object" where
  "tick l = (if lo_released l \<or> lo_renew l \<noteq> RenewIdle then l
             else if stopped l then l else at_renew RenewRead l)"

text \<open>
  One step of \<open>renew\<close>. A renewal whose payload has expired ends without marking the lock lost.
\<close>

fun renew_act :: "owner \<Rightarrow> millis \<Rightarrow> bool \<Rightarrow> renew_pc \<Rightarrow> lock_object \<Rightarrow> lock_fs
    \<Rightarrow> lock_object \<times> lock_fs" where
  "renew_act me ttl fault RenewIdle l f = (l, f)"
| "renew_act me ttl fault RenewRead l f =
     (at_renew (if stopped l then RenewIdle else RenewSeen (readLockPayload fault f)) l, f)"
| "renew_act me ttl fault (RenewSeen observed) l f =
     (if stopped l then (at_renew RenewIdle l, f)
      else case observed of
        None \<Rightarrow> (markLost (at_renew RenewIdle l), f)
      | Some p \<Rightarrow>
          if lp_ownerId p \<noteq> me then (markLost (at_renew RenewIdle l), f)
          else if lp_expiresAt p > f_clock f then (at_renew (RenewTemp (f_clock f + ttl)) l, f)
          else (at_renew RenewIdle l, f))"
| "renew_act me ttl fault (RenewTemp e) l f =
     (if fault then (markLost (at_renew RenewDrop l), f)
      else
        (at_renew (if stopped l then RenewDrop else RenewReread) l,
         f\<lparr>f_temp := (f_temp f)(me := Some
              \<lparr>lf_payload = Some \<lparr>lp_ownerId = me, lp_expiresAt = e\<rparr>, lf_mtime = f_clock f\<rparr>)\<rparr>))"
| "renew_act me ttl fault RenewReread l f =
     (if stopped l then (at_renew RenewDrop l, f)
      else if \<not> payload_mine me (readLockPayload fault f) then (markLost (at_renew RenewDrop l), f)
      else (at_renew RenewRename l, f))"
| "renew_act me ttl fault RenewRename l f =
     (case (if fault then None else f_temp f me) of
        None \<Rightarrow> (markLost (at_renew RenewIdle l), f)
      | Some t \<Rightarrow> (at_renew RenewCommitted l,
          f\<lparr>f_lock := Some t, f_temp := (f_temp f)(me := None)\<rparr>))"
| "renew_act me ttl fault RenewCommitted l f =
     (at_renew (if stopped l then RenewIdle else RenewVerify) l, f)"
| "renew_act me ttl fault RenewVerify l f =
     (if stopped l then (at_renew RenewIdle l, f)
      else if \<not> payload_mine me (readLockPayload fault f) then (markLost (at_renew RenewIdle l), f)
      else (at_renew RenewIdle l, f))"
| "renew_act me ttl fault RenewDrop l f =
     (at_renew RenewIdle l, if fault then f else f\<lparr>f_temp := (f_temp f)(me := None)\<rparr>)"

text \<open>
  Calling \<open>release\<close>, and one step of it. It awaits a renewal in flight; the \<open>finally\<close> block
  marks the lock lost however it ends.
\<close>

definition call_release :: "lock_object \<Rightarrow> lock_object" where
  "call_release l =
     (if lo_released l then l
      else l\<lparr>lo_released := True, lo_timer := False,
             lo_release := (if lo_renew l = RenewIdle then ReleaseRead else AwaitRenew)\<rparr>)"

abbreviation at_release :: "release_pc \<Rightarrow> lock_object \<Rightarrow> lock_object" where
  "at_release pc l \<equiv> l\<lparr>lo_release := pc\<rparr>"

fun release_act :: "owner \<Rightarrow> bool \<Rightarrow> release_pc \<Rightarrow> lock_object \<Rightarrow> lock_fs
    \<Rightarrow> lock_object \<times> lock_fs" where
  "release_act me fault AwaitRenew l f =
     (if lo_renew l = RenewIdle then at_release ReleaseRead l else l, f)"
| "release_act me fault ReleaseRead l f =
     (at_release (if payload_mine me (readLockPayload fault f) then ReleaseUnlink else ReleaseRm) l, f)"
| "release_act me fault ReleaseUnlink l f =
     (case unlink_lock fault f of
        (None, f') \<Rightarrow> (at_release ReleaseRm l, f')
      | (Some ENOENT, f') \<Rightarrow> (at_release ReleaseRm l, f')
      | (Some x, f') \<Rightarrow> (markLost (at_release (ReleaseThrew x) l), f'))"
| "release_act me fault ReleaseRm l f = (at_release ReleaseRmDir l, rm_marker fault f)"
| "release_act me fault ReleaseRmDir l f = (markLost (at_release Released l), rm_evicting_dir fault f)"
| "release_act me fault NotReleased l f = (l, f)"
| "release_act me fault Released l f = (l, f)"
| "release_act me fault (ReleaseThrew x) l f = (l, f)"

text \<open>\<open>assertOwned\<close>: \<open>Inl\<close> carries the details of the \<open>FileLockOwnershipError\<close>.\<close>

record FileLockOwnershipError =
  fe_expired :: bool
  fe_expectedOwner :: owner
  fe_observed :: "LockPayload option"

definition assertOwned :: "owner \<Rightarrow> bool \<Rightarrow> lock_fs \<Rightarrow> FileLockOwnershipError + unit" where
  "assertOwned me fault f =
     (case readLockPayload fault f of
        None \<Rightarrow> Inl \<lparr>fe_expired = False, fe_expectedOwner = me, fe_observed = None\<rparr>
      | Some p \<Rightarrow>
          if lp_ownerId p \<noteq> me
          then Inl \<lparr>fe_expired = False, fe_expectedOwner = me, fe_observed = Some p\<rparr>
          else if lp_expiresAt p \<le> f_clock f
          then Inl \<lparr>fe_expired = True, fe_expectedOwner = me, fe_observed = Some p\<rparr>
          else Inr ())"

text \<open>\<open>hasLost\<close>; the promise of \<open>whenLost\<close> is settled in the same states.\<close>

definition hasLost :: "lock_object \<Rightarrow> bool" where
  "hasLost l = lo_lost l"

section \<open>The machine\<close>

record contender =
  k_pid :: num
  k_ttl :: millis
  k_renew :: bool
  k_acquire :: acquire_pc
  k_lock :: "lock_object option"

record lock_world =
  w_fs :: lock_fs
  w_procs :: "owner \<Rightarrow> contender option"

text \<open>
  The events: a call of \<open>acquireFencedFileLock\<close>, a step of one, the timer, a step of a renewal,
  a call of \<open>release\<close> and a step of it, each of a living process; time passing; a process dying.
  The flag makes the operation fail. The timer may fire at any time while it is set.
\<close>

datatype lock_event =
    Call owner num millis bool
  | Acquire owner bool
  | Timer owner
  | Renew owner bool
  | CallRelease owner
  | Release owner bool
  | Pass millis
  | Crash num

definition fresh_owner :: "owner \<Rightarrow> lock_world \<Rightarrow> bool" where
  "fresh_owner me w \<longleftrightarrow> w_procs w me = None
     \<and> \<not> payload_mine me (readLockPayload False (w_fs w))
     \<and> \<not> marker_mine False me (w_fs w)"

definition put_proc :: "owner \<Rightarrow> contender \<Rightarrow> lock_world \<Rightarrow> lock_world" where
  "put_proc me k w = w\<lparr>w_procs := (w_procs w)(me \<mapsto> k)\<rparr>"

definition live_proc :: "owner \<Rightarrow> lock_world \<Rightarrow> contender option" where
  "live_proc me w =
     (case w_procs w me of
        None \<Rightarrow> None
      | Some k \<Rightarrow> if f_alive (w_fs w) (k_pid k) then Some k else None)"

text \<open>A step of the lock object of a living contender.\<close>

definition lock_act :: "owner \<Rightarrow> (contender \<Rightarrow> lock_object \<Rightarrow> lock_fs \<Rightarrow> (lock_object \<times> lock_fs) option)
    \<Rightarrow> lock_world \<Rightarrow> lock_world option" where
  "lock_act me act w =
     (case live_proc me w of
        None \<Rightarrow> None
      | Some k \<Rightarrow>
          (case k_lock k of
             None \<Rightarrow> None
           | Some l \<Rightarrow>
               (case act k l (w_fs w) of
                  None \<Rightarrow> None
                | Some (l', f') \<Rightarrow> Some (put_proc me (k\<lparr>k_lock := Some l'\<rparr>) (w\<lparr>w_fs := f'\<rparr>)))))"

fun lock_exec :: "lock_event \<Rightarrow> lock_world \<Rightarrow> lock_world option" where
  "lock_exec (Call me pid ttl renew) w =
     (if fresh_owner me w \<and> f_alive (w_fs w) pid
      then Some (put_proc me \<lparr>k_pid = pid, k_ttl = ttl, k_renew = renew,
             k_acquire = retry_all ttl (w_fs w), k_lock = None\<rparr> w)
      else None)"
| "lock_exec (Acquire me fault) w =
     (case live_proc me w of
        None \<Rightarrow> None
      | Some k \<Rightarrow>
          if settled (k_acquire k) then None
          else
            (let (pc, built, f') = acquire_act me (k_pid k) (k_ttl k) fault (k_acquire k) (w_fs w)
             in Some (put_proc me
                  (k\<lparr>k_acquire := pc,
                     k_lock := (if built then Some (buildLock (k_renew k)) else k_lock k)\<rparr>)
                  (w\<lparr>w_fs := f'\<rparr>))))"
| "lock_exec (Timer me) w =
     lock_act me (\<lambda>k l f. if lo_timer l then Some (tick l, f) else None) w"
| "lock_exec (Renew me fault) w =
     lock_act me (\<lambda>k l f. Some (renew_act me (k_ttl k) fault (lo_renew l) l f)) w"
| "lock_exec (CallRelease me) w =
     lock_act me (\<lambda>k l f. if k_acquire k = Granted then Some (call_release l, f) else None) w"
| "lock_exec (Release me fault) w =
     lock_act me (\<lambda>k l f. Some (release_act me fault (lo_release l) l f)) w"
| "lock_exec (Pass d) w =
     (if 0 \<le> d then Some (w\<lparr>w_fs := (w_fs w)\<lparr>f_clock := f_clock (w_fs w) + d\<rparr>\<rparr>) else None)"
| "lock_exec (Crash pid) w =
     Some (w\<lparr>w_fs := (w_fs w)\<lparr>f_alive := (f_alive (w_fs w))(pid := False)\<rparr>\<rparr>)"

text \<open>
  The worlds reachable from a world without contenders that satisfies \<open>start\<close>, by steps that
  \<open>allowed\<close> admits; and all reachable worlds, whatever the files hold at first.
\<close>

inductive lock_runs :: "(lock_fs \<Rightarrow> bool) \<Rightarrow> (lock_world \<Rightarrow> lock_event \<Rightarrow> lock_world \<Rightarrow> bool)
    \<Rightarrow> lock_world \<Rightarrow> bool" for start allowed where
  initial: "w_procs w = (\<lambda>me. None) \<Longrightarrow> start (w_fs w) \<Longrightarrow> lock_runs start allowed w"
| step: "lock_runs start allowed w \<Longrightarrow> lock_exec e w = Some w' \<Longrightarrow> allowed w e w' \<Longrightarrow> lock_runs start allowed w'"

abbreviation lock_reach :: "lock_world \<Rightarrow> bool" where
  "lock_reach \<equiv> lock_runs (\<lambda>f. True) (\<lambda>w e w'. True)"

fun lock_run :: "lock_event list \<Rightarrow> lock_world \<Rightarrow> lock_world option" where
  "lock_run [] w = Some w"
| "lock_run (e # es) w = (case lock_exec e w of None \<Rightarrow> None | Some w' \<Rightarrow> lock_run es w')"

lemma lock_runs_reach: "lock_runs start allowed w \<Longrightarrow> lock_reach w"
  by (induction rule: lock_runs.induct) (auto intro: lock_runs.intros)

lemma lock_run_reach: "lock_reach w \<Longrightarrow> lock_run es w = Some w' \<Longrightarrow> lock_reach w'"
  by (induction es arbitrary: w) (auto split: option.splits intro: lock_runs.step)

end
