(* ===== verification/Lock_Facts.thy ===== *)
theory Lock_Facts
  imports File_Lock
begin

text \<open>
  Invariants of the lock machine over all interleavings, crashes and failing operations: a
  frame for every step, the states of a lock object, who may own the lock file; and the runs
  of a single contender.
\<close>

section \<open>What a step changes\<close>

definition lock_owned :: "owner \<Rightarrow> lock_fs \<Rightarrow> bool" where
  "lock_owned me f = payload_mine me (readLockPayload False f)"

text \<open>A step of \<open>me\<close> writes no payload but its own and no other's draft.\<close>

definition step_frame :: "owner \<Rightarrow> lock_fs \<Rightarrow> lock_fs \<Rightarrow> bool" where
  "step_frame me f f' \<longleftrightarrow>
     (f_lock f' = f_lock f \<or> f_lock f' = None
       \<or> (\<exists>p m. f_lock f' = Some \<lparr>lf_payload = Some p, lf_mtime = m\<rparr> \<and> lp_ownerId p = me))
     \<and> (\<forall>x. x \<noteq> me \<longrightarrow> f_temp f' x = f_temp f x) \<and> f_clock f' = f_clock f \<and> f_alive f' = f_alive f"

lemma step_frame_refl [simp]: "step_frame me f f"
  by (simp add: step_frame_def)

lemma step_frame_owned: "step_frame me f f' \<Longrightarrow> x \<noteq> me \<Longrightarrow> lock_owned x f' \<Longrightarrow> lock_owned x f"
  by (auto simp: step_frame_def lock_owned_def readLockPayload_def payload_mine_def)

lemma step_frame_same: "step_frame me f f' \<Longrightarrow> \<not> lock_owned me f' \<Longrightarrow> f_lock f' = f_lock f \<or> f_lock f' = None"
  by (auto simp: step_frame_def lock_owned_def readLockPayload_def payload_mine_def)

lemmas file_ops = create_lock_def create_marker_def unlink_lock_def rm_marker_def rm_evicting_dir_def

lemma acquire_frame: "step_frame me f (snd (snd (acquire_act me pid ttl fault pc f)))"
  by (cases pc) (simp_all add: step_frame_def file_ops split: option.split)

lemma acquire_built:
  "fst (snd (acquire_act me pid ttl fault pc f)) \<longleftrightarrow>
     (\<exists>re e. pc = TryWrite re e) \<and> \<not> fault \<and> f_lock f = None"
  by (cases pc) (simp_all add: file_ops split: option.split)

lemma acquire_lock:
  "f_lock (snd (snd (acquire_act me pid ttl fault pc f))) =
     (case pc of
        TryWrite re e \<Rightarrow>
          if fault \<or> f_lock f \<noteq> None then f_lock f
          else Some \<lparr>lf_payload = Some \<lparr>lp_ownerId = me, lp_expiresAt = e\<rparr>, lf_mtime = f_clock f\<rparr>
      | UnlinkLock \<Rightarrow> if fault then f_lock f else None
      | _ \<Rightarrow> f_lock f)"
  by (cases pc) (simp_all add: file_ops split: option.split)

lemma acquire_temp [simp]: "f_temp (snd (snd (acquire_act me pid ttl fault pc f))) = f_temp f"
  by (cases pc) (simp_all add: file_ops split: option.split)

lemma release_frame: "step_frame me f (snd (release_act me fault pc l f))"
  by (cases pc) (simp_all add: step_frame_def file_ops)

lemma release_temp [simp]: "f_temp (snd (release_act me fault pc l f)) = f_temp f"
  by (cases pc) (simp_all add: file_ops)

section \<open>Lock objects\<close>

definition own_draft :: "owner \<Rightarrow> lock_fs \<Rightarrow> bool" where
  "own_draft me f \<longleftrightarrow>
     (\<exists>p m. f_temp f me = Some \<lparr>lf_payload = Some p, lf_mtime = m\<rparr> \<and> lp_ownerId p = me)"

text \<open>
  A renewal runs only before the release reads the file, a lost lock renews no more, and what
  a renewal is about to rename is its own draft.
\<close>

definition object_ok :: "owner \<Rightarrow> lock_fs \<Rightarrow> lock_object \<Rightarrow> bool" where
  "object_ok me f l \<longleftrightarrow>
     (lo_released l \<longleftrightarrow> lo_release l \<noteq> NotReleased)
     \<and> (lo_renew l \<noteq> RenewIdle \<longrightarrow> lo_release l = NotReleased \<or> lo_release l = AwaitRenew)
     \<and> (lo_lost l \<longrightarrow> lo_renew l = RenewIdle \<or> lo_renew l = RenewDrop)
     \<and> (lo_renew l = RenewReread \<or> lo_renew l = RenewRename \<longrightarrow> own_draft me f)"

lemma object_ok_frame:
  "object_ok x f l \<Longrightarrow> f_temp f' x = f_temp f x \<Longrightarrow> object_ok x f' l"
  by (simp add: object_ok_def own_draft_def)

lemma markLost_fields [simp]:
  "lo_released (markLost l) = lo_released l" "lo_renew (markLost l) = lo_renew l"
  "lo_release (markLost l) = lo_release l" "lo_lost (markLost l)"
  by (simp_all add: markLost_def)

lemma buildLock_ok: "object_ok me f (buildLock renew)"
  by (simp add: object_ok_def buildLock_def)

lemma tick_ok: "object_ok me f l \<Longrightarrow> object_ok me f (tick l)"
  by (auto simp: object_ok_def tick_def stopped_def)

lemma call_release_ok: "object_ok me f l \<Longrightarrow> object_ok me f (call_release l)"
  by (auto simp: object_ok_def call_release_def)

lemma renew_frame:
  "object_ok me f l \<Longrightarrow> step_frame me f (snd (renew_act me ttl fault (lo_renew l) l f))"
  by (cases "lo_renew l") (auto simp: step_frame_def object_ok_def own_draft_def split: option.split)

lemma renew_ok:
  assumes "object_ok me f l"
  shows "object_ok me (snd (renew_act me ttl fault (lo_renew l) l f)) (fst (renew_act me ttl fault (lo_renew l) l f))"
  using assms
  by (cases "lo_renew l") (auto simp: object_ok_def own_draft_def stopped_def split: option.split)

lemma release_ok:
  assumes "object_ok me f l"
  shows "object_ok me (snd (release_act me fault (lo_release l) l f)) (fst (release_act me fault (lo_release l) l f))"
  using assms
  by (cases "lo_release l") (auto simp: object_ok_def own_draft_def file_ops)

section \<open>The machine\<close>

text \<open>The cases of a step: a contender starts, acquires or uses its lock, or the world moves.\<close>

lemma lock_act_Some:
  "lock_act me act w = Some w' \<longleftrightarrow>
     (\<exists>k l l' f'. w_procs w me = Some k \<and> f_alive (w_fs w) (k_pid k) \<and> k_lock k = Some l
        \<and> act k l (w_fs w) = Some (l', f') \<and> w' = put_proc me (k\<lparr>k_lock := Some l'\<rparr>) (w\<lparr>w_fs := f'\<rparr>))"
  by (auto simp: lock_act_def live_proc_def split: option.splits if_splits)

definition proc_ok :: "owner \<Rightarrow> lock_fs \<Rightarrow> contender \<Rightarrow> bool" where
  "proc_ok me f k \<longleftrightarrow>
     (case k_lock k of None \<Rightarrow> k_acquire k \<noteq> Granted \<and> k_acquire k \<noteq> RmMarker ReturnLock \<and> k_acquire k \<noteq> RmMarkerDir ReturnLock
      | Some l \<Rightarrow> object_ok me f l
          \<and> (k_acquire k = Granted \<or> k_acquire k = RmMarker ReturnLock \<or> k_acquire k = RmMarkerDir ReturnLock))"

definition world_ok :: "lock_world \<Rightarrow> bool" where
  "world_ok w \<longleftrightarrow> (\<forall>me k. w_procs w me = Some k \<longrightarrow> proc_ok me (w_fs w) k)"

lemma proc_ok_frame: "proc_ok x f k \<Longrightarrow> f_temp f' x = f_temp f x \<Longrightarrow> proc_ok x f' k"
  by (auto simp: proc_ok_def split: option.splits intro: object_ok_frame)

lemma world_okD: "world_ok w \<Longrightarrow> w_procs w me = Some k \<Longrightarrow> proc_ok me (w_fs w) k"
  by (simp add: world_ok_def)

lemma world_ok_object: "world_ok w \<Longrightarrow> w_procs w me = Some k \<Longrightarrow> k_lock k = Some l \<Longrightarrow> object_ok me (w_fs w) l"
  using world_okD [of w me k] by (simp add: proc_ok_def)

text \<open>A step of the contender \<open>me\<close>: everything but the frame and its own record is kept.\<close>

lemma world_ok_put:
  assumes "world_ok w" "step_frame me (w_fs w) f'" "proc_ok me f' k"
  shows "world_ok (put_proc me k (w\<lparr>w_fs := f'\<rparr>))"
  unfolding world_ok_def
proof (intro allI impI)
  fix x kx assume "w_procs (put_proc me k (w\<lparr>w_fs := f'\<rparr>)) x = Some kx"
  then show "proc_ok x (w_fs (put_proc me k (w\<lparr>w_fs := f'\<rparr>))) kx"
    using assms proc_ok_frame [OF world_okD [OF assms(1)], of x kx f']
    by (auto simp: put_proc_def step_frame_def split: if_splits)
qed

lemma world_ok_moved: "world_ok w \<Longrightarrow> f_temp f' = f_temp (w_fs w) \<Longrightarrow> world_ok (w\<lparr>w_fs := f'\<rparr>)"
  unfolding world_ok_def using proc_ok_frame by fastforce

lemma proc_ok_object:
  assumes "proc_ok me f k" "k_lock k = Some l" "object_ok me f' l'"
  shows "proc_ok me f' (k\<lparr>k_lock := Some l'\<rparr>)"
  using assms by (simp add: proc_ok_def)

lemma lock_act_ok:
  assumes ok: "world_ok w" and step: "lock_act me act w = Some w'"
    and "\<And>k l l' f'. act k l (w_fs w) = Some (l', f') \<Longrightarrow> object_ok me (w_fs w) l
          \<Longrightarrow> step_frame me (w_fs w) f' \<and> object_ok me f' l'"
  shows "world_ok w'"
proof -
  obtain k l l' f' where s: "w_procs w me = Some k" "k_lock k = Some l" "act k l (w_fs w) = Some (l', f')"
      "w' = put_proc me (k\<lparr>k_lock := Some l'\<rparr>) (w\<lparr>w_fs := f'\<rparr>)"
    using step by (auto simp: lock_act_Some)
  from assms(3) [OF s(3) world_ok_object [OF ok s(1,2)]] show ?thesis
    unfolding s(4) by (intro world_ok_put [OF ok] proc_ok_object [OF world_okD [OF ok s(1)] s(2)]) simp_all
qed

lemma acquire_next:
  assumes "proc_ok me f k" "\<not> settled (k_acquire k)"
    and "acquire_act me pid ttl fault (k_acquire k) f = (pc, built, f')"
  shows "proc_ok me f' (k\<lparr>k_acquire := pc, k_lock := (if built then Some (buildLock r) else k_lock k)\<rparr>)"
proof -
  have "f_temp f' = f_temp f" using acquire_temp [of me pid ttl fault "k_acquire k" f] assms(3) by simp
  then have "object_ok me f' l \<longleftrightarrow> object_ok me f l" for l
    by (simp add: object_ok_def own_draft_def)
  then show ?thesis using assms
    by (cases "k_acquire k")
      (auto simp: proc_ok_def file_ops buildLock_ok settled_def try_failed_def retry_all_def
         stale_decision_def claim_attempt_def split: option.splits if_splits after_rm.splits)
qed

lemma world_ok_step:
  assumes ok: "world_ok w" and step: "lock_exec e w = Some w'"
  shows "world_ok w'"
proof (cases e)
  case (Call me pid ttl renew)
  then show ?thesis using step world_ok_put [OF ok, of me "w_fs w"]
    by (auto simp: proc_ok_def retry_all_def split: if_splits)
next
  case (Acquire me fault)
  then obtain k where k: "w_procs w me = Some k" "\<not> settled (k_acquire k)"
    using step by (auto simp: live_proc_def split: option.splits if_splits)
  obtain pc built f' where a: "acquire_act me (k_pid k) (k_ttl k) fault (k_acquire k) (w_fs w) = (pc, built, f')"
    by (metis prod_cases3)
  have "step_frame me (w_fs w) f'" using acquire_frame [of me "w_fs w" "k_pid k" "k_ttl k" fault "k_acquire k"] a by simp
  then show ?thesis
    using step Acquire k a world_ok_put [OF ok _ acquire_next [OF world_okD [OF ok k(1)] k(2) a]]
    by (auto simp: live_proc_def split: if_splits)
next
  case (Timer me)
  then show ?thesis using step
    by (auto intro!: lock_act_ok [OF ok] tick_ok split: if_splits)
next
  case (Renew me fault)
  then show ?thesis using step renew_frame renew_ok
    by (auto intro!: lock_act_ok [OF ok]) (metis fst_conv snd_conv)+
next
  case (CallRelease me)
  then show ?thesis using step
    by (auto intro!: lock_act_ok [OF ok] call_release_ok split: if_splits)
next
  case (Release me fault)
  then show ?thesis using step release_frame release_ok
    by (auto intro!: lock_act_ok [OF ok]) (metis fst_conv snd_conv)+
next
  case (Pass d)
  then show ?thesis using step world_ok_moved [OF ok] by (auto split: if_splits)
next
  case (Crash pid)
  then show ?thesis using step world_ok_moved [OF ok] by auto
qed

lemma reach_world_ok: "lock_runs start allowed w \<Longrightarrow> world_ok w"
proof (induction rule: lock_runs.induct)
  case (initial w)
  then show ?case by (simp add: world_ok_def)
next
  case (step w e w')
  then show ?case by (auto intro: world_ok_step)
qed

section \<open>Who may own the file\<close>

text \<open>
  A contender owns the lock file only through a lock object whose release has not come past
  the removal of the file.
\<close>

definition may_own :: "contender \<Rightarrow> bool" where
  "may_own k = (case k_lock k of None \<Rightarrow> False
     | Some l \<Rightarrow> lo_release l \<notin> {ReleaseRm, ReleaseRmDir, Released})"

definition owners_ok :: "lock_world \<Rightarrow> bool" where
  "owners_ok w \<longleftrightarrow> (\<forall>me k. w_procs w me = Some k \<longrightarrow> lock_owned me (w_fs w) \<longrightarrow> may_own k)"

lemma owners_okD: "owners_ok w \<Longrightarrow> w_procs w me = Some k \<Longrightarrow> lock_owned me (w_fs w) \<Longrightarrow> may_own k"
  by (simp add: owners_ok_def)

lemma owners_ok_put:
  assumes "owners_ok w" "step_frame me (w_fs w) f'" "lock_owned me f' \<Longrightarrow> may_own k"
  shows "owners_ok (put_proc me k (w\<lparr>w_fs := f'\<rparr>))"
  using assms step_frame_owned [OF assms(2)]
  by (auto simp: owners_ok_def put_proc_def)

lemma lock_owned_cong: "f_lock f = f_lock f' \<Longrightarrow> lock_owned me f = lock_owned me f'"
  by (simp add: lock_owned_def readLockPayload_def)

lemma lock_owned_None [simp]: "f_lock f = None \<Longrightarrow> \<not> lock_owned me f"
  by (simp add: lock_owned_def readLockPayload_def payload_mine_def)

lemma acquire_unbuilt:
  "\<not> fst (snd (acquire_act me pid ttl fault pc f)) \<Longrightarrow>
     f_lock (snd (snd (acquire_act me pid ttl fault pc f))) = f_lock f
     \<or> f_lock (snd (snd (acquire_act me pid ttl fault pc f))) = None"
  unfolding acquire_built acquire_lock by (cases pc) auto

lemma acquire_owned:
  assumes "acquire_act me pid ttl fault pc f = (pc', built, f')" "lock_owned me f'" "\<not> built"
  shows "lock_owned me f"
proof -
  have "f_lock f' = f_lock f \<or> f_lock f' = None"
    using acquire_unbuilt [of me pid ttl fault pc f] assms(1,3) by simp
  then show ?thesis using assms(2) lock_owned_None [of f' me] lock_owned_cong [of f' f me] by auto
qed

text \<open>A renewal keeps the release; a release step that ends past the removal lost the file.\<close>

lemma renew_release [simp]: "lo_release (fst (renew_act me ttl fault pc l f)) = lo_release l"
  by (cases pc) (simp_all split: option.split)

lemma renew_owned:
  assumes "object_ok me f l" "lock_owned me (snd (renew_act me ttl fault (lo_renew l) l f))"
  shows "lock_owned me f \<or> lo_renew l \<noteq> RenewIdle"
  using assms by (cases "lo_renew l") auto

lemma renew_keeps_owner:
  assumes "object_ok me f l" "Some (renew_act me ttl fault (lo_renew l) l f) = Some (l', f')"
  shows "step_frame me f f'
    \<and> (lock_owned me f' \<longrightarrow> (lock_owned me f \<longrightarrow> lo_release l \<notin> {ReleaseRm, ReleaseRmDir, Released})
       \<longrightarrow> lo_release l' \<notin> {ReleaseRm, ReleaseRmDir, Released})"
proof (intro conjI impI)
  have f': "f' = snd (renew_act me ttl fault (lo_renew l) l f)"
    and l': "l' = fst (renew_act me ttl fault (lo_renew l) l f)" using assms(2) by simp_all
  show "step_frame me f f'" unfolding f' by (rule renew_frame [OF assms(1)])
  assume o: "lock_owned me f'" and k: "lock_owned me f \<longrightarrow> lo_release l \<notin> {ReleaseRm, ReleaseRmDir, Released}"
  have "lock_owned me f \<or> lo_renew l \<noteq> RenewIdle"
    using o unfolding f' by (rule renew_owned [OF assms(1)])
  then show "lo_release l' \<notin> {ReleaseRm, ReleaseRmDir, Released}"
    unfolding l' renew_release
  proof
    assume "lo_renew l \<noteq> RenewIdle"
    then have "lo_release l = NotReleased \<or> lo_release l = AwaitRenew" using assms(1) by (simp add: object_ok_def)
    then show "lo_release l \<notin> {ReleaseRm, ReleaseRmDir, Released}" by auto
  qed (use k in blast)
qed

lemma release_owned:
  assumes "lock_owned me f'" "release_act me False (lo_release l) l f = (l', f')"
    and "lock_owned me f \<Longrightarrow> lo_release l \<notin> {ReleaseRm, ReleaseRmDir, Released}"
  shows "lo_release l' \<notin> {ReleaseRm, ReleaseRmDir, Released}"
  using assms
  by (cases "lo_release l")
    (auto simp: file_ops lock_owned_def readLockPayload_def payload_mine_def split: if_splits)

lemma tick_release [simp]: "lo_release (tick l) = lo_release l"
  by (simp add: tick_def)

lemma call_release_before [simp]:
  "lo_release (call_release l) = (if lo_released l then lo_release l
     else if lo_renew l = RenewIdle then ReleaseRead else AwaitRenew)"
  by (simp add: call_release_def)

text \<open>No step of \<open>release\<close> meets an unexpected error.\<close>

definition clean_release :: "lock_world \<Rightarrow> lock_event \<Rightarrow> lock_world \<Rightarrow> bool" where
  "clean_release w e w' = (case e of Release me fault \<Rightarrow> \<not> fault | _ \<Rightarrow> True)"

lemma owners_lock_act:
  assumes ok: "world_ok w" "owners_ok w" and step: "lock_act me act w = Some w'"
    and "\<And>k l l' f'. act k l (w_fs w) = Some (l', f') \<Longrightarrow> object_ok me (w_fs w) l
          \<Longrightarrow> step_frame me (w_fs w) f'
            \<and> (lock_owned me f' \<longrightarrow> (lock_owned me (w_fs w) \<longrightarrow> lo_release l \<notin> {ReleaseRm, ReleaseRmDir, Released})
                 \<longrightarrow> lo_release l' \<notin> {ReleaseRm, ReleaseRmDir, Released})"
  shows "owners_ok w'"
proof -
  obtain k l l' f' where s: "w_procs w me = Some k" "k_lock k = Some l" "act k l (w_fs w) = Some (l', f')"
      "w' = put_proc me (k\<lparr>k_lock := Some l'\<rparr>) (w\<lparr>w_fs := f'\<rparr>)"
    using step by (auto simp: lock_act_Some)
  have "lock_owned me (w_fs w) \<Longrightarrow> lo_release l \<notin> {ReleaseRm, ReleaseRmDir, Released}"
    using owners_okD [OF ok(2) s(1)] s(2) by (simp add: may_own_def)
  with assms(4) [OF s(3) world_ok_object [OF ok(1) s(1,2)]] show ?thesis
    unfolding s(4) by (intro owners_ok_put [OF ok(2)]) (auto simp: may_own_def)
qed

lemma owners_ok_step:
  assumes ok: "world_ok w" "owners_ok w" and step: "lock_exec e w = Some w'" and clean: "clean_release w e w'"
  shows "owners_ok w'"
proof (cases e)
  case (Call me pid ttl renew)
  then show ?thesis using step owners_ok_put [OF ok(2), of me "w_fs w"]
    by (auto simp: fresh_owner_def lock_owned_def split: if_splits)
next
  case (Acquire me fault)
  then obtain k where k: "w_procs w me = Some k" "\<not> settled (k_acquire k)"
    using step by (auto simp: live_proc_def split: option.splits if_splits)
  obtain pc built f' where a: "acquire_act me (k_pid k) (k_ttl k) fault (k_acquire k) (w_fs w) = (pc, built, f')"
    by (metis prod_cases3)
  let ?k = "k\<lparr>k_acquire := pc, k_lock := (if built then Some (buildLock (k_renew k)) else k_lock k)\<rparr>"
  have "step_frame me (w_fs w) f'" using acquire_frame [of me "w_fs w" "k_pid k" "k_ttl k" fault "k_acquire k"] a by simp
  moreover have "may_own ?k" if "lock_owned me f'"
    using acquire_owned [OF a that] owners_okD [OF ok(2) k(1)]
    by (auto simp: may_own_def buildLock_def)
  ultimately show ?thesis
    using step Acquire k a owners_ok_put [OF ok(2), of me f' ?k]
    by (auto simp: live_proc_def split: if_splits)
next
  case (Timer me)
  then show ?thesis using step by (auto intro!: owners_lock_act [OF ok] split: if_splits)
next
  case (Renew me fault)
  let ?act = "\<lambda>k l f. Some (renew_act me (k_ttl k) fault (lo_renew l) l f)"
  have H: "step_frame me (w_fs w) f'
      \<and> (lock_owned me f' \<longrightarrow> (lock_owned me (w_fs w) \<longrightarrow> lo_release l \<notin> {ReleaseRm, ReleaseRmDir, Released})
         \<longrightarrow> lo_release l' \<notin> {ReleaseRm, ReleaseRmDir, Released})"
    if "?act k l (w_fs w) = Some (l', f')" "object_ok me (w_fs w) l" for k l l' f'
    using renew_keeps_owner [OF that(2)] that(1) by blast
  have "lock_act me ?act w = Some w'" using step Renew by simp
  then show ?thesis by (rule owners_lock_act [OF ok]) (rule H)
next
  case (CallRelease me)
  then show ?thesis using step by (auto intro!: owners_lock_act [OF ok] split: if_splits)
next
  case (Release me fault)
  then have fault: "\<not> fault" using clean by (simp add: clean_release_def)
  let ?act = "\<lambda>k l f. Some (release_act me False (lo_release l) l f)"
  have H: "step_frame me (w_fs w) f'
      \<and> (lock_owned me f' \<longrightarrow> (lock_owned me (w_fs w) \<longrightarrow> lo_release l \<notin> {ReleaseRm, ReleaseRmDir, Released})
         \<longrightarrow> lo_release l' \<notin> {ReleaseRm, ReleaseRmDir, Released})"
    if "?act k l (w_fs w) = Some (l', f')" for k :: contender and l l' f'
    using release_frame [of me "w_fs w" False "lo_release l" l] release_owned [of me f' l "w_fs w" l'] that
    by auto
  have "lock_act me ?act w = Some w'" using step Release fault by simp
  then show ?thesis by (rule owners_lock_act [OF ok]) (rule H)
next
  case (Pass d)
  then show ?thesis using step ok(2) by (auto simp: owners_ok_def lock_owned_def readLockPayload_def split: if_splits)
next
  case (Crash pid)
  then show ?thesis using step ok(2) by (auto simp: owners_ok_def lock_owned_def readLockPayload_def)
qed

lemma clean_owners_ok: "lock_runs start clean_release w \<Longrightarrow> owners_ok w"
proof (induction rule: lock_runs.induct)
  case (initial w)
  then show ?case by (simp add: owners_ok_def)
next
  case (step w e w')
  then show ?case by (auto intro: owners_ok_step [OF reach_world_ok])
qed

section \<open>A lost lock\<close>

lemma renew_lost:
  assumes "object_ok me f l" "lo_lost l"
  shows "lo_lost (fst (renew_act me ttl fault (lo_renew l) l f)) \<and> f_lock (snd (renew_act me ttl fault (lo_renew l) l f)) = f_lock f"
  using assms by (cases "lo_renew l") (simp_all add: object_ok_def)

lemma release_lost: "lo_lost l \<Longrightarrow> lo_lost (fst (release_act me fault pc l f))"
  by (cases pc) (simp_all add: file_ops)

lemma release_lock: "f_lock (snd (release_act me fault pc l f)) = f_lock f \<or> f_lock (snd (release_act me fault pc l f)) = None"
  by (cases pc) (simp_all add: file_ops)

section \<open>Timely runs\<close>

text \<open>The lock file, if any, holds a payload that has not expired.\<close>

definition lock_live :: "lock_fs \<Rightarrow> bool" where
  "lock_live f = (case f_lock f of None \<Rightarrow> True
     | Some file \<Rightarrow> (case lf_payload file of None \<Rightarrow> False | Some p \<Rightarrow> f_clock f < lp_expiresAt p))"

definition at_stat :: "contender \<Rightarrow> bool" where
  "at_stat k = (case k_acquire k of StatLock x \<Rightarrow> True | _ \<Rightarrow> False)"

text \<open>
  All contenders use one \<open>ttlMs\<close>; the lock never stands expired; and no time passes between a
  contender's read of the lock and its decision.
\<close>

definition timely :: "millis \<Rightarrow> lock_world \<Rightarrow> lock_event \<Rightarrow> lock_world \<Rightarrow> bool" where
  "timely ttl w e w' \<longleftrightarrow> lock_live (w_fs w')
     \<and> (case e of
          Call me pid t renew \<Rightarrow> t = ttl
        | Pass d \<Rightarrow> \<forall>me k. live_proc me w = Some k \<longrightarrow> \<not> at_stat k
        | _ \<Rightarrow> True)"

text \<open>
  What a contender's program counter knows in a timely run: it never decides that the lock is
  stale, and its pending payloads end within one \<open>ttlMs\<close>.
\<close>

fun calm_pc :: "millis \<Rightarrow> bool \<Rightarrow> lock_fs \<Rightarrow> acquire_pc \<Rightarrow> bool" where
  "calm_pc ttl alive f (TryMkdir re e) = (\<not> re \<and> e \<le> f_clock f + ttl)"
| "calm_pc ttl alive f (TryWrite re e) = (\<not> re \<and> e \<le> f_clock f + ttl)"
| "calm_pc ttl alive f ReadLock = True"
| "calm_pc ttl alive f (StatLock obs) = (alive \<longrightarrow> (\<forall>p. obs = Some p \<longrightarrow> f_clock f < lp_expiresAt p))"
| "calm_pc ttl alive f Granted = True"
| "calm_pc ttl alive f Refused = True"
| "calm_pc ttl alive f (Threw x) = True"
| "calm_pc ttl alive f pc = False"

definition ends_within :: "millis \<Rightarrow> lock_file \<Rightarrow> bool" where
  "ends_within ttl file \<longleftrightarrow> (\<forall>p. lf_payload file = Some p \<longrightarrow> lp_expiresAt p \<le> lf_mtime file + ttl)"

definition calm_object :: "millis \<Rightarrow> owner \<Rightarrow> lock_fs \<Rightarrow> lock_object \<Rightarrow> bool" where
  "calm_object ttl me f l \<longleftrightarrow>
     (lo_release l \<in> {NotReleased, AwaitRenew, ReleaseRead, ReleaseUnlink} \<longrightarrow> lock_owned me f)
     \<and> (\<forall>e. lo_renew l = RenewTemp e \<longrightarrow> e \<le> f_clock f + ttl)
     \<and> (lo_renew l = RenewReread \<or> lo_renew l = RenewRename \<longrightarrow> (\<forall>t. f_temp f me = Some t \<longrightarrow> ends_within ttl t))"

definition calm_proc :: "millis \<Rightarrow> owner \<Rightarrow> lock_fs \<Rightarrow> contender \<Rightarrow> bool" where
  "calm_proc ttl me f k \<longleftrightarrow> k_ttl k = ttl \<and> calm_pc ttl (f_alive f (k_pid k)) f (k_acquire k)
     \<and> (\<forall>l. k_lock k = Some l \<longrightarrow> calm_object ttl me f l)"

definition calm_world :: "millis \<Rightarrow> lock_world \<Rightarrow> bool" where
  "calm_world ttl w \<longleftrightarrow> lock_live (w_fs w)
     \<and> (\<forall>file. f_lock (w_fs w) = Some file \<longrightarrow> ends_within ttl file)
     \<and> (\<forall>me k. w_procs w me = Some k \<longrightarrow> calm_proc ttl me (w_fs w) k)"

lemma owned_live: "lock_owned me f \<Longrightarrow> lock_live f \<Longrightarrow> assertOwned me False f = Inr ()"
  by (cases "f_lock f")
    (auto simp: assertOwned_def lock_owned_def lock_live_def payload_mine_def readLockPayload_def
      split: option.split_asm)

text \<open>A step takes the file from nobody but its own contender.\<close>

definition calm_frame :: "millis \<Rightarrow> owner \<Rightarrow> lock_fs \<Rightarrow> lock_fs \<Rightarrow> bool" where
  "calm_frame ttl me f f' \<longleftrightarrow> step_frame me f f'
     \<and> (f_lock f' = f_lock f \<or> f_lock f = None \<or> lock_owned me f)
     \<and> (\<forall>file. f_lock f' = Some file \<longrightarrow> ends_within ttl file)"

lemma lock_owned_unique: "lock_owned me f \<Longrightarrow> lock_owned x f \<Longrightarrow> x = me"
  by (auto simp: lock_owned_def payload_mine_def split: option.splits)

lemma calm_frame_owned: "calm_frame ttl me f f' \<Longrightarrow> x \<noteq> me \<Longrightarrow> lock_owned x f \<Longrightarrow> lock_owned x f'"
  using lock_owned_unique [of me f x] lock_owned_cong [of f' f x]
  by (auto simp: calm_frame_def)

lemma calm_pc_clock: "f_clock f' = f_clock f \<Longrightarrow> calm_pc ttl alive f' pc = calm_pc ttl alive f pc"
  by (cases pc) simp_all

lemma calm_proc_frame:
  assumes "calm_proc ttl x f k" "calm_frame ttl me f f'" "x \<noteq> me"
  shows "calm_proc ttl x f' k"
proof -
  have s: "f_clock f' = f_clock f" "f_alive f' = f_alive f" "f_temp f' x = f_temp f x"
    using assms(2,3) by (simp_all add: calm_frame_def step_frame_def)
  have "calm_object ttl x f l \<Longrightarrow> calm_object ttl x f' l" for l
    using calm_frame_owned [OF assms(2,3)] by (simp add: calm_object_def s)
  then show ?thesis using assms(1) calm_pc_clock [OF s(1)] by (simp add: calm_proc_def s)
qed

lemma calm_put:
  assumes "calm_world ttl w" "calm_frame ttl me (w_fs w) f'" "calm_proc ttl me f' k" "lock_live f'"
  shows "calm_world ttl (put_proc me k (w\<lparr>w_fs := f'\<rparr>))"
proof -
  have "calm_proc ttl x f' kx" if "w_procs w x = Some kx" "x \<noteq> me" for x kx
    using assms(1) that by (intro calm_proc_frame [OF _ assms(2)]) (simp_all add: calm_world_def)
  then show ?thesis using assms(2-4)
    by (auto simp: calm_world_def put_proc_def calm_frame_def)
qed

lemma calm_acquire:
  assumes pc: "calm_pc ttl True f pc" "\<not> settled pc" and live: "lock_live f"
    and within: "\<And>file. f_lock f = Some file \<Longrightarrow> ends_within ttl file"
    and act: "acquire_act me pid ttl fault pc f = (pc', built, f')"
  shows "calm_frame ttl me f f' \<and> calm_pc ttl True f' pc' \<and> (built \<longrightarrow> lock_owned me f')"
proof -
  have frame: "step_frame me f f'" using acquire_frame [of me f pid ttl fault pc] act by simp
  show ?thesis
  proof (cases pc)
    case (TryMkdir re e)
    then show ?thesis using assms frame by (auto simp: calm_frame_def)
  next
    case (TryWrite re e)
    then show ?thesis using assms frame
      by (auto simp: calm_frame_def create_lock_def try_failed_def ends_within_def lock_owned_def
          readLockPayload_def payload_mine_def split: if_splits)
  next
    case ReadLock
    then show ?thesis using assms frame
      by (auto simp: calm_frame_def readLockPayload_def lock_live_def split: if_splits option.splits)
  next
    case (StatLock obs)
    have young: "f_clock f - lf_mtime fl < ttl" if "f_lock f = Some fl" for fl
      using within [OF that] live that by (auto simp: lock_live_def ends_within_def split: option.splits)
    show ?thesis using assms frame StatLock young
      by (auto simp: calm_frame_def stale_decision_def retry_all_def split: if_splits option.splits)
  qed (use pc in \<open>auto simp: settled_def\<close>)
qed

lemma calm_renew:
  assumes ok: "object_ok me f l" and calm: "calm_object ttl me f l"
    and within: "\<And>file. f_lock f = Some file \<Longrightarrow> ends_within ttl file"
    and act: "renew_act me ttl fault (lo_renew l) l f = (l', f')"
  shows "calm_frame ttl me f f' \<and> calm_object ttl me f' l'"
proof -
  have frame: "step_frame me f f'" using renew_frame [OF ok, of ttl fault] act by simp
  have rel: "lo_release l' = lo_release l" using renew_release [of me ttl fault "lo_renew l" l f] act by simp
  show ?thesis
  proof (cases "lo_renew l = RenewRename")
    case True
    then have own: "lock_owned me f" and draft: "own_draft me f" "\<And>t. f_temp f me = Some t \<Longrightarrow> ends_within ttl t"
      using ok calm by (auto simp: object_ok_def calm_object_def)
    show ?thesis
    proof (cases "fault \<or> f_temp f me = None")
      case True
      then have "(if fault then None else f_temp f me) = None" by auto
      then have "f' = f" "lo_renew l' = RenewIdle" using act \<open>lo_renew l = RenewRename\<close>
        by (simp_all only: renew_act.simps option.case) auto
      then show ?thesis using within rel calm by (simp add: calm_frame_def calm_object_def)
    next
      case False
      with draft obtain p m where t: "f_temp f me = Some \<lparr>lf_payload = Some p, lf_mtime = m\<rparr>" "lp_ownerId p = me"
        by (auto simp: own_draft_def)
      then have f': "f_lock f' = f_temp f me" "lo_renew l' = RenewCommitted"
        using act \<open>lo_renew l = RenewRename\<close> False by auto
      then have "lock_owned me f'" using t by (simp add: lock_owned_def readLockPayload_def payload_mine_def)
      then show ?thesis using frame own draft(2) f' rel
        by (simp add: calm_frame_def calm_object_def)
    qed
  next
    case False
    have same: "f_lock f' = f_lock f" using act False by (cases "lo_renew l") (auto split: if_splits option.splits)
    have own: "lock_owned me f' = lock_owned me f" by (rule lock_owned_cong [OF same])
    have c: "f_clock f' = f_clock f" using frame by (simp add: step_frame_def)
    have e: "e \<le> f_clock f + ttl" if "lo_renew l' = RenewTemp e" for e
      using act that by (cases "lo_renew l") (auto split: if_splits option.splits)
    have t: "ends_within ttl t" if "lo_renew l' = RenewReread \<or> lo_renew l' = RenewRename" "f_temp f' me = Some t" for t
    proof (cases "lo_renew l")
      case (RenewTemp e)
      then have "e \<le> f_clock f + ttl" using calm by (simp add: calm_object_def)
      then show ?thesis using act that RenewTemp by (auto simp: ends_within_def split: if_splits)
    next
      case RenewReread
      then show ?thesis using act that calm by (auto simp: calm_object_def split: if_splits)
    qed (use act that False in \<open>auto split: if_splits option.splits\<close>)
    have "calm_object ttl me f' l'"
      using calm e t unfolding calm_object_def own rel c by blast
    then show ?thesis using frame within by (simp add: calm_frame_def same)
  qed
qed

lemma calm_release:
  assumes ok: "object_ok me f l" and calm: "calm_object ttl me f l"
    and within: "\<And>file. f_lock f = Some file \<Longrightarrow> ends_within ttl file"
    and act: "release_act me fault (lo_release l) l f = (l', f')"
  shows "calm_frame ttl me f f' \<and> calm_object ttl me f' l'"
proof -
  have frame: "step_frame me f f'" using release_frame [of me f fault "lo_release l" l] act by simp
  show ?thesis using act ok calm within frame
    by (cases "lo_release l")
      (auto simp: calm_frame_def calm_object_def object_ok_def file_ops lock_owned_def readLockPayload_def
        split: if_splits)
qed

lemma calm_worldD:
  assumes "calm_world ttl w"
  shows "lock_live (w_fs w)"
    and "\<And>fl. f_lock (w_fs w) = Some fl \<Longrightarrow> ends_within ttl fl"
    and "\<And>me k. w_procs w me = Some k \<Longrightarrow> calm_proc ttl me (w_fs w) k"
  using assms by (simp_all add: calm_world_def)

lemma calm_lock_act:
  assumes ok: "world_ok w" and calm: "calm_world ttl w" and step: "lock_act me act w = Some w'"
    and live: "lock_live (w_fs w')"
    and act: "\<And>k l l' f'. act k l (w_fs w) = Some (l', f') \<Longrightarrow> k_ttl k = ttl
          \<Longrightarrow> object_ok me (w_fs w) l \<Longrightarrow> calm_object ttl me (w_fs w) l
          \<Longrightarrow> calm_frame ttl me (w_fs w) f' \<and> calm_object ttl me f' l'"
  shows "calm_world ttl w'"
proof -
  obtain k l l' f' where s: "w_procs w me = Some k" "k_lock k = Some l" "act k l (w_fs w) = Some (l', f')"
      "w' = put_proc me (k\<lparr>k_lock := Some l'\<rparr>) (w\<lparr>w_fs := f'\<rparr>)"
    using step by (auto simp: lock_act_Some)
  have c: "calm_proc ttl me (w_fs w) k" by (rule calm_worldD(3) [OF calm s(1)])
  then have n: "calm_frame ttl me (w_fs w) f' \<and> calm_object ttl me f' l'"
    using s by (intro act [OF s(3) _ world_ok_object [OF ok s(1,2)]]) (simp_all add: calm_proc_def)
  then have "f_clock f' = f_clock (w_fs w)" "f_alive f' = f_alive (w_fs w)"
    by (simp_all add: calm_frame_def step_frame_def)
  then have "calm_proc ttl me f' (k\<lparr>k_lock := Some l'\<rparr>)"
    using c n calm_pc_clock [of f' "w_fs w"] by (simp add: calm_proc_def)
  moreover have "lock_live f'" using live s(4) by (simp add: put_proc_def)
  ultimately show ?thesis using n unfolding s(4) by (intro calm_put [OF calm]) simp_all
qed

lemma calm_frame_refl: "calm_world ttl w \<Longrightarrow> calm_frame ttl me (w_fs w) (w_fs w)"
  by (simp add: calm_frame_def calm_world_def)

lemma calm_tick: "calm_object ttl me f l \<Longrightarrow> calm_object ttl me f (tick l)"
  by (auto simp: calm_object_def tick_def)

lemma calm_call_release: "object_ok me f l \<Longrightarrow> calm_object ttl me f l \<Longrightarrow> calm_object ttl me f (call_release l)"
  by (auto simp: calm_object_def call_release_def object_ok_def)

text \<open>Time passes: the live contenders are at no decision.\<close>

lemma calm_object_time: "calm_object ttl me f l \<Longrightarrow> 0 \<le> d \<Longrightarrow> calm_object ttl me (f\<lparr>f_clock := f_clock f + d\<rparr>) l"
  using lock_owned_cong [of "f\<lparr>f_clock := f_clock f + d\<rparr>" f me] by (auto simp: calm_object_def)

lemma calm_pc_time:
  "calm_pc ttl alive f pc \<Longrightarrow> 0 \<le> d \<Longrightarrow> (alive \<Longrightarrow> \<forall>obs. pc \<noteq> StatLock obs)
     \<Longrightarrow> calm_pc ttl alive (f\<lparr>f_clock := f_clock f + d\<rparr>) pc"
  by (cases pc) auto

lemma calm_pc_dead: "calm_pc ttl alive f pc \<Longrightarrow> (alive' \<Longrightarrow> alive) \<Longrightarrow> calm_pc ttl alive' f pc"
  by (cases pc) auto

lemma calm_world_pass:
  assumes calm: "calm_world ttl w" and d: "0 \<le> d"
    and stat: "\<And>me k. live_proc me w = Some k \<Longrightarrow> \<not> at_stat k"
    and live: "lock_live ((w_fs w)\<lparr>f_clock := f_clock (w_fs w) + d\<rparr>)"
  shows "calm_world ttl (w\<lparr>w_fs := (w_fs w)\<lparr>f_clock := f_clock (w_fs w) + d\<rparr>\<rparr>)"
proof -
  have "calm_proc ttl me ((w_fs w)\<lparr>f_clock := f_clock (w_fs w) + d\<rparr>) k" if p: "w_procs w me = Some k" for me k
  proof -
    have "\<forall>obs. k_acquire k \<noteq> StatLock obs" if "f_alive (w_fs w) (k_pid k)"
      using stat [of me k] that p by (auto simp: live_proc_def at_stat_def)
    then show ?thesis using calm_worldD(3) [OF calm p] d
      by (auto simp: calm_proc_def intro: calm_pc_time calm_object_time)
  qed
  then show ?thesis using calm_worldD(2) [OF calm] live by (simp add: calm_world_def)
qed

lemma calm_world_crash:
  assumes calm: "calm_world ttl w"
  shows "calm_world ttl (w\<lparr>w_fs := (w_fs w)\<lparr>f_alive := (f_alive (w_fs w))(pid := False)\<rparr>\<rparr>)"
proof -
  let ?f = "(w_fs w)\<lparr>f_alive := (f_alive (w_fs w))(pid := False)\<rparr>"
  have "calm_proc ttl me ?f k" if p: "w_procs w me = Some k" for me k
  proof -
    have c: "calm_proc ttl me (w_fs w) k" by (rule calm_worldD(3) [OF calm p])
    then have "calm_pc ttl (f_alive ?f (k_pid k)) (w_fs w) (k_acquire k)"
      by (auto simp: calm_proc_def intro: calm_pc_dead)
    then have "calm_pc ttl (f_alive ?f (k_pid k)) ?f (k_acquire k)"
      using calm_pc_clock [of ?f "w_fs w"] by simp
    moreover have "calm_object ttl me ?f l" if "calm_object ttl me (w_fs w) l" for l
      using that lock_owned_cong [of ?f "w_fs w" me] by (simp add: calm_object_def)
    ultimately show ?thesis using c by (simp add: calm_proc_def)
  qed
  moreover have "lock_live ?f = lock_live (w_fs w)" by (simp add: lock_live_def split: option.split)
  ultimately show ?thesis using calm by (simp add: calm_world_def)
qed

lemma calm_world_step:
  assumes ok: "world_ok w" and calm: "calm_world ttl w" and step: "lock_exec e w = Some w'"
    and timely: "timely ttl w e w'"
  shows "calm_world ttl w'"
proof -
  have live: "lock_live (w_fs w')" using timely by (simp add: timely_def)
  note within = calm_worldD(2) [OF calm]
  show ?thesis
  proof (cases e)
    case (Call me pid t renew)
    let ?k = "\<lparr>k_pid = pid, k_ttl = t, k_renew = renew, k_acquire = retry_all t (w_fs w), k_lock = None\<rparr>"
    have "w' = put_proc me ?k (w\<lparr>w_fs := w_fs w\<rparr>)" "t = ttl"
      using Call step timely by (auto simp: timely_def split: if_splits)
    moreover from this have "calm_proc ttl me (w_fs w) ?k"
      by (simp add: calm_proc_def retry_all_def)
    ultimately show ?thesis using calm_put [OF calm calm_frame_refl [OF calm, of me]] live
      by (simp add: put_proc_def)
  next
    case (Acquire me fault)
    then obtain k where k: "w_procs w me = Some k" "\<not> settled (k_acquire k)" "f_alive (w_fs w) (k_pid k)"
      using step by (auto simp: live_proc_def split: option.splits if_splits)
    obtain pc built f' where a: "acquire_act me (k_pid k) (k_ttl k) fault (k_acquire k) (w_fs w) = (pc, built, f')"
      by (metis prod_cases3)
    let ?k = "k\<lparr>k_acquire := pc, k_lock := (if built then Some (buildLock (k_renew k)) else k_lock k)\<rparr>"
    have w': "w' = put_proc me ?k (w\<lparr>w_fs := f'\<rparr>)"
      using step Acquire k a by (simp add: live_proc_def)
    have c: "calm_proc ttl me (w_fs w) k" by (rule calm_worldD(3) [OF calm k(1)])
    have ttl: "k_ttl k = ttl" "calm_pc ttl True (w_fs w) (k_acquire k)"
      using c k(3) by (simp_all add: calm_proc_def)
    have n: "calm_frame ttl me (w_fs w) f' \<and> calm_pc ttl True f' pc \<and> (built \<longrightarrow> lock_owned me f')"
      by (rule calm_acquire [OF ttl(2) k(2) calm_worldD(1) [OF calm] within a [unfolded ttl(1)]])
    have none: "k_lock k = None"
      using world_okD [OF ok k(1)] k(2) ttl(2) by (cases "k_lock k") (auto simp: proc_ok_def settled_def)
    have "f_alive f' = f_alive (w_fs w)" using n by (simp add: calm_frame_def step_frame_def)
    then have "calm_proc ttl me f' ?k"
      using n ttl(1) none k(3) by (auto simp: calm_proc_def calm_object_def buildLock_def)
    then show ?thesis using n live unfolding w' by (intro calm_put [OF calm]) (simp_all add: put_proc_def)
  next
    case (Timer me)
    then have "lock_act me (\<lambda>k l f. if lo_timer l then Some (tick l, f) else None) w = Some w'" using step by simp
    then show ?thesis
      by (rule calm_lock_act [OF ok calm _ live])
        (auto simp: calm_tick calm_frame_refl [OF calm] split: if_splits)
  next
    case (Renew me fault)
    then have "lock_act me (\<lambda>k l f. Some (renew_act me (k_ttl k) fault (lo_renew l) l f)) w = Some w'" using step by simp
    then show ?thesis
      by (rule calm_lock_act [OF ok calm _ live]) (rule calm_renew [OF _ _ within, where fault = fault]; simp)
  next
    case (CallRelease me)
    then have "lock_act me (\<lambda>k l f. if k_acquire k = Granted then Some (call_release l, f) else None) w = Some w'"
      using step by simp
    then show ?thesis
      by (rule calm_lock_act [OF ok calm _ live])
        (auto simp: calm_frame_refl [OF calm] intro: calm_call_release split: if_splits)
  next
    case (Release me fault)
    then have "lock_act me (\<lambda>k l f. Some (release_act me fault (lo_release l) l f)) w = Some w'" using step by simp
    then show ?thesis
      by (rule calm_lock_act [OF ok calm _ live]) (rule calm_release [OF _ _ within, where fault = fault]; simp)
  next
    case (Pass d)
    then show ?thesis using step timely live calm_world_pass [OF calm, of d]
      by (auto simp: timely_def split: if_splits)
  next
    case (Crash pid)
    then show ?thesis using step calm_world_crash [OF calm] by auto
  qed
qed

lemma timely_calm:
  "lock_runs (\<lambda>f. f_lock f = None) (timely ttl) w \<Longrightarrow> calm_world ttl w"
proof (induction rule: lock_runs.induct)
  case (initial w)
  then show ?case by (simp add: calm_world_def lock_live_def)
next
  case (step w e w')
  then show ?case by (auto intro: calm_world_step [OF reach_world_ok])
qed

section \<open>Concrete runs\<close>

fun allowed_run :: "(lock_world \<Rightarrow> lock_event \<Rightarrow> lock_world \<Rightarrow> bool) \<Rightarrow> lock_event list \<Rightarrow> lock_world \<Rightarrow> bool" where
  "allowed_run allowed [] w = True"
| "allowed_run allowed (e # es) w =
     (case lock_exec e w of None \<Rightarrow> False | Some w' \<Rightarrow> allowed w e w' \<and> allowed_run allowed es w')"

lemma allowed_run_runs:
  "lock_runs start allowed w \<Longrightarrow> allowed_run allowed es w \<Longrightarrow> lock_runs start allowed (the (lock_run es w))"
  by (induction es arbitrary: w) (auto split: option.splits intro: lock_runs.step)

section \<open>A contender alone\<close>


text \<open>Up to \<open>n\<close> steps of \<open>acquireFencedFileLock\<close> without failing operations.\<close>

fun acquire_alone :: "nat \<Rightarrow> owner \<Rightarrow> num \<Rightarrow> millis \<Rightarrow> acquire_pc \<times> lock_fs \<Rightarrow> acquire_pc \<times> lock_fs" where
  "acquire_alone 0 me pid ttl s = s"
| "acquire_alone (Suc n) me pid ttl (pc, f) =
     (if settled pc then (pc, f)
      else (let (pc', built, f') = acquire_act me pid ttl False pc f
            in acquire_alone n me pid ttl (pc', f')))"

lemma alone_settled: "settled pc \<Longrightarrow> acquire_alone n me pid ttl (pc, f) = (pc, f)"
  by (cases n) simp_all

lemma alone_add:
  "acquire_alone (m + n) me pid ttl s = acquire_alone n me pid ttl (acquire_alone m me pid ttl s)"
proof (induction m arbitrary: s)
  case 0
  then show ?case by simp
next
  case (Suc m)
  obtain pc f where s: "s = (pc, f)" by fastforce
  show ?case using Suc.IH by (cases "settled pc") (simp_all add: s alone_settled split_beta Let_def)
qed

text \<open>A marker that is there and not abandoned, and a lock that a contender may take.\<close>

definition marker_held :: "lock_fs \<Rightarrow> bool" where
  "marker_held f \<longleftrightarrow> f_marker f \<noteq> None \<and> \<not> reclaimable (readMarkerPayload False f) f"

definition lock_stale :: "millis \<Rightarrow> lock_fs \<Rightarrow> bool" where
  "lock_stale ttl f =
     (case f_lock f of
        None \<Rightarrow> False
      | Some fl \<Rightarrow>
          (case lf_payload fl of
             Some p \<Rightarrow> lp_expiresAt p \<le> f_clock f
           | None \<Rightarrow> ttl \<le> f_clock f - lf_mtime fl))"

lemma alone_Suc:
  "\<not> settled pc \<Longrightarrow> acquire_alone (Suc n) me pid ttl (pc, f) =
     acquire_alone n me pid ttl (fst (acquire_act me pid ttl False pc f), snd (snd (acquire_act me pid ttl False pc f)))"
  by (simp add: split_beta Let_def)

lemma settled_simps [simp]:
  "\<not> settled (TryMkdir re e)" "\<not> settled (TryWrite re e)" "\<not> settled ReadLock" "\<not> settled (StatLock p)"
  "\<not> settled (MarkerMkdir n)" "\<not> settled (MarkerWrite n t)" "\<not> settled (MarkerRead n)" "\<not> settled (MarkerSleep n)"
  "\<not> settled CheckMarker" "\<not> settled ConfirmStale" "\<not> settled CheckMarkerAgain" "\<not> settled UnlinkLock"
  "\<not> settled (RmMarker a)" "\<not> settled (RmMarkerDir a)" "settled Granted" "settled Refused" "settled (Threw x)"
  by (simp_all add: settled_def)

text \<open>Four steps to the decision on an existing lock.\<close>

lemma alone_decide:
  assumes "f_lock f = Some fl"
  shows "acquire_alone (Suc (Suc (Suc (Suc n)))) me pid ttl (retry_all ttl f, f) =
     acquire_alone n me pid ttl (if lock_stale ttl f then MarkerMkdir 0 else Refused, f)"
  using assms
  by (auto simp: alone_Suc retry_all_def create_lock_def try_failed_def readLockPayload_def
      stale_decision_def lock_stale_def not_less simp del: acquire_alone.simps split: option.split)

lemma alone_fresh:
  assumes "f_lock f = None"
  shows "acquire_alone (Suc (Suc n)) me pid ttl (retry_all ttl f, f) =
     (Granted, f\<lparr>f_lock := Some \<lparr>lf_payload = Some \<lparr>lp_ownerId = me, lp_expiresAt = f_clock f + ttl\<rparr>,
                                lf_mtime = f_clock f\<rparr>\<rparr>)"
  using assms
  by (simp add: alone_Suc retry_all_def create_lock_def alone_settled del: acquire_alone.simps)

text \<open>Ten steps from a free marker to the new lock.\<close>

definition taken_over :: "owner \<Rightarrow> millis \<Rightarrow> lock_fs \<Rightarrow> lock_fs" where
  "taken_over me ttl f = f\<lparr>f_dir := False, f_marker := None,
     f_lock := Some \<lparr>lf_payload = Some \<lparr>lp_ownerId = me, lp_expiresAt = f_clock f + ttl\<rparr>,
                    lf_mtime = f_clock f\<rparr>\<rparr>"

lemma alone_evict:
  assumes "lock_stale ttl f" "f_marker f = None"
  shows "acquire_alone (10 + n) me pid ttl (MarkerMkdir k, f) = (Granted, taken_over me ttl f)"
proof -
  have "\<not> refreshed False me f'" if "f_lock f' = f_lock f" "f_clock f' = f_clock f" for f'
    using assms(1) that
    by (auto simp: refreshed_def readLockPayload_def lock_stale_def split: option.splits)
  then show ?thesis using assms
    by (auto simp: numeral_eq_Suc alone_Suc create_marker_def marker_mine_def readMarkerPayload_def
        unlink_lock_def create_lock_def rm_marker_def rm_evicting_dir_def taken_over_def alone_settled
        lock_stale_def simp del: acquire_alone.simps split: option.splits)
qed

text \<open>A held marker refuses after the bounded attempts; an abandoned one costs five steps.\<close>

lemma alone_blocked_step:
  assumes "marker_held f" "n < MARKER_CLAIM_MAX_ATTEMPTS"
  shows "acquire_alone (4 + m) me pid ttl (MarkerMkdir n, f) =
     acquire_alone m me pid ttl (claim_attempt (Suc n), f\<lparr>f_dir := True\<rparr>)"
  using assms
  by (auto simp: numeral_eq_Suc alone_Suc create_marker_def marker_held_def reclaimable_def
      isProcessAlive_def readMarkerPayload_def simp del: acquire_alone.simps split: option.splits)

lemma alone_reclaim:
  assumes "f_marker f \<noteq> None" "\<not> marker_held f"
  shows "acquire_alone (5 + m) me pid ttl (MarkerMkdir 0, f) =
     acquire_alone m me pid ttl (MarkerMkdir 1, f\<lparr>f_marker := None, f_dir := False\<rparr>)"
  using assms
  by (auto simp: numeral_eq_Suc alone_Suc create_marker_def marker_held_def reclaimable_def claim_attempt_def
      MARKER_CLAIM_MAX_ATTEMPTS_def
      isProcessAlive_def readMarkerPayload_def rm_marker_def rm_evicting_dir_def
      simp del: acquire_alone.simps split: option.splits)

lemma alone_blocked:
  assumes "marker_held f" "n \<le> MARKER_CLAIM_MAX_ATTEMPTS"
  shows "acquire_alone (4 * (MARKER_CLAIM_MAX_ATTEMPTS - n) + m) me pid ttl (claim_attempt n, f)
     = (Refused, if n < MARKER_CLAIM_MAX_ATTEMPTS then f\<lparr>f_dir := True\<rparr> else f)"
  using assms
proof (induction "MARKER_CLAIM_MAX_ATTEMPTS - n" arbitrary: n f)
  case 0
  then show ?case by (simp add: claim_attempt_def alone_settled)
next
  case (Suc j)
  then have n: "n < MARKER_CLAIM_MAX_ATTEMPTS" by simp
  have held: "marker_held (f\<lparr>f_dir := True\<rparr>)"
    using Suc.prems(1) by (auto simp: marker_held_def reclaimable_def readMarkerPayload_def isProcessAlive_def split: option.splits)
  have four: "4 * (MARKER_CLAIM_MAX_ATTEMPTS - n) + m = 4 + (4 * (MARKER_CLAIM_MAX_ATTEMPTS - Suc n) + m)"
    using n by simp
  have "acquire_alone (4 * (MARKER_CLAIM_MAX_ATTEMPTS - Suc n) + m) me pid ttl (claim_attempt (Suc n), f\<lparr>f_dir := True\<rparr>)
      = (Refused, f\<lparr>f_dir := True\<rparr>)"
    using Suc.hyps(1) [of "Suc n" "f\<lparr>f_dir := True\<rparr>"] Suc.hyps(2) n held
    by (simp split: if_splits)
  then show ?case
    using n by (simp add: claim_attempt_def [of n] four alone_blocked_step [OF Suc.prems(1) n])
qed

lemma lock_stale_cong: "f_lock f = f_lock f' \<Longrightarrow> f_clock f = f_clock f' \<Longrightarrow> lock_stale ttl f = lock_stale ttl f'"
  by (simp add: lock_stale_def cong: option.case_cong)

section \<open>Steps of others\<close>

fun event_owner :: "lock_event \<Rightarrow> owner option" where
  "event_owner (Call me pid ttl renew) = Some me"
| "event_owner (Acquire me fault) = Some me"
| "event_owner (Timer me) = Some me"
| "event_owner (Renew me fault) = Some me"
| "event_owner (CallRelease me) = Some me"
| "event_owner (Release me fault) = Some me"
| "event_owner (Pass d) = None"
| "event_owner (Crash pid) = None"

lemma step_frame_other: "step_frame me f f' \<Longrightarrow> x \<noteq> me \<Longrightarrow> lock_owned x f' \<Longrightarrow> f_lock f' = f_lock f"
  by (auto simp: step_frame_def lock_owned_def readLockPayload_def payload_mine_def)

lemma lock_act_frame:
  assumes ok: "world_ok w" and step: "lock_act me act w = Some w'"
    and "\<And>k l l' f'. act k l (w_fs w) = Some (l', f') \<Longrightarrow> object_ok me (w_fs w) l \<Longrightarrow> step_frame me (w_fs w) f'"
  shows "step_frame me (w_fs w) (w_fs w')"
  using step assms(3) world_ok_object [OF ok] by (auto simp: lock_act_Some put_proc_def)

lemma exec_frame:
  assumes ok: "world_ok w" and step: "lock_exec e w = Some w'" and me: "event_owner e = Some me"
  shows "step_frame me (w_fs w) (w_fs w')"
proof (cases e)
  case (Acquire x fault)
  then show ?thesis using step me acquire_frame [of me "w_fs w"]
    by (auto simp: put_proc_def live_proc_def split_beta Let_def split: option.splits if_splits)
next
  case (Renew x fault)
  then have "lock_act me (\<lambda>k l f. Some (renew_act me (k_ttl k) fault (lo_renew l) l f)) w = Some w'" using step me by simp
  then show ?thesis by (rule lock_act_frame [OF ok]) (use renew_keeps_owner in blast)
next
  case (Release x fault)
  then have "lock_act me (\<lambda>k l f. Some (release_act me fault (lo_release l) l f)) w = Some w'" using step me by simp
  then show ?thesis by (rule lock_act_frame [OF ok]) (metis option.inject release_frame snd_conv)
qed (use step me in \<open>auto simp: put_proc_def lock_act_Some split: if_splits\<close>)

lemma exec_other:
  assumes ok: "world_ok w" and step: "lock_exec e w = Some w'" and x: "event_owner e \<noteq> Some x"
  shows "w_procs w' x = w_procs w x \<and> (lock_owned x (w_fs w') \<longrightarrow> f_lock (w_fs w') = f_lock (w_fs w))"
proof
  show "w_procs w' x = w_procs w x"
    using step x by (cases e) (auto simp: put_proc_def lock_act_Some Let_def split_beta split: if_splits option.splits)
  show "lock_owned x (w_fs w') \<longrightarrow> f_lock (w_fs w') = f_lock (w_fs w)"
  proof (cases "event_owner e")
    case None
    then show ?thesis using step by (cases e) (auto split: if_splits)
  next
    case (Some me)
    then show ?thesis using step_frame_other [OF exec_frame [OF ok step Some], of x] x by auto
  qed
qed

lemma lost_act:
  assumes ok: "world_ok w" and step: "lock_act me act w = Some w'"
    and k: "w_procs w me = Some k" "k_lock k = Some l" "lo_lost l"
    and "\<And>l' f'. act k l (w_fs w) = Some (l', f') \<Longrightarrow> lo_lost l' \<and> (f_lock f' = f_lock (w_fs w) \<or> f_lock f' = None)"
  shows "(\<exists>k' l'. w_procs w' me = Some k' \<and> k_lock k' = Some l' \<and> lo_lost l')
    \<and> (lock_owned me (w_fs w') \<longrightarrow> f_lock (w_fs w') = f_lock (w_fs w))"
proof -
  obtain l' f' where s: "act k l (w_fs w) = Some (l', f')" "w' = put_proc me (k\<lparr>k_lock := Some l'\<rparr>) (w\<lparr>w_fs := f'\<rparr>)"
    using step k by (auto simp: lock_act_Some)
  show ?thesis using assms(6) [OF s(1)] by (auto simp: s(2) put_proc_def)
qed

lemma lost_exec:
  assumes ok: "world_ok w" and step: "lock_exec e w = Some w'"
    and k: "w_procs w me = Some k" "k_lock k = Some l" "lo_lost l"
  shows "(\<exists>k' l'. w_procs w' me = Some k' \<and> k_lock k' = Some l' \<and> lo_lost l')
    \<and> (lock_owned me (w_fs w') \<longrightarrow> f_lock (w_fs w') = f_lock (w_fs w))"
proof (cases "event_owner e = Some me")
  case False
  then show ?thesis using exec_other [OF ok step False] k by auto
next
  case True
  have obj: "object_ok me (w_fs w) l" by (rule world_ok_object [OF ok k(1,2)])
  show ?thesis
  proof (cases e)
    case (Call x pid ttl renew)
    then show ?thesis using step True k by (auto simp: fresh_owner_def split: if_splits)
  next
    case (Acquire x fault)
    then show ?thesis using step True k world_okD [OF ok k(1)]
      by (auto simp: proc_ok_def live_proc_def put_proc_def Let_def split_beta rm_marker_def rm_evicting_dir_def
          split: if_splits option.splits)
  next
    case (Timer x)
    then have "lock_act me (\<lambda>k l f. if lo_timer l then Some (tick l, f) else None) w = Some w'" using step True by simp
    then show ?thesis by (rule lost_act [OF ok _ k]) (use k(3) in \<open>auto simp: tick_def split: if_splits\<close>)
  next
    case (Renew x fault)
    then have "lock_act me (\<lambda>k l f. Some (renew_act me (k_ttl k) fault (lo_renew l) l f)) w = Some w'" using step True by simp
    then show ?thesis
      by (rule lost_act [OF ok _ k]) (use renew_lost [OF obj k(3), of "k_ttl k" fault] in auto)
  next
    case (CallRelease x)
    then have "lock_act me (\<lambda>k l f. if k_acquire k = Granted then Some (call_release l, f) else None) w = Some w'"
      using step True by simp
    then show ?thesis by (rule lost_act [OF ok _ k]) (use k(3) in \<open>auto simp: call_release_def split: if_splits\<close>)
  next
    case (Release x fault)
    then have "lock_act me (\<lambda>k l f. Some (release_act me fault (lo_release l) l f)) w = Some w'" using step True by simp
    then show ?thesis
      by (rule lost_act [OF ok _ k])
        (use release_lost [OF k(3), of me fault "lo_release l" "w_fs w"]
           release_lock [of me fault "lo_release l" l "w_fs w"] in auto)
  qed (use True in simp_all)
qed

end
