(* ===== verification/Lock_Properties.thy ===== *)
theory Lock_Properties
  imports Lock_Facts
begin

text \<open>
  What the file lock of \<^verbatim>\<open>core/src/file-lock.ts\<close> guarantees over all interleavings, what it
  guarantees in timely runs, and where eviction breaks mutual exclusion.
\<close>

definition holds_lock :: "owner \<Rightarrow> lock_world \<Rightarrow> bool" where
  "holds_lock me w =
     (case w_procs w me of
        None \<Rightarrow> False
      | Some k \<Rightarrow> (case k_lock k of None \<Rightarrow> False | Some l \<Rightarrow> \<not> lo_released l))"

text \<open>Worlds and runs for the witnesses.\<close>

definition start_world :: "lock_file option \<Rightarrow> millis \<Rightarrow> lock_world" where
  "start_world file t = \<lparr>w_fs = \<lparr>f_clock = t, f_alive = (\<lambda>pid. True), f_lock = file, f_dir = False,
     f_marker = None, f_temp = (\<lambda>me. None)\<rparr>, w_procs = (\<lambda>me. None)\<rparr>"

lemma start_world_simps [simp]:
  "f_lock (w_fs (start_world file t)) = file" "f_clock (w_fs (start_world file t)) = t"
  "w_procs (start_world file t) = (\<lambda>me. None)" "f_marker (w_fs (start_world file t)) = None"
  "f_alive (w_fs (start_world file t)) = (\<lambda>pid. True)"
  by (simp_all add: start_world_def)

definition after_events :: "lock_event list \<Rightarrow> lock_file option \<Rightarrow> millis \<Rightarrow> lock_world" where
  "after_events es file t = the (lock_run es (start_world file t))"

lemma after_events_runs:
  "allowed_run allowed es (start_world file t) \<Longrightarrow> start (w_fs (start_world file t))
     \<Longrightarrow> lock_runs start allowed (after_events es file t)"
  unfolding after_events_def by (intro allowed_run_runs lock_runs.initial) simp_all

abbreviation create_events :: "owner \<Rightarrow> lock_event list" where
  "create_events me \<equiv> [Call me 1 5000 True, Acquire me False, Acquire me False]"

lemmas run_simps = Let_def fresh_owner_def readLockPayload_def payload_mine_def marker_mine_def
  readMarkerPayload_def put_proc_def live_proc_def retry_all_def create_lock_def lock_act_def

text \<open>A contender that loses the race for a stale lock: \<open>b\<close> decides, \<open>a\<close> takes over and releases.\<close>

definition stale_file :: "lock_file option" where
  "stale_file = Some \<lparr>lf_payload = Some \<lparr>lp_ownerId = ''x'', lp_expiresAt = 100\<rparr>, lf_mtime = 0\<rparr>"

definition race_events :: "lock_event list" where
  "race_events =
     [Call ''a'' 1 5000 True, Call ''b'' 2 5000 True]
     @ replicate 4 (Acquire ''b'' False) @ replicate 14 (Acquire ''a'' False)
     @ CallRelease ''a'' # replicate 4 (Release ''a'' False)
     @ replicate 5 (Acquire ''b'' False)
     @ create_events ''c''
     @ replicate 5 (Acquire ''b'' False)"

text \<open>
  C12. Mutual exclusion. Start without a lock file and let the contenders (with one
  \<open>ttlMs\<close>) run in any order, with failing operations and dying processes, as long as the lock file
  is never left to expire and no time passes between a contender's read and its decision. Then
  a contender that was given a lock and has not called \<open>release\<close> passes \<open>assertOwned\<close>, and no
  other holds the lock.
\<close>

theorem exclusive_when_timely:
  assumes "lock_runs (\<lambda>f. f_lock f = None) (timely ttl) w" and "holds_lock me w"
  shows "assertOwned me False (w_fs w) = Inr () \<and> (\<forall>x. holds_lock x w \<longrightarrow> x = me)"
proof -
  have owned: "lock_owned x (w_fs w)" if "holds_lock x w" for x
  proof -
    obtain k l where k: "w_procs w x = Some k" "k_lock k = Some l" "\<not> lo_released l"
      using \<open>holds_lock x w\<close> unfolding holds_lock_def by (auto split: option.split_asm)
    then have "lo_release l = NotReleased"
      using world_ok_object [OF reach_world_ok [OF assms(1)] k(1,2)] by (simp add: object_ok_def)
    then show ?thesis
      using calm_worldD(3) [OF timely_calm [OF assms(1)] k(1)] k(2) by (simp add: calm_proc_def calm_object_def)
  qed
  have "lock_live (w_fs w)" by (rule calm_worldD(1) [OF timely_calm [OF assms(1)]])
  then show ?thesis using owned_live [OF owned [OF assms(2)]] lock_owned_unique [OF owned [OF assms(2)] owned] by blast
qed

theorem exclusive_when_timely_witness:
  "assertOwned ''a'' False (w_fs (after_events (create_events ''a'') None 0)) = Inr ()"
proof -
  let ?w = "after_events (create_events ''a'') None 0"
  have "lock_runs (\<lambda>f. f_lock f = None) (timely 5000) ?w"
    by (rule after_events_runs) (simp_all add: timely_def lock_live_def run_simps)
  moreover have "holds_lock ''a'' ?w"
    by (simp add: after_events_def holds_lock_def buildLock_def run_simps)
  ultimately show ?thesis using exclusive_when_timely by blast
qed

text \<open>
  C13. A release is final: in every interleaving in which the operations of \<open>release\<close> do not fail,
  a contender that was never given a lock, or whose \<open>release\<close> has removed or given up the file,
  does not own the lock file, whatever renewals were in flight.
\<close>

theorem release_is_final:
  assumes "lock_runs start clean_release w" and "w_procs w me = Some k"
    and "case k_lock k of None \<Rightarrow> True | Some l \<Rightarrow> lo_release l \<in> {ReleaseRm, ReleaseRmDir, Released}"
  shows "\<exists>e. assertOwned me False (w_fs w) = Inl e"
proof -
  have "\<not> lock_owned me (w_fs w)"
    using owners_okD [OF clean_owners_ok [OF assms(1)] assms(2)] assms(3)
    by (auto simp: may_own_def split: option.splits)
  then show ?thesis
    by (auto simp: assertOwned_def lock_owned_def payload_mine_def split: option.splits)
qed

theorem release_is_final_witness:
  "\<exists>e. assertOwned ''a'' False
     (w_fs (after_events (create_events ''a'' @ CallRelease ''a'' # replicate 4 (Release ''a'' False)) None 0)) = Inl e"
proof -
  let ?w = "after_events (create_events ''a'' @ CallRelease ''a'' # replicate 4 (Release ''a'' False)) None 0"
  have r: "lock_runs (\<lambda>f. True) clean_release ?w"
    by (rule after_events_runs, code_simp) simp
  have "case w_procs ?w ''a'' of None \<Rightarrow> False | Some k \<Rightarrow>
      (case k_lock k of None \<Rightarrow> False | Some l \<Rightarrow> lo_release l = Released)"
    by code_simp
  then obtain k l where k: "w_procs ?w ''a'' = Some k" "k_lock k = Some l" "lo_release l = Released"
    by (auto split: option.split_asm)
  show ?thesis by (rule release_is_final [OF r k(1)]) (simp add: k)
qed

text \<open>
  A lock that was found lost stays lost, and its holder never writes the lock file again:
  after any step, a file with its payload is the file that was there before.
\<close>

lemma lost_lock_silent:
  assumes "lock_reach w" "lock_exec e w = Some w'"
    and "w_procs w me = Some k" "k_lock k = Some l" "hasLost l"
  shows "(\<exists>k' l'. w_procs w' me = Some k' \<and> k_lock k' = Some l' \<and> hasLost l')
    \<and> (lock_owned me (w_fs w') \<longrightarrow> f_lock (w_fs w') = f_lock (w_fs w))"
  using lost_exec [OF reach_world_ok [OF assms(1)] assms(2-4)] assms(5) by (simp add: hasLost_def)

theorem lost_lock_silent_witness:
  "\<exists>w'. lock_exec (Pass 1) (after_events (create_events ''a'' @ [Timer ''a'', Renew ''a'' True, Renew ''a'' False]) None 0) = Some w'
     \<and> (\<exists>k' l'. w_procs w' ''a'' = Some k' \<and> k_lock k' = Some l' \<and> hasLost l')"
proof -
  let ?es = "create_events ''a'' @ [Timer ''a'', Renew ''a'' True, Renew ''a'' False]"
  let ?w = "after_events ?es None 0"
  have r: "lock_reach ?w"
    by (rule after_events_runs) (simp_all add: buildLock_def tick_def stopped_def run_simps)
  obtain w' where s: "lock_exec (Pass 1) ?w = Some w'" by simp
  have "case w_procs ?w ''a'' of None \<Rightarrow> False | Some k \<Rightarrow>
      (case k_lock k of None \<Rightarrow> False | Some l \<Rightarrow> hasLost l)"
    by code_simp
  then obtain k l where k: "w_procs ?w ''a'' = Some k" "k_lock k = Some l" "hasLost l"
    by (auto split: option.split_asm)
  show ?thesis using lost_lock_silent [OF r s k] s by blast
qed



text \<open>
  C15. Eviction is not exclusive, whatever the clock: a contender that has decided that a lock is stale
  removes the lock file even when the file was missing at its check and another contender has
  created a live one since. In this run, in which no time passes and no operation fails, \<open>b\<close> and
  \<open>c\<close> both hold the lock at the end; before \<open>b\<close> removed its file, \<open>c\<close> passed \<open>assertOwned\<close>.
\<close>

theorem eviction_race:
  "\<exists>w. lock_run race_events (start_world stale_file 200) = Some w \<and> lock_reach w
     \<and> holds_lock ''b'' w \<and> holds_lock ''c'' w
     \<and> assertOwned ''c'' False (w_fs (after_events (take 33 race_events) stale_file 200)) = Inr ()"
proof -
  have "case lock_run race_events (start_world stale_file 200) of None \<Rightarrow> False | Some w \<Rightarrow>
      holds_lock ''b'' w \<and> holds_lock ''c'' w"
    by code_simp
  then obtain w where w: "lock_run race_events (start_world stale_file 200) = Some w"
      "holds_lock ''b'' w" "holds_lock ''c'' w"
    by (auto split: option.split_asm)
  moreover have "lock_reach w"
    by (rule lock_run_reach [OF _ w(1)]) (simp add: lock_runs.initial)
  moreover have "case assertOwned ''c'' False (w_fs (after_events (take 33 race_events) stale_file 200)) of
      Inl e \<Rightarrow> False | Inr u \<Rightarrow> True"
    by code_simp
  then have "assertOwned ''c'' False (w_fs (after_events (take 33 race_events) stale_file 200)) = Inr ()"
    by (simp split: sum.split_asm)
  ultimately show ?thesis by blast
qed

end
