(* ===== verification/Tool_Pairing.thy ===== *)
theory Tool_Pairing
  imports Json_Text "HOL-Library.Multiset"
begin

text \<open>
  The pairing of tool calls with tool results in \<^verbatim>\<open>opencode/src/plugin/request-helpers.ts\<close>:
  the Claude format (\<open>tool_use\<close> and \<open>tool_result\<close> blocks of messages) and the Gemini format
  (\<open>functionCall\<close> and \<open>functionResponse\<close> parts of contents). \<open>None\<close> is a thrown \<open>TypeError\<close>.
  Ids are JSON values compared by value; ids that are objects, which the code would compare by
  reference, do not occur. An \<open>undefined\<close> element of an array is \<open>JNull\<close>, as it is sent. The
  updates of message objects in place are updates of the list; logging is left out.
\<close>

section \<open>Claude messages\<close>

definition blocks_of :: "json \<Rightarrow> json list" where
  "blocks_of msg = nullish (arr_fld msg ''content'') []"

definition has_role :: "string \<Rightarrow> json \<Rightarrow> bool" where
  "has_role role msg = is_str (fld msg ''role'') role"

text \<open>The id of a \<open>tool_use\<close> block and the \<open>tool_use_id\<close> of a \<open>tool_result\<close> block, when truthy.\<close>

definition block_id :: "string \<Rightarrow> string \<Rightarrow> json \<Rightarrow> json option" where
  "block_id ty k block =
     (if is_str (fld block ''type'') ty \<and> truthy_fld block k then fld block k else None)"

abbreviation use_id :: "json \<Rightarrow> json option" where
  "use_id \<equiv> block_id ''tool_use'' ''id''"

abbreviation result_id :: "json \<Rightarrow> json option" where
  "result_id \<equiv> block_id ''tool_result'' ''tool_use_id''"

definition message_ids :: "(json \<Rightarrow> json option) \<Rightarrow> (json \<Rightarrow> bool) \<Rightarrow> json list \<Rightarrow> json list" where
  "message_ids f P messages = concat (map (\<lambda>m. List.map_filter f (blocks_of m)) (filter P messages))"

text \<open>Every block of every message is read; reading \<open>null\<close> throws.\<close>

definition findOrphanedToolUseIds :: "json list \<Rightarrow> json list option" where
  "findOrphanedToolUseIds messages =
     (if list_ex (\<lambda>m. m = JNull \<or> JNull \<in> set (blocks_of m)) messages then None
      else Some (filter (\<lambda>ident. ident \<notin> set (message_ids result_id (\<lambda>m. True) messages))
             (js_unique (message_ids use_id (\<lambda>m. True) messages))))"

record tool_use_info =
  tu_name :: json
  tu_msgIndex :: nat

type_synonym tool_use_map = "(json, tool_use_info) jsmap"

definition tool_use_step :: "nat \<Rightarrow> json \<Rightarrow> tool_use_map \<Rightarrow> tool_use_map" where
  "tool_use_step i block m =
     (case use_id block of
        None \<Rightarrow> m
      | Some ident \<Rightarrow>
          AList.update ident
            \<lparr>tu_name = (if truthy_fld block ''name'' then nullish (fld block ''name'') JNull
                        else JStr (''tool-'' @ show_nat (length m))),
             tu_msgIndex = i\<rparr> m)"

fun collect_tool_uses :: "nat \<Rightarrow> json list \<Rightarrow> tool_use_map \<Rightarrow> tool_use_map" where
  "collect_tool_uses i [] m = m"
| "collect_tool_uses i (msg # rest) m =
     collect_tool_uses (Suc i) rest
       (if has_role ''assistant'' msg then fold (tool_use_step i) (blocks_of msg) m else m)"

definition tool_orphans :: "json list \<Rightarrow> tool_use_map" where
  "tool_orphans messages =
     filter (\<lambda>(ident, info). ident \<notin> set (message_ids result_id (has_role ''user'') messages))
       (collect_tool_uses 0 messages [])"

definition tool_placeholder :: "(num \<Rightarrow> string) \<Rightarrow> json \<times> tool_use_info \<Rightarrow> json" where
  "tool_placeholder nt orphan =
     JObj [(''type'', JStr ''tool_result''), (''tool_use_id'', fst orphan),
           (''content'', JStr (''[Tool '' @ [CHR 0x22] @ js_string nt (tu_name (snd orphan)) @ [CHR 0x22]
                               @ '' execution was cancelled or failed]'')),
           (''is_error'', JBool True)]"

definition injected_message :: "json list \<Rightarrow> json" where
  "injected_message placeholders = JObj [(''role'', JStr ''user''), (''content'', JArr placeholders)]"

definition accepts_placeholders :: "json \<Rightarrow> bool" where
  "accepts_placeholders nextMsg \<longleftrightarrow> has_role ''user'' nextMsg \<and> arr_fld nextMsg ''content'' \<noteq> None"

definition prepend_blocks :: "json list \<Rightarrow> json \<Rightarrow> json" where
  "prepend_blocks placeholders nextMsg = with_fld nextMsg ''content'' (JArr (placeholders @ blocks_of nextMsg))"

text \<open>The loop that copies the messages and adds the placeholders of the message \<open>i\<close> after it.\<close>

fun inject_results :: "(nat \<Rightarrow> json list) \<Rightarrow> nat \<Rightarrow> json list \<Rightarrow> json list" where
  "inject_results ph i [] = []"
| "inject_results ph i (msg # rest) =
     msg #
     (if ph i = [] then inject_results ph (Suc i) rest
      else case rest of
          [] \<Rightarrow> [injected_message (ph i)]
        | nextMsg # others \<Rightarrow>
            if accepts_placeholders nextMsg
            then inject_results ph (Suc i) (prepend_blocks (ph i) nextMsg # others)
            else injected_message (ph i) # inject_results ph (Suc i) rest)"

definition placeholders_at :: "(num \<Rightarrow> string) \<Rightarrow> tool_use_map \<Rightarrow> nat \<Rightarrow> json list" where
  "placeholders_at nt orphans i = map (tool_placeholder nt) (filter (\<lambda>(ident, info). tu_msgIndex info = i) orphans)"

definition fixClaudeToolPairing :: "(num \<Rightarrow> string) \<Rightarrow> json list \<Rightarrow> json list option" where
  "fixClaudeToolPairing nt messages =
     (if list_ex (\<lambda>m. m = JNull
            \<or> (has_role ''assistant'' m \<or> has_role ''user'' m) \<and> JNull \<in> set (blocks_of m)) messages then None
      else if tool_orphans messages = [] then Some messages
      else Some (inject_results (placeholders_at nt (tool_orphans messages)) 0 messages))"

definition removeOrphanedToolUse :: "json list \<Rightarrow> json list \<Rightarrow> json list" where
  "removeOrphanedToolUse messages orphanIds =
     filter (\<lambda>m. \<not> (has_role ''assistant'' m \<and> arr_fld m ''content'' = Some []))
       (map (\<lambda>m. if has_role ''assistant'' m \<and> arr_fld m ''content'' \<noteq> None
                 then with_fld m ''content'' (JArr (filter
                        (\<lambda>block. \<not> is_str (fld block ''type'') ''tool_use''
                           \<or> (case fld block ''id'' of None \<Rightarrow> True | Some ident \<Rightarrow> ident \<notin> set orphanIds))
                        (blocks_of m)))
                 else m) messages)"

definition validateAndFixClaudeToolPairing :: "(num \<Rightarrow> string) \<Rightarrow> json list \<Rightarrow> json list option" where
  "validateAndFixClaudeToolPairing nt messages =
     (case fixClaudeToolPairing nt messages of
        None \<Rightarrow> None
      | Some fixed \<Rightarrow>
          (case findOrphanedToolUseIds fixed of
             None \<Rightarrow> None
           | Some orphanIds \<Rightarrow>
               Some (if orphanIds = [] then fixed else removeOrphanedToolUse fixed orphanIds)))"

section \<open>Gemini contents\<close>

text \<open>\<open>{ ...v }\<close> of any JSON value.\<close>

definition own_properties :: "json \<Rightarrow> js_object" where
  "own_properties v =
     (case v of
        JObj ob \<Rightarrow> ob
      | JArr xs \<Rightarrow> zip (map show_nat [0..<length xs]) xs
      | JStr s \<Rightarrow> zip (map show_nat [0..<length s]) (map (\<lambda>c. JStr [c]) s)
      | _ \<Rightarrow> [])"

definition truthy_of :: "json option \<Rightarrow> json option" where
  "truthy_of v = (case v of None \<Rightarrow> None | Some x \<Rightarrow> if truthy x then Some x else None)"

text \<open>\<open>part?.functionCall?.id\<close> and the like, when truthy.\<close>

definition inner_fld :: "json \<Rightarrow> string \<Rightarrow> string \<Rightarrow> json option" where
  "inner_fld part k k' = (case fld part k of None \<Rightarrow> None | Some v \<Rightarrow> truthy_of (fld v k'))"

definition is_call :: "json \<Rightarrow> bool" where
  "is_call part = truthy_fld part ''functionCall''"

definition is_response :: "json \<Rightarrow> bool" where
  "is_response part = truthy_fld part ''functionResponse''"

abbreviation call_id :: "json \<Rightarrow> json option" where
  "call_id part \<equiv> inner_fld part ''functionCall'' ''id''"

abbreviation response_id :: "json \<Rightarrow> json option" where
  "response_id part \<equiv> inner_fld part ''functionResponse'' ''id''"

abbreviation response_name :: "json \<Rightarrow> json" where
  "response_name part \<equiv> nullish (inner_fld part ''functionResponse'' ''name'') (JStr [])"

record call_group =
  cg_ids :: "json list"
  cg_funcNames :: "json list"
  cg_insertAfterIdx :: nat

type_synonym response_map = "(json, json) jsmap"

record grouping =
  gr_contents :: "json list"
  gr_pending :: "call_group list"
  gr_collected :: response_map

definition collect_response :: "json \<Rightarrow> response_map \<Rightarrow> response_map" where
  "collect_response resp m =
     (case response_id resp of
        None \<Rightarrow> m
      | Some ident \<Rightarrow> if jm_has m ident then m else AList.update ident resp m)"

text \<open>\<open>ids.map(id => { get; delete })\<close>.\<close>

fun take_responses :: "json list \<Rightarrow> response_map \<Rightarrow> json list \<times> response_map" where
  "take_responses [] m = ([], m)"
| "take_responses (ident # ids) m =
     (let (resps, m') = take_responses ids (AList.delete ident m)
      in (nullish (map_of m ident) JNull # resps, m'))"

definition user_content :: "json list \<Rightarrow> json" where
  "user_content parts = JObj [(''parts'', JArr parts), (''role'', JStr ''user'')]"

text \<open>The most recent pending group all of whose ids have a response, if any, is answered.\<close>

definition satisfy_last :: "grouping \<Rightarrow> grouping" where
  "satisfy_last g =
     (case List.extract (\<lambda>grp. list_all (jm_has (gr_collected g)) (cg_ids grp)) (rev (gr_pending g)) of
        None \<Rightarrow> g
      | Some (later, grp, earlier) \<Rightarrow>
          (let (resps, collected) = take_responses (cg_ids grp) (gr_collected g)
           in g\<lparr>gr_contents := gr_contents g @ [user_content resps],
                gr_pending := rev (later @ earlier), gr_collected := collected\<rparr>))"

definition group_of_calls :: "json list \<Rightarrow> nat \<Rightarrow> call_group" where
  "group_of_calls funcCalls idx =
     \<lparr>cg_ids = List.map_filter call_id funcCalls,
      cg_funcNames = map (\<lambda>fc. nullish (inner_fld fc ''functionCall'' ''name'') (JStr [])) funcCalls,
      cg_insertAfterIdx = idx\<rparr>"

definition group_step :: "json \<Rightarrow> grouping \<Rightarrow> grouping option" where
  "group_step content g =
     (if content = JNull then None
      else case array_or_empty content ''parts'' of
        None \<Rightarrow> None
      | Some parts \<Rightarrow>
          Some (if filter is_response parts \<noteq> [] then
                  satisfy_last (g\<lparr>gr_collected := fold collect_response (filter is_response parts) (gr_collected g)\<rparr>)
                else
                  (let g1 = g\<lparr>gr_contents := gr_contents g @ [content]\<rparr>;
                       grp = group_of_calls (filter is_call parts) (length (gr_contents g))
                   in if has_role ''model'' content \<and> cg_ids grp \<noteq> []
                      then g1\<lparr>gr_pending := gr_pending g1 @ [grp]\<rparr> else g1)))"

fun group_contents :: "json list \<Rightarrow> grouping \<Rightarrow> grouping option" where
  "group_contents [] g = Some g"
| "group_contents (c # cs) g = (case group_step c g of None \<Rightarrow> None | Some g' \<Rightarrow> group_contents cs g')"

text \<open>An orphan response for a call without one: by name, then an unknown function, then the first.\<close>

definition find_orphan :: "json \<Rightarrow> response_map \<Rightarrow> (json \<times> json) option" where
  "find_orphan expectedName m =
     (case find (\<lambda>(ident, resp). response_name resp = expectedName) m of
        Some x \<Rightarrow> Some x
      | None \<Rightarrow>
          (case find (\<lambda>(ident, resp). response_name resp = JStr ''unknown_function'') m of
             Some x \<Rightarrow> Some x
           | None \<Rightarrow> (case m of [] \<Rightarrow> None | x # rest \<Rightarrow> Some x)))"

text \<open>The orphan with the id, and the name when it was unknown, that the call expects.\<close>

definition adopt_response :: "json \<Rightarrow> json \<Rightarrow> json \<Rightarrow> json" where
  "adopt_response expectedId expectedName resp =
     (case fld resp ''functionResponse'' of
        Some fr \<Rightarrow>
          (let fr1 = with_fld fr ''id'' expectedId;
               fr2 = (if is_str (fld fr1 ''name'') ''unknown_function'' \<and> truthy expectedName
                      then with_fld fr1 ''name'' expectedName else fr1)
           in with_fld resp ''functionResponse'' fr2)
      | None \<Rightarrow> resp)"

definition lost_response :: "json \<Rightarrow> json \<Rightarrow> json" where
  "lost_response expectedId expectedName =
     JObj [(''functionResponse'', JObj
       [(''name'', if truthy expectedName then expectedName else JStr ''unknown_function''),
        (''response'', JObj [(''result'', JObj
           [(''error'', JStr ''Tool response was lost during context processing. This is a recovered placeholder.''),
            (''recovered'', JBool True)])]),
        (''id'', expectedId)])]"

definition recover_response :: "json \<Rightarrow> json \<Rightarrow> response_map \<Rightarrow> json \<times> response_map" where
  "recover_response expectedId expectedName m =
     (case map_of m expectedId of
        Some resp \<Rightarrow> (resp, AList.delete expectedId m)
      | None \<Rightarrow>
          (case find_orphan expectedName m of
             Some (ident, resp) \<Rightarrow> (adopt_response expectedId expectedName resp, AList.delete ident m)
           | None \<Rightarrow> (lost_response expectedId expectedName, m)))"

fun recover_ids :: "json list \<Rightarrow> json list \<Rightarrow> response_map \<Rightarrow> json list \<times> response_map" where
  "recover_ids [] names m = ([], m)"
| "recover_ids (ident # ids) names m =
     (let name = (case names of [] \<Rightarrow> JStr [] | n # ns \<Rightarrow> n);
          (resp, m1) = recover_response ident name m;
          (resps, m2) = recover_ids ids (tl names) m1
      in (resp # resps, m2))"

definition insert_after :: "nat \<Rightarrow> 'a \<Rightarrow> 'a list \<Rightarrow> 'a list" where
  "insert_after idx x xs = take (idx + 1) xs @ x # drop (idx + 1) xs"

fun recover_groups :: "call_group list \<Rightarrow> json list \<Rightarrow> response_map \<Rightarrow> json list" where
  "recover_groups [] contents m = contents"
| "recover_groups (grp # grps) contents m =
     (let (resps, m') = recover_ids (cg_ids grp) (cg_funcNames grp) m
      in recover_groups grps
           (if resps = [] then contents
            else insert_after (cg_insertAfterIdx grp) (user_content resps) contents) m')"

definition fixToolResponseGrouping :: "json list \<Rightarrow> json list option" where
  "fixToolResponseGrouping contents =
     (case group_contents contents \<lparr>gr_contents = [], gr_pending = [], gr_collected = []\<rparr> of
        None \<Rightarrow> None
      | Some g \<Rightarrow>
          Some (recover_groups (sort_key (\<lambda>grp. - int (cg_insertAfterIdx grp)) (gr_pending g))
                 (gr_contents g) (gr_collected g)))"

record tool_id_mismatches =
  tm_expectedIds :: "json list"
  tm_foundIds :: "json list"
  tm_missingIds :: "json list"
  tm_orphanIds :: "json list"

definition hasMismatches :: "tool_id_mismatches \<Rightarrow> bool" where
  "hasMismatches m = (tm_missingIds m \<noteq> [] \<or> tm_orphanIds m \<noteq> [])"

text \<open>
  The parts of all contents; iterating something that is neither an array nor a string, whose
  characters are not calls, throws.
\<close>

definition iterated_parts :: "json \<Rightarrow> json list option" where
  "iterated_parts content =
     (case fld content ''parts'' of Some (JStr s) \<Rightarrow> Some [] | _ \<Rightarrow> array_or_empty content ''parts'')"

fun all_parts :: "json list \<Rightarrow> json list option" where
  "all_parts [] = Some []"
| "all_parts (c # cs) =
     (if c = JNull then None
      else case (iterated_parts c, all_parts cs) of
        (Some ps, Some qs) \<Rightarrow> Some (ps @ qs)
      | _ \<Rightarrow> None)"

definition detectToolIdMismatches :: "json list \<Rightarrow> tool_id_mismatches option" where
  "detectToolIdMismatches contents =
     (case all_parts contents of
        None \<Rightarrow> None
      | Some parts \<Rightarrow>
          (let expected = List.map_filter call_id parts; found = List.map_filter response_id parts
           in Some \<lparr>tm_expectedIds = expected, tm_foundIds = found,
                tm_missingIds = filter (\<lambda>ident. ident \<notin> set found) expected,
                tm_orphanIds = filter (\<lambda>ident. ident \<notin> set expected) found\<rparr>))"

section \<open>Assigning ids\<close>

record id_state =
  is_pending :: "(string, json list) jsmap"
  is_counter :: nat

definition assign_part :: "json \<Rightarrow> id_state \<Rightarrow> json \<times> id_state" where
  "assign_part part st =
     (if is_call part then
        (let call = own_properties (nullish (fld part ''functionCall'') JNull);
             fresh = truthy_of (map_of call ''id'') = None;
             counter = (if fresh then Suc (is_counter st) else is_counter st);
             call1 = (if fresh then AList.update ''id'' (JStr (''tool-call-'' @ show_nat counter)) call else call);
             nameKey = (case map_of call1 ''name'' of Some (JStr s) \<Rightarrow> s | _ \<Rightarrow> ''tool-'' @ show_nat counter);
             queue = nullish (map_of (is_pending st) nameKey) []
         in (with_fld part ''functionCall'' (JObj call1),
             \<lparr>is_pending = AList.update nameKey (queue @ [nullish (map_of call1 ''id'') JNull]) (is_pending st),
              is_counter = counter\<rparr>))
      else (part, st))"

text \<open>Both passes map the parts of the contents whose \<open>parts\<close> is an array.\<close>

definition map_parts :: "(json \<Rightarrow> 's \<Rightarrow> json \<times> 's) \<Rightarrow> json \<Rightarrow> 's \<Rightarrow> json \<times> 's" where
  "map_parts f content st =
     (case arr_fld content ''parts'' of
        None \<Rightarrow> (content, st)
      | Some parts \<Rightarrow> (let (newParts, st') = map_st f parts st in (with_fld content ''parts'' (JArr newParts), st')))"

definition assignToolIdsToContents :: "json list \<Rightarrow> json list \<times> id_state" where
  "assignToolIdsToContents contents =
     map_st (map_parts assign_part) contents \<lparr>is_pending = [], is_counter = 0\<rparr>"

definition match_part :: "json \<Rightarrow> (string, json list) jsmap \<Rightarrow> json \<times> (string, json list) jsmap" where
  "match_part part pending =
     (if is_response part then
        (let resp = own_properties (nullish (fld part ''functionResponse'') JNull);
             queue = (case map_of resp ''name'' of Some (JStr s) \<Rightarrow> nullish (map_of pending s) [] | _ \<Rightarrow> [])
         in case (truthy_of (map_of resp ''id''), map_of resp ''name'', queue) of
              (None, Some (JStr name), ident # rest) \<Rightarrow>
                (with_fld part ''functionResponse'' (JObj (AList.update ''id'' ident resp)),
                 AList.update name rest pending)
            | _ \<Rightarrow> (with_fld part ''functionResponse'' (JObj resp), pending))
      else (part, pending))"

definition matchResponseIdsToContents :: "json list \<Rightarrow> (string, json list) jsmap \<Rightarrow> json list" where
  "matchResponseIdsToContents contents pending = fst (map_st (map_parts match_part) contents pending)"

section \<open>Both formats\<close>

text \<open>
  The payload after the fixes and whether its contents and messages were fixed. A fix that
  throws leaves the later one undone.
\<close>

definition applyToolPairingFixes :: "(num \<Rightarrow> string) \<Rightarrow> js_object \<Rightarrow> bool \<Rightarrow> (js_object \<times> bool \<times> bool) option" where
  "applyToolPairingFixes nt payload isClaude =
     (if \<not> isClaude then Some (payload, False, False)
      else
        (let step1 =
           (case get_arr payload ''contents'' of
              None \<Rightarrow> Some (payload, False)
            | Some contents \<Rightarrow>
                (let (withIds, st) = assignToolIdsToContents contents in
                 case fixToolResponseGrouping (matchResponseIdsToContents withIds (is_pending st)) of
                   None \<Rightarrow> None
                 | Some fixed \<Rightarrow> Some (AList.update ''contents'' (JArr fixed) payload, True)))
         in case step1 of
              None \<Rightarrow> None
            | Some (payload1, contentsFixed) \<Rightarrow>
                (case get_arr payload1 ''messages'' of
                   None \<Rightarrow> Some (payload1, contentsFixed, False)
                 | Some messages \<Rightarrow>
                     (case validateAndFixClaudeToolPairing nt messages of
                        None \<Rightarrow> None
                      | Some fixed \<Rightarrow> Some (AList.update ''messages'' (JArr fixed) payload1, contentsFixed, True)))))"

end
