(* ===== verification/Pairing_Facts.thy ===== *)
theory Pairing_Facts
  imports Tool_Pairing
begin

text \<open>
  Lemmas about the pairing of tool calls and results: what the injection of placeholders keeps
  and adds, and the invariant of grouping Gemini responses.
\<close>

section \<open>Claude messages\<close>

definition all_blocks :: "json list \<Rightarrow> json list" where
  "all_blocks messages = concat (map blocks_of messages)"

lemma all_blocks_simps [simp]:
  "all_blocks [] = []" "all_blocks (m # ms) = blocks_of m @ all_blocks ms"
  by (simp_all add: all_blocks_def)

lemma message_ids_simps [simp]:
  "message_ids f P [] = []"
  "message_ids f P (m # ms) = (if P m then List.map_filter f (blocks_of m) else []) @ message_ids f P ms"
  by (simp_all add: message_ids_def)

lemma message_ids_filter: "filter P ms = filter P ms' \<Longrightarrow> message_ids f P ms = message_ids f P ms'"
  by (simp add: message_ids_def)

lemma message_ids_mono: "(\<And>m. P m \<Longrightarrow> Q m) \<Longrightarrow> set (message_ids f P ms) \<subseteq> set (message_ids f Q ms)"
  by (auto simp: message_ids_def)

lemma use_id_truthy: "use_id block = Some x \<Longrightarrow> truthy x"
  by (auto simp: block_id_def truthy_fld_def split: if_splits option.splits)

lemma result_id_placeholder: "truthy (fst orphan) \<Longrightarrow> result_id (tool_placeholder nt orphan) = Some (fst orphan)"
  by (simp add: tool_placeholder_def block_id_def is_str_def truthy_fld_def)

lemma role_unique: "has_role r m \<Longrightarrow> has_role r' m \<Longrightarrow> r = r'"
  by (simp add: has_role_def is_str_def)

lemma injected_facts [simp]:
  "has_role ''user'' (injected_message ps)" "blocks_of (injected_message ps) = ps"
  "injected_message ps \<noteq> JNull"
  by (simp_all add: injected_message_def has_role_def is_str_def blocks_of_def arr_fld_def)

lemma prepend_facts:
  assumes "accepts_placeholders m"
  shows "has_role ''user'' (prepend_blocks ps m)" "blocks_of (prepend_blocks ps m) = ps @ blocks_of m"
    and "prepend_blocks ps m \<noteq> JNull"
proof -
  obtain ob where m: "m = JObj ob"
    using assms by (cases m) (auto simp: accepts_placeholders_def has_role_def is_str_def)
  then show "has_role ''user'' (prepend_blocks ps m)" "blocks_of (prepend_blocks ps m) = ps @ blocks_of m"
    and "prepend_blocks ps m \<noteq> JNull"
    using assms by (auto simp: prepend_blocks_def accepts_placeholders_def has_role_def is_str_def
        blocks_of_def arr_fld_def with_fld_def update_conv)
qed

lemma accepts_user: "accepts_placeholders m \<Longrightarrow> has_role ''user'' m"
  by (simp add: accepts_placeholders_def)

lemma user_not_assistant: "has_role ''user'' m \<Longrightarrow> \<not> has_role ''assistant'' m"
  by (auto dest: role_unique)

declare map_filter_append [simp]

text \<open>The cases of the loop as equations and as an induction rule.\<close>

lemma inject_eqs:
  "inject_results ph i [] = []"
  "ph i = [] \<Longrightarrow> inject_results ph i (m # rest) = m # inject_results ph (Suc i) rest"
  "ph i \<noteq> [] \<Longrightarrow> inject_results ph i [m] = [m, injected_message (ph i)]"
  "ph i \<noteq> [] \<Longrightarrow> accepts_placeholders n
     \<Longrightarrow> inject_results ph i (m # n # ms) = m # inject_results ph (Suc i) (prepend_blocks (ph i) n # ms)"
  "ph i \<noteq> [] \<Longrightarrow> \<not> accepts_placeholders n
     \<Longrightarrow> inject_results ph i (m # n # ms) = m # injected_message (ph i) # inject_results ph (Suc i) (n # ms)"
  by simp_all

lemma inject_induct [case_names Nil none final merge new]:
  assumes "\<And>i. P i []"
    and "\<And>i m rest. ph i = [] \<Longrightarrow> P (Suc i) rest \<Longrightarrow> P i (m # rest)"
    and "\<And>i m. ph i \<noteq> [] \<Longrightarrow> P i [m]"
    and "\<And>i m n ms. ph i \<noteq> [] \<Longrightarrow> accepts_placeholders n \<Longrightarrow> P (Suc i) (prepend_blocks (ph i) n # ms) \<Longrightarrow> P i (m # n # ms)"
    and "\<And>i m n ms. ph i \<noteq> [] \<Longrightarrow> \<not> accepts_placeholders n \<Longrightarrow> P (Suc i) (n # ms) \<Longrightarrow> P i (m # n # ms)"
  shows "P i ms"
proof (induction "length ms" arbitrary: i ms rule: less_induct)
  case less
  show ?case
  proof (cases ms)
    case Nil
    then show ?thesis by (simp add: assms(1))
  next
    case (Cons m rest)
    show ?thesis
    proof (cases "ph i = []")
      case True
      then show ?thesis using assms(2) less Cons by simp
    next
      case False
      then show ?thesis using assms(3-5) less Cons by (cases rest; cases "accepts_placeholders (hd rest)") simp_all
    qed
  qed
qed

declare inject_results.simps [simp del]

lemma inject_assistants: "filter (has_role ''assistant'') (inject_results ph i ms) = filter (has_role ''assistant'') ms"
  by (induction i ms rule: inject_induct [where ph = ph])
    (simp_all add: inject_eqs user_not_assistant prepend_facts accepts_user)

lemma range_Cons: "{i..<i + length (m # rest)} = insert i {Suc i..<Suc i + length rest}"
  by auto

lemma upt_range_Cons: "[i..<i + length (m # rest)] = i # [Suc i..<Suc i + length rest]"
  by (simp only: length_Cons add_Suc_right add_Suc upt_conv_Cons less_add_Suc1)

lemma inject_results_ids:
  "set (message_ids result_id (has_role ''user'') (inject_results ph i ms)) =
     set (message_ids result_id (has_role ''user'') ms)
     \<union> (\<Union>j \<in> {i..<i + length ms}. set (List.map_filter result_id (ph j)))"
proof (induction i ms rule: inject_induct [where ph = ph])
  case (none i m rest)
  then show ?case unfolding range_Cons by (simp add: inject_eqs List.map_filter_def Un_assoc)
next
  case (merge i m n ms)
  then show ?case unfolding range_Cons [of i] by (auto simp: inject_eqs prepend_facts accepts_user)
next
  case (new i m n ms)
  then show ?case unfolding range_Cons [of i] by (auto simp: inject_eqs)
qed (simp_all add: inject_eqs Un_commute)

lemma subseq_insert: "subseq xs ys \<Longrightarrow> subseq (a @ xs) (a @ b @ ys)"
  by (intro list_emb_append_mono list_emb_append2 [where P = "(=)"]) auto

lemma inject_subseq: "subseq (all_blocks ms) (all_blocks (inject_results ph i ms))"
proof (induction i ms rule: inject_induct [where ph = ph])
  case (none i m rest)
  then show ?case using subseq_insert [of "all_blocks rest" _ "blocks_of m" "[]"] by (simp add: inject_eqs)
next
  case (final i m)
  then show ?case using subseq_insert [of "[]" "[]" "blocks_of m"] by (simp add: inject_eqs)
next
  case (merge i m n ms)
  have "subseq (blocks_of n @ all_blocks ms) (all_blocks (inject_results ph (Suc i) (prepend_blocks (ph i) n # ms)))"
    using merge(3) by (simp add: prepend_facts merge(2)) (meson list_emb_append2 subseq_order.order_refl subseq_order.trans)
  then show ?case using merge(1,2) subseq_insert [of _ _ "blocks_of m" "[]"] by (simp add: inject_eqs)
next
  case (new i m n ms)
  then show ?case using subseq_insert [OF new(3), of "blocks_of m"] by (simp add: inject_eqs)
qed (simp add: inject_eqs)

lemma inject_mset:
  "mset (all_blocks (inject_results ph i ms)) = mset (all_blocks ms) + mset (concat (map ph [i..<i + length ms]))"
proof (induction i ms rule: inject_induct [where ph = ph])
  case (none i m rest)
  then show ?case unfolding upt_range_Cons by (simp add: inject_eqs)
next
  case (merge i m n ms)
  then show ?case unfolding upt_range_Cons [of i] by (simp add: inject_eqs prepend_facts)
next
  case (new i m n ms)
  then show ?case unfolding upt_range_Cons [of i] by (simp add: inject_eqs)
qed (simp_all add: inject_eqs)

definition readable :: "json list \<Rightarrow> bool" where
  "readable ms = list_all (\<lambda>m. m \<noteq> JNull \<and> JNull \<notin> set (blocks_of m)) ms"

lemma readable_simps [simp]:
  "readable []" "readable (m # ms) \<longleftrightarrow> m \<noteq> JNull \<and> JNull \<notin> set (blocks_of m) \<and> readable ms"
  by (simp_all add: readable_def)

lemma inject_readable: "(\<And>j. JNull \<notin> set (ph j)) \<Longrightarrow> readable ms \<Longrightarrow> readable (inject_results ph i ms)"
  by (induction i ms rule: inject_induct [where ph = ph]) (simp_all add: inject_eqs prepend_facts)

section \<open>Orphans\<close>

definition use_at :: "json list \<Rightarrow> json \<times> tool_use_info \<Rightarrow> bool" where
  "use_at ms p \<longleftrightarrow> tu_msgIndex (snd p) < length ms \<and> has_role ''assistant'' (ms ! tu_msgIndex (snd p))
     \<and> fst p \<in> set (List.map_filter use_id (blocks_of (ms ! tu_msgIndex (snd p))))"

lemma tool_use_fold_keys:
  "fst ` set (fold (tool_use_step i) bs m) = fst ` set m \<union> set (List.map_filter use_id bs)"
  by (induction bs arbitrary: m)
    (simp_all add: tool_use_step_def List.map_filter_def dom_update Un_commute Un_left_commute insert_commute split: option.split)

lemma update_all: "\<forall>p \<in> set m. Q p \<Longrightarrow> Q (k, v) \<Longrightarrow> \<forall>p \<in> set (AList.update k v m). Q p"
  by (induction m) auto

lemma tool_use_fold_all:
  assumes "\<forall>p \<in> set m. Q p"
    and "\<And>x info. x \<in> set (List.map_filter use_id bs) \<Longrightarrow> tu_msgIndex info = i \<Longrightarrow> Q (x, info)"
  shows "\<forall>p \<in> set (fold (tool_use_step i) bs m). Q p"
  using assms
proof (induction bs arbitrary: m)
  case Nil
  then show ?case by simp
next
  case (Cons b bs)
  have "\<forall>p \<in> set (tool_use_step i b m). Q p"
  proof (cases "use_id b")
    case None
    then show ?thesis using Cons.prems(1) by (simp add: tool_use_step_def)
  next
    case (Some x)
    then have "Q (x, info)" if "tu_msgIndex info = i" for info
      using Cons.prems(2) [of x info] that by (simp add: List.map_filter_def)
    then show ?thesis unfolding tool_use_step_def Some option.case
      by (intro update_all [OF Cons.prems(1)]) simp
  qed
  then show ?case using Cons.IH [of "tool_use_step i b m"] Cons.prems(2)
    by (simp add: List.map_filter_def split: option.splits)
qed

lemma tool_use_fold_wf: "jm_wf m \<Longrightarrow> jm_wf (fold (tool_use_step i) bs m)"
  by (induction bs arbitrary: m) (auto simp: tool_use_step_def split: option.split)

lemma collect_wf: "jm_wf m \<Longrightarrow> jm_wf (collect_tool_uses i ms m)"
  by (induction ms arbitrary: i m) (simp_all add: tool_use_fold_wf)

lemma collect_keys:
  "fst ` set (collect_tool_uses i ms m) = fst ` set m \<union> set (message_ids use_id (has_role ''assistant'') ms)"
  by (induction ms arbitrary: i m) (auto simp: tool_use_fold_keys)

lemma collect_all:
  assumes "\<forall>p \<in> set m. Q p"
    and "\<And>j x info. j < length ms \<Longrightarrow> has_role ''assistant'' (ms ! j)
           \<Longrightarrow> x \<in> set (List.map_filter use_id (blocks_of (ms ! j))) \<Longrightarrow> tu_msgIndex info = i + j \<Longrightarrow> Q (x, info)"
  shows "\<forall>p \<in> set (collect_tool_uses i ms m). Q p"
  using assms
proof (induction ms arbitrary: i m)
  case Nil
  then show ?case by simp
next
  case (Cons msg ms)
  let ?m = "if has_role ''assistant'' msg then fold (tool_use_step i) (blocks_of msg) m else m"
  have "\<forall>p \<in> set ?m. Q p"
    using tool_use_fold_all [of m Q "blocks_of msg" i] Cons.prems(1) Cons.prems(2) [of 0] by auto
  moreover have "Q (x, info)"
    if "j < length ms" "has_role ''assistant'' (ms ! j)" "x \<in> set (List.map_filter use_id (blocks_of (ms ! j)))"
      "tu_msgIndex info = Suc i + j" for j x info
    using Cons.prems(2) [of "Suc j"] that by simp
  ultimately show ?case using Cons.IH [of ?m "Suc i"] by simp
qed

lemma collected_uses: "p \<in> set (collect_tool_uses 0 ms []) \<Longrightarrow> use_at ms p"
  using collect_all [of "[]" "use_at ms" ms 0] by (auto simp: use_at_def)

lemma orphan_at: "p \<in> set (tool_orphans ms) \<Longrightarrow> use_at ms p"
  by (rule collected_uses) (simp add: tool_orphans_def)

lemma map_filter_truthy: "x \<in> set (List.map_filter use_id bs) \<Longrightarrow> truthy x"
  by (auto simp: List.map_filter_def dest: use_id_truthy)

text \<open>Assistant messages whose calls all have a result.\<close>

definition paired :: "json list \<Rightarrow> bool" where
  "paired ms \<longleftrightarrow> set (message_ids use_id (has_role ''assistant'') ms) \<subseteq> set (message_ids result_id (has_role ''user'') ms)"

lemma no_orphans_iff: "tool_orphans ms = [] \<longleftrightarrow> paired ms"
proof -
  have "tool_orphans ms = [] \<longleftrightarrow> fst ` set (collect_tool_uses 0 ms []) \<subseteq> set (message_ids result_id (has_role ''user'') ms)"
    by (auto simp: tool_orphans_def filter_empty_conv)
  then show ?thesis by (simp add: collect_keys paired_def)
qed

lemma placeholders_ids:
  "set (List.map_filter result_id (placeholders_at nt (tool_orphans ms) j))
     = fst ` {p \<in> set (tool_orphans ms). tu_msgIndex (snd p) = j}"
proof -
  have "result_id (tool_placeholder nt p) = Some (fst p)" if "p \<in> set (tool_orphans ms)" for p
    using collected_uses [of p ms] that map_filter_truthy
    by (intro result_id_placeholder) (auto simp: tool_orphans_def use_at_def)
  then show ?thesis
    by (force simp: placeholders_at_def List.map_filter_def image_iff)
qed

lemma placeholders_no_null: "JNull \<notin> set (placeholders_at nt orphans j)"
  by (auto simp: placeholders_at_def tool_placeholder_def)

lemma inject_paired:
  "paired (inject_results (placeholders_at nt (tool_orphans ms)) 0 ms)"
proof -
  let ?r = "inject_results (placeholders_at nt (tool_orphans ms)) 0 ms"
  have "x \<in> set (message_ids result_id (has_role ''user'') ?r)"
    if x: "x \<in> set (message_ids use_id (has_role ''assistant'') ms)" for x
  proof (cases "x \<in> set (message_ids result_id (has_role ''user'') ms)")
    case True
    then show ?thesis by (simp add: inject_results_ids)
  next
    case False
    obtain info where p: "(x, info) \<in> set (collect_tool_uses 0 ms [])"
      using x collect_keys [of 0 ms "[]"] by (force simp: image_iff)
    then have "(x, info) \<in> set (tool_orphans ms)" using False by (simp add: tool_orphans_def)
    moreover have "tu_msgIndex info < length ms" using collected_uses [OF p] by (simp add: use_at_def)
    ultimately show ?thesis by (force simp: inject_results_ids placeholders_ids)
  qed
  then show ?thesis
    using message_ids_filter [OF inject_assistants, of use_id "placeholders_at nt (tool_orphans ms)" 0 ms]
    by (auto simp: paired_def)
qed

lemma concat_placeholders:
  "mset (concat (map (placeholders_at nt (tool_orphans ms)) [0..<length ms])) = mset (map (tool_placeholder nt) (tool_orphans ms))"
proof -
  have "mset (concat (map (\<lambda>j. filter (\<lambda>p. tu_msgIndex (snd p) = j) ps) [0..<n])) = mset ps"
    if "\<forall>p \<in> set ps. tu_msgIndex (snd p) < n" for n and ps :: tool_use_map
    using that
  proof (induction n arbitrary: ps)
    case 0
    then have "ps = []" by (cases ps) auto
    then show ?case by simp
  next
    case (Suc n)
    let ?lo = "filter (\<lambda>p. tu_msgIndex (snd p) < n) ps"
    have eq: "map (\<lambda>j. filter (\<lambda>p. tu_msgIndex (snd p) = j) ?lo) [0..<n] = map (\<lambda>j. filter (\<lambda>p. tu_msgIndex (snd p) = j) ps) [0..<n]"
      by (auto intro!: filter_cong)
    have "mset (concat (map (\<lambda>j. filter (\<lambda>p. tu_msgIndex (snd p) = j) ?lo) [0..<n])) = mset ?lo"
      by (rule Suc.IH) simp
    then have low: "mset (concat (map (\<lambda>j. filter (\<lambda>p. tu_msgIndex (snd p) = j) ps) [0..<n])) = mset ?lo"
      unfolding eq .
    have "filter (\<lambda>p. tu_msgIndex (snd p) = n) ps = filter (\<lambda>p. \<not> tu_msgIndex (snd p) < n) ps"
      using Suc.prems by (auto intro!: filter_cong)
    then show ?case
      using multiset_partition [of "mset ps" "\<lambda>p. tu_msgIndex (snd p) < n"] by (simp add: low)
  qed
  then have "mset (concat (map (\<lambda>j. filter (\<lambda>p. tu_msgIndex (snd p) = j) (tool_orphans ms)) [0..<length ms])) = mset (tool_orphans ms)"
    by (rule) (use orphan_at in \<open>auto simp: use_at_def\<close>)
  then have "image_mset (tool_placeholder nt) (mset (concat (map (\<lambda>j. filter (\<lambda>p. tu_msgIndex (snd p) = j) (tool_orphans ms)) [0..<length ms])))
      = mset (map (tool_placeholder nt) (tool_orphans ms))"
    by simp
  moreover have "concat (map (placeholders_at nt (tool_orphans ms)) js)
      = map (tool_placeholder nt) (concat (map (\<lambda>j. filter (\<lambda>p. tu_msgIndex (snd p) = j) (tool_orphans ms)) js))" for js
    by (simp add: placeholders_at_def [abs_def] case_prod_unfold map_concat comp_def)
  ultimately show ?thesis by simp
qed

text \<open>Reading every block of every message throws unless the messages are readable.\<close>

lemma fix_readable:
  assumes "readable ms"
  shows "\<exists>r. fixClaudeToolPairing nt ms = Some r \<and> readable r"
proof -
  have "\<not> list_ex (\<lambda>m. m = JNull \<or> (has_role ''assistant'' m \<or> has_role ''user'' m) \<and> JNull \<in> set (blocks_of m)) ms"
    using assms by (auto simp: readable_def list_all_iff list_ex_iff)
  moreover have "JNull \<notin> set (placeholders_at nt (tool_orphans ms) j)" for j
    by (rule placeholders_no_null)
  ultimately show ?thesis using assms inject_readable [of "placeholders_at nt (tool_orphans ms)" ms 0]
    by (simp add: fixClaudeToolPairing_def)
qed

lemma orphans_readable: "findOrphanedToolUseIds ms = None \<longleftrightarrow> \<not> readable ms"
  by (auto simp: findOrphanedToolUseIds_def readable_def list_all_iff list_ex_iff)

lemma fix_outcome:
  assumes "fixClaudeToolPairing nt ms = Some r"
  shows "paired r" "subseq (all_blocks ms) (all_blocks r)"
    "mset (all_blocks r) = mset (all_blocks ms) + mset (map (tool_placeholder nt) (tool_orphans ms))"
    "filter (has_role ''assistant'') r = filter (has_role ''assistant'') ms"
    "readable r \<longleftrightarrow> readable ms"
proof -
  let ?ph = "placeholders_at nt (tool_orphans ms)"
  have r: "r = (if tool_orphans ms = [] then ms else inject_results ?ph 0 ms)"
    using assms by (simp add: fixClaudeToolPairing_def split: if_splits)
  show "paired r" using inject_paired no_orphans_iff by (auto simp: r)
  show "subseq (all_blocks ms) (all_blocks r)" using inject_subseq by (simp add: r)
  show "mset (all_blocks r) = mset (all_blocks ms) + mset (map (tool_placeholder nt) (tool_orphans ms))"
    using inject_mset [of ?ph 0 ms] concat_placeholders [of nt ms] by (simp add: r)
  show "filter (has_role ''assistant'') r = filter (has_role ''assistant'') ms"
    using inject_assistants by (simp add: r)
  have "JNull \<notin> set (?ph j)" for j by (rule placeholders_no_null)
  moreover have "readable ms" if "readable (inject_results ?ph 0 ms)"
  proof -
    have "\<not> list_ex (\<lambda>m. m = JNull) ms" using assms by (auto simp: fixClaudeToolPairing_def list_ex_iff split: if_splits)
    moreover have "set (all_blocks ms) \<subseteq> set (all_blocks (inject_results ?ph 0 ms))"
      using inject_mset [of ?ph 0 ms] by (metis Un_upper1 set_mset_mset set_mset_union)
    ultimately show ?thesis using that
      by (auto simp: readable_def list_all_iff list_ex_iff all_blocks_def)
  qed
  ultimately show "readable r \<longleftrightarrow> readable ms" using inject_readable [of ?ph ms 0] by (auto simp: r)
qed

text \<open>Removing orphans removes no call: those of assistants are paired.\<close>

definition drop_empty :: "json list \<Rightarrow> json list" where
  "drop_empty = filter (\<lambda>m. \<not> (has_role ''assistant'' m \<and> arr_fld m ''content'' = Some []))"

lemma with_same: "arr_fld m k = Some xs \<Longrightarrow> with_fld m k (JArr xs) = m"
  by (cases m) (auto simp: arr_fld_def with_fld_def update_same split: option.splits json.splits)

lemma remove_keeps:
  assumes "paired ms" "findOrphanedToolUseIds ms = Some orphans"
  shows "removeOrphanedToolUse ms orphans = drop_empty ms"
proof -
  have disj: "x \<notin> set orphans" if "x \<in> set (message_ids use_id (has_role ''assistant'') ms)" for x
    using that assms message_ids_mono [of "has_role ''user''" "\<lambda>m. True" result_id ms]
    by (auto simp: paired_def findOrphanedToolUseIds_def split: if_splits)
  have truthy: "truthy x" if "x \<in> set orphans" for x
    using that assms(2) use_id_truthy
    by (auto simp: findOrphanedToolUseIds_def message_ids_def List.map_filter_def split: if_splits)
  have "filter (\<lambda>b. \<not> is_str (fld b ''type'') ''tool_use''
             \<or> (case fld b ''id'' of None \<Rightarrow> True | Some x \<Rightarrow> x \<notin> set orphans)) (blocks_of m) = blocks_of m"
    if m: "m \<in> set ms" "has_role ''assistant'' m" for m
  proof (rule filter_True, rule ballI, rule ccontr)
    fix b assume b: "b \<in> set (blocks_of m)"
      and bad: "\<not> (\<not> is_str (fld b ''type'') ''tool_use'' \<or> (case fld b ''id'' of None \<Rightarrow> True | Some x \<Rightarrow> x \<notin> set orphans))"
    then obtain x where x: "is_str (fld b ''type'') ''tool_use''" "fld b ''id'' = Some x" "x \<in> set orphans"
      by (auto split: option.splits)
    then have "use_id b = Some x" using truthy by (simp add: block_id_def truthy_fld_def)
    then have "x \<in> set (message_ids use_id (has_role ''assistant'') ms)"
      using m b by (force simp: message_ids_def List.map_filter_def)
    then show False using disj x(3) by blast
  qed
  then have "map (\<lambda>m. if has_role ''assistant'' m \<and> arr_fld m ''content'' \<noteq> None
         then with_fld m ''content'' (JArr (filter
                (\<lambda>block. \<not> is_str (fld block ''type'') ''tool_use''
                   \<or> (case fld block ''id'' of None \<Rightarrow> True | Some ident \<Rightarrow> ident \<notin> set orphans))
                (blocks_of m)))
         else m) ms = ms"
    by (auto intro!: map_idI with_same simp: blocks_of_def)
  then show ?thesis by (simp add: removeOrphanedToolUse_def drop_empty_def)
qed

lemma drop_empty_facts:
  "all_blocks (drop_empty ms) = all_blocks ms" "readable ms \<Longrightarrow> readable (drop_empty ms)"
  "message_ids f P (drop_empty ms) = message_ids f P ms" "drop_empty (drop_empty ms) = drop_empty ms"
  by (induction ms) (auto simp: drop_empty_def blocks_of_def List.map_filter_def)

lemma drop_empty_paired: "paired (drop_empty ms) = paired ms"
  by (simp add: paired_def drop_empty_facts)

lemma orphans_drop: "readable ms \<Longrightarrow> findOrphanedToolUseIds (drop_empty ms) = findOrphanedToolUseIds ms"
  using drop_empty_facts(2) [of ms] orphans_readable [of ms] orphans_readable [of "drop_empty ms"]
  by (auto simp: findOrphanedToolUseIds_def drop_empty_facts split: if_splits)

lemma fix_paired: "readable ms \<Longrightarrow> paired ms \<Longrightarrow> fixClaudeToolPairing nt ms = Some ms"
  by (auto simp: fixClaudeToolPairing_def no_orphans_iff readable_def list_all_iff list_ex_iff)

section \<open>Gemini contents\<close>

definition parts_of :: "json \<Rightarrow> json list" where
  "parts_of c = nullish (array_or_empty c ''parts'') []"

definition content_parts_ok :: "json \<Rightarrow> bool" where
  "content_parts_ok c \<longleftrightarrow> c \<noteq> JNull \<and> array_or_empty c ''parts'' \<noteq> None"

lemma map_filter_empty: "List.map_filter f ps = [] \<longleftrightarrow> (\<forall>p \<in> set ps. f p = None)"
  by (induction ps) (auto split: option.split)

lemma map_filter_none: "\<forall>p \<in> set ps. f p = None \<Longrightarrow> List.map_filter f ps = []"
  by (simp add: map_filter_empty)

definition ids_in :: "(json \<Rightarrow> json option) \<Rightarrow> json list \<Rightarrow> json set" where
  "ids_in f cs = {x. \<exists>c \<in> set cs. \<exists>p \<in> set (parts_of c). f p = Some x}"

lemma ids_in_simps [simp]:
  "ids_in f [] = {}" "ids_in f (xs @ ys) = ids_in f xs \<union> ids_in f ys"
  "ids_in f (c # cs) = set (List.map_filter f (parts_of c)) \<union> ids_in f cs"
  by (auto simp: ids_in_def set_map_filter_conv)

text \<open>Function calls occur in messages of the model only, and not beside responses.\<close>

definition separate_calls :: "json \<Rightarrow> bool" where
  "separate_calls c \<longleftrightarrow> list_ex is_call (parts_of c) \<longrightarrow> has_role ''model'' c \<and> \<not> list_ex is_response (parts_of c)"

lemma inner_call: "call_id p = Some x \<Longrightarrow> is_call p"
  by (auto simp: inner_fld_def is_call_def truthy_fld_def truthy_of_def fld_def truthy_def split: option.splits if_splits json.splits)

lemma inner_response: "response_id p = Some x \<Longrightarrow> is_response p"
  by (auto simp: inner_fld_def is_response_def truthy_fld_def truthy_of_def fld_def truthy_def split: option.splits if_splits json.splits)

lemma inner_truthy: "inner_fld p k k' = Some x \<Longrightarrow> truthy x"
  by (auto simp: inner_fld_def truthy_of_def split: option.splits if_splits)

definition collected_ok :: "response_map \<Rightarrow> bool" where
  "collected_ok m \<longleftrightarrow> jm_wf m \<and> (\<forall>(x, resp) \<in> set m. response_id resp = Some x \<and> \<not> is_call resp)"

lemma collected_okD: "collected_ok m \<Longrightarrow> map_of m x = Some resp \<Longrightarrow> response_id resp = Some x \<and> \<not> is_call resp"
  by (auto simp: collected_ok_def dest: map_of_SomeD)

lemma collected_delete: "collected_ok m \<Longrightarrow> collected_ok (AList.delete x m)"
  using set_delete_subset [of x m] by (auto simp: collected_ok_def)

lemma collect_response_ok:
  "collected_ok m \<Longrightarrow> \<not> is_call resp \<Longrightarrow> collected_ok (collect_response resp m)"
proof (cases "response_id resp")
  case (Some x)
  assume "collected_ok m" "\<not> is_call resp"
  with Some have "\<forall>p \<in> set (AList.update x resp m). (case p of (x, resp) \<Rightarrow> response_id resp = Some x \<and> \<not> is_call resp)"
    by (intro update_all) (simp_all add: collected_ok_def)
  then show ?thesis using \<open>collected_ok m\<close> Some by (simp add: collected_ok_def collect_response_def)
qed (simp add: collect_response_def)

lemma collect_fold_ok:
  "collected_ok m \<Longrightarrow> \<forall>p \<in> set ps. \<not> is_call p \<Longrightarrow> collected_ok (fold collect_response ps m)"
  by (induction ps arbitrary: m) (simp_all add: collect_response_ok)

lemma not_call_id: "\<not> is_call p \<Longrightarrow> call_id p = None"
  using inner_call by (cases "call_id p") auto

text \<open>Answering a group takes a response for each of its ids, and nothing that is a call.\<close>

lemma take_responses_facts:
  assumes "collected_ok m"
  shows "collected_ok (snd (take_responses ids m))"
    and "\<forall>p \<in> set (fst (take_responses ids m)). \<not> is_call p"
    and "set (List.map_filter response_id (fst (take_responses ids m))) \<subseteq> set ids"
    and "list_all (jm_has m) ids \<Longrightarrow> set ids \<subseteq> set (List.map_filter response_id (fst (take_responses ids m)))"
proof -
  have null: "\<not> is_call JNull" "response_id JNull = None" by (simp_all add: inner_fld_def is_call_def truthy_fld_def)
  have "collected_ok (snd (take_responses ids m)) \<and> (\<forall>p \<in> set (fst (take_responses ids m)). \<not> is_call p)
      \<and> set (List.map_filter response_id (fst (take_responses ids m))) \<subseteq> set ids"
    using assms
  proof (induction ids arbitrary: m)
    case Nil
    then show ?case by (simp add:)
  next
    case (Cons x ids)
    then show ?case using Cons.IH [OF collected_delete [OF Cons.prems], of x] collected_okD [OF Cons.prems, of x]
      by (cases "map_of m x") (auto simp: split_beta Let_def null)
  qed
  then show "collected_ok (snd (take_responses ids m))"
    and "\<forall>p \<in> set (fst (take_responses ids m)). \<not> is_call p"
    and "set (List.map_filter response_id (fst (take_responses ids m))) \<subseteq> set ids" by blast+
  have "x \<in> set (List.map_filter response_id (fst (take_responses ids m)))"
    if "x \<in> set ids" "jm_has m x" "collected_ok m" for x
    using that
  proof (induction ids arbitrary: m)
    case Nil
    then show ?case by simp
  next
    case (Cons y ids)
    show ?case
    proof (cases "x = y")
      case True
      then obtain resp where "map_of m y = Some resp" "response_id resp = Some y"
        using Cons.prems(2) collected_okD [OF Cons.prems(3)] by (auto simp: jm_has_def)
      then show ?thesis using True by (simp add: split_beta Let_def)
    next
      case False
      then have "jm_has (AList.delete y m) x" using Cons.prems(2) by (simp add: jm_has_def delete_conv')
      then show ?thesis using Cons.IH [OF _ _ collected_delete [OF Cons.prems(3)], of y] Cons.prems(1) False
        by (simp add: split_beta Let_def split: option.split)
    qed
  qed
  then show "list_all (jm_has m) ids \<Longrightarrow> set ids \<subseteq> set (List.map_filter response_id (fst (take_responses ids m)))"
    using assms by (auto simp: list_all_iff)
qed

lemma user_content_facts [simp]: "parts_of (user_content ps) = ps" "content_parts_ok (user_content ps)"
  by (simp_all add: parts_of_def content_parts_ok_def user_content_def array_or_empty_def)

definition group_ids :: "call_group list \<Rightarrow> json set" where
  "group_ids grps = (\<Union>grp \<in> set grps. set (cg_ids grp))"

text \<open>
  The invariant of the first pass: every response in the new contents answers a call of them,
  and every call is answered or pending.
\<close>

definition grouping_ok :: "grouping \<Rightarrow> bool" where
  "grouping_ok g \<longleftrightarrow> collected_ok (gr_collected g)
     \<and> list_all content_parts_ok (gr_contents g)
     \<and> ids_in response_id (gr_contents g) \<subseteq> ids_in call_id (gr_contents g)
     \<and> ids_in call_id (gr_contents g) \<subseteq> ids_in response_id (gr_contents g) \<union> group_ids (gr_pending g)
     \<and> group_ids (gr_pending g) \<subseteq> ids_in call_id (gr_contents g)
     \<and> (\<forall>grp \<in> set (gr_pending g). \<forall>x \<in> set (cg_ids grp). truthy x)"

lemma satisfy_last_ok:
  assumes "grouping_ok g"
  shows "grouping_ok (satisfy_last g)"
proof (cases "List.extract (\<lambda>grp. list_all (jm_has (gr_collected g)) (cg_ids grp)) (rev (gr_pending g))")
  case None
  then show ?thesis using assms by (simp add: satisfy_last_def)
next
  case (Some t)
  obtain later grp earlier where t: "t = (later, grp, earlier)" by (metis prod_cases3)
  have e: "rev (gr_pending g) = later @ grp # earlier" "list_all (jm_has (gr_collected g)) (cg_ids grp)"
    using extract_SomeE [OF Some [unfolded t]] by simp_all
  have "gr_pending g = rev (rev (gr_pending g))" by simp
  then have "gr_pending g = rev earlier @ grp # rev later" unfolding e(1) by simp
  then have p: "group_ids (gr_pending g) = set (cg_ids grp) \<union> group_ids (rev (later @ earlier))"
      "set (rev (later @ earlier)) \<subseteq> set (gr_pending g)"
    by (auto simp: group_ids_def)
  have c: "collected_ok (gr_collected g)" using assms by (simp add: grouping_ok_def)
  note r = take_responses_facts [OF c, of "cg_ids grp"]
  show ?thesis
    using assms r(1,3) r(4) [OF e(2)] map_filter_none [of _ call_id, OF ballI [OF not_call_id]] r(2) p
    by (auto simp: satisfy_last_def Some t split_beta Let_def grouping_ok_def)
qed

lemma group_step_ok:
  assumes "grouping_ok g" "separate_calls c" "group_step c g = Some g'"
  shows "grouping_ok g'"
proof -
  obtain ps where c: "c \<noteq> JNull" "array_or_empty c ''parts'' = Some ps"
    using assms(3) by (auto simp: group_step_def split: if_splits option.splits)
  then have ps: "parts_of c = ps" "content_parts_ok c" by (simp_all add: parts_of_def content_parts_ok_def)
  show ?thesis
  proof (cases "filter is_response ps = []")
    case False
    then have "\<forall>p \<in> set (filter is_response ps). \<not> is_call p"
      using assms(2) by (auto simp: separate_calls_def ps list_ex_iff filter_empty_conv)
    then have "grouping_ok (g\<lparr>gr_collected := fold collect_response (filter is_response ps) (gr_collected g)\<rparr>)"
      using assms(1) collect_fold_ok by (simp add: grouping_ok_def)
    then show ?thesis using assms(3) c False satisfy_last_ok by (auto simp: group_step_def)
  next
    case True
    have resp: "List.map_filter response_id ps = []"
      using True inner_response by (intro map_filter_none) (fastforce simp: filter_empty_conv)
    have calls: "List.map_filter call_id (filter is_call ps) = List.map_filter call_id ps"
      by (induction ps) (simp_all add: not_call_id split: option.split)
    have truthy: "\<forall>x \<in> set (List.map_filter call_id ps). truthy x"
      using inner_truthy by (fastforce simp: set_map_filter_conv)
    let ?g = "g\<lparr>gr_contents := gr_contents g @ [c]\<rparr>"
    let ?grp = "group_of_calls (filter is_call ps) (length (gr_contents g))"
    have g': "g' = (if has_role ''model'' c \<and> cg_ids ?grp \<noteq> [] then ?g\<lparr>gr_pending := gr_pending ?g @ [?grp]\<rparr> else ?g)"
      using assms(3) c True by (simp add: group_step_def Let_def)
    have ids: "cg_ids ?grp = List.map_filter call_id ps" by (simp add: group_of_calls_def calls)
    show ?thesis
    proof (cases "List.map_filter call_id ps = []")
      case True
      then show ?thesis using assms(1) resp ps g' ids by (simp add: grouping_ok_def)
    next
      case False
      then have "list_ex is_call ps" using inner_call by (fastforce simp: map_filter_empty list_ex_iff)
      then have "has_role ''model'' c" using assms(2) by (simp add: separate_calls_def ps)
      then show ?thesis using assms(1) resp ps g' ids False truthy
        by (auto simp: grouping_ok_def group_ids_def)
    qed
  qed
qed

lemma group_contents_ok:
  "grouping_ok g \<Longrightarrow> list_all separate_calls cs \<Longrightarrow> group_contents cs g = Some g' \<Longrightarrow> grouping_ok g'"
  by (induction cs arbitrary: g) (auto split: option.splits dest: group_step_ok)

text \<open>Contents all of whose calls have an id stay so: the added ones have no calls.\<close>

definition calls_named :: "json \<Rightarrow> bool" where
  "calls_named c \<longleftrightarrow> list_all (\<lambda>p. is_call p \<longrightarrow> call_id p \<noteq> None) (parts_of c)"

definition named_ok :: "grouping \<Rightarrow> bool" where
  "named_ok g \<longleftrightarrow> collected_ok (gr_collected g) \<and> list_all calls_named (gr_contents g)"

lemma user_content_named: "\<forall>p \<in> set ps. \<not> is_call p \<Longrightarrow> calls_named (user_content ps)"
  by (simp add: calls_named_def list_all_iff)

lemma satisfy_last_named: "named_ok g \<Longrightarrow> named_ok (satisfy_last g)"
  using take_responses_facts [of "gr_collected g"]
  by (auto simp: named_ok_def satisfy_last_def split_beta Let_def user_content_named split: option.split)

lemma group_step_named:
  assumes "named_ok g" "separate_calls c" "calls_named c" "group_step c g = Some g'"
  shows "named_ok g'"
proof -
  obtain ps where c: "c \<noteq> JNull" "array_or_empty c ''parts'' = Some ps"
    using assms(4) by (auto simp: group_step_def split: if_splits option.splits)
  then have ps: "parts_of c = ps" by (simp add: parts_of_def)
  show ?thesis
  proof (cases "filter is_response ps = []")
    case False
    then have "\<forall>p \<in> set (filter is_response ps). \<not> is_call p"
      using assms(2) by (auto simp: separate_calls_def ps list_ex_iff filter_empty_conv)
    then have "named_ok (g\<lparr>gr_collected := fold collect_response (filter is_response ps) (gr_collected g)\<rparr>)"
      using assms(1) collect_fold_ok by (simp add: named_ok_def)
    then show ?thesis using assms(4) c False satisfy_last_named by (auto simp: group_step_def)
  next
    case True
    then show ?thesis using assms c by (auto simp: group_step_def Let_def named_ok_def split: if_splits)
  qed
qed

lemma group_contents_named:
  "named_ok g \<Longrightarrow> list_all separate_calls cs \<Longrightarrow> list_all calls_named cs \<Longrightarrow> group_contents cs g = Some g' \<Longrightarrow> named_ok g'"
  by (induction cs arbitrary: g) (auto split: option.splits dest: group_step_named)

section \<open>Recovering responses\<close>

lemma find_orphan_member: "find_orphan n m = Some (x, resp) \<Longrightarrow> (x, resp) \<in> set m"
  by (auto simp: find_orphan_def split: option.splits list.splits dest!: find_Some_member)

lemma adopt_facts:
  assumes "response_id resp = Some y" "\<not> is_call resp" "truthy x"
  shows "response_id (adopt_response x n resp) = Some x \<and> \<not> is_call (adopt_response x n resp)"
proof -
  obtain ob fr where "resp = JObj ob" "map_of ob ''functionResponse'' = Some (JObj fr)"
    using assms(1) by (auto simp: inner_fld_def fld_def truthy_of_def split: option.splits json.splits if_splits)
  then show ?thesis using assms(2,3)
    by (auto simp: adopt_response_def inner_fld_def with_fld_def Let_def update_conv truthy_of_def
        is_call_def truthy_fld_def fld_def)
qed

lemma recover_response_facts:
  assumes "collected_ok m" "truthy x"
  shows "response_id (fst (recover_response x n m)) = Some x \<and> \<not> is_call (fst (recover_response x n m))
     \<and> collected_ok (snd (recover_response x n m))"
proof (cases "map_of m x")
  case (Some resp)
  then show ?thesis using collected_okD [OF assms(1) Some] collected_delete [OF assms(1)]
    by (simp add: recover_response_def)
next
  case None
  show ?thesis
  proof (cases "find_orphan n m")
    case None
    then show ?thesis using assms \<open>map_of m x = None\<close>
      by (simp add: recover_response_def lost_response_def inner_fld_def truthy_of_def is_call_def truthy_fld_def)
  next
    case (Some p)
    obtain y resp where p: "p = (y, resp)" by fastforce
    then have "response_id resp = Some y \<and> \<not> is_call resp"
      using find_orphan_member [of n m y resp] Some assms(1) by (auto simp: collected_ok_def)
    then show ?thesis using adopt_facts [of resp y x n] assms collected_delete [OF assms(1)] None Some p
      by (simp add: recover_response_def)
  qed
qed

lemma recover_ids_facts:
  assumes "collected_ok m" "\<forall>x \<in> set ids. truthy x"
  shows "List.map_filter response_id (fst (recover_ids ids names m)) = ids
     \<and> (\<forall>p \<in> set (fst (recover_ids ids names m)). \<not> is_call p)
     \<and> collected_ok (snd (recover_ids ids names m))"
  using assms
proof (induction ids arbitrary: names m)
  case Nil
  then show ?case by (simp add:)
next
  case (Cons x ids)
  let ?n = "case names of [] \<Rightarrow> JStr [] | n # ns \<Rightarrow> n"
  have r: "response_id (fst (recover_response x ?n m)) = Some x" "\<not> is_call (fst (recover_response x ?n m))"
      "collected_ok (snd (recover_response x ?n m))"
    using recover_response_facts [OF Cons.prems(1), of x ?n] Cons.prems(2) by simp_all
  then show ?case using Cons.IH [OF r(3), of "tl names"] Cons.prems(2)
    by (simp add: split_beta Let_def not_call_id)
qed

lemma ids_in_insert: "ids_in f (insert_after k c cs) = set (List.map_filter f (parts_of c)) \<union> ids_in f cs"
proof -
  have "ids_in f cs = ids_in f (take (k + 1) cs) \<union> ids_in f (drop (k + 1) cs)"
    by (metis append_take_drop_id ids_in_simps(2))
  then show ?thesis by (auto simp: insert_after_def)
qed

lemma insert_after_all: "list_all P cs \<Longrightarrow> P c \<Longrightarrow> list_all P (insert_after k c cs)"
  by (auto simp: insert_after_def list_all_iff dest: in_set_takeD in_set_dropD)

lemma recover_groups_facts:
  assumes "collected_ok m" "\<forall>grp \<in> set grps. \<forall>x \<in> set (cg_ids grp). truthy x" "list_all content_parts_ok cs"
  shows "ids_in response_id (recover_groups grps cs m) = ids_in response_id cs \<union> group_ids grps
     \<and> ids_in call_id (recover_groups grps cs m) = ids_in call_id cs
     \<and> list_all content_parts_ok (recover_groups grps cs m)
     \<and> (list_all calls_named cs \<longrightarrow> list_all calls_named (recover_groups grps cs m))"
  using assms
proof (induction grps arbitrary: cs m)
  case Nil
  then show ?case by (simp add: group_ids_def)
next
  case (Cons grp grps)
  have r: "List.map_filter response_id (fst (recover_ids (cg_ids grp) (cg_funcNames grp) m)) = cg_ids grp"
      "\<forall>p \<in> set (fst (recover_ids (cg_ids grp) (cg_funcNames grp) m)). \<not> is_call p"
      "collected_ok (snd (recover_ids (cg_ids grp) (cg_funcNames grp) m))"
    using recover_ids_facts [OF Cons.prems(1), of "cg_ids grp" "cg_funcNames grp"] Cons.prems(2) by simp_all
  let ?rs = "fst (recover_ids (cg_ids grp) (cg_funcNames grp) m)"
  let ?cs = "if ?rs = [] then cs else insert_after (cg_insertAfterIdx grp) (user_content ?rs) cs"
  have "ids_in response_id ?cs = ids_in response_id cs \<union> set (cg_ids grp)" "ids_in call_id ?cs = ids_in call_id cs"
    using r(1) map_filter_none [of ?rs call_id] r(2) not_call_id by (auto simp: ids_in_insert)
  moreover have "list_all content_parts_ok ?cs" using Cons.prems(3) by (simp add: insert_after_all)
  moreover have "list_all calls_named cs \<longrightarrow> list_all calls_named ?cs"
    using user_content_named [OF r(2)] by (simp add: insert_after_all)
  ultimately show ?case using Cons.IH [OF r(3), of ?cs] Cons.prems(2)
    by (simp add: split_beta Let_def group_ids_def Un_assoc)
qed

lemma all_parts_ok:
  "list_all content_parts_ok cs \<Longrightarrow> all_parts cs = Some (concat (map parts_of cs))"
proof (induction cs)
  case Nil
  then show ?case by simp
next
  case (Cons c cs)
  then have "iterated_parts c = Some (parts_of c)" "c \<noteq> JNull"
    by (auto simp: content_parts_ok_def parts_of_def iterated_parts_def array_or_empty_def truthy_def
        split: option.splits json.splits if_splits)
  then show ?case using Cons by simp
qed

lemma map_filter_concat: "set (List.map_filter f (concat (map parts_of cs))) = ids_in f cs"
  by (auto simp: ids_in_def set_map_filter_conv)

text \<open>What a successful grouping returns.\<close>

lemma grouping_outcome:
  assumes "list_all separate_calls cs" "fixToolResponseGrouping cs = Some r"
  shows "list_all content_parts_ok r" "ids_in response_id r = ids_in call_id r"
    "list_all calls_named cs \<Longrightarrow> list_all calls_named r"
proof -
  obtain g where g: "group_contents cs \<lparr>gr_contents = [], gr_pending = [], gr_collected = []\<rparr> = Some g"
    and r: "r = recover_groups (sort_key (\<lambda>grp. - int (cg_insertAfterIdx grp)) (gr_pending g)) (gr_contents g) (gr_collected g)"
    using assms(2) by (auto simp: fixToolResponseGrouping_def split: option.splits)
  have ok: "grouping_ok g"
    by (rule group_contents_ok [OF _ assms(1) g]) (simp add: grouping_ok_def collected_ok_def jm_wf_def group_ids_def)
  have s: "group_ids (sort_key (\<lambda>grp. - int (cg_insertAfterIdx grp)) (gr_pending g)) = group_ids (gr_pending g)"
    by (simp add: group_ids_def)
  note f = recover_groups_facts [of "gr_collected g" "sort_key (\<lambda>grp. - int (cg_insertAfterIdx grp)) (gr_pending g)" "gr_contents g"]
  show "list_all content_parts_ok r" "ids_in response_id r = ids_in call_id r"
    using f ok unfolding r s by (auto simp: grouping_ok_def)
  assume named: "list_all calls_named cs"
  have "named_ok g"
    by (rule group_contents_named [OF _ assms(1) named g]) (simp add: named_ok_def collected_ok_def jm_wf_def)
  then show "list_all calls_named r"
    using f ok unfolding r by (auto simp: grouping_ok_def named_ok_def)
qed

section \<open>Assigning ids\<close>

lemma map_st_all2: "(\<And>x s. R x (fst (f x s))) \<Longrightarrow> list_all2 R xs (fst (map_st f xs s))"
  by (induction xs arbitrary: s) (simp_all add: split_beta Let_def)

text \<open>What both passes keep of a part, and what the first one adds.\<close>

definition same_kind :: "json \<Rightarrow> json \<Rightarrow> bool" where
  "same_kind p p' \<longleftrightarrow> is_call p' = is_call p \<and> is_response p' = is_response p
     \<and> (call_id p \<noteq> None \<longrightarrow> call_id p' \<noteq> None)"

lemma call_object: "is_call p \<Longrightarrow> \<exists>ob. p = JObj ob"
  by (cases p) (auto simp: is_call_def truthy_fld_def)

lemma response_object: "is_response p \<Longrightarrow> \<exists>ob. p = JObj ob"
  by (cases p) (auto simp: is_response_def truthy_fld_def)

lemma assign_part_kind:
  "same_kind p (fst (assign_part p st)) \<and> (is_call p \<longrightarrow> call_id (fst (assign_part p st)) \<noteq> None)"
proof (cases "is_call p")
  case True
  then obtain ob where p: "p = JObj ob" using call_object by blast
  let ?call = "own_properties (nullish (fld p ''functionCall'') JNull)"
  obtain call1 where c: "fst (assign_part p st) = with_fld p ''functionCall'' (JObj call1)"
      "truthy_of (map_of call1 ''id'') \<noteq> None"
    using True
    by (cases "truthy_of (map_of ?call ''id'') = None")
      (auto simp: assign_part_def Let_def update_conv truthy_of_def truthy_def)
  then show ?thesis using True p
    by (simp add: same_kind_def is_call_def is_response_def truthy_fld_def inner_fld_def truthy_def with_fld_def update_conv)
next
  case False
  then show ?thesis by (simp add: assign_part_def same_kind_def)
qed

lemma match_part_kind: "same_kind p (fst (match_part p st))"
proof (cases "is_response p")
  case True
  then obtain ob where p: "p = JObj ob" using response_object by blast
  have "\<exists>resp. fst (match_part p st) = with_fld p ''functionResponse'' (JObj resp)"
    using True by (auto simp: match_part_def Let_def split: option.split json.split list.split)
  then obtain resp where "fst (match_part p st) = with_fld p ''functionResponse'' (JObj resp)" by blast
  then show ?thesis using True p
    by (simp add: same_kind_def is_call_def is_response_def truthy_fld_def inner_fld_def truthy_def with_fld_def update_conv)
next
  case False
  then show ?thesis by (simp add: match_part_def same_kind_def)
qed

lemma kinds_separate:
  assumes "list_all2 same_kind ps ps'"
  shows "list_ex is_call ps' = list_ex is_call ps" "list_ex is_response ps' = list_ex is_response ps"
  using assms by (induction rule: list_all2_induct) (auto simp: same_kind_def)

lemma map_parts_content:
  assumes "\<And>p s. same_kind p (fst (f p s))"
  shows "separate_calls (fst (map_parts f c st)) = separate_calls c"
    and "calls_named c \<Longrightarrow> calls_named (fst (map_parts f c st))"
proof -
  have "separate_calls (fst (map_parts f c st)) = separate_calls c
      \<and> (calls_named c \<longrightarrow> calls_named (fst (map_parts f c st)))"
  proof (cases "arr_fld c ''parts''")
    case None
    then show ?thesis by (simp add: map_parts_def)
  next
    case (Some ps)
    let ?ps = "fst (map_st f ps st)"
    have k: "list_all2 same_kind ps ?ps" by (rule map_st_all2) (rule assms)
    obtain ob where c: "c = JObj ob" using Some by (cases c) (simp_all add: arr_fld_def)
    have p: "parts_of c = ps" using arr_fld_array_or_empty [OF Some] by (simp add: parts_of_def)
    have m: "fst (map_parts f c st) = with_fld c ''parts'' (JArr ?ps)"
      using Some by (simp add: map_parts_def split_beta)
    have p': "parts_of (with_fld c ''parts'' (JArr ?ps)) = ?ps"
      by (simp add: parts_of_def array_or_empty_def c)
    have r: "has_role ''model'' (with_fld c ''parts'' (JArr ?ps)) = has_role ''model'' c"
      by (simp add: has_role_def c)
    have "list_all (\<lambda>p. is_call p \<longrightarrow> call_id p \<noteq> None) ?ps" if "list_all (\<lambda>p. is_call p \<longrightarrow> call_id p \<noteq> None) ps"
      using k that by (induction rule: list_all2_induct) (auto simp: same_kind_def)
    then show ?thesis using kinds_separate [OF k] by (simp add: m separate_calls_def calls_named_def p p' r)
  qed
  then show "separate_calls (fst (map_parts f c st)) = separate_calls c"
    and "calls_named c \<Longrightarrow> calls_named (fst (map_parts f c st))" by blast+
qed

lemma map_parts_assign_named: "calls_named (fst (map_parts assign_part c st))"
proof (cases "arr_fld c ''parts''")
  case None
  then have "parts_of c = []"
    by (auto simp: parts_of_def array_or_empty_def arr_fld_def split: option.splits json.splits)
  then show ?thesis using None by (simp add: map_parts_def calls_named_def)
next
  case (Some ps)
  let ?ps = "fst (map_st assign_part ps st)"
  have "list_all2 (\<lambda>p p'. is_call p' \<longrightarrow> call_id p' \<noteq> None) ps ?ps"
    using assign_part_kind by (intro map_st_all2) (auto simp: same_kind_def)
  then have "list_all (\<lambda>p. is_call p \<longrightarrow> call_id p \<noteq> None) ?ps"
    by (auto simp: list_all2_conv_all_nth list_all_length)
  then show ?thesis using Some
    by (cases c) (auto simp: map_parts_def split_beta calls_named_def parts_of_def array_or_empty_def arr_fld_def)
qed

lemma assigned_contents:
  "list_all separate_calls (fst (assignToolIdsToContents cs)) = list_all separate_calls cs"
  "list_all calls_named (fst (assignToolIdsToContents cs))"
proof -
  have s: "list_all2 (\<lambda>c c'. separate_calls c' = separate_calls c) cs (fst (assignToolIdsToContents cs))"
    unfolding assignToolIdsToContents_def using assign_part_kind by (intro map_st_all2 map_parts_content) blast
  then show "list_all separate_calls (fst (assignToolIdsToContents cs)) = list_all separate_calls cs"
    by (auto simp: list_all2_conv_all_nth list_all_length)
  have "list_all2 (\<lambda>c c'. calls_named c') cs (fst (assignToolIdsToContents cs))"
    unfolding assignToolIdsToContents_def by (intro map_st_all2 map_parts_assign_named)
  then show "list_all calls_named (fst (assignToolIdsToContents cs))"
    by (auto simp: list_all2_conv_all_nth list_all_length)
qed

lemma matched_contents:
  "list_all separate_calls (matchResponseIdsToContents cs st) = list_all separate_calls cs"
  "list_all calls_named cs \<Longrightarrow> list_all calls_named (matchResponseIdsToContents cs st)"
proof -
  have s: "list_all2 (\<lambda>c c'. separate_calls c' = separate_calls c \<and> (calls_named c \<longrightarrow> calls_named c'))
      cs (matchResponseIdsToContents cs st)"
    unfolding matchResponseIdsToContents_def
    using map_parts_content [where f = match_part, OF match_part_kind] by (intro map_st_all2) blast
  then show "list_all separate_calls (matchResponseIdsToContents cs st) = list_all separate_calls cs"
    "list_all calls_named cs \<Longrightarrow> list_all calls_named (matchResponseIdsToContents cs st)"
    by (auto simp: list_all2_conv_all_nth list_all_length)
qed

end
