(* ===== verification/Pairing_Properties.thy ===== *)
theory Pairing_Properties
  imports Pairing_Facts
begin

text \<open>
  The properties of the pairing of tool calls and results: the Claude messages, the Gemini
  contents, and the composition that a request to a Claude model goes through.
\<close>

text \<open>
  C16. \<open>validateAndFixClaudeToolPairing\<close> throws exactly when a message or a block of one is \<open>null\<close>.
  Otherwise, in its result, every \<open>tool_use\<close> of an assistant message has a \<open>tool_result\<close> in a
  user message; the blocks of the conversation are all kept, in their order, and the added ones are
  the placeholders of the calls that had no result, one for each; fixing again changes nothing. So the last resort
  of removing calls never removes one.
\<close>

theorem claude_pairing:
  "case validateAndFixClaudeToolPairing nt ms of
     None \<Rightarrow> \<not> readable ms
   | Some r \<Rightarrow> readable ms \<and> paired r \<and> subseq (all_blocks ms) (all_blocks r)
       \<and> mset (all_blocks r) = mset (all_blocks ms) + mset (map (tool_placeholder nt) (tool_orphans ms))
       \<and> validateAndFixClaudeToolPairing nt r = Some r"
proof (cases "fixClaudeToolPairing nt ms")
  case None
  then show ?thesis using fix_readable [of ms nt] by (auto simp: validateAndFixClaudeToolPairing_def)
next
  case (Some fixed)
  note f = fix_outcome [OF Some]
  show ?thesis
  proof (cases "findOrphanedToolUseIds fixed")
    case None
    then have "\<not> readable ms" using f(5) orphans_readable by blast
    then show ?thesis using Some None by (simp add: validateAndFixClaudeToolPairing_def)
  next
    case orphans: (Some orphans)
    then have read: "readable fixed" using orphans_readable by (metis option.distinct(1))
    define r where "r = (if orphans = [] then fixed else drop_empty fixed)"
    have v: "validateAndFixClaudeToolPairing nt ms = Some r"
      using Some orphans remove_keeps [OF f(1) orphans] by (simp add: validateAndFixClaudeToolPairing_def r_def)
    have r: "readable r" "paired r" "all_blocks r = all_blocks fixed" "findOrphanedToolUseIds r = Some orphans"
        "orphans = [] \<or> drop_empty r = r"
      using read f(1) orphans orphans_drop [OF read] by (simp_all add: drop_empty_facts drop_empty_paired r_def)
    have "validateAndFixClaudeToolPairing nt r = Some (if orphans = [] then r else drop_empty r)"
      using fix_paired [OF r(1,2)] r(4) remove_keeps [OF r(2,4)] by (simp add: validateAndFixClaudeToolPairing_def)
    then show ?thesis using v r f(2,3,5) read by auto
  qed
qed

text \<open>
  When the function calls stand in messages of the model without responses, the
  contents that \<open>fixToolResponseGrouping\<close> returns have no mismatches in the sense of
  \<open>detectToolIdMismatches\<close>: every call with an id is answered, by its own response, by an orphan that is
  renamed, or by a placeholder, and every response answers a call.
\<close>

lemma grouping_resolves_mismatches:
  assumes "list_all separate_calls contents" and "fixToolResponseGrouping contents = Some fixed"
  shows "\<exists>m. detectToolIdMismatches fixed = Some m \<and> \<not> hasMismatches m"
  using grouping_outcome(1,2) [OF assms] map_filter_concat [of call_id fixed] map_filter_concat [of response_id fixed]
  by (simp add: detectToolIdMismatches_def all_parts_ok Let_def hasMismatches_def filter_empty_conv)

definition call_content :: "string \<Rightarrow> string \<Rightarrow> json" where
  "call_content name ident = JObj [(''role'', JStr ''model''), (''parts'', JArr [JObj [(''functionCall'',
     JObj [(''name'', JStr name), (''id'', JStr ident)])]])]"

definition response_content :: "string \<Rightarrow> string \<Rightarrow> json" where
  "response_content name ident = JObj [(''role'', JStr ''user''), (''parts'', JArr [JObj [(''functionResponse'',
     JObj [(''name'', JStr name), (''id'', JStr ident)])]])]"

theorem grouping_resolves_mismatches_witness:
  "\<exists>fixed m. fixToolResponseGrouping [call_content ''f'' ''1'', response_content ''f'' ''2''] = Some fixed
     \<and> detectToolIdMismatches fixed = Some m \<and> \<not> hasMismatches m"
proof -
  let ?cs = "[call_content ''f'' ''1'', response_content ''f'' ''2'']"
  have "list_all separate_calls ?cs" by code_simp
  moreover obtain fixed where "fixToolResponseGrouping ?cs = Some fixed"
    by (simp add: fixToolResponseGrouping_def group_step_def call_content_def response_content_def array_or_empty_def truthy_def)
  ultimately show ?thesis using grouping_resolves_mismatches by blast
qed






end
