(* ===== verification/Regex.thy ===== *)
theory Regex
  imports Text
begin

text \<open>
  JavaScript regular expressions by backtracking: a match maps a position to the positions where
  it may end, in the order in which the engine tries them. A position is the character
  before it, the rest of the text and the captures so far. Only the constructs that the modelled
  code uses: classes, sequences, ordered choice, greedy repetition of a class, look-ahead, captures, word
  boundaries and the end of the text.
\<close>

type_synonym rx_pos = "char option \<times> string \<times> (nat \<times> string) list"

datatype rx =
    Eps
  | Cls "char \<Rightarrow> bool"
  | Seq rx rx
  | Alt rx rx
  | Star "char \<Rightarrow> bool"
  | Ahead rx
  | NotAhead rx
  | Cap nat rx
  | WordB
  | End

fun star_class :: "(char \<Rightarrow> bool) \<Rightarrow> char option \<Rightarrow> string \<Rightarrow> (nat \<times> string) list \<Rightarrow> rx_pos list" where
  "star_class p prev [] caps = [(prev, [], caps)]"
| "star_class p prev (c # s) caps = (if p c then star_class p (Some c) s caps else []) @ [(prev, c # s, caps)]"

definition word_char :: "char \<Rightarrow> bool" where
  "word_char c = (is_digit c \<or> lower_char c \<in> set ''abcdefghijklmnopqrstuvwxyz'' \<or> c = CHR ''_'')"

definition word_boundary :: "char option \<Rightarrow> string \<Rightarrow> bool" where
  "word_boundary prev s =
     ((case prev of None \<Rightarrow> False | Some c \<Rightarrow> word_char c) \<noteq> (case s of [] \<Rightarrow> False | c # t \<Rightarrow> word_char c))"

fun rx_match :: "rx \<Rightarrow> rx_pos \<Rightarrow> rx_pos list" where
  "rx_match Eps pos = [pos]"
| "rx_match (Cls p) (prev, s, caps) =
     (case s of [] \<Rightarrow> [] | c # t \<Rightarrow> if p c then [(Some c, t, caps)] else [])"
| "rx_match (Seq r1 r2) pos = concat (map (rx_match r2) (rx_match r1 pos))"
| "rx_match (Alt r1 r2) pos = rx_match r1 pos @ rx_match r2 pos"
| "rx_match (Star p) (prev, s, caps) = star_class p prev s caps"
| "rx_match (Ahead r) pos = (if rx_match r pos = [] then [] else [pos])"
| "rx_match (NotAhead r) pos = (if rx_match r pos = [] then [pos] else [])"
| "rx_match (Cap n r) (prev, s, caps) =
     map (\<lambda>(prev', s', caps'). (prev', s', (n, take (length s - length s') s) # caps')) (rx_match r (prev, s, caps))"
| "rx_match WordB (prev, s, caps) = (if word_boundary prev s then [(prev, s, caps)] else [])"
| "rx_match End (prev, s, caps) = (if s = [] then [(prev, s, caps)] else [])"

abbreviation Opt :: "rx \<Rightarrow> rx" where
  "Opt r \<equiv> Alt r Eps"

abbreviation Plus :: "(char \<Rightarrow> bool) \<Rightarrow> rx" where
  "Plus p \<equiv> Seq (Cls p) (Star p)"

text \<open>A letter and a word under the flag \<open>i\<close>.\<close>

definition ci :: "char \<Rightarrow> rx" where
  "ci c = Cls (\<lambda>x. lower_char x = c)"

fun ci_word :: "string \<Rightarrow> rx" where
  "ci_word [] = Eps"
| "ci_word (c # s) = Seq (ci c) (ci_word s)"

text \<open>The first match at a position and the first one at or after it.\<close>

definition match_here :: "rx \<Rightarrow> char option \<Rightarrow> string \<Rightarrow> (string \<times> (nat \<times> string) list) option" where
  "match_here r prev s =
     (case rx_match r (prev, s, []) of [] \<Rightarrow> None | (prev', s', caps) # others \<Rightarrow> Some (s', caps))"

fun rx_search :: "rx \<Rightarrow> char option \<Rightarrow> string \<Rightarrow> (nat \<times> string) list option" where
  "rx_search r prev s =
     (case match_here r prev s of
        Some (s', caps) \<Rightarrow> Some caps
      | None \<Rightarrow> (case s of [] \<Rightarrow> None | c # t \<Rightarrow> rx_search r (Some c) t))"

declare rx_search.simps [simp del]

text \<open>
  \<open>s.replace(r, f)\<close> with the flag \<open>g\<close>, for an expression without empty matches: \<open>f\<close> gets the matched text and
  the captures.
\<close>

function rx_replace :: "rx \<Rightarrow> (string \<Rightarrow> (nat \<times> string) list \<Rightarrow> string) \<Rightarrow> char option \<Rightarrow> string \<Rightarrow> string" where
  "rx_replace r f prev [] = []"
| "rx_replace r f prev (c # s) =
     (case match_here r prev (c # s) of
        None \<Rightarrow> c # rx_replace r f (Some c) s
      | Some (s', caps) \<Rightarrow>
          if length s' < length (c # s)
          then (let matched = take (length (c # s) - length s') (c # s)
                in f matched caps @ rx_replace r f (Some (last matched)) s')
          else c # rx_replace r f (Some c) s)"
  by pat_completeness auto
termination by (relation "measure (\<lambda>(r, f, prev, s). length s)") auto

declare rx_replace.simps [simp del]

text \<open>A text in which nothing matches is not changed.\<close>

lemma rx_replace_none: "rx_search r prev s = None \<Longrightarrow> rx_replace r f prev s = s"
proof (induction s arbitrary: prev)
  case Nil
  then show ?case by (simp add: rx_replace.simps)
next
  case (Cons c s)
  have "match_here r prev (c # s) = None \<and> rx_search r (Some c) s = None"
    using Cons.prems by (subst (asm) rx_search.simps) (auto split: option.splits)
  then show ?case by (simp add: rx_replace.simps Cons.IH)
qed

section \<open>First results\<close>

text \<open>The first result of each construct, which is what a match takes when the rest succeeds.\<close>

lemma seq_first:
  "rx_match r1 pos = x # xs \<Longrightarrow> rx_match r2 x = y # ys \<Longrightarrow> \<exists>zs. rx_match (Seq r1 r2) pos = y # zs"
  by simp

lemma alt_first: "rx_match r1 pos = x # xs \<Longrightarrow> \<exists>zs. rx_match (Alt r1 r2) pos = x # zs"
  by simp

lemma cap_first:
  "rx_match r (prev, s, caps) = (prev', s', caps') # xs
     \<Longrightarrow> \<exists>zs. rx_match (Cap n r) (prev, s, caps) = (prev', s', (n, take (length s - length s') s) # caps') # zs"
  by simp

lemma star_class_all:
  assumes "list_all p a" "case b of [] \<Rightarrow> True | c # t \<Rightarrow> \<not> p c"
  shows "\<exists>xs. star_class p prev (a @ b) caps = ((if a = [] then prev else Some (last a)), b, caps) # xs"
  using assms
proof (induction a arbitrary: prev)
  case Nil
  then show ?case by (cases b) simp_all
next
  case (Cons c a)
  obtain xs where "star_class p (Some c) (a @ b) caps = ((if a = [] then Some c else Some (last a)), b, caps) # xs"
    using Cons.IH [of "Some c"] Cons.prems by auto
  then show ?case using Cons.prems(1) by simp
qed

text \<open>Every result of a greedy class leaves a suffix, reached through characters of the class.\<close>

lemma star_class_results:
  "(prev', s', caps') \<in> set (star_class p prev s caps) \<Longrightarrow> caps' = caps \<and> (\<exists>a. s = a @ s' \<and> list_all p a)"
proof (induction s arbitrary: prev)
  case Nil
  then show ?case by simp
next
  case (Cons c s)
  show ?case
  proof (cases "(prev', s', caps') \<in> set (star_class p (Some c) s caps) \<and> p c")
    case True
    then obtain a where "caps' = caps" "s = a @ s'" "list_all p a" using Cons.IH by blast
    then show ?thesis using True by (intro conjI exI [of _ "c # a"]) simp_all
  next
    case False
    then have "(prev', s', caps') = (prev, c # s, caps)" using Cons.prems by (auto split: if_splits)
    then show ?thesis by simp
  qed
qed

end
