(* ===== verification/Retry_Metadata.thy ===== *)
theory Retry_Metadata
  imports Regex Json_Access
begin

text \<open>
  Retry delays in \<^verbatim>\<open>opencode/src/plugin/request-helpers.ts\<close>: durations in text, the
  \<open>Retry-After\<close> headers, and the precedence among the sources of a delay. \<open>BigInt\<close> values are
  integers. The two validators that turn their result into a \<open>Number\<close> are not modelled: they
  round large values.
\<close>

section \<open>Bounds\<close>

text \<open>\<open>Number.MAX_VALUE\<close> is an integer.\<close>

definition MAX_FINITE_WAIT_MS :: int where
  "MAX_FINITE_WAIT_MS = (2 ^ 53 - 1) * 2 ^ 971"

definition MAX_FINITE_WAIT_SECONDS :: int where
  "MAX_FINITE_WAIT_SECONDS = (MAX_FINITE_WAIT_MS + 999) div 1000"

definition MAX_FINITE_FORWARDING_MS :: int where
  "MAX_FINITE_FORWARDING_MS = MAX_FINITE_WAIT_SECONDS * 1000"

definition MAX_SAFE_INTEGER :: int where
  "MAX_SAFE_INTEGER = 9007199254740991"

text \<open>\<open>BigInt(s)\<close> of a string of digits; the empty string gives zero.\<close>

definition bigint_of :: "string \<Rightarrow> int" where
  "bigint_of s = foldl (\<lambda>a c. a * 10 + int (digit_val c)) 0 s"

definition all_digits :: "string \<Rightarrow> bool" where
  "all_digits s = (s \<noteq> [] \<and> list_all is_digit s)"

section \<open>HTTP dates\<close>

definition lit :: "string \<Rightarrow> rx" where
  "lit s = foldr (\<lambda>c r. Seq (Cls (\<lambda>x. x = c)) r) s Eps"

definition any_of :: "string list \<Rightarrow> rx" where
  "any_of ws = foldr (\<lambda>w r. Alt (lit w) r) ws (Cls (\<lambda>c. False))"

definition digits :: "nat \<Rightarrow> rx" where
  "digits n = foldr (\<lambda>d r. Seq (Cls is_digit) r) [0..<n] Eps"

definition WEEKDAYS :: "string list" where
  "WEEKDAYS = [''Sun'', ''Mon'', ''Tue'', ''Wed'', ''Thu'', ''Fri'', ''Sat'']"

definition MONTHS :: "string list" where
  "MONTHS = [''Jan'', ''Feb'', ''Mar'', ''Apr'', ''May'', ''Jun'', ''Jul'', ''Aug'', ''Sep'', ''Oct'', ''Nov'', ''Dec'']"

definition RFC_HTTP_DATE_REGEX :: rx where
  "RFC_HTTP_DATE_REGEX =
     Seq (any_of WEEKDAYS) (Seq (lit '', '') (Seq (Cap 1 (digits 2)) (Seq (lit '' '')
       (Seq (Cap 2 (any_of MONTHS)) (Seq (lit '' '') (Seq (Cap 3 (digits 4)) (Seq (lit '' '')
         (Seq (Cap 4 (digits 2)) (Seq (lit '':'') (Seq (Cap 5 (digits 2)) (Seq (lit '':'')
           (Seq (Cap 6 (digits 2)) (Seq (lit '' GMT'') End)))))))))))))"

text \<open>Days since 1970-01-01 in the proleptic Gregorian calendar, and back.\<close>

definition days_of_date :: "int \<Rightarrow> int \<Rightarrow> int \<Rightarrow> int" where
  "days_of_date y m d =
     (let y1 = (if m \<le> 2 then y - 1 else y);
          era = y1 div 400; yoe = y1 mod 400;
          doy = (153 * (if m > 2 then m - 3 else m + 9) + 2) div 5 + d - 1
      in era * 146097 + (yoe * 365 + yoe div 4 - yoe div 100 + doy) - 719468)"

definition date_of_days :: "int \<Rightarrow> int \<times> int \<times> int" where
  "date_of_days z0 =
     (let z = z0 + 719468; era = z div 146097; doe = z mod 146097;
          yoe = (doe - doe div 1460 + doe div 36524 - doe div 146096) div 365;
          doy = doe - (365 * yoe + yoe div 4 - yoe div 100);
          mp = (5 * doy + 2) div 153;
          d = doy - (153 * mp + 2) div 5 + 1;
          m = (if mp < 10 then mp + 3 else mp - 9);
          y = yoe + era * 400
      in (if m \<le> 2 then y + 1 else y, m, d))"

definition pad :: "nat \<Rightarrow> int \<Rightarrow> string" where
  "pad n k = (let s = show_nat (nat k) in replicate (n - length s) (CHR ''0'') @ s)"

text \<open>\<open>new Date(t).toUTCString()\<close> for the years 0 to 9999.\<close>

definition utc_string :: "int \<Rightarrow> string" where
  "utc_string t =
     (let days = t div 86400000; secs = (t mod 86400000) div 1000; (y, m, d) = date_of_days days
      in WEEKDAYS ! nat ((days + 4) mod 7) @ '', '' @ pad 2 d @ '' '' @ MONTHS ! nat (m - 1) @ '' '' @ pad 4 y
         @ '' '' @ pad 2 (secs div 3600) @ '':'' @ pad 2 (secs div 60 mod 60) @ '':'' @ pad 2 (secs mod 60) @ '' GMT'')"

text \<open>
  \<open>Date.parse\<close> of a text of the format: the weekday is ignored and fields out of range roll over, which the
  comparison with the printed date then rejects; years below 100, which are read as two-digit years, are
  rejected by it as well.
\<close>

definition parse_http_date :: "(nat \<times> string) list \<Rightarrow> int option" where
  "parse_http_date caps =
     (let fld = (\<lambda>n. bigint_of (nullish (map_of caps n) []));
          month = length (takeWhile (\<lambda>w. Some w \<noteq> map_of caps 2) MONTHS)
      in if fld 3 < 100 then None
         else Some (((days_of_date (fld 3) (int month + 1) (fld 1) * 24 + fld 4) * 60 + fld 5) * 60000 + fld 6 * 1000))"

definition http_date_seconds :: "millis \<Rightarrow> string \<Rightarrow> int option" where
  "http_date_seconds now trimmed =
     (case match_here RFC_HTTP_DATE_REGEX None trimmed of
        None \<Rightarrow> None
      | Some (s', caps) \<Rightarrow>
          (case parse_http_date caps of
             None \<Rightarrow> None
           | Some parsedDate \<Rightarrow>
               if utc_string parsedDate = trimmed
               then (let diffSec = \<lceil>(of_int parsedDate - now) / 1000\<rceil>
                     in if 0 \<le> diffSec \<and> diffSec \<le> MAX_SAFE_INTEGER then Some diffSec else None)
               else None))"

section \<open>Headers\<close>

text \<open>A value of unknown type; \<open>RawOther\<close> is any other type and the numbers that are not finite.\<close>

datatype raw_value =
    RawBigInt int
  | RawNumber num
  | RawString string
  | RawOther

definition in_range :: "int \<Rightarrow> int \<Rightarrow> int option" where
  "in_range bound v = (if 0 \<le> v \<and> v \<le> bound then Some v else None)"

definition whole_number :: "num \<Rightarrow> int option" where
  "whole_number n = (if n < 0 \<or> of_int \<lfloor>n\<rfloor> \<noteq> n then None else Some \<lfloor>n\<rfloor>)"

definition validateRetryAfterSecondsBigInt :: "millis \<Rightarrow> raw_value option \<Rightarrow> int option" where
  "validateRetryAfterSecondsBigInt now raw =
     (case raw of
        Some (RawBigInt v) \<Rightarrow> in_range MAX_FINITE_WAIT_SECONDS v
      | Some (RawNumber n) \<Rightarrow>
          (case whole_number n of
             None \<Rightarrow> None
           | Some b \<Rightarrow> if b \<le> MAX_FINITE_WAIT_SECONDS then Some b else None)
      | Some (RawString s) \<Rightarrow>
          (let trimmed = js_trim s
           in if trimmed = [] then None
              else if all_digits trimmed
              then (if length trimmed > 309 then None else in_range MAX_FINITE_WAIT_SECONDS (bigint_of trimmed))
              else http_date_seconds now trimmed)
      | _ \<Rightarrow> None)"

definition validateRetryAfterMsBigInt :: "raw_value option \<Rightarrow> int option" where
  "validateRetryAfterMsBigInt raw =
     (case raw of
        Some (RawBigInt v) \<Rightarrow> in_range MAX_FINITE_FORWARDING_MS v
      | Some (RawNumber n) \<Rightarrow>
          (case whole_number n of
             None \<Rightarrow> None
           | Some b \<Rightarrow> if b \<le> MAX_FINITE_FORWARDING_MS then Some b else None)
      | Some (RawString s) \<Rightarrow>
          (let trimmed = js_trim s
           in if trimmed = [] \<or> \<not> all_digits trimmed then None
              else if length trimmed > 309 then None
              else in_range MAX_FINITE_FORWARDING_MS (bigint_of trimmed))
      | _ \<Rightarrow> None)"

text \<open>The two headers of one delay; \<open>None\<close> is the thrown \<open>RangeError\<close>.\<close>

definition deriveRetryHeaderPairFromMs :: "int \<Rightarrow> (string \<times> string) list option" where
  "deriveRetryHeaderPairFromMs ms =
     (if ms < 0 \<or> ms > MAX_FINITE_FORWARDING_MS then None
      else Some [(''retry-after'', show_int ((ms + 999) div 1000)), (''retry-after-ms'', show_int ms)])"

definition deriveRetryHeaderPairFromSeconds :: "int \<Rightarrow> (string \<times> string) list option" where
  "deriveRetryHeaderPairFromSeconds sec =
     (if sec < 0 \<or> sec > MAX_FINITE_WAIT_SECONDS then None
      else Some [(''retry-after'', show_int sec), (''retry-after-ms'', show_int (sec * 1000))])"

text \<open>A \<open>Headers\<close> object, with lower-case names and combined values, or a plain record.\<close>

datatype source_headers =
    HeadersObject "(string \<times> string) list"
  | HeaderRecord "(string \<times> raw_value) list"

definition get_header :: "source_headers \<Rightarrow> string \<Rightarrow> raw_value option" where
  "get_header source name =
     (case source of
        HeadersObject hs \<Rightarrow> map_option RawString (map_of hs name)
      | HeaderRecord hs \<Rightarrow> map_option snd (find (\<lambda>(key, v). to_lower key = name) hs))"

definition collectForwardedHeaders :: "millis \<Rightarrow> source_headers option \<Rightarrow> (string \<times> string) list option" where
  "collectForwardedHeaders now sourceHeaders =
     (case sourceHeaders of
        None \<Rightarrow> Some []
      | Some source \<Rightarrow>
          (case validateRetryAfterMsBigInt (get_header source ''retry-after-ms'') of
             Some validMs \<Rightarrow> deriveRetryHeaderPairFromMs validMs
           | None \<Rightarrow>
               (case validateRetryAfterSecondsBigInt now (get_header source ''retry-after'') of
                  Some validSec \<Rightarrow> deriveRetryHeaderPairFromSeconds validSec
                | None \<Rightarrow> Some [])))"

section \<open>Durations\<close>

definition blank :: "char \<Rightarrow> bool" where
  "blank c = (c = CHR '' '' \<or> c = CHR 0x09)"

definition dot :: rx where
  "dot = Cls (\<lambda>c. c = CHR ''.'')"

definition leading_decimal :: rx where
  "leading_decimal = Seq (Plus is_digit) (Opt (Seq dot (Plus is_digit)))"

definition decimal :: rx where
  "decimal = Alt leading_decimal (Seq dot (Plus is_digit))"

definition unit_m :: rx where
  "unit_m = Seq (ci (CHR ''m'')) (NotAhead (ci (CHR ''s'')))"

definition component :: "nat \<Rightarrow> rx \<Rightarrow> rx" where
  "component n unit = Seq (Star blank) (Seq (Cap n decimal) (Seq (Star blank) unit))"

definition DURATION_REGEX :: rx where
  "DURATION_REGEX =
     Seq (Opt (Seq (Cap 1 decimal) (Seq (Star blank) (ci (CHR ''d'')))))
      (Seq (Opt (component 2 (ci (CHR ''h''))))
       (Seq (Opt (component 3 unit_m))
        (Seq (Opt (component 4 (ci (CHR ''s''))))
         (Seq (Opt (component 5 (ci_word ''ms''))) End))))"

record DurationParserOptions =
  allowZero :: bool
  allowBareSeconds :: bool

record decimal_component =
  dc_intPart :: int
  dc_fracStr :: string
  dc_mult :: int

definition parseDecimalComponent :: "string \<Rightarrow> int \<Rightarrow> decimal_component option" where
  "parseDecimalComponent str multMs =
     (let parts = split_on (CHR ''.'') str;
          intStr = nullish (nth_opt parts 0) []; fracStr = nullish (nth_opt parts 1) []
      in if length (dropWhile (\<lambda>c. c = CHR ''0'') intStr) > 15 then None
         else if length str > 60 then None
         else Some \<lparr>dc_intPart = bigint_of intStr, dc_fracStr = fracStr, dc_mult = multMs\<rparr>)"

text \<open>The matched components with their unit in milliseconds, or the bare number as seconds.\<close>

definition raw_components :: "DurationParserOptions \<Rightarrow> string \<Rightarrow> (string \<times> int) list" where
  "raw_components opts trimmed =
     (let caps = (case match_here DURATION_REGEX None trimmed of None \<Rightarrow> [] | Some (s', caps) \<Rightarrow> caps);
          found = List.map_filter (\<lambda>(n, mult). map_option (\<lambda>str. (str, mult)) (map_of caps n))
                    [(1::nat, 86400000), (2, 3600000), (3, 60000), (4, 1000), (5, 1)]
      in if found \<noteq> [] then found
         else if allowBareSeconds opts \<and> match_here (Seq decimal End) None trimmed \<noteq> None
         then [(trimmed, 1000)] else [])"

definition max_frac :: "decimal_component list \<Rightarrow> nat" where
  "max_frac cs = foldl (\<lambda>m c. if length (dc_fracStr c) > m then length (dc_fracStr c) else m) 0 cs"

definition scaled_numerator :: "nat \<Rightarrow> decimal_component list \<Rightarrow> int" where
  "scaled_numerator places cs =
     foldl (\<lambda>total c. total
       + (dc_intPart c * 10 ^ places + bigint_of (dc_fracStr c) * 10 ^ (places - length (dc_fracStr c))) * dc_mult c) 0 cs"

definition round_duration :: "bool \<Rightarrow> int \<Rightarrow> int \<Rightarrow> int option" where
  "round_duration zeroOk numerator denominator =
     (if numerator = 0 then (if zeroOk then Some 0 else None)
      else
        (let quotient = numerator div denominator; remainder = numerator mod denominator;
             rounded = (if remainder * 2 \<ge> denominator then quotient + 1 else quotient);
             positive = (if rounded = 0 then 1 else rounded)
         in if positive > MAX_FINITE_FORWARDING_MS then None else Some positive))"

definition parseDurationToMsBigInt :: "DurationParserOptions \<Rightarrow> string \<Rightarrow> int option" where
  "parseDurationToMsBigInt opts duration =
     (let comps = raw_components opts (js_trim duration)
      in if js_trim duration = [] \<or> comps = [] then None
         else
           (let parsed = map (\<lambda>(str, mult). parseDecimalComponent str mult) comps
            in if None \<in> set parsed then None
               else
                 (let cs = map the parsed; places = max_frac cs
                  in round_duration (allowZero opts) (scaled_numerator places cs) (10 ^ places))))"

definition parseDurationToMs :: "DurationParserOptions \<Rightarrow> string \<Rightarrow> int option" where
  "parseDurationToMs opts duration =
     (case parseDurationToMsBigInt opts duration of
        None \<Rightarrow> None
      | Some big \<Rightarrow> if big > MAX_SAFE_INTEGER then None else Some big)"

definition formatResetDuration :: "millis \<Rightarrow> string" where
  "formatResetDuration waitMs =
     (let totalSeconds = max 0 \<lceil>waitMs / 1000\<rceil>;
          hours = totalSeconds div 3600;
          minutes = (totalSeconds mod 3600) div 60;
          seconds = totalSeconds mod 60
      in (if hours > 0 then show_int hours @ ''h '' else [])
         @ (if minutes > 0 then show_int minutes @ ''m '' else [])
         @ show_int seconds @ ''s'')"

definition formatQuotaResetWait :: "int \<Rightarrow> string" where
  "formatQuotaResetWait seconds =
     (let hours = seconds div 3600; minutes = (seconds mod 3600) div 60; remainingSeconds = seconds mod 60;
          parts = (if hours > 0 then [show_int hours @ ''h''] else [])
            @ (if minutes > 0 then [show_int minutes @ ''m''] else [])
      in (case parts @ (if remainingSeconds > 0 \<or> parts = [] then [show_int remainingSeconds @ ''s''] else []) of
            [] \<Rightarrow> [] | x # others \<Rightarrow> x @ concat (map (\<lambda>y. '' '' @ y) others)))"

section \<open>Reset clauses in text\<close>

definition ws :: rx where
  "ws = Plus js_space"

definition reset_component :: "rx \<Rightarrow> rx" where
  "reset_component unit = Opt (Seq leading_decimal (Seq (Star blank) (Seq unit (Star blank))))"

definition any_unit :: rx where
  "any_unit = Alt (ci_word ''ms'') (Cls (\<lambda>c. lower_char c \<in> set ''dhms''))"

definition RESET_CLAUSE_REGEX :: rx where
  "RESET_CLAUSE_REGEX =
     Seq WordB (Seq (Opt (Seq (ci_word ''quota'') ws))
      (Seq (ci_word ''reset'') (Seq (Opt (ci (CHR ''s''))) (Seq ws
       (Seq (Alt (ci_word ''in'') (ci_word ''after'')) (Seq ws
        (Seq (Ahead (Seq leading_decimal (Seq (Star blank) any_unit)))
         (Seq (Cap 1 (Seq (reset_component (ci (CHR ''d'')))
                (Seq (reset_component (ci (CHR ''h''))) (Seq (reset_component unit_m)
                 (Seq (reset_component (ci (CHR ''s'')))
                   (Opt (Seq leading_decimal (Seq (Star blank) (ci_word ''ms''))))))))) 
          (NotAhead (Cls (\<lambda>c. word_char c \<or> c = CHR ''-'')))))))))))"

definition strip_end :: "(char \<Rightarrow> bool) \<Rightarrow> string \<Rightarrow> string" where
  "strip_end p s = rev (dropWhile p (rev s))"

definition extractResetDurationFromText :: "string \<Rightarrow> string option" where
  "extractResetDurationFromText text =
     (if text = [] then None
      else case rx_search RESET_CLAUSE_REGEX None text of
        None \<Rightarrow> None
      | Some caps \<Rightarrow>
          (case map_of caps 1 of
             None \<Rightarrow> None
           | Some m \<Rightarrow>
               if m = [] then None
               else (let raw = strip_end (\<lambda>c. c \<in> set ''.,;:'') (js_trim m) in if raw = [] then None else Some raw)))"

definition spaced_duration :: "string \<Rightarrow> string" where
  "spaced_duration s =
     rx_replace (Seq (Cap 1 leading_decimal) (Seq (Star blank) (Seq (Cap 2 any_unit) (Ahead (Cls is_digit)))))
       (\<lambda>m caps. nullish (map_of caps 1) [] @ nullish (map_of caps 2) [] @ '' '') None s"

definition normalizeResetDuration :: "string \<Rightarrow> string" where
  "normalizeResetDuration text =
     rx_replace RESET_CLAUSE_REGEX
       (\<lambda>m caps. let rawDuration = nullish (map_of caps 1) [] in
          if rawDuration = [] then m
          else (let body = strip_end blank rawDuration
                in ''quota resets in '' @ spaced_duration body @ drop (length body) rawDuration)) None text"

section \<open>Quota errors\<close>

definition hasQuotaResetClause :: "string \<Rightarrow> bool" where
  "hasQuotaResetClause lowerMessage \<longleftrightarrow> lowerMessage \<noteq> []
     \<and> extractResetDurationFromText lowerMessage \<noteq> None
     \<and> list_ex (str_includes lowerMessage) [''quota'', ''rate limit'', ''rate_limit'', ''resource_exhausted'']"

definition QUOTA_REASON_CODES :: "string list" where
  "QUOTA_REASON_CODES = [''QUOTA_EXHAUSTED'', ''RATE_LIMIT_EXCEEDED'', ''RESOURCE_EXHAUSTED'']"

function quota_detail :: "json \<Rightarrow> bool" where
  "quota_detail (JObj ob) =
     ((case get_str ob ''@type'' of None \<Rightarrow> False | Some ty \<Rightarrow> str_includes ty ''google.rpc.QuotaFailure'')
      \<or> (case get_str ob ''reason'' of None \<Rightarrow> False | Some reason \<Rightarrow> reason \<in> set QUOTA_REASON_CODES)
      \<or> (case get_arr ob ''details'' of None \<Rightarrow> False | Some nested \<Rightarrow> list_ex quota_detail nested))"
| "quota_detail JNull = False"
| "quota_detail (JBool b) = False"
| "quota_detail (JNum n) = False"
| "quota_detail (JStr s) = False"
| "quota_detail (JArr xs) = False"
  by pat_completeness auto
termination by (relation "measure size") (auto simp del: json.size dest: size_get_arr)

definition hasStructuredQuotaReason :: "json option \<Rightarrow> bool" where
  "hasStructuredQuotaReason details =
     (case details of Some (JArr xs) \<Rightarrow> list_ex quota_detail xs | _ \<Rightarrow> False)"

definition isQuotaError :: "num option \<Rightarrow> string option \<Rightarrow> json option \<Rightarrow> bool" where
  "isQuotaError status message details \<longleftrightarrow> status = Some 429
     \<or> hasQuotaResetClause (to_lower (nullish message [])) \<or> hasStructuredQuotaReason details"

section \<open>Precedence\<close>

record RetryMetadataResult =
  rm_delayMs :: int
  rm_quotaResetTime :: "string option"

record ResolveRetryMetadataOptions =
  ro_details :: "json option"
  ro_message :: "string option"
  ro_status :: "num option"
  ro_headers :: "source_headers option"
  ro_retryAfterMs :: "raw_value option"
  ro_resetAfterMs :: "raw_value option"
  ro_retryAfterSeconds :: "raw_value option"
  ro_parser :: DurationParserOptions

text \<open>The first entry of a list for which a function has a result.\<close>

fun first_some :: "('a \<Rightarrow> 'b option) \<Rightarrow> 'a list \<Rightarrow> 'b option" where
  "first_some f [] = None"
| "first_some f (x # xs) = (case f x of Some y \<Rightarrow> Some y | None \<Rightarrow> first_some f xs)"

definition or_else :: "'a option \<Rightarrow> 'a option \<Rightarrow> 'a option" where
  "or_else x y = (case x of Some v \<Rightarrow> Some v | None \<Rightarrow> y)"

definition numeric_delay :: "bool \<Rightarrow> num \<Rightarrow> int option" where
  "numeric_delay zeroOk retryDelay =
     (let rounded = js_round (retryDelay * 1000) in
      if retryDelay < 0 \<or> rounded < 0 \<or> rounded > MAX_SAFE_INTEGER then None
      else if retryDelay = 0 then (if zeroOk then Some 0 else None)
      else Some (max 1 rounded))"

definition retry_info_delay :: "DurationParserOptions \<Rightarrow> json \<Rightarrow> int option" where
  "retry_info_delay opts entry =
     (case entry of
        JObj ob \<Rightarrow>
          (case get_str ob ''@type'' of
             None \<Rightarrow> None
           | Some ty \<Rightarrow>
               if str_includes ty ''google.rpc.RetryInfo''
               then (case map_of ob ''retryDelay'' of
                       Some (JStr s) \<Rightarrow> parseDurationToMsBigInt opts s
                     | Some (JNum n) \<Rightarrow> numeric_delay (allowZero opts) n
                     | _ \<Rightarrow> None)
               else None)
      | _ \<Rightarrow> None)"

definition quota_reset_delay :: "DurationParserOptions \<Rightarrow> json \<Rightarrow> RetryMetadataResult option" where
  "quota_reset_delay opts entry =
     (case fld entry ''metadata'' of
        Some (JObj metadata) \<Rightarrow>
          (case get_str metadata ''quotaResetDelay'' of
             None \<Rightarrow> None
           | Some s \<Rightarrow>
               map_option (\<lambda>ms. \<lparr>rm_delayMs = ms,
                   rm_quotaResetTime = or_else (get_str metadata ''quotaResetTimeStamp'') (get_str metadata ''quotaResetTime'')\<rparr>)
                 (parseDurationToMsBigInt opts s))
      | _ \<Rightarrow> None)"

definition only_delay :: "int \<Rightarrow> RetryMetadataResult" where
  "only_delay ms = \<lparr>rm_delayMs = ms, rm_quotaResetTime = None\<rparr>"

definition message_delay :: "ResolveRetryMetadataOptions \<Rightarrow> int option" where
  "message_delay ro =
     (case ro_message ro of
        None \<Rightarrow> None
      | Some message \<Rightarrow>
          if isQuotaError (ro_status ro) (ro_message ro) (ro_details ro)
          then (case extractResetDurationFromText message of
                  None \<Rightarrow> None
                | Some rawDuration \<Rightarrow> parseDurationToMsBigInt (ro_parser ro) rawDuration)
          else None)"

definition header_delay :: "millis \<Rightarrow> source_headers option \<Rightarrow> int option" where
  "header_delay now headers =
     (case headers of
        None \<Rightarrow> None
      | Some hs \<Rightarrow>
          or_else (validateRetryAfterMsBigInt (get_header hs ''retry-after-ms''))
            (map_option (\<lambda>sec. sec * 1000) (validateRetryAfterSecondsBigInt now (get_header hs ''retry-after''))))"

definition detail_list :: "json option \<Rightarrow> json list" where
  "detail_list details = (case details of Some (JArr xs) \<Rightarrow> xs | _ \<Rightarrow> [])"

definition resolveRetryMetadata :: "millis \<Rightarrow> ResolveRetryMetadataOptions \<Rightarrow> RetryMetadataResult option" where
  "resolveRetryMetadata now ro =
     (case first_some (retry_info_delay (ro_parser ro)) (detail_list (ro_details ro)) of
        Some ms \<Rightarrow> Some (only_delay ms)
      | None \<Rightarrow>
     (case first_some (quota_reset_delay (ro_parser ro)) (detail_list (ro_details ro)) of
        Some r \<Rightarrow> Some r
      | None \<Rightarrow>
          map_option only_delay
           (or_else (validateRetryAfterMsBigInt (ro_retryAfterMs ro))
           (or_else (validateRetryAfterMsBigInt (ro_resetAfterMs ro))
           (or_else (map_option (\<lambda>sec. sec * 1000) (validateRetryAfterSecondsBigInt now (ro_retryAfterSeconds ro)))
           (or_else (message_delay ro) (header_delay now (ro_headers ro))))))))"

end
