(* ===== verification/Retry_Facts.thy ===== *)
theory Retry_Facts
  imports Retry_Metadata
begin

text \<open>
  Lemmas about retry delays: exact arithmetic of durations, matching of printed durations, and
  the range of every delay.
\<close>

section \<open>Integers in text\<close>

lemma bigint_of_fold: "foldl (\<lambda>a c. a * 10 + int (digit_val c)) (int n) s = int (foldl (\<lambda>a c. a * 10 + digit_val c) n s)"
proof (induction s arbitrary: n)
  case (Cons c s)
  have "int n * 10 + int (digit_val c) = int (n * 10 + digit_val c)" by simp
  then show ?case by (simp only: foldl_Cons Cons.IH)
qed simp

lemma bigint_of_read: "bigint_of s = int (read_nat s)"
  using bigint_of_fold [of 0 s] by (simp add: bigint_of_def read_nat_def)

lemma bigint_of_nonneg [simp]: "0 \<le> bigint_of s"
  by (simp add: bigint_of_read)

lemma bigint_of_show [simp]: "0 \<le> k \<Longrightarrow> bigint_of (show_int k) = k"
  by (simp add: bigint_of_read show_int_def)

lemma all_digits_show [simp]: "0 \<le> k \<Longrightarrow> all_digits (show_int k)"
  by (simp add: all_digits_def show_int_def show_nat_digits)

lemma show_nat_length: "n < 10 ^ k \<Longrightarrow> 0 < k \<Longrightarrow> length (show_nat n) \<le> k"
proof (induction n arbitrary: k rule: show_nat.induct)
  case (1 n)
  show ?case
  proof (cases "n < 10")
    case True
    then show ?thesis using 1(3) by (subst show_nat.simps) simp
  next
    case False
    then obtain j where k: "k = Suc j" using 1(3) by (cases k) auto
    have "0 < j" using 1(2) False k by (cases j) auto
    moreover have "n div 10 < 10 ^ j" using 1(2) k by (simp add: less_mult_imp_div_less mult.commute)
    ultimately show ?thesis using 1(1) [OF False, of j] False k by (subst show_nat.simps) simp
  qed
qed

lemma js_trim_digits: "all_digits s \<Longrightarrow> js_trim s = s"
proof -
  assume s: "all_digits s"
  have ns: "\<not> js_space c" if "is_digit c" for c
    using that by (auto simp: js_space_def is_digit_def)
  have id: "dropWhile js_space t = t" if "list_all is_digit t" for t
    using that ns by (cases t) auto
  show ?thesis using s id [of s] id [of "rev s"] by (simp add: js_trim_def all_digits_def)
qed

section \<open>Exact durations\<close>

text \<open>The rational number that a decimal stands for, and the duration of its components.\<close>

definition decimal_value :: "string \<Rightarrow> rat" where
  "decimal_value str =
     (let parts = split_on (CHR ''.'') str; frac = nullish (nth_opt parts 1) []
      in of_int (bigint_of (nullish (nth_opt parts 0) [])) + of_int (bigint_of frac) / 10 ^ length frac)"

definition duration_value :: "(string \<times> int) list \<Rightarrow> rat" where
  "duration_value comps = (\<Sum>(str, mult) \<leftarrow> comps. decimal_value str * of_int mult)"

lemma max_frac_fold:
  "n \<le> foldl (\<lambda>m c. if length (dc_fracStr c) > m then length (dc_fracStr c) else m) n cs
    \<and> (\<forall>c \<in> set cs. length (dc_fracStr c) \<le> foldl (\<lambda>m c. if length (dc_fracStr c) > m then length (dc_fracStr c) else m) n cs)"
proof (induction cs arbitrary: n)
  case (Cons c cs)
  show ?case using Cons.IH [of n] Cons.IH [of "length (dc_fracStr c)"] by auto
qed simp

lemma max_frac_ge: "c \<in> set cs \<Longrightarrow> length (dc_fracStr c) \<le> max_frac cs"
  using max_frac_fold [of 0 cs] by (simp add: max_frac_def)

definition component_value :: "decimal_component \<Rightarrow> rat" where
  "component_value c = (of_int (dc_intPart c) + of_int (bigint_of (dc_fracStr c)) / 10 ^ length (dc_fracStr c)) * of_int (dc_mult c)"

lemma scaled_component:
  assumes "length (dc_fracStr c) \<le> D"
  shows "of_int ((dc_intPart c * 10 ^ D + bigint_of (dc_fracStr c) * 10 ^ (D - length (dc_fracStr c))) * dc_mult c)
           = 10 ^ D * component_value c"
proof -
  have "(10::rat) ^ D = 10 ^ (D - length (dc_fracStr c)) * 10 ^ length (dc_fracStr c)"
    using assms by (simp flip: power_add)
  then have "of_int (bigint_of (dc_fracStr c)) * (10::rat) ^ (D - length (dc_fracStr c))
      = 10 ^ D * (of_int (bigint_of (dc_fracStr c)) / 10 ^ length (dc_fracStr c))"
    by simp
  then show ?thesis unfolding component_value_def of_int_mult of_int_add of_int_power of_int_numeral
    by (simp only: distrib_left mult.assoc mult.commute [of _ "10 ^ D"] distrib_right)
qed

lemma scaled_fold:
  assumes "\<forall>c \<in> set cs. length (dc_fracStr c) \<le> D"
  shows "of_int (foldl (\<lambda>total c. total
           + (dc_intPart c * 10 ^ D + bigint_of (dc_fracStr c) * 10 ^ (D - length (dc_fracStr c))) * dc_mult c) t cs)
         = of_int t + 10 ^ D * (\<Sum>c \<leftarrow> cs. component_value c)"
  using assms
proof (induction cs arbitrary: t)
  case (Cons c cs)
  have c: "length (dc_fracStr c) \<le> D" and cs: "\<forall>c \<in> set cs. length (dc_fracStr c) \<le> D" using Cons.prems by simp_all
  show ?case unfolding foldl_Cons Cons.IH [OF cs] of_int_add [of t] scaled_component [OF c]
    by (simp add: distrib_left)
qed simp

lemma scaled_exact:
  assumes "\<forall>c \<in> set cs. length (dc_fracStr c) \<le> D"
  shows "of_int (scaled_numerator D cs) = 10 ^ D * (\<Sum>c \<leftarrow> cs. component_value c)"
  using scaled_fold [OF assms, of 0] by (simp add: scaled_numerator_def)

lemma round_half_up:
  assumes "0 < (d::int)"
  shows "js_round (of_int n / of_int d) = (if (n mod d) * 2 \<ge> d then n div d + 1 else n div d)"
proof -
  define q r k where q: "q = n div d" and r: "r = n mod d" and k: "k = (if r * 2 \<ge> d then q + 1 else q)"
  have m: "0 \<le> r" "r < d" and n: "n = q * d + r" using assms by (simp_all add: q r)
  have "2 * n + d = 2 * (q * d) + (2 * r + d)" by (simp add: n)
  moreover have "k * (2 * d) = 2 * (q * d) + (if r * 2 \<ge> d then 2 * d else 0)"
    "(k + 1) * (2 * d) = 2 * (q * d) + (if r * 2 \<ge> d then 4 * d else 2 * d)"
    by (simp_all add: k distrib_right)
  ultimately have i: "k * (2 * d) \<le> 2 * n + d" "2 * n + d < (k + 1) * (2 * d)"
    using m by (simp_all split: if_splits)
  have i: "(of_int k * (2 * of_int d) :: rat) \<le> 2 * of_int n + of_int d"
      "(2 * of_int n + of_int d :: rat) < (of_int k + 1) * (2 * of_int d)"
    using i(1) [folded of_int_le_iff [where 'a = rat]] i(2) [folded of_int_less_iff [where 'a = rat]]
    unfolding of_int_add of_int_mult of_int_numeral of_int_1 by blast+
  have d: "0 < (2 * of_int d :: rat)" using assms by simp
  have x: "(of_int n / of_int d + 1 / 2 :: rat) = (2 * of_int n + of_int d) / (2 * of_int d)"
    using assms by (simp add: add_divide_distrib)
  have "js_round (of_int n / of_int d) = k"
    unfolding js_round_def floor_eq_iff x pos_le_divide_eq [OF d] pos_divide_less_eq [OF d] using i by blast
  then show ?thesis unfolding k q r .
qed

lemma MAX_FINITE_WAIT_MS_nonneg: "0 \<le> MAX_FINITE_WAIT_MS"
  unfolding MAX_FINITE_WAIT_MS_def by (rule mult_nonneg_nonneg) (simp, rule zero_le_power, simp)

lemma MAX_FINITE_WAIT_SECONDS_nonneg: "0 \<le> MAX_FINITE_WAIT_SECONDS"
  unfolding MAX_FINITE_WAIT_SECONDS_def using MAX_FINITE_WAIT_MS_nonneg by (simp add: pos_imp_zdiv_nonneg_iff)

lemma MAX_FINITE_FORWARDING_MS_nonneg: "0 \<le> MAX_FINITE_FORWARDING_MS"
  unfolding MAX_FINITE_FORWARDING_MS_def using MAX_FINITE_WAIT_SECONDS_nonneg by simp

lemma round_duration_value:
  assumes "round_duration zeroOk n d = Some r" "0 < d" "0 \<le> n"
  shows "0 \<le> r \<and> r \<le> MAX_FINITE_FORWARDING_MS
     \<and> (if n = 0 then zeroOk \<and> r = 0 else r = max 1 (js_round (of_int n / of_int d)))"
proof (cases "n = 0")
  case True
  then show ?thesis using assms(1) MAX_FINITE_FORWARDING_MS_nonneg by (auto simp: round_duration_def split: if_splits)
next
  case False
  let ?q = "js_round (of_int n / of_int d)"
  have q: "0 \<le> ?q" using assms(2,3) js_round_mono [of 0 "of_int n / of_int d"] js_round_of_int [of 0] by simp
  have "r = (if ?q = 0 then 1 else ?q) \<and> r \<le> MAX_FINITE_FORWARDING_MS"
    using assms(1) False unfolding round_duration_def Let_def round_half_up [OF assms(2), of n, symmetric]
    by (auto split: if_splits)
  then show ?thesis using False q by auto
qed

lemma captured_unit:
  assumes "(str, mult) \<in> set (List.map_filter (\<lambda>(n, mult). map_option (\<lambda>str. (str, mult)) (map_of caps n)) units)"
  shows "mult \<in> snd ` set units"
  using assms by (force simp: set_map_filter_conv)

lemma unit_positive: "(str, mult) \<in> set (raw_components opts s) \<Longrightarrow> 0 < mult"
  unfolding raw_components_def Let_def by (auto simp del: map_filter_simps dest!: captured_unit split: if_split_asm)

lemma parse_duration_value:
  assumes "parseDurationToMsBigInt opts s = Some n"
  defines "v \<equiv> duration_value (raw_components opts (js_trim s))"
  shows "0 \<le> n \<and> n \<le> MAX_FINITE_FORWARDING_MS
     \<and> (if v = 0 then allowZero opts \<and> n = 0 else 0 < v \<and> n = max 1 (js_round v))"
proof -
  let ?comps = "raw_components opts (js_trim s)"
  let ?parsed = "map (\<lambda>(str, mult). parseDecimalComponent str mult) ?comps"
  let ?cs = "map the ?parsed"
  have ok: "None \<notin> set ?parsed"
    and r: "round_duration (allowZero opts) (scaled_numerator (max_frac ?cs) ?cs) (10 ^ max_frac ?cs) = Some n"
    using assms(1) by (auto simp: parseDurationToMsBigInt_def Let_def split: if_splits)
  have c: "component_value (the (parseDecimalComponent str mult)) = decimal_value str * of_int mult"
    if "(str, mult) \<in> set ?comps" for str mult
  proof -
    have "parseDecimalComponent str mult \<noteq> None" using ok that by force
    then show ?thesis
      by (auto simp: parseDecimalComponent_def component_value_def decimal_value_def Let_def split: if_splits)
  qed
  have "(\<Sum>c \<leftarrow> ?cs. component_value c) = v"
    unfolding v_def duration_value_def using c by (auto simp: comp_def split_beta intro!: arg_cong [where f = sum_list])
  then have e: "of_int (scaled_numerator (max_frac ?cs) ?cs) = 10 ^ max_frac ?cs * v"
    using scaled_exact [of ?cs "max_frac ?cs"] max_frac_ge [of _ ?cs] by simp
  have "0 \<le> v" unfolding v_def duration_value_def
    by (rule sum_list_nonneg) (auto simp: decimal_value_def Let_def dest: unit_positive)
  then have nn: "0 \<le> scaled_numerator (max_frac ?cs) ?cs"
    using e by (metis of_int_0_le_iff zero_le_mult_iff zero_le_numeral zero_le_power)
  have z: "scaled_numerator (max_frac ?cs) ?cs = 0 \<longleftrightarrow> v = 0"
    using e by (metis mult_eq_0_iff of_int_eq_0_iff power_not_zero zero_neq_numeral)
  have "of_int (scaled_numerator (max_frac ?cs) ?cs) / of_int (10 ^ max_frac ?cs) = v" using e by simp
  then show ?thesis
    using round_duration_value [OF r _ nn] z \<open>0 \<le> v\<close> by (auto split: if_splits)
qed

section \<open>Matching a number with a unit\<close>

text \<open>
  Before a unit, a decimal of digits has only one match that the unit continues: the one that
  takes all digits, when the unit accepts neither a digit nor a blank.
\<close>

lemma digit_not: "is_digit c \<Longrightarrow> \<not> blank c \<and> c \<noteq> CHR ''.''"
  by (auto simp: is_digit_def blank_def)

lemma star_digits_concat:
  assumes "list_all is_digit a" "\<not> is_digit u"
    and "\<And>prev c s. is_digit c \<Longrightarrow> f (prev, c # s, caps) = []"
  shows "concat (map f (star_class is_digit (Some c) (a @ u # s) caps)) = f (Some (last (c # a)), u # s, caps)"
  using assms(1)
proof (induction a arbitrary: c)
  case Nil
  then show ?case using assms(2) by simp
next
  case (Cons d a)
  then show ?case using assms(3) [of d] Cons.IH [of d] by simp
qed

lemma star_blank_other: "\<not> blank c \<Longrightarrow> star_class blank prev (c # s) caps = [(prev, c # s, caps)]"
  by simp

lemma decimal_digits:
  assumes "list_all is_digit a" "\<not> is_digit u" "u \<noteq> CHR ''.''" "is_digit c"
  shows "rx_match decimal (prev, (c # a) @ u # s, caps) = star_class is_digit (Some c) (a @ u # s) caps"
proof -
  have dots: "concat (map (rx_match (Opt (Seq dot (Plus is_digit)))) (star_class is_digit (Some d) (b @ u # s) caps))
      = star_class is_digit (Some d) (b @ u # s) caps" if "list_all is_digit b" for b d
    using that assms(2,3)
  proof (induction b arbitrary: d)
    case (Cons e b)
    then show ?case using digit_not [of e] by (simp add: dot_def)
  qed (simp add: dot_def)
  show ?thesis using assms(4) digit_not [OF assms(4)] dots [OF assms(1), of c]
    by (simp add: decimal_def leading_decimal_def dot_def)
qed

definition unit_rx :: "rx \<Rightarrow> bool" where
  "unit_rx unit \<longleftrightarrow> (\<forall>prev c s caps. is_digit c \<longrightarrow> rx_match unit (prev, c # s, caps) = [])"

lemma lower_digit: "is_digit c \<Longrightarrow> lower_char c = c"
  by (auto simp: is_digit_def lower_char_def)

lemma ci_unit: "\<not> is_digit x \<Longrightarrow> unit_rx (ci x)"
  by (auto simp: unit_rx_def ci_def lower_digit)

lemma unit_rx_units [simp]:
  "unit_rx (ci (CHR ''d''))" "unit_rx (ci (CHR ''h''))" "unit_rx (ci (CHR ''s''))" "unit_rx unit_m" "unit_rx (ci_word ''ms'')"
  by (simp_all add: ci_unit is_digit_def) (auto simp: unit_rx_def unit_m_def ci_def lower_digit is_digit_def)

text \<open>The letters that end a number in a printed duration.\<close>

definition unit_char :: "char \<Rightarrow> bool" where
  "unit_char u \<longleftrightarrow> \<not> is_digit u \<and> \<not> blank u \<and> u \<noteq> CHR ''.''"

lemma decimal_unit:
  assumes "all_digits a" "unit_char u" "unit_rx unit"
  shows "rx_match (Seq (Cap n decimal) (Seq (Star blank) unit)) (prev, a @ u # s, caps)
           = rx_match unit (Some (last a), u # s, (n, a) # caps)"
proof -
  obtain c b where a: "a = c # b" "is_digit c" "list_all is_digit b"
    using assms(1) by (cases a) (auto simp: all_digits_def)
  have u: "\<not> is_digit u" "\<not> blank u" "u \<noteq> CHR ''.''" using assms(2) by (simp_all add: unit_char_def)
  let ?capture = "\<lambda>(prev', s', caps'). (prev', s', (n, take (length (a @ u # s) - length s') (a @ u # s)) # caps')"
  let ?f = "\<lambda>x. rx_match (Seq (Star blank) unit) (?capture x)"
  have f: "?f (prev', d # s', caps') = []" if "is_digit d" for prev' d s' caps'
    using that assms(3) digit_not [OF that] by (simp add: unit_rx_def)
  have "rx_match (Seq (Cap n decimal) (Seq (Star blank) unit)) (prev, a @ u # s, caps)
      = concat (map ?f (rx_match decimal (prev, a @ u # s, caps)))"
    by (simp add: comp_def)
  also have "\<dots> = ?f (Some (last a), u # s, caps)"
    using decimal_digits [OF a(3) u(1,3) a(2)] star_digits_concat [OF a(3) u(1), of ?f] f by (simp only: a(1))
  also have "\<dots> = rx_match unit (Some (last a), u # s, (n, a) # caps)"
    using u(2) by simp
  finally show ?thesis .
qed

text \<open>A component, at the start of the text or after a blank.\<close>

lemma component_match:
  assumes "all_digits a" "unit_char u" "unit_rx unit"
  shows "rx_match (component n unit) (prev, a @ u # s, caps) = rx_match unit (Some (last a), u # s, (n, a) # caps)"
    and "rx_match (component n unit) (prev, CHR '' '' # a @ u # s, caps) = rx_match unit (Some (last a), u # s, (n, a) # caps)"
proof -
  obtain c b where a: "a = c # b" "is_digit c" using assms(1) by (cases a) (auto simp: all_digits_def)
  note blank = star_blank_other [OF conjunct1 [OF digit_not [OF a(2)]]]
  have d: "rx_match (Seq (Cap n decimal) r) (prev', CHR '' '' # t, caps) = []" for r prev' t
    by (simp add: decimal_def leading_decimal_def dot_def is_digit_def)
  show "rx_match (component n unit) (prev, a @ u # s, caps) = rx_match unit (Some (last a), u # s, (n, a) # caps)"
    unfolding component_def rx_match.simps(3) [of "Star blank"] using decimal_unit [OF assms, of n prev s caps] blank
    by (simp only: a append_Cons rx_match.simps(5) list.map concat.simps append_Nil2)
  have b: "star_class blank prev (CHR '' '' # a @ u # s) caps
      = [(Some (CHR '' ''), a @ u # s, caps), (prev, CHR '' '' # a @ u # s, caps)]"
    using blank by (simp add: a) (simp add: blank_def)
  show "rx_match (component n unit) (prev, CHR '' '' # a @ u # s, caps) = rx_match unit (Some (last a), u # s, (n, a) # caps)"
    unfolding component_def rx_match.simps(3) [of "Star blank"] rx_match.simps(5) b list.map concat.simps d
      decimal_unit [OF assms] by simp
qed

lemma component_empty: "rx_match (component n unit) (prev, [], caps) = []"
  by (simp add: component_def decimal_def leading_decimal_def dot_def)

section \<open>Printed durations\<close>

definition first :: "rx \<Rightarrow> rx_pos \<Rightarrow> rx_pos \<Rightarrow> bool" where
  "first r pos x \<longleftrightarrow> (\<exists>xs. rx_match r pos = x # xs)"

lemma first_opt_skip: "rx_match X pos = [] \<Longrightarrow> first R pos z \<Longrightarrow> first (Seq (Opt X) R) pos z"
  by (simp add: first_def)

lemma first_opt_take: "rx_match X pos = [y] \<Longrightarrow> first R y z \<Longrightarrow> first (Seq (Opt X) R) pos z"
  by (auto simp: first_def)

lemma first_end: "first End (prev, [], caps) (prev, [], caps)"
  by (simp add: first_def)

lemma first_match_here: "first r (prev, s, []) (prev', s', caps) \<Longrightarrow> match_here r prev s = Some (s', caps)"
  by (auto simp: first_def match_here_def)

text \<open>The units on the letters of a printed duration.\<close>

lemma unit_chars [simp]: "unit_char (CHR ''h'')" "unit_char (CHR ''m'')" "unit_char (CHR ''s'')"
  by (simp_all add: unit_char_def is_digit_def blank_def)

lemma unit_matches [simp]:
  "rx_match (ci (CHR ''d'')) (prev, CHR ''h'' # s, caps) = []"
  "rx_match (ci (CHR ''d'')) (prev, CHR ''m'' # s, caps) = []"
  "rx_match (ci (CHR ''d'')) (prev, CHR ''s'' # s, caps) = []"
  "rx_match (ci (CHR ''h'')) (prev, CHR ''h'' # s, caps) = [(Some (CHR ''h''), s, caps)]"
  "rx_match (ci (CHR ''h'')) (prev, CHR ''m'' # s, caps) = []"
  "rx_match (ci (CHR ''h'')) (prev, CHR ''s'' # s, caps) = []"
  "rx_match unit_m (prev, CHR ''m'' # CHR '' '' # s, caps) = [(Some (CHR ''m''), CHR '' '' # s, caps)]"
  "rx_match unit_m (prev, CHR ''s'' # s, caps) = []"
  "rx_match (ci (CHR ''s'')) (prev, CHR ''s'' # s, caps) = [(Some (CHR ''s''), s, caps)]"
  by (simp_all add: ci_def lower_char_def unit_m_def)

definition seconds_tail :: rx where
  "seconds_tail = Seq (Opt (component 4 (ci (CHR ''s'')))) (Seq (Opt (component 5 (ci_word ''ms''))) End)"

lemma seconds_first:
  assumes "all_digits a"
  shows "first seconds_tail (prev, a @ ''s'', caps) (Some (CHR ''s''), [], (4, a) # caps)"
    and "first seconds_tail (prev, CHR '' '' # a @ ''s'', caps) (Some (CHR ''s''), [], (4, a) # caps)"
  unfolding seconds_tail_def
  by (rule first_opt_take, simp add: component_match [OF assms],
      rule first_opt_skip [OF component_empty first_end])+

definition minutes_tail :: rx where
  "minutes_tail = Seq (Opt (component 3 unit_m)) seconds_tail"

lemma minutes_first:
  assumes "all_digits a" "all_digits b"
  shows "first minutes_tail (prev, a @ ''s'', caps) (Some (CHR ''s''), [], (4, a) # caps)"
    and "first minutes_tail (prev, CHR '' '' # a @ ''s'', caps) (Some (CHR ''s''), [], (4, a) # caps)"
    and "first minutes_tail (prev, b @ ''m '' @ a @ ''s'', caps) (Some (CHR ''s''), [], (4, a) # (3, b) # caps)"
    and "first minutes_tail (prev, CHR '' '' # b @ ''m '' @ a @ ''s'', caps) (Some (CHR ''s''), [], (4, a) # (3, b) # caps)"
  unfolding minutes_tail_def
  by (rule first_opt_skip, simp add: component_match [OF assms(1)], rule seconds_first [OF assms(1)],
      rule first_opt_skip, simp add: component_match [OF assms(1)], rule seconds_first [OF assms(1)],
      rule first_opt_take, simp add: component_match [OF assms(2)], rule seconds_first [OF assms(1)],
      rule first_opt_take, simp add: component_match [OF assms(2)], rule seconds_first [OF assms(1)])

definition hours_tail :: rx where
  "hours_tail = Seq (Opt (component 2 (ci (CHR ''h'')))) minutes_tail"

lemma DURATION_REGEX_tail:
  "DURATION_REGEX = Seq (Opt (Seq (Cap 1 decimal) (Seq (Star blank) (ci (CHR ''d''))))) hours_tail"
  by (simp add: DURATION_REGEX_def hours_tail_def minutes_tail_def seconds_tail_def)

lemma days_skip:
  assumes "all_digits a" "u \<in> {CHR ''h'', CHR ''m'', CHR ''s''}" "first hours_tail (None, a @ u # s, []) (prev, [], caps)"
  shows "match_here DURATION_REGEX None (a @ u # s) = Some ([], caps)"
proof -
  have "rx_match (Seq (Cap 1 decimal) (Seq (Star blank) (ci (CHR ''d'')))) (None, a @ u # s, []) = []"
    unfolding decimal_unit [OF assms(1) _ unit_rx_units(1)]
    using assms(2) decimal_unit [OF assms(1) _ unit_rx_units(1), of u] by (auto simp del: rx_match.simps)
  then show ?thesis
    unfolding DURATION_REGEX_tail by (rule first_match_here [OF first_opt_skip [OF _ assms(3)]])
qed

lemma printed_match:
  assumes "all_digits a" "all_digits b" "all_digits c"
  shows "match_here DURATION_REGEX None (a @ ''s'') = Some ([], [(4, a)])"
    and "match_here DURATION_REGEX None (b @ ''m '' @ a @ ''s'') = Some ([], [(4, a), (3, b)])"
    and "match_here DURATION_REGEX None (c @ ''h '' @ a @ ''s'') = Some ([], [(4, a), (2, c)])"
    and "match_here DURATION_REGEX None (c @ ''h '' @ b @ ''m '' @ a @ ''s'') = Some ([], [(4, a), (3, b), (2, c)])"
proof -
  note skip = days_skip [unfolded hours_tail_def]
  show "match_here DURATION_REGEX None (a @ ''s'') = Some ([], [(4, a)])"
    by (rule skip [OF assms(1)], simp, rule first_opt_skip, simp add: component_match [OF assms(1)],
        rule minutes_first [OF assms(1,2)])
  have m: "rx_match (component 2 (ci (CHR ''h''))) (None, b @ ''m '' @ a @ ''s'', []) = []"
    using component_match(1) [OF assms(2), of "CHR ''m''"] by simp
  show "match_here DURATION_REGEX None (b @ ''m '' @ a @ ''s'') = Some ([], [(4, a), (3, b)])"
    using skip [OF assms(2), of "CHR ''m''" "'' '' @ a @ ''s''"] first_opt_skip [OF m minutes_first(3) [OF assms(1,2)]]
    by simp
  have h: "rx_match (component 2 (ci (CHR ''h''))) (None, c @ ''h'' @ s, []) = [(Some (CHR ''h''), s, [(2, c)])]" for s
    using component_match(1) [OF assms(3), of "CHR ''h''"] by simp
  show "match_here DURATION_REGEX None (c @ ''h '' @ a @ ''s'') = Some ([], [(4, a), (2, c)])"
    using skip [OF assms(3), of "CHR ''h''" "'' '' @ a @ ''s''"] first_opt_take [OF h minutes_first(2) [OF assms(1,2)]]
    by simp
  show "match_here DURATION_REGEX None (c @ ''h '' @ b @ ''m '' @ a @ ''s'') = Some ([], [(4, a), (3, b), (2, c)])"
    using skip [OF assms(3), of "CHR ''h''" "'' '' @ b @ ''m '' @ a @ ''s''"]
      first_opt_take [OF h minutes_first(4) [OF assms(1,2)]]
    by simp
qed

text \<open>Components without a fraction are exact.\<close>

lemma split_digits: "all_digits s \<Longrightarrow> split_on (CHR ''.'') s = [s]"
  by (rule split_on_none) (auto simp: all_digits_def list_all_iff is_digit_def)

lemma parse_digits:
  "all_digits s \<Longrightarrow> length s \<le> 15 \<Longrightarrow> parseDecimalComponent s mult = Some \<lparr>dc_intPart = bigint_of s, dc_fracStr = [], dc_mult = mult\<rparr>"
  using length_dropWhile_le [of "\<lambda>c. c = CHR ''0''" s]
  by (auto simp: parseDecimalComponent_def split_digits nth_opt_def Let_def nullish_def)

lemma round_exact: "0 \<le> n \<Longrightarrow> n \<le> MAX_FINITE_FORWARDING_MS
    \<Longrightarrow> round_duration zeroOk n 1 = (if n = 0 \<and> \<not> zeroOk then None else Some n)"
  by (auto simp: round_duration_def Let_def)

lemma max_frac_none: "\<forall>c \<in> set cs. dc_fracStr c = [] \<Longrightarrow> max_frac cs = 0"
proof -
  assume c: "\<forall>c \<in> set cs. dc_fracStr c = []"
  have "foldl (\<lambda>m c. if length (dc_fracStr c) > m then length (dc_fracStr c) else m) 0 cs = 0"
    using c by (induction cs) simp_all
  then show ?thesis by (simp add: max_frac_def)
qed

lemma parse_whole_components:
  assumes "raw_components opts (js_trim s) = comps" "comps \<noteq> []" "js_trim s \<noteq> []"
    and "\<forall>(str, mult) \<in> set comps. all_digits str \<and> length str \<le> 15"
    and "n = (\<Sum>(str, mult) \<leftarrow> comps. bigint_of str * mult)" "0 \<le> n" "n \<le> MAX_FINITE_FORWARDING_MS"
  shows "parseDurationToMsBigInt opts s = (if n = 0 \<and> \<not> allowZero opts then None else Some n)"
proof -
  let ?c = "\<lambda>(str, mult). \<lparr>dc_intPart = bigint_of str, dc_fracStr = [], dc_mult = mult\<rparr>"
  have p: "map (\<lambda>(str, mult). parseDecimalComponent str mult) comps = map (\<lambda>x. Some (?c x)) comps"
    using assms(4) by (auto simp: parse_digits)
  have "foldl (\<lambda>total c. total + (dc_intPart c * 10 ^ 0 + bigint_of (dc_fracStr c) * 10 ^ (0 - length (dc_fracStr c))) * dc_mult c) t (map ?c comps)
      = t + (\<Sum>(str, mult) \<leftarrow> comps. bigint_of str * mult)" for t
    by (induction comps arbitrary: t) (auto simp: bigint_of_def)
  then have sc: "scaled_numerator 0 (map ?c comps) = n" by (simp add: scaled_numerator_def assms(5))
  have mf: "max_frac (map ?c comps) = 0" by (rule max_frac_none) auto
  have cs: "map the (map (\<lambda>x. Some (?c x)) comps) = map ?c comps" "None \<notin> set (map (\<lambda>x. Some (?c x)) comps)" by auto
  then show ?thesis
    unfolding parseDurationToMsBigInt_def Let_def assms(1) p cs sc mf using assms(2,3) round_exact [OF assms(6,7)] cs
    by (simp add: sc mf)
qed

lemma printed_components:
  assumes "all_digits a" "all_digits b" "all_digits c"
  shows "raw_components opts (a @ ''s'') = [(a, 1000)]"
    and "raw_components opts (b @ ''m '' @ a @ ''s'') = [(b, 60000), (a, 1000)]"
    and "raw_components opts (c @ ''h '' @ a @ ''s'') = [(c, 3600000), (a, 1000)]"
    and "raw_components opts (c @ ''h '' @ b @ ''m '' @ a @ ''s'') = [(c, 3600000), (b, 60000), (a, 1000)]"
  by (simp_all only: raw_components_def printed_match [OF assms]) (simp_all add: map_filter_simps)

lemma js_trim_between: "\<not> js_space c \<Longrightarrow> \<not> js_space d \<Longrightarrow> js_trim (c # s @ [d]) = c # s @ [d]"
  by (simp add: js_trim_def)

lemma js_trim_printed: "all_digits a \<Longrightarrow> js_trim (a @ s @ ''s'') = a @ s @ ''s''"
proof -
  assume "all_digits a"
  then obtain c b where a: "a = c # b" "is_digit c" by (cases a) (auto simp: all_digits_def)
  then have "\<not> js_space c" by (auto simp: js_space_def is_digit_def)
  from js_trim_between [OF this, of "CHR ''s''" "b @ s"] show ?thesis by (simp add: a(1) js_space_def)
qed

lemma show_int_short: "0 \<le> k \<Longrightarrow> k < 10 ^ n \<Longrightarrow> 0 < n \<Longrightarrow> length (show_int k) \<le> n"
  using show_nat_length [of "nat k" n] by (simp add: show_int_def nat_less_iff)

lemma le_div_round: "(w::int) \<le> (w + 999) div 1000 * 1000"
  using div_mult_mod_eq [of "w + 999" 1000] pos_mod_bound [of 1000 "w + 999"] by linarith

lemma forwarding_above: "MAX_FINITE_WAIT_MS \<le> MAX_FINITE_FORWARDING_MS"
  unfolding MAX_FINITE_FORWARDING_MS_def MAX_FINITE_WAIT_SECONDS_def 
  by (rule le_div_round)

lemma safe_forwarding:
  assumes "n \<le> 10 ^ 30"
  shows "n \<le> MAX_FINITE_FORWARDING_MS"
proof -
  have p: "(2::int) ^ 100 \<le> 2 ^ 971" by (rule power_increasing) simp_all
  have "(10::int) ^ 30 \<le> (2 ^ 53 - 1) * 2 ^ 100" by simp
  also have "\<dots> \<le> MAX_FINITE_WAIT_MS" unfolding MAX_FINITE_WAIT_MS_def by (rule mult_left_mono [OF p]) simp
  also note forwarding_above
  finally show ?thesis using assms by simp
qed

lemma duration_parts:
  assumes "0 \<le> (t::int)"
  shows "t = (t div 3600) * 3600 + (t mod 3600 div 60) * 60 + t mod 60"
    and "0 \<le> t div 3600" "0 \<le> t mod 3600 div 60" "t mod 3600 div 60 < 60" "0 \<le> t mod 60" "t mod 60 < 60"
proof -
  have "t mod 3600 mod 60 = t mod 60" by (simp add: mod_mod_cancel)
  then show "t = (t div 3600) * 3600 + (t mod 3600 div 60) * 60 + t mod 60"
    using div_mult_mod_eq [of t 3600] div_mult_mod_eq [of "t mod 3600" 60] by linarith
  have "0 \<le> t mod 3600" "t mod 3600 < 3600" by simp_all
  then show "0 \<le> t mod 3600 div 60" "t mod 3600 div 60 < 60" by linarith+
qed (use assms in \<open>simp_all add: pos_imp_zdiv_nonneg_iff\<close>)

text \<open>Parsing a printed duration gives the printed seconds.\<close>

lemma parse_printed:
  assumes "max 0 \<lceil>waitMs / 1000\<rceil> < 3600 * 10 ^ 15"
  defines "t \<equiv> max 0 \<lceil>waitMs / 1000\<rceil>"
  shows "parseDurationToMsBigInt opts (formatResetDuration waitMs) = (if t = 0 \<and> \<not> allowZero opts then None else Some (t * 1000))"
proof -
  define h m s where hms: "h = t div 3600" "m = t mod 3600 div 60" "s = t mod 60"
  have t: "0 \<le> t" "t < 3600 * 10 ^ 15" using assms(1) by (simp_all add: t_def)
  note parts = duration_parts [OF t(1), folded hms]
  have h: "h < 10 ^ 15" using parts(1,5) parts(3) t(2) by linarith
  have d: "all_digits (show_int h)" "all_digits (show_int m)" "all_digits (show_int s)" using parts by simp_all
  have l: "length (show_int h) \<le> 15" "length (show_int m) \<le> 15" "length (show_int s) \<le> 15"
    using parts h show_int_short [of _ 15] by simp_all
  have b: "t * 1000 \<le> MAX_FINITE_FORWARDING_MS" by (rule safe_forwarding) (use t(2) in simp)
  have f: "formatResetDuration waitMs = (if h > 0 then show_int h @ ''h '' else []) @ (if m > 0 then show_int m @ ''m '' else [])
      @ show_int s @ ''s''"
    by (simp only: formatResetDuration_def Let_def hms t_def append_assoc)
  note c = printed_components [OF d(3,2,1)]
  have w: "parseDurationToMsBigInt opts d = (if t = 0 \<and> \<not> allowZero opts then None else Some (t * 1000))"
    if "js_trim d = d" "d \<noteq> []" "raw_components opts d = comps" "comps \<noteq> []" 
      "\<forall>(str, mult) \<in> set comps. all_digits str \<and> length str \<le> 15" "t * 1000 = (\<Sum>(str, mult) \<leftarrow> comps. bigint_of str * mult)"
    for d comps
    using parse_whole_components [of opts d comps "t * 1000"] that t b by simp
  consider "h = 0" "m = 0" | "h = 0" "m > 0" | "h > 0" "m = 0" | "h > 0" "m > 0" using parts by linarith
  then show ?thesis
  proof cases
    case 1
    then show ?thesis unfolding f using w [OF _ _ c(1)] d l parts js_trim_printed [OF d(3), of "[]"] by simp
  next
    case 2
    then show ?thesis unfolding f using w [OF _ _ c(2)] d l parts js_trim_printed [OF d(2), of "''m '' @ show_int s"] by simp
  next
    case 3
    then show ?thesis unfolding f using w [OF _ _ c(3)] d l parts js_trim_printed [OF d(1), of "''h '' @ show_int s"] by simp
  next
    case 4
    then show ?thesis unfolding f
      using w [OF _ _ c(4)] d l parts js_trim_printed [OF d(1), of "''h '' @ show_int m @ ''m '' @ show_int s"] by simp
  qed
qed

section \<open>Ranges\<close>

lemma in_range_Some: "in_range bound v = Some n \<longleftrightarrow> n = v \<and> 0 \<le> v \<and> v \<le> bound"
  by (auto simp: in_range_def)

lemma whole_number_nonneg: "whole_number x = Some n \<Longrightarrow> 0 \<le> n"
  by (auto simp: whole_number_def split: if_splits)

lemma safe_seconds: "n \<le> MAX_SAFE_INTEGER \<Longrightarrow> n \<le> MAX_FINITE_WAIT_SECONDS"
  using safe_forwarding [of "MAX_SAFE_INTEGER * 1000"] by (simp add: MAX_FINITE_FORWARDING_MS_def MAX_SAFE_INTEGER_def)

lemma ms_in_range: "validateRetryAfterMsBigInt raw = Some ms \<Longrightarrow> 0 \<le> ms \<and> ms \<le> MAX_FINITE_FORWARDING_MS"
  by (auto simp: validateRetryAfterMsBigInt_def in_range_Some Let_def dest!: whole_number_nonneg
      split: option.splits raw_value.splits if_splits)

lemma http_date_range: "http_date_seconds now s = Some sec \<Longrightarrow> 0 \<le> sec \<and> sec \<le> MAX_FINITE_WAIT_SECONDS"
  by (auto simp: http_date_seconds_def Let_def safe_seconds split: option.splits if_splits)

lemma seconds_in_range:
  "validateRetryAfterSecondsBigInt now raw = Some sec \<Longrightarrow> 0 \<le> sec \<and> sec \<le> MAX_FINITE_WAIT_SECONDS"
  by (auto simp: validateRetryAfterSecondsBigInt_def in_range_Some Let_def dest!: whole_number_nonneg http_date_range
      split: option.splits raw_value.splits if_splits)

lemma header_in_range: "header_delay now hs = Some ms \<Longrightarrow> 0 \<le> ms \<and> ms \<le> MAX_FINITE_FORWARDING_MS"
  by (auto simp: header_delay_def or_else_def MAX_FINITE_FORWARDING_MS_def dest: seconds_in_range ms_in_range split: option.splits)

section \<open>Forwarded headers\<close>

definition header_pair :: "int \<Rightarrow> (string \<times> string) list" where
  "header_pair ms = [(''retry-after'', show_int \<lceil>of_int ms / 1000 :: rat\<rceil>), (''retry-after-ms'', show_int ms)]"

lemma ceiling_thousandth: "\<lceil>of_int ms / 1000 :: rat\<rceil> = (ms + 999) div 1000"
proof -
  have "(ms + 999) div 1000 * 1000 \<ge> ms \<and> (ms + 999) div 1000 * 1000 < ms + 1000"
    using div_mult_mod_eq [of "ms + 999" 1000] pos_mod_bound [of 1000 "ms + 999"] pos_mod_sign [of 1000 "ms + 999"]
    by (intro conjI) linarith+
  then have "(of_int ((ms + 999) div 1000 * 1000) :: rat) \<ge> of_int ms" "(of_int ((ms + 999) div 1000 * 1000) :: rat) < of_int (ms + 1000)"
    by (simp_all only: of_int_le_iff of_int_less_iff)
  then show ?thesis by (intro ceiling_unique) simp_all
qed

lemma pair_from_ms: "0 \<le> ms \<Longrightarrow> ms \<le> MAX_FINITE_FORWARDING_MS \<Longrightarrow> deriveRetryHeaderPairFromMs ms = Some (header_pair ms)"
  by (simp add: deriveRetryHeaderPairFromMs_def header_pair_def ceiling_thousandth)

lemma pair_from_seconds:
  "0 \<le> sec \<Longrightarrow> sec \<le> MAX_FINITE_WAIT_SECONDS \<Longrightarrow> deriveRetryHeaderPairFromSeconds sec = Some (header_pair (sec * 1000))"
  by (simp add: deriveRetryHeaderPairFromSeconds_def header_pair_def)

lemma collect_delay:
  "collectForwardedHeaders now hs = Some (case header_delay now hs of None \<Rightarrow> [] | Some ms \<Rightarrow> header_pair ms)"
  by (auto simp: collectForwardedHeaders_def header_delay_def or_else_def pair_from_ms pair_from_seconds
      dest: ms_in_range seconds_in_range split: option.splits)

lemma forwarding_digits:
  assumes "0 \<le> ms" "ms \<le> MAX_FINITE_FORWARDING_MS"
  shows "length (show_int ms) \<le> 309"
proof -
  have "(w + 999) div 1000 * 1000 \<le> w + 999" for w :: int
    using div_mult_mod_eq [of "w + 999" 1000] pos_mod_sign [of 1000 "w + 999"] by linarith
  then have "ms \<le> MAX_FINITE_WAIT_MS + 999"
    using assms(2) by (simp add: MAX_FINITE_FORWARDING_MS_def MAX_FINITE_WAIT_SECONDS_def)
  also have "\<dots> < (10::int) ^ 309" unfolding MAX_FINITE_WAIT_MS_def by simp
  finally show ?thesis using assms(1) by (intro show_int_short) simp_all
qed

lemma pair_read_back:
  assumes "0 \<le> ms" "ms \<le> MAX_FINITE_FORWARDING_MS"
  shows "header_delay now (Some (HeadersObject (header_pair ms))) = Some ms"
proof -
  have "show_int ms \<noteq> []" using all_digits_show [OF assms(1)] by (auto simp: all_digits_def)
  then have "validateRetryAfterMsBigInt (Some (RawString (show_int ms))) = Some ms"
    using assms forwarding_digits [OF assms] js_trim_digits [OF all_digits_show [OF assms(1)]]
    by (simp add: validateRetryAfterMsBigInt_def Let_def in_range_def)
  then show ?thesis by (simp add: header_delay_def or_else_def get_header_def header_pair_def)
qed

section \<open>Sources of a delay\<close>

lemma first_some_member: "first_some f xs = Some y \<Longrightarrow> \<exists>x \<in> set xs. f x = Some y"
  by (induction xs) (auto split: option.splits)

lemma first_some_None: "first_some f xs = None \<Longrightarrow> x \<in> set xs \<Longrightarrow> f x = None"
  by (induction xs) (auto split: option.splits)

lemma duration_in_range:
  assumes "parseDurationToMsBigInt opts s = Some n"
  shows "0 \<le> n \<and> n \<le> MAX_FINITE_FORWARDING_MS \<and> (n = 0 \<longrightarrow> allowZero opts)"
  using parse_duration_value [OF assms] by (auto split: if_splits)

lemma safe_delay: "n \<le> MAX_SAFE_INTEGER \<Longrightarrow> n \<le> MAX_FINITE_FORWARDING_MS"
  by (rule safe_forwarding) (simp add: MAX_SAFE_INTEGER_def)

lemma numeric_delay_range:
  "numeric_delay z x = Some ms \<Longrightarrow> 0 \<le> ms \<and> ms \<le> MAX_FINITE_FORWARDING_MS \<and> (ms = 0 \<longrightarrow> z)"
  using safe_delay [of ms] MAX_FINITE_FORWARDING_MS_nonneg safe_delay [of 1]
  by (auto simp: numeric_delay_def Let_def max_def MAX_SAFE_INTEGER_def split: if_splits)

lemma retry_info_range:
  "retry_info_delay opts entry = Some ms \<Longrightarrow> 0 \<le> ms \<and> ms \<le> MAX_FINITE_FORWARDING_MS \<and> (ms = 0 \<longrightarrow> allowZero opts)"
  by (auto simp: retry_info_delay_def dest: duration_in_range numeric_delay_range
      split: json.splits option.splits if_splits)

lemma quota_reset_range:
  "quota_reset_delay opts entry = Some r
    \<Longrightarrow> 0 \<le> rm_delayMs r \<and> rm_delayMs r \<le> MAX_FINITE_FORWARDING_MS \<and> (rm_delayMs r = 0 \<longrightarrow> allowZero opts)"
  by (auto simp: quota_reset_delay_def dest: duration_in_range split: json.splits option.splits)

lemma message_range:
  "message_delay ro = Some ms \<Longrightarrow> 0 \<le> ms \<and> ms \<le> MAX_FINITE_FORWARDING_MS \<and> (ms = 0 \<longrightarrow> allowZero (ro_parser ro))"
  by (auto simp: message_delay_def dest: duration_in_range split: option.splits if_splits)

end
