(* ===== verification/Retry_Properties.thy ===== *)
theory Retry_Properties
  imports Retry_Facts
begin

text \<open>
  The properties of retry delays: rounding of durations, the round trip of printed durations,
  the forwarded headers, and the delay chosen among all sources.
\<close>

text \<open>
  C18. A duration that parses stands for the exact sum of its components, rounded half up to a
  millisecond and at least one: nothing is lost to floating point, the result lies between zero
  and the largest delay that can be forwarded, and it is zero only when zero is allowed.
\<close>

theorem duration_rounded:
  assumes "parseDurationToMsBigInt opts s = Some n"
  defines "v \<equiv> duration_value (raw_components opts (js_trim s))"
  shows "0 \<le> n \<and> n \<le> MAX_FINITE_FORWARDING_MS
     \<and> (if v = 0 then allowZero opts \<and> n = 0 else 0 < v \<and> n = max 1 (js_round v))"
  using parse_duration_value [OF assms(1)] unfolding v_def .

definition plain_parser :: DurationParserOptions where
  "plain_parser = \<lparr>allowZero = False, allowBareSeconds = False\<rparr>"

theorem duration_rounded_witness:
  "js_round (duration_value (raw_components plain_parser (js_trim '' 1.5m 0.0004s ''))) = 90000"
proof -
  have "parseDurationToMsBigInt plain_parser '' 1.5m 0.0004s '' = Some 90000" by code_simp
  from duration_rounded [OF this] show ?thesis by (auto simp: max_def split: if_splits)
qed

text \<open>
  Parsing what \<open>formatResetDuration\<close> prints gives the printed seconds back, for every waiting time
  below \<open>10 ^ 15\<close> hours: the wait rounded up to a full second, and nothing for a wait of zero unless zero
  is allowed.
\<close>

lemma printed_duration_parsed:
  assumes "waitMs \<le> 3600 * 10 ^ 18 - 1000"
  shows "parseDurationToMsBigInt opts (formatResetDuration waitMs) =
    (if waitMs \<le> 0 \<and> \<not> allowZero opts then None else Some (1000 * max 0 \<lceil>waitMs / 1000\<rceil>))"
proof -
  have "\<lceil>waitMs / 1000\<rceil> \<le> 3600 * 10 ^ 15 - 1"
    by (rule ceiling_le) (use assms in simp)
  then have "max 0 \<lceil>waitMs / 1000\<rceil> < 3600 * 10 ^ 15" by simp
  note p = parse_printed [OF this, of opts]
  have "\<lceil>waitMs / 1000\<rceil> \<le> 0 \<longleftrightarrow> waitMs \<le> 0" by simp
  moreover have "max 0 k = 0 \<longleftrightarrow> k \<le> 0" for k :: int by (simp add: max_def)
  ultimately have "max 0 \<lceil>waitMs / 1000\<rceil> = 0 \<longleftrightarrow> waitMs \<le> 0" by blast
  then show ?thesis unfolding p by (simp add: mult.commute)
qed

theorem printed_duration_parsed_witness:
  "parseDurationToMsBigInt plain_parser (formatResetDuration 3723500) = Some 3724000"
  using printed_duration_parsed [of 3723500 plain_parser] by (simp add: plain_parser_def ceiling_eq_iff)

text \<open>
  C19. Collecting the headers to forward never throws, and what it collects is the delay that the
  resolution of retry metadata takes from the same headers: in milliseconds, and in seconds rounded up so
  that no client retries early; nothing when the headers name no delay. Forwarding what was forwarded,
  at any later time, changes nothing.
\<close>

theorem forwarded_headers_consistent:
  "\<exists>r. collectForwardedHeaders now headers = Some r
     \<and> (case header_delay now headers of
          None \<Rightarrow> r = []
        | Some ms \<Rightarrow> 0 \<le> ms \<and> r = [(''retry-after'', show_int \<lceil>of_int ms / 1000 :: rat\<rceil>), (''retry-after-ms'', show_int ms)])
     \<and> collectForwardedHeaders later (Some (HeadersObject r)) = Some r"
proof (cases "header_delay now headers")
  case None
  have "header_delay later (Some (HeadersObject [])) = None"
    by (simp add: header_delay_def or_else_def get_header_def validateRetryAfterMsBigInt_def validateRetryAfterSecondsBigInt_def)
  then show ?thesis using None by (simp add: collect_delay)
next
  case (Some ms)
  then show ?thesis using header_in_range [OF Some] pair_read_back [of ms later] by (simp add: collect_delay header_pair_def)
qed

text \<open>
  The delay that \<open>resolveRetryMetadata\<close> chooses lies between zero and the largest delay that can be
  forwarded. When an entry of the details has a delay, the result does not depend on the message, the
  headers or the other fields of the options, and it is zero only when zero is allowed.
\<close>

lemma resolved_delay:
  assumes "resolveRetryMetadata now ro = Some r"
  shows "0 \<le> rm_delayMs r \<and> rm_delayMs r \<le> MAX_FINITE_FORWARDING_MS
    \<and> ((\<exists>e \<in> set (detail_list (ro_details ro)).
           retry_info_delay (ro_parser ro) e \<noteq> None \<or> quota_reset_delay (ro_parser ro) e \<noteq> None)
       \<longrightarrow> (rm_delayMs r = 0 \<longrightarrow> allowZero (ro_parser ro))
         \<and> (\<forall>now' ro'. ro_details ro' = ro_details ro \<and> ro_parser ro' = ro_parser ro \<longrightarrow> resolveRetryMetadata now' ro' = Some r))"
proof -
  let ?info = "first_some (retry_info_delay (ro_parser ro)) (detail_list (ro_details ro))"
  let ?quota = "first_some (quota_reset_delay (ro_parser ro)) (detail_list (ro_details ro))"
  consider (info) ms where "?info = Some ms" "r = only_delay ms" | (quota) "?info = None" "?quota = Some r"
    | (other) "?info = None" "?quota = None" using assms by (auto simp: resolveRetryMetadata_def split: option.splits)
  then show ?thesis
  proof cases
    case (info ms)
    then obtain e where "retry_info_delay (ro_parser ro) e = Some ms" by (auto dest: first_some_member)
    then show ?thesis using retry_info_range info by (auto simp: resolveRetryMetadata_def only_delay_def)
  next
    case quota
    then obtain e where "quota_reset_delay (ro_parser ro) e = Some r" by (auto dest: first_some_member)
    then show ?thesis using quota_reset_range quota by (auto simp: resolveRetryMetadata_def)
  next
    case other
    have "0 \<le> rm_delayMs r \<and> rm_delayMs r \<le> MAX_FINITE_FORWARDING_MS"
      using assms other
      by (auto simp: resolveRetryMetadata_def or_else_def only_delay_def MAX_FINITE_FORWARDING_MS_def
          dest: ms_in_range seconds_in_range message_range header_in_range split: option.splits)
    then show ?thesis using first_some_None [OF other(1)] first_some_None [OF other(2)] by auto
  qed
qed

definition retry_info_entry :: json where
  "retry_info_entry = JObj [(''@type'', JStr ''type.googleapis.com/google.rpc.RetryInfo''), (''retryDelay'', JStr ''2s'')]"

definition sample_options :: ResolveRetryMetadataOptions where
  "sample_options = \<lparr>ro_details = Some (JArr [retry_info_entry]), ro_message = None, ro_status = Some 429, ro_headers = None,
     ro_retryAfterMs = None, ro_resetAfterMs = None, ro_retryAfterSeconds = Some (RawNumber 7), ro_parser = plain_parser\<rparr>"

theorem resolved_delay_witness:
  "resolveRetryMetadata 5 (sample_options\<lparr>ro_status := Some 503, ro_retryAfterMs := Some (RawBigInt 1)\<rparr>) = Some (only_delay 2000)"
proof -
  let ?other = "sample_options\<lparr>ro_status := Some 503, ro_retryAfterMs := Some (RawBigInt 1)\<rparr>"
  have d: "retry_info_delay plain_parser retry_info_entry = Some 2000" by code_simp
  have r: "resolveRetryMetadata 0 sample_options = Some (only_delay 2000)"
    by (simp add: resolveRetryMetadata_def sample_options_def detail_list_def d)
  have "\<exists>e \<in> set (detail_list (ro_details sample_options)). retry_info_delay (ro_parser sample_options) e \<noteq> None
      \<or> quota_reset_delay (ro_parser sample_options) e \<noteq> None"
    by (simp add: sample_options_def detail_list_def d)
  with resolved_delay [OF r] have "ro_details ?other = ro_details sample_options \<and> ro_parser ?other = ro_parser sample_options
      \<longrightarrow> resolveRetryMetadata 5 ?other = Some (only_delay 2000)" by blast
  then show ?thesis by simp
qed

end
