(* ===== verification/Thinking_Filter.thy ===== *)
theory Thinking_Filter
  imports Json_Text
begin

text \<open>
  The filtering of thinking blocks in \<^verbatim>\<open>opencode/src/plugin/request-helpers.ts\<close>: what happens to the
  thinking parts of a request body, at every depth, before it is sent. \<open>None\<close> of a result is a thrown
  \<open>TypeError\<close>. The cache of signatures is an argument: the session and the lookup function, both
  optional; a lookup does not change the answers of later lookups in the same pass. Logging is left out.
\<close>

section \<open>Kinds of parts\<close>

definition is_object :: "json \<Rightarrow> bool" where
  "is_object v = (case v of JArr xs \<Rightarrow> True | JObj ob \<Rightarrow> True | _ \<Rightarrow> False)"

definition isThinkingPart :: "json \<Rightarrow> bool" where
  "isThinkingPart part \<longleftrightarrow>
     is_str (fld part ''type'') ''thinking'' \<or> is_str (fld part ''type'') ''redacted_thinking''
     \<or> is_str (fld part ''type'') ''reasoning'' \<or> fld part ''thinking'' \<noteq> None
     \<or> fld part ''thought'' = Some (JBool True)"

definition hasSignatureField :: "json \<Rightarrow> bool" where
  "hasSignatureField part \<longleftrightarrow> fld part ''signature'' \<noteq> None \<or> fld part ''thoughtSignature'' \<noteq> None"

definition isToolBlock :: "json \<Rightarrow> bool" where
  "isToolBlock part \<longleftrightarrow>
     is_str (fld part ''type'') ''tool_use'' \<or> is_str (fld part ''type'') ''tool_result''
     \<or> list_ex (\<lambda>k. fld part k \<noteq> None)
         [''tool_use_id'', ''tool_call_id'', ''tool_result'', ''tool_use'', ''toolUse'', ''functionCall'', ''functionResponse'']"

text \<open>The text part that takes the place of a thinking part.\<close>

definition sentinel_for :: "json \<Rightarrow> json" where
  "sentinel_for item =
     JObj ((''text'', JStr ''.'')
           # (case fld item ''cache_control'' of
                None \<Rightarrow> [] | Some cc \<Rightarrow> if truthy cc then [(''cache_control'', cc)] else []))"

definition stripAllThinking :: "json list \<Rightarrow> json list" where
  "stripAllThinking contentArray =
     map (\<lambda>item. if \<not> is_object item \<or> isToolBlock item then item
                 else if isThinkingPart item \<or> hasSignatureField item then sentinel_for item
                 else item) contentArray"

section \<open>Signatures\<close>

definition own_signature :: "json \<Rightarrow> json option" where
  "own_signature part =
     (if fld part ''thought'' = Some (JBool True) then fld part ''thoughtSignature'' else fld part ''signature'')"

definition getSignature :: "json \<Rightarrow> string option" where
  "getSignature part = (case own_signature part of Some (JStr s) \<Rightarrow> Some s | _ \<Rightarrow> None)"

definition hasValidSignature :: "json \<Rightarrow> bool" where
  "hasValidSignature part = (case getSignature part of Some s \<Rightarrow> 50 \<le> length s | None \<Rightarrow> False)"

text \<open>\<open>a ?? b\<close> and the string that an optional value is.\<close>

definition coalesce :: "json option \<Rightarrow> json option \<Rightarrow> json option" where
  "coalesce a b = (case a of None \<Rightarrow> b | Some JNull \<Rightarrow> b | Some v \<Rightarrow> Some v)"

definition string_of :: "json option \<Rightarrow> string option" where
  "string_of v = (case v of Some (JStr s) \<Rightarrow> Some s | _ \<Rightarrow> None)"

definition sub_fld :: "json option \<Rightarrow> string \<Rightarrow> json option" where
  "sub_fld v k = (case v of None \<Rightarrow> None | Some x \<Rightarrow> fld x k)"

definition first_string :: "string option list \<Rightarrow> string" where
  "first_string xs = (case List.map_filter (\<lambda>x. x) xs of [] \<Rightarrow> [] | s # others \<Rightarrow> s)"

definition getThinkingText :: "json \<Rightarrow> string" where
  "getThinkingText part =
     (let text = fld part ''text''; thinking = fld part ''thinking''
      in first_string [string_of text, string_of thinking, string_of (sub_fld text ''text''),
           string_of (coalesce (sub_fld thinking ''text'') (sub_fld thinking ''thinking''))])"

type_synonym signature_lookup = "string \<Rightarrow> string \<Rightarrow> string option"

text \<open>The lookup for the session, when both the session and the function are given.\<close>

definition session_lookup :: "string option \<Rightarrow> signature_lookup option \<Rightarrow> (string \<Rightarrow> string option) option" where
  "session_lookup sessionId getCachedSignatureFn =
     (case (sessionId, getCachedSignatureFn) of
        (Some s, Some f) \<Rightarrow> if s = [] then None else Some (f s)
      | _ \<Rightarrow> None)"

definition isOurCachedSignature :: "(string \<Rightarrow> string option) option \<Rightarrow> json \<Rightarrow> bool" where
  "isOurCachedSignature cached part =
     (case cached of
        None \<Rightarrow> False
      | Some f \<Rightarrow>
          (let text = getThinkingText part in
           text \<noteq> []
           \<and> (case getSignature part of
                 None \<Rightarrow> False
               | Some sig \<Rightarrow> sig \<noteq> [] \<and> f text = Some sig)))"

text \<open>The loop from the end over the trailing thinking parts; reading \<open>null\<close> throws.\<close>

fun strip_trailing :: "(string \<Rightarrow> string option) option \<Rightarrow> json list \<Rightarrow> json list option" where
  "strip_trailing cached [] = Some []"
| "strip_trailing cached (part # before) =
     (if part = JNull then None
      else if \<not> isThinkingPart part
        \<or> (case cached of None \<Rightarrow> hasValidSignature part | Some f \<Rightarrow> isOurCachedSignature cached part)
      then Some (part # before)
      else map_option ((#) (sentinel_for part)) (strip_trailing cached before))"

definition removeTrailingThinkingBlocks :: "(string \<Rightarrow> string option) option \<Rightarrow> json list \<Rightarrow> json list option" where
  "removeTrailingThinkingBlocks cached contentArray = map_option rev (strip_trailing cached (rev contentArray))"

section \<open>Sanitizing a part\<close>

function stripCacheControlRecursively :: "json \<Rightarrow> json" where
  "stripCacheControlRecursively JNull = JNull"
| "stripCacheControlRecursively (JBool b) = JBool b"
| "stripCacheControlRecursively (JNum n) = JNum n"
| "stripCacheControlRecursively (JStr s) = JStr s"
| "stripCacheControlRecursively (JArr xs) = JArr (map stripCacheControlRecursively xs)"
| "stripCacheControlRecursively (JObj ob) =
     JObj (map (\<lambda>(k, v). (k, stripCacheControlRecursively v))
       (filter (\<lambda>(k, v). k \<noteq> ''cache_control'' \<and> k \<noteq> ''providerOptions'') ob))"
  by pat_completeness auto
termination
proof (relation "measure size")
  fix ob :: js_object and x k v
  assume x: "x \<in> set (filter (\<lambda>(k, v). k \<noteq> ''cache_control'' \<and> k \<noteq> ''providerOptions'') ob)" "(k, v) = x"
  then have "size_prod (\<lambda>_. 0) size x \<le> size_list (size_prod (\<lambda>_. 0) size) ob"
    by (intro size_list_estimation') auto
  then show "(v, JObj ob) \<in> measure size" using x(2) by auto
qed (auto intro: le_imp_less_Suc size_list_estimation')

definition text_string :: "json option \<Rightarrow> string option" where
  "text_string v =
     (case v of Some (JStr s) \<Rightarrow> Some s | Some (JObj ob) \<Rightarrow> get_str ob ''text'' | _ \<Rightarrow> None)"

definition thinking_string :: "json option \<Rightarrow> string option" where
  "thinking_string v =
     (case v of
        Some (JStr s) \<Rightarrow> Some s
      | Some (JObj ob) \<Rightarrow> string_of (coalesce (map_of ob ''text'') (map_of ob ''thinking''))
      | _ \<Rightarrow> None)"

definition has_content :: "string option \<Rightarrow> bool" where
  "has_content s = (case s of None \<Rightarrow> False | Some t \<Rightarrow> js_trim t \<noteq> [])"

definition opt_fld :: "string \<Rightarrow> json \<Rightarrow> js_object" where
  "opt_fld k part = (case fld part k of None \<Rightarrow> [] | Some v \<Rightarrow> [(k, v)])"

definition sanitizeThinkingPart :: "json \<Rightarrow> json option" where
  "sanitizeThinkingPart part =
     (if fld part ''thought'' = Some (JBool True)
      then (let s = text_string (fld part ''text'')
            in if \<not> has_content s \<and> \<not> truthy_fld part ''thoughtSignature'' then None
               else Some (JObj ([(''thought'', JBool True), (''text'', JStr (nullish s []))]
                      @ opt_fld ''thoughtSignature'' part @ opt_fld ''cache_control'' part)))
      else if is_str (fld part ''type'') ''thinking'' \<or> is_str (fld part ''type'') ''redacted_thinking''
        \<or> fld part ''thinking'' \<noteq> None
      then (let s = thinking_string (coalesce (fld part ''thinking'') (fld part ''text''))
            in if \<not> has_content s \<and> \<not> truthy_fld part ''signature'' then None
               else Some (JObj ([(''type'', JStr (if is_str (fld part ''type'') ''redacted_thinking''
                                                  then ''redacted_thinking'' else ''thinking'')),
                                 (''thinking'', JStr (nullish s []))]
                      @ opt_fld ''signature'' part @ opt_fld ''cache_control'' part)))
      else if is_str (fld part ''type'') ''reasoning''
      then (let s = text_string (fld part ''text'')
            in if \<not> has_content s \<and> \<not> truthy_fld part ''signature'' then None
               else Some (JObj ([(''type'', JStr ''reasoning''), (''text'', JStr (nullish s []))]
                      @ opt_fld ''signature'' part @ opt_fld ''cache_control'' part)))
      else Some (stripCacheControlRecursively part))"

section \<open>Filtering an array of parts\<close>

definition without_flds :: "string list \<Rightarrow> json \<Rightarrow> json" where
  "without_flds ks v = (case v of JObj ob \<Rightarrow> JObj (filter (\<lambda>(k, x). k \<notin> set ks) ob) | _ \<Rightarrow> v)"

text \<open>A part that \<open>sanitizeThinkingPart\<close> rejects becomes the sentinel of the item.\<close>

definition sanitized_or_sentinel :: "json \<Rightarrow> json \<Rightarrow> json" where
  "sanitized_or_sentinel item part =
     (case sanitizeThinkingPart part of Some sanitized \<Rightarrow> sanitized | None \<Rightarrow> sentinel_for item)"

definition restored_part :: "json \<Rightarrow> string \<Rightarrow> json" where
  "restored_part item cachedSignature =
     with_fld item (if fld item ''thought'' = Some (JBool True) then ''thoughtSignature'' else ''signature'')
       (JStr cachedSignature)"

definition restorable :: "(string \<Rightarrow> string option) option \<Rightarrow> json \<Rightarrow> string option" where
  "restorable cached item =
     (case cached of
        None \<Rightarrow> None
      | Some f \<Rightarrow>
          (let text = getThinkingText item in
           if text = [] then None
           else case f text of
                  None \<Rightarrow> None
                | Some sig \<Rightarrow> if 50 \<le> length sig then Some sig else None))"

definition filter_item :: "(string \<Rightarrow> string option) option \<Rightarrow> bool \<Rightarrow> bool \<Rightarrow> json \<Rightarrow> json" where
  "filter_item cached isClaudeModel isLastAssistantMessage item =
     (if \<not> is_object item then item
      else if isToolBlock item
      then (if \<not> isClaudeModel then item
            else without_flds [''signature'', ''thoughtSignature'', ''thought_signature'', ''thought''] item)
      else if \<not> isThinkingPart item \<and> \<not> hasSignatureField item then item
      else if isClaudeModel then sentinel_for item
      else if isLastAssistantMessage
      then (if isOurCachedSignature cached item then sanitized_or_sentinel item item else sentinel_for item)
      else if isOurCachedSignature cached item then sanitized_or_sentinel item item
      else case restorable cached item of
             Some sig \<Rightarrow> sanitized_or_sentinel item (restored_part item sig)
           | None \<Rightarrow> sentinel_for item)"

definition filterContentArray ::
  "(string \<Rightarrow> string option) option \<Rightarrow> bool \<Rightarrow> bool \<Rightarrow> bool \<Rightarrow> json list \<Rightarrow> json list" where
  "filterContentArray cached isClaudeModel keepThinking isLastAssistantMessage contentArray =
     (if isClaudeModel \<and> \<not> keepThinking then stripAllThinking contentArray
      else map (filter_item cached isClaudeModel isLastAssistantMessage) contentArray)"

section \<open>Filtering messages\<close>

definition findLastAssistantIndex :: "json list \<Rightarrow> string \<Rightarrow> nat option" where
  "findLastAssistantIndex contents roleValue =
     find (\<lambda>i. is_str (fld (contents ! i) ''role'') roleValue) (rev [0..<length contents])"

text \<open>The filtered array of a message, trimmed when the message is one of a model.\<close>

definition filter_and_trim ::
  "(string \<Rightarrow> string option) option \<Rightarrow> bool \<Rightarrow> bool \<Rightarrow> bool \<Rightarrow> bool \<Rightarrow> json list \<Rightarrow> json list option" where
  "filter_and_trim cached isClaudeModel keepThinking isLast trim items =
     (let filtered = filterContentArray cached isClaudeModel keepThinking isLast items
      in if trim \<and> \<not> isClaudeModel then removeTrailingThinkingBlocks cached filtered else Some filtered)"

definition filter_content ::
  "(string \<Rightarrow> string option) option \<Rightarrow> bool \<Rightarrow> bool \<Rightarrow> json list \<Rightarrow> nat \<Rightarrow> json option" where
  "filter_content cached isClaudeModel keepThinking contents idx =
     (let content = contents ! idx; isLastAssistant = (findLastAssistantIndex contents ''model'' = Some idx)
      in case arr_fld content ''parts'' of
           Some parts \<Rightarrow>
             map_option (\<lambda>ps. with_fld content ''parts'' (JArr ps))
               (filter_and_trim cached isClaudeModel keepThinking isLastAssistant
                  (is_str (fld content ''role'') ''model'') parts)
         | None \<Rightarrow>
             (case arr_fld content ''content'' of
                Some blocks \<Rightarrow>
                  (let isAssistantRole = is_str (fld content ''role'') ''assistant''
                   in map_option (\<lambda>bs. with_fld content ''content'' (JArr bs))
                        (filter_and_trim cached isClaudeModel keepThinking
                           (isLastAssistant \<or> isAssistantRole \<and> findLastAssistantIndex contents ''assistant'' = Some idx)
                           isAssistantRole blocks))
              | None \<Rightarrow> Some content))"

definition filterUnsignedThinkingBlocks ::
  "(string \<Rightarrow> string option) option \<Rightarrow> bool \<Rightarrow> bool \<Rightarrow> json list \<Rightarrow> json list option" where
  "filterUnsignedThinkingBlocks cached isClaudeModel keepThinking contents =
     those (map (filter_content cached isClaudeModel keepThinking contents) [0..<length contents])"

definition filter_message ::
  "(string \<Rightarrow> string option) option \<Rightarrow> bool \<Rightarrow> bool \<Rightarrow> json list \<Rightarrow> nat \<Rightarrow> json option" where
  "filter_message cached isClaudeModel keepThinking messages idx =
     (let message = messages ! idx
      in case arr_fld message ''content'' of
           Some blocks \<Rightarrow>
             (let isAssistantRole = is_str (fld message ''role'') ''assistant''
              in map_option (\<lambda>bs. with_fld message ''content'' (JArr bs))
                   (filter_and_trim cached isClaudeModel keepThinking
                      (isAssistantRole \<and> findLastAssistantIndex messages ''assistant'' = Some idx)
                      isAssistantRole blocks))
         | None \<Rightarrow> Some message)"

definition filterMessagesThinkingBlocks ::
  "(string \<Rightarrow> string option) option \<Rightarrow> bool \<Rightarrow> bool \<Rightarrow> json list \<Rightarrow> json list option" where
  "filterMessagesThinkingBlocks cached isClaudeModel keepThinking messages =
     those (map (filter_message cached isClaudeModel keepThinking messages) [0..<length messages])"

section \<open>Filtering a payload\<close>

text \<open>The \<open>contents\<close> and then the \<open>messages\<close> of one object.\<close>

definition filter_entry :: "string \<Rightarrow> (json list \<Rightarrow> json list option) \<Rightarrow> js_object \<Rightarrow> js_object option" where
  "filter_entry k f ob =
     (case get_arr ob k of
        None \<Rightarrow> Some ob
      | Some xs \<Rightarrow> map_option (\<lambda>ys. AList.update k (JArr ys) ob) (f xs))"

definition filter_object :: "(string \<Rightarrow> string option) option \<Rightarrow> bool \<Rightarrow> bool \<Rightarrow> js_object \<Rightarrow> js_object option" where
  "filter_object cached isClaudeModel keepThinking ob =
     (case filter_entry ''contents'' (filterUnsignedThinkingBlocks cached isClaudeModel keepThinking) ob of
        None \<Rightarrow> None
      | Some ob1 \<Rightarrow> filter_entry ''messages'' (filterMessagesThinkingBlocks cached isClaudeModel keepThinking) ob1)"

subsection \<open>Nesting\<close>

text \<open>
  Filtering never nests deeper than its input, so the walk over the filtered object ends.
\<close>

fun depth :: "json \<Rightarrow> nat" where
  "depth (JArr xs) = Suc (foldr max (map depth xs) 0)"
| "depth (JObj ob) = Suc (foldr max (map (\<lambda>(k, v). depth v) ob) 0)"
| "depth v = 0"

lemma foldr_max_le: "foldr max ns (0::nat) \<le> d \<longleftrightarrow> (\<forall>n \<in> set ns. n \<le> d)"
  by (induction ns) auto

lemma depth_arr_le: "depth (JArr xs) \<le> Suc d \<longleftrightarrow> (\<forall>x \<in> set xs. depth x \<le> d)"
  by (simp add: foldr_max_le)

lemma depth_obj_le: "depth (JObj ob) \<le> Suc d \<longleftrightarrow> (\<forall>(k, v) \<in> set ob. depth v \<le> d)"
  by (auto simp: foldr_max_le)

lemma depth_member: "(k, v) \<in> set ob \<Longrightarrow> depth v < depth (JObj ob)"
  using depth_obj_le [of ob "depth (JObj ob) - 1"] by (cases "depth (JObj ob)") fastforce+

lemma depth_element: "x \<in> set xs \<Longrightarrow> depth x < depth (JArr xs)"
  using depth_arr_le [of xs "depth (JArr xs) - 1"] by (cases "depth (JArr xs)") fastforce+

lemma depth_fld: "fld v k = Some x \<Longrightarrow> depth x < depth v"
  by (auto simp: fld_def dest!: map_of_SomeD depth_member split: json.splits)

lemma depth_fld_sym: "Some x = fld v k \<Longrightarrow> depth x < depth v"
  by (rule depth_fld) (rule sym)

text \<open>A value that is no deeper than the object it replaces.\<close>

lemma depth_obj_entries: "\<forall>(k, v) \<in> set ob'. depth v < depth v0 \<Longrightarrow> 0 < depth v0 \<Longrightarrow> depth (JObj ob') \<le> depth v0"
  using depth_obj_le [of ob' "depth v0 - 1"] by (cases "depth v0") auto

lemma depth_arr_entries: "(\<And>y. y \<in> set ys \<Longrightarrow> depth y < depth v0) \<Longrightarrow> 0 < depth v0 \<Longrightarrow> depth (JArr ys) \<le> depth v0"
  using depth_arr_le [of ys "depth v0 - 1"] by (cases "depth v0") (force simp del: depth.simps simp: less_Suc_eq_le)+

lemma object_depth: "is_object v \<Longrightarrow> 0 < depth v"
  by (cases v) (simp_all add: is_object_def)

lemma fld_object: "fld v k = Some x \<Longrightarrow> is_object v"
  by (simp add: fld_def is_object_def split: json.splits)

lemma depth_sentinel: "is_object item \<Longrightarrow> depth (sentinel_for item) \<le> depth item"
  unfolding sentinel_for_def
  by (rule depth_obj_entries) (auto dest: depth_fld_sym object_depth split: option.splits if_splits)

lemma depth_strip_cache: "depth (stripCacheControlRecursively v) \<le> depth v"
proof (induction v rule: stripCacheControlRecursively.induct)
  case (5 xs)
  then show ?case using depth_arr_le [of "map stripCacheControlRecursively xs" "depth (JArr xs) - 1"] depth_element [of _ xs]
    by (fastforce simp: foldr_max_le)
next
  case (6 ob)
  have "depth (stripCacheControlRecursively v) < depth (JObj ob)"
    if "(k, v) \<in> set (filter (\<lambda>(k, v). k \<noteq> ''cache_control'' \<and> k \<noteq> ''providerOptions'') ob)" for k v
  proof -
    have "depth (stripCacheControlRecursively v) \<le> depth v" by (rule 6 [OF that refl])
    also have "\<dots> < depth (JObj ob)" using that by (intro depth_member) auto
    finally show ?thesis .
  qed
  then show ?case unfolding stripCacheControlRecursively.simps by (intro depth_obj_entries) auto
qed simp_all

lemma depth_opt_fld: "(k', v) \<in> set (opt_fld k part) \<Longrightarrow> depth v < depth part"
  by (auto simp: opt_fld_def dest: depth_fld_sym split: option.splits)

lemma depth_sanitized:
  assumes "sanitizeThinkingPart part = Some v" "is_object part"
  shows "depth v \<le> depth part"
  using assms depth_strip_cache [of part] object_depth [OF assms(2)]
  by (auto simp: sanitizeThinkingPart_def Let_def simp del: depth.simps(1,2) intro!: depth_obj_entries
      dest: depth_opt_fld split: if_splits)

lemma depth_update:
  assumes "depth x < depth (JObj ob0)" "\<forall>(k, v) \<in> set ob. depth v < depth (JObj ob0)"
  shows "\<forall>(k', v) \<in> set (AList.update k x ob). depth v < depth (JObj ob0)"
  using assms set_update_subset [of k x ob] by auto

lemma depth_with_fld: "is_object v \<Longrightarrow> depth x < depth v \<Longrightarrow> depth (with_fld v k x) \<le> depth v"
proof (cases v)
  case (JObj ob)
  assume "depth x < depth v"
  then have "\<forall>(k', v') \<in> set (AList.update k x ob). depth v' < depth v"
    unfolding JObj by (rule depth_update) (auto simp del: depth.simps dest: depth_member)
  then show ?thesis unfolding with_fld_def JObj json.case by (rule depth_obj_entries) simp
qed (auto simp: is_object_def with_fld_def)

lemma depth_filter_item: "depth (filter_item cached isClaude isLast item) \<le> depth item"
proof (cases "is_object item")
  case True
  note sentinel = depth_sentinel [OF True]
  have sanitized: "depth (sanitized_or_sentinel item part) \<le> depth item" if "depth part \<le> depth item" "is_object part" for part
    using sentinel that depth_sanitized [of part] by (auto simp: sanitized_or_sentinel_def dest: order_trans split: option.split)
  have "depth (restored_part item sig) \<le> depth item" for sig
    unfolding restored_part_def using object_depth [OF True] by (intro depth_with_fld [OF True]) simp
  moreover have "is_object (restored_part item sig)" for sig
    using True by (auto simp: restored_part_def with_fld_def is_object_def split: json.splits)
  moreover have "depth (without_flds ks item) \<le> depth item" for ks
    using object_depth [OF True]
    by (auto simp: without_flds_def simp del: depth.simps split: json.splits intro!: depth_obj_entries dest: depth_member)
  ultimately show ?thesis
    using sentinel sanitized [OF order_refl True] sanitized by (auto simp: filter_item_def split: option.splits)
qed (simp add: filter_item_def)

lemma depth_filter_array: "y \<in> set (filterContentArray cached isClaude keep isLast xs) \<Longrightarrow> \<exists>x \<in> set xs. depth y \<le> depth x"
  unfolding filterContentArray_def stripAllThinking_def
  by (auto simp del: depth.simps split: if_split_asm) (blast intro: depth_filter_item depth_sentinel order_refl)+

lemma strip_trailing_member:
  "strip_trailing cached xs = Some ys \<Longrightarrow> y \<in> set ys \<Longrightarrow> \<exists>x \<in> set xs. y = x \<or> isThinkingPart x \<and> y = sentinel_for x"
  by (induction xs arbitrary: ys) (auto split: if_splits)

lemma thinking_object: "isThinkingPart part \<Longrightarrow> is_object part"
  by (auto simp: isThinkingPart_def is_str_def dest: fld_object)

lemma depth_trimmed:
  assumes "filter_and_trim cached isClaude keep isLast trim xs = Some ys" "y \<in> set ys"
  shows "depth y < depth (JArr xs)"
proof -
  let ?f = "filterContentArray cached isClaude keep isLast xs"
  have "\<exists>x \<in> set ?f. depth y \<le> depth x"
    using assms depth_sentinel [OF thinking_object]
    by (auto simp: filter_and_trim_def removeTrailingThinkingBlocks_def Let_def dest!: strip_trailing_member split: if_splits)
      (metis order_refl)+
  then obtain x where "x \<in> set ?f" "depth y \<le> depth x" by blast
  moreover then obtain x' where "x' \<in> set xs" "depth x \<le> depth x'" using depth_filter_array by blast
  ultimately show ?thesis using depth_element [of x' xs] by simp
qed

lemma depth_trimmed_array:
  assumes "filter_and_trim cached isClaude keep isLast trim xs = Some ys" "arr_fld v k = Some xs"
  shows "depth (with_fld v k (JArr ys)) \<le> depth v"
proof (rule depth_with_fld)
  have f: "fld v k = Some (JArr xs)" using assms(2) by (auto simp: arr_fld_def split: option.splits json.splits)
  show "is_object v" by (rule fld_object [OF f])
  have "depth (JArr ys) \<le> depth (JArr xs)"
    by (rule depth_arr_entries [OF depth_trimmed [OF assms(1)]]) simp_all
  then show "depth (JArr ys) < depth v" using depth_fld [OF f] by simp
qed

lemma depth_filter_content: "filter_content cached isClaude keep contents i = Some v \<Longrightarrow> depth v \<le> depth (contents ! i)"
  by (auto simp: filter_content_def Let_def simp del: depth.simps dest!: depth_trimmed_array split: option.splits)

lemma depth_filter_message: "filter_message cached isClaude keep contents i = Some v \<Longrightarrow> depth v \<le> depth (contents ! i)"
  by (auto simp: filter_message_def Let_def simp del: depth.simps dest!: depth_trimmed_array split: option.splits)

lemma those_nth: "those xs = Some ys \<longleftrightarrow> length xs = length ys \<and> (\<forall>i < length ys. xs ! i = Some (ys ! i))"
proof (induction xs arbitrary: ys)
  case (Cons x xs)
  then show ?case by (cases ys) (auto simp: All_less_Suc2 split: option.splits)
qed auto

lemma depth_those:
  assumes "those (map f [0..<length xs]) = Some ys" "\<And>i v. f i = Some v \<Longrightarrow> depth v \<le> depth (xs ! i)"
  shows "depth (JArr ys) \<le> depth (JArr xs)"
proof -
  have "depth y < depth (JArr xs)" if "y \<in> set ys" for y
  proof -
    obtain i where i: "i < length ys" "y = ys ! i" using \<open>y \<in> set ys\<close> by (metis in_set_conv_nth)
    then have "f i = Some y" "i < length xs" using assms(1) by (auto simp: those_nth)
    then show ?thesis using assms(2) depth_element [of "xs ! i" xs] by fastforce
  qed
  then show ?thesis by (rule depth_arr_entries) simp_all
qed

lemma depth_filter_entry:
  assumes "filter_entry k f ob = Some ob'" "\<And>xs ys. f xs = Some ys \<Longrightarrow> depth (JArr ys) \<le> depth (JArr xs)"
    "\<forall>(k, v) \<in> set ob. depth v < depth (JObj ob0)"
  shows "\<forall>(k, v) \<in> set ob'. depth v < depth (JObj ob0)"
proof (cases "get_arr ob k")
  case None
  then show ?thesis using assms(1,3) by (simp add: filter_entry_def)
next
  case (Some xs)
  then obtain ys where ys: "f xs = Some ys" "ob' = AList.update k (JArr ys) ob" using assms(1) by (auto simp: filter_entry_def)
  have "depth (JArr xs) < depth (JObj ob0)" using Some assms(3) by (auto simp: get_arr_Some simp del: depth.simps dest!: map_of_SomeD)
  then have "depth (JArr ys) < depth (JObj ob0)" using assms(2) [OF ys(1)] by simp
  then show ?thesis unfolding ys(2) by (rule depth_update) (rule assms(3))
qed

lemma depth_filter_object:
  assumes "filter_object cached isClaude keep ob = Some ob'" "(k, v) \<in> set ob'"
  shows "depth v < depth (JObj ob)"
proof -
  obtain ob1 where o: "filter_entry ''contents'' (filterUnsignedThinkingBlocks cached isClaude keep) ob = Some ob1"
    "filter_entry ''messages'' (filterMessagesThinkingBlocks cached isClaude keep) ob1 = Some ob'"
    using assms(1) by (auto simp: filter_object_def split: option.splits)
  have "\<forall>(k, v) \<in> set ob1. depth v < depth (JObj ob)"
    by (rule depth_filter_entry [OF o(1)])
      (auto simp: filterUnsignedThinkingBlocks_def simp del: depth.simps intro: depth_those depth_filter_content depth_member)
  then have "\<forall>(k, v) \<in> set ob'. depth v < depth (JObj ob)"
    by (rule depth_filter_entry [OF o(2), rotated])
      (auto simp: filterMessagesThinkingBlocks_def simp del: depth.simps intro: depth_those depth_filter_message)
  then show ?thesis using assms(2) by blast
qed

subsection \<open>The walk\<close>

definition map_values :: "(json \<Rightarrow> json option) \<Rightarrow> js_object \<Rightarrow> js_object option" where
  "map_values f ob = those (map (\<lambda>(k, v). map_option (Pair k) (f v)) ob)"

lemma map_values_cong [fundef_cong]:
  "ob = ob' \<Longrightarrow> (\<And>k v. (k, v) \<in> set ob' \<Longrightarrow> f v = g v) \<Longrightarrow> map_values f ob = map_values g ob'"
  unfolding map_values_def by (intro arg_cong [where f = those] map_cong) auto

function deepFilterThinkingBlocks :: "(string \<Rightarrow> string option) option \<Rightarrow> bool \<Rightarrow> bool \<Rightarrow> json \<Rightarrow> json option" where
  "deepFilterThinkingBlocks cached isClaudeModel keepThinking (JArr xs) =
     map_option JArr (those (map (deepFilterThinkingBlocks cached isClaudeModel keepThinking) xs))"
| "deepFilterThinkingBlocks cached isClaudeModel keepThinking (JObj ob) =
     (case filter_object cached isClaudeModel keepThinking ob of
        None \<Rightarrow> None
      | Some ob' \<Rightarrow> map_option JObj (map_values (deepFilterThinkingBlocks cached isClaudeModel keepThinking) ob'))"
| "deepFilterThinkingBlocks cached isClaudeModel keepThinking JNull = Some JNull"
| "deepFilterThinkingBlocks cached isClaudeModel keepThinking (JBool b) = Some (JBool b)"
| "deepFilterThinkingBlocks cached isClaudeModel keepThinking (JNum n) = Some (JNum n)"
| "deepFilterThinkingBlocks cached isClaudeModel keepThinking (JStr s) = Some (JStr s)"
  by pat_completeness auto
termination
  by (relation "measure (\<lambda>(cached, isClaude, keep, v). depth v)")
    (auto simp del: depth.simps intro: depth_element depth_filter_object)

end
