(* ===== verification/Filter_Facts.thy ===== *)
theory Filter_Facts
  imports Thinking_Filter
begin

text \<open>
  Lemmas about the filtering of thinking blocks: what the walk keeps of a value, what the filters
  establish of each array of parts, and how both combine over a payload.
\<close>

section \<open>The walk over a value\<close>

lemma map_values_of:
  assumes "map_values f ob = Some ob'"
  shows "map_of ob' k = (case map_of ob k of None \<Rightarrow> None | Some x \<Rightarrow> f x)"
    and "\<And>x. map_of ob k = Some x \<Longrightarrow> f x \<noteq> None"
proof -
  have "\<forall>k. map_of ob' k = (case map_of ob k of None \<Rightarrow> None | Some x \<Rightarrow> f x) \<and> (\<forall>x. map_of ob k = Some x \<longrightarrow> f x \<noteq> None)"
    using assms unfolding map_values_def
  proof (induction ob arbitrary: ob')
    case (Cons p ob)
    obtain k v where p: "p = (k, v)" by (cases p)
    obtain v' r where "f v = Some v'" "those (map (\<lambda>(k, v). map_option (Pair k) (f v)) ob) = Some r" "ob' = (k, v') # r"
      using Cons.prems by (auto simp: p split: option.splits)
    then show ?case using Cons.IH [of r] by (auto simp: p)
  qed simp
  then show "map_of ob' k = (case map_of ob k of None \<Rightarrow> None | Some x \<Rightarrow> f x)"
    "\<And>x. map_of ob k = Some x \<Longrightarrow> f x \<noteq> None" by blast+
qed

lemma map_values_keys: "map_values f ob = Some ob' \<Longrightarrow> map fst ob' = map fst ob"
  unfolding map_values_def
  by (induction ob arbitrary: ob') (auto split: option.splits)

lemma filter_entry_other: "filter_entry k f ob = Some ob' \<Longrightarrow> k' \<noteq> k \<Longrightarrow> map_of ob' k' = map_of ob k'"
  by (auto simp: filter_entry_def update_conv split: option.splits)

lemma filter_object_other:
  "filter_object cached isClaude keep ob = Some ob' \<Longrightarrow> k \<noteq> ''contents'' \<Longrightarrow> k \<noteq> ''messages'' \<Longrightarrow> map_of ob' k = map_of ob k"
  by (auto simp: filter_object_def filter_entry_other split: option.splits)

text \<open>Scalars stay, arrays stay arrays, and objects stay objects.\<close>

lemma walk_kind:
  assumes "deepFilterThinkingBlocks cached isClaude keep v = Some v'"
  shows "v' = JStr s \<longleftrightarrow> v = JStr s" "v' = JBool b \<longleftrightarrow> v = JBool b" "v' = JNull \<longleftrightarrow> v = JNull"
    "is_object v' \<longleftrightarrow> is_object v"
    "(\<exists>ob. v' = JObj ob) \<longleftrightarrow> (\<exists>ob. v = JObj ob)"
  using assms by (cases v; auto simp: is_object_def split: option.splits)+

lemma walk_array:
  assumes "deepFilterThinkingBlocks cached isClaude keep v = Some (JArr ys)"
  shows "\<exists>xs. v = JArr xs \<and> those (map (deepFilterThinkingBlocks cached isClaude keep) xs) = Some ys"
  using assms by (cases v) (auto split: option.splits)

lemma walk_fld:
  assumes "deepFilterThinkingBlocks cached isClaude keep v = Some v'" "k \<noteq> ''contents''" "k \<noteq> ''messages''"
  shows "(fld v k = None \<and> fld v' k = None)
    \<or> (\<exists>x x'. fld v k = Some x \<and> fld v' k = Some x' \<and> deepFilterThinkingBlocks cached isClaude keep x = Some x')"
proof (cases v)
  case (JObj ob)
  then obtain ob1 ob2 where o: "filter_object cached isClaude keep ob = Some ob1"
      "map_values (deepFilterThinkingBlocks cached isClaude keep) ob1 = Some ob2" "v' = JObj ob2"
    using assms(1) by (auto split: option.splits)
  show ?thesis
    using map_values_of [OF o(2), of k] filter_object_other [OF o(1) assms(2,3)]
    by (cases "map_of ob k") (auto simp: JObj o(3))
qed (use assms(1) in \<open>auto split: option.splits\<close>)

lemma walk_fldE:
  assumes "deepFilterThinkingBlocks cached isClaude keep v = Some v'" "k \<noteq> ''contents''" "k \<noteq> ''messages''"
  obtains (none) "fld v k = None" "fld v' k = None"
    | (some) x x' where "fld v k = Some x" "fld v' k = Some x'" "deepFilterThinkingBlocks cached isClaude keep x = Some x'"
  using walk_fld [OF assms] by metis

lemma walk_str:
  assumes "deepFilterThinkingBlocks cached isClaude keep v = Some v'" "k \<noteq> ''contents''" "k \<noteq> ''messages''"
  shows "is_str (fld v' k) s \<longleftrightarrow> is_str (fld v k) s" "fld v' k = Some (JBool b) \<longleftrightarrow> fld v k = Some (JBool b)"
    "fld v' k = None \<longleftrightarrow> fld v k = None" "string_of (fld v' k) = string_of (fld v k)"
    "fld v' k = Some JNull \<longleftrightarrow> fld v k = Some JNull"
proof -
  note cases = walk_fldE [OF assms]
  show "is_str (fld v' k) s \<longleftrightarrow> is_str (fld v k) s" "fld v' k = Some (JBool b) \<longleftrightarrow> fld v k = Some (JBool b)"
    "fld v' k = None \<longleftrightarrow> fld v k = None" "string_of (fld v' k) = string_of (fld v k)"
    "fld v' k = Some JNull \<longleftrightarrow> fld v k = Some JNull"
    by (rule cases; use walk_kind in \<open>auto simp: is_str_def string_of_def split: json.splits\<close>)+
qed

lemma walk_parts:
  assumes "deepFilterThinkingBlocks cached isClaude keep v = Some v'"
  shows "isToolBlock v' = isToolBlock v" "isThinkingPart v' = isThinkingPart v"
    "hasSignatureField v' = hasSignatureField v" "getSignature v' = getSignature v"
  using walk_str [OF assms]
  by (simp_all add: isToolBlock_def isThinkingPart_def hasSignatureField_def getSignature_def own_signature_def
      string_of_def [symmetric] del: not_None_eq)

lemma walk_sub:
  assumes "deepFilterThinkingBlocks cached isClaude keep v = Some v'" "k \<in> {''text'', ''thinking''}" "k' \<in> {''text'', ''thinking''}"
  shows "string_of (sub_fld (fld v' k) k') = string_of (sub_fld (fld v k) k')"
    "sub_fld (fld v' k) k' = None \<longleftrightarrow> sub_fld (fld v k) k' = None"
    "sub_fld (fld v' k) k' = Some JNull \<longleftrightarrow> sub_fld (fld v k) k' = Some JNull"
proof -
  have k: "k \<noteq> ''contents''" "k \<noteq> ''messages''" "k' \<noteq> ''contents''" "k' \<noteq> ''messages''" using assms(2,3) by auto
  note cases = walk_fldE [OF assms(1) k(1,2)]
  show "string_of (sub_fld (fld v' k) k') = string_of (sub_fld (fld v k) k')"
    "sub_fld (fld v' k) k' = None \<longleftrightarrow> sub_fld (fld v k) k' = None"
    "sub_fld (fld v' k) k' = Some JNull \<longleftrightarrow> sub_fld (fld v k) k' = Some JNull"
    by (rule cases; use walk_str [OF _ k(3,4)] in \<open>simp add: sub_fld_def\<close>)+
qed

lemma string_of_coalesce:
  "string_of (coalesce a b) = (if a = None \<or> a = Some JNull then string_of b else string_of a)"
  by (auto simp: coalesce_def split: option.splits json.splits)

lemma walk_text:
  assumes "deepFilterThinkingBlocks cached isClaude keep v = Some v'"
  shows "getThinkingText v' = getThinkingText v"
  using walk_str(4) [OF assms] walk_sub [OF assms]
  by (simp add: getThinkingText_def Let_def string_of_coalesce)

section \<open>Every array of parts in a payload\<close>

text \<open>
  A predicate on the parts of an entry, with the knowledge whether the entry is one of the model, at every
  place of a payload where the filters look.
\<close>

type_synonym parts_pred = "bool \<Rightarrow> json list \<Rightarrow> bool"

definition content_all :: "parts_pred \<Rightarrow> json \<Rightarrow> bool" where
  "content_all P content =
     (case arr_fld content ''parts'' of
        Some parts \<Rightarrow> P (is_str (fld content ''role'') ''model'') parts
      | None \<Rightarrow>
          (case arr_fld content ''content'' of
             Some blocks \<Rightarrow> P (is_str (fld content ''role'') ''assistant'') blocks
           | None \<Rightarrow> True))"

definition message_all :: "parts_pred \<Rightarrow> json \<Rightarrow> bool" where
  "message_all P message =
     (case arr_fld message ''content'' of
        Some blocks \<Rightarrow> P (is_str (fld message ''role'') ''assistant'') blocks
      | None \<Rightarrow> True)"

definition object_all :: "parts_pred \<Rightarrow> js_object \<Rightarrow> bool" where
  "object_all P ob \<longleftrightarrow>
     (\<forall>xs. get_arr ob ''contents'' = Some xs \<longrightarrow> list_all (content_all P) xs)
     \<and> (\<forall>xs. get_arr ob ''messages'' = Some xs \<longrightarrow> list_all (message_all P) xs)"

function payload_all :: "parts_pred \<Rightarrow> json \<Rightarrow> bool" where
  "payload_all P (JArr xs) = list_all (payload_all P) xs"
| "payload_all P (JObj ob) = (object_all P ob \<and> list_all (\<lambda>(k, v). payload_all P v) ob)"
| "payload_all P JNull = True"
| "payload_all P (JBool b) = True"
| "payload_all P (JNum n) = True"
| "payload_all P (JStr s) = True"
  by pat_completeness auto
termination
  by (relation "measure (\<lambda>(P, v). depth v)") (auto simp del: depth.simps intro: depth_element depth_member)

text \<open>A predicate that the walk over the parts keeps.\<close>

definition walk_stable :: "(json \<Rightarrow> json option) \<Rightarrow> parts_pred \<Rightarrow> bool" where
  "walk_stable W P \<longleftrightarrow> (\<forall>model xs ys. P model xs \<longrightarrow> those (map W xs) = Some ys \<longrightarrow> P model ys)"

lemma walk_arr_fld:
  assumes "deepFilterThinkingBlocks cached isClaude keep v = Some v'" "k \<in> {''parts'', ''content''}"
  shows "(arr_fld v k = None \<and> arr_fld v' k = None)
    \<or> (\<exists>xs ys. arr_fld v k = Some xs \<and> arr_fld v' k = Some ys \<and> those (map (deepFilterThinkingBlocks cached isClaude keep) xs) = Some ys)"
proof -
  have k: "k \<noteq> ''contents''" "k \<noteq> ''messages''" using assms(2) by auto
  show ?thesis
    by (rule walk_fldE [OF assms(1) k]) (auto simp: arr_fld_def split: json.splits option.splits dest: walk_array)
qed

lemma walk_content_all:
  assumes "walk_stable (deepFilterThinkingBlocks cached isClaude keep) P"
    and "deepFilterThinkingBlocks cached isClaude keep v = Some v'"
  shows "content_all P v \<Longrightarrow> content_all P v'" "message_all P v \<Longrightarrow> message_all P v'"
proof -
  note s = assms(1) [unfolded walk_stable_def, rule_format]
  note r = walk_str(1) [OF assms(2), of "''role''"]
  show "content_all P v \<Longrightarrow> content_all P v'"
    using walk_arr_fld [OF assms(2), of "''parts''"] walk_arr_fld [OF assms(2), of "''content''"] r
    by (auto simp: content_all_def intro: s)
  show "message_all P v \<Longrightarrow> message_all P v'"
    using walk_arr_fld [OF assms(2), of "''content''"] r by (auto simp: message_all_def intro: s)
qed

lemma those_member: "those (map f xs) = Some ys \<Longrightarrow> y \<in> set ys \<Longrightarrow> \<exists>x \<in> set xs. f x = Some y"
  by (induction xs arbitrary: ys) (auto split: option.splits)

lemma map_values_member:
  "map_values f ob = Some ob' \<Longrightarrow> (k, y) \<in> set ob' \<Longrightarrow> \<exists>x. (k, x) \<in> set ob \<and> f x = Some y"
  unfolding map_values_def by (auto dest!: those_member split: option.splits)

lemma map_values_arr:
  assumes "map_values (deepFilterThinkingBlocks cached isClaude keep) ob = Some ob'" "get_arr ob' k = Some ys"
  shows "\<exists>xs. get_arr ob k = Some xs \<and> those (map (deepFilterThinkingBlocks cached isClaude keep) xs) = Some ys"
  using map_values_of [OF assms(1), of k] assms(2)
  by (cases "map_of ob k") (auto simp: get_arr_Some dest!: walk_array)

lemma walk_object_all:
  assumes "walk_stable (deepFilterThinkingBlocks cached isClaude keep) P" "object_all P ob"
    and "map_values (deepFilterThinkingBlocks cached isClaude keep) ob = Some ob'"
  shows "object_all P ob'"
proof -
  have c: "list_all (content_all P) ys" if h: "get_arr ob' ''contents'' = Some ys" for ys
  proof -
    obtain xs where "get_arr ob ''contents'' = Some xs" "those (map (deepFilterThinkingBlocks cached isClaude keep) xs) = Some ys"
      using map_values_arr [OF assms(3) h] by blast
    then show ?thesis using assms(2) walk_content_all(1) [OF assms(1)]
      by (force simp: object_all_def list_all_iff dest: those_member)
  qed
  have m: "list_all (message_all P) ys" if h: "get_arr ob' ''messages'' = Some ys" for ys
  proof -
    obtain xs where "get_arr ob ''messages'' = Some xs" "those (map (deepFilterThinkingBlocks cached isClaude keep) xs) = Some ys"
      using map_values_arr [OF assms(3) h] by blast
    then show ?thesis using assms(2) walk_content_all(2) [OF assms(1)]
      by (force simp: object_all_def list_all_iff dest: those_member)
  qed
  show ?thesis using c m by (simp add: object_all_def)
qed

lemma payload_all_walk:
  assumes "walk_stable (deepFilterThinkingBlocks cached isClaude keep) P"
    and "\<And>ob ob'. filter_object cached isClaude keep ob = Some ob' \<Longrightarrow> object_all P ob'"
  shows "deepFilterThinkingBlocks cached isClaude keep v = Some v' \<Longrightarrow> payload_all P v'"
proof (induction "depth v" arbitrary: v v' rule: less_induct)
  case less
  show ?case
  proof (cases v)
    case (JArr xs)
    then obtain ys where ys: "those (map (deepFilterThinkingBlocks cached isClaude keep) xs) = Some ys" "v' = JArr ys"
      using less.prems by auto
    then show ?thesis using less.hyps JArr depth_element
      by (fastforce simp: list_all_iff simp del: depth.simps dest: those_member)
  next
    case (JObj ob)
    then obtain ob1 ob2 where o: "filter_object cached isClaude keep ob = Some ob1"
        "map_values (deepFilterThinkingBlocks cached isClaude keep) ob1 = Some ob2" "v' = JObj ob2"
      using less.prems by (auto split: option.splits)
    have "payload_all P y" if h: "(k, y) \<in> set ob2" for k y
    proof -
      obtain x where "(k, x) \<in> set ob1" "deepFilterThinkingBlocks cached isClaude keep x = Some y"
        using map_values_member [OF o(2) h] by blast
      then show ?thesis using less.hyps depth_filter_object [OF o(1)] by (auto simp: JObj simp del: depth.simps)
    qed
    then show ?thesis using walk_object_all [OF assms(1) assms(2) [OF o(1)] o(2)] by (auto simp: o(3) list_all_iff)
  qed (use less.prems in auto)
qed

text \<open>What the filters of one array establish, they establish of both kinds of entries.\<close>

definition trimmed_all :: "(string \<Rightarrow> string option) option \<Rightarrow> bool \<Rightarrow> bool \<Rightarrow> parts_pred \<Rightarrow> bool" where
  "trimmed_all cached isClaude keep P \<longleftrightarrow>
     (\<forall>isLast model xs ys. filter_and_trim cached isClaude keep isLast model xs = Some ys \<longrightarrow> P model ys)"

lemma arr_fld_with [simp]:
  "arr_fld v k = Some xs \<Longrightarrow> arr_fld (with_fld v k' (JArr ys)) k'' = (if k'' = k' then Some ys else arr_fld v k'')"
  "arr_fld v k = Some xs \<Longrightarrow> fld (with_fld v k' w) k'' = (if k'' = k' then Some w else fld v k'')"
  by (cases v; simp add: arr_fld_def)+

lemma filter_content_all:
  "trimmed_all cached isClaude keep P \<Longrightarrow> filter_content cached isClaude keep contents i = Some v \<Longrightarrow> content_all P v"
  by (auto simp: trimmed_all_def filter_content_def content_all_def Let_def split: option.splits)

lemma filter_message_all:
  "trimmed_all cached isClaude keep P \<Longrightarrow> filter_message cached isClaude keep contents i = Some v \<Longrightarrow> message_all P v"
  by (auto simp: trimmed_all_def filter_message_def message_all_def Let_def split: option.splits)

lemma filter_object_all:
  assumes "trimmed_all cached isClaude keep P" "filter_object cached isClaude keep ob = Some ob'"
  shows "object_all P ob'"
proof -
  obtain ob1 where o: "filter_entry ''contents'' (filterUnsignedThinkingBlocks cached isClaude keep) ob = Some ob1"
    "filter_entry ''messages'' (filterMessagesThinkingBlocks cached isClaude keep) ob1 = Some ob'"
    using assms(2) by (auto simp: filter_object_def split: option.splits)
  have "list_all (content_all P) xs" if "get_arr ob1 ''contents'' = Some xs" for xs
    using o(1) that filter_content_all [OF assms(1)]
    by (auto simp: filter_entry_def filterUnsignedThinkingBlocks_def list_all_iff dest!: those_member split: option.splits)
  moreover have "get_arr ob' ''contents'' = get_arr ob1 ''contents''"
    using filter_entry_other [OF o(2)] by (simp add: get_arr_def)
  moreover have "list_all (message_all P) xs" if "get_arr ob' ''messages'' = Some xs" for xs
    using o(2) that filter_message_all [OF assms(1)]
    by (auto simp: filter_entry_def filterMessagesThinkingBlocks_def list_all_iff dest!: those_member split: option.splits)
  ultimately show ?thesis by (simp add: object_all_def)
qed

lemma walk_establishes:
  assumes "walk_stable (deepFilterThinkingBlocks cached isClaude keep) P" "trimmed_all cached isClaude keep P"
    and "deepFilterThinkingBlocks cached isClaude keep v = Some v'"
  shows "payload_all P v'"
  by (rule payload_all_walk [OF assms(1) filter_object_all [OF assms(2)] assms(3)])

section \<open>Claude models\<close>

definition SIGNATURE_FIELDS :: "string list" where
  "SIGNATURE_FIELDS = [''signature'', ''thoughtSignature'', ''thought_signature'', ''thought'']"

text \<open>A part that a request to a Claude model may carry: a tool block, without the signature fields when thinking
  is kept, or a part that is no thinking and has no signature.\<close>

definition settled_part :: "bool \<Rightarrow> json \<Rightarrow> bool" where
  "settled_part keep item \<longleftrightarrow>
     (if isToolBlock item then keep \<longrightarrow> (\<forall>k \<in> set SIGNATURE_FIELDS. fld item k = None)
      else \<not> isThinkingPart item \<and> \<not> hasSignatureField item)"

lemma fld_without [simp]: "fld (without_flds ks v) k = (if k \<in> set ks then None else fld v k)"
proof (cases v)
  case (JObj ob)
  have "map_of (filter (\<lambda>(k, x). k \<notin> set ks) ob) k = (if k \<in> set ks then None else map_of ob k)"
    by (induction ob) auto
  then show ?thesis by (simp add: without_flds_def JObj)
qed (simp_all add: without_flds_def)

lemma sentinel_flds:
  "\<not> isThinkingPart (sentinel_for item)" "\<not> hasSignatureField (sentinel_for item)" "\<not> isToolBlock (sentinel_for item)"
  "is_object (sentinel_for item)"
  by (simp_all add: sentinel_for_def isThinkingPart_def hasSignatureField_def isToolBlock_def is_str_def is_object_def
      split: option.split)

lemma tool_without: "isToolBlock item \<Longrightarrow> isToolBlock (without_flds SIGNATURE_FIELDS item)"
  by (auto simp: isToolBlock_def SIGNATURE_FIELDS_def)

lemma plain_parts: "\<not> is_object item \<Longrightarrow> \<not> isToolBlock item \<and> \<not> isThinkingPart item \<and> \<not> hasSignatureField item"
proof -
  assume "\<not> is_object item"
  then have "fld item k = None" for k using fld_object [of item k] by (cases "fld item k") auto
  then show ?thesis by (simp add: isToolBlock_def isThinkingPart_def hasSignatureField_def is_str_def)
qed

lemma claude_item: "settled_part True (filter_item cached True isLast item)"
  using plain_parts [of item] tool_without [of item] sentinel_flds [of item]
  by (auto simp: filter_item_def settled_part_def SIGNATURE_FIELDS_def)

lemma claude_trimmed: "filter_and_trim cached True keep isLast model xs = Some (filterContentArray cached True keep isLast xs)"
  by (simp add: filter_and_trim_def Let_def)

lemma claude_settled: "list_all (settled_part keep) (filterContentArray cached True keep isLast xs)"
proof (cases keep)
  case True
  then show ?thesis using claude_item by (simp add: filterContentArray_def list_all_iff)
next
  case False
  then show ?thesis using plain_parts sentinel_flds
    by (fastforce simp: filterContentArray_def stripAllThinking_def settled_part_def list_all_iff)
qed

lemma without_absent: "\<forall>k \<in> set ks. fld v k = None \<Longrightarrow> without_flds ks v = v"
  by (cases v) (auto simp: without_flds_def map_of_eq_None_iff filter_id_conv)

lemma settled_unchanged: "list_all (settled_part keep) xs \<Longrightarrow> filterContentArray cached True keep isLast xs = xs"
  using without_absent
  by (auto simp: filterContentArray_def stripAllThinking_def filter_item_def settled_part_def list_all_iff SIGNATURE_FIELDS_def
      intro!: map_idI split: if_splits)

lemma settled_stable: "walk_stable (deepFilterThinkingBlocks cached isClaude keep) (\<lambda>model. list_all (settled_part keep))"
proof -
  have "settled_part keep y" if "settled_part keep x" "deepFilterThinkingBlocks cached isClaude keep x = Some y" for x y
    using that(1) walk_parts [OF that(2)] walk_str(3) [OF that(2)] by (simp add: settled_part_def SIGNATURE_FIELDS_def)
  then show ?thesis by (fastforce simp: walk_stable_def list_all_iff dest: those_member)
qed

lemma those_some: "\<forall>x \<in> set xs. f x \<noteq> None \<Longrightarrow> those (map f xs) \<noteq> None"
  by (induction xs) auto

lemma claude_filters_total:
  "filterUnsignedThinkingBlocks cached True keep contents \<noteq> None" "filterMessagesThinkingBlocks cached True keep messages \<noteq> None"
  unfolding filterUnsignedThinkingBlocks_def filterMessagesThinkingBlocks_def
  by (rule those_some; auto simp: filter_content_def filter_message_def Let_def claude_trimmed split: option.split)+

lemma claude_walk_total: "deepFilterThinkingBlocks cached True keep v \<noteq> None"
proof (induction "depth v" arbitrary: v rule: less_induct)
  case less
  show ?case
  proof (cases v)
    case (JArr xs)
    have "those (map (deepFilterThinkingBlocks cached True keep) xs) \<noteq> None"
      using less.hyps depth_element by (intro those_some) (fastforce simp: JArr simp del: depth.simps)
    then show ?thesis by (simp add: JArr)
  next
    case (JObj ob)
    obtain ob1 where o: "filter_object cached True keep ob = Some ob1"
      using claude_filters_total by (fastforce simp: filter_object_def filter_entry_def split: option.splits)
    have "map_values (deepFilterThinkingBlocks cached True keep) ob1 \<noteq> None"
      unfolding map_values_def using less.hyps depth_filter_object [OF o]
      by (intro those_some) (fastforce simp: JObj simp del: depth.simps)
    then show ?thesis by (simp add: JObj o)
  qed simp_all
qed

text \<open>On a payload whose parts are settled the filters do nothing.\<close>

lemma with_same_array: "arr_fld v k = Some xs \<Longrightarrow> with_fld v k (JArr xs) = v"
  by (cases v) (auto simp: arr_fld_def with_fld_def update_same split: option.splits json.splits)

lemma settled_content:
  "content_all (\<lambda>model. list_all (settled_part keep)) (contents ! i) \<Longrightarrow> filter_content cached True keep contents i = Some (contents ! i)"
  "message_all (\<lambda>model. list_all (settled_part keep)) (contents ! i) \<Longrightarrow> filter_message cached True keep contents i = Some (contents ! i)"
  by (auto simp: filter_content_def filter_message_def content_all_def message_all_def Let_def claude_trimmed settled_unchanged
      with_same_array split: option.splits)

lemma those_nths: "(\<And>i. i < length xs \<Longrightarrow> f i = Some (xs ! i)) \<Longrightarrow> those (map f [0..<length xs]) = Some xs"
  by (simp add: those_nth)

lemma settled_entry: "(\<And>xs. get_arr ob k = Some xs \<Longrightarrow> f xs = Some xs) \<Longrightarrow> filter_entry k f ob = Some ob"
  by (auto simp: filter_entry_def get_arr_Some update_same split: option.split)

lemma settled_object:
  assumes "object_all (\<lambda>model. list_all (settled_part keep)) ob"
  shows "filter_object cached True keep ob = Some ob"
proof -
  have "filter_entry ''contents'' (filterUnsignedThinkingBlocks cached True keep) ob = Some ob"
    using assms settled_content(1)
    by (intro settled_entry) (auto simp: object_all_def list_all_length filterUnsignedThinkingBlocks_def intro!: those_nths)
  moreover have "filter_entry ''messages'' (filterMessagesThinkingBlocks cached True keep) ob = Some ob"
    using assms settled_content(2)
    by (intro settled_entry) (auto simp: object_all_def list_all_length filterMessagesThinkingBlocks_def intro!: those_nths)
  ultimately show ?thesis by (simp add: filter_object_def)
qed

lemma those_self: "\<forall>x \<in> set xs. f x = Some x \<Longrightarrow> those (map f xs) = Some xs"
  by (induction xs) auto

lemma settled_walk:
  "payload_all (\<lambda>model. list_all (settled_part keep)) v \<Longrightarrow> deepFilterThinkingBlocks cached True keep v = Some v"
proof (induction "depth v" arbitrary: v rule: less_induct)
  case less
  show ?case
  proof (cases v)
    case (JArr xs)
    have "those (map (deepFilterThinkingBlocks cached True keep) xs) = Some xs"
      using less.hyps less.prems depth_element by (intro those_self) (fastforce simp: JArr list_all_iff simp del: depth.simps)
    then show ?thesis by (simp add: JArr)
  next
    case (JObj ob)
    have "map_values (deepFilterThinkingBlocks cached True keep) ob = Some ob"
      unfolding map_values_def using less.hyps less.prems depth_member [of _ _ ob]
      by (intro those_self) (fastforce simp: JObj list_all_iff simp del: depth.simps)
    then show ?thesis using settled_object less.prems by (simp add: JObj)
  qed simp_all
qed

section \<open>Other models\<close>

text \<open>A thinking or signed part that may stay: its own signature is one that the cache gave for the session.\<close>

definition our_part :: "(string \<Rightarrow> string option) option \<Rightarrow> json \<Rightarrow> bool" where
  "our_part cached item \<longleftrightarrow> isToolBlock item \<or> \<not> isThinkingPart item \<and> \<not> hasSignatureField item
     \<or> (\<exists>f text sig. cached = Some f \<and> text \<noteq> [] \<and> sig \<noteq> [] \<and> f text = Some sig \<and> getSignature item = Some sig)"

text \<open>The last part of a model message is no thinking part without a valid signature.\<close>

definition valid_end :: "(string \<Rightarrow> string option) option \<Rightarrow> json list \<Rightarrow> bool" where
  "valid_end cached xs \<longleftrightarrow> xs = [] \<or> \<not> isThinkingPart (last xs)
     \<or> (case cached of None \<Rightarrow> hasValidSignature (last xs) | Some f \<Rightarrow> isOurCachedSignature cached (last xs))"

definition our_parts :: "(string \<Rightarrow> string option) option \<Rightarrow> parts_pred" where
  "our_parts cached model xs \<longleftrightarrow> list_all (our_part cached) xs \<and> (model \<longrightarrow> valid_end cached xs)"

lemma strip_cache_flds:
  "k \<notin> {''cache_control'', ''providerOptions''}
     \<Longrightarrow> fld (stripCacheControlRecursively v) k = map_option stripCacheControlRecursively (fld v k)"
proof (cases v)
  case (JObj ob)
  assume k: "k \<notin> {''cache_control'', ''providerOptions''}"
  have "map_of (map (\<lambda>(k, v). (k, stripCacheControlRecursively v))
      (filter (\<lambda>(k, v). k \<noteq> ''cache_control'' \<and> k \<noteq> ''providerOptions'') ob)) k
    = map_option stripCacheControlRecursively (map_of ob k)"
    using k by (induction ob) auto
  then show ?thesis by (simp add: JObj)
qed simp_all

lemma strip_cache_scalar:
  "stripCacheControlRecursively v = JStr s \<longleftrightarrow> v = JStr s" "stripCacheControlRecursively v = JBool b \<longleftrightarrow> v = JBool b"
  by (cases v; simp)+

lemma opt_fld_of: "map_of (opt_fld k part) k' = (if k' = k then fld part k else None)"
  by (simp add: opt_fld_def split: option.split)

text \<open>Sanitizing keeps the part's own signature.\<close>

lemma sanitized_signature:
  assumes "sanitizeThinkingPart part = Some v"
  shows "getSignature v = getSignature part"
proof -
  consider (thought) "fld part ''thought'' = Some (JBool True)"
    | (thinking) "fld part ''thought'' \<noteq> Some (JBool True)"
        "is_str (fld part ''type'') ''thinking'' \<or> is_str (fld part ''type'') ''redacted_thinking'' \<or> fld part ''thinking'' \<noteq> None"
    | (reasoning) "fld part ''thought'' \<noteq> Some (JBool True)" "is_str (fld part ''type'') ''reasoning''"
        "\<not> (is_str (fld part ''type'') ''thinking'' \<or> is_str (fld part ''type'') ''redacted_thinking'' \<or> fld part ''thinking'' \<noteq> None)"
    | (other) "fld part ''thought'' \<noteq> Some (JBool True)" "v = stripCacheControlRecursively part"
    using assms by (auto simp: sanitizeThinkingPart_def split: if_splits)
  then show ?thesis
  proof cases
    case thought
    then show ?thesis using assms
      by (auto simp: sanitizeThinkingPart_def getSignature_def own_signature_def Let_def map_add_def opt_fld_of
          split: if_splits option.splits)
  next
    case thinking
    then show ?thesis using assms
      by (auto simp: sanitizeThinkingPart_def getSignature_def own_signature_def Let_def map_add_def opt_fld_of
          split: if_splits option.splits)
  next
    case reasoning
    then show ?thesis using assms
      by (auto simp: sanitizeThinkingPart_def getSignature_def own_signature_def Let_def map_add_def opt_fld_of
          split: if_splits option.splits)
  next
    case other
    then show ?thesis
      by (auto simp: getSignature_def own_signature_def strip_cache_flds strip_cache_scalar split: option.splits json.splits)
  qed
qed

lemma our_sentinel: "our_part cached (sentinel_for item)"
  using sentinel_flds by (simp add: our_part_def)

lemma our_sanitized:
  assumes "cached = Some f" "text \<noteq> []" "sig \<noteq> []" "f text = Some sig" "getSignature part = Some sig"
  shows "our_part cached (sanitized_or_sentinel item part)"
  using assms sanitized_signature [of part] our_sentinel
  by (fastforce simp: sanitized_or_sentinel_def our_part_def split: option.split)

lemma cached_part:
  assumes "isOurCachedSignature cached item"
  shows "our_part cached (sanitized_or_sentinel item item)"
proof -
  obtain f sig where f: "cached = Some f" "getThinkingText item \<noteq> []" "sig \<noteq> []" "f (getThinkingText item) = Some sig"
      "getSignature item = Some sig"
    using assms by (auto simp: isOurCachedSignature_def Let_def split: option.splits)
  show ?thesis by (rule our_sanitized [OF f])
qed

lemma restored_signature: "is_object item \<Longrightarrow> fld item k = Some v \<Longrightarrow> getSignature (restored_part item sig) = Some sig"
  by (cases item) (auto simp: restored_part_def getSignature_def own_signature_def)

lemma restored_object: "isThinkingPart item \<or> hasSignatureField item \<Longrightarrow> getSignature (restored_part item sig) = Some sig"
  using restored_signature [OF fld_object]
  by (cases item) (auto simp: isThinkingPart_def hasSignatureField_def is_str_def restored_part_def getSignature_def own_signature_def)

lemma other_item: "our_part cached (filter_item cached False isLast item)"
proof (cases "is_object item \<and> \<not> isToolBlock item \<and> (isThinkingPart item \<or> hasSignatureField item)")
  case True
  have "our_part cached (sanitized_or_sentinel item (restored_part item sig))" if r: "restorable cached item = Some sig" for sig
  proof -
    obtain f where f: "cached = Some f" "getThinkingText item \<noteq> []" "f (getThinkingText item) = Some sig" "50 \<le> length sig"
      using r by (auto simp: restorable_def Let_def split: option.splits if_splits)
    have "sig \<noteq> []" using f(4) by auto
    from our_sanitized [OF f(1,2) this f(3)] show ?thesis using True restored_object by simp
  qed
  then show ?thesis using True cached_part [of cached item] our_sentinel by (auto simp: filter_item_def split: option.split)
next
  case False
  then show ?thesis using plain_parts [of item] by (auto simp: filter_item_def our_part_def)
qed

lemma trailing_our: "strip_trailing cached xs = Some ys \<Longrightarrow> list_all (our_part cached) xs \<Longrightarrow> list_all (our_part cached) ys"
  using our_sentinel by (fastforce simp: list_all_iff dest: strip_trailing_member)

lemma trailing_valid: "strip_trailing cached xs = Some ys \<Longrightarrow> valid_end cached (rev ys)"
  by (cases xs) (auto simp: valid_end_def sentinel_flds split: if_splits option.splits)

lemma other_trimmed: "trimmed_all cached False keep (our_parts cached)"
  using other_item trailing_our trailing_valid
  by (auto simp: trimmed_all_def our_parts_def filter_and_trim_def Let_def filterContentArray_def list_all_iff
      removeTrailingThinkingBlocks_def split: if_splits)

lemma walk_our:
  assumes "deepFilterThinkingBlocks cached isClaude keep x = Some y"
  shows "our_part c y = our_part c x"
    and "isThinkingPart y = isThinkingPart x" "hasValidSignature y = hasValidSignature x"
    and "isOurCachedSignature c y = isOurCachedSignature c x"
  using walk_parts [OF assms] walk_text [OF assms]
  by (simp_all add: our_part_def hasValidSignature_def isOurCachedSignature_def Let_def split: option.split)

lemma our_stable: "walk_stable (deepFilterThinkingBlocks cached isClaude keep) (our_parts c)"
proof -
  have "our_parts c model ys" if xs: "our_parts c model xs" and w: "those (map (deepFilterThinkingBlocks cached isClaude keep) xs) = Some ys"
    for model xs ys
  proof -
    have n: "length ys = length xs" "\<And>i. i < length xs \<Longrightarrow> deepFilterThinkingBlocks cached isClaude keep (xs ! i) = Some (ys ! i)"
      using w by (auto simp: those_nth)
    have "list_all (our_part c) ys" using xs n walk_our(1) [OF n(2)] by (simp add: our_parts_def list_all_length)
    moreover have "valid_end c ys = valid_end c xs"
    proof (cases "xs = []")
      case False
      then have ne: "ys \<noteq> []" using n(1) by auto
      have l: "last xs = xs ! (length xs - 1)" "last ys = ys ! (length xs - 1)"
        using n(1) last_conv_nth [OF False] last_conv_nth [OF ne] by simp_all
      have "deepFilterThinkingBlocks cached isClaude keep (last xs) = Some (last ys)"
        unfolding l by (rule n(2)) (use False in simp)
      from walk_our [OF this] show ?thesis using False ne by (simp add: valid_end_def split: option.split)
    qed (use n(1) in simp)
    ultimately show ?thesis using xs by (simp add: our_parts_def)
  qed
  then show ?thesis by (simp add: walk_stable_def)
qed

section \<open>One array of parts\<close>

text \<open>The shape of the sanitized part of each kind.\<close>

lemma sanitized_cache_control:
  assumes "sanitizeThinkingPart part = Some v" "isThinkingPart part"
  shows "fld v ''cache_control'' = fld part ''cache_control''"
  using assms
  by (auto simp: sanitizeThinkingPart_def isThinkingPart_def Let_def map_add_def opt_fld_of is_str_def split: if_splits option.splits)

lemma sentinel_cache_control:
  "fld (sentinel_for item) ''cache_control'' = (if truthy_fld item ''cache_control'' then fld item ''cache_control'' else None)"
  by (auto simp: sentinel_for_def truthy_fld_def split: option.splits)

lemma fld_restored:
  assumes "is_object item" "isThinkingPart item" "k \<notin> {''signature'', ''thoughtSignature''}"
  shows "fld (restored_part item sig) k = fld item k"
proof -
  obtain ob where "item = JObj ob" using assms(1,2) by (cases item) (auto simp: is_object_def isThinkingPart_def is_str_def)
  then show ?thesis using assms(3) by (auto simp: restored_part_def)
qed

lemma restored_flds:
  assumes "isThinkingPart item"
  shows "isThinkingPart (restored_part item sig)" "fld (restored_part item sig) ''cache_control'' = fld item ''cache_control''"
  using fld_restored [OF thinking_object [OF assms] assms] assms by (simp_all add: isThinkingPart_def)

end
