(* ===== verification/Filter_Properties.thy ===== *)
theory Filter_Properties
  imports Filter_Facts
begin

text \<open>
  The properties of the filtering of thinking blocks: what a request to a Claude model carries, which
  signatures a request to another model carries, and what happens to each part.
\<close>





text \<open>
  Filtering an array of parts keeps its length. A part that is no object, or neither a tool block nor thinking nor
  signed, stays as it is; a tool block loses at most its signature fields; and a thinking part keeps its cache
  marker, so that the breakpoints of prompt caching stay at their positions.
\<close>

lemma parts_keep_positions:
  "length (filterContentArray cached isClaudeModel keepThinking isLast parts) = length parts
   \<and> (\<forall>i < length parts.
        let part = parts ! i; result = filterContentArray cached isClaudeModel keepThinking isLast parts ! i in
        (\<not> isToolBlock part \<and> \<not> isThinkingPart part \<and> \<not> hasSignatureField part \<longrightarrow> result = part)
        \<and> (isToolBlock part \<longrightarrow> result = part
              \<or> isClaudeModel \<and> keepThinking \<and> result = without_flds SIGNATURE_FIELDS part)
        \<and> (isThinkingPart part \<and> \<not> isToolBlock part \<and> truthy_fld part ''cache_control''
              \<longrightarrow> fld result ''cache_control'' = fld part ''cache_control''))"
proof -
  have sanitized: "fld (sanitized_or_sentinel item part) ''cache_control'' = fld item ''cache_control''"
    if "isThinkingPart part" "truthy_fld item ''cache_control''" "fld part ''cache_control'' = fld item ''cache_control''" for item part
    using that sanitized_cache_control [of part]
    by (auto simp: sanitized_or_sentinel_def sentinel_cache_control split: option.split)
  have item: "isThinkingPart item \<Longrightarrow> \<not> isToolBlock item \<Longrightarrow> truthy_fld item ''cache_control''
      \<Longrightarrow> fld (filter_item cached isClaudeModel isLast item) ''cache_control'' = fld item ''cache_control''" for item
    using thinking_object [of item] restored_flds [of item]
    by (auto simp: filter_item_def sentinel_cache_control sanitized split: option.split)
  have plain: "\<not> is_object item \<Longrightarrow> \<not> isToolBlock item \<and> \<not> isThinkingPart item \<and> \<not> hasSignatureField item" for item
    by (rule plain_parts)
  show ?thesis
    using item plain
    by (auto simp: filterContentArray_def stripAllThinking_def Let_def sentinel_cache_control filter_item_def SIGNATURE_FIELDS_def)
qed

theorem parts_keep_positions_witness:
  "fld (filterContentArray None False False True
      [JObj [(''type'', JStr ''thinking''), (''thinking'', JStr ''t''), (''cache_control'', JBool True)]] ! 0) ''cache_control''
    = Some (JBool True)"
  using parts_keep_positions [of None False False True
      "[JObj [(''type'', JStr ''thinking''), (''thinking'', JStr ''t''), (''cache_control'', JBool True)]]"]
  by (auto simp: Let_def isThinkingPart_def isToolBlock_def is_str_def truthy_fld_def truthy_def)

section \<open>Findings\<close>

text \<open>
  A signed part without thinking loses its own cache marker, although the comment says that only nested markers
  are removed; and its other signature field stays, whoever made it.
\<close>

lemma signed_part_marker_lost:
  "fld (filter_item (Some (\<lambda>text. Some ''mine'')) False False
      (JObj [(''text'', JStr ''a''), (''signature'', JStr ''mine''), (''cache_control'', JBool True)])) ''cache_control'' = None"
  by code_simp

lemma foreign_signature_kept:
  "fld (filter_item (Some (\<lambda>text. Some ''mine'')) False False
      (JObj [(''text'', JStr ''a''), (''signature'', JStr ''mine''), (''thoughtSignature'', JStr ''theirs'')])) ''thoughtSignature''
    = Some (JStr ''theirs'')"
  by code_simp

text \<open>A model message whose parts end with \<open>null\<close> throws, although the filter of the parts lets \<open>null\<close> through.\<close>

lemma trailing_null_throws:
  "filterUnsignedThinkingBlocks cached False keepThinking [JObj [(''role'', JStr ''model''), (''parts'', JArr [JNull])]] = None"
  by (simp add: filterUnsignedThinkingBlocks_def filter_content_def arr_fld_def is_str_def filter_and_trim_def filterContentArray_def
      filter_item_def is_object_def removeTrailingThinkingBlocks_def)

end
