(* ===== verification/Signature_Cache.thy ===== *)
theory Signature_Cache
  imports Js_Map Text
begin

text \<open>
  The signature cache of thinking blocks: the disk-backed cache of \<^verbatim>\<open>opencode/src/plugin/cache/signature-cache.ts\<close>
  and the process-wide hot map with its shared disk caches of \<^verbatim>\<open>opencode/src/plugin/cache.ts\<close>. The clock, the
  hash of a text, the content of files and the outcome of a write are arguments. A file is missing, unreadable
  (an I/O error, text that is no JSON) or a cache of the declared format; a failed write leaves it as it was.
\<close>

section \<open>The disk-backed cache\<close>

record CacheEntry =
  ce_value :: string
  ce_timestamp :: millis
  ce_thinkingText :: "string option"
  ce_textPreview :: "string option"
  ce_toolIds :: "string list option"

record CacheData =
  cd_version :: string
  cd_memory_ttl_seconds :: num
  cd_disk_ttl_seconds :: num
  cd_entries :: "(string, CacheEntry) jsmap option"
  cd_memory_hits :: nat
  cd_disk_hits :: nat
  cd_misses :: nat
  cd_writes :: nat
  cd_last_write :: millis

datatype cache_file =
    NoFile
  | BadFile
  | CacheFile CacheData

record SignatureCacheConfig =
  cfg_enabled :: bool
  cfg_memory_ttl_seconds :: num
  cfg_disk_ttl_seconds :: num
  cfg_write_interval_seconds :: num

record SignatureCacheRetention =
  rt_memoryTtlMs :: millis
  rt_diskTtlMs :: millis
  rt_writeIntervalMs :: "millis option"

text \<open>
  \<open>None\<close> as a write interval is \<open>Infinity\<close>. The running timers are the interval of the writes and whether the
  cleanup runs.
\<close>

record SignatureCache =
  sc_cache :: "(string, CacheEntry) jsmap"
  sc_memoryTtlMs :: millis
  sc_retentionMemoryTtlMs :: millis
  sc_retentionDiskTtlMs :: millis
  sc_writeIntervalMs :: "millis option"
  sc_enabled :: bool
  sc_dirty :: bool
  sc_writeTimer :: "millis option option"
  sc_cleanupTimer :: bool
  sc_memoryHits :: nat
  sc_diskHits :: nat
  sc_misses :: nat
  sc_writes :: nat

definition plain_entry :: "string \<Rightarrow> millis \<Rightarrow> CacheEntry" where
  "plain_entry v t =
     \<lparr>ce_value = v, ce_timestamp = t, ce_thinkingText = None, ce_textPreview = None, ce_toolIds = None\<rparr>"

text \<open>Loading never replaces an entry that is in memory.\<close>

definition load_entry :: "millis \<Rightarrow> millis \<Rightarrow> string \<times> CacheEntry \<Rightarrow> (string, CacheEntry) jsmap \<Rightarrow> (string, CacheEntry) jsmap" where
  "load_entry now ttl kv m =
     (case kv of (key, e) \<Rightarrow>
        if jm_has m key then m
        else if now - ce_timestamp e \<le> ttl then AList.update key (plain_entry (ce_value e) (ce_timestamp e)) m
        else m)"

definition loadFromDisk :: "cache_file \<Rightarrow> millis \<Rightarrow> SignatureCache \<Rightarrow> SignatureCache" where
  "loadFromDisk file now c =
     (case file of
        CacheFile data \<Rightarrow>
          (case cd_entries data of
             Some entries \<Rightarrow>
               if cd_version data = ''1.0''
               then c\<lparr>sc_cache := fold (load_entry now (sc_retentionDiskTtlMs c)) entries (sc_cache c)\<rparr> else c
           | None \<Rightarrow> c)
      | _ \<Rightarrow> c)"

definition startWriteTimer :: "SignatureCache \<Rightarrow> SignatureCache" where
  "startWriteTimer c = c\<lparr>sc_writeTimer := Some (sc_writeIntervalMs c)\<rparr>"

definition startBackgroundTasks :: "SignatureCache \<Rightarrow> SignatureCache" where
  "startBackgroundTasks c = (startWriteTimer c)\<lparr>sc_cleanupTimer := True\<rparr>"

definition newSignatureCache :: "SignatureCacheConfig \<Rightarrow> cache_file \<Rightarrow> millis \<Rightarrow> SignatureCache" where
  "newSignatureCache config file now =
     (let memoryTtl = cfg_memory_ttl_seconds config * 1000;
          c = \<lparr>sc_cache = [], sc_memoryTtlMs = memoryTtl, sc_retentionMemoryTtlMs = memoryTtl,
               sc_retentionDiskTtlMs = cfg_disk_ttl_seconds config * 1000,
               sc_writeIntervalMs = Some (cfg_write_interval_seconds config * 1000),
               sc_enabled = cfg_enabled config, sc_dirty = False, sc_writeTimer = None, sc_cleanupTimer = False,
               sc_memoryHits = 0, sc_diskHits = 0, sc_misses = 0, sc_writes = 0\<rparr>
      in if cfg_enabled config then startBackgroundTasks (loadFromDisk file now c) else c)"

definition createSignatureCache :: "SignatureCacheConfig option \<Rightarrow> cache_file \<Rightarrow> millis \<Rightarrow> SignatureCache option" where
  "createSignatureCache config file now =
     (case config of None \<Rightarrow> None | Some cfg \<Rightarrow> if cfg_enabled cfg then Some (newSignatureCache cfg file now) else None)"

definition sc_store :: "string \<Rightarrow> string \<Rightarrow> millis \<Rightarrow> SignatureCache \<Rightarrow> SignatureCache" where
  "sc_store key signature now c =
     (if \<not> sc_enabled c then c
      else c\<lparr>sc_cache := AList.update key (plain_entry signature now) (sc_cache c), sc_dirty := True\<rparr>)"

definition deleteIfPastRetention :: "string \<Rightarrow> millis \<Rightarrow> SignatureCache \<Rightarrow> SignatureCache" where
  "deleteIfPastRetention key age c =
     (if sc_retentionMemoryTtlMs c < age then c\<lparr>sc_cache := AList.delete key (sc_cache c)\<rparr> else c)"

definition sc_retrieve :: "string \<Rightarrow> millis \<Rightarrow> millis \<Rightarrow> SignatureCache \<Rightarrow> string option \<times> SignatureCache" where
  "sc_retrieve key memoryTtlMs now c =
     (if \<not> sc_enabled c then (None, c)
      else case map_of (sc_cache c) key of
             Some e \<Rightarrow>
               (let age = now - ce_timestamp e
                in if age \<le> memoryTtlMs then (Some (ce_value e), c\<lparr>sc_memoryHits := sc_memoryHits c + 1\<rparr>)
                   else (None, (deleteIfPastRetention key age c)\<lparr>sc_misses := sc_misses c + 1\<rparr>))
           | None \<Rightarrow> (None, c\<lparr>sc_misses := sc_misses c + 1\<rparr>))"

definition sc_has :: "string \<Rightarrow> millis \<Rightarrow> millis \<Rightarrow> SignatureCache \<Rightarrow> bool" where
  "sc_has key memoryTtlMs now c \<longleftrightarrow>
     sc_enabled c \<and> (case map_of (sc_cache c) key of None \<Rightarrow> False | Some e \<Rightarrow> now - ce_timestamp e \<le> memoryTtlMs)"

definition getTimestamp :: "string \<Rightarrow> SignatureCache \<Rightarrow> millis option" where
  "getTimestamp key c = map_option ce_timestamp (map_of (sc_cache c) key)"

definition storeThinking :: "string \<Rightarrow> string \<Rightarrow> string \<Rightarrow> string list option \<Rightarrow> millis \<Rightarrow> SignatureCache \<Rightarrow> SignatureCache" where
  "storeThinking key thinkingText signature toolIds now c =
     (if \<not> sc_enabled c \<or> thinkingText = [] \<or> signature = [] then c
      else c\<lparr>sc_cache := AList.update key
               \<lparr>ce_value = signature, ce_timestamp = now, ce_thinkingText = Some thinkingText,
                ce_textPreview = Some (take 100 thinkingText), ce_toolIds = toolIds\<rparr> (sc_cache c),
             sc_dirty := True\<rparr>)"

text \<open>The entry of a key when it has its thinking text.\<close>

definition thinking_entry :: "string \<Rightarrow> SignatureCache \<Rightarrow> (CacheEntry \<times> string) option" where
  "thinking_entry key c =
     (case map_of (sc_cache c) key of
        None \<Rightarrow> None
      | Some e \<Rightarrow> (case ce_thinkingText e of None \<Rightarrow> None | Some t \<Rightarrow> if t = [] then None else Some (e, t)))"

record ThinkingCacheData =
  td_text :: string
  td_signature :: string
  td_toolIds :: "string list option"

definition retrieveThinking :: "string \<Rightarrow> millis \<Rightarrow> millis \<Rightarrow> SignatureCache \<Rightarrow> ThinkingCacheData option \<times> SignatureCache" where
  "retrieveThinking key memoryTtlMs now c =
     (if \<not> sc_enabled c then (None, c)
      else case thinking_entry key c of
             None \<Rightarrow> (None, c)
           | Some (e, t) \<Rightarrow>
               (let age = now - ce_timestamp e
                in if memoryTtlMs < age then (None, deleteIfPastRetention key age c)
                   else (Some \<lparr>td_text = t, td_signature = ce_value e, td_toolIds = ce_toolIds e\<rparr>,
                         c\<lparr>sc_memoryHits := sc_memoryHits c + 1\<rparr>)))"

definition hasThinking :: "string \<Rightarrow> millis \<Rightarrow> millis \<Rightarrow> SignatureCache \<Rightarrow> bool" where
  "hasThinking key memoryTtlMs now c \<longleftrightarrow>
     sc_enabled c \<and> (case thinking_entry key c of None \<Rightarrow> False | Some (e, t) \<Rightarrow> now - ce_timestamp e \<le> memoryTtlMs)"

definition setRetention :: "SignatureCacheRetention \<Rightarrow> cache_file \<Rightarrow> millis \<Rightarrow> SignatureCache \<Rightarrow> SignatureCache" where
  "setRetention retention file now c =
     (let diskTtlGrew = sc_retentionDiskTtlMs c < rt_diskTtlMs retention;
          intervalChanged = rt_writeIntervalMs retention \<noteq> sc_writeIntervalMs c;
          c1 = c\<lparr>sc_retentionMemoryTtlMs := rt_memoryTtlMs retention, sc_retentionDiskTtlMs := rt_diskTtlMs retention,
                 sc_writeIntervalMs := rt_writeIntervalMs retention\<rparr>
      in if \<not> sc_enabled c then c1
         else (let c2 = (if diskTtlGrew then loadFromDisk file now c1 else c1)
               in if intervalChanged \<and> sc_writeTimer c2 \<noteq> None then startWriteTimer c2 else c2))"

text \<open>The file that a save writes: the entries of the file that are not expired, then those in memory.\<close>

definition existing_entries :: "cache_file \<Rightarrow> (string, CacheEntry) jsmap" where
  "existing_entries file = (case file of CacheFile data \<Rightarrow> nullish (cd_entries data) [] | _ \<Rightarrow> [])"

definition merged_entries :: "cache_file \<Rightarrow> millis \<Rightarrow> SignatureCache \<Rightarrow> (string, CacheEntry) jsmap" where
  "merged_entries file now c =
     fold (\<lambda>(key, e). AList.update key (plain_entry (ce_value e) (ce_timestamp e))) (sc_cache c)
       (filter (\<lambda>(key, e). now - ce_timestamp e \<le> sc_retentionDiskTtlMs c) (existing_entries file))"

definition saved_data :: "cache_file \<Rightarrow> millis \<Rightarrow> SignatureCache \<Rightarrow> CacheData" where
  "saved_data file now c =
     \<lparr>cd_version = ''1.0'', cd_memory_ttl_seconds = sc_retentionMemoryTtlMs c / 1000,
      cd_disk_ttl_seconds = sc_retentionDiskTtlMs c / 1000, cd_entries = Some (merged_entries file now c),
      cd_memory_hits = sc_memoryHits c, cd_disk_hits = sc_diskHits c, cd_misses = sc_misses c,
      cd_writes = sc_writes c + 1, cd_last_write = now\<rparr>"

definition saveToDisk :: "bool \<Rightarrow> cache_file \<Rightarrow> millis \<Rightarrow> SignatureCache \<Rightarrow> bool \<times> SignatureCache \<times> cache_file" where
  "saveToDisk written file now c =
     (if written then (True, c\<lparr>sc_writes := sc_writes c + 1, sc_dirty := False\<rparr>, CacheFile (saved_data file now c))
      else (False, c, file))"

definition sc_flush :: "bool \<Rightarrow> cache_file \<Rightarrow> millis \<Rightarrow> SignatureCache \<Rightarrow> bool \<times> SignatureCache \<times> cache_file" where
  "sc_flush written file now c = (if \<not> sc_enabled c then (True, c, file) else saveToDisk written file now c)"

definition write_tick :: "bool \<Rightarrow> cache_file \<Rightarrow> millis \<Rightarrow> SignatureCache \<Rightarrow> SignatureCache \<times> cache_file" where
  "write_tick written file now c =
     (if sc_writeTimer c \<noteq> None \<and> sc_dirty c then snd (saveToDisk written file now c) else (c, file))"

definition sc_shutdown :: "bool \<Rightarrow> cache_file \<Rightarrow> millis \<Rightarrow> SignatureCache \<Rightarrow> SignatureCache \<times> cache_file" where
  "sc_shutdown written file now c =
     (let c1 = c\<lparr>sc_writeTimer := None, sc_cleanupTimer := False\<rparr>
      in if sc_dirty c1 \<and> sc_enabled c1 then snd (saveToDisk written file now c1) else (c1, file))"

definition pruneExpired :: "millis \<Rightarrow> SignatureCache \<Rightarrow> SignatureCache" where
  "pruneExpired now c =
     c\<lparr>sc_cache := filter (\<lambda>(key, e). now - ce_timestamp e \<le> sc_retentionMemoryTtlMs c) (sc_cache c)\<rparr>"

section \<open>The hot map\<close>

record SignatureEntry =
  se_signature :: string
  se_timestamp :: millis

type_synonym session_map = "(string, SignatureEntry) jsmap"
type_synonym hot_map = "(string, session_map) jsmap"

definition SIGNATURE_CACHE_TTL_MS :: millis where
  "SIGNATURE_CACHE_TTL_MS = 60 * 60 * 1000"

definition MAX_ENTRIES_PER_SESSION :: nat where
  "MAX_ENTRIES_PER_SESSION = 100"

definition MAX_CACHED_SESSIONS :: nat where
  "MAX_CACHED_SESSIONS = 10"

definition makeDiskKey :: "string \<Rightarrow> string \<Rightarrow> string" where
  "makeDiskKey sessionId textHash = sessionId @ '':'' @ textHash"

definition hot_expired :: "millis \<Rightarrow> SignatureEntry \<Rightarrow> bool" where
  "hot_expired now e \<longleftrightarrow> SIGNATURE_CACHE_TTL_MS < now - se_timestamp e"

definition newest_ts :: "session_map \<Rightarrow> millis" where
  "newest_ts m = foldl (\<lambda>t (k, e). if t < se_timestamp e then se_timestamp e else t) 0 m"

definition pruneSignatureSessions :: "millis \<Rightarrow> hot_map \<Rightarrow> hot_map" where
  "pruneSignatureSessions now hot =
     (if length hot \<le> MAX_CACHED_SESSIONS then hot
      else (let hot1 = filter (\<lambda>(sid, m). \<not> list_all (\<lambda>(k, e). hot_expired now e) m) hot
            in if length hot1 \<le> MAX_CACHED_SESSIONS then hot1
               else (let oldest = take (length hot1 - MAX_CACHED_SESSIONS) (map fst (sort_key (\<lambda>(sid, m). newest_ts m) hot1))
                     in filter (\<lambda>(sid, m). sid \<notin> set oldest) hot1)))"

text \<open>Room in the map of a session that is full: expired entries go first, then a quarter of the oldest.\<close>

definition evict_entries :: "millis \<Rightarrow> session_map \<Rightarrow> session_map" where
  "evict_entries now m =
     (if length m < MAX_ENTRIES_PER_SESSION then m
      else (let m1 = filter (\<lambda>(k, e). \<not> hot_expired now e) m
            in if length m1 < MAX_ENTRIES_PER_SESSION then m1
               else (let oldest = take (MAX_ENTRIES_PER_SESSION div 4) (map fst (sort_key (\<lambda>(k, e). se_timestamp e) m1))
                     in filter (\<lambda>(k, e). k \<notin> set oldest) m1)))"

definition writeHot :: "string \<Rightarrow> string \<Rightarrow> string \<Rightarrow> millis \<Rightarrow> hot_map \<Rightarrow> hot_map" where
  "writeHot sessionId textHash signature now hot =
     (let hot1 = (if jm_has hot sessionId then hot else pruneSignatureSessions now hot @ [(sessionId, [])]);
          m = nullish (map_of hot1 sessionId) []
      in AList.update sessionId
           (AList.update textHash \<lparr>se_signature = signature, se_timestamp = now\<rparr> (evict_entries now m)) hot1)"

definition readHot :: "string \<Rightarrow> string \<Rightarrow> millis \<Rightarrow> hot_map \<Rightarrow> string option \<times> hot_map" where
  "readHot sessionId textHash now hot =
     (case map_of hot sessionId of
        None \<Rightarrow> (None, hot)
      | Some m \<Rightarrow>
          (case map_of m textHash of
             None \<Rightarrow> (None, hot)
           | Some e \<Rightarrow>
               if hot_expired now e then (None, AList.update sessionId (AList.delete textHash m) hot)
               else (Some (se_signature e), hot)))"

definition promoteHot :: "string \<Rightarrow> string \<Rightarrow> string \<Rightarrow> millis \<Rightarrow> hot_map \<Rightarrow> hot_map" where
  "promoteHot sessionId textHash signature now hot =
     AList.update sessionId
       (AList.update textHash \<lparr>se_signature = signature, se_timestamp = now\<rparr> (nullish (map_of hot sessionId) [])) hot"

definition clearHot :: "string option \<Rightarrow> hot_map \<Rightarrow> hot_map" where
  "clearHot sessionId hot =
     (case sessionId of None \<Rightarrow> [] | Some s \<Rightarrow> if s = [] then [] else AList.delete s hot)"

section \<open>Locations\<close>

text \<open>
  A consumer of a disk cache is named by the number of its location. A location that owns a cache finds it in
  the table, where it stays registered as long as it has an owner.
\<close>

record DiskConsumer =
  dc_memoryTtlMs :: millis
  dc_diskTtlMs :: millis
  dc_writeIntervalMs :: millis

record LocationSignatureOptions =
  lo_keepThinking :: bool
  lo_signatureCache :: "SignatureCacheConfig option"
  lo_cacheFilePath :: "string option"

record location =
  loc_keepThinking :: bool
  loc_consumer :: "DiskConsumer option"
  loc_path :: "string option"
  loc_owns :: bool
  loc_disposed :: bool

record SharedDiskCache =
  sh_cache :: SignatureCache
  sh_owners :: "nat list"

record signature_state =
  ps_hot :: hot_map
  ps_disks :: "(string, SharedDiskCache) jsmap"
  ps_readers :: "(string, nat list) jsmap"
  ps_locations :: "location list"
  ps_files :: "string \<Rightarrow> cache_file"

definition initial_state :: "(string \<Rightarrow> cache_file) \<Rightarrow> signature_state" where
  "initial_state files = \<lparr>ps_hot = [], ps_disks = [], ps_readers = [], ps_locations = [], ps_files = files\<rparr>"

definition consumer_of :: "signature_state \<Rightarrow> nat \<Rightarrow> DiskConsumer" where
  "consumer_of st i = nullish (loc_consumer (ps_locations st ! i)) \<lparr>dc_memoryTtlMs = 0, dc_diskTtlMs = 0, dc_writeIntervalMs = 0\<rparr>"

definition aggregateRetention :: "DiskConsumer list \<Rightarrow> DiskConsumer list \<Rightarrow> SignatureCacheRetention" where
  "aggregateRetention owners readers =
     \<lparr>rt_memoryTtlMs = foldl (\<lambda>t c. max t (dc_memoryTtlMs c)) 0 (owners @ readers),
      rt_diskTtlMs = foldl (\<lambda>t c. max t (dc_diskTtlMs c)) 0 (owners @ readers),
      rt_writeIntervalMs =
        foldl (\<lambda>t c. Some (case t of None \<Rightarrow> dc_writeIntervalMs c | Some x \<Rightarrow> min x (dc_writeIntervalMs c))) None owners\<rparr>"

definition updateRetention :: "string \<Rightarrow> millis \<Rightarrow> signature_state \<Rightarrow> signature_state" where
  "updateRetention path now st =
     (case map_of (ps_disks st) path of
        None \<Rightarrow> st
      | Some sh \<Rightarrow>
          (let retention = aggregateRetention (map (consumer_of st) (sh_owners sh))
                 (map (consumer_of st) (nullish (map_of (ps_readers st) path) []))
           in st\<lparr>ps_disks := AList.update path
                  (sh\<lparr>sh_cache := setRetention retention (ps_files st path) now (sh_cache sh)\<rparr>) (ps_disks st)\<rparr>))"

definition acquireDisk :: "string \<Rightarrow> SignatureCacheConfig \<Rightarrow> nat \<Rightarrow> millis \<Rightarrow> signature_state \<Rightarrow> signature_state" where
  "acquireDisk path config owner now st =
     (let sh = (case map_of (ps_disks st) path of
                  Some sh \<Rightarrow> sh
                | None \<Rightarrow> \<lparr>sh_cache = newSignatureCache config (ps_files st path) now, sh_owners = []\<rparr>)
      in updateRetention path now
           (st\<lparr>ps_disks := AList.update path (sh\<lparr>sh_owners := sh_owners sh @ [owner]\<rparr>) (ps_disks st)\<rparr>))"

definition disk_consumer :: "SignatureCacheConfig option \<Rightarrow> DiskConsumer option" where
  "disk_consumer config =
     (case config of
        None \<Rightarrow> None
      | Some cfg \<Rightarrow>
          if cfg_enabled cfg
          then Some \<lparr>dc_memoryTtlMs = cfg_memory_ttl_seconds cfg * 1000, dc_diskTtlMs = cfg_disk_ttl_seconds cfg * 1000,
                     dc_writeIntervalMs = cfg_write_interval_seconds cfg * 1000\<rparr>
          else None)"

text \<open>
  The canonical form of a path and the default path of the cache are arguments.
\<close>

definition acquireLocation ::
  "(string \<Rightarrow> string) \<Rightarrow> string \<Rightarrow> LocationSignatureOptions \<Rightarrow> millis \<Rightarrow> signature_state \<Rightarrow> nat \<times> signature_state" where
  "acquireLocation canonical defaultPath opts now st =
     (let consumer = disk_consumer (lo_signatureCache opts);
          path = (case consumer of None \<Rightarrow> None | Some c \<Rightarrow> Some (canonical (nullish (lo_cacheFilePath opts) defaultPath)));
          i = length (ps_locations st);
          st1 = st\<lparr>ps_locations := ps_locations st
                    @ [\<lparr>loc_keepThinking = lo_keepThinking opts, loc_consumer = consumer, loc_path = path,
                        loc_owns = (consumer \<noteq> None \<and> lo_keepThinking opts), loc_disposed = False\<rparr>]\<rparr>
      in (i, case (path, lo_signatureCache opts) of
               (Some p, Some cfg) \<Rightarrow>
                 if lo_keepThinking opts then acquireDisk p cfg i now st1
                 else updateRetention p now
                        (st1\<lparr>ps_readers := AList.update p (nullish (map_of (ps_readers st1) p) [] @ [i]) (ps_readers st1)\<rparr>)
             | _ \<Rightarrow> st1))"

definition on_disk :: "string \<Rightarrow> (SignatureCache \<Rightarrow> SignatureCache) \<Rightarrow> signature_state \<Rightarrow> signature_state" where
  "on_disk path f st =
     (case map_of (ps_disks st) path of
        None \<Rightarrow> st
      | Some sh \<Rightarrow> st\<lparr>ps_disks := AList.update path (sh\<lparr>sh_cache := f (sh_cache sh)\<rparr>) (ps_disks st)\<rparr>)"

definition location_cacheSignature ::
  "(string \<Rightarrow> string) \<Rightarrow> nat \<Rightarrow> string \<Rightarrow> string \<Rightarrow> string \<Rightarrow> millis \<Rightarrow> signature_state \<Rightarrow> signature_state" where
  "location_cacheSignature hashText i sessionId text signature now st =
     (let loc = ps_locations st ! i in
      if loc_disposed loc \<or> sessionId = [] \<or> text = [] \<or> signature = [] then st
      else (let st1 = st\<lparr>ps_hot := writeHot sessionId (hashText text) signature now (ps_hot st)\<rparr>
            in case (loc_owns loc, loc_path loc) of
                 (True, Some p) \<Rightarrow> on_disk p (sc_store (makeDiskKey sessionId (hashText text)) signature now) st1
               | _ \<Rightarrow> st1))"

definition location_getCachedSignature ::
  "(string \<Rightarrow> string) \<Rightarrow> nat \<Rightarrow> string \<Rightarrow> string \<Rightarrow> millis \<Rightarrow> signature_state \<Rightarrow> string option \<times> signature_state" where
  "location_getCachedSignature hashText i sessionId text now st =
     (let loc = ps_locations st ! i; h = hashText text in
      if loc_disposed loc \<or> sessionId = [] \<or> text = [] then (None, st)
      else case readHot sessionId h now (ps_hot st) of
             (Some v, hot) \<Rightarrow> (Some v, st\<lparr>ps_hot := hot\<rparr>)
           | (None, hot) \<Rightarrow>
               (let st1 = st\<lparr>ps_hot := hot\<rparr> in
                case (loc_consumer loc, loc_path loc) of
                  (Some consumer, Some p) \<Rightarrow>
                    (case map_of (ps_disks st1) p of
                       None \<Rightarrow> (None, st1)
                     | Some sh \<Rightarrow>
                         (let (r, c) = sc_retrieve (makeDiskKey sessionId h) (dc_memoryTtlMs consumer) now (sh_cache sh);
                              st2 = st1\<lparr>ps_disks := AList.update p (sh\<lparr>sh_cache := c\<rparr>) (ps_disks st1)\<rparr>
                          in case r of
                               Some v \<Rightarrow> if v = [] then (None, st2)
                                 else (Some v, st2\<lparr>ps_hot := promoteHot sessionId h v now (ps_hot st2)\<rparr>)
                             | None \<Rightarrow> (None, st2)))
                | _ \<Rightarrow> (None, st1)))"

text \<open>
  Disposal runs up to the flush at once; what is left, the shutdown of a cache that lost its last owner, runs
  later and is the second result.
\<close>

definition releaseDisk :: "bool \<Rightarrow> string \<Rightarrow> nat \<Rightarrow> millis \<Rightarrow> signature_state \<Rightarrow> signature_state \<times> (string \<times> SignatureCache) option" where
  "releaseDisk written path owner now st =
     (case map_of (ps_disks st) path of
        None \<Rightarrow> (st, None)
      | Some sh \<Rightarrow>
          (let owners = filter (\<lambda>j. j \<noteq> owner) (sh_owners sh)
           in if owners \<noteq> []
              then (updateRetention path now
                      (st\<lparr>ps_disks := AList.update path (sh\<lparr>sh_owners := owners\<rparr>) (ps_disks st)\<rparr>), None)
              else (let (ok, c, file) = sc_flush written (ps_files st path) now (sh_cache sh)
                    in (st\<lparr>ps_disks := AList.delete path (ps_disks st), ps_files := (ps_files st)(path := file)\<rparr>,
                        Some (path, c)))))"

definition finish_release :: "bool \<Rightarrow> string \<times> SignatureCache \<Rightarrow> millis \<Rightarrow> signature_state \<Rightarrow> signature_state" where
  "finish_release written pending now st =
     (case pending of (path, c) \<Rightarrow>
        st\<lparr>ps_files := (ps_files st)(path := snd (sc_shutdown written (ps_files st path) now c))\<rparr>)"

definition location_dispose :: "bool \<Rightarrow> nat \<Rightarrow> millis \<Rightarrow> signature_state \<Rightarrow> signature_state \<times> (string \<times> SignatureCache) option" where
  "location_dispose written i now st =
     (let loc = ps_locations st ! i in
      if loc_disposed loc then (st, None)
      else (let st1 = st\<lparr>ps_locations := (ps_locations st)[i := loc\<lparr>loc_disposed := True\<rparr>]\<rparr>
            in case (loc_consumer loc, loc_path loc) of
                 (Some consumer, Some p) \<Rightarrow>
                   if loc_owns loc then releaseDisk written p i now st1
                   else (let others = filter (\<lambda>j. j \<noteq> i) (nullish (map_of (ps_readers st1) p) []);
                             readers = (if others = [] then AList.delete p (ps_readers st1)
                                        else AList.update p others (ps_readers st1))
                         in (updateRetention p now (st1\<lparr>ps_readers := readers\<rparr>), None))
               | _ \<Rightarrow> (st1, None)))"

definition hasHotEntry :: "(string \<Rightarrow> string) \<Rightarrow> string \<Rightarrow> string \<Rightarrow> signature_state \<Rightarrow> bool" where
  "hasHotEntry hashText sessionId text st =
     (case map_of (ps_hot st) sessionId of None \<Rightarrow> False | Some m \<Rightarrow> jm_has m (hashText text))"

definition diskCacheFor :: "(string \<Rightarrow> string) \<Rightarrow> string \<Rightarrow> signature_state \<Rightarrow> SignatureCache option" where
  "diskCacheFor canonical filePath st = map_option sh_cache (map_of (ps_disks st) (canonical filePath))"

definition clear_hot_state :: "string option \<Rightarrow> signature_state \<Rightarrow> signature_state" where
  "clear_hot_state sessionId st = st\<lparr>ps_hot := clearHot sessionId (ps_hot st)\<rparr>"

section \<open>The module-level handle\<close>

record legacy_handles =
  lg_memory :: "nat option"
  lg_disk :: "nat option"

definition legacy_options :: "bool \<Rightarrow> SignatureCacheConfig option \<Rightarrow> LocationSignatureOptions" where
  "legacy_options keep config = \<lparr>lo_keepThinking = keep, lo_signatureCache = config, lo_cacheFilePath = None\<rparr>"

definition getLegacyHandle ::
  "(string \<Rightarrow> string) \<Rightarrow> string \<Rightarrow> millis \<Rightarrow> legacy_handles \<times> signature_state \<Rightarrow> nat \<times> legacy_handles \<times> signature_state" where
  "getLegacyHandle canonical defaultPath now w =
     (case w of (lg, st) \<Rightarrow>
        (case lg_disk lg of
           Some i \<Rightarrow> (i, lg, st)
         | None \<Rightarrow>
             (case lg_memory lg of
                Some i \<Rightarrow> (i, lg, st)
              | None \<Rightarrow>
                  (let (i, st1) = acquireLocation canonical defaultPath (legacy_options False None) now st
                   in (i, lg\<lparr>lg_memory := Some i\<rparr>, st1)))))"

text \<open>The shutdown of a cache that lost its owner runs after the new owner has loaded.\<close>

definition initDiskSignatureCache ::
  "(string \<Rightarrow> string) \<Rightarrow> string \<Rightarrow> bool \<times> bool \<Rightarrow> SignatureCacheConfig option \<Rightarrow> millis
     \<Rightarrow> legacy_handles \<times> signature_state \<Rightarrow> legacy_handles \<times> signature_state" where
  "initDiskSignatureCache canonical defaultPath written config now w =
     (case w of (lg, st) \<Rightarrow>
        (let (st1, pending) = (case lg_disk lg of None \<Rightarrow> (st, None) | Some i \<Rightarrow> location_dispose (fst written) i now st);
             (i, st2) = acquireLocation canonical defaultPath (legacy_options True config) now st1;
             st3 = (case pending of None \<Rightarrow> st2 | Some p \<Rightarrow> finish_release (snd written) p now st2)
         in (lg\<lparr>lg_disk := Some i\<rparr>, st3)))"

definition shutdownDiskSignatureCache ::
  "bool \<times> bool \<Rightarrow> millis \<Rightarrow> legacy_handles \<times> signature_state \<Rightarrow> legacy_handles \<times> signature_state" where
  "shutdownDiskSignatureCache written now w =
     (case w of (lg, st) \<Rightarrow>
        (let (st1, pending) = (case lg_disk lg of None \<Rightarrow> (st, None) | Some i \<Rightarrow> location_dispose (fst written) i now st);
             st2 = (case pending of None \<Rightarrow> st1 | Some p \<Rightarrow> finish_release (snd written) p now st1)
         in (lg\<lparr>lg_disk := None\<rparr>, clear_hot_state None st2)))"

section \<open>Runs\<close>

text \<open>
  The states of the process at a time, with the shutdowns that are still to run. The predicate \<open>genuine\<close> says which
  signature belongs to which key: signatures that are recorded, and the files of other processes, satisfy it.
\<close>

definition entries_genuine :: "(string \<Rightarrow> string \<Rightarrow> bool) \<Rightarrow> (string, CacheEntry) jsmap \<Rightarrow> bool" where
  "entries_genuine genuine m \<longleftrightarrow> (\<forall>k e. (k, e) \<in> set m \<longrightarrow> genuine k (ce_value e))"

definition file_genuine :: "(string \<Rightarrow> string \<Rightarrow> bool) \<Rightarrow> cache_file \<Rightarrow> bool" where
  "file_genuine genuine file \<longleftrightarrow> entries_genuine genuine (existing_entries file)"

inductive sig_reach ::
  "(string \<Rightarrow> string \<Rightarrow> bool) \<Rightarrow> (string \<Rightarrow> string) \<Rightarrow> millis \<Rightarrow> signature_state \<Rightarrow> (string \<times> SignatureCache) list \<Rightarrow> bool"
  for genuine :: "string \<Rightarrow> string \<Rightarrow> bool" and hashText :: "string \<Rightarrow> string" where
  start: "(\<And>p. file_genuine genuine (files p)) \<Longrightarrow> sig_reach genuine hashText now (initial_state files) []"
| pass: "sig_reach genuine hashText now st ps \<Longrightarrow> now \<le> later \<Longrightarrow> sig_reach genuine hashText later st ps"
| acquire: "sig_reach genuine hashText now st ps
    \<Longrightarrow> sig_reach genuine hashText now (snd (acquireLocation canonical defaultPath opts now st)) ps"
| record_signature: "sig_reach genuine hashText now st ps \<Longrightarrow> i < length (ps_locations st)
    \<Longrightarrow> genuine (makeDiskKey sid (hashText text)) signature
    \<Longrightarrow> sig_reach genuine hashText now (location_cacheSignature hashText i sid text signature now st) ps"
| lookup: "sig_reach genuine hashText now st ps \<Longrightarrow> i < length (ps_locations st)
    \<Longrightarrow> sig_reach genuine hashText now (snd (location_getCachedSignature hashText i sid text now st)) ps"
| dispose: "sig_reach genuine hashText now st ps \<Longrightarrow> i < length (ps_locations st)
    \<Longrightarrow> location_dispose written i now st = (st', pending)
    \<Longrightarrow> sig_reach genuine hashText now st' (case pending of None \<Rightarrow> ps | Some p \<Rightarrow> ps @ [p])"
| shut: "sig_reach genuine hashText now st (ps @ p # qs)
    \<Longrightarrow> sig_reach genuine hashText now (finish_release written p now st) (ps @ qs)"
| tick: "sig_reach genuine hashText now st ps \<Longrightarrow> map_of (ps_disks st) path = Some sh
    \<Longrightarrow> write_tick written (ps_files st path) now (sh_cache sh) = (c, file)
    \<Longrightarrow> sig_reach genuine hashText now
          (st\<lparr>ps_disks := AList.update path (sh\<lparr>sh_cache := c\<rparr>) (ps_disks st), ps_files := (ps_files st)(path := file)\<rparr>) ps"
| prune: "sig_reach genuine hashText now st ps
    \<Longrightarrow> sig_reach genuine hashText now (on_disk path (pruneExpired now) st) ps"
| clear: "sig_reach genuine hashText now st ps \<Longrightarrow> sig_reach genuine hashText now (clear_hot_state sid st) ps"
| other_process: "sig_reach genuine hashText now st ps \<Longrightarrow> file_genuine genuine file
    \<Longrightarrow> sig_reach genuine hashText now (st\<lparr>ps_files := (ps_files st)(path := file)\<rparr>) ps"

end
