(* ===== verification/Signature_Facts.thy ===== *)
theory Signature_Facts
  imports Signature_Cache
begin

text \<open>
  Lemmas about the signature cache: genuine entries, the bookkeeping of owners and readers, the retention that
  keeps entries for every consumer, and the bounds of the hot map.
\<close>

section \<open>Genuine entries\<close>

lemma genuine_subset: "entries_genuine g m \<Longrightarrow> set m' \<subseteq> set m \<Longrightarrow> entries_genuine g m'"
  by (auto simp: entries_genuine_def)

lemma genuine_update: "entries_genuine g m \<Longrightarrow> g k (ce_value e) \<Longrightarrow> entries_genuine g (AList.update k e m)"
  using set_update_subset [of k e m] by (fastforce simp: entries_genuine_def)

lemma genuine_delete: "entries_genuine g m \<Longrightarrow> entries_genuine g (AList.delete k m)"
  by (rule genuine_subset [OF _ set_delete_subset])

lemma genuine_filter: "entries_genuine g m \<Longrightarrow> entries_genuine g (filter P m)"
  by (auto simp: entries_genuine_def)

lemma genuine_Nil [simp]: "entries_genuine g []"
  by (simp add: entries_genuine_def)

lemma genuine_lookup: "entries_genuine g m \<Longrightarrow> map_of m k = Some e \<Longrightarrow> g k (ce_value e)"
  by (auto simp: entries_genuine_def dest!: map_of_SomeD)

abbreviation cache_genuine :: "(string \<Rightarrow> string \<Rightarrow> bool) \<Rightarrow> SignatureCache \<Rightarrow> bool" where
  "cache_genuine g c \<equiv> entries_genuine g (sc_cache c)"

lemma plain_entry_simps [simp]: "ce_value (plain_entry v t) = v" "ce_timestamp (plain_entry v t) = t"
  by (simp_all add: plain_entry_def)

lemma genuine_load_entry: "entries_genuine g m \<Longrightarrow> g (fst kv) (ce_value (snd kv)) \<Longrightarrow> entries_genuine g (load_entry now ttl kv m)"
  by (auto simp: load_entry_def genuine_update split: prod.split)

lemma genuine_fold:
  "(\<And>kv m. kv \<in> set kvs \<Longrightarrow> entries_genuine g m \<Longrightarrow> entries_genuine g (f kv m)) \<Longrightarrow> entries_genuine g m
     \<Longrightarrow> entries_genuine g (fold f kvs m)"
  by (induction kvs arbitrary: m) auto

lemma genuine_loaded: "file_genuine g file \<Longrightarrow> cache_genuine g c \<Longrightarrow> cache_genuine g (loadFromDisk file now c)"
  by (auto simp: loadFromDisk_def file_genuine_def existing_entries_def
      intro!: genuine_fold genuine_load_entry split: cache_file.split option.split) (simp add: entries_genuine_def)

lemma genuine_set_retention: "file_genuine g file \<Longrightarrow> cache_genuine g c \<Longrightarrow> cache_genuine g (setRetention r file now c)"
  by (auto simp: setRetention_def startWriteTimer_def Let_def intro!: genuine_loaded)

lemma genuine_new: "file_genuine g file \<Longrightarrow> cache_genuine g (newSignatureCache config file now)"
  by (auto simp: newSignatureCache_def startBackgroundTasks_def startWriteTimer_def Let_def intro!: genuine_loaded)

lemma genuine_store: "cache_genuine g c \<Longrightarrow> g key signature \<Longrightarrow> cache_genuine g (sc_store key signature now c)"
  by (simp add: sc_store_def genuine_update)

lemma genuine_retrieve:
  assumes "cache_genuine g c" "sc_retrieve key ttl now c = (r, c')"
  shows "cache_genuine g c'" "r = Some v \<Longrightarrow> g key v"
  using assms genuine_lookup [OF assms(1), of key]
  by (auto simp: sc_retrieve_def deleteIfPastRetention_def Let_def genuine_delete split: if_splits option.splits)

lemma genuine_saved:
  assumes "cache_genuine g c" "file_genuine g file"
  shows "file_genuine g (CacheFile (saved_data file now c))"
proof -
  have "entries_genuine g (merged_entries file now c)"
    unfolding merged_entries_def
    by (rule genuine_fold) (use assms in \<open>auto simp: entries_genuine_def [of g "sc_cache c"] file_genuine_def
          intro!: genuine_update genuine_filter\<close>)
  then show ?thesis by (simp add: file_genuine_def existing_entries_def saved_data_def)
qed

lemma genuine_save:
  assumes "cache_genuine g c" "file_genuine g file"
  shows "saveToDisk written file now c = (ok, c', file') \<Longrightarrow> cache_genuine g c' \<and> file_genuine g file'"
    and "sc_flush written file now c = (ok, c', file') \<Longrightarrow> cache_genuine g c' \<and> file_genuine g file'"
    and "write_tick written file now c = (c', file') \<Longrightarrow> cache_genuine g c' \<and> file_genuine g file'"
    and "file_genuine g (snd (sc_shutdown written file now c))"
  using assms genuine_saved [OF assms, of now] genuine_saved [where c = "c\<lparr>sc_writeTimer := None, sc_cleanupTimer := False\<rparr>", OF _ assms(2)]
  by (auto simp: saveToDisk_def sc_flush_def write_tick_def sc_shutdown_def Let_def split: if_splits)

definition hot_genuine :: "(string \<Rightarrow> string \<Rightarrow> bool) \<Rightarrow> hot_map \<Rightarrow> bool" where
  "hot_genuine g hot \<longleftrightarrow> (\<forall>sid m h e. (sid, m) \<in> set hot \<longrightarrow> (h, e) \<in> set m \<longrightarrow> g (makeDiskKey sid h) (se_signature e))"

lemma hot_subset: "hot_genuine g hot \<Longrightarrow> set hot' \<subseteq> set hot \<Longrightarrow> hot_genuine g hot'"
  by (auto simp: hot_genuine_def)

lemma hot_update:
  assumes "hot_genuine g hot" "\<And>h e. (h, e) \<in> set m \<Longrightarrow> g (makeDiskKey sid h) (se_signature e)"
  shows "hot_genuine g (AList.update sid m hot)"
  using assms set_update_subset [of sid m hot] by (fastforce simp: hot_genuine_def)

lemma hot_session: "hot_genuine g hot \<Longrightarrow> (h, e) \<in> set (nullish (map_of hot sid) []) \<Longrightarrow> g (makeDiskKey sid h) (se_signature e)"
  by (cases "map_of hot sid") (auto simp: hot_genuine_def dest!: map_of_SomeD)

lemma prune_sessions_subset: "set (pruneSignatureSessions now hot) \<subseteq> set hot"
  by (auto simp: pruneSignatureSessions_def Let_def)

lemma evict_subset: "set (evict_entries now m) \<subseteq> set m"
  by (auto simp: evict_entries_def Let_def)

lemma hot_write:
  assumes "hot_genuine g hot" "g (makeDiskKey sid h) signature"
  shows "hot_genuine g (writeHot sid h signature now hot)"
proof -
  let ?hot = "if jm_has hot sid then hot else pruneSignatureSessions now hot @ [(sid, [])]"
  have hot: "hot_genuine g ?hot"
    using assms(1) hot_subset [OF assms(1) prune_sessions_subset] by (auto simp: hot_genuine_def)
  have "g (makeDiskKey sid h') (se_signature e)"
    if "(h', e) \<in> set (AList.update h \<lparr>se_signature = signature, se_timestamp = now\<rparr> (evict_entries now (nullish (map_of ?hot sid) [])))" for h' e
    using that hot_session [OF hot, of _ _ sid] evict_subset assms(2)
      set_update_subset [of h "\<lparr>se_signature = signature, se_timestamp = now\<rparr>" "evict_entries now (nullish (map_of ?hot sid) [])"]
    by fastforce
  then show ?thesis unfolding writeHot_def Let_def by (rule hot_update [OF hot])
qed

lemma hot_promote: "hot_genuine g hot \<Longrightarrow> g (makeDiskKey sid h) v \<Longrightarrow> hot_genuine g (promoteHot sid h v now hot)"
  using hot_session [of g hot _ _ sid] set_update_subset [of h "\<lparr>se_signature = v, se_timestamp = now\<rparr>" "nullish (map_of hot sid) []"]
  unfolding promoteHot_def by (intro hot_update) fastforce+

lemma hot_read:
  assumes "hot_genuine g hot" "readHot sid h now hot = (r, hot')"
  shows "hot_genuine g hot'" "r = Some v \<Longrightarrow> g (makeDiskKey sid h) v"
proof -
  show "r = Some v \<Longrightarrow> g (makeDiskKey sid h) v"
    using assms by (fastforce simp: readHot_def hot_genuine_def dest!: map_of_SomeD split: option.splits if_splits)
  show "hot_genuine g hot'"
  proof (cases "hot' = hot")
    case False
    then obtain m where m: "map_of hot sid = Some m" "hot' = AList.update sid (AList.delete h m) hot"
      using assms(2) by (auto simp: readHot_def split: option.splits if_splits)
    then show ?thesis using assms(1) hot_session [OF assms(1), of _ _ sid] set_delete_subset [of h m]
      by (auto intro!: hot_update)
  qed (use assms(1) in simp)
qed

lemma hot_clear: "hot_genuine g hot \<Longrightarrow> hot_genuine g (clearHot sid hot)"
  using set_delete_subset [of _ hot] hot_subset by (fastforce simp: clearHot_def hot_genuine_def split: option.split)

definition state_genuine :: "(string \<Rightarrow> string \<Rightarrow> bool) \<Rightarrow> signature_state \<Rightarrow> bool" where
  "state_genuine g st \<longleftrightarrow> hot_genuine g (ps_hot st) \<and> (\<forall>p sh. (p, sh) \<in> set (ps_disks st) \<longrightarrow> cache_genuine g (sh_cache sh))
     \<and> (\<forall>p. file_genuine g (ps_files st p))"

lemma state_genuineD:
  assumes "state_genuine g st"
  shows "hot_genuine g (ps_hot st)" "file_genuine g (ps_files st p)" "map_of (ps_disks st) p = Some sh \<Longrightarrow> cache_genuine g (sh_cache sh)"
  using assms by (auto simp: state_genuine_def dest!: map_of_SomeD)

lemma state_genuine_disk:
  "state_genuine g st \<Longrightarrow> cache_genuine g (sh_cache sh) \<Longrightarrow> state_genuine g (st\<lparr>ps_disks := AList.update p sh (ps_disks st)\<rparr>)"
  using set_update_subset [of p sh "ps_disks st"] by (fastforce simp: state_genuine_def)

lemma state_genuine_frame:
  "state_genuine g st \<Longrightarrow> ps_hot st' = ps_hot st \<Longrightarrow> ps_disks st' = ps_disks st \<Longrightarrow> ps_files st' = ps_files st \<Longrightarrow> state_genuine g st'"
  by (simp add: state_genuine_def)

lemma genuine_update_retention: "state_genuine g st \<Longrightarrow> state_genuine g (updateRetention p now st)"
  by (auto simp: updateRetention_def Let_def intro!: state_genuine_disk genuine_set_retention dest: state_genuineD split: option.split)

lemma genuine_on_disk:
  "state_genuine g st \<Longrightarrow> (\<And>c. cache_genuine g c \<Longrightarrow> cache_genuine g (f c)) \<Longrightarrow> state_genuine g (on_disk p f st)"
  by (auto simp: on_disk_def intro!: state_genuine_disk dest: state_genuineD split: option.split)

lemma genuine_acquire:
  assumes "state_genuine g st"
  shows "state_genuine g (snd (acquireLocation canonical defaultPath opts now st))"
proof -
  have disk: "state_genuine g (acquireDisk p config i now st')" if "state_genuine g st'" for p config i st'
    unfolding acquireDisk_def Let_def using that state_genuineD [OF that]
    by (auto intro!: genuine_update_retention state_genuine_disk genuine_new split: option.split)
  have frame: "state_genuine g (st\<lparr>ps_locations := l\<rparr>)" "state_genuine g (st\<lparr>ps_locations := l, ps_readers := r\<rparr>)" for l r
    using assms by (auto intro: state_genuine_frame)
  show ?thesis
    unfolding acquireLocation_def Let_def using frame
    by (auto intro!: disk genuine_update_retention split: option.split)
qed

lemma genuine_record:
  assumes "state_genuine g st" "g (makeDiskKey sid (hashText text)) signature"
  shows "state_genuine g (location_cacheSignature hashText i sid text signature now st)"
proof -
  have "state_genuine g (st\<lparr>ps_hot := writeHot sid (hashText text) signature now (ps_hot st)\<rparr>)"
    using assms hot_write by (simp add: state_genuine_def)
  then show ?thesis using assms
    by (auto simp: location_cacheSignature_def Let_def intro!: genuine_on_disk genuine_store split: option.split bool.split)
qed

lemma genuine_get:
  assumes "state_genuine g st" "location_getCachedSignature hashText i sid text now st = (r, st')"
  shows "state_genuine g st'" "r = Some v \<Longrightarrow> g (makeDiskKey sid (hashText text)) v"
proof -
  obtain hr hot where h: "readHot sid (hashText text) now (ps_hot st) = (hr, hot)" by fastforce
  note hot = hot_read [OF state_genuineD(1) [OF assms(1)] h]
  have g1: "state_genuine g (st\<lparr>ps_hot := hot\<rparr>)" using assms(1) hot(1) by (simp add: state_genuine_def)
  have promoted: "state_genuine g (st\<lparr>ps_disks := d, ps_hot := promoteHot sid (hashText text) v now hot\<rparr>)"
    if "state_genuine g (st\<lparr>ps_hot := hot, ps_disks := d\<rparr>)" "g (makeDiskKey sid (hashText text)) v" for d v
    using that hot_promote by (simp add: state_genuine_def)
  have disk: "state_genuine g (st\<lparr>ps_hot := hot, ps_disks := AList.update p (sh\<lparr>sh_cache := c\<rparr>) (ps_disks st)\<rparr>)
      \<and> (\<forall>v. r' = Some v \<longrightarrow> g (makeDiskKey sid (hashText text)) v)"
    if "map_of (ps_disks st) p = Some sh" "sc_retrieve (makeDiskKey sid (hashText text)) ttl now (sh_cache sh) = (r', c)" for p sh ttl r' c
    using state_genuine_disk [OF g1, of "sh\<lparr>sh_cache := c\<rparr>" p] genuine_retrieve [OF state_genuineD(3) [OF assms(1) that(1)] that(2)]
    by simp
  show "state_genuine g st'" "r = Some v \<Longrightarrow> g (makeDiskKey sid (hashText text)) v"
    using assms g1 hot disk promoted
    by (auto simp: location_getCachedSignature_def Let_def h split: option.splits if_splits prod.splits)
qed

lemma genuine_dispose:
  assumes "state_genuine g st" "location_dispose written i now st = (st', pending)"
  shows "state_genuine g st' \<and> (\<forall>p c. pending = Some (p, c) \<longrightarrow> cache_genuine g c)"
proof -
  let ?st = "st\<lparr>ps_locations := (ps_locations st)[i := (ps_locations st ! i)\<lparr>loc_disposed := True\<rparr>]\<rparr>"
  have st: "state_genuine g ?st" using assms(1) by (rule state_genuine_frame) simp_all
  have readers: "state_genuine g (updateRetention p now (?st\<lparr>ps_readers := r\<rparr>))" for p r
    by (rule genuine_update_retention, rule state_genuine_frame [OF st]) simp_all
  have release: "state_genuine g st2 \<and> (\<forall>q c. pd = Some (q, c) \<longrightarrow> cache_genuine g c)"
    if r: "releaseDisk written p i now ?st = (st2, pd)" for p st2 pd
  proof (cases "map_of (ps_disks st) p")
    case None
    then show ?thesis using r st by (auto simp: releaseDisk_def)
  next
    case (Some sh)
    note c = state_genuineD(3) [OF assms(1) Some]
    obtain ok c' fl where f: "sc_flush written (ps_files st p) now (sh_cache sh) = (ok, c', fl)"
      by (metis prod_cases3)
    note saved = genuine_save(2) [OF c state_genuineD(2) [OF assms(1)] f]
    have "state_genuine g (?st\<lparr>ps_disks := AList.delete p (ps_disks st), ps_files := (ps_files st)(p := fl)\<rparr>)"
      using st saved set_delete_subset [of p "ps_disks st"] by (auto simp: state_genuine_def)
    moreover have "state_genuine g (updateRetention p now (?st\<lparr>ps_disks := AList.update p (sh\<lparr>sh_owners := os\<rparr>) (ps_disks st)\<rparr>))" for os
      using state_genuine_disk [OF st, of "sh\<lparr>sh_owners := os\<rparr>" p] c by (intro genuine_update_retention) simp
    ultimately show ?thesis using r Some f saved by (auto simp: releaseDisk_def Let_def split: if_splits)
  qed
  show ?thesis using assms st readers release
    by (auto simp: location_dispose_def Let_def split: option.splits if_splits)
qed

lemma genuine_reach:
  "sig_reach g hashText now st ps \<Longrightarrow> state_genuine g st \<and> (\<forall>(p, c) \<in> set ps. cache_genuine g c)"
proof (induction rule: sig_reach.induct)
  case (start fs now)
  then show ?case by (simp add: state_genuine_def initial_state_def hot_genuine_def)
next
  case (acquire now st ps canonical defaultPath opts)
  then show ?case by (simp add: genuine_acquire)
next
  case (record_signature now st ps i sid t sig)
  then show ?case by (simp add: genuine_record)
next
  case (lookup now st ps i sid t)
  then show ?case using genuine_get(1) by (metis prod.collapse)
next
  case (dispose now st ps i written st' pending)
  then show ?case using genuine_dispose [OF _ dispose.hyps(3)] by (auto split: option.split)
next
  case (shut now st ps p qs written)
  then show ?case
    by (auto simp: finish_release_def state_genuine_def intro!: genuine_save(4) split: prod.split)
next
  case (tick now st ps path sh written c fl)
  then have st: "state_genuine g st" by simp
  have "cache_genuine g c \<and> file_genuine g fl"
    by (rule genuine_save(3) [OF state_genuineD(3) [OF st tick.hyps(2)] state_genuineD(2) [OF st] tick.hyps(3)])
  then show ?case using tick.IH state_genuine_disk [OF st, of "sh\<lparr>sh_cache := c\<rparr>" path] by (simp add: state_genuine_def)
next
  case (prune now st ps path)
  then show ?case by (auto simp: pruneExpired_def intro!: genuine_on_disk genuine_filter)
next
  case (clear now st ps sid)
  then show ?case using hot_clear by (simp add: clear_hot_state_def state_genuine_def)
qed (simp_all add: state_genuine_def)

section \<open>Owners, readers and retention\<close>

definition live_at :: "signature_state \<Rightarrow> nat \<Rightarrow> string \<Rightarrow> bool" where
  "live_at st i p \<longleftrightarrow> i < length (ps_locations st) \<and> \<not> loc_disposed (ps_locations st ! i)
     \<and> loc_consumer (ps_locations st ! i) \<noteq> None \<and> loc_path (ps_locations st ! i) = Some p"

definition owner_at :: "signature_state \<Rightarrow> nat \<Rightarrow> string \<Rightarrow> bool" where
  "owner_at st i p \<longleftrightarrow> live_at st i p \<and> loc_owns (ps_locations st ! i)"

definition reader_at :: "signature_state \<Rightarrow> nat \<Rightarrow> string \<Rightarrow> bool" where
  "reader_at st i p \<longleftrightarrow> live_at st i p \<and> \<not> loc_owns (ps_locations st ! i)"

text \<open>The table of caches and the readers of a path are those of the live locations.\<close>

definition book_at :: "signature_state \<Rightarrow> string \<Rightarrow> bool" where
  "book_at st p \<longleftrightarrow>
     (case map_of (ps_disks st) p of
        None \<Rightarrow> \<forall>i. \<not> owner_at st i p
      | Some sh \<Rightarrow> sh_owners sh \<noteq> [] \<and> sc_enabled (sh_cache sh) \<and> (\<forall>i. i \<in> set (sh_owners sh) \<longleftrightarrow> owner_at st i p))
     \<and> (\<forall>i. i \<in> set (nullish (map_of (ps_readers st) p) []) \<longleftrightarrow> reader_at st i p)"

text \<open>No live location needs entries for longer than the cache keeps them.\<close>

definition retained_at :: "signature_state \<Rightarrow> string \<Rightarrow> bool" where
  "retained_at st p \<longleftrightarrow>
     (\<forall>sh i. map_of (ps_disks st) p = Some sh \<longrightarrow> live_at st i p \<longrightarrow>
        dc_memoryTtlMs (consumer_of st i) \<le> sc_retentionMemoryTtlMs (sh_cache sh)
        \<and> dc_diskTtlMs (consumer_of st i) \<le> sc_retentionDiskTtlMs (sh_cache sh))"

definition book :: "signature_state \<Rightarrow> bool" where
  "book st \<longleftrightarrow> (\<forall>p. book_at st p \<and> retained_at st p)"

lemma foldl_max: "t \<le> foldl (\<lambda>t c. max t (f c)) t cs \<and> (\<forall>c \<in> set cs. f c \<le> foldl (\<lambda>t c. max t (f c)) t cs)" for t :: rat
proof (induction cs arbitrary: t)
  case (Cons c cs)
  show ?case using Cons.IH [of "max t (f c)"] by auto
qed simp

lemma aggregate_ge:
  "c \<in> set (owners @ readers) \<Longrightarrow> dc_memoryTtlMs c \<le> rt_memoryTtlMs (aggregateRetention owners readers)"
  "c \<in> set (owners @ readers) \<Longrightarrow> dc_diskTtlMs c \<le> rt_diskTtlMs (aggregateRetention owners readers)"
  using foldl_max [of 0 dc_memoryTtlMs "owners @ readers"] foldl_max [of 0 dc_diskTtlMs "owners @ readers"]
  by (simp_all add: aggregateRetention_def)

lemma loaded_fields [simp]:
  "sc_enabled (loadFromDisk fl now c) = sc_enabled c"
  "sc_retentionMemoryTtlMs (loadFromDisk fl now c) = sc_retentionMemoryTtlMs c"
  "sc_retentionDiskTtlMs (loadFromDisk fl now c) = sc_retentionDiskTtlMs c"
  by (simp_all add: loadFromDisk_def split: cache_file.split option.split)

lemma set_retention_fields [simp]:
  "sc_enabled (setRetention r fl now c) = sc_enabled c"
  "sc_retentionMemoryTtlMs (setRetention r fl now c) = rt_memoryTtlMs r"
  "sc_retentionDiskTtlMs (setRetention r fl now c) = rt_diskTtlMs r"
  by (simp_all add: setRetention_def startWriteTimer_def Let_def)

text \<open>Changes of a cache that keep its policy.\<close>

definition same_policy :: "SignatureCache \<Rightarrow> SignatureCache \<Rightarrow> bool" where
  "same_policy c c' \<longleftrightarrow> sc_enabled c' = sc_enabled c \<and> sc_retentionMemoryTtlMs c' = sc_retentionMemoryTtlMs c
     \<and> sc_retentionDiskTtlMs c' = sc_retentionDiskTtlMs c"

lemma policies [simp]:
  "same_policy c (sc_store k v now c)" "same_policy c (pruneExpired now c)" "same_policy c (snd (sc_retrieve k ttl now c))"
  "same_policy c (fst (write_tick written fl now c))"
  by (auto simp: same_policy_def sc_store_def pruneExpired_def sc_retrieve_def deleteIfPastRetention_def write_tick_def saveToDisk_def
      Let_def split: option.split)

lemma live_cong: "ps_locations st' = ps_locations st \<Longrightarrow> live_at st' i p = live_at st i p"
  by (simp add: live_at_def)

lemma book_frame:
  assumes "book st" "ps_locations st' = ps_locations st" "ps_readers st' = ps_readers st"
    and "\<And>p. rel_option (\<lambda>sh sh'. sh_owners sh' = sh_owners sh \<and> same_policy (sh_cache sh) (sh_cache sh')) (map_of (ps_disks st) p) (map_of (ps_disks st') p)"
  shows "book st'"
proof -
  have l: "live_at st' = live_at st" "owner_at st' = owner_at st" "reader_at st' = reader_at st" "consumer_of st' = consumer_of st"
    using assms(2) by (auto simp: fun_eq_iff live_at_def owner_at_def reader_at_def consumer_of_def)
  have "book_at st' p \<and> retained_at st' p" for p
    using assms(1) assms(4) [of p] assms(3)
    by (cases "map_of (ps_disks st) p"; cases "map_of (ps_disks st') p")
      (auto simp: book_def book_at_def retained_at_def l same_policy_def dest: spec [of _ p])
  then show ?thesis by (simp add: book_def)
qed

lemma book_disk:
  assumes "book st" "map_of (ps_disks st) p = Some sh" "same_policy (sh_cache sh) c"
    and "ps_locations st' = ps_locations st" "ps_readers st' = ps_readers st"
    and "ps_disks st' = AList.update p (sh\<lparr>sh_cache := c\<rparr>) (ps_disks st)"
  shows "book st'"
  by (rule book_frame [OF assms(1,4,5)])
    (use assms(2,3) in \<open>auto simp: assms(6) update_conv same_policy_def option.rel_refl intro: option.rel_refl\<close>)

lemma book_on_disk: "book st \<Longrightarrow> (\<And>c. same_policy c (f c)) \<Longrightarrow> book (on_disk p f st)"
  by (cases "map_of (ps_disks st) p") (auto simp: on_disk_def intro!: book_disk [of st p])

text \<open>Recomputing the retention of a path establishes it there and keeps it elsewhere.\<close>

lemma update_retention_fields [simp]:
  "ps_locations (updateRetention p now st) = ps_locations st" "ps_readers (updateRetention p now st) = ps_readers st"
  "ps_hot (updateRetention p now st) = ps_hot st" "ps_files (updateRetention p now st) = ps_files st"
  by (simp_all add: updateRetention_def Let_def split: option.split)

lemma update_retention_disks:
  "map_of (ps_disks (updateRetention p now st)) q =
     (if q = p then map_option (\<lambda>sh. sh\<lparr>sh_cache := setRetention (aggregateRetention (map (consumer_of st) (sh_owners sh))
          (map (consumer_of st) (nullish (map_of (ps_readers st) p) []))) (ps_files st p) now (sh_cache sh)\<rparr>) (map_of (ps_disks st) p)
      else map_of (ps_disks st) q)"
  by (simp add: updateRetention_def Let_def update_conv split: option.split)

lemma book_update_retention:
  assumes "\<And>q. book_at st q" "\<And>q. q \<noteq> p \<Longrightarrow> retained_at st q"
  shows "book (updateRetention p now st)"
proof -
  let ?st = "updateRetention p now st"
  have l: "live_at ?st = live_at st" "owner_at ?st = owner_at st" "reader_at ?st = reader_at st" "consumer_of ?st = consumer_of st"
    by (auto simp: fun_eq_iff live_at_def owner_at_def reader_at_def consumer_of_def)
  have "book_at ?st q" for q
    using assms(1) [of q] by (auto simp: book_at_def l update_retention_disks split: option.splits)
  moreover have "retained_at ?st q" if "q \<noteq> p" for q
    using assms(2) [OF that] that by (auto simp: retained_at_def l update_retention_disks)
  moreover have "retained_at ?st p"
  proof -
    have "consumer_of st i \<in> set (map (consumer_of st) (sh_owners sh) @ map (consumer_of st) (nullish (map_of (ps_readers st) p) []))"
      if "map_of (ps_disks st) p = Some sh" "live_at st i p" for sh i
      using assms(1) [of p] that by (auto simp: book_at_def owner_at_def reader_at_def)
    then show ?thesis using aggregate_ge by (fastforce simp: retained_at_def l update_retention_disks)
  qed
  ultimately show ?thesis by (metis book_def)
qed

lemma book_recomputed:
  "st' = updateRetention p now st \<Longrightarrow> book_at st p \<Longrightarrow> (\<And>q. q \<noteq> p \<Longrightarrow> book_at st q \<and> retained_at st q) \<Longrightarrow> book st'"
  using book_update_retention [of st p now] by metis

text \<open>Joining and leaving.\<close>

lemma appended_at:
  assumes "ps_locations st' = ps_locations st @ [l]"
  shows "live_at st' j q \<longleftrightarrow> live_at st j q
       \<or> j = length (ps_locations st) \<and> \<not> loc_disposed l \<and> loc_consumer l \<noteq> None \<and> loc_path l = Some q"
    and "owner_at st' j q \<longleftrightarrow> owner_at st j q
       \<or> j = length (ps_locations st) \<and> \<not> loc_disposed l \<and> loc_consumer l \<noteq> None \<and> loc_path l = Some q \<and> loc_owns l"
    and "reader_at st' j q \<longleftrightarrow> reader_at st j q
       \<or> j = length (ps_locations st) \<and> \<not> loc_disposed l \<and> loc_consumer l \<noteq> None \<and> loc_path l = Some q \<and> \<not> loc_owns l"
    and "j < length (ps_locations st) \<Longrightarrow> consumer_of st' j = consumer_of st j"
  by (auto simp: assms owner_at_def reader_at_def live_at_def nth_append consumer_of_def)

lemma book_acquire:
  assumes "book st"
  shows "book (snd (acquireLocation canonical defaultPath opts now st))"
proof -
  let ?i = "length (ps_locations st)"
  define consumer where "consumer = disk_consumer (lo_signatureCache opts)"
  define path where "path = (case consumer of None \<Rightarrow> None | Some c \<Rightarrow> Some (canonical (nullish (lo_cacheFilePath opts) defaultPath)))"
  define l where "l = \<lparr>loc_keepThinking = lo_keepThinking opts, loc_consumer = consumer, loc_path = path,
    loc_owns = (consumer \<noteq> None \<and> lo_keepThinking opts), loc_disposed = False\<rparr>"
  define ext where "ext d r = st\<lparr>ps_locations := ps_locations st @ [l], ps_disks := d, ps_readers := r\<rparr>" for d r
  have ext: "ps_locations (ext d r) = ps_locations st @ [l]" "ps_disks (ext d r) = d" "ps_readers (ext d r) = r" for d r
    by (simp_all add: ext_def)
  note appended = appended_at [OF ext(1)]
  have fresh: "\<not> live_at st ?i q" "\<not> owner_at st ?i q" "\<not> reader_at st ?i q" for q
    by (simp_all add: live_at_def owner_at_def reader_at_def)
  have other: "book_at (ext d r) q \<and> retained_at (ext d r) q"
    if "path \<noteq> Some q" "map_of d q = map_of (ps_disks st) q" "map_of r q = map_of (ps_readers st) q" for d r q
  proof -
    have "book_at (ext d r) q"
      using assms that by (auto simp: book_def book_at_def appended l_def ext split: option.split dest: spec [of _ q])
    moreover have "retained_at (ext d r) q"
      unfolding retained_at_def
    proof (intro allI impI)
      fix sh j
      assume sh: "map_of (ps_disks (ext d r)) q = Some sh" and j: "live_at (ext d r) j q"
      have "live_at st j q" using j that(1) by (simp add: appended(1) l_def)
      moreover then have "consumer_of (ext d r) j = consumer_of st j" by (simp add: appended(4) live_at_def)
      moreover have "retained_at st q" using assms by (simp add: book_def)
      ultimately show "dc_memoryTtlMs (consumer_of (ext d r) j) \<le> sc_retentionMemoryTtlMs (sh_cache sh)
          \<and> dc_diskTtlMs (consumer_of (ext d r) j) \<le> sc_retentionDiskTtlMs (sh_cache sh)"
        using sh that(2) by (simp add: retained_at_def ext)
    qed
    ultimately show ?thesis by simp
  qed
  have none: ?thesis if "path = None" "snd (acquireLocation canonical defaultPath opts now st) = ext (ps_disks st) (ps_readers st)"
  proof -
    have "book_at (ext (ps_disks st) (ps_readers st)) q \<and> retained_at (ext (ps_disks st) (ps_readers st)) q" for q
      by (rule other) (simp_all add: that(1))
    then show ?thesis unfolding that(2) book_def by blast
  qed
  show ?thesis
  proof (cases "lo_signatureCache opts")
    case None
    then have "consumer = None" "path = None" by (simp_all add: consumer_def path_def disk_consumer_def)
    moreover then have "snd (acquireLocation canonical defaultPath opts now st) = ext (ps_disks st) (ps_readers st)"
      by (simp add: acquireLocation_def Let_def None disk_consumer_def l_def ext_def)
    ultimately show ?thesis using none by blast
  next
    case (Some cfg)
    show ?thesis
    proof (cases path)
      case None
      have "snd (acquireLocation canonical defaultPath opts now st) = ext (ps_disks st) (ps_readers st)"
        using None by (simp add: acquireLocation_def Let_def l_def consumer_def path_def ext_def split: option.splits)
      then show ?thesis using none None by blast
    next
      case p: (Some p)
      then have c: "consumer \<noteq> None" "cfg_enabled cfg" using Some by (auto simp: path_def consumer_def disk_consumer_def split: option.splits if_splits)
      have at: "owner_at (ext d r) j q \<longleftrightarrow> owner_at st j q \<or> j = ?i \<and> q = p \<and> lo_keepThinking opts"
        "reader_at (ext d r) j q \<longleftrightarrow> reader_at st j q \<or> j = ?i \<and> q = p \<and> \<not> lo_keepThinking opts" for d r j q
        using c by (auto simp: appended l_def ext p)
      have bk: "book_at st p" using assms by (simp add: book_def)
      show ?thesis
      proof (cases "lo_keepThinking opts")
        case True
        define sh where "sh = (case map_of (ps_disks st) p of
            Some sh \<Rightarrow> sh | None \<Rightarrow> \<lparr>sh_cache = newSignatureCache cfg (ps_files st p) now, sh_owners = []\<rparr>)"
        let ?d = "AList.update p (sh\<lparr>sh_owners := sh_owners sh @ [?i]\<rparr>) (ps_disks st)"
        have r: "snd (acquireLocation canonical defaultPath opts now st) = updateRetention p now (ext ?d (ps_readers st))"
          using Some p True by (simp add: acquireLocation_def acquireDisk_def Let_def l_def consumer_def path_def sh_def ext_def split: option.splits)
        have "sc_enabled (newSignatureCache cfg fl now)" for fl
          using c by (simp add: newSignatureCache_def startBackgroundTasks_def startWriteTimer_def Let_def)
        then have "book_at (ext ?d (ps_readers st)) p"
          using bk True by (auto simp: book_at_def at ext sh_def update_conv split: option.splits)
        moreover have "book_at (ext ?d (ps_readers st)) q" "retained_at (ext ?d (ps_readers st)) q" if "q \<noteq> p" for q
          using other [of q ?d "ps_readers st"] that p by (simp_all add: update_conv)
        ultimately show ?thesis unfolding r by (intro book_update_retention) metis+
      next
        case False
        let ?r = "AList.update p (nullish (map_of (ps_readers st) p) [] @ [?i]) (ps_readers st)"
        have r: "snd (acquireLocation canonical defaultPath opts now st) = updateRetention p now (ext (ps_disks st) ?r)"
          using Some p False by (simp add: acquireLocation_def Let_def l_def consumer_def path_def ext_def split: option.splits)
        have "book_at (ext (ps_disks st) ?r) p"
          using bk False by (auto simp: book_at_def at ext update_conv split: option.splits)
        moreover have "book_at (ext (ps_disks st) ?r) q" "retained_at (ext (ps_disks st) ?r) q" if "q \<noteq> p" for q
          using other [of q "ps_disks st" ?r] that p by (simp_all add: update_conv)
        ultimately show ?thesis unfolding r by (intro book_update_retention) metis+
      qed
    qed
  qed
qed

lemma disposed_at:
  assumes "ps_locations st' = (ps_locations st)[i := (ps_locations st ! i)\<lparr>loc_disposed := True\<rparr>]" "i < length (ps_locations st)"
  shows "live_at st' j q \<longleftrightarrow> live_at st j q \<and> j \<noteq> i" "owner_at st' j q \<longleftrightarrow> owner_at st j q \<and> j \<noteq> i"
    "reader_at st' j q \<longleftrightarrow> reader_at st j q \<and> j \<noteq> i" "consumer_of st' j = consumer_of st j"
  using assms by (auto simp: live_at_def owner_at_def reader_at_def consumer_of_def nth_list_update)

lemma book_dispose:
  assumes "book st" "i < length (ps_locations st)" "location_dispose written i now st = (st', pending)"
  shows "book st'"
proof (cases "loc_disposed (ps_locations st ! i)")
  case True
  then show ?thesis using assms by (simp add: location_dispose_def)
next
  case False
  let ?l = "ps_locations st ! i"
  define st1 where "st1 = st\<lparr>ps_locations := (ps_locations st)[i := ?l\<lparr>loc_disposed := True\<rparr>]\<rparr>"
  have st1: "ps_disks st1 = ps_disks st" "ps_readers st1 = ps_readers st" "ps_files st1 = ps_files st"
    "ps_locations st1 = (ps_locations st)[i := ?l\<lparr>loc_disposed := True\<rparr>]" by (simp_all add: st1_def)
  have bk: "book_at st q" "retained_at st q" for q using assms(1) by (simp_all add: book_def)
  have away: "\<not> live_at st i q" if "loc_consumer ?l = None \<or> loc_path ?l \<noteq> Some q" for q using that by (auto simp: live_at_def)
  have other: "book_at st2 q \<and> retained_at st2 q"
    if "ps_locations st2 = ps_locations st1" "\<not> live_at st i q" "map_of (ps_disks st2) q = map_of (ps_disks st) q"
      "map_of (ps_readers st2) q = map_of (ps_readers st) q" for st2 q
  proof -
    note at = disposed_at [OF _ assms(2), of st2]
    have "owner_at st2 j q \<longleftrightarrow> owner_at st j q" "reader_at st2 j q \<longleftrightarrow> reader_at st j q" "live_at st2 j q \<longleftrightarrow> live_at st j q"
      "consumer_of st2 j = consumer_of st j" for j
      using at that(1,2) by (auto simp: st1 owner_at_def reader_at_def)
    then show ?thesis using bk [of q] that(3,4) by (auto simp: book_at_def retained_at_def split: option.splits)
  qed
  show ?thesis
  proof (cases "loc_consumer ?l = None \<or> loc_path ?l = None")
    case True
    then have "st' = st1" using assms(3) False by (auto simp: location_dispose_def st1_def Let_def split: option.splits)
    moreover have "\<not> live_at st i q" for q using True by (auto simp: live_at_def)
    ultimately show ?thesis using other [of st1] by (simp add: book_def st1)
  next
    case c: False
    then obtain consumer p where p: "loc_consumer ?l = Some consumer" "loc_path ?l = Some p" by auto
    have elsewhere: "\<not> live_at st i q" if "q \<noteq> p" for q using that p by (auto simp: live_at_def)
    note at = disposed_at [OF _ assms(2)]
    show ?thesis
    proof (cases "loc_owns ?l")
      case True
      have own: "owner_at st i p" "\<not> reader_at st i p" using True False p assms(2) by (simp_all add: owner_at_def reader_at_def live_at_def)
      then obtain sh where sh: "map_of (ps_disks st) p = Some sh" "\<And>j. j \<in> set (sh_owners sh) \<longleftrightarrow> owner_at st j p" "sc_enabled (sh_cache sh)"
        using bk(1) [of p] by (auto simp: book_at_def split: option.splits)
      let ?os = "filter (\<lambda>j. j \<noteq> i) (sh_owners sh)"
      have rel: "releaseDisk written p i now st1 = (st', pending)"
        using assms(3) False p True by (simp add: location_dispose_def st1_def Let_def)
      show ?thesis
      proof (cases "?os = []")
        case False
        define st2 where "st2 = st1\<lparr>ps_disks := AList.update p (sh\<lparr>sh_owners := ?os\<rparr>) (ps_disks st)\<rparr>"
        have st2: "ps_locations st2 = ps_locations st1" "ps_readers st2 = ps_readers st"
          "map_of (ps_disks st2) q = (if q = p then Some (sh\<lparr>sh_owners := ?os\<rparr>) else map_of (ps_disks st) q)" for q
          by (simp_all add: st2_def st1 update_conv)
        have upd: "st' = updateRetention p now st2"
          using rel sh(1) False by (simp add: releaseDisk_def st1 Let_def st2_def)
        have here: "book_at st2 p"
        proof -
          have "owner_at st2 j p \<longleftrightarrow> owner_at st j p \<and> j \<noteq> i" "reader_at st2 j p \<longleftrightarrow> reader_at st j p" for j
            using at(1-3) [of st2 j p] own(2) by (auto simp: st2 st1)
          then show ?thesis using bk(1) [of p] sh False unfolding book_at_def st2 by simp
        qed
        show ?thesis
        proof (rule book_recomputed [OF upd here])
          fix q assume q: "q \<noteq> p"
          have m: "map_of (ps_disks st2) q = map_of (ps_disks st) q" using q st2(3) [of q] by presburger
          have r: "map_of (ps_readers st2) q = map_of (ps_readers st) q" by (simp only: st2(2))
          show "book_at st2 q \<and> retained_at st2 q" by (rule other [OF st2(1) elsewhere [OF q] m r])
        qed
      next
        case True
        have gone: "owner_at st j p \<longleftrightarrow> j = i" for j
          using True sh(2) [of j] own(1) unfolding filter_empty_conv by blast
        obtain fl where st': "st' = st1\<lparr>ps_disks := AList.delete p (ps_disks st), ps_files := fl\<rparr>"
          using rel sh(1) True by (auto simp: releaseDisk_def st1 Let_def split: prod.splits)
        have l: "ps_locations st' = ps_locations st1" by (simp add: st')
        have "\<not> owner_at st' j p" "reader_at st' j p \<longleftrightarrow> reader_at st j p" for j
          using at(1-3) [of st' j p] gone own(2) by (auto simp: st' st1)
        moreover have "map_of (ps_disks st') p = None" "ps_readers st' = ps_readers st" by (simp_all add: st' st1 delete_conv')
        ultimately have "book_at st' p" "retained_at st' p"
          using bk(1) [of p] by (simp_all add: book_at_def retained_at_def)
        moreover have "book_at st' q \<and> retained_at st' q" if "q \<noteq> p" for q
          using other [of st' q] that elsewhere l by (simp add: st' st1 delete_conv')
        ultimately show ?thesis by (metis book_def)
      qed
    next
      case nown: False
      have own: "reader_at st i p" "\<not> owner_at st i p" using nown False p assms(2) by (simp_all add: owner_at_def reader_at_def live_at_def)
      let ?o = "filter (\<lambda>j. j \<noteq> i) (nullish (map_of (ps_readers st) p) [])"
      define st2 where "st2 = st1\<lparr>ps_readers := (if ?o = [] then AList.delete p (ps_readers st) else AList.update p ?o (ps_readers st))\<rparr>"
      have st2: "ps_locations st2 = ps_locations st1" "ps_disks st2 = ps_disks st"
        "nullish (map_of (ps_readers st2) p) [] = ?o" "q \<noteq> p \<Longrightarrow> map_of (ps_readers st2) q = map_of (ps_readers st) q" for q
        by (simp_all add: st2_def st1 update_conv delete_conv' nullish_def)
      have upd: "st' = updateRetention p now st2"
        using assms(3) False p nown
        by (simp add: location_dispose_def st1_def Let_def st2_def cong: if_cong)
      have here: "book_at st2 p"
      proof -
        have "owner_at st2 j p \<longleftrightarrow> owner_at st j p" "reader_at st2 j p \<longleftrightarrow> reader_at st j p \<and> j \<noteq> i" for j
          using at(1-3) [of st2 j p] own(2) by (auto simp: st2 st1)
        then show ?thesis using bk(1) [of p] unfolding book_at_def st2(2,3) by (simp split: option.splits)
      qed
      show ?thesis
      proof (rule book_recomputed [OF upd here])
        fix q assume q: "q \<noteq> p"
        have d: "map_of (ps_disks st2) q = map_of (ps_disks st) q" by (simp only: st2(2))
        show "book_at st2 q \<and> retained_at st2 q" by (rule other [OF st2(1) elsewhere [OF q] d st2(4) [OF q]])
      qed
    qed
  qed
qed

lemma book_same: "book st \<Longrightarrow> ps_locations st' = ps_locations st \<Longrightarrow> ps_readers st' = ps_readers st \<Longrightarrow> ps_disks st' = ps_disks st \<Longrightarrow> book st'"
  by (rule book_frame) (auto simp: same_policy_def intro: option.rel_refl)

lemma book_get:
  assumes "book st"
  shows "book (snd (location_getCachedSignature hashText i sid t now st))"
proof -
  obtain hr hot where h: "readHot sid (hashText t) now (ps_hot st) = (hr, hot)" by fastforce
  have "book (st\<lparr>ps_hot := hot\<rparr>)" by (rule book_same [OF assms]) simp_all
  moreover have "book (st\<lparr>ps_hot := hot', ps_disks := AList.update p (sh\<lparr>sh_cache := c\<rparr>) (ps_disks st)\<rparr>)"
    "book (st\<lparr>ps_disks := AList.update p (sh\<lparr>sh_cache := c\<rparr>) (ps_disks st), ps_hot := hot'\<rparr>)"
    if "map_of (ps_disks st) p = Some sh" "sc_retrieve k ttl now (sh_cache sh) = (r, c)" for hot' p sh k ttl r c
  proof -
    have "same_policy (sh_cache sh) c" using policies(3) [of "sh_cache sh" k ttl now] that(2) by simp
    from book_disk [OF assms that(1) this]
    show "book (st\<lparr>ps_hot := hot', ps_disks := AList.update p (sh\<lparr>sh_cache := c\<rparr>) (ps_disks st)\<rparr>)"
      "book (st\<lparr>ps_disks := AList.update p (sh\<lparr>sh_cache := c\<rparr>) (ps_disks st), ps_hot := hot'\<rparr>)" by simp_all
  qed
  ultimately show ?thesis using assms
    by (auto simp: location_getCachedSignature_def Let_def h split: option.split prod.split)
qed

lemma book_reach: "sig_reach g hashText now st ps \<Longrightarrow> book st"
proof (induction rule: sig_reach.induct)
  case (start fs now)
  then show ?case by (simp add: book_def book_at_def retained_at_def initial_state_def owner_at_def reader_at_def live_at_def)
next
  case (acquire now st ps canonical defaultPath opts)
  then show ?case by (simp add: book_acquire)
next
  case (record_signature now st ps i sid t sig)
  then show ?case by (auto simp: location_cacheSignature_def Let_def intro!: book_on_disk intro: book_same split: option.split bool.split)
next
  case (lookup now st ps i sid t)
  then show ?case by (simp add: book_get)
next
  case (dispose now st ps i written st' pending)
  then show ?case by (blast intro: book_dispose)
next
  case (shut now st ps p qs written)
  then show ?case by (auto simp: finish_release_def split: prod.split intro: book_same)
next
  case (tick now st ps path sh written c fl)
  have "same_policy (sh_cache sh) c" using policies(4) [of "sh_cache sh" written "ps_files st path" now] tick.hyps(3) by simp
  then show ?case using tick by (intro book_disk [OF tick.IH tick.hyps(2)]) simp_all
next
  case (prune now st ps path)
  then show ?case by (simp add: book_on_disk)
next
  case (clear now st ps sid)
  then show ?case by (auto simp: clear_hot_state_def intro: book_same)
next
  case (other_process now st ps fl path)
  then show ?case by (auto intro: book_same)
qed

end
