(* ===== verification/Signature_Properties.thy ===== *)
theory Signature_Properties
  imports Signature_Facts
begin

text \<open>
  The properties of the signature cache: what a lookup may return, how long a shared cache lives and keeps its
  entries, that locations do not hide entries from each other, the round trip through the file, the bounds of
  the hot map.
\<close>

section \<open>The outcome of a lookup\<close>

definition hot_value :: "hot_map \<Rightarrow> string \<Rightarrow> string \<Rightarrow> millis \<Rightarrow> string option" where
  "hot_value hot sid h now = fst (readHot sid h now hot)"

definition stored_value :: "SignatureCache \<Rightarrow> string \<Rightarrow> millis \<Rightarrow> millis \<Rightarrow> string option" where
  "stored_value c key ttl now = (case fst (sc_retrieve key ttl now c) of None \<Rightarrow> None | Some v \<Rightarrow> if v = [] then None else Some v)"

definition disk_value :: "signature_state \<Rightarrow> nat \<Rightarrow> string \<Rightarrow> millis \<Rightarrow> string option" where
  "disk_value st i key now =
     (case (loc_consumer (ps_locations st ! i), loc_path (ps_locations st ! i)) of
        (Some consumer, Some p) \<Rightarrow>
          (case map_of (ps_disks st) p of
             None \<Rightarrow> None
           | Some sh \<Rightarrow> stored_value (sh_cache sh) key (dc_memoryTtlMs consumer) now)
      | _ \<Rightarrow> None)"

lemma lookup_result:
  "fst (location_getCachedSignature hashText i sid t now st) =
     (if loc_disposed (ps_locations st ! i) \<or> sid = [] \<or> t = [] then None
      else case hot_value (ps_hot st) sid (hashText t) now of
             Some v \<Rightarrow> Some v
           | None \<Rightarrow> disk_value st i (makeDiskKey sid (hashText t)) now)"
proof -
  obtain r hot where h: "readHot sid (hashText t) now (ps_hot st) = (r, hot)" by fastforce
  show ?thesis
    by (auto simp: location_getCachedSignature_def hot_value_def disk_value_def stored_value_def Let_def h
        split: option.split prod.split)
qed

lemma stored_value_iff:
  "stored_value c key ttl now = Some v \<longleftrightarrow>
     sc_enabled c \<and> (\<exists>e. map_of (sc_cache c) key = Some e \<and> now - ce_timestamp e \<le> ttl \<and> ce_value e = v \<and> v \<noteq> [])"
  by (auto simp: stored_value_def sc_retrieve_def Let_def split: option.split)

lemma disk_value_live:
  assumes "disk_value st i key now = Some v" "i < length (ps_locations st)" "\<not> loc_disposed (ps_locations st ! i)"
  obtains p sh e where "live_at st i p" "map_of (ps_disks st) p = Some sh" "sc_enabled (sh_cache sh)"
    "map_of (sc_cache (sh_cache sh)) key = Some e" "now - ce_timestamp e \<le> dc_memoryTtlMs (consumer_of st i)"
    "ce_value e = v" "v \<noteq> []"
  using assms
  by (auto simp: disk_value_def stored_value_iff live_at_def consumer_of_def nullish_def split: option.splits)

lemma disk_value_found:
  assumes "live_at st i p" "map_of (ps_disks st) p = Some sh" "sc_enabled (sh_cache sh)"
    "map_of (sc_cache (sh_cache sh)) key = Some e" "now - ce_timestamp e \<le> dc_memoryTtlMs (consumer_of st i)" "ce_value e \<noteq> []"
  shows "disk_value st i key now = Some (ce_value e)"
  using assms by (auto simp: disk_value_def stored_value_iff live_at_def consumer_of_def nullish_def)

lemma loaded_keeps: "map_of m key = Some e \<Longrightarrow> map_of (fold (load_entry now ttl) kvs m) key = Some e"
proof (induction kvs arbitrary: m)
  case (Cons kv kvs)
  have "map_of (load_entry now ttl kv m) key = Some e"
    using Cons.prems by (auto simp: load_entry_def update_conv' jm_has_def split: prod.split)
  then show ?case by (simp add: Cons.IH)
qed simp

lemma load_keeps: "map_of (sc_cache c) key = Some e \<Longrightarrow> map_of (sc_cache (loadFromDisk fl now c)) key = Some e"
  by (simp add: loadFromDisk_def loaded_keeps split: cache_file.split option.split)

lemma retention_keeps: "map_of (sc_cache c) key = Some e \<Longrightarrow> map_of (sc_cache (setRetention r fl now c)) key = Some e"
  by (simp add: setRetention_def startWriteTimer_def Let_def load_keeps)

section \<open>What operations leave\<close>

text \<open>Within the retention of a cache, its entries stay.\<close>

definition cache_keeps :: "millis \<Rightarrow> SignatureCache \<Rightarrow> SignatureCache \<Rightarrow> bool" where
  "cache_keeps now c c' \<longleftrightarrow> sc_enabled c' = sc_enabled c \<and>
     (\<forall>k e. map_of (sc_cache c) k = Some e \<longrightarrow> now - ce_timestamp e \<le> sc_retentionMemoryTtlMs c \<longrightarrow> map_of (sc_cache c') k = Some e)"

lemma cache_keeps_refl [simp]: "cache_keeps now c c"
  by (simp add: cache_keeps_def)

lemma keeps_retrieve: "cache_keeps now c (snd (sc_retrieve key ttl now c))"
  by (auto simp: cache_keeps_def sc_retrieve_def deleteIfPastRetention_def Let_def delete_conv' split: option.split)

lemma keeps_prune: "cache_keeps now c (pruneExpired now c)"
proof -
  have "map_of (filter (\<lambda>(k, e). P e) m) k = Some e" if "map_of m k = Some e" "P e" for P :: "CacheEntry \<Rightarrow> bool" and m k e
    using that by (induction m) (auto split: if_splits)
  then show ?thesis by (auto simp: cache_keeps_def pruneExpired_def)
qed

lemma keeps_tick: "cache_keeps now c (fst (write_tick written fl now c))"
  by (simp add: cache_keeps_def write_tick_def saveToDisk_def)

lemma keeps_retention: "cache_keeps now c (setRetention r fl now c)"
  by (simp add: cache_keeps_def retention_keeps)

definition disk_keeps :: "millis \<Rightarrow> string \<Rightarrow> signature_state \<Rightarrow> signature_state \<Rightarrow> bool" where
  "disk_keeps now p st st' \<longleftrightarrow>
     (\<forall>sh. map_of (ps_disks st) p = Some sh \<longrightarrow>
        (\<exists>sh'. map_of (ps_disks st') p = Some sh' \<and> cache_keeps now (sh_cache sh) (sh_cache sh')))"

lemma disk_value_kept:
  assumes "book st" "j < length (ps_locations st)" "\<not> loc_disposed (ps_locations st ! j)"
    "ps_locations st' ! j = ps_locations st ! j" "j < length (ps_locations st')" "\<And>p. live_at st j p \<Longrightarrow> disk_keeps now p st st'"
    "disk_value st j key now = Some v"
  shows "disk_value st' j key now = Some v"
proof -
  obtain p sh e where p: "live_at st j p" "map_of (ps_disks st) p = Some sh" "sc_enabled (sh_cache sh)"
    "map_of (sc_cache (sh_cache sh)) key = Some e" "now - ce_timestamp e \<le> dc_memoryTtlMs (consumer_of st j)" "ce_value e = v" "v \<noteq> []"
    using disk_value_live [OF assms(7,2,3)] .
  have "dc_memoryTtlMs (consumer_of st j) \<le> sc_retentionMemoryTtlMs (sh_cache sh)"
    using assms(1) p(1,2) by (simp add: book_def retained_at_def)
  then have "now - ce_timestamp e \<le> sc_retentionMemoryTtlMs (sh_cache sh)" using p(5) by linarith
  moreover obtain sh' where sh': "map_of (ps_disks st') p = Some sh'" "cache_keeps now (sh_cache sh) (sh_cache sh')"
    using assms(6) [OF p(1)] p(2) by (auto simp: disk_keeps_def)
  ultimately have e: "map_of (sc_cache (sh_cache sh')) key = Some e" "sc_enabled (sh_cache sh')"
    using p(3,4) by (simp_all add: cache_keeps_def)
  have l: "live_at st' j p" "consumer_of st' j = consumer_of st j" using p(1) assms(4,5) by (simp_all add: live_at_def consumer_of_def)
  show ?thesis using disk_value_found [OF l(1) sh'(1) e(2,1)] p l(2) by simp
qed

lemma disk_keeps_on_disk: "(\<And>c. cache_keeps now c (f c)) \<Longrightarrow> disk_keeps now p st (on_disk q f st)"
  by (auto simp: disk_keeps_def on_disk_def update_conv' split: option.split)

lemma disk_keeps_retention: "disk_keeps now p st (updateRetention q now st)"
  by (auto simp: disk_keeps_def update_retention_disks keeps_retention)

lemma disk_keeps_after:
  "disk_keeps now p st2 st3
     \<Longrightarrow> (\<And>sh. map_of (ps_disks st) p = Some sh \<Longrightarrow> \<exists>sh2. map_of (ps_disks st2) p = Some sh2 \<and> sh_cache sh2 = sh_cache sh)
     \<Longrightarrow> disk_keeps now p st st3"
  by (fastforce simp: disk_keeps_def)

lemma hot_value_read: "hot_value (snd (readHot sid' h' now hot)) sid h now = hot_value hot sid h now"
  by (auto simp: hot_value_def readHot_def update_conv' delete_conv' split: option.splits)

lemma hot_value_promote:
  "hot_value (promoteHot sid' h' v now hot) sid h now = (if sid = sid' \<and> h = h' then Some v else hot_value hot sid h now)"
  by (auto simp: hot_value_def readHot_def promoteHot_def update_conv' hot_expired_def SIGNATURE_CACHE_TTL_MS_def nullish_def
      split: option.splits)

lemma get_effects:
  fixes hashText i sid' t' now st
  defines "st' \<equiv> snd (location_getCachedSignature hashText i sid' t' now st)"
  shows "ps_locations st' = ps_locations st" "disk_keeps now p st st'"
    "hot_value (ps_hot st) sid h now = Some v \<Longrightarrow> hot_value (ps_hot st') sid h now \<noteq> None"
proof -
  obtain r hot where h: "readHot sid' (hashText t') now (ps_hot st) = (r, hot)" by fastforce
  have hot: "hot_value hot sid h now = hot_value (ps_hot st) sid h now"
    using hot_value_read [of sid' "hashText t'" now "ps_hot st"] h by simp
  have kept: "disk_keeps now p st (st\<lparr>ps_disks := AList.update q (sh\<lparr>sh_cache := c\<rparr>) (ps_disks st), ps_hot := x\<rparr>)"
    "disk_keeps now p st (st\<lparr>ps_hot := x, ps_disks := AList.update q (sh\<lparr>sh_cache := c\<rparr>) (ps_disks st)\<rparr>)"
    if "map_of (ps_disks st) q = Some sh" "sc_retrieve k ttl now (sh_cache sh) = (r', c)" for q sh k ttl r' c x
    using that keeps_retrieve [of now "sh_cache sh" k ttl] by (auto simp: disk_keeps_def update_conv')
  have same: "disk_keeps now p st (st\<lparr>ps_hot := x\<rparr>)" "disk_keeps now p st st" for x by (simp_all add: disk_keeps_def)
  show "ps_locations st' = ps_locations st" "disk_keeps now p st st'"
    "hot_value (ps_hot st) sid h now = Some v \<Longrightarrow> hot_value (ps_hot st') sid h now \<noteq> None"
    unfolding st'_def using kept same
    by (auto simp: location_getCachedSignature_def Let_def h hot hot_value_promote split: option.split prod.split)
qed

lemma found_kept:
  assumes "book st" "j < length (ps_locations st)" "fst (location_getCachedSignature hashText j sid t now st) \<noteq> None"
    and "ps_locations st' ! j = ps_locations st ! j" "j < length (ps_locations st')" "\<And>p. live_at st j p \<Longrightarrow> disk_keeps now p st st'"
    and "\<And>v. hot_value (ps_hot st) sid (hashText t) now = Some v \<Longrightarrow> hot_value (ps_hot st') sid (hashText t) now \<noteq> None"
  shows "fst (location_getCachedSignature hashText j sid t now st') \<noteq> None"
proof -
  have d: "disk_value st' j key now = Some v" if "disk_value st j key now = Some v" for key v
    using disk_value_kept [OF assms(1,2) _ assms(4,5,6) that] assms(3) by (auto simp: lookup_result split: if_splits)
  show ?thesis using assms(3,7) d unfolding lookup_result assms(4)
    by (cases "hot_value (ps_hot st) sid (hashText t) now"; cases "hot_value (ps_hot st') sid (hashText t) now")
      (auto split: if_splits)
qed

lemma acquire_effects:
  fixes canonical defaultPath opts now st
  defines "st' \<equiv> snd (acquireLocation canonical defaultPath opts now st)"
  shows "ps_hot st' = ps_hot st" "\<exists>l. ps_locations st' = ps_locations st @ [l]" "disk_keeps now p st st'"
proof -
  have disk: "disk_keeps now p st (acquireDisk q cfg i now st2)" "ps_locations (acquireDisk q cfg i now st2) = ps_locations st2"
      "ps_hot (acquireDisk q cfg i now st2) = ps_hot st2"
    if "ps_disks st2 = ps_disks st" for q cfg i st2
  proof -
    show "disk_keeps now p st (acquireDisk q cfg i now st2)"
      unfolding acquireDisk_def Let_def
      by (rule disk_keeps_after [OF disk_keeps_retention]) (auto simp: that update_conv' split: option.split)
  qed (simp_all add: acquireDisk_def Let_def)
  have ret: "disk_keeps now p st (updateRetention q now st2)" if "ps_disks st2 = ps_disks st" for q st2
    by (rule disk_keeps_after [OF disk_keeps_retention]) (simp add: that)
  have same: "disk_keeps now p st (st\<lparr>ps_locations := x\<rparr>)" for x by (simp add: disk_keeps_def)
  show "ps_hot st' = ps_hot st" "\<exists>l. ps_locations st' = ps_locations st @ [l]" "disk_keeps now p st st'"
    unfolding st'_def acquireLocation_def Let_def using disk ret same by (auto split: option.split)
qed

lemma release_effects:
  assumes "releaseDisk written q i now st = (st', None)"
  shows "ps_hot st' = ps_hot st" "ps_locations st' = ps_locations st" "disk_keeps now p st st'"
proof (atomize (full), cases "map_of (ps_disks st) q")
  case None
  then show "ps_hot st' = ps_hot st \<and> ps_locations st' = ps_locations st \<and> disk_keeps now p st st'"
    using assms by (simp add: releaseDisk_def disk_keeps_def)
next
  case (Some sh)
  let ?os = "filter (\<lambda>j. j \<noteq> i) (sh_owners sh)"
  have "st' = updateRetention q now (st\<lparr>ps_disks := AList.update q (sh\<lparr>sh_owners := ?os\<rparr>) (ps_disks st)\<rparr>)"
    using assms Some by (auto simp: releaseDisk_def Let_def split: if_splits prod.splits)
  moreover have "disk_keeps now p st (updateRetention q now (st\<lparr>ps_disks := AList.update q (sh\<lparr>sh_owners := ?os\<rparr>) (ps_disks st)\<rparr>))"
    by (rule disk_keeps_after [OF disk_keeps_retention]) (auto simp: Some update_conv')
  ultimately show "ps_hot st' = ps_hot st \<and> ps_locations st' = ps_locations st \<and> disk_keeps now p st st'" by simp
qed

lemma dispose_effects:
  assumes "location_dispose written i now st = (st', None)"
  shows "ps_hot st' = ps_hot st" "disk_keeps now p st st'" "length (ps_locations st') = length (ps_locations st)"
    "j \<noteq> i \<Longrightarrow> ps_locations st' ! j = ps_locations st ! j"
proof (atomize (full), cases "loc_disposed (ps_locations st ! i)")
  case True
  then show "(ps_hot st' = ps_hot st \<and> disk_keeps now p st st') \<and> length (ps_locations st') = length (ps_locations st)
      \<and> (j \<noteq> i \<longrightarrow> ps_locations st' ! j = ps_locations st ! j)"
    using assms by (simp add: location_dispose_def disk_keeps_def)
next
  case False
  define st1 where "st1 = st\<lparr>ps_locations := (ps_locations st)[i := (ps_locations st ! i)\<lparr>loc_disposed := True\<rparr>]\<rparr>"
  have st1: "ps_hot st1 = ps_hot st" "ps_disks st1 = ps_disks st" "length (ps_locations st1) = length (ps_locations st)"
    "j \<noteq> i \<Longrightarrow> ps_locations st1 ! j = ps_locations st ! j" by (simp_all add: st1_def)
  have "st' = st1 \<or> (\<exists>q. releaseDisk written q i now st1 = (st', None)) \<or> (\<exists>q r. st' = updateRetention q now (st1\<lparr>ps_readers := r\<rparr>))"
    using assms False by (auto simp: location_dispose_def st1_def Let_def split: if_splits option.splits)
  moreover have "disk_keeps now p st (updateRetention q now (st1\<lparr>ps_readers := r\<rparr>))" for q r
    by (rule disk_keeps_after [OF disk_keeps_retention]) (simp add: st1)
  moreover have "disk_keeps now p st st2" if "disk_keeps now p st1 st2" for st2
    by (rule disk_keeps_after [OF that]) (simp add: st1)
  ultimately show "(ps_hot st' = ps_hot st \<and> disk_keeps now p st st') \<and> length (ps_locations st') = length (ps_locations st)
      \<and> (j \<noteq> i \<longrightarrow> ps_locations st' ! j = ps_locations st ! j)"
    using release_effects [of written _ i now st1 st'] st1 by (auto simp: disk_keeps_def)
qed

section \<open>Invariants of every running cache\<close>

text \<open>What holds of a new cache and is kept by its operations holds of every cache of a reachable state.\<close>

locale cache_invariant =
  fixes I :: "SignatureCache \<Rightarrow> bool"
  assumes inv_new: "I (newSignatureCache config fl now)"
    and inv_retention: "I c \<Longrightarrow> I (setRetention r fl now c)"
    and inv_store: "I c \<Longrightarrow> I (sc_store k v now c)"
    and inv_retrieve: "I c \<Longrightarrow> I (snd (sc_retrieve k ttl now c))"
    and inv_tick: "I c \<Longrightarrow> I (fst (write_tick written fl now c))"
    and inv_prune: "I c \<Longrightarrow> I (pruneExpired now c)"
begin

definition all_caches :: "signature_state \<Rightarrow> bool" where
  "all_caches st \<longleftrightarrow> (\<forall>p sh. map_of (ps_disks st) p = Some sh \<longrightarrow> I (sh_cache sh))"

lemma all_update: "all_caches st \<Longrightarrow> I (sh_cache sh) \<Longrightarrow> ps_disks st' = AList.update p sh (ps_disks st) \<Longrightarrow> all_caches st'"
  by (auto simp: all_caches_def update_conv')

lemma all_frame: "all_caches st \<Longrightarrow> ps_disks st' = ps_disks st \<Longrightarrow> all_caches st'"
  by (simp add: all_caches_def)

lemma all_lookup: "all_caches st \<Longrightarrow> map_of (ps_disks st) p = Some sh \<Longrightarrow> I (sh_cache sh)"
  by (simp add: all_caches_def)

lemma all_retention: "all_caches st \<Longrightarrow> all_caches (updateRetention p now st)"
  by (auto simp: all_caches_def update_retention_disks inv_retention)

lemma all_on_disk: "all_caches st \<Longrightarrow> (\<And>c. I c \<Longrightarrow> I (f c)) \<Longrightarrow> all_caches (on_disk p f st)"
  by (auto simp: on_disk_def update_conv' all_caches_def split: option.split)

lemma all_acquire:
  assumes "all_caches st"
  shows "all_caches (snd (acquireLocation canonical defaultPath opts now st))"
proof -
  have disk: "all_caches (acquireDisk q cfg i now st2)" if "ps_disks st2 = ps_disks st" for q cfg i st2
    unfolding acquireDisk_def Let_def
    by (rule all_retention, rule all_update [OF assms, where p = q])
      (auto simp: that inv_new dest: all_lookup [OF assms] split: option.split)
  have ret: "all_caches (updateRetention q now st2)" if "ps_disks st2 = ps_disks st" for q st2
    by (rule all_retention, rule all_frame [OF assms that])
  show ?thesis unfolding acquireLocation_def Let_def
    using disk ret all_frame [OF assms] by (auto split: option.split)
qed

lemma all_dispose:
  assumes "all_caches st" "location_dispose written i now st = (st', pending)"
  shows "all_caches st'"
proof -
  let ?st = "st\<lparr>ps_locations := (ps_locations st)[i := (ps_locations st ! i)\<lparr>loc_disposed := True\<rparr>]\<rparr>"
  have ret: "all_caches (updateRetention q now st2)" if "ps_disks st2 = ps_disks st" for q st2
    by (rule all_retention, rule all_frame [OF assms(1) that])
  have rel: "all_caches st2" if r: "releaseDisk written q i now ?st = (st2, pd)" for q st2 pd
  proof (cases "map_of (ps_disks st) q")
    case (Some sh)
    have "all_caches (updateRetention q now (?st\<lparr>ps_disks := AList.update q (sh\<lparr>sh_owners := os\<rparr>) (ps_disks st)\<rparr>))" for os
      by (rule all_retention, rule all_update [OF assms(1)]) (simp_all add: all_lookup [OF assms(1) Some])
    moreover have "all_caches (?st\<lparr>ps_disks := AList.delete q (ps_disks st), ps_files := fl\<rparr>)" for fl
      using assms(1) by (auto simp: all_caches_def delete_conv')
    ultimately show ?thesis using r Some by (auto simp: releaseDisk_def Let_def split: if_splits prod.splits)
  qed (use r all_frame [OF assms(1)] in \<open>auto simp: releaseDisk_def\<close>)
  show ?thesis using assms(2) ret rel all_frame [OF assms(1)]
    by (auto simp: location_dispose_def Let_def split: option.splits if_splits)
qed

lemma all_get:
  assumes "all_caches st"
  shows "all_caches (snd (location_getCachedSignature hashText i sid t now st))"
proof -
  obtain hr hot where h: "readHot sid (hashText t) now (ps_hot st) = (hr, hot)" by fastforce
  have disk: "all_caches (st\<lparr>ps_disks := AList.update q (sh\<lparr>sh_cache := c\<rparr>) (ps_disks st), ps_hot := x\<rparr>)"
    "all_caches (st\<lparr>ps_hot := x, ps_disks := AList.update q (sh\<lparr>sh_cache := c\<rparr>) (ps_disks st)\<rparr>)"
    if "map_of (ps_disks st) q = Some sh" "sc_retrieve k ttl now (sh_cache sh) = (r', c)" for q sh k ttl r' c x
    using that all_lookup [OF assms that(1)] inv_retrieve [of "sh_cache sh" k ttl now]
    by (auto intro!: all_update [OF assms, where p = q and sh = "sh\<lparr>sh_cache := c\<rparr>"])
  have "all_caches (st\<lparr>ps_hot := x\<rparr>)" for x by (rule all_frame [OF assms]) simp
  then show ?thesis using assms disk
    by (auto simp: location_getCachedSignature_def Let_def h split: option.split prod.split)
qed

lemma all_reach: "sig_reach g hashText now st ps \<Longrightarrow> all_caches st"
proof (induction rule: sig_reach.induct)
  case (start fs now)
  then show ?case by (simp add: all_caches_def initial_state_def)
next
  case (acquire now st ps canonical defaultPath opts)
  then show ?case by (simp add: all_acquire)
next
  case (record_signature now st ps i sid t sig)
  then show ?case
    by (auto simp: location_cacheSignature_def Let_def intro!: all_on_disk inv_store intro: all_frame split: option.split bool.split)
next
  case (lookup now st ps i sid t)
  then show ?case by (simp add: all_get)
next
  case (dispose now st ps i written st' pending)
  then show ?case by (blast intro: all_dispose)
next
  case (tick now st ps path sh written c fl)
  then have "I c" using inv_tick [OF all_lookup [OF tick.IH tick.hyps(2)], of written "ps_files st path" now] by simp
  then show ?case by (intro all_update [OF tick.IH, where p = path and sh = "sh\<lparr>sh_cache := c\<rparr>"]) simp_all
next
  case (prune now st ps path)
  then show ?case by (simp add: all_on_disk inv_prune)
qed (auto simp: finish_release_def clear_hot_state_def intro: all_frame split: prod.split)

end

lemma load_distinct: "distinct (map fst m) \<Longrightarrow> distinct (map fst (fold (load_entry now ttl) kvs m))"
  by (induction kvs arbitrary: m) (auto simp: load_entry_def distinct_update split: prod.split)

lemma loaded_distinct: "distinct (map fst (sc_cache c)) \<Longrightarrow> distinct (map fst (sc_cache (loadFromDisk fl now c)))"
  by (simp add: loadFromDisk_def load_distinct split: cache_file.split option.split)

interpretation unique_keys: cache_invariant "\<lambda>c. distinct (map fst (sc_cache c))"
proof
  show "distinct (map fst (sc_cache (newSignatureCache config fl now)))" for config fl now
    by (simp add: newSignatureCache_def startBackgroundTasks_def startWriteTimer_def Let_def loaded_distinct)
  show "distinct (map fst (sc_cache c)) \<Longrightarrow> distinct (map fst (sc_cache (setRetention r fl now c)))" for c r fl now
    by (simp add: setRetention_def startWriteTimer_def Let_def loaded_distinct)
  show "distinct (map fst (sc_cache c)) \<Longrightarrow> distinct (map fst (sc_cache (sc_store k v now c)))" for c k v now
    by (simp add: sc_store_def distinct_update)
  show "distinct (map fst (sc_cache c)) \<Longrightarrow> distinct (map fst (sc_cache (snd (sc_retrieve k ttl now c))))" for c k ttl now
    by (simp add: sc_retrieve_def deleteIfPastRetention_def distinct_delete Let_def split: option.split)
  show "distinct (map fst (sc_cache c)) \<Longrightarrow> distinct (map fst (sc_cache (fst (write_tick written fl now c))))" for c written fl now
    by (simp add: write_tick_def saveToDisk_def)
  show "distinct (map fst (sc_cache c)) \<Longrightarrow> distinct (map fst (sc_cache (pruneExpired now c)))" for c now
    by (simp add: pruneExpired_def distinct_map_filter)
qed

section \<open>The round trip through the file\<close>

lemma fold_update_found:
  "distinct (map fst m) \<Longrightarrow> map_of m k = Some e \<Longrightarrow>
     map_of (fold (\<lambda>(key, e). AList.update key (f e)) m acc) k = Some (f e)"
proof (induction m arbitrary: acc)
  case (Cons kv m)
  have away: "k' \<notin> fst ` set l \<Longrightarrow> map_of (fold (\<lambda>(key, e). AList.update key (f e)) l a) k' = map_of a k'" for k' l a
    by (induction l arbitrary: a) (auto simp: update_conv')
  show ?case using Cons away [of k m] by (cases kv) (auto simp: update_conv' split: if_splits)
qed simp

lemma merged_found:
  "distinct (map fst (sc_cache c)) \<Longrightarrow> map_of (sc_cache c) k = Some e
     \<Longrightarrow> map_of (merged_entries fl now c) k = Some (plain_entry (ce_value e) (ce_timestamp e))"
  unfolding merged_entries_def using fold_update_found [of "sc_cache c" k e "\<lambda>e. plain_entry (ce_value e) (ce_timestamp e)"] by simp

lemma load_found:
  "map_of kvs k = Some e \<Longrightarrow> map_of m k = None \<Longrightarrow> now - ce_timestamp e \<le> ttl
     \<Longrightarrow> map_of (fold (load_entry now ttl) kvs m) k = Some (plain_entry (ce_value e) (ce_timestamp e))"
proof (induction kvs arbitrary: m)
  case (Cons kv kvs)
  obtain k' e' where kv: "kv = (k', e')" by fastforce
  show ?case
  proof (cases "k' = k")
    case True
    then have "load_entry now ttl kv m = AList.update k (plain_entry (ce_value e) (ce_timestamp e)) m"
      using Cons.prems by (auto simp: kv load_entry_def jm_has_def)
    then show ?thesis by (simp add: loaded_keeps update_conv')
  next
    case False
    then show ?thesis using Cons by (auto simp: kv load_entry_def update_conv')
  qed
qed simp

lemma new_found:
  assumes "cfg_enabled cfg" "map_of (existing_entries fl) k = Some e" "now - ce_timestamp e \<le> cfg_disk_ttl_seconds cfg * 1000"
    "\<And>d. fl = CacheFile d \<Longrightarrow> cd_version d = ''1.0''"
  shows "map_of (sc_cache (newSignatureCache cfg fl now)) k = Some (plain_entry (ce_value e) (ce_timestamp e))"
    "sc_enabled (newSignatureCache cfg fl now)"
  using assms load_found [of _ k e "[]"]
  by (auto simp: newSignatureCache_def startBackgroundTasks_def startWriteTimer_def Let_def loadFromDisk_def existing_entries_def nullish_def
      split: cache_file.splits option.splits)

text \<open>The last owner leaves its entries in the file, and the shutdown that follows does not touch it.\<close>

lemma release_saves:
  assumes "location_dispose True i now st = (st', Some (p, c))" "map_of (ps_disks st) p = Some sh" "sc_enabled (sh_cache sh)"
  shows "ps_files st' p = CacheFile (saved_data (ps_files st p) now (sh_cache sh))" "\<not> sc_dirty c"
proof -
  let ?st = "st\<lparr>ps_locations := (ps_locations st)[i := (ps_locations st ! i)\<lparr>loc_disposed := True\<rparr>]\<rparr>"
  obtain q where r: "releaseDisk True q i now ?st = (st', Some (p, c))"
    using assms(1) by (auto simp: location_dispose_def Let_def split: if_splits option.splits)
  then have "q = p" by (auto simp: releaseDisk_def Let_def split: option.splits if_splits prod.splits)
  then show "ps_files st' p = CacheFile (saved_data (ps_files st p) now (sh_cache sh))" "\<not> sc_dirty c"
    using r assms(2,3) by (auto simp: releaseDisk_def Let_def sc_flush_def saveToDisk_def split: if_splits)
qed

lemma finish_clean: "\<not> sc_dirty c \<Longrightarrow> ps_files (finish_release written (p, c) now st) = ps_files st"
  by (simp add: finish_release_def sc_shutdown_def Let_def)

text \<open>The cache and the location that a first owner gets.\<close>

lemma first_owner:
  assumes "cfg_enabled cfg" "canonical (nullish fp defaultPath) = p"
    and "acquireLocation canonical defaultPath \<lparr>lo_keepThinking = True, lo_signatureCache = Some cfg, lo_cacheFilePath = fp\<rparr> now
           (initial_state files) = (i, st)"
  shows "live_at st i p" "consumer_of st i = \<lparr>dc_memoryTtlMs = cfg_memory_ttl_seconds cfg * 1000,
           dc_diskTtlMs = cfg_disk_ttl_seconds cfg * 1000, dc_writeIntervalMs = cfg_write_interval_seconds cfg * 1000\<rparr>"
    and "\<exists>r. map_option sh_cache (map_of (ps_disks st) p) = Some (setRetention r (files p) now (newSignatureCache cfg (files p) now))"
    and "ps_hot st = []" "\<not> loc_disposed (ps_locations st ! i)"
  using assms
  by (auto simp: acquireLocation_def acquireDisk_def disk_consumer_def initial_state_def Let_def update_retention_disks
      live_at_def consumer_of_def nullish_def)

section \<open>Bounds of the hot map\<close>

lemma length_filter_keys:
  assumes "distinct (map fst m)" "distinct ks" "set ks \<subseteq> fst ` set m"
  shows "length (filter (\<lambda>(k, v). k \<notin> set ks) m) = length m - length ks"
proof -
  let ?keys = "filter (\<lambda>k. k \<notin> set ks) (map fst m)"
  have "map fst (filter (\<lambda>(k, v). k \<notin> set ks) m) = ?keys"
    by (induction m) auto
  then have "length (filter (\<lambda>(k, v). k \<notin> set ks) m) = length ?keys"
    by (metis length_map)
  moreover have "length ?keys = card (set ?keys)"
    by (rule distinct_card [symmetric], rule distinct_filter, rule assms(1))
  moreover have "set ?keys = fst ` set m - set ks" by auto
  moreover have "card (fst ` set m) = length m" using assms(1) distinct_card by fastforce
  ultimately show ?thesis using assms(2,3) by (simp only: card_Diff_subset [OF finite_set] distinct_card)
qed

lemma oldest_keys:
  fixes f :: "'k \<times> 'v \<Rightarrow> rat" and n :: nat
  assumes "distinct (map fst m)"
  defines "ks \<equiv> take n (map fst (sort_key f m))"
  shows "distinct ks" "set ks \<subseteq> fst ` set m" "length ks = min n (length m)"
proof -
  have "distinct (map fst (sort_key f m))" using assms(1) by (simp add: distinct_map)
  then show "distinct ks" by (simp add: ks_def)
  show "set ks \<subseteq> fst ` set m" unfolding ks_def using set_take_subset by fastforce
  show "length ks = min n (length m)" by (simp add: ks_def)
qed

lemma length_without_oldest:
  fixes f :: "'k \<times> 'v \<Rightarrow> rat"
  assumes "distinct (map fst m)"
  shows "length (filter (\<lambda>(k, v). k \<notin> set (take n (map fst (sort_key f m)))) m) = length m - n"
  using length_filter_keys [OF assms oldest_keys(1,2) [OF assms]] by (simp add: min_def)

lemma prune_sessions_length: "distinct (map fst hot) \<Longrightarrow> length (pruneSignatureSessions now hot) \<le> MAX_CACHED_SESSIONS"
  using length_without_oldest [OF distinct_map_filter, of hot] by (simp add: pruneSignatureSessions_def Let_def)

lemma evict_length:
  assumes "distinct (map fst m)" "length m \<le> MAX_ENTRIES_PER_SESSION"
  shows "length (evict_entries now m) < MAX_ENTRIES_PER_SESSION"
proof -
  define m1 where "m1 = filter (\<lambda>(k, e). \<not> hot_expired now e) m"
  have "length m1 \<le> MAX_ENTRIES_PER_SESSION" using assms(2) length_filter_le unfolding m1_def by (metis le_trans)
  moreover have "length (filter (\<lambda>(k, e). k \<notin> set (take n (map fst (sort_key (\<lambda>(k, e). se_timestamp e) m1)))) m1) = length m1 - n" for n
    by (rule length_without_oldest) (simp add: m1_def distinct_map_filter assms(1))
  ultimately show ?thesis
    by (simp add: evict_entries_def Let_def MAX_ENTRIES_PER_SESSION_def flip: m1_def)
qed

section \<open>A sample run\<close>

definition sample_config :: SignatureCacheConfig where
  "sample_config = \<lparr>cfg_enabled = True, cfg_memory_ttl_seconds = 3600, cfg_disk_ttl_seconds = 172800, cfg_write_interval_seconds = 60\<rparr>"

definition sample_options :: LocationSignatureOptions where
  "sample_options = \<lparr>lo_keepThinking = True, lo_signatureCache = Some sample_config, lo_cacheFilePath = None\<rparr>"

definition sample_genuine :: "string \<Rightarrow> string \<Rightarrow> bool" where
  "sample_genuine k v \<longleftrightarrow> k = ''s:t'' \<and> v = ''sig''"

text \<open>One owner that recorded a signature, and the same after a second owner joined.\<close>

definition sample_single :: signature_state where
  "sample_single = location_cacheSignature id 0 ''s'' ''t'' ''sig'' 5
     (snd (acquireLocation id ''d'' sample_options 5 (initial_state (\<lambda>_. NoFile))))"

definition sample_pair :: signature_state where
  "sample_pair = snd (acquireLocation id ''d'' sample_options 5 sample_single)"

lemmas sample_simps = sample_single_def sample_pair_def sample_options_def sample_config_def

lemma sample_reach: "sig_reach sample_genuine id 5 sample_single []" "sig_reach sample_genuine id 5 sample_pair []"
proof -
  have "sig_reach sample_genuine id 5 (snd (acquireLocation id ''d'' sample_options 5 (initial_state (\<lambda>_. NoFile)))) []"
    by (rule sig_reach.acquire, rule sig_reach.start) (simp add: file_genuine_def existing_entries_def entries_genuine_def)
  moreover have "length (ps_locations (snd (acquireLocation id ''d'' sample_options 5 (initial_state (\<lambda>_. NoFile))))) = 1"
    using acquire_effects(2) [of id "''d''" sample_options 5 "initial_state (\<lambda>_. NoFile)"] by (auto simp: initial_state_def)
  ultimately show one: "sig_reach sample_genuine id 5 sample_single []"
    unfolding sample_single_def by (intro sig_reach.record_signature) (simp_all add: sample_genuine_def makeDiskKey_def)
  show "sig_reach sample_genuine id 5 sample_pair []"
    unfolding sample_pair_def by (rule sig_reach.acquire [OF one])
qed

lemma sample_facts:
  "length (ps_locations sample_pair) = 2"
  "fst (location_getCachedSignature id 0 ''s'' ''t'' 5 sample_single) = Some ''sig''"
  "fst (location_getCachedSignature id 0 ''s'' ''t'' 5 sample_pair) = Some ''sig''"
  "snd (location_dispose True 1 5 sample_pair) = None"
  "map_option fst (snd (location_dispose True 0 5 sample_single)) = Some ''d''"
  "live_at sample_single 0 ''d''" "dc_memoryTtlMs (consumer_of sample_single 0) = 3600000"
  "map_option (\<lambda>sh. sc_cache (sh_cache sh)) (map_of (ps_disks sample_single) ''d'') = Some [(''s:t'', plain_entry ''sig'' 5)]"
  by code_simp+

section \<open>Properties\<close>

text \<open>
  C22. A lookup returns only a signature that belongs to its session and thinking text: one that some location
  recorded for them, or that the file of another process held for them, whatever was pruned, evicted, flushed,
  reloaded or promoted in between.
\<close>

theorem lookups_are_genuine:
  assumes "sig_reach genuine hashText now st pending"
    and "fst (location_getCachedSignature hashText i sid thinking now st) = Some v"
  shows "genuine (makeDiskKey sid (hashText thinking)) v"
  using genuine_get(2) [of genuine st hashText i sid thinking now] genuine_reach [OF assms(1)] assms(2)
  by (metis prod.collapse)

theorem lookups_are_genuine_witness:
  "fst (location_getCachedSignature id 0 ''s'' ''t'' 5 sample_single) = Some ''sig'' \<and> sample_genuine (makeDiskKey ''s'' ''t'') ''sig''"
  using lookups_are_genuine [OF sample_reach(1) sample_facts(2)] sample_facts(2) by simp

text \<open>
  A disk cache is running for a file exactly as long as some live location owns it, and then it keeps
  entries for at least as long as any live location that reads the file accepts them.
\<close>

lemma disk_cache_follows_owners:
  assumes "sig_reach genuine hashText now st pending"
  shows "((\<exists>sh. map_of (ps_disks st) p = Some sh) \<longleftrightarrow> (\<exists>i. owner_at st i p))
    \<and> (\<forall>sh i. map_of (ps_disks st) p = Some sh \<and> live_at st i p \<longrightarrow>
           dc_memoryTtlMs (consumer_of st i) \<le> sc_retentionMemoryTtlMs (sh_cache sh)
           \<and> dc_diskTtlMs (consumer_of st i) \<le> sc_retentionDiskTtlMs (sh_cache sh))"
proof (intro conjI)
  have b: "book_at st p" "retained_at st p" using book_reach [OF assms] by (simp_all add: book_def)
  have "\<exists>i. i \<in> set (sh_owners sh)" if "map_of (ps_disks st) p = Some sh" for sh
    using b(1) that by (auto simp: book_at_def intro: hd_in_set)
  then show "(\<exists>sh. map_of (ps_disks st) p = Some sh) \<longleftrightarrow> (\<exists>i. owner_at st i p)"
    using b(1) by (fastforce simp: book_at_def split: option.splits)
  show "\<forall>sh i. map_of (ps_disks st) p = Some sh \<and> live_at st i p \<longrightarrow>
           dc_memoryTtlMs (consumer_of st i) \<le> sc_retentionMemoryTtlMs (sh_cache sh)
           \<and> dc_diskTtlMs (consumer_of st i) \<le> sc_retentionDiskTtlMs (sh_cache sh)"
    using b(2) by (simp add: retained_at_def)
qed

theorem disk_cache_follows_owners_witness:
  "(\<exists>i. owner_at sample_single i ''d'')
   \<and> (\<exists>sh. map_of (ps_disks sample_single) ''d'' = Some sh \<and> 3600000 \<le> sc_retentionMemoryTtlMs (sh_cache sh))"
proof -
  obtain sh where sh: "map_of (ps_disks sample_single) ''d'' = Some sh" using sample_facts(8) by auto
  then show ?thesis
    using disk_cache_follows_owners [OF sample_reach(1), of "''d''"] sample_facts(6,7) by fastforce
qed

text \<open>
  C23. Locations do not hide signatures from each other: what a location finds it still finds after any
  location looked something up (which deletes stale entries), after a cleanup of a file's cache, after a location
  joined, and after another location left whose cache still has an owner.
\<close>

theorem found_stays_found:
  assumes "sig_reach genuine hashText now st pending" "j < length (ps_locations st)"
    and "fst (location_getCachedSignature hashText j sid thinking now st) \<noteq> None"
  shows "fst (location_getCachedSignature hashText j sid thinking now
           (snd (location_getCachedSignature hashText i sid' thinking' now st))) \<noteq> None
    \<and> fst (location_getCachedSignature hashText j sid thinking now (on_disk p (pruneExpired now) st)) \<noteq> None
    \<and> fst (location_getCachedSignature hashText j sid thinking now
           (snd (acquireLocation canonical defaultPath opts now st))) \<noteq> None
    \<and> (\<forall>st'. location_dispose written i now st = (st', None) \<and> i \<noteq> j \<longrightarrow>
           fst (location_getCachedSignature hashText j sid thinking now st') \<noteq> None)"
proof (intro conjI)
  note kept = found_kept [OF book_reach [OF assms(1)] assms(2,3)]
  show "fst (location_getCachedSignature hashText j sid thinking now
           (snd (location_getCachedSignature hashText i sid' thinking' now st))) \<noteq> None"
    by (rule kept) (simp_all add: get_effects assms(2))
  show "fst (location_getCachedSignature hashText j sid thinking now (on_disk p (pruneExpired now) st)) \<noteq> None"
    by (rule kept) (auto simp: assms(2) disk_keeps_on_disk keeps_prune, auto simp: on_disk_def assms(2) split: option.split)
  obtain l where "ps_locations (snd (acquireLocation canonical defaultPath opts now st)) = ps_locations st @ [l]"
    using acquire_effects(2) by blast
  then show "fst (location_getCachedSignature hashText j sid thinking now
           (snd (acquireLocation canonical defaultPath opts now st))) \<noteq> None"
    using assms(2) by (intro kept) (simp_all add: acquire_effects nth_append)
  have "fst (location_getCachedSignature hashText j sid thinking now st') \<noteq> None"
    if "location_dispose written i now st = (st', None)" "i \<noteq> j" for st'
    using dispose_effects [OF that(1)] that(2) assms(2) by (intro kept) simp_all
  then show "\<forall>st'. location_dispose written i now st = (st', None) \<and> i \<noteq> j \<longrightarrow>
           fst (location_getCachedSignature hashText j sid thinking now st') \<noteq> None" by blast
qed

theorem found_stays_found_witness:
  "fst (location_getCachedSignature id 0 ''s'' ''t'' 5
      (snd (location_getCachedSignature id 1 ''s'' ''t'' 5 sample_pair))) \<noteq> None
   \<and> fst (location_getCachedSignature id 0 ''s'' ''t'' 5 (fst (location_dispose True 1 5 sample_pair))) \<noteq> None"
proof -
  have "location_dispose True 1 5 sample_pair = (fst (location_dispose True 1 5 sample_pair), None)"
    using sample_facts(4) by (metis prod.collapse)
  then show ?thesis
    using found_stays_found [OF sample_reach(2), of 0 "''s''" "''t''" 1 "''s''" "''t''"] sample_facts(1,3) by simp
qed

text \<open>
  C24. Signatures survive a restart: when the last owner of a file leaves and its flush is written, a new process
  whose location owns that file finds every entry the cache held, as long as the entry is within its two TTLs,
  and the shutdown that is still to run does not take them away.
\<close>

theorem signatures_survive_restart:
  assumes "sig_reach genuine hashText now st pending"
    and "map_of (ps_disks st) p = Some sh" "map_of (sc_cache (sh_cache sh)) (makeDiskKey sid (hashText thinking)) = Some e"
    and "location_dispose True i now st = (st1, Some (p, c))"
    and "cfg_enabled cfg" "canonical (nullish fp defaultPath) = p"
    and "later - ce_timestamp e \<le> cfg_memory_ttl_seconds cfg * 1000" "later - ce_timestamp e \<le> cfg_disk_ttl_seconds cfg * 1000"
    and "sid \<noteq> []" "thinking \<noteq> []" "ce_value e \<noteq> []"
    and "acquireLocation canonical defaultPath \<lparr>lo_keepThinking = True, lo_signatureCache = Some cfg, lo_cacheFilePath = fp\<rparr> later
           (initial_state (ps_files (finish_release written (p, c) now st1))) = (k, st2)"
  shows "fst (location_getCachedSignature hashText k sid thinking later st2) = Some (ce_value e)"
proof -
  let ?key = "makeDiskKey sid (hashText thinking)" and ?fl = "ps_files st1 p"
  have "sc_enabled (sh_cache sh)" using book_reach [OF assms(1)] assms(2) by (auto simp: book_def book_at_def dest: spec [of _ p])
  note saved = release_saves [OF assms(4,2) this]
  have "distinct (map fst (sc_cache (sh_cache sh)))"
    using unique_keys.all_lookup [OF unique_keys.all_reach [OF assms(1)] assms(2)] .
  from merged_found [OF this assms(3)]
  have "map_of (existing_entries ?fl) ?key = Some (plain_entry (ce_value e) (ce_timestamp e))"
    by (simp add: saved existing_entries_def saved_data_def)
  from new_found [OF assms(5) this] assms(8)
  have new: "map_of (sc_cache (newSignatureCache cfg ?fl later)) ?key = Some (plain_entry (ce_value e) (ce_timestamp e))"
    "sc_enabled (newSignatureCache cfg ?fl later)"
    by (auto simp: saved saved_data_def)
  note first = first_owner [OF assms(5,6) assms(12) [unfolded finish_clean [OF saved(2)]]]
  obtain r sh2 where sh2: "map_of (ps_disks st2) p = Some sh2" "sh_cache sh2 = setRetention r ?fl later (newSignatureCache cfg ?fl later)"
    using first(3) by auto
  have "disk_value st2 k ?key later = Some (ce_value e)"
    using disk_value_found [OF first(1) sh2(1), of ?key "plain_entry (ce_value e) (ce_timestamp e)" later] new assms(7,11)
    by (simp add: sh2(2) retention_keeps first(2))
  then show ?thesis using assms(9,10) first(4,5) by (simp add: lookup_result hot_value_def readHot_def)
qed

theorem signatures_survive_restart_witness:
  "\<exists>files. files ''d'' \<noteq> NoFile \<and>
     (let (k, st2) = acquireLocation id ''d'' sample_options 1000 (initial_state files)
      in fst (location_getCachedSignature id k ''s'' ''t'' 1000 st2) = Some ''sig'')"
proof -
  obtain sh where sh: "map_of (ps_disks sample_single) ''d'' = Some sh" "sc_cache (sh_cache sh) = [(''s:t'', plain_entry ''sig'' 5)]"
    using sample_facts(8) by auto
  then have e: "map_of (sc_cache (sh_cache sh)) (makeDiskKey ''s'' (id ''t'')) = Some (plain_entry ''sig'' 5)"
    by (simp add: makeDiskKey_def)
  obtain st1 c where d: "location_dispose True 0 5 sample_single = (st1, Some (''d'', c))"
    using sample_facts(5) by (cases "location_dispose True 0 5 sample_single") auto
  obtain files where files: "files = ps_files (finish_release True (''d'', c) 5 st1)" by blast
  obtain k st2 where a: "acquireLocation id ''d'' sample_options 1000 (initial_state files) = (k, st2)" by fastforce
  have "fst (location_getCachedSignature id k ''s'' ''t'' 1000 st2) = Some (ce_value (plain_entry ''sig'' 5))"
    by (rule signatures_survive_restart [OF sample_reach(1) sh(1) e d _ _ _ _ _ _ _ a [unfolded sample_options_def files]])
      (simp_all add: sample_config_def)
  moreover have "files ''d'' \<noteq> NoFile"
  proof -
    have "book_at sample_single ''d''" using book_reach [OF sample_reach(1)] by (simp add: book_def)
    then have "sc_enabled (sh_cache sh)" using sh(1) by (simp add: book_at_def)
    note saved = release_saves [OF d sh(1) this]
    show ?thesis unfolding files finish_clean [OF saved(2)] saved(1) by (rule cache_file.distinct)
  qed
  ultimately show ?thesis using a by (intro exI [of _ files]) simp
qed

text \<open>
  Recording signatures keeps the hot map small: sessions of at most 100 entries keep at most 100, and a
  record that opens a session leaves at most 11 sessions, however many lookups had promoted before.
\<close>

lemma recording_is_bounded:
  assumes "distinct (map fst hot)" "\<forall>(s, m) \<in> set hot. distinct (map fst m) \<and> length m \<le> MAX_ENTRIES_PER_SESSION"
  shows "\<forall>(s, m) \<in> set (writeHot sid h signature now hot). length m \<le> MAX_ENTRIES_PER_SESSION"
    and "length (writeHot sid h signature now hot) \<le> max (length hot) (MAX_CACHED_SESSIONS + 1)"
    and "\<not> jm_has hot sid \<Longrightarrow> length (writeHot sid h signature now hot) \<le> MAX_CACHED_SESSIONS + 1"
proof -
  let ?hot = "if jm_has hot sid then hot else pruneSignatureSessions now hot @ [(sid, [])]"
  let ?m = "nullish (map_of ?hot sid) []"
  have all: "\<forall>(s, m) \<in> set ?hot. distinct (map fst m) \<and> length m \<le> MAX_ENTRIES_PER_SESSION"
  proof (cases "jm_has hot sid")
    case False
    have "\<forall>(s, m) \<in> set (pruneSignatureSessions now hot). distinct (map fst m) \<and> length m \<le> MAX_ENTRIES_PER_SESSION"
      using assms(2) prune_sessions_subset [of now hot] by blast
    then show ?thesis using False by simp
  qed (use assms(2) in simp)
  then have "distinct (map fst ?m) \<and> length ?m \<le> MAX_ENTRIES_PER_SESSION"
    by (cases "map_of ?hot sid") (auto dest!: map_of_SomeD)
  then have "length (AList.update h \<lparr>se_signature = signature, se_timestamp = now\<rparr> (evict_entries now ?m)) \<le> MAX_ENTRIES_PER_SESSION"
    using evict_length [of ?m now] by (simp add: length_update)
  moreover have "writeHot sid h signature now hot
      = AList.update sid (AList.update h \<lparr>se_signature = signature, se_timestamp = now\<rparr> (evict_entries now ?m)) ?hot"
    by (simp only: writeHot_def Let_def)
  ultimately show "\<forall>(s, m) \<in> set (writeHot sid h signature now hot). length m \<le> MAX_ENTRIES_PER_SESSION"
    using all set_update_subset [of sid _ ?hot] by fastforce
  have "jm_has ?hot sid" by (simp add: jm_has_def map_of_eq_None_iff)
  then have "length (writeHot sid h signature now hot) = length ?hot" by (simp only: writeHot_def Let_def length_update if_True)
  then show "length (writeHot sid h signature now hot) \<le> max (length hot) (MAX_CACHED_SESSIONS + 1)"
    "\<not> jm_has hot sid \<Longrightarrow> length (writeHot sid h signature now hot) \<le> MAX_CACHED_SESSIONS + 1"
    using prune_sessions_length [OF assms(1), of now] by auto
qed

theorem recording_is_bounded_witness:
  "length (writeHot ''s'' ''t'' ''sig'' 5 [(''r'', [(''t'', \<lparr>se_signature = ''old'', se_timestamp = 1\<rparr>)])]) \<le> 11"
  using recording_is_bounded(3) [of "[(''r'', [(''t'', \<lparr>se_signature = ''old'', se_timestamp = 1\<rparr>)])]" "''s''" "''t''" "''sig''" 5]
  by (simp add: MAX_ENTRIES_PER_SESSION_def MAX_CACHED_SESSIONS_def jm_has_def)

section \<open>A lookup can exceed the bounds\<close>

lemma promotion_is_unbounded:
  "\<not> jm_has hot sid \<Longrightarrow> length (promoteHot sid h v now hot) = length hot + 1"
  by (simp add: promoteHot_def length_update)

end
