(* ===== verification/Js_Value.thy ===== *)
theory Js_Value
  imports Json_Text "HOL-Library.List_Lexorder" "HOL-Library.Char_ord"
begin

text \<open>
  Arbitrary JavaScript values, as a function with an argument of type \<open>unknown\<close> meets them: besides JSON there are
  \<open>undefined\<close>, numbers that are not finite, arrays with holes or extra properties, objects with symbol keys or a
  prototype of their own, accessors and hidden properties, functions. Values are trees, so none is circular. And
  the results of functions that may throw: \<open>Inl\<close> is the thrown error.
\<close>

section \<open>Values\<close>

datatype array_kind = PlainArray | IrregularArray | SubclassArray

datatype obj_kind = PlainObject | WithSymbols | OwnPrototype

text \<open>
  \<open>JsOpaque\<close> is a function, symbol or big integer; \<open>JsHidden\<close> stands in a property that is hidden or an accessor.
\<close>

datatype js =
    JsUndefined
  | JsNull
  | JsBool bool
  | JsNum num
  | JsNonFinite
  | JsStr string
  | JsArr array_kind "js list"
  | JsObj obj_kind "(string \<times> js) list"
  | JsHidden
  | JsOpaque

type_synonym js_fields = "(string \<times> js) list"

abbreviation plain_obj :: "js_fields \<Rightarrow> js" where
  "plain_obj es \<equiv> JsObj PlainObject es"

abbreviation plain_arr :: "js list \<Rightarrow> js" where
  "plain_arr xs \<equiv> JsArr PlainArray xs"

lemma size_field: "(k, v) \<in> set es \<Longrightarrow> size v < size (JsObj kind es)"
proof -
  assume "(k, v) \<in> set es"
  then have "size_prod (\<lambda>_. 0) size (k, v) \<le> size_list (size_prod (\<lambda>_. 0) size) es"
    by (rule size_list_estimation') simp
  then show ?thesis by simp
qed

lemma size_item: "x \<in> set xs \<Longrightarrow> size x < size (JsArr kind xs)"
  using size_list_estimation' [of x xs "size x" size] by simp

text \<open>The keys of an object are distinct, at every level.\<close>

function js_wf :: "js \<Rightarrow> bool" where
  "js_wf (JsObj kind es) = (distinct (map fst es) \<and> list_all (\<lambda>(k, v). js_wf v) es)"
| "js_wf (JsArr kind xs) = list_all js_wf xs"
| "js_wf JsUndefined = True"
| "js_wf JsNull = True"
| "js_wf (JsBool b) = True"
| "js_wf (JsNum n) = True"
| "js_wf JsNonFinite = True"
| "js_wf (JsStr s) = True"
| "js_wf JsHidden = True"
| "js_wf JsOpaque = True"
  by pat_completeness auto
termination by (relation "measure size") (auto simp: size_field size_item simp del: js.size)

section \<open>Results\<close>

definition and_then :: "'e + 'a \<Rightarrow> ('a \<Rightarrow> 'e + 'b) \<Rightarrow> 'e + 'b" where
  "and_then r f = (case r of Inl e \<Rightarrow> Inl e | Inr x \<Rightarrow> f x)"

lemma and_then_simps [simp]: "and_then (Inl e) f = Inl e" "and_then (Inr x) f = f x"
  by (simp_all add: and_then_def)

lemma and_then_Inr: "and_then r f = Inr y \<longleftrightarrow> (\<exists>x. r = Inr x \<and> f x = Inr y)"
  by (cases r) simp_all

lemma and_then_Inl: "and_then r f = Inl e \<longleftrightarrow> r = Inl e \<or> (\<exists>x. r = Inr x \<and> f x = Inl e)"
  by (cases r) simp_all

lemma and_then_cong [fundef_cong]: "r = r' \<Longrightarrow> (\<And>x. r' = Inr x \<Longrightarrow> f x = g x) \<Longrightarrow> and_then r f = and_then r' g"
  by (cases r') simp_all

text \<open>A loop over a list that stops at the first error.\<close>

fun check_each :: "('a \<Rightarrow> 'e + 'b) \<Rightarrow> 'a list \<Rightarrow> 'e + 'b list" where
  "check_each f [] = Inr []"
| "check_each f (x # xs) = and_then (f x) (\<lambda>y. and_then (check_each f xs) (\<lambda>ys. Inr (y # ys)))"

lemma check_each_cong [fundef_cong]:
  "xs = ys \<Longrightarrow> (\<And>x. x \<in> set ys \<Longrightarrow> f x = g x) \<Longrightarrow> check_each f xs = check_each g ys"
  by (induction xs arbitrary: ys) auto

lemma check_each_Inr: "check_each f xs = Inr ys \<longleftrightarrow> list_all2 (\<lambda>x y. f x = Inr y) xs ys"
  by (induction xs arbitrary: ys) (auto simp: and_then_Inr list_all2_Cons1)

lemma check_each_Inl: "check_each f xs = Inl e \<Longrightarrow> \<exists>x \<in> set xs. f x = Inl e"
  by (induction xs) (auto simp: and_then_Inl)

text \<open>The items of an array with their positions.\<close>

definition indexed :: "'a list \<Rightarrow> (nat \<times> 'a) list" where
  "indexed xs = zip [0..<length xs] xs"

lemma in_indexed: "(i, x) \<in> set (indexed xs) \<Longrightarrow> x \<in> set xs"
  by (simp add: indexed_def set_zip_rightD)

lemma indexed_cong: "xs = ys \<Longrightarrow> indexed xs = indexed ys"
  by simp

section \<open>Content\<close>

text \<open>
  A value with the keys of its objects sorted at every level; two values of the same content have the same form.
\<close>

function canonical :: "js \<Rightarrow> js" where
  "canonical (JsObj kind es) =
     plain_obj (sort_key fst (map (\<lambda>(k, v). (k, canonical v)) (filter (\<lambda>(k, v). v \<noteq> JsUndefined) es)))"
| "canonical (JsArr kind xs) = plain_arr (map canonical xs)"
| "canonical JsUndefined = JsUndefined"
| "canonical JsNull = JsNull"
| "canonical (JsBool b) = JsBool b"
| "canonical (JsNum n) = JsNum n"
| "canonical JsNonFinite = JsNonFinite"
| "canonical (JsStr s) = JsStr s"
| "canonical JsHidden = JsHidden"
| "canonical JsOpaque = JsOpaque"
  by pat_completeness auto
termination by (relation "measure size") (auto simp: size_field size_item simp del: js.size)

text \<open>JSON: what \<open>JSON.parse\<close> gives and \<open>JSON.stringify\<close> keeps; a key \<open>__proto__\<close> is refused everywhere.\<close>

function is_json :: "js \<Rightarrow> bool" where
  "is_json (JsObj kind es) =
     (kind = PlainObject \<and> list_all (\<lambda>(k, v). k \<noteq> ''__proto__'' \<and> is_json v) es)"
| "is_json (JsArr kind xs) = (kind = PlainArray \<and> list_all is_json xs)"
| "is_json JsUndefined = False"
| "is_json JsNull = True"
| "is_json (JsBool b) = True"
| "is_json (JsNum n) = True"
| "is_json JsNonFinite = False"
| "is_json (JsStr s) = True"
| "is_json JsHidden = False"
| "is_json JsOpaque = False"
  by pat_completeness auto
termination by (relation "measure size") (auto simp: size_field size_item simp del: js.size)

end
