(* ===== verification/Account_Codec.thy ===== *)
theory Account_Codec
  imports Js_Value
begin

text \<open>
  The codecs of the values the account store keeps: \<^verbatim>\<open>packages/core/src/account-repository-codecs.ts\<close>. A codec is
  a record of its two functions, as in the code, and the combinators build codecs from codecs. A thrown
  \<open>AccountCodecError\<close> is \<open>Inl\<close> with its path and problem.
\<close>

section \<open>Errors and paths\<close>

record AccountCodecError =
  err_path :: string
  err_problem :: string

type_synonym 'a checked = "AccountCodecError + 'a"

definition codec_fail :: "string \<Rightarrow> string \<Rightarrow> 'a checked" where
  "codec_fail path problem = Inl \<lparr>err_path = path, err_problem = problem\<rparr>"

lemma codec_fail_neq [simp]: "codec_fail p s \<noteq> Inr x" "Inr x \<noteq> codec_fail p s"
  by (simp_all add: codec_fail_def)

record codec =
  decode :: "js \<Rightarrow> string \<Rightarrow> js checked"
  encode :: "js \<Rightarrow> string \<Rightarrow> js checked"

definition MAX_JSON_DEPTH :: nat where
  "MAX_JSON_DEPTH = 64"

definition id_letter :: "char \<Rightarrow> bool" where
  "id_letter c \<longleftrightarrow> (let n = of_char c :: nat in 65 \<le> n \<and> n \<le> 90 \<or> 97 \<le> n \<and> n \<le> 122) \<or> c = CHR ''_'' \<or> c = CHR ''$''"

definition IDENTIFIER :: "string \<Rightarrow> bool" where
  "IDENTIFIER s \<longleftrightarrow>
     (case s of [] \<Rightarrow> False
      | c # cs \<Rightarrow> id_letter c \<and> list_all (\<lambda>d. id_letter d \<or> is_digit d \<or> d = CHR ''-'') cs)"

definition child_key :: "string \<Rightarrow> string \<Rightarrow> string" where
  "child_key path key = (if IDENTIFIER key then path @ ''.'' @ key else path @ ''['' @ json_string key @ '']'')"

definition child_index :: "string \<Rightarrow> nat \<Rightarrow> string" where
  "child_index path i = path @ ''['' @ show_nat i @ '']''"

section \<open>Reading objects and arrays\<close>

definition check_entry :: "string \<Rightarrow> string \<times> js \<Rightarrow> (string \<times> js) checked" where
  "check_entry path kv =
     (case kv of (key, v) \<Rightarrow>
        if key = ''__proto__'' then codec_fail (child_key path key) ''is a prototype key''
        else if v = JsHidden then codec_fail (child_key path key) ''is not a plain enumerable data property''
        else Inr (key, v))"

definition objectEntries :: "js \<Rightarrow> string \<Rightarrow> js_fields checked" where
  "objectEntries value path =
     (case value of
        JsObj kind es \<Rightarrow>
          (case kind of
             OwnPrototype \<Rightarrow> codec_fail path ''must be a JSON object''
           | WithSymbols \<Rightarrow> codec_fail path ''has symbol keys, which JSON cannot hold''
           | PlainObject \<Rightarrow> check_each (check_entry path) es)
      | _ \<Rightarrow> codec_fail path ''must be a JSON object'')"

definition arrayItems :: "js \<Rightarrow> string \<Rightarrow> js list checked" where
  "arrayItems value path =
     (case value of
        JsArr kind xs \<Rightarrow>
          (case kind of
             SubclassArray \<Rightarrow> codec_fail path ''must be a JSON array''
           | IrregularArray \<Rightarrow> codec_fail path ''has holes or non-index properties, which JSON cannot hold''
           | PlainArray \<Rightarrow> Inr xs)
      | _ \<Rightarrow> codec_fail path ''must be a JSON array'')"

lemma objectEntries_Inr:
  "objectEntries v p = Inr es \<longleftrightarrow> v = plain_obj es \<and> (\<forall>(k, x) \<in> set es. k \<noteq> ''__proto__'' \<and> x \<noteq> JsHidden)"
proof -
  have e: "check_entry p kv = Inr kv' \<longleftrightarrow> kv' = kv \<and> fst kv \<noteq> ''__proto__'' \<and> snd kv \<noteq> JsHidden" for kv kv'
    by (cases kv) (auto simp: check_entry_def)
  have l: "list_all2 (\<lambda>x y. y = x \<and> P x) xs ys \<longleftrightarrow> ys = xs \<and> (\<forall>x \<in> set xs. P x)" for P :: "'x \<Rightarrow> bool" and xs ys
    by (induction xs arbitrary: ys) (auto simp: list_all2_Cons1)
  show ?thesis
    by (auto simp: objectEntries_def check_each_Inr e l split: js.split obj_kind.split)
qed

lemma arrayItems_Inr: "arrayItems v p = Inr xs \<longleftrightarrow> v = plain_arr xs"
  by (auto simp: arrayItems_def split: js.split array_kind.split)

text \<open>The copy of any JSON value; trees are not circular.\<close>

function jsonCopy :: "js \<Rightarrow> string \<Rightarrow> nat \<Rightarrow> js checked" where
  "jsonCopy value path depth =
     (case value of
        JsNull \<Rightarrow> Inr value
      | JsStr s \<Rightarrow> Inr value
      | JsBool b \<Rightarrow> Inr value
      | JsNum n \<Rightarrow> Inr value
      | JsNonFinite \<Rightarrow> codec_fail path ''must be a finite number''
      | JsArr kind items \<Rightarrow>
          if MAX_JSON_DEPTH \<le> depth then codec_fail path ''is nested too deeply''
          else and_then (arrayItems value path) (\<lambda>xs.
            and_then (check_each (\<lambda>(i, x). jsonCopy x (child_index path i) (depth + 1)) (indexed xs))
              (\<lambda>ys. Inr (plain_arr ys)))
      | JsObj kind entries \<Rightarrow>
          if MAX_JSON_DEPTH \<le> depth then codec_fail path ''is nested too deeply''
          else and_then (objectEntries value path) (\<lambda>es.
            and_then (check_each (\<lambda>(k, x). and_then (jsonCopy x (child_key path k) (depth + 1)) (\<lambda>y. Inr (k, y))) es)
              (\<lambda>ys. Inr (plain_obj ys)))
      | _ \<Rightarrow> codec_fail path ''is not a JSON value'')"
  by pat_completeness auto
termination
  by (relation "measure (\<lambda>(v, p, d). size v)")
    (auto simp: objectEntries_Inr arrayItems_Inr dest!: in_indexed simp: size_field size_item simp del: js.size)

declare jsonCopy.simps [simp del]

section \<open>Combinators\<close>

definition jsonValue :: codec where
  "jsonValue = \<lparr>decode = (\<lambda>raw path. jsonCopy raw path 0), encode = (\<lambda>value path. jsonCopy value path 0)\<rparr>"

definition primitive :: "(js \<Rightarrow> bool) \<Rightarrow> string \<Rightarrow> codec" where
  "primitive check expected =
     (let read = (\<lambda>value path. if check value then Inr value else codec_fail path (''must be '' @ expected))
      in \<lparr>decode = read, encode = read\<rparr>)"

definition safe_integer :: "num \<Rightarrow> bool" where
  "safe_integer n \<longleftrightarrow> of_int \<lfloor>n\<rfloor> = n \<and> \<bar>n\<bar> \<le> 9007199254740991"

definition string_codec :: codec where
  "string_codec = primitive (\<lambda>v. case v of JsStr s \<Rightarrow> True | _ \<Rightarrow> False) ''a string''"

definition nonEmptyString :: codec where
  "nonEmptyString = primitive (\<lambda>v. case v of JsStr s \<Rightarrow> s \<noteq> [] | _ \<Rightarrow> False) ''a non-empty string''"

definition finiteNumber :: codec where
  "finiteNumber = primitive (\<lambda>v. case v of JsNum n \<Rightarrow> True | _ \<Rightarrow> False) ''a finite number''"

definition count_codec :: codec where
  "count_codec = primitive (\<lambda>v. case v of JsNum n \<Rightarrow> safe_integer n \<and> 0 \<le> n | _ \<Rightarrow> False) ''a non-negative integer''"

definition credentialEpoch :: codec where
  "credentialEpoch = primitive (\<lambda>v. case v of JsNum n \<Rightarrow> safe_integer n \<and> 0 < n | _ \<Rightarrow> False) ''a positive safe integer''"

definition boolean_codec :: codec where
  "boolean_codec = primitive (\<lambda>v. case v of JsBool b \<Rightarrow> True | _ \<Rightarrow> False) ''a boolean''"

text \<open>The names that \<open>in Object.prototype\<close> finds.\<close>

definition OBJECT_PROTOTYPE :: "string list" where
  "OBJECT_PROTOTYPE =
     [''constructor'', ''__defineGetter__'', ''__defineSetter__'', ''hasOwnProperty'', ''__lookupGetter__'',
      ''__lookupSetter__'', ''isPrototypeOf'', ''propertyIsEnumerable'', ''toString'', ''valueOf'', ''__proto__'',
      ''toLocaleString'']"

definition rowId :: codec where
  "rowId = primitive
     (\<lambda>v. case v of JsStr s \<Rightarrow> s \<noteq> [] \<and> js_trim s = s \<and> s \<notin> set OBJECT_PROTOTYPE | _ \<Rightarrow> False)
     ''a non-empty id without surrounding whitespace or prototype names''"

definition enumOf :: "string list \<Rightarrow> codec" where
  "enumOf vs = primitive (\<lambda>v. case v of JsStr s \<Rightarrow> s \<in> set vs | _ \<Rightarrow> False)
     (''one of '' @ js_join '', '' (map json_string vs))"

definition schemaVersion :: "nat \<Rightarrow> codec" where
  "schemaVersion version =
     (let read = (\<lambda>value path.
            if value = JsNum (of_nat version) then Inr value
            else case value of
                   JsNum n \<Rightarrow>
                     if safe_integer n \<and> of_nat version < n
                     then codec_fail path (''is a newer schema version than '' @ show_nat version)
                     else codec_fail path (''must be '' @ show_nat version)
                 | _ \<Rightarrow> codec_fail path (''must be '' @ show_nat version))
      in \<lparr>decode = read, encode = read\<rparr>)"

definition nullable :: "codec \<Rightarrow> codec" where
  "nullable c =
     \<lparr>decode = (\<lambda>raw path. if raw = JsNull then Inr JsNull else decode c raw path),
      encode = (\<lambda>value path. if value = JsNull then Inr JsNull else encode c value path)\<rparr>"

definition each_item :: "(js \<Rightarrow> string \<Rightarrow> js checked) \<Rightarrow> js \<Rightarrow> string \<Rightarrow> js checked" where
  "each_item f value path =
     and_then (arrayItems value path) (\<lambda>xs.
       and_then (check_each (\<lambda>(i, x). f x (child_index path i)) (indexed xs)) (\<lambda>ys. Inr (plain_arr ys)))"

definition arrayOf :: "codec \<Rightarrow> codec" where
  "arrayOf c = \<lparr>decode = each_item (decode c), encode = each_item (encode c)\<rparr>"

definition each_value :: "(js \<Rightarrow> string \<Rightarrow> js checked) \<Rightarrow> js \<Rightarrow> string \<Rightarrow> js checked" where
  "each_value f value path =
     and_then (objectEntries value path) (\<lambda>es.
       and_then (check_each (\<lambda>(k, x). and_then (f x (child_key path k)) (\<lambda>y. Inr (k, y))) es) (\<lambda>ys. Inr (plain_obj ys)))"

definition mapOf :: "codec \<Rightarrow> codec" where
  "mapOf c = \<lparr>decode = each_value (decode c), encode = each_value (encode c)\<rparr>"

section \<open>Records\<close>

record field =
  fd_codec :: codec
  fd_required :: bool

type_synonym shape = "(string \<times> field) list"

definition required :: "codec \<Rightarrow> field" where
  "required c = \<lparr>fd_codec = c, fd_required = True\<rparr>"

definition optional :: "codec \<Rightarrow> field" where
  "optional c = \<lparr>fd_codec = c, fd_required = False\<rparr>"

definition EXTENSIONS :: string where
  "EXTENSIONS = ''extensions''"

definition requireFields :: "shape \<Rightarrow> js_fields \<Rightarrow> string \<Rightarrow> unit checked" where
  "requireFields shape present path =
     (case find (\<lambda>(key, f). fd_required f \<and> key \<notin> fst ` set present) shape of
        None \<Rightarrow> Inr ()
      | Some (key, f) \<Rightarrow> codec_fail (child_key path key) ''is required'')"

text \<open>The known fields of an object, decoded, and the unknown ones.\<close>

fun decode_fields ::
  "shape \<Rightarrow> bool \<Rightarrow> (string \<times> string) list \<Rightarrow> string \<Rightarrow> js_fields \<Rightarrow> (js_fields \<times> js_fields) checked" where
  "decode_fields shape isOpen forbidden path [] = Inr ([], [])"
| "decode_fields shape isOpen forbidden path ((key, value) # entries) =
     (let here = child_key path key in
      case map_of shape key of
        Some f \<Rightarrow>
          and_then (decode (fd_codec f) value here) (\<lambda>v.
            and_then (decode_fields shape isOpen forbidden path entries) (\<lambda>(out, extensions). Inr ((key, v) # out, extensions)))
      | None \<Rightarrow>
          (case map_of forbidden key of
             Some reason \<Rightarrow> codec_fail here reason
           | None \<Rightarrow>
               if \<not> isOpen then codec_fail here ''is not a known field''
               else and_then (decode jsonValue value here) (\<lambda>v.
                 and_then (decode_fields shape isOpen forbidden path entries)
                   (\<lambda>(out, extensions). Inr (out, (key, v) # extensions)))))"

definition decode_record :: "shape \<Rightarrow> bool \<Rightarrow> (string \<times> string) list \<Rightarrow> js \<Rightarrow> string \<Rightarrow> js checked" where
  "decode_record shape isOpen forbidden raw path =
     and_then (objectEntries raw path) (\<lambda>entries.
       and_then (decode_fields shape isOpen forbidden path entries) (\<lambda>(out, extensions).
         and_then (requireFields shape out path) (\<lambda>_.
           Inr (plain_obj (out @ (if extensions = [] then [] else [(EXTENSIONS, plain_obj extensions)]))))))"

text \<open>The fields of a typed value, encoded, and its \<open>extensions\<close>.\<close>

fun encode_fields :: "shape \<Rightarrow> bool \<Rightarrow> string \<Rightarrow> js_fields \<Rightarrow> (js_fields \<times> js) checked" where
  "encode_fields shape isOpen path [] = Inr ([], JsUndefined)"
| "encode_fields shape isOpen path ((key, item) # entries) =
     (let here = child_key path key in
      if isOpen \<and> key = EXTENSIONS
      then and_then (encode_fields shape isOpen path entries) (\<lambda>(out, extensions). Inr (out, item))
      else case map_of shape key of
             None \<Rightarrow>
               codec_fail here
                 (if isOpen then ''is not a known field; unknown data belongs in extensions'' else ''is not a known field'')
           | Some f \<Rightarrow>
               if item = JsUndefined then codec_fail here ''is undefined; leave the key out to keep it absent''
               else and_then (encode (fd_codec f) item here) (\<lambda>v.
                 and_then (encode_fields shape isOpen path entries) (\<lambda>(out, extensions). Inr ((key, v) # out, extensions))))"

definition encode_extension ::
  "shape \<Rightarrow> (string \<times> string) list \<Rightarrow> string \<Rightarrow> string \<times> js \<Rightarrow> (string \<times> js) checked" where
  "encode_extension shape forbidden path kv =
     (case kv of (key, item) \<Rightarrow>
        (let here = child_key path key in
         if map_of shape key \<noteq> None then codec_fail here ''collides with a known field''
         else case map_of forbidden key of
                Some reason \<Rightarrow> codec_fail here reason
              | None \<Rightarrow> and_then (encode jsonValue item here) (\<lambda>v. Inr (key, v))))"

definition encode_record :: "shape \<Rightarrow> bool \<Rightarrow> (string \<times> string) list \<Rightarrow> js \<Rightarrow> string \<Rightarrow> js checked" where
  "encode_record shape isOpen forbidden value path =
     and_then (objectEntries value path) (\<lambda>entries.
       and_then (encode_fields shape isOpen path entries) (\<lambda>(out, extensions).
         and_then (requireFields shape out path) (\<lambda>_.
           if extensions = JsUndefined then Inr (plain_obj out)
           else and_then (objectEntries extensions (child_key path EXTENSIONS)) (\<lambda>es.
             and_then (check_each (encode_extension shape forbidden (child_key path EXTENSIONS)) es) (\<lambda>ext.
               Inr (plain_obj (out @ ext)))))))"

definition buildRecord :: "shape \<Rightarrow> bool \<Rightarrow> (string \<times> string) list \<Rightarrow> codec" where
  "buildRecord shape isOpen forbidden =
     \<lparr>decode = decode_record shape isOpen forbidden, encode = encode_record shape isOpen forbidden\<rparr>"

definition openRecord :: "shape \<Rightarrow> (string \<times> string) list \<Rightarrow> codec" where
  "openRecord shape forbidden = buildRecord shape True forbidden"

definition closedRecord :: "shape \<Rightarrow> codec" where
  "closedRecord shape = buildRecord shape False []"

end
