(* ===== verification/Codec_Facts.thy ===== *)
theory Codec_Facts
  imports Account_Codec "HOL-Library.Multiset"
begin

text \<open>
  The contract of a codec as a locale, and the combinators that preserve it: nothing is lost between a stored value
  and its typed form, in either direction.
\<close>

section \<open>Content\<close>

lemma json_not [simp]: "is_json v \<Longrightarrow> v \<noteq> JsUndefined" "is_json v \<Longrightarrow> v \<noteq> JsHidden"
  by auto

definition canon_field :: "string \<times> js \<Rightarrow> string \<times> js" where
  "canon_field kv = (fst kv, canonical (snd kv))"

lemma fst_canon_field [simp]: "fst (canon_field kv) = fst kv"
  by (simp add: canon_field_def)

lemma canonical_json_obj:
  assumes "list_all (\<lambda>(k, v). is_json v) es"
  shows "canonical (JsObj kind es) = plain_obj (sort_key fst (map canon_field es))"
proof -
  have "filter (\<lambda>(k, v). v \<noteq> JsUndefined) es = es" using assms by (auto simp: list_all_iff intro!: filter_True)
  moreover have "map (\<lambda>(k, v). (k, canonical v)) es = map canon_field es" by (simp add: canon_field_def case_prod_beta)
  ultimately show ?thesis by (simp only: canonical.simps)
qed

lemma sort_fields_eq:
  fixes xs ys :: js_fields
  assumes "mset xs = mset ys" "distinct (map fst xs)"
  shows "sort_key fst xs = sort_key fst ys"
proof (rule sort_key_inj_key_eq)
  show "mset xs = mset (sort_key fst ys)" using assms(1) by simp
  show "inj_on fst (set xs)" using assms(2) by (simp add: distinct_map)
qed simp

lemma same_content:
  assumes "mset (map canon_field xs) = mset (map canon_field ys)" "distinct (map fst xs)"
    and "list_all (\<lambda>(k, v). is_json v) xs" "list_all (\<lambda>(k, v). is_json v) ys"
  shows "canonical (plain_obj xs) = canonical (plain_obj ys)"
proof -
  have "map fst (map canon_field xs) = map fst xs" by simp
  then show ?thesis
    using sort_fields_eq [OF assms(1)] assms(2) by (simp only: canonical_json_obj [OF assms(3)] canonical_json_obj [OF assms(4)])
qed

section \<open>The contract\<close>

locale faithful_codec =
  fixes c :: codec
  assumes decode_path: "decode c raw p = Inr v \<Longrightarrow> decode c raw q = Inr v"
    and encode_path: "encode c v p = Inr j \<Longrightarrow> encode c v q = Inr j"
    and decoded: "js_wf raw \<Longrightarrow> decode c raw p = Inr v \<Longrightarrow> js_wf v \<and> is_json v \<and> is_json raw"
    and encoded: "js_wf v \<Longrightarrow> encode c v p = Inr j \<Longrightarrow> js_wf j \<and> is_json j"
    and decode_encode: "js_wf raw \<Longrightarrow> decode c raw p = Inr v \<Longrightarrow> \<exists>j. encode c v p = Inr j \<and> canonical j = canonical raw"
    and encode_decode: "js_wf v \<Longrightarrow> encode c v p = Inr j \<Longrightarrow> \<exists>w. decode c j p = Inr w \<and> encode c w p = Inr j"
    and decode_null: "decode c raw p = Inr JsNull \<Longrightarrow> raw = JsNull"
    and encode_null: "encode c v p = Inr JsNull \<Longrightarrow> v = JsNull"

lemma faithful_identity:
  assumes "encode c = decode c"
    and "\<And>v p w q. decode c v p = Inr w \<Longrightarrow> w = v \<and> is_json v \<and> decode c v q = Inr v"
  shows "faithful_codec c"
  by unfold_locales (use assms in \<open>fastforce+\<close>)

lemma jsonCopy_arr:
  "jsonCopy (JsArr kind items) p d = Inr w \<longleftrightarrow> d < MAX_JSON_DEPTH \<and> kind = PlainArray \<and>
     (\<exists>ys. check_each (\<lambda>(i, x). jsonCopy x (child_index p i) (d + 1)) (indexed items) = Inr ys \<and> w = plain_arr ys)"
  by (subst jsonCopy.simps) (auto simp: and_then_Inr arrayItems_Inr)

lemma jsonCopy_obj:
  "jsonCopy (JsObj kind entries) p d = Inr w \<longleftrightarrow> d < MAX_JSON_DEPTH \<and> objectEntries (JsObj kind entries) p = Inr entries \<and>
     (\<exists>ys. check_each (\<lambda>(k, x). and_then (jsonCopy x (child_key p k) (d + 1)) (\<lambda>y. Inr (k, y))) entries = Inr ys \<and> w = plain_obj ys)"
  by (subst jsonCopy.simps) (auto simp: and_then_Inr objectEntries_Inr)

lemma jsonCopy_plain:
  "jsonCopy JsNull p d = Inr JsNull" "jsonCopy (JsBool b) p d = Inr (JsBool b)" "jsonCopy (JsNum n) p d = Inr (JsNum n)"
  "jsonCopy (JsStr s) p d = Inr (JsStr s)" "jsonCopy JsUndefined p d \<noteq> Inr w" "jsonCopy JsNonFinite p d \<noteq> Inr w"
  "jsonCopy JsHidden p d \<noteq> Inr w" "jsonCopy JsOpaque p d \<noteq> Inr w"
  by (subst jsonCopy.simps, simp)+

lemma check_items:
  "check_each (\<lambda>(i, x). f x (child_index p i)) (indexed xs) = Inr ys \<longleftrightarrow>
     length ys = length xs \<and> (\<forall>i < length xs. f (xs ! i) (child_index p i) = Inr (ys ! i))"
  by (auto simp: check_each_Inr list_all2_conv_all_nth indexed_def)

lemma check_entries:
  "check_each (\<lambda>(k, x). and_then (f x (child_key p k)) (\<lambda>y. Inr (k, y))) es = Inr ys \<longleftrightarrow>
     list_all2 (\<lambda>(k, x) (k', y). k' = k \<and> f x (child_key p k) = Inr y) es ys"
proof -
  have "(case kv of (k, x) \<Rightarrow> and_then (f x (child_key p k)) (\<lambda>y. Inr (k, y))) = Inr kv'
      \<longleftrightarrow> (case (kv, kv') of ((k, x), (k', y)) \<Rightarrow> k' = k \<and> f x (child_key p k) = Inr y)" for kv kv'
    by (cases kv; cases kv') (auto simp: and_then_Inr)
  then show ?thesis by (simp add: check_each_Inr case_prod_beta')
qed

lemma in_indexed_iff: "(i, x) \<in> set (indexed xs) \<longleftrightarrow> i < length xs \<and> x = xs ! i"
  by (auto simp: indexed_def in_set_zip intro!: exI [of _ i])

lemma jsonCopy_Inr: "jsonCopy v p d = Inr w \<Longrightarrow> w = v \<and> is_json v \<and> jsonCopy v q d = Inr v"
proof (induction v p d arbitrary: w q rule: jsonCopy.induct)
  case (1 v p d)
  show ?case
  proof (cases v)
    case (JsArr kind items)
    then have d: "d < MAX_JSON_DEPTH" and k: "kind = PlainArray"
      using "1.prems" by (simp_all add: JsArr jsonCopy_arr)
    obtain ys where ys: "length ys = length items"
      "\<forall>i < length items. jsonCopy (items ! i) (child_index p i) (d + 1) = Inr (ys ! i)" "w = plain_arr ys"
      using "1.prems" by (auto simp: JsArr jsonCopy_arr check_items [where f = "\<lambda>x q. jsonCopy x q (Suc d)", simplified])
    have step: "ys ! i = items ! i \<and> is_json (items ! i) \<and> jsonCopy (items ! i) q' (d + 1) = Inr (items ! i)"
      if "i < length items" for i q'
      using "1.IH"(1) [OF JsArr, of items "(i, items ! i)" i "items ! i" "ys ! i" q'] that ys(2) d k JsArr
      by (simp add: arrayItems_Inr in_indexed_iff)
    then have "ys = items" "list_all is_json items" using ys(1) by (auto intro: nth_equalityI simp: list_all_length)
    then show ?thesis using step ys(3) d k
      by (simp add: JsArr jsonCopy_arr check_items [where f = "\<lambda>x q. jsonCopy x q (Suc d)", simplified])
  next
    case (JsObj kind entries)
    then have d: "d < MAX_JSON_DEPTH" and o: "objectEntries v p = Inr entries"
      using "1.prems" by (simp_all add: JsObj jsonCopy_obj)
    obtain ys where ys: "list_all2 (\<lambda>(k, x) (k', y). k' = k \<and> jsonCopy x (child_key p k) (d + 1) = Inr y) entries ys" "w = plain_obj ys"
      using "1.prems" by (auto simp: JsObj jsonCopy_obj check_entries [where f = "\<lambda>x q. jsonCopy x q (Suc d)"])
    have step: "y = x \<and> is_json x \<and> jsonCopy x q' (d + 1) = Inr x"
      if "(k, x) \<in> set entries" "jsonCopy x (child_key p k) (d + 1) = Inr y" for k x y q'
      using "1.IH"(2) [OF JsObj _ o that(1) refl that(2)] d by simp
    have l: "list_all2 (\<lambda>kv y. y = kv \<and> is_json (snd kv) \<and> jsonCopy (snd kv) (child_key q (fst kv)) (d + 1) = Inr (snd kv)) entries ys"
      by (rule list.rel_mono_strong [OF ys(1)]) (use step in \<open>auto split: prod.splits\<close>)
    then have "ys = entries" by (induction rule: list_all2_induct) auto
    moreover from l this have "list_all2 (\<lambda>(k, x) (k', y). k' = k \<and> jsonCopy x (child_key q k) (d + 1) = Inr y) entries entries"
      "list_all (\<lambda>(k, v). is_json v) entries"
      by (auto simp: list_all2_conv_all_nth list_all_length split: prod.splits)
    moreover have "objectEntries v q = Inr entries" "kind = PlainObject" "list_all (\<lambda>(k, v). k \<noteq> ''__proto__'') entries"
      using o JsObj by (auto simp: objectEntries_Inr list_all_iff)
    ultimately show ?thesis using ys(2) d JsObj
      by (simp add: jsonCopy_obj check_entries [where f = "\<lambda>x q. jsonCopy x q (Suc d)"] list_all_iff case_prod_beta)
  qed (use "1.prems" in \<open>auto simp: jsonCopy_plain\<close>)
qed

lemma faithful_jsonValue: "faithful_codec jsonValue"
  by (rule faithful_identity) (auto simp: jsonValue_def dest: jsonCopy_Inr)

lemma faithful_primitive: "(\<And>v. check v \<Longrightarrow> is_json v) \<Longrightarrow> faithful_codec (primitive check expected)"
  by (rule faithful_identity) (auto simp: primitive_def Let_def split: if_splits)

lemma faithful_schemaVersion: "faithful_codec (schemaVersion n)"
  by (rule faithful_identity) (auto simp: schemaVersion_def Let_def split: if_splits js.splits)

named_theorems faithful \<open>codecs that keep the contract\<close>

lemma faithful_primitives [faithful]:
  "faithful_codec string_codec" "faithful_codec nonEmptyString" "faithful_codec finiteNumber" "faithful_codec count_codec"
  "faithful_codec credentialEpoch" "faithful_codec boolean_codec" "faithful_codec rowId" "faithful_codec (enumOf vs)"
  "faithful_codec (schemaVersion n)" "faithful_codec jsonValue"
  unfolding string_codec_def nonEmptyString_def finiteNumber_def count_codec_def credentialEpoch_def boolean_codec_def
    rowId_def enumOf_def
  by (auto intro!: faithful_primitive faithful_schemaVersion faithful_jsonValue split: js.splits)

section \<open>Nullable values, arrays and maps\<close>

lemma nullable_Inr:
  "decode (nullable c) raw p = Inr v \<longleftrightarrow> (if raw = JsNull then v = JsNull else decode c raw p = Inr v)"
  "encode (nullable c) raw p = Inr v \<longleftrightarrow> (if raw = JsNull then v = JsNull else encode c raw p = Inr v)"
  by (auto simp: nullable_def)

lemma faithful_nullable [faithful]:
  assumes "faithful_codec c"
  shows "faithful_codec (nullable c)"
proof -
  have c: "faithful_codec c" by (rule assms)
  show ?thesis
  proof (unfold_locales, unfold nullable_Inr)
    fix raw p v q
    show "if raw = JsNull then v = JsNull else decode c raw p = Inr v \<Longrightarrow> if raw = JsNull then v = JsNull else decode c raw q = Inr v"
      by (metis faithful_codec.decode_path [OF c])
  next
    fix v p j q
    show "if v = JsNull then j = JsNull else encode c v p = Inr j \<Longrightarrow> if v = JsNull then j = JsNull else encode c v q = Inr j"
      by (metis faithful_codec.encode_path [OF c])
  next
    fix raw p v
    assume "js_wf raw" "if raw = JsNull then v = JsNull else decode c raw p = Inr v"
    then show "js_wf v \<and> is_json v \<and> is_json raw" using faithful_codec.decoded [OF c, of raw p v] by (cases "raw = JsNull") simp_all
  next
    fix v p j
    assume "js_wf v" "if v = JsNull then j = JsNull else encode c v p = Inr j"
    then show "js_wf j \<and> is_json j" using faithful_codec.encoded [OF c, of v p j] by (cases "v = JsNull") simp_all
  next
    fix raw p v
    assume r: "js_wf raw" "if raw = JsNull then v = JsNull else decode c raw p = Inr v"
    show "\<exists>j. (if v = JsNull then j = JsNull else encode c v p = Inr j) \<and> canonical j = canonical raw"
    proof (cases "raw = JsNull")
      case False
      then have "decode c raw p = Inr v" "v \<noteq> JsNull" using r(2) faithful_codec.decode_null [OF c] by auto
      then show ?thesis using faithful_codec.decode_encode [OF c r(1), of p v] by simp
    qed (use r in simp)
  next
    fix v p j
    assume v: "js_wf v" "if v = JsNull then j = JsNull else encode c v p = Inr j"
    show "\<exists>w. (if j = JsNull then w = JsNull else decode c j p = Inr w) \<and> (if w = JsNull then j = JsNull else encode c w p = Inr j)"
    proof (cases "v = JsNull")
      case False
      then have e: "encode c v p = Inr j" using v(2) by simp
      then have j: "j \<noteq> JsNull" using faithful_codec.encode_null [OF c] False by blast
      obtain w where w: "decode c j p = Inr w" "encode c w p = Inr j" using faithful_codec.encode_decode [OF c v(1) e] by blast
      then have "w \<noteq> JsNull" using faithful_codec.decode_null [OF c] j by blast
      then show ?thesis using w j by (intro exI [of _ w]) simp
    qed (use v in simp)
  qed (metis faithful_codec.decode_null [OF c] faithful_codec.encode_null [OF c])+
qed

text \<open>Results do not depend on the path, so the empty one stands for all.\<close>

lemma each_item_Inr:
  assumes "\<And>x p q y. f x p = Inr y \<Longrightarrow> f x q = Inr y"
  shows "each_item f v p = Inr w \<longleftrightarrow>
    (\<exists>xs ys. v = plain_arr xs \<and> w = plain_arr ys \<and> list_all2 (\<lambda>x y. f x [] = Inr y) xs ys)"
proof -
  have "f x (child_index p i) = Inr y \<longleftrightarrow> f x [] = Inr y" for x i y using assms by blast
  then show ?thesis
    by (auto simp: each_item_def and_then_Inr arrayItems_Inr check_items list_all2_conv_all_nth)
qed

definition plain_fields :: "js_fields \<Rightarrow> bool" where
  "plain_fields es \<longleftrightarrow> (\<forall>(k, x) \<in> set es. k \<noteq> ''__proto__'' \<and> x \<noteq> JsHidden)"

definition fields2 :: "(string \<Rightarrow> js \<Rightarrow> js \<Rightarrow> bool) \<Rightarrow> js_fields \<Rightarrow> js_fields \<Rightarrow> bool" where
  "fields2 R = list_all2 (\<lambda>(k, x) (k', y). k' = k \<and> R k x y)"

lemma fields2_simps [simp]:
  "fields2 R [] ys \<longleftrightarrow> ys = []" "fields2 R xs [] \<longleftrightarrow> xs = []"
  "fields2 R ((k, x) # xs) ((k', y) # ys) \<longleftrightarrow> k' = k \<and> R k x y \<and> fields2 R xs ys"
  by (simp_all add: fields2_def)

lemma fields2_Cons1: "fields2 R ((k, x) # xs) ys \<longleftrightarrow> (\<exists>y ys'. ys = (k, y) # ys' \<and> R k x y \<and> fields2 R xs ys')"
  by (cases ys) auto

lemma fields2_keys: "fields2 R xs ys \<Longrightarrow> map fst ys = map fst xs"
  by (induction xs arbitrary: ys) (auto simp: fields2_Cons1)

lemma fields2_mono: "fields2 R xs ys \<Longrightarrow> (\<And>k x y. (k, x) \<in> set xs \<Longrightarrow> R k x y \<Longrightarrow> S k x y) \<Longrightarrow> fields2 S xs ys"
  by (induction xs arbitrary: ys) (fastforce simp: fields2_Cons1)+

lemma fields2_all:
  "fields2 R xs ys \<Longrightarrow> (\<And>k x y. (k, x) \<in> set xs \<Longrightarrow> R k x y \<Longrightarrow> P k y) \<Longrightarrow> list_all (\<lambda>(k, y). P k y) ys"
  by (induction xs arbitrary: ys) (fastforce simp: fields2_Cons1)+

lemma fields2_choice:
  "(\<And>k x. (k, x) \<in> set xs \<Longrightarrow> \<exists>y. R k x y) \<Longrightarrow> \<exists>ys. fields2 R xs ys"
proof (induction xs)
  case (Cons kx xs)
  obtain k x where kx: "kx = (k, x)" by fastforce
  obtain y where "R k x y" using Cons.prems kx by fastforce
  moreover obtain ys where "fields2 R xs ys" using Cons by fastforce
  ultimately show ?case using kx by (auto simp: fields2_Cons1)
qed (auto intro: exI [of _ "[]"])

lemma fields2_canon:
  "fields2 R xs ys \<Longrightarrow> (\<And>k x y. (k, x) \<in> set xs \<Longrightarrow> R k x y \<Longrightarrow> canonical y = canonical x) \<Longrightarrow> map canon_field ys = map canon_field xs"
  by (induction xs arbitrary: ys) (fastforce simp: fields2_Cons1 canon_field_def)+

lemma each_value_Inr:
  assumes "\<And>x p q y. f x p = Inr y \<Longrightarrow> f x q = Inr y"
  shows "each_value f v p = Inr w \<longleftrightarrow>
    (\<exists>es ys. v = plain_obj es \<and> w = plain_obj ys \<and> plain_fields es \<and> fields2 (\<lambda>k x y. f x [] = Inr y) es ys)"
proof -
  have "f x (child_key p k) = Inr y \<longleftrightarrow> f x [] = Inr y" for x k y using assms by blast
  then show ?thesis
    by (auto simp: each_value_def and_then_Inr objectEntries_Inr check_entries fields2_def plain_fields_def)
qed

lemma faithful_arrayOf [faithful]:
  assumes "faithful_codec c"
  shows "faithful_codec (arrayOf c)"
proof -
  have c: "faithful_codec c" by (rule assms)
  note dec = each_item_Inr [where f = "decode c", OF faithful_codec.decode_path [OF c]]
  note enc = each_item_Inr [where f = "encode c", OF faithful_codec.encode_path [OF c]]
  have all: "list_all2 R xs ys \<Longrightarrow> (\<And>x y. x \<in> set xs \<Longrightarrow> R x y \<Longrightarrow> P x y) \<Longrightarrow> list_all2 P xs ys" for R P and xs ys :: "js list"
    by (rule list.rel_mono_strong)
  have split: "list_all2 (\<lambda>x y. P x \<and> Q y) xs ys \<Longrightarrow> list_all P xs \<and> list_all Q ys" for P Q and xs ys :: "js list"
    by (induction rule: list_all2_induct) auto
  have choice: "list_all (\<lambda>x. \<exists>y. R x y) xs \<Longrightarrow> \<exists>ys. list_all2 R xs ys" for R and xs :: "js list"
    by (induction xs) (auto simp: list_all2_Cons1)
  show ?thesis
  proof
    show "decode (arrayOf c) raw p = Inr v \<Longrightarrow> decode (arrayOf c) raw q = Inr v" for raw p v q
      by (simp add: arrayOf_def dec)
    show "encode (arrayOf c) v p = Inr j \<Longrightarrow> encode (arrayOf c) v q = Inr j" for v p j q
      by (simp add: arrayOf_def enc)
    show "js_wf v \<and> is_json v \<and> is_json raw" if h: "js_wf raw" "decode (arrayOf c) raw p = Inr v" for raw p v
    proof -
      obtain xs ys where xy: "raw = plain_arr xs" "v = plain_arr ys" "list_all2 (\<lambda>x y. decode c x [] = Inr y) xs ys"
        using h(2) by (auto simp: arrayOf_def dec)
      have "list_all2 (\<lambda>x y. is_json x \<and> js_wf y \<and> is_json y) xs ys"
        by (rule all [OF xy(3)]) (use h(1) xy(1) faithful_codec.decoded [OF c] in \<open>auto simp: list_all_iff\<close>)
      from split [where P = is_json and Q = "\<lambda>y. js_wf y \<and> is_json y", OF this]
      show ?thesis by (simp add: xy list_all_iff)
    qed
    show "js_wf j \<and> is_json j" if h: "js_wf v" "encode (arrayOf c) v p = Inr j" for v p j
    proof -
      obtain xs ys where xy: "v = plain_arr xs" "j = plain_arr ys" "list_all2 (\<lambda>x y. encode c x [] = Inr y) xs ys"
        using h(2) by (auto simp: arrayOf_def enc)
      have "list_all2 (\<lambda>x y. True \<and> js_wf y \<and> is_json y) xs ys"
        by (rule all [OF xy(3)]) (use h(1) xy(1) faithful_codec.encoded [OF c] in \<open>auto simp: list_all_iff\<close>)
      from split [where P = "\<lambda>_. True" and Q = "\<lambda>y. js_wf y \<and> is_json y", OF this]
      show ?thesis by (simp add: xy list_all_iff)
    qed
    show "\<exists>j. encode (arrayOf c) v p = Inr j \<and> canonical j = canonical raw"
      if h: "js_wf raw" "decode (arrayOf c) raw p = Inr v" for raw p v
    proof -
      obtain xs ys where xy: "raw = plain_arr xs" "v = plain_arr ys" "list_all2 (\<lambda>x y. decode c x [] = Inr y) xs ys"
        using h(2) by (auto simp: arrayOf_def dec)
      have "list_all2 (\<lambda>x y. \<exists>j. encode c y [] = Inr j \<and> canonical j = canonical x) xs ys"
        by (rule all [OF xy(3)]) (use h(1) xy(1) faithful_codec.decode_encode [OF c] in \<open>auto simp: list_all_iff\<close>)
      then have "\<exists>js. list_all2 (\<lambda>y j. encode c y [] = Inr j) ys js \<and> map canonical js = map canonical xs"
      proof (induction rule: list_all2_induct)
        case (Cons x xs y ys)
        then obtain j js where "encode c y [] = Inr j" "canonical j = canonical x"
          "list_all2 (\<lambda>y j. encode c y [] = Inr j) ys js" "map canonical js = map canonical xs" by blast
        then show ?case by (intro exI [of _ "j # js"]) simp
      qed simp
      then show ?thesis using xy(1,2) by (auto simp: arrayOf_def enc)
    qed
    show "\<exists>w. decode (arrayOf c) j p = Inr w \<and> encode (arrayOf c) w p = Inr j"
      if h: "js_wf v" "encode (arrayOf c) v p = Inr j" for v p j
    proof -
      obtain xs ys where xy: "v = plain_arr xs" "j = plain_arr ys" "list_all2 (\<lambda>x y. encode c x [] = Inr y) xs ys"
        using h(2) by (auto simp: arrayOf_def enc)
      have "list_all2 (\<lambda>x y. \<exists>w. decode c y [] = Inr w \<and> encode c w [] = Inr y) xs ys"
        by (rule all [OF xy(3)]) (use h(1) xy(1) faithful_codec.encode_decode [OF c] in \<open>auto simp: list_all_iff\<close>)
      then have "\<exists>ws. list_all2 (\<lambda>y w. decode c y [] = Inr w) ys ws \<and> list_all2 (\<lambda>w y. encode c w [] = Inr y) ws ys"
      proof (induction rule: list_all2_induct)
        case (Cons x xs y ys)
        then obtain w ws where "decode c y [] = Inr w" "encode c w [] = Inr y"
          "list_all2 (\<lambda>y w. decode c y [] = Inr w) ys ws" "list_all2 (\<lambda>w y. encode c w [] = Inr y) ws ys" by blast
        then show ?case by (intro exI [of _ "w # ws"]) simp
      qed simp
      then show ?thesis using xy(1,2) by (auto simp: arrayOf_def enc dec)
    qed
  qed (auto simp: arrayOf_def dec enc)
qed

lemma fields2_conv: "fields2 R xs ys \<Longrightarrow> fields2 (\<lambda>k y x. R k x y) ys xs"
  by (induction xs arbitrary: ys) (auto simp: fields2_Cons1)

lemma fields2_compose:
  assumes "fields2 R xs ys" "\<And>k x y. (k, x) \<in> set xs \<Longrightarrow> R k x y \<Longrightarrow> \<exists>z. S k y z \<and> T k x z"
  shows "\<exists>zs. fields2 S ys zs \<and> fields2 T xs zs"
  using assms
proof (induction xs arbitrary: ys)
  case (Cons kx xs)
  obtain k x where kx: "kx = (k, x)" by fastforce
  obtain y ys' where y: "ys = (k, y) # ys'" "R k x y" "fields2 R xs ys'" using Cons.prems(1) kx by (auto simp: fields2_Cons1)
  obtain z where "S k y z" "T k x z" using Cons.prems(2) [of k x y] kx y(2) by auto
  moreover obtain zs where "fields2 S ys' zs" "fields2 T xs zs" using Cons.IH [OF y(3)] Cons.prems(2) by auto
  ultimately show ?case by (intro exI [of _ "(k, z) # zs"]) (simp add: kx y(1))
qed simp

definition json_fields :: "js_fields \<Rightarrow> bool" where
  "json_fields es \<longleftrightarrow> list_all (\<lambda>(k, v). k \<noteq> ''__proto__'' \<and> is_json v) es"

definition wf_fields :: "js_fields \<Rightarrow> bool" where
  "wf_fields es \<longleftrightarrow> distinct (map fst es) \<and> list_all (\<lambda>(k, v). js_wf v) es"

lemma plain_obj_json [simp]: "is_json (plain_obj es) \<longleftrightarrow> json_fields es"
  by (simp add: json_fields_def is_json.simps)

lemma plain_obj_wf [simp]: "js_wf (JsObj kind es) \<longleftrightarrow> wf_fields es"
  by (simp add: wf_fields_def js_wf.simps)

declare js_wf.simps(1) [simp del] is_json.simps(1) [simp del]

lemma json_fields_plain: "json_fields es \<Longrightarrow> plain_fields es"
  by (auto simp: json_fields_def plain_fields_def list_all_iff)

lemma json_fields_append [simp]: "json_fields (xs @ ys) \<longleftrightarrow> json_fields xs \<and> json_fields ys"
  by (auto simp: json_fields_def)

lemma json_fields_only: "json_fields es \<Longrightarrow> list_all (\<lambda>(k, v). is_json v) es"
  by (auto simp: json_fields_def list_all_iff)

lemma canonical_fields:
  "mset (map canon_field xs) = mset (map canon_field ys) \<Longrightarrow> distinct (map fst xs) \<Longrightarrow> json_fields xs \<Longrightarrow> json_fields ys
     \<Longrightarrow> canonical (plain_obj xs) = canonical (plain_obj ys)"
  by (rule same_content) (auto intro: json_fields_only)

text \<open>Values of related fields are well formed JSON when each is.\<close>

lemma fields2_json:
  assumes "fields2 R xs ys" "plain_fields xs" "wf_fields xs"
    and "\<And>k x y. (k, x) \<in> set xs \<Longrightarrow> R k x y \<Longrightarrow> js_wf x \<Longrightarrow> js_wf y \<and> is_json y"
  shows "wf_fields ys" "json_fields ys"
proof -
  have x: "js_wf x" "k \<noteq> ''__proto__''" if "(k, x) \<in> set xs" for k x
    using assms(2,3) that by (auto simp: plain_fields_def wf_fields_def list_all_iff)
  have "fields2 (\<lambda>k x y. k \<noteq> ''__proto__'' \<and> js_wf y \<and> is_json y) xs ys"
    by (rule fields2_mono [OF assms(1)]) (use assms(4) x in auto)
  then have "list_all (\<lambda>(k, y). k \<noteq> ''__proto__'' \<and> js_wf y \<and> is_json y) ys" by (rule fields2_all) simp
  then show "wf_fields ys" "json_fields ys"
    using fields2_keys [OF assms(1)] assms(3) by (auto simp: wf_fields_def json_fields_def list_all_iff)
qed

lemma fields2_json_source:
  assumes "fields2 R xs ys" "plain_fields xs" "\<And>k x y. (k, x) \<in> set xs \<Longrightarrow> R k x y \<Longrightarrow> is_json x"
  shows "json_fields xs"
proof -
  have "list_all (\<lambda>(k, x). k \<noteq> ''__proto__'' \<and> is_json x) xs"
    by (rule fields2_all [OF fields2_conv [OF fields2_mono [OF assms(1), where S = "\<lambda>k x y. k \<noteq> ''__proto__'' \<and> is_json x"]]])
      (use assms(2,3) in \<open>auto simp: plain_fields_def\<close>)
  then show ?thesis by (simp add: json_fields_def)
qed

lemma faithful_mapOf [faithful]:
  assumes "faithful_codec c"
  shows "faithful_codec (mapOf c)"
proof -
  have c: "faithful_codec c" by (rule assms)
  note dec = each_value_Inr [where f = "decode c", OF faithful_codec.decode_path [OF c]]
  note enc = each_value_Inr [where f = "encode c", OF faithful_codec.encode_path [OF c]]
  have wf: "js_wf x" if "wf_fields es" "(k, x) \<in> set es" for es k x using that by (auto simp: wf_fields_def list_all_iff)
  show ?thesis
  proof
    show "decode (mapOf c) raw p = Inr v \<Longrightarrow> decode (mapOf c) raw q = Inr v" for raw p v q
      by (simp add: mapOf_def dec)
    show "encode (mapOf c) v p = Inr j \<Longrightarrow> encode (mapOf c) v q = Inr j" for v p j q
      by (simp add: mapOf_def enc)
    show "js_wf v \<and> is_json v \<and> is_json raw" if h: "js_wf raw" "decode (mapOf c) raw p = Inr v" for raw p v
    proof -
      obtain es ys where e: "raw = plain_obj es" "v = plain_obj ys" "plain_fields es" "fields2 (\<lambda>k x y. decode c x [] = Inr y) es ys"
        using h(2) by (auto simp: mapOf_def dec)
      have "wf_fields ys" "json_fields ys" by (rule fields2_json [OF e(4,3)]; use h(1) e(1) faithful_codec.decoded [OF c] in auto)+
      moreover have "json_fields es" by (rule fields2_json_source [OF e(4,3)]) (use wf [of es] h(1) [unfolded e(1) plain_obj_wf] faithful_codec.decoded [OF c] in blast)
      ultimately show ?thesis by (simp add: e(1,2))
    qed
    show "js_wf j \<and> is_json j" if h: "js_wf v" "encode (mapOf c) v p = Inr j" for v p j
    proof -
      obtain es ys where e: "v = plain_obj es" "j = plain_obj ys" "plain_fields es" "fields2 (\<lambda>k x y. encode c x [] = Inr y) es ys"
        using h(2) by (auto simp: mapOf_def enc)
      have "wf_fields ys" "json_fields ys" by (rule fields2_json [OF e(4,3)]; use h(1) e(1) faithful_codec.encoded [OF c] in auto)+
      then show ?thesis by (simp add: e(1,2))
    qed
    show "\<exists>j. encode (mapOf c) v p = Inr j \<and> canonical j = canonical raw" if h: "js_wf raw" "decode (mapOf c) raw p = Inr v" for raw p v
    proof -
      obtain es ys where e: "raw = plain_obj es" "v = plain_obj ys" "plain_fields es" "fields2 (\<lambda>k x y. decode c x [] = Inr y) es ys"
        using h(2) by (auto simp: mapOf_def dec)
      have ys: "wf_fields ys" "json_fields ys" by (rule fields2_json [OF e(4,3)]; use h(1) e(1) faithful_codec.decoded [OF c] in auto)+
      have es: "json_fields es" by (rule fields2_json_source [OF e(4,3)]) (use wf [of es] h(1) [unfolded e(1) plain_obj_wf] faithful_codec.decoded [OF c] in blast)
      have "\<exists>zs. fields2 (\<lambda>k y z. encode c y [] = Inr z) ys zs \<and> fields2 (\<lambda>k x z. canonical z = canonical x) es zs"
        by (rule fields2_compose [OF e(4)]) (use h(1) e(1) wf faithful_codec.decode_encode [OF c] in auto)
      then obtain zs where zs: "fields2 (\<lambda>k y z. encode c y [] = Inr z) ys zs" "fields2 (\<lambda>k x z. canonical z = canonical x) es zs" by blast
      have j: "json_fields zs" by (rule fields2_json [OF zs(1) json_fields_plain [OF ys(2)] ys(1)]) (use faithful_codec.encoded [OF c] in auto)
      have "canonical (plain_obj zs) = canonical (plain_obj es)"
        using fields2_canon [OF zs(2)] fields2_keys [OF zs(2)] h(1) e(1) j es
        by (intro canonical_fields) (simp_all add: wf_fields_def)
      then show ?thesis using zs(1) json_fields_plain [OF ys(2)] by (auto simp: mapOf_def enc e(1,2))
    qed
    show "\<exists>w. decode (mapOf c) j p = Inr w \<and> encode (mapOf c) w p = Inr j" if h: "js_wf v" "encode (mapOf c) v p = Inr j" for v p j
    proof -
      obtain es ys where e: "v = plain_obj es" "j = plain_obj ys" "plain_fields es" "fields2 (\<lambda>k x y. encode c x [] = Inr y) es ys"
        using h(2) by (auto simp: mapOf_def enc)
      have ys: "wf_fields ys" "json_fields ys" by (rule fields2_json [OF e(4,3)]; use h(1) e(1) faithful_codec.encoded [OF c] in auto)+
      have "\<exists>ws. fields2 (\<lambda>k y w. decode c y [] = Inr w \<and> encode c w [] = Inr y) ys ws \<and> fields2 (\<lambda>k x w. True) es ws"
        by (rule fields2_compose [OF e(4)]) (use wf [of es] h(1) [unfolded e(1) plain_obj_wf] faithful_codec.encode_decode [OF c] in blast)
      then obtain ws where ws: "fields2 (\<lambda>k y w. decode c y [] = Inr w \<and> encode c w [] = Inr y) ys ws" by blast
      have d: "fields2 (\<lambda>k y w. decode c y [] = Inr w) ys ws" by (rule fields2_mono [OF ws]) simp
      have b: "fields2 (\<lambda>k w y. encode c w [] = Inr y) ws ys" by (rule fields2_mono [OF fields2_conv [OF ws]]) simp
      have "json_fields ws" by (rule fields2_json [OF d json_fields_plain [OF ys(2)] ys(1)]) (use faithful_codec.decoded [OF c] in auto)
      then show ?thesis using d b json_fields_plain [OF ys(2)] by (auto simp: mapOf_def enc dec e(2) json_fields_plain)
    qed
  qed (auto simp: mapOf_def dec enc)
qed

end
