(* ===== verification/Record_Facts.thy ===== *)
theory Record_Facts
  imports Codec_Facts
begin

text \<open>Records keep the contract: known fields go through their codecs, unknown ones through \<open>extensions\<close>.\<close>

definition json_value :: "js \<Rightarrow> bool" where
  "json_value x \<longleftrightarrow> jsonCopy x [] 0 = Inr x"

lemma json_value_json: "json_value x \<Longrightarrow> is_json x"
  using jsonCopy_Inr [of x "[]" 0 x] by (simp add: json_value_def)

lemma jsonValue_Inr: "decode jsonValue x p = Inr y \<longleftrightarrow> y = x \<and> json_value x" "encode jsonValue x p = Inr y \<longleftrightarrow> y = x \<and> json_value x"
  using jsonCopy_Inr [of x p 0 y "[]"] jsonCopy_Inr [of x "[]" 0 x p] by (auto simp: jsonValue_def json_value_def)

lemma requireFields_Inr: "requireFields shape present p = Inr u \<longleftrightarrow> (\<forall>(k, f) \<in> set shape. fd_required f \<longrightarrow> k \<in> fst ` set present)"
proof -
  have "\<not> (\<forall>(k, f) \<in> set shape. fd_required f \<longrightarrow> k \<in> fst ` set present)"
    if "find (\<lambda>(key, f). fd_required f \<and> key \<notin> fst ` set present) shape = Some kf" for kf
    using find_Some_member [OF that] by blast
  then show ?thesis by (auto simp: requireFields_def find_None_iff split: option.split)
qed

lemma encode_extensions_Inr:
  "check_each (encode_extension shape forbidden p) es = Inr ext \<longleftrightarrow>
     ext = es \<and> (\<forall>(k, x) \<in> set es. map_of shape k = None \<and> map_of forbidden k = None \<and> json_value x)"
proof (induction es arbitrary: ext)
  case (Cons kx es)
  then show ?case
    by (cases kx) (auto simp: and_then_Inr encode_extension_def jsonValue_Inr Let_def split: option.splits if_splits)
qed auto

definition known_in :: "shape \<Rightarrow> string \<times> js \<Rightarrow> bool" where
  "known_in shape kv \<longleftrightarrow> map_of shape (fst kv) \<noteq> None"

definition slot_at :: "bool \<Rightarrow> string \<times> js \<Rightarrow> bool" where
  "slot_at isOpen kv \<longleftrightarrow> isOpen \<and> fst kv = EXTENSIONS"

definition codec_in :: "shape \<Rightarrow> string \<Rightarrow> codec" where
  "codec_in shape k = fd_codec (the (map_of shape k))"

definition unknown_at :: "bool \<Rightarrow> (string \<times> string) list \<Rightarrow> string \<times> js \<Rightarrow> bool" where
  "unknown_at isOpen forbidden kv \<longleftrightarrow> map_of forbidden (fst kv) = None \<and> isOpen \<and> json_value (snd kv)"

locale record_shape =
  fixes shape :: shape and isOpen :: bool and forbidden :: "(string \<times> string) list"
  assumes field_faithful: "map_of shape k = Some f \<Longrightarrow> faithful_codec (fd_codec f)"
    and extensions_unknown: "isOpen \<Longrightarrow> map_of shape EXTENSIONS = None"
begin

abbreviation known :: "string \<times> js \<Rightarrow> bool" where
  "known \<equiv> known_in shape"

abbreviation slot :: "string \<times> js \<Rightarrow> bool" where
  "slot \<equiv> slot_at isOpen"

abbreviation field_codec :: "string \<Rightarrow> codec" where
  "field_codec \<equiv> codec_in shape"

abbreviation unknown_ok :: "string \<times> js \<Rightarrow> bool" where
  "unknown_ok \<equiv> unknown_at isOpen forbidden"

lemma field_codec_faithful: "known (k, x) \<Longrightarrow> faithful_codec (field_codec k)"
  using field_faithful by (auto simp: known_in_def codec_in_def)

lemma slot_unknown: "slot kv \<Longrightarrow> \<not> known kv"
  using extensions_unknown by (auto simp: slot_at_def known_in_def)

lemma decode_step:
  "decode_fields shape isOpen forbidden p ((k, x) # es) = Inr (out, ext) \<longleftrightarrow>
     (if known (k, x)
      then \<exists>y out'. decode (field_codec k) x [] = Inr y \<and> decode_fields shape isOpen forbidden p es = Inr (out', ext) \<and> out = (k, y) # out'
      else unknown_ok (k, x) \<and> (\<exists>ext'. decode_fields shape isOpen forbidden p es = Inr (out, ext') \<and> ext = (k, x) # ext'))"
proof (cases "map_of shape k")
  case None
  then have "\<not> known (k, x)" by (simp add: known_in_def)
  moreover have "decode_fields shape isOpen forbidden p ((k, x) # es) = Inr (out, ext) \<longleftrightarrow>
      map_of forbidden k = None \<and> isOpen \<and> and_then (decode jsonValue x (child_key p k)) (\<lambda>v.
                 and_then (decode_fields shape isOpen forbidden p es) (\<lambda>(out, ext). Inr (out, (k, v) # ext))) = Inr (out, ext)"
    by (simp add: None Let_def split: option.split)
  moreover have "and_then (decode jsonValue x (child_key p k)) (\<lambda>v.
        and_then (decode_fields shape isOpen forbidden p es) (\<lambda>(out, ext). Inr (out, (k, v) # ext))) = Inr (out, ext)
      \<longleftrightarrow> json_value x \<and> (\<exists>ext'. decode_fields shape isOpen forbidden p es = Inr (out, ext') \<and> ext = (k, x) # ext')"
    by (auto simp: and_then_Inr jsonValue_Inr)
  ultimately show ?thesis by (simp add: unknown_at_def)
next
  case (Some f)
  have c: "faithful_codec (fd_codec f)" by (rule field_faithful [OF Some])
  have "decode (fd_codec f) x (child_key p k) = Inr y \<longleftrightarrow> decode (field_codec k) x [] = Inr y" for y
    using faithful_codec.decode_path [OF c] by (metis Some codec_in_def option.sel)
  then show ?thesis by (auto simp: Some known_in_def and_then_Inr Let_def split: prod.splits)
qed

lemma decode_fields_Inr:
  "decode_fields shape isOpen forbidden p es = Inr (out, ext) \<longleftrightarrow>
     fields2 (\<lambda>k x y. decode (field_codec k) x [] = Inr y) (filter known es) out
     \<and> ext = filter (\<lambda>kv. \<not> known kv) es \<and> list_all unknown_ok ext"
proof (induction es arbitrary: out ext)
  case (Cons kx es)
  obtain k x where kx: "kx = (k, x)" by fastforce
  show ?case unfolding kx decode_step Cons.IH by (cases "known (k, x)") (auto simp: fields2_Cons1)
qed auto

lemma encode_step:
  "encode_fields shape isOpen p ((k, x) # es) = Inr (out, extension) \<longleftrightarrow>
     (if slot (k, x) then (\<exists>e. encode_fields shape isOpen p es = Inr (out, e)) \<and> extension = x
      else known (k, x) \<and> x \<noteq> JsUndefined \<and>
        (\<exists>y out'. encode (field_codec k) x [] = Inr y \<and> encode_fields shape isOpen p es = Inr (out', extension) \<and> out = (k, y) # out'))"
proof (cases "slot (k, x)")
  case True
  then show ?thesis by (auto simp: slot_at_def and_then_Inr Let_def split: prod.splits)
next
  case False
  then have e: "\<not> (isOpen \<and> k = EXTENSIONS)" by (simp add: slot_at_def)
  show ?thesis
  proof (cases "map_of shape k")
    case None
    then show ?thesis using False e by (auto simp: known_in_def Let_def)
  next
    case (Some f)
    have c: "faithful_codec (fd_codec f)" by (rule field_faithful [OF Some])
    have "encode (fd_codec f) x (child_key p k) = Inr y \<longleftrightarrow> encode (codec_in shape k) x [] = Inr y" for y
      using faithful_codec.encode_path [OF c] by (metis Some codec_in_def option.sel)
    then show ?thesis using False e by (auto simp: Some known_in_def and_then_Inr Let_def split: prod.splits)
  qed
qed

lemma encode_fields_Inr:
  "encode_fields shape isOpen p es = Inr (out, extension) \<longleftrightarrow>
     fields2 (\<lambda>k x y. encode (field_codec k) x [] = Inr y) (filter (\<lambda>kv. \<not> slot kv) es) out
     \<and> (\<forall>kv \<in> set es. slot kv \<or> known kv \<and> snd kv \<noteq> JsUndefined)
     \<and> extension = (case find slot es of None \<Rightarrow> JsUndefined | Some kv \<Rightarrow> snd kv)"
proof (induction es arbitrary: out extension)
  case (Cons kx es)
  obtain k x where kx: "kx = (k, x)" by fastforce
  show ?case unfolding kx encode_step Cons.IH by (cases "slot (k, x)") (auto simp: fields2_Cons1)
qed auto

definition complete :: "js_fields \<Rightarrow> bool" where
  "complete es \<longleftrightarrow> (\<forall>(k, f) \<in> set shape. fd_required f \<longrightarrow> k \<in> fst ` set es)"

lemma complete_keys: "map fst xs = map fst ys \<Longrightarrow> complete xs \<longleftrightarrow> complete ys"
  by (simp add: complete_def flip: set_map)

definition with_slot :: "js_fields \<Rightarrow> js_fields" where
  "with_slot ext = (if ext = [] then [] else [(EXTENSIONS, plain_obj ext)])"

text \<open>What decoding and encoding a record mean, without the paths.\<close>

lemma decode_record_Inr:
  "decode_record shape isOpen forbidden raw p = Inr v \<longleftrightarrow>
     (\<exists>es out. raw = plain_obj es \<and> plain_fields es
        \<and> fields2 (\<lambda>k x y. decode (field_codec k) x [] = Inr y) (filter known es) out
        \<and> list_all unknown_ok (filter (\<lambda>kv. \<not> known kv) es) \<and> complete out
        \<and> v = plain_obj (out @ with_slot (filter (\<lambda>kv. \<not> known kv) es)))"
  by (auto simp: decode_record_def and_then_Inr objectEntries_Inr decode_fields_Inr requireFields_Inr complete_def with_slot_def
      plain_fields_def split: prod.splits)

definition slot_value :: "js_fields \<Rightarrow> js" where
  "slot_value es = (case find slot es of None \<Rightarrow> JsUndefined | Some kv \<Rightarrow> snd kv)"

definition extension_ok :: "string \<times> js \<Rightarrow> bool" where
  "extension_ok kv \<longleftrightarrow> \<not> known kv \<and> map_of forbidden (fst kv) = None \<and> json_value (snd kv)"

lemma encode_record_Inr:
  "encode_record shape isOpen forbidden v p = Inr j \<longleftrightarrow>
     (\<exists>es out ext. v = plain_obj es \<and> plain_fields es
        \<and> fields2 (\<lambda>k x y. encode (field_codec k) x [] = Inr y) (filter (\<lambda>kv. \<not> slot kv) es) out
        \<and> (\<forall>kv \<in> set es. slot kv \<or> known kv \<and> snd kv \<noteq> JsUndefined) \<and> complete out
        \<and> (if slot_value es = JsUndefined then ext = []
           else slot_value es = plain_obj ext \<and> plain_fields ext \<and> list_all extension_ok ext)
        \<and> j = plain_obj (out @ ext))"
proof -
  have ext: "and_then (objectEntries x q) (\<lambda>es. and_then (check_each (encode_extension shape forbidden q) es) (\<lambda>ext. Inr (plain_obj (out @ ext)))) = Inr j
     \<longleftrightarrow> (\<exists>ext. x = plain_obj ext \<and> plain_fields ext \<and> list_all extension_ok ext \<and> j = plain_obj (out @ ext))" for x q out
    by (auto simp: and_then_Inr objectEntries_Inr encode_extensions_Inr plain_fields_def extension_ok_def known_in_def list_all_iff case_prod_beta)
  have rest: "and_then (requireFields shape out p) (\<lambda>_. if x = JsUndefined then Inr (plain_obj out)
        else and_then (objectEntries x q) (\<lambda>es. and_then (check_each (encode_extension shape forbidden q) es) (\<lambda>ext. Inr (plain_obj (out @ ext))))) = Inr j
     \<longleftrightarrow> complete out \<and> (\<exists>ext. (if x = JsUndefined then ext = []
           else x = plain_obj ext \<and> plain_fields ext \<and> list_all extension_ok ext) \<and> j = plain_obj (out @ ext))" for x q out
  proof -
    have "and_then (requireFields shape out p) (\<lambda>_. r) = Inr j \<longleftrightarrow> complete out \<and> r = Inr j" for r :: "js checked"
      by (auto simp: and_then_Inr requireFields_Inr complete_def)
    then show ?thesis by (auto simp: ext)
  qed
  have fields: "and_then (encode_fields shape isOpen p es) (\<lambda>(out, e). f out e) = Inr j
      \<longleftrightarrow> (\<exists>out e. encode_fields shape isOpen p es = Inr (out, e) \<and> f out e = Inr j)" for es and f :: "js_fields \<Rightarrow> js \<Rightarrow> js checked"
    by (auto simp: and_then_Inr)
  show ?thesis
    unfolding encode_record_def slot_value_def and_then_Inr [where r = "objectEntries v p"] fields rest
    by (auto simp: objectEntries_Inr encode_fields_Inr plain_fields_def)
qed

lemma keys_known: "map fst ys = map fst xs \<Longrightarrow> list_all known xs \<Longrightarrow> list_all known ys"
  by (induction xs arbitrary: ys) (auto simp: known_in_def)

lemma known_not_slot: "list_all known xs \<Longrightarrow> filter (\<lambda>kv. \<not> slot kv) xs = xs"
  using slot_unknown by (auto simp: list_all_iff intro!: filter_True)

lemma known_find_slot: "list_all known xs \<Longrightarrow> find slot xs = None"
  using slot_unknown by (auto simp: find_None_iff list_all_iff)

lemma slot_with_slot: "(ext \<noteq> [] \<Longrightarrow> isOpen) \<Longrightarrow> list_all slot (with_slot ext)"
  by (simp add: with_slot_def slot_at_def)

text \<open>A record of known fields with its extensions in their slot.\<close>

lemma slotted:
  assumes "list_all known out" "ext \<noteq> [] \<Longrightarrow> isOpen"
  shows "filter (\<lambda>kv. \<not> slot kv) (out @ with_slot ext) = out"
    "slot_value (out @ with_slot ext) = (if ext = [] then JsUndefined else plain_obj ext)"
proof -
  have "find slot (out @ xs) = find slot xs" for xs using assms(1) slot_unknown by (induction out) auto
  then show "slot_value (out @ with_slot ext) = (if ext = [] then JsUndefined else plain_obj ext)"
    using assms(2) by (simp add: slot_value_def with_slot_def slot_at_def)
  show "filter (\<lambda>kv. \<not> slot kv) (out @ with_slot ext) = out"
    using known_not_slot [OF assms(1)] assms(2) by (simp add: with_slot_def slot_at_def)
qed

lemma wf_append:
  assumes "wf_fields xs" "wf_fields ys" "list_all known xs" "list_all (\<lambda>kv. \<not> known kv) ys"
  shows "wf_fields (xs @ ys)"
proof -
  have "fst kv \<noteq> fst kv'" if "kv \<in> set xs" "kv' \<in> set ys" for kv kv'
    using assms(3,4) that by (auto simp: list_all_iff known_in_def)
  then have "fst ` set xs \<inter> fst ` set ys = {}" by fast
  then show ?thesis using assms(1,2) by (simp add: wf_fields_def)
qed

lemma wf_with_slot: "wf_fields ext \<Longrightarrow> wf_fields (with_slot ext)"
  by (simp add: with_slot_def wf_fields_def js_wf.simps)

lemma json_with_slot: "json_fields ext \<Longrightarrow> json_fields (with_slot ext)"
  by (simp add: with_slot_def json_fields_def EXTENSIONS_def is_json.simps)

lemma unknown_with_slot: "(ext \<noteq> [] \<Longrightarrow> isOpen) \<Longrightarrow> list_all (\<lambda>kv. \<not> known kv) (with_slot ext)"
  using slot_with_slot [of ext] slot_unknown by (auto simp: list_all_iff)

lemma wf_filter: "wf_fields es \<Longrightarrow> wf_fields (filter P es)"
  by (auto simp: wf_fields_def distinct_map_filter list_all_iff)

lemma plain_filter: "plain_fields es \<Longrightarrow> plain_fields (filter P es)"
  by (auto simp: plain_fields_def)

lemma unknown_json: "plain_fields ext \<Longrightarrow> list_all (\<lambda>kv. json_value (snd kv)) ext \<Longrightarrow> json_fields ext"
  using json_value_json by (auto simp: plain_fields_def json_fields_def list_all_iff)

lemma fields_decoded:
  assumes "fields2 (\<lambda>k x y. decode (field_codec k) x [] = Inr y) xs ys" "plain_fields xs" "wf_fields xs" "list_all known xs"
  shows "wf_fields ys" "json_fields ys" "json_fields xs" "list_all known ys"
proof -
  have f: "js_wf y \<and> is_json y \<and> is_json x" if "(k, x) \<in> set xs" "decode (field_codec k) x [] = Inr y" "js_wf x" for k x y
  proof -
    have "known (k, x)" using assms(4) that(1) by (simp add: list_all_iff)
    then have c: "faithful_codec (field_codec k)" by (rule field_codec_faithful)
    show ?thesis by (rule faithful_codec.decoded [OF c that(3,2)])
  qed
  show "wf_fields ys" "json_fields ys" by (rule fields2_json [OF assms(1-3)]; use f in blast)+
  show "json_fields xs" by (rule fields2_json_source [OF assms(1,2)]) (use f assms(3) in \<open>auto simp: wf_fields_def list_all_iff\<close>)
  show "list_all known ys" by (rule keys_known [OF fields2_keys [OF assms(1)] assms(4)])
qed

lemma fields_encoded:
  assumes "fields2 (\<lambda>k x y. encode (field_codec k) x [] = Inr y) xs ys" "plain_fields xs" "wf_fields xs" "list_all known xs"
  shows "wf_fields ys" "json_fields ys" "list_all known ys"
proof -
  have f: "js_wf y \<and> is_json y" if "(k, x) \<in> set xs" "encode (field_codec k) x [] = Inr y" "js_wf x" for k x y
  proof -
    have "known (k, x)" using assms(4) that(1) by (simp add: list_all_iff)
    then have c: "faithful_codec (field_codec k)" by (rule field_codec_faithful)
    show ?thesis by (rule faithful_codec.encoded [OF c that(3,2)])
  qed
  show "wf_fields ys" "json_fields ys" by (rule fields2_json [OF assms(1-3)]; use f in blast)+
  show "list_all known ys" by (rule keys_known [OF fields2_keys [OF assms(1)] assms(4)])
qed

lemma fields_decode_encode:
  assumes "fields2 (\<lambda>k x y. decode (field_codec k) x [] = Inr y) xs ys" "wf_fields xs" "list_all known xs"
  shows "\<exists>zs. fields2 (\<lambda>k y z. encode (field_codec k) y [] = Inr z) ys zs \<and> map canon_field zs = map canon_field xs"
proof -
  have step: "\<exists>z. encode (field_codec k) y [] = Inr z \<and> canonical z = canonical x"
    if "(k, x) \<in> set xs" "decode (field_codec k) x [] = Inr y" for k x y
  proof -
    have "known (k, x)" "js_wf x" using assms(2,3) that(1) by (auto simp: list_all_iff wf_fields_def)
    have c: "faithful_codec (field_codec k)" by (rule field_codec_faithful [OF \<open>known (k, x)\<close>])
    show ?thesis by (rule faithful_codec.decode_encode [OF c \<open>js_wf x\<close> that(2)])
  qed
  have "\<exists>zs. fields2 (\<lambda>k y z. encode (field_codec k) y [] = Inr z) ys zs \<and> fields2 (\<lambda>k x z. canonical z = canonical x) xs zs"
    by (rule fields2_compose [OF assms(1)]) (rule step)
  then obtain zs where zs: "fields2 (\<lambda>k y z. encode (field_codec k) y [] = Inr z) ys zs" "fields2 (\<lambda>k x z. canonical z = canonical x) xs zs"
    by blast
  then show ?thesis using fields2_canon [OF zs(2)] by blast
qed

lemma fields_encode_decode:
  assumes "fields2 (\<lambda>k x y. encode (field_codec k) x [] = Inr y) xs ys" "wf_fields xs" "list_all known xs"
  shows "\<exists>ws. fields2 (\<lambda>k y w. decode (field_codec k) y [] = Inr w) ys ws \<and> fields2 (\<lambda>k w y. encode (field_codec k) w [] = Inr y) ws ys"
proof -
  have step: "\<exists>w. (decode (field_codec k) y [] = Inr w \<and> encode (field_codec k) w [] = Inr y) \<and> True"
    if "(k, x) \<in> set xs" "encode (field_codec k) x [] = Inr y" for k x y
  proof -
    have "known (k, x)" "js_wf x" using assms(2,3) that(1) by (auto simp: list_all_iff wf_fields_def)
    have c: "faithful_codec (field_codec k)" by (rule field_codec_faithful [OF \<open>known (k, x)\<close>])
    show ?thesis using faithful_codec.encode_decode [OF c \<open>js_wf x\<close> that(2)] by blast
  qed
  have "\<exists>ws. fields2 (\<lambda>k y w. decode (field_codec k) y [] = Inr w \<and> encode (field_codec k) w [] = Inr y) ys ws
      \<and> fields2 (\<lambda>k x w. True) xs ws"
    by (rule fields2_compose [OF assms(1)]) (rule step)
  then obtain ws where ws: "fields2 (\<lambda>k y w. decode (field_codec k) y [] = Inr w \<and> encode (field_codec k) w [] = Inr y) ys ws" by blast
  have "fields2 (\<lambda>k y w. decode (field_codec k) y [] = Inr w) ys ws" by (rule fields2_mono [OF ws]) simp
  moreover have "fields2 (\<lambda>k w y. encode (field_codec k) w [] = Inr y) ws ys"
    by (rule fields2_mono [OF fields2_conv [OF ws]]) simp
  ultimately show ?thesis by blast
qed

lemma forbidden_ok: "list_all unknown_ok (filter (\<lambda>kv. \<not> known kv) es) \<longleftrightarrow> list_all extension_ok (filter (\<lambda>kv. \<not> known kv) es)
    \<and> (filter (\<lambda>kv. \<not> known kv) es \<noteq> [] \<longrightarrow> isOpen)"
  by (auto simp: list_all_iff extension_ok_def unknown_at_def filter_empty_conv)

lemma extension_json: "plain_fields ext \<Longrightarrow> list_all extension_ok ext \<Longrightarrow> json_fields ext \<and> list_all (\<lambda>kv. \<not> known kv) ext"
  using unknown_json [of ext] by (auto simp: extension_ok_def list_all_iff)

text \<open>What decoding gives, and that encoding it gives the content back.\<close>

lemma record_decoded:
  assumes "js_wf raw" "decode_record shape isOpen forbidden raw p = Inr v"
  shows "js_wf v \<and> is_json v \<and> is_json raw"
proof -
  obtain es out where e: "raw = plain_obj es" "plain_fields es"
      "fields2 (\<lambda>k x y. decode (field_codec k) x [] = Inr y) (filter known es) out"
      "list_all unknown_ok (filter (\<lambda>kv. \<not> known kv) es)" "v = plain_obj (out @ with_slot (filter (\<lambda>kv. \<not> known kv) es))"
    using assms(2) by (auto simp: decode_record_Inr)
  let ?ext = "filter (\<lambda>kv. \<not> known kv) es"
  have wf: "wf_fields es" using assms(1) e(1) by simp
  have "list_all known (filter known es)" by (simp add: list_all_iff)
  note out = fields_decoded [OF e(3) plain_filter [OF e(2)] wf_filter [OF wf] this]
  have ext: "json_fields ?ext" "?ext \<noteq> [] \<Longrightarrow> isOpen"
    using e(4) extension_json [OF plain_filter [OF e(2)]] by (auto simp: forbidden_ok)
  have "json_fields es" using out(3) ext(1) by (auto simp: json_fields_def list_all_iff)
  moreover have "wf_fields (out @ with_slot ?ext)"
    by (rule wf_append [OF out(1) wf_with_slot [OF wf_filter [OF wf]] out(4) unknown_with_slot]) (rule ext(2))
  ultimately show ?thesis using out(2) json_with_slot [OF ext(1)] by (simp add: e(1,5))
qed

lemma record_encoded:
  assumes "js_wf v" "encode_record shape isOpen forbidden v p = Inr j"
  shows "js_wf j \<and> is_json j"
proof -
  obtain es out ext where e: "v = plain_obj es" "plain_fields es"
      "fields2 (\<lambda>k x y. encode (field_codec k) x [] = Inr y) (filter (\<lambda>kv. \<not> slot kv) es) out"
      "\<forall>kv \<in> set es. slot kv \<or> known kv \<and> snd kv \<noteq> JsUndefined"
      "if slot_value es = JsUndefined then ext = [] else slot_value es = plain_obj ext \<and> plain_fields ext \<and> list_all extension_ok ext"
      "j = plain_obj (out @ ext)"
    using assms(2) by (auto simp only: encode_record_Inr)
  have wf: "wf_fields es" using assms(1) e(1) by simp
  have "list_all known (filter (\<lambda>kv. \<not> slot kv) es)" using e(4) by (auto simp: list_all_iff)
  note out = fields_encoded [OF e(3) plain_filter [OF e(2)] wf_filter [OF wf] this]
  have "js_wf (slot_value es)"
    using wf find_Some_member [of slot es] by (fastforce simp: slot_value_def wf_fields_def list_all_iff js_wf.simps split: option.split)
  then have ext: "wf_fields ext" "json_fields ext" "list_all (\<lambda>kv. \<not> known kv) ext"
    using e(5) extension_json [of ext] by (auto simp: wf_fields_def json_fields_def split: if_splits)
  show ?thesis using wf_append [OF out(1) ext(1) out(3) ext(3)] out(2) ext(2) by (simp add: e(6))
qed

lemma encode_slotted:
  assumes "fields2 (\<lambda>k x y. encode (field_codec k) x [] = Inr y) ys zs" "list_all known ys" "json_fields ys" "complete ys"
    and "plain_fields ext" "list_all extension_ok ext" "ext \<noteq> [] \<Longrightarrow> isOpen"
  shows "encode_record shape isOpen forbidden (plain_obj (ys @ with_slot ext)) p = Inr (plain_obj (zs @ ext))"
proof -
  have plain: "plain_fields (ys @ with_slot ext)"
    using json_fields_plain [OF assms(3)] by (auto simp: plain_fields_def with_slot_def EXTENSIONS_def)
  have ok: "\<forall>kv \<in> set (ys @ with_slot ext). slot kv \<or> known kv \<and> snd kv \<noteq> JsUndefined"
    using assms(2,3) slot_with_slot [OF assms(7)] by (auto simp: list_all_iff json_fields_def)
  show ?thesis
    unfolding encode_record_Inr
    by (rule exI [of _ "ys @ with_slot ext"], rule exI [of _ zs], rule exI [of _ ext])
      (use assms plain ok slotted [OF assms(2,7)] complete_keys [OF fields2_keys [OF assms(1)]] in auto)
qed

lemma decode_split:
  assumes "fields2 (\<lambda>k x y. decode (field_codec k) x [] = Inr y) xs ys" "list_all known xs" "plain_fields xs" "complete xs"
    and "plain_fields ext" "list_all extension_ok ext" "ext \<noteq> [] \<Longrightarrow> isOpen"
  shows "decode_record shape isOpen forbidden (plain_obj (xs @ ext)) p = Inr (plain_obj (ys @ with_slot ext))"
proof -
  have split: "filter known (xs @ ext) = xs" "filter (\<lambda>kv. \<not> known kv) (xs @ ext) = ext"
    using assms(2,6) by (auto simp: list_all_iff extension_ok_def intro!: filter_True filter_False)
  have ok: "list_all unknown_ok ext"
    using assms(6,7) by (cases ext) (auto simp: list_all_iff unknown_at_def extension_ok_def)
  show ?thesis
    unfolding decode_record_Inr
    by (rule exI [of _ "xs @ ext"], rule exI [of _ ys])
      (use assms ok split complete_keys [OF fields2_keys [OF assms(1)]] in \<open>auto simp: plain_fields_def\<close>)
qed

lemma record_decode_encode:
  assumes "js_wf raw" "decode_record shape isOpen forbidden raw p = Inr v"
  shows "\<exists>j. encode_record shape isOpen forbidden v p = Inr j \<and> canonical j = canonical raw"
proof -
  obtain es out where e: "raw = plain_obj es" "plain_fields es"
      "fields2 (\<lambda>k x y. decode (field_codec k) x [] = Inr y) (filter known es) out"
      "list_all unknown_ok (filter (\<lambda>kv. \<not> known kv) es)" "complete out" "v = plain_obj (out @ with_slot (filter (\<lambda>kv. \<not> known kv) es))"
    using assms(2) by (auto simp: decode_record_Inr)
  define ext where "ext = filter (\<lambda>kv. \<not> known kv) es"
  have wf: "wf_fields es" using assms(1) e(1) by simp
  have kn: "list_all known (filter known es)" by (simp add: list_all_iff)
  note out = fields_decoded [OF e(3) plain_filter [OF e(2)] wf_filter [OF wf] kn]
  have ext: "plain_fields ext" "list_all extension_ok ext" "ext \<noteq> [] \<Longrightarrow> isOpen"
    using e(4) plain_filter [OF e(2)] by (auto simp: forbidden_ok ext_def)
  obtain zs where zs: "fields2 (\<lambda>k y z. encode (field_codec k) y [] = Inr z) out zs" "map canon_field zs = map canon_field (filter known es)"
    using fields_decode_encode [OF e(3) wf_filter [OF wf] kn] by blast
  have enc: "encode_record shape isOpen forbidden v p = Inr (plain_obj (zs @ ext))"
    unfolding e(6) ext_def [symmetric] by (rule encode_slotted [OF zs(1) out(4,2) e(5) ext])
  have "mset (filter known es) + mset ext = mset es" unfolding ext_def mset_filter by (rule multiset_partition [symmetric])
  then have "mset (map canon_field es) = mset (map canon_field (zs @ ext))"
    by (simp add: zs(2)) (metis image_mset_union mset_map)
  moreover have "json_fields es" using record_decoded [OF assms] e(1) by simp
  moreover have "json_fields (zs @ ext)"
    using fields_encoded(2) [OF zs(1) json_fields_plain [OF out(2)] out(1,4)] extension_json [OF ext(1,2)] by simp
  ultimately have "canonical (plain_obj es) = canonical (plain_obj (zs @ ext))"
    using wf by (intro canonical_fields) (simp_all add: wf_fields_def)
  then show ?thesis using enc e(1) by simp
qed

lemma record_encode_decode:
  assumes "js_wf v" "encode_record shape isOpen forbidden v p = Inr j"
  shows "\<exists>w. decode_record shape isOpen forbidden j p = Inr w \<and> encode_record shape isOpen forbidden w p = Inr j"
proof -
  obtain es out ext where e: "v = plain_obj es" "plain_fields es"
      "fields2 (\<lambda>k x y. encode (field_codec k) x [] = Inr y) (filter (\<lambda>kv. \<not> slot kv) es) out"
      "\<forall>kv \<in> set es. slot kv \<or> known kv \<and> snd kv \<noteq> JsUndefined" "complete out"
      "if slot_value es = JsUndefined then ext = [] else slot_value es = plain_obj ext \<and> plain_fields ext \<and> list_all extension_ok ext"
      "j = plain_obj (out @ ext)"
    using assms(2) by (auto simp only: encode_record_Inr)
  have wf: "wf_fields es" using assms(1) e(1) by simp
  have kn: "list_all known (filter (\<lambda>kv. \<not> slot kv) es)" using e(4) by (auto simp: list_all_iff)
  note out = fields_encoded [OF e(3) plain_filter [OF e(2)] wf_filter [OF wf] kn]
  have ext: "plain_fields ext" "list_all extension_ok ext" using e(6) by (auto simp: plain_fields_def split: if_splits)
  have is_opened: "isOpen" if "ext \<noteq> []"
    using that e(6) find_Some_member [of slot es] by (auto simp: slot_value_def slot_at_def split: if_splits option.splits)
  obtain ws where ws: "fields2 (\<lambda>k y w. decode (field_codec k) y [] = Inr w) out ws"
      "fields2 (\<lambda>k w y. encode (field_codec k) w [] = Inr y) ws out"
    using fields_encode_decode [OF e(3) wf_filter [OF wf] kn] by blast
  note decoded_again = fields_decoded [OF ws(1) json_fields_plain [OF out(2)] out(1,3)]
  have "decode_record shape isOpen forbidden j p = Inr (plain_obj (ws @ with_slot ext))"
    unfolding e(7) by (rule decode_split [OF ws(1) out(3) json_fields_plain [OF out(2)] e(5) ext is_opened])
  moreover have "complete ws" using complete_keys [OF fields2_keys [OF ws(1)]] e(5) by simp
  then have "encode_record shape isOpen forbidden (plain_obj (ws @ with_slot ext)) p = Inr j"
    unfolding e(7) by (intro encode_slotted [OF ws(2) decoded_again(4,2)] ext is_opened)
  ultimately show ?thesis by blast
qed

lemma faithful_record: "faithful_codec (buildRecord shape isOpen forbidden)"
proof
  show "decode (buildRecord shape isOpen forbidden) raw p = Inr v \<Longrightarrow> decode (buildRecord shape isOpen forbidden) raw q = Inr v" for raw p v q
    by (simp add: buildRecord_def decode_record_Inr)
  show "encode (buildRecord shape isOpen forbidden) v p = Inr j \<Longrightarrow> encode (buildRecord shape isOpen forbidden) v q = Inr j" for v p j q
    by (simp add: buildRecord_def encode_record_Inr)
  show "decode (buildRecord shape isOpen forbidden) raw p = Inr JsNull \<Longrightarrow> raw = JsNull" for raw p
    by (simp add: buildRecord_def decode_record_Inr)
  show "encode (buildRecord shape isOpen forbidden) v p = Inr JsNull \<Longrightarrow> v = JsNull" for v p
    by (simp add: buildRecord_def encode_record_Inr)
  note simps = buildRecord_def codec.simps
  show "js_wf raw \<Longrightarrow> decode (buildRecord shape isOpen forbidden) raw p = Inr v \<Longrightarrow> js_wf v \<and> is_json v \<and> is_json raw" for raw p v
    unfolding simps by (rule record_decoded)
  show "js_wf v \<Longrightarrow> encode (buildRecord shape isOpen forbidden) v p = Inr j \<Longrightarrow> js_wf j \<and> is_json j" for v p j
    unfolding simps by (rule record_encoded)
  show "js_wf raw \<Longrightarrow> decode (buildRecord shape isOpen forbidden) raw p = Inr v
      \<Longrightarrow> \<exists>j. encode (buildRecord shape isOpen forbidden) v p = Inr j \<and> canonical j = canonical raw" for raw p v
    unfolding simps by (rule record_decode_encode)
  show "js_wf v \<Longrightarrow> encode (buildRecord shape isOpen forbidden) v p = Inr j
      \<Longrightarrow> \<exists>w. decode (buildRecord shape isOpen forbidden) j p = Inr w \<and> encode (buildRecord shape isOpen forbidden) w p = Inr j" for v p j
    unfolding simps by (rule record_encode_decode)
qed

end

lemma faithful_buildRecord:
  assumes "list_all (\<lambda>(k, f). faithful_codec (fd_codec f)) shape" "isOpen \<longrightarrow> EXTENSIONS \<notin> fst ` set shape"
  shows "faithful_codec (buildRecord shape isOpen forbidden)"
proof -
  have f: "faithful_codec (fd_codec f)" if "map_of shape k = Some f" for k f
    using assms(1) map_of_SomeD [OF that] by (auto simp: list_all_iff)
  have e: "map_of shape EXTENSIONS = None" if isOpen
    using assms(2) that by (simp only: map_of_eq_None_iff) blast
  have "record_shape shape isOpen" by (rule record_shape.intro [OF f e])
  then show ?thesis by (rule record_shape.faithful_record)
qed

end
