(* ===== verification/Record_Fields.thy ===== *)
theory Record_Fields
  imports Record_Facts
begin

text \<open>
  Records field by field: which objects decode or encode, by the values their keys have. From this follows what a
  merge of two accepted objects keeps.
\<close>

lemma fields2_ex: "fields2 R xs ys \<Longrightarrow> (k, x) \<in> set xs \<Longrightarrow> \<exists>y. R k x y"
  by (induction xs arbitrary: ys) (auto simp: fields2_Cons1)

definition plain_field :: "string \<Rightarrow> js \<Rightarrow> bool" where
  "plain_field k x \<longleftrightarrow> k \<noteq> ''__proto__'' \<and> x \<noteq> JsHidden"

lemma plain_fields_lookup:
  "distinct (map fst es) \<Longrightarrow> plain_fields es \<longleftrightarrow> (\<forall>k x. map_of es k = Some x \<longrightarrow> plain_field k x)"
  by (auto simp: plain_fields_def plain_field_def)

lemma each_lookup: "distinct (map fst es) \<Longrightarrow> (\<forall>kv \<in> set es. P kv) \<longleftrightarrow> (\<forall>k x. map_of es k = Some x \<longrightarrow> P (k, x))"
  by auto

context record_shape
begin

definition decodes :: "string \<Rightarrow> js \<Rightarrow> bool" where
  "decodes k x \<longleftrightarrow> plain_field k x \<and>
     (if known (k, x) then \<exists>y. decode (field_codec k) x [] = Inr y else unknown_ok (k, x))"

definition extensions_ok :: "js \<Rightarrow> bool" where
  "extensions_ok x \<longleftrightarrow> x = JsUndefined \<or> (\<exists>ext. x = plain_obj ext \<and> plain_fields ext \<and> list_all extension_ok ext)"

definition encodes :: "string \<Rightarrow> js \<Rightarrow> bool" where
  "encodes k x \<longleftrightarrow> plain_field k x \<and>
     (if slot (k, x) then extensions_ok x
      else known (k, x) \<and> x \<noteq> JsUndefined \<and> (\<exists>y. encode (field_codec k) x [] = Inr y))"

definition complete_map :: "(string \<Rightarrow> js option) \<Rightarrow> bool" where
  "complete_map m \<longleftrightarrow> (\<forall>(k, f) \<in> set shape. fd_required f \<longrightarrow> m k \<noteq> None)"

lemma shape_known: "(k, f) \<in> set shape \<Longrightarrow> known (k, x)"
  using map_of_eq_None_iff [of shape k] by (force simp: known_in_def)

lemma complete_known:
  assumes "\<And>kv. known kv \<Longrightarrow> P kv"
  shows "complete (filter P es) \<longleftrightarrow> complete_map (map_of es)"
proof -
  have "k \<in> fst ` set (filter P es) \<longleftrightarrow> map_of es k \<noteq> None" if "(k, f) \<in> set shape" for k f
    using assms shape_known [OF that] map_of_eq_None_iff [of es k] by (force simp: image_iff)
  then show ?thesis unfolding complete_def complete_map_def by (intro ball_cong) auto
qed

lemma record_decodes:
  assumes "distinct (map fst es)"
  shows "(\<exists>v. decode_record shape isOpen forbidden (plain_obj es) p = Inr v) \<longleftrightarrow>
    (\<forall>k x. map_of es k = Some x \<longrightarrow> decodes k x) \<and> complete_map (map_of es)" (is "?l \<longleftrightarrow> ?r")
proof
  assume ?l
  then obtain out where o: "plain_fields es" "fields2 (\<lambda>k x y. decode (field_codec k) x [] = Inr y) (filter known es) out"
      "list_all unknown_ok (filter (\<lambda>kv. \<not> known kv) es)" "complete out"
    by (auto simp: decode_record_Inr)
  have "complete (filter known es)" using complete_keys [OF fields2_keys [OF o(2)]] o(4) by simp
  moreover have "decodes k x" if "map_of es k = Some x" for k x
    using o(1,3) fields2_ex [OF o(2), of k x] map_of_SomeD [OF that] that
    by (auto simp: decodes_def plain_fields_lookup [OF assms] list_all_iff)
  ultimately show ?r by (simp add: complete_known)
next
  assume r: ?r
  have "\<exists>out. fields2 (\<lambda>k x y. decode (field_codec k) x [] = Inr y) (filter known es) out"
    by (rule fields2_choice) (use r assms in \<open>auto simp: decodes_def\<close>)
  then obtain out where o: "fields2 (\<lambda>k x y. decode (field_codec k) x [] = Inr y) (filter known es) out" by blast
  have "complete out" using complete_keys [OF fields2_keys [OF o]] complete_known [of known es] r by simp
  moreover have "list_all unknown_ok (filter (\<lambda>kv. \<not> known kv) es)"
    using r assms by (fastforce simp: list_all_iff decodes_def)
  moreover have "plain_fields es" using r by (auto simp: plain_fields_lookup [OF assms] decodes_def)
  ultimately show ?l using o by (auto simp: decode_record_Inr)
qed

lemma slot_value_lookup: "slot_value es = (if isOpen then (case map_of es EXTENSIONS of None \<Rightarrow> JsUndefined | Some x \<Rightarrow> x) else JsUndefined)"
  by (induction es) (auto simp: slot_value_def slot_at_def)

lemma record_encodes:
  assumes "distinct (map fst es)"
  shows "(\<exists>j. encode_record shape isOpen forbidden (plain_obj es) p = Inr j) \<longleftrightarrow>
    (\<forall>k x. map_of es k = Some x \<longrightarrow> encodes k x) \<and> complete_map (map_of es)" (is "?l \<longleftrightarrow> ?r")
proof
  assume ?l
  then obtain out ext where o: "plain_fields es"
      "fields2 (\<lambda>k x y. encode (field_codec k) x [] = Inr y) (filter (\<lambda>kv. \<not> slot kv) es) out"
      "\<forall>kv \<in> set es. slot kv \<or> known kv \<and> snd kv \<noteq> JsUndefined" "complete out"
      "if slot_value es = JsUndefined then ext = [] else slot_value es = plain_obj ext \<and> plain_fields ext \<and> list_all extension_ok ext"
    by (auto simp only: encode_record_Inr js.inject)
  have "complete (filter (\<lambda>kv. \<not> slot kv) es)" using complete_keys [OF fields2_keys [OF o(2)]] o(4) by simp
  moreover have "encodes k x" if "map_of es k = Some x" for k x
  proof (cases "slot (k, x)")
    case True
    then have "slot_value es = x" unfolding slot_value_lookup using that by (auto simp: slot_at_def)
    then have "extensions_ok x" using o(5) by (auto simp: extensions_ok_def split: if_splits)
    then show ?thesis using True o(1) that by (simp add: encodes_def plain_fields_lookup [OF assms])
  next
    case False
    then show ?thesis
      using o(1,3) fields2_ex [OF o(2), of k x] map_of_SomeD [OF that] that
      by (auto simp: encodes_def plain_fields_lookup [OF assms])
  qed
  ultimately show ?r using slot_unknown by (metis complete_known)
next
  assume r: ?r
  have "\<exists>out. fields2 (\<lambda>k x y. encode (field_codec k) x [] = Inr y) (filter (\<lambda>kv. \<not> slot kv) es) out"
    by (rule fields2_choice) (use r assms in \<open>auto simp: encodes_def\<close>)
  then obtain out where o: "fields2 (\<lambda>k x y. encode (field_codec k) x [] = Inr y) (filter (\<lambda>kv. \<not> slot kv) es) out" by blast
  have "complete (filter (\<lambda>kv. \<not> slot kv) es)" using r slot_unknown by (metis complete_known)
  then have "complete out" using complete_keys [OF fields2_keys [OF o]] by simp
  moreover have "\<forall>kv \<in> set es. slot kv \<or> known kv \<and> snd kv \<noteq> JsUndefined"
    using r assms by (fastforce simp: encodes_def split: if_splits)
  moreover have "plain_fields es" using r by (auto simp: plain_fields_lookup [OF assms] encodes_def)
  moreover have "extensions_ok (slot_value es)"
    using r by (auto simp: slot_value_lookup encodes_def slot_at_def extensions_ok_def split: option.split if_splits)
  then have "\<exists>ext. if slot_value es = JsUndefined then ext = []
      else slot_value es = plain_obj ext \<and> plain_fields ext \<and> list_all extension_ok ext"
    by (auto simp: extensions_ok_def)
  ultimately show ?l using o unfolding encode_record_Inr by blast
qed

text \<open>Two accepted objects merged, the second over the first, are accepted.\<close>

lemma merged_decodes:
  assumes "decode_record shape isOpen forbidden (plain_obj a) p = Inr v" "decode_record shape isOpen forbidden (plain_obj b) p = Inr w"
    and "distinct (map fst a)" "distinct (map fst b)" "distinct (map fst c)" "map_of c = map_of a ++ map_of b"
  shows "\<exists>u. decode_record shape isOpen forbidden (plain_obj c) p = Inr u"
proof -
  note ab = record_decodes [OF assms(3), THEN iffD1, OF exI, OF assms(1)] record_decodes [OF assms(4), THEN iffD1, OF exI, OF assms(2)]
  have "decodes k x" if "map_of c k = Some x" for k x
    using that ab unfolding assms(6) by (auto simp: map_add_Some_iff)
  moreover have "complete_map (map_of c)"
    using ab(1) unfolding assms(6) by (auto simp: complete_map_def map_add_def split: option.split)
  ultimately show ?thesis using record_decodes [OF assms(5)] by blast
qed

end

end
