(* ===== verification/Account_Values.thy ===== *)
theory Account_Values
  imports Account_Codec
begin

text \<open>
  The shapes of the stored values and the functions the repository uses: \<^verbatim>\<open>account-repository-codecs.ts\<close>, from
  the field rules on.
\<close>

section \<open>Field rules\<close>

definition CREDENTIAL_REFUSAL :: string where
  "CREDENTIAL_REFUSAL = ''is a credential field; credentials live only in the store's own credential entry''"

definition CREDENTIAL_KEYS :: "(string \<times> string) list" where
  "CREDENTIAL_KEYS =
     [(''refreshToken'', CREDENTIAL_REFUSAL), (''accessToken'', CREDENTIAL_REFUSAL), (''access'', CREDENTIAL_REFUSAL),
      (''refresh'', CREDENTIAL_REFUSAL), (''expires'', CREDENTIAL_REFUSAL), (''apiKey'', CREDENTIAL_REFUSAL)]"

definition POOL_FIELD_REFUSAL :: string where
  "POOL_FIELD_REFUSAL = ''belongs to the store's roster or to the routing settings, not provider metadata''"

definition QUOTA_FIELD_REFUSAL :: string where
  "QUOTA_FIELD_REFUSAL = ''belongs to the quota value, not provider metadata''"

definition LEGACY_FIELD_REFUSAL :: string where
  "LEGACY_FIELD_REFUSAL = ''is a pre-v4 field; the migration normalises it before import''"

definition METADATA_FIELD_REFUSAL :: string where
  "METADATA_FIELD_REFUSAL = ''belongs to provider metadata, not quota''"

definition PROVIDER_STATE_SCHEMA_VERSION :: nat where
  "PROVIDER_STATE_SCHEMA_VERSION = 1"

definition QUOTA_STATE_SCHEMA_VERSION :: nat where
  "QUOTA_STATE_SCHEMA_VERSION = 1"

definition ROUTING_SETTINGS_SCHEMA_VERSION :: nat where
  "ROUTING_SETTINGS_SCHEMA_VERSION = 1"

section \<open>Provider metadata and quota\<close>

definition clientMetadataCodec :: codec where
  "clientMetadataCodec = openRecord
     [(''ideType'', required string_codec), (''platform'', required string_codec), (''pluginType'', required string_codec)] []"

definition fingerprintCodec :: codec where
  "fingerprintCodec = openRecord
     [(''deviceId'', required string_codec), (''sessionToken'', required string_codec), (''userAgent'', required string_codec),
      (''apiClient'', required string_codec), (''clientMetadata'', required clientMetadataCodec),
      (''createdAt'', required finiteNumber)] []"

definition fingerprintVersionCodec :: codec where
  "fingerprintVersionCodec = openRecord
     [(''fingerprint'', required fingerprintCodec), (''timestamp'', required finiteNumber),
      (''reason'', required (enumOf [''initial'', ''regenerated'', ''restored'']))] []"

definition dailyRequestCountsCodec :: codec where
  "dailyRequestCountsCodec = openRecord
     [(''date'', required string_codec), (''claude'', required count_codec), (''gemini'', required count_codec)] []"

definition metadataShape :: shape where
  "metadataShape =
     [(''email'', optional (nullable string_codec)),
      (''projectId'', optional (nullable string_codec)),
      (''managedProjectId'', optional (nullable string_codec)),
      (''addedAt'', required finiteNumber),
      (''lastUsed'', required finiteNumber),
      (''enabled'', optional (nullable boolean_codec)),
      (''lastSwitchReason'', optional (nullable (enumOf [''rate-limit'', ''initial'', ''rotation'']))),
      (''rateLimitResetTimes'', optional (nullable (mapOf (nullable finiteNumber)))),
      (''coolingDownUntil'', optional (nullable finiteNumber)),
      (''cooldownReason'',
         optional (nullable (enumOf [''auth-failure'', ''network-error'', ''project-error'', ''validation-required'']))),
      (''label'', optional (nullable string_codec)),
      (''fingerprint'', optional (nullable fingerprintCodec)),
      (''fingerprintHistory'', optional (nullable (arrayOf fingerprintVersionCodec))),
      (''verificationRequired'', optional (nullable boolean_codec)),
      (''verificationRequiredAt'', optional (nullable finiteNumber)),
      (''verificationRequiredReason'', optional (nullable string_codec)),
      (''verificationUrl'', optional (nullable string_codec)),
      (''accountIneligible'', optional (nullable boolean_codec)),
      (''accountIneligibleAt'', optional (nullable finiteNumber)),
      (''accountIneligibleReason'', optional (nullable string_codec)),
      (''eligibilityStateUpdatedAt'', optional (nullable finiteNumber)),
      (''capturedTierId'', optional (nullable string_codec)),
      (''capturedPaidTierId'', optional (nullable string_codec)),
      (''capturedTierAt'', optional (nullable finiteNumber)),
      (''capturedTierSchemaVersion'', optional (nullable finiteNumber)),
      (''dailyRequestCounts'', optional (nullable dailyRequestCountsCodec))]"

definition quotaWindowCodec :: codec where
  "quotaWindowCodec = openRecord
     [(''window'', required (enumOf [''weekly'', ''5h''])), (''remainingFraction'', required finiteNumber),
      (''resetTime'', required string_codec)] []"

definition quotaGroupCodec :: codec where
  "quotaGroupCodec = openRecord
     [(''remainingFraction'', optional (nullable finiteNumber)), (''resetTime'', optional (nullable string_codec)),
      (''modelCount'', required finiteNumber), (''windows'', optional (nullable (arrayOf quotaWindowCodec)))] []"

definition modelQuotaCodec :: codec where
  "modelQuotaCodec = openRecord
     [(''modelId'', required string_codec), (''displayName'', optional (nullable string_codec)),
      (''group'', required (nullable string_codec)), (''remainingFraction'', required finiteNumber),
      (''resetTime'', optional (nullable string_codec))] []"

definition quotaShape :: shape where
  "quotaShape =
     [(''schemaVersion'', required (schemaVersion QUOTA_STATE_SCHEMA_VERSION)),
      (''cachedQuotaAccountId'', optional (nullable string_codec)),
      (''cachedQuota'', optional (nullable (mapOf quotaGroupCodec))),
      (''cachedPerModelQuota'', optional (nullable (arrayOf modelQuotaCodec))),
      (''cachedQuotaUpdatedAt'', optional (nullable finiteNumber))]"

definition metadataForbidden :: "(string \<times> string) list" where
  "metadataForbidden =
     CREDENTIAL_KEYS
     @ [(''version'', POOL_FIELD_REFUSAL), (''accounts'', POOL_FIELD_REFUSAL), (''activeIndex'', POOL_FIELD_REFUSAL),
        (''activeIndexByFamily'', POOL_FIELD_REFUSAL), (''isRateLimited'', LEGACY_FIELD_REFUSAL),
        (''rateLimitResetTime'', LEGACY_FIELD_REFUSAL)]
     @ map (\<lambda>key. (key, QUOTA_FIELD_REFUSAL)) (filter (\<lambda>key. key \<noteq> ''schemaVersion'') (map fst quotaShape))"

definition quotaForbidden :: "(string \<times> string) list" where
  "quotaForbidden = CREDENTIAL_KEYS @ map (\<lambda>key. (key, METADATA_FIELD_REFUSAL)) (map fst metadataShape)"

definition metadataCodec :: codec where
  "metadataCodec = openRecord metadataShape metadataForbidden"

definition providerStateCodec :: codec where
  "providerStateCodec = openRecord
     [(''schemaVersion'', required (schemaVersion PROVIDER_STATE_SCHEMA_VERSION)), (''metadata'', required metadataCodec)]
     CREDENTIAL_KEYS"

definition quotaCodec :: codec where
  "quotaCodec = openRecord quotaShape quotaForbidden"

section \<open>Account selection\<close>

definition rowRefCodec :: codec where
  "rowRefCodec = closedRecord
     [(''id'', required rowId), (''credentialEpoch'', required credentialEpoch), (''identity'', optional nonEmptyString)]"

definition routingCodec :: codec where
  "routingCodec = openRecord
     [(''schemaVersion'', required (schemaVersion ROUTING_SETTINGS_SCHEMA_VERSION)),
      (''activeIndex'', optional (nullable finiteNumber)),
      (''activeIndexByFamily'', optional (nullable (openRecord
         [(''claude'', optional (nullable finiteNumber)), (''gemini'', optional (nullable finiteNumber))] []))),
      (''activeRow'', optional (nullable rowRefCodec)),
      (''activeRowByFamily'', optional (nullable (openRecord
         [(''claude'', optional (nullable rowRefCodec)), (''gemini'', optional (nullable rowRefCodec))] [])))]
     CREDENTIAL_KEYS"

section \<open>The functions of the module\<close>

definition asObject :: "js \<Rightarrow> js checked" where
  "asObject value =
     (case value of
        JsObj kind es \<Rightarrow> if kind = OwnPrototype then codec_fail ''$'' ''did not encode to an object'' else Inr value
      | _ \<Rightarrow> codec_fail ''$'' ''did not encode to an object'')"

definition validates :: "(js \<Rightarrow> js checked) \<Rightarrow> js \<Rightarrow> bool" where
  "validates read raw = (case read raw of Inl e \<Rightarrow> False | Inr v \<Rightarrow> True)"

definition decodeProviderState :: "js \<Rightarrow> js checked" where
  "decodeProviderState raw = decode providerStateCodec raw ''$''"

definition encodeProviderState :: "js \<Rightarrow> js checked" where
  "encodeProviderState value = and_then (encode providerStateCodec value ''$'') asObject"

definition decodeProviderMetadata :: "js \<Rightarrow> js checked" where
  "decodeProviderMetadata raw = decode metadataCodec raw ''$.metadata''"

definition encodeProviderMetadata :: "js \<Rightarrow> js checked" where
  "encodeProviderMetadata value = and_then (encode metadataCodec value ''$.metadata'') asObject"

definition isValidProviderState :: "js \<Rightarrow> bool" where
  "isValidProviderState raw = validates decodeProviderState raw"

definition CREDENTIAL_BOUND_METADATA_FIELDS :: "string list" where
  "CREDENTIAL_BOUND_METADATA_FIELDS =
     [''email'', ''projectId'', ''managedProjectId'', ''fingerprint'', ''fingerprintHistory'', ''verificationRequired'',
      ''verificationRequiredAt'', ''verificationRequiredReason'', ''verificationUrl'', ''accountIneligible'',
      ''accountIneligibleAt'', ''accountIneligibleReason'', ''eligibilityStateUpdatedAt'', ''capturedTierId'',
      ''capturedPaidTierId'', ''capturedTierAt'', ''capturedTierSchemaVersion'']"

text \<open>The own property of an object.\<close>

definition own_prop :: "js \<Rightarrow> string \<Rightarrow> js option" where
  "own_prop v k = (case v of JsObj kind es \<Rightarrow> map_of es k | _ \<Rightarrow> None)"

definition bound_fields :: "js \<Rightarrow> js_fields" where
  "bound_fields metadata =
     List.map_filter
       (\<lambda>key. case own_prop metadata key of
                None \<Rightarrow> None
              | Some v \<Rightarrow> if v = JsUndefined then None else Some (key, v))
       CREDENTIAL_BOUND_METADATA_FIELDS"

definition providerStateCredentialBound :: "js \<Rightarrow> js checked" where
  "providerStateCredentialBound raw =
     and_then (decodeProviderState raw) (\<lambda>v.
       and_then (encodeProviderState v) (\<lambda>stored.
         and_then (asObject (nullish (own_prop stored ''metadata'') JsNull)) (\<lambda>metadata.
           asObject (canonical (plain_obj
             [(''schemaVersion'', JsNum (of_nat PROVIDER_STATE_SCHEMA_VERSION)),
              (''metadata'', plain_obj (bound_fields metadata))])))))"

definition decodeQuotaState :: "js \<Rightarrow> js checked" where
  "decodeQuotaState raw = decode quotaCodec raw ''$''"

definition encodeQuotaState :: "js \<Rightarrow> js checked" where
  "encodeQuotaState value = and_then (encode quotaCodec value ''$'') asObject"

definition isValidQuotaState :: "js \<Rightarrow> bool" where
  "isValidQuotaState raw = validates decodeQuotaState raw"

text \<open>\<open>{ ...a, ...b }\<close> on the properties of two objects.\<close>

definition fields_of :: "js \<Rightarrow> js_fields" where
  "fields_of v = (case v of JsObj kind es \<Rightarrow> es | _ \<Rightarrow> [])"

definition spread_props :: "js_fields \<Rightarrow> js_fields \<Rightarrow> js_fields" where
  "spread_props a b = fold (\<lambda>(k, v). AList.update k v) b a"

definition mergeQuotaState :: "js option \<Rightarrow> js \<Rightarrow> js checked" where
  "mergeQuotaState stored observation =
     and_then (decodeQuotaState observation) (\<lambda>v.
       and_then (encodeQuotaState v) (\<lambda>incoming.
         case stored of
           None \<Rightarrow> Inr incoming
         | Some s \<Rightarrow>
             and_then (decodeQuotaState s) (\<lambda>w.
               and_then (encodeQuotaState w) (\<lambda>prior.
                 and_then (decodeQuotaState (plain_obj (spread_props (fields_of prior) (fields_of incoming)))) encodeQuotaState))))"

definition decodeRoutingSettings :: "js \<Rightarrow> js checked" where
  "decodeRoutingSettings raw = decode routingCodec raw ''$''"

definition encodeRoutingSettings :: "js \<Rightarrow> js checked" where
  "encodeRoutingSettings value = and_then (encode routingCodec value ''$'') asObject"

definition decodeRowRef :: "js \<Rightarrow> js checked" where
  "decodeRowRef raw = decode rowRefCodec raw ''$''"

definition encodeRowRef :: "js \<Rightarrow> js checked" where
  "encodeRowRef value = and_then (encode rowRefCodec value ''$'') asObject"

section \<open>The codec the store is opened with\<close>

record 's ProviderStateReplacement =
  rp_id :: string
  rp_credentialEpoch :: num
  rp_previousIdentity :: "string option"
  rp_identity :: "string option"
  rp_incoming :: "'s option"

record ProviderStatePolicy =
  pol_merge :: "js \<Rightarrow> js \<Rightarrow> js"
  pol_onReplace :: "js option \<Rightarrow> js ProviderStateReplacement \<Rightarrow> js option"

record ConfiguredProviderStateCodec =
  psc_validate :: "js \<Rightarrow> bool"
  psc_credentialBound :: "js \<Rightarrow> js checked"
  psc_merge :: "js \<Rightarrow> js \<Rightarrow> js checked"
  psc_onReplace :: "js option \<Rightarrow> js ProviderStateReplacement \<Rightarrow> js option checked"

definition checked_option :: "('a \<Rightarrow> 'b checked) \<Rightarrow> 'a option \<Rightarrow> 'b option checked" where
  "checked_option f x = (case x of None \<Rightarrow> Inr None | Some v \<Rightarrow> and_then (f v) (\<lambda>w. Inr (Some w)))"

text \<open>What \<open>createProviderStateCodec\<close> may be handed: not an object, or an object that may lack a rule.\<close>

datatype PolicyArgument =
    NotAnObject
  | PolicyObject "(js \<Rightarrow> js \<Rightarrow> js) option" "(js option \<Rightarrow> js ProviderStateReplacement \<Rightarrow> js option) option"

definition policy_argument :: "ProviderStatePolicy \<Rightarrow> PolicyArgument" where
  "policy_argument p = PolicyObject (Some (pol_merge p)) (Some (pol_onReplace p))"

definition RULE_REFUSAL :: string where
  "RULE_REFUSAL = ''must be a function; the store'' @ [char_of (39 :: nat)] @ ''s default would bypass the repository''
     @ [char_of (39 :: nat)] @ ''s rule''"

definition configured_codec ::
  "(js \<Rightarrow> js \<Rightarrow> js) \<Rightarrow> (js option \<Rightarrow> js ProviderStateReplacement \<Rightarrow> js option) \<Rightarrow> ConfiguredProviderStateCodec" where
  "configured_codec mergeRule replaceRule =
     \<lparr>psc_validate = isValidProviderState,
      psc_credentialBound = providerStateCredentialBound,
      psc_merge = (\<lambda>onDisk incoming.
        and_then (decodeProviderState onDisk) (\<lambda>a.
          and_then (decodeProviderState incoming) (\<lambda>b. encodeProviderState (mergeRule a b)))),
      psc_onReplace = (\<lambda>previous replacement.
        and_then (checked_option decodeProviderState previous) (\<lambda>p.
          and_then (checked_option decodeProviderState (rp_incoming replacement)) (\<lambda>i.
            checked_option encodeProviderState
              (replaceRule p
                 \<lparr>rp_id = rp_id replacement, rp_credentialEpoch = rp_credentialEpoch replacement,
                  rp_previousIdentity = rp_previousIdentity replacement, rp_identity = rp_identity replacement,
                  rp_incoming = i\<rparr>))))\<rparr>"

definition createProviderStateCodec :: "PolicyArgument \<Rightarrow> ConfiguredProviderStateCodec checked" where
  "createProviderStateCodec policy =
     (case policy of
        NotAnObject \<Rightarrow> codec_fail ''policy'' ''must be an object with merge and onReplace rules''
      | PolicyObject mergeRule replaceRule \<Rightarrow>
          (case mergeRule of
             None \<Rightarrow> codec_fail ''policy.merge'' RULE_REFUSAL
           | Some m \<Rightarrow>
               (case replaceRule of
                  None \<Rightarrow> codec_fail ''policy.onReplace'' RULE_REFUSAL
                | Some r \<Rightarrow> Inr (configured_codec m r))))"

record QuotaCodecContract =
  qc_validate :: "js \<Rightarrow> bool"
  qc_merge :: "js option \<Rightarrow> js \<Rightarrow> js checked"

definition QUOTA_CODEC :: QuotaCodecContract where
  "QUOTA_CODEC = \<lparr>qc_validate = isValidQuotaState, qc_merge = mergeQuotaState\<rparr>"

end
