(* ===== verification/Value_Facts.thy ===== *)
theory Value_Facts
  imports Record_Fields Account_Values "HOL-Library.AList"
begin

text \<open>
  Every stored value keeps the contract of its codec, and what the contract gives for the functions of the module.
\<close>

declare js_wf.simps(1) [simp del] is_json.simps(1) [simp del]

section \<open>The codecs of the module\<close>

lemma faithful_openRecord:
  "list_all (\<lambda>(k, f). faithful_codec (fd_codec f)) shape \<Longrightarrow> EXTENSIONS \<notin> fst ` set shape \<Longrightarrow> faithful_codec (openRecord shape forbidden)"
  unfolding openRecord_def by (rule faithful_buildRecord) simp_all

lemma faithful_closedRecord:
  "list_all (\<lambda>(k, f). faithful_codec (fd_codec f)) shape \<Longrightarrow> faithful_codec (closedRecord shape)"
  unfolding closedRecord_def by (rule faithful_buildRecord) simp_all

lemma field_codec_of [simp]: "fd_codec (required c) = c" "fd_codec (optional c) = c"
  "fd_required (required c)" "\<not> fd_required (optional c)"
  by (simp_all add: required_def optional_def)

lemma faithful_clientMetadata [faithful]: "faithful_codec clientMetadataCodec"
  unfolding clientMetadataCodec_def by (rule faithful_openRecord) (simp_all add: faithful EXTENSIONS_def)

lemma faithful_fingerprint [faithful]: "faithful_codec fingerprintCodec"
  unfolding fingerprintCodec_def by (rule faithful_openRecord) (simp_all add: faithful EXTENSIONS_def)

lemma faithful_fingerprintVersion [faithful]: "faithful_codec fingerprintVersionCodec"
  unfolding fingerprintVersionCodec_def by (rule faithful_openRecord) (simp_all add: faithful EXTENSIONS_def)

lemma faithful_dailyRequestCounts [faithful]: "faithful_codec dailyRequestCountsCodec"
  unfolding dailyRequestCountsCodec_def by (rule faithful_openRecord) (simp_all add: faithful EXTENSIONS_def)

lemma faithful_quotaWindow [faithful]: "faithful_codec quotaWindowCodec"
  unfolding quotaWindowCodec_def by (rule faithful_openRecord) (simp_all add: faithful EXTENSIONS_def)

lemma faithful_quotaGroup [faithful]: "faithful_codec quotaGroupCodec"
  unfolding quotaGroupCodec_def by (rule faithful_openRecord) (simp_all add: faithful EXTENSIONS_def)

lemma faithful_modelQuota [faithful]: "faithful_codec modelQuotaCodec"
  unfolding modelQuotaCodec_def by (rule faithful_openRecord) (simp_all add: faithful EXTENSIONS_def)

lemma metadataShape_faithful: "list_all (\<lambda>(k, f). faithful_codec (fd_codec f)) metadataShape"
  unfolding metadataShape_def by (simp add: faithful)

lemma quotaShape_faithful: "list_all (\<lambda>(k, f). faithful_codec (fd_codec f)) quotaShape"
  unfolding quotaShape_def by (simp add: faithful)

lemma metadataShape_open: "EXTENSIONS \<notin> fst ` set metadataShape"
  by (simp add: metadataShape_def EXTENSIONS_def)

lemma quotaShape_open: "EXTENSIONS \<notin> fst ` set quotaShape"
  by (simp add: quotaShape_def EXTENSIONS_def)

interpretation metadata_codec: faithful_codec metadataCodec
  unfolding metadataCodec_def by (rule faithful_openRecord [OF metadataShape_faithful metadataShape_open])

lemmas [faithful] = metadata_codec.faithful_codec_axioms

interpretation quota_codec: faithful_codec quotaCodec
  unfolding quotaCodec_def by (rule faithful_openRecord [OF quotaShape_faithful quotaShape_open])

interpretation provider_state_codec: faithful_codec providerStateCodec
  unfolding providerStateCodec_def by (rule faithful_openRecord) (simp_all add: faithful EXTENSIONS_def)

interpretation row_ref_codec: faithful_codec rowRefCodec
  unfolding rowRefCodec_def by (rule faithful_closedRecord) (simp add: faithful)

lemmas [faithful] = row_ref_codec.faithful_codec_axioms

interpretation routing_codec: faithful_codec routingCodec
  unfolding routingCodec_def by (rule faithful_openRecord) (simp_all add: faithful faithful_openRecord EXTENSIONS_def)

abbreviation providerShape :: shape where
  "providerShape \<equiv>
     [(''schemaVersion'', required (schemaVersion PROVIDER_STATE_SCHEMA_VERSION)), (''metadata'', required metadataCodec)]"

lemma record_shapeI:
  assumes "list_all (\<lambda>(k, f). faithful_codec (fd_codec f)) shape" "EXTENSIONS \<notin> fst ` set shape"
  shows "record_shape shape True"
  using assms map_of_SomeD [of shape] by (intro record_shape.intro) (fastforce simp: list_all_iff map_of_eq_None_iff)+

interpretation quota_record: record_shape quotaShape True quotaForbidden
  by (rule record_shapeI [OF quotaShape_faithful quotaShape_open])

interpretation metadata_record: record_shape metadataShape True metadataForbidden
  by (rule record_shapeI [OF metadataShape_faithful metadataShape_open])

interpretation provider_record: record_shape providerShape True CREDENTIAL_KEYS
  by (rule record_shapeI) (simp_all add: faithful EXTENSIONS_def)

definition METADATA_KEYS :: "string list" where
  "METADATA_KEYS =
    [''email'', ''projectId'', ''managedProjectId'', ''addedAt'', ''lastUsed'', ''enabled'',
     ''lastSwitchReason'', ''rateLimitResetTimes'', ''coolingDownUntil'', ''cooldownReason'', ''label'',
     ''fingerprint'', ''fingerprintHistory'', ''verificationRequired'', ''verificationRequiredAt'',
     ''verificationRequiredReason'', ''verificationUrl'', ''accountIneligible'', ''accountIneligibleAt'',
     ''accountIneligibleReason'', ''eligibilityStateUpdatedAt'', ''capturedTierId'', ''capturedPaidTierId'',
     ''capturedTierAt'', ''capturedTierSchemaVersion'', ''dailyRequestCounts'']"

lemma metadata_keys: "map fst metadataShape = METADATA_KEYS"
  by (simp add: metadataShape_def METADATA_KEYS_def)

lemma metadata_key_iff: "map_of metadataShape k = None \<longleftrightarrow> k \<notin> set METADATA_KEYS"
  by (simp add: map_of_eq_None_iff metadata_keys flip: set_map)

definition CREDENTIAL_NAMES :: "string list" where
  "CREDENTIAL_NAMES = map fst CREDENTIAL_KEYS"

lemma credential_not_metadata: "list_all (\<lambda>k. k \<notin> set METADATA_KEYS \<and> k \<noteq> ''metadata'' \<and> k \<noteq> ''schemaVersion'') CREDENTIAL_NAMES"
  by code_simp

section \<open>Encoded objects\<close>

lemma asObject_plain [simp]: "asObject (plain_obj es) = Inr (plain_obj es)"
  by (simp add: asObject_def)

lemma encode_openRecord_obj: "encode (openRecord shape forbidden) v p = Inr j \<Longrightarrow> \<exists>es. j = plain_obj es"
  by (auto simp: openRecord_def buildRecord_def encode_record_def and_then_Inr split: if_splits prod.splits)

lemma decode_openRecord_obj: "decode (openRecord shape forbidden) v p = Inr j \<Longrightarrow> \<exists>es. v = plain_obj es"
  by (auto simp: openRecord_def buildRecord_def decode_record_def and_then_Inr objectEntries_Inr)

lemma encode_asObject: "and_then (encode (openRecord shape forbidden) v p) asObject = encode (openRecord shape forbidden) v p"
proof (cases "encode (openRecord shape forbidden) v p")
  case (Inr j)
  then show ?thesis using encode_openRecord_obj [OF Inr] by auto
qed simp

lemma encodeProviderState_codec: "encodeProviderState v = encode providerStateCodec v ''$''"
  by (simp add: encodeProviderState_def providerStateCodec_def encode_asObject)

lemma encodeQuotaState_codec: "encodeQuotaState v = encode quotaCodec v ''$''"
  by (simp add: encodeQuotaState_def quotaCodec_def encode_asObject)

lemma encodeRoutingSettings_codec: "encodeRoutingSettings v = encode routingCodec v ''$''"
  by (simp add: encodeRoutingSettings_def routingCodec_def encode_asObject)

lemma encodeRowRef_codec: "encodeRowRef v = encode rowRefCodec v ''$''"
proof (cases "encode rowRefCodec v ''$''")
  case (Inr j)
  then have "\<exists>es. j = plain_obj es"
    by (auto simp: rowRefCodec_def closedRecord_def buildRecord_def encode_record_def and_then_Inr split: if_splits prod.splits)
  then show ?thesis using Inr by (auto simp: encodeRowRef_def)
qed (simp add: encodeRowRef_def)

section \<open>Content of properties\<close>

definition content_at :: "js \<Rightarrow> string \<Rightarrow> js option" where
  "content_at v k = map_option canonical (own_prop v k)"

lemma map_of_sort_fields:
  assumes "distinct (map fst xs)"
  shows "map_of (sort_key fst xs) = map_of (xs :: js_fields)"
  using assms by (intro map_of_inject_set [THEN iffD2]) (simp_all add: distinct_map)

lemma map_of_canon_field: "map_of (map canon_field es) k = map_option canonical (map_of es k)"
  by (induction es) (auto simp: canon_field_def)

lemma fst_comp_canon_field [simp]: "fst \<circ> canon_field = fst"
  by (simp add: fun_eq_iff)

lemma own_prop_canonical:
  assumes "wf_fields es" "json_fields es"
  shows "own_prop (canonical (plain_obj es)) k = content_at (plain_obj es) k"
proof -
  have "distinct (map fst (map canon_field es))" using assms(1) by (simp add: wf_fields_def)
  from map_of_sort_fields [OF this] show ?thesis
    using canonical_json_obj [OF json_fields_only [OF assms(2)]] by (simp add: own_prop_def content_at_def map_of_canon_field)
qed

lemma canonical_content:
  assumes "wf_fields xs" "json_fields xs" "wf_fields ys" "json_fields ys"
  shows "canonical (plain_obj xs) = canonical (plain_obj ys) \<longleftrightarrow> (\<forall>k. content_at (plain_obj xs) k = content_at (plain_obj ys) k)"
proof
  assume "canonical (plain_obj xs) = canonical (plain_obj ys)"
  then show "\<forall>k. content_at (plain_obj xs) k = content_at (plain_obj ys) k"
    using own_prop_canonical [OF assms(1,2)] own_prop_canonical [OF assms(3,4)] by metis
next
  assume c: "\<forall>k. content_at (plain_obj xs) k = content_at (plain_obj ys) k"
  have d: "distinct (map fst (map canon_field xs))" "distinct (map fst (map canon_field ys))"
    using assms(1,3) by (simp_all add: wf_fields_def)
  have "map_of (map canon_field xs) = map_of (map canon_field ys)"
    using c by (auto simp: content_at_def own_prop_def map_of_canon_field)
  then have "set (map canon_field xs) = set (map canon_field ys)" using map_of_inject_set [OF d] by simp
  then have "mset (map canon_field xs) = mset (map canon_field ys)"
    using set_eq_iff_mset_eq_distinct distinct_map d by blast
  then show "canonical (plain_obj xs) = canonical (plain_obj ys)"
    using assms by (intro canonical_fields) (simp_all add: wf_fields_def)
qed

text \<open>\<open>spread_props\<close> as maps.\<close>

lemma map_of_spread_props:
  assumes "distinct (map fst b)"
  shows "map_of (spread_props a b) = map_of a ++ map_of b"
  using assms
proof (induction b arbitrary: a)
  case (Cons kv b)
  have "map_of b (fst kv) = None" using Cons.prems by (simp add: map_of_eq_None_iff)
  then show ?case
    using Cons by (cases kv) (auto simp: spread_props_def update_conv' map_add_def fun_eq_iff split: option.split)
qed (simp add: spread_props_def)

lemma distinct_spread: "distinct (map fst a) \<Longrightarrow> distinct (map fst (spread_props a b))"
proof (induction b arbitrary: a)
  case (Cons kv b)
  then show ?case by (cases kv) (simp add: spread_props_def distinct_update)
qed (simp add: spread_props_def)

lemma wf_lookup: "wf_fields es \<longleftrightarrow> distinct (map fst es) \<and> (\<forall>k x. map_of es k = Some x \<longrightarrow> js_wf x)"
  by (auto simp: wf_fields_def list_all_iff)

lemma json_lookup: "distinct (map fst es) \<Longrightarrow> json_fields es \<longleftrightarrow> (\<forall>k x. map_of es k = Some x \<longrightarrow> k \<noteq> ''__proto__'' \<and> is_json x)"
  by (auto simp: json_fields_def list_all_iff)

lemma wf_spread: "wf_fields a \<Longrightarrow> wf_fields b \<Longrightarrow> wf_fields (spread_props a b)"
  by (simp add: wf_lookup map_of_spread_props distinct_spread) (auto simp: map_add_Some_iff)

lemma json_spread: "wf_fields a \<Longrightarrow> wf_fields b \<Longrightarrow> json_fields a \<Longrightarrow> json_fields b \<Longrightarrow> json_fields (spread_props a b)"
  by (simp add: wf_lookup json_lookup map_of_spread_props distinct_spread) (auto simp: map_add_Some_iff)

end
