(* ===== verification/Codec_Properties.thy ===== *)
theory Codec_Properties
  imports Value_Facts
begin

text \<open>What the codecs of the account store promise: round trips, credentials, the credential-bound projection, merged quota.\<close>

section \<open>Example values\<close>

definition example_state :: js where
  "example_state = plain_obj
     [(''schemaVersion'', JsNum 1),
      (''metadata'', plain_obj
         [(''addedAt'', JsNum 1), (''lastUsed'', JsNum 2), (''email'', JsStr ''a@b''), (''note'', plain_arr [JsBool True])])]"

definition example_typed :: js where
  "example_typed = plain_obj
     [(''schemaVersion'', JsNum 1),
      (''metadata'', plain_obj
         [(''addedAt'', JsNum 1), (''lastUsed'', JsNum 2), (''email'', JsStr ''a@b''),
          (''extensions'', plain_obj [(''note'', plain_arr [JsBool True])])])]"

lemma example_decoded: "decodeProviderState example_state = Inr example_typed"
  by code_simp

lemma example_encoded: "encodeProviderState example_typed = Inr example_state"
  by code_simp

lemma example_state_wf: "js_wf example_state" "js_wf example_typed"
  by code_simp+

definition example_quota :: "num \<Rightarrow> js" where
  "example_quota t = plain_obj [(''schemaVersion'', JsNum 1), (''cachedQuotaUpdatedAt'', JsNum t), (''note'', JsNull)]"

lemma example_quota_valid: "isValidQuotaState (example_quota 5)" "js_wf (example_quota 5)"
  by code_simp+

section \<open>Round trips\<close>

definition STORED_KINDS :: "((js \<Rightarrow> js checked) \<times> (js \<Rightarrow> js checked)) set" where
  "STORED_KINDS =
     {(decodeProviderState, encodeProviderState), (decodeQuotaState, encodeQuotaState),
      (decodeRoutingSettings, encodeRoutingSettings), (decodeRowRef, encodeRowRef)}"

lemma stored_kind_codec:
  assumes "(rd, wr) \<in> STORED_KINDS"
  obtains c where "faithful_codec c" "\<And>v. rd v = decode c v ''$''" "\<And>v. wr v = encode c v ''$''"
  using assms provider_state_codec.faithful_codec_axioms quota_codec.faithful_codec_axioms
    routing_codec.faithful_codec_axioms row_ref_codec.faithful_codec_axioms
  by (auto simp: STORED_KINDS_def decodeProviderState_def decodeQuotaState_def decodeRoutingSettings_def decodeRowRef_def
      encodeProviderState_codec encodeQuotaState_codec encodeRoutingSettings_codec encodeRowRef_codec)

text \<open>
  C25. A stored value that is accepted loses nothing: encoding what was decoded gives the same content, unknown fields
  included, at every level.
\<close>

theorem stored_value_kept:
  assumes "(rd, wr) \<in> STORED_KINDS" "js_wf raw" "rd raw = Inr v"
  shows "\<exists>j. wr v = Inr j \<and> canonical j = canonical raw"
  using assms by (metis stored_kind_codec faithful_codec.decode_encode)

theorem stored_value_kept_witness:
  "\<exists>j. encodeProviderState example_typed = Inr j \<and> canonical j = canonical example_state"
  by (rule stored_value_kept [where rd = decodeProviderState and wr = encodeProviderState, OF _ example_state_wf(1) example_decoded]) (simp add: STORED_KINDS_def)

text \<open>
  C26. A value that was encoded is JSON, is accepted when read again, and is written back unchanged.
\<close>

theorem written_value_read:
  assumes "(rd, wr) \<in> STORED_KINDS" "js_wf v" "wr v = Inr j"
  shows "is_json j \<and> (\<exists>w. rd j = Inr w \<and> wr w = Inr j)"
proof -
  obtain c where c: "faithful_codec c" "\<And>v. rd v = decode c v ''$''" "\<And>v. wr v = encode c v ''$''"
    by (rule stored_kind_codec [OF assms(1)]) (rule that)
  show ?thesis using faithful_codec.encoded [OF c(1) assms(2)] faithful_codec.encode_decode [OF c(1) assms(2)] assms(3) by (simp add: c(2,3))
qed

theorem written_value_read_witness:
  "is_json example_state \<and> (\<exists>w. decodeProviderState example_state = Inr w \<and> encodeProviderState w = Inr example_state)"
  by (rule written_value_read [where rd = decodeProviderState and wr = encodeProviderState, OF _ example_state_wf(2) example_encoded]) (simp add: STORED_KINDS_def)

section \<open>Fields of accepted states\<close>

lemma decodes_provider:
  assumes "js_wf raw" "decodeProviderState raw = Inr v"
  obtains es m where "raw = plain_obj es" "wf_fields es" "own_prop raw ''metadata'' = Some m" "js_wf m"
    "\<And>k x. map_of es k = Some x \<Longrightarrow> provider_record.decodes k x" "\<exists>w. decode metadataCodec m [] = Inr w"
proof -
  have d: "decode_record providerShape True CREDENTIAL_KEYS raw ''$'' = Inr v"
    using assms(2) by (simp add: decodeProviderState_def providerStateCodec_def openRecord_def buildRecord_def)
  obtain es where es: "raw = plain_obj es" using d by (auto simp: provider_record.decode_record_Inr)
  have wf: "wf_fields es" "distinct (map fst es)" using assms(1) es by (simp_all add: wf_fields_def)
  have f: "\<And>k x. map_of es k = Some x \<Longrightarrow> provider_record.decodes k x" "provider_record.complete_map (map_of es)"
    using provider_record.record_decodes [OF wf(2), THEN iffD1, OF exI, OF d [unfolded es]] by blast+
  obtain m where m: "map_of es ''metadata'' = Some m" using f(2) by (auto simp: provider_record.complete_map_def)
  have "js_wf m" using wf(1) map_of_SomeD [OF m] by (auto simp: wf_fields_def list_all_iff)
  moreover have "\<exists>w. decode metadataCodec m [] = Inr w"
    using f(1) [OF m] by (simp add: provider_record.decodes_def known_in_def codec_in_def)
  ultimately show thesis using that es wf(1) m f(1) by (simp add: own_prop_def)
qed

lemma decodes_metadata:
  assumes "js_wf m" "decode metadataCodec m p = Inr w"
  obtains es where "m = plain_obj es" "wf_fields es" "json_fields es" "\<And>k x. map_of es k = Some x \<Longrightarrow> metadata_record.decodes k x"
proof -
  have d: "decode_record metadataShape True metadataForbidden m p = Inr w"
    using assms(2) by (simp add: metadataCodec_def openRecord_def buildRecord_def)
  obtain es where es: "m = plain_obj es" using d by (auto simp: metadata_record.decode_record_Inr)
  have wf: "wf_fields es" "distinct (map fst es)" using assms(1) es by (simp_all add: wf_fields_def)
  have j: "json_fields es" using metadata_record.record_decoded [OF assms(1) d] es by simp
  show thesis
    using that [OF es wf(1) j] metadata_record.record_decodes [OF wf(2), THEN iffD1, OF exI, OF d [unfolded es]] by blast
qed

text \<open>
  C27. No credential reaches the disk beside the credential entry: neither the written provider state nor its metadata
  has a field with the name of a credential.
\<close>

theorem no_credential_written:
  assumes "js_wf v" "encodeProviderState v = Inr j" "k \<in> fst ` set CREDENTIAL_KEYS"
  shows "own_prop j k = None \<and> (\<exists>m. own_prop j ''metadata'' = Some m \<and> own_prop m k = None)"
proof -
  note enc = assms(2) [unfolded encodeProviderState_codec]
  have w: "js_wf j" "\<exists>w. decodeProviderState j = Inr w"
    using provider_state_codec.encoded [OF assms(1) enc] provider_state_codec.encode_decode [OF assms(1) enc]
    by (auto simp: decodeProviderState_def)
  have k: "map_of CREDENTIAL_KEYS k \<noteq> None" "map_of metadataForbidden k \<noteq> None"
    using assms(3) by (auto simp: metadataForbidden_def map_of_eq_None_iff)
  have u: "map_of providerShape k = None" "map_of metadataShape k = None"
    using assms(3) credential_not_metadata
    by (auto simp: CREDENTIAL_NAMES_def metadata_key_iff list_all_iff simp del: not_None_eq)
  obtain es m where es: "j = plain_obj es" "own_prop j ''metadata'' = Some m" "js_wf m"
    "\<And>k x. map_of es k = Some x \<Longrightarrow> provider_record.decodes k x" "\<exists>w. decode metadataCodec m [] = Inr w"
    using w decodes_provider by metis
  obtain ms where ms: "m = plain_obj ms" "\<And>k x. map_of ms k = Some x \<Longrightarrow> metadata_record.decodes k x"
    using es(3,5) decodes_metadata by metis
  have "\<not> provider_record.decodes k x" "\<not> metadata_record.decodes k x" for x
    using k u by (auto simp: provider_record.decodes_def metadata_record.decodes_def known_in_def unknown_at_def)
  then show ?thesis using es(1,2,4) ms by (auto simp: own_prop_def) (metis option.exhaust)+
qed

theorem no_credential_written_witness:
  "own_prop example_state ''apiKey'' = None \<and> (\<exists>m. own_prop example_state ''metadata'' = Some m \<and> own_prop m ''apiKey'' = None)"
  by (rule no_credential_written [OF example_state_wf(2) example_encoded]) (simp add: CREDENTIAL_KEYS_def)

section \<open>The credential-bound projection\<close>

definition metadata_in :: "js \<Rightarrow> js" where
  "metadata_in state = nullish (own_prop state ''metadata'') JsNull"

lemma same_content_at:
  assumes "wf_fields xs" "json_fields xs" "wf_fields ys" "json_fields ys" "canonical (plain_obj xs) = canonical (plain_obj ys)"
  shows "content_at (plain_obj xs) k = content_at (plain_obj ys) k"
  using assms canonical_content by blast

lemma map_of_bound_fields:
  assumes "json_fields ms"
  shows "map_of (bound_fields (plain_obj ms)) k = (if k \<in> set CREDENTIAL_BOUND_METADATA_FIELDS then map_of ms k else None)"
proof -
  have v: "v \<noteq> JsUndefined" if "map_of ms k = Some v" for k v
    using assms map_of_SomeD [OF that] by (auto simp: json_fields_def list_all_iff)
  have "map_of (List.map_filter (\<lambda>key. case own_prop (plain_obj ms) key of
                None \<Rightarrow> None | Some v \<Rightarrow> if v = JsUndefined then None else Some (key, v)) ks) k
      = (if k \<in> set ks then map_of ms k else None)" for ks
    using v by (induction ks) (auto simp: List.map_filter_simps own_prop_def split: option.split)
  then show ?thesis by (simp add: bound_fields_def)
qed

lemma distinct_bound_fields: "distinct (map fst (bound_fields m))"
proof -
  have "map fst (List.map_filter (\<lambda>key. case own_prop m key of
                None \<Rightarrow> None | Some v \<Rightarrow> if v = JsUndefined then None else Some (key, v)) ks)
      = filter (\<lambda>key. \<exists>v. own_prop m key = Some v \<and> v \<noteq> JsUndefined) ks" for ks
    by (induction ks) (auto simp: List.map_filter_simps split: option.split)
  moreover have "distinct CREDENTIAL_BOUND_METADATA_FIELDS" by code_simp
  ultimately show ?thesis by (simp add: bound_fields_def)
qed

lemma bound_fields_json:
  assumes "wf_fields ms" "json_fields ms"
  shows "wf_fields (bound_fields (plain_obj ms))" "json_fields (bound_fields (plain_obj ms))"
  using assms distinct_bound_fields [of "plain_obj ms"]
  by (auto simp: wf_lookup json_lookup map_of_bound_fields split: if_splits)

lemma canonical_projection:
  "canonical (plain_obj [(''schemaVersion'', JsNum n), (''metadata'', plain_obj es)])
     = plain_obj [(''metadata'', canonical (plain_obj es)), (''schemaVersion'', JsNum n)]"
  by (simp add: canonical.simps(1) [of _ "[(''schemaVersion'', JsNum n), (''metadata'', plain_obj es)]"] del: canonical.simps(1))

text \<open>An accepted state: its metadata, and the written form of the same content.\<close>

lemma bound_projection:
  assumes "js_wf raw" "decodeProviderState raw = Inr v"
  obtains ms where "metadata_in raw = plain_obj ms" "wf_fields ms" "json_fields ms"
    and "\<exists>mj. wf_fields mj \<and> json_fields mj \<and> canonical (plain_obj mj) = canonical (plain_obj ms)
          \<and> providerStateCredentialBound raw
             = Inr (plain_obj [(''metadata'', canonical (plain_obj (bound_fields (plain_obj mj)))),
                               (''schemaVersion'', JsNum (of_nat PROVIDER_STATE_SCHEMA_VERSION))])"
proof -
  have dec: "decode providerStateCodec raw ''$'' = Inr v" using assms(2) by (simp add: decodeProviderState_def)
  note vj = provider_state_codec.decoded [OF assms(1) dec]
  obtain j where j: "encode providerStateCodec v ''$'' = Inr j" "canonical j = canonical raw"
    using provider_state_codec.decode_encode [OF assms(1) dec] by blast
  have jw: "js_wf j" "is_json j" using provider_state_codec.encoded [OF _ j(1)] vj by simp_all
  obtain w where w: "decodeProviderState j = Inr w"
    using provider_state_codec.encode_decode [OF _ j(1)] vj by (auto simp: decodeProviderState_def)
  obtain es m where es: "raw = plain_obj es" "wf_fields es" "own_prop raw ''metadata'' = Some m" "js_wf m" "\<exists>w. decode metadataCodec m [] = Inr w"
    using decodes_provider [OF assms] by metis
  obtain js m' where js: "j = plain_obj js" "wf_fields js" "own_prop j ''metadata'' = Some m'" "js_wf m'" "\<exists>w. decode metadataCodec m' [] = Inr w"
    using decodes_provider [OF jw(1) w] by metis
  obtain ms where ms: "m = plain_obj ms" "wf_fields ms" "json_fields ms" using es(4,5) decodes_metadata by metis
  obtain mj where mj: "m' = plain_obj mj" "wf_fields mj" "json_fields mj" using js(4,5) decodes_metadata by metis
  have "content_at j ''metadata'' = content_at raw ''metadata''"
    using same_content_at [of js es "''metadata''"] j(2) es(1,2) js(1,2) jw(2) vj by simp
  then have "canonical (plain_obj mj) = canonical (plain_obj ms)"
    using es(3) js(3) ms(1) mj(1) by (simp add: content_at_def)
  moreover have "providerStateCredentialBound raw
      = Inr (plain_obj [(''metadata'', canonical (plain_obj (bound_fields (plain_obj mj)))),
                        (''schemaVersion'', JsNum (of_nat PROVIDER_STATE_SCHEMA_VERSION))])"
    using js(3) by (simp add: providerStateCredentialBound_def assms(2) encodeProviderState_codec j(1) mj(1) canonical_projection)
  ultimately show thesis using that [of ms] es(3) ms mj(2,3) by (auto simp: metadata_in_def)
qed

text \<open>
  C28. The projection the credential stamp covers exists for every accepted state, and two states have the same one
  exactly when the seventeen credential-bound fields have the same content; the order of keys and all other fields
  do not count.
\<close>

theorem credential_bound_exact:
  assumes "js_wf a" "js_wf b" "decodeProviderState a = Inr v" "decodeProviderState b = Inr w"
  shows "\<exists>x y. providerStateCredentialBound a = Inr x \<and> providerStateCredentialBound b = Inr y
    \<and> (x = y \<longleftrightarrow> (\<forall>k \<in> set CREDENTIAL_BOUND_METADATA_FIELDS. content_at (metadata_in a) k = content_at (metadata_in b) k))"
proof -
  obtain ma ja where a: "metadata_in a = plain_obj ma" "wf_fields ma" "json_fields ma" "wf_fields ja" "json_fields ja"
    "canonical (plain_obj ja) = canonical (plain_obj ma)"
    "providerStateCredentialBound a = Inr (plain_obj [(''metadata'', canonical (plain_obj (bound_fields (plain_obj ja)))),
                               (''schemaVersion'', JsNum (of_nat PROVIDER_STATE_SCHEMA_VERSION))])"
    using bound_projection [OF assms(1,3)] by metis
  obtain mb jb where b: "metadata_in b = plain_obj mb" "wf_fields mb" "json_fields mb" "wf_fields jb" "json_fields jb"
    "canonical (plain_obj jb) = canonical (plain_obj mb)"
    "providerStateCredentialBound b = Inr (plain_obj [(''metadata'', canonical (plain_obj (bound_fields (plain_obj jb)))),
                               (''schemaVersion'', JsNum (of_nat PROVIDER_STATE_SCHEMA_VERSION))])"
    using bound_projection [OF assms(2,4)] by metis
  have c: "content_at (plain_obj (bound_fields (plain_obj m))) k
      = (if k \<in> set CREDENTIAL_BOUND_METADATA_FIELDS then content_at (plain_obj m) k else None)" if "json_fields m" for m k
    using map_of_bound_fields [OF that] by (simp add: content_at_def own_prop_def)
  have "canonical (plain_obj (bound_fields (plain_obj ja))) = canonical (plain_obj (bound_fields (plain_obj jb)))
      \<longleftrightarrow> (\<forall>k \<in> set CREDENTIAL_BOUND_METADATA_FIELDS. content_at (plain_obj ja) k = content_at (plain_obj jb) k)"
    using canonical_content [OF bound_fields_json [OF a(4,5)] bound_fields_json [OF b(4,5)]] c [OF a(5)] c [OF b(5)] by auto
  then show ?thesis
    using a(1,7) b(1,7) same_content_at [OF a(4,5,2,3,6)] same_content_at [OF b(4,5,2,3,6)] by simp
qed

text \<open>The same account used later, its keys in another order.\<close>

definition example_later :: js where
  "example_later = plain_obj
     [(''metadata'', plain_obj [(''email'', JsStr ''a@b''), (''lastUsed'', JsNum 9), (''addedAt'', JsNum 1)]),
      (''schemaVersion'', JsNum 1)]"

theorem credential_bound_exact_witness:
  "\<exists>x. providerStateCredentialBound example_state = Inr x \<and> providerStateCredentialBound example_later = Inr x"
proof -
  have "js_wf example_later" by code_simp
  moreover have "decodeProviderState example_later = Inr example_later" by code_simp
  moreover have "list_all (\<lambda>k. content_at (metadata_in example_state) k = content_at (metadata_in example_later) k)
      CREDENTIAL_BOUND_METADATA_FIELDS" by code_simp
  ultimately show ?thesis
    using credential_bound_exact [OF example_state_wf(1) _ example_decoded, of example_later example_later]
    by (auto simp: list_all_iff)
qed

section \<open>Merged quota\<close>

lemma quota_read:
  assumes "js_wf raw" "isValidQuotaState raw"
  obtains v j where "decodeQuotaState raw = Inr v" "encodeQuotaState v = Inr j" "canonical j = canonical raw"
    "js_wf j" "is_json j" "is_json raw" "\<exists>w. decodeQuotaState j = Inr w" "js_wf v"
proof -
  obtain v where v: "decodeQuotaState raw = Inr v" using assms(2) by (auto simp: isValidQuotaState_def validates_def split: sum.splits)
  then have dec: "decode quotaCodec raw ''$'' = Inr v" by (simp add: decodeQuotaState_def)
  note vj = quota_codec.decoded [OF assms(1) dec]
  obtain j where j: "encode quotaCodec v ''$'' = Inr j" "canonical j = canonical raw"
    using quota_codec.decode_encode [OF assms(1) dec] by blast
  show thesis
    using that [OF v _ j(2)] j(1) vj quota_codec.encoded [OF _ j(1)] quota_codec.encode_decode [OF _ j(1)]
    by (auto simp: encodeQuotaState_codec decodeQuotaState_def)
qed

lemma quota_obj: "decodeQuotaState raw = Inr v \<Longrightarrow> \<exists>es. raw = plain_obj es"
  by (auto simp: decodeQuotaState_def quotaCodec_def dest: decode_openRecord_obj)

lemma quota_decode_record: "decodeQuotaState raw = decode_record quotaShape True quotaForbidden raw ''$''"
  by (simp add: decodeQuotaState_def quotaCodec_def openRecord_def buildRecord_def)

text \<open>
  C29. Merging an observed quota into a stored one never fails on valid values, gives a valid value, replaces exactly
  the fields the observation carries and keeps the content of all others, unknown ones included.
\<close>

theorem quota_merge_exact:
  assumes "js_wf s" "js_wf obs" "isValidQuotaState s" "isValidQuotaState obs"
  shows "\<exists>j. mergeQuotaState (Some s) obs = Inr j \<and> js_wf j \<and> isValidQuotaState j
    \<and> (\<forall>k. content_at j k = (case content_at obs k of Some x \<Rightarrow> Some x | None \<Rightarrow> content_at s k))"
proof -
  obtain v a where a: "decodeQuotaState s = Inr v" "encodeQuotaState v = Inr a" "canonical a = canonical s"
    "js_wf a" "is_json a" "is_json s" "\<exists>w. decodeQuotaState a = Inr w"
    by (rule quota_read [OF assms(1,3)]) (rule that)
  obtain w b where b: "decodeQuotaState obs = Inr w" "encodeQuotaState w = Inr b" "canonical b = canonical obs"
    "js_wf b" "is_json b" "is_json obs" "\<exists>u. decodeQuotaState b = Inr u"
    by (rule quota_read [OF assms(2,4)]) (rule that)
  obtain sf obsf af bf where obj: "s = plain_obj sf" "obs = plain_obj obsf" "a = plain_obj af" "b = plain_obj bf"
    using quota_obj a(1,7) b(1,7) by metis
  define c where "c = spread_props af bf"
  have d: "distinct (map fst af)" "distinct (map fst bf)" "distinct (map fst c)"
    using a(4) b(4) distinct_spread by (auto simp: obj wf_fields_def c_def)
  have cw: "wf_fields c" "json_fields c"
    using wf_spread json_spread a(4,5) b(4,5) by (simp_all add: obj c_def)
  have "\<exists>u. decodeQuotaState (plain_obj c) = Inr u"
    using a(7) b(7) quota_record.merged_decodes [of af "''$''" _ bf _ c] d map_of_spread_props [OF d(2)]
    by (auto simp: quota_decode_record obj c_def)
  then have "isValidQuotaState (plain_obj c)" by (auto simp: isValidQuotaState_def validates_def)
  moreover have "js_wf (plain_obj c)" using cw by simp
  ultimately obtain u j where j: "decodeQuotaState (plain_obj c) = Inr u" "encodeQuotaState u = Inr j"
      "canonical j = canonical (plain_obj c)" "js_wf j" "is_json j" "\<exists>w. decodeQuotaState j = Inr w"
    by (metis quota_read)
  obtain jf where jf: "j = plain_obj jf" using quota_obj j(6) by blast
  have "content_at j k = (case content_at obs k of Some x \<Rightarrow> Some x | None \<Rightarrow> content_at s k)" for k
  proof -
    have "content_at j k = content_at (plain_obj c) k"
      unfolding jf by (rule same_content_at) (use j(3-5) cw jf in auto)
    also have "\<dots> = (case content_at b k of Some x \<Rightarrow> Some x | None \<Rightarrow> content_at a k)"
      using map_of_spread_props [OF d(2)] by (simp add: content_at_def own_prop_def obj c_def map_add_def split: option.split)
    also have "content_at b k = content_at obs k"
      unfolding obj by (rule same_content_at) (use assms(2) b(3-6) obj in auto)
    also have "content_at a k = content_at s k"
      unfolding obj by (rule same_content_at) (use assms(1) a(3-6) obj in auto)
    finally show ?thesis .
  qed
  moreover have "mergeQuotaState (Some s) obs = Inr j"
    using j(1,2) by (simp add: mergeQuotaState_def a(1,2) b(1,2) obj(3,4) fields_of_def c_def)
  ultimately show ?thesis using j(4,6) by (auto simp: isValidQuotaState_def validates_def)
qed

theorem quota_merge_exact_witness:
  "\<exists>j. mergeQuotaState (Some (example_quota 5)) (example_quota 5) = Inr j \<and> js_wf j \<and> isValidQuotaState j
    \<and> (\<forall>k. content_at j k = (case content_at (example_quota 5) k of Some x \<Rightarrow> Some x | None \<Rightarrow> content_at (example_quota 5) k))"
  by (rule quota_merge_exact) (rule example_quota_valid)+

end
