(* ===== verification/Account_Policy.thy ===== *)
theory Account_Policy
  imports Account_Values Retry_Metadata
begin

text \<open>
  The rules for the metadata of an account in \<^verbatim>\<open>packages/core/src/account-repository.ts\<close>: how stored metadata and
  metadata a write brings combine, what a row keeps when it gets another credential, and what each observation
  changes. Typed metadata are the properties of a decoded object; \<open>{ ...m }\<close> is the same properties, an assignment
  is \<open>AList.update\<close>, which like the code appends a new key, and \<open>delete\<close> is \<open>AList.delete\<close>.
\<close>

section \<open>Properties\<close>

definition get_prop :: "js_fields \<Rightarrow> string \<Rightarrow> js" where
  "get_prop m k = (case map_of m k of None \<Rightarrow> JsUndefined | Some v \<Rightarrow> v)"

text \<open>\<open>out[key]\<close> also finds the properties of \<open>Object.prototype\<close>.\<close>

definition inherited_prop :: "js_fields \<Rightarrow> string \<Rightarrow> js" where
  "inherited_prop m k =
     (case map_of m k of
        None \<Rightarrow> if k \<in> set OBJECT_PROTOTYPE then JsOpaque else JsUndefined
      | Some v \<Rightarrow> v)"

text \<open>\<open>v != null\<close>.\<close>

definition present :: "js \<Rightarrow> bool" where
  "present v \<longleftrightarrow> v \<noteq> JsUndefined \<and> v \<noteq> JsNull"

text \<open>\<open>Math.max\<close>; typed values reach it as numbers.\<close>

definition js_max :: "js \<Rightarrow> js \<Rightarrow> js" where
  "js_max a b = (case (a, b) of (JsNum x, JsNum y) \<Rightarrow> JsNum (max x y) | _ \<Rightarrow> JsNonFinite)"

section \<open>Combining metadata\<close>

definition utcDay :: "num \<Rightarrow> string option" where
  "utcDay at_ms =
     (if 8640000000000000 < \<bar>at_ms\<bar> then None
      else let t = (if at_ms < 0 then \<lceil>at_ms\<rceil> else \<lfloor>at_ms\<rfloor>); (y, m, d) = date_of_days (t div 86400000)
           in Some (take 10
                ((if 0 \<le> y \<and> y \<le> 9999 then pad 4 y else (if y < 0 then ''-'' else ''+'') @ pad 6 \<bar>y\<bar>)
                 @ ''-'' @ pad 2 m @ ''-'' @ pad 2 d)))"

definition merge_reset :: "string \<times> js \<Rightarrow> js_fields \<Rightarrow> js_fields" where
  "merge_reset kv out =
     (case kv of (key, v) \<Rightarrow>
        (let prior = inherited_prop out key in
         if v = JsNull then if prior = JsUndefined then AList.update key JsNull out else out
         else case (prior, v) of
                (JsNum p, JsNum n) \<Rightarrow> if p < n then AList.update key v out else out
              | (JsNum p, _) \<Rightarrow> out
              | _ \<Rightarrow> AList.update key v out))"

definition mergeRateLimitResets :: "js \<Rightarrow> js \<Rightarrow> js" where
  "mergeRateLimitResets stored incoming =
     (if incoming = JsNull then if stored = JsUndefined then JsNull else stored
      else plain_obj (fold merge_reset (fields_of incoming) (fields_of stored)))"

definition latest :: "js list \<Rightarrow> num option" where
  "latest evidence =
     fold (\<lambda>time result.
             case time of
               JsNum n \<Rightarrow> (case result of None \<Rightarrow> Some n | Some r \<Rightarrow> if r < n then Some n else result)
             | _ \<Rightarrow> result) evidence None"

definition accessEvidenceAt :: "js_fields \<Rightarrow> num option" where
  "accessEvidenceAt metadata =
     latest [get_prop metadata ''verificationRequiredAt'', get_prop metadata ''accountIneligibleAt'',
             get_prop metadata ''eligibilityStateUpdatedAt'']"

definition mergeExtensions :: "js \<Rightarrow> js \<Rightarrow> js" where
  "mergeExtensions a b =
     (if a = JsUndefined \<and> b = JsUndefined then JsUndefined else plain_obj (spread_props (fields_of a) (fields_of b)))"

definition mergeSameCredential :: "js_fields \<Rightarrow> js_fields \<Rightarrow> js_fields" where
  "mergeSameCredential stored incoming =
     (let out = spread_props (spread_props stored incoming)
            [(''addedAt'', get_prop stored ''addedAt''),
             (''lastUsed'', js_max (get_prop stored ''lastUsed'') (get_prop incoming ''lastUsed''))];
          out = (if present (get_prop stored ''dailyRequestCounts'')
                 then AList.update ''dailyRequestCounts'' (get_prop stored ''dailyRequestCounts'') out else out);
          out = (if get_prop incoming ''rateLimitResetTimes'' \<noteq> JsUndefined
                 then AList.update ''rateLimitResetTimes''
                        (mergeRateLimitResets (get_prop stored ''rateLimitResetTimes'')
                           (get_prop incoming ''rateLimitResetTimes'')) out
                 else out);
          extensions = mergeExtensions (get_prop stored EXTENSIONS) (get_prop incoming EXTENSIONS)
      in if extensions \<noteq> JsUndefined then AList.update EXTENSIONS extensions out else out)"

definition ROW_RETAINED_FIELDS :: "string list" where
  "ROW_RETAINED_FIELDS =
     [''addedAt'', ''lastUsed'', ''enabled'', ''lastSwitchReason'', ''label'', ''dailyRequestCounts'', EXTENSIONS]"

definition SAME_ACCOUNT_RETAINED_FIELDS :: "string list" where
  "SAME_ACCOUNT_RETAINED_FIELDS =
     [''email'', ''projectId'', ''managedProjectId'', ''fingerprint'', ''fingerprintHistory'', ''capturedTierId'',
      ''capturedPaidTierId'', ''capturedTierAt'', ''capturedTierSchemaVersion'']"

definition copyFields :: "js_fields \<Rightarrow> js_fields \<Rightarrow> string list \<Rightarrow> js_fields" where
  "copyFields src dst ks =
     fold (\<lambda>key out. case map_of src key of None \<Rightarrow> out | Some v \<Rightarrow> AList.update key v out) ks dst"

text \<open>The parts of a typed provider state.\<close>

definition metadata_of :: "js \<Rightarrow> js_fields" where
  "metadata_of state = fields_of (get_prop (fields_of state) ''metadata'')"

definition extensions_of :: "js \<Rightarrow> js" where
  "extensions_of state = get_prop (fields_of state) EXTENSIONS"

definition replacementMetadata :: "js_fields option \<Rightarrow> js ProviderStateReplacement \<Rightarrow> js_fields option" where
  "replacementMetadata previous replacement =
     (let incoming = map_option metadata_of (rp_incoming replacement) in
      case previous of
        None \<Rightarrow> incoming
      | Some prev \<Rightarrow>
          (let sameAccount = (rp_previousIdentity replacement \<noteq> None \<and> rp_identity replacement \<noteq> None
                 \<and> rp_previousIdentity replacement = rp_identity replacement);
               kept = copyFields prev [] ROW_RETAINED_FIELDS;
               kept = (if sameAccount then copyFields prev kept SAME_ACCOUNT_RETAINED_FIELDS else kept);
               base = spread_props kept [(''addedAt'', get_prop prev ''addedAt''), (''lastUsed'', get_prop prev ''lastUsed'')]
           in case incoming of
                None \<Rightarrow> Some base
              | Some inc \<Rightarrow> Some (mergeSameCredential base inc)))"

definition policy_state :: "js_fields \<Rightarrow> js \<Rightarrow> js" where
  "policy_state metadata extensions =
     plain_obj ([(''schemaVersion'', JsNum (of_nat PROVIDER_STATE_SCHEMA_VERSION)), (''metadata'', plain_obj metadata)]
       @ (if extensions \<noteq> JsUndefined then [(EXTENSIONS, extensions)] else []))"

definition ACCOUNT_STATE_POLICY :: ProviderStatePolicy where
  "ACCOUNT_STATE_POLICY =
     \<lparr>pol_merge = (\<lambda>onDisk incoming.
        policy_state (mergeSameCredential (metadata_of onDisk) (metadata_of incoming))
          (mergeExtensions (extensions_of onDisk) (extensions_of incoming))),
      pol_onReplace = (\<lambda>previous replacement.
        case replacementMetadata (map_option metadata_of previous) replacement of
          None \<Rightarrow> None
        | Some metadata \<Rightarrow>
            Some (policy_state metadata
              (mergeExtensions (case previous of None \<Rightarrow> JsUndefined | Some p \<Rightarrow> extensions_of p)
                 (case rp_incoming replacement of None \<Rightarrow> JsUndefined | Some i \<Rightarrow> extensions_of i))))\<rparr>"

section \<open>Observations\<close>

record ProjectObservation =
  po_projectId :: "js option"
  po_managedProjectId :: "js option"

record FingerprintObservation =
  fo_fingerprint :: js
  fo_history :: "js list"

record TierObservation =
  to_observedAt :: num
  to_tierId :: js
  to_paidTierId :: js
  to_schemaVersion :: num

record CooldownObservation =
  co_until :: num
  co_reason :: string

datatype AccountModelFamily = ClaudeFamily | GeminiFamily

definition count_key :: "AccountModelFamily \<Rightarrow> string" where
  "count_key f = (case f of ClaudeFamily \<Rightarrow> ''claude'' | GeminiFamily \<Rightarrow> ''gemini'')"

record UsageObservation =
  uo_family :: AccountModelFamily
  uo_at :: num

definition applyProjectObservation :: "js_fields \<Rightarrow> ProjectObservation \<Rightarrow> js_fields" where
  "applyProjectObservation metadata observation =
     (let next = (case po_projectId observation of None \<Rightarrow> metadata | Some v \<Rightarrow> AList.update ''projectId'' v metadata)
      in case po_managedProjectId observation of None \<Rightarrow> next | Some v \<Rightarrow> AList.update ''managedProjectId'' v next)"

definition applyFingerprintObservation :: "js_fields \<Rightarrow> FingerprintObservation \<Rightarrow> js_fields" where
  "applyFingerprintObservation metadata observation =
     spread_props metadata
       [(''fingerprint'', fo_fingerprint observation), (''fingerprintHistory'', plain_arr (fo_history observation))]"

definition applyTierObservation :: "js_fields \<Rightarrow> TierObservation \<Rightarrow> js_fields" where
  "applyTierObservation metadata observation =
     (if (case get_prop metadata ''capturedTierAt'' of JsNum t \<Rightarrow> to_observedAt observation < t | _ \<Rightarrow> False)
      then metadata
      else spread_props metadata
        [(''capturedTierId'', to_tierId observation), (''capturedPaidTierId'', to_paidTierId observation),
         (''capturedTierAt'', JsNum (to_observedAt observation)),
         (''capturedTierSchemaVersion'', JsNum (to_schemaVersion observation))])"

definition applyCooldownObservation :: "js_fields \<Rightarrow> CooldownObservation option \<Rightarrow> js_fields" where
  "applyCooldownObservation metadata observation =
     (case observation of
        None \<Rightarrow> AList.delete ''cooldownReason'' (AList.delete ''coolingDownUntil'' metadata)
      | Some c \<Rightarrow>
          AList.update ''cooldownReason'' (JsStr (co_reason c))
            (AList.update ''coolingDownUntil'' (JsNum (co_until c)) metadata))"

definition applyRateLimitObservation :: "js_fields \<Rightarrow> js_fields \<Rightarrow> js_fields" where
  "applyRateLimitObservation metadata resets =
     AList.update ''rateLimitResetTimes''
       (mergeRateLimitResets (get_prop metadata ''rateLimitResetTimes'') (plain_obj resets)) metadata"

definition applySwitch :: "js_fields \<Rightarrow> string \<Rightarrow> js_fields" where
  "applySwitch metadata reason = AList.update ''lastSwitchReason'' (JsStr reason) metadata"

definition count_of :: "js \<Rightarrow> num" where
  "count_of v = (case v of JsNum n \<Rightarrow> n | _ \<Rightarrow> 0)"

text \<open>An invalid time makes \<open>toISOString\<close> throw: the result is \<open>None\<close>.\<close>

definition applyUsage :: "js_fields \<Rightarrow> UsageObservation \<Rightarrow> num \<Rightarrow> js_fields option" where
  "applyUsage metadata observation now =
     map_option
       (\<lambda>today.
          let stored = get_prop metadata ''dailyRequestCounts'';
              counts = (if present stored \<and> get_prop (fields_of stored) ''date'' = JsStr today then fields_of stored
                        else [(''date'', JsStr today), (''claude'', JsNum 0), (''gemini'', JsNum 0)]);
              key = count_key (uo_family observation);
              counts = AList.update key (JsNum (count_of (get_prop counts key) + 1)) counts
          in spread_props metadata
               [(''lastUsed'', js_max (get_prop metadata ''lastUsed'') (JsNum (uo_at observation))),
                (''dailyRequestCounts'', plain_obj counts)])
       (utcDay now)"

section \<open>Access verdicts\<close>

datatype AccessTransition = Disable | Enable | Keep

datatype AccessVerdict =
    VerificationRequired num "string option" "string option"
  | Ineligible num string
  | Cleared num bool

fun observedAt :: "AccessVerdict \<Rightarrow> num" where
  "observedAt (VerificationRequired t reason url) = t"
| "observedAt (Ineligible t reason) = t"
| "observedAt (Cleared t enable) = t"

text \<open>\<open>text?.trim()\<close>, when it is not empty.\<close>

definition trimmed_text :: "string option \<Rightarrow> string option" where
  "trimmed_text s = (case s of None \<Rightarrow> None | Some t \<Rightarrow> if js_trim t = [] then None else Some (js_trim t))"

definition remove_all :: "string list \<Rightarrow> js_fields \<Rightarrow> js_fields" where
  "remove_all ks m = fold AList.delete ks m"

definition require_verification :: "num \<Rightarrow> string option \<Rightarrow> string option \<Rightarrow> js_fields \<Rightarrow> js_fields" where
  "require_verification t reason url m =
     (let next = AList.update ''verificationRequiredAt'' (JsNum t) (AList.update ''verificationRequired'' (JsBool True) m);
          next = (case trimmed_text reason of
                    Some r \<Rightarrow> AList.update ''verificationRequiredReason'' (JsStr r) next
                  | None \<Rightarrow> AList.delete ''verificationRequiredReason'' next);
          next = (case trimmed_text url of Some u \<Rightarrow> AList.update ''verificationUrl'' (JsStr u) next | None \<Rightarrow> next)
      in if get_prop next ''accountIneligible'' = JsBool True \<or> present (get_prop next ''accountIneligibleAt'')
            \<or> present (get_prop next ''accountIneligibleReason'')
         then AList.update ''eligibilityStateUpdatedAt'' (JsNum t)
                (remove_all [''accountIneligibleAt'', ''accountIneligibleReason'']
                   (AList.update ''accountIneligible'' (JsBool False) next))
         else next)"

definition mark_ineligible :: "num \<Rightarrow> string \<Rightarrow> js_fields \<Rightarrow> js_fields" where
  "mark_ineligible t reason m =
     remove_all [''verificationRequiredAt'', ''verificationRequiredReason'', ''verificationUrl'']
       (AList.update ''verificationRequired'' (JsBool False)
         (AList.update ''eligibilityStateUpdatedAt'' (JsNum t)
           (AList.update ''accountIneligibleReason''
              (JsStr (if js_trim reason = [] then ''Google marked this account as ineligible.'' else js_trim reason))
             (AList.update ''accountIneligibleAt'' (JsNum t)
               (AList.update ''accountIneligible'' (JsBool True) m)))))"

definition apply_cleared :: "num \<Rightarrow> js_fields \<Rightarrow> js_fields" where
  "apply_cleared t m =
     (let hadEligibility = (get_prop m ''accountIneligible'' = JsBool True \<or> present (get_prop m ''eligibilityStateUpdatedAt''));
          next = remove_all [''verificationRequiredAt'', ''verificationRequiredReason'', ''verificationUrl'']
                   (AList.update ''verificationRequired'' (JsBool False) m);
          next = remove_all [''accountIneligibleAt'', ''accountIneligibleReason'']
                   (AList.update ''accountIneligible'' (JsBool False) next)
      in if hadEligibility then AList.update ''eligibilityStateUpdatedAt'' (JsNum t) next else next)"

definition applyAccessVerdict :: "js_fields \<Rightarrow> AccessVerdict \<Rightarrow> (js_fields \<times> AccessTransition) option" where
  "applyAccessVerdict metadata verdict =
     (let evidenceAt = accessEvidenceAt metadata in
      if (case evidenceAt of None \<Rightarrow> False | Some e \<Rightarrow> observedAt verdict < e) then None
      else case verdict of
             VerificationRequired t reason url \<Rightarrow> Some (require_verification t reason url metadata, Disable)
           | Ineligible t reason \<Rightarrow> Some (mark_ineligible t reason metadata, Disable)
           | Cleared t enable \<Rightarrow>
               (let wasBlocked = (get_prop metadata ''verificationRequired'' = JsBool True
                      \<or> get_prop metadata ''accountIneligible'' = JsBool True)
                in Some (apply_cleared t metadata, if enable \<and> wasBlocked then Enable else Keep)))"

section \<open>Values of a row\<close>

definition envelopeOf :: "js \<Rightarrow> js option checked" where
  "envelopeOf raw = (if raw = JsUndefined \<or> raw = JsNull then Inr None else and_then (decodeProviderState raw) (\<lambda>v. Inr (Some v)))"

text \<open>Stored metadata, or a starting value for a row that shows none.\<close>

definition metadataOrBase :: "js option \<Rightarrow> num option \<Rightarrow> num \<Rightarrow> js_fields" where
  "metadataOrBase envelope row_addedAt now =
     (case envelope of
        Some e \<Rightarrow> metadata_of e
      | None \<Rightarrow> [(''addedAt'', JsNum (nullish row_addedAt now)), (''lastUsed'', JsNum 0)])"

definition encodeEnvelope :: "js option \<Rightarrow> js_fields \<Rightarrow> js checked" where
  "encodeEnvelope prior metadata =
     encodeProviderState (policy_state metadata (case prior of None \<Rightarrow> JsUndefined | Some p \<Rightarrow> extensions_of p))"

end
