(* ===== verification/Policy_Facts.thy ===== *)
theory Policy_Facts
  imports Account_Policy Value_Facts
begin

text \<open>The rules of \<open>Account_Policy\<close> property by property, and the facts about verdicts, resets and counts.\<close>

declare js_wf.simps(1) [simp del] is_json.simps(1) [simp del]

section \<open>Properties after a change\<close>

lemma get_prop_update [simp]: "get_prop (AList.update k v m) k' = (if k' = k then v else get_prop m k')"
  by (simp add: get_prop_def update_conv')

lemma get_prop_delete [simp]: "get_prop (AList.delete k m) k' = (if k' = k then JsUndefined else get_prop m k')"
  by (simp add: get_prop_def delete_conv')

lemma get_prop_remove [simp]: "get_prop (remove_all ks m) k' = (if k' \<in> set ks then JsUndefined else get_prop m k')"
  by (induction ks arbitrary: m) (auto simp: remove_all_def)

lemma get_prop_spread: "distinct (map fst b) \<Longrightarrow> get_prop (spread_props a b) k = (case map_of b k of None \<Rightarrow> get_prop a k | Some v \<Rightarrow> v)"
  by (simp add: get_prop_def map_of_spread_props map_add_def split: option.split)

section \<open>Verdicts\<close>

definition no_later :: "num \<Rightarrow> js \<Rightarrow> bool" where
  "no_later e v \<longleftrightarrow> (case v of JsNum n \<Rightarrow> n \<le> e | _ \<Rightarrow> True)"

text \<open>All evidence is at most \<open>e\<close>.\<close>

definition seen_by :: "num \<Rightarrow> js_fields \<Rightarrow> bool" where
  "seen_by e m \<longleftrightarrow> no_later e (get_prop m ''verificationRequiredAt'') \<and> no_later e (get_prop m ''accountIneligibleAt'')
     \<and> no_later e (get_prop m ''eligibilityStateUpdatedAt'')"

lemma latest_le:
  "(\<forall>x. latest ts = Some x \<longrightarrow> x \<le> e) \<longleftrightarrow> (\<forall>t \<in> set ts. no_later e t)"
proof -
  define f where "f = (\<lambda>time result.
             case time of
               JsNum n \<Rightarrow> (case result of None \<Rightarrow> Some n | Some r \<Rightarrow> if r < n then Some n else result)
             | _ \<Rightarrow> result)"
  have step: "(\<forall>x. f t r = Some x \<longrightarrow> x \<le> e) \<longleftrightarrow> (\<forall>x. r = Some x \<longrightarrow> x \<le> e) \<and> no_later e t" for t r
    by (cases t; cases r) (auto simp: f_def no_later_def)
  have "(\<forall>x. fold f ts r = Some x \<longrightarrow> x \<le> e) \<longleftrightarrow> (\<forall>x. r = Some x \<longrightarrow> x \<le> e) \<and> (\<forall>t \<in> set ts. no_later e t)" for r
    by (induction ts arbitrary: r) (auto simp: step)
  then show ?thesis by (simp add: latest_def flip: f_def)
qed

lemma seen_by_evidence: "seen_by e m \<longleftrightarrow> (\<forall>x. accessEvidenceAt m = Some x \<longrightarrow> x \<le> e)"
  unfolding seen_by_def accessEvidenceAt_def latest_le by simp

lemma evidence_at:
  assumes "seen_by e m" "get_prop m k = JsNum e" "k \<in> {''verificationRequiredAt'', ''accountIneligibleAt'', ''eligibilityStateUpdatedAt''}"
  shows "accessEvidenceAt m = Some e"
proof -
  have le: "e \<le> d" if "seen_by d m" for d using that assms(2,3) by (auto simp: seen_by_def no_later_def)
  show ?thesis
  proof (cases "accessEvidenceAt m")
    case None
    then have "seen_by (e - 1) m" by (simp add: seen_by_evidence)
    then show ?thesis using le [of "e - 1"] by simp
  next
    case (Some x)
    then have "seen_by x m" "x \<le> e" using assms(1) by (simp_all add: seen_by_evidence)
    then show ?thesis using le Some by force
  qed
qed

definition verdict_step :: "AccessVerdict \<Rightarrow> js_fields \<Rightarrow> js_fields" where
  "verdict_step v m = (case applyAccessVerdict m v of None \<Rightarrow> m | Some (m', transition) \<Rightarrow> m')"

definition access_status :: "js_fields \<Rightarrow> bool \<times> bool" where
  "access_status m = (get_prop m ''verificationRequired'' = JsBool True, get_prop m ''accountIneligible'' = JsBool True)"

fun verdict_status :: "AccessVerdict \<Rightarrow> bool \<times> bool" where
  "verdict_status (VerificationRequired t reason url) = (True, False)"
| "verdict_status (Ineligible t reason) = (False, True)"
| "verdict_status (Cleared t enable) = (False, False)"

definition blocking :: "AccessVerdict \<Rightarrow> bool" where
  "blocking v \<longleftrightarrow> (\<forall>t enable. v \<noteq> Cleared t enable)"

lemma verdict_accepted:
  "applyAccessVerdict m v \<noteq> None \<longleftrightarrow> seen_by (observedAt v) m"
  unfolding seen_by_evidence
  by (cases v; cases "accessEvidenceAt m") (auto simp: applyAccessVerdict_def Let_def not_less)

lemma verdict_result:
  assumes "applyAccessVerdict m v = Some (m', transition)"
  shows "m' = (case v of VerificationRequired t reason url \<Rightarrow> require_verification t reason url m
                | Ineligible t reason \<Rightarrow> mark_ineligible t reason m | Cleared t enable \<Rightarrow> apply_cleared t m)"
  using assms by (cases v) (auto simp: applyAccessVerdict_def Let_def split: if_splits)

lemma no_later_simps [simp]: "no_later e (JsNum n) \<longleftrightarrow> n \<le> e" "no_later e JsUndefined"
  by (simp_all add: no_later_def)

lemma absent_no_later: "\<not> present v \<Longrightarrow> no_later e v"
  by (auto simp: present_def no_later_def)

lemma verification_seen: "seen_by t m \<Longrightarrow> seen_by t (require_verification t reason url m)"
  by (auto simp: require_verification_def seen_by_def Let_def split: option.split)

lemma verification_evidence: "seen_by t m \<Longrightarrow> accessEvidenceAt (require_verification t reason url m) = Some t"
  by (rule evidence_at [OF verification_seen, of _ _ _ _ "''verificationRequiredAt''"])
    (auto simp: require_verification_def Let_def split: option.split)

lemma ineligible_seen: "seen_by t m \<Longrightarrow> seen_by t (mark_ineligible t reason m)"
  by (simp add: mark_ineligible_def seen_by_def)

lemma ineligible_evidence: "seen_by t m \<Longrightarrow> accessEvidenceAt (mark_ineligible t reason m) = Some t"
  by (rule evidence_at [OF ineligible_seen, of _ _ _ "''accountIneligibleAt''"]) (simp_all add: mark_ineligible_def)

lemma cleared_seen: "seen_by t m \<Longrightarrow> seen_by t (apply_cleared t m)"
  by (simp add: apply_cleared_def seen_by_def Let_def)

lemma seen_by_mono: "seen_by e m \<Longrightarrow> e \<le> e' \<Longrightarrow> seen_by e' m"
  by (force simp: seen_by_evidence)

lemma step_seen:
  assumes "seen_by e m" "observedAt v \<le> e"
  shows "seen_by e (verdict_step v m)"
proof (cases "applyAccessVerdict m v")
  case (Some r)
  obtain m' transition where r: "r = (m', transition)" by fastforce
  have "seen_by (observedAt v) m" using Some by (simp flip: verdict_accepted)
  then have "seen_by (observedAt v) m'"
    using verdict_result [OF Some [unfolded r]] verification_seen ineligible_seen cleared_seen by (cases v) simp_all
  then show ?thesis using seen_by_mono [OF _ assms(2)] by (simp add: verdict_step_def Some r)
qed (simp add: verdict_step_def assms(1))

lemma steps_seen: "seen_by e m \<Longrightarrow> \<forall>v \<in> set vs. observedAt v \<le> e \<Longrightarrow> seen_by e (fold verdict_step vs m)"
  by (induction vs arbitrary: m) (simp_all add: step_seen)

lemma verification_status: "access_status (require_verification t reason url m) = (True, False)"
  by (auto simp: require_verification_def access_status_def Let_def split: option.split)

lemma ineligible_status: "access_status (mark_ineligible t reason m) = (False, True)"
  by (simp add: mark_ineligible_def access_status_def)

lemma cleared_status: "access_status (apply_cleared t m) = (False, False)"
  by (simp add: apply_cleared_def access_status_def Let_def)

lemma step_accepted:
  assumes "seen_by (observedAt v) m"
  shows "access_status (verdict_step v m) = verdict_status v"
    and "blocking v \<Longrightarrow> accessEvidenceAt (verdict_step v m) = Some (observedAt v)"
proof -
  obtain m' transition where r: "applyAccessVerdict m v = Some (m', transition)" using assms by (force simp flip: verdict_accepted)
  note m' = verdict_result [OF r]
  have step: "verdict_step v m = m'" by (simp add: verdict_step_def r)
  show "access_status (verdict_step v m) = verdict_status v"
    unfolding step by (cases v) (simp_all add: m' verification_status ineligible_status cleared_status)
  show "accessEvidenceAt (verdict_step v m) = Some (observedAt v)" if "blocking v"
    using that assms unfolding step by (cases v) (auto simp add: m' verification_evidence ineligible_evidence blocking_def)
qed

lemma stale_refused: "accessEvidenceAt m = Some e \<Longrightarrow> observedAt v < e \<Longrightarrow> applyAccessVerdict m v = None"
  using verdict_accepted [of m v] by (force simp only: seen_by_evidence not_le)

lemma stale_steps: "accessEvidenceAt m = Some e \<Longrightarrow> \<forall>v \<in> set vs. observedAt v < e \<Longrightarrow> fold verdict_step vs m = m"
  by (induction vs) (simp_all add: verdict_step_def stale_refused)

section \<open>Rate limit resets\<close>

text \<open>The later of two stored resets: a time over \<open>null\<close> over nothing.\<close>

definition later_reset :: "js \<Rightarrow> js \<Rightarrow> js" where
  "later_reset a b =
     (case (a, b) of
        (JsNum x, JsNum y) \<Rightarrow> JsNum (max x y)
      | (JsNum x, _) \<Rightarrow> a
      | (_, JsNum y) \<Rightarrow> b
      | (JsUndefined, _) \<Rightarrow> b
      | _ \<Rightarrow> a)"

definition reset_value :: "js \<Rightarrow> bool" where
  "reset_value v \<longleftrightarrow> (case v of JsNull \<Rightarrow> True | JsNum n \<Rightarrow> True | _ \<Rightarrow> False)"

definition resets_ok :: "js_fields \<Rightarrow> bool" where
  "resets_ok es \<longleftrightarrow> distinct (map fst es) \<and> (\<forall>(k, v) \<in> set es. reset_value v)"

lemma resets_ok_Cons: "resets_ok (kv # es) \<longleftrightarrow> reset_value (snd kv) \<and> fst kv \<notin> fst ` set es \<and> resets_ok es"
  by (auto simp: resets_ok_def)

lemma resets_ok_lookup: "resets_ok es \<longleftrightarrow> distinct (map fst es) \<and> (\<forall>k v. map_of es k = Some v \<longrightarrow> reset_value v)"
  unfolding resets_ok_def by (auto simp del: split_paired_All)

definition reset_or_absent :: "js \<Rightarrow> bool" where
  "reset_or_absent v \<longleftrightarrow> v = JsUndefined \<or> reset_value v"

lemma reset_or_absent_cases:
  "reset_or_absent v \<Longrightarrow> (v = JsUndefined \<Longrightarrow> P) \<Longrightarrow> (v = JsNull \<Longrightarrow> P) \<Longrightarrow> (\<And>n. v = JsNum n \<Longrightarrow> P) \<Longrightarrow> P"
  by (cases v) (auto simp: reset_or_absent_def reset_value_def)

lemma reset_prop: "resets_ok es \<Longrightarrow> reset_or_absent (get_prop es k)"
  by (auto simp: resets_ok_lookup get_prop_def reset_or_absent_def split: option.split)

lemma later_reset_commute: "reset_or_absent a \<Longrightarrow> reset_or_absent b \<Longrightarrow> later_reset a b = later_reset b a"
  by (elim reset_or_absent_cases) (simp_all add: later_reset_def max.commute)

lemma later_reset_assoc: "reset_or_absent a \<Longrightarrow> reset_or_absent b \<Longrightarrow> reset_or_absent c \<Longrightarrow> later_reset (later_reset a b) c = later_reset a (later_reset b c)"
  by (elim reset_or_absent_cases) (simp_all add: later_reset_def max.assoc)

lemma later_reset_ok: "reset_or_absent a \<Longrightarrow> reset_or_absent b \<Longrightarrow> reset_or_absent (later_reset a b)"
  by (elim reset_or_absent_cases) (simp_all add: later_reset_def reset_or_absent_def reset_value_def)

lemma later_reset_absent [simp]: "reset_or_absent a \<Longrightarrow> later_reset a JsUndefined = a"
  by (elim reset_or_absent_cases) (simp_all add: later_reset_def)

lemma merge_reset_prop:
  assumes "reset_value v" "k \<notin> set OBJECT_PROTOTYPE" "resets_ok out"
  shows "get_prop (merge_reset (key, v) out) k = (if k = key then later_reset (get_prop out k) v else get_prop out k)"
proof (cases "k = key")
  case True
  then have "inherited_prop out key = get_prop out k" using assms(2) by (simp add: inherited_prop_def get_prop_def)
  moreover have "reset_or_absent (get_prop out k)" by (rule reset_prop [OF assms(3)])
  moreover have "v = JsNull \<or> (\<exists>n. v = JsNum n)" using assms(1) by (cases v) (simp_all add: reset_value_def)
  ultimately show ?thesis using True
    by (elim reset_or_absent_cases) (auto simp: merge_reset_def later_reset_def max_def Let_def)
next
  case False
  then show ?thesis by (auto simp: merge_reset_def Let_def split: js.split)
qed

lemma resets_ok_update: "resets_ok out \<Longrightarrow> reset_value v \<Longrightarrow> resets_ok (AList.update key v out)"
  by (auto simp: resets_ok_lookup distinct_update update_conv')

lemma merge_reset_ok: "reset_value v \<Longrightarrow> resets_ok out \<Longrightarrow> resets_ok (merge_reset (key, v) out)"
  by (auto simp: merge_reset_def Let_def resets_ok_update reset_value_def [of JsNull] split: js.split)

lemma merge_resets_ok: "resets_ok inc \<Longrightarrow> resets_ok out \<Longrightarrow> resets_ok (fold merge_reset inc out)"
proof (induction inc arbitrary: out)
  case (Cons kv inc)
  then show ?case by (cases kv) (simp add: resets_ok_Cons merge_reset_ok)
qed simp

lemma merge_resets_prop:
  assumes "k \<notin> set OBJECT_PROTOTYPE"
  shows "resets_ok inc \<Longrightarrow> resets_ok out \<Longrightarrow> get_prop (fold merge_reset inc out) k = later_reset (get_prop out k) (get_prop inc k)"
proof (induction inc arbitrary: out)
  case Nil
  then show ?case by (simp add: get_prop_def [of "[]"] reset_prop)
next
  case (Cons kv inc)
  obtain key v where kv: "kv = (key, v)" by fastforce
  have ok: "reset_value v" "resets_ok inc" "key \<notin> fst ` set inc" using Cons.prems(1) by (simp_all add: kv resets_ok_Cons)
  then have none: "get_prop inc key = JsUndefined" using map_of_eq_None_iff [of inc key] by (simp add: get_prop_def)
  show ?case
    using Cons.IH [OF ok(2) merge_reset_ok [OF ok(1) Cons.prems(2)]] merge_reset_prop [OF ok(1) assms Cons.prems(2)] none
      later_reset_ok [OF reset_prop [OF Cons.prems(2), of k], of v] ok(1)
    by (auto simp: kv get_prop_def [of "(key, v) # inc"] get_prop_def [of inc] reset_or_absent_def [of v])
qed

section \<open>Counts\<close>

text \<open>The requests of a day that the metadata count for a family.\<close>

definition counted :: "string \<Rightarrow> AccountModelFamily \<Rightarrow> js_fields \<Rightarrow> num" where
  "counted day f m =
     (let c = get_prop m ''dailyRequestCounts'' in
      if present c \<and> get_prop (fields_of c) ''date'' = JsStr day then count_of (get_prop (fields_of c) (count_key f)) else 0)"

lemma count_key_neq [simp]: "count_key f \<noteq> ''date''" "''date'' \<noteq> count_key f" "count_key f = count_key g \<longleftrightarrow> f = g"
  by (cases f; cases g; simp add: count_key_def)+

lemma usage_counted:
  assumes "utcDay now = Some day"
  shows "\<exists>m'. applyUsage m obs now = Some m' \<and> counted day f m' = counted day f m + (if uo_family obs = f then 1 else 0)"
proof -
  have new: "get_prop [(''date'', JsStr day), (''claude'', JsNum 0), (''gemini'', JsNum 0)] (count_key g) = JsNum 0" for g
    by (cases g) (simp_all add: get_prop_def count_key_def)
  show ?thesis
    unfolding applyUsage_def assms option.map option.inject Let_def
    by (simp add: counted_def Let_def get_prop_spread present_def fields_of_def [of "plain_obj _"] new)
      (auto simp: get_prop_def [of "[_, _, _]"] count_of_def)
qed

end
