(* ===== verification/Merge_Facts.thy ===== *)
theory Merge_Facts
  imports Policy_Facts
begin

text \<open>Metadata that encode, and that every rule for combining them gives metadata that encode.\<close>

declare js_wf.simps(1) [simp del] is_json.simps(1) [simp del]

section \<open>Typed fields\<close>

abbreviation typed_field :: "string \<Rightarrow> js \<Rightarrow> bool" where
  "typed_field \<equiv> metadata_record.encodes"

definition typed_fields :: "js_fields \<Rightarrow> bool" where
  "typed_fields m \<longleftrightarrow> distinct (map fst m) \<and> (\<forall>k x. map_of m k = Some x \<longrightarrow> js_wf x \<and> typed_field k x)"

definition typed_metadata :: "js_fields \<Rightarrow> bool" where
  "typed_metadata m \<longleftrightarrow> typed_fields m \<and> metadata_record.complete_map (map_of m)"

lemma typed_metadata_iff:
  "typed_metadata m \<longleftrightarrow> wf_fields m \<and> (\<exists>j. encode metadataCodec (plain_obj m) p = Inr j)"
  using metadata_record.record_encodes [of m p]
  by (auto simp: typed_metadata_def typed_fields_def wf_lookup metadataCodec_def openRecord_def buildRecord_def)

lemma typed_get: "typed_fields m \<Longrightarrow> get_prop m k \<noteq> JsUndefined \<Longrightarrow> js_wf (get_prop m k) \<and> typed_field k (get_prop m k)"
  by (auto simp: typed_fields_def get_prop_def split: option.splits)

lemma typed_update: "typed_fields m \<Longrightarrow> js_wf v \<Longrightarrow> typed_field k v \<Longrightarrow> typed_fields (AList.update k v m)"
  by (auto simp: typed_fields_def distinct_update update_conv')

lemma typed_spread: "typed_fields a \<Longrightarrow> typed_fields b \<Longrightarrow> typed_fields (spread_props a b)"
  by (auto simp: typed_fields_def distinct_spread map_of_spread_props map_add_Some_iff)

lemma typed_copy: "typed_fields src \<Longrightarrow> typed_fields dst \<Longrightarrow> typed_fields (copyFields src dst ks)"
proof (induction ks arbitrary: dst)
  case (Cons key ks)
  have "typed_fields (case map_of src key of None \<Rightarrow> dst | Some v \<Rightarrow> AList.update key v dst)"
    using Cons.prems typed_update [OF Cons.prems(2)] by (auto simp: typed_fields_def [of src] split: option.split)
  then show ?case using Cons by (simp add: copyFields_def)
qed (simp add: copyFields_def)

lemma complete_update: "metadata_record.complete_map (map_of m) \<Longrightarrow> metadata_record.complete_map (map_of (AList.update k v m))"
  by (auto simp: metadata_record.complete_map_def update_conv')

lemma complete_metadata: "metadata_record.complete_map f \<longleftrightarrow> f ''addedAt'' \<noteq> None \<and> f ''lastUsed'' \<noteq> None"
  unfolding metadata_record.complete_map_def by (simp add: metadataShape_def)

lemma spread_two: "spread_props m [(a, x), (b, y)] = AList.update b y (AList.update a x m)"
  by (simp add: spread_props_def)

section \<open>The fields that rules compute\<close>

lemma metadata_codecs:
  "map_of metadataShape ''addedAt'' = Some (required finiteNumber)"
  "map_of metadataShape ''lastUsed'' = Some (required finiteNumber)"
  "map_of metadataShape ''rateLimitResetTimes'' = Some (optional (nullable (mapOf (nullable finiteNumber))))"
  "map_of metadataShape EXTENSIONS = None"
  by (simp_all add: metadataShape_def EXTENSIONS_def)

lemma typed_known:
  assumes "map_of metadataShape k = Some f"
  shows "typed_field k v \<longleftrightarrow> plain_field k v \<and> v \<noteq> JsUndefined \<and> (\<exists>y. encode (fd_codec f) v [] = Inr y)"
proof -
  have "k \<noteq> EXTENSIONS" using assms metadata_codecs(4) by auto
  then show ?thesis using assms by (simp add: metadata_record.encodes_def slot_at_def known_in_def codec_in_def)
qed

lemma number_encodes: "(\<exists>y. encode finiteNumber v p = Inr y) \<longleftrightarrow> (\<exists>n. v = JsNum n)"
  by (cases v) (simp_all add: finiteNumber_def primitive_def Let_def)

lemma typed_time: "k = ''addedAt'' \<or> k = ''lastUsed'' \<Longrightarrow> typed_field k v \<longleftrightarrow> (\<exists>n. v = JsNum n)"
  using typed_known [OF metadata_codecs(1)] typed_known [OF metadata_codecs(2)] by (auto simp: number_encodes plain_field_def)

lemma complete_times:
  assumes "typed_metadata m"
  obtains n where "get_prop m ''lastUsed'' = JsNum n"
proof -
  obtain x where "map_of m ''lastUsed'' = Some x" using assms by (auto simp: typed_metadata_def complete_metadata)
  then show thesis using assms that typed_time [of "''lastUsed''" x] by (auto simp: typed_metadata_def typed_fields_def get_prop_def)
qed

lemma complete_added:
  assumes "typed_metadata m"
  obtains n where "get_prop m ''addedAt'' = JsNum n"
proof -
  obtain x where "map_of m ''addedAt'' = Some x" using assms by (auto simp: typed_metadata_def complete_metadata)
  then show thesis using assms that typed_time [of "''addedAt''" x] by (auto simp: typed_metadata_def typed_fields_def get_prop_def)
qed

definition plain_resets :: "js_fields \<Rightarrow> bool" where
  "plain_resets es \<longleftrightarrow> resets_ok es \<and> plain_fields es"

lemma reset_encodes: "(\<exists>y. encode (nullable finiteNumber) v p = Inr y) \<longleftrightarrow> reset_value v"
  by (cases v) (auto simp: nullable_def finiteNumber_def primitive_def Let_def reset_value_def)

lemma nullable_path: "encode (nullable finiteNumber) x p = Inr y \<Longrightarrow> encode (nullable finiteNumber) x q = Inr y"
  by (auto simp: nullable_def finiteNumber_def primitive_def Let_def split: if_splits)

lemma typed_resets:
  assumes "js_wf v"
  shows "typed_field ''rateLimitResetTimes'' v \<longleftrightarrow> v = JsNull \<or> (\<exists>es. v = plain_obj es \<and> plain_resets es)"
proof -
  have all: "(\<exists>ys. fields2 (\<lambda>k x y. encode (nullable finiteNumber) x [] = Inr y) es ys) \<longleftrightarrow> (\<forall>(k, v) \<in> set es. reset_value v)" for es
  proof
    assume "\<exists>ys. fields2 (\<lambda>k x y. encode (nullable finiteNumber) x [] = Inr y) es ys"
    then obtain ys where "fields2 (\<lambda>k x y. encode (nullable finiteNumber) x [] = Inr y) es ys" by blast
    from fields2_ex [OF this] show "\<forall>(k, v) \<in> set es. reset_value v" using reset_encodes [of _ "[]"] by blast
  next
    assume r: "\<forall>(k, v) \<in> set es. reset_value v"
    show "\<exists>ys. fields2 (\<lambda>k x y. encode (nullable finiteNumber) x [] = Inr y) es ys"
      by (rule fields2_choice) (use r reset_encodes in fastforce)
  qed
  have map: "(\<exists>y. encode (mapOf (nullable finiteNumber)) v [] = Inr y) \<longleftrightarrow>
      (\<exists>es. v = plain_obj es \<and> plain_fields es \<and> (\<forall>(k, v) \<in> set es. reset_value v))"
  proof -
    have "encode (mapOf (nullable finiteNumber)) v [] = Inr w \<longleftrightarrow>
        (\<exists>es ys. v = plain_obj es \<and> w = plain_obj ys \<and> plain_fields es \<and> fields2 (\<lambda>k x y. encode (nullable finiteNumber) x [] = Inr y) es ys)" for w
      using each_value_Inr [where f = "encode (nullable finiteNumber)", OF nullable_path] by (simp add: mapOf_def)
    then have "(\<exists>y. encode (mapOf (nullable finiteNumber)) v [] = Inr y) \<longleftrightarrow>
        (\<exists>es. v = plain_obj es \<and> plain_fields es \<and> (\<exists>ys. fields2 (\<lambda>k x y. encode (nullable finiteNumber) x [] = Inr y) es ys))"
      by auto
    then show ?thesis by (simp only: all)
  qed
  have "typed_field ''rateLimitResetTimes'' v \<longleftrightarrow> v \<noteq> JsHidden \<and> v \<noteq> JsUndefined
      \<and> (v = JsNull \<or> (\<exists>y. encode (mapOf (nullable finiteNumber)) v [] = Inr y))"
    unfolding typed_known [OF metadata_codecs(3)] by (auto simp: plain_field_def nullable_def [of "mapOf _"])
  also have "\<dots> \<longleftrightarrow> v = JsNull \<or> (\<exists>es. v = plain_obj es \<and> plain_fields es \<and> (\<forall>(k, v) \<in> set es. reset_value v))"
    by (auto simp: map)
  also have "\<dots> \<longleftrightarrow> v = JsNull \<or> (\<exists>es. v = plain_obj es \<and> plain_resets es)"
    using assms by (auto simp: plain_resets_def resets_ok_def wf_fields_def)
  finally show ?thesis .
qed

lemma plain_update: "plain_fields m \<Longrightarrow> plain_field k v \<Longrightarrow> plain_fields (AList.update k v m)"
  by (induction m) (auto simp: plain_fields_def plain_field_def)

lemma merge_reset_plain: "plain_field key v \<Longrightarrow> reset_value v \<Longrightarrow> plain_fields out \<Longrightarrow> plain_fields (merge_reset (key, v) out)"
  by (auto simp: merge_reset_def Let_def plain_update split: js.split)

lemma merge_resets_plain: "plain_resets inc \<Longrightarrow> plain_resets out \<Longrightarrow> plain_resets (fold merge_reset inc out)"
proof -
  assume i: "plain_resets inc" and o: "plain_resets out"
  have "plain_fields inc \<Longrightarrow> resets_ok inc \<Longrightarrow> plain_fields out \<Longrightarrow> plain_fields (fold merge_reset inc out)" for out
  proof (induction inc arbitrary: out)
    case (Cons kv inc)
    obtain key v where kv: "kv = (key, v)" by fastforce
    have "plain_field key v" "reset_value v" "plain_fields inc" "resets_ok inc"
      using Cons.prems(1,2) by (auto simp: kv resets_ok_Cons plain_fields_def plain_field_def)
    then show ?case using Cons.IH merge_reset_plain [OF _ _ Cons.prems(3)] by (simp add: kv)
  qed simp
  then show "plain_resets (fold merge_reset inc out)" using i o merge_resets_ok by (simp add: plain_resets_def)
qed

lemma resets_wf: "plain_resets es \<Longrightarrow> js_wf (plain_obj es)"
proof -
  assume "plain_resets es"
  then have "distinct (map fst es)" "\<forall>(k, v) \<in> set es. reset_value v" by (auto simp: plain_resets_def resets_ok_def)
  moreover have "js_wf v" if "reset_value v" for v using that by (cases v) (simp_all add: reset_value_def js_wf.simps)
  ultimately show ?thesis by (auto simp: wf_fields_def list_all_iff)
qed

lemma stored_resets:
  assumes "typed_fields m"
  shows "get_prop m ''rateLimitResetTimes'' = JsUndefined \<or> get_prop m ''rateLimitResetTimes'' = JsNull
    \<or> (\<exists>es. get_prop m ''rateLimitResetTimes'' = plain_obj es \<and> plain_resets es)"
  using typed_get [OF assms, of "''rateLimitResetTimes''"] typed_resets by blast

lemma stored_resets_plain: "typed_fields m \<Longrightarrow> plain_resets (fields_of (get_prop m ''rateLimitResetTimes''))"
  using stored_resets [of m] by (auto simp: fields_of_def plain_resets_def resets_ok_def plain_fields_def)

lemma merged_resets_typed:
  assumes "typed_fields a" "typed_fields b" "get_prop b ''rateLimitResetTimes'' \<noteq> JsUndefined"
  shows "js_wf (mergeRateLimitResets (get_prop a ''rateLimitResetTimes'') (get_prop b ''rateLimitResetTimes''))
    \<and> typed_field ''rateLimitResetTimes'' (mergeRateLimitResets (get_prop a ''rateLimitResetTimes'') (get_prop b ''rateLimitResetTimes''))"
proof -
  let ?a = "get_prop a ''rateLimitResetTimes''" and ?b = "get_prop b ''rateLimitResetTimes''"
  note a = stored_resets [OF assms(1)]
  have b: "?b = JsNull \<or> (\<exists>es. ?b = plain_obj es \<and> plain_resets es)"
    using typed_get [OF assms(2,3)] typed_resets by blast
  have "mergeRateLimitResets ?a ?b = JsNull \<or> (\<exists>es. mergeRateLimitResets ?a ?b = plain_obj es \<and> plain_resets es)"
  proof (cases "?b = JsNull")
    case True
    then show ?thesis using a by (auto simp: mergeRateLimitResets_def)
  next
    case False
    then obtain es where es: "?b = plain_obj es" "plain_resets es" using b by blast
    then have "plain_resets (fold merge_reset es (fields_of ?a))" using merge_resets_plain stored_resets_plain [OF assms(1)] by blast
    then show ?thesis by (simp add: mergeRateLimitResets_def es(1) fields_of_def [of "plain_obj _"])
  qed
  then show ?thesis using resets_wf typed_resets by (metis js_wf.simps(4))
qed

section \<open>Extensions\<close>

context record_shape
begin

lemma extensions_ok_lookup:
  assumes "js_wf (plain_obj ext)"
  shows "extensions_ok (plain_obj ext) \<longleftrightarrow> (\<forall>k x. map_of ext k = Some x \<longrightarrow> plain_field k x \<and> extension_ok (k, x))"
proof -
  have d: "distinct (map fst ext)" using assms by (simp add: wf_fields_def)
  have "list_all extension_ok ext \<longleftrightarrow> (\<forall>k x. map_of ext k = Some x \<longrightarrow> extension_ok (k, x))"
    using each_lookup [OF d, of extension_ok] by (simp add: list_all_iff)
  then show ?thesis by (auto simp: extensions_ok_def plain_fields_lookup [OF d])
qed

lemma extensions_cases: "extensions_ok x \<Longrightarrow> x = JsUndefined \<or> (\<exists>es. x = plain_obj es)"
  by (auto simp: extensions_ok_def)

lemma merged_extensions_ok:
  assumes "extensions_ok a" "extensions_ok b" "js_wf a" "js_wf b"
  shows "extensions_ok (mergeExtensions a b) \<and> js_wf (mergeExtensions a b)"
proof (cases "a = JsUndefined \<and> b = JsUndefined")
  case False
  have part: "js_wf (plain_obj (fields_of x)) \<and> extensions_ok (plain_obj (fields_of x))" if "extensions_ok x" "js_wf x" for x
    using that extensions_cases [OF that(1)]
    by (auto simp: fields_of_def extensions_ok_def wf_fields_def plain_fields_def)
  note ab = part [OF assms(1,3)] part [OF assms(2,4)]
  have wf: "js_wf (plain_obj (spread_props (fields_of a) (fields_of b)))" using ab wf_spread by simp
  have "extensions_ok (plain_obj (spread_props (fields_of a) (fields_of b)))"
    using ab by (auto simp: extensions_ok_lookup [OF wf] extensions_ok_lookup map_of_spread_props map_add_Some_iff wf_fields_def)
  then show ?thesis using False wf by (auto simp: mergeExtensions_def)
qed (simp add: mergeExtensions_def extensions_ok_def js_wf.simps)

end

lemma typed_extensions:
  assumes "typed_fields m"
  shows "metadata_record.extensions_ok (get_prop m EXTENSIONS) \<and> js_wf (get_prop m EXTENSIONS)"
proof (cases "get_prop m EXTENSIONS = JsUndefined")
  case False
  then show ?thesis using typed_get [OF assms False] by (simp add: metadata_record.encodes_def slot_at_def)
qed (simp add: metadata_record.extensions_ok_def js_wf.simps)

lemma typed_extensions_field:
  "metadata_record.extensions_ok x \<Longrightarrow> typed_field EXTENSIONS x"
  using metadata_record.extensions_cases [of x]
  by (auto simp: metadata_record.encodes_def slot_at_def plain_field_def EXTENSIONS_def)

section \<open>Merged metadata\<close>

lemma merged_typed:
  assumes "typed_metadata a" "typed_metadata b"
  shows "typed_metadata (mergeSameCredential a b)"
proof -
  have t: "typed_fields a" "typed_fields b" using assms by (simp_all add: typed_metadata_def)
  obtain x y z where n: "get_prop a ''addedAt'' = JsNum x" "get_prop a ''lastUsed'' = JsNum y" "get_prop b ''lastUsed'' = JsNum z"
    using complete_added [OF assms(1)] complete_times [OF assms(1)] complete_times [OF assms(2)] by metis
  define m1 where "m1 = spread_props (spread_props a b)
            [(''addedAt'', get_prop a ''addedAt''), (''lastUsed'', js_max (get_prop a ''lastUsed'') (get_prop b ''lastUsed''))]"
  define m2 where "m2 = (if present (get_prop a ''dailyRequestCounts'')
                 then AList.update ''dailyRequestCounts'' (get_prop a ''dailyRequestCounts'') m1 else m1)"
  define m3 where "m3 = (if get_prop b ''rateLimitResetTimes'' \<noteq> JsUndefined
                 then AList.update ''rateLimitResetTimes''
                        (mergeRateLimitResets (get_prop a ''rateLimitResetTimes'') (get_prop b ''rateLimitResetTimes'')) m2
                 else m2)"
  define e where "e = mergeExtensions (get_prop a EXTENSIONS) (get_prop b EXTENSIONS)"
  have m: "mergeSameCredential a b = (if e \<noteq> JsUndefined then AList.update EXTENSIONS e m3 else m3)"
    by (simp only: mergeSameCredential_def Let_def m1_def m2_def m3_def e_def)
  have m1: "typed_metadata m1"
    unfolding m1_def spread_two n js_max_def
    by (auto simp: typed_metadata_def complete_metadata update_conv' js_wf.simps typed_time intro!: typed_update typed_spread t)
  have m2: "typed_metadata m2"
    using m1 typed_get [OF t(1), of "''dailyRequestCounts''"]
    by (auto simp: m2_def typed_metadata_def present_def intro!: typed_update complete_update)
  have m3: "typed_metadata m3"
    using m2 merged_resets_typed [OF t] by (auto simp: m3_def typed_metadata_def intro!: typed_update complete_update)
  have "metadata_record.extensions_ok e \<and> js_wf e"
    unfolding e_def by (intro metadata_record.merged_extensions_ok) (simp_all add: typed_extensions t)
  then show ?thesis
    using m3 typed_extensions_field [of e] by (auto simp: m typed_metadata_def intro!: typed_update complete_update)
qed

lemma retained_typed:
  assumes "typed_metadata prev"
  shows "typed_metadata (spread_props (if same then copyFields prev (copyFields prev [] ROW_RETAINED_FIELDS) SAME_ACCOUNT_RETAINED_FIELDS
      else copyFields prev [] ROW_RETAINED_FIELDS) [(''addedAt'', get_prop prev ''addedAt''), (''lastUsed'', get_prop prev ''lastUsed'')])"
proof -
  obtain x y where n: "get_prop prev ''addedAt'' = JsNum x" "get_prop prev ''lastUsed'' = JsNum y"
    using complete_added [OF assms] complete_times [OF assms] by metis
  have t: "typed_fields prev" "typed_fields []" using assms by (simp_all add: typed_metadata_def typed_fields_def)
  show ?thesis
    unfolding spread_two n
    by (auto simp: typed_metadata_def complete_metadata update_conv' js_wf.simps typed_time intro!: typed_update typed_copy t)
qed

section \<open>States\<close>

lemma provider_codecs:
  "map_of providerShape ''schemaVersion'' = Some (required (schemaVersion PROVIDER_STATE_SCHEMA_VERSION))"
  "map_of providerShape ''metadata'' = Some (required metadataCodec)"
  by simp_all

lemma encodeProviderState_record: "encodeProviderState v = encode_record providerShape True CREDENTIAL_KEYS v ''$''"
  by (simp add: encodeProviderState_codec providerStateCodec_def openRecord_def buildRecord_def)

definition typed_state :: "js \<Rightarrow> bool" where
  "typed_state v \<longleftrightarrow> typed_metadata (metadata_of v) \<and> provider_record.extensions_ok (extensions_of v) \<and> js_wf (extensions_of v)"

lemma decoded_typed:
  assumes "js_wf raw" "decodeProviderState raw = Inr v"
  shows "typed_state v"
proof -
  have dec: "decode providerStateCodec raw ''$'' = Inr v" using assms(2) by (simp add: decodeProviderState_def)
  have "js_wf v" using provider_state_codec.decoded [OF assms(1) dec] by simp
  obtain j where j: "encode_record providerShape True CREDENTIAL_KEYS v ''$'' = Inr j"
    using provider_state_codec.decode_encode [OF assms(1) dec]
    by (auto simp flip: encodeProviderState_record simp: encodeProviderState_codec)
  obtain es where es: "v = plain_obj es" using j by (auto simp only: provider_record.encode_record_Inr)
  have wf: "wf_fields es" "distinct (map fst es)" using \<open>js_wf v\<close> by (simp_all add: es wf_fields_def)
  have f: "\<And>k x. map_of es k = Some x \<Longrightarrow> provider_record.encodes k x" "provider_record.complete_map (map_of es)"
    using provider_record.record_encodes [OF wf(2), THEN iffD1, OF exI, OF j [unfolded es]] by blast+
  obtain m where m: "map_of es ''metadata'' = Some m" using f(2) by (auto simp: provider_record.complete_map_def)
  obtain y where y: "encode metadataCodec m [] = Inr y"
    using f(1) [OF m] by (auto simp: provider_record.encodes_def slot_at_def EXTENSIONS_def known_in_def codec_in_def)
  obtain ms where ms: "m = plain_obj ms"
    using y by (auto simp: metadataCodec_def openRecord_def buildRecord_def metadata_record.encode_record_Inr)
  have "js_wf m" using wf(1) m unfolding wf_lookup by blast
  then have "wf_fields ms" by (simp add: ms)
  then have "typed_metadata ms" using y ms by (auto simp: typed_metadata_iff [of _ "[]"])
  moreover have "metadata_of v = ms" using m ms by (simp add: metadata_of_def es fields_of_def get_prop_def)
  moreover have "provider_record.extensions_ok (extensions_of v) \<and> js_wf (extensions_of v)"
  proof (cases "map_of es EXTENSIONS")
    case None
    then show ?thesis by (simp add: extensions_of_def es fields_of_def get_prop_def provider_record.extensions_ok_def js_wf.simps)
  next
    case (Some x)
    then show ?thesis using f(1) [OF Some] wf(1)
      by (auto simp: extensions_of_def es fields_of_def get_prop_def provider_record.encodes_def slot_at_def wf_lookup)
  qed
  ultimately show ?thesis by (simp add: typed_state_def)
qed

lemma policy_state_encodes:
  assumes "typed_metadata m" "provider_record.extensions_ok e" "js_wf e"
  shows "js_wf (policy_state m e) \<and> (\<exists>j. encodeProviderState (policy_state m e) = Inr j)"
proof -
  define es where "es = [(''schemaVersion'', JsNum (of_nat PROVIDER_STATE_SCHEMA_VERSION)), (''metadata'', plain_obj m)]
       @ (if e \<noteq> JsUndefined then [(EXTENSIONS, e)] else [])"
  have s: "policy_state m e = plain_obj es" by (simp add: policy_state_def es_def)
  have "js_wf (plain_obj m)" "\<exists>j. encode metadataCodec (plain_obj m) [] = Inr j"
    using assms(1) typed_metadata_iff [of m "[]"] by simp_all
  then have wf: "wf_fields es" using assms(3) by (auto simp: es_def wf_fields_def EXTENSIONS_def js_wf.simps)
  have "provider_record.encodes ''schemaVersion'' (JsNum (of_nat PROVIDER_STATE_SCHEMA_VERSION))"
    unfolding provider_record.encodes_def
    by (simp add: plain_field_def slot_at_def EXTENSIONS_def known_in_def codec_in_def schemaVersion_def Let_def)
  moreover have "provider_record.encodes ''metadata'' (plain_obj m)"
    using \<open>\<exists>j. encode metadataCodec (plain_obj m) [] = Inr j\<close>
    by (simp add: provider_record.encodes_def plain_field_def slot_at_def EXTENSIONS_def known_in_def codec_in_def)
  moreover have "provider_record.encodes EXTENSIONS e" if "e \<noteq> JsUndefined"
    using assms(2) provider_record.extensions_cases [OF assms(2)] that
    by (auto simp: provider_record.encodes_def plain_field_def slot_at_def EXTENSIONS_def)
  ultimately have "\<forall>k x. map_of es k = Some x \<longrightarrow> provider_record.encodes k x"
    by (auto simp: es_def split: if_splits)
  moreover have "provider_record.complete_map (map_of es)" unfolding provider_record.complete_map_def by (simp add: es_def)
  moreover have "distinct (map fst es)" using wf by (simp add: wf_fields_def)
  ultimately show ?thesis
    using provider_record.record_encodes [of es "''$''"] wf by (simp add: encodeProviderState_record s)
qed

lemma encoded_valid: "js_wf v \<Longrightarrow> encodeProviderState v = Inr j \<Longrightarrow> isValidProviderState j"
  using provider_state_codec.encode_decode [of v "''$''" j]
  by (auto simp: isValidProviderState_def validates_def encodeProviderState_codec decodeProviderState_def)

lemma policy_merge_typed:
  assumes "typed_state a" "typed_state b"
  shows "\<exists>j. encodeProviderState (pol_merge ACCOUNT_STATE_POLICY a b) = Inr j \<and> isValidProviderState j"
proof -
  have "js_wf (pol_merge ACCOUNT_STATE_POLICY a b) \<and> (\<exists>j. encodeProviderState (pol_merge ACCOUNT_STATE_POLICY a b) = Inr j)"
    using assms provider_record.merged_extensions_ok
    by (simp add: ACCOUNT_STATE_POLICY_def policy_state_encodes merged_typed typed_state_def)
  then show ?thesis using encoded_valid by blast
qed

definition replacement_state :: "js option \<Rightarrow> js" where
  "replacement_state s = (case s of None \<Rightarrow> JsUndefined | Some v \<Rightarrow> extensions_of v)"

lemma policy_replace_typed:
  assumes "pred_option typed_state p" "pred_option typed_state (rp_incoming r)"
    and "pol_onReplace ACCOUNT_STATE_POLICY p r = Some s"
  shows "\<exists>j. encodeProviderState s = Inr j \<and> isValidProviderState j"
proof -
  obtain m where m: "replacementMetadata (map_option metadata_of p) r = Some m"
    "s = policy_state m (mergeExtensions (replacement_state p) (replacement_state (rp_incoming r)))"
    using assms(3) by (auto simp: ACCOUNT_STATE_POLICY_def replacement_state_def split: option.splits)
  have ext: "provider_record.extensions_ok (replacement_state q) \<and> js_wf (replacement_state q)" if "pred_option typed_state q" for q
    using that by (cases q) (simp_all add: replacement_state_def typed_state_def provider_record.extensions_ok_def js_wf.simps)
  have inc: "typed_metadata (metadata_of i)" if "rp_incoming r = Some i" for i using assms(2) that by (simp add: typed_state_def)
  have "typed_metadata m"
  proof (cases p)
    case None
    then show ?thesis using m(1) inc by (auto simp: replacementMetadata_def)
  next
    case (Some q)
    then have "typed_metadata (metadata_of q)" using assms(1) by (simp add: typed_state_def)
    note base = retained_typed [OF this]
    show ?thesis
      using m(1) inc base [of True] base [of False] merged_typed [OF base [of True]] merged_typed [OF base [of False]]
      by (auto simp: Some replacementMetadata_def Let_def split: option.splits if_splits)
  qed
  then have "js_wf s \<and> (\<exists>j. encodeProviderState s = Inr j)"
    unfolding m(2) using ext [OF assms(1)] ext [OF assms(2)] provider_record.merged_extensions_ok by (intro policy_state_encodes) blast+
  then show ?thesis using encoded_valid by blast
qed

section \<open>Observations\<close>

datatype observation =
    OfProject ProjectObservation
  | OfTier TierObservation
  | OfCooldown "CooldownObservation option"
  | OfRateLimits js_fields
  | OfSwitch string
  | OfVerdict AccessVerdict

fun observe :: "observation \<Rightarrow> js_fields \<Rightarrow> js_fields" where
  "observe (OfProject x) m = applyProjectObservation m x"
| "observe (OfTier x) m = applyTierObservation m x"
| "observe (OfCooldown x) m = applyCooldownObservation m x"
| "observe (OfRateLimits x) m = applyRateLimitObservation m x"
| "observe (OfSwitch x) m = applySwitch m x"
| "observe (OfVerdict x) m = verdict_step x m"

definition text_or_null :: "js \<Rightarrow> bool" where
  "text_or_null v \<longleftrightarrow> v = JsNull \<or> (\<exists>s. v = JsStr s)"

text \<open>The values the types of the observations allow.\<close>

fun proper :: "observation \<Rightarrow> bool" where
  "proper (OfProject x) = (pred_option text_or_null (po_projectId x) \<and> pred_option text_or_null (po_managedProjectId x))"
| "proper (OfTier x) = (text_or_null (to_tierId x) \<and> text_or_null (to_paidTierId x))"
| "proper (OfCooldown x) =
     pred_option (\<lambda>c. co_reason c \<in> {''auth-failure'', ''network-error'', ''project-error'', ''validation-required''}) x"
| "proper (OfRateLimits x) = plain_resets x"
| "proper (OfSwitch x) = (x \<in> {''rate-limit'', ''initial'', ''rotation''})"
| "proper (OfVerdict x) = True"

lemma metadata_distinct: "distinct (map fst metadataShape)"
  unfolding metadata_keys by code_simp

lemma observed_codecs:
  "map_of metadataShape ''projectId'' = Some (optional (nullable string_codec))"
  "map_of metadataShape ''managedProjectId'' = Some (optional (nullable string_codec))"
  "map_of metadataShape ''capturedTierId'' = Some (optional (nullable string_codec))"
  "map_of metadataShape ''capturedPaidTierId'' = Some (optional (nullable string_codec))"
  "map_of metadataShape ''verificationRequiredReason'' = Some (optional (nullable string_codec))"
  "map_of metadataShape ''verificationUrl'' = Some (optional (nullable string_codec))"
  "map_of metadataShape ''accountIneligibleReason'' = Some (optional (nullable string_codec))"
  "map_of metadataShape ''capturedTierAt'' = Some (optional (nullable finiteNumber))"
  "map_of metadataShape ''capturedTierSchemaVersion'' = Some (optional (nullable finiteNumber))"
  "map_of metadataShape ''coolingDownUntil'' = Some (optional (nullable finiteNumber))"
  "map_of metadataShape ''verificationRequiredAt'' = Some (optional (nullable finiteNumber))"
  "map_of metadataShape ''accountIneligibleAt'' = Some (optional (nullable finiteNumber))"
  "map_of metadataShape ''eligibilityStateUpdatedAt'' = Some (optional (nullable finiteNumber))"
  "map_of metadataShape ''verificationRequired'' = Some (optional (nullable boolean_codec))"
  "map_of metadataShape ''accountIneligible'' = Some (optional (nullable boolean_codec))"
  "map_of metadataShape ''lastSwitchReason'' = Some (optional (nullable (enumOf [''rate-limit'', ''initial'', ''rotation''])))"
  "map_of metadataShape ''cooldownReason'' =
     Some (optional (nullable (enumOf [''auth-failure'', ''network-error'', ''project-error'', ''validation-required''])))"
  by (rule map_of_is_SomeI [OF metadata_distinct], subst metadataShape_def, (rule list.set_intros(1) | rule list.set_intros(2))+)+

lemma nullable_encodes: "(\<exists>y. encode (nullable c) v p = Inr y) \<longleftrightarrow> v = JsNull \<or> (\<exists>y. encode c v p = Inr y)"
  by (simp add: nullable_def)

lemma text_encodes: "(\<exists>y. encode string_codec v p = Inr y) \<longleftrightarrow> (\<exists>s. v = JsStr s)"
  by (cases v) (simp_all add: string_codec_def primitive_def Let_def)

lemma bool_encodes: "(\<exists>y. encode boolean_codec v p = Inr y) \<longleftrightarrow> (\<exists>b. v = JsBool b)"
  by (cases v) (simp_all add: boolean_codec_def primitive_def Let_def)

lemma enum_encodes: "(\<exists>y. encode (enumOf vs) v p = Inr y) \<longleftrightarrow> (\<exists>s \<in> set vs. v = JsStr s)"
  by (cases v) (simp_all add: enumOf_def primitive_def Let_def)

lemmas observed_fields = observed_codecs [THEN typed_known]

lemma observed_typed:
  "text_or_null v \<Longrightarrow> k \<in> {''projectId'', ''managedProjectId'', ''capturedTierId'', ''capturedPaidTierId'', ''verificationRequiredReason'',
     ''verificationUrl'', ''accountIneligibleReason''} \<Longrightarrow> js_wf v \<and> typed_field k v"
  by (elim insertE emptyE; hypsubst; unfold observed_fields)
    (auto simp: nullable_encodes text_encodes text_or_null_def plain_field_def js_wf.simps)

lemma observed_number:
  "k \<in> {''capturedTierAt'', ''capturedTierSchemaVersion'', ''coolingDownUntil'', ''verificationRequiredAt'', ''accountIneligibleAt'',
     ''eligibilityStateUpdatedAt''} \<Longrightarrow> js_wf (JsNum n) \<and> typed_field k (JsNum n)"
  by (elim insertE emptyE; hypsubst; unfold observed_fields)
    (auto simp: nullable_encodes number_encodes plain_field_def js_wf.simps)

lemma observed_flag: "k \<in> {''verificationRequired'', ''accountIneligible''} \<Longrightarrow> js_wf (JsBool b) \<and> typed_field k (JsBool b)"
  by (elim insertE emptyE; hypsubst; unfold observed_fields)
    (auto simp: nullable_encodes bool_encodes plain_field_def js_wf.simps)

lemma typed_set: "typed_metadata m \<Longrightarrow> js_wf v \<and> typed_field k v \<Longrightarrow> typed_metadata (AList.update k v m)"
  by (simp add: typed_metadata_def typed_update complete_update)

lemma typed_delete: "typed_metadata m \<Longrightarrow> k \<noteq> ''addedAt'' \<Longrightarrow> k \<noteq> ''lastUsed'' \<Longrightarrow> typed_metadata (AList.delete k m)"
  by (auto simp: typed_metadata_def typed_fields_def complete_metadata delete_conv' distinct_delete)

lemma typed_remove: "typed_metadata m \<Longrightarrow> ''addedAt'' \<notin> set ks \<Longrightarrow> ''lastUsed'' \<notin> set ks \<Longrightarrow> typed_metadata (remove_all ks m)"
proof (induction ks arbitrary: m)
  case (Cons k ks)
  then show ?case using Cons.IH [OF typed_delete [OF Cons.prems(1), of k]] by (auto simp: remove_all_def)
qed (simp add: remove_all_def)

lemma verdict_typed:
  assumes "typed_metadata m"
  shows "typed_metadata (verdict_step v m)"
proof (cases "applyAccessVerdict m v")
  case (Some r)
  obtain m' transition where r: "r = (m', transition)" by fastforce
  have t: "text_or_null (JsStr s)" for s by (simp add: text_or_null_def)
  note rules = typed_set typed_delete typed_remove observed_typed [OF t] observed_number observed_flag assms
  have "typed_metadata (require_verification t reason url m)" for t reason url
    by (auto simp: require_verification_def Let_def intro!: rules split: option.split)
  moreover have "typed_metadata (mark_ineligible t reason m)" for t reason
    by (auto simp: mark_ineligible_def intro!: rules)
  moreover have "typed_metadata (apply_cleared t m)" for t
    by (auto simp: apply_cleared_def Let_def intro!: rules)
  ultimately have "typed_metadata m'" using verdict_result [OF Some [unfolded r]] by (cases v) simp_all
  then show ?thesis by (simp add: verdict_step_def Some r)
qed (simp add: verdict_step_def assms)

lemma observe_typed:
  assumes "typed_metadata m" "proper x"
  shows "typed_metadata (observe x m)"
proof (cases x)
  case (OfProject y)
  then show ?thesis using assms
    by (auto simp: applyProjectObservation_def Let_def intro!: typed_set observed_typed split: option.split)
next
  case (OfTier y)
  then show ?thesis using assms
    by (auto simp: applyTierObservation_def spread_props_def intro!: typed_set observed_typed observed_number)
next
  case (OfCooldown y)
  have "js_wf (JsStr s) \<and> typed_field ''cooldownReason'' (JsStr s)"
    if "s \<in> {''auth-failure'', ''network-error'', ''project-error'', ''validation-required''}" for s
    unfolding observed_fields using that by (auto simp: nullable_encodes enum_encodes plain_field_def js_wf.simps)
  note reason = this
  show ?thesis
  proof (cases y)
    case None
    then show ?thesis using assms(1) by (simp add: OfCooldown applyCooldownObservation_def typed_delete)
  next
    case (Some c)
    then have "js_wf (JsStr (co_reason c)) \<and> typed_field ''cooldownReason'' (JsStr (co_reason c))"
      using assms(2) OfCooldown by (intro reason) simp
    then show ?thesis
      unfolding OfCooldown Some observe.simps applyCooldownObservation_def option.case
      by (intro typed_set assms(1) observed_number) simp_all
  qed
next
  case (OfRateLimits y)
  have "plain_resets (fold merge_reset y (fields_of (get_prop m ''rateLimitResetTimes'')))"
    using assms OfRateLimits merge_resets_plain stored_resets_plain by (simp add: typed_metadata_def)
  note merged = resets_wf [OF this] typed_resets [OF resets_wf [OF this]] this
  have "typed_metadata (applyRateLimitObservation m y)"
    unfolding applyRateLimitObservation_def mergeRateLimitResets_def
    by (rule typed_set [OF assms(1)]) (use merged in \<open>simp add: fields_of_def [of "plain_obj _"]\<close>)
  then show ?thesis by (simp add: OfRateLimits)
next
  case (OfSwitch y)
  have "js_wf (JsStr y) \<and> typed_field ''lastSwitchReason'' (JsStr y)"
    unfolding observed_fields using assms(2) OfSwitch by (auto simp: nullable_encodes enum_encodes plain_field_def js_wf.simps)
  then show ?thesis using assms OfSwitch by (auto simp: applySwitch_def intro: typed_set)
next
  case (OfVerdict y)
  then show ?thesis using assms(1) verdict_typed by simp
qed

lemma observations_typed: "typed_metadata m \<Longrightarrow> list_all proper xs \<Longrightarrow> typed_metadata (fold observe xs m)"
  by (induction xs arbitrary: m) (simp_all add: observe_typed)

end
