(* ===== verification/Policy_Properties.thy ===== *)
theory Policy_Properties
  imports Merge_Facts Codec_Properties
begin

text \<open>What the rules for account metadata promise: verdicts, rate limits, counts, replaced credentials, merged states.\<close>

section \<open>Verdicts\<close>

text \<open>
  C30. Whatever order verdicts arrive in, the newest one decides when it blocks: the account is then blocked for exactly
  that reason and its evidence is of that time; verdicts that arrive late change nothing.
\<close>

theorem newest_verdict_wins:
  assumes "\<forall>e. accessEvidenceAt m = Some e \<longrightarrow> e \<le> observedAt v" "blocking v"
    and "\<forall>w \<in> set xs \<union> set ys. observedAt w < observedAt v"
  shows "access_status (fold verdict_step (xs @ v # ys) m) = verdict_status v
    \<and> accessEvidenceAt (fold verdict_step (xs @ v # ys) m) = Some (observedAt v)"
proof -
  have s: "seen_by (observedAt v) (fold verdict_step xs m)"
    by (rule steps_seen) (use assms in \<open>auto simp: seen_by_evidence intro: less_imp_le\<close>)
  note accepted = step_accepted [OF s]
  have "fold verdict_step ys (verdict_step v (fold verdict_step xs m)) = verdict_step v (fold verdict_step xs m)"
    by (rule stale_steps [OF accepted(2) [OF assms(2)]]) (use assms(3) in simp)
  then show ?thesis using accepted(1) accepted(2) [OF assms(2)] by simp
qed

theorem newest_verdict_wins_witness:
  "access_status (fold verdict_step ([VerificationRequired 100 None None] @ Ineligible 300 ''abuse'' # [Cleared 200 True]) [])
     = verdict_status (Ineligible 300 ''abuse'')
   \<and> accessEvidenceAt (fold verdict_step ([VerificationRequired 100 None None] @ Ineligible 300 ''abuse'' # [Cleared 200 True]) [])
     = Some (observedAt (Ineligible 300 ''abuse''))"
  by (rule newest_verdict_wins) (simp_all add: accessEvidenceAt_def latest_def get_prop_def blocking_def)

text \<open>
  C31. A clearing verdict on an account that was never ineligible leaves no evidence time behind: after it every verdict is
  accepted, also one observed before it.
\<close>

theorem cleared_forgets_evidence:
  assumes "applyAccessVerdict m (Cleared t enable) = Some (m', transition)"
    and "get_prop m ''accountIneligible'' \<noteq> JsBool True" "\<not> present (get_prop m ''eligibilityStateUpdatedAt'')"
  shows "accessEvidenceAt m' = None \<and> applyAccessVerdict m' v \<noteq> None"
proof -
  have p: "v = JsUndefined \<or> v = JsNull" if "\<not> present v" for v using that by (auto simp: present_def)
  have "accessEvidenceAt m' = None"
    using verdict_result [OF assms(1)] assms(2,3) p [OF assms(3)]
    by (auto simp: apply_cleared_def Let_def accessEvidenceAt_def latest_def)
  then show ?thesis using verdict_accepted [of m' v] by (simp add: seen_by_evidence)
qed

theorem cleared_forgets_evidence_witness:
  "accessEvidenceAt (verdict_step (Cleared 200 True) (verdict_step (VerificationRequired 100 None None) [])) = None
    \<and> applyAccessVerdict (verdict_step (Cleared 200 True) (verdict_step (VerificationRequired 100 None None) []))
        (VerificationRequired 150 None None) \<noteq> None"
proof (rule cleared_forgets_evidence)
  show "applyAccessVerdict (verdict_step (VerificationRequired 100 None None) []) (Cleared 200 True)
      = Some (verdict_step (Cleared 200 True) (verdict_step (VerificationRequired 100 None None) []), Enable)"
    by code_simp
qed code_simp+

section \<open>Rate limits\<close>

definition resets_of :: "js_fields \<Rightarrow> js_fields" where
  "resets_of m = fields_of (get_prop m ''rateLimitResetTimes'')"

lemma observed_resets:
  assumes "resets_ok (resets_of m)" "resets_ok q" "k \<notin> set OBJECT_PROTOTYPE"
  shows "resets_ok (resets_of (applyRateLimitObservation m q))"
    and "get_prop (resets_of (applyRateLimitObservation m q)) k = later_reset (get_prop (resets_of m) k) (get_prop q k)"
  using merge_resets_ok [OF assms(2,1)] merge_resets_prop [OF assms(3,2,1)]
  by (simp_all add: resets_of_def applyRateLimitObservation_def mergeRateLimitResets_def fields_of_def [of "plain_obj _"])

lemma observed_resets_fold:
  assumes "resets_ok (resets_of m)" "\<forall>q \<in> set qs. resets_ok q" "k \<notin> set OBJECT_PROTOTYPE"
  shows "get_prop (resets_of (fold (\<lambda>q m. applyRateLimitObservation m q) qs m)) k
    = fold (\<lambda>q r. later_reset r (get_prop q k)) qs (get_prop (resets_of m) k)"
  using assms(1,2) by (induction qs arbitrary: m) (simp_all add: observed_resets [OF _ _ assms(3)])

lemma later_reset_fold_order:
  assumes "mset qs = mset qs'" "\<forall>q \<in> set qs. resets_ok q" "reset_or_absent r"
  shows "fold (\<lambda>q r. later_reset r (get_prop q k)) qs r = fold (\<lambda>q r. later_reset r (get_prop q k)) qs' r"
proof -
  define f where "f = (\<lambda>v r. if reset_or_absent v \<and> reset_or_absent r then later_reset r v else r)"
  have comm: "f x \<circ> f y = f y \<circ> f x" for x y
    by (auto simp: f_def fun_eq_iff later_reset_ok later_reset_assoc) (metis later_reset_assoc later_reset_commute)+
  have eq: "fold (\<lambda>q r. later_reset r (get_prop q k)) qs r = fold f (map (\<lambda>q. get_prop q k) qs) r"
    if "\<forall>q \<in> set qs. resets_ok q" "reset_or_absent r" for qs r
    using that by (induction qs arbitrary: r) (simp_all add: f_def reset_prop later_reset_ok)
  have "fold f (map (\<lambda>q. get_prop q k) qs) = fold f (map (\<lambda>q. get_prop q k) qs')"
  proof (rule fold_multiset_equiv)
    show "mset (map (\<lambda>q. get_prop q k) qs) = mset (map (\<lambda>q. get_prop q k) qs')" using assms(1) by (simp only: mset_map)
  qed (rule comm)
  moreover have "\<forall>q \<in> set qs'. resets_ok q" using assms(1,2) mset_eq_setD by metis
  ultimately show ?thesis using eq assms(2,3) by simp
qed

text \<open>
  C32. The order in which rate limits are observed does not matter: after the same observations in any order every key
  has the same reset, and it is never earlier than a stored or observed one.
\<close>

theorem rate_limits_any_order:
  assumes "resets_ok (resets_of m)" "\<forall>q \<in> set qs. resets_ok q" "mset qs = mset qs'" "k \<notin> set OBJECT_PROTOTYPE"
  shows "get_prop (resets_of (fold (\<lambda>q m. applyRateLimitObservation m q) qs m)) k
       = get_prop (resets_of (fold (\<lambda>q m. applyRateLimitObservation m q) qs' m)) k
    \<and> (\<forall>n. JsNum n \<in> insert (get_prop (resets_of m) k) ((\<lambda>q. get_prop q k) ` set qs) \<longrightarrow>
         (\<exists>t \<ge> n. get_prop (resets_of (fold (\<lambda>q m. applyRateLimitObservation m q) qs m)) k = JsNum t))"
proof -
  have qs': "\<forall>q \<in> set qs'. resets_ok q" using assms(2,3) mset_eq_setD by metis
  have up: "\<exists>t \<ge> n. later_reset r v = JsNum t" if "r = JsNum n \<or> v = JsNum n" "reset_or_absent r" "reset_or_absent v" for r v n
    using that(2,3,1) by (elim reset_or_absent_cases) (auto simp: later_reset_def)
  have "\<exists>t \<ge> n. fold (\<lambda>q r. later_reset r (get_prop q k)) qs r = JsNum t"
    if "JsNum n \<in> insert r ((\<lambda>q. get_prop q k) ` set qs)" "reset_or_absent r" for n r
    using that assms(2)
  proof (induction qs arbitrary: r n)
    case (Cons q qs)
    have ok: "reset_or_absent (get_prop q k)" "reset_or_absent (later_reset r (get_prop q k))"
      using Cons.prems by (simp_all add: reset_prop later_reset_ok)
    show ?case
    proof (cases "JsNum n \<in> (\<lambda>q. get_prop q k) ` set qs")
      case True
      then show ?thesis using Cons.IH [of n "later_reset r (get_prop q k)"] Cons.prems(3) ok by simp
    next
      case False
      then have "r = JsNum n \<or> get_prop q k = JsNum n" using Cons.prems(1) by auto
      then obtain t where "n \<le> t" "later_reset r (get_prop q k) = JsNum t" using up Cons.prems(2) ok(1) by blast
      then show ?thesis using Cons.IH [of t "later_reset r (get_prop q k)"] Cons.prems(3) ok(2) by force
    qed
  qed auto
  note bound = this [OF _ reset_prop [OF assms(1)]]
  show ?thesis
    unfolding observed_resets_fold [OF assms(1,2,4)] observed_resets_fold [OF assms(1) qs' assms(4)]
    by (intro conjI allI impI later_reset_fold_order [OF assms(3,2) reset_prop [OF assms(1)]] bound)
qed

definition example_resets :: "js_fields list" where
  "example_resets = [[(''claude'', JsNum 5)], [(''claude'', JsNum 3)]]"

theorem rate_limits_any_order_witness:
  "\<exists>t \<ge> 5. get_prop (resets_of (fold (\<lambda>q m. applyRateLimitObservation m q) example_resets [])) ''claude'' = JsNum t
     \<and> get_prop (resets_of (fold (\<lambda>q m. applyRateLimitObservation m q) (rev example_resets) [])) ''claude'' = JsNum t"
proof -
  have ok: "resets_ok (resets_of [])" "\<forall>q \<in> set example_resets. resets_ok q" "mset example_resets = mset (rev example_resets)"
    "''claude'' \<notin> set OBJECT_PROTOTYPE"
    by (simp_all add: resets_ok_def resets_of_def fields_of_def get_prop_def reset_value_def OBJECT_PROTOTYPE_def example_resets_def)
  have "JsNum 5 \<in> insert (get_prop (resets_of []) ''claude'') ((\<lambda>q. get_prop q ''claude'') ` set example_resets)"
    by (simp add: example_resets_def get_prop_def)
  then show ?thesis using rate_limits_any_order [OF ok] by metis
qed

section \<open>Counts\<close>

text \<open>
  Every request is counted exactly once: after any run of observations on one day the count of a family has grown
  by the number of its requests.
\<close>

lemma every_request_counted:
  assumes "\<forall>(obs, now) \<in> set us. utcDay now = Some day"
  shows "\<exists>m'. foldl (\<lambda>m (obs, now). Option.bind m (\<lambda>m. applyUsage m obs now)) (Some m) us = Some m'
    \<and> counted day f m' = counted day f m + of_nat (length (filter (\<lambda>(obs, now). uo_family obs = f) us))"
  using assms
proof (induction us arbitrary: m)
  case (Cons u us)
  obtain obs now where u: "u = (obs, now)" by fastforce
  obtain m1 where m1: "applyUsage m obs now = Some m1" "counted day f m1 = counted day f m + (if uo_family obs = f then 1 else 0)"
    using usage_counted [of now day m obs f] Cons.prems u by auto
  show ?case using Cons.IH [of m1] Cons.prems m1 by (auto simp: u)
qed simp

definition example_usage :: "(UsageObservation \<times> num) list" where
  "example_usage = [(\<lparr>uo_family = ClaudeFamily, uo_at = 5\<rparr>, 5), (\<lparr>uo_family = GeminiFamily, uo_at = 6\<rparr>, 6)]"

theorem every_request_counted_witness:
  "\<exists>m'. foldl (\<lambda>m (obs, now). Option.bind m (\<lambda>m. applyUsage m obs now)) (Some [(''lastUsed'', JsNum 0)]) example_usage = Some m'
    \<and> counted ''1970-01-01'' ClaudeFamily m' = counted ''1970-01-01'' ClaudeFamily [(''lastUsed'', JsNum 0)]
        + of_nat (length (filter (\<lambda>(obs, now). uo_family obs = ClaudeFamily) example_usage))"
proof (rule every_request_counted)
  have "list_all (\<lambda>(obs, now). utcDay now = Some ''1970-01-01'') example_usage" by code_simp
  then show "\<forall>(obs, now) \<in> set example_usage. utcDay now = Some ''1970-01-01''" by (simp add: list_all_iff)
qed

section \<open>Replaced credentials\<close>










section \<open>The store never refuses what the rules give\<close>







end
