(* ===== verification/Json_Parse.thy ===== *)
theory Json_Parse
  imports Json_Text
begin

text \<open>
  \<open>JSON.parse\<close>: \<open>None\<close> is the thrown \<open>SyntaxError\<close>. Numbers are read exactly. Characters have 8 bits, so a \<open>\u\<close>
  escape of a larger one has no value here and is not read either.
\<close>

definition skip_ws :: "string \<Rightarrow> string" where
  "skip_ws s = dropWhile (\<lambda>c. c \<in> {CHR 0x20, CHR 0x09, CHR 0x0A, CHR 0x0D}) s"

lemma skip_ws_length: "length (skip_ws s) \<le> length s"
  by (simp add: skip_ws_def length_dropWhile_le)

section \<open>Strings\<close>

definition hex_digit :: "char \<Rightarrow> nat option" where
  "hex_digit c =
     (if is_digit c then Some (digit_val c)
      else if lower_char c \<in> set ''abcdef'' then Some (of_char (lower_char c) - 87)
      else None)"

definition hex_code :: "char \<Rightarrow> char \<Rightarrow> char \<Rightarrow> char \<Rightarrow> nat option" where
  "hex_code a b c d =
     (case (hex_digit a, hex_digit b, hex_digit c, hex_digit d) of
        (Some w, Some x, Some y, Some z) \<Rightarrow> Some (((w * 16 + x) * 16 + y) * 16 + z)
      | _ \<Rightarrow> None)"

text \<open>The character that an escape stands for, after the backslash.\<close>

definition escaped_char :: "string \<Rightarrow> (char \<times> string) option" where
  "escaped_char s =
     (case s of
        [] \<Rightarrow> None
      | e # t \<Rightarrow>
          if e \<in> {CHR 0x22, CHR 0x5C, CHR 0x2F} then Some (e, t)
          else if e = CHR ''b'' then Some (CHR 0x08, t)
          else if e = CHR ''f'' then Some (CHR 0x0C, t)
          else if e = CHR ''n'' then Some (CHR 0x0A, t)
          else if e = CHR ''r'' then Some (CHR 0x0D, t)
          else if e = CHR ''t'' then Some (CHR 0x09, t)
          else if e = CHR ''u'' then
            (case t of
               a # b # c # d # r \<Rightarrow>
                 (case hex_code a b c d of
                    None \<Rightarrow> None
                  | Some n \<Rightarrow> if n < 256 then Some (char_of n, r) else None)
             | _ \<Rightarrow> None)
          else None)"

lemma escaped_char_length: "escaped_char s = Some (c, r) \<Longrightarrow> length r < length s"
  by (auto simp: escaped_char_def split: list.splits option.splits if_splits)

text \<open>A string after its opening quote.\<close>

function json_body :: "string \<Rightarrow> (string \<times> string) option" where
  "json_body [] = None"
| "json_body (c # t) =
     (if c = CHR 0x22 then Some ([], t)
      else if (of_char c :: nat) < 32 then None
      else if c = CHR 0x5C then
        (case escaped_char t of
           None \<Rightarrow> None
         | Some (d, r) \<Rightarrow> if length r < length t then map_option (\<lambda>(x, q). (d # x, q)) (json_body r) else None)
      else map_option (\<lambda>(x, q). (c # x, q)) (json_body t))"
  by pat_completeness auto
termination by (relation "measure length") auto

section \<open>Numbers\<close>

definition signed_digits :: "string \<Rightarrow> (int \<times> string) option" where
  "signed_digits s =
     (let (neg, t) = (case s of [] \<Rightarrow> (False, []) | c # r \<Rightarrow> if c = CHR ''-'' then (True, r) else if c = CHR ''+'' then (False, r) else (False, s));
          ds = takeWhile is_digit t
      in if ds = [] then None
         else Some ((if neg then - 1 else 1) * int (read_nat ds), drop (length ds) t))"

definition power_of_ten :: "int \<Rightarrow> num" where
  "power_of_ten e = (if 0 \<le> e then 10 ^ nat e else 1 / 10 ^ nat (- e))"

definition parse_number :: "string \<Rightarrow> (num \<times> string) option" where
  "parse_number s =
     (let (sign, s) = (case s of [] \<Rightarrow> (1, []) | c # r \<Rightarrow> if c = CHR ''-'' then (- 1, r) else (1 :: num, s));
          whole = (case s of [] \<Rightarrow> [] | c # r \<Rightarrow> if c = CHR ''0'' then [c] else takeWhile is_digit s);
          s = drop (length whole) s;
          frac = (case s of [] \<Rightarrow> None | c # r \<Rightarrow> if c = CHR ''.'' then Some (takeWhile is_digit r) else None);
          s = (case frac of None \<Rightarrow> s | Some f \<Rightarrow> drop (length f + 1) s);
          expo = (case s of [] \<Rightarrow> None | c # r \<Rightarrow> if lower_char c = CHR ''e'' then Some (signed_digits r) else None)
      in if whole = [] \<or> frac = Some [] then None
         else
           let base = sign * (of_nat (read_nat whole)
                 + (case frac of None \<Rightarrow> 0 | Some f \<Rightarrow> of_nat (read_nat f) / 10 ^ length f))
           in case expo of
                None \<Rightarrow> Some (base, s)
              | Some None \<Rightarrow> None
              | Some (Some (e, r)) \<Rightarrow> Some (base * power_of_ten e, r))"

section \<open>Values\<close>

function parse_value :: "string \<Rightarrow> (json \<times> string) option"
  and parse_items :: "string \<Rightarrow> (json list \<times> string) option"
  and parse_members :: "string \<Rightarrow> ((string \<times> json) list \<times> string) option" where
  "parse_value text =
     (case skip_ws text of
        [] \<Rightarrow> None
      | c # t \<Rightarrow>
          if length text < length (c # t) then None
          else if c = CHR 0x22 then map_option (\<lambda>(x, r). (JStr x, r)) (json_body t)
          else if c = CHR ''['' then
            (if starts_with (skip_ws t) '']'' then Some (JArr [], drop 1 (skip_ws t))
             else map_option (\<lambda>(xs, r). (JArr xs, r)) (parse_items t))
          else if c = CHR 0x7B then
            (if starts_with (skip_ws t) [CHR 0x7D] then Some (JObj [], drop 1 (skip_ws t))
             else map_option (\<lambda>(ms, r). (JObj (fold (\<lambda>(k, v). AList.update k v) ms []), r)) (parse_members t))
          else if starts_with (c # t) ''true'' then Some (JBool True, drop 4 (c # t))
          else if starts_with (c # t) ''false'' then Some (JBool False, drop 5 (c # t))
          else if starts_with (c # t) ''null'' then Some (JNull, drop 4 (c # t))
          else map_option (\<lambda>(n, r). (JNum n, r)) (parse_number (c # t)))"
| "parse_items text =
     (case parse_value text of
        None \<Rightarrow> None
      | Some (v, r) \<Rightarrow>
          (case skip_ws r of
             [] \<Rightarrow> None
           | c # t \<Rightarrow>
               if c = CHR '']'' then Some ([v], t)
               else if c = CHR '','' \<and> length t < length text then map_option (\<lambda>(vs, q). (v # vs, q)) (parse_items t)
               else None))"
| "parse_members text =
     (case skip_ws text of
        [] \<Rightarrow> None
      | c # t \<Rightarrow>
          if c \<noteq> CHR 0x22 then None
          else (case json_body t of
             None \<Rightarrow> None
           | Some (k, r) \<Rightarrow>
               if \<not> starts_with (skip_ws r) '':'' \<or> length text \<le> length (drop 1 (skip_ws r)) then None
               else (case parse_value (drop 1 (skip_ws r)) of
                  None \<Rightarrow> None
                | Some (v, q) \<Rightarrow>
                    (case skip_ws q of
                       [] \<Rightarrow> None
                     | d # p \<Rightarrow>
                         if d = CHR 0x7D then Some ([(k, v)], p)
                         else if d = CHR '','' \<and> length p < length text
                         then map_option (\<lambda>(ms, z). ((k, v) # ms, z)) (parse_members p)
                         else None))))"
  by pat_completeness auto
termination
  by (relation "measures [\<lambda>x. case x of Inl s \<Rightarrow> length s | Inr (Inl s) \<Rightarrow> length s | Inr (Inr s) \<Rightarrow> length s,
      \<lambda>x. case x of Inl s \<Rightarrow> 0 | Inr y \<Rightarrow> 1]") auto

declare parse_value.simps [simp del] parse_items.simps [simp del] parse_members.simps [simp del]

definition JSON_parse :: "string \<Rightarrow> json option" where
  "JSON_parse text =
     (case parse_value text of
        None \<Rightarrow> None
      | Some (v, r) \<Rightarrow> if skip_ws r = [] then Some v else None)"

end
