(* ===== verification/Redaction.thy ===== *)
theory Redaction
  imports Json_Parse Retry_Metadata
begin

text \<open>
  Removal of credentials from diagnostics: \<^verbatim>\<open>packages/core/src/credential-redaction.ts\<close>.
\<close>

section \<open>Texts\<close>

definition MARKER :: string where
  "MARKER = ''[credential]''"

datatype Credentials = NoCredentials | OneCredential string | ManyCredentials "string list"

definition credential_list :: "Credentials \<Rightarrow> string list" where
  "credential_list c = (case c of NoCredentials \<Rightarrow> [] | OneCredential s \<Rightarrow> [s] | ManyCredentials ss \<Rightarrow> ss)"

definition maskSensitiveIdentifier :: "string option \<Rightarrow> string" where
  "maskSensitiveIdentifier value =
     (case value of
        None \<Rightarrow> []
      | Some v \<Rightarrow>
          if v = [] then []
          else if length v \<le> 8 then ''****''
          else take 4 v @ ''****'' @ drop (length v - 4) v)"

text \<open>The distinct identifiers, longest first; the expression escapes them, so it matches them literally.\<close>

definition identifiers :: "string list option \<Rightarrow> string list" where
  "identifiers projectIds =
     sort_key (\<lambda>p. - int (length p)) (filter (\<lambda>p. 0 < length p) (js_unique (nullish projectIds [])))"

definition PROJECT_LABEL :: rx where
  "PROJECT_LABEL =
     Seq (Cap 1 (Seq WordB (Seq (ci_word ''project'')
           (Seq (Opt (Seq (Star (\<lambda>c. js_space c \<or> c = CHR ''_'' \<or> c = CHR ''-'')) (ci_word ''id'')))
             (Seq (Star js_space) (Seq (Cls (\<lambda>c. c = CHR '':'' \<or> c = CHR ''='')) (Star js_space)))))))
         (Cap 2 (Seq (Cls (\<lambda>c. word_char c \<or> c = CHR ''*'')) (Star (\<lambda>c. word_char c \<or> c = CHR ''*'' \<or> c = CHR ''-''))))"

definition UNKNOWN_PROJECT :: rx where
  "UNKNOWN_PROJECT = Seq (Alt (ci_word ''unknown'') (Seq (ci CHR ''n'') (Seq (Opt (Cls (\<lambda>c. c = CHR ''/''))) (ci CHR ''a'')))) End"

definition label_mask :: "string \<Rightarrow> (nat \<times> string) list \<Rightarrow> string" where
  "label_mask matched caps =
     (let label = nullish (map_of caps 1) []; value = nullish (map_of caps 2) []
      in if match_here UNKNOWN_PROJECT None value \<noteq> None \<or> str_includes value ''****'' then matched
         else label @ maskSensitiveIdentifier (Some value))"

definition redactProjectIdText :: "string \<Rightarrow> string list option \<Rightarrow> string" where
  "redactProjectIdText text projectIds =
     (let ids = identifiers projectIds;
          text = (if ids \<noteq> [] then rx_replace (any_of ids) (\<lambda>matched caps. maskSensitiveIdentifier (Some matched)) None text else text)
      in rx_replace PROJECT_LABEL label_mask None text)"

text \<open>\<open>text.split(credential).join(MARKER)\<close>.\<close>

function replace_text :: "string \<Rightarrow> string \<Rightarrow> string" where
  "replace_text c [] = []"
| "replace_text c (x # s) =
     (if c \<noteq> [] \<and> starts_with (x # s) c then MARKER @ replace_text c (drop (length c) (x # s)) else x # replace_text c s)"
  by pat_completeness auto
termination by (relation "measure (\<lambda>(c, s). length s)") auto

definition token_char :: "char \<Rightarrow> bool" where
  "token_char c \<longleftrightarrow> word_char c \<or> c = CHR ''-''"

definition JWT :: rx where
  "JWT =
     Seq WordB (Seq (lit ''eyJ'') (Seq (Plus token_char) (Seq (lit ''.'') (Seq (Plus token_char)
       (Seq (lit ''.'') (Seq (Plus token_char) WordB))))))"

definition BEARER :: rx where
  "BEARER =
     Seq WordB (Seq (ci_word ''bearer'') (Seq (Plus js_space)
       (Seq (Plus (\<lambda>c. word_char c \<or> c \<in> set ''.~+/-'')) (Star (\<lambda>c. c = CHR ''='')))))"

definition redactCredentialText :: "string \<Rightarrow> Credentials \<Rightarrow> string list option \<Rightarrow> string" where
  "redactCredentialText text credentials projectIds =
     (let text = redactProjectIdText text projectIds;
          text = fold (\<lambda>credential t. if credential \<noteq> [] then replace_text credential t else t) (credential_list credentials) text;
          text = rx_replace JWT (\<lambda>matched caps. MARKER) None text
      in rx_replace BEARER (\<lambda>matched caps. MARKER) None text)"

section \<open>Values and errors\<close>

text \<open>
  A value that may hang on an error: text, something without properties, or an object with its own properties; \<open>None\<close> is an
  accessor. Values are trees, so the sets of objects already seen stay without effect.
\<close>

datatype diag =
    DText string
  | DOther nat
  | DObj bool "(string \<times> diag option) list"

lemma size_diag_prop: "(k, Some v) \<in> set ps \<Longrightarrow> size v < size (DObj a ps)"
proof -
  assume "(k, Some v) \<in> set ps"
  then have "size_prod (\<lambda>_. 0) (size_option size) (k, Some v) \<le> size_list (size_prod (\<lambda>_. 0) (size_option size)) ps"
    by (rule size_list_estimation') simp
  then show ?thesis by simp
qed

function containsCredential :: "Credentials \<Rightarrow> string list option \<Rightarrow> diag \<Rightarrow> bool" where
  "containsCredential creds ids (DText s) = (redactCredentialText s creds ids \<noteq> s)"
| "containsCredential creds ids (DOther n) = False"
| "containsCredential creds ids (DObj a ps) =
     list_ex (\<lambda>(k, p). case p of None \<Rightarrow> False | Some v \<Rightarrow> containsCredential creds ids v) ps"
  by pat_completeness auto
termination by (relation "measure (\<lambda>(c, i, v). size v)") (auto simp: size_diag_prop simp del: diag.size)

function scrub :: "Credentials \<Rightarrow> string list option \<Rightarrow> diag \<Rightarrow> diag" where
  "scrub creds ids (DText s) = DText (redactCredentialText s creds ids)"
| "scrub creds ids (DOther n) = DOther n"
| "scrub creds ids (DObj a ps) =
     (if \<not> containsCredential creds ids (DObj a ps) then DObj a ps
      else DObj a (map (\<lambda>(k, p). (k, case p of None \<Rightarrow> None | Some v \<Rightarrow> Some (scrub creds ids v)))
             (filter (\<lambda>(k, p). \<not> (k = ''cause'' \<and> (case p of None \<Rightarrow> True | Some v \<Rightarrow> containsCredential creds ids v))) ps)))"
  by pat_completeness auto
termination by (relation "measure (\<lambda>(c, i, v). size v)") (auto simp: size_diag_prop simp del: diag.size)

record own_property =
  op_key :: string
  op_value :: "diag option"
  op_configurable :: bool
  op_writable :: bool

record error_object =
  er_message :: string
  er_name :: string
  er_fields :: "own_property list"
  er_extensible :: bool

text \<open>What is thrown: an error, or something else with its text.\<close>

datatype thrown = ThrownError error_object | ThrownOther string

definition find_prop :: "string \<Rightarrow> own_property list \<Rightarrow> own_property option" where
  "find_prop k fs = find (\<lambda>f. op_key f = k) fs"

definition secret_cause :: "Credentials \<Rightarrow> string list option \<Rightarrow> own_property list \<Rightarrow> bool" where
  "secret_cause creds ids fs =
     (case find_prop ''cause'' fs of
        None \<Rightarrow> False
      | Some c \<Rightarrow> (case op_value c of None \<Rightarrow> True | Some v \<Rightarrow> containsCredential creds ids v))"

text \<open>The message is defined anew, configurable: an own one that is not configurable refuses, and so does a sealed object.\<close>

definition define_message :: "string \<Rightarrow> error_object \<Rightarrow> error_object option" where
  "define_message m e =
     (case find_prop ''message'' (er_fields e) of
        Some f \<Rightarrow>
          if \<not> op_configurable f then None
          else Some (e\<lparr>er_message := m,
            er_fields := map (\<lambda>f. if op_key f = ''message'' then f\<lparr>op_value := Some (DText m), op_writable := True\<rparr> else f) (er_fields e)\<rparr>)
      | None \<Rightarrow>
          if \<not> er_extensible e then None
          else Some (e\<lparr>er_message := m,
            er_fields := er_fields e
              @ [\<lparr>op_key = ''message'', op_value = Some (DText m), op_configurable = True, op_writable = True\<rparr>]\<rparr>))"

text \<open>A field in place: \<open>None\<close> when it can neither be written nor configured.\<close>

definition scrub_field :: "Credentials \<Rightarrow> string list option \<Rightarrow> own_property \<Rightarrow> own_property option" where
  "scrub_field creds ids f =
     (if op_key f = ''message'' \<or> op_key f = ''cause'' then Some f
      else case op_value f of
             None \<Rightarrow> Some f
           | Some v \<Rightarrow>
               if \<not> containsCredential creds ids v then Some f
               else if \<not> op_configurable f \<and> \<not> op_writable f then None
               else Some (f\<lparr>op_value := Some (scrub creds ids v)\<rparr>))"

definition delete_cause :: "own_property list \<Rightarrow> own_property list option" where
  "delete_cause fs =
     (case find_prop ''cause'' fs of
        None \<Rightarrow> Some fs
      | Some c \<Rightarrow> if op_configurable c then Some (filter (\<lambda>f. op_key f \<noteq> ''cause'') fs) else None)"

text \<open>An own name is the one that is read.\<close>

definition name_read :: "string \<Rightarrow> own_property list \<Rightarrow> string" where
  "name_read inherited fs =
     (case find_prop ''name'' fs of
        None \<Rightarrow> inherited
      | Some f \<Rightarrow> (case op_value f of Some (DText s) \<Rightarrow> s | _ \<Rightarrow> inherited))"

definition redact_in_place :: "Credentials \<Rightarrow> string list option \<Rightarrow> string \<Rightarrow> error_object \<Rightarrow> error_object option" where
  "redact_in_place creds ids m source =
     (case (if m \<noteq> er_message source then define_message m source else Some source) of
        None \<Rightarrow> None
      | Some e \<Rightarrow>
          if list_ex (\<lambda>f. scrub_field creds ids f = None) (er_fields e) then None
          else let fs = map (\<lambda>f. the (scrub_field creds ids f)) (er_fields e)
               in (case (if secret_cause creds ids (er_fields source) then delete_cause fs else Some fs) of
                     None \<Rightarrow> None
                   | Some gs \<Rightarrow> Some (e\<lparr>er_fields := gs, er_name := name_read (er_name e) gs\<rparr>)))"

text \<open>An assignment or definition of an own property.\<close>

definition put_prop :: "own_property \<Rightarrow> own_property list \<Rightarrow> own_property list" where
  "put_prop f fs = (if find_prop (op_key f) fs = None then fs @ [f] else map (\<lambda>g. if op_key g = op_key f then f else g) fs)"

definition plain_prop :: "string \<Rightarrow> diag \<Rightarrow> own_property" where
  "plain_prop k v = \<lparr>op_key = k, op_value = Some v, op_configurable = True, op_writable = True\<rparr>"

text \<open>The replacement; its stack is left out.\<close>

definition safe_error :: "Credentials \<Rightarrow> string list option \<Rightarrow> string \<Rightarrow> string \<Rightarrow> own_property list \<Rightarrow> error_object" where
  "safe_error creds ids m name props =
     (let base = put_prop (plain_prop ''name'' (DText (redactCredentialText name creds ids))) [plain_prop ''message'' (DText m)];
          copied = fold (\<lambda>f fs.
             if op_key f = ''message'' \<or> op_key f = ''cause'' then fs
             else case op_value f of
                    None \<Rightarrow> fs
                  | Some v \<Rightarrow> put_prop (plain_prop (op_key f) (scrub creds ids v)) fs) props base;
          withCause = (case find_prop ''cause'' props of
             None \<Rightarrow> copied
           | Some c \<Rightarrow>
               (case op_value c of
                  Some v \<Rightarrow> if \<not> secret_cause creds ids props then put_prop (plain_prop ''cause'' v) copied else copied
                | None \<Rightarrow> copied))
      in \<lparr>er_message = m, er_name = redactCredentialText name creds ids, er_fields = withCause, er_extensible = True\<rparr>)"

definition redactCredentialError :: "thrown \<Rightarrow> Credentials \<Rightarrow> string list option \<Rightarrow> error_object" where
  "redactCredentialError error creds ids =
     (case error of
        ThrownOther text \<Rightarrow> safe_error creds ids (redactCredentialText text creds ids) ''Error'' []
      | ThrownError source \<Rightarrow>
          (let m = redactCredentialText (er_message source) creds ids
           in case redact_in_place creds ids m source of
                Some e \<Rightarrow> e
              | None \<Rightarrow> safe_error creds ids m (er_name source) (er_fields source)))"

section \<open>Diagnostics\<close>

text \<open>How numbers print is the argument \<open>nt\<close>.\<close>

definition redactDiagnosticText ::
  "(num \<Rightarrow> string) \<Rightarrow> string \<Rightarrow> Credentials \<Rightarrow> string list option \<Rightarrow> json option \<Rightarrow> string" where
  "redactDiagnosticText nt text creds ids parsed =
     (let direct = redactCredentialText text creds ids in
      if direct \<noteq> text \<or> \<not> str_includes text [CHR 0x5C, CHR ''u''] then direct
      else case (case parsed of None \<Rightarrow> JSON_parse text | Some v \<Rightarrow> if v = JNull then JSON_parse text else Some v) of
             None \<Rightarrow> text
           | Some v \<Rightarrow>
               (let canon = json_text nt v; safe = redactCredentialText canon creds ids
                in if safe = canon then text else safe))"

definition quoted :: "string \<Rightarrow> string" where
  "quoted s = [CHR 0x22] @ s @ [CHR 0x22]"

definition is_error_envelope :: "json \<Rightarrow> bool" where
  "is_error_envelope v \<longleftrightarrow>
     is_str (fld v ''type'') ''error'' \<or> truthy_fld v ''error''
     \<or> (case fld v ''response'' of None \<Rightarrow> False | Some r \<Rightarrow> truthy_fld r ''error'')"

definition redactCredentialFrame ::
  "(num \<Rightarrow> string) \<Rightarrow> string \<Rightarrow> Credentials \<Rightarrow> string list option \<Rightarrow> string" where
  "redactCredentialFrame nt frame creds ids =
     (if \<not> str_includes frame (quoted ''error'') \<and> \<not> str_includes frame [CHR 0x5C, CHR ''u''] then frame
      else case JSON_parse frame of
             None \<Rightarrow> frame
           | Some v \<Rightarrow> if is_error_envelope v then redactDiagnosticText nt frame creds ids (Some v) else frame)"

section \<open>Streams\<close>

definition line_end :: "char \<Rightarrow> bool" where
  "line_end c \<longleftrightarrow> c = CHR 0x0A \<or> c = CHR 0x0D"

text \<open>The \<open>data:\<close> lines of an event, each replaced; \<open>start\<close> says that a line begins here.\<close>

function redact_lines :: "(string \<Rightarrow> string) \<Rightarrow> bool \<Rightarrow> string \<Rightarrow> string" where
  "redact_lines f start [] = []"
| "redact_lines f start (c # s) =
     (if start \<and> starts_with (c # s) ''data:''
      then let rest = drop 4 s;
               space = (if starts_with rest '' '' then '' '' else []);
               rest = drop (length space) rest;
               line = takeWhile (\<lambda>x. \<not> line_end x) rest
           in ''data:'' @ space @ f line @ redact_lines f False (drop (length line) rest)
      else c # redact_lines f (line_end c) s)"
  by pat_completeness auto
termination by (relation "measure (\<lambda>(f, b, s). length s)") auto

definition redact_event :: "(num \<Rightarrow> string) \<Rightarrow> Credentials \<Rightarrow> string list option \<Rightarrow> string \<Rightarrow> string" where
  "redact_event nt creds ids event = redact_lines (\<lambda>data. redactCredentialFrame nt data creds ids) True event"

text \<open>The length of a blank line at the front of a text.\<close>

definition newline_len :: "string \<Rightarrow> nat" where
  "newline_len s =
     (if starts_with s [CHR 0x0D, CHR 0x0A] then 2 else if starts_with s [CHR 0x0A] then 1 else 0)"

definition boundary_len :: "string \<Rightarrow> nat" where
  "boundary_len s =
     (let a = newline_len s; b = newline_len (drop a s) in if a = 0 \<or> b = 0 then 0 else a + b)"

fun first_event :: "string \<Rightarrow> (string \<times> string) option" where
  "first_event [] = None"
| "first_event (c # s) =
     (if 0 < boundary_len (c # s) then Some (take (boundary_len (c # s)) (c # s), drop (boundary_len (c # s)) (c # s))
      else map_option (\<lambda>(e, r). (c # e, r)) (first_event s))"

lemma first_event_split: "first_event s = Some (e, r) \<Longrightarrow> s = e @ r \<and> e \<noteq> []"
proof (induction s arbitrary: e)
  case (Cons c s)
  show ?case
  proof (cases "0 < boundary_len (c # s)")
    case True
    then show ?thesis using Cons.prems by (cases "boundary_len (c # s)") auto
  next
    case False
    then show ?thesis using Cons by auto
  qed
qed simp

text \<open>The events that are complete, and the text still pending.\<close>

function take_events :: "string \<Rightarrow> string list \<times> string" where
  "take_events pending =
     (case first_event pending of
        None \<Rightarrow> ([], pending)
      | Some (e, r) \<Rightarrow> (let (es, p) = take_events r in (e # es, p)))"
  by pat_completeness auto
termination by (relation "measure length") (auto dest: first_event_split)

declare take_events.simps [simp del]

text \<open>What a read of the body gives: decoded text, the end with what the decoder still holds, or a failure.\<close>

datatype read_result = Chunk string | Done string | Failed thrown

datatype stream_end = StreamOpen | StreamClosed | StreamErrored error_object

record stream_state =
  ss_pending :: string
  ss_out :: "string list"
  ss_end :: stream_end

definition stream_read ::
  "(num \<Rightarrow> string) \<Rightarrow> Credentials \<Rightarrow> string list option \<Rightarrow> read_result \<Rightarrow> stream_state \<Rightarrow> stream_state" where
  "stream_read nt creds ids r st =
     (if ss_end st \<noteq> StreamOpen then st
      else case r of
             Chunk text \<Rightarrow>
               (let (es, p) = take_events (ss_pending st @ text)
                in st\<lparr>ss_pending := p, ss_out := ss_out st @ map (redact_event nt creds ids) es\<rparr>)
           | Done text \<Rightarrow>
               (let (es, p) = take_events (ss_pending st @ text)
                in st\<lparr>ss_pending := p,
                     ss_out := ss_out st @ map (redact_event nt creds ids) (es @ (if p \<noteq> [] then [p] else [])),
                     ss_end := StreamClosed\<rparr>)
           | Failed e \<Rightarrow> st\<lparr>ss_end := StreamErrored (redactCredentialError e creds ids)\<rparr>)"

text \<open>Cancelling passes the failure of the source on, redacted.\<close>

definition stream_cancel :: "Credentials \<Rightarrow> string list option \<Rightarrow> thrown option \<Rightarrow> error_object option" where
  "stream_cancel creds ids failure = map_option (\<lambda>e. redactCredentialError e creds ids) failure"

definition stream_start :: stream_state where
  "stream_start = \<lparr>ss_pending = [], ss_out = [], ss_end = StreamOpen\<rparr>"

section \<open>Responses\<close>

text \<open>
  A body that has been read is its text, or the error of reading it. Statuses with which the platform refuses to build a
  response with a body are left out. The
  body of a stream is what \<open>stream_read\<close> delivers of the one that is kept here.
\<close>

record response =
  rs_status :: nat
  rs_statusText :: string
  rs_headers :: "(string \<times> string) list"
  rs_body :: "(thrown + string) option"
  rs_url :: string
  rs_type :: string
  rs_redirected :: bool

definition response_ok :: "response \<Rightarrow> bool" where
  "response_ok r \<longleftrightarrow> 200 \<le> rs_status r \<and> rs_status r \<le> 299"

definition preserveResponseMetadata :: "response \<Rightarrow> response \<Rightarrow> response" where
  "preserveResponseMetadata r original =
     r\<lparr>rs_url := rs_url original, rs_type := rs_type original, rs_redirected := rs_redirected original\<rparr>"

text \<open>A response that is built anew has an empty address and the default type.\<close>

definition built_response :: "nat \<Rightarrow> string \<Rightarrow> (string \<times> string) list \<Rightarrow> (thrown + string) option \<Rightarrow> response" where
  "built_response status statusText headers body =
     \<lparr>rs_status = status, rs_statusText = statusText, rs_headers = headers, rs_body = body,
      rs_url = [], rs_type = ''default'', rs_redirected = False\<rparr>"

datatype redacted =
    Unchanged response
  | WithText response "string option"
  | Streamed response
  | Rejected error_object

definition drop_header :: "string \<Rightarrow> (string \<times> string) list \<Rightarrow> (string \<times> string) list" where
  "drop_header k hs = filter (\<lambda>kv. to_lower (fst kv) \<noteq> k) hs"

definition get_header :: "string \<Rightarrow> (string \<times> string) list \<Rightarrow> string option" where
  "get_header k hs = map_option snd (find (\<lambda>kv. to_lower (fst kv) = k) hs)"

text \<open>A failed response: its status text, headers and body are redacted.\<close>

definition redact_failed ::
  "(num \<Rightarrow> string) \<Rightarrow> response \<Rightarrow> Credentials \<Rightarrow> string option \<Rightarrow> string list option \<Rightarrow> redacted" where
  "redact_failed nt r creds buffered ids =
     (let statusText = redactCredentialText (rs_statusText r) creds ids;
          headers = map (\<lambda>(k, v). (k, redactCredentialText v creds ids)) (rs_headers r);
          changed = (statusText \<noteq> rs_statusText r \<or> headers \<noteq> rs_headers r)
      in case (case buffered of
                 Some t \<Rightarrow> Inr (Some t)
               | None \<Rightarrow> (case rs_body r of None \<Rightarrow> Inr None | Some (Inl e) \<Rightarrow> Inl e | Some (Inr t) \<Rightarrow> Inr (Some t))) of
           Inl e \<Rightarrow> Rejected (redactCredentialError e creds ids)
         | Inr text \<Rightarrow>
             (let red = map_option (\<lambda>t. redactDiagnosticText nt t creds ids None) text
              in if (buffered \<noteq> None \<or> rs_body r = None) \<and> red = text \<and> \<not> changed then Unchanged r
                 else WithText (preserveResponseMetadata (built_response (rs_status r) statusText
                        (if rs_body r \<noteq> None then drop_header ''content-length'' headers else headers) (map_option Inr red)) r) red))"

definition redactCredentialResponse ::
  "(num \<Rightarrow> string) \<Rightarrow> response \<Rightarrow> Credentials \<Rightarrow> string option \<Rightarrow> string list option \<Rightarrow> redacted" where
  "redactCredentialResponse nt r creds buffered ids =
     (if \<not> response_ok r then redact_failed nt r creds buffered ids
      else if rs_body r = None
              \<or> \<not> (case get_header ''content-type'' (rs_headers r) of None \<Rightarrow> False | Some t \<Rightarrow> str_includes t ''text/event-stream'')
      then Unchanged r
      else Streamed (preserveResponseMetadata (built_response (rs_status r) (rs_statusText r)
             (drop_header ''content-length'' (rs_headers r)) (rs_body r)) r))"

end
