(* ===== verification/Redaction_Facts.thy ===== *)
theory Redaction_Facts
  imports Redaction
begin

text \<open>What replacing pieces of a text by the marker keeps, redaction of values and errors, and streams cut into chunks.\<close>

section \<open>Replacing by the marker\<close>

text \<open>\<open>t\<close> is \<open>s\<close> with disjoint pieces replaced by the marker.\<close>

inductive marked :: "string \<Rightarrow> string \<Rightarrow> bool" where
  none: "marked [] []"
| keep: "marked s t \<Longrightarrow> marked (c # s) (c # t)"
| mark: "marked s t \<Longrightarrow> marked (m @ s) (MARKER @ t)"

inductive_cases marked_nil: "marked s []"

text \<open>A credential the marker cannot be mistaken for.\<close>

definition proper_credential :: "string \<Rightarrow> bool" where
  "proper_credential c \<longleftrightarrow> c \<noteq> [] \<and> CHR ''['' \<notin> set c \<and> CHR '']'' \<notin> set c \<and> \<not> str_includes ''credential'' c"

definition free_of :: "string \<Rightarrow> string \<Rightarrow> bool" where
  "free_of c s \<longleftrightarrow> \<not> sublist c s"

lemma free_of_code: "free_of c s \<longleftrightarrow> \<not> str_includes s c"
  by (simp add: free_of_def str_includes_sublist)

lemma marked_prefix:
  assumes "marked s t" "prefix c t" "CHR ''['' \<notin> set c"
  shows "prefix c s"
  using assms
proof (induction arbitrary: c)
  case (keep s t x)
  then show ?case by (cases c) auto
next
  case (mark s t m)
  then show ?case by (cases c) (auto simp: MARKER_def)
qed simp

text \<open>A text without the last character of the marker is no part of it, unless of the word inside.\<close>

lemma behind_marker:
  assumes "sublist c (w @ e # t)" "suffix w word" "c \<noteq> []" "e \<notin> set c" "\<not> sublist c word"
  shows "sublist c t"
  using assms(1,2)
proof (induction w)
  case Nil
  have "\<not> prefix c (e # t)" using assms(3,4) by (cases c) auto
  then show ?case using Nil.prems(1) by (simp add: sublist_Cons_right)
next
  case (Cons x w)
  have s: "suffix w word" using Cons.prems(2) by (rule suffix_ConsD)
  have "\<not> prefix c ((x # w) @ e # t)"
  proof
    assume "prefix c ((x # w) @ e # t)"
    then obtain us where "prefix c (x # w) \<or> c = (x # w) @ us \<and> prefix us (e # t)" unfolding prefix_append by blast
    then have "prefix c (x # w)" using assms(4) by (cases us) auto
    then have "sublist c (x # w)" by (rule prefix_imp_sublist)
    moreover have "sublist (x # w) word" using Cons.prems(2) by (rule suffix_imp_sublist)
    ultimately show False using assms(5) sublist_order.order.trans by blast
  qed
  then have "sublist c (w @ e # t)" using Cons.prems(1) unfolding append_Cons sublist_Cons_right [of c x] by simp
  then show ?case using s by (rule Cons.IH)
qed

lemma marker_only:
  assumes "sublist c (MARKER @ t)" "proper_credential c"
  shows "sublist c t"
proof -
  have m: "MARKER = CHR ''['' # ''credential'' @ [CHR '']'']" by (simp add: MARKER_def)
  have c: "c \<noteq> []" "CHR ''['' \<notin> set c" "CHR '']'' \<notin> set c" "\<not> sublist c ''credential''"
    using assms(2) by (simp_all add: proper_credential_def str_includes_sublist)
  have "sublist c (CHR ''['' # (''credential'' @ CHR '']'' # t))" using assms(1) by (simp add: m)
  moreover have "\<not> prefix c (CHR ''['' # x)" for x using c(1,2) by (cases c) auto
  ultimately have "sublist c (''credential'' @ CHR '']'' # t)" unfolding sublist_Cons_right by blast
  then show ?thesis by (rule behind_marker [OF _ suffix_order.refl c(1,3,4)])
qed

lemma marked_free:
  assumes "marked s t" "proper_credential c" "free_of c s"
  shows "free_of c t"
proof -
  have "sublist c t \<Longrightarrow> sublist c s"
    using assms(1)
  proof induction
    case (keep s t x)
    have "prefix c (x # s)" if "prefix c (x # t)"
      by (rule marked_prefix [OF marked.keep [OF keep.hyps] that]) (use assms(2) in \<open>simp add: proper_credential_def\<close>)
    then show ?case using keep by (auto simp: sublist_Cons_right)
  next
    case (mark s t m)
    then have "sublist c s" using marker_only [OF _ assms(2)] by blast
    then show ?case by (simp add: sublist_appendI sublist_append)
  qed simp
  then show ?thesis using assms(3) by (auto simp: free_of_def)
qed

lemma marked_replace_text: "marked s (replace_text c s)"
proof (induction c s rule: replace_text.induct)
  case (2 c x s)
  show ?case
  proof (cases "c \<noteq> [] \<and> starts_with (x # s) c")
    case True
    have "x # s = c @ drop (length c) (x # s)" using True by (metis append_take_drop_id starts_with_def)
    then show ?thesis using marked.mark [OF "2.IH"(1) [OF True], of c] True by simp
  next
    case False
    then have "replace_text c (x # s) = x # replace_text c s" by auto
    then show ?thesis using marked.keep [OF "2.IH"(2) [OF False]] by metis
  qed
qed (simp add: marked.none)

lemma replace_text_free: "proper_credential c \<Longrightarrow> free_of c (replace_text c s)"
proof (induction c s rule: replace_text.induct)
  case (1 c)
  then show ?case by (simp add: free_of_def proper_credential_def)
next
  case (2 c x s)
  show ?case
  proof (cases "c \<noteq> [] \<and> starts_with (x # s) c")
    case True
    then show ?thesis using "2.IH"(1) [OF True "2.prems"] marker_only [OF _ "2.prems"] by (auto simp: free_of_def)
  next
    case False
    then have "\<not> prefix c (x # s)" using "2.prems" by (simp add: starts_with_prefix proper_credential_def)
    moreover have "CHR ''['' \<notin> set c" using "2.prems" by (simp add: proper_credential_def)
    ultimately have "\<not> prefix c (x # replace_text c s)"
      using marked_prefix [OF marked.keep [OF marked_replace_text]] by blast
    then show ?thesis using "2.IH"(2) [OF False "2.prems"] False by (auto simp: free_of_def sublist_Cons_right)
  qed
qed

section \<open>Matches\<close>

lemma rx_match_suffix: "(prev', s', caps') \<in> set (rx_match r (prev, s, caps)) \<Longrightarrow> suffix s' s"
proof (induction r arbitrary: prev s caps prev' s' caps')
  case (Cls p)
  then show ?case by (auto split: list.splits if_splits intro: suffix_ConsI)
next
  case (Seq r1 r2)
  then obtain a b d where "(a, b, d) \<in> set (rx_match r1 (prev, s, caps))" "(prev', s', caps') \<in> set (rx_match r2 (a, b, d))" by auto
  then show ?case using Seq.IH by (meson suffix_order.trans)
next
  case (Star p)
  then show ?case using star_class_results by (fastforce simp: suffix_def)
next
  case (Cap n r)
  then show ?case by auto
qed (auto split: if_splits)

lemma match_here_suffix: "match_here r prev s = Some (s', caps) \<Longrightarrow> suffix s' s"
proof -
  assume "match_here r prev s = Some (s', caps)"
  then obtain prev' xs where "rx_match r (prev, s, []) = (prev', s', caps) # xs"
    by (auto simp: match_here_def split: list.splits)
  then have "(prev', s', caps) \<in> set (rx_match r (prev, s, []))" by simp
  then show "suffix s' s" by (rule rx_match_suffix)
qed

lemma marked_rx_replace: "marked s (rx_replace r (\<lambda>matched caps. MARKER) prev s)"
proof (induction r "\<lambda>(matched :: string) (caps :: (nat \<times> string) list). MARKER" prev s rule: rx_replace.induct)
  case (1 r prev)
  then show ?case by (simp add: rx_replace.simps marked.none)
next
  case (2 r prev c s)
  show ?case
  proof (cases "match_here r prev (c # s)")
    case None
    then show ?thesis using "2" by (simp add: rx_replace.simps marked.keep)
  next
    case (Some m)
    obtain s' caps where m: "m = (s', caps)" by fastforce
    show ?thesis
    proof (cases "length s' < length (c # s)")
      case True
      have "suffix s' (c # s)" using match_here_suffix Some m by blast
      then have "c # s = take (length (c # s) - length s') (c # s) @ s'"
        by (metis append_eq_conv_conj append_take_drop_id length_append add_diff_cancel_right' suffix_def)
      moreover have "marked s' (rx_replace r (\<lambda>matched caps. MARKER) (Some (last (take (length (c # s) - length s') (c # s)))) s')"
        by (rule "2") (use Some m True in auto)
      moreover have "rx_replace r (\<lambda>matched caps. MARKER) prev (c # s)
          = MARKER @ rx_replace r (\<lambda>matched caps. MARKER) (Some (last (take (length (c # s) - length s') (c # s)))) s'"
        using True by (simp add: rx_replace.simps Some m Let_def)
      ultimately show ?thesis using marked.mark by metis
    next
      case False
      then show ?thesis using "2" Some m by (simp add: rx_replace.simps marked.keep)
    qed
  qed
qed

section \<open>Texts\<close>

lemma replace_all_free:
  assumes "c \<in> set cs" "proper_credential c"
  shows "free_of c (fold (\<lambda>credential t. if credential \<noteq> [] then replace_text credential t else t) cs s)"
proof -
  have keep: "free_of c s \<Longrightarrow> free_of c (fold (\<lambda>credential t. if credential \<noteq> [] then replace_text credential t else t) cs s)" for cs s
  proof (induction cs arbitrary: s)
    case (Cons d cs)
    have "free_of c (if d \<noteq> [] then replace_text d s else s)"
      using marked_free [OF marked_replace_text assms(2)] Cons.prems by simp
    then show ?case using Cons.IH by simp
  qed simp
  show ?thesis
    using assms(1)
  proof (induction cs arbitrary: s)
    case (Cons d cs)
    show ?case
    proof (cases "d = c")
      case True
      then show ?thesis using keep [OF replace_text_free [OF assms(2)]] assms(2) by (simp add: proper_credential_def)
    next
      case False
      then show ?thesis using Cons by simp
    qed
  qed simp
qed

text \<open>The credentials a redaction is given, those the marker cannot be mistaken for.\<close>

definition secret :: "Credentials \<Rightarrow> string \<Rightarrow> bool" where
  "secret creds c \<longleftrightarrow> c \<in> set (credential_list creds) \<and> proper_credential c"

lemma redact_text_free: "secret creds c \<Longrightarrow> free_of c (redactCredentialText s creds ids)"
  using marked_free [OF marked_rx_replace] replace_all_free by (simp add: redactCredentialText_def Let_def secret_def)

section \<open>Values and errors\<close>

text \<open>No text of a value, at any depth, has the credential.\<close>

function texts_free :: "string \<Rightarrow> diag \<Rightarrow> bool" where
  "texts_free c (DText s) = free_of c s"
| "texts_free c (DOther n) = True"
| "texts_free c (DObj a ps) = list_all (\<lambda>(k, p). case p of None \<Rightarrow> True | Some v \<Rightarrow> texts_free c v) ps"
  by pat_completeness auto
termination by (relation "measure (\<lambda>(c, v). size v)") (auto simp: size_diag_prop simp del: diag.size)

lemma clean_free: "secret creds c \<Longrightarrow> \<not> containsCredential creds ids v \<Longrightarrow> texts_free c v"
proof (induction creds ids v rule: containsCredential.induct)
  case (1 creds ids s)
  then show ?case using redact_text_free [of creds c s ids] by simp
next
  case (3 creds ids a ps)
  have "texts_free c v" if "(k, Some v) \<in> set ps" for k v
  proof -
    have "\<not> containsCredential creds ids v" using "3.prems"(2) that by (auto simp: list_ex_iff)
    then show ?thesis using "3.IH" [OF that refl refl "3.prems"(1)] by blast
  qed
  then show ?case by (auto simp: list_all_iff split: option.split)
qed simp

lemma scrub_free:
  assumes "secret creds c"
  shows "texts_free c (scrub creds ids v)"
  using assms
proof (induction creds ids v rule: scrub.induct)
  case (3 creds ids a ps)
  show ?case
  proof (cases "containsCredential creds ids (DObj a ps)")
    case True
    have "texts_free c (scrub creds ids v)" if "(k, Some v) \<in> set ps" "k \<noteq> ''cause'' \<or> \<not> containsCredential creds ids v" for k v
      using "3.IH" [of "(k, Some v)" k "Some v" v] "3.prems" True that by auto
    then show ?thesis using True by (auto simp: list_all_iff split: option.split)
  next
    case False
    then show ?thesis using clean_free [OF "3.prems" False] by simp
  qed
qed (simp_all add: redact_text_free)

definition prop_free :: "string \<Rightarrow> own_property \<Rightarrow> bool" where
  "prop_free c f \<longleftrightarrow> (case op_value f of None \<Rightarrow> True | Some v \<Rightarrow> texts_free c v)"

definition error_free :: "string \<Rightarrow> error_object \<Rightarrow> bool" where
  "error_free c e \<longleftrightarrow> free_of c (er_message e) \<and> list_all (prop_free c) (er_fields e)"

text \<open>An error as the language makes them: each key once, and \<open>message\<close> reads its own property when that is data.\<close>

definition wf_error :: "error_object \<Rightarrow> bool" where
  "wf_error e \<longleftrightarrow> distinct (map op_key (er_fields e))
     \<and> (\<forall>f \<in> set (er_fields e). \<forall>v. op_key f = ''message'' \<longrightarrow> op_value f = Some v \<longrightarrow> v = DText (er_message e))"

fun wf_thrown :: "thrown \<Rightarrow> bool" where
  "wf_thrown (ThrownError e) = wf_error e"
| "wf_thrown (ThrownOther s) = True"

lemma put_prop_free: "prop_free c f \<Longrightarrow> list_all (prop_free c) fs \<Longrightarrow> list_all (prop_free c) (put_prop f fs)"
  by (auto simp: put_prop_def list_all_iff)

lemma find_prop_member: "find_prop k fs = Some f \<Longrightarrow> f \<in> set fs \<and> op_key f = k"
  unfolding find_prop_def by (rule find_Some_member)

lemma find_prop_distinct: "distinct (map op_key fs) \<Longrightarrow> f \<in> set fs \<Longrightarrow> op_key f = k \<Longrightarrow> find_prop k fs = Some f"
  by (induction fs) (auto simp: find_prop_def)

lemma safe_cause:
  assumes "secret creds c" "\<not> secret_cause creds ids fs" "find_prop ''cause'' fs = Some f"
  shows "prop_free c f"
  using assms clean_free [OF assms(1)] by (auto simp: secret_cause_def prop_free_def split: option.splits)

lemma safe_error_free:
  assumes "secret creds c" "free_of c m"
  shows "error_free c (safe_error creds ids m name fs)"
proof -
  define base where "base = put_prop (plain_prop ''name'' (DText (redactCredentialText name creds ids))) [plain_prop ''message'' (DText m)]"
  define step where "step = (\<lambda>(f :: own_property) fs. if op_key f = ''message'' \<or> op_key f = ''cause'' then fs
             else case op_value f of None \<Rightarrow> fs | Some v \<Rightarrow> put_prop (plain_prop (op_key f) (scrub creds ids v)) fs)"
  have plain: "prop_free c (plain_prop k v) \<longleftrightarrow> texts_free c v" for k v by (simp add: prop_free_def plain_prop_def)
  have base: "list_all (prop_free c) base"
    unfolding base_def using assms redact_text_free by (intro put_prop_free) (simp_all add: plain)
  have "list_all (prop_free c) xs \<Longrightarrow> list_all (prop_free c) (fold step gs xs)" for xs gs
  proof (induction gs arbitrary: xs)
    case (Cons g gs)
    have "list_all (prop_free c) (step g xs)"
      using Cons.prems put_prop_free plain scrub_free [OF assms(1)] by (auto simp: step_def split: option.split)
    then show ?case using Cons.IH by simp
  qed simp
  then have copied: "list_all (prop_free c) (fold step fs base)" using base by blast
  have "list_all (prop_free c) (put_prop (plain_prop ''cause'' v) (fold step fs base))"
    if "find_prop ''cause'' fs = Some f" "op_value f = Some v" "\<not> secret_cause creds ids fs" for f v
  proof -
    have "texts_free c v" using safe_cause [OF assms(1) that(3,1)] that(2) by (simp add: prop_free_def)
    then show ?thesis using copied by (intro put_prop_free) (simp_all add: plain)
  qed
  then show ?thesis
    using assms(2) copied
    by (auto simp: safe_error_def error_free_def Let_def simp flip: base_def step_def split: option.split)
qed

lemma scrub_field_free:
  assumes "secret creds c" "scrub_field creds ids f = Some g" "op_key f \<noteq> ''message''" "op_key f \<noteq> ''cause''"
  shows "prop_free c g"
  using assms clean_free [OF assms(1)] scrub_free [OF assms(1)]
  by (auto simp: scrub_field_def prop_free_def split: option.splits if_splits)

lemma scrub_field_key: "scrub_field creds ids f = Some g \<Longrightarrow> op_key g = op_key f"
  by (auto simp: scrub_field_def split: option.splits if_splits)

lemma scrub_field_skip: "op_key f = ''message'' \<or> op_key f = ''cause'' \<Longrightarrow> scrub_field creds ids f = Some f"
  by (auto simp: scrub_field_def)

lemma message_defined:
  assumes "wf_error source" "free_of c m"
    and "(if m \<noteq> er_message source then define_message m source else Some source) = Some e"
  shows "er_message e = m" "\<forall>f \<in> set (er_fields e). op_key f = ''message'' \<longrightarrow> prop_free c f"
    "\<forall>f \<in> set (er_fields e). op_key f = ''cause'' \<longrightarrow> f \<in> set (er_fields source)"
  using assms
  by (auto simp: define_message_def wf_error_def prop_free_def find_prop_def find_None_iff split: if_splits option.splits)

lemma in_place_free:
  assumes "secret creds c" "wf_error source" "redact_in_place creds ids m source = Some e" "free_of c m"
  shows "error_free c e"
proof -
  obtain e1 where e1: "(if m \<noteq> er_message source then define_message m source else Some source) = Some e1"
    using assms(3) by (auto simp: redact_in_place_def split: option.splits)
  note m = message_defined [OF assms(2,4) e1]
  define fs where "fs = map (\<lambda>f. the (scrub_field creds ids f)) (er_fields e1)"
  have all: "\<not> list_ex (\<lambda>f. scrub_field creds ids f = None) (er_fields e1)"
    using assms(3) e1 by (auto simp: redact_in_place_def split: if_splits)
  obtain gs where gs: "(if secret_cause creds ids (er_fields source) then delete_cause fs else Some fs) = Some gs"
      "e = e1\<lparr>er_fields := gs, er_name := name_read (er_name e1) gs\<rparr>"
    using assms(3) e1 all by (auto simp: redact_in_place_def Let_def simp flip: fs_def split: option.splits)
  have fs: "prop_free c g \<or> (op_key g = ''cause'' \<and> g \<in> set (er_fields source))" if g: "g \<in> set fs" for g
  proof -
    obtain f where f: "f \<in> set (er_fields e1)" "scrub_field creds ids f = Some g"
      using g all by (auto simp: fs_def list_ex_iff)
    show ?thesis
    proof (cases "op_key f = ''message'' \<or> op_key f = ''cause''")
      case True
      then show ?thesis using f m(2,3) scrub_field_skip [OF True] by auto
    next
      case False
      then show ?thesis using scrub_field_free [OF assms(1) f(2)] by simp
    qed
  qed
  have "prop_free c g" if g: "g \<in> set gs" for g
  proof (cases "secret_cause creds ids (er_fields source)")
    case True
    then have "delete_cause fs = Some gs" using gs(1) by simp
    then have "g \<in> set fs \<and> op_key g \<noteq> ''cause''"
      using g by (auto simp: delete_cause_def find_prop_def find_None_iff split: option.splits if_splits)
    then show ?thesis using fs by blast
  next
    case False
    have "prop_free c g" if "op_key g = ''cause''" "g \<in> set (er_fields source)"
      using safe_cause [OF assms(1) False] find_prop_distinct that assms(2) by (simp add: wf_error_def)
    then show ?thesis using fs False gs(1) g by auto
  qed
  then show ?thesis using m(1) assms(4) gs(2) by (simp add: error_free_def list_all_iff)
qed

lemma redacted_error_clean:
  assumes "secret creds c" "wf_thrown t"
  shows "error_free c (redactCredentialError t creds ids)"
proof (cases t)
  case (ThrownOther s)
  then show ?thesis using safe_error_free [OF assms(1) redact_text_free [OF assms(1)]] by (simp add: redactCredentialError_def)
next
  case (ThrownError source)
  then show ?thesis
    using safe_error_free [OF assms(1) redact_text_free [OF assms(1)]] in_place_free [OF assms(1) _ _ redact_text_free [OF assms(1)]] assms(2)
    by (auto simp: redactCredentialError_def Let_def split: option.split)
qed

lemma diagnostic_free:
  assumes "secret creds c"
  shows "free_of c (redactDiagnosticText nt t creds ids parsed)"
proof -
  have same: "free_of c s" if "redactCredentialText s creds ids = s" for s using redact_text_free [OF assms, of s ids] that by simp
  show ?thesis
    using redact_text_free [OF assms] same by (auto simp: redactDiagnosticText_def Let_def split: option.split)
qed

section \<open>Streams\<close>

lemma newline_append: "0 < newline_len s \<Longrightarrow> newline_len (s @ x) = newline_len s \<and> newline_len s \<le> length s"
  by (cases s; cases "tl s") (auto simp: newline_len_def starts_with_def split: if_splits)

lemma boundary_append:
  assumes "0 < boundary_len s"
  shows "boundary_len (s @ x) = boundary_len s" "boundary_len s \<le> length s"
proof -
  have ab: "0 < newline_len s" "0 < newline_len (drop (newline_len s) s)" using assms by (auto simp: boundary_len_def Let_def split: if_splits)
  note a = newline_append [OF ab(1), of x]
  have "drop (newline_len s) (s @ x) = drop (newline_len s) s @ x" using a by simp
  then show "boundary_len (s @ x) = boundary_len s"
    using a newline_append [OF ab(2), of x] by (simp add: boundary_len_def Let_def)
  show "boundary_len s \<le> length s"
    using a newline_append [OF ab(2), of x] by (auto simp: boundary_len_def Let_def)
qed

text \<open>A text that only grows to a boundary has none in it.\<close>

lemma boundary_local: "4 \<le> length s \<Longrightarrow> boundary_len (s @ x) = boundary_len s"
  by (cases s; cases "tl s"; cases "tl (tl s)"; cases "tl (tl (tl s))")
    (simp_all add: boundary_len_def newline_len_def starts_with_def Let_def)

lemma newline_cases: "newline_len s = (case s of [] \<Rightarrow> 0 | a # t \<Rightarrow>
    if a = CHR 0x0A then 1 else if a = CHR 0x0D then (case t of [] \<Rightarrow> 0 | b # u \<Rightarrow> if b = CHR 0x0A then 2 else 0) else 0)"
  by (cases s; cases "tl s") (simp_all add: newline_len_def starts_with_def)

lemma growing_boundary:
  assumes "boundary_len (c # s) = 0" "0 < boundary_len ((c # s) @ x)"
  shows "first_event s = None"
proof -
  have "length (c # s) < 4" using boundary_local [of "c # s" x] assms by force
  then consider "s = []" | a where "s = [a]" | a b where "s = [a, b]"
    by (cases s; cases "tl s"; cases "tl (tl s)") auto
  then show ?thesis
    using assms by cases (auto simp: boundary_len_def newline_cases Let_def split: if_splits)
qed

lemma first_event_append: "first_event s = Some (e, r) \<Longrightarrow> first_event (s @ x) = Some (e, r @ x)"
proof (induction s arbitrary: e)
  case (Cons c s)
  show ?case
  proof (cases "0 < boundary_len (c # s)")
    case True
    note b = boundary_append(1) [OF True, of x] boundary_append(2) [OF True]
    have cut: "take n (y @ x) = take n y \<and> drop n (y @ x) = drop n y @ x" if "n \<le> length y" for n and y :: string
      using that by simp
    show ?thesis using Cons.prems b(1) True cut [OF b(2), unfolded append_Cons] by auto
  next
    case False
    then obtain e' where e': "first_event s = Some (e', r)" "e = c # e'" using Cons.prems by auto
    then have "boundary_len (c # s @ x) = 0" using growing_boundary [of c s x] False by auto
    then show ?thesis using Cons.IH [OF e'(1)] e'(2) by simp
  qed
qed simp

lemma take_events_append:
  "take_events s = (es, p) \<Longrightarrow> take_events (p @ x) = (es', q) \<Longrightarrow> take_events (s @ x) = (es @ es', q)"
proof (induction s arbitrary: es rule: take_events.induct)
  case (1 s)
  show ?case
  proof (cases "first_event s")
    case None
    then show ?thesis using "1.prems" by (auto simp: take_events.simps [of s])
  next
    case (Some er)
    obtain e r where er: "er = (e, r)" by fastforce
    obtain fs where fs: "take_events r = (fs, p)" "es = e # fs"
      using "1.prems"(1) Some er by (auto simp: take_events.simps [of s] split: prod.splits)
    show ?thesis
      using "1.IH" [OF Some er [symmetric] fs(1) "1.prems"(2)] first_event_append [OF Some [unfolded er], of x] fs(2)
      by (simp add: take_events.simps [of "s @ x"])
  qed
qed

lemma take_events_concat: "take_events s = (es, p) \<Longrightarrow> s = concat es @ p"
proof (induction s arbitrary: es rule: take_events.induct)
  case (1 s)
  then show ?case
    by (subst (asm) (2) take_events.simps) (auto split: option.splits prod.splits dest: first_event_split)
qed

end
