(* ===== verification/Redaction_Properties.thy ===== *)
theory Redaction_Properties
  imports Redaction_Facts
begin

text \<open>What the redaction of diagnostics promises, and where an escaped credential passes it.\<close>

section \<open>Texts and errors\<close>

text \<open>
  No credential the redaction is given occurs in the redacted text, whatever the order of the credentials, project
  ids and the rest of the text; excepted are credentials that the marker \<open>[credential]\<close> itself could spell.
\<close>

lemma redacted_text_free:
  assumes "c \<in> set (credential_list creds)" "proper_credential c"
  shows "\<not> str_includes (redactCredentialText s creds ids) c"
  using redact_text_free assms by (simp add: secret_def free_of_code)

theorem redacted_text_free_witness:
  "\<not> str_includes (redactCredentialText ''a tok-1 b Bearer tok-1'' (ManyCredentials [''tok-1'', ''x'']) (Some [''b''])) ''tok-1''"
  by (rule redacted_text_free) (code_simp, code_simp)

text \<open>
  C36. The error that takes the place of a thrown one has no credential the redaction is given in its message or, at any
  depth, in its own data properties, its cause included, whether it is changed in place or, when it refuses to change,
  replaced; excepted are credentials that the marker \<open>[credential]\<close> itself could spell.
\<close>

theorem redacted_error_free:
  assumes "c \<in> set (credential_list creds)" "proper_credential c" "wf_thrown t"
  shows "\<not> str_includes (er_message (redactCredentialError t creds ids)) c
    \<and> list_all (\<lambda>f. case op_value f of None \<Rightarrow> True | Some v \<Rightarrow> texts_free c v) (er_fields (redactCredentialError t creds ids))"
  using redacted_error_clean [of creds c t ids] assms
  by (simp add: secret_def error_free_def free_of_code prop_free_def list_all_iff)

definition example_error :: thrown where
  "example_error = ThrownError \<lparr>er_message = ''no tok-1'', er_name = ''Error'',
     er_fields = [\<lparr>op_key = ''message'', op_value = Some (DText ''no tok-1''), op_configurable = True, op_writable = True\<rparr>,
       \<lparr>op_key = ''cause'', op_value = Some (DObj False [(''detail'', Some (DText ''tok-1''))]), op_configurable = True, op_writable = True\<rparr>],
     er_extensible = True\<rparr>"

theorem redacted_error_free_witness:
  "\<not> str_includes (er_message (redactCredentialError example_error (OneCredential ''tok-1'') None)) ''tok-1''
    \<and> list_all (\<lambda>f. case op_value f of None \<Rightarrow> True | Some v \<Rightarrow> texts_free ''tok-1'' v)
        (er_fields (redactCredentialError example_error (OneCredential ''tok-1'') None))"
  by (rule redacted_error_free) (code_simp, code_simp, simp add: example_error_def wf_error_def)

section \<open>Responses\<close>

text \<open>
  C37. A failed response keeps its status and address and has no credential the redaction is given in its status text, its headers or the
  text of its body; when reading the body fails, the error that is thrown has none.
\<close>

theorem failed_response_free:
  assumes "c \<in> set (credential_list creds)" "proper_credential c" "\<not> response_ok r"
    and "\<forall>e. rs_body r = Some (Inl e) \<longrightarrow> wf_thrown e"
  shows "case redactCredentialResponse nt r creds buffered ids of
      Unchanged r' \<Rightarrow> r' = r \<and> free_of c (rs_statusText r) \<and> list_all (\<lambda>kv. free_of c (snd kv)) (rs_headers r)
          \<and> pred_option (free_of c) buffered
    | WithText r' t \<Rightarrow> rs_status r' = rs_status r \<and> rs_url r' = rs_url r \<and> free_of c (rs_statusText r')
          \<and> list_all (\<lambda>kv. free_of c (snd kv)) (rs_headers r') \<and> pred_option (free_of c) t
    | Streamed r' \<Rightarrow> False
    | Rejected e \<Rightarrow> error_free c e"
proof -
  have s: "secret creds c" using assms(1,2) by (simp add: secret_def)
  note text_free = redact_text_free [OF s]
  define headers where "headers = map (\<lambda>(k, v). (k, redactCredentialText v creds ids)) (rs_headers r)"
  have h: "list_all (\<lambda>kv. free_of c (snd kv)) headers" using text_free by (auto simp: headers_def list_all_iff)
  have d: "list_all (\<lambda>kv. free_of c (snd kv)) (drop_header k headers)" for k
    using h by (auto simp: drop_header_def list_all_iff)
  have same: "free_of c x" if "redactDiagnosticText nt x creds ids None = x" for x
    using diagnostic_free [OF s, of nt x ids None] that by simp
  have st: "free_of c (rs_statusText r)" if "redactCredentialText (rs_statusText r) creds ids = rs_statusText r"
    using text_free [of "rs_statusText r" ids] that by simp
  have hs: "list_all (\<lambda>kv. free_of c (snd kv)) (rs_headers r)" if "headers = rs_headers r" using h that by simp
  have f: "redactCredentialResponse nt r creds buffered ids = redact_failed nt r creds buffered ids"
    using assms(3) by (simp add: redactCredentialResponse_def)
  show ?thesis
    unfolding f redact_failed_def Let_def headers_def [symmetric] preserveResponseMetadata_def built_response_def
    using redacted_error_clean [OF s] assms(4) text_free h d same st hs diagnostic_free [OF s]
    by (auto split: option.split sum.split)
qed

definition example_response :: response where
  "example_response = \<lparr>rs_status = 429, rs_statusText = ''echo tok-1'', rs_headers = [(''x-error'', ''tok-1'')],
     rs_body = Some (Inr ''tok-1 refused''), rs_url = ''u'', rs_type = ''basic'', rs_redirected = False\<rparr>"

theorem failed_response_free_witness:
  "\<exists>r t. redactCredentialResponse (\<lambda>n. ''0'') example_response (OneCredential ''tok-1'') None None = WithText r t
     \<and> free_of ''tok-1'' (rs_statusText r) \<and> pred_option (free_of ''tok-1'') t"
proof -
  have "\<exists>r t. redactCredentialResponse (\<lambda>n. ''0'') example_response (OneCredential ''tok-1'') None None = WithText r t"
    by (simp add: redactCredentialResponse_def redact_failed_def example_response_def response_ok_def Let_def)
  moreover have "\<not> response_ok example_response" "\<forall>e. rs_body example_response = Some (Inl e) \<longrightarrow> wf_thrown e"
    by (simp_all add: example_response_def response_ok_def)
  moreover have "''tok-1'' \<in> set (credential_list (OneCredential ''tok-1''))" by (simp add: credential_list_def)
  moreover have "proper_credential ''tok-1''" by code_simp
  ultimately show ?thesis
    using failed_response_free [where c = "''tok-1''" and creds = "OneCredential ''tok-1''" and r = example_response
        and nt = "\<lambda>n. ''0''" and buffered = None and ids = None] by force
qed

section \<open>Streams\<close>

definition stream_run ::
  "(num \<Rightarrow> string) \<Rightarrow> Credentials \<Rightarrow> string list option \<Rightarrow> read_result list \<Rightarrow> stream_state" where
  "stream_run nt creds ids reads = fold (stream_read nt creds ids) reads stream_start"

text \<open>The events of a whole text; what follows the last blank line is the last one.\<close>

definition stream_events :: "string \<Rightarrow> string list" where
  "stream_events t = (let (es, p) = take_events t in es @ (if p \<noteq> [] then [p] else []))"

lemma stream_events_concat: "concat (stream_events t) = t"
  using take_events_concat [of t] by (cases "take_events t") (auto simp: stream_events_def)

lemma take_events_Nil: "take_events [] = ([], [])"
  by (simp add: take_events.simps)

lemma stream_chunks:
  "\<exists>es p. take_events (concat cs) = (es, p) \<and> fold (stream_read nt creds ids) (map Chunk cs) stream_start
     = \<lparr>ss_pending = p, ss_out = map (redact_event nt creds ids) es, ss_end = StreamOpen\<rparr>"
proof (induction cs rule: rev_induct)
  case Nil
  then show ?case by (simp add: stream_start_def take_events_Nil)
next
  case (snoc x cs)
  then obtain es p where ep: "take_events (concat cs) = (es, p)"
    "fold (stream_read nt creds ids) (map Chunk cs) stream_start
       = \<lparr>ss_pending = p, ss_out = map (redact_event nt creds ids) es, ss_end = StreamOpen\<rparr>" by blast
  obtain fs q where fq: "take_events (p @ x) = (fs, q)" by fastforce
  have r: "fold (stream_read nt creds ids) (map Chunk (cs @ [x])) stream_start
      = stream_read nt creds ids (Chunk x) \<lparr>ss_pending = p, ss_out = map (redact_event nt creds ids) es, ss_end = StreamOpen\<rparr>"
    by (simp add: ep(2))
  show ?case unfolding r using take_events_append [OF ep(1) fq] fq by (simp add: stream_read_def)
qed

text \<open>
  C38. How the network cuts a stream into chunks does not matter: the events that are delivered are those of the whole
  text, each redacted once, and the stream closes.
\<close>

theorem stream_chunks_irrelevant:
  "ss_out (stream_run nt creds ids (map Chunk cs @ [Done last_text]))
     = map (redact_event nt creds ids) (stream_events (concat cs @ last_text))
   \<and> ss_end (stream_run nt creds ids (map Chunk cs @ [Done last_text])) = StreamClosed"
proof -
  obtain es p where ep: "take_events (concat cs) = (es, p)"
    "fold (stream_read nt creds ids) (map Chunk cs) stream_start
       = \<lparr>ss_pending = p, ss_out = map (redact_event nt creds ids) es, ss_end = StreamOpen\<rparr>" using stream_chunks by blast
  obtain fs q where fq: "take_events (p @ last_text) = (fs, q)" by fastforce
  have r: "stream_run nt creds ids (map Chunk cs @ [Done last_text])
      = stream_read nt creds ids (Done last_text) \<lparr>ss_pending = p, ss_out = map (redact_event nt creds ids) es, ss_end = StreamOpen\<rparr>"
    by (simp add: stream_run_def ep(2))
  show ?thesis unfolding r using take_events_append [OF ep(1) fq] fq by (simp add: stream_read_def stream_events_def)
qed

section \<open>Escaped credentials\<close>




end
