(* ===== verification/Spec2Isabelle.thy ===== *)
theory Spec2Isabelle
  imports Examples Killswitch Retry_State Cross_Model Credentials Model_Resolver
    Storage_Properties Recovery_Properties Gemini_Properties Claude_Properties Lock_Properties
    Pairing_Properties Retry_Properties Filter_Properties Signature_Properties
    Codec_Properties Policy_Properties Redaction_Properties
begin

text \<open>
  \<^bold>\<open>Verification of the account pool of \<^verbatim>\<open>antigravity-auth\<close>\<close>

  The program routes requests of coding hosts (OpenCode, pi) to the Antigravity service over a
  pool of accounts. Its core logic lives in \<^verbatim>\<open>packages/core/src\<close>; the OpenCode plugin
  in \<^verbatim>\<open>packages/opencode/src/plugin\<close> adds the bookkeeping of one fetch interceptor. A
  request names a model; the model resolver turns it into a wire route, the selector picks an
  account under a strategy, the killswitch may refuse, rotation gives backoffs and scores, and
  what the response says (a 429, an access block, a quota reading) is marked on the account.

  \<^bold>\<open>Theories and the code they model.\<close>
  \<^item> \<open>Prelude\<close>, \<open>Js_Map\<close>, \<open>Text\<close>, \<open>Json\<close>: JavaScript values. Numbers are rationals (every modelled
    computation uses finite doubles; rounding is not modelled), a \<open>Map\<close> or object is an
    association list in insertion order, strings are character lists, \<open>undefined\<close> is \<open>None\<close>. The
    locale \<open>insertion_map\<close> is the contract of bounded insertion-ordered maps.
  \<^item> \<open>Rotation\<close>: \<^verbatim>\<open>core/src/rotation.ts\<close>. Trackers are records with a map of states; the clock
    and the random number are arguments. The locale \<open>index_tracker\<close> is the contract of moving
    index-keyed entries, interpreted on both trackers.
  \<^item> \<open>Model_Registry\<close>, \<open>Model_Resolver\<close>: \<^verbatim>\<open>core/src/model-registry.ts\<close> and
    \<^verbatim>\<open>core/src/transform/model-resolver.ts\<close>. Regular expressions are written out as string
    functions; object tables are maps of their own keys.
  \<^item> \<open>Fingerprint\<close>, \<open>Quota_Types\<close>, \<open>Credentials\<close>: \<^verbatim>\<open>fingerprint.ts\<close>, \<^verbatim>\<open>quota-types.ts\<close>,
    \<^verbatim>\<open>account-identity.ts\<close> and \<^verbatim>\<open>auth.ts\<close>.
  \<^item> \<open>Selector_State\<close> to \<open>Selector_Marks\<close>: \<^verbatim>\<open>core/src/account-selector.ts\<close>. A selector is a
    record: a heap of rows (rows are held by reference, so a row that left is told from the row
    now at its index), the array of row addresses, cursors, selections, sessions, trackers and
    the log of sink events. \<open>Selector_Sessions\<close> has the request sessions, \<open>Selector_Select\<close> the
    strategies, \<open>Selector_Members\<close> the membership changes, \<open>Selector_Marks\<close> limits, verdicts,
    fingerprints and counts. The clock is read once per call.
  \<^item> \<open>Selector_Available\<close>: selection is sound and complete for the plain predicate \<open>usable\<close>.
    \<open>Selector_View\<close>: the abstract view keyed by row, and the refinement of membership changes;
    the locale \<open>row_refresh\<close> is the contract of a refresh, interpreted on
    \<open>refreshSelectableRow\<close> and on the identity of \<open>removeAccount\<close>. \<open>Selector_Waits\<close>: backoffs and
    waiting times. \<open>Selector_Machine\<close>: the step relation \<open>sel_step\<close> over all operations, the
    reachable selectors \<open>sel_reach\<close> and their invariant. \<open>Selector_Verdicts\<close>: access blocks,
    stale rows, fingerprints, counts. \<open>Examples\<close>: concrete pools for the witnesses.
  \<^item> \<open>Killswitch\<close>, \<open>Retry_State\<close>: \<^verbatim>\<open>opencode/src/plugin/killswitch.ts\<close>, \<^verbatim>\<open>fetch/retry-state.ts\<close>
    and \<^verbatim>\<open>fetch/warmup.ts\<close>. The hash that names an account in the settings is the argument
    \<open>keyOf\<close>.
  \<^item> \<open>Cross_Model\<close>: \<^verbatim>\<open>core/src/transform/cross-model-sanitizer.ts\<close> over JSON values; the locale
    \<open>stripper\<close> is the contract of a pass that counts what it removes.

  \<^item> \<open>Json_Access\<close>, \<open>Json_Text\<close>: optional chaining, truthiness, spreads, \<open>JSON.stringify\<close>.
  \<^item> \<open>Account_Storage\<close>, \<open>Storage_Facts\<close>, \<open>Storage_Properties\<close>: \<^verbatim>\<open>core/src/account-storage.ts\<close>. A
    stored account is an object whose properties may be \<open>undefined\<close>; the file, the lock, the
    ownership check and the write are answers of a \<open>storage_env\<close>, the file and the sleeps are
    the \<open>storage_world\<close>, errors are the values of \<open>storage_error\<close>.
  \<^item> \<open>Gemini_Schema\<close>, \<open>Schema_Facts\<close>: the schema conversion of \<^verbatim>\<open>core/src/transform/gemini.ts\<close>,
    and the inductive predicate \<open>accepted\<close> of what the service takes. \<open>Gemini_Tools\<close>,
    \<open>Tools_Facts\<close>, \<open>Gemini_Properties\<close>: its tools and the whole transform. \<open>Claude_Transform\<close>,
    \<open>Claude_Properties\<close>: \<^verbatim>\<open>core/src/transform/claude.ts\<close>.
  \<^item> \<open>Thinking_Recovery\<close>, \<open>Recovery_Properties\<close>: \<^verbatim>\<open>opencode/src/plugin/thinking-recovery.ts\<close>.
  \<^item> \<open>File_Lock\<close>, \<open>Lock_Facts\<close>, \<open>Lock_Properties\<close>: \<^verbatim>\<open>core/src/file-lock.ts\<close>. Each contender is a
    program counter with its local variables; a run interleaves their steps with the passing of
    time, the death of processes and failures of the file system.
  \<^item> \<open>Tool_Pairing\<close>, \<open>Pairing_Facts\<close>, \<open>Pairing_Properties\<close>: the tool ids, the grouping of responses and
    the pairing of Claude messages in \<^verbatim>\<open>opencode/src/plugin/request-helpers.ts\<close>; a thrown
    \<open>TypeError\<close> is \<open>None\<close>. \<open>Regex\<close>: JavaScript regular expressions by backtracking.
    \<open>Retry_Metadata\<close>, \<open>Retry_Facts\<close>, \<open>Retry_Properties\<close>: durations, retry headers, reset clauses and
    the precedence of delays in the same file.
  \<^item> \<open>Thinking_Filter\<close>, \<open>Filter_Facts\<close>, \<open>Filter_Properties\<close>: the filtering of thinking blocks in the same
    file. The walk over a payload ends because filtering never nests deeper than its input.
  \<^item> \<open>Signature_Cache\<close>, \<open>Signature_Facts\<close>, \<open>Signature_Properties\<close>: \<^verbatim>\<open>opencode/src/plugin/cache.ts\<close> and
    \<^verbatim>\<open>cache/signature-cache.ts\<close>. The process state has the hot map, the running disk caches with their
    owners, the readers, the locations by number and the files; \<open>sig_reach\<close> are its reachable states.
    The locale \<open>cache_invariant\<close> lifts what every operation of one cache keeps to all of them.
  \<^item> \<open>Js_Value\<close>, \<open>Account_Codec\<close>, \<open>Account_Values\<close>: \<^verbatim>\<open>core/src/account-repository-codecs.ts\<close>. An argument
    of type \<open>unknown\<close> is a \<open>js\<close>, which has what JSON cannot hold as well; a codec is a record of its two
    functions, a shape a list of fields, and a thrown \<open>AccountCodecError\<close> is \<open>Inl\<close> with its path. The
    locale \<open>faithful_codec\<close> (\<open>Codec_Facts\<close>) is the contract of a codec; the combinators keep it, a record of
    faithful fields has it (the locale \<open>record_shape\<close> in \<open>Record_Facts\<close>), and both are interpreted on the
    codecs of the program in \<open>Value_Facts\<close>. \<open>Record_Fields\<close> tells accepted objects field by field.
    \<open>canonical\<close> is the content of a value, whatever the order of its keys.
  \<^item> \<open>Account_Policy\<close>, \<open>Policy_Facts\<close>, \<open>Merge_Facts\<close>: the rules for account metadata in
    \<^verbatim>\<open>core/src/account-repository.ts\<close>, over the properties of decoded objects; \<open>typed_metadata\<close> are those
    that encode. \<open>Codec_Properties\<close> and \<open>Policy_Properties\<close> have the properties of both.
  \<^item> \<open>Json_Parse\<close>: \<open>JSON.parse\<close>. \<open>Redaction\<close>, \<open>Redaction_Facts\<close>, \<open>Redaction_Properties\<close>:
    \<^verbatim>\<open>core/src/credential-redaction.ts\<close>. Texts go through the regular expressions of \<open>Regex\<close>; what hangs on
    an error is a tree of values, an own property says whether it can be changed, and a stream is a state
    with the pending text, the events delivered and its end, advanced by one read at a time.

  \<^bold>\<open>Properties.\<close> This theory has those of the selector, of rotation, of quota groups and the
  killswitch, of the retry state, of switching models and of credentials; the theories named
  \<open>Properties\<close> have those of the stored pool (deduplication, merge, fail-closed writes, round
  trip), of the file lock, of the Gemini and Claude transforms, of thinking recovery and the
  thinking filter, of tool pairing, of retry metadata, of the signature cache, of the codecs of the
  account store, of the rules for account metadata and of the redaction of credentials.

  \<^bold>\<open>Bounds.\<close> No definition needs fuel: every loop of the modelled code runs over a list, a
  smaller JSON value or the delays of a schedule. The schema conversion recurses into values
  of a merged schema; its termination proof shows that they are smaller than the input. The
  acquisition of a lock is a machine of steps; alone it settles within 36 of them.

  \<^bold>\<open>Not modelled.\<close> HTTP, OAuth, the vault client, the user interface, the vendored packages and
  the tests; the transactions of the account repository and its migration, which are calls of the store
  of another repository; the quota manager; the rest of the request and response rewriting of the plugin.
\<close>

section \<open>Selection\<close>

text \<open>
  C1. In every reachable selector \<open>getCurrentOrNextForFamily\<close> returns a row of the pool that is
  usable at the time of the call (enabled, not blocked, not excluded, not rate limited, not
  over the effective soft quota, not cooling down), and \<open>null\<close> only when no row of the pool is.
  All strategies, session pins, the PID offset and the stickiness of hybrid selection are
  included.
\<close>

theorem selection_correct:
  assumes "sel_reach s"
  shows "case fst (getCurrentOrNextForFamily q now s) of
           Some a \<Rightarrow> a \<in> set (s_accounts s) \<and> usable q now s a
         | None \<Rightarrow> list_all (\<lambda>a. \<not> usable q now s a) (s_accounts s)"
  using getCurrentOrNext_choice [OF sel_reach_pool [OF assms], of q now]
  by (auto simp: sound_choice_def complete_choice_def list_all_iff split: option.split)

theorem selection_correct_witness:
  "\<exists>a \<in> {0, 1, 2}. fst (getCurrentOrNextForFamily (plain_query Hybrid 90) 5 (pool_of 3 id)) = Some a"
  using selection_correct [OF example_pools(1), of "plain_query Hybrid 90" 5 3]
  by (auto simp: example_usable upt_conv_Cons split: option.splits)



text \<open>
  C3. After an account is marked ineligible, no selection returns it, whatever the query; and
  if it was enabled, neither family's pool-wide selection points at it any more.
\<close>

theorem ineligible_not_selected:
  assumes "sel_reach s" "nth_opt (s_accounts s) i = Some a"
    and "s' = snd (markAccountIneligible i reason t s)"
  shows "fst (getCurrentOrNextForFamily q now s') \<noteq> Some a
    \<and> (r_enabled (row_at s a) \<longrightarrow> s_current s' fam \<noteq> i)"
proof -
  note wf = sel_reach_pool [OF assms(1)]
  have s': "sel_reach s'" unfolding assms(3) by (rule sel_reach.step [OF assms(1) sel_step.ineligible])
  have "fst (getCurrentOrNextForFamily q now s') \<noteq> Some a"
    by (rule ineligible_never_selected [OF sel_reach_pool [OF s']])
      (simp add: assms(3) markIneligible_effect(2) [OF wf assms(2)] eligible_flags_def)
  then show ?thesis using markIneligible_effect(3) [OF wf assms(2)] by (simp add: assms(3))
qed

theorem ineligible_not_selected_witness:
  "fst (getCurrentOrNextForFamily (plain_query Sticky 100) 9
     (snd (markAccountIneligible 1 (Some ''blocked'') 8 (pool_of 3 id)))) \<noteq> Some 1"
  using ineligible_not_selected [OF example_pools(1) _ refl, of 3 1 1]
  by (simp add: nth_opt_def upt_conv_Cons)



text \<open>
  With distinct keys, the rows after \<open>replaceAccounts\<close> are position by position the current
  row with the key of the given row, or the given row itself when no current row has it.
\<close>

lemma replace_rows:
  fixes keyOf :: "addr \<Rightarrow> row \<Rightarrow> string option"
  assumes "distinct new" "distinct_keys keyOf s new" "set new \<inter> set (s_accounts s) = {}"
  shows "s_accounts (snd (replaceAccounts new keyOf refresh fallback s)) = map (matched keyOf s) new"
  unfolding replaceAccounts_def by (rule reconcile_load_rows [OF assms])

theorem replace_rows_witness:
  "s_accounts (snd (replaceAccounts [5, 7, 6] (\<lambda>a _. Some (show_nat (a mod 4))) None None (pool_of 3 id))) = [1, 7, 2]"
  using replace_rows [of "[5, 7, 6]" "\<lambda>a _. Some (show_nat (a mod 4))" "pool_of 3 id" None None]
  by (simp add: distinct_keys_def matched_def previous_by_key_def upt_conv_Cons)

text \<open>
  C5. \<open>removeAccount\<close> of a loaded row refines the same specification: the row is gone, every
  other row keeps its pins, marks, counts, scores and balances; a pool-wide selection on the
  removed row passes to the next row (none at the end), any other selection stays on its row;
  and the round-robin cursors stay below the new length.
\<close>

theorem removal_refines_view:
  assumes "sel_reach s" "a \<in> set (s_accounts s)" "s' = snd (removeAccount a s)"
    and "B = filter (\<lambda>b. b \<noteq> a) (s_accounts s)" "B \<noteq> []"
  shows "fst (removeAccount a s) \<and> s_accounts s' = B
    \<and> pool_view_of s' = keep_rows (set B) (pool_view_of s)
    \<and> nth_opt B (s_current s' fam) =
        (if nth_opt (s_accounts s) (s_current s fam) = Some a
         then nth_opt (s_accounts s) (s_current s fam + 1)
         else nth_opt (s_accounts s) (s_current s fam))
    \<and> s_cursor s' fam < length B"
proof -
  have wf: "selector_wf s" using sel_reach_inv [OF assms(1)] by (simp add: selector_inv_def)
  note R = removeAccount_facts [OF wf assms(2), folded assms(3,4)]
  show ?thesis using R(1,2) R(4) R(5) [of fam] R(6) assms(5) by simp
qed

theorem removal_refines_view_witness:
  "s_accounts (snd (removeAccount 0 (pool_of 3 id))) = [1, 2]
    \<and> s_cursor (snd (removeAccount 0 (pool_of 3 id))) Claude < 2"
  using removal_refines_view [OF example_pools(1) _ refl refl, of 0 3 Claude]
  by (simp add: upt_conv_Cons)

section \<open>Limits and waiting\<close>

text \<open>
  C6. The waiting time the selector reports is exact: with soft quotas out of the way (a
  threshold of at least 100), no exclusions and at least one eligible account, a selection at a
  later time \<open>t\<close> succeeds exactly when the time reported by \<open>getMinWaitTimeForFamily\<close>
  (cooldowns included) has passed.
\<close>

theorem wait_is_exact:
  assumes "sel_reach s" "100 \<le> sq_threshold q" "sq_exclude q = {}" "now \<le> t"
    and "wait_candidates None s \<noteq> []"
  shows "fst (getCurrentOrNextForFamily q t s) \<noteq> None \<longleftrightarrow>
           now + fst (getMinWaitTimeForFamily (sq_family q) (sq_model q) None True now s) \<le> t"
  by (rule wait_until_selectable [OF sel_reach_pool [OF assms(1)] assms(2-)])

theorem wait_is_exact_witness:
  "fst (getCurrentOrNextForFamily (plain_query Sticky 100) 7 (pool_of 2 id)) \<noteq> None \<longleftrightarrow>
     5 + fst (getMinWaitTimeForFamily Gemini None None True 5 (pool_of 2 id)) \<le> (7 :: rat)"
  using wait_is_exact [OF example_pools(1), of "plain_query Sticky 100" 5 7 2]
  by (simp add: plain_query_def wait_candidates_def eligible_flags_def upt_conv_Cons)

text \<open>
  \<open>markRateLimitedWithReason\<close> returns the backoff for the row's streak of failures (reset
  when the last failure is older than the time to live), counts this failure, and until the
  backoff has passed the row is rate limited for that family and model.
\<close>

lemma limited_for_backoff:
  assumes "(backoff, s') = markRateLimitedWithReason a fam model reason retryAfter ttl random now s"
    and "t < now + backoff"
  shows "backoff = calculateBackoffMs reason (int (failure_streak ttl now (row_at s a))) retryAfter random
    \<and> row_limited fam model t (row_at s' a)
    \<and> r_consecutiveFailures (row_at s' a) = Some (failure_streak ttl now (row_at s a) + 1)"
  using assms(2) markWithReason_backoff markWithReason_limited markWithReason_row
  by (simp add: count_failure_streak assms(1) [THEN arg_cong [where f = fst], simplified]
      assms(1) [THEN arg_cong [where f = snd], simplified])

theorem limited_for_backoff_witness:
  "row_limited Claude None 29999
     (row_at (snd (markRateLimitedWithReason 1 Claude None RATE_LIMIT_EXCEEDED None 3600000 0 0 (pool_of 2 id))) 1)"
  using limited_for_backoff [OF surjective_pairing [symmetric],
      of 29999 0 1 Claude None RATE_LIMIT_EXCEEDED None 3600000 0 "pool_of 2 id"]
  by (simp add: markWithReason_backoff calculateBackoffMs_def RATE_LIMIT_EXCEEDED_BACKOFF_def)

text \<open>
  Refreshing a kept row from a fresh roster row never forgets a rate limit: a key limited
  on the kept row is still limited afterwards, and no reset time of the fresh row is lost.
\<close>

lemma refresh_keeps_limits:
  assumes "row_wf prior"
  shows "map_of (r_rateLimitResetTimes (refreshSelectableRow prior fresh)) key =
      (case (map_of (r_rateLimitResetTimes fresh) key, map_of (r_rateLimitResetTimes prior) key) of
         (None, p) \<Rightarrow> p
       | (Some f, None) \<Rightarrow> Some f
       | (Some f, Some p) \<Rightarrow> Some (max f p))
    \<and> (isRateLimitedForQuotaKey prior key now \<longrightarrow> isRateLimitedForQuotaKey (refreshSelectableRow prior fresh) key now)"
  using refresh_never_shortens [OF assms] merge_rates_lookup assms
  by (auto simp: refreshSelectableRow_def row_wf_def)

theorem refresh_keeps_limits_witness:
  "map_of (r_rateLimitResetTimes (refreshSelectableRow
      ((plain_row 0)\<lparr>r_rateLimitResetTimes := [(''claude'', 9)]\<rparr>)
      ((plain_row 0)\<lparr>r_rateLimitResetTimes := [(''claude'', 4), (''gemini'', 3)]\<rparr>))) ''claude'' = Some 9"
  using refresh_keeps_limits [of "(plain_row 0)\<lparr>r_rateLimitResetTimes := [(''claude'', 9)]\<rparr>"
      "(plain_row 0)\<lparr>r_rateLimitResetTimes := [(''claude'', 4), (''gemini'', 3)]\<rparr>" "''claude''" 0]
  by (simp add: row_wf_def jm_wf_def)

text \<open>
  The soft quota never blocks the only eligible account: when one eligible account is
  loaded and neither a rate limit nor a cooldown holds it, selection returns it whatever the
  threshold and the cached quota.
\<close>

lemma sole_account_selected:
  assumes "sel_reach s" "sq_exclude q = {}" "getEligibleAccounts {} s = [a]"
    and "\<not> blocked_at (sq_family q) (sq_model q) True (row_at s a) now"
  shows "fst (getCurrentOrNextForFamily q now s) = Some a"
proof -
  have e: "b \<in> set (s_accounts s) \<and> eligible_flags (row_at s b) \<longleftrightarrow> b = a" for b
    using arg_cong [OF assms(3), of set] by (auto simp: getEligibleAccounts_def)
  then have a: "a \<in> set (s_accounts s)" "eligible_flags (row_at s a)" by blast+
  have "usable q now s a"
    using assms(2-4) a(2)
    by (simp add: usable_def available_def Let_def blocked_at_def getEffectiveSoftQuotaThreshold_def
        isOverSoftQuotaThreshold_def)
  then show ?thesis
    using getCurrentOrNext_choice [OF sel_reach_pool [OF assms(1)], of q now] a(1) e
    by (fastforce simp: sound_choice_def complete_choice_def usable_def available_def Let_def)
qed

theorem sole_account_selected_witness:
  "fst (getCurrentOrNextForFamily (plain_query RoundRobin 1) 5 (pool_of 1 spent_row)) = Some 0"
  using sole_account_selected [OF example_pools(2), of "plain_query RoundRobin 1" 1 0 5]
  by (simp add: plain_query_def getEligibleAccounts_def eligible_flags_def blocked_at_def row_limited_def
      isRateLimitedForQuotaKey_def row_cooling_def spent_row_def)

text \<open>
  When every eligible account is over the soft quota, selection returns none; and a
  waiting time \<open>getMinWaitTimeForSoftQuota\<close> then reports is positive and is the time to the
  earliest reset among the eligible accounts.
\<close>

lemma soft_quota_wait:
  assumes "sel_reach s" "sq_exclude q = {}"
    and "getMinWaitTimeForSoftQuota dateParse (sq_family q) (sq_threshold q) (sq_ttl q) (sq_model q) None now s
           = Some w" "w \<noteq> 0"
  shows "fst (getCurrentOrNextForFamily q now s) = None \<and> 0 < w
    \<and> list_ex (\<lambda>a. soft_reset dateParse (sq_family q) (sq_model q) (row_at s a) = Some (now + w)) (wait_candidates None s)
    \<and> list_all (\<lambda>a. case soft_reset dateParse (sq_family q) (sq_model q) (row_at s a) of
                        None \<Rightarrow> True | Some t \<Rightarrow> now + w \<le> t) (wait_candidates None s)"
  using softQuota_wait_value [OF assms(3,4)] all_over_blocks_selection [OF sel_reach_pool [OF assms(1)] _ assms(2)]
  by (auto simp: list_all_iff list_ex_iff split: option.split)

theorem soft_quota_wait_witness:
  "fst (getCurrentOrNextForFamily ((plain_query Sticky 90)\<lparr>sq_model := Some ''gemini-3.8-flash-low''\<rparr>) 5
     (pool_of 2 spent_row)) = None"
proof -
  have m: "getMinWaitTimeForSoftQuota (\<lambda>_. Some 30) Gemini 90 600000 (Some ''gemini-3.8-flash-low'') None 5
      (pool_of 2 spent_row) = Some 25"
    by (simp add: getMinWaitTimeForSoftQuota_def Let_def wait_candidates_def spent_row_def eligible_flags_def
        upt_conv_Cons isOverSoftQuotaThreshold_def soft_reset_def List.map_filter_def)
  show ?thesis
    using soft_quota_wait [OF example_pools(2),
        of "(plain_query Sticky 90)\<lparr>sq_model := Some ''gemini-3.8-flash-low''\<rparr>" "\<lambda>_. Some 30" 5 2 25] m
    by (simp add: plain_query_def)
qed

text \<open>
  A transition about a row that left the pool is ignored: it changes nothing but that row's
  own fields and the report of the ignored transition, so no other row, pin, count or selection
  moves, although the index of the row may name another row by now.
\<close>

lemma stale_transitions_ignored:
  assumes "a \<notin> set (s_accounts s)"
  shows "ignored a s (markRateLimited a ra fam model now s)
    \<and> ignored a s (snd (markRateLimitedWithReason a fam model reason ra2 ttl random now s))
    \<and> ignored a s (markAccountCoolingDown a c creason now s)
    \<and> ignored a s (clearAccountCooldown a s)
    \<and> ignored a s (touchLastUsed a now s)
    \<and> ignored a s (markSwitched a sreason fam identity now s)
    \<and> ignored a s (setEnabledInMemory a e s)
    \<and> removeAccount a s = (False, s)"
  by (intro conjI ignored_transitions [OF assms])

theorem stale_transitions_ignored_witness:
  "ignored 4 (pool_of 3 id) (markSwitched 4 SwitchRotation Claude None 0 (pool_of 3 id))"
  using stale_transitions_ignored [of 4 "pool_of 3 id" 0 Claude None 0 UNKNOWN None 0 0 0 AuthFailure SwitchRotation]
  by simp

section \<open>Bookkeeping\<close>

text \<open>
  Touching a request session keeps the session table within its bound with distinct
  non-empty ids, and never loses the session asked for: the pruning of expired and oldest
  sessions leaves its entry as it was.
\<close>

lemma session_touched:
  assumes "sessions_ok (s_requestSessionStates s)" "si_id i \<noteq> []"
    and "(st, s') = getRequestSessionState i now s"
  shows "sessions_ok (s_requestSessionStates s')
    \<and> map_of (s_requestSessionStates s') (si_id i) = Some st
    \<and> st = (case map_of (s_requestSessionStates s) (si_id i) of
              None \<Rightarrow> \<lparr>ss_parentId = si_parentId i, ss_current = (\<lambda>_. -1), ss_cursor = s_cursor s,
                       ss_offsetApplied = (\<lambda>_. False), ss_used = {}, ss_lastAccessedAt = now\<rparr>
            | Some old \<Rightarrow> old\<lparr>ss_lastAccessedAt := now,
                ss_parentId := (if truthy_str (si_parentId i) then si_parentId i else ss_parentId old)\<rparr>)"
proof -
  have r: "st = fst (getRequestSessionState i now s)" "s' = snd (getRequestSessionState i now s)"
    using assms(3) by (metis fst_conv, metis snd_conv)
  have wf: "jm_wf (s_requestSessionStates s)" using assms(1) by (simp add: sessions_ok_def)
  show ?thesis
    using getRequestSessionState_ok [OF assms(1,2)] getRequestSessionState_created [OF wf]
      getRequestSessionState_existing [OF wf]
    by (auto simp: r getRequestSessionState_sessions update_conv split: option.split)
qed

theorem session_touched_witness:
  "map_of (s_requestSessionStates (snd (getRequestSessionState \<lparr>si_id = ''a'', si_parentId = None\<rparr> 3 (pool_of 2 id))))
     ''a'' \<noteq> None"
  using session_touched [OF _ _ surjective_pairing [symmetric], of "pool_of 2 id" "\<lparr>si_id = ''a'', si_parentId = None\<rparr>" 3]
  by (simp add: sessions_ok_def jm_wf_def)

text \<open>
  Clearing the access blocks of an account makes it pass the eligibility flags again when it
  was enabled, or when the caller asked to enable it and it was in fact blocked; a merely
  disabled account stays disabled, and no other row changes.
\<close>

lemma blocks_cleared:
  assumes "nth_opt (s_accounts s) i = Some a" "s' = snd (clearAccountAccessBlocks i enable now s)"
  shows "(eligible_flags (row_at s' a) \<longleftrightarrow> r_enabled (row_at s a)
        \<or> enable \<and> (r_verificationRequired (row_at s a) = Some True \<or> r_accountIneligible (row_at s a) = Some True))
    \<and> (b = a \<or> row_at s' b = row_at s b)"
  using clearBlocks_effect [OF assms(1), where now = now and enable = enable, folded assms(2)]
  by (auto simp: eligible_flags_def clear_blocks_def)

theorem blocks_cleared_witness:
  "\<not> eligible_flags (row_at (snd (clearAccountAccessBlocks 0 True 5 (pool_of 2 (\<lambda>r. r\<lparr>r_enabled := False\<rparr>)))) 0)"
  using blocks_cleared [OF _ refl, of "pool_of 2 (\<lambda>r. r\<lparr>r_enabled := False\<rparr>)" 0 0 True 5 1]
  by (simp add: nth_opt_def upt_conv_Cons)

text \<open>
  A recorded request raises the total of today's requests of its family by exactly one and
  leaves the other family's total unchanged.
\<close>

lemma request_counted:
  assumes "sel_reach s" "nth_opt (s_accounts s) i = Some a"
  shows "getTotalDailyRequests fam' now (recordRequest i fam now s)
           = getTotalDailyRequests fam' now s + (if fam' = fam then 1 else 0)"
  by (rule recordRequest_counts(1) [OF sel_reach_pool [OF assms(1)] assms(2)])

theorem request_counted_witness:
  "getTotalDailyRequests Claude 5 (recordRequest 1 Claude 5 (pool_of 2 id)) = 1"
  using request_counted [OF example_pools(1), of 2 1 1 Claude 5 Claude]
  by (simp add: nth_opt_def upt_conv_Cons getTotalDailyRequests_def row_count_def today_counts_def plain_row_def)

text \<open>
  Regenerating an account's fingerprint installs the fresh one, puts the former one first in
  the history, and keeps the history at five entries at most; restoring the entry \<open>k\<close> of the
  history installs that fingerprint with a new creation time.
\<close>

lemma fingerprint_history:
  assumes "nth_opt (s_accounts s) i = Some a" "length (history_of (row_at s a)) \<le> MAX_FINGERPRINT_HISTORY"
    and "s' = snd (regenerateAccountFingerprint i fresh now s)"
    and "nth_opt (history_of (row_at s' a)) k = Some v"
    and "s'' = snd (restoreAccountFingerprint i k now2 s')"
  shows "r_fingerprint (row_at s' a) = Some fresh
    \<and> length (history_of (row_at s' a)) \<le> MAX_FINGERPRINT_HISTORY
    \<and> (case r_fingerprint (row_at s a) of
         None \<Rightarrow> history_of (row_at s' a) = history_of (row_at s a)
       | Some old \<Rightarrow> fv_fingerprint (hd (history_of (row_at s' a))) = old)
    \<and> r_fingerprint (row_at s'' a) = Some ((fv_fingerprint v)\<lparr>fp_createdAt := now2\<rparr>)
    \<and> length (history_of (row_at s'' a)) \<le> MAX_FINGERPRINT_HISTORY"
proof -
  note R = regenerate_effect [OF assms(1), of fresh now, folded assms(3)]
  have acc: "nth_opt (s_accounts s') i = Some a"
    using assms(1) by (simp add: assms(3) regenerateAccountFingerprint_def)
  note S = restore_effect [OF acc assms(4), of now2, folded assms(5)]
  have b: "length (history_of (row_at s' a)) \<le> MAX_FINGERPRINT_HISTORY"
    unfolding R(3) by (rule push_history_bound [OF assms(2)])
  show ?thesis using R(2) b S(1) push_history_bound [OF b, of FpRestored now2] S(2)
    by (auto simp: R(3) push_history_of MAX_FINGERPRINT_HISTORY_def split: option.split)
qed

theorem fingerprint_history_witness:
  "r_fingerprint (row_at (snd (restoreAccountFingerprint 0 0 9
     (snd (regenerateAccountFingerprint 0 (plain_fingerprint\<lparr>fp_deviceId := ''d''\<rparr>) 8
        (pool_of 1 (\<lambda>r. r\<lparr>r_fingerprint := Some plain_fingerprint\<rparr>)))))) 0)
   = Some (plain_fingerprint\<lparr>fp_createdAt := 9\<rparr>)"
  using fingerprint_history [OF _ _ refl _ refl,
      of "pool_of 1 (\<lambda>r. r\<lparr>r_fingerprint := Some plain_fingerprint\<rparr>)" 0 0 "plain_fingerprint\<lparr>fp_deviceId := ''d''\<rparr>" 8 0
        "\<lparr>fv_fingerprint = plain_fingerprint, fv_timestamp = 8, fv_reason = FpRegenerated\<rparr>" 9]
    regenerate_effect(3) [of "pool_of 1 (\<lambda>r. r\<lparr>r_fingerprint := Some plain_fingerprint\<rparr>)" 0 0]
  by (simp add: nth_opt_def history_of_def push_history_def MAX_FINGERPRINT_HISTORY_def regenerateAccountFingerprint_def)

section \<open>Rotation\<close>

text \<open>
  Hybrid selection picks a best candidate: the account it returns is usable and has a token,
  and no other candidate has a higher score (health, tokens and freshness, with the stickiness
  bonus for the current account); it returns none exactly when there is no candidate. The
  switch threshold never decides.
\<close>

lemma hybrid_picks_best:
  "case selectHybridAccount accounts tr cur h now of
     None \<Rightarrow> list_all (\<lambda>acc. \<not> hybrid_candidate tr h now acc) accounts
   | Some i \<Rightarrow> list_ex (\<lambda>acc. am_index acc = i \<and> hybrid_candidate tr h now acc
        \<and> list_all (\<lambda>b. if hybrid_candidate tr h now b
                         then sc_score (score_account tr cur now b) \<le> sc_score (score_account tr cur now acc)
                         else True) accounts) accounts"
proof (cases "best_scored accounts tr cur h now")
  case None
  then show ?thesis using best_scored_None_iff [of accounts tr cur h now] by (simp add: selectHybrid_best list_all_iff)
next
  case (Some b)
  then obtain acc where "acc \<in> set accounts" "hybrid_candidate tr h now acc" "b = score_account tr cur now acc"
    using best_scored_in by blast
  then show ?thesis using best_scored_max [OF Some] Some
    by (auto simp: selectHybrid_best list_ex_iff list_all_iff)
qed

text \<open>
  Health scores stay within range: for a tracker with sane settings (the defaults are), after
  any sequence of successes, rate limits, failures and resets at non-decreasing times, the score
  of every account read at any later time is between zero and the maximum.
\<close>

lemma health_score_in_range:
  assumes "health_reach c t now" "sane_health c" "now \<le> later"
  shows "0 \<le> getScore t later i \<and> getScore t later i \<le> hc_maxScore c"
proof -
  have inv: "health_inv t later" "ht_config t = c"
    using health_reach_inv [OF assms(1,2)] health_inv_later assms(3) by blast+
  show ?thesis using getScore_range [OF inv(1)] inv(2) by simp
qed

theorem health_score_in_range_witness:
  "0 \<le> getScore (recordFailure (new_health_tracker DEFAULT_HEALTH_SCORE_CONFIG) 3 0) 9 0
    \<and> getScore (recordFailure (new_health_tracker DEFAULT_HEALTH_SCORE_CONFIG) 3 0) 9 0 \<le> 100"
proof -
  have r: "health_reach DEFAULT_HEALTH_SCORE_CONFIG
      (recordFailure (new_health_tracker DEFAULT_HEALTH_SCORE_CONFIG) 3 0) 3"
    using health_op [OF health_new [of DEFAULT_HEALTH_SCORE_CONFIG 0], of 3 "HFailure 0"] by simp
  show ?thesis using health_score_in_range [OF r sane_default, of 9 0]
    by (simp add: DEFAULT_HEALTH_SCORE_CONFIG_def)
qed

text \<open>
  Token buckets: a consumption succeeds exactly when the balance covers it, then lowers this
  account's balance by the cost and no other's; balances stay between zero and the maximum.
\<close>

lemma tokens_consumed:
  assumes "tokens_inv t now" "0 \<le> cost" "(ok, t') = consume t now i cost"
  shows "(ok \<longleftrightarrow> cost \<le> getTokens t now i)
    \<and> getTokens t' now i = (if ok then getTokens t now i - cost else getTokens t now i)
    \<and> (j = i \<or> getTokens t' now j = getTokens t now j)
    \<and> tokens_inv t' now \<and> 0 \<le> getTokens t' now j \<and> getTokens t' now j \<le> getMaxTokens t'"
proof -
  have r: "ok = fst (consume t now i cost)" "t' = snd (consume t now i cost)"
    using assms(3) by (metis fst_conv, metis snd_conv)
  have inv: "tokens_inv t' now" unfolding r by (rule consume_inv [OF assms(1,2)])
  have fail: "t' = t" if "\<not> ok" using that by (auto simp: r consume_def Let_def split: if_splits)
  show ?thesis
    using consume_effect [OF assms(1), where i = i and cost = cost, folded r] assms(2) getTokens_range [OF inv] inv fail
    by (auto simp: getMaxTokens_def)
qed

theorem tokens_consumed_witness:
  "getTokens (snd (consume (new_token_tracker DEFAULT_TOKEN_BUCKET_CONFIG) 0 1 2)) 0 1 = 48"
proof -
  let ?t = "new_token_tracker DEFAULT_TOKEN_BUCKET_CONFIG"
  have "tokens_inv ?t 0" "getTokens ?t 0 1 = 50"
    by (simp_all add: tokens_inv_new sane_tokens_def DEFAULT_TOKEN_BUCKET_CONFIG_def)
      (simp add: new_token_tracker_def getTokens_def)
  then show ?thesis using tokens_consumed [OF _ _ surjective_pairing [symmetric], of ?t 0 2 1 1] by simp
qed

text \<open>
  Every backoff is at least two seconds; without a \<open>Retry-After\<close> of the server it is between
  twenty seconds and two hours, whatever the reason, the failure count and the random number.
\<close>

lemma backoff_in_range:
  assumes "0 \<le> random" "random < 1"
  shows "MIN_BACKOFF_MS \<le> calculateBackoffMs reason n r random
    \<and> (truthy_num r \<and> 0 < the r
       \<or> 20000 \<le> calculateBackoffMs reason n r random \<and> calculateBackoffMs reason n r random \<le> 7200000)"
  using backoff_range [OF assms] by blast

theorem backoff_in_range_witness: "MIN_BACKOFF_MS \<le> calculateBackoffMs MODEL_CAPACITY_EXHAUSTED 2 None (1 / 2)"
  using backoff_in_range [of "1 / 2" MODEL_CAPACITY_EXHAUSTED 2 None] by simp

text \<open>
  \<open>sortByLruWithHealth\<close> returns exactly the usable accounts, in order of the last use (oldest
  first) and, among equals, of health (highest first).
\<close>

lemma lru_sorted:
  "set (sortByLruWithHealth accounts h) = {acc \<in> set accounts. lru_usable h acc}
   \<and> sorted_wrt (\<lambda>a b. am_lastUsed a < am_lastUsed b
        \<or> am_lastUsed a = am_lastUsed b \<and> am_healthScore b \<le> am_healthScore a) (sortByLruWithHealth accounts h)"
  using sortByLru_members sortByLru_order by (simp add: sorted_wrt_iff_nth_less)

section \<open>Quota groups and the killswitch\<close>

text \<open>
  The killswitch and the selector agree on the pool a Gemini-family request draws on: whenever
  the killswitch resolves a model to a quota group, the selector resolves it to the same one.
\<close>

lemma killswitch_group_is_selectors:
  assumes "quotaGroupForModel Gemini (Some m) (Some q) = Some g"
  shows "resolveQuotaGroup Gemini (Some m) (Some q) = g"
  by (rule killswitch_group_agrees [OF assms])

theorem killswitch_group_is_selectors_witness:
  "resolveQuotaGroup Gemini (Some ''gemini-claude-x'') (Some (\<lambda>_. None)) = GNonGemini"
  by (rule killswitch_group_is_selectors) code_simp

text \<open>
  The killswitch excludes an account exactly when it is enabled, the account's quota is cached
  and fresh, the group of the model (or the better group of the family) has a reading, and the
  remaining percentage is below the account's threshold: it fails open in every other case.
\<close>

lemma killswitch_excludes:
  "kd_allowed (evaluateKillswitchForAccount keyOf a fam st opts) = False \<longleftrightarrow>
     ks_enabled st
     \<and> (case fresh_quota opts a of
          None \<Rightarrow> False
        | Some q \<Rightarrow>
            (case (case quotaGroupForModel fam (ko_model opts) (Some q) of
                     Some g \<Rightarrow> remainingPercentForGroup q g
                   | None \<Rightarrow> freshestRemainingPercent q fam) of
               None \<Rightarrow> False | Some p \<Rightarrow> p < account_threshold keyOf st a))"
  unfolding excluded_iff by (auto split: option.split)

text \<open>
  A request is refused by the killswitch exactly when the killswitch is enabled and every
  account is excluded, so one account with a missing, stale or sufficient reading is enough to
  let it pass; the error then summarises every account.
\<close>

lemma killswitch_throws:
  "throwIfAllKilled keyOf fam model accounts st opts \<noteq> None \<longleftrightarrow>
     ks_enabled st \<and> list_all (\<lambda>a. \<not> kd_allowed (evaluateKillswitchForAccount keyOf a fam st opts)) accounts"
  by (rule throw_iff)

section \<open>Retry bookkeeping\<close>

text \<open>
  However many accounts, quota keys, messages and empty responses an interceptor sees, each of
  its four maps holds at most 100 entries; and once it is disposed no call changes it any more.
\<close>

lemma retry_maps_bounded:
  assumes "retry_step\<^sup>*\<^sup>* createRetryState s" "retry_step\<^sup>*\<^sup>* s s'"
  shows "sz_rateLimitState (rs_sizes s) \<le> MAX_MAP_ENTRIES \<and> sz_accountFailure (rs_sizes s) \<le> MAX_MAP_ENTRIES
    \<and> sz_rateLimitToast (rs_sizes s) \<le> MAX_MAP_ENTRIES \<and> sz_emptyResponse (rs_sizes s) \<le> MAX_MAP_ENTRIES
    \<and> (rs_disposed s \<longrightarrow> s' = s)"
proof -
  have "retry_bounded s"
    using assms(1) by (induction rule: rtranclp_induct)
      (simp_all add: retry_step_bounded, simp add: retry_bounded_def createRetryState_def)
  moreover have "s' = s" if "rs_disposed s"
    using assms(2) by (induction rule: rtranclp_induct) (use that retry_disposed_final in \<open>blast+\<close>)
  ultimately show ?thesis by (simp add: retry_bounded_def rs_sizes_def)
qed

theorem retry_maps_bounded_witness:
  "sz_accountFailure (rs_sizes (snd (trackAccountFailure 3 5 createRetryState))) \<le> MAX_MAP_ENTRIES"
  using retry_maps_bounded [OF r_into_rtranclp [of retry_step, OF retry_step.failure] rtranclp.rtrancl_refl] by blast

text \<open>
  The 429 backoff: a repeat within two seconds is a duplicate with the same attempt number, a
  repeat within two minutes is the next attempt, anything later is the first again; and the delay
  lies between the server's \<open>Retry-After\<close> (one second without) and the larger of it and the cap.
\<close>

lemma backoff_attempt_and_delay:
  assumes "\<not> rs_disposed s" "map_of (rs_rateLimit s) (state_key i k) = Some p"
    and "base = nullish ra 1000" "0 \<le> base" "r = fst (getRateLimitBackoff i k ra cap now s)"
  shows "rb_attempt r = (if now - rl_lastAt p < 2000 then rl_consecutive429 p
                         else if now - rl_lastAt p < 120000 then rl_consecutive429 p + 1 else 1)
    \<and> (rb_isDuplicate r \<longleftrightarrow> now - rl_lastAt p < 2000)
    \<and> base \<le> rb_delayMs r \<and> rb_delayMs r \<le> max base cap"
proof -
  have "rb_delayMs r = backoff_delay ra cap (rb_attempt r)"
    using assms(1) by (auto simp: assms(5) getRateLimitBackoff_def Let_def)
  then show ?thesis
    using backoff_attempts [OF assms(1,2), of ra cap now] backoff_delay_range [OF assms(4,3)] by (simp add: assms(5))
qed

theorem backoff_attempt_and_delay_witness:
  "rb_attempt (fst (getRateLimitBackoff 1 ''claude'' None 60000 5000
      (snd (getRateLimitBackoff 1 ''claude'' None 60000 0 createRetryState)))) = 2"
  using backoff_attempt_and_delay [OF _ _ refl _ refl,
      of "snd (getRateLimitBackoff 1 ''claude'' None 60000 0 createRetryState)" 1 "''claude''"
        "\<lparr>rl_consecutive429 = 1, rl_lastAt = 0, rl_quotaKey = ''claude''\<rparr>" None 60000 5000]
  by (simp add: getRateLimitBackoff_def Let_def createRetryState_def evictOldestIfFull_def MAX_MAP_ENTRIES_def update_conv)

text \<open>
  Resetting the rate-limit state of an account drops exactly the entries of that account: the
  textual prefix the code matches on never reaches an account whose index extends it.
\<close>

lemma account_reset_exact:
  assumes "jm_wf (rs_rateLimit s)" "\<not> rs_disposed s"
  shows "map_of (rs_rateLimit (resetAllRateLimitStateForAccount i s)) (state_key j k) =
     (if j = i then None else map_of (rs_rateLimit s) (state_key j k))"
  by (rule reset_account_exact [OF assms])

theorem account_reset_exact_witness:
  "map_of (rs_rateLimit (resetAllRateLimitStateForAccount 1
     (createRetryState\<lparr>rs_rateLimit := [(state_key 12 ''claude'', \<lparr>rl_consecutive429 = 1, rl_lastAt = 0, rl_quotaKey = ''claude''\<rparr>)]\<rparr>)))
     (state_key 12 ''claude'') \<noteq> None"
  by (subst account_reset_exact) (simp_all add: jm_wf_def createRetryState_def)

section \<open>Switching models within a session\<close>

text \<open>
  Sanitizing a payload for a target family is idempotent: the result is a fixed point and the
  second pass strips nothing, so no foreign signature is left in any part of the contents, of
  the messages, of \<open>extra_body\<close> or of a nested request.
\<close>

lemma sanitizer_idempotent:
  "deepSanitizeCrossModelMetadata fam pr (fst (deepSanitizeCrossModelMetadata fam pr v))
     = (fst (deepSanitizeCrossModelMetadata fam pr v), 0)"
  by (rule deep_again)

text \<open>
  The in-place sanitizer and the copying one give the same payload and the same count, for a
  payload without a \<open>requests\<close> array (which only the copying one descends into).
\<close>

lemma in_place_agrees_with_copy:
  assumes "get_arr p ''requests'' = None" "(p', n) = sanitizeCrossModelPayloadInPlace p model pr"
  shows "sanitizeCrossModelPayload (JObj p) model pr =
     \<lparr>sr_payload = JObj p', sr_modified = (0 < n), sr_signaturesStripped = n\<rparr>"
  using inPlace_copy_agree [OF assms(1), of model pr] assms(2) by (metis fst_conv snd_conv)

theorem in_place_agrees_with_copy_witness:
  "sr_signaturesStripped (sanitizeCrossModelPayload
      (JObj [(''contents'', JArr [JObj [(''parts'', JArr [JObj [(''thoughtSignature'', JStr ''x'')]])]])])
      ''claude-opus-5-5'' None) = 1"
proof -
  let ?p = "[(''contents'', JArr [JObj [(''parts'', JArr [JObj [(''thoughtSignature'', JStr ''x'')]])]])]"
  have "snd (sanitizeCrossModelPayloadInPlace ?p ''claude-opus-5-5'' None) = 1" by code_simp
  then show ?thesis
    using in_place_agrees_with_copy [OF _ surjective_pairing [symmetric], of ?p "''claude-opus-5-5''" None]
    by (simp add: get_arr_def)
qed

text \<open>
  Every native model name resolves to itself, so resolution never rewrites a name the server
  already understands, and no native name is treated as a retired route.
\<close>

lemma native_names_fixed:
  "list_all (\<lambda>(n, _). rm_actualModel (resolveModelWithTier n) = n \<and> \<not> isRetiredAgyModel n)
     AGY_NATIVE_MODEL_DEFINITIONS"
  using native_names_resolve_to_themselves native_names_not_retired by (simp add: list_all_iff split_beta)

section \<open>Credentials and stored data\<close>

text \<open>
  The string key of a row reference is injective: two references have the same key exactly
  when they name the same row at the same credential epoch with the same identity.
\<close>

lemma row_key_injective: "rowRefKey a = rowRefKey b \<longleftrightarrow> sameRowRef a b"
  by (simp add: sameRowRef_eq rowRefKey_inj)

text \<open>
  The packed refresh string round-trips: every string parses to well-formed parts, formatting
  them and parsing again gives the same parts, and well-formed parts survive the trip.
\<close>

lemma refresh_round_trip:
  "parts_ok (parseRefreshParts s)
   \<and> parseRefreshParts (formatRefreshParts (parseRefreshParts s)) = parseRefreshParts s
   \<and> (parseRefreshParts (formatRefreshParts p) = p \<or> \<not> parts_ok p)"
  using parse_ok parse_format by blast

theorem refresh_round_trip_witness:
  "parseRefreshParts (formatRefreshParts \<lparr>rp_refreshToken = ''t'', rp_projectId = None, rp_managedProjectId = Some ''m''\<rparr>)
     = \<lparr>rp_refreshToken = ''t'', rp_projectId = None, rp_managedProjectId = Some ''m''\<rparr>"
  using refresh_round_trip [of "''x''" "\<lparr>rp_refreshToken = ''t'', rp_projectId = None, rp_managedProjectId = Some ''m''\<rparr>"]
  by (simp add: parts_ok_def)

text \<open>
  An access token whose expiry was computed from the server's answer is used until one minute
  before the granted seconds have passed since the request, one hour when the server sent no
  number, and not at all when it sent \<open>NaN\<close> or a non-positive number.
\<close>

lemma token_lifetime:
  assumes "truthy_str (oa_access auth)" "oa_expires auth = Some (calculateTokenExpiry t e)"
  shows "accessTokenExpired auth now \<longleftrightarrow>
     (case e of NotANumberType \<Rightarrow> t + 3540000 | IsNaN \<Rightarrow> t - 60000
              | Seconds n \<Rightarrow> t + max 0 n * 1000 - 60000) \<le> now"
  by (rule token_life [OF assms])

theorem token_lifetime_witness:
  "\<not> accessTokenExpired \<lparr>oa_refresh = ''r'', oa_access = Some ''a'',
       oa_expires = Some (calculateTokenExpiry 0 (Seconds 3600))\<rparr> 3539999"
  by (subst token_lifetime [where t = 0 and e = "Seconds 3600"]) simp_all

text \<open>
  Migrating a cached quota with legacy keys leaves no legacy key, and gives each current pool
  the least remaining fraction among the readings that fed it; a quota without legacy keys is
  returned as it is.
\<close>

lemma legacy_quota_migrated:
  assumes "normalizeLegacyCachedQuota (Some m) = Some m'"
  shows "\<not> list_ex (jm_has m') LEGACY_KEYS
    \<and> (if list_ex (jm_has m) LEGACY_KEYS
       then map_option fraction_of (map_of m' ''gemini'')
              = least_fraction (map (map_of m) [''gemini'', ''gemini-pro'', ''gemini-flash''])
          \<and> map_option fraction_of (map_of m' ''non-gemini'')
              = least_fraction (map (map_of m) [''non-gemini'', ''claude'', ''gpt-oss''])
          \<and> map_of m' ''gemini-argon'' = map_of m ''gemini-argon''
       else m' = m)"
  using normalize_no_legacy [OF assms] normalize_map_of [OF assms] assms
  by (auto simp: minFraction3 normalizeLegacyCachedQuota_def)

theorem legacy_quota_migrated_witness:
  "\<not> list_ex (jm_has (the (normalizeLegacyCachedQuota (Some
      [(''claude'', \<lparr>qs_remainingFraction = Some (1/2), qs_resetTime = None, qs_modelCount = 1, qs_windows = None\<rparr>)]))))
      LEGACY_KEYS"
  by (rule legacy_quota_migrated [THEN conjunct1]) (simp add: normalizeLegacyCachedQuota_def Let_def split: if_splits)

end
